(* ===== verification/Prelude.thy ===== *)
theory Prelude
  imports Main "HOL-Library.Word"
begin

text \<open>
  Shared vocabulary of the development: results with errors as values, 64-bit signed
  arithmetic as the Go type \<open>int\<close> has it, subset reasoning on bit sets, and the two
  interfaces every state machine below is an instance of: a system with an inductive
  invariant, and a system simulated by a more abstract one.
\<close>

unbundle bit_operations_syntax

named_theorems go_defs \<open>definitions of the model that the component proofs unfold\<close>

section \<open>Fallible computations\<close>

text \<open>A Go function returning \<open>(T, error)\<close> is a sum: \<open>Inl\<close> the error, \<open>Inr\<close> the value.\<close>

type_synonym ('e, 'a) res = "'e + 'a"

definition rbind :: "('e, 'a) res \<Rightarrow> ('a \<Rightarrow> ('e, 'b) res) \<Rightarrow> ('e, 'b) res" where
  "rbind r f = (case r of Inl e \<Rightarrow> Inl e | Inr x \<Rightarrow> f x)"

lemma rbind_simps [simp]:
  "rbind (Inl e) f = Inl e"
  "rbind (Inr x) f = f x"
  by (simp_all add: rbind_def)

lemma rbind_Inr_iff [simp]:
  "(rbind r f = Inr y) = (\<exists>x. r = Inr x \<and> f x = Inr y)"
  by (cases r) auto

lemma rbind_Inl_iff:
  "(rbind r f = Inl e) = (r = Inl e \<or> (\<exists>x. r = Inr x \<and> f x = Inl e))"
  by (cases r) auto

text \<open>\<open>if !cond { return err }\<close>.\<close>

definition ensure :: "bool \<Rightarrow> 'e \<Rightarrow> ('e, unit) res" where
  "ensure c e = (if c then Inr () else Inl e)"

lemma ensure_simps [simp]:
  "(ensure c e = Inr u) = c"
  "(ensure c e = Inl e') = (\<not> c \<and> e = e')"
  by (auto simp: ensure_def)

section \<open>The Go type \<open>int\<close> (64-bit two's complement)\<close>

definition wrap_int :: "int \<Rightarrow> int" where
  "wrap_int n = (n + 2 ^ 63) mod 2 ^ 64 - 2 ^ 63"

definition max_int :: int where
  "max_int = 2 ^ 63 - 1"

definition min_int :: int where
  "min_int = - (2 ^ 63)"

lemma wrap_int_id: "min_int \<le> n \<Longrightarrow> n \<le> max_int \<Longrightarrow> wrap_int n = n"
  by (simp add: wrap_int_def min_int_def max_int_def)

lemma wrap_int_range: "min_int \<le> wrap_int n \<and> wrap_int n \<le> max_int"
proof -
  have "0 \<le> (n + 2 ^ 63) mod 2 ^ 64" and "(n + 2 ^ 63) mod 2 ^ 64 < 2 ^ 64"
    by simp_all
  then show ?thesis unfolding wrap_int_def min_int_def max_int_def by simp
qed

lemma wrap_int_overflow: "wrap_int (max_int + 1) = min_int"
  by (simp add: wrap_int_def min_int_def max_int_def)

section \<open>Bit sets as machine words\<close>

text \<open>\<open>a &^ b == 0\<close> says that every bit of \<open>a\<close> is a bit of \<open>b\<close>.\<close>

definition wsub :: "'a::len word \<Rightarrow> 'a word \<Rightarrow> bool" where
  "wsub a b \<longleftrightarrow> a AND NOT b = 0"

lemma wsub_bits: "wsub a b \<longleftrightarrow> (\<forall>n. bit a n \<longrightarrow> bit b n)"
  unfolding wsub_def
  by (auto simp: bit_eq_iff bit_simps dest: bit_imp_le_length)

lemma wsub_refl [simp, intro]: "wsub a a"
  by (simp add: wsub_bits)

lemma wsub_zero [simp, intro]: "wsub 0 a"
  by (simp add: wsub_bits)

lemma wsub_or [simp, intro]: "wsub a (a OR b)"
  by (simp add: wsub_bits bit_simps)

lemma wsub_andnot [simp, intro]: "wsub (a AND NOT b) a"
  by (simp add: wsub_bits bit_simps)

lemma wsub_trans: "wsub a b \<Longrightarrow> wsub b c \<Longrightarrow> wsub a c"
  by (simp add: wsub_bits)

lemma wsub_or_least: "wsub a c \<Longrightarrow> wsub b c \<Longrightarrow> wsub (a OR b) c"
  by (auto simp: wsub_bits bit_simps)

lemma wsub_zero_right [simp]: "wsub a 0 = (a = 0)"
  by (simp add: wsub_def)

section \<open>Reachability, invariants, simulation\<close>

inductive reach :: "('s \<Rightarrow> bool) \<Rightarrow> ('s \<Rightarrow> 'e \<Rightarrow> 's \<Rightarrow> bool) \<Rightarrow> 's \<Rightarrow> bool"
  for I :: "'s \<Rightarrow> bool" and T :: "'s \<Rightarrow> 'e \<Rightarrow> 's \<Rightarrow> bool" where
  reach_start: "I s \<Longrightarrow> reach I T s"
| reach_step: "reach I T s \<Longrightarrow> T s e t \<Longrightarrow> reach I T t"

text \<open>A system whose invariant holds initially and is kept by every step.\<close>

locale invariant_system =
  fixes start :: "'s \<Rightarrow> bool"
    and trans :: "'s \<Rightarrow> 'e \<Rightarrow> 's \<Rightarrow> bool"
    and inv :: "'s \<Rightarrow> bool"
  assumes inv_start: "start s \<Longrightarrow> inv s"
    and inv_trans: "inv s \<Longrightarrow> trans s e t \<Longrightarrow> inv t"
begin

lemma inv_reach: "reach start trans s \<Longrightarrow> inv s"
  by (induction rule: reach.induct) (auto intro: inv_start inv_trans)

lemma inv_consequence: "reach start trans s \<Longrightarrow> (inv s \<Longrightarrow> P) \<Longrightarrow> P"
  using inv_reach by blast

end

text \<open>A concrete system all of whose steps are matched, label for label, by an abstract one.\<close>

locale simulated_system =
  fixes cstart :: "'c \<Rightarrow> bool"
    and ctrans :: "'c \<Rightarrow> 'l \<Rightarrow> 'c \<Rightarrow> bool"
    and astart :: "'a \<Rightarrow> bool"
    and atrans :: "'a \<Rightarrow> 'l \<Rightarrow> 'a \<Rightarrow> bool"
    and rel :: "'c \<Rightarrow> 'a \<Rightarrow> bool"
  assumes sim_start: "cstart c \<Longrightarrow> \<exists>a. astart a \<and> rel c a"
    and sim_trans: "rel c a \<Longrightarrow> ctrans c l c' \<Longrightarrow> \<exists>a'. atrans a l a' \<and> rel c' a'"
begin

lemma sim_reach: "reach cstart ctrans c \<Longrightarrow> \<exists>a. reach astart atrans a \<and> rel c a"
proof (induction rule: reach.induct)
  case (reach_start s)
  then show ?case by (meson sim_start reach.reach_start)
next
  case (reach_step s e t)
  then obtain a where "reach astart atrans a" and "rel s a" by blast
  moreover from \<open>rel s a\<close> reach_step.hyps(2) obtain a' where "atrans a e a'" and "rel t a'"
    using sim_trans by blast
  ultimately show ?case by (meson reach.reach_step)
qed

lemma sim_transfer:
  assumes "reach cstart ctrans c" and "\<And>a. reach astart atrans a \<Longrightarrow> P a"
  shows "\<exists>a. rel c a \<and> P a"
  using sim_reach [OF assms(1)] assms(2) by blast

end

end
