(* ===== verification/ProtocolRelation.thy ===== *)
theory ProtocolRelation
  imports Prelude
begin

text \<open>
  The bounded session safety relation of \<open>internal/engine/session/protocol.go\<close>: the closed
  value types, the symbolic state, and the effect-free reducer. Each Go string type is a
  datatype with the declared constants as constructors and one extra constructor for every
  other string, which the domain checks reject; the empty string has its own constructor
  where the code tests for it. Owners, grants and grant sets are \<open>uint8\<close> bit masks.
\<close>

section \<open>Closed value types\<close>

datatype protocol_status =
    ProtocolCreated | ProtocolRunning | ProtocolStopped | ProtocolStatusOther string

datatype protocol_mode =
    ProtocolNormal | ProtocolBlocked | ProtocolTerminal | ProtocolModeOther string

datatype protocol_health =
    ProtocolHealthy | ProtocolUncertain | ProtocolCorrupt | ProtocolStale
  | ProtocolHealthOther string

datatype protocol_operation =
    ProtocolIdle | ProtocolClaim | ProtocolWiden | ProtocolNarrow | ProtocolRecover
  | ProtocolStop | ProtocolTeardown | ProtocolOperationOther string

datatype protocol_effect =
    ProtocolNoEffect | ProtocolCommit | ProtocolApply | ProtocolInspect
  | ProtocolTeardownEffect | ProtocolEffectOther string

datatype protocol_result =
    ProtocolPending | ProtocolSuccess | ProtocolFailure | ProtocolUncertainResult
  | ProtocolResultOther string

datatype protocol_outcome =
    ProtocolNoOutcome | ProtocolKnownOld | ProtocolKnownNew | ProtocolCommitUnknown
  | ProtocolSucceeded | ProtocolMatched | ProtocolObservedCorrupt | ProtocolObservedStale
  | ProtocolTeardownProven | ProtocolTeardownUnknown | ProtocolOutcomeOther string

datatype protocol_truth =
    ProtocolNoTruth | ProtocolOld | ProtocolNew | ProtocolTruthOther string

datatype protocol_direction =
    ProtocolEmptyDirection | ProtocolNoDirection | ProtocolWidenDirection
  | ProtocolNarrowDirection | ProtocolDirectionOther string

datatype protocol_action =
    ProtocolClaimStart | ProtocolClaimCommit | ProtocolRecoverClaim | ProtocolHandoffExact
  | ProtocolReleaseExact | ProtocolWidenStart | ProtocolWidenCommit | ProtocolApplyAction
  | ProtocolInspectAction | ProtocolWidenFinalCommit | ProtocolNarrowStart
  | ProtocolNarrowFinalCommit | ProtocolRecoverEgress | ProtocolObserveInvalidPersistence
  | ProtocolStopStart | ProtocolRequestTeardown | ProtocolTeardownAction
  | ProtocolTerminalStutter | ProtocolActionOther string

datatype protocol_label =
    ProtocolLabelClaimStart | ProtocolLabelClaimCommitNew | ProtocolLabelClaimCommitOld
  | ProtocolLabelClaimCommitUnknown | ProtocolLabelRecoverClaim | ProtocolLabelHandoffExact
  | ProtocolLabelReleaseExact | ProtocolLabelWidenStart | ProtocolLabelWidenCommitNew
  | ProtocolLabelWidenCommitOld | ProtocolLabelWidenCommitUnknown | ProtocolLabelWidenApply
  | ProtocolLabelPositiveInspect | ProtocolLabelWidenFinalCommitNew
  | ProtocolLabelWidenFinalCommitOld | ProtocolLabelWidenFinalCommitUnknown
  | ProtocolLabelNarrowStart | ProtocolLabelNarrowApply | ProtocolLabelNarrowFinalCommitNew
  | ProtocolLabelNarrowFinalCommitOld | ProtocolLabelNarrowFinalCommitUnknown
  | ProtocolLabelRecoverEgress | ProtocolLabelObserveInvalidPersistence
  | ProtocolLabelStopStart | ProtocolLabelRequestTeardown | ProtocolLabelTeardownProven
  | ProtocolLabelTeardownUnknown | ProtocolLabelTerminalStutter

type_synonym protocol_owner = "8 word"
type_synonym protocol_grant = "8 word"
type_synonym protocol_grant_set = "8 word"

definition ProtocolOwnerA :: protocol_owner where "ProtocolOwnerA = 1"
definition ProtocolOwnerB :: protocol_owner where "ProtocolOwnerB = 2"
definition ProtocolGrantA :: protocol_grant where "ProtocolGrantA = 1"
definition ProtocolGrantB :: protocol_grant where "ProtocolGrantB = 2"

lemmas protocol_mask_defs [go_defs] =
  ProtocolOwnerA_def ProtocolOwnerB_def ProtocolGrantA_def ProtocolGrantB_def

record ProtocolBounds =
  MaxRevision :: int
  BoundGrants :: "protocol_grant list"

record ProtocolGeneration =
  genAuthority :: protocol_grant_set
  genRevision :: int
  genValid :: bool

record ProtocolState =
  psStatus :: protocol_status
  psOwners :: protocol_owner
  psDetached :: bool
  psDurableAuthority :: protocol_grant_set
  psDurableRevision :: int
  psRecordedGeneration :: ProtocolGeneration
  psRuntimeAuthority :: protocol_grant_set
  psRuntimeGeneration :: ProtocolGeneration
  psInspectedGeneration :: ProtocolGeneration
  psHealth :: protocol_health
  psMode :: protocol_mode
  psOperation :: protocol_operation
  psEffect :: protocol_effect
  psResult :: protocol_result
  psPendingAuthority :: protocol_grant_set
  psPendingRevision :: int
  psDirection :: protocol_direction

record ProtocolEvent =
  evAction :: protocol_action
  evOutcome :: protocol_outcome
  evGrant :: protocol_grant
  evTruth :: protocol_truth

section \<open>Generations, grant sets and bounds\<close>

definition protocolGeneration :: "protocol_grant_set \<Rightarrow> int \<Rightarrow> ProtocolGeneration" where
  "protocolGeneration authority revision =
     \<lparr>genAuthority = authority, genRevision = revision, genValid = True\<rparr>"

definition protocolNoGeneration :: ProtocolGeneration where
  "protocolNoGeneration = \<lparr>genAuthority = 0, genRevision = -1, genValid = False\<rparr>"

definition grantSetHas :: "protocol_grant_set \<Rightarrow> protocol_grant \<Rightarrow> bool" where
  "grantSetHas s grant \<longleftrightarrow> s AND grant \<noteq> 0"

definition grantSetEmpty :: "protocol_grant_set \<Rightarrow> bool" where
  "grantSetEmpty s \<longleftrightarrow> s = 0"

definition normalizeProtocolBounds :: "ProtocolBounds \<Rightarrow> ProtocolBounds" where
  "normalizeProtocolBounds bounds =
     \<lparr>MaxRevision = (if MaxRevision bounds \<le> 0 then 2 else MaxRevision bounds),
      BoundGrants = (if BoundGrants bounds = [] then [ProtocolGrantA, ProtocolGrantB]
                     else BoundGrants bounds)\<rparr>"

definition protocolGrantMask :: "ProtocolBounds \<Rightarrow> protocol_grant_set" where
  "protocolGrantMask bounds =
     foldl (\<lambda>gmask grant. gmask OR grant) 0 (BoundGrants (normalizeProtocolBounds bounds))"

text \<open>The zero value \<open>ProtocolBounds{}\<close> and the zero value of a state.\<close>

definition zeroBounds :: ProtocolBounds where
  "zeroBounds = \<lparr>MaxRevision = 0, BoundGrants = []\<rparr>"

definition InitialProtocolStates :: "ProtocolBounds \<Rightarrow> ProtocolState list" where
  "InitialProtocolStates bounds =
     (let generation = protocolGeneration 0 0 in
      [\<lparr>psStatus = ProtocolCreated, psOwners = 0, psDetached = False,
        psDurableAuthority = 0, psDurableRevision = 0,
        psRecordedGeneration = generation, psRuntimeAuthority = 0,
        psRuntimeGeneration = generation, psInspectedGeneration = generation,
        psHealth = ProtocolHealthy, psMode = ProtocolNormal, psOperation = ProtocolIdle,
        psEffect = ProtocolNoEffect, psResult = ProtocolPending,
        psPendingAuthority = 0, psPendingRevision = 0,
        psDirection = ProtocolNoDirection\<rparr>])"

definition initialProtocolState :: ProtocolState where
  "initialProtocolState = hd (InitialProtocolStates zeroBounds)"

definition normalizeGeneration :: "ProtocolGeneration \<Rightarrow> ProtocolGeneration" where
  "normalizeGeneration g = (if genValid g then g else protocolNoGeneration)"

definition NormalizeProtocolState :: "ProtocolState \<Rightarrow> ProtocolState" where
  "NormalizeProtocolState s =
     s\<lparr>psRecordedGeneration := normalizeGeneration (psRecordedGeneration s),
       psRuntimeGeneration := normalizeGeneration (psRuntimeGeneration s),
       psInspectedGeneration := normalizeGeneration (psInspectedGeneration s),
       psDirection := (if psDirection s = ProtocolEmptyDirection then ProtocolNoDirection
                       else psDirection s)\<rparr>"

section \<open>Guards and shared state updates\<close>

definition protocolEmptyEvent :: "ProtocolEvent \<Rightarrow> bool" where
  "protocolEmptyEvent e \<longleftrightarrow>
     evOutcome e = ProtocolNoOutcome \<and> evGrant e = 0 \<and> evTruth e = ProtocolNoTruth"

definition protocolCommitEvent :: "ProtocolEvent \<Rightarrow> bool" where
  "protocolCommitEvent e =
     (case evOutcome e of
        ProtocolKnownOld \<Rightarrow> evTruth e = ProtocolNoTruth
      | ProtocolKnownNew \<Rightarrow> evTruth e = ProtocolNoTruth
      | ProtocolCommitUnknown \<Rightarrow> evTruth e = ProtocolOld \<or> evTruth e = ProtocolNew
      | _ \<Rightarrow> False)"

definition protocolSingleGrant :: "ProtocolBounds \<Rightarrow> protocol_grant \<Rightarrow> bool" where
  "protocolSingleGrant bounds grant =
     (if grant = 0 \<or> grant AND (grant - 1) \<noteq> 0 then False
      else grantSetHas (protocolGrantMask bounds) grant)"

definition protocolPendingIsDurable :: "ProtocolState \<Rightarrow> bool" where
  "protocolPendingIsDurable s \<longleftrightarrow>
     psDurableAuthority s = psPendingAuthority s \<and> psDurableRevision s = psPendingRevision s"

definition blockProtocolRecovery :: "ProtocolState \<Rightarrow> protocol_result \<Rightarrow> ProtocolState" where
  "blockProtocolRecovery s result =
     s\<lparr>psHealth := ProtocolUncertain, psMode := ProtocolBlocked,
       psOperation := ProtocolRecover, psEffect := ProtocolInspect, psResult := result\<rparr>"

definition resetProtocol :: "ProtocolState \<Rightarrow> protocol_result \<Rightarrow> ProtocolState" where
  "resetProtocol s result =
     NormalizeProtocolState
       (s\<lparr>psOperation := ProtocolIdle, psEffect := ProtocolNoEffect, psResult := result,
          psPendingAuthority := 0, psPendingRevision := 0,
          psDirection := ProtocolNoDirection\<rparr>)"

definition healProtocol :: "ProtocolState \<Rightarrow> ProtocolState" where
  "healProtocol s = s\<lparr>psHealth := ProtocolHealthy, psMode := ProtocolNormal\<rparr>"

section \<open>The domain check\<close>

fun protocolStatusInDomain :: "protocol_status \<Rightarrow> bool" where
  "protocolStatusInDomain (ProtocolStatusOther _) = False"
| "protocolStatusInDomain _ = True"

fun protocolModeInDomain :: "protocol_mode \<Rightarrow> bool" where
  "protocolModeInDomain (ProtocolModeOther _) = False"
| "protocolModeInDomain _ = True"

fun protocolHealthInDomain :: "protocol_health \<Rightarrow> bool" where
  "protocolHealthInDomain (ProtocolHealthOther _) = False"
| "protocolHealthInDomain _ = True"

fun protocolOperationInDomain :: "protocol_operation \<Rightarrow> bool" where
  "protocolOperationInDomain (ProtocolOperationOther _) = False"
| "protocolOperationInDomain _ = True"

fun protocolEffectInDomain :: "protocol_effect \<Rightarrow> bool" where
  "protocolEffectInDomain (ProtocolEffectOther _) = False"
| "protocolEffectInDomain _ = True"

fun protocolResultInDomain :: "protocol_result \<Rightarrow> bool" where
  "protocolResultInDomain (ProtocolResultOther _) = False"
| "protocolResultInDomain _ = True"

fun protocolDirectionInDomain :: "protocol_direction \<Rightarrow> bool" where
  "protocolDirectionInDomain ProtocolNoDirection = True"
| "protocolDirectionInDomain ProtocolWidenDirection = True"
| "protocolDirectionInDomain ProtocolNarrowDirection = True"
| "protocolDirectionInDomain _ = False"

definition protocolGenerationInDomain ::
  "ProtocolBounds \<Rightarrow> protocol_grant_set \<Rightarrow> ProtocolGeneration \<Rightarrow> bool" where
  "protocolGenerationInDomain bounds gmask g =
     (if genValid g
      then \<not> (genRevision g < 0 \<or> genRevision g > MaxRevision bounds
              \<or> genAuthority g AND NOT gmask \<noteq> 0)
      else g = protocolNoGeneration)"

definition protocolStateInDomain :: "ProtocolBounds \<Rightarrow> ProtocolState \<Rightarrow> bool" where
  "protocolStateInDomain bounds0 s =
     (let bounds = normalizeProtocolBounds bounds0; gmask = protocolGrantMask bounds in
      if psOwners s AND NOT (ProtocolOwnerA OR ProtocolOwnerB) \<noteq> 0
         \<or> psDurableAuthority s AND NOT gmask \<noteq> 0 \<or> psRuntimeAuthority s AND NOT gmask \<noteq> 0
         \<or> psPendingAuthority s AND NOT gmask \<noteq> 0 then False
      else if psDurableRevision s < 0 \<or> psDurableRevision s > MaxRevision bounds
         \<or> psPendingRevision s < 0 \<or> psPendingRevision s > MaxRevision bounds then False
      else if \<not> list_all (protocolGenerationInDomain bounds gmask)
             [psRecordedGeneration s, psRuntimeGeneration s, psInspectedGeneration s] then False
      else protocolStatusInDomain (psStatus s) \<and> protocolModeInDomain (psMode s)
         \<and> protocolHealthInDomain (psHealth s) \<and> protocolOperationInDomain (psOperation s)
         \<and> protocolEffectInDomain (psEffect s) \<and> protocolResultInDomain (psResult s)
         \<and> protocolDirectionInDomain (psDirection s))"

section \<open>The reducer\<close>

text \<open>
  One function per action of \<open>ReduceProtocolWithin\<close>. \<open>None\<close> is the source's
  \<open>return state, false\<close>; \<open>Some next\<close> is the next state before the final
  \<open>NormalizeProtocolState\<close>.
\<close>

definition reduceClaimStart :: "ProtocolState \<Rightarrow> ProtocolEvent \<Rightarrow> ProtocolState option" where
  "reduceClaimStart s e =
     (if \<not> protocolEmptyEvent e \<or> psStatus s \<noteq> ProtocolCreated \<or> psMode s \<noteq> ProtocolNormal
         \<or> psOperation s \<noteq> ProtocolIdle then None
      else Some (s\<lparr>psOperation := ProtocolClaim, psEffect := ProtocolCommit,
                   psResult := ProtocolPending\<rparr>))"

definition claimOwner :: "ProtocolState \<Rightarrow> ProtocolState" where
  "claimOwner s = s\<lparr>psStatus := ProtocolRunning, psOwners := ProtocolOwnerA, psDetached := False\<rparr>"

definition reduceClaimCommit :: "ProtocolState \<Rightarrow> ProtocolEvent \<Rightarrow> ProtocolState option" where
  "reduceClaimCommit s e =
     (if evGrant e \<noteq> 0 \<or> psOperation s \<noteq> ProtocolClaim \<or> psEffect s \<noteq> ProtocolCommit
         \<or> \<not> protocolCommitEvent e then None
      else case evOutcome e of
        ProtocolKnownNew \<Rightarrow> Some (resetProtocol (claimOwner s) ProtocolSuccess)
      | ProtocolKnownOld \<Rightarrow> Some (resetProtocol s ProtocolFailure)
      | ProtocolCommitUnknown \<Rightarrow>
          Some (blockProtocolRecovery (if evTruth e = ProtocolNew then claimOwner s else s)
                  ProtocolUncertainResult)
      | _ \<Rightarrow> None)"

definition reduceRecoverClaim :: "ProtocolState \<Rightarrow> ProtocolEvent \<Rightarrow> ProtocolState option" where
  "reduceRecoverClaim s e =
     (if \<not> protocolEmptyEvent e \<or> psOperation s \<noteq> ProtocolRecover
         \<or> psDirection s \<noteq> ProtocolNoDirection \<or> psEffect s \<noteq> ProtocolInspect then None
      else let next = healProtocol s in
        if psStatus s = ProtocolRunning then Some (resetProtocol next ProtocolSuccess)
        else Some (resetProtocol next ProtocolFailure))"

definition reduceHandoffExact :: "ProtocolState \<Rightarrow> ProtocolEvent \<Rightarrow> ProtocolState option" where
  "reduceHandoffExact s e =
     (if \<not> protocolEmptyEvent e \<or> psStatus s \<noteq> ProtocolRunning \<or> psMode s \<noteq> ProtocolNormal
         \<or> psOperation s \<noteq> ProtocolIdle \<or> psOwners s \<noteq> ProtocolOwnerA \<or> psDetached s then None
      else Some (s\<lparr>psOwners := ProtocolOwnerB, psDetached := True\<rparr>))"

definition reduceReleaseExact :: "ProtocolState \<Rightarrow> ProtocolEvent \<Rightarrow> ProtocolState option" where
  "reduceReleaseExact s e =
     (if \<not> protocolEmptyEvent e \<or> psStatus s \<noteq> ProtocolRunning \<or> psMode s \<noteq> ProtocolNormal
         \<or> psOperation s \<noteq> ProtocolIdle \<or> psOwners s \<noteq> ProtocolOwnerA \<or> psDetached s then None
      else Some (s\<lparr>psStatus := ProtocolCreated, psOwners := 0, psDetached := False,
                   psResult := ProtocolFailure\<rparr>))"

definition reduceWidenStart ::
  "ProtocolBounds \<Rightarrow> ProtocolState \<Rightarrow> ProtocolEvent \<Rightarrow> ProtocolState option" where
  "reduceWidenStart bounds s e =
     (if evOutcome e \<noteq> ProtocolNoOutcome \<or> evTruth e \<noteq> ProtocolNoTruth
         \<or> psStatus s \<noteq> ProtocolRunning \<or> psMode s \<noteq> ProtocolNormal
         \<or> psOperation s \<noteq> ProtocolIdle \<or> \<not> protocolSingleGrant bounds (evGrant e)
         \<or> grantSetHas (psDurableAuthority s) (evGrant e)
         \<or> psDurableRevision s \<ge> MaxRevision bounds then None
      else Some (s\<lparr>psOperation := ProtocolWiden, psEffect := ProtocolCommit,
                   psResult := ProtocolPending,
                   psPendingAuthority := psDurableAuthority s OR evGrant e,
                   psPendingRevision := psDurableRevision s + 1,
                   psDirection := ProtocolWidenDirection\<rparr>))"

definition installPending :: "ProtocolState \<Rightarrow> ProtocolState" where
  "installPending s =
     s\<lparr>psDurableAuthority := psPendingAuthority s, psDurableRevision := psPendingRevision s\<rparr>"

definition pendingGeneration :: "ProtocolState \<Rightarrow> ProtocolGeneration" where
  "pendingGeneration s = protocolGeneration (psPendingAuthority s) (psPendingRevision s)"

definition durableGeneration :: "ProtocolState \<Rightarrow> ProtocolGeneration" where
  "durableGeneration s = protocolGeneration (psDurableAuthority s) (psDurableRevision s)"

definition reduceWidenCommit :: "ProtocolState \<Rightarrow> ProtocolEvent \<Rightarrow> ProtocolState option" where
  "reduceWidenCommit s e =
     (if evGrant e \<noteq> 0 \<or> psOperation s \<noteq> ProtocolWiden
         \<or> psDirection s \<noteq> ProtocolWidenDirection \<or> psEffect s \<noteq> ProtocolCommit
         \<or> protocolPendingIsDurable s \<or> \<not> protocolCommitEvent e then None
      else case evOutcome e of
        ProtocolKnownNew \<Rightarrow> Some ((installPending s)\<lparr>psEffect := ProtocolApply\<rparr>)
      | ProtocolKnownOld \<Rightarrow> Some (resetProtocol s ProtocolFailure)
      | ProtocolCommitUnknown \<Rightarrow>
          Some (blockProtocolRecovery (if evTruth e = ProtocolNew then installPending s else s)
                  ProtocolUncertainResult)
      | _ \<Rightarrow> None)"

definition reduceApply :: "ProtocolState \<Rightarrow> ProtocolEvent \<Rightarrow> ProtocolState option" where
  "reduceApply s e =
     (if evOutcome e \<noteq> ProtocolSucceeded \<or> evGrant e \<noteq> 0 \<or> evTruth e \<noteq> ProtocolNoTruth
         \<or> psEffect s \<noteq> ProtocolApply then None
      else if (psDirection s = ProtocolWidenDirection
               \<and> (psOperation s = ProtocolWiden \<or> psOperation s = ProtocolRecover)
               \<and> protocolPendingIsDurable s)
              \<or> (psDirection s = ProtocolNarrowDirection \<and> psOperation s = ProtocolNarrow)
      then Some (s\<lparr>psRuntimeAuthority := psPendingAuthority s,
                   psRuntimeGeneration := pendingGeneration s,
                   psEffect := ProtocolInspect\<rparr>)
      else None)"

definition reduceInspect :: "ProtocolState \<Rightarrow> ProtocolEvent \<Rightarrow> ProtocolState option" where
  "reduceInspect s e =
     (if evOutcome e \<noteq> ProtocolMatched \<or> evGrant e \<noteq> 0 \<or> evTruth e \<noteq> ProtocolNoTruth
         \<or> psEffect s \<noteq> ProtocolInspect
         \<or> (psOperation s \<noteq> ProtocolWiden \<and> psOperation s \<noteq> ProtocolNarrow)
         \<or> psRuntimeGeneration s \<noteq> pendingGeneration s then None
      else Some (s\<lparr>psInspectedGeneration := psRuntimeGeneration s, psEffect := ProtocolCommit\<rparr>))"

definition recordPending :: "ProtocolState \<Rightarrow> ProtocolState" where
  "recordPending s = s\<lparr>psRecordedGeneration := pendingGeneration s\<rparr>"

definition reduceWidenFinalCommit ::
  "ProtocolState \<Rightarrow> ProtocolEvent \<Rightarrow> ProtocolState option" where
  "reduceWidenFinalCommit s e =
     (if evGrant e \<noteq> 0 \<or> psOperation s \<noteq> ProtocolWiden
         \<or> psDirection s \<noteq> ProtocolWidenDirection \<or> psEffect s \<noteq> ProtocolCommit
         \<or> \<not> protocolPendingIsDurable s \<or> psInspectedGeneration s \<noteq> pendingGeneration s
         \<or> \<not> protocolCommitEvent e then None
      else case evOutcome e of
        ProtocolKnownNew \<Rightarrow> Some (resetProtocol (healProtocol (recordPending s)) ProtocolSuccess)
      | ProtocolKnownOld \<Rightarrow> Some (blockProtocolRecovery s ProtocolFailure)
      | ProtocolCommitUnknown \<Rightarrow>
          Some (blockProtocolRecovery (if evTruth e = ProtocolNew then recordPending s else s)
                  ProtocolUncertainResult)
      | _ \<Rightarrow> None)"

definition reduceNarrowStart ::
  "ProtocolBounds \<Rightarrow> ProtocolState \<Rightarrow> ProtocolEvent \<Rightarrow> ProtocolState option" where
  "reduceNarrowStart bounds s e =
     (if evOutcome e \<noteq> ProtocolNoOutcome \<or> evTruth e \<noteq> ProtocolNoTruth
         \<or> psStatus s \<noteq> ProtocolRunning \<or> psMode s \<noteq> ProtocolNormal
         \<or> psOperation s \<noteq> ProtocolIdle \<or> \<not> protocolSingleGrant bounds (evGrant e)
         \<or> \<not> grantSetHas (psDurableAuthority s) (evGrant e)
         \<or> psDurableRevision s \<ge> MaxRevision bounds then None
      else Some (s\<lparr>psOperation := ProtocolNarrow, psEffect := ProtocolApply,
                   psResult := ProtocolPending,
                   psPendingAuthority := psDurableAuthority s AND NOT (evGrant e),
                   psPendingRevision := psDurableRevision s + 1,
                   psDirection := ProtocolNarrowDirection\<rparr>))"

definition reduceNarrowFinalCommit ::
  "ProtocolState \<Rightarrow> ProtocolEvent \<Rightarrow> ProtocolState option" where
  "reduceNarrowFinalCommit s e =
     (if evGrant e \<noteq> 0 \<or> psOperation s \<noteq> ProtocolNarrow
         \<or> psDirection s \<noteq> ProtocolNarrowDirection \<or> psEffect s \<noteq> ProtocolCommit
         \<or> psInspectedGeneration s \<noteq> pendingGeneration s \<or> \<not> protocolCommitEvent e then None
      else case evOutcome e of
        ProtocolKnownNew \<Rightarrow>
          Some (resetProtocol (healProtocol (recordPending (installPending s))) ProtocolSuccess)
      | ProtocolKnownOld \<Rightarrow>
          Some (resetProtocol
                  (s\<lparr>psRuntimeAuthority := psDurableAuthority s,
                     psRuntimeGeneration := durableGeneration s,
                     psInspectedGeneration := durableGeneration s\<rparr>) ProtocolFailure)
      | ProtocolCommitUnknown \<Rightarrow>
          Some (blockProtocolRecovery
                  (if evTruth e = ProtocolNew then recordPending (installPending s) else s)
                  ProtocolUncertainResult)
      | _ \<Rightarrow> None)"

definition reduceRecoverEgress :: "ProtocolState \<Rightarrow> ProtocolEvent \<Rightarrow> ProtocolState option" where
  "reduceRecoverEgress s e =
     (if \<not> protocolEmptyEvent e \<or> psOperation s \<noteq> ProtocolRecover
         \<or> (psDirection s \<noteq> ProtocolWidenDirection \<and> psDirection s \<noteq> ProtocolNarrowDirection)
         \<or> psEffect s \<noteq> ProtocolInspect then None
      else let next = healProtocol
                        (s\<lparr>psRuntimeAuthority := psDurableAuthority s,
                           psRuntimeGeneration := durableGeneration s,
                           psInspectedGeneration := durableGeneration s,
                           psRecordedGeneration := durableGeneration s\<rparr>) in
        if protocolPendingIsDurable s then Some (resetProtocol next ProtocolSuccess)
        else Some (resetProtocol next ProtocolFailure))"

definition reduceObserveInvalid :: "ProtocolState \<Rightarrow> ProtocolEvent \<Rightarrow> ProtocolState option" where
  "reduceObserveInvalid s e =
     (let blocked = (\<lambda>h. s\<lparr>psHealth := h, psMode := ProtocolBlocked,
                            psOperation := ProtocolRecover, psResult := ProtocolFailure\<rparr>) in
      if evGrant e \<noteq> 0 \<or> evTruth e \<noteq> ProtocolNoTruth \<or> psStatus s \<noteq> ProtocolCreated
         \<or> psMode s \<noteq> ProtocolNormal \<or> psOperation s \<noteq> ProtocolIdle then None
      else case evOutcome e of
        ProtocolObservedCorrupt \<Rightarrow> Some (blocked ProtocolCorrupt)
      | ProtocolObservedStale \<Rightarrow> Some (blocked ProtocolStale)
      | _ \<Rightarrow> None)"

definition reduceStopStart :: "ProtocolState \<Rightarrow> ProtocolEvent \<Rightarrow> ProtocolState option" where
  "reduceStopStart s e =
     (if \<not> protocolEmptyEvent e \<or> psStatus s \<noteq> ProtocolRunning \<or> psMode s \<noteq> ProtocolNormal
         \<or> psOperation s \<noteq> ProtocolIdle then None
      else Some (s\<lparr>psOperation := ProtocolStop, psEffect := ProtocolTeardownEffect,
                   psResult := ProtocolPending\<rparr>))"

definition reduceRequestTeardown :: "ProtocolState \<Rightarrow> ProtocolEvent \<Rightarrow> ProtocolState option" where
  "reduceRequestTeardown s e =
     (if \<not> protocolEmptyEvent e \<or> psMode s \<noteq> ProtocolBlocked
         \<or> psEffect s = ProtocolTeardownEffect then None
      else Some (s\<lparr>psOperation := ProtocolTeardown, psEffect := ProtocolTeardownEffect,
                   psResult := ProtocolPending\<rparr>))"

definition reduceTeardown :: "ProtocolState \<Rightarrow> ProtocolEvent \<Rightarrow> ProtocolState option" where
  "reduceTeardown s e =
     (if evGrant e \<noteq> 0 \<or> evTruth e \<noteq> ProtocolNoTruth \<or> psEffect s \<noteq> ProtocolTeardownEffect
         \<or> (psOperation s \<noteq> ProtocolStop \<and> psOperation s \<noteq> ProtocolTeardown) then None
      else case evOutcome e of
        ProtocolTeardownProven \<Rightarrow>
          Some (s\<lparr>psStatus := ProtocolStopped, psOwners := 0, psDetached := False,
                  psRuntimeAuthority := 0, psRuntimeGeneration := protocolNoGeneration,
                  psInspectedGeneration := protocolNoGeneration,
                  psHealth := ProtocolHealthy, psMode := ProtocolTerminal,
                  psOperation := ProtocolIdle, psEffect := ProtocolNoEffect,
                  psResult := ProtocolFailure, psPendingAuthority := 0,
                  psPendingRevision := 0, psDirection := ProtocolNoDirection\<rparr>)
      | ProtocolTeardownUnknown \<Rightarrow>
          Some (s\<lparr>psHealth := ProtocolUncertain, psMode := ProtocolBlocked,
                  psOperation := ProtocolTeardown, psEffect := ProtocolTeardownEffect,
                  psResult := ProtocolUncertainResult\<rparr>)
      | _ \<Rightarrow> None)"

definition reduceTerminalStutter :: "ProtocolState \<Rightarrow> ProtocolEvent \<Rightarrow> ProtocolState option" where
  "reduceTerminalStutter s e =
     (if \<not> protocolEmptyEvent e \<or> psStatus s \<noteq> ProtocolStopped then None else Some s)"

fun reduceAction ::
  "protocol_action \<Rightarrow> ProtocolBounds \<Rightarrow> ProtocolState \<Rightarrow> ProtocolEvent \<Rightarrow> ProtocolState option" where
  "reduceAction ProtocolClaimStart bounds s e = reduceClaimStart s e"
| "reduceAction ProtocolClaimCommit bounds s e = reduceClaimCommit s e"
| "reduceAction ProtocolRecoverClaim bounds s e = reduceRecoverClaim s e"
| "reduceAction ProtocolHandoffExact bounds s e = reduceHandoffExact s e"
| "reduceAction ProtocolReleaseExact bounds s e = reduceReleaseExact s e"
| "reduceAction ProtocolWidenStart bounds s e = reduceWidenStart bounds s e"
| "reduceAction ProtocolWidenCommit bounds s e = reduceWidenCommit s e"
| "reduceAction ProtocolApplyAction bounds s e = reduceApply s e"
| "reduceAction ProtocolInspectAction bounds s e = reduceInspect s e"
| "reduceAction ProtocolWidenFinalCommit bounds s e = reduceWidenFinalCommit s e"
| "reduceAction ProtocolNarrowStart bounds s e = reduceNarrowStart bounds s e"
| "reduceAction ProtocolNarrowFinalCommit bounds s e = reduceNarrowFinalCommit s e"
| "reduceAction ProtocolRecoverEgress bounds s e = reduceRecoverEgress s e"
| "reduceAction ProtocolObserveInvalidPersistence bounds s e = reduceObserveInvalid s e"
| "reduceAction ProtocolStopStart bounds s e = reduceStopStart s e"
| "reduceAction ProtocolRequestTeardown bounds s e = reduceRequestTeardown s e"
| "reduceAction ProtocolTeardownAction bounds s e = reduceTeardown s e"
| "reduceAction ProtocolTerminalStutter bounds s e = reduceTerminalStutter s e"
| "reduceAction (ProtocolActionOther _) bounds s e = None"

definition ReduceProtocolWithin ::
  "ProtocolBounds \<Rightarrow> ProtocolState \<Rightarrow> ProtocolEvent \<Rightarrow> ProtocolState \<times> bool" where
  "ReduceProtocolWithin bounds0 state0 e =
     (let bounds = normalizeProtocolBounds bounds0; s = NormalizeProtocolState state0 in
      if \<not> protocolStateInDomain bounds s then (s, False)
      else case reduceAction (evAction e) bounds s e of
        None \<Rightarrow> (s, False)
      | Some next \<Rightarrow> (NormalizeProtocolState next, True))"

definition ReduceProtocol :: "ProtocolState \<Rightarrow> ProtocolEvent \<Rightarrow> ProtocolState \<times> bool" where
  "ReduceProtocol s e = ReduceProtocolWithin zeroBounds s e"

definition ReduceProtocolUnknownCommit ::
  "ProtocolState \<Rightarrow> protocol_action \<Rightarrow> ProtocolState \<times> ProtocolState \<times> bool" where
  "ReduceProtocolUnknownCommit s action =
     (let ev = (\<lambda>t. \<lparr>evAction = action, evOutcome = ProtocolCommitUnknown, evGrant = 0,
                      evTruth = t\<rparr>);
          (oldWorld, oldOK) = ReduceProtocol s (ev ProtocolOld);
          (newWorld, newOK) = ReduceProtocol s (ev ProtocolNew)
      in (oldWorld, newWorld, oldOK \<and> newOK))"

section \<open>Enabled events and labels\<close>

definition protocolActions :: "protocol_action list" where
  "protocolActions =
     [ProtocolClaimStart, ProtocolClaimCommit, ProtocolRecoverClaim, ProtocolHandoffExact,
      ProtocolReleaseExact, ProtocolWidenStart, ProtocolWidenCommit, ProtocolApplyAction,
      ProtocolInspectAction, ProtocolWidenFinalCommit, ProtocolNarrowStart,
      ProtocolNarrowFinalCommit, ProtocolRecoverEgress, ProtocolObserveInvalidPersistence,
      ProtocolStopStart, ProtocolRequestTeardown, ProtocolTeardownAction,
      ProtocolTerminalStutter]"

definition protocolOutcomes :: "protocol_outcome list" where
  "protocolOutcomes =
     [ProtocolNoOutcome, ProtocolKnownOld, ProtocolKnownNew, ProtocolCommitUnknown,
      ProtocolSucceeded, ProtocolMatched, ProtocolObservedCorrupt, ProtocolObservedStale,
      ProtocolTeardownProven, ProtocolTeardownUnknown]"

definition protocolTruths :: "protocol_truth list" where
  "protocolTruths = [ProtocolNoTruth, ProtocolOld, ProtocolNew]"

definition EnabledProtocolWithin :: "ProtocolBounds \<Rightarrow> ProtocolState \<Rightarrow> ProtocolEvent list" where
  "EnabledProtocolWithin bounds0 s =
     (let bounds = normalizeProtocolBounds bounds0 in
      [ev. action \<leftarrow> protocolActions, outcome \<leftarrow> protocolOutcomes,
           grant \<leftarrow> 0 # BoundGrants bounds, truth \<leftarrow> protocolTruths,
           ev \<leftarrow> [\<lparr>evAction = action, evOutcome = outcome, evGrant = grant, evTruth = truth\<rparr>],
           snd (ReduceProtocolWithin bounds s ev)])"

definition EnabledProtocol :: "ProtocolState \<Rightarrow> ProtocolEvent list" where
  "EnabledProtocol s = EnabledProtocolWithin zeroBounds s"

definition protocolCommitLabel ::
  "protocol_outcome \<Rightarrow> protocol_label \<Rightarrow> protocol_label \<Rightarrow> protocol_label \<Rightarrow> protocol_label option"
  where
  "protocolCommitLabel outcome knownNew knownOld unknown =
     (case outcome of
        ProtocolKnownNew \<Rightarrow> Some knownNew
      | ProtocolKnownOld \<Rightarrow> Some knownOld
      | ProtocolCommitUnknown \<Rightarrow> Some unknown
      | _ \<Rightarrow> None)"

text \<open>The label the code gives to an event it accepted.\<close>

definition acceptedLabel :: "ProtocolState \<Rightarrow> ProtocolEvent \<Rightarrow> protocol_label option" where
  "acceptedLabel s e =
     (case evAction e of
        ProtocolClaimStart \<Rightarrow> Some ProtocolLabelClaimStart
      | ProtocolClaimCommit \<Rightarrow>
          protocolCommitLabel (evOutcome e) ProtocolLabelClaimCommitNew
            ProtocolLabelClaimCommitOld ProtocolLabelClaimCommitUnknown
      | ProtocolRecoverClaim \<Rightarrow> Some ProtocolLabelRecoverClaim
      | ProtocolHandoffExact \<Rightarrow> Some ProtocolLabelHandoffExact
      | ProtocolReleaseExact \<Rightarrow> Some ProtocolLabelReleaseExact
      | ProtocolWidenStart \<Rightarrow> Some ProtocolLabelWidenStart
      | ProtocolWidenCommit \<Rightarrow>
          protocolCommitLabel (evOutcome e) ProtocolLabelWidenCommitNew
            ProtocolLabelWidenCommitOld ProtocolLabelWidenCommitUnknown
      | ProtocolApplyAction \<Rightarrow>
          Some (if psDirection s = ProtocolWidenDirection then ProtocolLabelWidenApply
                else ProtocolLabelNarrowApply)
      | ProtocolInspectAction \<Rightarrow> Some ProtocolLabelPositiveInspect
      | ProtocolWidenFinalCommit \<Rightarrow>
          protocolCommitLabel (evOutcome e) ProtocolLabelWidenFinalCommitNew
            ProtocolLabelWidenFinalCommitOld ProtocolLabelWidenFinalCommitUnknown
      | ProtocolNarrowStart \<Rightarrow> Some ProtocolLabelNarrowStart
      | ProtocolNarrowFinalCommit \<Rightarrow>
          protocolCommitLabel (evOutcome e) ProtocolLabelNarrowFinalCommitNew
            ProtocolLabelNarrowFinalCommitOld ProtocolLabelNarrowFinalCommitUnknown
      | ProtocolRecoverEgress \<Rightarrow> Some ProtocolLabelRecoverEgress
      | ProtocolObserveInvalidPersistence \<Rightarrow> Some ProtocolLabelObserveInvalidPersistence
      | ProtocolStopStart \<Rightarrow> Some ProtocolLabelStopStart
      | ProtocolRequestTeardown \<Rightarrow> Some ProtocolLabelRequestTeardown
      | ProtocolTeardownAction \<Rightarrow>
          Some (if evOutcome e = ProtocolTeardownProven then ProtocolLabelTeardownProven
                else ProtocolLabelTeardownUnknown)
      | ProtocolTerminalStutter \<Rightarrow> Some ProtocolLabelTerminalStutter
      | ProtocolActionOther _ \<Rightarrow> None)"

definition ProtocolEventLabelWithin ::
  "ProtocolBounds \<Rightarrow> ProtocolState \<Rightarrow> ProtocolEvent \<Rightarrow> protocol_label option" where
  "ProtocolEventLabelWithin bounds s e =
     (if \<not> snd (ReduceProtocolWithin bounds s e) then None else acceptedLabel s e)"

definition ProtocolEventLabel :: "ProtocolState \<Rightarrow> ProtocolEvent \<Rightarrow> protocol_label option" where
  "ProtocolEventLabel s e = ProtocolEventLabelWithin zeroBounds s e"

section \<open>Rewriting support\<close>

lemmas reduce_defs [go_defs] =
  reduceClaimStart_def reduceClaimCommit_def reduceRecoverClaim_def reduceHandoffExact_def
  reduceReleaseExact_def reduceWidenStart_def reduceWidenCommit_def reduceApply_def
  reduceInspect_def reduceWidenFinalCommit_def reduceNarrowStart_def
  reduceNarrowFinalCommit_def reduceRecoverEgress_def reduceObserveInvalid_def
  reduceStopStart_def reduceRequestTeardown_def reduceTeardown_def reduceTerminalStutter_def

lemmas protocol_update_defs [go_defs] =
  blockProtocolRecovery_def resetProtocol_def claimOwner_def installPending_def
  pendingGeneration_def durableGeneration_def recordPending_def healProtocol_def

lemma normalizeGeneration_idem [simp]:
  "normalizeGeneration (normalizeGeneration g) = normalizeGeneration g"
  by (simp add: normalizeGeneration_def protocolNoGeneration_def)

lemma normalizeGeneration_protocol [simp]:
  "normalizeGeneration (protocolGeneration a r) = protocolGeneration a r"
  "normalizeGeneration protocolNoGeneration = protocolNoGeneration"
  by (simp_all add: normalizeGeneration_def protocolGeneration_def protocolNoGeneration_def)

lemma normalizeGeneration_bound [simp]:
  "normalizeGeneration (pendingGeneration s) = pendingGeneration s"
  "normalizeGeneration (durableGeneration s) = durableGeneration s"
  by (simp_all add: pendingGeneration_def durableGeneration_def)

definition normalizeDirection :: "protocol_direction \<Rightarrow> protocol_direction" where
  "normalizeDirection d = (if d = ProtocolEmptyDirection then ProtocolNoDirection else d)"

lemma normalizeDirection_simps [simp]:
  "normalizeDirection ProtocolNoDirection = ProtocolNoDirection"
  "normalizeDirection ProtocolWidenDirection = ProtocolWidenDirection"
  "normalizeDirection ProtocolNarrowDirection = ProtocolNarrowDirection"
  "normalizeDirection d \<noteq> ProtocolEmptyDirection"
  "normalizeDirection (normalizeDirection d) = normalizeDirection d"
  by (simp_all add: normalizeDirection_def)

lemma NormalizeProtocolState_select [simp]:
  "psStatus (NormalizeProtocolState s) = psStatus s"
  "psOwners (NormalizeProtocolState s) = psOwners s"
  "psDetached (NormalizeProtocolState s) = psDetached s"
  "psDurableAuthority (NormalizeProtocolState s) = psDurableAuthority s"
  "psDurableRevision (NormalizeProtocolState s) = psDurableRevision s"
  "psRecordedGeneration (NormalizeProtocolState s) = normalizeGeneration (psRecordedGeneration s)"
  "psRuntimeAuthority (NormalizeProtocolState s) = psRuntimeAuthority s"
  "psRuntimeGeneration (NormalizeProtocolState s) = normalizeGeneration (psRuntimeGeneration s)"
  "psInspectedGeneration (NormalizeProtocolState s)
     = normalizeGeneration (psInspectedGeneration s)"
  "psHealth (NormalizeProtocolState s) = psHealth s"
  "psMode (NormalizeProtocolState s) = psMode s"
  "psOperation (NormalizeProtocolState s) = psOperation s"
  "psEffect (NormalizeProtocolState s) = psEffect s"
  "psResult (NormalizeProtocolState s) = psResult s"
  "psPendingAuthority (NormalizeProtocolState s) = psPendingAuthority s"
  "psPendingRevision (NormalizeProtocolState s) = psPendingRevision s"
  "psDirection (NormalizeProtocolState s) = normalizeDirection (psDirection s)"
  by (simp_all add: NormalizeProtocolState_def normalizeDirection_def)

lemma NormalizeProtocolState_idem [simp]:
  "NormalizeProtocolState (NormalizeProtocolState s) = NormalizeProtocolState s"
  by (simp add: NormalizeProtocolState_def)

lemma NormalizeProtocolState_id_iff:
  "NormalizeProtocolState s = s \<longleftrightarrow>
     normalizeGeneration (psRecordedGeneration s) = psRecordedGeneration s
   \<and> normalizeGeneration (psRuntimeGeneration s) = psRuntimeGeneration s
   \<and> normalizeGeneration (psInspectedGeneration s) = psInspectedGeneration s
   \<and> normalizeDirection (psDirection s) = psDirection s"
  by (cases s) (auto simp: NormalizeProtocolState_def normalizeDirection_def)

lemma generation_of_frame [simp]:
  "pendingGeneration (NormalizeProtocolState s) = pendingGeneration s"
  "durableGeneration (NormalizeProtocolState s) = durableGeneration s"
  by (simp_all add: pendingGeneration_def durableGeneration_def)

lemma protocolGeneration_inject [simp]:
  "protocolGeneration a r = protocolGeneration a' r' \<longleftrightarrow> a = a' \<and> r = r'"
  "protocolGeneration a r \<noteq> protocolNoGeneration"
  "protocolNoGeneration \<noteq> protocolGeneration a r"
  by (simp_all add: protocolGeneration_def protocolNoGeneration_def)

lemma normalizeProtocolBounds_idem [simp]:
  "normalizeProtocolBounds (normalizeProtocolBounds b) = normalizeProtocolBounds b"
  by (simp add: normalizeProtocolBounds_def)

lemma protocolGrantMask_normalize [simp]:
  "protocolGrantMask (normalizeProtocolBounds b) = protocolGrantMask b"
  by (simp add: protocolGrantMask_def)

lemma ReduceProtocolWithin_normalize:
  "ReduceProtocolWithin bounds (NormalizeProtocolState s) e = ReduceProtocolWithin bounds s e"
  by (simp add: ReduceProtocolWithin_def)

lemma ReduceProtocolWithin_TrueD:
  assumes "ReduceProtocolWithin bounds s e = (t, True)"
  shows "\<exists>next. reduceAction (evAction e) (normalizeProtocolBounds bounds)
            (NormalizeProtocolState s) e = Some next \<and> t = NormalizeProtocolState next
         \<and> protocolStateInDomain bounds (NormalizeProtocolState s)"
  using assms
  by (auto simp: ReduceProtocolWithin_def Let_def protocolStateInDomain_def
      split: if_splits option.splits)

section \<open>Accepted events, one equivalence per action\<close>

lemma protocolCommitEvent_iff:
  "protocolCommitEvent e \<longleftrightarrow>
     (evOutcome e = ProtocolKnownOld \<or> evOutcome e = ProtocolKnownNew) \<and> evTruth e = ProtocolNoTruth
   \<or> evOutcome e = ProtocolCommitUnknown \<and> (evTruth e = ProtocolOld \<or> evTruth e = ProtocolNew)"
  by (cases "evOutcome e") (auto simp: protocolCommitEvent_def)

text \<open>The three classified outcomes of a commit, with the two worlds of an unknown one.\<close>

definition commitCase :: "ProtocolEvent \<Rightarrow> 'a \<Rightarrow> 'a \<Rightarrow> 'a \<Rightarrow> 'a \<Rightarrow> 'a \<Rightarrow> bool" where
  "commitCase e new old unknownOld unknownNew t \<longleftrightarrow>
     evOutcome e = ProtocolKnownNew \<and> evTruth e = ProtocolNoTruth \<and> t = new
   \<or> evOutcome e = ProtocolKnownOld \<and> evTruth e = ProtocolNoTruth \<and> t = old
   \<or> evOutcome e = ProtocolCommitUnknown \<and> evTruth e = ProtocolOld \<and> t = unknownOld
   \<or> evOutcome e = ProtocolCommitUnknown \<and> evTruth e = ProtocolNew \<and> t = unknownNew"

lemma reduceClaimStart_iff:
  "reduceClaimStart s e = Some t \<longleftrightarrow>
     protocolEmptyEvent e \<and> psStatus s = ProtocolCreated \<and> psMode s = ProtocolNormal
   \<and> psOperation s = ProtocolIdle \<and> t = s\<lparr>psOperation := ProtocolClaim, psEffect := ProtocolCommit, psResult := ProtocolPending\<rparr>"
  by (auto simp: reduceClaimStart_def)

lemma reduceClaimCommit_iff:
  "reduceClaimCommit s e = Some t \<longleftrightarrow>
     evGrant e = 0 \<and> psOperation s = ProtocolClaim \<and> psEffect s = ProtocolCommit
   \<and> commitCase e (resetProtocol (claimOwner s) ProtocolSuccess)
       (resetProtocol s ProtocolFailure)
       (blockProtocolRecovery s ProtocolUncertainResult)
       (blockProtocolRecovery (claimOwner s) ProtocolUncertainResult) t"
  by (cases "evOutcome e"; cases "evTruth e")
    (auto simp: reduceClaimCommit_def commitCase_def protocolCommitEvent_def)

lemma reduceRecoverClaim_iff:
  "reduceRecoverClaim s e = Some t \<longleftrightarrow>
     protocolEmptyEvent e \<and> psOperation s = ProtocolRecover \<and> psDirection s = ProtocolNoDirection
   \<and> psEffect s = ProtocolInspect \<and> t = resetProtocol (healProtocol s)
             (if psStatus s = ProtocolRunning then ProtocolSuccess else ProtocolFailure)"
  by (auto simp: reduceRecoverClaim_def Let_def)

lemma reduceHandoffExact_iff:
  "reduceHandoffExact s e = Some t \<longleftrightarrow>
     protocolEmptyEvent e \<and> psStatus s = ProtocolRunning \<and> psMode s = ProtocolNormal
   \<and> psOperation s = ProtocolIdle \<and> psOwners s = ProtocolOwnerA \<and> \<not> psDetached s \<and> t = s\<lparr>psOwners := ProtocolOwnerB, psDetached := True\<rparr>"
  by (auto simp: reduceHandoffExact_def)

lemma reduceReleaseExact_iff:
  "reduceReleaseExact s e = Some t \<longleftrightarrow>
     protocolEmptyEvent e \<and> psStatus s = ProtocolRunning \<and> psMode s = ProtocolNormal
   \<and> psOperation s = ProtocolIdle \<and> psOwners s = ProtocolOwnerA \<and> \<not> psDetached s \<and> t = s\<lparr>psStatus := ProtocolCreated, psOwners := 0, psDetached := False,
           psResult := ProtocolFailure\<rparr>"
  by (auto simp: reduceReleaseExact_def)

lemma reduceWidenStart_iff:
  "reduceWidenStart bounds s e = Some t \<longleftrightarrow>
     evOutcome e = ProtocolNoOutcome \<and> evTruth e = ProtocolNoTruth
   \<and> psStatus s = ProtocolRunning \<and> psMode s = ProtocolNormal \<and> psOperation s = ProtocolIdle
   \<and> protocolSingleGrant bounds (evGrant e)
   \<and> \<not> grantSetHas (psDurableAuthority s) (evGrant e) \<and> psDurableRevision s < MaxRevision bounds \<and> t = s\<lparr>psOperation := ProtocolWiden, psEffect := ProtocolCommit,
           psResult := ProtocolPending, psPendingAuthority := psDurableAuthority s OR evGrant e,
           psPendingRevision := psDurableRevision s + 1,
           psDirection := ProtocolWidenDirection\<rparr>"
  by (auto simp: reduceWidenStart_def)

lemma reduceWidenCommit_iff:
  "reduceWidenCommit s e = Some t \<longleftrightarrow>
     evGrant e = 0 \<and> psOperation s = ProtocolWiden \<and> psDirection s = ProtocolWidenDirection
   \<and> psEffect s = ProtocolCommit \<and> \<not> protocolPendingIsDurable s
   \<and> commitCase e ((installPending s)\<lparr>psEffect := ProtocolApply\<rparr>)
       (resetProtocol s ProtocolFailure)
       (blockProtocolRecovery s ProtocolUncertainResult)
       (blockProtocolRecovery (installPending s) ProtocolUncertainResult) t"
  by (cases "evOutcome e"; cases "evTruth e")
    (auto simp: reduceWidenCommit_def commitCase_def protocolCommitEvent_def)

lemma reduceApply_iff:
  "reduceApply s e = Some t \<longleftrightarrow>
     evOutcome e = ProtocolSucceeded \<and> evGrant e = 0 \<and> evTruth e = ProtocolNoTruth
   \<and> psEffect s = ProtocolApply
   \<and> (psDirection s = ProtocolWidenDirection
        \<and> (psOperation s = ProtocolWiden \<or> psOperation s = ProtocolRecover)
        \<and> protocolPendingIsDurable s
      \<or> psDirection s = ProtocolNarrowDirection \<and> psOperation s = ProtocolNarrow)
   \<and> t = s\<lparr>psRuntimeAuthority := psPendingAuthority s, psRuntimeGeneration := pendingGeneration s,
           psEffect := ProtocolInspect\<rparr>"
  by (auto simp: reduceApply_def)

lemma reduceInspect_iff:
  "reduceInspect s e = Some t \<longleftrightarrow>
     evOutcome e = ProtocolMatched \<and> evGrant e = 0 \<and> evTruth e = ProtocolNoTruth
   \<and> psEffect s = ProtocolInspect \<and> (psOperation s = ProtocolWiden \<or> psOperation s = ProtocolNarrow)
   \<and> psRuntimeGeneration s = pendingGeneration s
   \<and> t = s\<lparr>psInspectedGeneration := psRuntimeGeneration s, psEffect := ProtocolCommit\<rparr>"
  by (auto simp: reduceInspect_def)

lemma reduceWidenFinalCommit_iff:
  "reduceWidenFinalCommit s e = Some t \<longleftrightarrow>
     evGrant e = 0 \<and> psOperation s = ProtocolWiden \<and> psDirection s = ProtocolWidenDirection
   \<and> psEffect s = ProtocolCommit \<and> protocolPendingIsDurable s
   \<and> psInspectedGeneration s = pendingGeneration s
   \<and> commitCase e (resetProtocol (healProtocol (recordPending s)) ProtocolSuccess)
       (blockProtocolRecovery s ProtocolFailure)
       (blockProtocolRecovery s ProtocolUncertainResult)
       (blockProtocolRecovery (recordPending s) ProtocolUncertainResult) t"
  by (cases "evOutcome e"; cases "evTruth e")
    (auto simp: reduceWidenFinalCommit_def commitCase_def protocolCommitEvent_def)

lemma reduceNarrowStart_iff:
  "reduceNarrowStart bounds s e = Some t \<longleftrightarrow>
     evOutcome e = ProtocolNoOutcome \<and> evTruth e = ProtocolNoTruth
   \<and> psStatus s = ProtocolRunning \<and> psMode s = ProtocolNormal \<and> psOperation s = ProtocolIdle
   \<and> protocolSingleGrant bounds (evGrant e)
   \<and> grantSetHas (psDurableAuthority s) (evGrant e) \<and> psDurableRevision s < MaxRevision bounds \<and> t = s\<lparr>psOperation := ProtocolNarrow, psEffect := ProtocolApply,
           psResult := ProtocolPending,
           psPendingAuthority := psDurableAuthority s AND NOT (evGrant e),
           psPendingRevision := psDurableRevision s + 1,
           psDirection := ProtocolNarrowDirection\<rparr>"
  by (auto simp: reduceNarrowStart_def)

lemma reduceNarrowFinalCommit_iff:
  "reduceNarrowFinalCommit s e = Some t \<longleftrightarrow>
     evGrant e = 0 \<and> psOperation s = ProtocolNarrow \<and> psDirection s = ProtocolNarrowDirection
   \<and> psEffect s = ProtocolCommit \<and> psInspectedGeneration s = pendingGeneration s
   \<and> commitCase e (resetProtocol (healProtocol (recordPending (installPending s))) ProtocolSuccess)
       (resetProtocol (s\<lparr>psRuntimeAuthority := psDurableAuthority s,
                       psRuntimeGeneration := durableGeneration s,
                       psInspectedGeneration := durableGeneration s\<rparr>) ProtocolFailure)
       (blockProtocolRecovery s ProtocolUncertainResult)
       (blockProtocolRecovery (recordPending (installPending s)) ProtocolUncertainResult) t"
  by (cases "evOutcome e"; cases "evTruth e")
    (auto simp: reduceNarrowFinalCommit_def commitCase_def protocolCommitEvent_def)

lemma reduceRecoverEgress_iff:
  "reduceRecoverEgress s e = Some t \<longleftrightarrow>
     protocolEmptyEvent e \<and> psOperation s = ProtocolRecover
   \<and> (psDirection s = ProtocolWidenDirection \<or> psDirection s = ProtocolNarrowDirection)
   \<and> psEffect s = ProtocolInspect
   \<and> t = resetProtocol
         (healProtocol (s\<lparr>psRuntimeAuthority := psDurableAuthority s,
            psRuntimeGeneration := durableGeneration s,
            psInspectedGeneration := durableGeneration s,
            psRecordedGeneration := durableGeneration s\<rparr>))
         (if protocolPendingIsDurable s then ProtocolSuccess else ProtocolFailure)"
  by (auto simp: reduceRecoverEgress_def Let_def)

lemma reduceObserveInvalid_iff:
  "reduceObserveInvalid s e = Some t \<longleftrightarrow>
     evGrant e = 0 \<and> evTruth e = ProtocolNoTruth \<and> psStatus s = ProtocolCreated
   \<and> psMode s = ProtocolNormal \<and> psOperation s = ProtocolIdle
   \<and> (\<exists>h. (evOutcome e = ProtocolObservedCorrupt \<and> h = ProtocolCorrupt
           \<or> evOutcome e = ProtocolObservedStale \<and> h = ProtocolStale)
        \<and> t = s\<lparr>psHealth := h, psMode := ProtocolBlocked, psOperation := ProtocolRecover,
                psResult := ProtocolFailure\<rparr>)"
  by (cases "evOutcome e") (auto simp: reduceObserveInvalid_def Let_def)

lemma reduceStopStart_iff:
  "reduceStopStart s e = Some t \<longleftrightarrow>
     protocolEmptyEvent e \<and> psStatus s = ProtocolRunning \<and> psMode s = ProtocolNormal
   \<and> psOperation s = ProtocolIdle \<and> t = s\<lparr>psOperation := ProtocolStop, psEffect := ProtocolTeardownEffect,
           psResult := ProtocolPending\<rparr>"
  by (auto simp: reduceStopStart_def)

lemma reduceRequestTeardown_iff:
  "reduceRequestTeardown s e = Some t \<longleftrightarrow>
     protocolEmptyEvent e \<and> psMode s = ProtocolBlocked \<and> psEffect s \<noteq> ProtocolTeardownEffect
   \<and> t = s\<lparr>psOperation := ProtocolTeardown, psEffect := ProtocolTeardownEffect,
           psResult := ProtocolPending\<rparr>"
  by (auto simp: reduceRequestTeardown_def)

lemma reduceTeardown_iff:
  "reduceTeardown s e = Some t \<longleftrightarrow>
     evGrant e = 0 \<and> evTruth e = ProtocolNoTruth \<and> psEffect s = ProtocolTeardownEffect
   \<and> (psOperation s = ProtocolStop \<or> psOperation s = ProtocolTeardown)
   \<and> (evOutcome e = ProtocolTeardownProven
      \<and> t = s\<lparr>psStatus := ProtocolStopped, psOwners := 0, psDetached := False,
              psRuntimeAuthority := 0, psRuntimeGeneration := protocolNoGeneration,
              psInspectedGeneration := protocolNoGeneration,
              psHealth := ProtocolHealthy, psMode := ProtocolTerminal,
              psOperation := ProtocolIdle, psEffect := ProtocolNoEffect,
              psResult := ProtocolFailure, psPendingAuthority := 0,
              psPendingRevision := 0, psDirection := ProtocolNoDirection\<rparr>
    \<or> evOutcome e = ProtocolTeardownUnknown
      \<and> t = s\<lparr>psHealth := ProtocolUncertain, psMode := ProtocolBlocked,
              psOperation := ProtocolTeardown, psEffect := ProtocolTeardownEffect,
              psResult := ProtocolUncertainResult\<rparr>)"
  by (cases "evOutcome e") (auto simp: reduceTeardown_def)

lemma reduceTerminalStutter_iff:
  "reduceTerminalStutter s e = Some t \<longleftrightarrow>
     protocolEmptyEvent e \<and> psStatus s = ProtocolStopped \<and> t = s"
  by (auto simp: reduceTerminalStutter_def)

lemmas reduce_iffs =
  reduceClaimStart_iff reduceClaimCommit_iff reduceRecoverClaim_iff reduceHandoffExact_iff
  reduceReleaseExact_iff reduceWidenStart_iff reduceWidenCommit_iff reduceApply_iff
  reduceInspect_iff reduceWidenFinalCommit_iff reduceNarrowStart_iff reduceNarrowFinalCommit_iff
  reduceRecoverEgress_iff reduceObserveInvalid_iff reduceStopStart_iff reduceRequestTeardown_iff
  reduceTeardown_iff reduceTerminalStutter_iff

end
