(* ===== verification/ProtocolSafety.thy ===== *)
theory ProtocolSafety
  imports ProtocolRelation
begin

text \<open>
  Safety of the reducer of \<open>ProtocolRelation\<close>, for arbitrary bounds: the finite domain is
  closed under the reducer, the control states form a fixed table (\<open>proto_inv\<close>), and the
  safety laws of \<open>formal/session\<close> hold in every reachable state.
\<close>

section \<open>Single grants are single bits\<close>

lemma single_bit_cases:
  fixes g :: "'a::len word"
  assumes "g \<noteq> 0" and "g AND (g - 1) = 0"
  shows "\<exists>i<LENGTH('a). g = 2 ^ i"
proof -
  let ?n = "unat g"
  from assms(1) have "1 \<le> ?n" by (simp add: Suc_le_eq unat_gt_0)
  then obtain i where i: "2 ^ i \<le> ?n" "?n < 2 ^ (i + 1)"
    using ex_power_ivl1 [of 2 ?n] by auto
  have "i < LENGTH('a)"
    using i(1) unsigned_less [of g] by (meson le_less_trans nat_power_less_imp_less zero_less_numeral)
  show ?thesis
  proof (cases "?n = 2 ^ i")
    case True
    have "g = of_nat ?n" by simp
    then have "g = 2 ^ i" by (simp add: True)
    with \<open>i < LENGTH('a)\<close> show ?thesis by blast
  next
    case False
    have m: "unat (g - 1) = ?n - 1"
      using assms(1) by (simp add: unat_minus_one)
    have d1: "?n div 2 ^ i = 1" using i by (intro div_nat_eqI) auto
    have d2: "(?n - 1) div 2 ^ i = 1" using i False by (intro div_nat_eqI) auto
    have "bit g i" using d1 by (metis bit_iff_odd bit_unsigned_iff odd_one)
    moreover have "bit (g - 1) i" using d2 m by (metis bit_iff_odd bit_unsigned_iff odd_one)
    ultimately have "bit (g AND (g - 1)) i" by (simp add: bit_simps)
    with assms(2) show ?thesis by simp
  qed
qed

lemma bit_pow2 [simp]: "i < LENGTH('a) \<Longrightarrow> bit (2 ^ i :: 'a::len word) n \<longleftrightarrow> n = i"
  by (auto simp: bit_simps)

lemma single_grant_within:
  assumes "protocolSingleGrant bounds g"
  shows "wsub g (protocolGrantMask bounds)"
proof -
  have g: "g \<noteq> 0" "g AND (g - 1) = 0" and h: "protocolGrantMask bounds AND g \<noteq> 0"
    using assms by (auto simp: protocolSingleGrant_def grantSetHas_def split: if_splits)
  obtain i where i: "i < 8" "g = 2 ^ i" using single_bit_cases [OF g] by auto
  obtain n where n: "bit (protocolGrantMask bounds) n" "bit g n"
    using h by (auto simp: bit_eq_iff bit_simps)
  with i have "n = i" by simp
  with i n show ?thesis by (auto simp: wsub_bits)
qed

section \<open>The accepted transitions as a labelled relation\<close>

text \<open>
  One rule per transition label; \<open>reduceAction_steps\<close> shows that it is exactly what the
  reducer accepts. Proofs about the reducer go by cases on this relation.
\<close>

inductive proto_step ::
  "ProtocolBounds \<Rightarrow> ProtocolState \<Rightarrow> protocol_label \<Rightarrow> ProtocolState \<Rightarrow> bool"
  for bounds :: ProtocolBounds and s :: ProtocolState where
  claim_start: "
    psStatus s = ProtocolCreated \<Longrightarrow> psMode s = ProtocolNormal \<Longrightarrow>
    psOperation s = ProtocolIdle \<Longrightarrow>
    proto_step bounds s ProtocolLabelClaimStart
      (s\<lparr>psOperation := ProtocolClaim, psEffect := ProtocolCommit, psResult := ProtocolPending\<rparr>)"
| claim_commit_new: "
    psOperation s = ProtocolClaim \<Longrightarrow> psEffect s = ProtocolCommit \<Longrightarrow>
    proto_step bounds s ProtocolLabelClaimCommitNew
      (resetProtocol (claimOwner s) ProtocolSuccess)"
| claim_commit_old: "
    psOperation s = ProtocolClaim \<Longrightarrow> psEffect s = ProtocolCommit \<Longrightarrow>
    proto_step bounds s ProtocolLabelClaimCommitOld
      (resetProtocol s ProtocolFailure)"
| claim_commit_unknown_old: "
    psOperation s = ProtocolClaim \<Longrightarrow> psEffect s = ProtocolCommit \<Longrightarrow>
    proto_step bounds s ProtocolLabelClaimCommitUnknown
      (blockProtocolRecovery s ProtocolUncertainResult)"
| claim_commit_unknown_new: "
    psOperation s = ProtocolClaim \<Longrightarrow> psEffect s = ProtocolCommit \<Longrightarrow>
    proto_step bounds s ProtocolLabelClaimCommitUnknown
      (blockProtocolRecovery (claimOwner s) ProtocolUncertainResult)"
| recover_claim: "
    psOperation s = ProtocolRecover \<Longrightarrow>
    psDirection s = ProtocolNoDirection \<Longrightarrow>
    psEffect s = ProtocolInspect \<Longrightarrow>
    proto_step bounds s ProtocolLabelRecoverClaim
      (resetProtocol (healProtocol s)
         (if psStatus s = ProtocolRunning then ProtocolSuccess else ProtocolFailure))"
| handoff_exact: "
    psStatus s = ProtocolRunning \<Longrightarrow> psMode s = ProtocolNormal \<Longrightarrow>
    psOperation s = ProtocolIdle \<Longrightarrow> psOwners s = ProtocolOwnerA \<Longrightarrow>
    \<not> psDetached s \<Longrightarrow>
    proto_step bounds s ProtocolLabelHandoffExact
      (s\<lparr>psOwners := ProtocolOwnerB, psDetached := True\<rparr>)"
| release_exact: "
    psStatus s = ProtocolRunning \<Longrightarrow> psMode s = ProtocolNormal \<Longrightarrow>
    psOperation s = ProtocolIdle \<Longrightarrow> psOwners s = ProtocolOwnerA \<Longrightarrow>
    \<not> psDetached s \<Longrightarrow>
    proto_step bounds s ProtocolLabelReleaseExact
      (s\<lparr>psStatus := ProtocolCreated, psOwners := 0, psDetached := False, psResult := ProtocolFailure\<rparr>)"
| widen_start: "
    psStatus s = ProtocolRunning \<Longrightarrow> psMode s = ProtocolNormal \<Longrightarrow>
    psOperation s = ProtocolIdle \<Longrightarrow> protocolSingleGrant bounds g \<Longrightarrow>
    \<not> grantSetHas (psDurableAuthority s) g \<Longrightarrow>
    psDurableRevision s < MaxRevision bounds \<Longrightarrow>
    proto_step bounds s ProtocolLabelWidenStart
      (s\<lparr>psOperation := ProtocolWiden, psEffect := ProtocolCommit, psResult := ProtocolPending,
         psPendingAuthority := psDurableAuthority s OR g,
         psPendingRevision := psDurableRevision s + 1, psDirection := ProtocolWidenDirection\<rparr>)"
| widen_commit_new: "
    psOperation s = ProtocolWiden \<Longrightarrow>
    psDirection s = ProtocolWidenDirection \<Longrightarrow>
    psEffect s = ProtocolCommit \<Longrightarrow>
    \<not> protocolPendingIsDurable s \<Longrightarrow>
    proto_step bounds s ProtocolLabelWidenCommitNew
      ((installPending s)\<lparr>psEffect := ProtocolApply\<rparr>)"
| widen_commit_old: "
    psOperation s = ProtocolWiden \<Longrightarrow>
    psDirection s = ProtocolWidenDirection \<Longrightarrow>
    psEffect s = ProtocolCommit \<Longrightarrow>
    \<not> protocolPendingIsDurable s \<Longrightarrow>
    proto_step bounds s ProtocolLabelWidenCommitOld
      (resetProtocol s ProtocolFailure)"
| widen_commit_unknown_old: "
    psOperation s = ProtocolWiden \<Longrightarrow>
    psDirection s = ProtocolWidenDirection \<Longrightarrow>
    psEffect s = ProtocolCommit \<Longrightarrow>
    \<not> protocolPendingIsDurable s \<Longrightarrow>
    proto_step bounds s ProtocolLabelWidenCommitUnknown
      (blockProtocolRecovery s ProtocolUncertainResult)"
| widen_commit_unknown_new: "
    psOperation s = ProtocolWiden \<Longrightarrow>
    psDirection s = ProtocolWidenDirection \<Longrightarrow>
    psEffect s = ProtocolCommit \<Longrightarrow>
    \<not> protocolPendingIsDurable s \<Longrightarrow>
    proto_step bounds s ProtocolLabelWidenCommitUnknown
      (blockProtocolRecovery (installPending s) ProtocolUncertainResult)"
| widen_apply: "
    psEffect s = ProtocolApply \<Longrightarrow>
    psDirection s = ProtocolWidenDirection \<Longrightarrow>
    psOperation s = ProtocolWiden \<or> psOperation s = ProtocolRecover \<Longrightarrow>
    protocolPendingIsDurable s \<Longrightarrow>
    proto_step bounds s ProtocolLabelWidenApply
      (s\<lparr>psRuntimeAuthority := psPendingAuthority s, psRuntimeGeneration := pendingGeneration s,
         psEffect := ProtocolInspect\<rparr>)"
| narrow_apply: "
    psEffect s = ProtocolApply \<Longrightarrow>
    psDirection s = ProtocolNarrowDirection \<Longrightarrow>
    psOperation s = ProtocolNarrow \<Longrightarrow>
    proto_step bounds s ProtocolLabelNarrowApply
      (s\<lparr>psRuntimeAuthority := psPendingAuthority s, psRuntimeGeneration := pendingGeneration s,
         psEffect := ProtocolInspect\<rparr>)"
| positive_inspect: "
    psEffect s = ProtocolInspect \<Longrightarrow>
    psOperation s = ProtocolWiden \<or> psOperation s = ProtocolNarrow \<Longrightarrow>
    psRuntimeGeneration s = pendingGeneration s \<Longrightarrow>
    proto_step bounds s ProtocolLabelPositiveInspect
      (s\<lparr>psInspectedGeneration := pendingGeneration s, psEffect := ProtocolCommit\<rparr>)"
| widen_final_new: "
    psOperation s = ProtocolWiden \<Longrightarrow>
    psDirection s = ProtocolWidenDirection \<Longrightarrow>
    psEffect s = ProtocolCommit \<Longrightarrow> protocolPendingIsDurable s \<Longrightarrow>
    psInspectedGeneration s = pendingGeneration s \<Longrightarrow>
    proto_step bounds s ProtocolLabelWidenFinalCommitNew
      (resetProtocol (healProtocol (recordPending s)) ProtocolSuccess)"
| widen_final_old: "
    psOperation s = ProtocolWiden \<Longrightarrow>
    psDirection s = ProtocolWidenDirection \<Longrightarrow>
    psEffect s = ProtocolCommit \<Longrightarrow> protocolPendingIsDurable s \<Longrightarrow>
    psInspectedGeneration s = pendingGeneration s \<Longrightarrow>
    proto_step bounds s ProtocolLabelWidenFinalCommitOld
      (blockProtocolRecovery s ProtocolFailure)"
| widen_final_unknown_old: "
    psOperation s = ProtocolWiden \<Longrightarrow>
    psDirection s = ProtocolWidenDirection \<Longrightarrow>
    psEffect s = ProtocolCommit \<Longrightarrow> protocolPendingIsDurable s \<Longrightarrow>
    psInspectedGeneration s = pendingGeneration s \<Longrightarrow>
    proto_step bounds s ProtocolLabelWidenFinalCommitUnknown
      (blockProtocolRecovery s ProtocolUncertainResult)"
| widen_final_unknown_new: "
    psOperation s = ProtocolWiden \<Longrightarrow>
    psDirection s = ProtocolWidenDirection \<Longrightarrow>
    psEffect s = ProtocolCommit \<Longrightarrow> protocolPendingIsDurable s \<Longrightarrow>
    psInspectedGeneration s = pendingGeneration s \<Longrightarrow>
    proto_step bounds s ProtocolLabelWidenFinalCommitUnknown
      (blockProtocolRecovery (recordPending s) ProtocolUncertainResult)"
| narrow_start: "
    psStatus s = ProtocolRunning \<Longrightarrow> psMode s = ProtocolNormal \<Longrightarrow>
    psOperation s = ProtocolIdle \<Longrightarrow> protocolSingleGrant bounds g \<Longrightarrow>
    grantSetHas (psDurableAuthority s) g \<Longrightarrow>
    psDurableRevision s < MaxRevision bounds \<Longrightarrow>
    proto_step bounds s ProtocolLabelNarrowStart
      (s\<lparr>psOperation := ProtocolNarrow, psEffect := ProtocolApply, psResult := ProtocolPending,
         psPendingAuthority := psDurableAuthority s AND NOT g,
         psPendingRevision := psDurableRevision s + 1, psDirection := ProtocolNarrowDirection\<rparr>)"
| narrow_final_new: "
    psOperation s = ProtocolNarrow \<Longrightarrow>
    psDirection s = ProtocolNarrowDirection \<Longrightarrow>
    psEffect s = ProtocolCommit \<Longrightarrow>
    psInspectedGeneration s = pendingGeneration s \<Longrightarrow>
    proto_step bounds s ProtocolLabelNarrowFinalCommitNew
      (resetProtocol (healProtocol (recordPending (installPending s))) ProtocolSuccess)"
| narrow_final_old: "
    psOperation s = ProtocolNarrow \<Longrightarrow>
    psDirection s = ProtocolNarrowDirection \<Longrightarrow>
    psEffect s = ProtocolCommit \<Longrightarrow>
    psInspectedGeneration s = pendingGeneration s \<Longrightarrow>
    proto_step bounds s ProtocolLabelNarrowFinalCommitOld
      (resetProtocol (s\<lparr>psRuntimeAuthority := psDurableAuthority s,
                       psRuntimeGeneration := durableGeneration s,
                       psInspectedGeneration := durableGeneration s\<rparr>) ProtocolFailure)"
| narrow_final_unknown_old: "
    psOperation s = ProtocolNarrow \<Longrightarrow>
    psDirection s = ProtocolNarrowDirection \<Longrightarrow>
    psEffect s = ProtocolCommit \<Longrightarrow>
    psInspectedGeneration s = pendingGeneration s \<Longrightarrow>
    proto_step bounds s ProtocolLabelNarrowFinalCommitUnknown
      (blockProtocolRecovery s ProtocolUncertainResult)"
| narrow_final_unknown_new: "
    psOperation s = ProtocolNarrow \<Longrightarrow>
    psDirection s = ProtocolNarrowDirection \<Longrightarrow>
    psEffect s = ProtocolCommit \<Longrightarrow>
    psInspectedGeneration s = pendingGeneration s \<Longrightarrow>
    proto_step bounds s ProtocolLabelNarrowFinalCommitUnknown
      (blockProtocolRecovery (recordPending (installPending s)) ProtocolUncertainResult)"
| recover_egress: "
    psOperation s = ProtocolRecover \<Longrightarrow>
    psDirection s = ProtocolWidenDirection \<or> psDirection s = ProtocolNarrowDirection \<Longrightarrow>
    psEffect s = ProtocolInspect \<Longrightarrow>
    proto_step bounds s ProtocolLabelRecoverEgress
      (resetProtocol
         (healProtocol (s\<lparr>psRuntimeAuthority := psDurableAuthority s,
            psRuntimeGeneration := durableGeneration s,
            psInspectedGeneration := durableGeneration s,
            psRecordedGeneration := durableGeneration s\<rparr>))
         (if protocolPendingIsDurable s then ProtocolSuccess else ProtocolFailure))"
| observe_invalid: "
    psStatus s = ProtocolCreated \<Longrightarrow> psMode s = ProtocolNormal \<Longrightarrow>
    psOperation s = ProtocolIdle \<Longrightarrow>
    h = ProtocolCorrupt \<or> h = ProtocolStale \<Longrightarrow>
    proto_step bounds s ProtocolLabelObserveInvalidPersistence
      (s\<lparr>psHealth := h, psMode := ProtocolBlocked, psOperation := ProtocolRecover,
         psResult := ProtocolFailure\<rparr>)"
| stop_start: "
    psStatus s = ProtocolRunning \<Longrightarrow> psMode s = ProtocolNormal \<Longrightarrow>
    psOperation s = ProtocolIdle \<Longrightarrow>
    proto_step bounds s ProtocolLabelStopStart
      (s\<lparr>psOperation := ProtocolStop, psEffect := ProtocolTeardownEffect, psResult := ProtocolPending\<rparr>)"
| request_teardown: "
    psMode s = ProtocolBlocked \<Longrightarrow>
    psEffect s \<noteq> ProtocolTeardownEffect \<Longrightarrow>
    proto_step bounds s ProtocolLabelRequestTeardown
      (s\<lparr>psOperation := ProtocolTeardown, psEffect := ProtocolTeardownEffect,
         psResult := ProtocolPending\<rparr>)"
| teardown_proven: "
    psEffect s = ProtocolTeardownEffect \<Longrightarrow>
    psOperation s = ProtocolStop \<or> psOperation s = ProtocolTeardown \<Longrightarrow>
    proto_step bounds s ProtocolLabelTeardownProven
      (s\<lparr>psStatus := ProtocolStopped, psOwners := 0, psDetached := False,
         psRuntimeAuthority := 0, psRuntimeGeneration := protocolNoGeneration,
         psInspectedGeneration := protocolNoGeneration, psHealth := ProtocolHealthy,
         psMode := ProtocolTerminal, psOperation := ProtocolIdle,
         psEffect := ProtocolNoEffect, psResult := ProtocolFailure, psPendingAuthority := 0,
         psPendingRevision := 0, psDirection := ProtocolNoDirection\<rparr>)"
| teardown_unknown: "
    psEffect s = ProtocolTeardownEffect \<Longrightarrow>
    psOperation s = ProtocolStop \<or> psOperation s = ProtocolTeardown \<Longrightarrow>
    proto_step bounds s ProtocolLabelTeardownUnknown
      (s\<lparr>psHealth := ProtocolUncertain, psMode := ProtocolBlocked,
         psOperation := ProtocolTeardown, psEffect := ProtocolTeardownEffect,
         psResult := ProtocolUncertainResult\<rparr>)"
| terminal_stutter: "
    psStatus s = ProtocolStopped \<Longrightarrow>
    proto_step bounds s ProtocolLabelTerminalStutter
      s"

inductive_cases proto_stepE: "proto_step bounds s l t"

section \<open>The control table\<close>

definition genAgreement :: "ProtocolState \<Rightarrow> bool" where
  "genAgreement s \<longleftrightarrow>
     psRecordedGeneration s = durableGeneration s \<and> psRuntimeGeneration s = durableGeneration s
   \<and> psInspectedGeneration s = durableGeneration s
   \<and> psRuntimeAuthority s = psDurableAuthority s"

definition noPending :: "ProtocolState \<Rightarrow> bool" where
  "noPending s \<longleftrightarrow>
     psPendingAuthority s = 0 \<and> psPendingRevision s = 0 \<and> psDirection s = ProtocolNoDirection"

definition ownerShape :: "ProtocolState \<Rightarrow> bool" where
  "ownerShape s \<longleftrightarrow>
     psStatus s = ProtocolRunning \<and> psOwners s = ProtocolOwnerA \<and> \<not> psDetached s
   \<or> psStatus s = ProtocolRunning \<and> psOwners s = ProtocolOwnerB \<and> psDetached s
   \<or> psStatus s = ProtocolCreated \<and> psOwners s = 0 \<and> \<not> psDetached s
   \<or> psStatus s = ProtocolStopped \<and> psOwners s = 0 \<and> \<not> psDetached s"

definition runtimePending :: "ProtocolState \<Rightarrow> bool" where
  "runtimePending s \<longleftrightarrow>
     psRuntimeAuthority s = psPendingAuthority s \<and> psRuntimeGeneration s = pendingGeneration s"

definition idleControl :: "ProtocolState \<Rightarrow> bool" where
  "idleControl s \<longleftrightarrow>
     psEffect s = ProtocolNoEffect \<and> noPending s \<and> psHealth s = ProtocolHealthy
   \<and> (psMode s = ProtocolNormal \<and> psStatus s \<noteq> ProtocolStopped \<and> genAgreement s
      \<or> psMode s = ProtocolTerminal \<and> psStatus s = ProtocolStopped \<and> psRuntimeAuthority s = 0
        \<and> psRuntimeGeneration s = protocolNoGeneration
        \<and> psInspectedGeneration s = protocolNoGeneration)"

definition claimControl :: "ProtocolState \<Rightarrow> bool" where
  "claimControl s \<longleftrightarrow>
     psEffect s = ProtocolCommit \<and> noPending s \<and> psHealth s = ProtocolHealthy
   \<and> psMode s = ProtocolNormal \<and> psStatus s = ProtocolCreated \<and> genAgreement s
   \<and> psResult s = ProtocolPending"

definition widenControl :: "ProtocolState \<Rightarrow> bool" where
  "widenControl s \<longleftrightarrow>
     psHealth s = ProtocolHealthy \<and> psMode s = ProtocolNormal \<and> psStatus s = ProtocolRunning
   \<and> psDirection s = ProtocolWidenDirection \<and> psResult s = ProtocolPending
   \<and> (\<exists>a. psRecordedGeneration s = protocolGeneration a (psPendingRevision s - 1))
   \<and> (psEffect s = ProtocolCommit \<and> psPendingRevision s = psDurableRevision s + 1
        \<and> wsub (psDurableAuthority s) (psPendingAuthority s) \<and> genAgreement s
      \<or> protocolPendingIsDurable s
        \<and> (psEffect s = ProtocolApply \<and> wsub (psRuntimeAuthority s) (psDurableAuthority s)
           \<or> psEffect s = ProtocolInspect \<and> runtimePending s
           \<or> psEffect s = ProtocolCommit \<and> runtimePending s
             \<and> psInspectedGeneration s = pendingGeneration s))"

definition narrowControl :: "ProtocolState \<Rightarrow> bool" where
  "narrowControl s \<longleftrightarrow>
     psHealth s = ProtocolHealthy \<and> psMode s = ProtocolNormal \<and> psStatus s = ProtocolRunning
   \<and> psDirection s = ProtocolNarrowDirection \<and> psResult s = ProtocolPending
   \<and> psPendingRevision s = psDurableRevision s + 1
   \<and> wsub (psPendingAuthority s) (psDurableAuthority s)
   \<and> psRecordedGeneration s = durableGeneration s
   \<and> (psEffect s = ProtocolApply \<and> genAgreement s
      \<or> psEffect s = ProtocolInspect \<and> runtimePending s
      \<or> psEffect s = ProtocolCommit \<and> runtimePending s
        \<and> psInspectedGeneration s = pendingGeneration s)"

definition recoverControl :: "ProtocolState \<Rightarrow> bool" where
  "recoverControl s \<longleftrightarrow>
     psMode s = ProtocolBlocked
   \<and> (psEffect s = ProtocolInspect \<and> psHealth s = ProtocolUncertain
        \<and> (psResult s = ProtocolUncertainResult \<or> psResult s = ProtocolFailure)
        \<and> (noPending s \<and> psStatus s \<noteq> ProtocolStopped \<and> genAgreement s
             \<and> psOwners s \<noteq> ProtocolOwnerB
           \<or> (psDirection s = ProtocolWidenDirection \<or> psDirection s = ProtocolNarrowDirection)
             \<and> psStatus s = ProtocolRunning \<and> wsub (psRuntimeAuthority s) (psDurableAuthority s))
      \<or> psEffect s = ProtocolNoEffect \<and> noPending s \<and> psStatus s = ProtocolCreated
        \<and> genAgreement s \<and> psResult s = ProtocolFailure
        \<and> (psHealth s = ProtocolCorrupt \<or> psHealth s = ProtocolStale))"

definition stopControl :: "ProtocolState \<Rightarrow> bool" where
  "stopControl s \<longleftrightarrow>
     psEffect s = ProtocolTeardownEffect \<and> psHealth s = ProtocolHealthy
   \<and> psMode s = ProtocolNormal \<and> psStatus s = ProtocolRunning \<and> psResult s = ProtocolPending
   \<and> noPending s \<and> genAgreement s"

definition teardownControl :: "ProtocolState \<Rightarrow> bool" where
  "teardownControl s \<longleftrightarrow>
     psEffect s = ProtocolTeardownEffect \<and> psMode s = ProtocolBlocked
   \<and> psStatus s \<noteq> ProtocolStopped \<and> wsub (psRuntimeAuthority s) (psDurableAuthority s)
   \<and> (psResult s = ProtocolPending \<or> psResult s = ProtocolUncertainResult)
   \<and> (psHealth s = ProtocolUncertain \<or> psHealth s = ProtocolCorrupt
      \<or> psHealth s = ProtocolStale)
   \<and> psDirection s \<noteq> ProtocolEmptyDirection"

definition protoControl :: "ProtocolState \<Rightarrow> bool" where
  "protoControl s \<longleftrightarrow>
     psOperation s = ProtocolIdle \<and> idleControl s
   \<or> psOperation s = ProtocolClaim \<and> claimControl s
   \<or> psOperation s = ProtocolWiden \<and> widenControl s
   \<or> psOperation s = ProtocolNarrow \<and> narrowControl s
   \<or> psOperation s = ProtocolRecover \<and> recoverControl s
   \<or> psOperation s = ProtocolStop \<and> stopControl s
   \<or> psOperation s = ProtocolTeardown \<and> teardownControl s"

definition proto_inv :: "ProtocolBounds \<Rightarrow> ProtocolState \<Rightarrow> bool" where
  "proto_inv bounds s \<longleftrightarrow>
     ownerShape s \<and> protoControl s \<and> NormalizeProtocolState s = s
   \<and> protocolStateInDomain bounds s"

lemmas control_defs =
  genAgreement_def noPending_def runtimePending_def idleControl_def claimControl_def
  widenControl_def narrowControl_def recoverControl_def stopControl_def teardownControl_def

lemmas state_update_defs = protocol_update_defs protocolPendingIsDurable_def

lemma ownerShape_step:
  assumes "proto_step bounds s l t" and "ownerShape s"
  shows "ownerShape (NormalizeProtocolState t)"
  using assms
  by (cases rule: proto_step.cases)
    (auto simp: ownerShape_def state_update_defs protocol_mask_defs)

lemma protoControl_step:
  assumes "proto_step bounds s l t" and "ownerShape s" and "protoControl s"
  shows "protoControl (NormalizeProtocolState t)"
  using assms
proof (cases rule: proto_step.cases)
  case positive_inspect
  with assms(2,3) show ?thesis
    by (elim disjE) (auto simp: protoControl_def control_defs state_update_defs ownerShape_def
        protocol_mask_defs)
qed (auto simp: protoControl_def control_defs state_update_defs ownerShape_def
      protocol_mask_defs)

section \<open>The finite domain is closed under the reducer\<close>

lemma generationInDomain_simps [simp]:
  "protocolGenerationInDomain bounds m (protocolGeneration a r)
     \<longleftrightarrow> 0 \<le> r \<and> r \<le> MaxRevision bounds \<and> wsub a m"
  "protocolGenerationInDomain bounds m protocolNoGeneration"
  by (auto simp: protocolGenerationInDomain_def protocolGeneration_def protocolNoGeneration_def
      wsub_def)

lemma generationInDomain_normal:
  "protocolGenerationInDomain bounds m g \<Longrightarrow> normalizeGeneration g = g"
  by (auto simp: protocolGenerationInDomain_def normalizeGeneration_def split: if_splits)

lemma protocolStateInDomain_iff:
  "protocolStateInDomain bounds s \<longleftrightarrow>
     wsub (psOwners s) (ProtocolOwnerA OR ProtocolOwnerB)
   \<and> wsub (psDurableAuthority s) (protocolGrantMask bounds)
   \<and> wsub (psRuntimeAuthority s) (protocolGrantMask bounds)
   \<and> wsub (psPendingAuthority s) (protocolGrantMask bounds)
   \<and> 0 \<le> psDurableRevision s \<and> psDurableRevision s \<le> MaxRevision (normalizeProtocolBounds bounds)
   \<and> 0 \<le> psPendingRevision s \<and> psPendingRevision s \<le> MaxRevision (normalizeProtocolBounds bounds)
   \<and> (\<forall>g \<in> {psRecordedGeneration s, psRuntimeGeneration s, psInspectedGeneration s}.
        protocolGenerationInDomain (normalizeProtocolBounds bounds) (protocolGrantMask bounds) g)
   \<and> protocolStatusInDomain (psStatus s) \<and> protocolModeInDomain (psMode s)
   \<and> protocolHealthInDomain (psHealth s) \<and> protocolOperationInDomain (psOperation s)
   \<and> protocolEffectInDomain (psEffect s) \<and> protocolResultInDomain (psResult s)
   \<and> protocolDirectionInDomain (psDirection s)"
  by (auto simp: protocolStateInDomain_def Let_def wsub_def not_less)

lemma inDomain_normal: "protocolStateInDomain bounds s \<Longrightarrow> NormalizeProtocolState s = s"
  by (cases "psDirection s")
    (auto simp: protocolStateInDomain_iff NormalizeProtocolState_id_iff generationInDomain_normal)

lemma single_grant_in_mask:
  "protocolSingleGrant (normalizeProtocolBounds bounds) g \<Longrightarrow> wsub g (protocolGrantMask bounds)"
  using single_grant_within by fastforce

lemma normalize_mask_bounds: "0 \<le> MaxRevision (normalizeProtocolBounds bounds)"
  by (simp add: normalizeProtocolBounds_def)

lemma domain_step:
  assumes "proto_step (normalizeProtocolBounds bounds) s l t" and "protocolStateInDomain bounds s"
  shows "protocolStateInDomain bounds (NormalizeProtocolState t)"
proof -
  have normal: "NormalizeProtocolState s = s" using assms(2) by (rule inDomain_normal)
  then have gens: "normalizeGeneration (psRecordedGeneration s) = psRecordedGeneration s"
    "normalizeGeneration (psRuntimeGeneration s) = psRuntimeGeneration s"
    "normalizeGeneration (psInspectedGeneration s) = psInspectedGeneration s"
    "normalizeDirection (psDirection s) = psDirection s"
    by (simp_all add: NormalizeProtocolState_id_iff)
  have pos: "0 < MaxRevision (normalizeProtocolBounds bounds)"
    by (simp add: normalizeProtocolBounds_def)
  have owners: "wsub ProtocolOwnerA (ProtocolOwnerA OR ProtocolOwnerB)"
    "wsub ProtocolOwnerB (ProtocolOwnerA OR ProtocolOwnerB)"
    by (simp_all add: wsub_bits bit_simps)
  show ?thesis using assms gens pos owners
    by (cases rule: proto_step.cases)
      (auto simp: protocolStateInDomain_iff state_update_defs
        intro: wsub_or_least wsub_trans [OF wsub_andnot] single_grant_in_mask)
qed

section \<open>The reducer accepts exactly the labelled transitions\<close>

lemma reduceAction_step:
  assumes "reduceAction (evAction e) bounds s e = Some t"
  shows "\<exists>l. acceptedLabel s e = Some l \<and> proto_step bounds s l t"
  using assms
  by (cases "evAction e")
    (auto simp: reduce_iffs commitCase_def acceptedLabel_def protocolCommitLabel_def
      split del: if_split intro: proto_step.intros)

text \<open>The action a label belongs to, and events by their components.\<close>

fun labelAction :: "protocol_label \<Rightarrow> protocol_action" where
  "labelAction ProtocolLabelClaimStart = ProtocolClaimStart"
| "labelAction ProtocolLabelClaimCommitNew = ProtocolClaimCommit"
| "labelAction ProtocolLabelClaimCommitOld = ProtocolClaimCommit"
| "labelAction ProtocolLabelClaimCommitUnknown = ProtocolClaimCommit"
| "labelAction ProtocolLabelRecoverClaim = ProtocolRecoverClaim"
| "labelAction ProtocolLabelHandoffExact = ProtocolHandoffExact"
| "labelAction ProtocolLabelReleaseExact = ProtocolReleaseExact"
| "labelAction ProtocolLabelWidenStart = ProtocolWidenStart"
| "labelAction ProtocolLabelWidenCommitNew = ProtocolWidenCommit"
| "labelAction ProtocolLabelWidenCommitOld = ProtocolWidenCommit"
| "labelAction ProtocolLabelWidenCommitUnknown = ProtocolWidenCommit"
| "labelAction ProtocolLabelWidenApply = ProtocolApplyAction"
| "labelAction ProtocolLabelNarrowApply = ProtocolApplyAction"
| "labelAction ProtocolLabelPositiveInspect = ProtocolInspectAction"
| "labelAction ProtocolLabelWidenFinalCommitNew = ProtocolWidenFinalCommit"
| "labelAction ProtocolLabelWidenFinalCommitOld = ProtocolWidenFinalCommit"
| "labelAction ProtocolLabelWidenFinalCommitUnknown = ProtocolWidenFinalCommit"
| "labelAction ProtocolLabelNarrowStart = ProtocolNarrowStart"
| "labelAction ProtocolLabelNarrowFinalCommitNew = ProtocolNarrowFinalCommit"
| "labelAction ProtocolLabelNarrowFinalCommitOld = ProtocolNarrowFinalCommit"
| "labelAction ProtocolLabelNarrowFinalCommitUnknown = ProtocolNarrowFinalCommit"
| "labelAction ProtocolLabelRecoverEgress = ProtocolRecoverEgress"
| "labelAction ProtocolLabelObserveInvalidPersistence = ProtocolObserveInvalidPersistence"
| "labelAction ProtocolLabelStopStart = ProtocolStopStart"
| "labelAction ProtocolLabelRequestTeardown = ProtocolRequestTeardown"
| "labelAction ProtocolLabelTeardownProven = ProtocolTeardownAction"
| "labelAction ProtocolLabelTeardownUnknown = ProtocolTeardownAction"
| "labelAction ProtocolLabelTerminalStutter = ProtocolTerminalStutter"

definition mkEvent ::
  "protocol_action \<Rightarrow> protocol_outcome \<Rightarrow> protocol_grant \<Rightarrow> protocol_truth \<Rightarrow> ProtocolEvent" where
  "mkEvent a r g w = \<lparr>evAction = a, evOutcome = r, evGrant = g, evTruth = w\<rparr>"

lemma mkEvent_select [simp]:
  "evAction (mkEvent a r g w) = a" "evOutcome (mkEvent a r g w) = r"
  "evGrant (mkEvent a r g w) = g" "evTruth (mkEvent a r g w) = w"
  by (simp_all add: mkEvent_def)

lemma protocolEmptyEvent_mk [simp]:
  "protocolEmptyEvent (mkEvent a r g w) \<longleftrightarrow>
     r = ProtocolNoOutcome \<and> g = 0 \<and> w = ProtocolNoTruth"
  by (simp add: protocolEmptyEvent_def)

fun labelOutcome :: "protocol_label \<Rightarrow> protocol_outcome" where
  "labelOutcome l =
     (if l \<in> {ProtocolLabelClaimCommitNew, ProtocolLabelWidenCommitNew,
             ProtocolLabelWidenFinalCommitNew, ProtocolLabelNarrowFinalCommitNew}
      then ProtocolKnownNew
      else if l \<in> {ProtocolLabelClaimCommitOld, ProtocolLabelWidenCommitOld,
             ProtocolLabelWidenFinalCommitOld, ProtocolLabelNarrowFinalCommitOld}
      then ProtocolKnownOld
      else if l \<in> {ProtocolLabelClaimCommitUnknown, ProtocolLabelWidenCommitUnknown,
             ProtocolLabelWidenFinalCommitUnknown, ProtocolLabelNarrowFinalCommitUnknown}
      then ProtocolCommitUnknown
      else if l \<in> {ProtocolLabelWidenApply, ProtocolLabelNarrowApply} then ProtocolSucceeded
      else if l = ProtocolLabelPositiveInspect then ProtocolMatched
      else if l = ProtocolLabelTeardownProven then ProtocolTeardownProven
      else if l = ProtocolLabelTeardownUnknown then ProtocolTeardownUnknown
      else ProtocolNoOutcome)"

definition labelEvent ::
  "ProtocolBounds \<Rightarrow> ProtocolState \<Rightarrow> protocol_label \<Rightarrow> ProtocolState \<Rightarrow> protocol_outcome
   \<Rightarrow> protocol_grant \<Rightarrow> protocol_truth \<Rightarrow> bool" where
  "labelEvent bounds s l t r g w \<longleftrightarrow>
     reduceAction (labelAction l) bounds s (mkEvent (labelAction l) r g w) = Some t
   \<and> acceptedLabel s (mkEvent (labelAction l) r g w) = Some l"

lemma step_labelEvent:
  assumes "proto_step bounds s l t"
  shows "labelEvent bounds s l t (labelOutcome l) 0 ProtocolNoTruth
       \<or> labelEvent bounds s l t (labelOutcome l) 0 ProtocolOld
       \<or> labelEvent bounds s l t (labelOutcome l) 0 ProtocolNew
       \<or> labelEvent bounds s l t ProtocolObservedCorrupt 0 ProtocolNoTruth
       \<or> labelEvent bounds s l t ProtocolObservedStale 0 ProtocolNoTruth
       \<or> (\<exists>g. labelEvent bounds s l t ProtocolNoOutcome g ProtocolNoTruth)"
  using assms
proof (cases rule: proto_step.cases)
  case (widen_start g)
  then have "labelEvent bounds s l t ProtocolNoOutcome g ProtocolNoTruth"
    by (simp add: labelEvent_def reduce_iffs acceptedLabel_def)
  then show ?thesis by blast
next
  case (narrow_start g)
  then have "labelEvent bounds s l t ProtocolNoOutcome g ProtocolNoTruth"
    by (simp add: labelEvent_def reduce_iffs acceptedLabel_def)
  then show ?thesis by blast
next
  case (observe_invalid h)
  then show ?thesis
    by (elim disjE) (simp_all add: labelEvent_def reduce_iffs acceptedLabel_def)
qed (simp_all add: labelEvent_def reduce_iffs commitCase_def acceptedLabel_def
      protocolCommitLabel_def split del: if_split)

lemma step_reduceAction:
  "proto_step bounds s l t \<Longrightarrow> \<exists>r g w. labelEvent bounds s l t r g w"
  by (drule step_labelEvent) blast

lemma acceptedLabel_normalize [simp]:
  "acceptedLabel (NormalizeProtocolState s) e = acceptedLabel s e"
  by (cases "evAction e") (simp_all add: acceptedLabel_def normalizeDirection_def)

lemma ReduceProtocolWithin_step:
  assumes "ReduceProtocolWithin bounds s e = (t, True)"
    and "ProtocolEventLabelWithin bounds s e = Some l"
  shows "\<exists>u. proto_step (normalizeProtocolBounds bounds) (NormalizeProtocolState s) l u
           \<and> t = NormalizeProtocolState u
           \<and> protocolStateInDomain bounds (NormalizeProtocolState s)"
proof -
  from ReduceProtocolWithin_TrueD [OF assms(1)] obtain u where
    u: "reduceAction (evAction e) (normalizeProtocolBounds bounds) (NormalizeProtocolState s) e
          = Some u" "t = NormalizeProtocolState u"
      "protocolStateInDomain bounds (NormalizeProtocolState s)" by blast
  from reduceAction_step [OF u(1)] obtain l' where
    l': "acceptedLabel (NormalizeProtocolState s) e = Some l'"
      "proto_step (normalizeProtocolBounds bounds) (NormalizeProtocolState s) l' u" by blast
  from l'(1) assms have "l' = l" by (simp add: ProtocolEventLabelWithin_def)
  with l'(2) u show ?thesis by blast
qed

lemma step_ReduceProtocolWithin:
  assumes "proto_step (normalizeProtocolBounds bounds) s l u"
    and "protocolStateInDomain bounds s"
  shows "\<exists>e. ReduceProtocolWithin bounds s e = (NormalizeProtocolState u, True)
           \<and> ProtocolEventLabelWithin bounds s e = Some l"
proof -
  from step_reduceAction [OF assms(1)] obtain r g w where
    a: "reduceAction (labelAction l) (normalizeProtocolBounds bounds) s
          (mkEvent (labelAction l) r g w) = Some u"
    and b: "acceptedLabel s (mkEvent (labelAction l) r g w) = Some l"
    unfolding labelEvent_def by blast
  have n: "NormalizeProtocolState s = s" using assms(2) by (rule inDomain_normal)
  have d: "protocolStateInDomain (normalizeProtocolBounds bounds) s"
    using assms(2) by (simp add: protocolStateInDomain_iff)
  have "ReduceProtocolWithin bounds s (mkEvent (labelAction l) r g w)
          = (NormalizeProtocolState u, True)"
    using a n d by (simp add: ReduceProtocolWithin_def Let_def)
  moreover from this b have "ProtocolEventLabelWithin bounds s (mkEvent (labelAction l) r g w) = Some l"
    by (simp add: ProtocolEventLabelWithin_def)
  ultimately show ?thesis by blast
qed

lemma accepted_has_label:
  "ReduceProtocolWithin bounds s e = (t, True) \<Longrightarrow>
     \<exists>l. ProtocolEventLabelWithin bounds s e = Some l"
proof -
  assume r: "ReduceProtocolWithin bounds s e = (t, True)"
  from ReduceProtocolWithin_TrueD [OF r] obtain u where
    u: "reduceAction (evAction e) (normalizeProtocolBounds bounds) (NormalizeProtocolState s) e
          = Some u" by blast
  from reduceAction_step [OF u] r show ?thesis by (auto simp: ProtocolEventLabelWithin_def)
qed

section \<open>Runs of the reducer\<close>

definition goStart :: "ProtocolBounds \<Rightarrow> ProtocolState \<Rightarrow> bool" where
  "goStart bounds s \<longleftrightarrow> s \<in> set (InitialProtocolStates bounds)"

definition goStep :: "ProtocolBounds \<Rightarrow> ProtocolState \<Rightarrow> protocol_label \<Rightarrow> ProtocolState \<Rightarrow> bool" where
  "goStep bounds s l t \<longleftrightarrow>
     (\<exists>e. ReduceProtocolWithin bounds s e = (t, True)
        \<and> ProtocolEventLabelWithin bounds s e = Some l)"

abbreviation goReach :: "ProtocolBounds \<Rightarrow> ProtocolState \<Rightarrow> bool" where
  "goReach bounds \<equiv> reach (goStart bounds) (goStep bounds)"

lemma goStep_proto_step:
  assumes "goStep bounds s l t" and "protocolStateInDomain bounds s"
  shows "\<exists>u. proto_step (normalizeProtocolBounds bounds) s l u \<and> t = NormalizeProtocolState u"
proof -
  have "NormalizeProtocolState s = s" using assms(2) by (rule inDomain_normal)
  with assms(1) show ?thesis
    unfolding goStep_def by (metis ReduceProtocolWithin_step)
qed

lemma initial_control:
  "s \<in> set (InitialProtocolStates bounds) \<Longrightarrow>
     ownerShape s \<and> protoControl s \<and> protocolStateInDomain bounds s"
  by (simp add: InitialProtocolStates_def Let_def ownerShape_def protoControl_def
      idleControl_def noPending_def genAgreement_def durableGeneration_def
      protocolStateInDomain_iff normalizeProtocolBounds_def)

interpretation proto: invariant_system "goStart bounds" "goStep bounds" "proto_inv bounds"
  for bounds
proof unfold_locales
  fix s assume "goStart bounds s"
  then show "proto_inv bounds s"
    using initial_control inDomain_normal by (auto simp: goStart_def proto_inv_def)
next
  fix s l t assume inv: "proto_inv bounds s" and "goStep bounds s l t"
  moreover from inv have "protocolStateInDomain bounds s" by (simp add: proto_inv_def)
  ultimately obtain u where u: "proto_step (normalizeProtocolBounds bounds) s l u"
    "t = NormalizeProtocolState u" using goStep_proto_step by blast
  with inv show "proto_inv bounds t"
    using ownerShape_step [OF u(1)] protoControl_step [OF u(1)] domain_step [OF u(1)]
    by (auto simp: proto_inv_def)
qed

text \<open>The facts about a reachable state that the safety laws are read off from.\<close>

lemma reach_facts:
  assumes "goReach bounds s"
  shows "ownerShape s" and "protoControl s" and "protocolStateInDomain bounds s"
  using proto.inv_reach [OF assms] by (simp_all add: proto_inv_def)

lemma reach_goStep:
  assumes "goReach bounds s" and "goStep bounds s l t"
  obtains u where "proto_step (normalizeProtocolBounds bounds) s l u"
    and "t = NormalizeProtocolState u"
proof -
  from goStep_proto_step [OF assms(2) reach_facts(3) [OF assms(1)]]
  show thesis using that by blast
qed

lemma proto_step_goStep:
  assumes "goReach bounds s" and "proto_step (normalizeProtocolBounds bounds) s l u"
  shows "goStep bounds s l (NormalizeProtocolState u)"
  using step_ReduceProtocolWithin [OF assms(2) reach_facts(3) [OF assms(1)]]
  by (auto simp: goStep_def)

lemmas reach_control_defs = protoControl_def control_defs ownerShape_def

lemma enabled_step:
  assumes "ownerShape s" and "protoControl s"
  shows "\<exists>l u. proto_step bounds s l u
           \<and> (l = ProtocolLabelTerminalStutter \<longleftrightarrow> psStatus s = ProtocolStopped)"
proof -
  let ?P = "\<lambda>l. (\<exists>u. proto_step bounds s l u)
              \<and> (l = ProtocolLabelTerminalStutter \<longleftrightarrow> psStatus s = ProtocolStopped)"
  have idle: "\<exists>l. ?P l" if "idleControl s" "psOperation s = ProtocolIdle"
    using that assms(1) claim_start [of s bounds] stop_start [of s bounds]
      terminal_stutter [of s bounds]
    unfolding idleControl_def ownerShape_def by (elim conjE disjE) (simp_all, blast+)
  have claim: "?P ProtocolLabelClaimCommitNew" if "claimControl s" "psOperation s = ProtocolClaim"
    using that claim_commit_new [of s bounds] by (auto simp: claimControl_def)
  have widen: "\<exists>l. ?P l" if w: "widenControl s" "psOperation s = ProtocolWiden"
  proof -
    from w consider "psEffect s = ProtocolCommit" "\<not> protocolPendingIsDurable s"
      | "psEffect s = ProtocolApply" "protocolPendingIsDurable s"
      | "psEffect s = ProtocolInspect" "psRuntimeGeneration s = pendingGeneration s"
      | "psEffect s = ProtocolCommit" "protocolPendingIsDurable s"
        "psInspectedGeneration s = pendingGeneration s"
      by (auto simp: widenControl_def runtimePending_def protocolPendingIsDurable_def)
    then show ?thesis using w
      by cases (use widen_commit_new [of s bounds] widen_apply [of s bounds]
        positive_inspect [of s bounds] widen_final_new [of s bounds] in
        \<open>fastforce simp: widenControl_def\<close>)+
  qed
  have narrow: "\<exists>l. ?P l" if w: "narrowControl s" "psOperation s = ProtocolNarrow"
  proof -
    from w consider "psEffect s = ProtocolApply"
      | "psEffect s = ProtocolInspect" "psRuntimeGeneration s = pendingGeneration s"
      | "psEffect s = ProtocolCommit" "psInspectedGeneration s = pendingGeneration s"
      by (auto simp: narrowControl_def runtimePending_def)
    then show ?thesis using w
      by cases (use narrow_apply [of s bounds] positive_inspect [of s bounds]
        narrow_final_new [of s bounds] in \<open>fastforce simp: narrowControl_def\<close>)+
  qed
  have recover: "?P ProtocolLabelRequestTeardown" if "recoverControl s"
    using that assms(1) request_teardown [of s bounds]
    by (auto simp: recoverControl_def ownerShape_def)
  have down: "?P ProtocolLabelTeardownProven"
    if "stopControl s \<and> psOperation s = ProtocolStop
      \<or> teardownControl s \<and> psOperation s = ProtocolTeardown"
    using that teardown_proven [of s bounds] by (auto simp: stopControl_def teardownControl_def)
  show ?thesis using assms(2) idle claim widen narrow recover down
    unfolding protoControl_def by metis
qed

end
