(* ===== verification/ProtocolLaws.thy ===== *)
theory ProtocolLaws
  imports ProtocolSafety
begin

text \<open>
  The laws of the session reducer, each for every state reachable under arbitrary bounds: the
  safety properties of \<open>formal/session\<close>, what an unclassified commit may do, how durable
  authority moves, and that \<open>EnabledProtocolWithin\<close> enumerates exactly the accepted events.
  \<open>protocolReplay\<close> evaluates event lists, for the witnesses.
\<close>

section \<open>Replaying events\<close>

fun protocolReplay :: "ProtocolBounds \<Rightarrow> ProtocolState \<Rightarrow> ProtocolEvent list \<Rightarrow> ProtocolState option" where
  "protocolReplay bounds s [] = Some s"
| "protocolReplay bounds s (e # es) =
     (let (t, ok) = ReduceProtocolWithin bounds s e in
      if ok then protocolReplay bounds t es else None)"

lemma protocolReplay_reach:
  "goReach bounds s \<Longrightarrow> protocolReplay bounds s es = Some t \<Longrightarrow> goReach bounds t"
proof (induction es arbitrary: s)
  case (Cons e es)
  obtain u where u: "ReduceProtocolWithin bounds s e = (u, True)"
    "protocolReplay bounds u es = Some t"
    using Cons.prems(2) by (auto split: prod.splits if_splits)
  then obtain l where "goStep bounds s l u"
    using accepted_has_label [OF u(1)] by (auto simp: goStep_def)
  with Cons.prems(1) have "goReach bounds u" by (rule reach.reach_step)
  with u(2) show ?case using Cons.IH by blast
qed simp

lemma replay_from_start:
  "protocolReplay zeroBounds initialProtocolState es = Some t \<Longrightarrow> goReach zeroBounds t"
  by (rule protocolReplay_reach [rotated], assumption, rule reach.reach_start)
    (simp add: goStart_def initialProtocolState_def InitialProtocolStates_def Let_def)

definition claimEvents :: "ProtocolEvent list" where
  "claimEvents =
     [mkEvent ProtocolClaimStart ProtocolNoOutcome 0 ProtocolNoTruth,
      mkEvent ProtocolClaimCommit ProtocolKnownNew 0 ProtocolNoTruth]"

definition widenCommitEvents :: "ProtocolEvent list" where
  "widenCommitEvents =
     claimEvents @ [mkEvent ProtocolWidenStart ProtocolNoOutcome ProtocolGrantA ProtocolNoTruth]"

definition widenEvents :: "ProtocolEvent list" where
  "widenEvents =
     widenCommitEvents
     @ [mkEvent ProtocolWidenCommit ProtocolKnownNew 0 ProtocolNoTruth,
        mkEvent ProtocolApplyAction ProtocolSucceeded 0 ProtocolNoTruth,
        mkEvent ProtocolInspectAction ProtocolMatched 0 ProtocolNoTruth,
        mkEvent ProtocolWidenFinalCommit ProtocolKnownNew 0 ProtocolNoTruth]"

definition doubtEvents :: "ProtocolEvent list" where
  "doubtEvents =
     widenCommitEvents @ [mkEvent ProtocolWidenCommit ProtocolCommitUnknown 0 ProtocolNew]"

definition stopEvents :: "ProtocolEvent list" where
  "stopEvents =
     widenEvents @ [mkEvent ProtocolStopStart ProtocolNoOutcome 0 ProtocolNoTruth]"

definition stoppedEvents :: "ProtocolEvent list" where
  "stoppedEvents =
     stopEvents @ [mkEvent ProtocolTeardownAction ProtocolTeardownProven 0 ProtocolNoTruth]"

lemmas event_defs = claimEvents_def widenCommitEvents_def widenEvents_def doubtEvents_def
  stopEvents_def stoppedEvents_def

definition replayed :: "ProtocolEvent list \<Rightarrow> ProtocolState" where
  "replayed es = the (protocolReplay zeroBounds initialProtocolState es)"

lemma replayed_reachI:
  "protocolReplay zeroBounds initialProtocolState es \<noteq> None \<Longrightarrow> goReach zeroBounds (replayed es)"
  by (cases "protocolReplay zeroBounds initialProtocolState es")
    (auto simp: replayed_def intro: replay_from_start)

lemma replayed_accepted:
  "\<forall>es \<in> {claimEvents, widenCommitEvents, widenEvents, doubtEvents, stopEvents, stoppedEvents}.
     protocolReplay zeroBounds initialProtocolState es \<noteq> None"
  by code_simp

lemma replayed_reach:
  "goReach zeroBounds (replayed claimEvents)" "goReach zeroBounds (replayed widenCommitEvents)"
  "goReach zeroBounds (replayed widenEvents)" "goReach zeroBounds (replayed doubtEvents)"
  "goReach zeroBounds (replayed stopEvents)" "goReach zeroBounds (replayed stoppedEvents)"
  using replayed_accepted by (auto intro!: replayed_reachI)

lemma replayed_values:
  "psRuntimeAuthority (replayed widenEvents) = ProtocolGrantA"
  "psMode (replayed widenEvents) = ProtocolNormal"
  "psOperation (replayed widenEvents) = ProtocolIdle"
  "psStatus (replayed widenEvents) = ProtocolRunning"
  "psHealth (replayed doubtEvents) = ProtocolUncertain"
  "psStatus (replayed stopEvents) = ProtocolRunning"
  "psStatus (replayed stoppedEvents) = ProtocolStopped"
  "psStatus (replayed doubtEvents) \<noteq> ProtocolStopped"
  by code_simp+

lemma goStepI:
  "ReduceProtocolWithin bounds s e = (t, True) \<Longrightarrow> ProtocolEventLabelWithin bounds s e = Some l
     \<Longrightarrow> goStep bounds s l t"
  by (auto simp: goStep_def)

section \<open>Safety laws\<close>

text \<open>(C6) Runtime authority never exceeds durable authority: in every state reachable under any
  bounds, every grant the proxy enforces is already in the durable record.\<close>

theorem reach_runtime_subset_durable:
  assumes "goReach bounds s"
  shows "wsub (psRuntimeAuthority s) (psDurableAuthority s)"
  using reach_facts [OF assms]
  by (auto simp: protoControl_def control_defs protocolPendingIsDurable_def)

theorem reach_runtime_subset_durable_witness:
  "psRuntimeAuthority (replayed widenEvents) = ProtocolGrantA
     \<and> wsub (psRuntimeAuthority (replayed widenEvents)) (psDurableAuthority (replayed widenEvents))"
  using reach_runtime_subset_durable [OF replayed_reach(3)] replayed_values(1) by blast





text \<open>Ownership: a running session has exactly one symbolic owner, \<open>OwnerB\<close> exactly when
  it is detached; a created or stopped session has none; no other status occurs.\<close>

theorem reach_single_owner:
  assumes "goReach bounds s"
  shows "psStatus s = ProtocolRunning
           \<and> psOwners s = (if psDetached s then ProtocolOwnerB else ProtocolOwnerA)
       \<or> (psStatus s = ProtocolCreated \<or> psStatus s = ProtocolStopped)
           \<and> psOwners s = 0 \<and> \<not> psDetached s"
  using reach_facts(1) [OF assms] by (auto simp: ownerShape_def)

theorem reach_single_owner_witness:
  "psStatus (replayed widenEvents) = ProtocolRunning \<and> psOwners (replayed widenEvents) \<noteq> 0"
  using reach_single_owner [OF replayed_reach(3)] replayed_values(4)
  by (auto simp: protocol_mask_defs split: if_splits)


text \<open>Uncertainty blocks authority changes: from a reachable state whose health is not
  \<open>Healthy\<close>, the only accepted transitions are recovery and teardown, so no claim,
  handoff, widening or narrowing can be accepted before the doubt is resolved.\<close>

theorem reach_unhealthy_blocks:
  assumes "goReach bounds s" and "psHealth s \<noteq> ProtocolHealthy" and "goStep bounds s l t"
  shows "psMode s = ProtocolBlocked
       \<and> l \<in> {ProtocolLabelRecoverClaim, ProtocolLabelRecoverEgress,
              ProtocolLabelRequestTeardown, ProtocolLabelTeardownProven,
              ProtocolLabelTeardownUnknown}"
proof -
  obtain u where "proto_step (normalizeProtocolBounds bounds) s l u"
    using assms(1,3) by (rule reach_goStep)
  then show ?thesis using reach_facts(1,2) [OF assms(1)] assms(2)
    by (cases rule: proto_step.cases) (auto simp: reach_control_defs)
qed

theorem reach_unhealthy_blocks_witness:
  "\<exists>t. goStep zeroBounds (replayed doubtEvents) ProtocolLabelRecoverEgress t
     \<and> psMode (replayed doubtEvents) = ProtocolBlocked"
proof -
  have step: "goStep zeroBounds (replayed doubtEvents) ProtocolLabelRecoverEgress
      (replayed (doubtEvents @ [mkEvent ProtocolRecoverEgress ProtocolNoOutcome 0 ProtocolNoTruth]))"
    by (rule goStepI [where e = "mkEvent ProtocolRecoverEgress ProtocolNoOutcome 0 ProtocolNoTruth"]; code_simp)
  have "psHealth (replayed doubtEvents) \<noteq> ProtocolHealthy" by (simp add: replayed_values)
  from reach_unhealthy_blocks [OF replayed_reach(4) this step] step show ?thesis by blast
qed


text \<open>A stopped session is terminal: it holds no owner, no runtime authority and no
  runtime generation, and every accepted event leaves it unchanged.\<close>

theorem reach_stopped_terminal:
  assumes "goReach bounds s" and "psStatus s = ProtocolStopped"
  shows "psOwners s = 0 \<and> psRuntimeAuthority s = 0
       \<and> psRuntimeGeneration s = protocolNoGeneration \<and> psMode s = ProtocolTerminal
       \<and> (\<forall>l t. goStep bounds s l t \<longrightarrow> l = ProtocolLabelTerminalStutter \<and> t = s)"
proof -
  have shape: "psOwners s = 0 \<and> psRuntimeAuthority s = 0
      \<and> psRuntimeGeneration s = protocolNoGeneration \<and> psMode s = ProtocolTerminal
      \<and> psOperation s = ProtocolIdle \<and> psEffect s = ProtocolNoEffect"
    using reach_facts(1,2) [OF assms(1)] assms(2) by (auto simp: reach_control_defs)
  have "l = ProtocolLabelTerminalStutter \<and> t = s" if step: "goStep bounds s l t" for l t
  proof -
    obtain u where u: "proto_step (normalizeProtocolBounds bounds) s l u"
      "t = NormalizeProtocolState u" using assms(1) step by (rule reach_goStep)
    have "NormalizeProtocolState s = s" using reach_facts(3) [OF assms(1)] by (rule inDomain_normal)
    with u shape assms(2) show ?thesis by (cases rule: proto_step.cases) auto
  qed
  with shape show ?thesis by blast
qed

theorem reach_stopped_terminal_witness:
  "psStatus (replayed stoppedEvents) = ProtocolStopped
     \<and> psRuntimeAuthority (replayed stoppedEvents) = 0
     \<and> psMode (replayed stoppedEvents) = ProtocolTerminal"
  using reach_stopped_terminal [OF replayed_reach(6) replayed_values(7)] replayed_values(7) by blast


text \<open>(C8) Only proven teardown stops a session: a transition into \<open>Stopped\<close> from a
  reachable state that is not stopped is labelled \<open>TeardownProven\<close>.\<close>

theorem reach_stop_needs_proof:
  assumes "goReach bounds s" and "goStep bounds s l t"
    and "psStatus s \<noteq> ProtocolStopped" and "psStatus t = ProtocolStopped"
  shows "l = ProtocolLabelTeardownProven"
proof -
  obtain u where "proto_step (normalizeProtocolBounds bounds) s l u"
    "t = NormalizeProtocolState u" using assms(1,2) by (rule reach_goStep)
  then show ?thesis using assms(3,4)
    by (cases rule: proto_step.cases) (auto simp: state_update_defs)
qed

theorem reach_stop_needs_proof_witness:
  "psStatus (replayed stopEvents) = ProtocolRunning
     \<and> goStep zeroBounds (replayed stopEvents) ProtocolLabelTeardownProven (replayed stoppedEvents)"
proof -
  have step: "goStep zeroBounds (replayed stopEvents) ProtocolLabelTeardownProven (replayed stoppedEvents)"
    by (rule goStepI [where e = "mkEvent ProtocolTeardownAction ProtocolTeardownProven 0 ProtocolNoTruth"]; code_simp)
  have "psStatus (replayed stopEvents) \<noteq> ProtocolStopped" by (simp add: replayed_values)
  from reach_stop_needs_proof [OF replayed_reach(5) step this replayed_values(7)] step
  show ?thesis using replayed_values(6) by blast
qed


text \<open>No dead ends: every reachable state accepts some event, and a state that is not
  stopped accepts one that is not a stutter.\<close>

theorem reach_progress:
  assumes "goReach bounds s"
  shows "\<exists>l t. goStep bounds s l t
           \<and> (l = ProtocolLabelTerminalStutter \<longleftrightarrow> psStatus s = ProtocolStopped)"
proof -
  from enabled_step [OF reach_facts(1,2) [OF assms]] obtain l u where
    "proto_step (normalizeProtocolBounds bounds) s l u"
    "l = ProtocolLabelTerminalStutter \<longleftrightarrow> psStatus s = ProtocolStopped" by blast
  then show ?thesis using proto_step_goStep [OF assms] by blast
qed

theorem reach_progress_witness:
  "\<exists>l t. goStep zeroBounds (replayed doubtEvents) l t \<and> l \<noteq> ProtocolLabelTerminalStutter"
  using reach_progress [OF replayed_reach(4)] replayed_values(8) by blast


section \<open>How durable authority moves\<close>

text \<open>A pending authority differs from the durable one by exactly one enumerated grant.\<close>

definition pendingOneGrant :: "ProtocolBounds \<Rightarrow> ProtocolState \<Rightarrow> bool" where
  "pendingOneGrant bounds s \<longleftrightarrow>
     (psOperation s = ProtocolWiden \<longrightarrow> psEffect s = ProtocolCommit \<longrightarrow>
        \<not> protocolPendingIsDurable s \<longrightarrow>
        (\<exists>g. protocolSingleGrant bounds g \<and> \<not> grantSetHas (psDurableAuthority s) g
           \<and> psPendingAuthority s = psDurableAuthority s OR g))
   \<and> (psOperation s = ProtocolNarrow \<longrightarrow>
        (\<exists>g. protocolSingleGrant bounds g \<and> grantSetHas (psDurableAuthority s) g
           \<and> psPendingAuthority s = psDurableAuthority s AND NOT g))"

lemma protocolSingleGrant_normalize [simp]:
  "protocolSingleGrant (normalizeProtocolBounds b) g = protocolSingleGrant b g"
  by (simp add: protocolSingleGrant_def)

lemma pendingIsDurable_normalize [simp]:
  "protocolPendingIsDurable (NormalizeProtocolState s) = protocolPendingIsDurable s"
  by (simp add: protocolPendingIsDurable_def)

lemma pendingOneGrant_step:
  assumes "proto_step (normalizeProtocolBounds bounds) s l t" and "protoControl s"
    and "pendingOneGrant bounds s"
  shows "pendingOneGrant bounds (NormalizeProtocolState t)"
  using assms
proof (cases rule: proto_step.cases)
  case positive_inspect
  then show ?thesis using assms(2,3)
    by (auto simp: pendingOneGrant_def protoControl_def widenControl_def protocolPendingIsDurable_def)
qed (auto simp: pendingOneGrant_def state_update_defs)

interpretation protoGrant: invariant_system "goStart bounds" "goStep bounds"
    "\<lambda>s. proto_inv bounds s \<and> pendingOneGrant bounds s"
  for bounds
proof unfold_locales
  fix s assume "goStart bounds s"
  then show "proto_inv bounds s \<and> pendingOneGrant bounds s"
    using proto.inv_start [of bounds s]
    by (auto simp: goStart_def InitialProtocolStates_def pendingOneGrant_def Let_def)
next
  fix s l t assume inv: "proto_inv bounds s \<and> pendingOneGrant bounds s" and step: "goStep bounds s l t"
  have facts: "proto_inv bounds s" "protoControl s" "protocolStateInDomain bounds s"
    "pendingOneGrant bounds s" using inv by (simp_all add: proto_inv_def)
  obtain u where u: "proto_step (normalizeProtocolBounds bounds) s l u" "t = NormalizeProtocolState u"
    using goStep_proto_step [OF step facts(3)] by blast
  show "proto_inv bounds t \<and> pendingOneGrant bounds t"
    using proto.inv_trans [OF facts(1) step] pendingOneGrant_step [OF u(1) facts(2,4)] u(2) by simp
qed

text \<open>Durable authority moves one grant and one revision at a time, and in the safe order: a
  widening is durable before the runtime has it, a narrowing is durable only after the
  runtime has dropped the grant and the reduced generation was positively inspected.\<close>

theorem durable_moves_by_one_grant:
  assumes "goReach bounds s" and "goStep bounds s l t"
    and "durableGeneration t \<noteq> durableGeneration s"
  shows "psDurableRevision t = psDurableRevision s + 1
       \<and> (\<exists>g. protocolSingleGrant bounds g
            \<and> (l \<in> {ProtocolLabelWidenCommitNew, ProtocolLabelWidenCommitUnknown}
               \<and> \<not> grantSetHas (psDurableAuthority s) g
               \<and> psDurableAuthority t = psDurableAuthority s OR g
               \<and> psRuntimeAuthority t = psDurableAuthority s
             \<or> l \<in> {ProtocolLabelNarrowFinalCommitNew, ProtocolLabelNarrowFinalCommitUnknown}
               \<and> grantSetHas (psDurableAuthority s) g
               \<and> psDurableAuthority t = psDurableAuthority s AND NOT g
               \<and> psRuntimeAuthority s = psDurableAuthority t
               \<and> psInspectedGeneration s = durableGeneration t))"
proof -
  obtain u where u: "proto_step (normalizeProtocolBounds bounds) s l u"
    "t = NormalizeProtocolState u" using assms(1,2) by (rule reach_goStep)
  have inv: "protoControl s" "pendingOneGrant bounds s"
    using protoGrant.inv_reach [OF assms(1)] by (simp_all add: proto_inv_def)
  from u(1) show ?thesis using inv assms(3) u(2)
    by (cases rule: proto_step.cases)
      (auto simp: pendingOneGrant_def protoControl_def control_defs state_update_defs)
qed

theorem durable_moves_by_one_grant_witness:
  "\<exists>l t. goStep zeroBounds (replayed widenCommitEvents) l t
     \<and> psDurableRevision t = psDurableRevision (replayed widenCommitEvents) + 1"
proof -
  let ?t = "replayed (widenCommitEvents @ [mkEvent ProtocolWidenCommit ProtocolKnownNew 0 ProtocolNoTruth])"
  have step: "goStep zeroBounds (replayed widenCommitEvents) ProtocolLabelWidenCommitNew ?t"
    by (rule goStepI [where e = "mkEvent ProtocolWidenCommit ProtocolKnownNew 0 ProtocolNoTruth"]; code_simp)
  have "durableGeneration ?t \<noteq> durableGeneration (replayed widenCommitEvents)" by code_simp
  from durable_moves_by_one_grant [OF replayed_reach(2) step this] step show ?thesis by blast
qed

section \<open>Unclassified commits and recovery\<close>

lemma unknown_commit_worlds:
  assumes "protoControl s"
    and "reduceAction a bounds s (mkEvent a ProtocolCommitUnknown 0 ProtocolOld) = Some u"
    and "reduceAction a bounds s (mkEvent a ProtocolCommitUnknown 0 ProtocolNew) = Some v"
  shows "u = blockProtocolRecovery s ProtocolUncertainResult
       \<and> psMode v = ProtocolBlocked \<and> psHealth v = ProtocolUncertain
       \<and> psOperation v = ProtocolRecover \<and> psEffect v = ProtocolInspect
       \<and> psRuntimeAuthority v = psRuntimeAuthority s
       \<and> (psStatus v \<noteq> psStatus s \<or> psDurableRevision v \<noteq> psDurableRevision s
          \<or> normalizeGeneration (psRecordedGeneration v) \<noteq> normalizeGeneration (psRecordedGeneration s))"
  using assms
  by (cases a) (auto simp: reduce_iffs commitCase_def state_update_defs protoControl_def control_defs)

text \<open>A commit that cannot be classified yields two different worlds, both blocked: whichever
  of old and new is the truth, the session is uncertain, in recovery, with the runtime
  authority untouched; the old world keeps the durable generation.\<close>

theorem unknown_commit_two_worlds:
  assumes "goReach zeroBounds s" and "ReduceProtocolUnknownCommit s a = (old, new, True)"
  shows "old \<noteq> new \<and> durableGeneration old = durableGeneration s
       \<and> (\<forall>w \<in> {old, new}. psMode w = ProtocolBlocked \<and> psHealth w = ProtocolUncertain
            \<and> psOperation w = ProtocolRecover \<and> psEffect w = ProtocolInspect
            \<and> psRuntimeAuthority w = psRuntimeAuthority s)"
proof -
  have norm: "NormalizeProtocolState s = s"
    using reach_facts(3) [OF assms(1)] by (rule inDomain_normal)
  let ?ev = "mkEvent a ProtocolCommitUnknown 0"
  have "ReduceProtocolWithin zeroBounds s (?ev ProtocolOld) = (old, True)"
    "ReduceProtocolWithin zeroBounds s (?ev ProtocolNew) = (new, True)"
    using assms(2) by (auto simp: ReduceProtocolUnknownCommit_def ReduceProtocol_def mkEvent_def
        split: prod.splits)
  from this [THEN ReduceProtocolWithin_TrueD] norm obtain u v where
    uv: "reduceAction a (normalizeProtocolBounds zeroBounds) s (?ev ProtocolOld) = Some u"
      "reduceAction a (normalizeProtocolBounds zeroBounds) s (?ev ProtocolNew) = Some v"
      "old = NormalizeProtocolState u" "new = NormalizeProtocolState v" by auto
  note worlds = unknown_commit_worlds [OF reach_facts(2) [OF assms(1)] uv(1,2)]
  then have "old \<noteq> new" unfolding uv(3,4)
    by (auto simp: blockProtocolRecovery_def dest: arg_cong [of _ _ psStatus]
        arg_cong [of _ _ psDurableRevision] arg_cong [of _ _ psRecordedGeneration])
  with worlds show ?thesis unfolding uv(3,4)
    by (auto simp: blockProtocolRecovery_def durableGeneration_def)
qed

theorem unknown_commit_two_worlds_witness:
  "\<exists>old new. ReduceProtocolUnknownCommit (replayed widenCommitEvents) ProtocolWidenCommit
       = (old, new, True) \<and> old \<noteq> new"
proof -
  let ?r = "ReduceProtocolUnknownCommit (replayed widenCommitEvents) ProtocolWidenCommit"
  have "snd (snd ?r)" by code_simp
  then have "?r = (fst ?r, fst (snd ?r), True)" by (metis prod.collapse eq_True)
  from unknown_commit_two_worlds [OF replayed_reach(2) this] this show ?thesis by blast
qed

text \<open>Recovery restores agreement: every reachable state that is blocked waiting for an
  inspection accepts a recovery event, after which the session is healthy and idle and the
  durable generation is unchanged and is the recorded, runtime and inspected generation.\<close>

theorem recovery_restores_agreement:
  assumes "goReach bounds s" and "psOperation s = ProtocolRecover" and "psEffect s = ProtocolInspect"
  shows "\<exists>l t. l \<in> {ProtocolLabelRecoverClaim, ProtocolLabelRecoverEgress} \<and> goStep bounds s l t
           \<and> psMode t = ProtocolNormal \<and> psHealth t = ProtocolHealthy
           \<and> psOperation t = ProtocolIdle \<and> psStatus t = psStatus s
           \<and> durableGeneration t = durableGeneration s
           \<and> psRecordedGeneration t = durableGeneration t
           \<and> psRuntimeGeneration t = durableGeneration t
           \<and> psInspectedGeneration t = durableGeneration t
           \<and> psRuntimeAuthority t = psDurableAuthority s"
proof -
  let ?b = "normalizeProtocolBounds bounds"
  have ctl: "recoverControl s" using reach_facts(2) [OF assms(1)] assms(2)
    by (auto simp: protoControl_def)
  have dir: "psDirection s = ProtocolNoDirection \<or> psDirection s = ProtocolWidenDirection
      \<or> psDirection s = ProtocolNarrowDirection"
    using ctl assms(3) by (auto simp: recoverControl_def noPending_def)
  obtain l u where u: "proto_step ?b s l u" "l \<in> {ProtocolLabelRecoverClaim, ProtocolLabelRecoverEgress}"
    using dir recover_claim [of s ?b] recover_egress [of s ?b] assms(2,3) by auto
  have step: "goStep bounds s l (NormalizeProtocolState u)"
    using assms(1) u(1) by (rule proto_step_goStep)
  have t: "psMode u = ProtocolNormal \<and> psHealth u = ProtocolHealthy \<and> psOperation u = ProtocolIdle
      \<and> psStatus u = psStatus s \<and> durableGeneration u = durableGeneration s
      \<and> psDurableAuthority u = psDurableAuthority s"
    using u by (cases rule: proto_step.cases) (auto simp: state_update_defs)
  have "goReach bounds (NormalizeProtocolState u)"
    using assms(1) step by (rule reach.reach_step)
  from reach_facts(2) [OF this] t have "genAgreement (NormalizeProtocolState u)"
    by (auto simp: protoControl_def idleControl_def)
  with t step u(2) show ?thesis
    by (intro exI [of _ l] exI [of _ "NormalizeProtocolState u"]) (simp add: genAgreement_def)
qed

theorem recovery_restores_agreement_witness:
  "\<exists>l t. goStep zeroBounds (replayed doubtEvents) l t \<and> psMode t = ProtocolNormal
     \<and> psRuntimeAuthority t = ProtocolGrantA"
proof -
  have "psOperation (replayed doubtEvents) = ProtocolRecover"
    "psEffect (replayed doubtEvents) = ProtocolInspect"
    "psDurableAuthority (replayed doubtEvents) = ProtocolGrantA" by code_simp+
  then show ?thesis using recovery_restores_agreement [OF replayed_reach(4)] by metis
qed

section \<open>Teardown is always within reach\<close>

definition canStop :: "ProtocolBounds \<Rightarrow> ProtocolState \<Rightarrow> bool" where
  "canStop bounds s \<longleftrightarrow>
     (\<exists>t. reach (\<lambda>x. x = s) (goStep bounds) t \<and> psStatus t = ProtocolStopped)"

lemma reach_from_next:
  "reach (\<lambda>x. x = t) T u \<Longrightarrow> T s l t \<Longrightarrow> reach (\<lambda>x. x = s) T u"
  by (induction rule: reach.induct) (auto intro: reach.intros)

lemma canStop_here: "psStatus s = ProtocolStopped \<Longrightarrow> canStop bounds s"
  by (auto simp: canStop_def intro: reach.reach_start)

lemma canStop_step:
  assumes "goReach bounds s" and "proto_step (normalizeProtocolBounds bounds) s l u"
    and "goReach bounds (NormalizeProtocolState u) \<Longrightarrow> canStop bounds (NormalizeProtocolState u)"
  shows "canStop bounds s"
proof -
  have "goStep bounds s l (NormalizeProtocolState u)" using assms(1,2) by (rule proto_step_goStep)
  moreover from assms(1) this have "goReach bounds (NormalizeProtocolState u)"
    by (rule reach.reach_step)
  ultimately show ?thesis using assms(3) by (auto simp: canStop_def intro: reach_from_next)
qed

lemma canStop_teardown:
  assumes "goReach bounds s" and "psEffect s = ProtocolTeardownEffect"
    and "psOperation s = ProtocolStop \<or> psOperation s = ProtocolTeardown"
  shows "canStop bounds s"
  by (rule canStop_step [OF assms(1) teardown_proven]) (use assms in \<open>auto intro: canStop_here\<close>)

lemma canStop_blocked:
  assumes "goReach bounds s" and "psMode s = ProtocolBlocked"
    and "psEffect s \<noteq> ProtocolTeardownEffect"
  shows "canStop bounds s"
  by (rule canStop_step [OF assms(1) request_teardown])
    (use assms in \<open>auto intro: canStop_teardown\<close>)

lemma canStop_running:
  assumes "goReach bounds s" and "psStatus s = ProtocolRunning"
    and "psMode s = ProtocolNormal" and "psOperation s = ProtocolIdle"
  shows "canStop bounds s"
  by (rule canStop_step [OF assms(1) stop_start])
    (use assms in \<open>auto intro: canStop_teardown\<close>)

lemma canStop_claim:
  assumes "goReach bounds s" and "psOperation s = ProtocolClaim" and "psEffect s = ProtocolCommit"
    and "psMode s = ProtocolNormal"
  shows "canStop bounds s"
  by (rule canStop_step [OF assms(1) claim_commit_new])
    (use assms in \<open>auto intro!: canStop_running simp: state_update_defs\<close>)

lemma canStop_commit:
  assumes "goReach bounds s" and "psEffect s = ProtocolCommit"
    and "psOperation s = ProtocolWiden \<or> psOperation s = ProtocolNarrow"
  shows "canStop bounds s"
proof -
  let ?b = "normalizeProtocolBounds bounds"
  have "\<exists>l u. proto_step ?b s l u \<and> psStatus u = ProtocolRunning \<and> psMode u = ProtocolNormal
      \<and> psOperation u = ProtocolIdle"
  proof (cases "psOperation s = ProtocolWiden \<and> \<not> protocolPendingIsDurable s")
    case True
    then show ?thesis using widen_commit_old [of s ?b] reach_facts(2) [OF assms(1)] assms(2)
      by (fastforce simp: protoControl_def widenControl_def state_update_defs)
  next
    case False
    then show ?thesis using widen_final_new [of s ?b] narrow_final_new [of s ?b]
        reach_facts(2) [OF assms(1)] assms(2,3)
      by (fastforce simp: protoControl_def widenControl_def narrowControl_def state_update_defs)
  qed
  then show ?thesis using canStop_step [OF assms(1)] canStop_running by fastforce
qed

lemma canStop_inspect:
  assumes "goReach bounds s" and "psEffect s = ProtocolInspect"
    and "psOperation s = ProtocolWiden \<or> psOperation s = ProtocolNarrow"
  shows "canStop bounds s"
proof (rule canStop_step [OF assms(1) positive_inspect])
  show "psRuntimeGeneration s = pendingGeneration s" using reach_facts(2) [OF assms(1)] assms(2,3)
    by (auto simp: protoControl_def widenControl_def narrowControl_def runtimePending_def)
qed (use assms in \<open>auto intro: canStop_commit\<close>)

lemma canStop_apply:
  assumes "goReach bounds s" and "psEffect s = ProtocolApply"
    and "psOperation s = ProtocolWiden \<or> psOperation s = ProtocolNarrow"
  shows "canStop bounds s"
proof -
  let ?b = "normalizeProtocolBounds bounds"
  have "\<exists>l u. proto_step ?b s l u \<and> psEffect u = ProtocolInspect
      \<and> (psOperation u = ProtocolWiden \<or> psOperation u = ProtocolNarrow)"
    using widen_apply [of s ?b] narrow_apply [of s ?b] reach_facts(2) [OF assms(1)] assms(2,3)
    by (fastforce simp: protoControl_def widenControl_def narrowControl_def)
  then show ?thesis using canStop_step [OF assms(1)] canStop_inspect by fastforce
qed

lemma canStop_idle:
  assumes "goReach bounds s" and "psOperation s = ProtocolIdle"
  shows "canStop bounds s"
proof -
  have idle: "idleControl s" using reach_facts(2) [OF assms(1)] assms(2)
    by (auto simp: protoControl_def)
  from reach_facts(1) [OF assms(1)] consider "psStatus s = ProtocolStopped"
    | "psStatus s = ProtocolRunning" "psMode s = ProtocolNormal"
    | "psStatus s = ProtocolCreated" "psMode s = ProtocolNormal"
    using idle by (auto simp: ownerShape_def idleControl_def)
  then show ?thesis
  proof cases
    case 3
    show ?thesis by (rule canStop_step [OF assms(1) claim_start])
        (use 3 assms(2) in \<open>auto intro: canStop_claim\<close>)
  qed (use assms in \<open>auto intro: canStop_here canStop_running\<close>)
qed

text \<open>(C9) Cleanup never becomes impossible: from every reachable state some sequence of accepted
  events ends in a stopped session, which then holds no owner and no runtime authority.\<close>

theorem reach_can_stop:
  assumes "goReach bounds s"
  shows "\<exists>t. reach (\<lambda>x. x = s) (goStep bounds) t \<and> psStatus t = ProtocolStopped"
proof -
  have "canStop bounds s" using reach_facts(2) [OF assms] assms
    by (auto simp: protoControl_def claimControl_def widenControl_def narrowControl_def
        recoverControl_def stopControl_def teardownControl_def
        intro: canStop_idle canStop_claim canStop_commit canStop_inspect canStop_apply
          canStop_blocked canStop_teardown)
  then show ?thesis by (simp add: canStop_def)
qed

theorem reach_can_stop_witness:
  "\<exists>t. reach (\<lambda>x. x = replayed doubtEvents) (goStep zeroBounds) t \<and> psStatus t = ProtocolStopped"
  using reach_can_stop [OF replayed_reach(4)] .

section \<open>Enumeration of the accepted events\<close>

lemma accepted_event_domain:
  assumes "reduceAction (evAction e) bounds s e = Some t"
  shows "evAction e \<in> set protocolActions" and "evOutcome e \<in> set protocolOutcomes"
    and "evTruth e \<in> set protocolTruths"
    and "evGrant e = 0 \<or> protocolSingleGrant bounds (evGrant e)"
  using assms
  by (cases "evAction e"; auto simp: reduce_iffs commitCase_def protocolEmptyEvent_def
      protocolActions_def protocolOutcomes_def protocolTruths_def)+

lemma foldl_or_bit: "bit (foldl (\<lambda>m g. m OR g) a gs) n \<longleftrightarrow> bit a n \<or> (\<exists>g \<in> set gs. bit g n)"
  by (induction gs arbitrary: a) (auto simp: bit_or_iff)

lemma single_grant_listed:
  assumes "protocolSingleGrant bounds g"
    and "\<forall>h \<in> set (BoundGrants (normalizeProtocolBounds bounds)). h AND (h - 1) = 0"
  shows "g \<in> set (BoundGrants (normalizeProtocolBounds bounds))"
proof -
  have "g \<noteq> 0" "g AND (g - 1) = 0" using assms(1)
    by (auto simp: protocolSingleGrant_def split: if_splits)
  then obtain i where i: "i < 8" "g = 2 ^ i" using single_bit_cases [of g] by auto
  with single_grant_within [OF assms(1)] have "bit (protocolGrantMask bounds) i"
    by (simp add: wsub_bits)
  then obtain h where h: "h \<in> set (BoundGrants (normalizeProtocolBounds bounds))" "bit h i"
    by (auto simp: protocolGrantMask_def foldl_or_bit)
  then have "h \<noteq> 0" by auto
  then obtain j where j: "j < 8" "h = 2 ^ j" using single_bit_cases [of h] assms(2) h(1) by auto
  with h(2) have "i = j" by simp
  with h i j show ?thesis by simp
qed

text \<open>\<open>EnabledProtocolWithin\<close> is exact: when every enumerated grant is a single bit, an event
  is in its list if and only if the reducer accepts it, for every state whatever.\<close>

theorem enabled_protocol_exact:
  assumes "\<forall>h \<in> set (BoundGrants (normalizeProtocolBounds bounds)). h AND (h - 1) = 0"
  shows "e \<in> set (EnabledProtocolWithin bounds s) \<longleftrightarrow> snd (ReduceProtocolWithin bounds s e)"
proof -
  let ?b = "normalizeProtocolBounds bounds"
  have same: "ReduceProtocolWithin ?b s ev = ReduceProtocolWithin bounds s ev" for ev
    by (simp add: ReduceProtocolWithin_def protocolStateInDomain_def)
  have enum: "e \<in> set (EnabledProtocolWithin bounds s) \<longleftrightarrow>
      evAction e \<in> set protocolActions \<and> evOutcome e \<in> set protocolOutcomes
      \<and> evGrant e \<in> set (0 # BoundGrants ?b) \<and> evTruth e \<in> set protocolTruths
      \<and> snd (ReduceProtocolWithin bounds s e)"
    by (cases e) (simp add: EnabledProtocolWithin_def Let_def same, blast)
  show ?thesis
  proof (cases "ReduceProtocolWithin bounds s e")
    case (Pair t ok)
    have "snd (ReduceProtocolWithin bounds s e) \<Longrightarrow> e \<in> set (EnabledProtocolWithin bounds s)"
    proof -
      assume ok: "snd (ReduceProtocolWithin bounds s e)"
      with Pair have "ReduceProtocolWithin bounds s e = (t, True)" by simp
      from ReduceProtocolWithin_TrueD [OF this] obtain u where
        "reduceAction (evAction e) ?b (NormalizeProtocolState s) e = Some u" by blast
      from accepted_event_domain [OF this] single_grant_listed [OF _ assms] ok enum
      show ?thesis by auto
    qed
    with enum show ?thesis by blast
  qed
qed

theorem enabled_protocol_exact_witness:
  "mkEvent ProtocolRecoverEgress ProtocolNoOutcome 0 ProtocolNoTruth
     \<in> set (EnabledProtocolWithin zeroBounds (replayed doubtEvents))"
proof -
  have bits: "\<forall>h \<in> set (BoundGrants (normalizeProtocolBounds zeroBounds)). h AND (h - 1) = 0"
    by (simp add: normalizeProtocolBounds_def zeroBounds_def protocol_mask_defs)
  have "snd (ReduceProtocolWithin zeroBounds (replayed doubtEvents)
      (mkEvent ProtocolRecoverEgress ProtocolNoOutcome 0 ProtocolNoTruth))" by code_simp
  with enabled_protocol_exact [OF bits] show ?thesis by blast
qed

end
