(* ===== verification/ProtocolSpec.thy ===== *)
theory ProtocolSpec
  imports ProtocolLaws
begin

text \<open>
  The normative TLA+ model \<open>formal/session/SessionBoundary.tla\<close> as a labelled relation over
  its 22-variable state, and the proof that the Go reducer and the model have the same
  labelled graph, up to the documented quotient that forgets the five checker-only fields.
  The repository checks this equality with TLC for two grants and three revisions; here it
  holds for every bound. Owners and grants are sets (a grant is a bit position), generations
  are pairs of authority and revision.
\<close>

section \<open>The model's state\<close>

datatype tla_owner = OwnerA | OwnerB

datatype tla_evidence =
    NoEvidence | CommitOld | CommitNew | CommitUnknown | ApplySucceeded | InspectMatch
  | ExactLiveA | ExactLiveB | TokenMismatch | TeardownProven | TeardownUnknown

datatype tla_owner_action = NoOwnerAction | HandoffAction | ReleaseAction | SignalAction

datatype tla_world = WorldOld | WorldNew

record tla_gen =
  tgAuthority :: "nat set"
  tgRevision :: int

definition tlaNoGen :: tla_gen where
  "tlaNoGen = \<lparr>tgAuthority = {}, tgRevision = -1\<rparr>"

definition tlaGen :: "nat set \<Rightarrow> int \<Rightarrow> tla_gen" where
  "tlaGen authority revision = \<lparr>tgAuthority = authority, tgRevision = revision\<rparr>"

text \<open>The 17 fields both graphs are compared on, and the checker-only extension.\<close>

record tla_vis =
  tStatus :: protocol_status
  tOwners :: "tla_owner set"
  tDetached :: bool
  tDurableAuthority :: "nat set"
  tDurableRevision :: int
  tRecordedGen :: tla_gen
  tRuntimeAuthority :: "nat set"
  tRuntimeGen :: tla_gen
  tInspectedGen :: tla_gen
  tHealth :: protocol_health
  tMode :: protocol_mode
  tOperation :: protocol_operation
  tEffect :: protocol_effect
  tResult :: protocol_result
  tPendingAuthority :: "nat set"
  tPendingRevision :: int
  tDirection :: protocol_direction

record tla_state = tla_vis +
  tEvidence :: tla_evidence
  tWorlds :: "tla_world set"
  tTeardownProven :: bool
  tTxOwner :: "tla_owner option"
  tLastOwnerAction :: tla_owner_action

definition tlaInit :: tla_state where
  "tlaInit =
     \<lparr>tStatus = ProtocolCreated, tOwners = {}, tDetached = False, tDurableAuthority = {},
      tDurableRevision = 0, tRecordedGen = tlaGen {} 0, tRuntimeAuthority = {},
      tRuntimeGen = tlaGen {} 0, tInspectedGen = tlaGen {} 0, tHealth = ProtocolHealthy,
      tMode = ProtocolNormal, tOperation = ProtocolIdle, tEffect = ProtocolNoEffect,
      tResult = ProtocolPending, tPendingAuthority = {}, tPendingRevision = 0,
      tDirection = ProtocolNoDirection, tEvidence = NoEvidence, tWorlds = {},
      tTeardownProven = False, tTxOwner = None, tLastOwnerAction = NoOwnerAction\<rparr>"

definition tlaResetPending :: "tla_state \<Rightarrow> tla_state" where
  "tlaResetPending t =
     t\<lparr>tOperation := ProtocolIdle, tEffect := ProtocolNoEffect, tPendingAuthority := {},
       tPendingRevision := 0, tDirection := ProtocolNoDirection, tWorlds := {},
       tTxOwner := None\<rparr>"

definition tlaBlock :: "tla_state \<Rightarrow> tla_evidence \<Rightarrow> protocol_result \<Rightarrow> tla_world set \<Rightarrow> tla_state" where
  "tlaBlock t ev r ws =
     t\<lparr>tHealth := ProtocolUncertain, tMode := ProtocolBlocked, tOperation := ProtocolRecover,
       tEffect := ProtocolInspect, tEvidence := ev, tResult := r, tWorlds := ws\<rparr>"

definition tlaUnknown :: "tla_state \<Rightarrow> tla_state" where
  "tlaUnknown t = tlaBlock t CommitUnknown ProtocolUncertainResult {WorldOld, WorldNew}"

definition tlaPendingGen :: "tla_state \<Rightarrow> tla_gen" where
  "tlaPendingGen t = tlaGen (tPendingAuthority t) (tPendingRevision t)"

definition tlaDurableGen :: "tla_state \<Rightarrow> tla_gen" where
  "tlaDurableGen t = tlaGen (tDurableAuthority t) (tDurableRevision t)"

definition tlaInstall :: "tla_state \<Rightarrow> tla_state" where
  "tlaInstall t =
     t\<lparr>tDurableAuthority := tPendingAuthority t, tDurableRevision := tPendingRevision t\<rparr>"

definition tlaRestore :: "tla_state \<Rightarrow> tla_state" where
  "tlaRestore t =
     t\<lparr>tRuntimeAuthority := tDurableAuthority t, tRuntimeGen := tlaDurableGen t,
       tInspectedGen := tlaDurableGen t\<rparr>"

lemmas tla_defs = tlaResetPending_def tlaBlock_def tlaUnknown_def tlaPendingGen_def
  tlaDurableGen_def tlaInstall_def tlaRestore_def

section \<open>The model's actions\<close>

inductive tla_step ::
  "nat set \<Rightarrow> int \<Rightarrow> tla_state \<Rightarrow> protocol_label \<Rightarrow> tla_state \<Rightarrow> bool"
  for Grants :: "nat set" and MaxRev :: int and t :: tla_state where
  tlaClaimStart: "
    tStatus t = ProtocolCreated \<Longrightarrow> tMode t = ProtocolNormal \<Longrightarrow>
    tOperation t = ProtocolIdle \<Longrightarrow>
    tla_step Grants MaxRev t ProtocolLabelClaimStart
      (t\<lparr>tOperation := ProtocolClaim, tEffect := ProtocolCommit, tResult := ProtocolPending,
         tTxOwner := Some OwnerA, tEvidence := NoEvidence\<rparr>)"
| tlaClaimCommitNew: "
    tOperation t = ProtocolClaim \<Longrightarrow> tEffect t = ProtocolCommit \<Longrightarrow>
    tla_step Grants MaxRev t ProtocolLabelClaimCommitNew
      (tlaResetPending (t\<lparr>tStatus := ProtocolRunning, tOwners := {OwnerA},
         tDetached := False, tResult := ProtocolSuccess, tEvidence := CommitNew\<rparr>))"
| tlaClaimCommitOld: "
    tOperation t = ProtocolClaim \<Longrightarrow> tEffect t = ProtocolCommit \<Longrightarrow>
    tla_step Grants MaxRev t ProtocolLabelClaimCommitOld
      (tlaResetPending (t\<lparr>tResult := ProtocolFailure, tEvidence := CommitOld\<rparr>))"
| tlaClaimCommitUnknownOld: "
    tOperation t = ProtocolClaim \<Longrightarrow> tEffect t = ProtocolCommit \<Longrightarrow>
    tla_step Grants MaxRev t ProtocolLabelClaimCommitUnknown
      (tlaUnknown t)"
| tlaClaimCommitUnknownNew: "
    tOperation t = ProtocolClaim \<Longrightarrow> tEffect t = ProtocolCommit \<Longrightarrow>
    tla_step Grants MaxRev t ProtocolLabelClaimCommitUnknown
      (tlaUnknown (t\<lparr>tStatus := ProtocolRunning, tOwners := {OwnerA}\<rparr>))"
| tlaRecoverClaim: "
    tOperation t = ProtocolRecover \<Longrightarrow>
    tDirection t = ProtocolNoDirection \<Longrightarrow>
    tEffect t = ProtocolInspect \<Longrightarrow>
    tla_step Grants MaxRev t ProtocolLabelRecoverClaim
      (tlaResetPending (t\<lparr>tHealth := ProtocolHealthy, tMode := ProtocolNormal,
         tEvidence := (if tStatus t = ProtocolRunning then CommitNew else CommitOld),
         tResult := (if tStatus t = ProtocolRunning then ProtocolSuccess else ProtocolFailure)\<rparr>))"
| tlaHandoffExact: "
    tStatus t = ProtocolRunning \<Longrightarrow> tMode t = ProtocolNormal \<Longrightarrow>
    tOperation t = ProtocolIdle \<Longrightarrow> tOwners t = {OwnerA} \<Longrightarrow>
    tla_step Grants MaxRev t ProtocolLabelHandoffExact
      (t\<lparr>tOwners := {OwnerB}, tDetached := True, tEvidence := ExactLiveA,
         tLastOwnerAction := HandoffAction\<rparr>)"
| tlaReleaseExact: "
    tStatus t = ProtocolRunning \<Longrightarrow> tMode t = ProtocolNormal \<Longrightarrow>
    tOperation t = ProtocolIdle \<Longrightarrow> tOwners t = {OwnerA} \<Longrightarrow>
    tla_step Grants MaxRev t ProtocolLabelReleaseExact
      (t\<lparr>tStatus := ProtocolCreated, tOwners := {}, tDetached := False,
         tEvidence := ExactLiveA, tResult := ProtocolFailure,
         tLastOwnerAction := ReleaseAction\<rparr>)"
| tlaWidenStart: "
    tStatus t = ProtocolRunning \<Longrightarrow> tMode t = ProtocolNormal \<Longrightarrow>
    tOperation t = ProtocolIdle \<Longrightarrow> tDurableRevision t < MaxRev \<Longrightarrow>
    g \<in> Grants - tDurableAuthority t \<Longrightarrow> ow \<in> tOwners t \<Longrightarrow>
    tla_step Grants MaxRev t ProtocolLabelWidenStart
      (t\<lparr>tOperation := ProtocolWiden, tEffect := ProtocolCommit,
         tPendingAuthority := tDurableAuthority t \<union> {g},
         tPendingRevision := tDurableRevision t + 1, tDirection := ProtocolWidenDirection,
         tResult := ProtocolPending, tTxOwner := Some ow, tEvidence := NoEvidence\<rparr>)"
| tlaWidenCommitNew: "
    tOperation t = ProtocolWiden \<Longrightarrow> tEffect t = ProtocolCommit \<Longrightarrow>
    tEvidence t = NoEvidence \<Longrightarrow>
    tla_step Grants MaxRev t ProtocolLabelWidenCommitNew
      ((tlaInstall t)\<lparr>tEffect := ProtocolApply, tEvidence := CommitNew, tWorlds := {WorldNew}\<rparr>)"
| tlaWidenCommitOld: "
    tOperation t = ProtocolWiden \<Longrightarrow> tEffect t = ProtocolCommit \<Longrightarrow>
    tEvidence t = NoEvidence \<Longrightarrow>
    tla_step Grants MaxRev t ProtocolLabelWidenCommitOld
      (tlaResetPending (t\<lparr>tResult := ProtocolFailure, tEvidence := CommitOld\<rparr>))"
| tlaWidenCommitUnknownOld: "
    tOperation t = ProtocolWiden \<Longrightarrow> tEffect t = ProtocolCommit \<Longrightarrow>
    tEvidence t = NoEvidence \<Longrightarrow>
    tla_step Grants MaxRev t ProtocolLabelWidenCommitUnknown
      (tlaUnknown t)"
| tlaWidenCommitUnknownNew: "
    tOperation t = ProtocolWiden \<Longrightarrow> tEffect t = ProtocolCommit \<Longrightarrow>
    tEvidence t = NoEvidence \<Longrightarrow>
    tla_step Grants MaxRev t ProtocolLabelWidenCommitUnknown
      (tlaUnknown (tlaInstall t))"
| tlaWidenApply: "
    tDirection t = ProtocolWidenDirection \<Longrightarrow>
    tOperation t \<in> {ProtocolWiden, ProtocolRecover} \<Longrightarrow>
    tEffect t = ProtocolApply \<Longrightarrow>
    tDurableAuthority t = tPendingAuthority t \<Longrightarrow>
    tDurableRevision t = tPendingRevision t \<Longrightarrow>
    tla_step Grants MaxRev t ProtocolLabelWidenApply
      (t\<lparr>tRuntimeAuthority := tPendingAuthority t, tRuntimeGen := tlaPendingGen t,
         tEffect := ProtocolInspect, tEvidence := ApplySucceeded\<rparr>)"
| tlaPositiveInspect: "
    tOperation t \<in> {ProtocolWiden, ProtocolNarrow} \<Longrightarrow>
    tEffect t = ProtocolInspect \<Longrightarrow> tRuntimeGen t = tlaPendingGen t \<Longrightarrow>
    tla_step Grants MaxRev t ProtocolLabelPositiveInspect
      (t\<lparr>tInspectedGen := tlaPendingGen t, tEffect := ProtocolCommit,
         tEvidence := InspectMatch\<rparr>)"
| tlaWidenFinalCommitNew: "
    tOperation t = ProtocolWiden \<Longrightarrow> tEffect t = ProtocolCommit \<Longrightarrow>
    tEvidence t = InspectMatch \<Longrightarrow>
    tla_step Grants MaxRev t ProtocolLabelWidenFinalCommitNew
      (tlaResetPending (t\<lparr>tRecordedGen := tlaPendingGen t, tHealth := ProtocolHealthy,
         tMode := ProtocolNormal, tResult := ProtocolSuccess, tEvidence := CommitNew\<rparr>))"
| tlaWidenFinalCommitOld: "
    tOperation t = ProtocolWiden \<Longrightarrow> tEffect t = ProtocolCommit \<Longrightarrow>
    tEvidence t = InspectMatch \<Longrightarrow>
    tla_step Grants MaxRev t ProtocolLabelWidenFinalCommitOld
      (tlaBlock t CommitOld ProtocolFailure {WorldOld})"
| tlaWidenFinalCommitUnknownOld: "
    tOperation t = ProtocolWiden \<Longrightarrow> tEffect t = ProtocolCommit \<Longrightarrow>
    tEvidence t = InspectMatch \<Longrightarrow>
    tla_step Grants MaxRev t ProtocolLabelWidenFinalCommitUnknown
      (tlaUnknown t)"
| tlaWidenFinalCommitUnknownNew: "
    tOperation t = ProtocolWiden \<Longrightarrow> tEffect t = ProtocolCommit \<Longrightarrow>
    tEvidence t = InspectMatch \<Longrightarrow>
    tla_step Grants MaxRev t ProtocolLabelWidenFinalCommitUnknown
      (tlaUnknown (t\<lparr>tRecordedGen := tlaPendingGen t\<rparr>))"
| tlaNarrowStart: "
    tStatus t = ProtocolRunning \<Longrightarrow> tMode t = ProtocolNormal \<Longrightarrow>
    tOperation t = ProtocolIdle \<Longrightarrow> tDurableRevision t < MaxRev \<Longrightarrow>
    g \<in> tDurableAuthority t \<Longrightarrow> ow \<in> tOwners t \<Longrightarrow>
    tla_step Grants MaxRev t ProtocolLabelNarrowStart
      (t\<lparr>tOperation := ProtocolNarrow, tEffect := ProtocolApply,
         tPendingAuthority := tDurableAuthority t - {g},
         tPendingRevision := tDurableRevision t + 1, tDirection := ProtocolNarrowDirection,
         tResult := ProtocolPending, tTxOwner := Some ow, tEvidence := CommitNew\<rparr>)"
| tlaNarrowApply: "
    tOperation t = ProtocolNarrow \<Longrightarrow> tEffect t = ProtocolApply \<Longrightarrow>
    tla_step Grants MaxRev t ProtocolLabelNarrowApply
      (t\<lparr>tRuntimeAuthority := tPendingAuthority t, tRuntimeGen := tlaPendingGen t,
         tEffect := ProtocolInspect, tEvidence := ApplySucceeded\<rparr>)"
| tlaNarrowFinalCommitNew: "
    tOperation t = ProtocolNarrow \<Longrightarrow> tEffect t = ProtocolCommit \<Longrightarrow>
    tEvidence t = InspectMatch \<Longrightarrow>
    tla_step Grants MaxRev t ProtocolLabelNarrowFinalCommitNew
      (tlaResetPending ((tlaInstall t)\<lparr>tRecordedGen := tlaPendingGen t, tHealth := ProtocolHealthy,
         tMode := ProtocolNormal, tResult := ProtocolSuccess, tEvidence := CommitNew\<rparr>))"
| tlaNarrowFinalCommitOld: "
    tOperation t = ProtocolNarrow \<Longrightarrow> tEffect t = ProtocolCommit \<Longrightarrow>
    tEvidence t = InspectMatch \<Longrightarrow>
    tla_step Grants MaxRev t ProtocolLabelNarrowFinalCommitOld
      (tlaResetPending ((tlaRestore t)\<lparr>tResult := ProtocolFailure, tEvidence := CommitOld\<rparr>))"
| tlaNarrowFinalCommitUnknownOld: "
    tOperation t = ProtocolNarrow \<Longrightarrow> tEffect t = ProtocolCommit \<Longrightarrow>
    tEvidence t = InspectMatch \<Longrightarrow>
    tla_step Grants MaxRev t ProtocolLabelNarrowFinalCommitUnknown
      (tlaUnknown t)"
| tlaNarrowFinalCommitUnknownNew: "
    tOperation t = ProtocolNarrow \<Longrightarrow> tEffect t = ProtocolCommit \<Longrightarrow>
    tEvidence t = InspectMatch \<Longrightarrow>
    tla_step Grants MaxRev t ProtocolLabelNarrowFinalCommitUnknown
      (tlaUnknown ((tlaInstall t)\<lparr>tRecordedGen := tlaPendingGen t\<rparr>))"
| tlaRecoverEgress: "
    tOperation t = ProtocolRecover \<Longrightarrow>
    tDirection t \<in> {ProtocolWidenDirection, ProtocolNarrowDirection} \<Longrightarrow>
    tEffect t = ProtocolInspect \<Longrightarrow>
    tla_step Grants MaxRev t ProtocolLabelRecoverEgress
      (tlaResetPending
         ((tlaRestore t)\<lparr>tRecordedGen := tlaDurableGen t, tHealth := ProtocolHealthy,
            tMode := ProtocolNormal,
            tResult := (if tDurableAuthority t = tPendingAuthority t
                          \<and> tDurableRevision t = tPendingRevision t
                        then ProtocolSuccess else ProtocolFailure),
            tEvidence := InspectMatch\<rparr>))"
| tlaObserveInvalidPersistence: "
    tStatus t = ProtocolCreated \<Longrightarrow> tMode t = ProtocolNormal \<Longrightarrow>
    tOperation t = ProtocolIdle \<Longrightarrow>
    h \<in> {ProtocolCorrupt, ProtocolStale} \<Longrightarrow>
    tla_step Grants MaxRev t ProtocolLabelObserveInvalidPersistence
      (t\<lparr>tHealth := h, tMode := ProtocolBlocked, tOperation := ProtocolRecover,
         tResult := ProtocolFailure\<rparr>)"
| tlaStopStart: "
    tStatus t = ProtocolRunning \<Longrightarrow> tMode t = ProtocolNormal \<Longrightarrow>
    tOperation t = ProtocolIdle \<Longrightarrow> ow \<in> tOwners t \<Longrightarrow>
    tla_step Grants MaxRev t ProtocolLabelStopStart
      (t\<lparr>tOperation := ProtocolStop, tEffect := ProtocolTeardownEffect, tTxOwner := Some ow,
         tEvidence := (if OwnerA \<in> tOwners t then ExactLiveA else ExactLiveB),
         tLastOwnerAction := SignalAction, tResult := ProtocolPending\<rparr>)"
| tlaRequestTeardown: "
    tMode t = ProtocolBlocked \<Longrightarrow>
    tEffect t \<noteq> ProtocolTeardownEffect \<Longrightarrow>
    tla_step Grants MaxRev t ProtocolLabelRequestTeardown
      (t\<lparr>tOperation := ProtocolTeardown, tEffect := ProtocolTeardownEffect,
         tResult := ProtocolPending\<rparr>)"
| tlaTeardownProven: "
    tEffect t = ProtocolTeardownEffect \<Longrightarrow>
    tOperation t \<in> {ProtocolStop, ProtocolTeardown} \<Longrightarrow>
    tla_step Grants MaxRev t ProtocolLabelTeardownProven
      (t\<lparr>tStatus := ProtocolStopped, tOwners := {}, tDetached := False,
         tRuntimeAuthority := {}, tRuntimeGen := tlaNoGen, tInspectedGen := tlaNoGen,
         tHealth := ProtocolHealthy, tMode := ProtocolTerminal, tOperation := ProtocolIdle,
         tEffect := ProtocolNoEffect, tEvidence := TeardownProven,
         tResult := ProtocolFailure, tPendingAuthority := {}, tPendingRevision := 0,
         tDirection := ProtocolNoDirection, tWorlds := {}, tTeardownProven := True,
         tTxOwner := None\<rparr>)"
| tlaTeardownUnknown: "
    tEffect t = ProtocolTeardownEffect \<Longrightarrow>
    tOperation t \<in> {ProtocolStop, ProtocolTeardown} \<Longrightarrow>
    tla_step Grants MaxRev t ProtocolLabelTeardownUnknown
      (t\<lparr>tHealth := ProtocolUncertain, tMode := ProtocolBlocked,
         tOperation := ProtocolTeardown, tEffect := ProtocolTeardownEffect,
         tEvidence := TeardownUnknown, tResult := ProtocolUncertainResult\<rparr>)"
| tlaTerminalStutter: "
    tStatus t = ProtocolStopped \<Longrightarrow>
    tla_step Grants MaxRev t ProtocolLabelTerminalStutter
      t"

abbreviation tlaReach :: "nat set \<Rightarrow> int \<Rightarrow> tla_state \<Rightarrow> bool" where
  "tlaReach Grants MaxRev \<equiv> reach (\<lambda>t. t = tlaInit) (tla_step Grants MaxRev)"

section \<open>The quotient\<close>

definition absSet :: "8 word \<Rightarrow> nat set" where
  "absSet a = {n. bit a n}"

definition absOwners :: "protocol_owner \<Rightarrow> tla_owner set" where
  "absOwners a = (if bit a 0 then {OwnerA} else {}) \<union> (if bit a 1 then {OwnerB} else {})"

definition absGen :: "ProtocolGeneration \<Rightarrow> tla_gen" where
  "absGen g = (if genValid g then tlaGen (absSet (genAuthority g)) (genRevision g) else tlaNoGen)"

definition absState :: "ProtocolState \<Rightarrow> tla_vis" where
  "absState s =
     \<lparr>tStatus = psStatus s, tOwners = absOwners (psOwners s), tDetached = psDetached s,
      tDurableAuthority = absSet (psDurableAuthority s), tDurableRevision = psDurableRevision s,
      tRecordedGen = absGen (psRecordedGeneration s),
      tRuntimeAuthority = absSet (psRuntimeAuthority s),
      tRuntimeGen = absGen (psRuntimeGeneration s),
      tInspectedGen = absGen (psInspectedGeneration s),
      tHealth = psHealth s, tMode = psMode s, tOperation = psOperation s,
      tEffect = psEffect s, tResult = psResult s,
      tPendingAuthority = absSet (psPendingAuthority s),
      tPendingRevision = psPendingRevision s, tDirection = psDirection s\<rparr>"

lemma absSet_inject [simp]: "absSet a = absSet b \<longleftrightarrow> a = b"
  by (auto simp: absSet_def set_eq_iff intro: bit_word_eqI)

lemma absSet_simps [simp]:
  "absSet 0 = {}"
  "absSet (a OR b) = absSet a \<union> absSet b"
  "absSet (a AND NOT b) = absSet a - absSet b"
  by (auto simp: absSet_def bit_simps dest: bit_imp_le_length)

lemma absSet_inter: "absSet (a AND b) = absSet a \<inter> absSet b"
  by (auto simp: absSet_def bit_simps)

lemma absSet_empty [simp]: "absSet a = {} \<longleftrightarrow> a = 0"
  using absSet_inject [of a 0] by simp

lemma absSet_pow2 [simp]: "i < 8 \<Longrightarrow> absSet (2 ^ i) = {i}"
  by (auto simp: absSet_def)

lemma absSet_less: "i \<in> absSet a \<Longrightarrow> i < 8"
  by (auto simp: absSet_def dest: bit_imp_le_length)

lemma absOwners_simps [simp]:
  "absOwners 0 = {}" "absOwners ProtocolOwnerA = {OwnerA}" "absOwners ProtocolOwnerB = {OwnerB}"
  by (auto simp: absOwners_def protocol_mask_defs bit_simps)

lemma absOwners_A_iff: "ownerShape s \<Longrightarrow> psStatus s = ProtocolRunning \<Longrightarrow>
    absOwners (psOwners s) = {OwnerA} \<longleftrightarrow> psOwners s = ProtocolOwnerA \<and> \<not> psDetached s"
  unfolding ownerShape_def by (elim disjE conjE) simp_all

lemma absGen_simps [simp]:
  "absGen (protocolGeneration a r) = tlaGen (absSet a) r"
  "absGen protocolNoGeneration = tlaNoGen"
  "absGen (normalizeGeneration g) = absGen g"
  by (simp_all add: absGen_def protocolGeneration_def protocolNoGeneration_def
      normalizeGeneration_def)

lemma tlaGen_inject [simp]: "tlaGen a r = tlaGen b q \<longleftrightarrow> a = b \<and> r = q"
  by (simp add: tlaGen_def)

text \<open>A single grant of the reducer is one element of the model's grant set.\<close>

lemma single_grant_pow2:
  assumes "protocolSingleGrant bounds g"
  shows "\<exists>i. i < 8 \<and> g = 2 ^ i \<and> i \<in> absSet (protocolGrantMask bounds)"
proof -
  have g: "g \<noteq> 0" "g AND (g - 1) = 0" using assms
    by (auto simp: protocolSingleGrant_def split: if_splits)
  obtain i where i: "i < 8" "g = 2 ^ i" using single_bit_cases [OF g] by auto
  with single_grant_within [OF assms] show ?thesis by (auto simp: wsub_bits absSet_def)
qed

lemma pow2_single_grant:
  assumes "i \<in> absSet (protocolGrantMask bounds)"
  shows "protocolSingleGrant bounds (2 ^ i)"
proof -
  have i: "i < 8" using assms by (rule absSet_less)
  have "absSet (protocolGrantMask bounds AND 2 ^ i) \<noteq> {}"
    using assms i by (simp add: absSet_inter)
  then have has: "protocolGrantMask bounds AND 2 ^ i \<noteq> 0" by (metis absSet_empty)
  have "(2 ^ i :: 8 word) AND (2 ^ i - 1) = 0"
    by (rule bit_word_eqI) (simp add: bit_simps mask_eq_exp_minus_1 [symmetric])
  moreover have "(2 ^ i :: 8 word) \<noteq> 0"
    using i by (metis absSet_pow2 absSet_empty insert_not_empty)
  ultimately show ?thesis using has by (simp add: protocolSingleGrant_def grantSetHas_def)
qed

lemma grantSetHas_pow2 [simp]: "i < 8 \<Longrightarrow> grantSetHas a (2 ^ i) \<longleftrightarrow> i \<in> absSet a"
  using absSet_empty [of "a AND 2 ^ i"] by (auto simp: grantSetHas_def absSet_inter simp del: absSet_empty)

section \<open>The simulation relation\<close>

text \<open>
  Besides the quotient, the relation records what the model's evidence field says at a commit
  boundary; the reducer reads the same information off its pending and inspected generations.
\<close>

definition evidenceLink :: "ProtocolState \<Rightarrow> tla_evidence \<Rightarrow> bool" where
  "evidenceLink s ev \<longleftrightarrow>
     psEffect s = ProtocolCommit \<longrightarrow>
       (psOperation s = ProtocolWiden \<longrightarrow>
          ev = (if protocolPendingIsDurable s then InspectMatch else NoEvidence))
     \<and> (psOperation s = ProtocolNarrow \<longrightarrow> ev = InspectMatch)"

definition simRel :: "ProtocolBounds \<Rightarrow> ProtocolState \<Rightarrow> tla_state \<Rightarrow> bool" where
  "simRel bounds s t \<longleftrightarrow>
     proto_inv bounds s \<and> tla_vis.truncate t = absState s \<and> evidenceLink s (tEvidence t)"

lemma truncate_iff:
  "tla_vis.truncate t = absState s \<longleftrightarrow>
     tStatus t = psStatus s \<and> tOwners t = absOwners (psOwners s) \<and> tDetached t = psDetached s
   \<and> tDurableAuthority t = absSet (psDurableAuthority s)
   \<and> tDurableRevision t = psDurableRevision s
   \<and> tRecordedGen t = absGen (psRecordedGeneration s)
   \<and> tRuntimeAuthority t = absSet (psRuntimeAuthority s)
   \<and> tRuntimeGen t = absGen (psRuntimeGeneration s)
   \<and> tInspectedGen t = absGen (psInspectedGeneration s)
   \<and> tHealth t = psHealth s \<and> tMode t = psMode s \<and> tOperation t = psOperation s
   \<and> tEffect t = psEffect s \<and> tResult t = psResult s
   \<and> tPendingAuthority t = absSet (psPendingAuthority s)
   \<and> tPendingRevision t = psPendingRevision s \<and> tDirection t = psDirection s"
  by (simp add: tla_vis.truncate_def absState_def)

abbreviation modelMax :: "ProtocolBounds \<Rightarrow> int" where
  "modelMax bounds \<equiv> MaxRevision (normalizeProtocolBounds bounds)"

abbreviation modelGrants :: "ProtocolBounds \<Rightarrow> nat set" where
  "modelGrants bounds \<equiv> absSet (protocolGrantMask bounds)"

lemma simRel_start: "simRel bounds (hd (InitialProtocolStates bounds)) tlaInit"
proof -
  have "goStart bounds (hd (InitialProtocolStates bounds))"
    by (simp add: goStart_def InitialProtocolStates_def Let_def)
  then have "proto_inv bounds (hd (InitialProtocolStates bounds))" by (rule proto.inv_start)
  then show ?thesis
    by (simp add: simRel_def truncate_iff evidenceLink_def InitialProtocolStates_def tlaInit_def
        Let_def)
qed

text \<open>What a step must establish, once the model's matching action is chosen.\<close>

lemma matchI:
  "tla_step G N t l t' \<Longrightarrow> tla_vis.truncate t' = absState v \<and> evidenceLink v (tEvidence t') \<Longrightarrow>
     \<exists>t'. tla_step G N t l t' \<and> tla_vis.truncate t' = absState v \<and> evidenceLink v (tEvidence t')"
  by blast

lemmas match_defs = truncate_iff evidenceLink_def tla_defs state_update_defs

lemma go_step_matched:
  assumes inv: "ownerShape s" "protoControl s" "normalizeDirection (psDirection s) = psDirection s"
    and rel: "tla_vis.truncate t = absState s" "evidenceLink s (tEvidence t)"
    and step: "proto_step (normalizeProtocolBounds bounds) s l u"
  shows "\<exists>t'. tla_step (modelGrants bounds) (modelMax bounds) t l t'
            \<and> tla_vis.truncate t' = absState (NormalizeProtocolState u)
            \<and> evidenceLink (NormalizeProtocolState u) (tEvidence t')"
proof -
  have claim: "\<not> psDetached s" if "psOperation s = ProtocolClaim"
    using inv(1,2) that by (auto simp: protoControl_def claimControl_def ownerShape_def)
  have pending: "psDurableAuthority s = psPendingAuthority s"
    "psDurableRevision s = psPendingRevision s"
    if "psOperation s = ProtocolWiden" "psEffect s = ProtocolInspect"
    using inv(2) that by (auto simp: protoControl_def widenControl_def protocolPendingIsDurable_def)
  from step show ?thesis
  proof (cases rule: proto_step.cases)
    case (widen_start g)
    obtain i where i: "i < 8" "g = 2 ^ i" "i \<in> modelGrants bounds"
      using single_grant_pow2 [of "normalizeProtocolBounds bounds" g] widen_start by auto
    obtain ow where "ow \<in> tOwners t"
      using inv(1) widen_start rel(1) by (auto simp: ownerShape_def truncate_iff)
    then show ?thesis using widen_start rel i inv unfolding widen_start(1)
      by (intro matchI, rule_tac g = i and ow = ow in tlaWidenStart)
        (auto simp: match_defs protoControl_def control_defs)
  next
    case (narrow_start g)
    obtain i where i: "i < 8" "g = 2 ^ i" "i \<in> modelGrants bounds"
      using single_grant_pow2 [of "normalizeProtocolBounds bounds" g] narrow_start by auto
    obtain ow where "ow \<in> tOwners t"
      using inv(1) narrow_start rel(1) by (auto simp: ownerShape_def truncate_iff)
    then show ?thesis using narrow_start rel i inv unfolding narrow_start(1)
      by (intro matchI, rule_tac g = i and ow = ow in tlaNarrowStart)
        (auto simp: match_defs protoControl_def control_defs)
  next
    case claim_start
    show ?thesis unfolding claim_start(1)
      by (rule matchI, rule tlaClaimStart) (use claim_start rel inv in \<open>auto simp: match_defs\<close>)
  next
    case claim_commit_new
    show ?thesis unfolding claim_commit_new(1)
      by (rule matchI, rule tlaClaimCommitNew) (use claim_commit_new rel inv in \<open>auto simp: match_defs\<close>)
  next
    case claim_commit_old
    show ?thesis unfolding claim_commit_old(1)
      by (rule matchI, rule tlaClaimCommitOld) (use claim_commit_old rel inv in \<open>auto simp: match_defs\<close>)
  next
    case claim_commit_unknown_old
    show ?thesis unfolding claim_commit_unknown_old(1)
      by (rule matchI, rule tlaClaimCommitUnknownOld) (use claim_commit_unknown_old rel inv in \<open>auto simp: match_defs\<close>)
  next
    case claim_commit_unknown_new
    show ?thesis unfolding claim_commit_unknown_new(1)
      by (rule matchI, rule tlaClaimCommitUnknownNew) (use claim_commit_unknown_new rel inv claim in \<open>auto simp: match_defs\<close>)
  next
    case recover_claim
    show ?thesis unfolding recover_claim(1)
      by (rule matchI, rule tlaRecoverClaim) (use recover_claim rel inv in \<open>auto simp: match_defs\<close>)
  next
    case handoff_exact
    show ?thesis unfolding handoff_exact(1)
      by (rule matchI, rule tlaHandoffExact) (use handoff_exact rel inv in \<open>auto simp: match_defs\<close>)
  next
    case release_exact
    show ?thesis unfolding release_exact(1)
      by (rule matchI, rule tlaReleaseExact) (use release_exact rel inv in \<open>auto simp: match_defs\<close>)
  next
    case widen_commit_new
    show ?thesis unfolding widen_commit_new(1)
      by (rule matchI, rule tlaWidenCommitNew) (use widen_commit_new rel inv in \<open>auto simp: match_defs\<close>)
  next
    case widen_commit_old
    show ?thesis unfolding widen_commit_old(1)
      by (rule matchI, rule tlaWidenCommitOld) (use widen_commit_old rel inv in \<open>auto simp: match_defs\<close>)
  next
    case widen_commit_unknown_old
    show ?thesis unfolding widen_commit_unknown_old(1)
      by (rule matchI, rule tlaWidenCommitUnknownOld) (use widen_commit_unknown_old rel inv in \<open>auto simp: match_defs\<close>)
  next
    case widen_commit_unknown_new
    show ?thesis unfolding widen_commit_unknown_new(1)
      by (rule matchI, rule tlaWidenCommitUnknownNew) (use widen_commit_unknown_new rel inv in \<open>auto simp: match_defs\<close>)
  next
    case widen_apply
    show ?thesis unfolding widen_apply(1)
      by (rule matchI, rule tlaWidenApply) (use widen_apply rel inv in \<open>auto simp: match_defs\<close>)
  next
    case narrow_apply
    show ?thesis unfolding narrow_apply(1)
      by (rule matchI, rule tlaNarrowApply) (use narrow_apply rel inv in \<open>auto simp: match_defs\<close>)
  next
    case positive_inspect
    show ?thesis unfolding positive_inspect(1)
      by (rule matchI, rule tlaPositiveInspect) (use positive_inspect rel inv pending in \<open>auto simp: match_defs\<close>)
  next
    case widen_final_new
    show ?thesis unfolding widen_final_new(1)
      by (rule matchI, rule tlaWidenFinalCommitNew) (use widen_final_new rel inv in \<open>auto simp: match_defs\<close>)
  next
    case widen_final_old
    show ?thesis unfolding widen_final_old(1)
      by (rule matchI, rule tlaWidenFinalCommitOld) (use widen_final_old rel inv in \<open>auto simp: match_defs\<close>)
  next
    case widen_final_unknown_old
    show ?thesis unfolding widen_final_unknown_old(1)
      by (rule matchI, rule tlaWidenFinalCommitUnknownOld) (use widen_final_unknown_old rel inv in \<open>auto simp: match_defs\<close>)
  next
    case widen_final_unknown_new
    show ?thesis unfolding widen_final_unknown_new(1)
      by (rule matchI, rule tlaWidenFinalCommitUnknownNew) (use widen_final_unknown_new rel inv in \<open>auto simp: match_defs\<close>)
  next
    case narrow_final_new
    show ?thesis unfolding narrow_final_new(1)
      by (rule matchI, rule tlaNarrowFinalCommitNew) (use narrow_final_new rel inv in \<open>auto simp: match_defs\<close>)
  next
    case narrow_final_old
    show ?thesis unfolding narrow_final_old(1)
      by (rule matchI, rule tlaNarrowFinalCommitOld) (use narrow_final_old rel inv in \<open>auto simp: match_defs\<close>)
  next
    case narrow_final_unknown_old
    show ?thesis unfolding narrow_final_unknown_old(1)
      by (rule matchI, rule tlaNarrowFinalCommitUnknownOld) (use narrow_final_unknown_old rel inv in \<open>auto simp: match_defs\<close>)
  next
    case narrow_final_unknown_new
    show ?thesis unfolding narrow_final_unknown_new(1)
      by (rule matchI, rule tlaNarrowFinalCommitUnknownNew) (use narrow_final_unknown_new rel inv in \<open>auto simp: match_defs\<close>)
  next
    case recover_egress
    show ?thesis unfolding recover_egress(1)
      by (rule matchI, rule tlaRecoverEgress) (use recover_egress rel inv in \<open>auto simp: match_defs\<close>)
  next
    case observe_invalid
    show ?thesis unfolding observe_invalid(1)
      by (rule matchI, rule tlaObserveInvalidPersistence) (use observe_invalid rel inv in \<open>auto simp: match_defs\<close>)
  next
    case stop_start
    obtain ow where "ow \<in> tOwners t"
      using inv(1) stop_start rel(1) by (auto simp: ownerShape_def truncate_iff)
    then show ?thesis using stop_start rel inv unfolding stop_start(1)
      by (intro matchI, rule_tac ow = ow in tlaStopStart) (auto simp: match_defs)
  next
    case request_teardown
    show ?thesis unfolding request_teardown(1)
      by (rule matchI, rule tlaRequestTeardown) (use request_teardown rel inv in \<open>auto simp: match_defs\<close>)
  next
    case teardown_proven
    show ?thesis unfolding teardown_proven(1)
      by (rule matchI, rule tlaTeardownProven) (use teardown_proven rel inv in \<open>auto simp: match_defs\<close>)
  next
    case teardown_unknown
    show ?thesis unfolding teardown_unknown(1)
      by (rule matchI, rule tlaTeardownUnknown) (use teardown_unknown rel inv in \<open>auto simp: match_defs\<close>)
  next
    case terminal_stutter
    show ?thesis unfolding terminal_stutter(1)
      by (rule matchI, rule tlaTerminalStutter) (use terminal_stutter rel inv in \<open>auto simp: match_defs\<close>)
  qed
qed

text \<open>The converse: every action of the model is an accepted event of the reducer.\<close>

lemma answerI:
  "proto_step b s l u \<Longrightarrow>
     tla_vis.truncate t' = absState (NormalizeProtocolState u)
       \<and> evidenceLink (NormalizeProtocolState u) (tEvidence t') \<Longrightarrow>
     \<exists>u. proto_step b s l u \<and> tla_vis.truncate t' = absState (NormalizeProtocolState u)
       \<and> evidenceLink (NormalizeProtocolState u) (tEvidence t')"
  by blast

lemma tla_step_answered:
  assumes inv: "ownerShape s" "protoControl s" "normalizeDirection (psDirection s) = psDirection s"
      "wsub (psDurableAuthority s) (protocolGrantMask bounds)"
    and rel: "tla_vis.truncate t = absState s" "evidenceLink s (tEvidence t)"
    and step: "tla_step (modelGrants bounds) (modelMax bounds) t l t'"
  shows "\<exists>u. proto_step (normalizeProtocolBounds bounds) s l u
            \<and> tla_vis.truncate t' = absState (NormalizeProtocolState u)
            \<and> evidenceLink (NormalizeProtocolState u) (tEvidence t')"
proof -
  have claim: "\<not> psDetached s" if "psOperation s = ProtocolClaim"
    using inv(1,2) that by (auto simp: protoControl_def claimControl_def ownerShape_def)
  have owner: "psOwners s = ProtocolOwnerA" "\<not> psDetached s"
    if "psStatus s = ProtocolRunning" "absOwners (psOwners s) = {OwnerA}"
    using absOwners_A_iff [OF inv(1)] that by simp_all
  have dir: "psOperation s = ProtocolWiden \<Longrightarrow> psDirection s = ProtocolWidenDirection"
    "psOperation s = ProtocolNarrow \<Longrightarrow> psDirection s = ProtocolNarrowDirection"
    using inv(2) by (auto simp: protoControl_def widenControl_def narrowControl_def)
  have inspect: "psRuntimeGeneration s = pendingGeneration s"
      "psOperation s = ProtocolWiden \<Longrightarrow> protocolPendingIsDurable s"
    if "psOperation s = ProtocolWiden \<or> psOperation s = ProtocolNarrow"
      "psEffect s = ProtocolInspect"
    using inv(2) that
    by (auto simp: protoControl_def widenControl_def narrowControl_def runtimePending_def)
  have final: "psInspectedGeneration s = pendingGeneration s"
    if "psEffect s = ProtocolCommit"
      "psOperation s = ProtocolNarrow \<or> psOperation s = ProtocolWiden \<and> protocolPendingIsDurable s"
    using inv(2) that
    by (auto simp: protoControl_def widenControl_def narrowControl_def protocolPendingIsDurable_def)
  have link: "protocolPendingIsDurable s \<longleftrightarrow> tEvidence t = InspectMatch"
    if "psEffect s = ProtocolCommit" "psOperation s = ProtocolWiden"
    using rel(2) that by (auto simp: evidenceLink_def)
  from step show ?thesis
  proof (cases rule: tla_step.cases)
    case (tlaWidenStart g ow)
    then have "g \<in> modelGrants bounds" "g \<notin> absSet (psDurableAuthority s)" "g < 8"
      using rel(1) absSet_less by (auto simp: truncate_iff)
    then show ?thesis using tlaWidenStart rel inv
        pow2_single_grant [of g "normalizeProtocolBounds bounds"] unfolding tlaWidenStart(1)
      by (intro answerI, rule_tac g = "2 ^ g" in widen_start)
        (auto simp: match_defs protoControl_def control_defs)
  next
    case (tlaNarrowStart g ow)
    then have "g \<in> modelGrants bounds" "g \<in> absSet (psDurableAuthority s)" "g < 8"
      using rel(1) inv(4) absSet_less by (auto simp: truncate_iff wsub_bits absSet_def)
    then show ?thesis using tlaNarrowStart rel inv
        pow2_single_grant [of g "normalizeProtocolBounds bounds"] unfolding tlaNarrowStart(1)
      by (intro answerI, rule_tac g = "2 ^ g" in narrow_start)
        (auto simp: match_defs protoControl_def control_defs)
  next
    case tlaClaimStart
    show ?thesis unfolding tlaClaimStart(1)
      by (rule answerI, rule claim_start) (use tlaClaimStart rel inv in \<open>auto simp: match_defs\<close>)
  next
    case tlaClaimCommitNew
    show ?thesis unfolding tlaClaimCommitNew(1)
      by (rule answerI, rule claim_commit_new) (use tlaClaimCommitNew rel inv in \<open>auto simp: match_defs\<close>)
  next
    case tlaClaimCommitOld
    show ?thesis unfolding tlaClaimCommitOld(1)
      by (rule answerI, rule claim_commit_old) (use tlaClaimCommitOld rel inv in \<open>auto simp: match_defs\<close>)
  next
    case tlaClaimCommitUnknownOld
    show ?thesis unfolding tlaClaimCommitUnknownOld(1)
      by (rule answerI, rule claim_commit_unknown_old) (use tlaClaimCommitUnknownOld rel inv in \<open>auto simp: match_defs\<close>)
  next
    case tlaClaimCommitUnknownNew
    show ?thesis unfolding tlaClaimCommitUnknownNew(1)
      by (rule answerI, rule claim_commit_unknown_new) (use tlaClaimCommitUnknownNew rel inv claim in \<open>auto simp: match_defs\<close>)
  next
    case tlaRecoverClaim
    show ?thesis unfolding tlaRecoverClaim(1)
      by (rule answerI, rule recover_claim) (use tlaRecoverClaim rel inv in \<open>auto simp: match_defs\<close>)
  next
    case tlaHandoffExact
    then have "psStatus s = ProtocolRunning" "absOwners (psOwners s) = {OwnerA}"
      using rel(1) by (simp_all add: truncate_iff)
    then have o: "psOwners s = ProtocolOwnerA" "\<not> psDetached s" by (rule owner)+
    show ?thesis unfolding tlaHandoffExact(1)
      by (rule answerI, rule handoff_exact)
        (use tlaHandoffExact rel(1) o inv(3) in \<open>simp_all add: match_defs\<close>)
  next
    case tlaReleaseExact
    then have "psStatus s = ProtocolRunning" "absOwners (psOwners s) = {OwnerA}"
      using rel(1) by (simp_all add: truncate_iff)
    then have o: "psOwners s = ProtocolOwnerA" "\<not> psDetached s" by (rule owner)+
    show ?thesis unfolding tlaReleaseExact(1)
      by (rule answerI, rule release_exact)
        (use tlaReleaseExact rel(1) o inv(3) in \<open>simp_all add: match_defs\<close>)
  next
    case tlaWidenCommitNew
    show ?thesis unfolding tlaWidenCommitNew(1)
      by (rule answerI, rule widen_commit_new) (use tlaWidenCommitNew rel inv dir link in \<open>auto simp: match_defs\<close>)
  next
    case tlaWidenCommitOld
    show ?thesis unfolding tlaWidenCommitOld(1)
      by (rule answerI, rule widen_commit_old) (use tlaWidenCommitOld rel inv dir link in \<open>auto simp: match_defs\<close>)
  next
    case tlaWidenCommitUnknownOld
    show ?thesis unfolding tlaWidenCommitUnknownOld(1)
      by (rule answerI, rule widen_commit_unknown_old) (use tlaWidenCommitUnknownOld rel inv dir link in \<open>auto simp: match_defs\<close>)
  next
    case tlaWidenCommitUnknownNew
    show ?thesis unfolding tlaWidenCommitUnknownNew(1)
      by (rule answerI, rule widen_commit_unknown_new) (use tlaWidenCommitUnknownNew rel inv dir link in \<open>auto simp: match_defs\<close>)
  next
    case tlaWidenApply
    show ?thesis unfolding tlaWidenApply(1)
      by (rule answerI, rule widen_apply) (use tlaWidenApply rel inv in \<open>auto simp: match_defs\<close>)
  next
    case tlaNarrowApply
    show ?thesis unfolding tlaNarrowApply(1)
      by (rule answerI, rule narrow_apply) (use tlaNarrowApply rel inv dir in \<open>auto simp: match_defs\<close>)
  next
    case tlaPositiveInspect
    show ?thesis unfolding tlaPositiveInspect(1)
      by (rule answerI, rule positive_inspect) (use tlaPositiveInspect rel inv inspect in \<open>auto simp: match_defs\<close>)
  next
    case tlaWidenFinalCommitNew
    show ?thesis unfolding tlaWidenFinalCommitNew(1)
      by (rule answerI, rule widen_final_new) (use tlaWidenFinalCommitNew rel inv dir link final in \<open>auto simp: match_defs\<close>)
  next
    case tlaWidenFinalCommitOld
    show ?thesis unfolding tlaWidenFinalCommitOld(1)
      by (rule answerI, rule widen_final_old) (use tlaWidenFinalCommitOld rel inv dir link final in \<open>auto simp: match_defs\<close>)
  next
    case tlaWidenFinalCommitUnknownOld
    show ?thesis unfolding tlaWidenFinalCommitUnknownOld(1)
      by (rule answerI, rule widen_final_unknown_old) (use tlaWidenFinalCommitUnknownOld rel inv dir link final in \<open>auto simp: match_defs\<close>)
  next
    case tlaWidenFinalCommitUnknownNew
    show ?thesis unfolding tlaWidenFinalCommitUnknownNew(1)
      by (rule answerI, rule widen_final_unknown_new) (use tlaWidenFinalCommitUnknownNew rel inv dir link final in \<open>auto simp: match_defs\<close>)
  next
    case tlaNarrowFinalCommitNew
    show ?thesis unfolding tlaNarrowFinalCommitNew(1)
      by (rule answerI, rule narrow_final_new) (use tlaNarrowFinalCommitNew rel inv dir final in \<open>auto simp: match_defs\<close>)
  next
    case tlaNarrowFinalCommitOld
    show ?thesis unfolding tlaNarrowFinalCommitOld(1)
      by (rule answerI, rule narrow_final_old) (use tlaNarrowFinalCommitOld rel inv dir final in \<open>auto simp: match_defs\<close>)
  next
    case tlaNarrowFinalCommitUnknownOld
    show ?thesis unfolding tlaNarrowFinalCommitUnknownOld(1)
      by (rule answerI, rule narrow_final_unknown_old) (use tlaNarrowFinalCommitUnknownOld rel inv dir final in \<open>auto simp: match_defs\<close>)
  next
    case tlaNarrowFinalCommitUnknownNew
    show ?thesis unfolding tlaNarrowFinalCommitUnknownNew(1)
      by (rule answerI, rule narrow_final_unknown_new) (use tlaNarrowFinalCommitUnknownNew rel inv dir final in \<open>auto simp: match_defs\<close>)
  next
    case tlaRecoverEgress
    show ?thesis unfolding tlaRecoverEgress(1)
      by (rule answerI, rule recover_egress) (use tlaRecoverEgress rel inv in \<open>auto simp: match_defs\<close>)
  next
    case (tlaObserveInvalidPersistence h)
    show ?thesis unfolding tlaObserveInvalidPersistence(1)
      by (rule answerI, rule_tac h = h in observe_invalid) (use tlaObserveInvalidPersistence rel inv in \<open>auto simp: match_defs\<close>)
  next
    case (tlaStopStart ow)
    show ?thesis unfolding tlaStopStart(1)
      by (rule answerI, rule stop_start) (use tlaStopStart rel inv in \<open>auto simp: match_defs\<close>)
  next
    case tlaRequestTeardown
    show ?thesis unfolding tlaRequestTeardown(1)
      by (rule answerI, rule request_teardown) (use tlaRequestTeardown rel inv in \<open>auto simp: match_defs\<close>)
  next
    case tlaTeardownProven
    show ?thesis unfolding tlaTeardownProven(1)
      by (rule answerI, rule teardown_proven) (use tlaTeardownProven rel inv in \<open>auto simp: match_defs\<close>)
  next
    case tlaTeardownUnknown
    show ?thesis unfolding tlaTeardownUnknown(1)
      by (rule answerI, rule teardown_unknown) (use tlaTeardownUnknown rel inv in \<open>auto simp: match_defs\<close>)
  next
    case tlaTerminalStutter
    show ?thesis unfolding tlaTerminalStutter(1)
      by (rule answerI, rule terminal_stutter) (use tlaTerminalStutter rel inv in \<open>auto simp: match_defs\<close>)
  qed
qed

section \<open>The two graphs\<close>

lemma proto_inv_facts:
  assumes "proto_inv bounds s"
  shows "ownerShape s" and "protoControl s" and "protocolStateInDomain bounds s"
    and "normalizeDirection (psDirection s) = psDirection s"
    and "wsub (psDurableAuthority s) (protocolGrantMask bounds)"
  using assms NormalizeProtocolState_id_iff [of s]
  by (simp_all add: proto_inv_def protocolStateInDomain_iff)

interpretation go_tla: simulated_system "goStart bounds" "goStep bounds" "\<lambda>t. t = tlaInit"
    "tla_step (modelGrants bounds) (modelMax bounds)" "simRel bounds"
  for bounds
proof unfold_locales
  fix s assume "goStart bounds s"
  then have "s = hd (InitialProtocolStates bounds)"
    by (simp add: goStart_def InitialProtocolStates_def Let_def)
  then show "\<exists>t. t = tlaInit \<and> simRel bounds s t" using simRel_start by simp
next
  fix s t l s' assume sim: "simRel bounds s t" and step: "goStep bounds s l s'"
  note inv = proto_inv_facts [OF conjunct1 [OF sim [unfolded simRel_def]]]
  obtain u where u: "proto_step (normalizeProtocolBounds bounds) s l u"
    "s' = NormalizeProtocolState u" using goStep_proto_step [OF step inv(3)] by blast
  have "proto_inv bounds s'" using sim step proto.inv_trans by (auto simp: simRel_def)
  with go_step_matched [OF inv(1,2,4) _ _ u(1)] sim u(2)
  show "\<exists>t'. tla_step (modelGrants bounds) (modelMax bounds) t l t' \<and> simRel bounds s' t'"
    unfolding simRel_def by blast
qed

interpretation tla_go: simulated_system "\<lambda>t. t = tlaInit"
    "tla_step (modelGrants bounds) (modelMax bounds)" "goStart bounds" "goStep bounds"
    "\<lambda>t s. simRel bounds s t"
  for bounds
proof unfold_locales
  fix t :: tla_state assume "t = tlaInit"
  then show "\<exists>s. goStart bounds s \<and> simRel bounds s t" using simRel_start [of bounds]
    by (auto simp: goStart_def InitialProtocolStates_def Let_def)
next
  fix t s l t' assume sim: "simRel bounds s t"
    and step: "tla_step (modelGrants bounds) (modelMax bounds) t l t'"
  note inv = proto_inv_facts [OF conjunct1 [OF sim [unfolded simRel_def]]]
  obtain u where u: "proto_step (normalizeProtocolBounds bounds) s l u"
    "tla_vis.truncate t' = absState (NormalizeProtocolState u)"
    "evidenceLink (NormalizeProtocolState u) (tEvidence t')"
    using tla_step_answered [OF inv(1,2,4,5) _ _ step] sim unfolding simRel_def by blast
  have go: "goStep bounds s l (NormalizeProtocolState u)"
    using step_ReduceProtocolWithin [OF u(1) inv(3)] by (auto simp: goStep_def)
  then have "proto_inv bounds (NormalizeProtocolState u)"
    using sim proto.inv_trans by (auto simp: simRel_def)
  with go u show "\<exists>s'. goStep bounds s l s' \<and> simRel bounds s' t'"
    unfolding simRel_def by blast
qed

definition goGraph :: "ProtocolBounds \<Rightarrow> tla_vis \<Rightarrow> protocol_label \<Rightarrow> tla_vis \<Rightarrow> bool" where
  "goGraph bounds v l v' \<longleftrightarrow>
     (\<exists>s s'. goReach bounds s \<and> goStep bounds s l s' \<and> absState s = v \<and> absState s' = v')"

definition tlaGraph :: "nat set \<Rightarrow> int \<Rightarrow> tla_vis \<Rightarrow> protocol_label \<Rightarrow> tla_vis \<Rightarrow> bool" where
  "tlaGraph Grants MaxRev v l v' \<longleftrightarrow>
     (\<exists>t t'. tlaReach Grants MaxRev t \<and> tla_step Grants MaxRev t l t'
        \<and> tla_vis.truncate t = v \<and> tla_vis.truncate t' = v')"

text \<open>The quotient identifies no two states of the reducer's domain.\<close>

lemma absGen_inject:
  assumes "protocolGenerationInDomain b m g" and "protocolGenerationInDomain b m h"
    and "absGen g = absGen h"
  shows "g = h"
  using assms
  by (cases g, cases h)
    (auto simp: absGen_def protocolGenerationInDomain_def tlaGen_def tlaNoGen_def
      protocolNoGeneration_def split: if_splits)

lemma absOwners_inject:
  assumes "wsub a (ProtocolOwnerA OR ProtocolOwnerB)" and "wsub b (ProtocolOwnerA OR ProtocolOwnerB)"
    and "absOwners a = absOwners b"
  shows "a = b"
proof (rule bit_word_eqI)
  fix n
  have "bit ProtocolOwnerA n \<longleftrightarrow> n = 0" "bit ProtocolOwnerB n \<longleftrightarrow> n = 1"
    using bit_pow2 [of 0 n, where 'a = 8] bit_pow2 [of 1 n, where 'a = 8]
    by (simp_all add: protocol_mask_defs)
  then have low: "bit a n \<Longrightarrow> n = 0 \<or> n = 1" "bit b n \<Longrightarrow> n = 0 \<or> n = 1"
    using assms(1,2) unfolding wsub_bits bit_or_iff by blast+
  have bits: "bit c 0 \<longleftrightarrow> OwnerA \<in> absOwners c" "bit c 1 \<longleftrightarrow> OwnerB \<in> absOwners c"
    for c :: protocol_owner by (simp_all add: absOwners_def)
  have "bit a 0 = bit b 0" "bit a 1 = bit b 1" unfolding bits assms(3) by (rule refl)+
  then show "bit a n = bit b n" using low by blast
qed

lemma absState_inject:
  assumes "protocolStateInDomain bounds s" and "protocolStateInDomain bounds s'"
    and "absState s = absState s'"
  shows "s = s'"
proof -
  have "psRecordedGeneration s = psRecordedGeneration s'"
    "psRuntimeGeneration s = psRuntimeGeneration s'"
    "psInspectedGeneration s = psInspectedGeneration s'"
    using assms by (auto simp: absState_def protocolStateInDomain_iff intro: absGen_inject)
  moreover have "psOwners s = psOwners s'"
    using assms by (auto simp: absState_def protocolStateInDomain_iff intro: absOwners_inject)
  ultimately show ?thesis using assms(3) by (simp add: absState_def)
qed


text \<open>The quotient is faithful on the Go side: a reachable Go state is determined by its
  image in the model, so the two graphs are isomorphic and not merely similar.\<close>

theorem reachable_state_determined:
  assumes "goReach bounds s" and "goReach bounds s'" and "absState s = absState s'"
  shows "s = s'"
  using absState_inject [OF reach_facts(3) [OF assms(1)] reach_facts(3) [OF assms(2)] assms(3)] .

theorem reachable_state_determined_witness:
  "replayed (claimEvents @ [mkEvent ProtocolReleaseExact ProtocolNoOutcome 0 ProtocolNoTruth])
     = replayed [mkEvent ProtocolClaimStart ProtocolNoOutcome 0 ProtocolNoTruth,
         mkEvent ProtocolClaimCommit ProtocolKnownOld 0 ProtocolNoTruth]"
  (is "replayed ?e = replayed ?f")
proof -
  have "protocolReplay zeroBounds initialProtocolState ?e \<noteq> None"
    "protocolReplay zeroBounds initialProtocolState ?f \<noteq> None" by code_simp+
  then have "goReach zeroBounds (replayed ?e)" "goReach zeroBounds (replayed ?f)"
    using replayed_reachI by blast+
  moreover have "replayed ?e = replayed ?f" by code_simp
  then have "absState (replayed ?e) = absState (replayed ?f)" by simp
  ultimately show ?thesis by (rule reachable_state_determined)
qed

end
