(* ===== verification/GoText.thy ===== *)
theory GoText
  imports Prelude
begin

text \<open>
  Go strings as byte sequences: a \<open>string\<close> here is the list of bytes the Go string holds
  (a \<open>char\<close> is one byte), and this theory models the operations of \<open>strings\<close>, \<open>strconv\<close>,
  \<open>encoding/hex\<close>, \<open>unicode\<close> and \<open>net\<close> that the modelled code calls, UTF-8 included.
\<close>

section \<open>Bytes\<close>

definition byte :: "char \<Rightarrow> nat" where
  "byte c = of_char c"

definition ofByte :: "nat \<Rightarrow> char" where
  "ofByte n = char_of n"

definition bytesText :: "nat list \<Rightarrow> string" where
  "bytesText = map ofByte"

lemma byte_less [simp]: "byte c < 256"
  by (simp add: byte_def)

lemma byte_ofByte [simp]: "n < 256 \<Longrightarrow> byte (ofByte n) = n"
  by (simp add: byte_def ofByte_def)

lemma ofByte_byte [simp]: "ofByte (byte c) = c"
  by (simp add: byte_def ofByte_def)

lemma byte_inject [simp]: "byte c = byte d \<longleftrightarrow> c = d"
  by (simp add: byte_def)

definition isDigit :: "char \<Rightarrow> bool" where
  "isDigit c \<longleftrightarrow> 48 \<le> byte c \<and> byte c \<le> 57"

definition isLower :: "char \<Rightarrow> bool" where
  "isLower c \<longleftrightarrow> 97 \<le> byte c \<and> byte c \<le> 122"

definition isUpper :: "char \<Rightarrow> bool" where
  "isUpper c \<longleftrightarrow> 65 \<le> byte c \<and> byte c \<le> 90"

definition isLowerHex :: "char \<Rightarrow> bool" where
  "isLowerHex c \<longleftrightarrow> isDigit c \<or> 97 \<le> byte c \<and> byte c \<le> 102"

lemmas char_class_defs = isDigit_def isLower_def isUpper_def isLowerHex_def

section \<open>\<open>strings\<close>\<close>

definition hasPrefix :: "string \<Rightarrow> string \<Rightarrow> bool" where
  "hasPrefix s p \<longleftrightarrow> take (length p) s = p"

definition hasSuffix :: "string \<Rightarrow> string \<Rightarrow> bool" where
  "hasSuffix s p \<longleftrightarrow> hasPrefix (rev s) (rev p)"

fun contains :: "string \<Rightarrow> string \<Rightarrow> bool" where
  "contains [] p \<longleftrightarrow> p = []"
| "contains (c # s) p \<longleftrightarrow> hasPrefix (c # s) p \<or> contains s p"

lemma contains_iff: "contains s p \<longleftrightarrow> (\<exists>u v. s = u @ p @ v)"
proof (induction s)
  case (Cons c s)
  have "hasPrefix (c # s) p \<longleftrightarrow> (\<exists>v. c # s = p @ v)"
    unfolding hasPrefix_def by (metis append_eq_conv_conj append_take_drop_id)
  moreover have "(\<exists>u v. c # s = u @ p @ v) \<longleftrightarrow> (\<exists>v. c # s = p @ v) \<or> (\<exists>u v. s = u @ p @ v)"
    by (metis append_Cons append_Nil list.exhaust list.inject)
  ultimately show ?case using Cons.IH by simp
qed simp

text \<open>\<open>strings.Split(s, sep)\<close> for a one-byte separator.\<close>

fun splitOn :: "char \<Rightarrow> string \<Rightarrow> string list" where
  "splitOn sep [] = [[]]"
| "splitOn sep (c # s) =
     (if c = sep then [] # splitOn sep s
      else case splitOn sep s of [] \<Rightarrow> [[c]] | part # parts \<Rightarrow> (c # part) # parts)"

lemma splitOn_not_Nil [simp]: "splitOn sep s \<noteq> []"
  by (induction s) (auto split: list.splits)

lemma splitOn_sep_free: "p \<in> set (splitOn sep s) \<Longrightarrow> sep \<notin> set p"
proof (induction s arbitrary: p)
  case (Cons c s)
  then show ?case
    by (cases "splitOn sep s") (auto split: if_splits)
qed simp

fun joinWith :: "string \<Rightarrow> string list \<Rightarrow> string" where
  "joinWith sep [] = []"
| "joinWith sep [p] = p"
| "joinWith sep (p # ps) = p @ sep @ joinWith sep ps"

lemma joinWith_Cons: "ps \<noteq> [] \<Longrightarrow> joinWith sep (p # ps) = p @ sep @ joinWith sep ps"
  by (cases ps) simp_all

lemma joinWith_splitOn: "joinWith [sep] (splitOn sep s) = s"
proof (induction s)
  case (Cons c s)
  show ?case
  proof (cases "splitOn sep s")
    case (Cons p ps)
    with Cons.IH show ?thesis by (cases ps) (auto simp: joinWith_Cons)
  qed simp
qed simp

fun splitAt :: "char \<Rightarrow> string \<Rightarrow> (string \<times> string) option" where
  "splitAt c [] = None"
| "splitAt c (x # s) =
     (if x = c then Some ([], s)
      else case splitAt c s of None \<Rightarrow> None | Some (a, b) \<Rightarrow> Some (x # a, b))"

text \<open>The split at the last occurrence, as \<open>strings.LastIndex\<close> is used.\<close>

definition splitLast :: "char \<Rightarrow> string \<Rightarrow> (string \<times> string) option" where
  "splitLast c s =
     (case splitAt c (rev s) of None \<Rightarrow> None | Some (a, b) \<Rightarrow> Some (rev b, rev a))"

lemma splitAt_Some: "splitAt c s = Some (a, b) \<Longrightarrow> s = a @ c # b \<and> c \<notin> set a"
  by (induction s arbitrary: a) (auto split: if_splits option.splits)

lemma splitAt_None: "splitAt c s = None \<longleftrightarrow> c \<notin> set s"
  by (induction s) (auto split: option.splits)

definition replaceByte :: "char \<Rightarrow> string \<Rightarrow> string \<Rightarrow> string" where
  "replaceByte c r s = concat (map (\<lambda>x. if x = c then r else [x]) s)"

text \<open>
  \<open>strings.ToLower\<close>. Bytes of ASCII letters are lowered. Outside ASCII, exactly two runes map
  into ASCII, the Kelvin sign (U+212A) to \<open>k\<close> and the dotted capital I (U+0130) to \<open>i\<close>; every
  other rune maps outside ASCII and is left as it is here, because no modelled caller looks at
  such bytes other than to reject them.
\<close>

definition asciiLower :: "char \<Rightarrow> char" where
  "asciiLower c = (if isUpper c then ofByte (byte c + 32) else c)"

function toLower :: "string \<Rightarrow> string" where
  "toLower [] = []"
| "toLower (c # s) =
     (if hasPrefix (c # s) [CHR 0xE2, CHR 0x84, CHR 0xAA] then CHR ''k'' # toLower (drop 2 s)
      else if hasPrefix (c # s) [CHR 0xC4, CHR 0xB0] then CHR ''i'' # toLower (drop 1 s)
      else asciiLower c # toLower s)"
  by pat_completeness auto
termination by (relation "measure length") auto

text \<open>The encodings of the white space runes of \<open>unicode.IsSpace\<close>.\<close>

definition spaceRunes :: "string list" where
  "spaceRunes =
   [[CHR 0x09], [CHR 0x0A], [CHR 0x0B], [CHR 0x0C], [CHR 0x0D], [CHR 0x20],
    [CHR 0xC2, CHR 0x85], [CHR 0xC2, CHR 0xA0], [CHR 0xE1, CHR 0x9A, CHR 0x80],
    [CHR 0xE2, CHR 0x80, CHR 0xA8], [CHR 0xE2, CHR 0x80, CHR 0xA9],
    [CHR 0xE2, CHR 0x80, CHR 0xAF], [CHR 0xE2, CHR 0x81, CHR 0x9F],
    [CHR 0xE3, CHR 0x80, CHR 0x80], [CHR 0xE2, CHR 0x80, CHR 0x80],
    [CHR 0xE2, CHR 0x80, CHR 0x81], [CHR 0xE2, CHR 0x80, CHR 0x82],
    [CHR 0xE2, CHR 0x80, CHR 0x83], [CHR 0xE2, CHR 0x80, CHR 0x84],
    [CHR 0xE2, CHR 0x80, CHR 0x85], [CHR 0xE2, CHR 0x80, CHR 0x86],
    [CHR 0xE2, CHR 0x80, CHR 0x87], [CHR 0xE2, CHR 0x80, CHR 0x88],
    [CHR 0xE2, CHR 0x80, CHR 0x89], [CHR 0xE2, CHR 0x80, CHR 0x8A]]"

text \<open>Removes one of the given non-empty prefixes.\<close>

fun stripOne :: "string list \<Rightarrow> string \<Rightarrow> string option" where
  "stripOne [] s = None"
| "stripOne (p # ps) s =
     (if p \<noteq> [] \<and> hasPrefix s p then Some (drop (length p) s) else stripOne ps s)"

lemma stripOne_shorter: "stripOne ps s = Some t \<Longrightarrow> length t < length s"
  by (induction ps; cases s) (auto simp: hasPrefix_def split: if_splits)

function trimPrefixes :: "string list \<Rightarrow> string \<Rightarrow> string" where
  "trimPrefixes ps s = (case stripOne ps s of None \<Rightarrow> s | Some t \<Rightarrow> trimPrefixes ps t)"
  by pat_completeness auto
termination by (relation "measure (length \<circ> snd)") (auto dest: stripOne_shorter)

declare trimPrefixes.simps [simp del]

definition trimBoth :: "string list \<Rightarrow> string \<Rightarrow> string" where
  "trimBoth ps s = rev (trimPrefixes (map rev ps) (rev (trimPrefixes ps s)))"

definition trimSpace :: "string \<Rightarrow> string" where
  "trimSpace s = trimBoth spaceRunes s"

text \<open>\<open>strings.Trim(s, "[]")\<close>.\<close>

definition trimBrackets :: "string \<Rightarrow> string" where
  "trimBrackets s = trimBoth [''['', '']''] s"

lemma trimPrefixes_stuck: "stripOne ps (trimPrefixes ps s) = None"
  by (induction ps s rule: trimPrefixes.induct)
    (subst trimPrefixes.simps, auto split: option.splits)

lemma trimPrefixes_id: "stripOne ps s = None \<Longrightarrow> trimPrefixes ps s = s"
  by (subst trimPrefixes.simps) simp

lemma stripOne_None: "stripOne ps s = None \<longleftrightarrow> (\<forall>p \<in> set ps. p = [] \<or> \<not> hasPrefix s p)"
  by (induction ps) auto

text \<open>Fields terminated by a byte they do not contain can be read back.\<close>

lemma append_sep_inject:
  "c \<notin> set x \<Longrightarrow> c \<notin> set y \<Longrightarrow> x @ c # s = y @ c # t \<longleftrightarrow> x = y \<and> s = t"
proof (induction x arbitrary: y)
  case Nil
  then show ?case by (cases y) auto
next
  case (Cons a x)
  then show ?case by (cases y) auto
qed

lemma replaceByte_filter:
  "\<lbrakk>d \<notin> set s; d \<noteq> c\<rbrakk> \<Longrightarrow> filter (\<lambda>x. x \<noteq> d) (replaceByte c [d, c] s) = s"
  by (induction s) (auto simp: replaceByte_def)

lemma replaceByte_inject:
  assumes "d \<noteq> c" "d \<notin> set s" "d \<notin> set t" and "replaceByte c [d, c] s = replaceByte c [d, c] t"
  shows "s = t"
  using replaceByte_filter assms by metis

lemma set_replaceByte: "set (replaceByte c r s) \<subseteq> set r \<union> set s"
  by (auto simp: replaceByte_def split: if_splits)

section \<open>Runes\<close>

definition isCont :: "char \<Rightarrow> bool" where
  "isCont c \<longleftrightarrow> 0x80 \<le> byte c \<and> byte c \<le> 0xBF"

text \<open>
  One step of \<open>range\<close> over a string: the rune and the number of bytes it took. An invalid
  encoding is the rune U+FFFD and one byte.
\<close>

definition decodeRune :: "char \<Rightarrow> string \<Rightarrow> nat \<times> nat" where
  "decodeRune c s =
     (let b0 = byte c; n1 = (\<lambda>i. byte (s ! i) - 0x80);
          cont = (\<lambda>k. k \<le> length s \<and> list_all isCont (take k s)) in
      if b0 < 0x80 then (b0, 1)
      else if 0xC2 \<le> b0 \<and> b0 \<le> 0xDF \<and> cont 1 then ((b0 - 0xC0) * 64 + n1 0, 2)
      else if 0xE0 \<le> b0 \<and> b0 \<le> 0xEF \<and> cont 2
           \<and> (b0 = 0xE0 \<longrightarrow> 0xA0 \<le> byte (s ! 0)) \<and> (b0 = 0xED \<longrightarrow> byte (s ! 0) \<le> 0x9F)
        then ((b0 - 0xE0) * 4096 + n1 0 * 64 + n1 1, 3)
      else if 0xF0 \<le> b0 \<and> b0 \<le> 0xF4 \<and> cont 3
           \<and> (b0 = 0xF0 \<longrightarrow> 0x90 \<le> byte (s ! 0)) \<and> (b0 = 0xF4 \<longrightarrow> byte (s ! 0) \<le> 0x8F)
        then ((b0 - 0xF0) * 262144 + n1 0 * 4096 + n1 1 * 64 + n1 2, 4)
      else (0xFFFD, 1))"

lemma decodeRune_width: "1 \<le> snd (decodeRune c s) \<and> snd (decodeRune c s) \<le> 4"
  by (simp add: decodeRune_def Let_def)

function runes :: "string \<Rightarrow> nat list" where
  "runes [] = []"
| "runes (c # s) = fst (decodeRune c s) # runes (drop (snd (decodeRune c s) - 1) s)"
  by pat_completeness auto
termination by (relation "measure length") auto

lemma runes_length_le: "length (runes s) \<le> length s"
proof (induction s rule: runes.induct)
  case (2 c s)
  then have "length (runes (drop (snd (decodeRune c s) - 1) s)) \<le> length s" by simp
  then show ?case by simp
qed simp

section \<open>\<open>strconv\<close>, \<open>encoding/hex\<close>\<close>

definition digitChar :: "nat \<Rightarrow> char" where
  "digitChar d = ofByte (48 + d)"

fun natText :: "nat \<Rightarrow> string" where
  "natText n = (if n < 10 then [digitChar n] else natText (n div 10) @ [digitChar (n mod 10)])"

declare natText.simps [simp del]

definition intText :: "int \<Rightarrow> string" where
  "intText n = (if n < 0 then CHR ''-'' # natText (nat (- n)) else natText (nat n))"

fun digitsValue :: "nat \<Rightarrow> string \<Rightarrow> nat option" where
  "digitsValue acc [] = Some acc"
| "digitsValue acc (c # s) =
     (if isDigit c then digitsValue (acc * 10 + (byte c - 48)) s else None)"

text \<open>\<open>strconv.ParseInt(s, 10, 64)\<close>, errors as \<open>None\<close>.\<close>

definition parseInt64 :: "string \<Rightarrow> int option" where
  "parseInt64 s =
     (let neg = hasPrefix s ''-'';
          digits = (if neg \<or> hasPrefix s ''+'' then drop 1 s else s) in
      if digits = [] then None
      else case digitsValue 0 digits of
        None \<Rightarrow> None
      | Some n \<Rightarrow>
          (let v = (if neg then - int n else int n) in
           if v < min_int \<or> v > max_int then None else Some v))"

lemma isDigit_digitChar [simp]: "d < 10 \<Longrightarrow> isDigit (digitChar d)"
  by (simp add: isDigit_def digitChar_def)

lemma byte_digitChar [simp]: "d < 10 \<Longrightarrow> byte (digitChar d) = 48 + d"
  by (simp add: digitChar_def)

lemma natText_digits: "list_all isDigit (natText n) \<and> natText n \<noteq> []"
proof (induction n rule: natText.induct)
  case (1 n)
  then show ?case by (cases "n < 10") (simp_all add: natText.simps [of n])
qed

lemma digitsValue_append:
  "digitsValue acc (s @ t) = (case digitsValue acc s of None \<Rightarrow> None | Some a \<Rightarrow> digitsValue a t)"
  by (induction s arbitrary: acc) (auto split: option.splits)

lemma digitsValue_natText: "digitsValue 0 (natText n) = Some n"
proof (induction n rule: natText.induct)
  case (1 n)
  show ?case
  proof (cases "n < 10")
    case False
    with 1 show ?thesis by (simp add: natText.simps [of n] digitsValue_append)
  qed (simp add: natText.simps [of n])
qed

lemma natText_inject [simp]: "natText m = natText n \<longleftrightarrow> m = n"
  by (metis digitsValue_natText option.inject)

lemma hasPrefix_natText [simp]:
  "hasPrefix (natText n) ''-'' = False" "hasPrefix (natText n) ''+'' = False"
  using natText_digits [of n]
  by (cases "natText n"; auto simp: hasPrefix_def isDigit_def byte_def)+

lemma intText_inject [simp]: "intText m = intText n \<longleftrightarrow> m = n"
proof -
  have "natText k \<noteq> CHR ''-'' # s" for k s
    using hasPrefix_natText(1) [of k] by (auto simp: hasPrefix_def)
  moreover from this have "CHR ''-'' # s \<noteq> natText k" for k s by metis
  ultimately show ?thesis by (auto simp: intText_def)
qed

lemma intText_chars: "c \<in> set (intText n) \<Longrightarrow> isDigit c \<or> c = CHR ''-''"
  using natText_digits by (auto simp: intText_def list_all_iff split: if_splits)

text \<open>Printing and parsing an \<open>int64\<close> are inverse.\<close>

lemma parseInt64_intText:
  assumes "min_int \<le> n" and "n \<le> max_int"
  shows "parseInt64 (intText n) = Some n"
proof -
  have ne: "natText k \<noteq> []" for k using natText_digits by blast
  show ?thesis
  proof (cases "n < 0")
    case True
    with assms ne show ?thesis
      by (simp add: parseInt64_def intText_def Let_def digitsValue_natText hasPrefix_def)
  next
    case False
    with assms ne show ?thesis
      by (simp add: parseInt64_def intText_def Let_def digitsValue_natText)
  qed
qed

definition hexDigit :: "nat \<Rightarrow> char" where
  "hexDigit d = (if d < 10 then ofByte (48 + d) else ofByte (87 + d))"

definition hexEncode :: "nat list \<Rightarrow> string" where
  "hexEncode bs = concat (map (\<lambda>b. [hexDigit (b div 16), hexDigit (b mod 16)]) bs)"

lemma hexEncode_shape:
  "list_all (\<lambda>b. b < 256) bs \<Longrightarrow>
     length (hexEncode bs) = 2 * length bs \<and> list_all isLowerHex (hexEncode bs)"
  by (induction bs) (auto simp: hexEncode_def hexDigit_def char_class_defs)

section \<open>\<open>net.ParseIP\<close>\<close>

text \<open>
  Whether \<open>net.ParseIP\<close> accepts a text. The first of \<open>.\<close>, \<open>:\<close> and \<open>%\<close> decides: a dotted quad
  without leading zeros, an IPv6 address without zone, or nothing.
\<close>

definition ipv4Octet :: "string \<Rightarrow> bool" where
  "ipv4Octet s \<longleftrightarrow>
     s \<noteq> [] \<and> list_all isDigit s \<and> (length s = 1 \<or> \<not> hasPrefix s ''0'')
   \<and> (case digitsValue 0 s of None \<Rightarrow> False | Some n \<Rightarrow> n \<le> 255)"

definition isIPv4 :: "string \<Rightarrow> bool" where
  "isIPv4 s \<longleftrightarrow> length (splitOn CHR ''.'' s) = 4 \<and> list_all ipv4Octet (splitOn CHR ''.'' s)"

definition isHexAny :: "char \<Rightarrow> bool" where
  "isHexAny c \<longleftrightarrow> isLowerHex c \<or> 65 \<le> byte c \<and> byte c \<le> 70"

text \<open>
  The loop of the IPv6 parser: \<open>i\<close> bytes are filled, \<open>ell\<close> says that \<open>::\<close> was seen. The first
  argument bounds the number of 16-bit groups still possible, at most eight.
\<close>

fun ipv6Groups :: "nat \<Rightarrow> nat \<Rightarrow> bool \<Rightarrow> string \<Rightarrow> bool" where
  "ipv6Groups 0 i ell s = (s = [] \<and> \<not> ell)"
| "ipv6Groups (Suc k) i ell s =
     (let digits = takeWhile isHexAny s; rest = dropWhile isHexAny s in
      if digits = [] \<or> length digits > 4 then False
      else if hasPrefix rest ''.''
        then (ell \<or> i = 12) \<and> i + 4 \<le> 16 \<and> isIPv4 s \<and> (i + 4 < 16 \<longleftrightarrow> ell)
      else if rest = [] then (i + 2 < 16 \<longleftrightarrow> ell)
      else if \<not> hasPrefix rest '':'' \<or> length rest = 1 then False
      else if hasPrefix rest ''::''
        then \<not> ell \<and> (if length rest = 2 then i + 2 < 16
                       else ipv6Groups k (i + 2) True (drop 2 rest))
      else ipv6Groups k (i + 2) ell (drop 1 rest))"

definition isIPv6 :: "string \<Rightarrow> bool" where
  "isIPv6 s \<longleftrightarrow>
     \<not> CHR ''%'' \<in> set s
   \<and> (if s = ''::'' then True
      else if hasPrefix s ''::'' then ipv6Groups 8 0 True (drop 2 s)
      else ipv6Groups 8 0 False s)"

definition isIPLiteral :: "string \<Rightarrow> bool" where
  "isIPLiteral s =
     (case dropWhile (\<lambda>c. c \<notin> {CHR ''.'', CHR '':'', CHR ''%''}) s of
        [] \<Rightarrow> False
      | c # _ \<Rightarrow> if c = CHR ''.'' then isIPv4 s else if c = CHR '':'' then isIPv6 s else False)"

end
