(* ===== verification/EgressPolicy.thy ===== *)
theory EgressPolicy
  imports GoText
begin

text \<open>
  The policy package's authority boundary for network destinations
  (\<open>internal/engine/policy/policy.go\<close>, \<open>egress.go\<close>): the profile data, the one validator that
  both durable and session-scoped grants go through, the durable rules of a profile, and the
  small total functions on agents and environments. Errors are constructors, one per
  \<open>return ... fmt.Errorf\<close>; their texts are not modelled.
\<close>

section \<open>Profile data\<close>

record PnpmRegistry =
  pnpmHost :: string
  pnpmToken :: string
  pnpmScope :: string

record AwsSso =
  awsProfile :: string
  awsRegion :: string
  awsRoleArn :: string
  awsSessionPolicy :: string

record GcpAdc =
  gcpScopes :: "string list"

record EksCluster =
  eksName :: string
  eksRegion :: string
  eksProfile :: string

record GkeCluster =
  gkeName :: string
  gkeLocation :: string
  gkeProject :: string

record KubeCluster =
  kubeEks :: "EksCluster option"
  kubeGke :: "GkeCluster option"

record RepoCred =
  repoName :: string
  repoWrite :: bool

record GithubApi =
  ghApiEnabled :: bool
  ghApiPermissions :: "string list"

record GithubCreds =
  ghMode :: string
  ghWrite :: bool
  ghTtl :: string
  ghPat :: string
  ghRepos :: "RepoCred list"
  ghApi :: "GithubApi option"

record ForgejoApi =
  fjApiEnabled :: bool
  fjAckAccountWide :: bool

record ForgejoCreds =
  fjWrite :: bool
  fjTtl :: string
  fjURL :: string
  fjRepos :: "RepoCred list"
  fjSSHPort :: int
  fjApi :: "ForgejoApi option"

record PiCreds =
  piProvider :: string
  piModel :: string

record Credentials =
  crPnpm :: "PnpmRegistry list"
  crAws :: "AwsSso option"
  crGcp :: "GcpAdc option"
  crKube :: "KubeCluster option"
  crGithub :: "GithubCreds option"
  crForgejo :: "ForgejoCreds option"
  crPi :: "PiCreds option"

record Toolchain =
  tcKind :: string
  tcRun :: string

record ProjectionItem =
  pjSource :: string
  pjTarget :: string
  pjKind :: string
  pjOptional :: "bool option"
  pjLabel :: string

record Projection =
  pjEnabled :: bool
  pjItems :: "ProjectionItem list"

record PersistentEgressRule =
  perFQDN :: string
  perPort :: int

record Profile =
  prAgent :: string
  prEnvironment :: string
  prWorkspace :: string
  prNetwork :: string
  prEgress :: "string list"
  prPersistentEgress :: "PersistentEgressRule list"
  prSecrets :: "(string \<times> string) list"
  prCredentials :: "Credentials option"
  prToolchain :: "Toolchain option"
  prBundles :: "string list"
  prPackages :: "string list"
  prBareAgent :: bool
  prProjection :: "Projection option"

section \<open>The exact destination validator\<close>

datatype egress_error =
    EgressHostEmpty | EgressIPLiteral string | EgressNonGrantable string
  | EgressNotFQDN string | EgressPort int

definition fqdnAlnum :: "char \<Rightarrow> bool" where
  "fqdnAlnum c \<longleftrightarrow> isLower c \<or> isDigit c"

text \<open>One label of the regular expression: \<open>[a-z0-9](?:[a-z0-9-]{0,61}[a-z0-9])?\<close>.\<close>

definition fqdnLabel :: "string \<Rightarrow> bool" where
  "fqdnLabel l \<longleftrightarrow>
     l \<noteq> [] \<and> length l \<le> 63 \<and> fqdnAlnum (hd l) \<and> fqdnAlnum (last l)
   \<and> list_all (\<lambda>c. fqdnAlnum c \<or> c = CHR ''-'') l"

definition exactEgressFQDN :: "string \<Rightarrow> bool" where
  "exactEgressFQDN h \<longleftrightarrow>
     (let labels = splitOn CHR ''.'' h in 2 \<le> length labels \<and> list_all fqdnLabel labels)"

definition nonGrantableEgressHosts :: "string list" where
  "nonGrantableEgressHosts =
     [''localhost'', ''metadata.google.internal'', ''metadata'', ''instance-data.ec2.internal'']"

definition ValidateExactEgress :: "string \<Rightarrow> int \<Rightarrow> (egress_error, string \<times> int) res" where
  "ValidateExactEgress host0 port =
     (let host = toLower (trimSpace host0) in
      if host = [] then Inl EgressHostEmpty
      else if isIPLiteral (trimBrackets host) then Inl (EgressIPLiteral host)
      else if host \<in> set nonGrantableEgressHosts then Inl (EgressNonGrantable host)
      else if \<not> exactEgressFQDN host then Inl (EgressNotFQDN host)
      else if port \<noteq> 80 \<and> port \<noteq> 443 then Inl (EgressPort port)
      else Inr (host, port))"

section \<open>Durable rules of a profile\<close>

datatype persistent_error =
    PersistentNotEnforceable | PersistentRule nat egress_error | PersistentDuplicate nat string

definition egressKey :: "string \<Rightarrow> int \<Rightarrow> string" where
  "egressKey host port = host @ '':'' @ intText port"

fun validateRules ::
  "nat \<Rightarrow> string list \<Rightarrow> PersistentEgressRule list
   \<Rightarrow> (persistent_error, PersistentEgressRule list) res" where
  "validateRules i seen [] = Inr []"
| "validateRules i seen (rule # rules) =
     (case ValidateExactEgress (perFQDN rule) (perPort rule) of
        Inl e \<Rightarrow> Inl (PersistentRule i e)
      | Inr (host, port) \<Rightarrow>
          (let key = egressKey host port in
           if key \<in> set seen then Inl (PersistentDuplicate i key)
           else rbind (validateRules (Suc i) (key # seen) rules)
                  (\<lambda>rest. Inr (rule\<lparr>perFQDN := host, perPort := port\<rparr> # rest))))"

text \<open>
  The Go function rewrites the rules in place; the result is the profile with the normalized
  rules. On an error the caller drops the profile.
\<close>

definition validatePersistentEgress :: "Profile \<Rightarrow> (persistent_error, Profile) res" where
  "validatePersistentEgress prof =
     (if prPersistentEgress prof = [] then Inr prof
      else if prEnvironment prof \<noteq> ''container'' \<or> prNetwork prof \<noteq> ''deny''
        then Inl PersistentNotEnforceable
      else rbind (validateRules 0 [] (prPersistentEgress prof))
             (\<lambda>rules. Inr (prof\<lparr>prPersistentEgress := rules\<rparr>)))"

section \<open>Credential declarations\<close>

datatype credential_error =
    GithubApiMode | GithubApiNoPermissions | GithubApiInvalidPermission string
  | GithubApiDuplicatePermission string | PiPosture | PiModel

text \<open>\<open>^[a-z][a-z-]*:(read|write)$\<close>.\<close>

definition githubPermission :: "string \<Rightarrow> bool" where
  "githubPermission s =
     (case splitAt CHR '':'' s of
        None \<Rightarrow> False
      | Some (name, access) \<Rightarrow>
          name \<noteq> [] \<and> isLower (hd name) \<and> list_all (\<lambda>c. isLower c \<or> c = CHR ''-'') name
          \<and> (access = ''read'' \<or> access = ''write''))"

fun checkPermissions :: "string list \<Rightarrow> string list \<Rightarrow> (credential_error, unit) res" where
  "checkPermissions seen [] = Inr ()"
| "checkPermissions seen (p # ps) =
     (if \<not> githubPermission p then Inl (GithubApiInvalidPermission p)
      else if p \<in> set seen then Inl (GithubApiDuplicatePermission p)
      else checkPermissions (p # seen) ps)"

definition validateGithubAPI :: "GithubCreds option \<Rightarrow> (credential_error, unit) res" where
  "validateGithubAPI github =
     (case github of
        None \<Rightarrow> Inr ()
      | Some g \<Rightarrow>
        (case ghApi g of
           None \<Rightarrow> Inr ()
         | Some api \<Rightarrow>
             if \<not> ghApiEnabled api then Inr ()
             else if (if ghMode g = [] then ''app'' else ghMode g) \<noteq> ''app'' then Inl GithubApiMode
             else if ghApiPermissions api = [] then Inl GithubApiNoPermissions
             else checkPermissions [] (ghApiPermissions api)))"

definition validatePiCredentials :: "Profile \<Rightarrow> (credential_error, unit) res" where
  "validatePiCredentials prof =
     (case prCredentials prof of
        None \<Rightarrow> Inr ()
      | Some cr \<Rightarrow>
        (case crPi cr of
           None \<Rightarrow> Inr ()
         | Some pic \<Rightarrow>
             if prAgent prof \<noteq> ''pi'' \<or> prEnvironment prof \<noteq> ''container''
                \<or> prNetwork prof \<noteq> ''deny'' then Inl PiPosture
             else if piProvider pic \<noteq> ''openai-codex'' \<or> piModel pic \<noteq> ''gpt-5.6-luna''
               then Inl PiModel
             else Inr ()))"

definition projectionAuthored :: "Projection \<Rightarrow> bool" where
  "projectionAuthored p \<longleftrightarrow> pjEnabled p \<or> pjItems p \<noteq> []"

section \<open>Agents and environments\<close>

definition NormalizeAgent :: "string \<Rightarrow> string" where
  "NormalizeAgent agent = (if agent = ''claude-code'' then ''claude'' else agent)"

definition IsLaunchableAgent :: "string \<Rightarrow> bool" where
  "IsLaunchableAgent name \<longleftrightarrow> name \<in> set [''claude'', ''pi'', ''fish'', ''zsh'']"

definition AgentEgress :: "string \<Rightarrow> string list" where
  "AgentEgress agent =
     (if agent = ''pi''
      then [''.pi.dev'', ''.generativelanguage.googleapis.com'', ''.moonshot.ai'', ''.z.ai'',
            ''.deepseek.com'', ''.mistral.ai'', ''.sakana.ai'', ''.exa.ai'']
      else [])"

datatype env_tier = TierNone | TierEgressAllowlisted

definition EnvTier :: "string \<Rightarrow> env_tier" where
  "EnvTier env = (if env = ''container'' then TierEgressAllowlisted else TierNone)"

section \<open>Characters of an accepted host\<close>

definition hostChar :: "char \<Rightarrow> bool" where
  "hostChar c \<longleftrightarrow> fqdnAlnum c \<or> c = CHR ''-'' \<or> c = CHR ''.''"

lemma hostChar_byte:
  "hostChar c \<longleftrightarrow> byte c = 45 \<or> byte c = 46 \<or> 48 \<le> byte c \<and> byte c \<le> 57
     \<or> 97 \<le> byte c \<and> byte c \<le> 122"
proof -
  have "c = CHR ''-'' \<longleftrightarrow> byte c = 45" "c = CHR ''.'' \<longleftrightarrow> byte c = 46"
    using byte_inject [of c "CHR ''-''"] byte_inject [of c "CHR ''.''"] by (simp_all add: byte_def)
  then show ?thesis by (auto simp: hostChar_def fqdnAlnum_def char_class_defs)
qed

lemma exactEgressFQDN_chars: "exactEgressFQDN h \<Longrightarrow> list_all hostChar h"
proof -
  assume fqdn: "exactEgressFQDN h"
  have "list_all hostChar (joinWith ''.'' ls)" if "list_all fqdnLabel ls" for ls
    using that
  proof (induction "''.''" ls rule: joinWith.induct)
    case (2 p)
    then show ?case by (auto simp: fqdnLabel_def hostChar_def list_all_iff)
  next
    case (3 p q ps)
    then show ?case by (auto simp: fqdnLabel_def hostChar_def list_all_iff)
  qed simp
  with fqdn joinWith_splitOn [of "CHR ''.''" h] show ?thesis
    by (metis exactEgressFQDN_def)
qed

lemma hostChar_not_lead: "hostChar c \<Longrightarrow> c \<noteq> CHR 0xE2 \<and> c \<noteq> CHR 0xC4 \<and> \<not> isUpper c"
  by (auto simp: hostChar_byte isUpper_def byte_def)

lemma toLower_hostChars: "list_all hostChar s \<Longrightarrow> toLower s = s"
  by (induction s rule: toLower.induct)
    (auto simp: hasPrefix_def asciiLower_def dest: hostChar_not_lead)

lemma spaceRunes_ends:
  "p \<in> set spaceRunes \<Longrightarrow> p \<noteq> [] \<and> \<not> hostChar (hd p) \<and> \<not> hostChar (last p)"
proof -
  have "list_all (\<lambda>p. p \<noteq> [] \<and> \<not> hostChar (hd p) \<and> \<not> hostChar (last p)) spaceRunes"
    by code_simp
  then show "p \<in> set spaceRunes \<Longrightarrow> ?thesis" by (auto simp: list_all_iff)
qed

lemma trimPrefixes_hostChars:
  assumes "list_all hostChar s" and "\<And>p. p \<in> set ps \<Longrightarrow> p \<noteq> [] \<and> \<not> hostChar (hd p)"
  shows "trimPrefixes ps s = s"
proof (rule trimPrefixes_id, unfold stripOne_None, intro ballI)
  fix p assume "p \<in> set ps"
  with assms(2) have p: "p \<noteq> []" "\<not> hostChar (hd p)" by blast+
  then have "\<not> hasPrefix s p" using assms(1)
    by (cases p; cases s) (auto simp: hasPrefix_def)
  then show "p = [] \<or> \<not> hasPrefix s p" ..
qed

lemma trimSpace_hostChars:
  assumes "list_all hostChar s"
  shows "trimSpace s = s"
proof -
  have "trimPrefixes spaceRunes s = s"
    using assms spaceRunes_ends by (intro trimPrefixes_hostChars) auto
  moreover have "trimPrefixes (map rev spaceRunes) (rev s) = rev s"
    using assms spaceRunes_ends by (intro trimPrefixes_hostChars) (auto simp: hd_rev)
  ultimately show ?thesis by (simp add: trimSpace_def trimBoth_def)
qed

lemma ValidateExactEgress_Inr:
  assumes "ValidateExactEgress host port = Inr (h, p)"
  shows "h = toLower (trimSpace host)" and "p = port" and "h \<noteq> []"
    and "\<not> isIPLiteral (trimBrackets h)" and "h \<notin> set nonGrantableEgressHosts"
    and "exactEgressFQDN h" and "p = 80 \<or> p = 443"
  using assms by (auto simp: ValidateExactEgress_def Let_def split: if_splits)

lemma ValidateExactEgress_stable:
  assumes "ValidateExactEgress host port = Inr (h, p)"
  shows "ValidateExactEgress h p = Inr (h, p)"
proof -
  note facts = ValidateExactEgress_Inr [OF assms]
  have "list_all hostChar h" using facts(6) by (rule exactEgressFQDN_chars)
  then have "toLower (trimSpace h) = h" by (simp add: trimSpace_hostChars toLower_hostChars)
  with facts show ?thesis by (auto simp: ValidateExactEgress_def)
qed

text \<open>Keys of accepted destinations are as good as the destinations themselves.\<close>

lemma egressKey_inject:
  assumes "CHR '':'' \<notin> set h" and "CHR '':'' \<notin> set h'" and "egressKey h p = egressKey h' p'"
  shows "h = h' \<and> p = p'"
  using assms append_sep_inject [of "CHR '':''" h h' "intText p" "intText p'"]
  by (simp add: egressKey_def)

lemma ValidateExactEgress_no_colon:
  "ValidateExactEgress host port = Inr (h, p) \<Longrightarrow> CHR '':'' \<notin> set h"
  using exactEgressFQDN_chars [OF ValidateExactEgress_Inr(6)]
  by (fastforce simp: list_all_iff hostChar_def fqdnAlnum_def char_class_defs byte_def)

section \<open>What an accepted destination is\<close>

text \<open>(C10) The authority boundary: whatever text and port are offered, an accepted destination is a
  fixed point of the validator, made only of lower-case letters, digits, hyphens and dots, with
  at least two labels of 1 to 63 characters, on port 80 or 443; it is never an IP literal nor a
  localhost or metadata name, however the offered text was cased, padded or bracketed.\<close>

theorem exact_egress_boundary:
  assumes "ValidateExactEgress host port = Inr (h, p)"
  shows "ValidateExactEgress h p = Inr (h, p) \<and> p = port \<and> (p = 80 \<or> p = 443)
       \<and> list_all hostChar h \<and> 2 \<le> length (splitOn CHR ''.'' h)
       \<and> list_all (\<lambda>l. 1 \<le> length l \<and> length l \<le> 63) (splitOn CHR ''.'' h)
       \<and> \<not> isIPLiteral (trimBrackets h) \<and> h \<notin> set nonGrantableEgressHosts"
proof -
  note facts = ValidateExactEgress_Inr [OF assms]
  have "list_all (\<lambda>l. 1 \<le> length l \<and> length l \<le> 63) (splitOn CHR ''.'' h)"
    using facts(6) by (auto simp: exactEgressFQDN_def fqdnLabel_def list_all_iff Suc_le_eq Let_def)
  with facts show ?thesis
    using ValidateExactEgress_stable [OF assms] exactEgressFQDN_chars [OF facts(6)]
    by (auto simp: exactEgressFQDN_def Let_def)
qed

theorem exact_egress_boundary_witness:
  "ValidateExactEgress '' API.GitHub.com '' 443 = Inr (''api.github.com'', 443)
     \<and> list_all hostChar ''api.github.com''"
proof -
  have "ValidateExactEgress '' API.GitHub.com '' 443 = Inr (''api.github.com'', 443)" by code_simp
  from exact_egress_boundary [OF this] this show ?thesis by blast
qed

text \<open>The one gap between \<open>ASCII only\<close> and the check: the test is made after case folding, so
  the Kelvin sign (U+212A) is accepted and denotes the letter \<open>k\<close>; the accepted host itself
  is ASCII.\<close>

theorem kelvin_sign_accepted:
  "ValidateExactEgress (CHR 0xE2 # CHR 0x84 # CHR 0xAA # ''.example.com'') 443
     = Inr (''k.example.com'', 443)"
  by code_simp

section \<open>Durable rules\<close>

lemma validateRules_Inr:
  assumes "validateRules i seen rules = Inr rules'"
  shows "length rules' = length rules
       \<and> (\<forall>r \<in> set rules'. ValidateExactEgress (perFQDN r) (perPort r) = Inr (perFQDN r, perPort r)
            \<and> egressKey (perFQDN r) (perPort r) \<notin> set seen)
       \<and> distinct (map (\<lambda>r. egressKey (perFQDN r) (perPort r)) rules')"
  using assms
proof (induction i seen rules arbitrary: rules' rule: validateRules.induct)
  case (2 i seen rule rules)
  then obtain h p rest where v: "ValidateExactEgress (perFQDN rule) (perPort rule) = Inr (h, p)"
    "egressKey h p \<notin> set seen" "validateRules (Suc i) (egressKey h p # seen) rules = Inr rest"
    "rules' = rule\<lparr>perFQDN := h, perPort := p\<rparr> # rest"
    by (auto simp: Let_def split: sum.splits prod.splits if_splits)
  note IH = 2(1) [OF v(1) refl refl v(2) v(3)]
  with v ValidateExactEgress_stable [OF v(1)] show ?case by auto
qed simp

lemma validateRules_fixed:
  assumes "\<forall>r \<in> set rules. ValidateExactEgress (perFQDN r) (perPort r) = Inr (perFQDN r, perPort r)
            \<and> egressKey (perFQDN r) (perPort r) \<notin> set seen"
    and "distinct (map (\<lambda>r. egressKey (perFQDN r) (perPort r)) rules)"
  shows "validateRules i seen rules = Inr rules"
  using assms
proof (induction rules arbitrary: i seen)
  case (Cons r rules)
  then have "validateRules (Suc i) (egressKey (perFQDN r) (perPort r) # seen) rules = Inr rules"
    by (intro Cons.IH) (auto simp: image_iff)
  with Cons.prems show ?case by simp
qed simp

text \<open>Validation of a profile's durable rules changes only those rules; it leaves the same
  number of pairwise distinct exact destinations, each a fixed point of the validator, and
  applying it again changes nothing.\<close>

theorem persistent_rules_normalized:
  assumes "validatePersistentEgress prof = Inr prof'"
  shows "prof' = prof\<lparr>prPersistentEgress := prPersistentEgress prof'\<rparr>
       \<and> length (prPersistentEgress prof') = length (prPersistentEgress prof)
       \<and> (\<forall>r \<in> set (prPersistentEgress prof').
            ValidateExactEgress (perFQDN r) (perPort r) = Inr (perFQDN r, perPort r))
       \<and> distinct (map (\<lambda>r. (perFQDN r, perPort r)) (prPersistentEgress prof'))
       \<and> validatePersistentEgress prof' = Inr prof'"
proof (cases "prPersistentEgress prof = []")
  case False
  with assms obtain rules where rules: "validateRules 0 [] (prPersistentEgress prof) = Inr rules"
    "prof' = prof\<lparr>prPersistentEgress := rules\<rparr>" "prEnvironment prof = ''container''"
    "prNetwork prof = ''deny''"
    by (auto simp: validatePersistentEgress_def split: if_splits)
  note shape = validateRules_Inr [OF rules(1)]
  have "validateRules 0 [] rules = Inr rules" using shape by (intro validateRules_fixed) auto
  moreover have "distinct (map (\<lambda>r. (perFQDN r, perPort r)) rules)"
    using shape by (auto simp: distinct_map inj_on_def)
  ultimately show ?thesis using shape rules by (auto simp: validatePersistentEgress_def)
qed (use assms in \<open>auto simp: validatePersistentEgress_def\<close>)

definition sampleProfile :: Profile where
  "sampleProfile =
     \<lparr>prAgent = ''pi'', prEnvironment = ''container'', prWorkspace = [], prNetwork = ''deny'',
      prEgress = [],
      prPersistentEgress = [\<lparr>perFQDN = ''Api.Example.COM'', perPort = 443\<rparr>,
                            \<lparr>perFQDN = ''api.example.com'', perPort = 80\<rparr>],
      prSecrets = [], prCredentials = None, prToolchain = None, prBundles = [],
      prPackages = [], prBareAgent = False, prProjection = None\<rparr>"

theorem persistent_rules_normalized_witness:
  "\<exists>prof'. validatePersistentEgress sampleProfile = Inr prof'
     \<and> distinct (map (\<lambda>r. (perFQDN r, perPort r)) (prPersistentEgress prof'))"
proof -
  have "\<exists>prof'. validatePersistentEgress sampleProfile = Inr prof'"
  proof (cases "validatePersistentEgress sampleProfile")
    case (Inl e)
    moreover have "\<not> isl (validatePersistentEgress sampleProfile)" by code_simp
    ultimately show ?thesis by simp
  qed blast
  then show ?thesis using persistent_rules_normalized by blast
qed

end
