(* ===== verification/Sha256.thy ===== *)
theory Sha256
  imports GoText
begin

text \<open>
  \<open>crypto/sha256.Sum256\<close> (FIPS 180-4), which the code uses to name a generation of proxy
  bytes. The hash is executable; what the proofs use of it is its shape (32 bytes) and that it
  is a function of its input.
\<close>

section \<open>Constants\<close>

definition sha_init :: "32 word list" where
  "sha_init =
   [0x6A09E667, 0xBB67AE85, 0x3C6EF372, 0xA54FF53A, 0x510E527F, 0x9B05688C,
    0x1F83D9AB, 0x5BE0CD19]"

definition sha_round :: "32 word list" where
  "sha_round =
   [0x428A2F98, 0x71374491, 0xB5C0FBCF, 0xE9B5DBA5, 0x3956C25B, 0x59F111F1,
    0x923F82A4, 0xAB1C5ED5, 0xD807AA98, 0x12835B01, 0x243185BE, 0x550C7DC3,
    0x72BE5D74, 0x80DEB1FE, 0x9BDC06A7, 0xC19BF174, 0xE49B69C1, 0xEFBE4786,
    0x0FC19DC6, 0x240CA1CC, 0x2DE92C6F, 0x4A7484AA, 0x5CB0A9DC, 0x76F988DA,
    0x983E5152, 0xA831C66D, 0xB00327C8, 0xBF597FC7, 0xC6E00BF3, 0xD5A79147,
    0x06CA6351, 0x14292967, 0x27B70A85, 0x2E1B2138, 0x4D2C6DFC, 0x53380D13,
    0x650A7354, 0x766A0ABB, 0x81C2C92E, 0x92722C85, 0xA2BFE8A1, 0xA81A664B,
    0xC24B8B70, 0xC76C51A3, 0xD192E819, 0xD6990624, 0xF40E3585, 0x106AA070,
    0x19A4C116, 0x1E376C08, 0x2748774C, 0x34B0BCB5, 0x391C0CB3, 0x4ED8AA4A,
    0x5B9CCA4F, 0x682E6FF3, 0x748F82EE, 0x78A5636F, 0x84C87814, 0x8CC70208,
    0x90BEFFFA, 0xA4506CEB, 0xBEF9A3F7, 0xC67178F2]"

section \<open>Padding and words\<close>

definition bigEndian :: "nat \<Rightarrow> nat \<Rightarrow> nat list" where
  "bigEndian k n = map (\<lambda>i. n div 256 ^ (k - 1 - i) mod 256) [0..<k]"

definition shaPad :: "nat list \<Rightarrow> nat list" where
  "shaPad m =
     m @ 0x80 # replicate ((119 - length m mod 64) mod 64) 0 @ bigEndian 8 (8 * length m)"

fun bytesWords :: "nat list \<Rightarrow> 32 word list" where
  "bytesWords (a # b # c # d # rest) =
     word_of_nat (((a * 256 + b) * 256 + c) * 256 + d) # bytesWords rest"
| "bytesWords _ = []"

section \<open>The compression function\<close>

definition sha_ch :: "32 word \<Rightarrow> 32 word \<Rightarrow> 32 word \<Rightarrow> 32 word" where
  "sha_ch x y z = (x AND y) XOR (NOT x AND z)"

definition sha_maj :: "32 word \<Rightarrow> 32 word \<Rightarrow> 32 word \<Rightarrow> 32 word" where
  "sha_maj x y z = (x AND y) XOR (x AND z) XOR (y AND z)"

definition sha_S0 :: "32 word \<Rightarrow> 32 word" where
  "sha_S0 x = word_rotr 2 x XOR word_rotr 13 x XOR word_rotr 22 x"

definition sha_S1 :: "32 word \<Rightarrow> 32 word" where
  "sha_S1 x = word_rotr 6 x XOR word_rotr 11 x XOR word_rotr 25 x"

definition sha_s0 :: "32 word \<Rightarrow> 32 word" where
  "sha_s0 x = word_rotr 7 x XOR word_rotr 18 x XOR drop_bit 3 x"

definition sha_s1 :: "32 word \<Rightarrow> 32 word" where
  "sha_s1 x = word_rotr 17 x XOR word_rotr 19 x XOR drop_bit 10 x"

text \<open>The schedule is built newest word first: the words \<open>t-1, t-2, ...\<close> are the list's head.\<close>

fun shaExtend :: "nat \<Rightarrow> 32 word list \<Rightarrow> 32 word list" where
  "shaExtend 0 ws = ws"
| "shaExtend (Suc k) ws =
     shaExtend k ((sha_s1 (ws ! 1) + ws ! 6 + sha_s0 (ws ! 14) + ws ! 15) # ws)"

definition shaSchedule :: "32 word list \<Rightarrow> 32 word list" where
  "shaSchedule block = rev (shaExtend 48 (rev block))"

fun shaStep :: "32 word list \<Rightarrow> 32 word \<times> 32 word \<Rightarrow> 32 word list" where
  "shaStep [a, b, c, d, e, f, g, h] (k, w) =
     (let t1 = h + sha_S1 e + sha_ch e f g + k + w;
          t2 = sha_S0 a + sha_maj a b c
      in [t1 + t2, a, b, c, d + t1, e, f, g])"
| "shaStep s _ = s"

definition shaBlock :: "32 word list \<Rightarrow> 32 word list \<Rightarrow> 32 word list" where
  "shaBlock s block = map2 (+) s (foldl shaStep s (zip sha_round (shaSchedule block)))"

fun shaBlocks :: "nat \<Rightarrow> 32 word list \<Rightarrow> 32 word list \<Rightarrow> 32 word list" where
  "shaBlocks 0 s ws = s"
| "shaBlocks (Suc k) s ws = shaBlocks k (shaBlock s (take 16 ws)) (drop 16 ws)"

definition sum256 :: "nat list \<Rightarrow> nat list" where
  "sum256 m =
     (let ws = bytesWords (shaPad m)
      in concat (map (\<lambda>w. bigEndian 4 (unat w)) (shaBlocks (length ws div 16) sha_init ws)))"

definition sha256Hex :: "string \<Rightarrow> string" where
  "sha256Hex s = hexEncode (sum256 (map byte s))"

section \<open>Shape\<close>

lemma shaStep_length [simp]: "length (shaStep s kw) = length s"
  by (cases "(s, kw)" rule: shaStep.cases) (simp_all add: Let_def)

lemma foldl_shaStep_length [simp]: "length (foldl shaStep s kws) = length s"
  by (induction kws arbitrary: s) simp_all

lemma shaBlocks_length: "length (shaBlocks k s ws) = length s"
  by (induction k arbitrary: s ws) (simp_all add: shaBlock_def)

lemma bigEndian_shape: "length (bigEndian k n) = k \<and> list_all (\<lambda>b. b < 256) (bigEndian k n)"
  by (simp add: bigEndian_def list_all_iff)

lemma sum256_shape: "length (sum256 m) = 32 \<and> list_all (\<lambda>b. b < 256) (sum256 m)"
proof -
  have "length (concat (map (\<lambda>w. bigEndian 4 (unat (w :: 32 word))) ws)) = 4 * length ws
      \<and> list_all (\<lambda>b. b < 256) (concat (map (\<lambda>w. bigEndian 4 (unat w)) ws))" for ws
    using bigEndian_shape by (induction ws) auto
  then show ?thesis by (simp add: sum256_def Let_def shaBlocks_length sha_init_def)
qed

lemma sha256Hex_shape: "length (sha256Hex s) = 64 \<and> list_all isLowerHex (sha256Hex s)"
  using hexEncode_shape [of "sum256 (map byte s)"] sum256_shape by (simp add: sha256Hex_def)

end
