(* ===== verification/EgressGeneration.thy ===== *)
theory EgressGeneration
  imports EgressPolicy Sha256
begin

text \<open>
  The canonical proxy policy generation of \<open>internal/engine/egress/generation.go\<close>: the text of
  the Squid include and its hash. Besides the code, this theory shows that the text determines
  the destinations and the revision, so a generation hash names one authority up to hash
  collisions, and that no destination can add a directive of its own.
\<close>

section \<open>The code\<close>

record Destination =
  destHost :: string
  destPort :: int

record Generation =
  generationRevision :: int
  generationHash :: string

datatype build_error = BuildInvalidRevision | BuildInvalidGrant

definition nl :: char where
  "nl = CHR 0x0A"

definition escapeDots :: "string \<Rightarrow> string" where
  "escapeDots h = replaceByte CHR ''.'' [CHR 0x5C, CHR ''.''] h"

definition renderOne :: "nat \<Rightarrow> Destination \<Rightarrow> string" where
  "renderOne i d =
     ''acl grant_'' @ intText (int i) @ ''_host dstdom_regex -n ^'' @ escapeDots (destHost d)
       @ ''$'' @ [nl]
   @ ''acl grant_'' @ intText (int i) @ ''_port port '' @ intText (destPort d) @ [nl]
   @ ''http_access allow grant_'' @ intText (int i) @ ''_host grant_'' @ intText (int i)
       @ ''_port'' @ [nl]"

fun renderFrom :: "nat \<Rightarrow> Destination list \<Rightarrow> string" where
  "renderFrom i [] = []"
| "renderFrom i (d # ds) = renderOne i d @ renderFrom (Suc i) ds"

definition Render :: "Destination list \<Rightarrow> string" where
  "Render destinations =
     (if destinations = []
      then ''# generated by safeslop; no session egress grants (final deny-all remains)'' @ [nl]
      else renderFrom 0 destinations)"

definition generationBody :: "Destination list \<Rightarrow> int \<Rightarrow> string" where
  "generationBody destinations revision =
     ''# safeslop-egress-revision: '' @ intText revision @ [nl] @ Render destinations"

definition exactDestination :: "Destination \<Rightarrow> bool" where
  "exactDestination d \<longleftrightarrow>
     ValidateExactEgress (destHost d) (destPort d) = Inr (destHost d, destPort d)"

definition Build :: "Destination list \<Rightarrow> int \<Rightarrow> (build_error, Generation \<times> string) res" where
  "Build destinations revision =
     (if revision < 0 then Inl BuildInvalidRevision
      else if \<not> list_all exactDestination destinations then Inl BuildInvalidGrant
      else let body = generationBody destinations revision in
        Inr (\<lparr>generationRevision = revision, generationHash = sha256Hex body\<rparr>, body))"

lemma Build_Inr_iff:
  "Build ds r = Inr (g, body) \<longleftrightarrow>
     0 \<le> r \<and> list_all exactDestination ds \<and> body = generationBody ds r
   \<and> g = \<lparr>generationRevision = r, generationHash = sha256Hex body\<rparr>"
  by (auto simp: Build_def Let_def)

section \<open>The text determines the authority\<close>

lemma exactDestination_chars: "exactDestination d \<Longrightarrow> list_all hostChar (destHost d)"
  by (auto simp: exactDestination_def intro: exactEgressFQDN_chars ValidateExactEgress_Inr(6))

lemma exactDestination_free:
  assumes "exactDestination d"
  shows "CHR 0x5C \<notin> set (destHost d)" and "CHR ''$'' \<notin> set (escapeDots (destHost d))"
    and "nl \<notin> set (escapeDots (destHost d))"
proof -
  have chars: "c \<in> set (destHost d) \<Longrightarrow> hostChar c" for c
    using exactDestination_chars [OF assms] by (simp add: list_all_iff)
  have esc: "c \<in> set (escapeDots (destHost d)) \<Longrightarrow> c \<in> {CHR 0x5C, CHR ''.''} \<or> hostChar c" for c
    using set_replaceByte chars unfolding escapeDots_def by fastforce
  show "CHR 0x5C \<notin> set (destHost d)" "CHR ''$'' \<notin> set (escapeDots (destHost d))"
    "nl \<notin> set (escapeDots (destHost d))"
    using chars esc by (force simp: hostChar_byte byte_def nl_def)+
qed

lemma nl_free [simp]: "nl \<notin> set (intText n)"
  using intText_chars [of nl n] by (auto simp: nl_def isDigit_def byte_def)

lemma renderOne_inject:
  assumes "exactDestination d" and "exactDestination e"
    and "renderOne i d @ s = renderOne i e @ t"
  shows "d = e \<and> s = t"
proof -
  note free = exactDestination_free [OF assms(1)] exactDestination_free [OF assms(2)]
  let ?tail = "\<lambda>d s. [nl] @ ''acl grant_'' @ intText (int i) @ ''_port port ''
      @ intText (destPort d) @ nl # ''http_access allow grant_'' @ intText (int i)
      @ ''_host grant_'' @ intText (int i) @ ''_port'' @ nl # s"
  have "escapeDots (destHost d) @ CHR ''$'' # ?tail d s = escapeDots (destHost e) @ CHR ''$'' # ?tail e t"
    using assms(3) by (simp add: renderOne_def)
  then have esc: "escapeDots (destHost d) = escapeDots (destHost e)" and rest: "?tail d s = ?tail e t"
    unfolding append_sep_inject [OF free(2) free(5)] by (rule conjunct1, rule conjunct2)
  have host: "destHost d = destHost e"
    using replaceByte_inject [OF _ free(1,4) esc [unfolded escapeDots_def]] by simp
  from rest have "destPort d = destPort e" and "s = t"
    using append_sep_inject [OF nl_free nl_free] by simp_all
  with host show ?thesis by simp
qed

lemma renderFrom_inject:
  assumes "list_all exactDestination ds" and "list_all exactDestination es"
    and "renderFrom i ds = renderFrom i es"
  shows "ds = es"
  using assms
proof (induction ds arbitrary: es i)
  case Nil
  then show ?case by (cases es) (simp_all add: renderOne_def)
next
  case (Cons d ds)
  then obtain e es' where es: "es = e # es'" by (cases es) (simp_all add: renderOne_def)
  with Cons.prems have "d = e \<and> renderFrom (Suc i) ds = renderFrom (Suc i) es'"
    by (intro renderOne_inject) simp_all
  with Cons es show ?case by auto
qed

lemma Render_inject:
  assumes "list_all exactDestination ds" and "list_all exactDestination es"
    and "Render ds = Render es"
  shows "ds = es"
proof -
  have "renderFrom 0 xs \<noteq> ''# generated'' @ t" if "xs \<noteq> []" for xs t
    using that by (cases xs) (simp_all add: renderOne_def)
  from this [of ds] this [of es] this [of ds, THEN not_sym] this [of es, THEN not_sym]
  show ?thesis using assms renderFrom_inject [of ds es 0]
    by (cases "ds = []"; cases "es = []") (simp_all add: Render_def)
qed


definition sampleDestinations :: "Destination list" where
  "sampleDestinations =
     [\<lparr>destHost = ''api.github.com'', destPort = 443\<rparr>,
      \<lparr>destHost = ''pypi.org'', destPort = 80\<rparr>]"

lemma sampleDestinations_exact: "list_all exactDestination sampleDestinations"
proof -
  have "ValidateExactEgress ''api.github.com'' 443 = Inr (''api.github.com'', 443)"
    "ValidateExactEgress ''pypi.org'' 80 = Inr (''pypi.org'', 80)" by code_simp+
  then show ?thesis by (simp add: sampleDestinations_def exactDestination_def)
qed


section \<open>No destination adds a directive\<close>

lemma splitOn_line: "c \<notin> set x \<Longrightarrow> splitOn c (x @ c # s) = x # splitOn c s"
  by (induction x) auto

lemma escapeDots_no_sep:
  "exactDestination d \<Longrightarrow> c \<in> set (escapeDots (destHost d)) \<Longrightarrow> hostChar c \<or> c = CHR 0x5C"
  using set_replaceByte [of "CHR ''.''" "[CHR 0x5C, CHR ''.'']" "destHost d"] exactDestination_chars [of d]
  by (auto simp: escapeDots_def list_all_iff hostChar_def)

definition renderLines :: "nat \<Rightarrow> Destination \<Rightarrow> string list" where
  "renderLines i d =
     [''acl grant_'' @ intText (int i) @ ''_host dstdom_regex -n ^'' @ escapeDots (destHost d) @ ''$'',
      ''acl grant_'' @ intText (int i) @ ''_port port '' @ intText (destPort d),
      ''http_access allow grant_'' @ intText (int i) @ ''_host grant_'' @ intText (int i) @ ''_port'']"

fun allRenderLines :: "nat \<Rightarrow> Destination list \<Rightarrow> string list" where
  "allRenderLines i [] = [[]]"
| "allRenderLines i (d # ds) = renderLines i d @ allRenderLines (Suc i) ds"

lemma renderLines_no_nl:
  assumes "exactDestination d" and "l \<in> set (renderLines i d)"
  shows "nl \<notin> set l"
proof -
  have "nl \<notin> set (escapeDots (destHost d))" using assms(1) by (rule exactDestination_free)
  moreover have "nl \<notin> set (intText k)" for k by (rule nl_free)
  ultimately show ?thesis using assms(2) unfolding nl_def by (auto simp: renderLines_def)
qed

lemma header_no_nl: "nl \<notin> set (''# safeslop-egress-revision: '' @ intText r)"
  using nl_free [of r] unfolding nl_def by simp

lemma renderOne_lines:
  "\<exists>a b c. renderLines i d = [a, b, c] \<and> (\<forall>s. renderOne i d @ s = a @ nl # b @ nl # c @ nl # s)"
  by (simp add: renderLines_def renderOne_def)

lemma renderFrom_lines:
  "list_all exactDestination ds \<Longrightarrow> splitOn nl (renderFrom i ds) = allRenderLines i ds"
proof (induction ds arbitrary: i)
  case (Cons d ds)
  obtain a b c where abc: "renderLines i d = [a, b, c]"
    "\<And>s. renderOne i d @ s = a @ nl # b @ nl # c @ nl # s" using renderOne_lines by blast
  have "nl \<notin> set a \<and> nl \<notin> set b \<and> nl \<notin> set c"
    using Cons.prems renderLines_no_nl [of d _ i] abc(1) by simp
  with Cons abc show ?case by (simp add: splitOn_line)
qed simp

text \<open>No injection through a destination: the rendered include of canonical destinations is,
  line by line, exactly three fixed directives per destination, numbered by position, so a host
  can neither end a line nor widen its anchored regular expression.\<close>

theorem render_three_lines_per_destination:
  assumes "Build ds r = Inr (g, body)" and "ds \<noteq> []"
  shows "splitOn nl body = (''# safeslop-egress-revision: '' @ intText r) # allRenderLines 0 ds
       \<and> (\<forall>d \<in> set ds. \<forall>c \<in> set (escapeDots (destHost d)). hostChar c \<or> c = CHR 0x5C)"
proof -
  have "list_all exactDestination ds" "body = generationBody ds r"
    using assms(1) by (auto simp: Build_Inr_iff)
  moreover have "splitOn nl ((''# safeslop-egress-revision: '' @ intText r) @ nl # s)
      = (''# safeslop-egress-revision: '' @ intText r) # splitOn nl s" for s
    using header_no_nl by (rule splitOn_line)
  ultimately show ?thesis using assms(2) escapeDots_no_sep renderFrom_lines [of ds 0]
    by (auto simp: generationBody_def Render_def list_all_iff)
qed

theorem render_three_lines_per_destination_witness:
  "\<exists>g body. Build sampleDestinations 3 = Inr (g, body) \<and> length (splitOn nl body) = 8"
proof -
  obtain g body where b: "Build sampleDestinations 3 = Inr (g, body)"
    using sampleDestinations_exact by (auto simp: Build_def Let_def)
  have "sampleDestinations \<noteq> []" by (simp add: sampleDestinations_def)
  from render_three_lines_per_destination [OF b this] b show ?thesis
    by (auto simp: sampleDestinations_def renderLines_def)
qed

end
