(* ===== verification/SessionRecord.thy ===== *)
theory SessionRecord
  imports EgressGeneration
begin

text \<open>
  The durable session record of \<open>internal/engine/session\<close> (\<open>session.go\<close>, \<open>store.go\<close>,
  \<open>egress_grant.go\<close>): the record with its unexported runtime fields, the grant operations on
  it, the validators every read and write goes through, and the record's on-disk form. Times
  are instants in nanoseconds, 0 is Go's zero time, and \<open>UTC()\<close> keeps the instant. The record
  revision is a \<open>uint64\<close>, the grant revision a Go \<open>int\<close>; both wrap as in Go. On disk a record is
  the value \<open>json.Unmarshal\<close> reads back, the JSON text itself is not modelled.
\<close>

section \<open>Data\<close>

type_synonym time = int

datatype session_status = StatusCreated | StatusRunning | StatusStopped | StatusOther string

datatype session_error =
    ErrNotFound | ErrSessionRunning | ErrSessionStopped | ErrCorruptRecord | ErrStaleRecord
  | ErrCommitUncertain | ErrExist | ErrSessionNotGrantable | ErrEgressGrant egress_error
  | ErrGrantEntropy | ErrGrantNotFound string string | ErrInvalidProcess | ErrProtocol
  | ErrMarshal | ErrOS | ErrCallback string | ErrNameControl nat | ErrNameTooLong
  | ErrIDCollisions | ErrWorkspace

record ResolvedMetadata =
  rmPackages :: "string list"
  rmIdentitySet :: "string list"
  rmRuntimeEgress :: "string list"

record CredentialScope =
  csKind :: string
  csName :: string
  csScope :: string

record CredentialLease =
  clProvider :: string
  clState :: string
  clReason :: string
  clCurrentExpiresAt :: time
  clHorizon :: time
  clGithubMinExpiresAt :: time
  clGithubPartitions :: int

record Failure =
  flVersion :: int
  flPhase :: string
  flCode :: string
  flProjection :: string
  flSource :: string
  flRequired :: bool
  flSummary :: string
  flAction :: string

record EgressGrant =
  egID :: string
  egHost :: string
  egPort :: int
  egSource :: string
  egCreatedAt :: time

record EgressAcknowledgement =
  eaHost :: string
  eaPort :: int
  eaAcknowledgedAt :: time

datatype transition_direction =
    EgressDirectionWiden | EgressDirectionNarrow | EgressDirectionOther string

record EgressTransition =
  tnDirection :: transition_direction
  tnCandidateRevision :: int
  tnCandidateHash :: string
  tnCandidateGrants :: "EgressGrant list"

record Session =
  seID :: string
  seProfile :: string
  seProfileSource :: string
  seName :: string
  seAgent :: string
  seWorkspace :: string
  seEnvironment :: string
  seNetwork :: string
  seBackend :: string
  seRecipeID :: string
  seImage :: string
  seResolved :: "ResolvedMetadata option"
  seCredentialScopes :: "CredentialScope list"
  seCredentialLease :: "CredentialLease option"
  seStatus :: session_status
  seCreatedAt :: time
  seUpdatedAt :: time
  seStartedAt :: time
  seStoppedAt :: time
  seRevokedAt :: time
  seCredentialsRevoked :: bool
  sePID :: int
  seProcessToken :: string
  seExitCode :: "int option"
  seLastError :: string
  seLastFailure :: "Failure option"
  sePolicyPath :: string
  sePolicyHash :: string
  sePersistentEgress :: "PersistentEgressRule list"
  seEgressGrants :: "EgressGrant list"
  seEgressAcknowledgements :: "EgressAcknowledgement list"
  seGrantRevision :: int
  seDetached :: bool
  seRecordRevision :: "64 word"
  seRuntimeID :: string
  seStageLayout :: int
  seAppliedEgressRevision :: int
  seAppliedEgressHash :: string
  seEgressTransition :: "EgressTransition option"

record EgressRuntimeState =
  ersAppliedRevision :: int
  ersAppliedHash :: string
  ersTransition :: "EgressTransition option"

definition StageLayoutLegacy :: int where "StageLayoutLegacy = 0"
definition StageLayoutSessionID :: int where "StageLayoutSessionID = 2"

text \<open>The zero value \<open>Session{}\<close>.\<close>

definition zeroSession :: Session where
  "zeroSession =
     \<lparr>seID = [], seProfile = [], seProfileSource = [], seName = [], seAgent = [],
      seWorkspace = [], seEnvironment = [], seNetwork = [], seBackend = [], seRecipeID = [],
      seImage = [], seResolved = None, seCredentialScopes = [], seCredentialLease = None,
      seStatus = StatusOther [], seCreatedAt = 0, seUpdatedAt = 0, seStartedAt = 0,
      seStoppedAt = 0, seRevokedAt = 0, seCredentialsRevoked = False, sePID = 0,
      seProcessToken = [], seExitCode = None, seLastError = [], seLastFailure = None,
      sePolicyPath = [], sePolicyHash = [], sePersistentEgress = [], seEgressGrants = [],
      seEgressAcknowledgements = [], seGrantRevision = 0, seDetached = False,
      seRecordRevision = 0, seRuntimeID = [], seStageLayout = 0, seAppliedEgressRevision = 0,
      seAppliedEgressHash = [], seEgressTransition = None\<rparr>"

definition maxLastErrorBytes :: nat where
  "maxLastErrorBytes = 240"

definition SetFailure :: "Session \<Rightarrow> Failure \<Rightarrow> Session" where
  "SetFailure s f =
     s\<lparr>seLastFailure := Some f, seLastError := take maxLastErrorBytes (flSummary f)\<rparr>"

definition SetEgressRuntimeState :: "Session \<Rightarrow> EgressRuntimeState \<Rightarrow> Session" where
  "SetEgressRuntimeState s state =
     s\<lparr>seAppliedEgressRevision := ersAppliedRevision state,
       seAppliedEgressHash := ersAppliedHash state,
       seEgressTransition := ersTransition state\<rparr>"

definition getEgressRuntimeState :: "Session \<Rightarrow> EgressRuntimeState" where
  "getEgressRuntimeState s =
     \<lparr>ersAppliedRevision = seAppliedEgressRevision s, ersAppliedHash = seAppliedEgressHash s,
      ersTransition = seEgressTransition s\<rparr>"

section \<open>Grant operations\<close>

definition CanGrant :: "Session \<Rightarrow> bool" where
  "CanGrant s \<longleftrightarrow> seEnvironment s = ''container'' \<and> seNetwork s = ''deny''"

definition ValidateEgressGrant :: "string \<Rightarrow> int \<Rightarrow> (session_error, string \<times> int) res" where
  "ValidateEgressGrant host port =
     (case ValidateExactEgress host port of Inl e \<Rightarrow> Inl (ErrEgressGrant e) | Inr hp \<Rightarrow> Inr hp)"

text \<open>\<open>newGrantID\<close>; the argument is what the entropy source delivered, \<open>None\<close> its failure.\<close>

definition newGrantID :: "nat list option \<Rightarrow> string option" where
  "newGrantID entropy = map_option (\<lambda>bs. ''g-'' @ hexEncode (take 3 bs)) entropy"

definition zeroGrant :: EgressGrant where
  "zeroGrant = \<lparr>egID = [], egHost = [], egPort = 0, egSource = [], egCreatedAt = 0\<rparr>"

definition AppendGrant ::
  "Session \<Rightarrow> string \<Rightarrow> int \<Rightarrow> time \<Rightarrow> nat list option
   \<Rightarrow> (session_error, Session \<times> EgressGrant) res" where
  "AppendGrant s host port now entropy =
     (if \<not> CanGrant s then Inl ErrSessionNotGrantable
      else rbind (ValidateEgressGrant host port) (\<lambda>(h, p).
        case find (\<lambda>g. egHost g = h \<and> egPort g = p) (seEgressGrants s) of
          Some g \<Rightarrow> Inr (s, g)
        | None \<Rightarrow>
          (case newGrantID entropy of
             None \<Rightarrow> Inl ErrGrantEntropy
           | Some grantID \<Rightarrow>
               (let g = \<lparr>egID = grantID, egHost = h, egPort = p, egSource = ''operator'',
                         egCreatedAt = now\<rparr> in
                Inr (s\<lparr>seEgressGrants := seEgressGrants s @ [g],
                       seGrantRevision := wrap_int (seGrantRevision s + 1),
                       seUpdatedAt := now\<rparr>, g)))))"

fun replaceAck :: "EgressAcknowledgement \<Rightarrow> EgressAcknowledgement list
    \<Rightarrow> EgressAcknowledgement list" where
  "replaceAck ack [] = [ack]"
| "replaceAck ack (a # as) =
     (if eaHost a = eaHost ack \<and> eaPort a = eaPort ack then ack # as else a # replaceAck ack as)"

definition DismissEgress ::
  "Session \<Rightarrow> string \<Rightarrow> int \<Rightarrow> time \<Rightarrow> (session_error, Session \<times> EgressAcknowledgement) res" where
  "DismissEgress s host port now =
     (if \<not> CanGrant s then Inl ErrSessionNotGrantable
      else rbind (ValidateEgressGrant host port) (\<lambda>(h, p).
        let ack = \<lparr>eaHost = h, eaPort = p, eaAcknowledgedAt = now\<rparr> in
        Inr (s\<lparr>seEgressAcknowledgements := replaceAck ack (seEgressAcknowledgements s),
               seUpdatedAt := now\<rparr>, ack)))"

text \<open>Removes the first grant with the id; \<open>None\<close> when there is none.\<close>

fun dropGrant :: "string \<Rightarrow> EgressGrant list \<Rightarrow> EgressGrant list option" where
  "dropGrant gid [] = None"
| "dropGrant gid (g # gs) =
     (if egID g = gid then Some gs else map_option ((#) g) (dropGrant gid gs))"

definition RevokeGrant :: "Session \<Rightarrow> string \<Rightarrow> time \<Rightarrow> (session_error, Session) res" where
  "RevokeGrant s gid now =
     (if \<not> CanGrant s then Inl ErrSessionNotGrantable
      else case dropGrant gid (seEgressGrants s) of
        None \<Rightarrow> Inl (ErrGrantNotFound gid (seID s))
      | Some grants \<Rightarrow>
          Inr (s\<lparr>seEgressGrants := grants,
                 seGrantRevision := wrap_int (seGrantRevision s + 1),
                 seUpdatedAt := now\<rparr>))"

section \<open>Validators\<close>

definition validIDChar :: "char \<Rightarrow> bool" where
  "validIDChar c \<longleftrightarrow> isLower c \<or> isUpper c \<or> isDigit c \<or> c = CHR ''-'' \<or> c = CHR ''_''"

definition validID :: "string \<Rightarrow> bool" where
  "validID i \<longleftrightarrow> list_all validIDChar i"

definition validRuntimeIdentity :: "Session \<Rightarrow> bool" where
  "validRuntimeIdentity s \<longleftrightarrow>
     (if seStageLayout s = StageLayoutLegacy then seRuntimeID s = []
      else if seStageLayout s = StageLayoutSessionID then seRuntimeID s = seID s
      else False)"

definition validGrantID :: "string \<Rightarrow> bool" where
  "validGrantID i \<longleftrightarrow> length i = 8 \<and> take 2 i = ''g-'' \<and> list_all isLowerHex (drop 2 i)"

definition sameGrant :: "EgressGrant \<Rightarrow> EgressGrant \<Rightarrow> bool" where
  "sameGrant a b \<longleftrightarrow>
     egID a = egID b \<and> egHost a = egHost b \<and> egPort a = egPort b \<and> egSource a = egSource b
   \<and> egCreatedAt a = egCreatedAt b"

definition exactHostPort :: "string \<Rightarrow> int \<Rightarrow> bool" where
  "exactHostPort h p \<longleftrightarrow>
     (case ValidateEgressGrant h p of Inl _ \<Rightarrow> False | Inr (h', p') \<Rightarrow> h' = h \<and> p' = p)"

fun validGrantsFrom :: "string list \<Rightarrow> string list \<Rightarrow> EgressGrant list \<Rightarrow> bool" where
  "validGrantsFrom ids destinations [] \<longleftrightarrow> True"
| "validGrantsFrom ids destinations (g # gs) \<longleftrightarrow>
     (let destination = egressKey (egHost g) (egPort g) in
      if \<not> exactHostPort (egHost g) (egPort g) \<or> \<not> validGrantID (egID g)
         \<or> egSource g \<noteq> ''operator'' \<or> egCreatedAt g = 0 \<or> egID g \<in> set ids
         \<or> destination \<in> set destinations then False
      else validGrantsFrom (egID g # ids) (destination # destinations) gs)"

definition validGrantList :: "EgressGrant list \<Rightarrow> bool" where
  "validGrantList grants \<longleftrightarrow> validGrantsFrom [] [] grants"

fun validPersistentFrom :: "string list \<Rightarrow> PersistentEgressRule list \<Rightarrow> bool" where
  "validPersistentFrom seen [] \<longleftrightarrow> True"
| "validPersistentFrom seen (r # rs) \<longleftrightarrow>
     (let key = egressKey (perFQDN r) (perPort r) in
      if \<not> exactHostPort (perFQDN r) (perPort r) \<or> key \<in> set seen then False
      else validPersistentFrom (key # seen) rs)"

fun validAcksFrom :: "string list \<Rightarrow> EgressAcknowledgement list \<Rightarrow> bool" where
  "validAcksFrom seen [] \<longleftrightarrow> True"
| "validAcksFrom seen (a # as) \<longleftrightarrow>
     (let key = ''ack:'' @ egressKey (eaHost a) (eaPort a) in
      if \<not> exactHostPort (eaHost a) (eaPort a) \<or> eaAcknowledgedAt a = 0 \<or> key \<in> set seen
      then False else validAcksFrom (key # seen) as)"

text \<open>
  The code keeps the persistent and the acknowledgement keys in one map, the latter prefixed
  with \<open>ack:\<close>; no accepted host contains a colon, so the two key spaces are disjoint and the
  acknowledgements start from the persistent keys.
\<close>

definition validEgressAuthority :: "Session \<Rightarrow> bool" where
  "validEgressAuthority s \<longleftrightarrow>
     (if seGrantRevision s < 0 \<or> int (length (seEgressGrants s)) > seGrantRevision s
         \<or> \<not> validGrantList (seEgressGrants s) then False
      else if (seGrantRevision s \<noteq> 0 \<or> sePersistentEgress s \<noteq> []
               \<or> seEgressAcknowledgements s \<noteq> []) \<and> \<not> CanGrant s then False
      else validPersistentFrom [] (sePersistentEgress s)
         \<and> validAcksFrom (rev (map (\<lambda>r. egressKey (perFQDN r) (perPort r)) (sePersistentEgress s)))
             (seEgressAcknowledgements s))"

definition sameGrantList :: "EgressGrant list \<Rightarrow> EgressGrant list \<Rightarrow> bool" where
  "sameGrantList a b \<longleftrightarrow> length a = length b \<and> list_all2 sameGrant a b"

text \<open>The loop of \<open>isOneGrantNarrower\<close>: the rest of the candidate and whether one was skipped.\<close>

fun narrowerLoop :: "EgressGrant list \<Rightarrow> EgressGrant list \<Rightarrow> bool \<Rightarrow> bool" where
  "narrowerLoop [] candidate removed \<longleftrightarrow> removed \<and> candidate = []"
| "narrowerLoop (g # active) candidate removed \<longleftrightarrow>
     (if candidate \<noteq> [] \<and> sameGrant g (hd candidate) then narrowerLoop active (tl candidate) removed
      else if removed then False
      else narrowerLoop active candidate True)"

definition isOneGrantNarrower :: "EgressGrant list \<Rightarrow> EgressGrant list \<Rightarrow> bool" where
  "isOneGrantNarrower active candidate \<longleftrightarrow>
     (if length candidate + 1 \<noteq> length active then False
      else narrowerLoop active candidate False)"

fun addDestinations :: "Destination list \<Rightarrow> Destination list \<Rightarrow> Destination list" where
  "addDestinations acc [] = acc"
| "addDestinations acc (d # ds) =
     (if d \<in> set acc then addDestinations acc ds else addDestinations (acc @ [d]) ds)"

definition ruleDestination :: "PersistentEgressRule \<Rightarrow> Destination" where
  "ruleDestination r = \<lparr>destHost = perFQDN r, destPort = perPort r\<rparr>"

definition grantDestination :: "EgressGrant \<Rightarrow> Destination" where
  "grantDestination g = \<lparr>destHost = egHost g, destPort = egPort g\<rparr>"

definition canonicalEgressGeneration ::
  "Session \<Rightarrow> EgressGrant list \<Rightarrow> int \<Rightarrow> Generation option" where
  "canonicalEgressGeneration s grants revision =
     (case Build (addDestinations [] (map ruleDestination (sePersistentEgress s)
                                        @ map grantDestination grants)) revision of
        Inl _ \<Rightarrow> None | Inr (g, _) \<Rightarrow> Some g)"

definition validSHA256 :: "string \<Rightarrow> bool" where
  "validSHA256 v \<longleftrightarrow> length v = 64 \<and> list_all isLowerHex v"

definition validWidenTransition :: "Session \<Rightarrow> EgressTransition \<Rightarrow> Generation \<Rightarrow> Generation \<Rightarrow> bool" where
  "validWidenTransition s tn durable candidate \<longleftrightarrow>
     (if tnCandidateRevision tn \<noteq> seGrantRevision s
         \<or> wrap_int (seAppliedEgressRevision s + 1) \<noteq> seGrantRevision s
         \<or> \<not> sameGrantList (tnCandidateGrants tn) (seEgressGrants s) \<or> seEgressGrants s = []
      then False
      else case canonicalEgressGeneration s (butlast (seEgressGrants s)) (seAppliedEgressRevision s) of
        None \<Rightarrow> False
      | Some old \<Rightarrow> candidate = durable \<and> seAppliedEgressHash s = generationHash old)"

definition validNarrowTransition :: "Session \<Rightarrow> EgressTransition \<Rightarrow> Generation \<Rightarrow> bool" where
  "validNarrowTransition s tn durable \<longleftrightarrow>
     seAppliedEgressRevision s = seGrantRevision s
   \<and> tnCandidateRevision tn = wrap_int (seGrantRevision s + 1)
   \<and> isOneGrantNarrower (seEgressGrants s) (tnCandidateGrants tn)
   \<and> seAppliedEgressHash s = generationHash durable"

definition validEgressRuntimeState :: "Session \<Rightarrow> bool" where
  "validEgressRuntimeState s \<longleftrightarrow>
     (if seAppliedEgressRevision s < 0
         \<or> seAppliedEgressHash s \<noteq> [] \<and> \<not> validSHA256 (seAppliedEgressHash s) then False
      else if seAppliedEgressHash s = [] \<and> seAppliedEgressRevision s \<noteq> 0 then False
      else case canonicalEgressGeneration s (seEgressGrants s) (seGrantRevision s) of
        None \<Rightarrow> False
      | Some durable \<Rightarrow>
        (case seEgressTransition s of
           None \<Rightarrow>
             seAppliedEgressHash s = []
             \<or> seAppliedEgressRevision s = seGrantRevision s
               \<and> seAppliedEgressHash s = generationHash durable
         | Some tn \<Rightarrow>
             if seAppliedEgressHash s = [] \<or> tnCandidateRevision tn < 0
                \<or> \<not> validSHA256 (tnCandidateHash tn) \<or> \<not> validGrantList (tnCandidateGrants tn)
             then False
             else case canonicalEgressGeneration s (tnCandidateGrants tn) (tnCandidateRevision tn) of
               None \<Rightarrow> False
             | Some candidate \<Rightarrow>
                 tnCandidateHash tn = generationHash candidate
                 \<and> (case tnDirection tn of
                      EgressDirectionWiden \<Rightarrow> validWidenTransition s tn durable candidate
                    | EgressDirectionNarrow \<Rightarrow> validNarrowTransition s tn durable
                    | _ \<Rightarrow> False)))"

definition validStatus :: "session_status \<Rightarrow> bool" where
  "validStatus st \<longleftrightarrow> st = StatusCreated \<or> st = StatusRunning \<or> st = StatusStopped"

definition validateRecord :: "Session \<Rightarrow> (session_error, unit) res" where
  "validateRecord s =
     (if seID s = [] \<or> \<not> validID (seID s) \<or> \<not> validRuntimeIdentity s
         \<or> \<not> validEgressAuthority s \<or> \<not> validEgressRuntimeState s then Inl ErrCorruptRecord
      else if validStatus (seStatus s) then Inr () else Inl ErrCorruptRecord)"

section \<open>The record on disk\<close>

record diskRecord =
  dkSession :: Session
  dkRecordRevision :: "64 word"
  dkRuntimeID :: string
  dkStageLayout :: int
  dkAppliedEgressRevision :: int
  dkAppliedEgressHash :: string
  dkEgressTransition :: "EgressTransition option"

text \<open>What \<open>json.Unmarshal\<close> makes of the bytes of a file.\<close>

datatype record_bytes = Json diskRecord | NotJson

text \<open>Unexported fields are not part of the JSON of a \<open>Session\<close>.\<close>

definition publicSession :: "Session \<Rightarrow> Session" where
  "publicSession s =
     s\<lparr>seRecordRevision := 0, seRuntimeID := [], seStageLayout := 0,
       seAppliedEgressRevision := 0, seAppliedEgressHash := [], seEgressTransition := None\<rparr>"

text \<open>\<open>time.Time.MarshalJSON\<close> fails outside the years 0 to 9999.\<close>

definition jsonTime :: "time \<Rightarrow> bool" where
  "jsonTime t \<longleftrightarrow> - (366 * 86400 * 10 ^ 9) \<le> t \<and> t < 3652059 * 86400 * 10 ^ 9"

definition recordTimes :: "Session \<Rightarrow> time list" where
  "recordTimes s =
     [seCreatedAt s, seUpdatedAt s, seStartedAt s, seStoppedAt s, seRevokedAt s]
     @ (case seCredentialLease s of None \<Rightarrow> []
        | Some l \<Rightarrow> [clCurrentExpiresAt l, clHorizon l, clGithubMinExpiresAt l])
     @ map egCreatedAt (seEgressGrants s) @ map eaAcknowledgedAt (seEgressAcknowledgements s)
     @ (case seEgressTransition s of None \<Rightarrow> []
        | Some tn \<Rightarrow> map egCreatedAt (tnCandidateGrants tn))"

definition encodeRecord :: "Session \<Rightarrow> (session_error, record_bytes) res" where
  "encodeRecord s =
     (if \<not> list_all jsonTime (recordTimes s) then Inl ErrMarshal
      else Inr (Json
        \<lparr>dkSession = publicSession s, dkRecordRevision = seRecordRevision s,
         dkRuntimeID = seRuntimeID s, dkStageLayout = seStageLayout s,
         dkAppliedEgressRevision = seAppliedEgressRevision s,
         dkAppliedEgressHash = seAppliedEgressHash s,
         dkEgressTransition = seEgressTransition s\<rparr>))"

definition restoreSession :: "diskRecord \<Rightarrow> Session" where
  "restoreSession r =
     (dkSession r)\<lparr>seRecordRevision := dkRecordRevision r, seRuntimeID := dkRuntimeID r,
       seStageLayout := dkStageLayout r, seAppliedEgressRevision := dkAppliedEgressRevision r,
       seAppliedEgressHash := dkAppliedEgressHash r, seEgressTransition := dkEgressTransition r\<rparr>"

definition decodeRecord :: "string \<Rightarrow> record_bytes \<Rightarrow> (session_error, Session) res" where
  "decodeRecord i bs =
     (case bs of
        NotJson \<Rightarrow> Inl ErrCorruptRecord
      | Json r \<Rightarrow>
        (let s = restoreSession r in
         if seID s \<noteq> i \<or> \<not> validID (seID s) then Inl ErrCorruptRecord
         else if \<not> validStatus (seStatus s) then Inl ErrCorruptRecord
         else if \<not> validRuntimeIdentity s \<or> \<not> validEgressAuthority s
                 \<or> \<not> validEgressRuntimeState s then Inl ErrCorruptRecord
         else Inr (if seBackend s = ''system'' then s\<lparr>seBackend := ''docker''\<rparr> else s)))"

end
