(* ===== verification/SessionRecordLaws.thy ===== *)
theory SessionRecordLaws
  imports SessionRecord
begin

text \<open>
  What the grant operations and validators of \<open>SessionRecord\<close> guarantee: the validators in
  closed form, preservation of the record's authority invariant, the effect of granting,
  revoking and dismissing, and the record's round trip through the disk form.
\<close>

section \<open>Validators in closed form\<close>

lemma sameGrant_eq [simp]: "sameGrant a b \<longleftrightarrow> a = b"
  by (cases a, cases b) (auto simp: sameGrant_def)

lemma sameGrantList_eq [simp]: "sameGrantList a b \<longleftrightarrow> a = b"
  by (auto simp: sameGrantList_def list_eq_iff_nth_eq list_all2_conv_all_nth)

lemma exactHostPort_iff:
  "exactHostPort h p \<longleftrightarrow> ValidateExactEgress h p = Inr (h, p)"
  by (auto simp: exactHostPort_def ValidateEgressGrant_def split: sum.splits prod.splits)

lemma exactHostPort_destination:
  "exactHostPort (destHost d) (destPort d) \<longleftrightarrow> exactDestination d"
  by (simp add: exactHostPort_iff exactDestination_def)

lemma exactHostPort_key:
  assumes "exactHostPort h p" and "exactHostPort h' p'"
  shows "egressKey h p = egressKey h' p' \<longleftrightarrow> h = h' \<and> p = p'"
  using assms egressKey_inject [of h h' p p'] ValidateExactEgress_no_colon [of h p h p]
    ValidateExactEgress_no_colon [of h' p' h' p'] by (auto simp: exactHostPort_iff)

definition validGrant :: "EgressGrant \<Rightarrow> bool" where
  "validGrant g \<longleftrightarrow>
     exactHostPort (egHost g) (egPort g) \<and> validGrantID (egID g) \<and> egSource g = ''operator''
   \<and> egCreatedAt g \<noteq> 0"

definition grantKey :: "EgressGrant \<Rightarrow> string" where
  "grantKey g = egressKey (egHost g) (egPort g)"

lemma validGrantsFrom_iff:
  "validGrantsFrom ids ds gs \<longleftrightarrow>
     (\<forall>g \<in> set gs. validGrant g \<and> egID g \<notin> set ids \<and> grantKey g \<notin> set ds)
   \<and> distinct (map egID gs) \<and> distinct (map grantKey gs)"
  by (induction gs arbitrary: ids ds) (auto simp: validGrant_def grantKey_def Let_def image_iff)

lemma validGrantList_iff:
  "validGrantList gs \<longleftrightarrow>
     (\<forall>g \<in> set gs. validGrant g) \<and> distinct (map egID gs) \<and> distinct (map grantDestination gs)"
proof -
  have "distinct (map grantKey gs) \<longleftrightarrow> distinct (map grantDestination gs)"
    if "\<forall>g \<in> set gs. validGrant g"
  proof -
    have "inj_on grantKey (set gs) \<longleftrightarrow> inj_on grantDestination (set gs)"
      unfolding inj_on_def using that
      by (simp add: grantKey_def grantDestination_def validGrant_def exactHostPort_key)
    then show ?thesis by (simp add: distinct_map)
  qed
  then show ?thesis by (auto simp: validGrantList_def validGrantsFrom_iff)
qed

lemma validPersistentFrom_iff:
  "validPersistentFrom seen rs \<longleftrightarrow>
     (\<forall>r \<in> set rs. exactHostPort (perFQDN r) (perPort r)
        \<and> egressKey (perFQDN r) (perPort r) \<notin> set seen)
   \<and> distinct (map (\<lambda>r. egressKey (perFQDN r) (perPort r)) rs)"
  by (induction rs arbitrary: seen) (auto simp: Let_def image_iff)

definition ackKey :: "EgressAcknowledgement \<Rightarrow> string" where
  "ackKey a = ''ack:'' @ egressKey (eaHost a) (eaPort a)"

definition validAck :: "EgressAcknowledgement \<Rightarrow> bool" where
  "validAck a \<longleftrightarrow> exactHostPort (eaHost a) (eaPort a) \<and> eaAcknowledgedAt a \<noteq> 0"

lemma validAcksFrom_iff:
  "validAcksFrom seen as \<longleftrightarrow>
     (\<forall>a \<in> set as. validAck a \<and> ackKey a \<notin> set seen) \<and> distinct (map ackKey as)"
  by (induction as arbitrary: seen) (auto simp: ackKey_def validAck_def Let_def image_iff)

lemma ackKey_not_key:
  assumes "exactHostPort h p" and "exactHostPort (eaHost a) (eaPort a)"
  shows "ackKey a \<noteq> egressKey h p"
proof
  assume eq: "ackKey a = egressKey h p"
  have "CHR '':'' \<notin> set h" "CHR '':'' \<notin> set (eaHost a)"
    using assms ValidateExactEgress_no_colon by (auto simp: exactHostPort_iff)
  moreover have "''ack'' @ CHR '':'' # (eaHost a @ CHR '':'' # intText (eaPort a))
      = h @ CHR '':'' # intText p"
    using eq by (simp add: ackKey_def egressKey_def)
  ultimately have "eaHost a @ CHR '':'' # intText (eaPort a) = intText p"
    using append_sep_inject [of "CHR '':''" "''ack''" h] by simp
  then have "CHR '':'' \<in> set (intText p)" by (metis in_set_conv_decomp)
  then show False using intText_chars [of "CHR '':''" p] by (simp add: isDigit_def byte_def)
qed

text \<open>The authority part of a valid record, spelled out.\<close>

lemma guard_chain: "(if a then False else if b then False else c) \<longleftrightarrow> \<not> a \<and> \<not> b \<and> c"
  by simp

lemma validEgressAuthority_iff:
  "validEgressAuthority s \<longleftrightarrow>
     0 \<le> seGrantRevision s \<and> int (length (seEgressGrants s)) \<le> seGrantRevision s
   \<and> validGrantList (seEgressGrants s)
   \<and> (seGrantRevision s = 0 \<and> sePersistentEgress s = [] \<and> seEgressAcknowledgements s = []
      \<or> CanGrant s)
   \<and> (\<forall>r \<in> set (sePersistentEgress s). exactHostPort (perFQDN r) (perPort r))
   \<and> distinct (map (\<lambda>r. egressKey (perFQDN r) (perPort r)) (sePersistentEgress s))
   \<and> (\<forall>a \<in> set (seEgressAcknowledgements s). validAck a)
   \<and> distinct (map ackKey (seEgressAcknowledgements s))"
proof -
  let ?keys = "rev (map (\<lambda>r. egressKey (perFQDN r) (perPort r)) (sePersistentEgress s))"
  let ?exact = "\<forall>r \<in> set (sePersistentEgress s). exactHostPort (perFQDN r) (perPort r)"
  have acks: "validAcksFrom ?keys as \<longleftrightarrow> (\<forall>a \<in> set as. validAck a) \<and> distinct (map ackKey as)"
    if ?exact for as
  proof -
    have "ackKey a \<notin> set ?keys" if "validAck a" for a
      using \<open>?exact\<close> that ackKey_not_key by (auto simp: validAck_def)
    then show ?thesis by (auto simp only: validAcksFrom_iff)
  qed
  have rules: "validPersistentFrom [] (sePersistentEgress s) \<longleftrightarrow> ?exact
      \<and> distinct (map (\<lambda>r. egressKey (perFQDN r) (perPort r)) (sePersistentEgress s))"
    by (simp add: validPersistentFrom_iff)
  show ?thesis
    by (simp only: validEgressAuthority_def guard_chain rules conj_assoc acks not_less de_Morgan_disj
      de_Morgan_conj not_not cong: conj_cong)
qed

lemma narrowerLoop_True [simp]: "narrowerLoop a c True \<longleftrightarrow> a = c"
proof (induction a arbitrary: c)
  case (Cons g a)
  then show ?case by (cases c) auto
qed auto

lemma narrowerLoop_False:
  "narrowerLoop a c False \<longleftrightarrow> (\<exists>us g vs. a = us @ g # vs \<and> c = us @ vs)"
proof (induction a arbitrary: c)
  case (Cons h a)
  show ?case
  proof (cases "c \<noteq> [] \<and> h = hd c")
    case True
    then obtain c' where c: "c = h # c'" by (cases c) auto
    have "(\<exists>us g vs. h # a = us @ g # vs \<and> c = us @ vs)
        \<longleftrightarrow> (\<exists>us g vs. a = us @ g # vs \<and> c' = us @ vs)" (is "?l \<longleftrightarrow> ?r")
    proof
      assume ?l
      then obtain us g vs where d: "h # a = us @ g # vs" "c = us @ vs" by blast
      show ?r
      proof (cases us)
        case Nil
        with d c have "a = [] @ h # c' \<and> c' = [] @ c'" by simp
        then show ?thesis by blast
      next
        case (Cons u us')
        with d c show ?thesis by auto
      qed
    next
      assume ?r
      then obtain us g vs where "a = us @ g # vs" "c' = us @ vs" by blast
      with c have "h # a = (h # us) @ g # vs \<and> c = (h # us) @ vs" by simp
      then show ?l by blast
    qed
    with True c Cons.IH show ?thesis by simp
  next
    case False
    then have "(\<exists>us g vs. h # a = us @ g # vs \<and> c = us @ vs) \<longleftrightarrow> a = c"
      by (auto simp: Cons_eq_append_conv)
    with False show ?thesis by auto
  qed
qed simp

lemma isOneGrantNarrower_iff:
  "isOneGrantNarrower a c \<longleftrightarrow> (\<exists>us g vs. a = us @ g # vs \<and> c = us @ vs)"
  by (auto simp: isOneGrantNarrower_def narrowerLoop_False)

lemma dropGrant_Some:
  "dropGrant i gs = Some hs \<Longrightarrow>
     \<exists>us g vs. gs = us @ g # vs \<and> hs = us @ vs \<and> egID g = i \<and> i \<notin> egID ` set us"
proof (induction gs arbitrary: hs)
  case (Cons g gs)
  show ?case
  proof (cases "egID g = i")
    case True
    with Cons.prems have "g # gs = [] @ g # gs \<and> hs = [] @ gs" by simp
    with True show ?thesis by fastforce
  next
    case False
    with Cons.prems obtain hs' where hs': "dropGrant i gs = Some hs'" "hs = g # hs'" by auto
    with Cons.IH obtain us g' vs where
      "gs = us @ g' # vs" "hs' = us @ vs" "egID g' = i" "i \<notin> egID ` set us" by blast
    with hs'(2) False have "g # gs = (g # us) @ g' # vs \<and> hs = (g # us) @ vs
      \<and> egID g' = i \<and> i \<notin> egID ` set (g # us)" by auto
    then show ?thesis by blast
  qed
qed simp

lemma dropGrant_None: "dropGrant i gs = None \<longleftrightarrow> i \<notin> egID ` set gs"
  by (induction gs) auto

section \<open>Canonical generations\<close>

lemma addDestinations_props:
  "distinct acc \<Longrightarrow> distinct (addDestinations acc ds)
     \<and> set (addDestinations acc ds) = set acc \<union> set ds
     \<and> (\<exists>t. addDestinations acc ds = acc @ t)"
proof (induction ds arbitrary: acc)
  case (Cons d ds)
  show ?case
  proof (cases "d \<in> set acc")
    case False
    with Cons.prems have "distinct (acc @ [d])" by simp
    from Cons.IH [OF this] False show ?thesis by auto
  qed (use Cons in \<open>auto\<close>)
qed simp

lemma canonical_Some_iff:
  "canonicalEgressGeneration s gs r = Some g \<longleftrightarrow>
     0 \<le> r \<and> (\<forall>p \<in> set (sePersistentEgress s). exactHostPort (perFQDN p) (perPort p))
   \<and> (\<forall>e \<in> set gs. exactHostPort (egHost e) (egPort e))
   \<and> g = \<lparr>generationRevision = r,
          generationHash = sha256Hex (generationBody
            (addDestinations [] (map ruleDestination (sePersistentEgress s)
                                   @ map grantDestination gs)) r)\<rparr>"
proof -
  let ?ds = "map ruleDestination (sePersistentEgress s) @ map grantDestination gs"
  have "list_all exactDestination (addDestinations [] ?ds) \<longleftrightarrow> (\<forall>d \<in> set ?ds. exactDestination d)"
    using addDestinations_props [of "[]" ?ds] by (simp add: list_all_iff)
  also have "\<dots> \<longleftrightarrow> (\<forall>p \<in> set (sePersistentEgress s). exactHostPort (perFQDN p) (perPort p))
      \<and> (\<forall>e \<in> set gs. exactHostPort (egHost e) (egPort e))"
    by (simp add: exactHostPort_destination [symmetric] ruleDestination_def grantDestination_def
        ball_Un)
  finally show ?thesis
    by (auto simp: canonicalEgressGeneration_def Build_def Let_def split: sum.splits)
qed

lemma validEgressAuthority_canonical:
  assumes "validEgressAuthority s"
  shows "\<exists>g. canonicalEgressGeneration s (seEgressGrants s) (seGrantRevision s) = Some g"
  using assms
  by (auto simp: canonical_Some_iff validEgressAuthority_iff validGrantList_iff validGrant_def)

lemma canonical_same_session:
  assumes "sePersistentEgress s = sePersistentEgress t"
  shows "canonicalEgressGeneration s = canonicalEgressGeneration t"
  by (intro ext) (simp add: canonicalEgressGeneration_def assms)

lemma validEgressRuntimeState_cong:
  assumes "sePersistentEgress t = sePersistentEgress s" "seEgressGrants t = seEgressGrants s"
    "seGrantRevision t = seGrantRevision s"
    "seAppliedEgressRevision t = seAppliedEgressRevision s"
    "seAppliedEgressHash t = seAppliedEgressHash s" "seEgressTransition t = seEgressTransition s"
  shows "validEgressRuntimeState t = validEgressRuntimeState s"
  unfolding validEgressRuntimeState_def validWidenTransition_def validNarrowTransition_def
    canonical_same_session [OF assms(1)]
  by (simp only: assms(2-6))

lemma canonical_hash_valid:
  "canonicalEgressGeneration s gs r = Some g \<Longrightarrow> validSHA256 (generationHash g) \<and> generationRevision g = r"
  using sha256Hex_shape by (auto simp: canonical_Some_iff validSHA256_def)

section \<open>Granting, revoking, dismissing\<close>

lemma AppendGrant_cases:
  assumes "AppendGrant s host port now entropy = Inr (s', g)"
  obtains (existing) "CanGrant s" "ValidateExactEgress host port = Inr (egHost g, egPort g)"
      "s' = s" "g \<in> set (seEgressGrants s)"
    | (fresh) bs where "CanGrant s" "ValidateExactEgress host port = Inr (egHost g, egPort g)"
      "entropy = Some bs" "\<forall>x \<in> set (seEgressGrants s). grantDestination x \<noteq> grantDestination g"
      "egID g = ''g-'' @ hexEncode (take 3 bs)" "egSource g = ''operator''" "egCreatedAt g = now"
      "s' = s\<lparr>seEgressGrants := seEgressGrants s @ [g],
             seGrantRevision := wrap_int (seGrantRevision s + 1), seUpdatedAt := now\<rparr>"
proof -
  let ?find = "\<lambda>h p. find (\<lambda>g. egHost g = h \<and> egPort g = p) (seEgressGrants s)"
  from assms obtain h p where hp: "CanGrant s" "ValidateExactEgress host port = Inr (h, p)"
    by (auto simp: AppendGrant_def ValidateEgressGrant_def split: if_splits sum.splits)
  show thesis
  proof (cases "?find h p")
    case None
    with assms hp obtain bs where "entropy = Some bs" "g = \<lparr>egID = ''g-'' @ hexEncode (take 3 bs),
        egHost = h, egPort = p, egSource = ''operator'', egCreatedAt = now\<rparr>"
      "s' = s\<lparr>seEgressGrants := seEgressGrants s @ [g],
             seGrantRevision := wrap_int (seGrantRevision s + 1), seUpdatedAt := now\<rparr>"
      by (auto simp: AppendGrant_def ValidateEgressGrant_def newGrantID_def Let_def
          split: option.splits)
    with hp None show thesis by (intro fresh) (auto simp: find_None_iff grantDestination_def)
  next
    case (Some x)
    with assms hp have "s' = s" "g = x"
      by (auto simp: AppendGrant_def ValidateEgressGrant_def)
    with Some hp show thesis by (intro existing) (auto simp: find_Some_iff)
  qed
qed

lemma newGrant_id_valid:
  assumes "length bs \<ge> 3" and "list_all (\<lambda>b. b < 256) bs"
  shows "validGrantID (''g-'' @ hexEncode (take 3 bs))"
proof -
  have "list_all (\<lambda>b. b < 256) (take 3 bs)" using assms(2)
    by (auto simp: list_all_iff dest: in_set_takeD)
  from hexEncode_shape [OF this] assms(1) show ?thesis by (simp add: validGrantID_def)
qed

text \<open>Granting keeps the authority invariant and is idempotent. On a valid record, a grant
  that succeeds leaves a valid record holding the normalized destination exactly once, either
  because it was there (nothing changes) or as one new last row with the revision increased;
  profile policy and acknowledgements are untouched, and granting the same target again
  returns the same row and changes nothing. (The id must be fresh: the code draws 24 random
  bits and does not check.)\<close>

theorem append_grant_keeps_authority:
  assumes "validEgressAuthority s" and "AppendGrant s host port now (Some bs) = Inr (s', g)"
    and "now \<noteq> 0" and "seGrantRevision s < max_int"
    and "3 \<le> length bs" and "list_all (\<lambda>b. b < 256) bs"
    and "''g-'' @ hexEncode (take 3 bs) \<notin> egID ` set (seEgressGrants s)"
  shows "validEgressAuthority s' \<and> g \<in> set (seEgressGrants s')
       \<and> ValidateExactEgress host port = Inr (egHost g, egPort g)
       \<and> (s' = s \<or> seEgressGrants s' = seEgressGrants s @ [g]
                   \<and> seGrantRevision s' = seGrantRevision s + 1)
       \<and> s' = s\<lparr>seEgressGrants := seEgressGrants s', seGrantRevision := seGrantRevision s',
                seUpdatedAt := seUpdatedAt s'\<rparr>
       \<and> (\<forall>now' entropy. AppendGrant s' host port now' entropy = Inr (s', g))"
proof -
  have again: "AppendGrant t host port now' entropy = Inr (t, g)"
    if "CanGrant t" "ValidateExactEgress host port = Inr (egHost g, egPort g)"
      "g \<in> set (seEgressGrants t)" "distinct (map grantDestination (seEgressGrants t))"
    for t now' entropy
  proof -
    have "find (\<lambda>x. egHost x = egHost g \<and> egPort x = egPort g) (seEgressGrants t) = Some g"
    proof (cases "find (\<lambda>x. egHost x = egHost g \<and> egPort x = egPort g) (seEgressGrants t)")
      case (Some x)
      then have "x \<in> set (seEgressGrants t)" "grantDestination x = grantDestination g"
        by (auto simp: find_Some_iff grantDestination_def)
      with that(3,4) have "x = g" by (auto simp: distinct_map inj_on_def)
      with Some show ?thesis by simp
    qed (use that in \<open>auto simp: find_None_iff\<close>)
    with that show ?thesis by (simp add: AppendGrant_def ValidateEgressGrant_def)
  qed
  have inv: "0 \<le> seGrantRevision s" "int (length (seEgressGrants s)) \<le> seGrantRevision s"
    "validGrantList (seEgressGrants s)" using assms(1) by (auto simp: validEgressAuthority_iff)
  from assms(2) show ?thesis
  proof (cases rule: AppendGrant_cases)
    case existing
    with assms(1) inv again show ?thesis by (simp add: validGrantList_iff)
  next
    case (fresh bs')
    have rev: "wrap_int (seGrantRevision s + 1) = seGrantRevision s + 1"
      using inv(1) assms(4) by (intro wrap_int_id) (simp_all add: min_int_def)
    have "exactHostPort (egHost g) (egPort g)"
      using ValidateExactEgress_stable [OF fresh(2)] by (simp add: exactHostPort_iff)
    moreover have "validGrantID (egID g)"
      using newGrant_id_valid [OF assms(5,6)] fresh(3,5) by simp
    ultimately have "validGrant g" using fresh assms(3) by (simp add: validGrant_def)
    with inv(3) fresh assms(7) have list: "validGrantList (seEgressGrants s @ [g])"
      by (auto simp: validGrantList_iff)
    with assms(1) inv fresh rev have "validEgressAuthority s'"
      by (auto simp: validEgressAuthority_iff CanGrant_def)
    moreover have "AppendGrant s' host port now' entropy = Inr (s', g)" for now' entropy
      using fresh list by (intro again) (simp_all add: CanGrant_def validGrantList_iff)
    ultimately show ?thesis using fresh rev by simp
  qed
qed

definition sampleSession :: Session where
  "sampleSession =
     zeroSession\<lparr>seID := ''sess-1'', seAgent := ''pi'', seEnvironment := ''container'',
       seNetwork := ''deny'', seStatus := StatusRunning, sePID := 42, seProcessToken := ''t42'',
       seCreatedAt := 1, seUpdatedAt := 1, seStartedAt := 1, seRuntimeID := ''sess-1'',
       seStageLayout := 2\<rparr>"

definition sampleGrant :: EgressGrant where
  "sampleGrant = \<lparr>egID = ''g-0a0b0c'', egHost = ''pypi.org'', egPort = 443,
     egSource = ''operator'', egCreatedAt = 7\<rparr>"

lemma sampleGrant_exact: "ValidateExactEgress ''pypi.org'' 443 = Inr (''pypi.org'', 443)"
  by code_simp

lemma sampleSession_fields [simp]:
  "CanGrant sampleSession" "seEgressGrants sampleSession = []" "seGrantRevision sampleSession = 0"
  "seEgressAcknowledgements sampleSession = []" "sePersistentEgress sampleSession = []"
  by (simp_all add: sampleSession_def zeroSession_def CanGrant_def)

lemma sampleSession_authority: "validEgressAuthority sampleSession"
  by (simp add: validEgressAuthority_iff validGrantList_def)

lemma sample_append:
  "AppendGrant sampleSession ''pypi.org'' 443 7 (Some [0x0A, 0x0B, 0x0C])
     = Inr (sampleSession\<lparr>seEgressGrants := [sampleGrant], seGrantRevision := 1, seUpdatedAt := 7\<rparr>,
            sampleGrant)"
proof -
  have "hexEncode [0x0A, 0x0B, 0x0C] = ''0a0b0c''" by code_simp
  then show ?thesis using sampleGrant_exact
    by (simp add: AppendGrant_def ValidateEgressGrant_def newGrantID_def sampleGrant_def wrap_int_def
        Let_def)
qed

theorem append_grant_keeps_authority_witness:
  "\<exists>s'. AppendGrant sampleSession ''pypi.org'' 443 7 (Some [0x0A, 0x0B, 0x0C]) = Inr (s', sampleGrant)
     \<and> validEgressAuthority s' \<and> seEgressGrants s' = [sampleGrant]"
proof -
  have "seGrantRevision sampleSession < max_int" by (simp add: max_int_def)
  from append_grant_keeps_authority [OF sampleSession_authority sample_append _ this, THEN conjunct1]
  show ?thesis by (simp add: sample_append)
qed

lemma RevokeGrant_Inr:
  assumes "RevokeGrant s i now = Inr s'"
  obtains us g vs where "CanGrant s" "seEgressGrants s = us @ g # vs" "egID g = i"
    "i \<notin> egID ` set us"
    "s' = s\<lparr>seEgressGrants := us @ vs, seGrantRevision := wrap_int (seGrantRevision s + 1),
           seUpdatedAt := now\<rparr>"
  using assms dropGrant_Some [of i "seEgressGrants s"]
  by (auto simp: RevokeGrant_def split: if_splits option.splits)

text \<open>Revoking removes exactly one row. On a valid record a revoke succeeds exactly when the
  session can hold grants and a row has the id; the result is then a valid record whose rows
  are the old ones without the named row, in order, with the revision increased by one and
  nothing else but the update time changed.\<close>

theorem revoke_grant_removes_one:
  assumes "validEgressAuthority s" and "seGrantRevision s < max_int"
  shows "case RevokeGrant s i now of
           Inl e \<Rightarrow> e = (if CanGrant s then ErrGrantNotFound i (seID s) else ErrSessionNotGrantable)
             \<and> \<not> (CanGrant s \<and> i \<in> egID ` set (seEgressGrants s))
         | Inr s' \<Rightarrow> CanGrant s \<and> i \<in> egID ` set (seEgressGrants s)
             \<and> validEgressAuthority s' \<and> isOneGrantNarrower (seEgressGrants s) (seEgressGrants s')
             \<and> s' = s\<lparr>seEgressGrants := filter (\<lambda>g. egID g \<noteq> i) (seEgressGrants s),
                      seGrantRevision := seGrantRevision s + 1, seUpdatedAt := now\<rparr>"
proof (cases "RevokeGrant s i now")
  case (Inl e)
  then show ?thesis using dropGrant_None [of i "seEgressGrants s"]
    by (auto simp: RevokeGrant_def split: option.splits)
next
  case (Inr s')
  then show ?thesis
  proof (rule RevokeGrant_Inr)
    fix us g vs
    assume r: "CanGrant s" "seEgressGrants s = us @ g # vs" "egID g = i" "i \<notin> egID ` set us"
      "s' = s\<lparr>seEgressGrants := us @ vs, seGrantRevision := wrap_int (seGrantRevision s + 1),
             seUpdatedAt := now\<rparr>"
    have inv: "0 \<le> seGrantRevision s" "int (length (seEgressGrants s)) \<le> seGrantRevision s"
      "validGrantList (seEgressGrants s)" using assms(1) by (auto simp: validEgressAuthority_iff)
    have rev: "wrap_int (seGrantRevision s + 1) = seGrantRevision s + 1"
      using inv(1) assms(2) by (intro wrap_int_id) (simp_all add: min_int_def)
    have "\<forall>x \<in> set us \<union> set vs. egID x \<noteq> i"
      using inv(3) r(2-4) by (auto simp: validGrantList_iff image_iff)
    then have "filter (\<lambda>g. egID g \<noteq> i) us = us" "filter (\<lambda>g. egID g \<noteq> i) vs = vs"
      by (auto intro: filter_True)
    then have rows: "filter (\<lambda>g. egID g \<noteq> i) (seEgressGrants s) = us @ vs"
      using r(2,3) by simp
    have "validGrantList (us @ vs)" using inv(3) r(2) by (auto simp: validGrantList_iff)
    then have "validEgressAuthority s'" using assms(1) inv r rev
      by (auto simp: validEgressAuthority_iff CanGrant_def)
    moreover have "isOneGrantNarrower (seEgressGrants s) (us @ vs)"
      using r(2) by (auto simp: isOneGrantNarrower_iff)
    moreover have "i \<in> egID ` set (seEgressGrants s)" using r(2,3) by auto
    ultimately show ?thesis using Inr r(1,5) rev rows by simp
  qed
qed

theorem revoke_grant_removes_one_witness:
  "\<exists>s'. RevokeGrant (sampleSession\<lparr>seEgressGrants := [sampleGrant], seGrantRevision := 1\<rparr>)
          ''g-0a0b0c'' 9 = Inr s' \<and> seEgressGrants s' = []"
proof -
  let ?s = "sampleSession\<lparr>seEgressGrants := [sampleGrant], seGrantRevision := 1\<rparr>"
  have "validGrant sampleGrant" using sampleGrant_exact
    by (simp add: validGrant_def sampleGrant_def exactHostPort_iff validGrantID_def isLowerHex_def
        isDigit_def byte_def)
  then have "validEgressAuthority ?s"
    by (simp add: validEgressAuthority_iff validGrantList_iff CanGrant_def sampleSession_def
        zeroSession_def)
  note facts = revoke_grant_removes_one [OF this, of "''g-0a0b0c''" 9]
  have mem: "CanGrant ?s \<and> ''g-0a0b0c'' \<in> egID ` set (seEgressGrants ?s)"
    by (simp add: CanGrant_def sampleSession_def zeroSession_def sampleGrant_def)
  show ?thesis
  proof (cases "RevokeGrant ?s ''g-0a0b0c'' 9")
    case (Inl e)
    then show ?thesis using facts mem by (simp add: max_int_def)
  next
    case (Inr s')
    then have "s' = ?s\<lparr>seEgressGrants := filter (\<lambda>g. egID g \<noteq> ''g-0a0b0c'') (seEgressGrants ?s),
        seGrantRevision := seGrantRevision ?s + 1, seUpdatedAt := 9\<rparr>"
      using facts by (simp add: max_int_def)
    then have "seEgressGrants s' = []" by (simp add: sampleGrant_def)
    with Inr show ?thesis by blast
  qed
qed

lemma replaceAck_props:
  assumes "\<forall>a \<in> set as. validAck a" and "validAck ack" and "distinct (map ackKey as)"
  shows "ackKey ` set (replaceAck ack as) = insert (ackKey ack) (ackKey ` set as)
       \<and> distinct (map ackKey (replaceAck ack as)) \<and> ack \<in> set (replaceAck ack as)
       \<and> (\<forall>a \<in> set (replaceAck ack as). validAck a)"
  using assms
proof (induction as)
  case (Cons a as)
  have same: "eaHost a = eaHost ack \<and> eaPort a = eaPort ack \<longleftrightarrow> ackKey a = ackKey ack"
    using Cons.prems exactHostPort_key by (auto simp: ackKey_def validAck_def)
  show ?case
  proof (cases "ackKey a = ackKey ack")
    case True
    with same have "replaceAck ack (a # as) = ack # as" by simp
    with True Cons.prems show ?thesis by auto
  next
    case False
    with same have "replaceAck ack (a # as) = a # replaceAck ack as" by auto
    moreover have "\<forall>x \<in> set as. validAck x" "validAck a" "distinct (map ackKey as)"
      "ackKey a \<notin> ackKey ` set as" using Cons.prems by auto
    ultimately show ?thesis using Cons.IH Cons.prems(2) False by auto
  qed
qed simp

text \<open>Dismissing is not granting: acknowledging a denied destination keeps the record valid and
  changes only the acknowledgements and the update time, so grants, revision, the proxy
  generation and the runtime state's validity are what they were.\<close>

theorem dismiss_changes_no_authority:
  assumes "validEgressAuthority s" and "DismissEgress s host port now = Inr (s', ack)" and "now \<noteq> 0"
  shows "validEgressAuthority s'
       \<and> s' = s\<lparr>seEgressAcknowledgements := seEgressAcknowledgements s', seUpdatedAt := now\<rparr>
       \<and> ack \<in> set (seEgressAcknowledgements s')
       \<and> canonicalEgressGeneration s' = canonicalEgressGeneration s
       \<and> validEgressRuntimeState s' = validEgressRuntimeState s"
proof -
  from assms(2) obtain h p where hp: "CanGrant s" "ValidateExactEgress host port = Inr (h, p)"
    "ack = \<lparr>eaHost = h, eaPort = p, eaAcknowledgedAt = now\<rparr>"
    "s' = s\<lparr>seEgressAcknowledgements := replaceAck ack (seEgressAcknowledgements s),
           seUpdatedAt := now\<rparr>"
    by (auto simp: DismissEgress_def ValidateEgressGrant_def Let_def split: if_splits sum.splits)
  have "validAck ack" using ValidateExactEgress_stable [OF hp(2)] hp(3) assms(3)
    by (simp add: validAck_def exactHostPort_iff)
  moreover have "\<forall>a \<in> set (seEgressAcknowledgements s). validAck a"
    "distinct (map ackKey (seEgressAcknowledgements s))"
    using assms(1) by (simp_all add: validEgressAuthority_iff)
  ultimately have acks: "distinct (map ackKey (seEgressAcknowledgements s'))"
    "ack \<in> set (seEgressAcknowledgements s')" "\<forall>a \<in> set (seEgressAcknowledgements s'). validAck a"
    using replaceAck_props [of "seEgressAcknowledgements s" ack] by (simp_all add: hp(4))
  have canon: "canonicalEgressGeneration s' = canonicalEgressGeneration s"
    using hp(4) by (intro canonical_same_session) simp
  have "validEgressAuthority s'"
    using assms(1) hp(1,4) acks by (simp add: validEgressAuthority_iff CanGrant_def)
  moreover have "validEgressRuntimeState s' = validEgressRuntimeState s"
    using hp(4) by (intro validEgressRuntimeState_cong) simp_all
  moreover have "s' = s\<lparr>seEgressAcknowledgements := seEgressAcknowledgements s', seUpdatedAt := now\<rparr>"
    by (simp add: hp(4))
  ultimately show ?thesis using acks(2) canon by blast
qed

theorem dismiss_changes_no_authority_witness:
  "\<exists>s' ack. DismissEgress sampleSession ''pypi.org'' 443 7 = Inr (s', ack)
     \<and> validEgressAuthority s' \<and> ack \<in> set (seEgressAcknowledgements s')"
proof -
  obtain s' ack where d: "DismissEgress sampleSession ''pypi.org'' 443 7 = Inr (s', ack)"
    using sampleGrant_exact by (auto simp: DismissEgress_def ValidateEgressGrant_def Let_def)
  have "(7 :: int) \<noteq> 0" by simp
  from dismiss_changes_no_authority [OF sampleSession_authority d this] d show ?thesis by blast
qed

section \<open>The record on disk\<close>

lemma restore_encode:
  "encodeRecord s = Inr bs \<Longrightarrow> \<exists>r. bs = Json r \<and> restoreSession r = s"
  by (auto simp: encodeRecord_def restoreSession_def publicSession_def split: if_splits)

lemma validateRecord_Inr:
  "validateRecord s = Inr () \<longleftrightarrow>
     seID s \<noteq> [] \<and> validID (seID s) \<and> validRuntimeIdentity s \<and> validEgressAuthority s
   \<and> validEgressRuntimeState s \<and> validStatus (seStatus s)"
  by (auto simp: validateRecord_def)

lemma backend_frame [simp]:
  "validRuntimeIdentity (s\<lparr>seBackend := b\<rparr>) = validRuntimeIdentity s"
  "validEgressAuthority (s\<lparr>seBackend := b\<rparr>) = validEgressAuthority s"
  "validEgressRuntimeState (s\<lparr>seBackend := b\<rparr>) = validEgressRuntimeState s"
proof -
  show "validRuntimeIdentity (s\<lparr>seBackend := b\<rparr>) = validRuntimeIdentity s"
    by (simp add: validRuntimeIdentity_def)
  show "validEgressAuthority (s\<lparr>seBackend := b\<rparr>) = validEgressAuthority s"
    by (simp add: validEgressAuthority_def CanGrant_def)
  show "validEgressRuntimeState (s\<lparr>seBackend := b\<rparr>) = validEgressRuntimeState s"
    by (rule validEgressRuntimeState_cong) simp_all
qed


lemma decodeRecord_valid:
  assumes "decodeRecord i bs = Inr s" and "i \<noteq> []"
  shows "seID s = i \<and> validateRecord s = Inr () \<and> seBackend s \<noteq> ''system''"
proof -
  from assms(1) obtain r where bs: "bs = Json r"
    by (cases bs) (auto simp: decodeRecord_def)
  let ?t = "restoreSession r"
  have t: "seID ?t = i" "validID i" "validStatus (seStatus ?t)" "validRuntimeIdentity ?t"
    "validEgressAuthority ?t" "validEgressRuntimeState ?t"
    "s = (if seBackend ?t = ''system'' then ?t\<lparr>seBackend := ''docker''\<rparr> else ?t)"
    using assms(1) bs by (auto simp: decodeRecord_def Let_def split: if_splits)
  then show ?thesis using assms(2) by (simp add: validateRecord_Inr)
qed

lemma decode_encode:
  assumes "validateRecord s = Inr ()" and "encodeRecord s = Inr bs" and "seBackend s \<noteq> ''system''"
  shows "decodeRecord (seID s) bs = Inr s"
proof -
  obtain r where "bs = Json r" "restoreSession r = s" using restore_encode [OF assms(2)] by blast
  then show ?thesis using assms(1,3) by (simp add: decodeRecord_def Let_def validateRecord_Inr)
qed

text \<open>Nothing invalid is ever read, and what is read is stable: whatever the bytes of a record
  file, a successful decode yields a session with the file's id that passes the validation
  applied before every write; if it can be encoded, decoding it again gives the same session.\<close>

theorem decoded_record_valid:
  assumes "decodeRecord i bs = Inr s" and "i \<noteq> []"
  shows "seID s = i \<and> validateRecord s = Inr ()
       \<and> (\<forall>bs'. encodeRecord s = Inr bs' \<longrightarrow> decodeRecord i bs' = Inr s)"
  using decodeRecord_valid [OF assms] decode_encode by blast

lemma sampleSession_valid: "validateRecord sampleSession = Inr ()"
proof -
  have "canonicalEgressGeneration sampleSession [] 0 \<noteq> None"
    by (auto simp: canonical_Some_iff)
  then have "validEgressRuntimeState sampleSession"
    by (auto simp: validEgressRuntimeState_def sampleSession_def zeroSession_def
        split: option.splits)
  moreover have "validID (seID sampleSession)" by code_simp
  moreover have "validRuntimeIdentity sampleSession"
    by (simp add: validRuntimeIdentity_def sampleSession_def zeroSession_def StageLayoutLegacy_def
        StageLayoutSessionID_def)
  ultimately show ?thesis using sampleSession_authority
    by (simp add: validateRecord_Inr validStatus_def) (simp add: sampleSession_def zeroSession_def)
qed

lemma sampleSession_encodes: "\<exists>bs. encodeRecord sampleSession = Inr bs"
  by (simp add: encodeRecord_def recordTimes_def jsonTime_def sampleSession_def zeroSession_def)


theorem decoded_record_valid_witness:
  "\<exists>bs s. decodeRecord ''sess-1'' bs = Inr s \<and> validateRecord s = Inr ()"
proof -
  obtain bs r where bs: "encodeRecord sampleSession = Inr bs" "bs = Json r"
    "restoreSession r = sampleSession"
    using sampleSession_encodes restore_encode by blast
  have "seID sampleSession = ''sess-1''" "seBackend sampleSession \<noteq> ''system''"
    by (simp_all add: sampleSession_def zeroSession_def)
  then have "decodeRecord ''sess-1'' bs = Inr sampleSession"
    using sampleSession_valid bs(2,3) by (simp add: decodeRecord_def Let_def validateRecord_Inr)
  with decoded_record_valid [OF this] show ?thesis by blast
qed

section \<open>Interrupted transitions\<close>

text \<open>A persisted transition marker is enough to recover: in a valid record it names two
  adjacent generations, exactly one grant and one revision apart. The applied revision and hash
  are those of the older one, the marker carries the hash of the newer one, and the durable
  rows are the newer ones while widening and the older ones while narrowing, so the runtime
  never has to enforce a grant that is not durable.\<close>

theorem transition_names_adjacent_generations:
  assumes "validEgressRuntimeState s" and "seEgressTransition s = Some tn"
    and "seGrantRevision s < max_int" and "seAppliedEgressRevision s < max_int"
  shows "\<exists>old new gold gnew.
           canonicalEgressGeneration s old (seAppliedEgressRevision s) = Some gold
         \<and> canonicalEgressGeneration s new (seAppliedEgressRevision s + 1) = Some gnew
         \<and> seAppliedEgressHash s = generationHash gold \<and> tnCandidateHash tn = generationHash gnew
         \<and> tnCandidateRevision tn = seAppliedEgressRevision s + 1 \<and> tnCandidateGrants tn = new
         \<and> (tnDirection tn = EgressDirectionWiden \<and> isOneGrantNarrower new old
              \<and> seEgressGrants s = new
            \<or> tnDirection tn = EgressDirectionNarrow \<and> isOneGrantNarrower old new
              \<and> seEgressGrants s = old)"
proof -
  from assms(1,2) obtain durable cand where c:
    "canonicalEgressGeneration s (seEgressGrants s) (seGrantRevision s) = Some durable"
    "canonicalEgressGeneration s (tnCandidateGrants tn) (tnCandidateRevision tn) = Some cand"
    "tnCandidateHash tn = generationHash cand" "0 \<le> seAppliedEgressRevision s"
    "case tnDirection tn of EgressDirectionWiden \<Rightarrow> validWidenTransition s tn durable cand
       | EgressDirectionNarrow \<Rightarrow> validNarrowTransition s tn durable | _ \<Rightarrow> False"
    by (auto simp: validEgressRuntimeState_def split: if_splits option.splits)
  have r: "0 \<le> seGrantRevision s" using c(1) by (simp add: canonical_Some_iff)
  have wrap: "wrap_int (seGrantRevision s + 1) = seGrantRevision s + 1"
    "wrap_int (seAppliedEgressRevision s + 1) = seAppliedEgressRevision s + 1"
    using r c(4) assms(3,4) by (auto intro!: wrap_int_id simp: min_int_def)
  show ?thesis
  proof (cases "tnDirection tn")
    case EgressDirectionWiden
    with c(5) wrap obtain old where w: "tnCandidateRevision tn = seGrantRevision s"
      "seAppliedEgressRevision s + 1 = seGrantRevision s" "tnCandidateGrants tn = seEgressGrants s"
      "seEgressGrants s \<noteq> []"
      "canonicalEgressGeneration s (butlast (seEgressGrants s)) (seAppliedEgressRevision s) = Some old"
      "seAppliedEgressHash s = generationHash old"
      by (auto simp: validWidenTransition_def split: if_splits option.splits)
    have "seEgressGrants s = butlast (seEgressGrants s) @ last (seEgressGrants s) # []
        \<and> butlast (seEgressGrants s) = butlast (seEgressGrants s) @ []" using w(4) by simp
    then have "isOneGrantNarrower (seEgressGrants s) (butlast (seEgressGrants s))"
      unfolding isOneGrantNarrower_iff by blast
    with w c EgressDirectionWiden show ?thesis by auto
  next
    case EgressDirectionNarrow
    with c(5) wrap have "seAppliedEgressRevision s = seGrantRevision s"
      "tnCandidateRevision tn = seGrantRevision s + 1"
      "isOneGrantNarrower (seEgressGrants s) (tnCandidateGrants tn)"
      "seAppliedEgressHash s = generationHash durable"
      by (auto simp: validNarrowTransition_def)
    with c EgressDirectionNarrow show ?thesis by auto
  qed (use c(5) in auto)
qed

definition wideningSession :: Session where
  "wideningSession =
     (let s = sampleSession\<lparr>seEgressGrants := [sampleGrant], seGrantRevision := 1\<rparr> in
      s\<lparr>seAppliedEgressHash := generationHash (the (canonicalEgressGeneration s [] 0)),
        seEgressTransition := Some
          \<lparr>tnDirection = EgressDirectionWiden, tnCandidateRevision = 1,
           tnCandidateHash = generationHash (the (canonicalEgressGeneration s [sampleGrant] 1)),
           tnCandidateGrants = [sampleGrant]\<rparr>\<rparr>)"

lemma wideningSession_valid: "validEgressRuntimeState wideningSession"
proof -
  have grant: "exactHostPort (egHost sampleGrant) (egPort sampleGrant)" "validGrantList [sampleGrant]"
    using sampleGrant_exact
    by (simp_all add: validGrantList_iff validGrant_def sampleGrant_def exactHostPort_iff
        validGrantID_def isLowerHex_def isDigit_def byte_def)
  let ?s = "sampleSession\<lparr>seEgressGrants := [sampleGrant], seGrantRevision := 1\<rparr>"
  obtain g0 where g0: "canonicalEgressGeneration ?s [] 0 = Some g0"
    by (auto simp: canonical_Some_iff sampleSession_def zeroSession_def)
  obtain g1 where g1: "canonicalEgressGeneration ?s [sampleGrant] 1 = Some g1"
    using grant by (auto simp: canonical_Some_iff sampleSession_def zeroSession_def)
  have canon: "canonicalEgressGeneration wideningSession = canonicalEgressGeneration ?s"
    by (rule canonical_same_session) (simp add: wideningSession_def Let_def)
  have hash: "validSHA256 (generationHash g0)" "validSHA256 (generationHash g1)"
    using g0 g1 canonical_hash_valid by blast+
  have ne: "generationHash g0 \<noteq> []" using hash(1) by (auto simp: validSHA256_def)
  have fields: "seAppliedEgressRevision wideningSession = 0"
    "seAppliedEgressHash wideningSession = generationHash g0" "seGrantRevision wideningSession = 1"
    "seEgressGrants wideningSession = [sampleGrant]"
    "seEgressTransition wideningSession = Some \<lparr>tnDirection = EgressDirectionWiden,
       tnCandidateRevision = 1, tnCandidateHash = generationHash g1,
       tnCandidateGrants = [sampleGrant]\<rparr>"
    using g0 g1 by (simp_all add: wideningSession_def Let_def) (simp_all add: sampleSession_def zeroSession_def)
  show ?thesis using hash ne grant(2) g0 g1
    by (simp add: validEgressRuntimeState_def validWidenTransition_def fields canon wrap_int_def)
qed

theorem transition_names_adjacent_generations_witness:
  "\<exists>gold gnew. canonicalEgressGeneration wideningSession [] 0 = Some gold
     \<and> canonicalEgressGeneration wideningSession [sampleGrant] 1 = Some gnew
     \<and> seAppliedEgressHash wideningSession = generationHash gold"
proof -
  obtain tn where tn: "seEgressTransition wideningSession = Some tn" "tnCandidateGrants tn = [sampleGrant]"
    "tnDirection tn = EgressDirectionWiden" by (simp add: wideningSession_def Let_def)
  have rev: "seGrantRevision wideningSession = 1" "seAppliedEgressRevision wideningSession = 0"
    "seEgressGrants wideningSession = [sampleGrant]"
    by (simp_all add: wideningSession_def Let_def) (simp add: sampleSession_def zeroSession_def)
  have "seGrantRevision wideningSession < max_int" "seAppliedEgressRevision wideningSession < max_int"
    by (simp_all add: rev max_int_def)
  note t = transition_names_adjacent_generations [OF wideningSession_valid tn(1) this]
  then obtain old gold gnew where o:
    "canonicalEgressGeneration wideningSession old 0 = Some gold"
    "canonicalEgressGeneration wideningSession [sampleGrant] 1 = Some gnew"
    "seAppliedEgressHash wideningSession = generationHash gold"
    "isOneGrantNarrower [sampleGrant] old"
    using tn rev by auto
  have "old = []" using o(4) by (simp add: isOneGrantNarrower_def split: if_splits)
  with o show ?thesis by blast
qed

end
