(* ===== verification/SessionStore.thy ===== *)
theory SessionStore
  imports SessionRecord "HOL-Library.AList" "HOL-Library.Char_ord" "HOL-Library.List_Lexorder"
begin

text \<open>
  The record store of \<open>internal/engine/session\<close> (\<open>store.go\<close>, \<open>atomic.go\<close>) over an explicit
  world: the session directory as seen by system calls, what of it survives a crash, leftover
  temporary files, and a trace of effects. Every system call may fail: the world carries an
  arbitrary fault script indexed by the number of calls made so far. The handlers run under the
  exclusive record lock, so one operation is one uninterrupted sequence of calls.
\<close>

section \<open>The world\<close>

text \<open>A record file remembers whether its bytes were synced before it was installed.\<close>

datatype node = RecordFile record_bytes bool | SpecialNode | SubDir

datatype event =
    EvLocked string | EvUnlocked string | EvInstalled string | EvRemoved string | EvDirSynced
  | EvRevoked string | EvKilled int | EvReaped nat string | EvSocketRemoved string

record world =
  wDir :: "(string \<times> node) list"
  wDurable :: "(string \<times> node) list"
  wTemps :: nat
  wTick :: nat
  wFault :: "nat \<Rightarrow> bool"
  wTrace :: "event list"

type_synonym 'a io = "world \<Rightarrow> (session_error, 'a) res \<times> world"

definition retIO :: "'a \<Rightarrow> 'a io" where
  "retIO x w = (Inr x, w)"

definition failIO :: "session_error \<Rightarrow> 'a io" where
  "failIO e w = (Inl e, w)"

definition liftIO :: "(session_error, 'a) res \<Rightarrow> 'a io" where
  "liftIO r w = (r, w)"

definition bindIO :: "'a io \<Rightarrow> ('a \<Rightarrow> 'b io) \<Rightarrow> 'b io" where
  "bindIO m f w = (case m w of (Inl e, w') \<Rightarrow> (Inl e, w') | (Inr x, w') \<Rightarrow> f x w')"

text \<open>Runs a computation and hands its result, error or not, to the rest.\<close>

definition tryIO :: "'a io \<Rightarrow> (session_error, 'a) res io" where
  "tryIO m w = (case m w of (r, w') \<Rightarrow> (Inr r, w'))"

definition emit :: "event \<Rightarrow> unit io" where
  "emit e w = (Inr (), w\<lparr>wTrace := wTrace w @ [e]\<rparr>)"

definition modifyIO :: "(world \<Rightarrow> world) \<Rightarrow> unit io" where
  "modifyIO f w = (Inr (), f w)"

definition readIO :: "(world \<Rightarrow> 'a) \<Rightarrow> 'a io" where
  "readIO f w = (Inr (f w), w)"

text \<open>One system call: it consumes a tick and fails when the fault script says so.\<close>

definition osCall :: "unit io" where
  "osCall w =
     (if wFault w (wTick w) then Inl ErrOS else Inr (), w\<lparr>wTick := wTick w + 1\<rparr>)"

lemmas io_defs = retIO_def failIO_def liftIO_def bindIO_def tryIO_def emit_def modifyIO_def
  readIO_def osCall_def

section \<open>Atomic installation of a record\<close>

definition recordName :: "string \<Rightarrow> string" where
  "recordName i = i @ ''.json''"

definition lookupNode :: "string \<Rightarrow> world \<Rightarrow> node option" where
  "lookupNode name w = map_of (wDir w) name"

definition installNode :: "string \<Rightarrow> node \<Rightarrow> world \<Rightarrow> world" where
  "installNode name n w = w\<lparr>wDir := AList.update name n (wDir w)\<rparr>"

definition removeNode :: "string \<Rightarrow> world \<Rightarrow> world" where
  "removeNode name w = w\<lparr>wDir := AList.delete name (wDir w)\<rparr>"

text \<open>What a directory sync makes durable: a file whose bytes were never synced may be torn.\<close>

fun durableNode :: "node \<Rightarrow> node" where
  "durableNode (RecordFile bs synced) = RecordFile (if synced then bs else NotJson) synced"
| "durableNode n = n"

definition directorySync :: "unit io" where
  "directorySync =
     bindIO osCall (\<lambda>_.
     bindIO (modifyIO (\<lambda>w. w\<lparr>wDurable := map (\<lambda>(k, n). (k, durableNode n)) (wDir w)\<rparr>)) (\<lambda>_.
     emit EvDirSynced))"

definition createTemp :: "unit io" where
  "createTemp = bindIO osCall (\<lambda>_. modifyIO (\<lambda>w. w\<lparr>wTemps := wTemps w + 1\<rparr>))"

definition removeTemp :: "unit io" where
  "removeTemp = bindIO osCall (\<lambda>_. modifyIO (\<lambda>w. w\<lparr>wTemps := wTemps w - 1\<rparr>))"

text \<open>
  The steps between the creation of the temporary file and the directory sync. The result says
  whether the deferred removal of the temporary file is still to be done.
\<close>

definition linkRecord :: "string \<Rightarrow> record_bytes \<Rightarrow> bool \<Rightarrow> bool io" where
  "linkRecord name bs synced =
     bindIO osCall (\<lambda>_.
     bindIO (readIO (lookupNode name)) (\<lambda>existing.
     case existing of
       Some _ \<Rightarrow> failIO ErrExist
     | None \<Rightarrow>
         bindIO (modifyIO (installNode name (RecordFile bs synced))) (\<lambda>_.
         bindIO (emit (EvInstalled name)) (\<lambda>_.
         bindIO (tryIO removeTemp) (\<lambda>r.
         case r of Inl _ \<Rightarrow> failIO ErrCommitUncertain | Inr _ \<Rightarrow> retIO False)))))"

definition renameRecord :: "string \<Rightarrow> record_bytes \<Rightarrow> bool \<Rightarrow> bool io" where
  "renameRecord name bs synced =
     bindIO osCall (\<lambda>_.
     bindIO (modifyIO (\<lambda>w. (installNode name (RecordFile bs synced) w)\<lparr>wTemps := wTemps w - 1\<rparr>)) (\<lambda>_.
     bindIO (emit (EvInstalled name)) (\<lambda>_. retIO False)))"

definition fileSync :: "bool io" where
  "fileSync = bindIO osCall (\<lambda>_. retIO True)"

text \<open>The temporary file is chmodded, filled, synced and closed; the result is its sync state.\<close>

definition fillTemp :: "bool io" where
  "fillTemp =
     bindIO osCall (\<lambda>_. \<comment> \<open>chmod\<close>
     bindIO osCall (\<lambda>_. \<comment> \<open>copy\<close>
     bindIO fileSync (\<lambda>synced.
     bindIO osCall (\<lambda>_. \<comment> \<open>close\<close>
     retIO synced))))"

definition installTemp :: "string \<Rightarrow> record_bytes \<Rightarrow> bool \<Rightarrow> bool io" where
  "installTemp name bs create =
     bindIO fillTemp (\<lambda>synced.
     if create then linkRecord name bs synced else renameRecord name bs synced)"

definition writeRecordAtomic :: "string \<Rightarrow> record_bytes \<Rightarrow> bool \<Rightarrow> unit io" where
  "writeRecordAtomic name bs create =
     bindIO createTemp (\<lambda>_.
     bindIO (tryIO (installTemp name bs create)) (\<lambda>r.
     case r of
       Inl e \<Rightarrow> bindIO (tryIO removeTemp) (\<lambda>_. failIO e)
     | Inr pending \<Rightarrow>
         bindIO (tryIO directorySync) (\<lambda>d.
         case d of Inl _ \<Rightarrow> failIO ErrCommitUncertain | Inr _ \<Rightarrow> retIO ())))"

definition removeRecordAtomic :: "string \<Rightarrow> unit io" where
  "removeRecordAtomic name =
     bindIO (readIO (lookupNode name)) (\<lambda>existing.
     case existing of
       None \<Rightarrow> failIO ErrNotFound
     | Some _ \<Rightarrow>
         bindIO osCall (\<lambda>_.
         bindIO (modifyIO (removeNode name)) (\<lambda>_.
         bindIO (emit (EvRemoved name)) (\<lambda>_.
         bindIO (tryIO directorySync) (\<lambda>d.
         case d of Inl _ \<Rightarrow> failIO ErrCommitUncertain | Inr _ \<Rightarrow> retIO ())))))"

section \<open>Locked reads and writes\<close>

definition ensureDir :: "unit io" where
  "ensureDir = bindIO osCall (\<lambda>_. osCall)"

text \<open>The unlock is deferred, so it happens on every path out of the body.\<close>

definition underLock :: "string \<Rightarrow> 'a io \<Rightarrow> 'a io" where
  "underLock i body =
     bindIO (emit (EvLocked i)) (\<lambda>_.
     bindIO (tryIO body) (\<lambda>r.
     bindIO (emit (EvUnlocked i)) (\<lambda>_. liftIO r)))"

definition withRecordLock :: "string \<Rightarrow> 'a io \<Rightarrow> 'a io" where
  "withRecordLock i body =
     (if i = [] \<or> \<not> validID i then failIO ErrNotFound
      else
        bindIO ensureDir (\<lambda>_.
        bindIO osCall (\<lambda>_. \<comment> \<open>mkdir of the lock directory\<close>
        bindIO osCall (\<lambda>_. \<comment> \<open>chmod\<close>
        bindIO osCall (\<lambda>_. \<comment> \<open>open of the lock file\<close>
        bindIO osCall (\<lambda>_. \<comment> \<open>chmod\<close>
        bindIO osCall (\<lambda>_. \<comment> \<open>flock\<close>
        underLock i body)))))))"

definition getUnlocked :: "string \<Rightarrow> Session io" where
  "getUnlocked i =
     bindIO osCall (\<lambda>_. \<comment> \<open>lstat\<close>
     bindIO (readIO (lookupNode (recordName i))) (\<lambda>existing.
     case existing of
       None \<Rightarrow> failIO ErrNotFound
     | Some (RecordFile bs _) \<Rightarrow>
         bindIO osCall (\<lambda>_. \<comment> \<open>read\<close>
         liftIO (decodeRecord i bs))
     | Some _ \<Rightarrow> failIO ErrCorruptRecord))"

definition Get :: "string \<Rightarrow> Session io" where
  "Get i = (if i = [] \<or> \<not> validID i then failIO ErrNotFound else getUnlocked i)"

definition sortedNames :: "world \<Rightarrow> (string \<times> node) list" where
  "sortedNames w = map (\<lambda>k. (k, the (map_of (wDir w) k))) (sort (remdups (map fst (wDir w))))"

fun listEntries :: "(string \<times> node) list \<Rightarrow> Session list io" where
  "listEntries [] = retIO []"
| "listEntries ((name, n) # rest) =
     (if n = SubDir \<or> \<not> hasSuffix name ''.json'' then listEntries rest
      else let i = take (length name - 5) name in
        if i = [] \<or> \<not> validID i then failIO ErrCorruptRecord
        else bindIO (tryIO (getUnlocked i)) (\<lambda>r.
          case r of
            Inl e \<Rightarrow> failIO (if e = ErrNotFound \<or> e = ErrCorruptRecord then ErrCorruptRecord else e)
          | Inr s \<Rightarrow> bindIO (listEntries rest) (\<lambda>ss. retIO (s # ss))))"

definition ListSessions :: "Session list io" where
  "ListSessions = bindIO osCall (\<lambda>_. bindIO (readIO sortedNames) listEntries)"

definition writeLocked :: "Session \<Rightarrow> bool \<Rightarrow> Session io" where
  "writeLocked s create =
     bindIO (liftIO (validateRecord s)) (\<lambda>_.
     let s' = s\<lparr>seRecordRevision := seRecordRevision s + 1\<rparr> in
     bindIO (liftIO (encodeRecord s')) (\<lambda>bs.
     bindIO (writeRecordAtomic (recordName (seID s')) bs create) (\<lambda>_. retIO s')))"

definition saveLocked :: "Session \<Rightarrow> unit io" where
  "saveLocked candidate =
     bindIO (tryIO (getUnlocked (seID candidate))) (\<lambda>r.
     case r of
       Inl e \<Rightarrow>
         if e \<noteq> ErrNotFound then failIO e
         else if seRecordRevision candidate \<noteq> 0 then failIO ErrStaleRecord
         else bindIO (tryIO (writeLocked candidate True)) (\<lambda>r.
           case r of
             Inl e \<Rightarrow> failIO (if e = ErrExist then ErrStaleRecord else e)
           | Inr _ \<Rightarrow> retIO ())
     | Inr current \<Rightarrow>
         if seRecordRevision candidate \<noteq> seRecordRevision current then failIO ErrStaleRecord
         else bindIO (writeLocked candidate False) (\<lambda>_. retIO ()))"

definition Save :: "Session \<Rightarrow> unit io" where
  "Save candidate = withRecordLock (seID candidate) (saveLocked candidate)"

text \<open>\<open>RecordTx.Commit\<close>: the result is the transaction's new current session.\<close>

definition Commit :: "Session \<Rightarrow> Session \<Rightarrow> Session io" where
  "Commit current candidate =
     (if seID candidate \<noteq> seID current \<or> seRecordRevision candidate \<noteq> seRecordRevision current
      then failIO ErrStaleRecord
      else writeLocked candidate False)"

text \<open>
  \<open>WithLocked\<close>: the callback gets the freshly read session and returns the transaction's final
  current session.
\<close>

definition WithLocked :: "string \<Rightarrow> (Session \<Rightarrow> Session io) \<Rightarrow> Session io" where
  "WithLocked i fn = withRecordLock i (bindIO (getUnlocked i) fn)"

definition Update :: "string \<Rightarrow> (Session \<Rightarrow> (session_error, Session) res) \<Rightarrow> Session io" where
  "Update i fn =
     WithLocked i (\<lambda>current. bindIO (liftIO (fn current)) (\<lambda>candidate. Commit current candidate))"

section \<open>Creation\<close>

definition newID :: "nat list option \<Rightarrow> string option" where
  "newID entropy = map_option (\<lambda>bs. ''sess-'' @ hexEncode (take 12 bs)) entropy"

definition createdSession :: "string \<Rightarrow> string \<Rightarrow> string \<Rightarrow> string \<Rightarrow> time \<Rightarrow> Session" where
  "createdSession i agent environment workspace now =
     zeroSession\<lparr>seID := i, seAgent := agent, seWorkspace := workspace,
       seEnvironment := environment, seNetwork := ''deny'', seStatus := StatusCreated,
       seCreatedAt := now, seUpdatedAt := now, seRuntimeID := i,
       seStageLayout := StageLayoutSessionID\<rparr>"

definition createLocked :: "Session \<Rightarrow> Session io" where
  "createLocked s =
     bindIO (tryIO (getUnlocked (seID s))) (\<lambda>r.
     case r of
       Inr _ \<Rightarrow> failIO ErrExist
     | Inl e \<Rightarrow> if e = ErrNotFound then writeLocked s True else failIO e)"

text \<open>The retry loop: \<open>k\<close> attempts are left, \<open>entropy\<close> gives the random bytes of each.\<close>

fun createLoop ::
  "nat \<Rightarrow> (nat \<Rightarrow> nat list option) \<Rightarrow> (string \<Rightarrow> Session) \<Rightarrow> Session io" where
  "createLoop 0 entropy mk = failIO ErrIDCollisions"
| "createLoop (Suc k) entropy mk =
     (case newID (entropy (7 - k)) of
        None \<Rightarrow> failIO ErrOS
      | Some i \<Rightarrow>
          bindIO (tryIO (withRecordLock (seID (mk i)) (createLocked (mk i)))) (\<lambda>r.
          if r = Inl ErrExist then createLoop k entropy mk else liftIO r))"

text \<open>
  \<open>Create\<close>; \<open>resolved\<close> is what the workspace package made of the requested path.
\<close>

definition Create ::
  "string \<Rightarrow> string \<Rightarrow> (session_error, string) res \<Rightarrow> time \<Rightarrow> (nat \<Rightarrow> nat list option) \<Rightarrow> Session io" where
  "Create agent environment resolved now entropy =
     bindIO ensureDir (\<lambda>_.
     bindIO (liftIO resolved) (\<lambda>workspace.
     createLoop 8 entropy (\<lambda>i. createdSession i agent environment workspace now)))"

end
