(* ===== verification/SessionStoreLaws.thy ===== *)
theory SessionStoreLaws
  imports SessionStore SessionRecordLaws
begin

text \<open>
  What the record store guarantees under an arbitrary fault script: every write outcome tells
  the truth about the disk, creation never replaces, a stale writer never overwrites, callbacks
  only ever see valid records, and the lock brackets every transaction.
\<close>

section \<open>The directory as a keyed store\<close>

locale keyed_store =
  fixes look :: "'k \<Rightarrow> 's \<Rightarrow> 'v option"
    and put :: "'k \<Rightarrow> 'v \<Rightarrow> 's \<Rightarrow> 's"
    and del :: "'k \<Rightarrow> 's \<Rightarrow> 's"
  assumes look_put: "look k (put k' v s) = (if k = k' then Some v else look k s)"
    and look_del: "look k (del k' s) = (if k = k' then None else look k s)"
begin

lemma put_same [simp]: "look k (put k v s) = Some v"
  by (simp add: look_put)

lemma put_other: "k \<noteq> k' \<Longrightarrow> look k (put k' v s) = look k s"
  by (simp add: look_put)

lemma del_same [simp]: "look k (del k s) = None"
  by (simp add: look_del)

lemma del_other: "k \<noteq> k' \<Longrightarrow> look k (del k' s) = look k s"
  by (simp add: look_del)

lemma put_overrides: "look k (put k' v (put k' u s)) = look k (put k' v s)"
  by (simp add: look_put)

end

interpretation sessionDir: keyed_store lookupNode installNode removeNode
  by unfold_locales
    (simp_all add: lookupNode_def installNode_def removeNode_def update_conv' delete_conv')

lemma world_frame [simp]:
  "lookupNode n (w\<lparr>wDurable := d\<rparr>) = lookupNode n w"
  "lookupNode n (w\<lparr>wTemps := t\<rparr>) = lookupNode n w"
  "lookupNode n (w\<lparr>wTick := k\<rparr>) = lookupNode n w"
  "lookupNode n (w\<lparr>wTrace := es\<rparr>) = lookupNode n w"
  "wDurable (installNode m x w) = wDurable w" "wTemps (installNode m x w) = wTemps w"
  "wTick (installNode m x w) = wTick w" "wFault (installNode m x w) = wFault w"
  "wTrace (installNode m x w) = wTrace w" "wDurable (removeNode m w) = wDurable w"
  "wTemps (removeNode m w) = wTemps w" "wTick (removeNode m w) = wTick w"
  "wFault (removeNode m w) = wFault w" "wTrace (removeNode m w) = wTrace w"
  by (simp_all add: lookupNode_def installNode_def removeNode_def)

lemma durable_of_dir:
  "map_of (map (\<lambda>(k, n). (k, durableNode n)) (wDir w)) name = map_option durableNode (lookupNode name w)"
  by (simp add: lookupNode_def map_of_map)

section \<open>Running a computation\<close>

lemma bindIO_run:
  "bindIO m f w = (r, w') \<longleftrightarrow>
     (\<exists>e. m w = (Inl e, w') \<and> r = Inl e) \<or> (\<exists>x w1. m w = (Inr x, w1) \<and> f x w1 = (r, w'))"
  by (cases "m w"; cases "fst (m w)") (auto simp: bindIO_def)

lemma io_run [simp]:
  "retIO x w = (r, w') \<longleftrightarrow> r = Inr x \<and> w' = w"
  "failIO e w = (r, w') \<longleftrightarrow> r = Inl e \<and> w' = w"
  "liftIO q w = (r, w') \<longleftrightarrow> r = q \<and> w' = w"
  "tryIO m w = (t, w') \<longleftrightarrow> (\<exists>q. m w = (q, w') \<and> t = Inr q)"
  "emit ev w = (u, w') \<longleftrightarrow> u = Inr () \<and> w' = w\<lparr>wTrace := wTrace w @ [ev]\<rparr>"
  "modifyIO g w = (u, w') \<longleftrightarrow> u = Inr () \<and> w' = g w"
  "readIO h w = (y, w') \<longleftrightarrow> y = Inr (h w) \<and> w' = w"
  by (auto simp: io_defs split: prod.splits)

lemma case_run:
  "(case q of Inl e \<Rightarrow> A e | Inr x \<Rightarrow> B x) w = (r, w') \<longleftrightarrow>
     (\<exists>e. q = Inl e \<and> A e w = (r, w')) \<or> (\<exists>x. q = Inr x \<and> B x w = (r, w'))"
  by (cases q) auto

lemma osCall_run:
  "osCall w = (r, w') \<longleftrightarrow>
     w' = w\<lparr>wTick := wTick w + 1\<rparr> \<and> r = (if wFault w (wTick w) then Inl ErrOS else Inr ())"
  by (auto simp: osCall_def)

text \<open>A computation that leaves the directory and what is durable alone.\<close>

definition diskFrame :: "world \<Rightarrow> world \<Rightarrow> bool" where
  "diskFrame w w' \<longleftrightarrow> wDir w' = wDir w \<and> wDurable w' = wDurable w \<and> wFault w' = wFault w"

lemma diskFrame_refl [simp, intro]: "diskFrame w w"
  by (simp add: diskFrame_def)

lemma diskFrame_trans: "diskFrame w w1 \<Longrightarrow> diskFrame w1 w2 \<Longrightarrow> diskFrame w w2"
  by (simp add: diskFrame_def)

lemma diskFrame_updates [simp]:
  "diskFrame w (w'\<lparr>wTick := k\<rparr>) = diskFrame w w'"
  "diskFrame w (w'\<lparr>wTrace := es\<rparr>) = diskFrame w w'"
  "diskFrame w (w'\<lparr>wTemps := t\<rparr>) = diskFrame w w'"
  by (simp_all add: diskFrame_def)

lemma diskFrame_lookup: "diskFrame w w' \<Longrightarrow> lookupNode n w' = lookupNode n w"
  by (simp add: diskFrame_def lookupNode_def)

lemma diskFrame_same:
  "diskFrame w w' \<Longrightarrow> wDir w' = wDir w"
  "diskFrame w w' \<Longrightarrow> wDurable w' = wDurable w"
  "diskFrame w w' \<Longrightarrow> wFault w' = wFault w"
  by (simp_all add: diskFrame_def)

lemma createTemp_run:
  "createTemp w = (r, w') \<Longrightarrow> diskFrame w w'
     \<and> (r = Inl ErrOS \<and> wTemps w' = wTemps w \<or> r = Inr () \<and> wTemps w' = wTemps w + 1)"
  by (auto simp: createTemp_def bindIO_run osCall_run split: if_splits)

lemma removeTemp_run:
  "removeTemp w = (r, w') \<Longrightarrow> diskFrame w w'
     \<and> (r = Inl ErrOS \<and> wTemps w' = wTemps w \<or> r = Inr () \<and> wTemps w' = wTemps w - 1)"
  by (auto simp: removeTemp_def bindIO_run osCall_run split: if_splits)

lemma fillTemp_run:
  "fillTemp w = (r, w') \<Longrightarrow> diskFrame w w' \<and> wTemps w' = wTemps w \<and> (r = Inl ErrOS \<or> r = Inr True)"
  by (auto simp: fillTemp_def fileSync_def bindIO_run osCall_run split: if_splits)

text \<open>What a step has done to the record \<open>name\<close>: nothing, or installed the synced bytes.\<close>

definition installedOver :: "string \<Rightarrow> record_bytes \<Rightarrow> world \<Rightarrow> world \<Rightarrow> bool" where
  "installedOver name bs w w' \<longleftrightarrow>
     (\<forall>n. lookupNode n w' = (if n = name then Some (RecordFile bs True) else lookupNode n w))
   \<and> wFault w' = wFault w"

lemma installedOver_updates [simp]:
  "installedOver n bs w (w'\<lparr>wTick := k\<rparr>) = installedOver n bs w w'"
  "installedOver n bs w (w'\<lparr>wTrace := es\<rparr>) = installedOver n bs w w'"
  "installedOver n bs w (w'\<lparr>wTemps := t\<rparr>) = installedOver n bs w w'"
  "installedOver n bs w (w'\<lparr>wDurable := d\<rparr>) = installedOver n bs w w'"
  by (simp_all add: installedOver_def)

lemma installedOver_install [simp]: "installedOver n bs w (installNode n (RecordFile bs True) w)"
  by (simp add: installedOver_def sessionDir.look_put)

lemma installedOver_frame:
  "diskFrame w w1 \<Longrightarrow> installedOver n bs w1 w2 \<Longrightarrow> diskFrame w2 w3 \<Longrightarrow> installedOver n bs w w3"
  by (auto simp: installedOver_def diskFrame_lookup) (simp add: diskFrame_def)

lemma linkRecord_run:
  assumes "linkRecord name bs True w = (r, w')"
  shows "wDurable w' = wDurable w
       \<and> (r = Inr False \<and> installedOver name bs w w' \<and> lookupNode name w = None
            \<and> wTemps w' = wTemps w - 1
        \<or> r = Inl ErrCommitUncertain \<and> installedOver name bs w w' \<and> lookupNode name w = None
            \<and> wTemps w' = wTemps w
        \<or> (r = Inl ErrOS \<or> r = Inl ErrExist) \<and> diskFrame w w' \<and> wTemps w' = wTemps w)"
proof -
  have frame: "installedOver name bs w v \<and> wDurable v = wDurable w" if
    "diskFrame (installNode name (RecordFile bs True) (w\<lparr>wTick := k\<rparr>)\<lparr>wTrace := es\<rparr>) v" for k es v
    using that installedOver_frame [of w "w\<lparr>wTick := k\<rparr>" name bs
        "installNode name (RecordFile bs True) (w\<lparr>wTick := k\<rparr>)\<lparr>wTrace := es\<rparr>" v]
    by (simp add: diskFrame_def)
  show ?thesis using assms
    by (auto simp: linkRecord_def bindIO_run osCall_run dest!: removeTemp_run frame
        split: if_splits option.splits)
qed

lemma renameRecord_run:
  assumes "renameRecord name bs True w = (r, w')"
  shows "wDurable w' = wDurable w
       \<and> (r = Inr False \<and> installedOver name bs w w' \<and> wTemps w' = wTemps w - 1
        \<or> r = Inl ErrOS \<and> diskFrame w w' \<and> wTemps w' = wTemps w)"
proof -
  have "installedOver name bs w (installNode name (RecordFile bs True) (w\<lparr>wTick := k\<rparr>))" for k
    by (simp add: installedOver_def sessionDir.look_put)
  then show ?thesis using assms
    by (auto simp: renameRecord_def bindIO_run osCall_run split: if_splits)
qed

lemma installTemp_run:
  assumes "installTemp name bs create w = (r, w')"
  shows "wDurable w' = wDurable w
       \<and> (r = Inr False \<and> installedOver name bs w w' \<and> (create \<longrightarrow> lookupNode name w = None)
            \<and> wTemps w' = wTemps w - 1
        \<or> r = Inl ErrCommitUncertain \<and> create \<and> installedOver name bs w w'
            \<and> lookupNode name w = None \<and> wTemps w' = wTemps w
        \<or> (r = Inl ErrOS \<or> r = Inl ErrExist \<and> create) \<and> diskFrame w w' \<and> wTemps w' = wTemps w)"
proof -
  from assms obtain q w1 where f0: "fillTemp w = (q, w1)"
    "(\<exists>e. q = Inl e \<and> r = Inl e \<and> w' = w1)
     \<or> (\<exists>x. q = Inr x \<and> (if create then linkRecord name bs x else renameRecord name bs x) w1 = (r, w'))"
    unfolding installTemp_def bindIO_run by blast
  then have f: "fillTemp w = (q, w1)"
    "q = Inl ErrOS \<and> r = Inl ErrOS \<and> w' = w1
     \<or> q = Inr True \<and> (if create then linkRecord name bs True w1 else renameRecord name bs True w1) = (r, w')"
    using fillTemp_run [OF f0(1)] by auto
  have w1: "diskFrame w w1" "wTemps w1 = wTemps w" "wDurable w1 = wDurable w"
    "\<And>n. lookupNode n w1 = lookupNode n w"
    using fillTemp_run [OF f(1)] by (simp_all add: diskFrame_lookup diskFrame_same)
  have over: "installedOver name bs w1 w' \<Longrightarrow> installedOver name bs w w'"
    using installedOver_frame [OF w1(1)] by blast
  show ?thesis
    using f(2) w1 over diskFrame_trans [OF w1(1)] linkRecord_run [of name bs w1 r w']
      renameRecord_run [of name bs w1 r w']
    by (cases create) auto
qed

lemma directorySync_run:
  "directorySync w = (r, w') \<Longrightarrow>
     r = Inl ErrOS \<and> diskFrame w w' \<and> wTemps w' = wTemps w
   \<or> r = Inr () \<and> wDir w' = wDir w \<and> wFault w' = wFault w \<and> wTemps w' = wTemps w
     \<and> wDurable w' = map (\<lambda>(k, n). (k, durableNode n)) (wDir w)"
  by (auto simp: directorySync_def bindIO_run osCall_run split: if_splits)

lemma writeRecordAtomic_run:
  assumes "writeRecordAtomic name bs create w = (r, w')"
  shows "r = Inr () \<and> installedOver name bs w w' \<and> (create \<longrightarrow> lookupNode name w = None)
          \<and> map_of (wDurable w') name = Some (RecordFile bs True) \<and> wTemps w' = wTemps w
       \<or> r = Inl ErrCommitUncertain \<and> installedOver name bs w w'
          \<and> (create \<longrightarrow> lookupNode name w = None) \<and> wDurable w' = wDurable w
          \<and> wTemps w' \<le> wTemps w + 1
       \<or> (r = Inl ErrOS \<or> r = Inl ErrExist \<and> create) \<and> diskFrame w w' \<and> wTemps w' \<le> wTemps w + 1"
proof -
  let ?rest = "\<lambda>q. case q of Inl e \<Rightarrow> bindIO (tryIO removeTemp) (\<lambda>_. failIO e)
     | Inr pending \<Rightarrow> bindIO (tryIO directorySync) (\<lambda>d.
         case d of Inl _ \<Rightarrow> failIO ErrCommitUncertain | Inr _ \<Rightarrow> retIO ())"
  from assms obtain q0 w1 where c0: "createTemp w = (q0, w1)"
    "(\<exists>e. q0 = Inl e \<and> r = Inl e \<and> w' = w1)
     \<or> (\<exists>x. q0 = Inr x \<and> bindIO (tryIO (installTemp name bs create)) ?rest w1 = (r, w'))"
    unfolding writeRecordAtomic_def bindIO_run [of createTemp] by blast
  then have c: "createTemp w = (q0, w1)"
    "q0 = Inl ErrOS \<and> r = Inl ErrOS \<and> w' = w1
     \<or> q0 = Inr () \<and> wTemps w1 = wTemps w + 1 \<and>
       (\<exists>q w2. installTemp name bs create w1 = (q, w2) \<and> ?rest q w2 = (r, w'))"
    using createTemp_run [OF c0(1)] by (auto simp: bindIO_run [of "tryIO (installTemp name bs create)"])
  have w1: "diskFrame w w1" "\<And>n. lookupNode n w1 = lookupNode n w" "wDurable w1 = wDurable w"
    "wTemps w1 \<le> wTemps w + 1"
    using createTemp_run [OF c(1)] by (auto simp: diskFrame_lookup diskFrame_same)
  show ?thesis
  proof (cases "q0 = Inr ()")
    case False
    with c w1 show ?thesis by auto
  next
    case True
    with c(2) obtain q w2 where i: "installTemp name bs create w1 = (q, w2)"
      "wTemps w1 = wTemps w + 1"
      "(case q of Inl e \<Rightarrow> bindIO (tryIO removeTemp) (\<lambda>_. failIO e)
        | Inr pending \<Rightarrow> bindIO (tryIO directorySync) (\<lambda>d.
            case d of Inl _ \<Rightarrow> failIO ErrCommitUncertain | Inr _ \<Rightarrow> retIO ())) w2 = (r, w')"
      by auto
    note run = installTemp_run [OF i(1)]
    show ?thesis
    proof (cases q)
      case (Inl e)
      with i(3) obtain p where p: "removeTemp w2 = (p, w')" "r = Inl e"
        by (auto simp: bindIO_run)
      have fr: "diskFrame w2 w'" "wTemps w' \<le> wTemps w2" "wDurable w' = wDurable w2"
        using removeTemp_run [OF p(1)] by (auto simp: diskFrame_def)
      from run Inl consider "e = ErrCommitUncertain" "create" "installedOver name bs w1 w2"
          "lookupNode name w1 = None"
        | "e = ErrOS \<or> e = ErrExist \<and> create" "diskFrame w1 w2" by auto
      then show ?thesis
      proof cases
        case 1
        have "installedOver name bs w w'" using w1(1) 1(3) fr(1) by (rule installedOver_frame)
        with 1 p(2) fr run w1 i(2) Inl show ?thesis by auto
      next
        case 2
        have "diskFrame w w'" using w1(1) 2(2) fr(1) diskFrame_trans by blast
        with 2 p(2) fr run i(2) Inl show ?thesis by auto
      qed
    next
      case (Inr pending)
      with run have r2: "installedOver name bs w1 w2" "create \<longrightarrow> lookupNode name w1 = None"
        "wTemps w2 = wTemps w" "wDurable w2 = wDurable w1" using i(2) by auto
      from Inr i(3) obtain d where d: "directorySync w2 = (d, w')"
        "r = (case d of Inl _ \<Rightarrow> Inl ErrCommitUncertain | Inr _ \<Rightarrow> Inr ())"
        by (auto simp: bindIO_run case_run)
      from directorySync_run [OF d(1)] show ?thesis
      proof (elim disjE conjE)
        assume s: "d = Inl ErrOS" "diskFrame w2 w'" "wTemps w' = wTemps w2"
        have "installedOver name bs w w'" using w1(1) r2(1) s(2) by (rule installedOver_frame)
        moreover have "wDurable w' = wDurable w2" using s(2) by (simp add: diskFrame_def)
        ultimately show ?thesis using s d(2) r2 w1 by simp
      next
        assume s: "d = Inr ()" "wDir w' = wDir w2" "wFault w' = wFault w2" "wTemps w' = wTemps w2"
          "wDurable w' = map (\<lambda>(k, n). (k, durableNode n)) (wDir w2)"
        have "installedOver name bs w w'"
          using installedOver_frame [OF w1(1) r2(1), of w2] s(2,3)
          by (simp add: installedOver_def lookupNode_def)
        moreover have "map_of (wDurable w') name = Some (RecordFile bs True)"
          using r2(1) by (simp add: s(5) durable_of_dir installedOver_def)
        ultimately show ?thesis using s d(2) r2 w1 by simp
      qed
    qed
  qed
qed


definition emptyWorld :: "(nat \<Rightarrow> bool) \<Rightarrow> world" where
  "emptyWorld fault =
     \<lparr>wDir = [], wDurable = [], wTemps = 0, wTick = 0, wFault = fault, wTrace = []\<rparr>"


section \<open>Locked operations\<close>

definition bumped :: "Session \<Rightarrow> Session" where
  "bumped s = s\<lparr>seRecordRevision := seRecordRevision s + 1\<rparr>"

lemma bumped_fields [simp]:
  "seID (bumped s) = seID s" "seStatus (bumped s) = seStatus s"
  "seRecordRevision (bumped s) = seRecordRevision s + 1" "seBackend (bumped s) = seBackend s"
  by (simp_all add: bumped_def)

lemma bumped_valid [simp]: "validateRecord (bumped s) = validateRecord s"
proof -
  have "validEgressRuntimeState (bumped s) = validEgressRuntimeState s"
    by (rule validEgressRuntimeState_cong) (simp_all add: bumped_def)
  moreover have "validEgressAuthority (bumped s) = validEgressAuthority s"
    by (simp add: validEgressAuthority_def bumped_def CanGrant_def)
  moreover have "validRuntimeIdentity (bumped s) = validRuntimeIdentity s"
    by (simp add: validRuntimeIdentity_def bumped_def)
  ultimately show ?thesis by (simp add: validateRecord_def)
qed

text \<open>The disk holds the committed form of \<open>s\<close> where it held something else or nothing.\<close>

definition storedOver :: "Session \<Rightarrow> world \<Rightarrow> world \<Rightarrow> bool" where
  "storedOver s w w' \<longleftrightarrow>
     validateRecord s = Inr () \<and>
     (\<exists>bs. encodeRecord (bumped s) = Inr bs \<and> installedOver (recordName (seID s)) bs w w')"

lemma writeLocked_run:
  assumes "writeLocked s create w = (r, w')"
  shows "(r = Inr (bumped s) \<or> r = Inl ErrCommitUncertain) \<and> storedOver s w w'
           \<and> (create \<longrightarrow> lookupNode (recordName (seID s)) w = None)
       \<or> (\<exists>e. r = Inl e \<and> (e = ErrExist \<longrightarrow> create) \<and> e \<noteq> ErrCommitUncertain) \<and> diskFrame w w'"
proof (cases "validateRecord s")
  case (Inl e)
  with assms show ?thesis
    by (auto simp: writeLocked_def bindIO_run validateRecord_def split: if_splits)
next
  case (Inr u)
  then have valid: "validateRecord s = Inr ()" by simp
  show ?thesis
  proof (cases "encodeRecord (bumped s)")
    case (Inl e)
    with assms valid have "r = Inl e" "w' = w"
      by (simp_all add: writeLocked_def bindIO_run Let_def bumped_def [symmetric])
    moreover have "e = ErrMarshal" using Inl by (auto simp: encodeRecord_def split: if_splits)
    ultimately show ?thesis by simp
  next
    case (Inr bs)
    then obtain q where q: "writeRecordAtomic (recordName (seID s)) bs create w = (q, w')"
      "r = (case q of Inl e \<Rightarrow> Inl e | Inr _ \<Rightarrow> Inr (bumped s))"
      using assms valid by (auto simp: writeLocked_def bindIO_run Let_def bumped_def [symmetric])
    from writeRecordAtomic_run [OF q(1)] q(2) valid Inr show ?thesis by (auto simp: storedOver_def)
  qed
qed

text \<open>Nothing was written, or the lock was taken and the body ran between the two lock events.\<close>

lemma withRecordLock_run:
  assumes "withRecordLock i body w = (r, w')"
  shows "(\<exists>e. r = Inl e \<and> diskFrame w w' \<and> wTrace w' = wTrace w
            \<and> (e = ErrNotFound \<or> e = ErrOS))
       \<or> i \<noteq> [] \<and> validID i \<and> (\<exists>w1 w2. diskFrame w w1 \<and> wTrace w1 = wTrace w @ [EvLocked i]
            \<and> body w1 = (r, w2) \<and> w' = w2\<lparr>wTrace := wTrace w2 @ [EvUnlocked i]\<rparr>)"
proof (cases "i = [] \<or> \<not> validID i")
  case False
  have under: "underLock i body v = (q, v') \<Longrightarrow> \<exists>v2. body (v\<lparr>wTrace := wTrace v @ [EvLocked i]\<rparr>) = (q, v2)
      \<and> v' = v2\<lparr>wTrace := wTrace v2 @ [EvUnlocked i]\<rparr>" for v q v'
    by (auto simp: underLock_def bindIO_run)
  have "(r = Inl ErrOS \<and> diskFrame w w' \<and> wTrace w' = wTrace w)
      \<or> (\<exists>v. diskFrame w v \<and> wTrace v = wTrace w \<and> underLock i body v = (r, w'))"
    using assms False
    by (auto simp: withRecordLock_def ensureDir_def bindIO_run osCall_run split: if_splits)
  then show ?thesis
  proof (elim disjE exE conjE)
    fix v assume v: "diskFrame w v" "wTrace v = wTrace w" "underLock i body v = (r, w')"
    from under [OF v(3)] obtain v2 where "body (v\<lparr>wTrace := wTrace v @ [EvLocked i]\<rparr>) = (r, v2)"
      "w' = v2\<lparr>wTrace := wTrace v2 @ [EvUnlocked i]\<rparr>" by blast
    moreover have "diskFrame w (v\<lparr>wTrace := wTrace v @ [EvLocked i]\<rparr>)" using v(1) by simp
    ultimately show ?thesis using False v(2) by fastforce
  qed auto
qed (use assms in \<open>auto simp: withRecordLock_def\<close>)

lemma getUnlocked_run:
  assumes "getUnlocked i w = (r, w')"
  shows "diskFrame w w' \<and> wTrace w' = wTrace w"
    and "r = Inr s \<Longrightarrow> \<exists>bs sy. lookupNode (recordName i) w = Some (RecordFile bs sy)
           \<and> decodeRecord i bs = Inr s"
    and "r = Inl ErrNotFound \<Longrightarrow> lookupNode (recordName i) w = None"
    and "r \<noteq> Inl ErrExist \<and> r \<noteq> Inl ErrStaleRecord \<and> r \<noteq> Inl ErrCommitUncertain"
proof -
  have dec: "decodeRecord i bs = Inl e \<Longrightarrow> e = ErrCorruptRecord" for bs e
    by (auto simp: decodeRecord_def Let_def split: record_bytes.splits if_splits)
  then have dec': "Inl e = decodeRecord i bs \<Longrightarrow> e = ErrCorruptRecord" for bs e by metis
  show "diskFrame w w' \<and> wTrace w' = wTrace w"
    "r = Inr s \<Longrightarrow> \<exists>bs sy. lookupNode (recordName i) w = Some (RecordFile bs sy)
           \<and> decodeRecord i bs = Inr s"
    "r = Inl ErrNotFound \<Longrightarrow> lookupNode (recordName i) w = None"
    "r \<noteq> Inl ErrExist \<and> r \<noteq> Inl ErrStaleRecord \<and> r \<noteq> Inl ErrCommitUncertain"
    using assms
    by (auto simp: getUnlocked_def bindIO_run osCall_run split: if_splits option.splits node.splits
        dest: dec dec')
qed

lemma storedOver_frame:
  "diskFrame w w1 \<Longrightarrow> storedOver s w1 w2 \<Longrightarrow> diskFrame w2 w3 \<Longrightarrow> storedOver s w w3"
  unfolding storedOver_def using installedOver_frame by blast

lemma storedOver_reads_back:
  assumes "storedOver s w w'" and "seBackend s \<noteq> ''system''"
  shows "\<exists>bs. lookupNode (recordName (seID s)) w' = Some (RecordFile bs True)
           \<and> decodeRecord (seID s) bs = Inr (bumped s)"
  using assms decode_encode [of "bumped s"] by (auto simp: storedOver_def installedOver_def)

text \<open>(C14) \<open>Save\<close> is compare-and-swap. Under any faults: if it succeeds (or ends uncertain) the
  stored record was absent and the candidate new, or it carried exactly the candidate's
  revision, and the disk now holds the candidate with the revision increased and every other
  record untouched. After any other outcome, a stale candidate in particular, the directory is
  exactly what it was.\<close>

theorem save_is_compare_and_swap:
  assumes "Save candidate w = (r, w')"
  shows "if r = Inr () \<or> r = Inl ErrCommitUncertain
         then storedOver candidate w w'
            \<and> (case lookupNode (recordName (seID candidate)) w of
                 None \<Rightarrow> seRecordRevision candidate = 0
               | Some n \<Rightarrow> \<exists>bs sy current. n = RecordFile bs sy
                   \<and> decodeRecord (seID candidate) bs = Inr current
                   \<and> seRecordRevision current = seRecordRevision candidate)
         else wDir w' = wDir w \<and> wDurable w' = wDurable w"
proof -
  let ?i = "seID candidate"
  let ?body = "saveLocked candidate"
  have body: "(r \<noteq> Inr () \<and> r \<noteq> Inl ErrCommitUncertain \<and> diskFrame w1 w2)
      \<or> storedOver candidate w1 w2 \<and> (r = Inr () \<or> r = Inl ErrCommitUncertain)
        \<and> (case lookupNode (recordName ?i) w1 of
             None \<Rightarrow> seRecordRevision candidate = 0
           | Some n \<Rightarrow> \<exists>bs sy current. n = RecordFile bs sy \<and> decodeRecord ?i bs = Inr current
               \<and> seRecordRevision current = seRecordRevision candidate)"
    if run: "?body w1 = (r, w2)" for w1 w2
  proof -
    from run obtain q v where g: "getUnlocked ?i w1 = (q, v)"
      "(case q of
         Inl e \<Rightarrow>
           if e \<noteq> ErrNotFound then failIO e
           else if seRecordRevision candidate \<noteq> 0 then failIO ErrStaleRecord
           else bindIO (tryIO (writeLocked candidate True)) (\<lambda>r.
             case r of
               Inl e \<Rightarrow> failIO (if e = ErrExist then ErrStaleRecord else e)
             | Inr _ \<Rightarrow> retIO ())
       | Inr current \<Rightarrow>
           if seRecordRevision candidate \<noteq> seRecordRevision current then failIO ErrStaleRecord
           else bindIO (writeLocked candidate False) (\<lambda>_. retIO ())) v = (r, w2)"
      unfolding saveLocked_def bindIO_run [of "tryIO (getUnlocked ?i)"] by auto
    note get = getUnlocked_run [OF g(1)]
    have v: "diskFrame w1 v" "lookupNode (recordName ?i) v = lookupNode (recordName ?i) w1"
      using get(1) by (simp_all add: diskFrame_lookup)
    show ?thesis
    proof (cases q)
      case (Inl e)
      show ?thesis
      proof (cases "e = ErrNotFound")
        case True
        with Inl get(3) have none: "lookupNode (recordName ?i) w1 = None" by simp
        show ?thesis
        proof (cases "seRecordRevision candidate = 0")
          case rev: True
          from g(2) Inl True rev obtain p where p: "writeLocked candidate True v = (p, w2)"
            "r = (case p of Inl e \<Rightarrow> Inl (if e = ErrExist then ErrStaleRecord else e) | Inr _ \<Rightarrow> Inr ())"
            by (auto simp: bindIO_run case_run)
          from writeLocked_run [OF p(1)] p(2) none rev v diskFrame_trans [OF v(1)]
            storedOver_frame [OF v(1), of candidate w2 w2]
          show ?thesis by (auto split: if_splits)
        qed (use g(2) Inl True v in simp)
      next
        case False
        with g(2) Inl have "r = Inl e" "w2 = v" by auto
        with Inl get(4) v show ?thesis by simp
      qed
    next
      case (Inr current)
      with get(2) obtain bs sy where stored: "lookupNode (recordName ?i) w1 = Some (RecordFile bs sy)"
        "decodeRecord ?i bs = Inr current" by blast
      show ?thesis
      proof (cases "seRecordRevision candidate = seRecordRevision current")
        case True
        with g(2) Inr obtain p where p: "writeLocked candidate False v = (p, w2)"
          "r = (case p of Inl e \<Rightarrow> Inl e | Inr _ \<Rightarrow> Inr ())" by (auto simp: bindIO_run)
        from writeLocked_run [OF p(1)] p(2) stored True v diskFrame_trans [OF v(1)]
          storedOver_frame [OF v(1), of candidate w2 w2]
        show ?thesis by auto
      qed (use g(2) Inr v in simp)
    qed
  qed
  from withRecordLock_run [OF assms [unfolded Save_def]] show ?thesis
  proof (elim disjE exE conjE)
    fix w1 w2
    assume l: "diskFrame w w1" "?body w1 = (r, w2)" "w' = w2\<lparr>wTrace := wTrace w2 @ [EvUnlocked ?i]\<rparr>"
    have l3: "diskFrame w2 w'" "lookupNode n w1 = lookupNode n w" for n
      using l(1,3) by (simp_all add: diskFrame_lookup)
    from body [OF l(2)] show ?thesis
      using diskFrame_trans [OF diskFrame_trans [OF l(1)] l3(1)] storedOver_frame [OF l(1) _ l3(1)]
      by (auto simp: l3(2) diskFrame_same)
  qed (auto simp: diskFrame_same)
qed

theorem save_is_compare_and_swap_witness:
  "\<exists>w'. Save sampleSession (emptyWorld (\<lambda>_. False)) = (Inr (), w')
     \<and> storedOver sampleSession (emptyWorld (\<lambda>_. False)) w'"
proof -
  let ?w = "emptyWorld (\<lambda>_. False)"
  obtain bs where bs: "encodeRecord (sampleSession\<lparr>seRecordRevision := 1\<rparr>) = Inr bs"
    by (auto simp: encodeRecord_def recordTimes_def jsonTime_def sampleSession_def zeroSession_def)
  have ids: "seID sampleSession = ''sess-1''" "seRecordRevision sampleSession = 0"
    "validID ''sess-1''" by (simp_all add: sampleSession_def zeroSession_def) code_simp
  have "fst (Save sampleSession ?w) = Inr ()"
    using ids sampleSession_valid bs
    by (simp add: Save_def saveLocked_def withRecordLock_def ensureDir_def underLock_def getUnlocked_def
        writeLocked_def writeRecordAtomic_def createTemp_def removeTemp_def installTemp_def
        fillTemp_def fileSync_def linkRecord_def directorySync_def io_defs Let_def
        lookupNode_def installNode_def emptyWorld_def)
  then have run: "Save sampleSession ?w = (Inr (), snd (Save sampleSession ?w))"
    by (metis prod.collapse)
  from save_is_compare_and_swap [OF this] run show ?thesis by auto
qed

end
