(* ===== verification/ProtocolAdapter.thy ===== *)
theory ProtocolAdapter
  imports SessionRecord ProtocolRelation "HOL-Library.AList"
begin

text \<open>
  The adapter of \<open>internal/engine/session/protocol.go\<close> (\<open>ProtocolAdapter\<close>): it frames a concrete
  session record around the symbolic states of the reducer. The two Go maps are association
  lists. A method on a pointer receiver returns the updated adapter with its result; a caller
  that gets an error returns it and never looks at the adapter again, so an error carries none.
  Every \<open>fmt.Errorf\<close> of this file is \<open>ErrProtocol\<close>.
\<close>

section \<open>Data\<close>

record protocolConcreteOwner =
  coPid :: int
  coToken :: string

record protocolConcreteGeneration =
  cgGrants :: "EgressGrant list"
  cgGrantRevision :: int
  cgGeneration :: Generation
  cgAppliedRevision :: int
  cgAppliedHash :: string

record ProtocolAdapter =
  paOriginal :: Session
  paBaseline :: ProtocolState
  paOwners :: "(protocol_owner \<times> protocolConcreteOwner) list"
  paGenerations :: "(ProtocolGeneration \<times> protocolConcreteGeneration) list"
  paClaimDetached :: "bool option"

type_synonym 'a adapted = "(session_error, ProtocolAdapter \<times> 'a) res"

definition plainEvent :: "protocol_action \<Rightarrow> ProtocolEvent" where
  "plainEvent action =
     \<lparr>evAction = action, evOutcome = ProtocolNoOutcome, evGrant = 0, evTruth = ProtocolNoTruth\<rparr>"

definition outcomeEvent :: "protocol_action \<Rightarrow> protocol_outcome \<Rightarrow> protocol_truth \<Rightarrow> ProtocolEvent" where
  "outcomeEvent action outcome truth =
     \<lparr>evAction = action, evOutcome = outcome, evGrant = 0, evTruth = truth\<rparr>"

section \<open>Bindings\<close>

definition bindConcreteOwner ::
  "protocol_owner \<Rightarrow> int \<Rightarrow> string \<Rightarrow> bool \<Rightarrow> ProtocolAdapter
   \<Rightarrow> (session_error, ProtocolAdapter) res" where
  "bindConcreteOwner owner pid token requireToken a =
     (if (owner \<noteq> ProtocolOwnerA \<and> owner \<noteq> ProtocolOwnerB) \<or> pid \<le> 0
         \<or> (requireToken \<and> token = []) then Inl ErrProtocol
      else let binding = \<lparr>coPid = pid, coToken = token\<rparr> in
        if (case map_of (paOwners a) owner of None \<Rightarrow> False | Some existing \<Rightarrow> existing \<noteq> binding)
        then Inl ErrProtocol
        else if list_ex (\<lambda>(existingOwner, existing). existingOwner \<noteq> owner \<and> existing = binding)
                  (paOwners a) then Inl ErrProtocol
        else Inr (a\<lparr>paOwners := AList.update owner binding (paOwners a)\<rparr>))"

definition BindOwner ::
  "protocol_owner \<Rightarrow> int \<Rightarrow> string \<Rightarrow> ProtocolAdapter \<Rightarrow> (session_error, ProtocolAdapter) res" where
  "BindOwner owner pid token a = bindConcreteOwner owner pid token True a"

definition BindClaimOwner ::
  "int \<Rightarrow> string \<Rightarrow> bool \<Rightarrow> ProtocolAdapter \<Rightarrow> (session_error, ProtocolAdapter) res" where
  "BindClaimOwner pid token detached a =
     rbind (bindConcreteOwner ProtocolOwnerA pid token False a) (\<lambda>a.
     Inr (a\<lparr>paClaimDetached := Some detached\<rparr>))"

definition BindHandoffOwner ::
  "int \<Rightarrow> string \<Rightarrow> ProtocolAdapter \<Rightarrow> (session_error, ProtocolAdapter) res" where
  "BindHandoffOwner pid token a =
     bindConcreteOwner ProtocolOwnerB pid token False
       (if map_of (paOwners a) ProtocolOwnerA = Some \<lparr>coPid = pid, coToken = token\<rparr>
        then a\<lparr>paOwners := AList.delete ProtocolOwnerA (paOwners a)\<rparr> else a)"

definition samePersistentAuthority :: "Session \<Rightarrow> Session \<Rightarrow> bool" where
  "samePersistentAuthority a b \<longleftrightarrow>
     length (sePersistentEgress a) = length (sePersistentEgress b)
   \<and> list_all2 (=) (sePersistentEgress a) (sePersistentEgress b)"

definition sameProtocolConcreteGeneration ::
  "protocolConcreteGeneration \<Rightarrow> protocolConcreteGeneration \<Rightarrow> bool" where
  "sameProtocolConcreteGeneration a b \<longleftrightarrow>
     cgGrantRevision a = cgGrantRevision b \<and> cgGeneration a = cgGeneration b
   \<and> cgAppliedRevision a = cgAppliedRevision b \<and> cgAppliedHash a = cgAppliedHash b
   \<and> sameGrantList (cgGrants a) (cgGrants b)"

definition concreteBinding :: "Session \<Rightarrow> Generation \<Rightarrow> bool \<Rightarrow> protocolConcreteGeneration" where
  "concreteBinding candidate generation preserveApplied =
     \<lparr>cgGrants = seEgressGrants candidate, cgGrantRevision = seGrantRevision candidate,
      cgGeneration = generation,
      cgAppliedRevision = (if preserveApplied then seAppliedEgressRevision candidate
                           else generationRevision generation),
      cgAppliedHash = (if preserveApplied then seAppliedEgressHash candidate
                       else generationHash generation)\<rparr>"

definition bindGeneration ::
  "ProtocolGeneration \<Rightarrow> Session \<Rightarrow> bool \<Rightarrow> ProtocolAdapter
   \<Rightarrow> (session_error, ProtocolAdapter) res" where
  "bindGeneration symbol0 candidate preserveApplied a =
     (let symbol = normalizeGeneration symbol0 in
      if \<not> genValid symbol \<or> genRevision symbol < 0
         \<or> genRevision symbol > MaxRevision (normalizeProtocolBounds zeroBounds)
         \<or> genAuthority symbol AND NOT (protocolGrantMask zeroBounds) \<noteq> 0 then Inl ErrProtocol
      else if \<not> samePersistentAuthority (paOriginal a) candidate then Inl ErrProtocol
      else case canonicalEgressGeneration candidate (seEgressGrants candidate)
                  (seGrantRevision candidate) of
        None \<Rightarrow> Inl ErrProtocol
      | Some generation \<Rightarrow>
          let binding = concreteBinding candidate generation preserveApplied in
          if (case map_of (paGenerations a) symbol of
                None \<Rightarrow> False
              | Some existing \<Rightarrow> \<not> sameProtocolConcreteGeneration existing binding)
          then Inl ErrProtocol
          else if list_ex (\<lambda>(existingSymbol, existing).
                     existingSymbol \<noteq> symbol \<and> cgGeneration existing = cgGeneration binding)
                    (paGenerations a) then Inl ErrProtocol
          else Inr (a\<lparr>paGenerations := AList.update symbol binding (paGenerations a)\<rparr>))"

definition BindGeneration ::
  "ProtocolGeneration \<Rightarrow> Session \<Rightarrow> ProtocolAdapter \<Rightarrow> (session_error, ProtocolAdapter) res" where
  "BindGeneration symbol candidate a = bindGeneration symbol candidate False a"

section \<open>From a record to a symbolic state\<close>

definition markProtocolStale :: "ProtocolState \<Rightarrow> ProtocolState" where
  "markProtocolStale s =
     s\<lparr>psHealth := ProtocolStale, psMode := ProtocolBlocked, psOperation := ProtocolRecover,
       psEffect := ProtocolNoEffect, psResult := ProtocolFailure\<rparr>"

definition markProtocolCorrupt :: "ProtocolState \<Rightarrow> ProtocolState" where
  "markProtocolCorrupt s =
     s\<lparr>psHealth := ProtocolCorrupt, psMode := ProtocolBlocked, psOperation := ProtocolRecover,
       psEffect := ProtocolNoEffect, psResult := ProtocolFailure\<rparr>"

definition protocolConcreteOwnerShapeStale :: "Session \<Rightarrow> bool" where
  "protocolConcreteOwnerShapeStale s =
     (let hasOwner = sePID s \<noteq> 0 \<or> seProcessToken s \<noteq> [] \<or> seDetached s in
      case seStatus s of
        StatusCreated \<Rightarrow> hasOwner
      | StatusStopped \<Rightarrow> hasOwner
      | StatusRunning \<Rightarrow> sePID s \<le> 0
      | StatusOther _ \<Rightarrow> False)"

text \<open>The fields both branches of \<open>mapConcreteTransition\<close> end with, and their two bindings.\<close>

definition frameTransition ::
  "ProtocolGeneration \<Rightarrow> ProtocolGeneration \<Rightarrow> ProtocolGeneration \<Rightarrow> protocol_direction
   \<Rightarrow> protocol_operation \<Rightarrow> ProtocolState \<Rightarrow> ProtocolState" where
  "frameTransition durable old new direction op s =
     s\<lparr>psDurableAuthority := genAuthority durable, psDurableRevision := genRevision durable,
       psRecordedGeneration := old, psRuntimeGeneration := old, psInspectedGeneration := old,
       psPendingAuthority := genAuthority new, psPendingRevision := genRevision new,
       psDirection := direction, psOperation := op, psEffect := ProtocolApply,
       psResult := ProtocolPending\<rparr>"

definition bindPair ::
  "ProtocolGeneration \<Rightarrow> Session \<Rightarrow> ProtocolGeneration \<Rightarrow> Session \<Rightarrow> ProtocolAdapter
   \<Rightarrow> ProtocolAdapter \<times> bool" where
  "bindPair oldSymbol old newSymbol new a =
     (case bindGeneration oldSymbol old True a of
        Inl _ \<Rightarrow> (a, False)
      | Inr a1 \<Rightarrow>
          (case bindGeneration newSymbol new False a1 of
             Inl _ \<Rightarrow> (a1, False) | Inr a2 \<Rightarrow> (a2, True)))"

text \<open>
  \<open>mapConcreteTransition\<close>; \<open>transition\<close> is what the pointer \<open>sess.egressTransition\<close> refers to:
  every caller has checked that it is not nil.
\<close>

definition mapConcreteTransition ::
  "Session \<Rightarrow> EgressTransition \<Rightarrow> ProtocolAdapter \<Rightarrow> ProtocolState
   \<Rightarrow> ProtocolAdapter \<times> ProtocolState" where
  "mapConcreteTransition s transition a0 state =
     (if \<not> validEgressRuntimeState s then (a0, markProtocolCorrupt state)
      else let a = a0\<lparr>paGenerations := []\<rparr> in
        case tnDirection transition of
          EgressDirectionWiden \<Rightarrow>
            if seEgressGrants s = [] then (a, markProtocolStale state)
            else let old = s\<lparr>seEgressGrants := butlast (seEgressGrants s),
                             seGrantRevision := seAppliedEgressRevision s\<rparr>;
                     oldSymbol = protocolGeneration 0 0;
                     newSymbol = protocolGeneration ProtocolGrantA 1 in
              (case bindPair oldSymbol old newSymbol s a of (a', ok) \<Rightarrow>
                 if \<not> ok then (a', markProtocolStale state)
                 else (a', frameTransition newSymbol oldSymbol newSymbol
                             ProtocolWidenDirection ProtocolWiden state))
        | EgressDirectionNarrow \<Rightarrow>
            let oldSymbol = protocolGeneration ProtocolGrantA 0;
                newSymbol = protocolGeneration 0 1;
                candidate = s\<lparr>seEgressGrants := tnCandidateGrants transition,
                              seGrantRevision := tnCandidateRevision transition\<rparr> in
              (case bindPair oldSymbol s newSymbol candidate a of (a', ok) \<Rightarrow>
                 if \<not> ok then (a', markProtocolStale state)
                 else (a', frameTransition oldSymbol oldSymbol newSymbol
                             ProtocolNarrowDirection ProtocolNarrow state))
        | EgressDirectionOther _ \<Rightarrow> (a, markProtocolStale state))"

definition networkUncertain :: "Session \<Rightarrow> bool" where
  "networkUncertain s \<longleftrightarrow>
     (case seLastFailure s of
        None \<Rightarrow> False
      | Some f \<Rightarrow> flPhase f = ''network'' \<and> flCode f = ''network_authority_uncertain'')"

definition corruptBase :: "ProtocolState \<Rightarrow> ProtocolState" where
  "corruptBase s =
     s\<lparr>psHealth := ProtocolCorrupt, psMode := ProtocolBlocked, psOperation := ProtocolRecover,
       psResult := ProtocolFailure\<rparr>"

text \<open>The \<open>switch sess.Status\<close> of the constructor.\<close>

definition adapterStatus :: "Session \<Rightarrow> ProtocolAdapter \<Rightarrow> ProtocolState \<Rightarrow> ProtocolAdapter \<times> ProtocolState" where
  "adapterStatus s a base =
     (case seStatus s of
        StatusCreated \<Rightarrow> (a, base)
      | StatusRunning \<Rightarrow>
          (let running = base\<lparr>psStatus := ProtocolRunning, psOwners := ProtocolOwnerA,
                              psDetached := seDetached s, psResult := ProtocolSuccess\<rparr> in
           case BindOwner ProtocolOwnerA (sePID s) (seProcessToken s) a of
             Inl _ \<Rightarrow> (a, markProtocolStale running)
           | Inr a' \<Rightarrow> (a', running))
      | StatusStopped \<Rightarrow>
          (a, base\<lparr>psStatus := ProtocolStopped, psMode := ProtocolTerminal,
                   psResult := ProtocolFailure, psRuntimeAuthority := 0,
                   psRuntimeGeneration := protocolNoGeneration,
                   psInspectedGeneration := protocolNoGeneration\<rparr>)
      | StatusOther _ \<Rightarrow> (a, corruptBase base))"

text \<open>The further stages of the constructor: base binding, health checks, transition, marker.\<close>

definition emptyAdapter :: "Session \<Rightarrow> ProtocolAdapter" where
  "emptyAdapter s =
     \<lparr>paOriginal = s, paBaseline = initialProtocolState, paOwners = [], paGenerations = [],
      paClaimDetached = None\<rparr>"

definition adapterBase :: "Session \<Rightarrow> ProtocolAdapter \<times> ProtocolState" where
  "adapterBase s =
     (case bindGeneration (protocolGeneration 0 0) s True (emptyAdapter s) of
        Inl _ \<Rightarrow> (emptyAdapter s, corruptBase initialProtocolState)
      | Inr a \<Rightarrow> (a, initialProtocolState))"

definition adapterHealth :: "Session \<Rightarrow> ProtocolState \<Rightarrow> ProtocolState" where
  "adapterHealth s base =
     (let base = (if protocolConcreteOwnerShapeStale s then markProtocolStale base else base) in
      if \<not> validEgressRuntimeState s then markProtocolCorrupt base else base)"

definition adapterTransition ::
  "Session \<Rightarrow> ProtocolAdapter \<Rightarrow> ProtocolState \<Rightarrow> ProtocolAdapter \<times> ProtocolState" where
  "adapterTransition s a base =
     (case seEgressTransition s of
        None \<Rightarrow> (a, base)
      | Some t \<Rightarrow>
          if psStatus base = ProtocolRunning \<and> psMode base = ProtocolNormal
          then mapConcreteTransition s t a base else (a, base))"

definition adapterMarker :: "Session \<Rightarrow> ProtocolState \<Rightarrow> ProtocolState" where
  "adapterMarker s base =
     (if networkUncertain s
      then base\<lparr>psHealth := ProtocolUncertain, psMode := ProtocolBlocked,
                psOperation := ProtocolRecover, psEffect := ProtocolNoEffect,
                psResult := ProtocolUncertainResult\<rparr>
      else base)"

definition NewProtocolAdapter :: "Session \<Rightarrow> ProtocolAdapter \<times> ProtocolState" where
  "NewProtocolAdapter s =
     (case adapterBase s of (a1, base1) \<Rightarrow>
      case adapterStatus s a1 base1 of (a2, base2) \<Rightarrow>
      case adapterTransition s a2 (adapterHealth s base2) of (a3, base3) \<Rightarrow>
      let base = NormalizeProtocolState (adapterMarker s base3) in
      (a3\<lparr>paBaseline := base\<rparr>, base))"

section \<open>Operation start states\<close>

definition ClaimState :: "ProtocolAdapter \<Rightarrow> (session_error, ProtocolState) res" where
  "ClaimState a =
     (if seStatus (paOriginal a) \<noteq> StatusCreated then Inl ErrProtocol
      else Inr ((NormalizeProtocolState (paBaseline a))
                  \<lparr>psStatus := ProtocolCreated, psOwners := 0, psDetached := False,
                   psHealth := ProtocolHealthy, psMode := ProtocolNormal,
                   psOperation := ProtocolIdle, psEffect := ProtocolNoEffect,
                   psPendingAuthority := 0, psPendingRevision := 0,
                   psDirection := ProtocolNoDirection\<rparr>))"

text \<open>The running owner frame every authorization state ends with.\<close>

definition ownedIdle :: "Session \<Rightarrow> ProtocolState \<Rightarrow> ProtocolState" where
  "ownedIdle s state =
     state\<lparr>psStatus := ProtocolRunning, psOwners := ProtocolOwnerA, psDetached := seDetached s,
           psHealth := ProtocolHealthy, psMode := ProtocolNormal, psOperation := ProtocolIdle,
           psEffect := ProtocolNoEffect, psResult := ProtocolSuccess\<rparr>"

text \<open>Maps a persisted transition when \<open>cond\<close> holds; a corrupt outcome is an error.\<close>

definition recoverTransition :: "bool \<Rightarrow> ProtocolAdapter \<Rightarrow> ProtocolState \<Rightarrow> ProtocolState adapted" where
  "recoverTransition cond a state =
     (case seEgressTransition (paOriginal a) of
        None \<Rightarrow> Inr (a, state)
      | Some t \<Rightarrow>
          if \<not> cond then Inr (a, state)
          else (case mapConcreteTransition (paOriginal a) t a state of (a', state') \<Rightarrow>
            if psHealth state' = ProtocolCorrupt then Inl ErrProtocol else Inr (a', state')))"

definition OwnerActionState :: "ProtocolAdapter \<Rightarrow> ProtocolState adapted" where
  "OwnerActionState a =
     (let s = paOriginal a in
      if seStatus s \<noteq> StatusRunning \<or> sePID s \<le> 0 \<or> \<not> validEgressRuntimeState s
      then Inl ErrProtocol
      else let state = NormalizeProtocolState (paBaseline a) in
        rbind (recoverTransition (psDirection state = ProtocolNoDirection) a state) (\<lambda>(a, state).
        rbind (if seProcessToken s = []
               then bindConcreteOwner ProtocolOwnerA (sePID s) [] False a else Inr a) (\<lambda>a.
        Inr (a, NormalizeProtocolState (ownedIdle s state)))))"

definition SignalAuthorizationState :: "ProtocolAdapter \<Rightarrow> ProtocolState adapted" where
  "SignalAuthorizationState a =
     (let s = paOriginal a in
      if seStatus s = StatusRunning then OwnerActionState a
      else if seStatus s \<noteq> StatusCreated \<or> sePID s \<le> 0 \<or> \<not> validEgressRuntimeState s
      then Inl ErrProtocol
      else
        rbind (ClaimState a) (\<lambda>state.
        rbind (recoverTransition True a state) (\<lambda>(a, state).
        rbind (bindConcreteOwner ProtocolOwnerA (sePID s) (seProcessToken s) False a) (\<lambda>a.
        Inr (a, NormalizeProtocolState (ownedIdle s state))))))"

definition BlockedTeardownState :: "ProtocolAdapter \<Rightarrow> ProtocolState adapted" where
  "BlockedTeardownState a =
     (let s = paOriginal a in
      if (seStatus s \<noteq> StatusCreated \<and> seStatus s \<noteq> StatusRunning)
         \<or> \<not> validEgressRuntimeState s then Inl ErrProtocol
      else
        rbind (if seStatus s = StatusCreated
               then rbind (ClaimState a) (\<lambda>state. Inr (a, state))
               else if sePID s > 0 then OwnerActionState a
               else Inr (a, NormalizeProtocolState (paBaseline a))) (\<lambda>(a, state).
        rbind (recoverTransition (psDirection state = ProtocolNoDirection) a state) (\<lambda>(a, state).
        Inr (a, NormalizeProtocolState
                  (state\<lparr>psHealth := ProtocolStale, psMode := ProtocolBlocked,
                         psOperation := ProtocolRecover, psEffect := ProtocolNoEffect,
                         psResult := ProtocolFailure\<rparr>)))))"

definition LegacyRunningState :: "ProtocolAdapter \<Rightarrow> ProtocolState adapted" where
  "LegacyRunningState a =
     (if seProcessToken (paOriginal a) \<noteq> [] then Inl ErrProtocol else OwnerActionState a)"

text \<open>Frames the historical owner bytes when no owner is bound; no check applies to them.\<close>

definition frameOwner :: "ProtocolAdapter \<Rightarrow> ProtocolAdapter" where
  "frameOwner a =
     (case map_of (paOwners a) ProtocolOwnerA of
        Some _ \<Rightarrow> a
      | None \<Rightarrow>
          a\<lparr>paOwners := AList.update ProtocolOwnerA
               \<lparr>coPid = sePID (paOriginal a), coToken = seProcessToken (paOriginal a)\<rparr>
               (paOwners a)\<rparr>)"

definition EgressTransitionStates :: "ProtocolAdapter \<Rightarrow> (ProtocolState \<times> ProtocolState) adapted" where
  "EgressTransitionStates a =
     (let s = paOriginal a in
      case seEgressTransition s of
        None \<Rightarrow> Inl ErrProtocol
      | Some t \<Rightarrow>
        if seStatus s \<noteq> StatusRunning \<or> \<not> validEgressRuntimeState s \<or> networkUncertain s
        then Inl ErrProtocol
        else let state = (NormalizeProtocolState (paBaseline a))
               \<lparr>psHealth := ProtocolHealthy, psMode := ProtocolNormal,
                psOperation := ProtocolIdle, psEffect := ProtocolNoEffect,
                psResult := ProtocolSuccess\<rparr>;
             (a, state) = mapConcreteTransition s t a state in
          if psHealth state = ProtocolCorrupt \<or> psHealth state = ProtocolStale
             \<or> psDirection state = ProtocolNoDirection then Inl ErrProtocol
          else let a = frameOwner a;
               state = state\<lparr>psStatus := ProtocolRunning, psOwners := ProtocolOwnerA,
                 psDetached := seDetached s, psHealth := ProtocolHealthy,
                 psMode := ProtocolNormal, psResult := ProtocolPending\<rparr> in
            rbind (if psDirection state = ProtocolWidenDirection then Inr ProtocolWiden
                   else if psDirection state = ProtocolNarrowDirection then Inr ProtocolNarrow
                   else Inl ErrProtocol) (\<lambda>op.
            let active = NormalizeProtocolState
                           (state\<lparr>psOperation := op, psEffect := ProtocolApply\<rparr>);
                recovery = active\<lparr>psHealth := ProtocolUncertain, psMode := ProtocolBlocked,
                  psOperation := ProtocolRecover, psEffect := ProtocolInspect,
                  psResult := ProtocolFailure\<rparr> in
            Inr (a, active, NormalizeProtocolState recovery)))"

text \<open>A stable running state whose durable, recorded and runtime generation is one symbol.\<close>

definition rebasedState :: "Session \<Rightarrow> ProtocolGeneration \<Rightarrow> ProtocolState \<Rightarrow> ProtocolState" where
  "rebasedState s symbol state =
     (ownedIdle s state)
       \<lparr>psPendingAuthority := 0, psPendingRevision := 0, psDirection := ProtocolNoDirection,
        psDurableAuthority := genAuthority symbol, psDurableRevision := genRevision symbol,
        psRecordedGeneration := symbol, psRuntimeGeneration := symbol,
        psInspectedGeneration := symbol, psRuntimeAuthority := genAuthority symbol\<rparr>"

definition RebaseGeneration :: "ProtocolGeneration \<Rightarrow> ProtocolAdapter \<Rightarrow> ProtocolState adapted" where
  "RebaseGeneration symbol a =
     (let s = paOriginal a;
          state = NormalizeProtocolState (paBaseline a);
          stable = (psHealth state = ProtocolHealthy \<and> psMode state = ProtocolNormal
                    \<and> psOperation state = ProtocolIdle \<and> psEffect state = ProtocolNoEffect);
          ownerOnlyStale = (psHealth state = ProtocolStale \<and> psMode state = ProtocolBlocked
                    \<and> psOperation state = ProtocolRecover \<and> psEffect state = ProtocolNoEffect) in
      if seStatus s \<noteq> StatusRunning \<or> seEgressTransition s \<noteq> None
         \<or> \<not> validEgressRuntimeState s \<or> (\<not> stable \<and> \<not> ownerOnlyStale) then Inl ErrProtocol
      else
        rbind (bindGeneration symbol s True ((frameOwner a)\<lparr>paGenerations := []\<rparr>)) (\<lambda>a.
        let baseline = NormalizeProtocolState (rebasedState s symbol state) in
        Inr (a\<lparr>paBaseline := baseline\<rparr>, baseline)))"

definition RebaseVerifiedGeneration ::
  "ProtocolGeneration \<Rightarrow> ProtocolAdapter \<Rightarrow> ProtocolState adapted" where
  "RebaseVerifiedGeneration symbol a =
     rbind (RebaseGeneration symbol a) (\<lambda>(a, state).
     rbind (bindGeneration symbol (paOriginal a) False (a\<lparr>paGenerations := []\<rparr>)) (\<lambda>a.
     let baseline = NormalizeProtocolState state in
     Inr (a\<lparr>paBaseline := baseline\<rparr>, baseline)))"

section \<open>From a symbolic state to a record\<close>

definition GenerationCandidate ::
  "ProtocolGeneration \<Rightarrow> ProtocolAdapter \<Rightarrow> (session_error, Session) res" where
  "GenerationCandidate symbol a =
     (case map_of (paGenerations a) (normalizeGeneration symbol) of
        None \<Rightarrow> Inl ErrProtocol
      | Some binding \<Rightarrow>
          Inr ((paOriginal a)\<lparr>seEgressGrants := cgGrants binding,
                              seGrantRevision := cgGrantRevision binding\<rparr>))"

definition GenerationEqual :: "ProtocolGeneration \<Rightarrow> Generation \<Rightarrow> ProtocolAdapter \<Rightarrow> bool" where
  "GenerationEqual symbol concrete a \<longleftrightarrow>
     (case map_of (paGenerations a) (normalizeGeneration symbol) of
        None \<Rightarrow> False | Some binding \<Rightarrow> cgGeneration binding = concrete)"

text \<open>The \<open>switch state.Status\<close> of \<open>projectCandidate\<close>: lifecycle status and owner bytes.\<close>

definition projectOwner :: "ProtocolAdapter \<Rightarrow> ProtocolState \<Rightarrow> (session_error, Session) res" where
  "projectOwner a state =
     (let candidate = paOriginal a in
      case psStatus state of
        ProtocolCreated \<Rightarrow>
          if psOwners state \<noteq> 0 \<or> psDetached state then Inl ErrProtocol
          else let c = candidate\<lparr>seStatus := StatusCreated, sePID := 0, seProcessToken := [],
                                 seDetached := False\<rparr> in
            Inr (if psStatus (paBaseline a) = ProtocolRunning then c\<lparr>seStartedAt := 0\<rparr> else c)
      | ProtocolRunning \<Rightarrow>
          if psOwners state \<noteq> ProtocolOwnerA \<and> psOwners state \<noteq> ProtocolOwnerB
          then Inl ErrProtocol
          else (case map_of (paOwners a) (psOwners state) of
            None \<Rightarrow> Inl ErrProtocol
          | Some owner \<Rightarrow>
              let detached = (case paClaimDetached a of
                    None \<Rightarrow> psDetached state
                  | Some d \<Rightarrow> if seStatus (paOriginal a) = StatusCreated
                                 \<and> psOwners state = ProtocolOwnerA then d
                               else psDetached state) in
              Inr (candidate\<lparr>seStatus := StatusRunning, sePID := coPid owner,
                             seProcessToken := coToken owner, seDetached := detached\<rparr>))
      | ProtocolStopped \<Rightarrow>
          if psOwners state \<noteq> 0 \<or> psDetached state then Inl ErrProtocol
          else Inr (candidate\<lparr>seStatus := StatusStopped, sePID := 0, seProcessToken := [],
                              seDetached := seDetached (paOriginal a)\<rparr>)
      | ProtocolStatusOther _ \<Rightarrow> Inl ErrProtocol)"

definition projectRuntime :: "ProtocolAdapter \<Rightarrow> ProtocolState \<Rightarrow> (session_error, EgressRuntimeState) res" where
  "projectRuntime a state =
     rbind (if genValid (psRecordedGeneration state)
            then (case map_of (paGenerations a) (psRecordedGeneration state) of
                    None \<Rightarrow> Inl ErrProtocol
                  | Some r \<Rightarrow> Inr (cgAppliedRevision r, cgAppliedHash r))
            else Inr (0, [])) (\<lambda>(rev, hash).
     rbind (if psDirection state \<noteq> ProtocolNoDirection
            then (case map_of (paGenerations a) (pendingGeneration state) of
                    None \<Rightarrow> Inl ErrProtocol
                  | Some p \<Rightarrow>
                      Inr (Some \<lparr>tnDirection = (if psDirection state = ProtocolNarrowDirection
                                               then EgressDirectionNarrow
                                               else EgressDirectionWiden),
                                 tnCandidateRevision = cgGrantRevision p,
                                 tnCandidateHash = generationHash (cgGeneration p),
                                 tnCandidateGrants = cgGrants p\<rparr>))
            else Inr None) (\<lambda>transition.
     Inr (if psStatus state = ProtocolStopped
          then \<lparr>ersAppliedRevision = 0, ersAppliedHash = [], ersTransition = None\<rparr>
          else \<lparr>ersAppliedRevision = rev, ersAppliedHash = hash, ersTransition = transition\<rparr>)))"

definition projectCandidate ::
  "ProtocolState \<Rightarrow> bool \<Rightarrow> ProtocolAdapter \<Rightarrow> (session_error, Session) res" where
  "projectCandidate state0 preserveBaseline a =
     (let state = NormalizeProtocolState state0 in
      if preserveBaseline \<and> state = paBaseline a then Inr (paOriginal a)
      else if \<not> protocolStateInDomain zeroBounds state then Inl ErrProtocol
      else if psHealth state \<noteq> ProtocolHealthy \<or> psMode state = ProtocolBlocked
         \<or> psOperation state = ProtocolClaim \<or> psOperation state = ProtocolRecover
         \<or> psOperation state = ProtocolStop \<or> psOperation state = ProtocolTeardown
         \<or> (psEffect state = ProtocolCommit
            \<and> (psOperation state = ProtocolWiden \<or> psOperation state = ProtocolNarrow))
      then Inl ErrProtocol
      else
        rbind (projectOwner a state) (\<lambda>candidate.
        case map_of (paGenerations a) (durableGeneration state) of
          None \<Rightarrow> Inl ErrProtocol
        | Some durable \<Rightarrow>
            rbind (projectRuntime a state) (\<lambda>runtimeState.
            let candidate = SetEgressRuntimeState
                  (candidate\<lparr>seEgressGrants := cgGrants durable,
                             seGrantRevision := cgGrantRevision durable\<rparr>) runtimeState in
            if \<not> validEgressRuntimeState candidate then Inl ErrProtocol else Inr candidate)))"

definition Candidate :: "ProtocolState \<Rightarrow> ProtocolAdapter \<Rightarrow> (session_error, Session) res" where
  "Candidate state a = projectCandidate state True a"

definition oneOwner :: "ProtocolState \<Rightarrow> bool" where
  "oneOwner s \<longleftrightarrow> psOwners s = ProtocolOwnerA \<or> psOwners s = ProtocolOwnerB"

text \<open>The target state of a commit boundary, \<open>None\<close> where the source rejects it.\<close>

definition effectTarget :: "ProtocolState \<Rightarrow> ProtocolState option" where
  "effectTarget s =
     (case psOperation s of
        ProtocolClaim \<Rightarrow>
          if psStatus s \<noteq> ProtocolCreated \<or> psOwners s \<noteq> 0 \<or> psDirection s \<noteq> ProtocolNoDirection
          then None
          else Some (resetProtocol
                 (healProtocol (s\<lparr>psStatus := ProtocolRunning, psOwners := ProtocolOwnerA,
                                  psDetached := False\<rparr>)) ProtocolSuccess)
      | ProtocolWiden \<Rightarrow>
          if psStatus s \<noteq> ProtocolRunning \<or> \<not> oneOwner s
             \<or> psDirection s \<noteq> ProtocolWidenDirection then None
          else if \<not> protocolPendingIsDurable s
          then Some (s\<lparr>psDurableAuthority := psPendingAuthority s,
                       psDurableRevision := psPendingRevision s, psEffect := ProtocolApply\<rparr>)
          else if psInspectedGeneration s \<noteq> pendingGeneration s then None
          else Some (resetProtocol
                 (healProtocol (s\<lparr>psRecordedGeneration := pendingGeneration s\<rparr>)) ProtocolSuccess)
      | ProtocolNarrow \<Rightarrow>
          if psStatus s \<noteq> ProtocolRunning \<or> \<not> oneOwner s
             \<or> psDirection s \<noteq> ProtocolNarrowDirection
             \<or> psInspectedGeneration s \<noteq> pendingGeneration s then None
          else Some (resetProtocol
                 (healProtocol (s\<lparr>psDurableAuthority := psPendingAuthority s,
                                  psDurableRevision := psPendingRevision s,
                                  psRecordedGeneration := pendingGeneration s\<rparr>)) ProtocolSuccess)
      | _ \<Rightarrow> None)"

definition EffectCandidate :: "ProtocolState \<Rightarrow> ProtocolAdapter \<Rightarrow> (session_error, Session) res" where
  "EffectCandidate state0 a =
     (let state = NormalizeProtocolState state0 in
      if \<not> protocolStateInDomain zeroBounds state \<or> psEffect state \<noteq> ProtocolCommit
         \<or> psHealth state \<noteq> ProtocolHealthy \<or> psMode state \<noteq> ProtocolNormal
         \<or> psResult state \<noteq> ProtocolPending then Inl ErrProtocol
      else case effectTarget state of
        None \<Rightarrow> Inl ErrProtocol
      | Some target \<Rightarrow> Candidate target a)"

definition withRecordFrame :: "Session \<Rightarrow> ProtocolAdapter \<Rightarrow> (session_error, ProtocolAdapter) res" where
  "withRecordFrame frame a =
     (let o' = paOriginal a in
      if seID frame \<noteq> seID o' \<or> seStatus frame \<noteq> seStatus o' \<or> sePID frame \<noteq> sePID o'
         \<or> seProcessToken frame \<noteq> seProcessToken o' \<or> seDetached frame \<noteq> seDetached o'
         \<or> \<not> samePersistentAuthority o' frame \<or> \<not> validEgressRuntimeState frame
      then Inl ErrProtocol
      else Inr (a\<lparr>paOriginal := frame\<rparr>))"

definition CandidateFrom ::
  "ProtocolState \<Rightarrow> Session \<Rightarrow> ProtocolAdapter \<Rightarrow> (session_error, Session) res" where
  "CandidateFrom state frame a =
     rbind (withRecordFrame frame a) (projectCandidate state False)"

definition EffectCandidateFrom ::
  "ProtocolState \<Rightarrow> Session \<Rightarrow> ProtocolAdapter \<Rightarrow> (session_error, Session) res" where
  "EffectCandidateFrom state frame a = rbind (withRecordFrame frame a) (EffectCandidate state)"

section \<open>Terminal candidates\<close>

definition TerminalCandidate :: "ProtocolState \<Rightarrow> ProtocolAdapter \<Rightarrow> (session_error, Session) res" where
  "TerminalCandidate state0 a =
     (let state = NormalizeProtocolState state0 in
      if psStatus state \<noteq> ProtocolStopped then Inl ErrProtocol
      else projectCandidate
        (state\<lparr>psOwners := 0, psDetached := False, psRuntimeAuthority := 0,
               psRuntimeGeneration := protocolNoGeneration,
               psInspectedGeneration := protocolNoGeneration,
               psHealth := ProtocolHealthy, psMode := ProtocolTerminal,
               psOperation := ProtocolIdle, psEffect := ProtocolNoEffect,
               psResult := ProtocolFailure, psPendingAuthority := 0,
               psPendingRevision := 0, psDirection := ProtocolNoDirection\<rparr>) False a)"

definition TerminalCandidateWithAuthority ::
  "ProtocolState \<Rightarrow> Session \<Rightarrow> ProtocolAdapter \<Rightarrow> (session_error, Session) res" where
  "TerminalCandidateWithAuthority state authority a =
     (if seID authority \<noteq> seID (paOriginal a)
         \<or> \<not> samePersistentAuthority (paOriginal a) authority
         \<or> \<not> validEgressAuthority authority then Inl ErrProtocol
      else rbind (TerminalCandidate state a) (\<lambda>c.
        let candidate = c\<lparr>seEgressGrants := seEgressGrants authority,
                          seGrantRevision := seGrantRevision authority\<rparr> in
        if \<not> validEgressAuthority candidate \<or> \<not> validEgressRuntimeState candidate
        then Inl ErrProtocol else Inr candidate))"

definition networkFailure :: Failure where
  "networkFailure =
     \<lparr>flVersion = 1, flPhase = ''network'', flCode = ''network_authority_uncertain'',
      flProjection = [], flSource = [], flRequired = True,
      flSummary = ''The session network boundary could not be proven.'',
      flAction = ''Stop the session, then create a fresh run before granting network access.''\<rparr>"

definition setProtocolNetworkUncertainty :: "Session \<Rightarrow> time \<Rightarrow> Session" where
  "setProtocolNetworkUncertainty candidate now =
     SetFailure (candidate\<lparr>seUpdatedAt := now\<rparr>) networkFailure"

definition TeardownUnknownCandidate ::
  "ProtocolState \<Rightarrow> time \<Rightarrow> ProtocolAdapter \<Rightarrow> (session_error, Session) res" where
  "TeardownUnknownCandidate state0 now a =
     (let state = NormalizeProtocolState state0 in
      if psStatus state \<noteq> ProtocolRunning \<or> psHealth state \<noteq> ProtocolUncertain
         \<or> psMode state \<noteq> ProtocolBlocked \<or> psOperation state \<noteq> ProtocolTeardown
         \<or> psEffect state \<noteq> ProtocolTeardownEffect \<or> psResult state \<noteq> ProtocolUncertainResult
      then Inl ErrProtocol
      else Inr (setProtocolNetworkUncertainty (paOriginal a) now))"

definition TeardownProvenCandidate ::
  "ProtocolState \<Rightarrow> Session option \<Rightarrow> time \<Rightarrow> ProtocolAdapter \<Rightarrow> (session_error, Session) res" where
  "TeardownProvenCandidate state restore now a =
     rbind (case restore of
              Some authority \<Rightarrow> TerminalCandidateWithAuthority state authority a
            | None \<Rightarrow> TerminalCandidate state a) (\<lambda>candidate.
     Inr (setProtocolNetworkUncertainty (candidate\<lparr>seStoppedAt := now\<rparr>) now))"

end
