(* ===== verification/ProtocolAdapterLaws.thy ===== *)
theory ProtocolAdapterLaws
  imports ProtocolAdapter SessionRecordLaws ProtocolLaws
begin

text \<open>
  Laws of the protocol adapter: no two symbolic generations ever name one concrete generation,
  a commit boundary proposes exactly the bytes of the reducer's known-new successor, a
  projection frames everything out of the model, and a persisted transition maps to a state
  that projects back to the same record.
\<close>

section \<open>Bindings\<close>

lemma samePersistentAuthority_iff [simp]:
  "samePersistentAuthority a b \<longleftrightarrow> sePersistentEgress a = sePersistentEgress b"
  by (auto simp: samePersistentAuthority_def list_all2_eq [symmetric])

lemma sameProtocolConcreteGeneration_iff [simp]:
  "sameProtocolConcreteGeneration a b \<longleftrightarrow> a = b"
  by (auto simp: sameProtocolConcreteGeneration_def)

definition bindableSymbol :: "ProtocolGeneration \<Rightarrow> bool" where
  "bindableSymbol symbol \<longleftrightarrow>
     genValid symbol \<and> 0 \<le> genRevision symbol
   \<and> genRevision symbol \<le> MaxRevision (normalizeProtocolBounds zeroBounds)
   \<and> genAuthority symbol AND NOT (protocolGrantMask zeroBounds) = 0"

lemma bindable_normal: "bindableSymbol (normalizeGeneration s) \<Longrightarrow> normalizeGeneration s = s"
  by (auto simp: bindableSymbol_def normalizeGeneration_def protocolNoGeneration_def split: if_splits)

lemma bindGeneration_Inr_iff:
  "bindGeneration symbol c keep a = Inr a' \<longleftrightarrow>
     bindableSymbol symbol \<and> sePersistentEgress (paOriginal a) = sePersistentEgress c
   \<and> (\<exists>g. canonicalEgressGeneration c (seEgressGrants c) (seGrantRevision c) = Some g
        \<and> map_of (paGenerations a) symbol \<in> {None, Some (concreteBinding c g keep)}
        \<and> (\<forall>(s, b) \<in> set (paGenerations a). s \<noteq> symbol \<longrightarrow> cgGeneration b \<noteq> g)
        \<and> a' = a\<lparr>paGenerations :=
                   AList.update symbol (concreteBinding c g keep) (paGenerations a)\<rparr>)"
proof (cases "genValid symbol")
  case True
  then have n: "normalizeGeneration symbol = symbol" by (simp add: normalizeGeneration_def)
  have gen: "cgGeneration (concreteBinding c g keep) = g" for g by (simp add: concreteBinding_def)
  show ?thesis
    unfolding bindGeneration_def n Let_def bindableSymbol_def
    by (auto simp: True list_ex_iff gen not_less split: option.splits)
next
  case False
  then show ?thesis
    by (simp add: bindGeneration_def bindableSymbol_def Let_def normalizeGeneration_def
        protocolNoGeneration_def)
qed

lemma bindConcreteOwner_Inr_iff:
  "bindConcreteOwner owner pid token strict a = Inr a' \<longleftrightarrow>
     (owner = ProtocolOwnerA \<or> owner = ProtocolOwnerB) \<and> 0 < pid \<and> (strict \<longrightarrow> token \<noteq> [])
   \<and> map_of (paOwners a) owner \<in> {None, Some \<lparr>coPid = pid, coToken = token\<rparr>}
   \<and> (\<forall>(p, b) \<in> set (paOwners a). p \<noteq> owner \<longrightarrow> b \<noteq> \<lparr>coPid = pid, coToken = token\<rparr>)
   \<and> a' = a\<lparr>paOwners := AList.update owner \<lparr>coPid = pid, coToken = token\<rparr> (paOwners a)\<rparr>"
  unfolding bindConcreteOwner_def Let_def
  by (auto simp: list_ex_iff not_le split: option.splits)

lemma bindConcreteOwner_frame:
  "bindConcreteOwner owner pid token strict a = Inr a' \<Longrightarrow>
     paOriginal a' = paOriginal a \<and> paGenerations a' = paGenerations a \<and> paBaseline a' = paBaseline a
   \<and> paClaimDetached a' = paClaimDetached a"
  by (auto simp: bindConcreteOwner_Inr_iff)

section \<open>Bound generations never alias\<close>

text \<open>
  Every bound symbol is a valid symbol of the finite relation, its concrete generation is the
  canonical one of its grant rows over the immutable base authority, and no concrete generation
  is bound twice.
\<close>

definition genInv :: "ProtocolAdapter \<Rightarrow> bool" where
  "genInv a \<longleftrightarrow>
     distinct (map fst (paGenerations a))
   \<and> (\<forall>(s, b) \<in> set (paGenerations a).
        bindableSymbol s
        \<and> canonicalEgressGeneration (paOriginal a) (cgGrants b) (cgGrantRevision b)
            = Some (cgGeneration b))
   \<and> (\<forall>(s, b) \<in> set (paGenerations a). \<forall>(s', b') \<in> set (paGenerations a).
        cgGeneration b = cgGeneration b' \<longrightarrow> s = s')"

lemma genInv_cong:
  "paGenerations a' = paGenerations a
     \<Longrightarrow> sePersistentEgress (paOriginal a') = sePersistentEgress (paOriginal a)
     \<Longrightarrow> genInv a' = genInv a"
  using canonical_same_session [of "paOriginal a'" "paOriginal a"] by (simp add: genInv_def)

lemma genInv_empty [simp]: "paGenerations a = [] \<Longrightarrow> genInv a"
  by (simp add: genInv_def)

lemma bindGeneration_genInv:
  assumes inv: "genInv a" and bind: "bindGeneration symbol c keep a = Inr a'"
  shows "genInv a' \<and> paOriginal a' = paOriginal a"
proof -
  from bind obtain g where g: "bindableSymbol symbol"
    "sePersistentEgress (paOriginal a) = sePersistentEgress c"
    "canonicalEgressGeneration c (seEgressGrants c) (seGrantRevision c) = Some g"
    "\<And>s b. (s, b) \<in> set (paGenerations a) \<Longrightarrow> s \<noteq> symbol \<Longrightarrow> cgGeneration b \<noteq> g"
    and a': "a' = a\<lparr>paGenerations :=
        AList.update symbol (concreteBinding c g keep) (paGenerations a)\<rparr>"
    unfolding bindGeneration_Inr_iff by blast
  let ?b = "concreteBinding c g keep"
  have d: "distinct (map fst (paGenerations a))" using inv by (simp add: genInv_def)
  have mem: "(s, b) \<in> set (AList.update symbol ?b (paGenerations a)) \<longleftrightarrow>
      (if s = symbol then b = ?b else (s, b) \<in> set (paGenerations a))" for s b
  proof -
    have "(s, b) \<in> set (AList.update symbol ?b (paGenerations a))
        \<longleftrightarrow> map_of (AList.update symbol ?b (paGenerations a)) s = Some b"
      using distinct_update [OF d, of symbol ?b] by simp
    also have "\<dots> \<longleftrightarrow> (if s = symbol then b = ?b else map_of (paGenerations a) s = Some b)"
      unfolding update_conv' by auto
    finally show ?thesis using d by simp
  qed
  have b: "cgGeneration ?b = g" "cgGrants ?b = seEgressGrants c" "cgGrantRevision ?b = seGrantRevision c"
    by (simp_all add: concreteBinding_def)
  have canon: "canonicalEgressGeneration (paOriginal a) = canonicalEgressGeneration c"
    by (rule canonical_same_session) (rule g(2))
  have "genInv a'"
    unfolding genInv_def a'
  proof (intro conjI)
    show "distinct (map fst (paGenerations
        (a\<lparr>paGenerations := AList.update symbol ?b (paGenerations a)\<rparr>)))"
      using distinct_update [OF d] by simp
  next
    show "\<forall>(s, b) \<in> set (paGenerations
        (a\<lparr>paGenerations := AList.update symbol ?b (paGenerations a)\<rparr>)).
        bindableSymbol s \<and> canonicalEgressGeneration (paOriginal
          (a\<lparr>paGenerations := AList.update symbol ?b (paGenerations a)\<rparr>)) (cgGrants b)
          (cgGrantRevision b) = Some (cgGeneration b)"
      using inv g(1,3) by (auto simp: mem genInv_def b canon split: if_splits)
  next
    show "\<forall>(s, b) \<in> set (paGenerations
        (a\<lparr>paGenerations := AList.update symbol ?b (paGenerations a)\<rparr>)).
        \<forall>(s', b') \<in> set (paGenerations
          (a\<lparr>paGenerations := AList.update symbol ?b (paGenerations a)\<rparr>)).
          cgGeneration b = cgGeneration b' \<longrightarrow> s = s'"
      using inv g(4) by (auto simp: mem genInv_def b split: if_splits) blast+
  qed
  then show ?thesis using a' by simp
qed

definition keepsGen :: "ProtocolAdapter \<Rightarrow> ProtocolAdapter \<Rightarrow> bool" where
  "keepsGen a a' \<longleftrightarrow>
     (genInv a \<longrightarrow> genInv a') \<and> sePersistentEgress (paOriginal a') = sePersistentEgress (paOriginal a)"

lemma keepsGen_refl [simp, intro]: "keepsGen a a"
  by (simp add: keepsGen_def)

lemma keepsGen_trans: "keepsGen a b \<Longrightarrow> keepsGen b c \<Longrightarrow> keepsGen a c"
  by (simp add: keepsGen_def)

lemma keepsGen_clear [simp, intro]: "keepsGen a (a\<lparr>paGenerations := []\<rparr>)"
  by (simp add: keepsGen_def)

lemma keepsGen_same:
  "paGenerations a' = paGenerations a
     \<Longrightarrow> sePersistentEgress (paOriginal a') = sePersistentEgress (paOriginal a) \<Longrightarrow> keepsGen a a'"
  using genInv_cong [of a' a] by (simp add: keepsGen_def)

lemma bindGeneration_original: "bindGeneration symbol c keep a = Inr a' \<Longrightarrow> paOriginal a' = paOriginal a"
  unfolding bindGeneration_Inr_iff by (elim conjE exE) simp

lemma keepsGen_bindGeneration: "bindGeneration symbol c keep a = Inr a' \<Longrightarrow> keepsGen a a'"
  unfolding keepsGen_def using bindGeneration_genInv [of a] bindGeneration_original [of symbol c keep a a']
  by simp

lemma keepsGen_bindOwner: "bindConcreteOwner owner pid token strict a = Inr a' \<Longrightarrow> keepsGen a a'"
  by (rule keepsGen_same) (auto dest: bindConcreteOwner_frame)

lemma keepsGen_baseline [simp]: "keepsGen a (b\<lparr>paBaseline := x\<rparr>) = keepsGen a b"
proof -
  have "genInv (b\<lparr>paBaseline := x\<rparr>) = genInv b" by (rule genInv_cong) simp_all
  then show ?thesis by (simp add: keepsGen_def)
qed

lemma keepsGen_via_clear: "keepsGen a b \<Longrightarrow> keepsGen (b\<lparr>paGenerations := []\<rparr>) c \<Longrightarrow> keepsGen a c"
  using keepsGen_clear keepsGen_trans by blast

lemma keepsGen_bindPair:
  assumes "bindPair o1 s1 o2 s2 a = (a', ok)"
  shows "keepsGen a a'"
proof (cases "bindGeneration o1 s1 True a")
  case (Inr a1)
  then show ?thesis using assms keepsGen_bindGeneration [OF Inr] keepsGen_bindGeneration [of o2 s2 False a1]
    keepsGen_trans [of a a1 a'] by (cases "bindGeneration o2 s2 False a1") (auto simp: bindPair_def)
qed (use assms in \<open>simp add: bindPair_def\<close>)

lemma keepsGen_mapTransition: "mapConcreteTransition s t a st = (a', st') \<Longrightarrow> keepsGen a a'"
  by (auto simp: mapConcreteTransition_def Let_def split: if_splits transition_direction.splits prod.splits
      intro: keepsGen_trans [OF keepsGen_clear] keepsGen_bindPair)

lemma keepsGen_recover: "recoverTransition c a st = Inr (a', st') \<Longrightarrow> keepsGen a a'"
  by (auto simp: recoverTransition_def split: option.splits if_splits prod.splits
      intro: keepsGen_mapTransition)

lemma keepsGen_frameOwner [simp, intro]: "keepsGen a (frameOwner a)"
  by (rule keepsGen_same) (auto simp: frameOwner_def split: option.splits)

lemma keepsGen_OwnerActionState: "OwnerActionState a = Inr (a', st) \<Longrightarrow> keepsGen a a'"
  by (auto simp: OwnerActionState_def Let_def split: if_splits
      intro: keepsGen_trans keepsGen_recover keepsGen_bindOwner)

lemma keepsGen_SignalAuthorizationState: "SignalAuthorizationState a = Inr (a', st) \<Longrightarrow> keepsGen a a'"
  by (auto simp: SignalAuthorizationState_def Let_def split: if_splits
      intro: keepsGen_OwnerActionState keepsGen_trans keepsGen_recover keepsGen_bindOwner)

lemma keepsGen_BlockedTeardownState:
  assumes "BlockedTeardownState a = Inr (a', st)"
  shows "keepsGen a a'"
proof -
  from assms obtain b st1 where b:
    "(if seStatus (paOriginal a) = StatusCreated then rbind (ClaimState a) (\<lambda>state. Inr (a, state))
      else if sePID (paOriginal a) > 0 then OwnerActionState a
      else Inr (a, NormalizeProtocolState (paBaseline a))) = Inr (b, st1)"
    "\<exists>st2. recoverTransition (psDirection st1 = ProtocolNoDirection) b st1 = Inr (a', st2)"
    unfolding BlockedTeardownState_def Let_def by (auto simp only: rbind_Inr_iff split: if_splits) auto
  from b(1) have "keepsGen a b"
    by (auto split: if_splits intro: keepsGen_OwnerActionState)
  with b(2) show ?thesis by (blast intro: keepsGen_trans keepsGen_recover)
qed

lemma keepsGen_EgressTransitionStates:
  assumes "EgressTransitionStates a = Inr (a', st)"
  shows "keepsGen a a'"
proof -
  from assms obtain s t st0 b st1 where "mapConcreteTransition s t a st0 = (b, st1)" "a' = frameOwner b"
    unfolding EgressTransitionStates_def Let_def
    by (auto simp: Let_def split: option.splits if_splits prod.splits)
  then show ?thesis using keepsGen_trans keepsGen_mapTransition keepsGen_frameOwner by blast
qed

lemma keepsGen_RebaseGeneration:
  assumes "RebaseGeneration symbol a = Inr (a', st)"
  shows "keepsGen a a'"
proof -
  from assms obtain c b where b: "bindGeneration symbol c True ((frameOwner a)\<lparr>paGenerations := []\<rparr>) = Inr b"
    "a' = b\<lparr>paBaseline := st\<rparr>"
    unfolding RebaseGeneration_def Let_def by (auto split: if_splits)
  have "keepsGen a b" using keepsGen_frameOwner keepsGen_bindGeneration [OF b(1)] by (rule keepsGen_via_clear)
  with b(2) show ?thesis by simp
qed

lemma keepsGen_RebaseVerifiedGeneration:
  assumes "RebaseVerifiedGeneration symbol a = Inr (a', st)"
  shows "keepsGen a a'"
proof -
  from assms obtain c st1 b where b: "RebaseGeneration symbol a = Inr (c, st1)"
    "bindGeneration symbol (paOriginal c) False (c\<lparr>paGenerations := []\<rparr>) = Inr b"
    "a' = b\<lparr>paBaseline := st\<rparr>"
    unfolding RebaseVerifiedGeneration_def Let_def by auto
  have "keepsGen a b" using keepsGen_RebaseGeneration [OF b(1)] keepsGen_bindGeneration [OF b(2)]
    by (rule keepsGen_via_clear)
  with b(3) show ?thesis by simp
qed

lemma adapterStatus_frame:
  assumes "adapterStatus s a base = (a', base')"
  shows "paGenerations a' = paGenerations a \<and> paOriginal a' = paOriginal a"
proof (cases "seStatus s = StatusRunning")
  case True
  show ?thesis
  proof (cases "bindConcreteOwner ProtocolOwnerA (sePID s) (seProcessToken s) True a")
    case (Inr b)
    with True assms bindConcreteOwner_frame [OF Inr] show ?thesis
      by (simp add: adapterStatus_def BindOwner_def Let_def)
  qed (use True assms in \<open>simp add: adapterStatus_def BindOwner_def Let_def\<close>)
qed (use assms in \<open>auto simp: adapterStatus_def split: session_status.splits\<close>)

lemma NewProtocolAdapter_genInv:
  "genInv (fst (NewProtocolAdapter s))
     \<and> sePersistentEgress (paOriginal (fst (NewProtocolAdapter s))) = sePersistentEgress s"
proof -
  obtain a1 base1 where a1: "adapterBase s = (a1, base1)" by fastforce
  obtain a2 base2 where a2: "adapterStatus s a1 base1 = (a2, base2)" by fastforce
  obtain a3 base3 where a3: "adapterTransition s a2 (adapterHealth s base2) = (a3, base3)" by fastforce
  have 1: "keepsGen (emptyAdapter s) a1"
    using a1 by (auto simp: adapterBase_def split: sum.splits intro: keepsGen_bindGeneration)
  have 2: "keepsGen a1 a2" by (rule keepsGen_same) (use adapterStatus_frame [OF a2] in simp_all)
  have 3: "keepsGen a2 a3"
    using a3 by (auto simp: adapterTransition_def split: option.splits if_splits
        intro: keepsGen_mapTransition)
  have "keepsGen (emptyAdapter s) a3" using 1 2 3 keepsGen_trans by blast
  then have "keepsGen (emptyAdapter s) (fst (NewProtocolAdapter s))"
    by (simp add: NewProtocolAdapter_def a1 a2 a3 Let_def)
  then show ?thesis by (simp add: keepsGen_def emptyAdapter_def)
qed

text \<open>Every method that may change an adapter, as a step.\<close>

datatype adapter_method =
    MBindOwner | MBindClaimOwner | MBindHandoffOwner | MBindGeneration | MOwnerAction
  | MSignalAuthorization | MBlockedTeardown | MLegacyRunning | MEgressTransition
  | MRebase | MRebaseVerified | MRecordFrame

inductive adapter_step :: "ProtocolAdapter \<Rightarrow> adapter_method \<Rightarrow> ProtocolAdapter \<Rightarrow> bool" where
  "BindOwner owner pid token a = Inr a' \<Longrightarrow> adapter_step a MBindOwner a'"
| "BindClaimOwner pid token detached a = Inr a' \<Longrightarrow> adapter_step a MBindClaimOwner a'"
| "BindHandoffOwner pid token a = Inr a' \<Longrightarrow> adapter_step a MBindHandoffOwner a'"
| "BindGeneration symbol c a = Inr a' \<Longrightarrow> adapter_step a MBindGeneration a'"
| "OwnerActionState a = Inr (a', st) \<Longrightarrow> adapter_step a MOwnerAction a'"
| "SignalAuthorizationState a = Inr (a', st) \<Longrightarrow> adapter_step a MSignalAuthorization a'"
| "BlockedTeardownState a = Inr (a', st) \<Longrightarrow> adapter_step a MBlockedTeardown a'"
| "LegacyRunningState a = Inr (a', st) \<Longrightarrow> adapter_step a MLegacyRunning a'"
| "EgressTransitionStates a = Inr (a', sts) \<Longrightarrow> adapter_step a MEgressTransition a'"
| "RebaseGeneration symbol a = Inr (a', st) \<Longrightarrow> adapter_step a MRebase a'"
| "RebaseVerifiedGeneration symbol a = Inr (a', st) \<Longrightarrow> adapter_step a MRebaseVerified a'"
| "withRecordFrame frame a = Inr a' \<Longrightarrow> adapter_step a MRecordFrame a'"

inductive_cases adapter_stepE: "adapter_step a m a'"

lemma keepsGen_BindHandoffOwner:
  assumes "BindHandoffOwner pid token a = Inr a'"
  shows "keepsGen a a'"
proof -
  let ?b = "if map_of (paOwners a) ProtocolOwnerA = Some \<lparr>coPid = pid, coToken = token\<rparr>
        then a\<lparr>paOwners := AList.delete ProtocolOwnerA (paOwners a)\<rparr> else a"
  have "keepsGen a ?b" by (rule keepsGen_same) simp_all
  moreover have "keepsGen ?b a'"
    using assms unfolding BindHandoffOwner_def by (rule keepsGen_bindOwner)
  ultimately show ?thesis by (rule keepsGen_trans)
qed

lemma keepsGen_BindClaimOwner:
  assumes "BindClaimOwner pid token detached a = Inr a'"
  shows "keepsGen a a'"
proof -
  from assms obtain b where b: "bindConcreteOwner ProtocolOwnerA pid token False a = Inr b"
    "a' = b\<lparr>paClaimDetached := Some detached\<rparr>" by (auto simp: BindClaimOwner_def)
  from b(1) show ?thesis unfolding b(2)
    by (intro keepsGen_trans [OF keepsGen_bindOwner keepsGen_same]) simp_all
qed

lemma keepsGen_withRecordFrame: "withRecordFrame frame a = Inr a' \<Longrightarrow> keepsGen a a'"
  by (rule keepsGen_same) (auto simp: withRecordFrame_def Let_def split: if_splits)

lemma adapter_step_keepsGen: "adapter_step a m a' \<Longrightarrow> keepsGen a a'"
  by (erule adapter_stepE)
    (auto simp: BindOwner_def BindGeneration_def LegacyRunningState_def
      intro: keepsGen_bindOwner keepsGen_BindClaimOwner keepsGen_BindHandoffOwner
        keepsGen_bindGeneration keepsGen_OwnerActionState keepsGen_SignalAuthorizationState
        keepsGen_BlockedTeardownState keepsGen_EgressTransitionStates keepsGen_RebaseGeneration
        keepsGen_RebaseVerifiedGeneration keepsGen_withRecordFrame split: if_splits)

definition adapterStart :: "ProtocolAdapter \<Rightarrow> bool" where
  "adapterStart a \<longleftrightarrow> (\<exists>s. a = fst (NewProtocolAdapter s))"

abbreviation adapterReach :: "ProtocolAdapter \<Rightarrow> bool" where
  "adapterReach \<equiv> reach adapterStart adapter_step"

interpretation adapterGen: invariant_system adapterStart adapter_step genInv
proof unfold_locales
  show "adapterStart a \<Longrightarrow> genInv a" for a
    using NewProtocolAdapter_genInv by (auto simp: adapterStart_def)
  show "genInv a \<Longrightarrow> adapter_step a m a' \<Longrightarrow> genInv a'" for a m a'
    using adapter_step_keepsGen by (auto simp: keepsGen_def)
qed

text \<open>(C15) A positive inspection names one generation: whatever methods an adapter went through,
  a concrete revision and hash are equal to at most one bound symbol, and they are the canonical
  generation of exactly the grant rows that symbol's candidate would persist.\<close>

theorem inspected_generation_is_unambiguous:
  assumes "adapterReach a" and "GenerationEqual symbol g a"
  shows "(\<exists>c. GenerationCandidate symbol a = Inr c
            \<and> canonicalEgressGeneration c (seEgressGrants c) (seGrantRevision c) = Some g)
       \<and> (GenerationEqual other g a \<longrightarrow> normalizeGeneration other = normalizeGeneration symbol)"
proof -
  note inv = adapterGen.inv_reach [OF assms(1)]
  have mem: "GenerationEqual x g a \<Longrightarrow>
      \<exists>b. (normalizeGeneration x, b) \<in> set (paGenerations a) \<and> cgGeneration b = g
        \<and> map_of (paGenerations a) (normalizeGeneration x) = Some b" for x
    by (auto simp: GenerationEqual_def split: option.splits dest: map_of_SomeD)
  from mem [OF assms(2)] obtain b where b: "(normalizeGeneration symbol, b) \<in> set (paGenerations a)"
    "cgGeneration b = g" "map_of (paGenerations a) (normalizeGeneration symbol) = Some b" by blast
  let ?c = "(paOriginal a)\<lparr>seEgressGrants := cgGrants b, seGrantRevision := cgGrantRevision b\<rparr>"
  have "canonicalEgressGeneration ?c = canonicalEgressGeneration (paOriginal a)"
    by (rule canonical_same_session) simp
  then have "canonicalEgressGeneration ?c (seEgressGrants ?c) (seGrantRevision ?c) = Some g"
    using inv b(1,2) by (auto simp: genInv_def)
  moreover have "GenerationCandidate symbol a = Inr ?c" by (simp add: GenerationCandidate_def b(3))
  moreover have "normalizeGeneration other = normalizeGeneration symbol" if "GenerationEqual other g a"
    using mem [OF that] b(1,2) inv by (fastforce simp: genInv_def)
  ultimately show ?thesis by blast
qed

section \<open>The state an adapter gives a valid record\<close>

lemma bindable_symbols [simp]:
  "bindableSymbol (protocolGeneration 0 0)" "bindableSymbol (protocolGeneration ProtocolGrantA 0)"
  "bindableSymbol (protocolGeneration 0 1)" "bindableSymbol (protocolGeneration ProtocolGrantA 1)"
  by code_simp+

lemma zeroBounds_domain [simp]:
  "MaxRevision (normalizeProtocolBounds zeroBounds) = 2" "wsub ProtocolGrantA (protocolGrantMask zeroBounds)"
  by code_simp+

lemma grantA_nonzero [simp]: "ProtocolGrantA \<noteq> 0" "(0 :: protocol_grant) \<noteq> ProtocolGrantA"
  by (simp_all add: ProtocolGrantA_def)

lemma owner_word_simps [simp]:
  "ProtocolOwnerA \<noteq> 0" "ProtocolOwnerB \<noteq> 0" "ProtocolOwnerA \<noteq> ProtocolOwnerB"
  "ProtocolOwnerB \<noteq> ProtocolOwnerA"
  "wsub ProtocolOwnerA (ProtocolOwnerA OR ProtocolOwnerB)" "wsub ProtocolOwnerB (ProtocolOwnerA OR ProtocolOwnerB)"
  by (simp_all add: protocol_mask_defs wsub_def)

definition transitionOf :: "protocol_direction \<Rightarrow> protocolConcreteGeneration \<Rightarrow> EgressTransition" where
  "transitionOf d p =
     \<lparr>tnDirection = (if d = ProtocolNarrowDirection then EgressDirectionNarrow else EgressDirectionWiden),
      tnCandidateRevision = cgGrantRevision p, tnCandidateHash = generationHash (cgGeneration p),
      tnCandidateGrants = cgGrants p\<rparr>"

text \<open>
  A state frames the adapter's record: its durable symbol is bound to the record's grant rows,
  its recorded symbol to the applied revision and hash, and a direction to the persisted marker.
\<close>

definition framesRecord :: "ProtocolAdapter \<Rightarrow> ProtocolState \<Rightarrow> bool" where
  "framesRecord a st \<longleftrightarrow>
     protocolStateInDomain zeroBounds st
   \<and> (\<exists>b. map_of (paGenerations a) (durableGeneration st) = Some b
        \<and> cgGrants b = seEgressGrants (paOriginal a)
        \<and> cgGrantRevision b = seGrantRevision (paOriginal a))
   \<and> (\<exists>b. map_of (paGenerations a) (psRecordedGeneration st) = Some b
        \<and> genValid (psRecordedGeneration st)
        \<and> cgAppliedRevision b = seAppliedEgressRevision (paOriginal a)
        \<and> cgAppliedHash b = seAppliedEgressHash (paOriginal a))
   \<and> (psDirection st \<noteq> ProtocolNoDirection \<longrightarrow>
        (\<exists>p. map_of (paGenerations a) (pendingGeneration st) = Some p
           \<and> seEgressTransition (paOriginal a) = Some (transitionOf (psDirection st) p)))"

definition sameGenerations :: "ProtocolState \<Rightarrow> ProtocolState \<Rightarrow> bool" where
  "sameGenerations s t \<longleftrightarrow>
     psDurableAuthority s = psDurableAuthority t \<and> psDurableRevision s = psDurableRevision t
   \<and> psRecordedGeneration s = psRecordedGeneration t \<and> psDirection s = psDirection t
   \<and> psPendingAuthority s = psPendingAuthority t \<and> psPendingRevision s = psPendingRevision t"

lemma framesRecord_cong:
  assumes "framesRecord a st" and "paGenerations a' = paGenerations a" and "paOriginal a' = paOriginal a"
    and "sameGenerations st st'" and "protocolStateInDomain zeroBounds st'"
  shows "framesRecord a' st'"
proof -
  have "durableGeneration st' = durableGeneration st" "pendingGeneration st' = pendingGeneration st"
    using assms(4) by (simp_all add: sameGenerations_def durableGeneration_def pendingGeneration_def)
  then show ?thesis using assms by (simp add: framesRecord_def sameGenerations_def)
qed

lemma validRuntime_canonical:
  "validEgressRuntimeState s \<Longrightarrow>
     \<exists>g. canonicalEgressGeneration s (seEgressGrants s) (seGrantRevision s) = Some g"
  by (auto simp: validEgressRuntimeState_def split: if_splits option.splits)

lemma concreteBinding_fields [simp]:
  "cgGrants (concreteBinding s g k) = seEgressGrants s"
  "cgGrantRevision (concreteBinding s g k) = seGrantRevision s"
  "cgGeneration (concreteBinding s g k) = g"
  "cgAppliedRevision (concreteBinding s g True) = seAppliedEgressRevision s"
  "cgAppliedHash (concreteBinding s g True) = seAppliedEgressHash s"
  by (simp_all add: concreteBinding_def)

lemma adapterBase_valid:
  assumes "validEgressRuntimeState s"
  shows "\<exists>g. adapterBase s =
    ((emptyAdapter s)\<lparr>paGenerations := [(protocolGeneration 0 0, concreteBinding s g True)]\<rparr>,
     initialProtocolState)"
proof -
  from validRuntime_canonical [OF assms] obtain g where
    "canonicalEgressGeneration s (seEgressGrants s) (seGrantRevision s) = Some g" by blast
  then have "bindGeneration (protocolGeneration 0 0) s True (emptyAdapter s)
      = Inr ((emptyAdapter s)\<lparr>paGenerations := [(protocolGeneration 0 0, concreteBinding s g True)]\<rparr>)"
    unfolding bindGeneration_Inr_iff by (simp add: emptyAdapter_def)
  then show ?thesis by (auto simp: adapterBase_def)
qed

lemma bindPair_fresh:
  assumes "canonicalEgressGeneration s (seEgressGrants s) (seGrantRevision s) = Some g"
    and "canonicalEgressGeneration t (seEgressGrants t) (seGrantRevision t) = Some h"
    and "sePersistentEgress (paOriginal a) = sePersistentEgress s"
    and "sePersistentEgress (paOriginal a) = sePersistentEgress t"
    and "generationRevision g \<noteq> generationRevision h"
    and "bindableSymbol x" and "bindableSymbol y" and "x \<noteq> y" and "paGenerations a = []"
  shows "bindPair x s y t a =
    (a\<lparr>paGenerations := [(x, concreteBinding s g True), (y, concreteBinding t h False)]\<rparr>, True)"
proof -
  have "bindGeneration x s True a = Inr (a\<lparr>paGenerations := [(x, concreteBinding s g True)]\<rparr>)"
    unfolding bindGeneration_Inr_iff using assms by simp
  moreover have "bindGeneration y t False (a\<lparr>paGenerations := [(x, concreteBinding s g True)]\<rparr>)
      = Inr (a\<lparr>paGenerations := [(x, concreteBinding s g True), (y, concreteBinding t h False)]\<rparr>)"
    unfolding bindGeneration_Inr_iff using assms by auto
  ultimately show ?thesis by (simp add: bindPair_def)
qed

text \<open>The revisions of a valid marker differ: adding one to a signed integer never keeps it.\<close>

lemma wrap_int_succ: "wrap_int (n + 1) \<noteq> n"
proof
  assume "wrap_int (n + 1) = n"
  then have "(n + 1 + 2 ^ 63) mod 2 ^ 64 = n + 2 ^ 63" by (simp add: wrap_int_def)
  then have "(n + 1 + 2 ^ 63) mod 2 ^ 64 = (n + 2 ^ 63) mod 2 ^ 64"
    by (metis mod_mod_trivial)
  then have "(2::int) ^ 64 dvd (n + 1 + 2 ^ 63) - (n + 2 ^ 63)" by (rule mod_eq_dvd_iff [THEN iffD1])
  then have "(2::int) ^ 64 dvd 1" by simp
  then show False by simp
qed

text \<open>What the mapping of a valid marker does to the symbolic state: one of two frames.\<close>

definition transitionFrame :: "transition_direction \<Rightarrow> ProtocolState \<Rightarrow> ProtocolState" where
  "transitionFrame d st =
     (if d = EgressDirectionWiden
      then frameTransition (protocolGeneration ProtocolGrantA 1) (protocolGeneration 0 0)
             (protocolGeneration ProtocolGrantA 1) ProtocolWidenDirection ProtocolWiden st
      else frameTransition (protocolGeneration ProtocolGrantA 0) (protocolGeneration ProtocolGrantA 0)
             (protocolGeneration 0 1) ProtocolNarrowDirection ProtocolNarrow st)"

lemma protocolGeneration_select [simp]:
  "genAuthority (protocolGeneration x r) = x" "genRevision (protocolGeneration x r) = r"
  "genValid (protocolGeneration x r)"
  by (simp_all add: protocolGeneration_def)

lemma mapConcreteTransition_valid:
  assumes v: "validEgressRuntimeState s" and t: "seEgressTransition s = Some t"
    and o: "paOriginal a = s"
  shows "\<exists>gens. mapConcreteTransition s t a st = (a\<lparr>paGenerations := gens\<rparr>, transitionFrame (tnDirection t) st)
     \<and> (tnDirection t = EgressDirectionWiden \<or> tnDirection t = EgressDirectionNarrow)
     \<and> (\<forall>st'. sameGenerations (transitionFrame (tnDirection t) st) st'
          \<longrightarrow> protocolStateInDomain zeroBounds st' \<longrightarrow> framesRecord (a\<lparr>paGenerations := gens\<rparr>) st')"
proof -
  from v t obtain durable cand where c:
    "canonicalEgressGeneration s (seEgressGrants s) (seGrantRevision s) = Some durable"
    "canonicalEgressGeneration s (tnCandidateGrants t) (tnCandidateRevision t) = Some cand"
    "tnCandidateHash t = generationHash cand"
    "case tnDirection t of EgressDirectionWiden \<Rightarrow> validWidenTransition s t durable cand
       | EgressDirectionNarrow \<Rightarrow> validNarrowTransition s t durable | _ \<Rightarrow> False"
    by (auto simp: validEgressRuntimeState_def split: if_splits option.splits)
  have d: "durableGeneration st' = protocolGeneration (psDurableAuthority st') (psDurableRevision st')"
    "pendingGeneration st' = protocolGeneration (psPendingAuthority st') (psPendingRevision st')" for st'
    by (simp_all add: durableGeneration_def pendingGeneration_def)
  show ?thesis
  proof (cases "tnDirection t")
    case EgressDirectionWiden
    with c(4) obtain old where w: "tnCandidateRevision t = seGrantRevision s"
      "wrap_int (seAppliedEgressRevision s + 1) = seGrantRevision s" "tnCandidateGrants t = seEgressGrants s"
      "seEgressGrants s \<noteq> []" "cand = durable"
      "canonicalEgressGeneration s (butlast (seEgressGrants s)) (seAppliedEgressRevision s) = Some old"
      by (auto simp: validWidenTransition_def split: if_splits option.splits)
    let ?old = "s\<lparr>seEgressGrants := butlast (seEgressGrants s),
                  seGrantRevision := seAppliedEgressRevision s\<rparr>"
    have canon: "canonicalEgressGeneration ?old = canonicalEgressGeneration s"
      by (rule canonical_same_session) simp
    have rev: "generationRevision old = seAppliedEgressRevision s"
      "generationRevision durable = seGrantRevision s"
      using w(6) c(1) by (auto simp: canonical_Some_iff)
    with w(2) wrap_int_succ [of "seAppliedEgressRevision s"]
    have ne: "generationRevision old \<noteq> generationRevision durable" by auto
    let ?gens = "[(protocolGeneration 0 0, concreteBinding ?old old True),
        (protocolGeneration ProtocolGrantA 1, concreteBinding s durable False)]"
    have "bindPair (protocolGeneration 0 0) ?old (protocolGeneration ProtocolGrantA 1) s (a\<lparr>paGenerations := []\<rparr>)
        = (a\<lparr>paGenerations := ?gens\<rparr>, True)"
      using bindPair_fresh [of ?old old s durable "a\<lparr>paGenerations := []\<rparr>" "protocolGeneration 0 0"
          "protocolGeneration ProtocolGrantA 1"] w(6) c(1) ne o by (simp add: canon)
    then have "mapConcreteTransition s t a st = (a\<lparr>paGenerations := ?gens\<rparr>, transitionFrame (tnDirection t) st)"
      using v w(4) by (simp add: mapConcreteTransition_def EgressDirectionWiden transitionFrame_def Let_def)
    moreover have "t = transitionOf ProtocolWidenDirection (concreteBinding s durable False)"
      using w EgressDirectionWiden c(3) by (cases t) (simp add: transitionOf_def)
    ultimately have marker: "seEgressTransition s = Some (transitionOf ProtocolWidenDirection (concreteBinding s durable False))"
      and map: "mapConcreteTransition s t a st
        = (a\<lparr>paGenerations := ?gens\<rparr>, transitionFrame (tnDirection t) st)"
      using t by simp_all
    have "framesRecord (a\<lparr>paGenerations := ?gens\<rparr>) st'"
      if same: "sameGenerations (transitionFrame (tnDirection t) st) st'"
        and dom: "protocolStateInDomain zeroBounds st'" for st'
    proof -
      have f: "psDurableAuthority st' = ProtocolGrantA" "psDurableRevision st' = 1"
        "psRecordedGeneration st' = protocolGeneration 0 0" "psDirection st' = ProtocolWidenDirection"
        "psPendingAuthority st' = ProtocolGrantA" "psPendingRevision st' = 1"
        using same by (simp_all add: EgressDirectionWiden sameGenerations_def transitionFrame_def frameTransition_def)
      show ?thesis unfolding framesRecord_def d f using marker dom o by simp
    qed
    then show ?thesis using map EgressDirectionWiden by blast
  next
    case EgressDirectionNarrow
    with c(4) have n: "tnCandidateRevision t = wrap_int (seGrantRevision s + 1)"
      by (simp add: validNarrowTransition_def)
    let ?new = "s\<lparr>seEgressGrants := tnCandidateGrants t, seGrantRevision := tnCandidateRevision t\<rparr>"
    have canon: "canonicalEgressGeneration ?new = canonicalEgressGeneration s"
      by (rule canonical_same_session) simp
    have "generationRevision durable = seGrantRevision s" "generationRevision cand = tnCandidateRevision t"
      using c(1,2) by (auto simp: canonical_Some_iff)
    with n wrap_int_succ [of "seGrantRevision s"]
    have ne: "generationRevision durable \<noteq> generationRevision cand" by auto
    let ?gens = "[(protocolGeneration ProtocolGrantA 0, concreteBinding s durable True),
        (protocolGeneration 0 1, concreteBinding ?new cand False)]"
    have "bindPair (protocolGeneration ProtocolGrantA 0) s (protocolGeneration 0 1) ?new (a\<lparr>paGenerations := []\<rparr>)
        = (a\<lparr>paGenerations := ?gens\<rparr>, True)"
      using bindPair_fresh [of s durable ?new cand "a\<lparr>paGenerations := []\<rparr>"
          "protocolGeneration ProtocolGrantA 0" "protocolGeneration 0 1"] c(1,2) ne o by (simp add: canon)
    then have "mapConcreteTransition s t a st = (a\<lparr>paGenerations := ?gens\<rparr>, transitionFrame (tnDirection t) st)"
      using v by (simp add: mapConcreteTransition_def EgressDirectionNarrow transitionFrame_def Let_def)
    moreover have "t = transitionOf ProtocolNarrowDirection (concreteBinding ?new cand False)"
      using EgressDirectionNarrow c(3) by (cases t) (simp add: transitionOf_def)
    ultimately have marker: "seEgressTransition s = Some (transitionOf ProtocolNarrowDirection (concreteBinding ?new cand False))"
      and map: "mapConcreteTransition s t a st
        = (a\<lparr>paGenerations := ?gens\<rparr>, transitionFrame (tnDirection t) st)"
      using t by simp_all
    have "framesRecord (a\<lparr>paGenerations := ?gens\<rparr>) st'"
      if same: "sameGenerations (transitionFrame (tnDirection t) st) st'"
        and dom: "protocolStateInDomain zeroBounds st'" for st'
    proof -
      have f: "psDurableAuthority st' = ProtocolGrantA" "psDurableRevision st' = 0"
        "psRecordedGeneration st' = protocolGeneration ProtocolGrantA 0"
        "psDirection st' = ProtocolNarrowDirection"
        "psPendingAuthority st' = 0" "psPendingRevision st' = 1"
        using same by (simp_all add: EgressDirectionNarrow sameGenerations_def transitionFrame_def frameTransition_def)
      show ?thesis unfolding framesRecord_def d f using marker dom o by simp
    qed
    then show ?thesis using map EgressDirectionNarrow by blast
  qed (use c(4) in simp)
qed

lemma sameGenerations_refl [simp]: "sameGenerations s s"
  by (simp add: sameGenerations_def)

lemma transitionFrame_domain:
  "protocolStateInDomain zeroBounds st \<Longrightarrow> protocolStateInDomain zeroBounds (transitionFrame d st)"
  by (auto simp: protocolStateInDomain_iff transitionFrame_def frameTransition_def)

lemma transitionFrame_fields [simp]:
  "psStatus (transitionFrame d st) = psStatus st" "psOwners (transitionFrame d st) = psOwners st"
  "psDetached (transitionFrame d st) = psDetached st" "psHealth (transitionFrame d st) = psHealth st"
  "psMode (transitionFrame d st) = psMode st" "psEffect (transitionFrame d st) = ProtocolApply"
  "psDirection (transitionFrame d st) \<noteq> ProtocolNoDirection"
  "psDirection (transitionFrame d st) = (if d = EgressDirectionWiden then ProtocolWidenDirection
     else ProtocolNarrowDirection)"
  by (simp_all add: transitionFrame_def frameTransition_def)

lemma initial_domain: "protocolStateInDomain zeroBounds initialProtocolState"
  by code_simp

lemma initial_fields [simp]:
  "durableGeneration initialProtocolState = protocolGeneration 0 0"
  "psRecordedGeneration initialProtocolState = protocolGeneration 0 0"
  "psDirection initialProtocolState = ProtocolNoDirection"
  "psStatus initialProtocolState = ProtocolCreated" "psHealth initialProtocolState = ProtocolHealthy"
  by code_simp+

definition symbolicStatus :: "session_status \<Rightarrow> protocol_status" where
  "symbolicStatus st =
     (case st of StatusCreated \<Rightarrow> ProtocolCreated | StatusRunning \<Rightarrow> ProtocolRunning
      | StatusStopped \<Rightarrow> ProtocolStopped | StatusOther x \<Rightarrow> ProtocolCreated)"

definition recordedOwners :: "Session \<Rightarrow> (protocol_owner \<times> protocolConcreteOwner) list" where
  "recordedOwners s =
     (if seStatus s = StatusRunning \<and> 0 < sePID s \<and> seProcessToken s \<noteq> []
      then [(ProtocolOwnerA, \<lparr>coPid = sePID s, coToken = seProcessToken s\<rparr>)] else [])"

lemma BindOwner_fresh:
  assumes "paOwners a = []"
  shows "BindOwner ProtocolOwnerA pid token a =
    (if 0 < pid \<and> token \<noteq> [] then Inr (a\<lparr>paOwners := [(ProtocolOwnerA, \<lparr>coPid = pid, coToken = token\<rparr>)]\<rparr>)
     else Inl ErrProtocol)"
  using assms by (simp add: BindOwner_def bindConcreteOwner_def not_less)

lemma adapterStatus_valid:
  assumes f: "framesRecord a initialProtocolState" and o: "paOriginal a = s" and n: "paOwners a = []"
    and vs: "validStatus (seStatus s)" and run: "adapterStatus s a initialProtocolState = (a', st)"
  shows "framesRecord a' st \<and> a' = a\<lparr>paOwners := recordedOwners s\<rparr>
    \<and> psStatus st = symbolicStatus (seStatus s) \<and> psDirection st = ProtocolNoDirection
    \<and> psHealth st \<noteq> ProtocolCorrupt"
proof -
  have dom: "protocolStateInDomain zeroBounds initialProtocolState" by (rule initial_domain)
  have keep: "framesRecord a' st" if "paGenerations a' = paGenerations a" "paOriginal a' = paOriginal a"
    "sameGenerations initialProtocolState st" "protocolStateInDomain zeroBounds st"
    using framesRecord_cong [OF f] that by blast
  have frame: "paGenerations a' = paGenerations a" "paOriginal a' = paOriginal a"
    using adapterStatus_frame [OF run] by simp_all
  have upd: "a = a\<lparr>paOwners := []\<rparr>" using n by simp
  consider "seStatus s = StatusCreated" | "seStatus s = StatusRunning" | "seStatus s = StatusStopped"
    using vs by (auto simp: validStatus_def)
  then show ?thesis
  proof cases
    case 1
    with run n f show ?thesis
      by (simp add: adapterStatus_def recordedOwners_def symbolicStatus_def)
  next
    case 2
    let ?r = "initialProtocolState\<lparr>psStatus := ProtocolRunning, psOwners := ProtocolOwnerA,
        psDetached := seDetached s, psResult := ProtocolSuccess\<rparr>"
    from 2 run have st: "st = ?r \<or> st = markProtocolStale ?r"
      and a': "a' = a\<lparr>paOwners := recordedOwners s\<rparr>"
      using n by (auto simp: adapterStatus_def BindOwner_fresh recordedOwners_def Let_def split: if_splits)
    have "sameGenerations initialProtocolState st" "protocolStateInDomain zeroBounds st"
      using st dom by (auto simp: sameGenerations_def markProtocolStale_def protocolStateInDomain_iff)
    with keep frame st a' 2 show ?thesis
      by (auto simp: markProtocolStale_def symbolicStatus_def)
  next
    case 3
    from 3 run have st: "st = initialProtocolState\<lparr>psStatus := ProtocolStopped, psMode := ProtocolTerminal,
        psResult := ProtocolFailure, psRuntimeAuthority := 0, psRuntimeGeneration := protocolNoGeneration,
        psInspectedGeneration := protocolNoGeneration\<rparr>" and a': "a' = a"
      by (simp_all add: adapterStatus_def)
    have "sameGenerations initialProtocolState st" "protocolStateInDomain zeroBounds st"
      using st dom by (auto simp: sameGenerations_def protocolStateInDomain_iff)
    with keep frame st a' 3 n show ?thesis
      by (simp add: symbolicStatus_def recordedOwners_def)
  qed
qed

lemma newAdapter_valid:
  assumes v: "validEgressRuntimeState s" and vs: "validStatus (seStatus s)"
    and new: "NewProtocolAdapter s = (a, st)"
  shows "paOriginal a = s \<and> paBaseline a = st \<and> paClaimDetached a = None
    \<and> paOwners a = recordedOwners s \<and> psStatus st = symbolicStatus (seStatus s) \<and> framesRecord a st
    \<and> psHealth st \<noteq> ProtocolCorrupt"
proof -
  obtain g where g: "adapterBase s =
      ((emptyAdapter s)\<lparr>paGenerations := [(protocolGeneration 0 0, concreteBinding s g True)]\<rparr>,
       initialProtocolState)" (is "_ = (?a1, _)") using adapterBase_valid [OF v] by blast
  obtain a2 st2 where a2: "adapterStatus s ?a1 initialProtocolState = (a2, st2)" by fastforce
  have f1: "framesRecord ?a1 initialProtocolState"
    using initial_domain by (simp add: framesRecord_def emptyAdapter_def)
  have e: "paOriginal ?a1 = s" "paOwners ?a1 = []" "paClaimDetached ?a1 = None"
    by (simp_all add: emptyAdapter_def)
  note s2 = adapterStatus_valid [OF f1 e(1,2) vs a2]
  have o2: "paOriginal a2 = s" "paClaimDetached a2 = None" "paOwners a2 = recordedOwners s"
    using s2 e by simp_all
  let ?h = "adapterHealth s st2"
  have h: "sameGenerations st2 ?h" "protocolStateInDomain zeroBounds ?h" "psStatus ?h = psStatus st2"
    "psHealth ?h \<noteq> ProtocolCorrupt"
    using s2 v by (auto simp: adapterHealth_def sameGenerations_def framesRecord_def Let_def
        markProtocolStale_def markProtocolCorrupt_def protocolStateInDomain_iff)
  have fh: "framesRecord a2 ?h" using framesRecord_cong [OF _ refl refl h(1,2)] s2 by blast
  obtain a3 st3 where a3: "adapterTransition s a2 ?h = (a3, st3)" by fastforce
  have s3: "framesRecord a3 st3 \<and> paOriginal a3 = s \<and> paClaimDetached a3 = None
      \<and> paOwners a3 = recordedOwners s \<and> psStatus st3 = psStatus st2
      \<and> psHealth st3 \<noteq> ProtocolCorrupt"
  proof (cases "\<exists>t. seEgressTransition s = Some t \<and> psStatus ?h = ProtocolRunning
      \<and> psMode ?h = ProtocolNormal")
    case True
    then obtain t where t: "seEgressTransition s = Some t" "mapConcreteTransition s t a2 ?h = (a3, st3)"
      using a3 by (auto simp: adapterTransition_def)
    from mapConcreteTransition_valid [OF v t(1) o2(1), of ?h] t(2) obtain gens where
      m: "a3 = a2\<lparr>paGenerations := gens\<rparr>" "st3 = transitionFrame (tnDirection t) ?h"
      "\<And>st'. sameGenerations (transitionFrame (tnDirection t) ?h) st'
         \<Longrightarrow> protocolStateInDomain zeroBounds st' \<Longrightarrow> framesRecord a3 st'" by auto
    have "framesRecord a3 st3"
      using m(3) [of st3] transitionFrame_domain [OF h(2)] by (simp add: m(2))
    with m(1,2) o2 h(3,4) show ?thesis by simp
  next
    case False
    then have "a3 = a2" "st3 = ?h" using a3 by (auto simp: adapterTransition_def split: option.splits)
    with fh o2 h(3,4) show ?thesis by simp
  qed
  let ?m = "adapterMarker s st3"
  have m: "sameGenerations st3 ?m" "protocolStateInDomain zeroBounds ?m" "psStatus ?m = psStatus st3"
    "psHealth ?m \<noteq> ProtocolCorrupt"
    using s3 by (auto simp: adapterMarker_def sameGenerations_def framesRecord_def protocolStateInDomain_iff)
  have n: "NormalizeProtocolState ?m = ?m" using m(2) by (rule inDomain_normal)
  have fin: "a = a3\<lparr>paBaseline := ?m\<rparr>" "st = ?m"
    using new by (auto simp: NewProtocolAdapter_def g a2 a3 Let_def n)
  have "framesRecord a ?m"
    using framesRecord_cong [OF _ _ _ m(1,2), of a3 a] s3 fin by simp
  with fin s3 m(3,4) s2 show ?thesis by simp
qed

end
