(* ===== verification/AdapterProjection.thy ===== *)
theory AdapterProjection
  imports ProtocolAdapterLaws
begin

text \<open>
  From operation start states to persisted bytes: every start state of a valid record frames
  that record, projections keep all out-of-model fields, a commit boundary proposes the
  known-new successor, and a proven teardown always yields the stopped record.
\<close>

section \<open>Start states of a valid record\<close>

lemma framesRecord_domain: "framesRecord a st \<Longrightarrow> protocolStateInDomain zeroBounds st"
  by (simp add: framesRecord_def)

lemma recoverTransition_valid:
  assumes "validEgressRuntimeState s" and "paOriginal a = s" and "framesRecord a st"
    and "psHealth st \<noteq> ProtocolCorrupt"
  shows "\<exists>gens st'. recoverTransition c a st = Inr (a\<lparr>paGenerations := gens\<rparr>, st')
     \<and> framesRecord (a\<lparr>paGenerations := gens\<rparr>) st' \<and> psHealth st' = psHealth st \<and> psStatus st' = psStatus st
     \<and> (c \<longrightarrow> seEgressTransition s \<noteq> None \<longrightarrow> psDirection st' \<noteq> ProtocolNoDirection)
     \<and> (\<not> c \<or> seEgressTransition s = None \<longrightarrow> st' = st)"
proof (cases "\<exists>t. seEgressTransition s = Some t \<and> c")
  case True
  then obtain t where t: "seEgressTransition s = Some t" "c" by blast
  from mapConcreteTransition_valid [OF assms(1) t(1) assms(2), of st] obtain gens where
    g: "mapConcreteTransition s t a st = (a\<lparr>paGenerations := gens\<rparr>, transitionFrame (tnDirection t) st)"
    "\<And>st'. sameGenerations (transitionFrame (tnDirection t) st) st'
       \<Longrightarrow> protocolStateInDomain zeroBounds st' \<Longrightarrow> framesRecord (a\<lparr>paGenerations := gens\<rparr>) st'" by blast
  have "framesRecord (a\<lparr>paGenerations := gens\<rparr>) (transitionFrame (tnDirection t) st)"
    by (rule g(2) [OF sameGenerations_refl transitionFrame_domain [OF framesRecord_domain [OF assms(3)]]])
  moreover have "recoverTransition c a st
      = Inr (a\<lparr>paGenerations := gens\<rparr>, transitionFrame (tnDirection t) st)"
    using t assms(2,4) g(1) by (simp add: recoverTransition_def)
  ultimately show ?thesis using t by (intro exI [of _ gens] exI) (auto split: if_splits)
next
  case False
  then have "recoverTransition c a st = Inr (a\<lparr>paGenerations := paGenerations a\<rparr>, st)"
    using assms(2) by (auto simp: recoverTransition_def split: option.splits)
  then show ?thesis using assms False by (intro exI [of _ "paGenerations a"] exI [of _ st]) auto
qed

text \<open>A fresh adapter of a valid record, and one an owner action was authorized on.\<close>

definition freshFrame :: "Session \<Rightarrow> ProtocolState \<Rightarrow> ProtocolAdapter \<Rightarrow> bool" where
  "freshFrame s st0 a \<longleftrightarrow>
     paOriginal a = s \<and> paBaseline a = st0 \<and> paClaimDetached a = None
   \<and> NormalizeProtocolState st0 = st0 \<and> psStatus st0 = symbolicStatus (seStatus s)"

definition authorizedFrame :: "Session \<Rightarrow> ProtocolState \<Rightarrow> ProtocolAdapter \<Rightarrow> ProtocolState \<Rightarrow> bool" where
  "authorizedFrame s st0 a st \<longleftrightarrow>
     freshFrame s st0 a \<and> framesRecord a st
   \<and> paOwners a = [(ProtocolOwnerA, \<lparr>coPid = sePID s, coToken = seProcessToken s\<rparr>)]
   \<and> psStatus st = ProtocolRunning \<and> psOwners st = ProtocolOwnerA \<and> psDetached st = seDetached s
   \<and> psHealth st = ProtocolHealthy \<and> psMode st = ProtocolNormal \<and> psOperation st = ProtocolIdle
   \<and> psEffect st = ProtocolNoEffect \<and> psResult st = ProtocolSuccess
   \<and> (seEgressTransition s \<noteq> None \<longrightarrow> psDirection st \<noteq> ProtocolNoDirection)"

lemma newAdapter_fresh:
  assumes "validEgressRuntimeState s" and "validStatus (seStatus s)" and "NewProtocolAdapter s = (a, st)"
  shows "freshFrame s st a \<and> framesRecord a st \<and> paOwners a = recordedOwners s
    \<and> psHealth st \<noteq> ProtocolCorrupt"
  using newAdapter_valid [OF assms] inDomain_normal [OF framesRecord_domain [of a st]]
  by (simp add: freshFrame_def)

lemma freshFrame_generations [simp]:
  "freshFrame s st (a\<lparr>paGenerations := g\<rparr>) = freshFrame s st a"
  "freshFrame s st (a\<lparr>paOwners := ow\<rparr>) = freshFrame s st a"
  by (simp_all add: freshFrame_def)

lemma ownedIdle_authorized:
  assumes "freshFrame s st0 a" and "framesRecord a st"
    and "paOwners a = [(ProtocolOwnerA, \<lparr>coPid = sePID s, coToken = seProcessToken s\<rparr>)]"
    and "seEgressTransition s \<noteq> None \<longrightarrow> psDirection st \<noteq> ProtocolNoDirection"
  shows "authorizedFrame s st0 a (NormalizeProtocolState (ownedIdle s st))"
proof -
  have d: "protocolStateInDomain zeroBounds (ownedIdle s st)"
    using assms(2) by (auto simp: framesRecord_def ownedIdle_def protocolStateInDomain_iff)
  then have n: "NormalizeProtocolState (ownedIdle s st) = ownedIdle s st" by (rule inDomain_normal)
  have "framesRecord a (ownedIdle s st)"
    by (rule framesRecord_cong [OF assms(2) refl refl _ d]) (simp add: sameGenerations_def ownedIdle_def)
  with assms show ?thesis unfolding n by (auto simp: authorizedFrame_def ownedIdle_def)
qed

lemma OwnerActionState_valid:
  assumes v: "validEgressRuntimeState s" and run: "seStatus s = StatusRunning" and pid: "0 < sePID s"
    and new: "NewProtocolAdapter s = (a, st0)"
  shows "\<exists>a' st. OwnerActionState a = Inr (a', st) \<and> authorizedFrame s st0 a' st"
proof -
  have vs: "validStatus (seStatus s)" using run by (simp add: validStatus_def)
  have f: "freshFrame s st0 a" "framesRecord a st0" "paOwners a = recordedOwners s"
    "psHealth st0 \<noteq> ProtocolCorrupt" using newAdapter_fresh [OF v vs new] by simp_all
  then have o: "paOriginal a = s" "paBaseline a = st0" "NormalizeProtocolState st0 = st0"
    by (simp_all add: freshFrame_def)
  from recoverTransition_valid [OF v o(1) f(2,4), of "psDirection st0 = ProtocolNoDirection"]
  obtain gens st where r:
    "recoverTransition (psDirection st0 = ProtocolNoDirection) a st0 = Inr (a\<lparr>paGenerations := gens\<rparr>, st)"
    "framesRecord (a\<lparr>paGenerations := gens\<rparr>) st"
    "seEgressTransition s \<noteq> None \<longrightarrow> psDirection st \<noteq> ProtocolNoDirection" by metis
  let ?o = "[(ProtocolOwnerA, \<lparr>coPid = sePID s, coToken = seProcessToken s\<rparr>)]"
  let ?a = "a\<lparr>paGenerations := gens, paOwners := ?o\<rparr>"
  have bind: "(if seProcessToken s = []
      then bindConcreteOwner ProtocolOwnerA (sePID s) [] False (a\<lparr>paGenerations := gens\<rparr>)
      else Inr (a\<lparr>paGenerations := gens\<rparr>)) = Inr ?a"
    using f(3) pid run
    by (cases a) (simp add: recordedOwners_def bindConcreteOwner_def)
  have "framesRecord ?a st"
    by (rule framesRecord_cong [OF r(2)]) (simp_all add: framesRecord_domain [OF r(2)])
  then have "authorizedFrame s st0 ?a (NormalizeProtocolState (ownedIdle s st))"
    using f(1) r(3) by (intro ownedIdle_authorized) simp_all
  moreover have "OwnerActionState a = Inr (?a, NormalizeProtocolState (ownedIdle s st))"
    using run pid v r(1) bind by (simp add: OwnerActionState_def o)
  ultimately show ?thesis by blast
qed

lemma ClaimState_valid:
  assumes "validEgressRuntimeState s" and "seStatus s = StatusCreated" and "NewProtocolAdapter s = (a, st0)"
  shows "\<exists>st. ClaimState a = Inr st \<and> framesRecord a st \<and> psHealth st = ProtocolHealthy
    \<and> psStatus st = ProtocolCreated \<and> psOwners st = 0 \<and> \<not> psDetached st \<and> psMode st = ProtocolNormal
    \<and> psOperation st = ProtocolIdle \<and> psEffect st = ProtocolNoEffect \<and> psDirection st = ProtocolNoDirection"
proof -
  have vs: "validStatus (seStatus s)" using assms(2) by (simp add: validStatus_def)
  have f: "freshFrame s st0 a" "framesRecord a st0" using newAdapter_fresh [OF assms(1) vs assms(3)] by simp_all
  let ?st = "st0\<lparr>psStatus := ProtocolCreated, psOwners := 0, psDetached := False,
       psHealth := ProtocolHealthy, psMode := ProtocolNormal, psOperation := ProtocolIdle,
       psEffect := ProtocolNoEffect, psPendingAuthority := 0, psPendingRevision := 0,
       psDirection := ProtocolNoDirection\<rparr>"
  have "protocolStateInDomain zeroBounds ?st"
    using f(2) by (auto simp: framesRecord_def protocolStateInDomain_iff)
  then have "framesRecord a ?st" using f(2) by (simp add: framesRecord_def durableGeneration_def)
  then show ?thesis using f(1) assms(2) by (simp add: ClaimState_def freshFrame_def)
qed

lemma SignalAuthorizationState_valid:
  assumes v: "validEgressRuntimeState s" and st: "seStatus s = StatusCreated \<or> seStatus s = StatusRunning"
    and pid: "0 < sePID s" and new: "NewProtocolAdapter s = (a, st0)"
  shows "\<exists>a' st. SignalAuthorizationState a = Inr (a', st) \<and> authorizedFrame s st0 a' st"
proof (cases "seStatus s = StatusRunning")
  case True
  have "paOriginal a = s"
    using newAdapter_fresh [OF v _ new] True by (simp add: validStatus_def freshFrame_def)
  with True OwnerActionState_valid [OF v True pid new] show ?thesis
    by (simp add: SignalAuthorizationState_def)
next
  case False
  with st have cr: "seStatus s = StatusCreated" by simp
  have vs: "validStatus (seStatus s)" using cr by (simp add: validStatus_def)
  have f: "freshFrame s st0 a" "paOwners a = []" using newAdapter_fresh [OF v vs new] cr
    by (simp_all add: recordedOwners_def)
  then have o: "paOriginal a = s" by (simp add: freshFrame_def)
  from ClaimState_valid [OF v cr new] obtain c where c: "ClaimState a = Inr c" "framesRecord a c"
    "psHealth c = ProtocolHealthy" by blast
  have "psHealth c \<noteq> ProtocolCorrupt" using c(3) by simp
  from recoverTransition_valid [OF v o c(2) this, of True] obtain gens st where r:
    "recoverTransition True a c = Inr (a\<lparr>paGenerations := gens\<rparr>, st)"
    "framesRecord (a\<lparr>paGenerations := gens\<rparr>) st"
    "seEgressTransition s \<noteq> None \<longrightarrow> psDirection st \<noteq> ProtocolNoDirection" by metis
  let ?o = "[(ProtocolOwnerA, \<lparr>coPid = sePID s, coToken = seProcessToken s\<rparr>)]"
  let ?a = "a\<lparr>paGenerations := gens, paOwners := ?o\<rparr>"
  have bind: "bindConcreteOwner ProtocolOwnerA (sePID s) (seProcessToken s) False (a\<lparr>paGenerations := gens\<rparr>)
      = Inr ?a"
    using f(2) pid by (simp add: bindConcreteOwner_def)
  have "framesRecord ?a st"
    by (rule framesRecord_cong [OF r(2)]) (simp_all add: framesRecord_domain [OF r(2)])
  then have "authorizedFrame s st0 ?a (NormalizeProtocolState (ownedIdle s st))"
    using f(1) r(3) by (intro ownedIdle_authorized) simp_all
  moreover have "SignalAuthorizationState a = Inr (?a, NormalizeProtocolState (ownedIdle s st))"
    using cr pid v c(1) r(1) bind by (simp add: SignalAuthorizationState_def o)
  ultimately show ?thesis by blast
qed

lemma BlockedTeardownState_valid:
  assumes v: "validEgressRuntimeState s" and st: "seStatus s = StatusCreated \<or> seStatus s = StatusRunning"
    and new: "NewProtocolAdapter s = (a, st0)"
  shows "\<exists>a' st. BlockedTeardownState a = Inr (a', st) \<and> freshFrame s st0 a' \<and> framesRecord a' st
    \<and> psMode st = ProtocolBlocked \<and> psEffect st = ProtocolNoEffect"
proof -
  have vs: "validStatus (seStatus s)" using st by (auto simp: validStatus_def)
  have f: "freshFrame s st0 a" "framesRecord a st0" "psHealth st0 \<noteq> ProtocolCorrupt"
    using newAdapter_fresh [OF v vs new] by simp_all
  then have o: "paOriginal a = s" "paBaseline a = st0" "NormalizeProtocolState st0 = st0"
    by (simp_all add: freshFrame_def)
  let ?first = "if seStatus s = StatusCreated then rbind (ClaimState a) (\<lambda>state. Inr (a, state))
      else if sePID s > 0 then OwnerActionState a else Inr (a, NormalizeProtocolState (paBaseline a))"
  have "\<exists>b st1. ?first = Inr (b, st1) \<and> freshFrame s st0 b \<and> framesRecord b st1
      \<and> psHealth st1 \<noteq> ProtocolCorrupt"
  proof (cases "seStatus s = StatusCreated")
    case True
    from ClaimState_valid [OF v True new] f True show ?thesis by auto
  next
    case False
    with st have run: "seStatus s = StatusRunning" by simp
    show ?thesis
    proof (cases "0 < sePID s")
      case True
      from OwnerActionState_valid [OF v run True new] True False show ?thesis
        by (auto simp: authorizedFrame_def)
    qed (use f o False in simp)
  qed
  then obtain b st1 where b: "?first = Inr (b, st1)" "freshFrame s st0 b" "framesRecord b st1"
    "psHealth st1 \<noteq> ProtocolCorrupt" by blast
  have bo: "paOriginal b = s" using b(2) by (simp add: freshFrame_def)
  from recoverTransition_valid [OF v bo b(3,4), of "psDirection st1 = ProtocolNoDirection"]
  obtain gens st2 where r:
    "recoverTransition (psDirection st1 = ProtocolNoDirection) b st1 = Inr (b\<lparr>paGenerations := gens\<rparr>, st2)"
    "framesRecord (b\<lparr>paGenerations := gens\<rparr>) st2" by metis
  let ?st = "st2\<lparr>psHealth := ProtocolStale, psMode := ProtocolBlocked, psOperation := ProtocolRecover,
      psEffect := ProtocolNoEffect, psResult := ProtocolFailure\<rparr>"
  have d: "protocolStateInDomain zeroBounds ?st"
    using framesRecord_domain [OF r(2)] by (simp add: protocolStateInDomain_iff)
  have "framesRecord (b\<lparr>paGenerations := gens\<rparr>) ?st"
    by (rule framesRecord_cong [OF r(2) refl refl _ d]) (simp add: sameGenerations_def)
  moreover have "BlockedTeardownState a = Inr (b\<lparr>paGenerations := gens\<rparr>, ?st)"
    unfolding BlockedTeardownState_def Let_def o
    using st v b(1) r(1) inDomain_normal [OF d] by (auto simp: o)
  ultimately show ?thesis using b(2) by auto
qed

section \<open>Projections\<close>

text \<open>The record with every field the symbolic state speaks about blanked.\<close>

definition outOfModel :: "Session \<Rightarrow> Session" where
  "outOfModel s =
     s\<lparr>seStatus := StatusCreated, sePID := 0, seProcessToken := [], seDetached := False,
       seStartedAt := 0, seEgressGrants := [], seGrantRevision := 0,
       seAppliedEgressRevision := 0, seAppliedEgressHash := [], seEgressTransition := None\<rparr>"

lemma projectOwner_frame:
  "projectOwner a st = Inr c \<Longrightarrow>
     outOfModel c = outOfModel (paOriginal a) \<and> validStatus (seStatus c)
   \<and> (psStatus st = ProtocolStopped \<longrightarrow> seStatus c = StatusStopped \<and> sePID c = 0 \<and> seProcessToken c = [])
   \<and> (psStatus st = ProtocolRunning \<longrightarrow> seStatus c = StatusRunning
        \<and> map_of (paOwners a) (psOwners st) = Some \<lparr>coPid = sePID c, coToken = seProcessToken c\<rparr>)
   \<and> (psStatus st = ProtocolCreated \<longrightarrow> seStatus c = StatusCreated \<and> sePID c = 0
        \<and> seProcessToken c = [] \<and> \<not> seDetached c)"
  by (auto simp: projectOwner_def outOfModel_def validStatus_def Let_def
      split: protocol_status.splits if_splits option.splits)

lemma outOfModel_rows [simp]:
  "outOfModel (SetEgressRuntimeState (c\<lparr>seEgressGrants := gs, seGrantRevision := r\<rparr>) rt) = outOfModel c"
  by (simp add: outOfModel_def SetEgressRuntimeState_def)

lemma projectCandidate_shape:
  assumes "projectCandidate st keep a = Inr c"
  shows "c = paOriginal a \<and> keep \<and> NormalizeProtocolState st = paBaseline a
    \<or> (\<exists>c0 durable rt. projectOwner a (NormalizeProtocolState st) = Inr c0
        \<and> map_of (paGenerations a) (durableGeneration st) = Some durable
        \<and> projectRuntime a (NormalizeProtocolState st) = Inr rt
        \<and> c = SetEgressRuntimeState (c0\<lparr>seEgressGrants := cgGrants durable,
                seGrantRevision := cgGrantRevision durable\<rparr>) rt
        \<and> validEgressRuntimeState c)"
  using assms unfolding projectCandidate_def Let_def
  by (auto split: if_splits option.splits)

text \<open>(C16) A projection is a framed and valid record: whatever state an adapter projects, every
  field the protocol does not speak about is the original's, the persisted grant rows are those
  bound to the durable symbol, the result passes the runtime-state validator, and the owner
  bytes are the bound pair of the running owner or blank.\<close>

theorem projected_candidate_is_framed:
  assumes "projectCandidate st False a = Inr c"
  shows "outOfModel c = outOfModel (paOriginal a) \<and> validEgressRuntimeState c
       \<and> (\<exists>durable. map_of (paGenerations a) (durableGeneration st) = Some durable
            \<and> seEgressGrants c = cgGrants durable \<and> seGrantRevision c = cgGrantRevision durable)
       \<and> (if seStatus c = StatusRunning
          then map_of (paOwners a) (psOwners st) = Some \<lparr>coPid = sePID c, coToken = seProcessToken c\<rparr>
          else sePID c = 0 \<and> seProcessToken c = [])
       \<and> (seStatus c = StatusStopped \<longrightarrow> seAppliedEgressHash c = [] \<and> seEgressTransition c = None)"
proof -
  from projectCandidate_shape [OF assms] obtain c0 durable rt where
    o: "projectOwner a (NormalizeProtocolState st) = Inr c0" and
    d: "map_of (paGenerations a) (durableGeneration st) = Some durable" and
    r: "projectRuntime a (NormalizeProtocolState st) = Inr rt" and
    c: "c = SetEgressRuntimeState (c0\<lparr>seEgressGrants := cgGrants durable,
                seGrantRevision := cgGrantRevision durable\<rparr>) rt" "validEgressRuntimeState c" by blast
  have keep: "seStatus c = seStatus c0" "sePID c = sePID c0" "seProcessToken c = seProcessToken c0"
    "seEgressGrants c = cgGrants durable" "seGrantRevision c = cgGrantRevision durable"
    "seAppliedEgressHash c = ersAppliedHash rt" "seEgressTransition c = ersTransition rt"
    unfolding c(1) by (simp_all add: SetEgressRuntimeState_def)
  have own: "outOfModel c0 = outOfModel (paOriginal a)" "validStatus (seStatus c0)"
    using projectOwner_frame [OF o] by simp_all
  have status: "psStatus st = ProtocolStopped \<or> psStatus st = ProtocolRunning \<or> psStatus st = ProtocolCreated"
    using o by (auto simp: projectOwner_def Let_def split: protocol_status.splits)
  have "psStatus st = ProtocolStopped \<Longrightarrow> ersAppliedHash rt = [] \<and> ersTransition rt = None"
    using r by (auto simp: projectRuntime_def)
  with status projectOwner_frame [OF o] keep c own(1) d show ?thesis
    by (elim disjE) (simp_all add: c(1))
qed

lemma framesRecord_GenerationEqual:
  assumes "framesRecord a st"
  shows "\<exists>g. GenerationEqual (durableGeneration st) g a"
  using assms by (auto simp: framesRecord_def GenerationEqual_def)

section \<open>Commit boundaries\<close>

definition knownNewEvent :: "ProtocolEvent \<Rightarrow> bool" where
  "knownNewEvent e \<longleftrightarrow>
     evOutcome e = ProtocolKnownNew \<and> evGrant e = 0 \<and> evTruth e = ProtocolNoTruth"

lemma reduce_accepts:
  assumes "protocolStateInDomain zeroBounds s" and "NormalizeProtocolState s = s"
    and "reduceAction (evAction e) (normalizeProtocolBounds zeroBounds) s e = Some u"
  shows "ReduceProtocol s e = (NormalizeProtocolState u, True)"
proof -
  have "protocolStateInDomain (normalizeProtocolBounds zeroBounds) s"
    using assms(1) by (simp add: protocolStateInDomain_iff)
  then show ?thesis using assms by (simp add: ReduceProtocol_def ReduceProtocolWithin_def Let_def)
qed

lemma effectTarget_reduces:
  assumes "effectTarget s = Some u" and "psEffect s = ProtocolCommit" and "psHealth s = ProtocolHealthy"
    and "psMode s = ProtocolNormal"
  shows "\<exists>action u'. reduceAction action (normalizeProtocolBounds zeroBounds) s
           (outcomeEvent action ProtocolKnownNew ProtocolNoTruth) = Some u'
       \<and> NormalizeProtocolState u' = NormalizeProtocolState u"
proof -
  let ?e = "\<lambda>x. outcomeEvent x ProtocolKnownNew ProtocolNoTruth"
  have commit: "protocolCommitEvent (?e x)" "evGrant (?e x) = 0" "evOutcome (?e x) = ProtocolKnownNew" for x
    by (simp_all add: outcomeEvent_def protocolCommitEvent_def)
  have heal: "healProtocol x = x" if "psHealth x = ProtocolHealthy" "psMode x = ProtocolNormal" for x
    using that by (cases x) (simp add: healProtocol_def)
  consider "psOperation s = ProtocolClaim" | "psOperation s = ProtocolWiden" | "psOperation s = ProtocolNarrow"
    using assms(1) by (auto simp: effectTarget_def split: protocol_operation.splits)
  then show ?thesis
  proof cases
    case 1
    then show ?thesis using assms
      by (intro exI [of _ ProtocolClaimCommit])
        (auto simp: effectTarget_def reduceClaimCommit_def commit claimOwner_def heal split: if_splits)
  next
    case 2
    show ?thesis
    proof (cases "protocolPendingIsDurable s")
      case True
      with 2 show ?thesis using assms
        by (intro exI [of _ ProtocolWidenFinalCommit])
          (auto simp: effectTarget_def reduceWidenFinalCommit_def commit recordPending_def split: if_splits)
    next
      case False
      with 2 show ?thesis using assms
        by (intro exI [of _ ProtocolWidenCommit])
          (auto simp: effectTarget_def reduceWidenCommit_def commit installPending_def split: if_splits)
    qed
  next
    case 3
    then show ?thesis using assms
      by (intro exI [of _ ProtocolNarrowFinalCommit])
        (auto simp: effectTarget_def reduceNarrowFinalCommit_def commit recordPending_def installPending_def
          pendingGeneration_def split: if_splits)
  qed
qed

text \<open>The accepted known-new events of a reachable state are those of its one commit boundary.\<close>

lemma reach_commit_target:
  assumes "goReach zeroBounds s" and "ReduceProtocol s e = (t, True)" and "knownNewEvent e"
  shows "psEffect s = ProtocolCommit \<and> psHealth s = ProtocolHealthy \<and> psMode s = ProtocolNormal
    \<and> psResult s = ProtocolPending \<and> (\<exists>u. effectTarget s = Some u \<and> t = NormalizeProtocolState u)"
proof -
  note inv = reach_facts [OF assms(1)]
  have n: "NormalizeProtocolState s = s" using inv(3) by (rule inDomain_normal)
  from assms(2) n obtain u where u:
    "reduceAction (evAction e) (normalizeProtocolBounds zeroBounds) s e = Some u" "t = NormalizeProtocolState u"
    unfolding ReduceProtocol_def by (auto dest: ReduceProtocolWithin_TrueD)
  have e: "evOutcome e = ProtocolKnownNew" "evGrant e = 0" "evTruth e = ProtocolNoTruth"
    using assms(3) by (simp_all add: knownNewEvent_def)
  have ns: "\<not> protocolEmptyEvent e" by (simp add: protocolEmptyEvent_def e)
  have heal: "healProtocol x = x" if "psHealth x = ProtocolHealthy" "psMode x = ProtocolNormal" for x
    using that by (cases x) (simp add: healProtocol_def)
  have cases: "evAction e = ProtocolClaimCommit \<or> evAction e = ProtocolWidenCommit
      \<or> evAction e = ProtocolWidenFinalCommit \<or> evAction e = ProtocolNarrowFinalCommit"
    using u(1) e ns by (cases "evAction e") (auto simp: reduce_iffs)
  then show ?thesis
    using u inv(1,2) e
    by (elim disjE)
      (auto simp: reduce_iffs commitCase_def effectTarget_def reach_control_defs oneOwner_def heal
        claimOwner_def recordPending_def installPending_def pendingGeneration_def
        protocolPendingIsDurable_def)
qed

text \<open>A commit boundary proposes exactly the bytes of the reducer's known-new successor. If
  the adapter offers a commit candidate at all, some event classified as known-new is accepted
  there and the candidate is the projection of its successor. In a reachable state the two
  agree for every accepted known-new event, errors included: the bytes on disk after a
  successful commit and the state the driver continues with cannot drift apart.\<close>

theorem commit_candidate_is_known_new_successor:
  shows "(EffectCandidate s a = Inr c \<longrightarrow>
            (\<exists>e t. knownNewEvent e \<and> ReduceProtocol s e = (t, True) \<and> Candidate t a = Inr c))
       \<and> (goReach zeroBounds s \<longrightarrow> knownNewEvent e \<longrightarrow> ReduceProtocol s e = (t, True) \<longrightarrow>
            EffectCandidate s a = Candidate t a)"
proof (intro conjI impI)
  let ?s = "NormalizeProtocolState s"
  assume "EffectCandidate s a = Inr c"
  then obtain u where u: "protocolStateInDomain zeroBounds ?s" "psEffect ?s = ProtocolCommit"
    "psHealth ?s = ProtocolHealthy" "psMode ?s = ProtocolNormal" "effectTarget ?s = Some u"
    "Candidate u a = Inr c"
    by (auto simp: EffectCandidate_def Let_def split: if_splits option.splits)
  from effectTarget_reduces [OF u(5,2,3,4)] obtain action u' where r:
    "reduceAction action (normalizeProtocolBounds zeroBounds) ?s
       (outcomeEvent action ProtocolKnownNew ProtocolNoTruth) = Some u'"
    "NormalizeProtocolState u' = NormalizeProtocolState u" by blast
  let ?e = "outcomeEvent action ProtocolKnownNew ProtocolNoTruth"
  have act: "evAction ?e = action" "knownNewEvent ?e" by (simp_all add: outcomeEvent_def knownNewEvent_def)
  have "ReduceProtocol ?s ?e = (NormalizeProtocolState u', True)"
    by (rule reduce_accepts) (simp_all add: u(1) act r(1))
  then have "ReduceProtocol s ?e = (NormalizeProtocolState u, True)"
    by (simp add: ReduceProtocol_def ReduceProtocolWithin_normalize r(2))
  moreover have "Candidate (NormalizeProtocolState u) a = Inr c"
    using u(6) by (simp add: Candidate_def projectCandidate_def)
  ultimately show "\<exists>e t. knownNewEvent e \<and> ReduceProtocol s e = (t, True) \<and> Candidate t a = Inr c"
    using act by blast
next
  assume h: "goReach zeroBounds s" "knownNewEvent e" "ReduceProtocol s e = (t, True)"
  from reach_commit_target [OF h(1,3,2)] obtain u where u: "psEffect s = ProtocolCommit"
    "psHealth s = ProtocolHealthy" "psMode s = ProtocolNormal" "psResult s = ProtocolPending"
    "effectTarget s = Some u" "t = NormalizeProtocolState u" by blast
  note dom = reach_facts(3) [OF h(1)]
  show "EffectCandidate s a = Candidate t a"
    unfolding EffectCandidate_def inDomain_normal [OF dom] Let_def
    using dom u by (simp add: Candidate_def projectCandidate_def)
qed

section \<open>Framed projections\<close>

definition sameRuntime :: "Session \<Rightarrow> Session \<Rightarrow> bool" where
  "sameRuntime c s \<longleftrightarrow>
     sePersistentEgress c = sePersistentEgress s \<and> seEgressGrants c = seEgressGrants s
   \<and> seGrantRevision c = seGrantRevision s \<and> seAppliedEgressRevision c = seAppliedEgressRevision s
   \<and> seAppliedEgressHash c = seAppliedEgressHash s \<and> seEgressTransition c = seEgressTransition s"

lemma projectOwner_sameRuntime: "projectOwner a st = Inr c \<Longrightarrow> sameRuntime c (paOriginal a)"
  by (auto simp: projectOwner_def sameRuntime_def Let_def split: protocol_status.splits if_splits option.splits)

lemma sameRuntime_valid: "sameRuntime c s \<Longrightarrow> validEgressRuntimeState c = validEgressRuntimeState s"
  by (rule validEgressRuntimeState_cong) (simp_all add: sameRuntime_def)

definition persistable :: "ProtocolState \<Rightarrow> bool" where
  "persistable st \<longleftrightarrow>
     psHealth st = ProtocolHealthy \<and> psMode st \<noteq> ProtocolBlocked
   \<and> (psOperation st = ProtocolIdle
      \<or> (psOperation st = ProtocolWiden \<or> psOperation st = ProtocolNarrow) \<and> psEffect st \<noteq> ProtocolCommit)"

lemma session_rows_same:
  assumes "sameRuntime c s"
  shows "SetEgressRuntimeState (c\<lparr>seEgressGrants := seEgressGrants s, seGrantRevision := seGrantRevision s\<rparr>)
      \<lparr>ersAppliedRevision = seAppliedEgressRevision s, ersAppliedHash = seAppliedEgressHash s,
       ersTransition = seEgressTransition s\<rparr> = c"
  using assms by (cases c) (simp add: SetEgressRuntimeState_def sameRuntime_def)

text \<open>A live state that frames a valid record projects to that record with the owner replaced.\<close>

lemma project_live:
  assumes f: "framesRecord a st" and v: "validEgressRuntimeState (paOriginal a)" and p: "persistable st"
    and o: "projectOwner a st = Inr c" and l: "psStatus st \<noteq> ProtocolStopped"
    and t: "seEgressTransition (paOriginal a) \<noteq> None \<longrightarrow> psDirection st \<noteq> ProtocolNoDirection"
  shows "projectCandidate st False a = Inr c"
proof -
  let ?s = "paOriginal a"
  note dom = framesRecord_domain [OF f]
  have n: "NormalizeProtocolState st = st" using dom by (rule inDomain_normal)
  from f obtain d where d: "map_of (paGenerations a) (durableGeneration st) = Some d"
    "cgGrants d = seEgressGrants ?s" "cgGrantRevision d = seGrantRevision ?s"
    by (auto simp: framesRecord_def)
  from f obtain r where r: "map_of (paGenerations a) (psRecordedGeneration st) = Some r"
    "genValid (psRecordedGeneration st)" "cgAppliedRevision r = seAppliedEgressRevision ?s"
    "cgAppliedHash r = seAppliedEgressHash ?s" by (auto simp: framesRecord_def)
  have dir: "psDirection st = ProtocolNarrowDirection \<or> psDirection st = ProtocolWidenDirection"
    if "psDirection st \<noteq> ProtocolNoDirection"
    using that dom by (cases "psDirection st") (auto simp: protocolStateInDomain_iff)
  have rt: "projectRuntime a st = Inr \<lparr>ersAppliedRevision = seAppliedEgressRevision ?s,
      ersAppliedHash = seAppliedEgressHash ?s, ersTransition = seEgressTransition ?s\<rparr>"
  proof (cases "psDirection st = ProtocolNoDirection")
    case True
    with t r l show ?thesis by (simp add: projectRuntime_def)
  next
    case False
    with f obtain p where "map_of (paGenerations a) (pendingGeneration st) = Some p"
      "seEgressTransition ?s = Some (transitionOf (psDirection st) p)" by (auto simp: framesRecord_def)
    with False r l show ?thesis by (simp add: projectRuntime_def transitionOf_def)
  qed
  have same: "sameRuntime c ?s" using o by (rule projectOwner_sameRuntime)
  then have "validEgressRuntimeState c" using v by (simp add: sameRuntime_valid)
  with p session_rows_same [OF same] show ?thesis
    unfolding projectCandidate_def n Let_def
    by (auto simp: dom o d rt persistable_def)
qed

lemma Candidate_live:
  assumes "projectCandidate st False a = Inr c" and "NormalizeProtocolState st = st"
  shows "Candidate st a = Inr (if st = paBaseline a then paOriginal a else c)"
  using assms by (simp add: Candidate_def projectCandidate_def Let_def)

definition stoppedRecord :: "Session \<Rightarrow> Session" where
  "stoppedRecord s =
     s\<lparr>seStatus := StatusStopped, sePID := 0, seProcessToken := [], seAppliedEgressRevision := 0,
       seAppliedEgressHash := [], seEgressTransition := None\<rparr>"

lemma stoppedRecord_valid: "validEgressRuntimeState s \<Longrightarrow> validEgressRuntimeState (stoppedRecord s)"
proof -
  assume "validEgressRuntimeState s"
  from validRuntime_canonical [OF this] obtain g where
    "canonicalEgressGeneration s (seEgressGrants s) (seGrantRevision s) = Some g" by blast
  moreover have "canonicalEgressGeneration (stoppedRecord s) = canonicalEgressGeneration s"
    by (rule canonical_same_session) (simp add: stoppedRecord_def)
  ultimately show ?thesis by (simp add: validEgressRuntimeState_def) (simp add: stoppedRecord_def)
qed

text \<open>A proven teardown of a framed state always projects, and to the stopped record.\<close>

lemma teardown_projects:
  assumes f: "framesRecord a st" and v: "validEgressRuntimeState (paOriginal a)"
    and e: "psEffect st = ProtocolTeardownEffect"
    and op: "psOperation st = ProtocolStop \<or> psOperation st = ProtocolTeardown"
    and b: "psStatus (paBaseline a) \<noteq> ProtocolStopped"
  shows "\<exists>terminal. ReduceProtocol st (outcomeEvent ProtocolTeardownAction ProtocolTeardownProven ProtocolNoTruth)
           = (terminal, True) \<and> Candidate terminal a = Inr (stoppedRecord (paOriginal a))"
proof -
  let ?e = "outcomeEvent ProtocolTeardownAction ProtocolTeardownProven ProtocolNoTruth"
  let ?s = "paOriginal a"
  let ?t = "st\<lparr>psStatus := ProtocolStopped, psOwners := 0, psDetached := False,
     psRuntimeAuthority := 0, psRuntimeGeneration := protocolNoGeneration,
     psInspectedGeneration := protocolNoGeneration, psHealth := ProtocolHealthy, psMode := ProtocolTerminal,
     psOperation := ProtocolIdle, psEffect := ProtocolNoEffect, psResult := ProtocolFailure,
     psPendingAuthority := 0, psPendingRevision := 0, psDirection := ProtocolNoDirection\<rparr>"
  note dom = framesRecord_domain [OF f]
  have td: "protocolStateInDomain zeroBounds ?t" using dom by (simp add: protocolStateInDomain_iff)
  note tn = inDomain_normal [OF td]
  have "reduceAction (evAction ?e) (normalizeProtocolBounds zeroBounds) st ?e = Some ?t"
    using e op by (simp add: outcomeEvent_def reduceTeardown_def)
  from reduce_accepts [OF dom inDomain_normal [OF dom] this]
  have red: "ReduceProtocol st ?e = (?t, True)" by (simp only: tn)
  from f obtain d where d: "map_of (paGenerations a) (durableGeneration st) = Some d"
    "cgGrants d = seEgressGrants ?s" "cgGrantRevision d = seGrantRevision ?s"
    by (auto simp: framesRecord_def)
  from f obtain r where r: "map_of (paGenerations a) (psRecordedGeneration st) = Some r"
    by (auto simp: framesRecord_def)
  have dg: "durableGeneration ?t = durableGeneration st" by (simp add: durableGeneration_def)
  have own: "projectOwner a ?t = Inr (?s\<lparr>seStatus := StatusStopped, sePID := 0, seProcessToken := [],
      seDetached := seDetached ?s\<rparr>)" by (simp add: projectOwner_def)
  have rt: "projectRuntime a ?t = Inr \<lparr>ersAppliedRevision = 0, ersAppliedHash = [], ersTransition = None\<rparr>"
    by (auto simp: projectRuntime_def r)
  have res: "SetEgressRuntimeState (?s\<lparr>seStatus := StatusStopped, sePID := 0, seProcessToken := []\<rparr>)
      \<lparr>ersAppliedRevision = 0, ersAppliedHash = [], ersTransition = None\<rparr> = stoppedRecord ?s"
    by (cases ?s) (simp add: SetEgressRuntimeState_def stoppedRecord_def)
  have ne: "?t \<noteq> paBaseline a"
  proof
    assume "?t = paBaseline a"
    then have "psStatus ?t = psStatus (paBaseline a)" by (rule arg_cong)
    with b show False by simp
  qed
  have "Candidate ?t a = Inr (stoppedRecord ?s)"
    unfolding Candidate_def projectCandidate_def tn Let_def
    using ne td stoppedRecord_valid [OF v] by (simp add: own rt d dg res)
  with red show ?thesis by blast
qed

section \<open>Interrupted transitions recover\<close>

lemma frameOwner_lookup:
  assumes "paOwners a = recordedOwners s" and "paOriginal a = s" and "seStatus s = StatusRunning"
  shows "map_of (paOwners (frameOwner a)) ProtocolOwnerA = Some \<lparr>coPid = sePID s, coToken = seProcessToken s\<rparr>"
  using assms by (auto simp: frameOwner_def recordedOwners_def)

lemma frameOwner_frame [simp]:
  "paGenerations (frameOwner a) = paGenerations a" "paOriginal (frameOwner a) = paOriginal a"
  "paBaseline (frameOwner a) = paBaseline a" "paClaimDetached (frameOwner a) = paClaimDetached a"
  by (auto simp: frameOwner_def split: option.splits)

text \<open>The two states of a persisted marker: the active apply and the blocked recovery.\<close>

lemma EgressTransitionStates_valid:
  assumes v: "validEgressRuntimeState s" and run: "seStatus s = StatusRunning"
    and t: "seEgressTransition s = Some t" and u: "\<not> networkUncertain s"
    and new: "NewProtocolAdapter s = (a, st0)"
  shows "\<exists>a' active recovery. EgressTransitionStates a = Inr (a', active, recovery)
    \<and> freshFrame s st0 a' \<and> framesRecord a' active \<and> framesRecord a' recovery
    \<and> map_of (paOwners a') ProtocolOwnerA = Some \<lparr>coPid = sePID s, coToken = seProcessToken s\<rparr>
    \<and> psStatus active = ProtocolRunning \<and> psOwners active = ProtocolOwnerA \<and> psDetached active = seDetached s
    \<and> psHealth active = ProtocolHealthy \<and> psMode active = ProtocolNormal \<and> psEffect active = ProtocolApply
    \<and> (psDirection active = ProtocolWidenDirection \<and> psOperation active = ProtocolWiden
         \<and> protocolPendingIsDurable active
       \<or> psDirection active = ProtocolNarrowDirection \<and> psOperation active = ProtocolNarrow)
    \<and> recovery = active\<lparr>psHealth := ProtocolUncertain, psMode := ProtocolBlocked,
         psOperation := ProtocolRecover, psEffect := ProtocolInspect, psResult := ProtocolFailure\<rparr>"
proof -
  have vs: "validStatus (seStatus s)" using run by (simp add: validStatus_def)
  have f: "freshFrame s st0 a" "framesRecord a st0" "paOwners a = recordedOwners s"
    using newAdapter_fresh [OF v vs new] by simp_all
  then have o: "paOriginal a = s" "paBaseline a = st0" "NormalizeProtocolState st0 = st0"
    by (simp_all add: freshFrame_def)
  let ?st1 = "st0\<lparr>psHealth := ProtocolHealthy, psMode := ProtocolNormal, psOperation := ProtocolIdle,
      psEffect := ProtocolNoEffect, psResult := ProtocolSuccess\<rparr>"
  have d1: "protocolStateInDomain zeroBounds ?st1"
    using framesRecord_domain [OF f(2)] by (simp add: protocolStateInDomain_iff)
  let ?m = "transitionFrame (tnDirection t) ?st1"
  from mapConcreteTransition_valid [OF v t o(1), of ?st1] obtain gens where
    m: "mapConcreteTransition s t a ?st1 = (a\<lparr>paGenerations := gens\<rparr>, ?m)"
    "tnDirection t = EgressDirectionWiden \<or> tnDirection t = EgressDirectionNarrow"
    "\<And>st'. sameGenerations ?m st' \<Longrightarrow> protocolStateInDomain zeroBounds st'
       \<Longrightarrow> framesRecord (a\<lparr>paGenerations := gens\<rparr>) st'" by blast
  let ?a = "frameOwner (a\<lparr>paGenerations := gens\<rparr>)"
  let ?op = "if tnDirection t = EgressDirectionWiden then ProtocolWiden else ProtocolNarrow"
  let ?active = "?m\<lparr>psStatus := ProtocolRunning, psOwners := ProtocolOwnerA, psDetached := seDetached s,
      psHealth := ProtocolHealthy, psMode := ProtocolNormal, psResult := ProtocolPending,
      psOperation := ?op, psEffect := ProtocolApply\<rparr>"
  let ?rec = "?active\<lparr>psHealth := ProtocolUncertain, psMode := ProtocolBlocked,
         psOperation := ProtocolRecover, psEffect := ProtocolInspect, psResult := ProtocolFailure\<rparr>"
  have da: "protocolStateInDomain zeroBounds ?active" and dr: "protocolStateInDomain zeroBounds ?rec"
    using transitionFrame_domain [OF d1, of "tnDirection t"] by (auto simp: protocolStateInDomain_iff)
  have fr: "framesRecord ?a st" if "sameGenerations ?m st" "protocolStateInDomain zeroBounds st" for st
    using m(3) [OF that] by (rule framesRecord_cong) (use that(2) in simp_all)
  have fa: "framesRecord ?a ?active" by (rule fr [OF _ da]) (simp add: sameGenerations_def)
  have fc: "framesRecord ?a ?rec" by (rule fr [OF _ dr]) (simp add: sameGenerations_def)
  have own: "map_of (paOwners ?a) ProtocolOwnerA = Some \<lparr>coPid = sePID s, coToken = seProcessToken s\<rparr>"
    by (rule frameOwner_lookup) (simp_all add: f(3) o(1) run)
  have run': "EgressTransitionStates a = Inr (?a, ?active, ?rec)"
    using m(2)
  proof (elim disjE)
    assume w: "tnDirection t = EgressDirectionWiden"
    show ?thesis
      by (simp add: EgressTransitionStates_def Let_def o t m(1) w run v u)
        (simp add: transitionFrame_def frameTransition_def NormalizeProtocolState_def)
  next
    assume w: "tnDirection t = EgressDirectionNarrow"
    show ?thesis
      by (simp add: EgressTransitionStates_def Let_def o t m(1) w run v u)
        (simp add: transitionFrame_def frameTransition_def NormalizeProtocolState_def)
  qed
  have ff: "freshFrame s st0 ?a" using f(1) by (simp add: freshFrame_def)
  have ctl: "psStatus ?active = ProtocolRunning \<and> psOwners ?active = ProtocolOwnerA
      \<and> psDetached ?active = seDetached s \<and> psHealth ?active = ProtocolHealthy
      \<and> psMode ?active = ProtocolNormal \<and> psEffect ?active = ProtocolApply" by simp
  have dir: "psDirection ?active = ProtocolWidenDirection \<and> psOperation ?active = ProtocolWiden
         \<and> protocolPendingIsDurable ?active
       \<or> psDirection ?active = ProtocolNarrowDirection \<and> psOperation ?active = ProtocolNarrow"
    by (simp add: transitionFrame_def frameTransition_def protocolPendingIsDurable_def)
  show ?thesis
    by (intro exI [of _ ?a] exI [of _ ?active] exI [of _ ?rec] conjI)
      (rule run' ff fa fc own dir refl ctl [THEN conjunct1] ctl [THEN conjunct2, THEN conjunct1]
        ctl [THEN conjunct2, THEN conjunct2, THEN conjunct1]
        ctl [THEN conjunct2, THEN conjunct2, THEN conjunct2, THEN conjunct1]
        ctl [THEN conjunct2, THEN conjunct2, THEN conjunct2, THEN conjunct2, THEN conjunct1]
        ctl [THEN conjunct2, THEN conjunct2, THEN conjunct2, THEN conjunct2, THEN conjunct2])+
qed




section \<open>Witnesses\<close>

definition runningWide :: Session where
  "runningWide = wideningSession\<lparr>seStatus := StatusRunning, sePID := 7, seProcessToken := ''t''\<rparr>"

lemma runningWide_valid: "validEgressRuntimeState runningWide"
proof -
  have "validEgressRuntimeState runningWide = validEgressRuntimeState wideningSession"
    by (rule validEgressRuntimeState_cong) (simp_all add: runningWide_def)
  then show ?thesis using wideningSession_valid by simp
qed

lemma runningWide_fields:
  "seStatus runningWide = StatusRunning" "\<not> networkUncertain runningWide"
  "\<exists>t. seEgressTransition runningWide = Some t"
  by (simp_all add: runningWide_def networkUncertain_def wideningSession_def Let_def)
    (simp add: sampleSession_def zeroSession_def)


lemma sample_adapter:
  obtains a st where "NewProtocolAdapter sampleSession = (a, st)" "framesRecord a st" "freshFrame sampleSession st a"
proof -
  obtain a st where new: "NewProtocolAdapter sampleSession = (a, st)" by fastforce
  have v: "validEgressRuntimeState sampleSession" "validStatus (seStatus sampleSession)"
    using validateRecord_Inr [of sampleSession] sampleSession_valid by simp_all
  from newAdapter_fresh [OF v new] new that show thesis by blast
qed

theorem inspected_generation_is_unambiguous_witness:
  "\<exists>symbol g c. GenerationEqual symbol g (fst (NewProtocolAdapter sampleSession))
     \<and> GenerationCandidate symbol (fst (NewProtocolAdapter sampleSession)) = Inr c
     \<and> canonicalEgressGeneration c (seEgressGrants c) (seGrantRevision c) = Some g"
proof -
  obtain a st where s: "NewProtocolAdapter sampleSession = (a, st)" "framesRecord a st"
    by (rule sample_adapter)
  have "adapterStart (fst (NewProtocolAdapter sampleSession))" by (auto simp: adapterStart_def)
  then have r: "adapterReach a" using s(1) by (auto intro: reach.reach_start)
  from framesRecord_GenerationEqual [OF s(2)] obtain g where "GenerationEqual (durableGeneration st) g a" by blast
  with inspected_generation_is_unambiguous [OF r this, of "durableGeneration st"] s(1)
  show ?thesis unfolding s(1) fst_conv by blast
qed

definition createdSample :: Session where
  "createdSample =
     sampleSession\<lparr>seStatus := StatusCreated, sePID := 0, seProcessToken := [], seStartedAt := 0\<rparr>"

lemma createdSample_fields:
  "seStatus createdSample = StatusCreated" "seEgressTransition createdSample = None"
  "seID createdSample = ''sess-1''" "seRecordRevision createdSample = 0" "sePID createdSample = 0"
  "seBackend createdSample = []" "seCredentialsRevoked createdSample = False"
  by (simp_all add: createdSample_def sampleSession_def zeroSession_def)

lemma createdSample_valid:
  "validEgressRuntimeState createdSample" "validateRecord createdSample = Inr ()"
proof -
  note s = validateRecord_Inr [of sampleSession] sampleSession_valid
  have "validEgressRuntimeState createdSample = validEgressRuntimeState sampleSession"
    by (rule validEgressRuntimeState_cong) (simp_all add: createdSample_def)
  moreover have "validEgressAuthority createdSample = validEgressAuthority sampleSession"
    by (simp add: validEgressAuthority_def createdSample_def CanGrant_def)
  moreover have "validRuntimeIdentity createdSample = validRuntimeIdentity sampleSession"
    by (simp add: validRuntimeIdentity_def createdSample_def)
  moreover have "seID createdSample = seID sampleSession" by (simp add: createdSample_def)
  moreover have "validStatus (seStatus createdSample)" by (simp add: createdSample_fields validStatus_def)
  ultimately show "validEgressRuntimeState createdSample" "validateRecord createdSample = Inr ()"
    using s by (simp_all add: validateRecord_Inr)
qed

theorem projected_candidate_is_framed_witness:
  "\<exists>cl c. ClaimState (fst (NewProtocolAdapter createdSample)) = Inr cl
     \<and> projectCandidate cl False (fst (NewProtocolAdapter createdSample)) = Inr c
     \<and> outOfModel c = outOfModel createdSample \<and> validEgressRuntimeState c"
proof -
  obtain a st where new: "NewProtocolAdapter createdSample = (a, st)" by fastforce
  note v = createdSample_valid(1)
  have o: "paOriginal a = createdSample"
    using newAdapter_fresh [OF v _ new] by (simp add: freshFrame_def createdSample_fields validStatus_def)
  from ClaimState_valid [OF v createdSample_fields(1) new] obtain cl where
    cl: "ClaimState a = Inr cl" "framesRecord a cl"
    "psHealth cl = ProtocolHealthy" "psStatus cl = ProtocolCreated" "psOwners cl = 0" "\<not> psDetached cl"
    "psMode cl = ProtocolNormal" "psOperation cl = ProtocolIdle" by blast
  have "\<exists>d. projectOwner a cl = Inr d" using cl(4-6) by (simp add: projectOwner_def Let_def)
  then obtain d where d: "projectOwner a cl = Inr d" ..
  have "projectCandidate cl False a = Inr d"
    by (rule project_live [OF cl(2) _ _ d]) (simp_all add: o v persistable_def cl createdSample_fields)
  with projected_candidate_is_framed [OF this] cl(1) o show ?thesis by (simp add: new)
qed

theorem commit_candidate_is_known_new_successor_witness:
  "\<exists>t. ReduceProtocol (replayed widenCommitEvents) (mkEvent ProtocolWidenCommit ProtocolKnownNew 0 ProtocolNoTruth)
         = (t, True)
     \<and> EffectCandidate (replayed widenCommitEvents) (fst (NewProtocolAdapter sampleSession))
         = Candidate t (fst (NewProtocolAdapter sampleSession))"
proof -
  let ?s = "replayed widenCommitEvents"
  let ?e = "mkEvent ProtocolWidenCommit ProtocolKnownNew 0 ProtocolNoTruth"
  let ?a = "fst (NewProtocolAdapter sampleSession)"
  have "snd (ReduceProtocol ?s ?e)" by code_simp
  then have t: "ReduceProtocol ?s ?e = (fst (ReduceProtocol ?s ?e), True)" by (metis prod.collapse)
  have "knownNewEvent ?e" by (simp add: knownNewEvent_def)
  with commit_candidate_is_known_new_successor [of ?s ?a _ ?e "fst (ReduceProtocol ?s ?e)"] replayed_reach(2) t
  show ?thesis by blast
qed

end
