(* ===== verification/SessionSockets.thy ===== *)
theory SessionSockets
  imports SessionStore Sha256
begin

text \<open>
  Where a session's unix socket lives and how it is swept (\<open>SocketPath\<close> to
  \<open>legacySocketRuntimeBase\<close> in \<open>internal/engine/session/session.go\<close>), over a model of
  \<open>path/filepath\<close>. The environment variables, the user id and the store directory are a record;
  what \<open>lstat\<close> says of the legacy name is a parameter.
\<close>

section \<open>\<open>path/filepath\<close>\<close>

definition slash :: char where "slash = CHR ''/''"

text \<open>One path element against the elements kept so far, last first.\<close>

definition cleanStep :: "bool \<Rightarrow> string list \<Rightarrow> string \<Rightarrow> string list" where
  "cleanStep rooted acc c =
     (if c = [] \<or> c = ''.'' then acc
      else if c = ''..'' then
        (case acc of
           [] \<Rightarrow> if rooted then [] else [''..'']
         | x # xs \<Rightarrow> if x = ''..'' then ''..'' # acc else xs)
      else c # acc)"

definition renderPath :: "bool \<Rightarrow> string list \<Rightarrow> string" where
  "renderPath rooted acc =
     (let body = joinWith [slash] (rev acc) in
      if rooted then slash # body else if body = [] then ''.'' else body)"

definition cleanPath :: "string \<Rightarrow> string" where
  "cleanPath p =
     (if p = [] then ''.''
      else let rooted = (hd p = slash) in
        renderPath rooted (foldl (cleanStep rooted) [] (splitOn slash p)))"

definition joinPath :: "string list \<Rightarrow> string" where
  "joinPath elems =
     (case dropWhile (\<lambda>e. e = []) elems of [] \<Rightarrow> [] | es \<Rightarrow> cleanPath (joinWith [slash] es))"

definition plainName :: "string \<Rightarrow> bool" where
  "plainName n \<longleftrightarrow> n \<noteq> [] \<and> n \<noteq> ''.'' \<and> n \<noteq> ''..'' \<and> slash \<notin> set n"

lemma splitOn_append_plain:
  "slash \<notin> set n \<Longrightarrow> splitOn slash (p @ slash # n) = splitOn slash p @ [n]"
proof (induction p)
  case Nil
  have "splitOn slash n = [n]" using Nil.prems by (induction n) auto
  then show ?case by simp
next
  case (Cons c p)
  then show ?case by (auto split: list.splits)
qed

text \<open>Joining a plain name appends it to the cleaned base, so only its length matters.\<close>

lemma joinPath_plain:
  assumes "plainName n" and "b \<noteq> []"
  shows "\<exists>acc. joinPath [b, n] = renderPath (hd b = slash) (n # acc)
           \<and> acc = foldl (cleanStep (hd b = slash)) [] (splitOn slash b)"
proof -
  have "hd (b @ slash # n) = hd b" using assms(2) by simp
  moreover have "slash \<notin> set n" using assms(1) by (simp add: plainName_def)
  ultimately show ?thesis
    using assms by (simp add: joinPath_def cleanPath_def Let_def splitOn_append_plain cleanStep_def plainName_def)
qed

lemma joinWith_snoc_length:
  "length (joinWith [slash] (xs @ [n])) = length (joinWith [slash] (xs @ [m])) + length n - length m
     \<and> length m \<le> length (joinWith [slash] (xs @ [m]))"
proof (induction xs)
  case (Cons x xs)
  then show ?case by (simp add: joinWith_Cons) linarith
qed simp

lemma joinPath_plain_length:
  assumes "plainName n" "plainName m" and "length n = length m" and "b \<noteq> []"
  shows "length (joinPath [b, n]) = length (joinPath [b, m])"
proof -
  let ?r = "hd b = slash"
  let ?acc = "foldl (cleanStep ?r) [] (splitOn slash b)"
  have eq: "length (joinWith [slash] (rev ?acc @ [n])) = length (joinWith [slash] (rev ?acc @ [m]))"
    using joinWith_snoc_length [of "rev ?acc" n m] assms(3) by simp
  have ne: "joinWith [slash] (rev ?acc @ [k]) \<noteq> []" if "plainName k" for k
    using that joinWith_snoc_length [of "rev ?acc" k k] by (auto simp: plainName_def)
  have "joinPath [b, k] = renderPath ?r (k # ?acc)" if "plainName k" for k
    using joinPath_plain [OF that assms(4)] by blast
  then show ?thesis using assms(1,2) eq ne by (cases "hd b = slash") (simp_all add: renderPath_def Let_def)
qed

section \<open>Socket paths\<close>

record socket_env =
  envDir :: string
  envXDG :: string
  envTemp :: string
  envUID :: int

definition maxUnixSocketPathLen :: nat where
  "maxUnixSocketPathLen = 103"

definition socketFileName :: "socket_env \<Rightarrow> string \<Rightarrow> string" where
  "socketFileName env i =
     ''safeslop-'' @ hexEncode (take 8 (sum256 (map byte (envDir env @ CHR 0x00 # i)))) @ ''.sock''"

definition socketRuntimeBase :: "socket_env \<Rightarrow> string" where
  "socketRuntimeBase env =
     (let candidate = joinPath [envXDG env, ''safeslop''] in
      if envXDG env \<noteq> []
         \<and> length (joinPath [candidate, ''safeslop-0000000000000000.sock'']) \<le> maxUnixSocketPathLen
      then candidate
      else joinPath [''/tmp'', ''ss-'' @ intText (envUID env)])"

definition legacySocketRuntimeBase :: "socket_env \<Rightarrow> string" where
  "legacySocketRuntimeBase env = (if envXDG env \<noteq> [] then envXDG env else envTemp env)"

definition naturalSocket :: "socket_env \<Rightarrow> string \<Rightarrow> string" where
  "naturalSocket env i = joinPath [envDir env, i @ ''.sock'']"

definition SocketPath :: "socket_env \<Rightarrow> string \<Rightarrow> string" where
  "SocketPath env i =
     (if length (naturalSocket env i) \<le> maxUnixSocketPathLen then naturalSocket env i
      else joinPath [socketRuntimeBase env, socketFileName env i])"

definition SocketPaths :: "socket_env \<Rightarrow> string \<Rightarrow> string list" where
  "SocketPaths env i =
     (let current = SocketPath env i;
          legacy = joinPath [legacySocketRuntimeBase env, socketFileName env i] in
      if current = legacy \<or> length (naturalSocket env i) \<le> maxUnixSocketPathLen then [current]
      else [current, legacy])"

section \<open>Directory check and sweep\<close>

text \<open>What \<open>lstat\<close> says of the socket directory after \<open>MkdirAll\<close>.\<close>

record dir_info =
  diIsDir :: bool
  diSymlink :: bool
  diUID :: "int option"

definition EnsureSocketDir :: "socket_env \<Rightarrow> dir_info \<Rightarrow> unit io" where
  "EnsureSocketDir env info =
     bindIO osCall (\<lambda>_. \<comment> \<open>mkdir\<close>
     bindIO osCall (\<lambda>_. \<comment> \<open>lstat\<close>
     if \<not> diIsDir info \<or> diSymlink info \<or> diUID info \<noteq> Some (envUID env) then failIO ErrWorkspace
     else osCall)) \<comment> \<open>chmod\<close>"

datatype legacy_node = LegacyAbsent | LegacyForeign | LegacyOwned

definition removeSocket :: "string \<Rightarrow> unit io" where
  "removeSocket path = bindIO osCall (\<lambda>_. emit (EvSocketRemoved path))"

text \<open>The loop body: the first path is always removed, a later one only when it is ours.\<close>

fun sweepSockets :: "(string \<Rightarrow> legacy_node) \<Rightarrow> nat \<Rightarrow> string list \<Rightarrow> unit io" where
  "sweepSockets legacy index [] = retIO ()"
| "sweepSockets legacy index (path # paths) =
     (if index = 0 then bindIO (removeSocket path) (\<lambda>_. sweepSockets legacy (index + 1) paths)
      else bindIO osCall (\<lambda>_. \<comment> \<open>lstat\<close>
        case legacy path of
          LegacyOwned \<Rightarrow> bindIO (removeSocket path) (\<lambda>_. sweepSockets legacy (index + 1) paths)
        | _ \<Rightarrow> sweepSockets legacy (index + 1) paths))"

definition removeSocketFiles :: "socket_env \<Rightarrow> (string \<Rightarrow> legacy_node) \<Rightarrow> string \<Rightarrow> unit io" where
  "removeSocketFiles env legacy i = sweepSockets legacy 0 (SocketPaths env i)"

section \<open>A socket path always fits\<close>

lemma socketFileName_shape: "length (socketFileName env i) = 30 \<and> plainName (socketFileName env i)"
proof -
  let ?m = "map byte (envDir env @ CHR 0x00 # i)"
  have "list_all (\<lambda>b. b < 256) (take 8 (sum256 ?m))"
    using sum256_shape [of ?m] by (auto simp: list_all_iff dest: in_set_takeD)
  from hexEncode_shape [OF this] sum256_shape [of ?m]
  have h: "length (hexEncode (take 8 (sum256 ?m))) = 16" "list_all isLowerHex (hexEncode (take 8 (sum256 ?m)))"
    by simp_all
  have "slash \<notin> set (hexEncode (take 8 (sum256 ?m)))"
    using h(2) by (auto simp: list_all_iff slash_def char_class_defs byte_def)
  with h(1) show ?thesis by (simp add: socketFileName_def plainName_def slash_def)
qed

lemma natText_length: "n < 10 ^ k \<Longrightarrow> length (natText n) \<le> max 1 k"
proof (induction k arbitrary: n)
  case 0
  then show ?case by (subst natText.simps) simp
next
  case (Suc k)
  show ?case
  proof (cases "n < 10")
    case False
    then have "n div 10 < 10 ^ k" using Suc.prems by (simp add: less_mult_imp_div_less mult.commute)
    from Suc.IH [OF this] False show ?thesis
      by (subst natText.simps) (use Suc.prems False in \<open>cases k; auto simp: max_def split: if_splits\<close>)
  qed (subst natText.simps, simp)
qed

lemma privateBase:
  assumes "0 \<le> uid"
  shows "joinPath [''/tmp'', ''ss-'' @ intText uid] = ''/tmp/ss-'' @ intText uid"
    and "plainName (''ss-'' @ intText uid)"
proof -
  have "slash \<notin> set (intText uid)"
    using intText_chars [of slash uid] by (auto simp: slash_def char_class_defs byte_def)
  then show p: "plainName (''ss-'' @ intText uid)" by (simp add: plainName_def slash_def)
  from joinPath_plain [OF this, of "''/tmp''"]
  show "joinPath [''/tmp'', ''ss-'' @ intText uid] = ''/tmp/ss-'' @ intText uid"
    by (simp add: slash_def renderPath_def cleanStep_def)
qed

lemma privateSocket:
  assumes "0 \<le> uid" and "plainName n"
  shows "joinPath [''/tmp/ss-'' @ intText uid, n] = ''/tmp/ss-'' @ intText uid @ slash # n"
proof -
  have u: "plainName (''ss-'' @ intText uid)" by (rule privateBase [OF assms(1)])
  then have "slash \<notin> set (''ss-'' @ intText uid)" unfolding plainName_def by blast
  from splitOn_append_plain [OF this, of "''/tmp''"]
  have "splitOn slash (''/tmp/ss-'' @ intText uid) = [[], ''tmp'', ''ss-'' @ intText uid]"
    by (simp add: slash_def)
  moreover have "''ss-'' @ intText uid \<noteq> ''..''" "''ss-'' @ intText uid \<noteq> ''.''" by simp_all
  ultimately show ?thesis
    using joinPath_plain [OF assms(2), of "''/tmp/ss-'' @ intText uid"]
    by (simp add: renderPath_def cleanStep_def slash_def)
qed

text \<open>(C18) A detached session's socket always fits \<open>sun_path\<close>: whatever the state directory and
  the runtime directory are, the bound path is at most 103 bytes, and when the natural path is
  too long it is relocated under the hashed name, in the per-user runtime directory.\<close>

theorem socket_path_fits:
  assumes "0 \<le> envUID env" and "envUID env < 2 ^ 63"
  shows "length (SocketPath env i) \<le> maxUnixSocketPathLen
       \<and> (SocketPath env i \<noteq> naturalSocket env i \<longrightarrow>
            SocketPath env i = joinPath [socketRuntimeBase env, socketFileName env i]
            \<and> length (naturalSocket env i) > maxUnixSocketPathLen)"
proof -
  let ?n = "socketFileName env i"
  have n: "plainName ?n" "length ?n = 30" using socketFileName_shape by simp_all
  have z: "plainName ''safeslop-0000000000000000.sock''" "length ''safeslop-0000000000000000.sock'' = 30"
    by (simp_all add: plainName_def slash_def)
  have "length (joinPath [socketRuntimeBase env, ?n]) \<le> maxUnixSocketPathLen"
  proof (cases "envXDG env \<noteq> [] \<and> length (joinPath [joinPath [envXDG env, ''safeslop''],
      ''safeslop-0000000000000000.sock'']) \<le> maxUnixSocketPathLen")
    case True
    have "plainName ''safeslop''" by (simp add: plainName_def slash_def)
    from joinPath_plain [OF this, of "envXDG env"] True
    have "joinPath [envXDG env, ''safeslop''] \<noteq> []"
      by (auto simp: renderPath_def Let_def)
    from joinPath_plain_length [OF n(1) z(1) _ this] n(2) z(2) True
    show ?thesis by (simp add: socketRuntimeBase_def)
  next
    case False
    have "nat (envUID env) < 10 ^ 19" using assms(2) by simp
    from natText_length [OF this] have "length (intText (envUID env)) \<le> 19"
      using assms(1) by (simp add: intText_def)
    moreover have "socketRuntimeBase env = ''/tmp/ss-'' @ intText (envUID env)"
      using False privateBase(1) [OF assms(1)] by (auto simp: socketRuntimeBase_def Let_def)
    ultimately show ?thesis
      using n privateSocket [OF assms(1) n(1)] by (simp add: maxUnixSocketPathLen_def)
  qed
  then show ?thesis by (auto simp: SocketPath_def)
qed

text \<open>The witness has a state directory of 120 bytes.\<close>

definition longEnv :: socket_env where
  "longEnv = \<lparr>envDir = CHR ''/'' # replicate 120 CHR ''d'', envXDG = [], envTemp = ''/tmp'', envUID = 501\<rparr>"

theorem socket_path_fits_witness:
  "length (naturalSocket longEnv ''sess-1'') > maxUnixSocketPathLen
     \<and> length (SocketPath longEnv ''sess-1'') \<le> maxUnixSocketPathLen"
proof -
  have "length (naturalSocket longEnv ''sess-1'') > maxUnixSocketPathLen" by code_simp
  moreover have "0 \<le> envUID longEnv" "envUID longEnv < 2 ^ 63" by (simp_all add: longEnv_def)
  ultimately show ?thesis using socket_path_fits [of longEnv "''sess-1''"] by blast
qed

end
