(* ===== verification/SessionLifecycle.thy ===== *)
theory SessionLifecycle
  imports ProtocolAdapter SessionSockets
begin

text \<open>
  The lifecycle handlers of \<open>internal/engine/session/session.go\<close>: claim, handoff, release,
  finish, rename, reconcile, stop, remove and prune, each under the record lock of the store.
  What the caller passes in (credential revocation, the kill, reapers, liveness) and what the
  kernel answers are parameters; every use of a callback leaves an event in the trace.
\<close>

section \<open>The process table and callbacks\<close>

record process_table =
  ptToken :: "int \<Rightarrow> string option"
  ptSignal0 :: "int \<Rightarrow> bool"

definition ProcessAlive :: "process_table \<Rightarrow> int \<Rightarrow> bool" where
  "ProcessAlive pt pid \<longleftrightarrow> (if pid \<le> 0 then False else ptSignal0 pt pid)"

definition ProcessAliveSession :: "process_table \<Rightarrow> Session \<Rightarrow> bool" where
  "ProcessAliveSession pt s \<longleftrightarrow>
     (if seProcessToken s = [] then ProcessAlive pt (sePID s)
      else ptToken pt (sePID s) = Some (seProcessToken s))"

definition processToken :: "process_table \<Rightarrow> int \<Rightarrow> string" where
  "processToken pt pid = (case ptToken pt pid of None \<Rightarrow> [] | Some t \<Rightarrow> t)"

type_synonym callback = "Session \<Rightarrow> (session_error, unit) res"

definition invoke :: "event \<Rightarrow> (session_error, unit) res \<Rightarrow> unit io" where
  "invoke ev r = bindIO (emit ev) (\<lambda>_. liftIO r)"

text \<open>The reap loop; a nil entry is skipped.\<close>

fun reapAll :: "nat \<Rightarrow> callback option list \<Rightarrow> Session \<Rightarrow> unit io" where
  "reapAll n [] s = retIO ()"
| "reapAll n (None # fs) s = reapAll (n + 1) fs s"
| "reapAll n (Some f # fs) s =
     bindIO (invoke (EvReaped n (seID s)) (f s)) (\<lambda>_. reapAll (n + 1) fs s)"

record host =
  hsTable :: process_table
  hsSockets :: socket_env
  hsLegacy :: "string \<Rightarrow> legacy_node"

definition sweep :: "host \<Rightarrow> string \<Rightarrow> unit io" where
  "sweep h i = removeSocketFiles (hsSockets h) (hsLegacy h) i"

section \<open>Claim\<close>

text \<open>\<open>errors.Is(commitErr, ErrCommitUncertain)\<close> on the error of a commit, \<open>None\<close> its success.\<close>

definition reduceClaimCommitOutcome :: "ProtocolState \<Rightarrow> session_error option \<Rightarrow> bool" where
  "reduceClaimCommitOutcome st commitErr =
     (case commitErr of
        None \<Rightarrow> snd (ReduceProtocol st
                  (outcomeEvent ProtocolClaimCommit ProtocolKnownNew ProtocolNoTruth))
      | Some e \<Rightarrow>
          if e = ErrCommitUncertain
          then list_all (\<lambda>truth.
                 case ReduceProtocol st (outcomeEvent ProtocolClaimCommit ProtocolCommitUnknown truth) of
                   (next, ok) \<Rightarrow> ok \<and> psHealth next = ProtocolUncertain \<and> psMode next = ProtocolBlocked)
                 [ProtocolOld, ProtocolNew]
          else snd (ReduceProtocol st
                 (outcomeEvent ProtocolClaimCommit ProtocolKnownOld ProtocolNoTruth)))"

definition commitError :: "(session_error, 'a) res \<Rightarrow> session_error option" where
  "commitError r = (case r of Inl e \<Rightarrow> Some e | Inr _ \<Rightarrow> None)"

text \<open>A reducer step whose rejection is an error.\<close>

definition stepOr :: "session_error \<Rightarrow> ProtocolState \<Rightarrow> ProtocolEvent \<Rightarrow> (session_error, ProtocolState) res" where
  "stepOr err st e = (case ReduceProtocol st e of (next, ok) \<Rightarrow> if ok then Inr next else Inl err)"

definition claimCandidate ::
  "process_table \<Rightarrow> int \<Rightarrow> bool \<Rightarrow> time \<Rightarrow> Session \<Rightarrow> (session_error, ProtocolState \<times> Session) res" where
  "claimCandidate pt pid detached now s =
     (case NewProtocolAdapter s of (adapter, _) \<Rightarrow>
      rbind (ClaimState adapter) (\<lambda>state.
      rbind (stepOr ErrProtocol state (plainEvent ProtocolClaimStart)) (\<lambda>state.
      rbind (BindClaimOwner pid (processToken pt pid) detached adapter) (\<lambda>adapter.
      rbind (EffectCandidate state adapter) (\<lambda>candidate.
      Inr (state, candidate\<lparr>seStartedAt := now, seUpdatedAt := now\<rparr>))))))"

definition markRunning :: "host \<Rightarrow> string \<Rightarrow> int \<Rightarrow> bool \<Rightarrow> time \<Rightarrow> Session io" where
  "markRunning h i pid detached now =
     (if pid \<le> 0 then failIO ErrInvalidProcess
      else WithLocked i (\<lambda>s.
        case seStatus s of
          StatusRunning \<Rightarrow> failIO ErrSessionRunning
        | StatusCreated \<Rightarrow>
            bindIO (liftIO (claimCandidate (hsTable h) pid detached now s)) (\<lambda>(state, candidate).
            bindIO (tryIO (Commit s candidate)) (\<lambda>r.
            if \<not> reduceClaimCommitOutcome state (commitError r) then failIO ErrProtocol
            else liftIO r))
        | _ \<Rightarrow> failIO ErrSessionStopped))"

definition MarkRunning :: "host \<Rightarrow> string \<Rightarrow> int \<Rightarrow> time \<Rightarrow> Session io" where
  "MarkRunning h i pid now = markRunning h i pid False now"

definition MarkRunningDetached :: "host \<Rightarrow> string \<Rightarrow> int \<Rightarrow> time \<Rightarrow> Session io" where
  "MarkRunningDetached h i pid now = markRunning h i pid True now"

section \<open>Handoff and release\<close>

definition exactLiveOwner :: "host \<Rightarrow> int \<Rightarrow> Session \<Rightarrow> bool" where
  "exactLiveOwner h pid s \<longleftrightarrow>
     \<not> (seStatus s \<noteq> StatusRunning \<or> seDetached s \<or> sePID s \<noteq> pid
        \<or> \<not> ProcessAliveSession (hsTable h) s)"

definition handoffCandidate :: "process_table \<Rightarrow> int \<Rightarrow> time \<Rightarrow> Session \<Rightarrow> (session_error, Session) res" where
  "handoffCandidate pt supervisor now s =
     (case NewProtocolAdapter s of (adapter, _) \<Rightarrow>
      rbind (OwnerActionState adapter) (\<lambda>(adapter, state).
      rbind (stepOr ErrStaleRecord state (plainEvent ProtocolHandoffExact)) (\<lambda>next.
      rbind (BindHandoffOwner supervisor (processToken pt supervisor) adapter) (\<lambda>adapter.
      rbind (Candidate next adapter) (\<lambda>candidate.
      Inr (candidate\<lparr>seUpdatedAt := now\<rparr>))))))"

definition HandoffRunningDetached :: "host \<Rightarrow> string \<Rightarrow> int \<Rightarrow> int \<Rightarrow> time \<Rightarrow> Session io" where
  "HandoffRunningDetached h i parent supervisor now =
     (if parent \<le> 0 \<or> supervisor \<le> 0 then failIO ErrInvalidProcess
      else WithLocked i (\<lambda>s.
        if \<not> exactLiveOwner h parent s then failIO ErrStaleRecord
        else bindIO (liftIO (handoffCandidate (hsTable h) supervisor now s)) (\<lambda>candidate.
          Commit s candidate)))"

definition releaseCandidate :: "time \<Rightarrow> Session \<Rightarrow> (session_error, Session) res" where
  "releaseCandidate now s =
     (case NewProtocolAdapter s of (adapter, _) \<Rightarrow>
      rbind (OwnerActionState adapter) (\<lambda>(adapter, state).
      rbind (stepOr ErrStaleRecord state (plainEvent ProtocolReleaseExact)) (\<lambda>next.
      rbind (Candidate next adapter) (\<lambda>candidate.
      Inr (candidate\<lparr>seUpdatedAt := now\<rparr>)))))"

definition ReleaseRunningClaim :: "host \<Rightarrow> string \<Rightarrow> int \<Rightarrow> time \<Rightarrow> Session io" where
  "ReleaseRunningClaim h i pid now =
     WithLocked i (\<lambda>s.
       if \<not> exactLiveOwner h pid s then failIO ErrStaleRecord
       else bindIO (liftIO (releaseCandidate now s)) (\<lambda>candidate. Commit s candidate))"

section \<open>Teardown\<close>

definition completeTeardownProtocol :: "ProtocolAdapter \<Rightarrow> ProtocolState \<Rightarrow> (session_error, Session) res" where
  "completeTeardownProtocol adapter state =
     rbind (stepOr ErrProtocol state
              (outcomeEvent ProtocolTeardownAction ProtocolTeardownProven ProtocolNoTruth))
       (\<lambda>terminal. Candidate terminal adapter)"

definition finishCandidate :: "Session \<Rightarrow> (session_error, Session) res" where
  "finishCandidate s =
     (case NewProtocolAdapter s of (adapter, state) \<Rightarrow>
      case seStatus s of
        StatusRunning \<Rightarrow>
          rbind (if sePID s > 0
                 then rbind (OwnerActionState adapter) (\<lambda>(adapter, state).
                      rbind (stepOr ErrProtocol state (plainEvent ProtocolStopStart)) (\<lambda>state.
                      Inr (adapter, state)))
                 else rbind (BlockedTeardownState adapter) (\<lambda>(adapter, state).
                      rbind (stepOr ErrProtocol state (plainEvent ProtocolRequestTeardown)) (\<lambda>state.
                      Inr (adapter, state))))
            (\<lambda>(adapter, state). completeTeardownProtocol adapter state)
      | StatusCreated \<Rightarrow>
          rbind (BlockedTeardownState adapter) (\<lambda>(adapter, state).
          rbind (stepOr ErrProtocol state (plainEvent ProtocolRequestTeardown)) (\<lambda>state.
          completeTeardownProtocol adapter state))
      | StatusStopped \<Rightarrow>
          rbind (stepOr ErrProtocol state (plainEvent ProtocolTerminalStutter)) (\<lambda>_.
          TerminalCandidate state adapter)
      | StatusOther _ \<Rightarrow> Inl ErrCorruptRecord)"

definition finishedSession :: "int \<Rightarrow> string \<Rightarrow> time \<Rightarrow> Failure option \<Rightarrow> Session \<Rightarrow> Session" where
  "finishedSession exitCode lastErr now failure candidate =
     (let c = candidate\<lparr>seExitCode := Some exitCode, seLastFailure := None\<rparr>;
          c = (case failure of Some f \<Rightarrow> SetFailure c f | None \<Rightarrow> c\<lparr>seLastError := lastErr\<rparr>) in
      c\<lparr>seStoppedAt := now, seUpdatedAt := now\<rparr>)"

definition Finish :: "string \<Rightarrow> int \<Rightarrow> string \<Rightarrow> time \<Rightarrow> Failure option \<Rightarrow> Session io" where
  "Finish i exitCode lastErr now failure =
     WithLocked i (\<lambda>s.
       bindIO (liftIO (finishCandidate s)) (\<lambda>candidate.
       Commit s (finishedSession exitCode lastErr now failure candidate)))"

section \<open>Names\<close>

definition maxNameRunes :: nat where
  "maxNameRunes = 64"

text \<open>The code points of the Unicode categories Cc, Cf, Zl and Zp.\<close>

definition disallowedRanges :: "(nat \<times> nat) list" where
  "disallowedRanges =
     [(0x00, 0x1F), (0x7F, 0x9F), (0xAD, 0xAD), (0x600, 0x605), (0x61C, 0x61C), (0x6DD, 0x6DD),
      (0x70F, 0x70F), (0x890, 0x891), (0x8E2, 0x8E2), (0x180E, 0x180E), (0x200B, 0x200F),
      (0x2028, 0x2029), (0x202A, 0x202E), (0x2060, 0x2064), (0x2066, 0x206F), (0xFEFF, 0xFEFF),
      (0xFFF9, 0xFFFB), (0x110BD, 0x110BD), (0x110CD, 0x110CD), (0x13430, 0x1343F),
      (0x1BCA0, 0x1BCA3), (0x1D173, 0x1D17A), (0xE0001, 0xE0001), (0xE0020, 0xE007F)]"

definition disallowedRune :: "nat \<Rightarrow> bool" where
  "disallowedRune r \<longleftrightarrow> list_ex (\<lambda>(lo, hi). lo \<le> r \<and> r \<le> hi) disallowedRanges"

definition ValidateName :: "string \<Rightarrow> (session_error, string) res" where
  "ValidateName raw =
     (let name = trimSpace raw in
      if name = [] then Inr []
      else case find disallowedRune (runes name) of
        Some r \<Rightarrow> Inl (ErrNameControl r)
      | None \<Rightarrow> if length (runes name) > maxNameRunes then Inl ErrNameTooLong else Inr name)"

definition Rename :: "string \<Rightarrow> string \<Rightarrow> time \<Rightarrow> Session io" where
  "Rename i name now =
     bindIO (liftIO (ValidateName name)) (\<lambda>name.
     Update i (\<lambda>s. Inr (s\<lparr>seName := name, seUpdatedAt := now\<rparr>)))"

section \<open>Reconcile\<close>

text \<open>\<open>None\<close> is the unchanged case: not running, no process recorded, or its owner lives.\<close>

definition startReconcileProtocol ::
  "Session \<Rightarrow> (Session \<Rightarrow> bool) \<Rightarrow> (session_error, (ProtocolAdapter \<times> ProtocolState) option) res" where
  "startReconcileProtocol s isAlive =
     (if seStatus s \<noteq> StatusRunning \<or> sePID s \<le> 0 \<or> isAlive s then Inr None
      else case NewProtocolAdapter s of (adapter, _) \<Rightarrow>
        rbind (OwnerActionState adapter) (\<lambda>(adapter, state).
        rbind (stepOr ErrProtocol state (plainEvent ProtocolStopStart)) (\<lambda>state.
        if psEffect state \<noteq> ProtocolTeardownEffect then Inl ErrProtocol
        else Inr (Some (adapter, state)))))"

definition reconcileError :: string where
  "reconcileError = ''run process exited without recording status''"

definition completeReconcileProtocol ::
  "ProtocolAdapter \<Rightarrow> ProtocolState \<Rightarrow> time \<Rightarrow> (session_error, Session) res" where
  "completeReconcileProtocol adapter state now =
     rbind (completeTeardownProtocol adapter state) (\<lambda>candidate.
     Inr (candidate\<lparr>seLastError := reconcileError, seStoppedAt := now, seUpdatedAt := now\<rparr>))"

text \<open>The pure transition; the flag says whether the record changed.\<close>

definition reconcile :: "Session \<Rightarrow> time \<Rightarrow> (Session \<Rightarrow> bool) \<Rightarrow> (session_error, Session \<times> bool) res" where
  "reconcile s now isAlive =
     rbind (startReconcileProtocol s isAlive) (\<lambda>started.
     case started of
       None \<Rightarrow> Inr (s, False)
     | Some (adapter, state) \<Rightarrow>
         rbind (completeReconcileProtocol adapter state now) (\<lambda>c. Inr (c, True)))"

definition GetReconciled ::
  "host \<Rightarrow> string \<Rightarrow> time \<Rightarrow> (Session \<Rightarrow> bool) \<Rightarrow> callback option list \<Rightarrow> Session io" where
  "GetReconciled h i now isAlive reap =
     WithLocked i (\<lambda>s.
       bindIO (liftIO (startReconcileProtocol s isAlive)) (\<lambda>started.
       case started of
         None \<Rightarrow> retIO s
       | Some (adapter, state) \<Rightarrow>
           bindIO (reapAll 0 reap s) (\<lambda>_.
           bindIO (sweep h i) (\<lambda>_.
           bindIO (liftIO (completeReconcileProtocol adapter state now)) (\<lambda>fixed.
           Commit s fixed)))))"

fun mapIO :: "('a \<Rightarrow> 'b io) \<Rightarrow> 'a list \<Rightarrow> 'b list io" where
  "mapIO f [] = retIO []"
| "mapIO f (x # xs) = bindIO (f x) (\<lambda>y. bindIO (mapIO f xs) (\<lambda>ys. retIO (y # ys)))"

definition ListReconciled ::
  "host \<Rightarrow> time \<Rightarrow> (Session \<Rightarrow> bool) \<Rightarrow> callback option list \<Rightarrow> Session list io" where
  "ListReconciled h now isAlive reap =
     bindIO ListSessions (\<lambda>snapshot.
     mapIO (\<lambda>s. GetReconciled h (seID s) now isAlive reap) snapshot)"

section \<open>Stop\<close>

definition signalTarget :: "Session \<Rightarrow> int" where
  "signalTarget s = (if seDetached s then wrap_int (- sePID s) else sePID s)"

text \<open>The signal branch up to the kill, and the branch without a signal.\<close>

definition signalTeardown :: "Session \<Rightarrow> (session_error, ProtocolAdapter \<times> ProtocolState) res" where
  "signalTeardown s =
     rbind (SignalAuthorizationState (fst (NewProtocolAdapter s))) (\<lambda>(adapter, state).
     rbind (stepOr ErrProtocol state (plainEvent ProtocolStopStart)) (\<lambda>teardown.
     if psEffect teardown \<noteq> ProtocolTeardownEffect then Inl ErrProtocol
     else Inr (adapter, teardown)))"

definition blockedTeardown :: "Session \<Rightarrow> (session_error, ProtocolAdapter \<times> ProtocolState) res" where
  "blockedTeardown s =
     rbind (BlockedTeardownState (fst (NewProtocolAdapter s))) (\<lambda>(adapter, state).
     rbind (stepOr ErrProtocol state (plainEvent ProtocolRequestTeardown)) (\<lambda>teardown.
     if psEffect teardown \<noteq> ProtocolTeardownEffect then Inl ErrProtocol
     else Inr (adapter, teardown)))"

definition stopTeardown ::
  "(int \<Rightarrow> (session_error, unit) res) \<Rightarrow> (Session \<Rightarrow> bool) option \<Rightarrow> Session
   \<Rightarrow> (ProtocolAdapter \<times> ProtocolState) io" where
  "stopTeardown killProcess processAlive s =
     (if sePID s \<noteq> 0 \<and> (case processAlive of None \<Rightarrow> False | Some alive \<Rightarrow> alive s)
      then bindIO (liftIO (signalTeardown s)) (\<lambda>td.
           bindIO (invoke (EvKilled (signalTarget s)) (killProcess (signalTarget s))) (\<lambda>_. retIO td))
      else liftIO (blockedTeardown s))"

definition revokedSession :: "Session \<Rightarrow> time \<Rightarrow> Session" where
  "revokedSession s now = s\<lparr>seCredentialsRevoked := True, seRevokedAt := now\<rparr>"

definition stopStopped :: "bool \<Rightarrow> time \<Rightarrow> callback \<Rightarrow> Session \<Rightarrow> Session io" where
  "stopStopped revoke now revokeCredentials s =
     (case NewProtocolAdapter s of (adapter, state) \<Rightarrow>
      bindIO (liftIO (stepOr ErrProtocol state (plainEvent ProtocolTerminalStutter))) (\<lambda>_.
      if revoke \<and> \<not> seCredentialsRevoked s
      then bindIO (invoke (EvRevoked (seID s)) (revokeCredentials s)) (\<lambda>_.
           bindIO (liftIO (Candidate state adapter)) (\<lambda>candidate.
           Commit s ((revokedSession candidate now)\<lparr>seUpdatedAt := now\<rparr>)))
      else retIO s))"

definition stopActive ::
  "host \<Rightarrow> string \<Rightarrow> bool \<Rightarrow> time \<Rightarrow> callback \<Rightarrow> (int \<Rightarrow> (session_error, unit) res)
   \<Rightarrow> (Session \<Rightarrow> bool) option \<Rightarrow> callback option list \<Rightarrow> Session \<Rightarrow> Session io" where
  "stopActive h i revoke now revokeCredentials killProcess processAlive reap s0 =
     bindIO (if revoke \<and> \<not> seCredentialsRevoked s0
             then bindIO (invoke (EvRevoked (seID s0)) (revokeCredentials s0)) (\<lambda>_.
                  retIO (revokedSession s0 now))
             else retIO s0) (\<lambda>s.
     bindIO (stopTeardown killProcess processAlive s) (\<lambda>(adapter, teardown).
     bindIO (sweep h i) (\<lambda>_.
     bindIO (reapAll 0 reap s) (\<lambda>_.
     bindIO (liftIO (completeTeardownProtocol adapter teardown)) (\<lambda>candidate.
     Commit s0 (candidate\<lparr>seStoppedAt := now, seUpdatedAt := now\<rparr>))))))"

definition Stop ::
  "host \<Rightarrow> string \<Rightarrow> bool \<Rightarrow> time \<Rightarrow> callback \<Rightarrow> (int \<Rightarrow> (session_error, unit) res)
   \<Rightarrow> (Session \<Rightarrow> bool) option \<Rightarrow> callback option list \<Rightarrow> Session io" where
  "Stop h i revoke now revokeCredentials killProcess processAlive reap =
     WithLocked i (\<lambda>s.
       if seStatus s = StatusStopped then stopStopped revoke now revokeCredentials s
       else stopActive h i revoke now revokeCredentials killProcess processAlive reap s)"

section \<open>Removal\<close>

definition removeLocked ::
  "host \<Rightarrow> string \<Rightarrow> callback option \<Rightarrow> callback option list \<Rightarrow> Session io" where
  "removeLocked h i revokeCredentials reap =
     bindIO (getUnlocked i) (\<lambda>s.
     if seStatus s = StatusRunning then failIO ErrSessionRunning
     else
       bindIO (case revokeCredentials of
                 Some f \<Rightarrow> if seCredentialsRevoked s then retIO ()
                          else invoke (EvRevoked (seID s)) (f s)
               | None \<Rightarrow> retIO ()) (\<lambda>_.
       bindIO (reapAll 0 reap s) (\<lambda>_.
       bindIO (sweep h i) (\<lambda>_.
       bindIO (removeRecordAtomic (recordName i)) (\<lambda>_. retIO s)))))"

definition Remove ::
  "host \<Rightarrow> string \<Rightarrow> callback option \<Rightarrow> callback option list \<Rightarrow> Session io" where
  "Remove h i revokeCredentials reap =
     withRecordLock i (removeLocked h i revokeCredentials reap)"

text \<open>The ids removed so far are returned also when a later removal fails.\<close>

fun pruneLoop ::
  "host \<Rightarrow> callback option \<Rightarrow> callback option list \<Rightarrow> string list \<Rightarrow> Session list
   \<Rightarrow> (string list \<times> session_error option) io" where
  "pruneLoop h revokeCredentials reap removed [] = retIO (removed, None)"
| "pruneLoop h revokeCredentials reap removed (s # ss) =
     (if seStatus s \<noteq> StatusStopped then pruneLoop h revokeCredentials reap removed ss
      else bindIO (tryIO (Remove h (seID s) revokeCredentials reap)) (\<lambda>r.
        case r of
          Inl e \<Rightarrow> retIO (removed, Some e)
        | Inr _ \<Rightarrow> pruneLoop h revokeCredentials reap (removed @ [seID s]) ss))"

definition PruneStopped ::
  "host \<Rightarrow> callback option \<Rightarrow> callback option list \<Rightarrow> (string list \<times> session_error option) io" where
  "PruneStopped h revokeCredentials reap =
     bindIO ListSessions (\<lambda>sessions. pruneLoop h revokeCredentials reap [] sessions)"

end
