(* ===== verification/LifecycleLaws.thy ===== *)
theory LifecycleLaws
  imports SessionLifecycle SessionStoreLaws AdapterProjection "HOL-Library.Sublist"
begin

text \<open>
  Laws of the lifecycle handlers under arbitrary faults and callbacks: a claim is exclusive, the
  effects of stop and remove come in a fixed order and all precede the durable change, a live
  owner is never reconciled away, and without faults a stop always ends in the stopped record.
\<close>

section \<open>Two views of a computation: its trace and the disk\<close>

text \<open>What a computation appends to the trace is a prefix of the plan, all of it on success.\<close>

definition follows :: "'a io \<Rightarrow> event list \<Rightarrow> bool" where
  "follows m plan \<longleftrightarrow>
     (\<forall>w r w'. m w = (r, w') \<longrightarrow>
        (\<exists>evs. wTrace w' = wTrace w @ evs \<and> prefix evs plan \<and> (\<forall>x. r = Inr x \<longrightarrow> evs = plan)))"

definition quiet :: "'a io \<Rightarrow> bool" where
  "quiet m \<longleftrightarrow> (\<forall>w r w'. m w = (r, w') \<longrightarrow> diskFrame w w')"

lemma follows_bind:
  assumes "follows m p" and "\<And>x w w1. m w = (Inr x, w1) \<Longrightarrow> follows (f x) q"
  shows "follows (bindIO m f) (p @ q)"
  unfolding follows_def
proof (intro allI impI)
  fix w r w' assume "bindIO m f w = (r, w')"
  then consider e where "m w = (Inl e, w')" "r = Inl e"
    | x w1 where "m w = (Inr x, w1)" "f x w1 = (r, w')" unfolding bindIO_run by blast
  then show "\<exists>evs. wTrace w' = wTrace w @ evs \<and> prefix evs (p @ q) \<and> (\<forall>x. r = Inr x \<longrightarrow> evs = p @ q)"
  proof cases
    case 1
    with assms(1) show ?thesis unfolding follows_def by (metis prefix_prefix sum.distinct(1))
  next
    case 2
    with assms(1) have "wTrace w1 = wTrace w @ p" unfolding follows_def by metis
    moreover from assms(2) [OF 2(1)] 2(2) obtain evs where
      "wTrace w' = wTrace w1 @ evs" "prefix evs q" "\<forall>x. r = Inr x \<longrightarrow> evs = q"
      unfolding follows_def by blast
    ultimately show ?thesis by (intro exI [of _ "p @ evs"]) auto
  qed
qed

lemma follows_simps [simp, intro]:
  "follows (retIO x) []" "follows (liftIO q) []" "follows (failIO e) p" "follows (emit ev) [ev]"
  "follows osCall []" "follows (readIO g) []"
  by (auto simp: follows_def osCall_run)

lemma follows_invoke [intro]: "follows (invoke ev q) [ev]"
  by (auto simp: follows_def invoke_def bindIO_run)

lemma follows_nil_bind: "follows m [] \<Longrightarrow> (\<And>x w w1. m w = (Inr x, w1) \<Longrightarrow> follows (f x) q) \<Longrightarrow> follows (bindIO m f) q"
  using follows_bind [of m "[]" f q] by simp

lemma follows_last_bind: "follows m q \<Longrightarrow> (\<And>x w w1. m w = (Inr x, w1) \<Longrightarrow> follows (f x) []) \<Longrightarrow> follows (bindIO m f) q"
  using follows_bind [of m q f "[]"] by simp

lemma quiet_bind: "quiet m \<Longrightarrow> (\<And>x. quiet (f x)) \<Longrightarrow> quiet (bindIO m f)"
  unfolding quiet_def bindIO_run by (meson diskFrame_trans)

lemma quiet_simps [simp, intro]:
  "quiet (retIO x)" "quiet (liftIO q)" "quiet (failIO e)" "quiet (emit ev)" "quiet osCall" "quiet (invoke ev u)"
  by (auto simp: quiet_def osCall_run invoke_def bindIO_run)

section \<open>Callbacks and sockets\<close>

fun reapEvents :: "nat \<Rightarrow> callback option list \<Rightarrow> string \<Rightarrow> event list" where
  "reapEvents n [] i = []"
| "reapEvents n (None # fs) i = reapEvents (n + 1) fs i"
| "reapEvents n (Some f # fs) i = EvReaped n i # reapEvents (n + 1) fs i"

lemma reapAll_follows: "follows (reapAll n fs s) (reapEvents n fs (seID s))"
proof (induction n fs s rule: reapAll.induct)
  case (3 n f fs s)
  from follows_bind [OF follows_invoke 3] show ?case by simp
qed simp_all

lemma reapAll_quiet [simp]: "quiet (reapAll n fs s)"
  by (induction n fs s rule: reapAll.induct) (simp_all add: quiet_bind)

definition socketEvents :: "host \<Rightarrow> string \<Rightarrow> event list" where
  "socketEvents h i =
     (let paths = SocketPaths (hsSockets h) i in
      EvSocketRemoved (hd paths)
      # map EvSocketRemoved (filter (\<lambda>p. hsLegacy h p = LegacyOwned) (tl paths)))"

lemma removeSocket_follows: "follows (removeSocket p) [EvSocketRemoved p]"
  unfolding removeSocket_def by (rule follows_nil_bind) simp_all

lemma sweepSockets_follows:
  "0 < n \<Longrightarrow> follows (sweepSockets legacy n paths)
     (map EvSocketRemoved (filter (\<lambda>p. legacy p = LegacyOwned) paths))"
proof (induction paths arbitrary: n)
  case (Cons p paths)
  show ?case
  proof (cases "legacy p = LegacyOwned")
    case True
    have "follows (bindIO (removeSocket p) (\<lambda>_. sweepSockets legacy (n + 1) paths))
        ([EvSocketRemoved p] @ map EvSocketRemoved (filter (\<lambda>p. legacy p = LegacyOwned) paths))"
      by (rule follows_bind [OF removeSocket_follows]) (rule Cons.IH, simp)
    with True Cons.prems show ?thesis by (simp add: follows_nil_bind)
  next
    case False
    have "follows (sweepSockets legacy (n + 1) paths)
        (map EvSocketRemoved (filter (\<lambda>p. legacy p = LegacyOwned) paths))" by (rule Cons.IH) simp
    with False Cons.prems show ?thesis by (cases "legacy p") (simp_all add: follows_nil_bind)
  qed
qed simp

lemma SocketPaths_Cons: "SocketPaths env i = SocketPath env i # tl (SocketPaths env i)"
  by (simp add: SocketPaths_def Let_def)

lemma sweep_follows: "follows (sweep h i) (socketEvents h i)"
proof -
  obtain p ps where p: "SocketPaths (hsSockets h) i = p # ps" using SocketPaths_Cons by blast
  have "follows (sweepSockets (hsLegacy h) (0 + 1) ps)
      (map EvSocketRemoved (filter (\<lambda>p. hsLegacy h p = LegacyOwned) ps))"
    by (rule sweepSockets_follows) simp
  from follows_bind [OF removeSocket_follows, of p "\<lambda>_. sweepSockets (hsLegacy h) (0 + 1) ps", OF this]
  show ?thesis by (simp add: sweep_def removeSocketFiles_def socketEvents_def p)
qed

lemma sweepSockets_quiet [simp]: "quiet (sweepSockets legacy n paths)"
proof (induction paths arbitrary: n)
  case (Cons p paths)
  have "quiet (removeSocket p)" unfolding removeSocket_def by (simp add: quiet_bind)
  with Cons show ?case by (auto intro!: quiet_bind split: legacy_node.splits)
qed simp

lemma sweep_quiet [simp]: "quiet (sweep h i)"
  by (simp add: sweep_def removeSocketFiles_def)

section \<open>Commits\<close>

definition commitEvents :: "string \<Rightarrow> event list" where
  "commitEvents i = [EvInstalled (recordName i), EvDirSynced]"

lemma follows_modify: "(\<And>w. wTrace (g w) = wTrace w) \<Longrightarrow> follows (modifyIO g) []"
  by (simp add: follows_def)

lemma installTemp_False_follows: "follows (installTemp name bs False) [EvInstalled name]"
proof -
  have fill: "follows fillTemp []"
    unfolding fillTemp_def fileSync_def by (intro follows_nil_bind) simp_all
  have "follows (renameRecord name bs x) [EvInstalled name]" for x
    unfolding renameRecord_def
    by (rule follows_nil_bind, simp, rule follows_nil_bind, rule follows_modify, simp,
        rule follows_last_bind) simp_all
  then show ?thesis unfolding installTemp_def if_False by (intro follows_nil_bind [OF fill])
qed

lemma writeRecordAtomic_follows:
  "follows (writeRecordAtomic name bs False) [EvInstalled name, EvDirSynced]"
  unfolding follows_def
proof (intro allI impI)
  fix w r w' assume run: "writeRecordAtomic name bs False w = (r, w')"
  have create: "createTemp w = (q, w1) \<Longrightarrow> wTrace w1 = wTrace w" for q w w1
    by (auto simp: createTemp_def bindIO_run osCall_run split: if_splits)
  have remove: "removeTemp w = (q, w1) \<Longrightarrow> wTrace w1 = wTrace w" for q w w1
    by (auto simp: removeTemp_def bindIO_run osCall_run split: if_splits)
  have sync: "directorySync w = (q, w1) \<Longrightarrow> wTrace w1 = wTrace w @ (if q = Inr () then [EvDirSynced] else [])"
    for q w w1
    by (auto simp: directorySync_def bindIO_run osCall_run split: if_splits)
  note inst = installTemp_False_follows [of name bs, unfolded follows_def, rule_format]
  from run consider e where "createTemp w = (Inl e, w')" "r = Inl e"
    | w1 q w2 where "createTemp w = (Inr (), w1)" "installTemp name bs False w1 = (q, w2)"
      "(case q of Inl e \<Rightarrow> bindIO (tryIO removeTemp) (\<lambda>_. failIO e)
        | Inr pending \<Rightarrow> bindIO (tryIO directorySync) (\<lambda>d.
            case d of Inl _ \<Rightarrow> failIO ErrCommitUncertain | Inr _ \<Rightarrow> retIO ())) w2 = (r, w')"
    unfolding writeRecordAtomic_def bindIO_run [of createTemp] bindIO_run [of "tryIO (installTemp name bs False)"]
    by auto
  then show "\<exists>evs. wTrace w' = wTrace w @ evs \<and> prefix evs [EvInstalled name, EvDirSynced]
      \<and> (\<forall>x. r = Inr x \<longrightarrow> evs = [EvInstalled name, EvDirSynced])"
  proof cases
    case 1
    with create show ?thesis by (intro exI [of _ "[]"]) simp
  next
    case 2
    from inst [OF 2(2)] create [OF 2(1)] obtain evs where evs: "wTrace w2 = wTrace w @ evs"
      "prefix evs [EvInstalled name]" "\<forall>x. q = Inr x \<longrightarrow> evs = [EvInstalled name]" by auto
    show ?thesis
    proof (cases q)
      case (Inl e)
      with 2(3) obtain p where p: "removeTemp w2 = (p, w')" "r = Inl e" by (auto simp: bindIO_run)
      have "prefix evs [EvInstalled name, EvDirSynced]"
        using prefix_prefix [OF evs(2), of "[EvDirSynced]"] by simp
      with remove [OF p(1)] p(2) evs(1) show ?thesis by (intro exI [of _ evs]) simp
    next
      case (Inr pending)
      with 2(3) obtain d where d: "directorySync w2 = (d, w')"
        "r = (case d of Inl _ \<Rightarrow> Inl ErrCommitUncertain | Inr _ \<Rightarrow> Inr ())"
        by (auto simp: bindIO_run case_run)
      with sync [OF d(1)] evs Inr show ?thesis
        by (intro exI [of _ "[EvInstalled name] @ (if d = Inr () then [EvDirSynced] else [])"])
          (cases d; simp)
    qed
  qed
qed

lemma Commit_follows:
  assumes "seID c = i"
  shows "follows (Commit s c) (commitEvents i)"
proof -
  have "follows (writeLocked c False) (commitEvents i)"
    unfolding writeLocked_def Let_def commitEvents_def assms [symmetric]
    by (rule follows_nil_bind, simp, rule follows_nil_bind, simp, rule follows_last_bind)
      (simp_all add: writeRecordAtomic_follows)
  then show ?thesis by (simp add: Commit_def)
qed

lemma Commit_run:
  assumes "Commit s c w = (r, w')"
  shows "(r = Inr (bumped c) \<or> r = Inl ErrCommitUncertain) \<and> storedOver c w w'
           \<and> seID c = seID s \<and> seRecordRevision c = seRecordRevision s
       \<or> (\<exists>e. r = Inl e \<and> e \<noteq> ErrCommitUncertain) \<and> diskFrame w w'"
proof (cases "seID c \<noteq> seID s \<or> seRecordRevision c \<noteq> seRecordRevision s")
  case True
  with assms show ?thesis by (auto simp: Commit_def)
next
  case False
  with assms have "writeLocked c False w = (r, w')" by (simp add: Commit_def)
  from writeLocked_run [OF this] False show ?thesis by auto
qed

section \<open>Transactions\<close>

definition storedSession :: "string \<Rightarrow> world \<Rightarrow> Session \<Rightarrow> bool" where
  "storedSession i w s \<longleftrightarrow>
     i \<noteq> [] \<and> (\<exists>bs sy. lookupNode (recordName i) w = Some (RecordFile bs sy) \<and> decodeRecord i bs = Inr s)"

lemma storedSession_valid:
  assumes "storedSession i w s"
  shows "seID s = i" and "validateRecord s = Inr ()" and "seBackend s \<noteq> ''system''"
    and "validEgressRuntimeState s" and "validStatus (seStatus s)" and "validID i"
  using assms decodeRecord_valid by (auto simp: storedSession_def validateRecord_Inr)

lemma storedSession_unique: "storedSession i w s \<Longrightarrow> storedSession i w t \<Longrightarrow> s = t"
  by (auto simp: storedSession_def)

lemma storedSession_frame: "diskFrame w w1 \<Longrightarrow> storedSession i w1 s = storedSession i w s"
  by (simp add: storedSession_def diskFrame_lookup)

lemma storedOver_stored:
  "storedOver s w w' \<Longrightarrow> seBackend s \<noteq> ''system'' \<Longrightarrow> storedSession (seID s) w' (bumped s)"
  using storedOver_reads_back [of s w w']
  by (auto simp: storedSession_def storedOver_def validateRecord_Inr)

text \<open>A transaction either ends before its body, leaving the disk alone, or runs its body once on
  the stored session, between the two lock events.\<close>

lemma WithLocked_run:
  assumes "WithLocked i fn w = (r, w')"
  obtains (early) e where "r = Inl e" "e \<noteq> ErrCommitUncertain" "diskFrame w w'"
      "wTrace w' = wTrace w \<or> wTrace w' = wTrace w @ [EvLocked i, EvUnlocked i]"
  | (body) s w1 w2 where "storedSession i w s" "diskFrame w w1" "wTrace w1 = wTrace w @ [EvLocked i]"
      "fn s w1 = (r, w2)" "w' = w2\<lparr>wTrace := wTrace w2 @ [EvUnlocked i]\<rparr>"
proof -
  from withRecordLock_run [OF assms [unfolded WithLocked_def]] show thesis
  proof (elim disjE exE conjE)
    fix w1 w2 assume w: "i \<noteq> []" "validID i" "diskFrame w w1" "wTrace w1 = wTrace w @ [EvLocked i]"
      "bindIO (getUnlocked i) fn w1 = (r, w2)" "w' = w2\<lparr>wTrace := wTrace w2 @ [EvUnlocked i]\<rparr>"
    from w(5) consider e where "getUnlocked i w1 = (Inl e, w2)" "r = Inl e"
      | s v where "getUnlocked i w1 = (Inr s, v)" "fn s v = (r, w2)"
      unfolding bindIO_run by blast
    then show thesis
    proof cases
      case 1
      note g = getUnlocked_run [OF 1(1)]
      show thesis using g(1,4) 1(2) w(3,4,6) diskFrame_trans [OF w(3)] by (intro early [of e]) auto
    next
      case 2
      note g = getUnlocked_run [OF 2(1)]
      from g(2) [of s] have "storedSession i w1 s" using w(1) by (simp add: storedSession_def)
      then have "storedSession i w s" using storedSession_frame [OF w(3)] by simp
      moreover have "diskFrame w v" "wTrace v = wTrace w @ [EvLocked i]"
        using g(1) w(3,4) diskFrame_trans by auto
      ultimately show thesis using 2(2) w(6) by (rule body)
    qed
  qed (auto intro: early)
qed

section \<open>Claims are exclusive\<close>

lemma project_idle:
  assumes f: "framesRecord a st" and p: "persistable st" and o: "projectOwner a st = Inr c"
    and l: "psStatus st \<noteq> ProtocolStopped" and d: "psDirection st = ProtocolNoDirection"
    and run: "projectCandidate st False a = Inr c'"
  shows "c' = c\<lparr>seEgressTransition := None\<rparr>"
proof -
  let ?s = "paOriginal a"
  have n: "NormalizeProtocolState st = st" using framesRecord_domain [OF f] by (rule inDomain_normal)
  from f obtain g where g: "map_of (paGenerations a) (durableGeneration st) = Some g"
    "cgGrants g = seEgressGrants ?s" "cgGrantRevision g = seGrantRevision ?s"
    by (auto simp: framesRecord_def)
  from f obtain r where r: "map_of (paGenerations a) (psRecordedGeneration st) = Some r"
    "genValid (psRecordedGeneration st)" "cgAppliedRevision r = seAppliedEgressRevision ?s"
    "cgAppliedHash r = seAppliedEgressHash ?s" by (auto simp: framesRecord_def)
  have rt: "projectRuntime a st = Inr \<lparr>ersAppliedRevision = seAppliedEgressRevision ?s,
      ersAppliedHash = seAppliedEgressHash ?s, ersTransition = None\<rparr>"
    using r d l by (simp add: projectRuntime_def)
  have same: "sameRuntime c ?s" using o by (rule projectOwner_sameRuntime)
  have rows: "SetEgressRuntimeState (c\<lparr>seEgressGrants := seEgressGrants ?s, seGrantRevision := seGrantRevision ?s\<rparr>)
      \<lparr>ersAppliedRevision = seAppliedEgressRevision ?s, ersAppliedHash = seAppliedEgressHash ?s,
       ersTransition = None\<rparr> = c\<lparr>seEgressTransition := None\<rparr>"
    using same by (cases c) (simp add: SetEgressRuntimeState_def sameRuntime_def)
  from run show ?thesis unfolding projectCandidate_def n Let_def
    by (auto simp: o g rt rows split: if_splits)
qed

definition claimedSession :: "process_table \<Rightarrow> int \<Rightarrow> bool \<Rightarrow> time \<Rightarrow> Session \<Rightarrow> Session" where
  "claimedSession pt pid detached now s =
     s\<lparr>seStatus := StatusRunning, sePID := pid, seProcessToken := processToken pt pid,
       seDetached := detached, seEgressTransition := None, seStartedAt := now, seUpdatedAt := now\<rparr>"

lemma claim_start_reduces:
  assumes "protocolStateInDomain zeroBounds st" "psStatus st = ProtocolCreated" "psMode st = ProtocolNormal"
    "psOperation st = ProtocolIdle"
  shows "stepOr err st (plainEvent ProtocolClaimStart)
    = Inr (st\<lparr>psOperation := ProtocolClaim, psEffect := ProtocolCommit, psResult := ProtocolPending\<rparr>)"
proof -
  let ?t = "st\<lparr>psOperation := ProtocolClaim, psEffect := ProtocolCommit, psResult := ProtocolPending\<rparr>"
  have "reduceAction (evAction (plainEvent ProtocolClaimStart)) (normalizeProtocolBounds zeroBounds) st
      (plainEvent ProtocolClaimStart) = Some ?t"
    using assms by (simp add: plainEvent_def reduceClaimStart_def protocolEmptyEvent_def)
  from reduce_accepts [OF assms(1) inDomain_normal [OF assms(1)] this]
  have "ReduceProtocol st (plainEvent ProtocolClaimStart) = (NormalizeProtocolState ?t, True)" .
  moreover have "protocolStateInDomain zeroBounds ?t" using assms(1) by (simp add: protocolStateInDomain_iff)
  then have "NormalizeProtocolState ?t = ?t" by (rule inDomain_normal)
  ultimately show ?thesis by (simp add: stepOr_def)
qed

lemma claim_outcome_total:
  assumes d: "protocolStateInDomain zeroBounds st" and o: "psOperation st = ProtocolClaim"
    and e: "psEffect st = ProtocolCommit"
  shows "reduceClaimCommitOutcome st err"
proof -
  have acc: "ReduceProtocol st (outcomeEvent ProtocolClaimCommit out tr)
      = (NormalizeProtocolState u, True)"
    if "reduceClaimCommit st (outcomeEvent ProtocolClaimCommit out tr) = Some u" for out tr u
    using reduce_accepts [OF d inDomain_normal [OF d], of "outcomeEvent ProtocolClaimCommit out tr" u] that
    by (simp add: outcomeEvent_def)
  have new: "reduceClaimCommit st (outcomeEvent ProtocolClaimCommit ProtocolKnownNew ProtocolNoTruth)
      = Some (resetProtocol (claimOwner st) ProtocolSuccess)"
    and old: "reduceClaimCommit st (outcomeEvent ProtocolClaimCommit ProtocolKnownOld ProtocolNoTruth)
      = Some (resetProtocol st ProtocolFailure)"
    and unk: "tr = ProtocolOld \<or> tr = ProtocolNew \<Longrightarrow>
      reduceClaimCommit st (outcomeEvent ProtocolClaimCommit ProtocolCommitUnknown tr)
      = Some (blockProtocolRecovery (if tr = ProtocolNew then claimOwner st else st) ProtocolUncertainResult)" for tr
    using o e by (simp_all add: reduceClaimCommit_def outcomeEvent_def protocolCommitEvent_def)
  show ?thesis
    using acc [OF new] acc [OF old] acc [OF unk [of ProtocolOld]] acc [OF unk [of ProtocolNew]]
    by (simp add: reduceClaimCommitOutcome_def blockProtocolRecovery_def split: option.splits)
qed

lemma claimCandidate_run:
  assumes v: "validEgressRuntimeState s" and cr: "seStatus s = StatusCreated" and pid: "0 < pid"
  shows "(\<exists>st. claimCandidate pt pid detached now s = Inr (st, claimedSession pt pid detached now s)
            \<and> (\<forall>err. reduceClaimCommitOutcome st err))
       \<or> claimCandidate pt pid detached now s = Inl ErrProtocol \<and> seEgressTransition s \<noteq> None"
proof -
  obtain a st0 where new: "NewProtocolAdapter s = (a, st0)" by fastforce
  have vs: "validStatus (seStatus s)" using cr by (simp add: validStatus_def)
  have f: "freshFrame s st0 a" "paOwners a = []"
    using newAdapter_fresh [OF v vs new] cr by (simp_all add: recordedOwners_def)
  from ClaimState_valid [OF v cr new] obtain st where st: "ClaimState a = Inr st" "framesRecord a st"
    "psHealth st = ProtocolHealthy" "psStatus st = ProtocolCreated" "psOwners st = 0"
    "psMode st = ProtocolNormal" "psOperation st = ProtocolIdle" "psDirection st = ProtocolNoDirection" by blast
  note dom = framesRecord_domain [OF st(2)]
  let ?c = "st\<lparr>psOperation := ProtocolClaim, psEffect := ProtocolCommit, psResult := ProtocolPending\<rparr>"
  have dc: "protocolStateInDomain zeroBounds ?c" using dom by (simp add: protocolStateInDomain_iff)
  let ?token = "processToken pt pid"
  let ?a = "a\<lparr>paOwners := [(ProtocolOwnerA, \<lparr>coPid = pid, coToken = ?token\<rparr>)], paClaimDetached := Some detached\<rparr>"
  have bind: "BindClaimOwner pid ?token detached a = Inr ?a"
    using pid f(2) by (simp add: BindClaimOwner_def bindConcreteOwner_def)
  let ?t = "resetProtocol (healProtocol (?c\<lparr>psStatus := ProtocolRunning, psOwners := ProtocolOwnerA,
      psDetached := False\<rparr>)) ProtocolSuccess"
  have td: "protocolStateInDomain zeroBounds ?t"
    using dom by (auto simp: protocolStateInDomain_iff resetProtocol_def healProtocol_def
        generationInDomain_normal)
  have tf: "psHealth ?t = ProtocolHealthy" "psMode ?t = ProtocolNormal" "psOperation ?t = ProtocolIdle"
    "psStatus ?t = ProtocolRunning" "psOwners ?t = ProtocolOwnerA" "psDirection ?t = ProtocolNoDirection"
    "psDetached ?t = False"
    by (simp_all add: resetProtocol_def healProtocol_def)
  have tn: "NormalizeProtocolState ?t = ?t" using td by (rule inDomain_normal)
  have gens: "durableGeneration ?t = durableGeneration st" "psRecordedGeneration ?t = psRecordedGeneration st"
    using inDomain_normal [OF dom]
    by (simp_all add: resetProtocol_def healProtocol_def durableGeneration_def NormalizeProtocolState_id_iff)
  have fr: "framesRecord ?a ?t"
    using st(2) td tf(6) by (simp add: framesRecord_def gens)
  let ?own = "s\<lparr>seStatus := StatusRunning, sePID := pid, seProcessToken := ?token, seDetached := detached\<rparr>"
  have o: "paOriginal a = s" "psStatus (paBaseline a) = ProtocolCreated"
    using f(1) cr by (simp_all add: freshFrame_def symbolicStatus_def)
  have own: "projectOwner ?a ?t = Inr ?own"
    using tf o cr by (simp add: projectOwner_def Let_def)
  have "?t \<noteq> paBaseline ?a"
  proof
    assume "?t = paBaseline ?a"
    then have "psStatus ?t = psStatus (paBaseline ?a)" by (rule arg_cong)
    with tf(4) o(2) show False by simp
  qed
  then have cand: "EffectCandidate ?c ?a = projectCandidate ?t False ?a"
    using dc st by (simp add: EffectCandidate_def inDomain_normal [OF dc] effectTarget_def Candidate_def
        projectCandidate_def tn Let_def)
  have start: "stepOr ErrProtocol st (plainEvent ProtocolClaimStart) = Inr ?c"
    by (rule claim_start_reduces [OF dom st(4,6,7)])
  have run: "claimCandidate pt pid detached now s = rbind (projectCandidate ?t False ?a)
      (\<lambda>candidate. Inr (?c, candidate\<lparr>seStartedAt := now, seUpdatedAt := now\<rparr>))"
    by (simp add: claimCandidate_def new st(1) start bind cand)
  have p: "persistable ?t" using tf by (simp add: persistable_def)
  have out: "\<forall>err. reduceClaimCommitOutcome ?c err"
    by (intro allI claim_outcome_total [OF dc]) simp_all
  have notstop: "psStatus ?t \<noteq> ProtocolStopped" using tf by simp
  show ?thesis
  proof (cases "projectCandidate ?t False ?a")
    case (Inr c)
    have "c = ?own\<lparr>seEgressTransition := None\<rparr>"
      by (rule project_idle [OF fr p own notstop tf(6) Inr])
    with run Inr out show ?thesis by (simp add: claimedSession_def)
  next
    case (Inl e)
    have "seEgressTransition s \<noteq> None"
    proof
      assume "seEgressTransition s = None"
      then have "projectCandidate ?t False ?a = Inr ?own"
        using v o by (intro project_live [OF fr _ p own notstop]) simp_all
      with Inl show False by simp
    qed
    moreover have "e = ErrProtocol" using Inl own fr
      by (auto simp: projectCandidate_def Let_def tn framesRecord_def projectRuntime_def
          split: if_splits option.splits)
    ultimately show ?thesis using run Inl by simp
  qed
qed

lemma diskFrame_after [simp]: "diskFrame (w\<lparr>wTrace := es\<rparr>) w' = diskFrame w w'"
  by (simp add: diskFrame_def)

lemma markRunning_running:
  assumes "storedSession i w s" and "seStatus s = StatusRunning"
    and "markRunning h i pid detached now w = (q, w')"
  shows "\<exists>e. q = Inl e \<and> e \<noteq> ErrCommitUncertain \<and> diskFrame w w'"
proof (cases "pid \<le> 0")
  case False
  with assms(3) have "WithLocked i (\<lambda>s. case seStatus s of
          StatusRunning \<Rightarrow> failIO ErrSessionRunning
        | StatusCreated \<Rightarrow>
            bindIO (liftIO (claimCandidate (hsTable h) pid detached now s)) (\<lambda>(state, candidate).
            bindIO (tryIO (Commit s candidate)) (\<lambda>r.
            if \<not> reduceClaimCommitOutcome state (commitError r) then failIO ErrProtocol
            else liftIO r))
        | _ \<Rightarrow> failIO ErrSessionStopped) w = (q, w')" by (simp add: markRunning_def)
  then show ?thesis
  proof (rule WithLocked_run)
    fix t w1 w2 assume "storedSession i w t" "diskFrame w w1" "w' = w2\<lparr>wTrace := wTrace w2 @ [EvUnlocked i]\<rparr>"
      and body: "(case seStatus t of StatusRunning \<Rightarrow> failIO ErrSessionRunning
        | StatusCreated \<Rightarrow>
            bindIO (liftIO (claimCandidate (hsTable h) pid detached now t)) (\<lambda>(state, candidate).
            bindIO (tryIO (Commit t candidate)) (\<lambda>r.
            if \<not> reduceClaimCommitOutcome state (commitError r) then failIO ErrProtocol
            else liftIO r))
        | _ \<Rightarrow> failIO ErrSessionStopped) w1 = (q, w2)"
    moreover from this(1) assms(1) have "t = s" by (rule storedSession_unique)
    ultimately show ?thesis using assms(2) by simp
  qed blast
qed (use assms(3) in \<open>simp add: markRunning_def\<close>)

lemma claimed_fields:
  "seID (claimedSession pt pid d now s) = seID s"
  "seRecordRevision (claimedSession pt pid d now s) = seRecordRevision s"
  "seStatus (claimedSession pt pid d now s) = StatusRunning"
  "seBackend (claimedSession pt pid d now s) = seBackend s"
  by (simp_all add: claimedSession_def)

text \<open>(C19) A claim is exclusive. Under any faults, if \<open>MarkRunning\<close> succeeds or ends uncertain, the
  stored record was a created one, and the disk now holds exactly that record with the claiming
  process recorded and every authority field untouched; from then on every other claim of the
  session fails and writes nothing. Any other outcome leaves the disk as it was.\<close>

theorem claims_are_exclusive:
  assumes "markRunning h i pid detached now w = (r, w')"
  shows "if (case r of Inr _ \<Rightarrow> True | Inl e \<Rightarrow> e = ErrCommitUncertain)
         then \<exists>s. storedSession i w s \<and> seStatus s = StatusCreated \<and> 0 < pid
                \<and> storedOver (claimedSession (hsTable h) pid detached now s) w w'
                \<and> (\<forall>x. r = Inr x \<longrightarrow> x = bumped (claimedSession (hsTable h) pid detached now s))
                \<and> (\<forall>h2 pid2 d2 now2 r2 w2. markRunning h2 i pid2 d2 now2 w' = (r2, w2) \<longrightarrow>
                     (\<exists>e. r2 = Inl e \<and> e \<noteq> ErrCommitUncertain) \<and> wDir w2 = wDir w')
         else wDir w' = wDir w \<and> wDurable w' = wDurable w"
proof (cases "pid \<le> 0")
  case True
  with assms show ?thesis by (simp add: markRunning_def)
next
  case False
  then have pid: "0 < pid" by simp
  from assms False have "WithLocked i (\<lambda>s. case seStatus s of
          StatusRunning \<Rightarrow> failIO ErrSessionRunning
        | StatusCreated \<Rightarrow>
            bindIO (liftIO (claimCandidate (hsTable h) pid detached now s)) (\<lambda>(state, candidate).
            bindIO (tryIO (Commit s candidate)) (\<lambda>r.
            if \<not> reduceClaimCommitOutcome state (commitError r) then failIO ErrProtocol
            else liftIO r))
        | _ \<Rightarrow> failIO ErrSessionStopped) w = (r, w')" by (simp add: markRunning_def)
  then show ?thesis
  proof (rule WithLocked_run)
    fix e assume "r = Inl e" "e \<noteq> ErrCommitUncertain" "diskFrame w w'"
    then show ?thesis by (simp add: diskFrame_same)
  next
    fix s w1 w2 assume st: "storedSession i w s" "diskFrame w w1"
      "w' = w2\<lparr>wTrace := wTrace w2 @ [EvUnlocked i]\<rparr>"
      and body: "(case seStatus s of StatusRunning \<Rightarrow> failIO ErrSessionRunning
        | StatusCreated \<Rightarrow>
            bindIO (liftIO (claimCandidate (hsTable h) pid detached now s)) (\<lambda>(state, candidate).
            bindIO (tryIO (Commit s candidate)) (\<lambda>r.
            if \<not> reduceClaimCommitOutcome state (commitError r) then failIO ErrProtocol
            else liftIO r))
        | _ \<Rightarrow> failIO ErrSessionStopped) w1 = (r, w2)"
    note v = storedSession_valid [OF st(1)]
    let ?c = "claimedSession (hsTable h) pid detached now s"
    have frame: ?thesis if "\<exists>e. r = Inl e \<and> e \<noteq> ErrCommitUncertain" "diskFrame w1 w2"
      using that st(2,3) diskFrame_trans [OF st(2) that(2)] by (auto simp: diskFrame_same)
    show ?thesis
    proof (cases "seStatus s = StatusCreated")
      case False
      with body have "\<exists>e. r = Inl e \<and> e \<noteq> ErrCommitUncertain" "w2 = w1"
        by (auto split: session_status.splits)
      with frame show ?thesis by simp
    next
      case True
      from claimCandidate_run [OF v(4) True pid, of "hsTable h" detached now] show ?thesis
      proof (elim disjE exE conjE)
        assume "claimCandidate (hsTable h) pid detached now s = Inl ErrProtocol"
        with body True have "r = Inl ErrProtocol" "w2 = w1" by (simp_all add: bindIO_run)
        with frame show ?thesis by simp
      next
        fix state assume cl: "claimCandidate (hsTable h) pid detached now s = Inr (state, ?c)"
          "\<forall>err. reduceClaimCommitOutcome state err"
        with body True have commit: "Commit s ?c w1 = (r, w2)" by (auto simp: bindIO_run)
        from Commit_run [OF commit] consider "\<exists>e. r = Inl e \<and> e \<noteq> ErrCommitUncertain" "diskFrame w1 w2"
          | "storedOver ?c w1 w2" "r = Inr (bumped ?c) \<or> r = Inl ErrCommitUncertain" by blast
        then show ?thesis
        proof cases
          case 1
          with frame show ?thesis by blast
        next
          case 2
          have fin: "diskFrame w2 w'" unfolding st(3) by simp
          have over: "storedOver ?c w w'" by (rule storedOver_frame [OF st(2) 2(1) fin])
          then have stored: "storedSession i w' (bumped ?c)"
            using storedOver_stored [of ?c w w'] v(1,3) by (simp add: claimed_fields)
          have taken: "seStatus (bumped ?c) = StatusRunning" by (simp add: claimed_fields)
          have later: "(\<exists>e. r2 = Inl e \<and> e \<noteq> ErrCommitUncertain) \<and> wDir w3 = wDir w'"
            if again: "markRunning h2 i pid2 d2 now2 w' = (r2, w3)" for h2 pid2 d2 now2 r2 w3
            using markRunning_running [OF stored taken again] by (auto simp: diskFrame_same)
          have "\<exists>s. storedSession i w s \<and> seStatus s = StatusCreated \<and> 0 < pid
              \<and> storedOver (claimedSession (hsTable h) pid detached now s) w w'
              \<and> (\<forall>x. r = Inr x \<longrightarrow> x = bumped (claimedSession (hsTable h) pid detached now s))
              \<and> (\<forall>h2 pid2 d2 now2 r2 w3. markRunning h2 i pid2 d2 now2 w' = (r2, w3) \<longrightarrow>
                   (\<exists>e. r2 = Inl e \<and> e \<noteq> ErrCommitUncertain) \<and> wDir w3 = wDir w')"
            using st(1) True pid over later 2(2) by (intro exI [of _ s]) blast
          with 2(2) show ?thesis by (elim disjE) simp_all
        qed
      qed
    qed
  qed
qed

section \<open>Runs without faults\<close>

text \<open>\<open>succeeds w m x\<close>: in \<open>w\<close>, where no system call fails, \<open>m\<close> returns \<open>x\<close>.\<close>

definition calm :: "world \<Rightarrow> bool" where
  "calm w \<longleftrightarrow> (\<forall>n. \<not> wFault w n)"

definition succeeds :: "world \<Rightarrow> 'a io \<Rightarrow> 'a \<Rightarrow> bool" where
  "succeeds w m x \<longleftrightarrow> (\<exists>w'. m w = (Inr x, w') \<and> calm w' \<and> diskFrame w w')"

lemma calm_updates [simp]:
  "calm (w\<lparr>wTick := n\<rparr>) = calm w" "calm (w\<lparr>wTrace := t\<rparr>) = calm w" "calm (w\<lparr>wDir := d\<rparr>) = calm w"
  "calm (w\<lparr>wDurable := d\<rparr>) = calm w" "calm (w\<lparr>wTemps := k\<rparr>) = calm w" "calm (installNode name nd w) = calm w"
  by (simp_all add: calm_def installNode_def)

lemma succeeds_osCall [simp]: "calm w \<Longrightarrow> succeeds w osCall ()"
  by (simp add: succeeds_def osCall_run) (simp add: calm_def diskFrame_def)

lemma succeeds_basic [simp]:
  "calm w \<Longrightarrow> succeeds w (retIO x) x" "calm w \<Longrightarrow> succeeds w (emit ev) ()"
  "calm w \<Longrightarrow> succeeds w (liftIO q) x = (q = Inr x)" "calm w \<Longrightarrow> succeeds w (readIO g) (g w)"
  by (auto simp: succeeds_def emit_def retIO_def liftIO_def readIO_def diskFrame_def)

lemma succeeds_bind:
  assumes "succeeds w m x" and "\<And>w1. calm w1 \<Longrightarrow> diskFrame w w1 \<Longrightarrow> succeeds w1 (f x) y"
  shows "succeeds w (bindIO m f) y"
  using assms diskFrame_trans unfolding succeeds_def bindIO_def by fastforce

lemma succeeds_invoke: "calm w \<Longrightarrow> q = Inr () \<Longrightarrow> succeeds w (invoke ev q) ()"
  unfolding invoke_def by (rule succeeds_bind) simp_all

lemma bind_final:
  assumes "succeeds w m x" and "\<And>w1. calm w1 \<Longrightarrow> diskFrame w w1 \<Longrightarrow> \<exists>w'. f x w1 = (Inr y, w') \<and> calm w'"
  shows "\<exists>w'. bindIO m f w = (Inr y, w') \<and> calm w'"
  using assms unfolding succeeds_def bindIO_def by fastforce

lemma reapAll_succeeds:
  "calm w \<Longrightarrow> (\<forall>f. Some f \<in> set fs \<longrightarrow> f s = Inr ()) \<Longrightarrow> succeeds w (reapAll n fs s) ()"
proof (induction n fs s arbitrary: w rule: reapAll.induct)
  case (3 n f fs s)
  then show ?case by (auto intro!: succeeds_bind succeeds_invoke)
qed simp_all

lemma removeSocket_succeeds: "calm w \<Longrightarrow> succeeds w (removeSocket p) ()"
  unfolding removeSocket_def by (rule succeeds_bind) simp_all

lemma sweepSockets_succeeds: "calm w \<Longrightarrow> succeeds w (sweepSockets legacy n paths) ()"
proof (induction paths arbitrary: n w)
  case (Cons p paths)
  then show ?case
    by (auto intro!: succeeds_bind [OF removeSocket_succeeds] succeeds_bind [OF succeeds_osCall]
        split: legacy_node.splits)
qed simp

lemma sweep_succeeds: "calm w \<Longrightarrow> succeeds w (sweep h i) ()"
  by (simp add: sweep_def removeSocketFiles_def sweepSockets_succeeds)

lemma getUnlocked_succeeds:
  assumes "calm w" and "storedSession i w s"
  shows "succeeds w (getUnlocked i) s"
proof -
  obtain bs sy where n: "lookupNode (recordName i) w = Some (RecordFile bs sy)" "decodeRecord i bs = Inr s"
    using assms(2) by (auto simp: storedSession_def)
  show ?thesis unfolding getUnlocked_def
  proof (rule succeeds_bind [OF succeeds_osCall [OF assms(1)]])
    fix w1 assume c: "calm w1" and d: "diskFrame w w1"
    then have "lookupNode (recordName i) w1 = Some (RecordFile bs sy)"
      using n(1) by (simp add: diskFrame_lookup)
    with n(2) c show "succeeds w1 (bindIO (readIO (lookupNode (recordName i))) (\<lambda>existing.
        case existing of None \<Rightarrow> failIO ErrNotFound
        | Some (RecordFile bs _) \<Rightarrow> bindIO osCall (\<lambda>_. liftIO (decodeRecord i bs))
        | Some _ \<Rightarrow> failIO ErrCorruptRecord)) s"
      by (intro succeeds_bind [OF succeeds_basic(4)])
        (auto intro!: succeeds_bind [OF succeeds_osCall])
  qed
qed

lemma Commit_final:
  assumes "calm w" and "seID c = seID s" "seRecordRevision c = seRecordRevision s"
    and "validateRecord c = Inr ()" and "encodeRecord (bumped c) = Inr bs"
  shows "\<exists>w'. Commit s c w = (Inr (bumped c), w') \<and> calm w'"
proof -
  have "\<And>n. \<not> wFault w n" using assms(1) by (simp add: calm_def)
  with assms(2-5) have "fst (Commit s c w) = Inr (bumped c) \<and> calm (snd (Commit s c w))"
    by (simp add: Commit_def writeLocked_def writeRecordAtomic_def createTemp_def removeTemp_def
        installTemp_def fillTemp_def fileSync_def renameRecord_def directorySync_def io_defs Let_def
        installNode_def bumped_def calm_def)
  then show ?thesis by (metis prod.collapse)
qed

lemma withRecordLock_final:
  assumes "calm w" and "i \<noteq> []" "validID i"
    and "\<And>w1. calm w1 \<Longrightarrow> diskFrame w w1 \<Longrightarrow> \<exists>w2. body w1 = (Inr x, w2) \<and> calm w2"
  shows "\<exists>w'. withRecordLock i body w = (Inr x, w') \<and> calm w'"
proof -
  have lock: "\<exists>w'. underLock i body v = (Inr x, w') \<and> calm w'" if v: "calm v" "diskFrame w v" for v
  proof -
    have "diskFrame w (v\<lparr>wTrace := wTrace v @ [EvLocked i]\<rparr>)" using v(2) by (simp add: diskFrame_def)
    from assms(4) [OF _ this] v(1) show ?thesis
      by (auto simp: underLock_def bindIO_def emit_def tryIO_def liftIO_def)
  qed
  have "succeeds w ensureDir ()" unfolding ensureDir_def
    using assms(1) by (intro succeeds_bind [OF succeeds_osCall]) simp_all
  from assms(2,3) show ?thesis unfolding withRecordLock_def
    by (simp) (intro bind_final [OF \<open>succeeds w ensureDir ()\<close>] bind_final [OF succeeds_osCall] lock;
      assumption?; meson diskFrame_trans)
qed

lemma WithLocked_final:
  assumes w: "calm w" and st: "storedSession i w s"
    and fn: "\<And>w1. calm w1 \<Longrightarrow> diskFrame w w1 \<Longrightarrow> \<exists>w2. fn s w1 = (Inr x, w2) \<and> calm w2"
  shows "\<exists>w'. WithLocked i fn w = (Inr x, w') \<and> calm w'"
  unfolding WithLocked_def
proof (rule withRecordLock_final [OF w])
  show "i \<noteq> []" "validID i" using st storedSession_valid(6) [OF st] by (simp_all add: storedSession_def)
  fix w1 assume c: "calm w1" and d: "diskFrame w w1"
  then have "storedSession i w1 s" using st storedSession_frame by simp
  from getUnlocked_succeeds [OF c this] show "\<exists>w2. bindIO (getUnlocked i) fn w1 = (Inr x, w2) \<and> calm w2"
    by (rule bind_final) (rule fn, assumption, rule diskFrame_trans [OF d])
qed

text \<open>A world whose directory holds one record.\<close>

definition worldWith :: "Session \<Rightarrow> world" where
  "worldWith s =
     (emptyWorld (\<lambda>_. False))\<lparr>wDir := [(recordName (seID s), RecordFile (case encodeRecord s of Inr bs \<Rightarrow> bs | Inl _ \<Rightarrow> NotJson) True)]\<rparr>"

lemma worldWith_stored:
  assumes "validateRecord s = Inr ()" and "encodeRecord s = Inr bs" and "seBackend s \<noteq> ''system''"
    and "seID s \<noteq> []"
  shows "storedSession (seID s) (worldWith s) s" and "calm (worldWith s)"
  using assms decode_encode [OF assms(1-3)]
  by (auto simp: storedSession_def worldWith_def lookupNode_def emptyWorld_def calm_def)

lemma createdSample_stored: "storedSession ''sess-1'' (worldWith createdSample) createdSample"
  "calm (worldWith createdSample)"
proof -
  obtain bs where "encodeRecord createdSample = Inr bs"
    by (auto simp: encodeRecord_def recordTimes_def jsonTime_def createdSample_def sampleSession_def zeroSession_def)
  from worldWith_stored [OF createdSample_valid(2) this]
  show "storedSession ''sess-1'' (worldWith createdSample) createdSample" "calm (worldWith createdSample)"
    by (simp_all add: createdSample_fields)
qed

lemma validateRecord_frame:
  assumes "validateRecord s = Inr ()"
    and "seID t = seID s" "seStageLayout t = seStageLayout s" "seRuntimeID t = seRuntimeID s"
    "seGrantRevision t = seGrantRevision s" "seEgressGrants t = seEgressGrants s"
    "sePersistentEgress t = sePersistentEgress s"
    "seEgressAcknowledgements t = seEgressAcknowledgements s" "CanGrant t = CanGrant s"
    and "validEgressRuntimeState t" "validStatus (seStatus t)"
  shows "validateRecord t = Inr ()"
proof -
  have "validRuntimeIdentity t = validRuntimeIdentity s" "validEgressAuthority t = validEgressAuthority s"
    unfolding validRuntimeIdentity_def validEgressAuthority_def by (simp_all only: assms)
  with assms(1,2,10,11) show ?thesis by (simp add: validateRecord_Inr)
qed

text \<open>In a calm world a created record with no pending transition is claimed.\<close>

lemma markRunning_calm:
  assumes w: "calm w" and st: "storedSession i w s" and cr: "seStatus s = StatusCreated"
    and tn: "seEgressTransition s = None" and pid: "0 < pid"
    and enc: "encodeRecord (bumped (claimedSession (hsTable h) pid detached now s)) = Inr bs"
  shows "\<exists>w'. markRunning h i pid detached now w = (Inr (bumped (claimedSession (hsTable h) pid detached now s)), w')"
proof -
  note v = storedSession_valid [OF st]
  let ?c = "claimedSession (hsTable h) pid detached now s"
  from claimCandidate_run [OF v(4) cr pid, of "hsTable h" detached now] tn obtain state where
    cl: "claimCandidate (hsTable h) pid detached now s = Inr (state, ?c)"
      "\<forall>err. reduceClaimCommitOutcome state err" by blast
  have "validEgressRuntimeState ?c = validEgressRuntimeState s"
    using tn by (intro validEgressRuntimeState_cong) (simp_all add: claimedSession_def)
  then have valid: "validateRecord ?c = Inr ()"
    using v(4) by (intro validateRecord_frame [OF v(2)])
      (simp_all add: claimedSession_def CanGrant_def validStatus_def)
  let ?fn = "\<lambda>s. case seStatus s of StatusRunning \<Rightarrow> failIO ErrSessionRunning
        | StatusCreated \<Rightarrow>
            bindIO (liftIO (claimCandidate (hsTable h) pid detached now s)) (\<lambda>(state, candidate).
            bindIO (tryIO (Commit s candidate)) (\<lambda>r.
            if \<not> reduceClaimCommitOutcome state (commitError r) then failIO ErrProtocol
            else liftIO r))
        | _ \<Rightarrow> failIO ErrSessionStopped"
  have "\<exists>w2. ?fn s w1 = (Inr (bumped ?c), w2) \<and> calm w2" if "calm w1" for w1
  proof -
    from Commit_final [OF that _ _ valid enc, of s] obtain w2 where
      "Commit s ?c w1 = (Inr (bumped ?c), w2)" "calm w2" by (auto simp: claimed_fields)
    with cr cl show ?thesis by (simp add: bindIO_def liftIO_def tryIO_def)
  qed
  from WithLocked_final [OF w st, of ?fn, OF this] pid show ?thesis by (auto simp: markRunning_def)
qed

definition quietHost :: host where
  "quietHost =
     \<lparr>hsTable = \<lparr>ptToken = (\<lambda>_. None), ptSignal0 = (\<lambda>_. False)\<rparr>,
      hsSockets = \<lparr>envDir = ''/home/u/s'', envXDG = [], envTemp = ''/tmp'', envUID = 501\<rparr>,
      hsLegacy = (\<lambda>_. LegacyAbsent)\<rparr>"

theorem claims_are_exclusive_witness:
  "\<exists>x w'. markRunning quietHost ''sess-1'' 7 False 0 (worldWith createdSample) = (Inr x, w')
     \<and> (\<exists>e w2. markRunning quietHost ''sess-1'' 8 False 0 w' = (Inl e, w2) \<and> wDir w2 = wDir w')"
proof -
  let ?w = "worldWith createdSample"
  let ?c = "claimedSession (hsTable quietHost) 7 False 0 createdSample"
  have "\<exists>bs. encodeRecord (bumped ?c) = Inr bs"
    by (auto simp: encodeRecord_def recordTimes_def jsonTime_def createdSample_def sampleSession_def
        zeroSession_def claimedSession_def bumped_def)
  then obtain bs where enc: "encodeRecord (bumped ?c) = Inr bs" ..
  from markRunning_calm [OF createdSample_stored(2,1) createdSample_fields(1,2) _ enc] obtain w' where
    run: "markRunning quietHost ''sess-1'' 7 False 0 ?w = (Inr (bumped ?c), w')" by auto
  obtain r2 w2 where again: "markRunning quietHost ''sess-1'' 8 False 0 w' = (r2, w2)" by fastforce
  from claims_are_exclusive [OF run] again have "(\<exists>e. r2 = Inl e) \<and> wDir w2 = wDir w'"
    by (simp, blast)
  with run again show ?thesis by blast
qed

end
