(* ===== verification/StopLaws.thy ===== *)
theory StopLaws
  imports LifecycleLaws
begin

text \<open>
  What stop, remove and reconcile promise: their effects come in one fixed order and all precede
  the durable change, a signal goes only to a recorded live owner, and without faults a stop ends
  in the stopped record.
\<close>

section \<open>The teardown of a stored session\<close>

lemma Commit_plan: "follows (Commit s c) (commitEvents (seID s))"
proof (cases "seID c = seID s")
  case True
  then show ?thesis by (rule Commit_follows)
next
  case False
  then show ?thesis by (simp add: Commit_def)
qed

definition active :: "Session \<Rightarrow> bool" where
  "active s \<longleftrightarrow> seStatus s = StatusCreated \<or> seStatus s = StatusRunning"

definition ready :: "Session \<Rightarrow> ProtocolAdapter \<times> ProtocolState \<Rightarrow> bool" where
  "ready s at \<longleftrightarrow> (case at of (a, td) \<Rightarrow> completeTeardownProtocol a td = Inr (stoppedRecord s))"

lemma completeTeardown_ready:
  assumes "validEgressRuntimeState s" and "active s" and "freshFrame s st0 a" and "framesRecord a st"
    and "psEffect st = ProtocolTeardownEffect"
    and "psOperation st = ProtocolStop \<or> psOperation st = ProtocolTeardown"
  shows "ready s (a, st)"
proof -
  have o: "paOriginal a = s" and b: "psStatus (paBaseline a) \<noteq> ProtocolStopped"
    using assms(2,3) by (auto simp: freshFrame_def active_def symbolicStatus_def)
  from teardown_projects [OF assms(4) _ assms(5,6) b] assms(1) obtain terminal where
    "ReduceProtocol st (outcomeEvent ProtocolTeardownAction ProtocolTeardownProven ProtocolNoTruth) = (terminal, True)"
    "Candidate terminal a = Inr (stoppedRecord s)" unfolding o by blast
  then show ?thesis by (simp add: ready_def completeTeardownProtocol_def stepOr_def)
qed

lemma stepOr_accepts:
  assumes "protocolStateInDomain zeroBounds st" and "protocolStateInDomain zeroBounds u"
    and "reduceAction (evAction e) (normalizeProtocolBounds zeroBounds) st e = Some u"
  shows "stepOr err st e = Inr u"
  using reduce_accepts [OF assms(1) inDomain_normal [OF assms(1)] assms(3)] inDomain_normal [OF assms(2)]
  by (simp add: stepOr_def)

lemma teardown_frame:
  assumes "framesRecord a st" and "op = ProtocolStop \<or> op = ProtocolTeardown"
  defines "u \<equiv> st\<lparr>psOperation := op, psEffect := ProtocolTeardownEffect, psResult := ProtocolPending\<rparr>"
  shows "protocolStateInDomain zeroBounds u" and "framesRecord a u"
proof -
  show d: "protocolStateInDomain zeroBounds u"
    using framesRecord_domain [OF assms(1)] assms(2) by (auto simp: u_def protocolStateInDomain_iff)
  show "framesRecord a u"
    by (rule framesRecord_cong [OF assms(1) refl refl _ d]) (simp add: u_def sameGenerations_def)
qed

lemma OwnerActionState_needs_pid:
  "\<not> 0 < sePID (paOriginal a) \<Longrightarrow> OwnerActionState a = Inl ErrProtocol"
  by (simp add: OwnerActionState_def Let_def)

lemma signalTeardown_run:
  assumes v: "validEgressRuntimeState s" and st: "active s"
  shows "signalTeardown s = Inl ErrProtocol \<and> sePID s \<le> 0
       \<or> (\<exists>at. signalTeardown s = Inr at \<and> ready s at) \<and> 0 < sePID s"
proof -
  obtain a st0 where new: "NewProtocolAdapter s = (a, st0)" by fastforce
  have vs: "validStatus (seStatus s)" using st by (auto simp: active_def validStatus_def)
  have o: "paOriginal a = s" using newAdapter_fresh [OF v vs new] by (simp add: freshFrame_def)
  show ?thesis
  proof (cases "0 < sePID s")
    case False
    with st have "SignalAuthorizationState a = Inl ErrProtocol"
      by (auto simp: SignalAuthorizationState_def Let_def o OwnerActionState_needs_pid active_def)
    with False new show ?thesis by (simp add: signalTeardown_def)
  next
    case True
    from SignalAuthorizationState_valid [OF v _ True new] st obtain b q where
      b: "SignalAuthorizationState a = Inr (b, q)" "authorizedFrame s st0 b q" by (auto simp: active_def)
    note f = b(2) [unfolded authorizedFrame_def]
    from f have fr: "framesRecord b q" and ff: "freshFrame s st0 b" by simp_all
    let ?u = "q\<lparr>psOperation := ProtocolStop, psEffect := ProtocolTeardownEffect, psResult := ProtocolPending\<rparr>"
    have u: "protocolStateInDomain zeroBounds ?u" "framesRecord b ?u"
      using teardown_frame [OF fr, of ProtocolStop] by simp_all
    have "stepOr ErrProtocol q (plainEvent ProtocolStopStart) = Inr ?u"
      using f by (intro stepOr_accepts [OF framesRecord_domain [OF fr] u(1)])
        (simp add: plainEvent_def reduceStopStart_def protocolEmptyEvent_def)
    with b(1) new have "signalTeardown s = Inr (b, ?u)" by (simp add: signalTeardown_def)
    moreover have "ready s (b, ?u)" by (rule completeTeardown_ready [OF v st ff u(2)]) simp_all
    ultimately show ?thesis using True by blast
  qed
qed

lemma blockedTeardown_run:
  assumes v: "validEgressRuntimeState s" and st: "active s"
  shows "\<exists>at. blockedTeardown s = Inr at \<and> ready s at"
proof -
  obtain a st0 where new: "NewProtocolAdapter s = (a, st0)" by fastforce
  from BlockedTeardownState_valid [OF v st [unfolded active_def] new] obtain b q where
    b: "BlockedTeardownState a = Inr (b, q)" "freshFrame s st0 b" "framesRecord b q"
      "psMode q = ProtocolBlocked" "psEffect q = ProtocolNoEffect" by blast
  let ?u = "q\<lparr>psOperation := ProtocolTeardown, psEffect := ProtocolTeardownEffect, psResult := ProtocolPending\<rparr>"
  have u: "protocolStateInDomain zeroBounds ?u" "framesRecord b ?u"
    using teardown_frame [OF b(3), of ProtocolTeardown] by simp_all
  have "stepOr ErrProtocol q (plainEvent ProtocolRequestTeardown) = Inr ?u"
    using b(4,5) by (intro stepOr_accepts [OF framesRecord_domain [OF b(3)] u(1)])
      (simp add: plainEvent_def reduceRequestTeardown_def protocolEmptyEvent_def)
  with b(1) new have "blockedTeardown s = Inr (b, ?u)" by (simp add: blockedTeardown_def)
  moreover have "ready s (b, ?u)" by (rule completeTeardown_ready [OF v st b(2) u(2)]) simp_all
  ultimately show ?thesis by blast
qed

section \<open>Effects before one commit\<close>

lemma bindIO_assoc: "bindIO (bindIO m f) g = bindIO m (\<lambda>x. bindIO (f x) g)"
  by (rule ext) (simp add: bindIO_def split: prod.split sum.split)

lemma bindIO_unit [simp]: "bindIO (retIO x) f = f x" "bindIO m retIO = m"
  by (rule ext, simp add: bindIO_def retIO_def split: prod.split sum.split)+

lemma liftIO_Inr: "bindIO (liftIO (Inr x)) f = f x" and liftIO_Inl: "bindIO (liftIO (Inl e)) f = failIO e"
  by (rule ext, simp add: bindIO_def liftIO_def failIO_def)+

text \<open>A handler that prepares a candidate by quiet effects and then commits it once.\<close>

lemma prepared_commit:
  assumes f: "follows pre p" and q: "quiet pre" and run: "bindIO pre (Commit s) w = (r, w')"
  shows "\<exists>done. wTrace w' = wTrace w @ done \<and> prefix done (p @ commitEvents (seID s))
       \<and> (\<forall>x. r = Inr x \<longrightarrow> done = p @ commitEvents (seID s))
       \<and> (diskFrame w w' \<and> (\<exists>e. r = Inl e)
          \<or> prefix p done \<and> (\<exists>w1 c. pre w = (Inr c, w1) \<and> storedOver c w w' \<and> seID c = seID s
               \<and> (r = Inr (bumped c) \<or> r = Inl ErrCommitUncertain)))"
proof -
  from run consider e where "pre w = (Inl e, w')" "r = Inl e"
    | c w1 where "pre w = (Inr c, w1)" "Commit s c w1 = (r, w')" unfolding bindIO_run by blast
  then show ?thesis
  proof cases
    case 1
    with f obtain evs where "wTrace w' = wTrace w @ evs" "prefix evs p" unfolding follows_def by blast
    moreover have "diskFrame w w'" using q 1(1) unfolding quiet_def by blast
    ultimately show ?thesis using 1(2) by (intro exI [of _ evs]) (simp add: prefix_prefix)
  next
    case 2
    from f 2(1) have t: "wTrace w1 = wTrace w @ p" unfolding follows_def by blast
    have d: "diskFrame w w1" using q 2(1) unfolding quiet_def by blast
    from Commit_plan 2(2) obtain evs where e: "wTrace w' = wTrace w1 @ evs"
      "prefix evs (commitEvents (seID s))" "\<forall>x. r = Inr x \<longrightarrow> evs = commitEvents (seID s)"
      unfolding follows_def by blast
    have "storedOver c w w'" if "storedOver c w1 w'" using storedOver_frame [OF d that] by simp
    with Commit_run [OF 2(2)] have "diskFrame w w' \<and> (\<exists>e. r = Inl e)
        \<or> storedOver c w w' \<and> seID c = seID s \<and> (r = Inr (bumped c) \<or> r = Inl ErrCommitUncertain)"
      using diskFrame_trans [OF d] by blast
    with t e 2(1) show ?thesis by (intro exI [of _ "p @ evs"]) auto
  qed
qed

section \<open>Stop\<close>

definition signalled :: "(Session \<Rightarrow> bool) option \<Rightarrow> Session \<Rightarrow> bool" where
  "signalled processAlive s \<longleftrightarrow>
     sePID s \<noteq> 0 \<and> (case processAlive of None \<Rightarrow> False | Some alive \<Rightarrow> alive s)"

definition revokedIf :: "bool \<Rightarrow> time \<Rightarrow> Session \<Rightarrow> Session" where
  "revokedIf revoke now s = (if revoke \<and> \<not> seCredentialsRevoked s then revokedSession s now else s)"

definition revokeEvents :: "bool \<Rightarrow> Session \<Rightarrow> event list" where
  "revokeEvents revoke s = (if revoke \<and> \<not> seCredentialsRevoked s then [EvRevoked (seID s)] else [])"

definition killEvents :: "(Session \<Rightarrow> bool) option \<Rightarrow> Session \<Rightarrow> event list" where
  "killEvents processAlive s =
     (if signalled processAlive s \<and> 0 < sePID s then [EvKilled (signalTarget s)] else [])"

definition stopEffects ::
  "host \<Rightarrow> bool \<Rightarrow> time \<Rightarrow> (Session \<Rightarrow> bool) option \<Rightarrow> callback option list \<Rightarrow> Session \<Rightarrow> event list" where
  "stopEffects h revoke now processAlive reap s =
     revokeEvents revoke s @
     (if seStatus s = StatusStopped then []
      else killEvents processAlive (revokedIf revoke now s) @ socketEvents h (seID s) @ reapEvents 0 reap (seID s))"

text \<open>The record a stop of an active session writes.\<close>

definition stoppedBy :: "bool \<Rightarrow> time \<Rightarrow> Session \<Rightarrow> Session" where
  "stoppedBy revoke now s =
     (stoppedRecord (revokedIf revoke now s))\<lparr>seStoppedAt := now, seUpdatedAt := now\<rparr>"

definition stopPrepare ::
  "host \<Rightarrow> string \<Rightarrow> bool \<Rightarrow> time \<Rightarrow> callback \<Rightarrow> (int \<Rightarrow> (session_error, unit) res)
   \<Rightarrow> (Session \<Rightarrow> bool) option \<Rightarrow> callback option list \<Rightarrow> Session \<Rightarrow> Session io" where
  "stopPrepare h i revoke now revokeCredentials killProcess processAlive reap s0 =
     bindIO (if revoke \<and> \<not> seCredentialsRevoked s0
             then bindIO (invoke (EvRevoked (seID s0)) (revokeCredentials s0)) (\<lambda>_.
                  retIO (revokedSession s0 now))
             else retIO s0) (\<lambda>s.
     bindIO (stopTeardown killProcess processAlive s) (\<lambda>at.
     bindIO (sweep h i) (\<lambda>_.
     bindIO (reapAll 0 reap s) (\<lambda>_.
     bindIO (liftIO (completeTeardownProtocol (fst at) (snd at))) (\<lambda>candidate.
     retIO (candidate\<lparr>seStoppedAt := now, seUpdatedAt := now\<rparr>))))))"

lemma stopActive_prepared:
  "stopActive h i revoke now rc kill alive reap s
     = bindIO (stopPrepare h i revoke now rc kill alive reap s) (Commit s)"
  by (simp add: stopActive_def stopPrepare_def bindIO_assoc case_prod_unfold)

lemma stopTeardown_quiet [simp]: "quiet (stopTeardown kill alive s)"
  by (simp add: stopTeardown_def quiet_bind)

lemma stopPrepare_quiet: "quiet (stopPrepare h i revoke now rc kill alive reap s)"
  unfolding stopPrepare_def by (auto intro!: quiet_bind)

lemma stopTeardown_alt:
  "stopTeardown kill alive s =
     (if signalled alive s
      then bindIO (liftIO (signalTeardown s)) (\<lambda>td.
           bindIO (invoke (EvKilled (signalTarget s)) (kill (signalTarget s))) (\<lambda>_. retIO td))
      else liftIO (blockedTeardown s))"
  by (simp add: stopTeardown_def signalled_def)

lemma stopTeardown_run:
  assumes "validEgressRuntimeState s" and "active s"
  shows "follows (stopTeardown kill alive s) (killEvents alive s)"
    and "stopTeardown kill alive s w = (Inr at, w') \<Longrightarrow> ready s at"
proof -
  note sg = signalTeardown_run [OF assms] and bl = blockedTeardown_run [OF assms]
  show "follows (stopTeardown kill alive s) (killEvents alive s)"
  proof (cases "signalled alive s")
    case True
    have "follows (bindIO (invoke (EvKilled (signalTarget s)) (kill (signalTarget s))) (\<lambda>_. retIO at))
        [EvKilled (signalTarget s)]" for at by (rule follows_last_bind) auto
    note kill = this
    from sg show ?thesis
    proof (elim disjE exE conjE)
      fix at assume "signalTeardown s = Inr at" "0 < sePID s"
      with True kill show ?thesis
        by (simp add: stopTeardown_alt killEvents_def liftIO_Inr)
    qed (use True in \<open>simp add: stopTeardown_alt liftIO_Inl\<close>)
  next
    case False
    then show ?thesis by (simp add: stopTeardown_alt killEvents_def)
  qed
  assume run: "stopTeardown kill alive s w = (Inr at, w')"
  show "ready s at"
  proof (cases "signalled alive s")
    case True
    with run have "signalTeardown s = Inr at"
      by (auto simp: stopTeardown_alt bindIO_run)
    with sg show ?thesis by auto
  next
    case False
    with run have "blockedTeardown s = Inr at"
      by (auto simp: stopTeardown_alt)
    with bl show ?thesis by auto
  qed
qed

lemma revokedSession_valid [simp]:
  "validEgressRuntimeState (revokedSession s now) = validEgressRuntimeState s"
  by (rule validEgressRuntimeState_cong) (simp_all add: revokedSession_def)

lemma revokedIf_frame [simp]:
  "seID (revokedIf revoke now s) = seID s" "sePID (revokedIf revoke now s) = sePID s"
  "active (revokedIf revoke now s) = active s" "signalTarget (revokedIf revoke now s) = signalTarget s"
  "validEgressRuntimeState (revokedIf revoke now s) = validEgressRuntimeState s"
  "seRecordRevision (revokedIf revoke now s) = seRecordRevision s" "seBackend (revokedIf revoke now s) = seBackend s"
  by (auto simp: revokedIf_def) (simp_all add: revokedSession_def active_def signalTarget_def)

definition revokeStep :: "bool \<Rightarrow> time \<Rightarrow> callback \<Rightarrow> Session \<Rightarrow> Session io" where
  "revokeStep revoke now rc s =
     (if revoke \<and> \<not> seCredentialsRevoked s
      then bindIO (invoke (EvRevoked (seID s)) (rc s)) (\<lambda>_. retIO (revokedSession s now))
      else retIO s)"

definition teardownTail ::
  "host \<Rightarrow> string \<Rightarrow> time \<Rightarrow> callback option list \<Rightarrow> Session \<Rightarrow> ProtocolAdapter \<times> ProtocolState \<Rightarrow> Session io" where
  "teardownTail h i now reap s at =
     bindIO (sweep h i) (\<lambda>_.
     bindIO (reapAll 0 reap s) (\<lambda>_.
     bindIO (liftIO (completeTeardownProtocol (fst at) (snd at))) (\<lambda>candidate.
     retIO (candidate\<lparr>seStoppedAt := now, seUpdatedAt := now\<rparr>))))"

lemma revokeStep_run:
  "follows (revokeStep revoke now rc s) (revokeEvents revoke s)"
  "revokeStep revoke now rc s w = (Inr x, w') \<Longrightarrow> x = revokedIf revoke now s"
  by (auto simp: revokeStep_def revokeEvents_def revokedIf_def invoke_def bindIO_run
      intro: follows_last_bind split: if_splits)

lemma teardownTail_run:
  "follows (teardownTail h i now reap s at) (socketEvents h i @ reapEvents 0 reap (seID s))"
  "teardownTail h i now reap s at w = (Inr c, w') \<Longrightarrow> ready s at
     \<Longrightarrow> c = (stoppedRecord s)\<lparr>seStoppedAt := now, seUpdatedAt := now\<rparr>"
  unfolding teardownTail_def
  by (intro follows_bind sweep_follows follows_last_bind reapAll_follows follows_nil_bind)
    (auto simp: bindIO_run ready_def)

lemma stopPrepare_alt:
  "stopPrepare h i revoke now rc kill alive reap s =
     bindIO (revokeStep revoke now rc s) (\<lambda>s.
     bindIO (stopTeardown kill alive s) (teardownTail h i now reap s))"
  by (simp add: stopPrepare_def revokeStep_def teardownTail_def [abs_def])

lemma stopPrepare_run:
  assumes v: "validEgressRuntimeState s" and a: "active s" and i: "seID s = i"
  shows "follows (stopPrepare h i revoke now rc kill alive reap s) (stopEffects h revoke now alive reap s)"
    and "stopPrepare h i revoke now rc kill alive reap s w = (Inr c, w') \<Longrightarrow> c = stoppedBy revoke now s"
proof -
  let ?s = "revokedIf revoke now s"
  have td: "follows (stopTeardown kill alive ?s) (killEvents alive ?s)"
    "stopTeardown kill alive ?s w1 = (Inr at, w2) \<Longrightarrow> ready ?s at" for at w1 w2
    using stopTeardown_run [of ?s] v a by simp_all
  have "follows (bindIO (stopTeardown kill alive ?s) (teardownTail h i now reap ?s))
      (killEvents alive ?s @ socketEvents h i @ reapEvents 0 reap (seID ?s))"
    by (intro follows_bind td(1) teardownTail_run(1))
  then have inner: "follows (bindIO (stopTeardown kill alive x) (teardownTail h i now reap x))
      (killEvents alive ?s @ socketEvents h i @ reapEvents 0 reap (seID ?s))"
    if "revokeStep revoke now rc s w = (Inr x, w1)" for x w w1
    using revokeStep_run(2) [OF that] by simp
  have "follows (stopPrepare h i revoke now rc kill alive reap s)
      (revokeEvents revoke s @ killEvents alive ?s @ socketEvents h i @ reapEvents 0 reap (seID ?s))"
    unfolding stopPrepare_alt by (rule follows_bind [OF revokeStep_run(1) inner])
  then show "follows (stopPrepare h i revoke now rc kill alive reap s) (stopEffects h revoke now alive reap s)"
    using a i by (auto simp: stopEffects_def active_def)
  assume "stopPrepare h i revoke now rc kill alive reap s w = (Inr c, w')"
  then obtain d w1 at w2 where "revokeStep revoke now rc s w = (Inr d, w1)"
    "stopTeardown kill alive d w1 = (Inr at, w2)" "teardownTail h i now reap d at w2 = (Inr c, w')"
    unfolding stopPrepare_alt bindIO_run by blast
  with revokeStep_run(2) td(2) teardownTail_run(2) show "c = stoppedBy revoke now s"
    unfolding stoppedBy_def by metis
qed

text \<open>A stopped record is written again only to note a revocation.\<close>

definition stutterPrepare :: "time \<Rightarrow> callback \<Rightarrow> Session \<Rightarrow> Session io" where
  "stutterPrepare now rc s =
     (case NewProtocolAdapter s of (adapter, state) \<Rightarrow>
      bindIO (liftIO (stepOr ErrProtocol state (plainEvent ProtocolTerminalStutter))) (\<lambda>_.
      bindIO (invoke (EvRevoked (seID s)) (rc s)) (\<lambda>_.
      bindIO (liftIO (Candidate state adapter)) (\<lambda>candidate.
      retIO ((revokedSession candidate now)\<lparr>seUpdatedAt := now\<rparr>)))))"

lemma stopStopped_alt:
  "stopStopped revoke now rc s =
     (if revoke \<and> \<not> seCredentialsRevoked s then bindIO (stutterPrepare now rc s) (Commit s)
      else bindIO (liftIO (stepOr ErrProtocol (snd (NewProtocolAdapter s)) (plainEvent ProtocolTerminalStutter)))
             (\<lambda>_. retIO s))"
  by (simp add: stopStopped_def stutterPrepare_def case_prod_unfold bindIO_assoc)

lemma stutterPrepare_run:
  assumes v: "validEgressRuntimeState s" and st: "seStatus s = StatusStopped"
  shows "follows (stutterPrepare now rc s) [EvRevoked (seID s)]" and "quiet (stutterPrepare now rc s)"
    and "stutterPrepare now rc s w = (Inr c, w') \<Longrightarrow> c = (revokedSession s now)\<lparr>seUpdatedAt := now\<rparr>"
proof -
  obtain a st0 where new: "NewProtocolAdapter s = (a, st0)" by fastforce
  from newAdapter_fresh [OF v _ new] st have "Candidate st0 a = Inr s"
    by (simp add: validStatus_def freshFrame_def Candidate_def projectCandidate_def)
  with new show "stutterPrepare now rc s w = (Inr c, w') \<Longrightarrow> c = (revokedSession s now)\<lparr>seUpdatedAt := now\<rparr>"
    by (auto simp: stutterPrepare_def bindIO_run)
  show "quiet (stutterPrepare now rc s)"
    unfolding stutterPrepare_def new by (auto intro!: quiet_bind)
  show "follows (stutterPrepare now rc s) [EvRevoked (seID s)]"
    unfolding stutterPrepare_def new prod.case
    by (intro follows_nil_bind [OF follows_simps(2)] follows_last_bind [OF follows_invoke]) simp_all
qed

text \<open>What a stop that commits writes.\<close>

definition stopResult :: "bool \<Rightarrow> time \<Rightarrow> Session \<Rightarrow> Session" where
  "stopResult revoke now s =
     (if seStatus s = StatusStopped then (revokedSession s now)\<lparr>seUpdatedAt := now\<rparr>
      else stoppedBy revoke now s)"

definition unchanged :: "world \<Rightarrow> world \<Rightarrow> bool" where
  "unchanged w w' \<longleftrightarrow> wDir w' = wDir w \<and> wDurable w' = wDurable w"

lemma unchanged_frame: "diskFrame w w' \<Longrightarrow> unchanged w w'"
  by (simp add: diskFrame_same unchanged_def)

lemma stop_body:
  assumes st: "storedSession i w s" and fr: "diskFrame w w1"
    and run: "(if seStatus s = StatusStopped then stopStopped revoke now rc s
      else stopActive h i revoke now rc kill alive reap s) w1 = (r, w2)"
  defines "plan \<equiv> stopEffects h revoke now alive reap s"
  shows "\<exists>done. wTrace w2 = wTrace w1 @ done \<and> prefix done (plan @ commitEvents i)
       \<and> (prefix plan done \<and> storedOver (stopResult revoke now s) w w2
            \<and> (r = Inr (bumped (stopResult revoke now s)) \<or> r = Inl ErrCommitUncertain)
          \<or> unchanged w w2 \<and> ((\<exists>e. r = Inl e) \<or> r = Inr s \<and> seStatus s = StatusStopped))"
proof -
  note v = storedSession_valid [OF st]
  have over: "storedOver c w w2" if "storedOver c w1 w2" for c using storedOver_frame [OF fr that] by simp
  have same: "unchanged w w2" if "diskFrame w1 w2"
    using diskFrame_trans [OF fr that] by (rule unchanged_frame)
  have run_prepared: ?thesis
    if "follows pre plan" "quiet pre" "bindIO pre (Commit s) w1 = (r, w2)"
      "\<And>c w w'. pre w = (Inr c, w') \<Longrightarrow> c = stopResult revoke now s" for pre
    using prepared_commit [OF that(1,2,3)] v(1) over same that(4) by blast
  show ?thesis
  proof (cases "seStatus s = StatusStopped")
    case False
    with v(5) have a: "active s" by (auto simp: validStatus_def active_def)
    show ?thesis
      using run False stopPrepare_run [OF v(4) a v(1)] stopPrepare_quiet
      by (intro run_prepared [of "stopPrepare h i revoke now rc kill alive reap s"])
        (simp_all add: plan_def stopActive_prepared stopResult_def)
  next
    case True
    note sp = stutterPrepare_run [OF v(4) True]
    show ?thesis
    proof (cases "revoke \<and> \<not> seCredentialsRevoked s")
      case revoked: True
      then have "plan = [EvRevoked (seID s)]" by (simp add: plan_def stopEffects_def True revokeEvents_def)
      with run True revoked sp show ?thesis
        by (intro run_prepared [of "stutterPrepare now rc s"]) (simp_all add: stopStopped_alt stopResult_def)
    next
      case False
      with run True have "w2 = w1 \<and> ((\<exists>e. r = Inl e) \<or> r = Inr s)"
        by (auto simp: stopStopped_alt bindIO_run)
      with same True show ?thesis by (intro exI [of _ "[]"]) auto
    qed
  qed
qed

lemma reapEvents_kills: "EvKilled t \<notin> set (reapEvents n fs j)"
  by (induction n fs j rule: reapEvents.induct) auto

lemma stopEffects_kills:
  "EvKilled t \<in> set (stopEffects h revoke now alive reap s @ commitEvents i) \<Longrightarrow>
     0 < sePID s \<and> signalled alive (revokedIf revoke now s) \<and> t = signalTarget s"
  using reapEvents_kills
  by (auto simp: stopEffects_def revokeEvents_def killEvents_def socketEvents_def commitEvents_def Let_def
      split: if_splits)

text \<open>(C20) The effects of \<open>Stop\<close> come in one fixed order and all precede the durable change. Under
  any faults and callback results: if the body ran, its events are a prefix of revoke, kill,
  socket sweep, reapers, commit, in that order; the disk changes only after every one of those
  effects succeeded, and then to exactly the stopped record; otherwise the directory is what it
  was. A process is signalled only when the record names a positive pid whose owner was observed
  alive, and then with the recorded target.\<close>

theorem stop_effects_precede_commit:
  assumes "Stop h i revoke now revokeCredentials killProcess processAlive reap w = (r, w')"
  shows "(\<exists>e. r = Inl e) \<and> unchanged w w' \<and> (\<exists>evs \<in> {[], [EvLocked i, EvUnlocked i]}. wTrace w' = wTrace w @ evs)
       \<or> (\<exists>s done. storedSession i w s
            \<and> wTrace w' = wTrace w @ [EvLocked i] @ done @ [EvUnlocked i]
            \<and> prefix done (stopEffects h revoke now processAlive reap s @ commitEvents i)
            \<and> (\<forall>t. EvKilled t \<in> set done \<longrightarrow>
                 0 < sePID s \<and> signalled processAlive (revokedIf revoke now s) \<and> t = signalTarget s)
            \<and> (prefix (stopEffects h revoke now processAlive reap s) done
                 \<and> storedOver (stopResult revoke now s) w w'
                 \<and> (r = Inr (bumped (stopResult revoke now s)) \<or> r = Inl ErrCommitUncertain)
               \<or> unchanged w w' \<and> ((\<exists>e. r = Inl e) \<or> r = Inr s \<and> seStatus s = StatusStopped)))"
  using assms [unfolded Stop_def]
proof (rule WithLocked_run)
  fix s w1 w2 assume st: "storedSession i w s" "diskFrame w w1" "wTrace w1 = wTrace w @ [EvLocked i]"
    "w' = w2\<lparr>wTrace := wTrace w2 @ [EvUnlocked i]\<rparr>"
    and body: "(if seStatus s = StatusStopped then stopStopped revoke now revokeCredentials s
      else stopActive h i revoke now revokeCredentials killProcess processAlive reap s) w1 = (r, w2)"
  let ?plan = "stopEffects h revoke now processAlive reap s"
  have fin: "storedOver c w w' = storedOver c w w2" "unchanged w w' = unchanged w w2" for c
    unfolding st(4) by (simp_all add: unchanged_def storedOver_def)
  have kills: "0 < sePID s \<and> signalled processAlive (revokedIf revoke now s) \<and> t = signalTarget s"
    if "EvKilled t \<in> set (?plan @ commitEvents i)" for t using that stopEffects_kills by blast
  from stop_body [OF st(1,2) body] obtain done' where d: "wTrace w2 = wTrace w1 @ done'"
    "prefix done' (?plan @ commitEvents i)"
    "prefix ?plan done' \<and> storedOver (stopResult revoke now s) w w2
       \<and> (r = Inr (bumped (stopResult revoke now s)) \<or> r = Inl ErrCommitUncertain)
     \<or> unchanged w w2 \<and> ((\<exists>e. r = Inl e) \<or> r = Inr s \<and> seStatus s = StatusStopped)" by blast
  have "set done' \<subseteq> set (?plan @ commitEvents i)" using d(2) by (rule set_mono_prefix)
  with kills st(1) d st(3,4) show ?thesis unfolding fin by (intro disjI2 exI [of _ s] exI [of _ done']) auto
qed (auto simp: unchanged_frame)

section \<open>Without faults a stop ends in the stopped record\<close>

lemma revokeStep_succeeds:
  "calm w \<Longrightarrow> rc s = Inr () \<Longrightarrow> succeeds w (revokeStep revoke now rc s) (revokedIf revoke now s)"
  by (auto simp: revokeStep_def revokedIf_def intro!: succeeds_bind succeeds_invoke)

lemma stopTeardown_succeeds:
  assumes "validEgressRuntimeState s" and "active s" and "calm w"
    and "\<And>t. kill t = Inr ()" and "signalled alive s \<Longrightarrow> 0 < sePID s"
  shows "\<exists>at. succeeds w (stopTeardown kill alive s) at \<and> ready s at"
proof (cases "signalled alive s")
  case True
  with signalTeardown_run [OF assms(1,2)] assms(5) obtain at where
    at: "signalTeardown s = Inr at" "ready s at" by fastforce
  have "succeeds w (bindIO (invoke (EvKilled (signalTarget s)) (kill (signalTarget s))) (\<lambda>_. retIO at)) at"
    using assms(3,4) by (intro succeeds_bind [OF succeeds_invoke]) simp_all
  with True at show ?thesis by (intro exI [of _ at]) (simp add: stopTeardown_alt liftIO_Inr)
next
  case False
  with blockedTeardown_run [OF assms(1,2)] assms(3) show ?thesis by (auto simp: stopTeardown_alt)
qed

lemma teardownTail_succeeds:
  assumes "calm w" and "ready s at" and "\<forall>f. Some f \<in> set reap \<longrightarrow> f s = Inr ()"
  shows "succeeds w (teardownTail h i now reap s at) ((stoppedRecord s)\<lparr>seStoppedAt := now, seUpdatedAt := now\<rparr>)"
proof -
  from assms(2) have "completeTeardownProtocol (fst at) (snd at) = Inr (stoppedRecord s)"
    by (simp add: ready_def case_prod_unfold)
  then show ?thesis unfolding teardownTail_def
    using assms(1,3) by (auto simp: liftIO_Inr intro!: succeeds_bind [OF sweep_succeeds] succeeds_bind [OF reapAll_succeeds])
qed

lemma stopPrepare_succeeds:
  assumes "validEgressRuntimeState s" and "active s" and "calm w" and "rc s = Inr ()"
    and "\<And>t. kill t = Inr ()" and "signalled alive (revokedIf revoke now s) \<Longrightarrow> 0 < sePID s"
    and "\<forall>f t. Some f \<in> set reap \<longrightarrow> f t = Inr ()"
  shows "succeeds w (stopPrepare h i revoke now rc kill alive reap s) (stoppedBy revoke now s)"
  unfolding stopPrepare_alt
proof (rule succeeds_bind [OF revokeStep_succeeds [where rc = rc and s = s, OF assms(3,4)]])
  fix w1 assume c: "calm w1"
  let ?s = "revokedIf revoke now s"
  from stopTeardown_succeeds [of ?s w1 kill alive] assms(1,2,5,6) c obtain at where
    at: "succeeds w1 (stopTeardown kill alive ?s) at" "ready ?s at" by auto
  show "succeeds w1 (bindIO (stopTeardown kill alive ?s) (teardownTail h i now reap ?s)) (stoppedBy revoke now s)"
    unfolding stoppedBy_def by (rule succeeds_bind [OF at(1) teardownTail_succeeds]) (use at(2) assms(7) in auto)
qed

lemma stoppedBy_valid:
  assumes "validateRecord s = Inr ()"
  shows "validateRecord (stoppedBy revoke now s) = Inr ()"
proof -
  have "validEgressRuntimeState (stoppedBy revoke now s) = validEgressRuntimeState (stoppedRecord (revokedIf revoke now s))"
    by (rule validEgressRuntimeState_cong) (simp_all add: stoppedBy_def)
  moreover have "validEgressRuntimeState s" using assms by (simp add: validateRecord_Inr)
  ultimately have "validEgressRuntimeState (stoppedBy revoke now s)"
    using stoppedRecord_valid [of "revokedIf revoke now s"] by simp
  then show ?thesis
    by (rule validateRecord_frame [OF assms, rotated -2])
      (auto simp: stoppedBy_def stoppedRecord_def revokedIf_def revokedSession_def validStatus_def CanGrant_def)
qed

lemma stoppedBy_encodes:
  assumes "list_all jsonTime (recordTimes s)" and "jsonTime now"
  shows "\<exists>bs. encodeRecord (bumped (stoppedBy revoke now s)) = Inr bs"
  using assms by (auto simp: encodeRecord_def recordTimes_def stoppedBy_def stoppedRecord_def revokedIf_def
      revokedSession_def bumped_def)

lemma stop_calm:
  assumes "calm w" and "storedSession i w s" and "seStatus s \<noteq> StatusStopped"
    and "list_all jsonTime (recordTimes s)" and "jsonTime now"
    and "revokeCredentials s = Inr ()" and "\<And>t. killProcess t = Inr ()"
    and "\<forall>f t. Some f \<in> set reap \<longrightarrow> f t = Inr ()"
    and "signalled processAlive (revokedIf revoke now s) \<Longrightarrow> 0 < sePID s"
  shows "\<exists>w'. Stop h i revoke now revokeCredentials killProcess processAlive reap w
                = (Inr (bumped (stoppedBy revoke now s)), w')"
proof -
  note v = storedSession_valid [OF assms(2)]
  let ?c = "stoppedBy revoke now s"
  let ?fn = "\<lambda>s. if seStatus s = StatusStopped then stopStopped revoke now revokeCredentials s
    else stopActive h i revoke now revokeCredentials killProcess processAlive reap s"
  have a: "active s" using v(5) assms(3) by (auto simp: validStatus_def active_def)
  have c: "seID ?c = i" "seRecordRevision ?c = seRecordRevision s" "seBackend ?c = seBackend s"
    using v(1) by (simp_all add: stoppedBy_def stoppedRecord_def)
  obtain bs where enc: "encodeRecord (bumped ?c) = Inr bs" using stoppedBy_encodes [OF assms(4,5)] by blast
  have "\<exists>w2. ?fn s w1 = (Inr (bumped ?c), w2) \<and> calm w2" if "calm w1" for w1
  proof -
    have "succeeds w1 (stopPrepare h i revoke now revokeCredentials killProcess processAlive reap s) ?c"
      by (rule stopPrepare_succeeds [OF v(4) a that]) (use assms(6-9) in auto)
    then have "\<exists>w2. bindIO (stopPrepare h i revoke now revokeCredentials killProcess processAlive reap s)
        (Commit s) w1 = (Inr (bumped ?c), w2) \<and> calm w2"
      by (rule bind_final) (rule Commit_final [OF _ _ c(2) stoppedBy_valid [OF v(2)] enc], use c(1) v(1) in simp_all)
    with assms(3) show ?thesis by (simp add: stopActive_prepared)
  qed
  from WithLocked_final [OF assms(1,2), of ?fn, OF this] show ?thesis unfolding Stop_def by blast
qed

text \<open>(C21) Without faults \<open>Stop\<close> succeeds: in a world whose system calls work, for any stored session
  that is not yet stopped (a widen or narrow may be in flight), if the revocation, the kill and
  the reapers succeed and a process observed alive has a positive pid, \<open>Stop\<close> returns the stopped
  record, stored with its owner bytes and runtime authority cleared and its durable grants kept.\<close>

theorem stop_succeeds_without_faults:
  assumes "calm w" and "storedSession i w s" and "seStatus s \<noteq> StatusStopped"
    and "list_all jsonTime (recordTimes s)" and "jsonTime now"
    and "revokeCredentials s = Inr ()" and "\<And>t. killProcess t = Inr ()"
    and "\<forall>f t. Some f \<in> set reap \<longrightarrow> f t = Inr ()"
    and "signalled processAlive (revokedIf revoke now s) \<Longrightarrow> 0 < sePID s"
  shows "\<exists>w'. Stop h i revoke now revokeCredentials killProcess processAlive reap w
                = (Inr (bumped (stoppedBy revoke now s)), w')
     \<and> storedSession i w' (bumped (stoppedBy revoke now s))
     \<and> seStatus (stoppedBy revoke now s) = StatusStopped \<and> sePID (stoppedBy revoke now s) = 0
     \<and> seEgressTransition (stoppedBy revoke now s) = None
     \<and> seEgressGrants (stoppedBy revoke now s) = seEgressGrants s
     \<and> (revoke \<longrightarrow> seCredentialsRevoked (stoppedBy revoke now s))"
proof -
  note v = storedSession_valid [OF assms(2)]
  let ?c = "stoppedBy revoke now s"
  have c: "seID ?c = i" "seBackend ?c = seBackend s"
    using v(1) by (simp_all add: stoppedBy_def stoppedRecord_def)
  have "\<exists>w'. Stop h i revoke now revokeCredentials killProcess processAlive reap w = (Inr (bumped ?c), w')"
    by (rule stop_calm [OF assms(1-5)]) (use assms(6-9) in auto)
  then obtain w' where run: "Stop h i revoke now revokeCredentials killProcess processAlive reap w
      = (Inr (bumped ?c), w')" ..
  then have "storedOver ?c w w'" unfolding Stop_def
  proof (rule WithLocked_run)
    fix s' w1 w2 assume st: "storedSession i w s'" "diskFrame w w1"
      "(if seStatus s' = StatusStopped then stopStopped revoke now revokeCredentials s'
        else stopActive h i revoke now revokeCredentials killProcess processAlive reap s') w1 = (Inr (bumped ?c), w2)"
      "w' = w2\<lparr>wTrace := wTrace w2 @ [EvUnlocked i]\<rparr>"
    have "s' = s" using st(1) assms(2) by (rule storedSession_unique)
    with stop_body [OF assms(2) st(2), of revoke now revokeCredentials h killProcess processAlive reap] st(3) assms(3)
    have "storedOver ?c w w2" by (auto simp: stopResult_def)
    then show ?thesis by (simp add: st(4) storedOver_def)
  qed simp
  with c v(3) have "storedSession i w' (bumped ?c)" using storedOver_stored [of ?c w w'] by simp
  with run show ?thesis
    by simp (simp add: stoppedBy_def stoppedRecord_def revokedIf_def revokedSession_def)
qed

text \<open>The witnesses stop the running sample, whose owner is observed alive, and revoke its credentials.\<close>

lemma sample_stop:
  "calm (worldWith sampleSession)" "storedSession ''sess-1'' (worldWith sampleSession) sampleSession"
  "seStatus sampleSession \<noteq> StatusStopped" "list_all jsonTime (recordTimes sampleSession)" "jsonTime 0"
  "0 < sePID sampleSession"
proof -
  obtain bs where bs: "encodeRecord sampleSession = Inr bs" using sampleSession_encodes by blast
  from worldWith_stored [OF sampleSession_valid this]
  show "calm (worldWith sampleSession)" "storedSession ''sess-1'' (worldWith sampleSession) sampleSession"
    by (simp_all add: sampleSession_def zeroSession_def)
  show "list_all jsonTime (recordTimes sampleSession)" using bs by (simp add: encodeRecord_def split: if_splits)
qed (simp_all add: sampleSession_def zeroSession_def jsonTime_def)

theorem stop_effects_precede_commit_witness:
  "\<exists>r w'. Stop quietHost ''sess-1'' True 0 (\<lambda>_. Inr ()) (\<lambda>_. Inr ()) (Some (\<lambda>_. True)) [] (worldWith sampleSession) = (r, w')
     \<and> (\<exists>done. wTrace w' = [EvLocked ''sess-1''] @ done @ [EvUnlocked ''sess-1'']
          \<and> (\<forall>t. EvKilled t \<in> set done \<longrightarrow> t = signalTarget sampleSession))"
proof -
  let ?w = "worldWith sampleSession"
  have "\<exists>w'. Stop quietHost ''sess-1'' True 0 (\<lambda>_. Inr ()) (\<lambda>_. Inr ()) (Some (\<lambda>_. True)) [] ?w
      = (Inr (bumped (stoppedBy True 0 sampleSession)), w')"
    by (rule stop_calm [OF sample_stop(1-5)]) (simp_all add: sample_stop(6))
  then obtain w' where run: "Stop quietHost ''sess-1'' True 0 (\<lambda>_. Inr ()) (\<lambda>_. Inr ()) (Some (\<lambda>_. True)) [] ?w
      = (Inr (bumped (stoppedBy True 0 sampleSession)), w')" ..
  have t: "wTrace ?w = []" by (simp add: worldWith_def emptyWorld_def)
  from stop_effects_precede_commit [OF run] obtain s evs where "storedSession ''sess-1'' ?w s"
    "wTrace w' = wTrace ?w @ [EvLocked ''sess-1''] @ evs @ [EvUnlocked ''sess-1'']"
    "\<forall>t. EvKilled t \<in> set evs \<longrightarrow> t = signalTarget s" by blast
  moreover from this(1) sample_stop(2) have "s = sampleSession" by (rule storedSession_unique)
  ultimately have "wTrace w' = [EvLocked ''sess-1''] @ evs @ [EvUnlocked ''sess-1'']"
    "\<forall>t. EvKilled t \<in> set evs \<longrightarrow> t = signalTarget sampleSession" using t by simp_all
  with run show ?thesis by blast
qed

theorem stop_succeeds_without_faults_witness:
  "\<exists>w'. Stop quietHost ''sess-1'' True 0 (\<lambda>_. Inr ()) (\<lambda>_. Inr ()) (Some (\<lambda>_. True)) [] (worldWith sampleSession)
          = (Inr (bumped (stoppedBy True 0 sampleSession)), w')
     \<and> storedSession ''sess-1'' w' (bumped (stoppedBy True 0 sampleSession))"
proof -
  have "\<exists>w'. Stop quietHost ''sess-1'' True 0 (\<lambda>_. Inr ()) (\<lambda>_. Inr ()) (Some (\<lambda>_. True)) [] (worldWith sampleSession)
          = (Inr (bumped (stoppedBy True 0 sampleSession)), w')
     \<and> storedSession ''sess-1'' w' (bumped (stoppedBy True 0 sampleSession))
     \<and> seStatus (stoppedBy True 0 sampleSession) = StatusStopped \<and> sePID (stoppedBy True 0 sampleSession) = 0
     \<and> seEgressTransition (stoppedBy True 0 sampleSession) = None
     \<and> seEgressGrants (stoppedBy True 0 sampleSession) = seEgressGrants sampleSession
     \<and> (True \<longrightarrow> seCredentialsRevoked (stoppedBy True 0 sampleSession))"
    by (rule stop_succeeds_without_faults [OF sample_stop(1-5)]) (simp_all add: sample_stop(6))
  then show ?thesis by blast
qed

section \<open>Reconcile\<close>

definition deadOwner :: "(Session \<Rightarrow> bool) \<Rightarrow> Session \<Rightarrow> bool" where
  "deadOwner isAlive s \<longleftrightarrow> seStatus s = StatusRunning \<and> 0 < sePID s \<and> \<not> isAlive s"

definition reconciledRecord :: "time \<Rightarrow> Session \<Rightarrow> Session" where
  "reconciledRecord now s =
     (stoppedRecord s)\<lparr>seLastError := reconcileError, seStoppedAt := now, seUpdatedAt := now\<rparr>"

lemma startReconcile_run:
  assumes v: "validEgressRuntimeState s"
  shows "if deadOwner isAlive s
         then \<exists>at. startReconcileProtocol s isAlive = Inr (Some at) \<and> ready s at
         else startReconcileProtocol s isAlive = Inr None"
proof (cases "deadOwner isAlive s")
  case True
  then have run: "seStatus s = StatusRunning" and pid: "0 < sePID s" and dead: "\<not> isAlive s"
    by (simp_all add: deadOwner_def)
  obtain a st0 where new: "NewProtocolAdapter s = (a, st0)" by fastforce
  from OwnerActionState_valid [OF v run pid new] obtain b q where
    b: "OwnerActionState a = Inr (b, q)" "authorizedFrame s st0 b q" by blast
  then have fr: "framesRecord b q" and ff: "freshFrame s st0 b"
    and q: "psStatus q = ProtocolRunning" "psMode q = ProtocolNormal" "psOperation q = ProtocolIdle"
    by (simp_all add: authorizedFrame_def)
  let ?u = "q\<lparr>psOperation := ProtocolStop, psEffect := ProtocolTeardownEffect, psResult := ProtocolPending\<rparr>"
  have u: "protocolStateInDomain zeroBounds ?u" "framesRecord b ?u"
    using teardown_frame [OF fr, of ProtocolStop] by simp_all
  have "stepOr ErrProtocol q (plainEvent ProtocolStopStart) = Inr ?u"
    using q by (intro stepOr_accepts [OF framesRecord_domain [OF fr] u(1)])
      (simp add: plainEvent_def reduceStopStart_def protocolEmptyEvent_def)
  with b(1) new run pid dead have "startReconcileProtocol s isAlive = Inr (Some (b, ?u))"
    by (simp add: startReconcileProtocol_def)
  moreover have "ready s (b, ?u)"
    by (rule completeTeardown_ready [OF v _ ff u(2)]) (simp_all add: active_def run)
  ultimately show ?thesis using True by (simp only: if_True) blast
qed (auto simp: deadOwner_def startReconcileProtocol_def)

definition reconcilePrepare ::
  "host \<Rightarrow> string \<Rightarrow> time \<Rightarrow> callback option list \<Rightarrow> Session \<Rightarrow> ProtocolAdapter \<times> ProtocolState \<Rightarrow> Session io" where
  "reconcilePrepare h i now reap s at =
     bindIO (reapAll 0 reap s) (\<lambda>_. bindIO (sweep h i) (\<lambda>_.
     liftIO (completeReconcileProtocol (fst at) (snd at) now)))"

lemma reconcilePrepare_run:
  "follows (reconcilePrepare h i now reap s at) (reapEvents 0 reap (seID s) @ socketEvents h i)"
  "quiet (reconcilePrepare h i now reap s at)"
  "reconcilePrepare h i now reap s at w = (Inr c, w') \<Longrightarrow> ready s at \<Longrightarrow> c = reconciledRecord now s"
  unfolding reconcilePrepare_def
  by (intro follows_bind reapAll_follows follows_last_bind sweep_follows)
    (auto simp: bindIO_run ready_def completeReconcileProtocol_def reconciledRecord_def intro!: quiet_bind)

text \<open>(C22) \<open>GetReconciled\<close> never lies and never kills. Under any faults, if it returns a session then
  either the stored record is returned and the directory is untouched, and then it is not a
  running record with a dead owner; or the stored record was running with a dead owner, every
  reaper and the socket sweep ran first, and the stopped record with the fixed error is stored
  and returned. When it fails it wrote nothing, unless the outcome is reported uncertain.\<close>

theorem get_reconciled_never_lies:
  assumes "GetReconciled h i now isAlive reap w = (r, w')"
  shows "(\<exists>e. r = Inl e) \<and> unchanged w w'
       \<or> (\<exists>s. storedSession i w s
            \<and> (if deadOwner isAlive s
                then storedOver (reconciledRecord now s) w w'
                     \<and> (r = Inr (bumped (reconciledRecord now s)) \<or> r = Inl ErrCommitUncertain)
                     \<and> (\<exists>done. wTrace w' = wTrace w @ [EvLocked i] @ reapEvents 0 reap i @ socketEvents h i @ done
                          \<and> set done \<subseteq> set (commitEvents i @ [EvUnlocked i]))
                else r = Inr s \<and> unchanged w w' \<and> wTrace w' = wTrace w @ [EvLocked i, EvUnlocked i]))"
  using assms [unfolded GetReconciled_def]
proof (rule WithLocked_run)
  fix s w1 w2 assume st: "storedSession i w s" "diskFrame w w1" "wTrace w1 = wTrace w @ [EvLocked i]"
    "w' = w2\<lparr>wTrace := wTrace w2 @ [EvUnlocked i]\<rparr>"
    and body: "bindIO (liftIO (startReconcileProtocol s isAlive)) (\<lambda>started. case started of
        None \<Rightarrow> retIO s
      | Some (adapter, state) \<Rightarrow>
          bindIO (reapAll 0 reap s) (\<lambda>_. bindIO (sweep h i) (\<lambda>_.
          bindIO (liftIO (completeReconcileProtocol adapter state now)) (\<lambda>fixed. Commit s fixed)))) w1 = (r, w2)"
  note v = storedSession_valid [OF st(1)]
  note start = startReconcile_run [OF v(4), of isAlive]
  have over: "storedOver c w w'" if "storedOver c w1 w2" for c
    by (rule storedOver_frame [OF st(2) that]) (simp add: st(4))
  have same: "unchanged w w'" if "diskFrame w1 w2"
    using diskFrame_trans [OF st(2) that] by (simp add: st(4) unchanged_def diskFrame_same)
  show ?thesis
  proof (cases "deadOwner isAlive s")
    case False
    with start body have "r = Inr s" "w2 = w1" by (simp_all add: liftIO_Inr)
    with False st(1,3,4) same show ?thesis by (intro disjI2 exI [of _ s]) simp
  next
    case True
    with start obtain at where at: "startReconcileProtocol s isAlive = Inr (Some at)" "ready s at" by auto
    with body have "bindIO (reconcilePrepare h i now reap s at) (Commit s) w1 = (r, w2)"
      by (simp add: liftIO_Inr reconcilePrepare_def bindIO_assoc case_prod_unfold)
    from prepared_commit [OF reconcilePrepare_run(1,2) this] obtain evs where
      e: "wTrace w2 = wTrace w1 @ evs" "prefix evs ((reapEvents 0 reap i @ socketEvents h i) @ commitEvents i)"
        "diskFrame w1 w2 \<and> (\<exists>e. r = Inl e)
         \<or> prefix (reapEvents 0 reap i @ socketEvents h i) evs \<and> (\<exists>v c. reconcilePrepare h i now reap s at w1 = (Inr c, v)
              \<and> storedOver c w1 w2 \<and> (r = Inr (bumped c) \<or> r = Inl ErrCommitUncertain))"
      unfolding v(1) by blast
    from e(3) consider (failed) e where "diskFrame w1 w2" "r = Inl e"
      | (stored) x c where "prefix (reapEvents 0 reap i @ socketEvents h i) evs"
          "reconcilePrepare h i now reap s at w1 = (Inr c, x)" "storedOver c w1 w2"
          "r = Inr (bumped c) \<or> r = Inl ErrCommitUncertain" by blast
    then show ?thesis
    proof cases
      case stored
      then have c: "c = reconciledRecord now s" using reconcilePrepare_run(3) at(2) by blast
      from stored(1) obtain rest where rest: "evs = (reapEvents 0 reap i @ socketEvents h i) @ rest"
        unfolding prefix_def by blast
      with e(2) have "set rest \<subseteq> set (commitEvents i)" by (auto dest: set_mono_prefix)
      then have "\<exists>done. wTrace w' = wTrace w @ [EvLocked i] @ reapEvents 0 reap i @ socketEvents h i @ done
          \<and> set done \<subseteq> set (commitEvents i @ [EvUnlocked i])"
        using e(1) rest st(3,4) by (intro exI [of _ "rest @ [EvUnlocked i]"]) auto
      with st(1) over stored(3,4) c True show ?thesis by (intro disjI2 exI [of _ s]) simp
    qed (simp add: same)
  qed
qed (auto simp: unchanged_frame)

theorem get_reconciled_never_lies_witness:
  "\<exists>w'. GetReconciled quietHost ''sess-1'' 0 (\<lambda>_. True) [] (worldWith sampleSession) = (Inr sampleSession, w')
     \<and> unchanged (worldWith sampleSession) w'"
proof -
  let ?w = "worldWith sampleSession"
  have start: "startReconcileProtocol s (\<lambda>_. True) = Inr None" for s
    by (simp add: startReconcileProtocol_def)
  have "\<exists>w'. GetReconciled quietHost ''sess-1'' 0 (\<lambda>_. True) [] ?w = (Inr sampleSession, w') \<and> calm w'"
    unfolding GetReconciled_def
    by (rule WithLocked_final [OF sample_stop(1,2)]) (simp add: start liftIO_Inr)
  then obtain w' where run: "GetReconciled quietHost ''sess-1'' 0 (\<lambda>_. True) [] ?w = (Inr sampleSession, w')"
    by blast
  have "\<not> deadOwner (\<lambda>_. True) s" for s by (simp add: deadOwner_def)
  with get_reconciled_never_lies [OF run] have "unchanged ?w w'" by auto
  with run show ?thesis by blast
qed

section \<open>Removal\<close>

definition removeEffects :: "host \<Rightarrow> callback option \<Rightarrow> callback option list \<Rightarrow> Session \<Rightarrow> event list" where
  "removeEffects h revokeCredentials reap s =
     (if revokeCredentials \<noteq> None \<and> \<not> seCredentialsRevoked s then [EvRevoked (seID s)] else [])
     @ reapEvents 0 reap (seID s) @ socketEvents h (seID s)"

definition removePrepare :: "host \<Rightarrow> string \<Rightarrow> callback option \<Rightarrow> callback option list \<Rightarrow> Session \<Rightarrow> unit io" where
  "removePrepare h i rc reap s =
     bindIO (case rc of Some f \<Rightarrow> if seCredentialsRevoked s then retIO () else invoke (EvRevoked (seID s)) (f s)
             | None \<Rightarrow> retIO ()) (\<lambda>_. bindIO (reapAll 0 reap s) (\<lambda>_. sweep h i))"

lemma removeLocked_alt:
  "removeLocked h i rc reap =
     bindIO (getUnlocked i) (\<lambda>s. if seStatus s = StatusRunning then failIO ErrSessionRunning
       else bindIO (removePrepare h i rc reap s) (\<lambda>_. bindIO (removeRecordAtomic (recordName i)) (\<lambda>_. retIO s)))"
  by (simp add: removeLocked_def removePrepare_def bindIO_assoc cong: if_cong)

lemma removePrepare_run:
  assumes "seID s = i"
  shows "follows (removePrepare h i rc reap s) (removeEffects h rc reap s)" and "quiet (removePrepare h i rc reap s)"
proof -
  have "follows (case rc of Some f \<Rightarrow> if seCredentialsRevoked s then retIO () else invoke (EvRevoked (seID s)) (f s)
             | None \<Rightarrow> retIO ())
      (if rc \<noteq> None \<and> \<not> seCredentialsRevoked s then [EvRevoked (seID s)] else [])"
    by (auto split: option.split)
  from follows_bind [OF this, of "\<lambda>_. bindIO (reapAll 0 reap s) (\<lambda>_. sweep h i)"]
    follows_bind [OF reapAll_follows sweep_follows, of 0 reap s h i]
  show "follows (removePrepare h i rc reap s) (removeEffects h rc reap s)"
    unfolding removePrepare_def removeEffects_def assms by blast
  show "quiet (removePrepare h i rc reap s)"
    unfolding removePrepare_def by (auto intro!: quiet_bind split: option.split)
qed

lemma removeRecordAtomic_run:
  assumes "removeRecordAtomic name w = (r, w')" and "lookupNode name w \<noteq> None"
  shows "r = Inl ErrOS \<and> diskFrame w w' \<and> wTrace w' = wTrace w
       \<or> (r = Inr () \<or> r = Inl ErrCommitUncertain) \<and> wDir w' = AList.delete name (wDir w)
          \<and> (\<exists>evs. wTrace w' = wTrace w @ [EvRemoved name] @ evs \<and> prefix evs [EvDirSynced])
          \<and> (r = Inr () \<longrightarrow> map_of (wDurable w') name = None)"
proof -
  obtain n where "lookupNode name w = Some n" using assms(2) by blast
  with assms(1) show ?thesis
    by (auto simp: removeRecordAtomic_def directorySync_def bindIO_run osCall_run removeNode_def case_run
        diskFrame_def map_of_map AList.delete_conv' split: if_splits)
qed

lemma remove_body:
  assumes st: "storedSession i w s" and fr: "diskFrame w v"
    and run: "(if seStatus s = StatusRunning then failIO ErrSessionRunning
        else bindIO (removePrepare h i rc reap s) (\<lambda>_.
             bindIO (removeRecordAtomic (recordName i)) (\<lambda>_. retIO s))) v = (r, w2)"
  shows "\<exists>done. wTrace w2 = wTrace v @ done
       \<and> (if seStatus s = StatusRunning then (\<exists>e. r = Inl e) \<and> unchanged w w2 \<and> done = []
          else (\<exists>e. r = Inl e) \<and> unchanged w w2 \<and> prefix done (removeEffects h rc reap s)
             \<or> (r = Inr s \<or> r = Inl ErrCommitUncertain) \<and> wDir w2 = AList.delete (recordName i) (wDir w)
                \<and> prefix (removeEffects h rc reap s @ [EvRemoved (recordName i)]) done)"
proof (cases "seStatus s = StatusRunning")
  case True
  with run fr show ?thesis by (intro exI [of _ "[]"]) (simp add: unchanged_frame)
next
  case False
  note prep = removePrepare_run [OF storedSession_valid(1) [OF st], of h rc reap]
  have same: "unchanged w x" if "diskFrame v x" for x using diskFrame_trans [OF fr that] by (rule unchanged_frame)
  from run False consider (failed) e where "removePrepare h i rc reap s v = (Inl e, w2)" "r = Inl e"
    | (deleted) v1 q where "removePrepare h i rc reap s v = (Inr (), v1)"
        "removeRecordAtomic (recordName i) v1 = (q, w2)" "r = (case q of Inl e \<Rightarrow> Inl e | Inr _ \<Rightarrow> Inr s)"
    by (auto simp: bindIO_run)
  then show ?thesis
  proof cases
    case failed
    with prep(1) obtain evs where "wTrace w2 = wTrace v @ evs" "prefix evs (removeEffects h rc reap s)"
      unfolding follows_def by blast
    moreover have "diskFrame v w2" using prep(2) failed(1) unfolding quiet_def by blast
    ultimately show ?thesis using False failed(2) same by (intro exI [of _ evs]) simp
  next
    case deleted
    from prep(1) deleted(1) have t: "wTrace v1 = wTrace v @ removeEffects h rc reap s" unfolding follows_def by blast
    have d: "diskFrame v v1" using prep(2) deleted(1) unfolding quiet_def by blast
    then have dir: "wDir v1 = wDir w" using fr by (simp add: diskFrame_same)
    then have "lookupNode (recordName i) v1 \<noteq> None"
      using st by (auto simp: storedSession_def lookupNode_def)
    from removeRecordAtomic_run [OF deleted(2) this] show ?thesis
    proof (elim disjE conjE exE)
      assume "q = Inl ErrOS" "diskFrame v1 w2" "wTrace w2 = wTrace v1"
      with False deleted(3) t same diskFrame_trans [OF d] show ?thesis
        by (intro exI [of _ "removeEffects h rc reap s"]) simp
    qed (use False deleted(3) t dir in auto)
  qed
qed



end
