(* ===== verification/ReadableStore.thy ===== *)
theory ReadableStore
  imports LifecycleLaws
begin

text \<open>
  The store never goes bad. A world is readable when every record file of the session directory,
  and every one that a crash would leave, is synced and decodes to a valid record. Every handler
  of the session package keeps a world readable, whatever system calls fail and whatever its
  callbacks answer, and so does a crash.
\<close>

section \<open>Readable worlds\<close>

definition goodRecord :: "string \<Rightarrow> node \<Rightarrow> bool" where
  "goodRecord i n \<longleftrightarrow> (\<exists>bs s. n = RecordFile bs True \<and> decodeRecord i bs = Inr s)"

definition readable :: "world \<Rightarrow> bool" where
  "readable w \<longleftrightarrow> (\<forall>i n. lookupNode (recordName i) w = Some n \<or> map_of (wDurable w) (recordName i) = Some n
     \<longrightarrow> goodRecord i n)"

lemma recordName_inject [simp]: "recordName i = recordName j \<longleftrightarrow> i = j"
  by (simp add: recordName_def)

lemma readable_updates [simp]:
  "readable (w\<lparr>wTemps := t\<rparr>) = readable w" "readable (w\<lparr>wTick := k\<rparr>) = readable w"
  "readable (w\<lparr>wTrace := es\<rparr>) = readable w"
  by (simp_all add: readable_def)

lemma readable_installs:
  "readable w \<Longrightarrow> goodRecord i n \<Longrightarrow> readable (installNode (recordName i) n w)"
  by (auto simp: readable_def sessionDir.look_put)

lemma readable_removes: "readable w \<Longrightarrow> readable (removeNode name w)"
  by (auto simp: readable_def sessionDir.look_del split: if_splits)

lemma readable_syncs:
  assumes "readable w"
  shows "readable (w\<lparr>wDurable := map (\<lambda>(k, n). (k, durableNode n)) (wDir w)\<rparr>)"
proof -
  have "durableNode n = n" if "goodRecord i n" for i n using that by (auto simp: goodRecord_def)
  with assms have "goodRecord i (durableNode n)" if "lookupNode (recordName i) w = Some n" for i n
    using that unfolding readable_def by metis
  with assms show ?thesis by (auto simp: readable_def durable_of_dir)
qed

text \<open>After a crash the directory is what the last sync made durable.\<close>

definition crashed :: "nat \<Rightarrow> (nat \<Rightarrow> bool) \<Rightarrow> world \<Rightarrow> world" where
  "crashed temps faults w = w\<lparr>wDir := wDurable w, wTemps := temps, wFault := faults\<rparr>"

lemma readable_crashed: "readable w \<Longrightarrow> readable (crashed temps faults w)"
  by (simp add: readable_def crashed_def lookupNode_def)

section \<open>Computations that keep the world readable\<close>

definition keeps :: "'a io \<Rightarrow> bool" where
  "keeps m \<longleftrightarrow> (\<forall>w. readable w \<longrightarrow> readable (snd (m w)))"

named_theorems keeping \<open>computations that keep the world readable\<close>

lemma keepsD: "keeps m \<Longrightarrow> readable w \<Longrightarrow> readable (snd (m w))"
  by (simp add: keeps_def)

lemma keeps_basic [keeping]:
  "keeps (retIO x)" "keeps (failIO e)" "keeps (liftIO r)" "keeps (emit ev)" "keeps osCall" "keeps (readIO g)"
  by (simp_all add: keeps_def retIO_def failIO_def liftIO_def emit_def osCall_def readIO_def)

lemma keeps_bind_run:
  assumes "keeps m" and "\<And>x w w'. m w = (Inr x, w') \<Longrightarrow> keeps (f x)"
  shows "keeps (bindIO m f)"
  unfolding keeps_def
proof (intro allI impI)
  fix w assume "readable w"
  obtain r w1 where m: "m w = (r, w1)" by fastforce
  then have "readable w1" using keepsD [OF assms(1) \<open>readable w\<close>] by simp
  then show "readable (snd (bindIO m f w))"
    using m keepsD [OF assms(2)] by (cases r) (auto simp: bindIO_def)
qed

lemma keeps_bind [keeping]: "keeps m \<Longrightarrow> (\<And>x. keeps (f x)) \<Longrightarrow> keeps (bindIO m f)"
  by (rule keeps_bind_run)

lemma keeps_try [keeping]: "keeps m \<Longrightarrow> keeps (tryIO m)"
  by (auto simp: keeps_def tryIO_def split: prod.split)

lemma keeps_modify: "(\<And>w. readable w \<Longrightarrow> readable (g w)) \<Longrightarrow> keeps (modifyIO g)"
  by (simp add: keeps_def modifyIO_def)

lemma keeps_if [keeping]: "keeps a \<Longrightarrow> keeps b \<Longrightarrow> keeps (if c then a else b)"
  by simp

lemma keeps_case [keeping]:
  "(\<And>e. keeps (f e)) \<Longrightarrow> (\<And>x. keeps (g x)) \<Longrightarrow> keeps (case r of Inl e \<Rightarrow> f e | Inr x \<Rightarrow> g x)"
  "keeps n \<Longrightarrow> (\<And>x. keeps (h x)) \<Longrightarrow> keeps (case q of None \<Rightarrow> n | Some x \<Rightarrow> h x)"
  "(\<And>x y. keeps (p x y)) \<Longrightarrow> keeps (case xy of (x, y) \<Rightarrow> p x y)"
  by (auto split: sum.split option.split prod.split)

section \<open>The store\<close>

lemma keeps_directorySync [keeping]: "keeps directorySync"
  unfolding directorySync_def by (intro keeping keeps_modify readable_syncs)

lemma keeps_temps [keeping]: "keeps createTemp" "keeps removeTemp"
  unfolding createTemp_def removeTemp_def by (intro keeping keeps_modify, simp)+

lemma keeps_fillTemp [keeping]: "keeps fillTemp"
  unfolding fillTemp_def fileSync_def by (intro keeping)

lemma keeps_linkRecord: "goodRecord i (RecordFile bs True) \<Longrightarrow> keeps (linkRecord (recordName i) bs True)"
  unfolding linkRecord_def by (intro keeping keeps_modify readable_installs) assumption

lemma keeps_renameRecord: "goodRecord i (RecordFile bs True) \<Longrightarrow> keeps (renameRecord (recordName i) bs True)"
  unfolding renameRecord_def by (intro keeping keeps_modify) (simp add: readable_installs)

lemma keeps_installTemp:
  "goodRecord i (RecordFile bs True) \<Longrightarrow> keeps (installTemp (recordName i) bs create)"
  unfolding installTemp_def
  by (rule keeps_bind_run [OF keeps_fillTemp])
    (auto dest!: fillTemp_run intro: keeps_linkRecord keeps_renameRecord)

lemma keeps_writeRecordAtomic:
  "goodRecord i (RecordFile bs True) \<Longrightarrow> keeps (writeRecordAtomic (recordName i) bs create)"
  unfolding writeRecordAtomic_def by (intro keeping keeps_installTemp) assumption

lemma keeps_removeRecordAtomic [keeping]: "keeps (removeRecordAtomic name)"
  unfolding removeRecordAtomic_def by (intro keeping keeps_modify readable_removes)

lemma encoded_goodRecord:
  assumes "validateRecord s = Inr ()" and "encodeRecord s = Inr bs"
  shows "goodRecord (seID s) (RecordFile bs True)"
proof -
  obtain r where "bs = Json r" "restoreSession r = s" using restore_encode [OF assms(2)] by blast
  then show ?thesis using assms(1) by (simp add: goodRecord_def decodeRecord_def Let_def validateRecord_Inr)
qed

lemma keeps_writeLocked [keeping]: "keeps (writeLocked s create)"
  unfolding writeLocked_def Let_def
proof (rule keeps_bind_run [OF keeps_basic(3)], rule keeps_bind_run [OF keeps_basic(3)])
  fix u w w' bs v v'
  assume "liftIO (validateRecord s) w = (Inr u, w')"
    and "liftIO (encodeRecord (s\<lparr>seRecordRevision := seRecordRevision s + 1\<rparr>)) v = (Inr bs, v')"
  then have "validateRecord (bumped s) = Inr ()" "encodeRecord (bumped s) = Inr bs"
    by (simp_all add: liftIO_def bumped_def [symmetric])
  from encoded_goodRecord [OF this]
  show "keeps (bindIO (writeRecordAtomic (recordName (seID (s\<lparr>seRecordRevision := seRecordRevision s + 1\<rparr>))) bs create)
      (\<lambda>_. retIO (s\<lparr>seRecordRevision := seRecordRevision s + 1\<rparr>)))"
    unfolding bumped_def by (intro keeping keeps_writeRecordAtomic)
qed

lemma keeps_getUnlocked [keeping]: "keeps (getUnlocked i)"
  unfolding getUnlocked_def by (intro keeping) (auto split: node.split intro!: keeping)

lemma keeps_withRecordLock [keeping]: "keeps body \<Longrightarrow> keeps (withRecordLock i body)"
  unfolding withRecordLock_def underLock_def ensureDir_def by (intro keeping)

lemma keeps_WithLocked [keeping]: "(\<And>s. keeps (fn s)) \<Longrightarrow> keeps (WithLocked i fn)"
  unfolding WithLocked_def by (intro keeping)

lemma keeps_Commit [keeping]: "keeps (Commit s c)"
  unfolding Commit_def by (intro keeping)

lemma keeps_Save [keeping]: "keeps (Save s)"
  unfolding Save_def saveLocked_def by (intro keeping)

lemma keeps_Update [keeping]: "keeps (Update i fn)"
  unfolding Update_def by (intro keeping)

lemma keeps_Get [keeping]: "keeps (Get i)"
  unfolding Get_def by (intro keeping)

lemma keeps_listEntries [keeping]: "keeps (listEntries es)"
  by (induction es) (auto intro!: keeping simp: Let_def)

lemma keeps_ListSessions [keeping]: "keeps ListSessions"
  unfolding ListSessions_def by (intro keeping)

lemma keeps_createLoop [keeping]: "keeps (createLoop k entropy mk)"
  by (induction k) (auto intro!: keeping simp: createLocked_def split: option.split)

lemma keeps_Create [keeping]: "keeps (Create agent environment resolved now entropy)"
  unfolding Create_def ensureDir_def by (intro keeping)

section \<open>The lifecycle handlers\<close>

lemma keeps_invoke [keeping]: "keeps (invoke ev r)"
  unfolding invoke_def by (intro keeping)

lemma keeps_reapAll [keeping]: "keeps (reapAll n fs s)"
  by (induction n fs s rule: reapAll.induct) (auto intro!: keeping)

lemma keeps_sweepSockets: "keeps (sweepSockets legacy n paths)"
  by (induction paths arbitrary: n)
    (auto intro!: keeping simp: removeSocket_def split: legacy_node.split)

lemma keeps_sweep [keeping]: "keeps (sweep h i)"
  unfolding sweep_def removeSocketFiles_def by (rule keeps_sweepSockets)

lemma keeps_markRunning [keeping]: "keeps (markRunning h i pid detached now)"
  unfolding markRunning_def by (intro keeping) (auto split: session_status.split intro!: keeping)

lemma keeps_claims [keeping]:
  "keeps (HandoffRunningDetached h i parent supervisor now)" "keeps (ReleaseRunningClaim h i pid now)"
  "keeps (Finish i exitCode lastErr now failure)" "keeps (Rename i name now)"
  unfolding HandoffRunningDetached_def ReleaseRunningClaim_def Finish_def Rename_def by (intro keeping)+

lemma keeps_GetReconciled [keeping]: "keeps (GetReconciled h i now isAlive reap)"
  unfolding GetReconciled_def by (intro keeping)

lemma keeps_mapIO [keeping]: "(\<And>x. keeps (f x)) \<Longrightarrow> keeps (mapIO f xs)"
  by (induction xs) (auto intro!: keeping)

lemma keeps_ListReconciled [keeping]: "keeps (ListReconciled h now isAlive reap)"
  unfolding ListReconciled_def by (intro keeping)

lemma keeps_Stop [keeping]: "keeps (Stop h i revoke now rc kill alive reap)"
  unfolding Stop_def stopStopped_def stopActive_def stopTeardown_def by (intro keeping)

lemma keeps_Remove [keeping]: "keeps (Remove h i rc reap)"
  unfolding Remove_def removeLocked_def by (intro keeping)

lemma keeps_pruneLoop [keeping]: "keeps (pruneLoop h rc reap removed ss)"
  by (induction ss arbitrary: removed) (auto intro!: keeping split: sum.split)

lemma keeps_PruneStopped [keeping]: "keeps (PruneStopped h rc reap)"
  unfolding PruneStopped_def by (intro keeping)

section \<open>Any run of the store\<close>

text \<open>One operation of any client, with any arguments, host and callbacks, or a crash.\<close>

inductive storeStep :: "world \<Rightarrow> world \<Rightarrow> bool" where
  create: "storeStep w (snd (Create agent environment resolved now entropy w))"
| save: "storeStep w (snd (Save s w))"
| update: "storeStep w (snd (Update i fn w))"
| claim: "storeStep w (snd (markRunning h i pid detached now w))"
| handoff: "storeStep w (snd (HandoffRunningDetached h i parent supervisor now w))"
| release: "storeStep w (snd (ReleaseRunningClaim h i pid now w))"
| finish: "storeStep w (snd (Finish i exitCode lastErr now failure w))"
| rename: "storeStep w (snd (Rename i name now w))"
| reconcile: "storeStep w (snd (ListReconciled h now isAlive reap w))"
| reconcileOne: "storeStep w (snd (GetReconciled h i now isAlive reap w))"
| stop: "storeStep w (snd (Stop h i revoke now rc kill alive reap w))"
| remove: "storeStep w (snd (Remove h i rm reap w))"
| prune: "storeStep w (snd (PruneStopped h rm reap w))"
| crash: "storeStep w (crashed temps faults w)"

lemma storeStep_readable: "storeStep w w' \<Longrightarrow> readable w \<Longrightarrow> readable w'"
  by (induction rule: storeStep.induct) (auto intro!: keepsD keeping readable_crashed)

text \<open>(C40) The store never holds a bad record. Start from an empty directory, or any readable one, and
  run any sequence of operations with any arguments, failing system calls and callbacks, with
  crashes in between: every record file is whole, synced and valid, and carries its own id, both
  as readers see the directory and as a crash would leave it.\<close>

theorem store_stays_readable:
  assumes "storeStep\<^sup>*\<^sup>* w w'" and "readable w"
    and "lookupNode (recordName i) w' = Some n \<or> map_of (wDurable w') (recordName i) = Some n" and "i \<noteq> []"
  shows "\<exists>bs s. n = RecordFile bs True \<and> decodeRecord i bs = Inr s \<and> seID s = i \<and> validateRecord s = Inr ()"
proof -
  have "readable w'" using assms(1,2) by induction (auto intro: storeStep_readable)
  then have "goodRecord i n" using assms(3) unfolding readable_def by blast
  then obtain bs s where "n = RecordFile bs True" "decodeRecord i bs = Inr s"
    unfolding goodRecord_def by blast
  with decodeRecord_valid [OF this(2) assms(4)] show ?thesis by blast
qed

text \<open>The witness: one synced record, and a crash that leaves two temporary files behind.\<close>

definition syncedWorld :: world where
  "syncedWorld = (worldWith createdSample)\<lparr>wDurable := wDir (worldWith createdSample)\<rparr>"

lemma syncedWorld_readable: "readable syncedWorld"
proof -
  obtain bs where "encodeRecord createdSample = Inr bs"
    by (auto simp: encodeRecord_def recordTimes_def jsonTime_def createdSample_def sampleSession_def zeroSession_def)
  with encoded_goodRecord [OF createdSample_valid(2) this] show ?thesis
    by (auto simp: readable_def syncedWorld_def worldWith_def lookupNode_def emptyWorld_def)
qed

theorem store_stays_readable_witness:
  "\<exists>bs s. lookupNode (recordName ''sess-1'') (crashed 2 (\<lambda>_. True) syncedWorld) = Some (RecordFile bs True)
     \<and> decodeRecord ''sess-1'' bs = Inr s \<and> validateRecord s = Inr ()"
proof -
  let ?w = "crashed 2 (\<lambda>_. True) syncedWorld"
  have "\<exists>n. lookupNode (recordName ''sess-1'') ?w = Some n"
    by (simp add: crashed_def syncedWorld_def worldWith_def lookupNode_def createdSample_fields)
  then obtain n where n: "lookupNode (recordName ''sess-1'') ?w = Some n" ..
  from store_stays_readable [OF r_into_rtranclp [of storeStep, OF storeStep.crash] syncedWorld_readable disjI1 [OF this]]
    n show ?thesis by auto
qed

end
