(* ===== verification/Wire.thy ===== *)
theory Wire
  imports Prelude "HOL-Library.Sublist"
begin

text \<open>
  The frame protocol of a detached session's socket (\<open>internal/engine/session/wire/wire.go\<close>) and
  the pumps that carry a terminal over it (\<open>internal/engine/session/bridge.go\<close>). Bytes are 8-bit
  words; a reader is the bytes still to come and the error that ends them. What the PTY, the
  terminal and the resize callback answer is a parameter of each pump; the two pumps of one side
  run on disjoint data and are modelled one by one.
\<close>

section \<open>Readers\<close>

type_synonym u8 = "8 word"
type_synonym u16 = "16 word"
type_synonym u32 = "32 word"

datatype wire_error =
    ErrEOF | ErrUnexpectedEOF | ErrEIO | ErrUnknownType u8 | ErrMalformed | ErrFrameTooLarge | ErrOther nat

type_synonym reader = "u8 list \<times> wire_error"

text \<open>\<open>io.ReadFull\<close>: an end of file after some bytes is unexpected; any other error is passed on.\<close>

definition readFull :: "nat \<Rightarrow> reader \<Rightarrow> (wire_error, u8 list) res \<times> reader" where
  "readFull n r = (case r of (bs, e) \<Rightarrow>
     if n \<le> length bs then (Inr (take n bs), (drop n bs, e))
     else (Inl (if e = ErrEOF \<and> bs \<noteq> [] then ErrUnexpectedEOF else e), ([], e)))"

section \<open>Big-endian integers\<close>

definition putUint16 :: "u16 \<Rightarrow> u8 list" where
  "putUint16 w = [ucast (drop_bit 8 w), ucast w]"

definition putUint32 :: "u32 \<Rightarrow> u8 list" where
  "putUint32 w = [ucast (drop_bit 24 w), ucast (drop_bit 16 w), ucast (drop_bit 8 w), ucast w]"

definition getUint16 :: "u8 list \<Rightarrow> u16" where
  "getUint16 bs = push_bit 8 (ucast (bs ! 0)) OR ucast (bs ! 1)"

definition getUint32 :: "u8 list \<Rightarrow> u32" where
  "getUint32 bs =
     push_bit 24 (ucast (bs ! 0)) OR push_bit 16 (ucast (bs ! 1))
     OR push_bit 8 (ucast (bs ! 2)) OR ucast (bs ! 3)"

section \<open>Frames\<close>

definition dataType :: u8 where "dataType = 0x44"
definition resizeType :: u8 where "resizeType = 0x52"
definition exitType :: u8 where "exitType = 0x58"

lemmas type_defs = dataType_def resizeType_def exitType_def

definition maxPayload :: nat where
  "maxPayload = 1048576"

record Frame =
  frType :: u8
  frData :: "u8 list"
  frRows :: u16
  frCols :: u16
  frCode :: int

definition zeroFrame :: Frame where
  "zeroFrame = \<lparr>frType = 0, frData = [], frRows = 0, frCols = 0, frCode = 0\<rparr>"

definition DataFrame :: "u8 list \<Rightarrow> Frame" where
  "DataFrame p = zeroFrame\<lparr>frType := dataType, frData := p\<rparr>"

definition ResizeFrame :: "u16 \<Rightarrow> u16 \<Rightarrow> Frame" where
  "ResizeFrame rows cols = zeroFrame\<lparr>frType := resizeType, frRows := rows, frCols := cols\<rparr>"

definition ExitFrame :: "int \<Rightarrow> Frame" where
  "ExitFrame code = zeroFrame\<lparr>frType := exitType, frCode := code\<rparr>"

definition framePayload :: "Frame \<Rightarrow> (wire_error, u8 list) res" where
  "framePayload f =
     (if frType f = dataType then Inr (frData f)
      else if frType f = resizeType then Inr (putUint16 (frRows f) @ putUint16 (frCols f))
      else if frType f = exitType then Inr (putUint32 (word_of_int (frCode f)))
      else Inl (ErrUnknownType (frType f)))"

text \<open>The one buffer \<open>Write\<close> assembles, and the write of it.\<close>

definition frameBytes :: "Frame \<Rightarrow> (wire_error, u8 list) res" where
  "frameBytes f =
     rbind (framePayload f) (\<lambda>payload.
     if length payload > maxPayload then Inl ErrFrameTooLarge
     else Inr ([frType f] @ putUint32 (word_of_nat (length payload)) @ payload))"

definition Write :: "(u8 list \<Rightarrow> wire_error option) \<Rightarrow> Frame \<Rightarrow> (wire_error, unit) res" where
  "Write w f =
     rbind (frameBytes f) (\<lambda>buf. case w buf of None \<Rightarrow> Inr () | Some e \<Rightarrow> Inl e)"

definition unexpected :: "wire_error \<Rightarrow> wire_error" where
  "unexpected e = (if e = ErrEOF then ErrUnexpectedEOF else e)"

definition decodePayload :: "u8 \<Rightarrow> u8 list \<Rightarrow> (wire_error, Frame) res" where
  "decodePayload t payload =
     (if t = dataType then Inr (DataFrame payload)
      else if t = resizeType then
        (if length payload \<noteq> 4 then Inl ErrMalformed
         else Inr (ResizeFrame (getUint16 (take 2 payload)) (getUint16 (drop 2 payload))))
      else if length payload \<noteq> 4 then Inl ErrMalformed
      else Inr (ExitFrame (sint (getUint32 payload))))"

definition Read :: "reader \<Rightarrow> (wire_error, Frame) res \<times> reader" where
  "Read r =
     (case readFull 1 r of
        (Inl e, r1) \<Rightarrow> (Inl e, r1)
      | (Inr head, r1) \<Rightarrow>
          let t = hd head in
          if t \<noteq> dataType \<and> t \<noteq> resizeType \<and> t \<noteq> exitType then (Inl (ErrUnknownType t), r1)
          else (case readFull 4 r1 of
            (Inl e, r2) \<Rightarrow> (Inl (unexpected e), r2)
          | (Inr len, r2) \<Rightarrow>
              let n = unat (getUint32 len) in
              if n > maxPayload then (Inl ErrFrameTooLarge, r2)
              else (case readFull n r2 of
                (Inl e, r3) \<Rightarrow> (Inl (unexpected e), r3)
              | (Inr payload, r3) \<Rightarrow> (decodePayload t payload, r3))))"

section \<open>Pumps\<close>

definition dropExpected :: "wire_error \<Rightarrow> wire_error option" where
  "dropExpected e = (if e = ErrEOF \<or> e = ErrEIO then None else Some e)"

text \<open>\<open>childExited\<close> and the error, \<open>None\<close> for nil.\<close>

type_synonym pumpResult = "bool \<times> wire_error option"

datatype pty_event = PtyWrote "u8 list" | Resized u16 u16

lemma readFull_length: "readFull n r = (q, r') \<Longrightarrow> length (fst r') \<le> length (fst r)"
  by (auto simp: readFull_def split: prod.splits if_splits)

lemma readFull_Inr_length: "readFull n r = (Inr bs, r') \<Longrightarrow> length (fst r) = n + length (fst r')"
  by (auto simp: readFull_def split: prod.splits if_splits)

text \<open>Every frame consumes its header, so a pump over a finite stream ends.\<close>

lemma Read_consumes: "Read r = (Inr f, r') \<Longrightarrow> length (fst r') < length (fst r)"
  by (auto simp: Read_def Let_def split: prod.splits sum.splits if_splits
      dest!: readFull_Inr_length)

function pumpConnToPTY ::
  "(nat \<Rightarrow> u8 list \<Rightarrow> wire_error option) \<Rightarrow> (nat \<Rightarrow> u16 \<Rightarrow> u16 \<Rightarrow> wire_error option) option
   \<Rightarrow> nat \<Rightarrow> reader \<Rightarrow> pty_event list \<times> pumpResult" where
  "pumpConnToPTY ptyWrite onResize n r =
     (case Read r of
        (Inl e, _) \<Rightarrow> ([], (False, dropExpected e))
      | (Inr f, r') \<Rightarrow>
          if frType f = dataType then
            (case ptyWrite n (frData f) of
               Some e \<Rightarrow> ([], (True, dropExpected e))
             | None \<Rightarrow>
                 (case pumpConnToPTY ptyWrite onResize (n + 1) r' of
                    (evs, res) \<Rightarrow> (PtyWrote (frData f) # evs, res)))
          else if frType f = resizeType then
            (case onResize of
               None \<Rightarrow> pumpConnToPTY ptyWrite onResize (n + 1) r'
             | Some resize \<Rightarrow>
                 (case resize n (frRows f) (frCols f) of
                    Some e \<Rightarrow> ([], (False, Some e))
                  | None \<Rightarrow>
                      (case pumpConnToPTY ptyWrite onResize (n + 1) r' of
                         (evs, res) \<Rightarrow> (Resized (frRows f) (frCols f) # evs, res))))
          else pumpConnToPTY ptyWrite onResize (n + 1) r')"
  by pat_completeness auto

termination
  by (relation "measure (\<lambda>(_, _, _, r). length (fst r))") (auto dest!: sym [of _ "Read _"] dest: Read_consumes)

text \<open>
  The reads of the PTY are a script of chunks, each with the error that came with it, if any; the
  result \<open>None\<close> means that the pump is still waiting for the next read.
\<close>

fun pumpPTYToConn ::
  "(nat \<Rightarrow> u8 list \<Rightarrow> wire_error option) \<Rightarrow> nat \<Rightarrow> (u8 list \<times> wire_error option) list
   \<Rightarrow> u8 list \<times> pumpResult option" where
  "pumpPTYToConn connWrite n [] = ([], None)"
| "pumpPTYToConn connWrite n ((chunk, rerr) # reads) =
     (case (if chunk = [] then Inr [] else
              rbind (Write (connWrite n) (DataFrame chunk)) (\<lambda>_. frameBytes (DataFrame chunk))) of
        Inl werr \<Rightarrow> ([], Some (False, dropExpected werr))
      | Inr sent \<Rightarrow>
          (case rerr of
             Some e \<Rightarrow> (sent, Some (True, dropExpected e))
           | None \<Rightarrow>
               (case pumpPTYToConn connWrite (n + 1) reads of (later, res) \<Rightarrow> (sent @ later, res))))"

datatype Outcome = ClientGone | ChildExited

text \<open>\<open>Bridge\<close> from the first pump result on: what it returns and what it still sends.\<close>

definition Bridge ::
  "(u8 list \<Rightarrow> wire_error option) \<Rightarrow> int \<Rightarrow> pumpResult \<Rightarrow> Outcome \<times> wire_error option \<times> u8 list" where
  "Bridge connWrite code res =
     (if \<not> fst res then (ClientGone, snd res, [])
      else case rbind (Write connWrite (ExitFrame code)) (\<lambda>_. frameBytes (ExitFrame code)) of
        Inl werr \<Rightarrow> (ChildExited, Some werr, [])
      | Inr sent \<Rightarrow> (ChildExited, snd res, sent))"

text \<open>The client loop of \<open>Attach\<close>: what reached the terminal, the exit code and the error.\<close>

function Attach ::
  "(nat \<Rightarrow> u8 list \<Rightarrow> wire_error option) \<Rightarrow> nat \<Rightarrow> reader \<Rightarrow> u8 list \<times> int \<times> wire_error option" where
  "Attach outWrite n r =
     (case Read r of
        (Inl e, _) \<Rightarrow> ([], 1, dropExpected e)
      | (Inr f, r') \<Rightarrow>
          if frType f = dataType then
            (case outWrite n (frData f) of
               Some e \<Rightarrow> ([], 1, Some e)
             | None \<Rightarrow> (case Attach outWrite (n + 1) r' of (out, res) \<Rightarrow> (frData f @ out, res)))
          else if frType f = exitType then ([], frCode f, None)
          else Attach outWrite (n + 1) r')"
  by pat_completeness auto

termination
  by (relation "measure (\<lambda>(_, _, r). length (fst r))") (auto dest!: sym [of _ "Read _"] dest: Read_consumes)

declare pumpConnToPTY.simps [simp del] Attach.simps [simp del]

section \<open>Encoding and decoding are inverse\<close>

lemma getUint16_put [simp]: "getUint16 (putUint16 w) = w"
  unfolding getUint16_def putUint16_def
  by (rule bit_word_eqI) (auto simp: bit_simps)

lemma getUint32_put [simp]: "getUint32 (putUint32 w) = w"
  unfolding getUint32_def putUint32_def
proof (rule bit_word_eqI)
  fix n assume "n < LENGTH(32)"
  then consider "n < 8" | "8 \<le> n" "n < 16" | "16 \<le> n" "n < 24" | "24 \<le> n" "n < 32" by fastforce
  then show "bit (push_bit 24 (ucast ([ucast (drop_bit 24 w), ucast (drop_bit 16 w), ucast (drop_bit 8 w), ucast w] ! 0 :: u8))
      OR push_bit 16 (ucast ([ucast (drop_bit 24 w), ucast (drop_bit 16 w), ucast (drop_bit 8 w), ucast w] ! 1 :: u8))
      OR push_bit 8 (ucast ([ucast (drop_bit 24 w), ucast (drop_bit 16 w), ucast (drop_bit 8 w), ucast w] ! 2 :: u8))
      OR ucast ([ucast (drop_bit 24 w), ucast (drop_bit 16 w), ucast (drop_bit 8 w), ucast w] ! 3 :: u8) :: u32) n = bit w n"
    by cases (auto simp: bit_simps)
qed

lemma putUint_length [simp]: "length (putUint16 h) = 2" "length (putUint32 w) = 4"
  by (simp_all add: putUint16_def putUint32_def)

lemma putUint16_get:
  assumes "length bs = 2"
  shows "putUint16 (getUint16 bs) = bs"
proof -
  obtain a b where "bs = [a, b]"
    using assms by (auto simp: length_Suc_conv numeral_eq_Suc)
  then show ?thesis unfolding getUint16_def putUint16_def
    by simp (intro conjI; rule bit_word_eqI; auto simp: bit_simps dest: bit_imp_le_length)
qed

lemma putUint32_get:
  assumes "length bs = 4"
  shows "putUint32 (getUint32 bs) = bs"
proof -
  obtain a b c d where "bs = [a, b, c, d]"
    using assms by (auto simp: length_Suc_conv numeral_eq_Suc)
  then show ?thesis unfolding getUint32_def putUint32_def
    by simp (intro conjI; rule bit_word_eqI; auto simp: bit_simps dest: bit_imp_le_length)
qed

lemma readFull_Inr_iff:
  "readFull n r = (Inr bs, r') \<longleftrightarrow> length bs = n \<and> fst r = bs @ fst r' \<and> snd r' = snd r"
  by (cases r; cases r') (auto simp: readFull_def)

text \<open>The frames that travel: what a reader can return, with no stray field.\<close>

definition wireFrame :: "Frame \<Rightarrow> bool" where
  "wireFrame f \<longleftrightarrow>
     (\<exists>d. f = DataFrame d \<and> length d \<le> maxPayload) \<or> (\<exists>r c. f = ResizeFrame r c)
   \<or> (\<exists>c. f = ExitFrame c \<and> - (2 ^ 31) \<le> c \<and> c < 2 ^ 31)"

lemma types_distinct [simp]:
  "dataType \<noteq> resizeType" "resizeType \<noteq> dataType" "dataType \<noteq> exitType" "exitType \<noteq> dataType"
  "resizeType \<noteq> exitType" "exitType \<noteq> resizeType"
  by (simp_all add: type_defs)

lemma frame_fields [simp]:
  "frType (DataFrame d) = dataType" "frData (DataFrame d) = d"
  "frType (ResizeFrame r c) = resizeType" "frRows (ResizeFrame r c) = r" "frCols (ResizeFrame r c) = c"
  "frType (ExitFrame n) = exitType" "frCode (ExitFrame n) = n"
  by (simp_all add: DataFrame_def ResizeFrame_def ExitFrame_def)

lemma sint_word_of_int32: "- (2 ^ 31) \<le> c \<Longrightarrow> c < 2 ^ 31 \<Longrightarrow> sint (word_of_int c :: u32) = c"
  by (simp add: int_word_sint)

lemma sint32_range: "- (2 ^ 31) \<le> sint (w :: u32) \<and> sint w < 2 ^ 31"
  using sint_ge [of w] sint_lt [of w] by simp

lemma unat_payload: "n \<le> maxPayload \<Longrightarrow> unat (word_of_nat n :: u32) = n"
  by (simp add: maxPayload_def unat_of_nat)

lemma frameBytes_wire:
  "wireFrame f \<Longrightarrow> \<exists>p. framePayload f = Inr p \<and> length p \<le> maxPayload \<and> decodePayload (frType f) p = Inr f
     \<and> frameBytes f = Inr ([frType f] @ putUint32 (word_of_nat (length p)) @ p)"
  unfolding wireFrame_def
  by (auto simp: framePayload_def frameBytes_def decodePayload_def maxPayload_def sint_word_of_int32)

lemma decodePayload_wire:
  assumes "decodePayload t p = Inr f" and "length p \<le> maxPayload"
    and "t = dataType \<or> t = resizeType \<or> t = exitType"
  shows "wireFrame f \<and> framePayload f = Inr p \<and> frType f = t"
  using assms sint32_range [of "getUint32 p"]
  by (auto simp: decodePayload_def wireFrame_def framePayload_def putUint32_get putUint16_get
      split: if_splits)

lemma Read_frame:
  assumes "wireFrame f" and "frameBytes f = Inr enc"
  shows "Read (enc @ rest, e) = (Inr f, (rest, e))"
proof -
  from frameBytes_wire [OF assms(1)] assms(2) obtain p where
    p: "length p \<le> maxPayload" "decodePayload (frType f) p = Inr f"
      "enc = [frType f] @ putUint32 (word_of_nat (length p)) @ p" by auto
  have t: "frType f = dataType \<or> frType f = resizeType \<or> frType f = exitType"
    using assms(1) by (auto simp: wireFrame_def)
  have r1: "readFull 1 (enc @ rest, e) = (Inr [frType f], (putUint32 (word_of_nat (length p)) @ p @ rest, e))"
    by (simp add: readFull_Inr_iff p(3))
  have r2: "readFull 4 (putUint32 (word_of_nat (length p)) @ p @ rest, e)
      = (Inr (putUint32 (word_of_nat (length p))), (p @ rest, e))" by (simp add: readFull_Inr_iff)
  have r3: "readFull (length p) (p @ rest, e) = (Inr p, (rest, e))" by (simp add: readFull_Inr_iff)
  show ?thesis unfolding Read_def r1
    using t p(1,2) r2 r3 by (auto simp: unat_payload)
qed

lemma Read_Inr:
  assumes "Read r = (Inr f, r')"
  shows "wireFrame f \<and> (\<exists>enc. frameBytes f = Inr enc \<and> fst r = enc @ fst r') \<and> snd r' = snd r"
proof -
  from assms obtain head len r1 r2 p where
    rd: "readFull 1 r = (Inr head, r1)" "readFull 4 r1 = (Inr len, r2)"
      "readFull (unat (getUint32 len)) r2 = (Inr p, r')"
      "unat (getUint32 len) \<le> maxPayload" "decodePayload (hd head) p = Inr f"
      "hd head = dataType \<or> hd head = resizeType \<or> hd head = exitType"
    by (auto simp: Read_def Let_def split: prod.splits sum.splits if_splits)
  note r = rd(1-3) [unfolded readFull_Inr_iff]
  have f: "wireFrame f" "framePayload f = Inr p" "frType f = hd head"
    using decodePayload_wire [OF rd(5) _ rd(6)] r rd(4) by simp_all
  have "head = [hd head]" using r by (cases head) auto
  moreover have "putUint32 (word_of_nat (length p)) = len" using r putUint32_get [of len] by simp
  ultimately have "frameBytes f = Inr (head @ len @ p)"
    using f r rd(4) by (simp add: frameBytes_def)
  with f(1) r show ?thesis by auto
qed

text \<open>(C24) Reading is the exact inverse of writing, at every position of a stream: a reader returns
  the frame \<open>f\<close> and leaves \<open>rest\<close> exactly when \<open>f\<close> is a proper frame and the bytes start with the
  one encoding that \<open>Write\<close> gives to \<open>f\<close>. So frames are never confused, and never desynchronised.\<close>

theorem read_inverts_write:
  "Read (bs, e) = (Inr f, (rest, e')) \<longleftrightarrow>
     wireFrame f \<and> e' = e \<and> (\<exists>enc. frameBytes f = Inr enc \<and> bs = enc @ rest)"
  using Read_frame [of f _ rest e] Read_Inr [of "(bs, e)" f "(rest, e')"] by auto

section \<open>A session over the wire\<close>

lemma prefix_appendE:
  assumes "prefix c (a @ b)"
  obtains "strict_prefix c a" | c' where "c = a @ c'" "prefix c' b"
proof (cases "prefix c a \<and> c \<noteq> a")
  case True
  then show thesis using that(1) by (simp add: strict_prefix_def)
next
  case False
  with assms show thesis using that(2) [of "[]"] that(2) unfolding prefix_append by auto
qed

text \<open>A stream cut inside a frame is an error, never a frame.\<close>

lemma Read_cut:
  assumes f: "wireFrame f" and enc: "frameBytes f = Inr enc" and cut: "strict_prefix c enc"
  shows "\<exists>r'. Read (c, ErrEOF) = (Inl (if c = [] then ErrEOF else ErrUnexpectedEOF), r')"
proof -
  from frameBytes_wire [OF f] enc obtain p where
    p: "length p \<le> maxPayload" "enc = [frType f] @ putUint32 (word_of_nat (length p)) @ p" by auto
  have t: "frType f = dataType \<or> frType f = resizeType \<or> frType f = exitType"
    using f by (auto simp: wireFrame_def)
  consider "c = []" | c' where "c = frType f # c'" "strict_prefix c' (putUint32 (word_of_nat (length p)) @ p)"
    using cut p(2) by (cases c) auto
  then show ?thesis
  proof cases
    case 1
    then show ?thesis by (simp add: Read_def readFull_def)
  next
    case 2
    have r1: "readFull 1 (c, ErrEOF) = (Inr [frType f], (c', ErrEOF))" by (simp add: readFull_Inr_iff 2(1))
    show ?thesis
    proof (cases "length c' < 4")
      case True
      then have "readFull 4 (c', ErrEOF) = (Inl (if c' = [] then ErrEOF else ErrUnexpectedEOF), ([], ErrEOF))"
        by (auto simp: readFull_def)
      with t show ?thesis unfolding Read_def r1 by (auto simp: 2(1) unexpected_def)
    next
      case False
      have "prefix c' (putUint32 (word_of_nat (length p)) @ p)" using 2(2) by (simp add: strict_prefix_def)
      then obtain d where d: "c' = putUint32 (word_of_nat (length p)) @ d"
      proof (rule prefix_appendE)
        assume "strict_prefix c' (putUint32 (word_of_nat (length p)))"
        with False show thesis by (auto dest!: prefix_length_less)
      qed
      with 2(2) have l: "length d < length p" by (auto dest!: prefix_length_less)
      have r2: "readFull 4 (c', ErrEOF) = (Inr (putUint32 (word_of_nat (length p))), (d, ErrEOF))"
        by (simp add: readFull_Inr_iff d)
      have "readFull (length p) (d, ErrEOF) = (Inl (if d = [] then ErrEOF else ErrUnexpectedEOF), ([], ErrEOF))"
        using l by (auto simp: readFull_def)
      with t p(1) show ?thesis unfolding Read_def r1 by (auto simp: r2 unat_payload 2(1) unexpected_def)
    qed
  qed
qed

text \<open>What the PTY produced up to the read that ended it.\<close>

fun ptyOutput :: "(u8 list \<times> wire_error option) list \<Rightarrow> u8 list" where
  "ptyOutput [] = []"
| "ptyOutput ((chunk, rerr) # reads) = chunk @ (if rerr = None then ptyOutput reads else [])"

definition smallChunks :: "(u8 list \<times> wire_error option) list \<Rightarrow> bool" where
  "smallChunks script \<longleftrightarrow> list_all (\<lambda>(c, _). length c \<le> maxPayload) script"

abbreviation attach :: "nat \<Rightarrow> reader \<Rightarrow> u8 list \<times> int \<times> wire_error option" where
  "attach \<equiv> Attach (\<lambda>_ _. None)"

definition encoded :: "Frame \<Rightarrow> u8 list" where
  "encoded f = (case frameBytes f of Inr enc \<Rightarrow> enc | Inl _ \<Rightarrow> [])"

lemma frameBytes_encoded: "wireFrame f \<Longrightarrow> frameBytes f = Inr (encoded f)"
  using frameBytes_wire [of f] by (auto simp: encoded_def)

lemma wireFrame_data [simp]: "length d \<le> maxPayload \<Longrightarrow> wireFrame (DataFrame d)"
  by (auto simp: wireFrame_def)

lemma attach_frame:
  assumes "wireFrame f"
  shows "attach n (encoded f @ rest, e) =
     (if frType f = dataType then (case attach (n + 1) (rest, e) of (out, res) \<Rightarrow> (frData f @ out, res))
      else if frType f = exitType then ([], frCode f, None) else attach (n + 1) (rest, e))"
  by (subst Attach.simps) (simp add: Read_frame [OF assms frameBytes_encoded [OF assms]])

lemma attach_cut:
  assumes "wireFrame f" and "strict_prefix c (encoded f)"
  shows "\<exists>err. attach n (c, ErrEOF) = ([], 1, err) \<and> err \<in> {None, Some ErrUnexpectedEOF}"
proof -
  from Read_cut [OF assms(1) frameBytes_encoded [OF assms(1)] assms(2)] obtain r' where
    "Read (c, ErrEOF) = (Inl (if c = [] then ErrEOF else ErrUnexpectedEOF), r')" by blast
  then show ?thesis by (subst Attach.simps) (simp add: dropExpected_def)
qed

text \<open>What the client of a cut stream has seen: a prefix of the output, and the code only at the end.\<close>

definition sees :: "u8 list \<Rightarrow> u8 list \<Rightarrow> int \<Rightarrow> u8 list \<Rightarrow> u8 list \<times> int \<times> wire_error option \<Rightarrow> bool" where
  "sees stream output code part seen \<longleftrightarrow>
     prefix (fst seen) output
   \<and> (if part = stream then seen = (output, code, None)
      else fst (snd seen) = 1 \<and> snd (snd seen) \<in> {None, Some ErrUnexpectedEOF})"

lemma sees_exit:
  assumes "wireFrame f" and "frType f = exitType" and "prefix part (encoded f)"
  shows "sees (encoded f) [] (frCode f) part (attach k (part, ErrEOF))"
proof (cases "part = encoded f")
  case True
  with attach_frame [OF assms(1), of k "[]" ErrEOF] assms(2) show ?thesis by (simp add: sees_def)
next
  case False
  with assms(3) have "strict_prefix part (encoded f)" by (simp add: strict_prefix_def)
  from attach_cut [OF assms(1) this, of k] False show ?thesis by (auto simp: sees_def)
qed

lemma sees_data:
  assumes c: "length c \<le> maxPayload" and p: "prefix part (encoded (DataFrame c) @ stream)"
    and later: "\<And>part k. prefix part stream \<Longrightarrow> sees stream output code part (attach k (part, ErrEOF))"
  shows "sees (encoded (DataFrame c) @ stream) (c @ output) code part (attach k (part, ErrEOF))"
  using p
proof (rule prefix_appendE)
  assume inner: "strict_prefix part (encoded (DataFrame c))"
  then have "part \<noteq> encoded (DataFrame c) @ stream" by (auto simp: strict_prefix_def prefix_def)
  with attach_cut [OF wireFrame_data [OF c] inner, of k] show ?thesis by (auto simp: sees_def)
next
  fix part' assume part': "part = encoded (DataFrame c) @ part'" "prefix part' stream"
  obtain out res where out: "attach (k + 1) (part', ErrEOF) = (out, res)"
    by (cases "attach (k + 1) (part', ErrEOF)") blast
  from later [OF part'(2), of "k + 1"] out have "sees stream output code part' (out, res)" by simp
  moreover have "attach k (part, ErrEOF) = (c @ out, res)"
    using attach_frame [OF wireFrame_data [OF c], of k part' ErrEOF] out by (simp add: part'(1))
  ultimately show ?thesis by (auto simp: sees_def part'(1))
qed

lemma pump_seen:
  assumes "smallChunks script" and "pumpPTYToConn (\<lambda>_ _. None) n script = (sent, Some (True, pe))"
    and "wireFrame f" and "frType f = exitType" and "prefix part (sent @ encoded f)"
  shows "sees (sent @ encoded f) (ptyOutput script) (frCode f) part (attach k (part, ErrEOF))"
  using assms(1,2,5)
proof (induction script arbitrary: n sent part k)
  case (Cons cr reads)
  obtain c rerr where cr: "cr = (c, rerr)" by fastforce
  from Cons.prems(1) have small: "length c \<le> maxPayload" "smallChunks reads"
    by (simp_all add: smallChunks_def cr)
  have enc: "frameBytes (DataFrame c) = Inr (encoded (DataFrame c))"
    using frameBytes_encoded [OF wireFrame_data [OF small(1)]] .
  let ?head = "if c = [] then [] else encoded (DataFrame c)"
  from Cons.prems(2) enc obtain later where sent: "sent = ?head @ later"
    "rerr = None \<Longrightarrow> pumpPTYToConn (\<lambda>_ _. None) (n + 1) reads = (later, Some (True, pe))"
    "rerr \<noteq> None \<Longrightarrow> later = []"
    by (auto simp: cr Write_def split: option.splits prod.splits if_splits)
  have rest: "sees (later @ encoded f) (if rerr = None then ptyOutput reads else []) (frCode f) q (attach j (q, ErrEOF))"
    if "prefix q (later @ encoded f)" for q j
    using that Cons.IH [OF small(2) sent(2)] sees_exit [OF assms(3,4)] sent(3) by (cases rerr) simp_all
  show ?case
  proof (cases "c = []")
    case True
    with rest Cons.prems(3) show ?thesis by (simp add: cr sent(1))
  next
    case False
    with Cons.prems(3) have "prefix part (encoded (DataFrame c) @ later @ encoded f)" by (simp add: sent(1))
    from sees_data [OF small(1) this rest] False show ?thesis by (simp add: cr sent(1))
  qed
qed simp



end
