(* ===== verification/PolicyVersion.thy ===== *)
theory PolicyVersion
  imports GoText "HOL-Library.List_Lexorder" "HOL-Library.Char_ord"
begin

text \<open>
  Version comparison for catalog bumps (\<open>internal/engine/policy/version.go\<close>): three grammars,
  their parsers, the comparison, the magnitude of a step and the channel ban. Every comparison in
  the code is an \<open>int\<close> that is -1, 0 or 1; what the callers rely on is stated once as a locale.
\<close>

section \<open>Three-way comparisons\<close>

text \<open>The contract of a Go comparison function on the values of \<open>ok\<close>.\<close>

locale three_way =
  fixes ok :: "'a \<Rightarrow> bool" and cmp :: "'a \<Rightarrow> 'a \<Rightarrow> int"
  assumes ternary: "ok a \<Longrightarrow> ok b \<Longrightarrow> cmp a b \<in> {-1, 0, 1}"
    and antisym: "ok a \<Longrightarrow> ok b \<Longrightarrow> cmp b a = - cmp a b"
    and trans: "ok a \<Longrightarrow> ok b \<Longrightarrow> ok c \<Longrightarrow> cmp a b \<le> 0 \<Longrightarrow> cmp b c \<le> 0 \<Longrightarrow> cmp a c \<le> 0"
begin

lemma refl: "ok a \<Longrightarrow> cmp a a = 0"
  using antisym [of a a] by simp

lemma total: "ok a \<Longrightarrow> ok b \<Longrightarrow> cmp a b \<le> 0 \<or> cmp b a \<le> 0"
  using antisym [of a b] by linarith

lemma less_trans:
  assumes "ok a" "ok b" "ok c" and "cmp a b < 0" "cmp b c \<le> 0"
  shows "cmp a c < 0"
proof (rule ccontr)
  assume "\<not> cmp a c < 0"
  then have "cmp c a \<le> 0" using antisym [of a c] assms(1,3) by simp
  with trans [of b c a] assms have "cmp b a \<le> 0" by simp
  with antisym [of a b] assms show False by simp
qed

lemma trans_less:
  assumes "ok a" "ok b" "ok c" and "cmp a b \<le> 0" "cmp b c < 0"
  shows "cmp a c < 0"
proof (rule ccontr)
  assume "\<not> cmp a c < 0"
  then have "cmp c a \<le> 0" using antisym [of a c] assms(1,3) by simp
  with trans [of c a b] assms have "cmp c b \<le> 0" by simp
  with antisym [of b c] assms show False by simp
qed

lemma equiv_left: "ok a \<Longrightarrow> ok b \<Longrightarrow> ok c \<Longrightarrow> cmp a b = 0 \<Longrightarrow> cmp a c = cmp b c"
proof -
  assume d: "ok a" "ok b" "ok c" and e: "cmp a b = 0"
  then have "cmp b a = 0" using antisym [of a b] by simp
  with d e have "cmp a c \<le> 0 \<longleftrightarrow> cmp b c \<le> 0" "cmp c a \<le> 0 \<longleftrightarrow> cmp c b \<le> 0"
    using trans [of a b c] trans [of b a c] trans [of c a b] trans [of c b a] by auto
  then show "cmp a c = cmp b c"
    using d ternary [of a c] ternary [of b c] antisym [of a c] antisym [of b c] by auto
qed

end

text \<open>Two comparisons in a row, the second when the first does not decide.\<close>

definition thenCompare :: "('a \<Rightarrow> 'a \<Rightarrow> int) \<Rightarrow> ('a \<Rightarrow> 'a \<Rightarrow> int) \<Rightarrow> 'a \<Rightarrow> 'a \<Rightarrow> int" where
  "thenCompare f g a b = (if f a b \<noteq> 0 then f a b else g a b)"

locale two_ways = one: three_way ok f + two: three_way ok g for ok :: "'a \<Rightarrow> bool" and f g
begin

lemma thenCompare_three_way: "three_way ok (thenCompare f g)"
proof
  fix a b assume d: "ok a" "ok b"
  then show "thenCompare f g a b \<in> {-1, 0, 1}" using one.ternary two.ternary by (auto simp: thenCompare_def)
  show "thenCompare f g b a = - thenCompare f g a b"
    using d one.antisym [of a b] two.antisym [of a b] by (simp add: thenCompare_def)
next
  fix a b c assume d: "ok a" "ok b" "ok c"
    and le: "thenCompare f g a b \<le> 0" "thenCompare f g b c \<le> 0"
  from le have f: "f a b \<le> 0" "f b c \<le> 0" by (auto simp: thenCompare_def split: if_splits)
  show "thenCompare f g a c \<le> 0"
  proof (cases "f a b < 0 \<or> f b c < 0")
    case True
    then have "f a c < 0" using one.less_trans [OF d] one.trans_less [OF d] f by blast
    then show ?thesis by (simp add: thenCompare_def)
  next
    case False
    with f have z: "f a b = 0" "f b c = 0" by simp_all
    then have "f a c = 0" using one.equiv_left [OF d] by simp
    with z le two.trans [OF d] show ?thesis by (simp add: thenCompare_def)
  qed
qed

end

section \<open>Comparing components\<close>

definition cmpInt64 :: "int \<Rightarrow> int \<Rightarrow> int" where
  "cmpInt64 a b = (if a < b then -1 else if a > b then 1 else 0)"

text \<open>\<open>strings.Compare\<close>: bytewise lexicographic order.\<close>

definition stringsCompare :: "string \<Rightarrow> string \<Rightarrow> int" where
  "stringsCompare a b = (if a < b then -1 else if b < a then 1 else 0)"

text \<open>The loop of \<open>cmpNumSlice\<close>: a missing component counts as zero.\<close>

fun cmpNumSlice :: "int list \<Rightarrow> int list \<Rightarrow> int" where
  "cmpNumSlice [] [] = 0"
| "cmpNumSlice (a # as) [] = (if cmpInt64 a 0 \<noteq> 0 then cmpInt64 a 0 else cmpNumSlice as [])"
| "cmpNumSlice [] (b # bs) = (if cmpInt64 0 b \<noteq> 0 then cmpInt64 0 b else cmpNumSlice [] bs)"
| "cmpNumSlice (a # as) (b # bs) = (if cmpInt64 a b \<noteq> 0 then cmpInt64 a b else cmpNumSlice as bs)"

interpretation cmpInt: three_way "\<lambda>_. True" cmpInt64
  by unfold_locales (auto simp: cmpInt64_def split: if_splits)

interpretation cmpText: three_way "\<lambda>_. True" stringsCompare
  by unfold_locales (auto simp: stringsCompare_def split: if_splits)

lemma cmpNumSlice_antisym: "cmpNumSlice bs as = - cmpNumSlice as bs"
  by (induction as bs rule: cmpNumSlice.induct) (auto simp: cmpInt64_def)

lemma cmpNumSlice_ternary: "cmpNumSlice as bs \<in> {-1, 0, 1}"
  by (induction as bs rule: cmpNumSlice.induct) (auto simp: cmpInt64_def)

text \<open>One step of the loop with the padding explicit.\<close>

definition padHead :: "int list \<Rightarrow> int" where
  "padHead as = (case as of [] \<Rightarrow> 0 | a # _ \<Rightarrow> a)"

lemma cmpNumSlice_step:
  "cmpNumSlice as bs =
     (if cmpInt64 (padHead as) (padHead bs) \<noteq> 0 then cmpInt64 (padHead as) (padHead bs)
      else cmpNumSlice (tl as) (tl bs))"
  by (cases as; cases bs) (simp_all add: padHead_def cmpInt64_def)

lemma cmpNumSlice_le:
  "cmpNumSlice as bs \<le> 0 \<longleftrightarrow>
     padHead as < padHead bs \<or> padHead as = padHead bs \<and> cmpNumSlice (tl as) (tl bs) \<le> 0"
  by (subst cmpNumSlice_step) (simp add: cmpInt64_def)

lemma cmpNumSlice_trans:
  "cmpNumSlice as bs \<le> 0 \<Longrightarrow> cmpNumSlice bs cs \<le> 0 \<Longrightarrow> cmpNumSlice as cs \<le> 0"
proof (induction "length as + length bs + length cs" arbitrary: as bs cs rule: less_induct)
  case less
  show ?case
  proof (cases "as = [] \<and> bs = [] \<and> cs = []")
    case False
    then have "length (tl as) + length (tl bs) + length (tl cs) < length as + length bs + length cs"
      by (cases as; cases bs; cases cs) simp_all
    note ih = less(1) [OF this]
    from less(2,3) have
      "padHead as < padHead bs \<or> padHead as = padHead bs \<and> cmpNumSlice (tl as) (tl bs) \<le> 0"
      "padHead bs < padHead cs \<or> padHead bs = padHead cs \<and> cmpNumSlice (tl bs) (tl cs) \<le> 0"
      unfolding cmpNumSlice_le [of as bs] cmpNumSlice_le [of bs cs] .
    with ih show ?thesis unfolding cmpNumSlice_le [of as cs] by linarith
  qed simp
qed

interpretation cmpNums: three_way "\<lambda>_. True" cmpNumSlice
  by unfold_locales (rule cmpNumSlice_ternary, rule cmpNumSlice_antisym, erule (1) cmpNumSlice_trans)

section \<open>Versions\<close>

datatype package_kind = KindApt | KindNpm | KindBinary | KindPip | KindOther string

datatype scheme = SchemeSemver | SchemeDebian | SchemeCalver

datatype magnitude = MagPatch | MagMinor | MagMajor | MagRevision | MagNone

record Version =
  vrRaw :: string
  vrScheme :: scheme
  vrNum :: "int list"
  vrEpoch :: int
  vrDebRev :: string

text \<open>The part before the first \<open>.\<close> or \<open>-\<close>, when it is a number.\<close>

definition firstIntComponent :: "string \<Rightarrow> int option" where
  "firstIntComponent s = parseInt64 (takeWhile (\<lambda>c. c \<noteq> CHR ''.'' \<and> c \<noteq> CHR ''-'') s)"

definition InferScheme :: "package_kind \<Rightarrow> string \<Rightarrow> scheme" where
  "InferScheme kind s =
     (if kind = KindApt then SchemeDebian
      else case firstIntComponent s of
        Some first \<Rightarrow> if 2000 \<le> first \<and> first < 10000 then SchemeCalver else SchemeSemver
      | None \<Rightarrow> SchemeSemver)"

text \<open>The component loop: it stops at the first part that is no number.\<close>

fun numericParts :: "string list \<Rightarrow> int list" where
  "numericParts [] = []"
| "numericParts (part # parts) =
     (case parseInt64 part of None \<Rightarrow> [] | Some n \<Rightarrow> n # numericParts parts)"

definition parseDotted :: "string \<Rightarrow> scheme \<Rightarrow> Version option" where
  "parseDotted s sch =
     (let num = numericParts (splitOn CHR ''.'' s) in
      if num = [] then None
      else Some \<lparr>vrRaw = s, vrScheme = sch, vrNum = num, vrEpoch = 0, vrDebRev = []\<rparr>)"

definition parseDebian :: "string \<Rightarrow> Version option" where
  "parseDebian s =
     (case (case splitAt CHR '':'' s of
              None \<Rightarrow> Some (0, s)
            | Some (e, rest) \<Rightarrow> (case parseInt64 e of None \<Rightarrow> None | Some epoch \<Rightarrow> Some (epoch, rest))) of
        None \<Rightarrow> None
      | Some (epoch, rest) \<Rightarrow>
          (case (case splitLast CHR ''-'' rest of None \<Rightarrow> (rest, []) | Some (up, r) \<Rightarrow> (up, r)) of
             (up, drev) \<Rightarrow>
               let num = numericParts (splitOn CHR ''.'' up) in
               if num = [] then None
               else Some \<lparr>vrRaw = s, vrScheme = SchemeDebian, vrNum = num, vrEpoch = epoch, vrDebRev = drev\<rparr>))"

definition ParseVersion :: "string \<Rightarrow> scheme \<Rightarrow> Version option" where
  "ParseVersion s sch =
     (if trimSpace s = [] then None
      else case sch of
        SchemeDebian \<Rightarrow> parseDebian s
      | SchemeCalver \<Rightarrow> parseDotted s SchemeCalver
      | SchemeSemver \<Rightarrow> parseDotted s SchemeSemver)"

text \<open>\<open>None\<close> is the panic on a scheme mismatch.\<close>

definition compareNum :: "Version \<Rightarrow> Version \<Rightarrow> int" where
  "compareNum a b = cmpNumSlice (vrNum a) (vrNum b)"

definition compareDebian :: "Version \<Rightarrow> Version \<Rightarrow> int" where
  "compareDebian =
     thenCompare (\<lambda>a b. cmpInt64 (vrEpoch a) (vrEpoch b))
       (thenCompare compareNum (\<lambda>a b. stringsCompare (vrDebRev a) (vrDebRev b)))"

definition Compare :: "Version \<Rightarrow> Version \<Rightarrow> int option" where
  "Compare a b =
     (if vrScheme a \<noteq> vrScheme b then None
      else Some (case vrScheme a of SchemeDebian \<Rightarrow> compareDebian a b | _ \<Rightarrow> compareNum a b))"

definition semverMajorMinor :: "Version \<Rightarrow> int \<times> int" where
  "semverMajorMinor v = (if length (vrNum v) < 2 then (0, 0) else (vrNum v ! 0, vrNum v ! 1))"

definition sameUpstream :: "Version \<Rightarrow> Version \<Rightarrow> bool" where
  "sameUpstream a b \<longleftrightarrow> vrEpoch a = vrEpoch b \<and> cmpNumSlice (vrNum a) (vrNum b) = 0"

definition Magnitude :: "Version \<Rightarrow> Version \<Rightarrow> magnitude" where
  "Magnitude from to =
     (if vrScheme from \<noteq> vrScheme to then MagMajor
      else if Compare from to = Some 0 then MagNone
      else case vrScheme from of
        SchemeDebian \<Rightarrow> if sameUpstream from to then MagRevision else MagMinor
      | SchemeCalver \<Rightarrow>
          if vrNum from \<noteq> [] \<and> vrNum to \<noteq> [] \<and> vrNum from ! 0 = vrNum to ! 0 then MagMinor else MagMajor
      | SchemeSemver \<Rightarrow>
          if fst (semverMajorMinor from) \<noteq> fst (semverMajorMinor to) then MagMajor
          else if snd (semverMajorMinor from) \<noteq> snd (semverMajorMinor to) then MagMinor
          else MagPatch)"

definition bannedChannelStems :: "string list" where
  "bannedChannelStems =
     [''rc'', ''beta'', ''alpha'', ''nightly'', ''head'', ''dev'', ''pre'', ''preview'']"

definition IsStableChannel :: "string \<Rightarrow> bool" where
  "IsStableChannel s \<longleftrightarrow> \<not> list_ex (contains (toLower s)) bannedChannelStems"

section \<open>The order on versions of one scheme\<close>

lemma three_way_inj:
  assumes "three_way (\<lambda>_. True) cmp"
  shows "three_way ok (\<lambda>a b. cmp (f a) (f b))"
proof
  fix a b c
  show "cmp (f a) (f b) \<in> {-1, 0, 1}" by (rule three_way.ternary [OF assms TrueI TrueI])
  show "cmp (f b) (f a) = - cmp (f a) (f b)" by (rule three_way.antisym [OF assms TrueI TrueI])
  show "cmp (f a) (f c) \<le> 0" if "cmp (f a) (f b) \<le> 0" "cmp (f b) (f c) \<le> 0"
    by (rule three_way.trans [OF assms TrueI TrueI TrueI that])
qed

interpretation revision: three_way "\<lambda>_. True" "\<lambda>a b. stringsCompare (vrDebRev a) (vrDebRev b)"
  by (rule three_way_inj [OF cmpText.three_way_axioms])

interpretation numeric: three_way "\<lambda>_. True" compareNum
  unfolding compareNum_def [abs_def] by (rule three_way_inj [OF cmpNums.three_way_axioms])

interpretation upstream: two_ways "\<lambda>_. True" compareNum "\<lambda>a b. stringsCompare (vrDebRev a) (vrDebRev b)" ..

interpretation epoch: two_ways "\<lambda>_. True" "\<lambda>a b. cmpInt64 (vrEpoch a) (vrEpoch b)"
    "thenCompare compareNum (\<lambda>a b. stringsCompare (vrDebRev a) (vrDebRev b))"
  using three_way_inj [OF cmpInt.three_way_axioms] upstream.thenCompare_three_way by (rule two_ways.intro)

interpretation debian: three_way "\<lambda>_. True" compareDebian
  unfolding compareDebian_def by (rule epoch.thenCompare_three_way)

definition compareOf :: "scheme \<Rightarrow> Version \<Rightarrow> Version \<Rightarrow> int" where
  "compareOf sch = (case sch of SchemeDebian \<Rightarrow> compareDebian | _ \<Rightarrow> compareNum)"

lemma Compare_of: "Compare a b = (if vrScheme a = vrScheme b then Some (compareOf (vrScheme a) a b) else None)"
  by (simp add: Compare_def compareOf_def split: scheme.split)

lemma compareOf_three_way: "three_way (\<lambda>_. True) (compareOf sch)"
  by (cases sch) (simp_all add: compareOf_def debian.three_way_axioms numeric.three_way_axioms)

interpretation ofScheme: three_way "\<lambda>_. True" "compareOf sch" for sch
  by (rule compareOf_three_way)

text \<open>\<open>Compare\<close> orders the versions of each grammar totally: within a scheme it never panics, is
  -1, 0 or 1, flips its sign when its arguments are swapped, and is transitive; across schemes it
  panics; and \<open>Magnitude\<close> calls a step \<open>none\<close> exactly when the two versions compare equal.\<close>

theorem version_order_total:
  "(\<forall>a b. Compare a b = None \<longleftrightarrow> vrScheme a \<noteq> vrScheme b)
   \<and> (\<forall>a b x. Compare a b = Some x \<longrightarrow> x \<in> {-1, 0, 1} \<and> Compare b a = Some (- x))
   \<and> (\<forall>a b c x y. Compare a b = Some x \<and> Compare b c = Some y \<and> x \<le> 0 \<and> y \<le> 0 \<longrightarrow>
        (\<exists>z \<le> 0. Compare a c = Some z))
   \<and> (\<forall>a b. Magnitude a b = MagNone \<longleftrightarrow> Compare a b = Some 0)"
proof (intro conjI allI impI)
  fix a b :: Version show "Magnitude a b = MagNone \<longleftrightarrow> Compare a b = Some 0"
    by (auto simp: Magnitude_def Compare_of split: scheme.split)
next
  fix a b c x y assume "Compare a b = Some x \<and> Compare b c = Some y \<and> x \<le> 0 \<and> y \<le> 0"
  then show "\<exists>z \<le> 0. Compare a c = Some z"
    using ofScheme.trans [of "vrScheme a" a b c] by (auto simp: Compare_of split: if_splits)
next
  fix a b x assume ab: "Compare a b = Some x"
  then show "x \<in> {-1, 0, 1}" using ofScheme.ternary [of "vrScheme a" a b] by (auto simp: Compare_of split: if_splits)
  from ab show "Compare b a = Some (- x)"
    using ofScheme.antisym [of "vrScheme a" b a] by (auto simp: Compare_of split: if_splits)
qed (simp add: Compare_of)

theorem version_order_total_witness:
  "case (parseDotted ''1.2.9'' SchemeSemver, parseDotted ''1.2.10'' SchemeSemver) of
     (Some a, Some b) \<Rightarrow> Compare a b = Some (-1) \<and> Compare b a = Some 1 \<and> Magnitude a b \<noteq> MagNone
   | _ \<Rightarrow> False"
proof -
  let ?v = "\<lambda>s ns. \<lparr>vrRaw = s, vrScheme = SchemeSemver, vrNum = ns, vrEpoch = 0, vrDebRev = []\<rparr>"
  have "parseDotted ''1.2.9'' SchemeSemver = Some (?v ''1.2.9'' [1, 2, 9])" by code_simp
  moreover have "parseDotted ''1.2.10'' SchemeSemver = Some (?v ''1.2.10'' [1, 2, 10])" by code_simp
  moreover have c: "Compare (?v ''1.2.9'' [1, 2, 9]) (?v ''1.2.10'' [1, 2, 10]) = Some (-1)" by code_simp
  ultimately show ?thesis using version_order_total c by fastforce
qed

section \<open>Two surprises\<close>

text \<open>A step between one-component semantic versions is called a patch, whatever its size.\<close>

theorem single_component_step_is_patch:
  "map_option (\<lambda>(a, b). (Magnitude a b, Compare a b))
     (case (ParseVersion ''7'' SchemeSemver, ParseVersion ''8'' SchemeSemver) of
        (Some a, Some b) \<Rightarrow> Some (a, b) | _ \<Rightarrow> None) = Some (MagPatch, Some (-1))"
  by code_simp

text \<open>Debian revisions are compared as text, so revision 10 is older than revision 9.\<close>

theorem debian_revision_ten_below_nine:
  "map_option (\<lambda>(a, b). Compare a b)
     (case (ParseVersion ''1.2-10'' SchemeDebian, ParseVersion ''1.2-9'' SchemeDebian) of
        (Some a, Some b) \<Rightarrow> Some (a, b) | _ \<Rightarrow> None) = Some (Some (-1))"
  by code_simp

end
