(* ===== verification/Catalog.thy ===== *)
theory Catalog
  imports PolicyVersion EgressPolicy
begin

text \<open>
  The package catalog and the resolver (\<open>internal/engine/policy/catalog.go\<close>, \<open>resolve.go\<close>): the
  catalog data, its index, validation, the readiness gates, the requires-closure of a profile and
  the topological install order. Go's map iteration order is a parameter of \<open>Resolve\<close>.
\<close>

section \<open>Catalog data\<close>

datatype catalog_error =
    ErrEmptyName | ErrDuplicate string | ErrInvalidKind string | ErrNoVersion string
  | ErrMissingDigest string string | ErrBadDigest string string | ErrUnknownRequire string string
  | ErrUnknownConflict string string | ErrWideEgress string string | ErrUnknownInBundle string string
  | ErrDefaultBundle string string | ErrCycle "string list" | ErrUnknownBundle string
  | ErrUnknownPackage string | ErrConflict string string
  | ErrExists string | ErrUnstable string | ErrAptBump | ErrVersion string | ErrSchemeChange string
  | ErrRollback string | ErrNeedsRevision | ErrNoChange | ErrUnresolvedDigest string string
  | ErrSoak string | ErrNoUpstream string

record Upstream =
  usKind :: string
  usURL :: string
  usAsset :: "(string \<times> string) list"
  usManifestURL :: string

record Package =
  pkName :: string
  pkKind :: package_kind
  pkVersion :: string
  pkSHA256 :: "(string \<times> string) list"
  pkRequires :: "string list"
  pkConflicts :: "string list"
  pkBuildFetch :: "string list"
  pkRuntimeEgress :: "string list"
  pkNote :: string
  pkRevision :: int
  pkUpstream :: "Upstream option"
  pkPublishedAt :: string

record Bundle =
  buName :: string
  buDescription :: string
  buPackages :: "string list"

text \<open>The indexes of \<open>newCatalog\<close> are functions of the lists: a later entry overwrites.\<close>

record Catalog =
  ctPkgs :: "Package list"
  ctBundles :: "Bundle list"
  ctDefaults :: "(string \<times> string) list"

definition pkgIdx :: "Catalog \<Rightarrow> string \<Rightarrow> Package option" where
  "pkgIdx c n = map_of (rev (map (\<lambda>p. (pkName p, p)) (ctPkgs c))) n"

definition bndIdx :: "Catalog \<Rightarrow> string \<Rightarrow> Bundle option" where
  "bndIdx c n = map_of (rev (map (\<lambda>b. (buName b, b)) (ctBundles c))) n"

definition Lookup :: "Catalog \<Rightarrow> string \<Rightarrow> Package option" where
  "Lookup c name = pkgIdx c name"

text \<open>A map lookup of an absent key is the zero value.\<close>

definition DefaultBundle :: "Catalog \<Rightarrow> string \<Rightarrow> string" where
  "DefaultBundle c agent =
     (case map_of (ctDefaults c) (NormalizeAgent agent) of None \<Rightarrow> [] | Some b \<Rightarrow> b)"

definition requiresOf :: "Catalog \<Rightarrow> string \<Rightarrow> string list" where
  "requiresOf c n = (case pkgIdx c n of None \<Rightarrow> [] | Some p \<Rightarrow> pkRequires p)"

definition conflictsOf :: "Catalog \<Rightarrow> string \<Rightarrow> string list" where
  "conflictsOf c n = (case pkgIdx c n of None \<Rightarrow> [] | Some p \<Rightarrow> pkConflicts p)"

definition egressOf :: "Catalog \<Rightarrow> string \<Rightarrow> string list" where
  "egressOf c n = (case pkgIdx c n of None \<Rightarrow> [] | Some p \<Rightarrow> pkRuntimeEgress p)"

definition buildArches :: "string list" where
  "buildArches = [''amd64'', ''arm64'']"

definition sha256Unresolved :: string where
  "sha256Unresolved = replicate 64 CHR ''0''"

definition shaOf :: "(string \<times> string) list \<Rightarrow> string \<Rightarrow> string" where
  "shaOf m a = (case map_of m a of None \<Rightarrow> [] | Some d \<Rightarrow> d)"

definition isHex64 :: "string \<Rightarrow> bool" where
  "isHex64 s \<longleftrightarrow> length s = 64 \<and> list_all isHexAny s"

definition egressTooWide :: "string \<Rightarrow> bool" where
  "egressTooWide d \<longleftrightarrow>
     (if d = [] \<or> d = ''*'' then True
      else \<not> contains (if hasPrefix d ''.'' then drop 1 d else d) ''.'')"

section \<open>Topological install order\<close>

text \<open>Packages of \<open>names\<close> that require \<open>r\<close>, one entry per edge, in the order of the scan.\<close>

definition dependents :: "Catalog \<Rightarrow> string list \<Rightarrow> string \<Rightarrow> string list" where
  "dependents c names r =
     concat (map (\<lambda>n. replicate (length (filter (\<lambda>q. q = r) (requiresOf c n))) n) names)"

definition initialIndeg :: "Catalog \<Rightarrow> string list \<Rightarrow> string \<Rightarrow> int" where
  "initialIndeg c names n = int (length (filter (\<lambda>r. r \<in> set names) (requiresOf c n)))"

text \<open>The inner loop: counts go down, and a package whose count reaches zero becomes ready.\<close>

fun releaseAll :: "string list \<Rightarrow> (string \<Rightarrow> int) \<times> string list \<Rightarrow> (string \<Rightarrow> int) \<times> string list" where
  "releaseAll [] st = st"
| "releaseAll (m # ms) (indeg, grown) =
     (let indeg' = indeg(m := indeg m - 1) in
      releaseAll ms (indeg', if indeg' m = 0 then grown @ [m] else grown))"

definition openCount :: "string list \<Rightarrow> (string \<Rightarrow> int) \<Rightarrow> nat" where
  "openCount names indeg = length (filter (\<lambda>m. 0 < indeg m) names)"

lemma dependents_names: "set (dependents c names r) \<subseteq> set names"
  by (auto simp: dependents_def)

lemma openCount_drop: "openCount names (indeg(m := indeg m - 1)) \<le> openCount names indeg"
  by (induction names) (auto simp: openCount_def)

lemma openCount_zero:
  assumes "m \<in> set names" and "indeg m = 1"
  shows "openCount names (indeg(m := 0)) < openCount names indeg"
proof -
  have "filter (\<lambda>x. 0 < (indeg(m := 0)) x) names = filter (\<lambda>x. x \<noteq> m) (filter (\<lambda>x. 0 < indeg x) names)"
    unfolding filter_filter by (rule filter_cong) auto
  moreover have "m \<in> set (filter (\<lambda>x. 0 < indeg x) names)" using assms by simp
  ultimately show ?thesis unfolding openCount_def by (metis (mono_tags) length_filter_less)
qed

lemma releaseAll_measure:
  "set ms \<subseteq> set names \<Longrightarrow> releaseAll ms (indeg, grown) = (indeg', grown') \<Longrightarrow>
     openCount names indeg' + length grown' \<le> openCount names indeg + length grown"
proof (induction ms arbitrary: indeg grown)
  case (Cons m ms)
  let ?i = "indeg(m := indeg m - 1)"
  let ?g = "if ?i m = 0 then grown @ [m] else grown"
  from Cons.prems(2) have "releaseAll ms (?i, ?g) = (indeg', grown')"
    unfolding releaseAll.simps Let_def .
  moreover have "set ms \<subseteq> set names" using Cons.prems(1) by simp
  ultimately have "openCount names indeg' + length grown' \<le> openCount names ?i + length ?g"
    by (intro Cons.IH)
  also have "\<dots> \<le> openCount names indeg + length grown"
    using openCount_drop [of names indeg m] openCount_zero [of m names indeg] Cons.prems(1) by auto
  finally show ?case .
qed simp

lemma releaseAll_dependents:
  "(indeg', grown) = releaseAll (dependents c names n) (indeg, []) \<Longrightarrow>
     openCount names indeg' + length grown \<le> openCount names indeg"
  using releaseAll_measure [OF dependents_names, of c names n indeg "[]" indeg' grown] by simp

text \<open>The outer loop; \<open>ready\<close> is sorted again only when it grew.\<close>

function topoLoop ::
  "Catalog \<Rightarrow> string list \<Rightarrow> (string \<Rightarrow> int) \<Rightarrow> string list \<Rightarrow> string list \<Rightarrow> string list" where
  "topoLoop c names indeg [] order = order"
| "topoLoop c names indeg (n # ready) order =
     (case releaseAll (dependents c names n) (indeg, []) of
        (indeg', grown) \<Rightarrow>
          topoLoop c names indeg' (if grown = [] then ready else sort (ready @ grown)) (order @ [n]))"
  by pat_completeness auto

termination
  by (relation "measure (\<lambda>(c, names, indeg, ready, _). openCount names indeg + length ready)")
    (auto dest!: releaseAll_dependents)

declare topoLoop.simps [simp del]

definition topo :: "Catalog \<Rightarrow> string list \<Rightarrow> (catalog_error, string list) res" where
  "topo c names =
     (let indeg = initialIndeg c names;
          order = topoLoop c names indeg (sort (filter (\<lambda>n. indeg n = 0) names)) [] in
      if length order \<noteq> length names
      then Inl (ErrCycle (sort (filter (\<lambda>n. n \<notin> set order) names)))
      else Inr order)"

definition topoAll :: "Catalog \<Rightarrow> (catalog_error, string list) res" where
  "topoAll c = topo c (map pkName (ctPkgs c))"

section \<open>Validation\<close>

fun firstError :: "('a \<Rightarrow> (catalog_error, unit) res) \<Rightarrow> 'a list \<Rightarrow> (catalog_error, unit) res" where
  "firstError f [] = Inr ()"
| "firstError f (x # xs) = rbind (f x) (\<lambda>_. firstError f xs)"

lemma firstError_Inr [simp]: "firstError f xs = Inr u \<longleftrightarrow> (\<forall>x \<in> set xs. f x = Inr ())"
  by (induction xs) auto

definition validPackageKind :: "package_kind \<Rightarrow> bool" where
  "validPackageKind k \<longleftrightarrow> (case k of KindOther _ \<Rightarrow> False | _ \<Rightarrow> True)"

definition validDigest :: "Package \<Rightarrow> string \<Rightarrow> (catalog_error, unit) res" where
  "validDigest p a =
     (case map_of (pkSHA256 p) a of
        None \<Rightarrow> Inl (ErrMissingDigest (pkName p) a)
      | Some d \<Rightarrow> ensure (isHex64 d) (ErrBadDigest (pkName p) a))"

text \<open>The body of the loop over the packages, without the test for duplicates.\<close>

definition validPackage :: "Catalog \<Rightarrow> Package \<Rightarrow> (catalog_error, unit) res" where
  "validPackage c p =
     rbind (ensure (validPackageKind (pkKind p)) (ErrInvalidKind (pkName p))) (\<lambda>_.
     rbind (ensure (pkVersion p \<noteq> []) (ErrNoVersion (pkName p))) (\<lambda>_.
     rbind (if pkKind p = KindBinary then firstError (validDigest p) buildArches else Inr ()) (\<lambda>_.
     rbind (firstError (\<lambda>r. ensure (pkgIdx c r \<noteq> None) (ErrUnknownRequire (pkName p) r)) (pkRequires p)) (\<lambda>_.
     rbind (firstError (\<lambda>x. ensure (pkgIdx c x \<noteq> None) (ErrUnknownConflict (pkName p) x)) (pkConflicts p)) (\<lambda>_.
     firstError (\<lambda>d. ensure (\<not> egressTooWide d) (ErrWideEgress (pkName p) d))
       (pkBuildFetch p @ pkRuntimeEgress p))))))"

fun validPackages :: "Catalog \<Rightarrow> string list \<Rightarrow> Package list \<Rightarrow> (catalog_error, unit) res" where
  "validPackages c seen [] = Inr ()"
| "validPackages c seen (p # ps) =
     (if pkName p = [] then Inl ErrEmptyName
      else if pkName p \<in> set seen then Inl (ErrDuplicate (pkName p))
      else rbind (validPackage c p) (\<lambda>_. validPackages c (pkName p # seen) ps))"

fun validBundles :: "Catalog \<Rightarrow> string list \<Rightarrow> Bundle list \<Rightarrow> (catalog_error, unit) res" where
  "validBundles c seen [] = Inr ()"
| "validBundles c seen (b # bs) =
     (if buName b = [] then Inl ErrEmptyName
      else if buName b \<in> set seen then Inl (ErrDuplicate (buName b))
      else rbind (firstError (\<lambda>pn. ensure (pkgIdx c pn \<noteq> None) (ErrUnknownInBundle (buName b) pn)) (buPackages b))
             (\<lambda>_. validBundles c (buName b # seen) bs))"

definition ValidateCatalog :: "Catalog \<Rightarrow> (catalog_error, unit) res" where
  "ValidateCatalog c =
     rbind (validPackages c [] (ctPkgs c)) (\<lambda>_.
     rbind (validBundles c [] (ctBundles c)) (\<lambda>_.
     rbind (firstError (\<lambda>(agent, bn). ensure (bndIdx c bn \<noteq> None) (ErrDefaultBundle agent bn)) (ctDefaults c)) (\<lambda>_.
     rbind (topoAll c) (\<lambda>_. Inr ()))))"

section \<open>Readiness\<close>

definition pendingDigest :: "Package \<Rightarrow> bool" where
  "pendingDigest p \<longleftrightarrow>
     pkKind p = KindBinary \<and> list_ex (\<lambda>a. shaOf (pkSHA256 p) a = sha256Unresolved) buildArches"

definition BuildReady :: "Catalog \<Rightarrow> string list" where
  "BuildReady c = sort (map pkName (filter pendingDigest (ctPkgs c)))"

definition PackagePending :: "Catalog \<Rightarrow> string \<Rightarrow> bool" where
  "PackagePending c name = (case pkgIdx c name of None \<Rightarrow> False | Some p \<Rightarrow> pendingDigest p)"

definition BuildReadyFor :: "Catalog \<Rightarrow> string list \<Rightarrow> string list" where
  "BuildReadyFor c names = sort (filter (PackagePending c) names)"

section \<open>Resolving a profile\<close>

record Resolved =
  rsPackages :: "string list"
  rsIdentitySet :: "string list"
  rsRuntimeEgress :: "string list"

text \<open>The closure \<open>add\<close> of \<open>Resolve\<close>; \<open>queue\<close> holds every name added so far.\<close>

definition addName :: "Catalog \<Rightarrow> string \<Rightarrow> string list \<Rightarrow> (catalog_error, string list) res" where
  "addName c name queue =
     (if name \<in> set queue then Inr queue
      else if pkgIdx c name = None then Inl (ErrUnknownPackage name)
      else Inr (queue @ [name]))"

fun addAll :: "Catalog \<Rightarrow> string list \<Rightarrow> string list \<Rightarrow> (catalog_error, string list) res" where
  "addAll c [] queue = Inr queue"
| "addAll c (n # ns) queue = rbind (addName c n queue) (addAll c ns)"

definition catalogNames :: "Catalog \<Rightarrow> string set" where
  "catalogNames c = pkName ` set (ctPkgs c)"

lemma pkgIdx_name: "pkgIdx c n \<noteq> None \<longleftrightarrow> n \<in> catalogNames c"
  by (simp add: pkgIdx_def catalogNames_def map_of_eq_None_iff image_image)

lemma addName_Inr:
  "addName c n q = Inr q' \<Longrightarrow> distinct q \<and> set q \<subseteq> catalogNames c
     \<Longrightarrow> distinct q' \<and> set q' = insert n (set q) \<and> set q' \<subseteq> catalogNames c \<and> (\<exists>e. q' = q @ e)"
  using pkgIdx_name [of c n] by (auto simp: addName_def split: if_splits)

lemma addAll_Inr:
  "addAll c ns q = Inr q' \<Longrightarrow> distinct q \<and> set q \<subseteq> catalogNames c
     \<Longrightarrow> distinct q' \<and> set q' = set ns \<union> set q \<and> set q' \<subseteq> catalogNames c \<and> (\<exists>e. q' = q @ e)"
proof (induction ns arbitrary: q)
  case (Cons n ns)
  from Cons.prems(1) obtain q1 where q1: "addName c n q = Inr q1" "addAll c ns q1 = Inr q'" by auto
  from addName_Inr [OF q1(1) Cons.prems(2)] Cons.IH [OF q1(2)] show ?case by auto
qed simp

text \<open>
  The loop over the growing queue: \<open>i\<close> is the position, \<open>k\<close> the number of further iterations
  allowed. \<open>Resolve\<close> allows one per catalog package, which always suffices (\<open>closure_enough\<close>).
\<close>

fun closureLoop :: "nat \<Rightarrow> Catalog \<Rightarrow> nat \<Rightarrow> string list \<Rightarrow> (catalog_error, string list) res option" where
  "closureLoop k c i queue =
     (if length queue \<le> i then Some (Inr queue)
      else case k of
        0 \<Rightarrow> None
      | Suc k' \<Rightarrow>
          (case addAll c (requiresOf c (queue ! i)) queue of
             Inl e \<Rightarrow> Some (Inl e)
           | Inr queue' \<Rightarrow> closureLoop k' c (i + 1) queue'))"

definition closureOf :: "Catalog \<Rightarrow> string list \<Rightarrow> (catalog_error, string list) res option" where
  "closureOf c queue = closureLoop (length (ctPkgs c)) c 0 queue"

definition seedBundles :: "Catalog \<Rightarrow> string list \<Rightarrow> (catalog_error, string list) res" where
  "seedBundles c bundles =
     foldr (\<lambda>bn acc. case bndIdx c bn of
         None \<Rightarrow> Inl (ErrUnknownBundle bn)
       | Some b \<Rightarrow> rbind acc (\<lambda>rest. Inr (buPackages b @ rest))) bundles (Inr [])"

definition seedNames :: "Catalog \<Rightarrow> bool \<Rightarrow> string \<Rightarrow> string list \<Rightarrow> string list \<Rightarrow> (catalog_error, string list) res" where
  "seedNames c bare agent bundles packages =
     rbind (if bare \<or> DefaultBundle c agent = [] then Inr []
            else case bndIdx c (DefaultBundle c agent) of
              None \<Rightarrow> Inl (ErrUnknownBundle (DefaultBundle c agent))
            | Some b \<Rightarrow> Inr (buPackages b)) (\<lambda>first.
     rbind (seedBundles c bundles) (\<lambda>rest. Inr (first @ rest @ packages)))"

definition conflictIn :: "Catalog \<Rightarrow> string list \<Rightarrow> (catalog_error, unit) res" where
  "conflictIn c names =
     firstError (\<lambda>n. firstError (\<lambda>x. ensure (x \<notin> set names)
       (if x < n then ErrConflict x n else ErrConflict n x)) (conflictsOf c n)) names"

text \<open>\<open>iter\<close> is the order in which Go ranges over the set of names.\<close>

definition Resolve :: "(string list \<Rightarrow> string list) \<Rightarrow> Catalog \<Rightarrow> Profile \<Rightarrow> (catalog_error, Resolved) res option" where
  "Resolve iter c p =
     (case rbind (seedNames c (prBareAgent p) (prAgent p) (prBundles p) (prPackages p)) (\<lambda>seed. addAll c seed []) of
        Inl e \<Rightarrow> Some (Inl e)
      | Inr queue \<Rightarrow> map_option (\<lambda>closure.
          rbind closure (\<lambda>queue.
          let names = iter queue in
          rbind (conflictIn c names) (\<lambda>_.
          rbind (topo c names) (\<lambda>order.
          Inr \<lparr>rsPackages = order, rsIdentitySet = sort names,
               rsRuntimeEgress = sort (remdups (concat (map (egressOf c) names)))\<rparr>))))
          (closureOf c queue))"

end
