(* ===== verification/CatalogEdit.thy ===== *)
theory CatalogEdit
  imports Catalog
begin

text \<open>
  Catalog edits (\<open>internal/engine/policy/catalog_edit.go\<close>). Edits are pure: they return a new
  catalog or an error.
\<close>

section \<open>Edits\<close>

record Diff =
  dfOperation :: string
  dfPackageName :: string
  dfBundleName :: string
  dfOldVersion :: string
  dfNewVersion :: string
  dfOldSHA256 :: "(string \<times> string) list"
  dfNewSHA256 :: "(string \<times> string) list"
  dfMagnitude :: "magnitude option"
  dfLane :: string
  dfReverseClosure :: "string list"
  dfAddedPackages :: "string list"
  dfRemovedPackages :: "string list"

definition emptyDiff :: Diff where
  "emptyDiff =
     \<lparr>dfOperation = [], dfPackageName = [], dfBundleName = [], dfOldVersion = [], dfNewVersion = [],
      dfOldSHA256 = [], dfNewSHA256 = [], dfMagnitude = None, dfLane = [], dfReverseClosure = [],
      dfAddedPackages = [], dfRemovedPackages = []\<rparr>"

text \<open>The reverse edges, one entry per \<open>requires\<close> edge in scan order, and the search over them.\<close>

definition reverseEdges :: "Catalog \<Rightarrow> string \<Rightarrow> string list" where
  "reverseEdges c r =
     concat (map (\<lambda>p. replicate (length (filter (\<lambda>q. q = r) (pkRequires p))) (pkName p)) (ctPkgs c))"

lemma reverseEdges_names: "set (reverseEdges c r) \<subseteq> catalogNames c"
  by (auto simp: reverseEdges_def catalogNames_def)

definition unseen :: "Catalog \<Rightarrow> string list \<Rightarrow> string list \<Rightarrow> string set" where
  "unseen c seen queue = (catalogNames c \<union> set queue) - set seen"

lemma unseen_facts:
  "finite (unseen c seen queue)"
  "current \<in> set seen \<Longrightarrow> unseen c seen queue = unseen c seen (current # queue)"
  "current \<notin> set seen \<Longrightarrow>
     unseen c (current # seen) (queue @ reverseEdges c current) \<subset> unseen c seen (current # queue)"
  using reverseEdges_names by (auto simp: unseen_def catalogNames_def)

function reverseLoop :: "Catalog \<Rightarrow> string list \<Rightarrow> string list \<Rightarrow> string list \<Rightarrow> string list" where
  "reverseLoop c seen [] out = out"
| "reverseLoop c seen (current # queue) out =
     (if current \<in> set seen then reverseLoop c seen queue out
      else reverseLoop c (current # seen) (queue @ reverseEdges c current) (out @ [current]))"
  by pat_completeness auto

termination
  by (relation "measures [\<lambda>(c, seen, queue, _). card (unseen c seen queue), \<lambda>(_, _, queue, _). length queue]")
    (auto simp: unseen_facts(2) [symmetric] intro!: psubset_card_mono unseen_facts)

declare reverseLoop.simps [simp del]

definition ReverseClosureErr :: "Catalog \<Rightarrow> string \<Rightarrow> (catalog_error, string list) res" where
  "ReverseClosureErr c name =
     (if Lookup c name = None then Inl (ErrUnknownPackage name)
      else Inr (sort (reverseLoop c [name] (reverseEdges c name) [])))"

definition ReverseClosure :: "Catalog \<Rightarrow> string \<Rightarrow> string list" where
  "ReverseClosure c name = (case ReverseClosureErr c name of Inl _ \<Rightarrow> [] | Inr out \<Rightarrow> out)"

definition AddPackage :: "Catalog \<Rightarrow> Package \<Rightarrow> (catalog_error, Catalog \<times> Diff) res" where
  "AddPackage c p =
     (if Lookup c (pkName p) \<noteq> None then Inl (ErrExists (pkName p))
      else if \<not> validPackageKind (pkKind p) then Inl (ErrInvalidKind (pkName p))
      else
        let next = c\<lparr>ctPkgs := ctPkgs c @ [p]\<rparr> in
        rbind (ValidateCatalog next) (\<lambda>_.
        Inr (next, emptyDiff\<lparr>dfOperation := ''add-package'', dfPackageName := pkName p,
               dfNewVersion := pkVersion p, dfNewSHA256 := pkSHA256 p, dfMagnitude := Some MagNone,
               dfReverseClosure := ReverseClosure next (pkName p)\<rparr>)))"

definition validateBinaryBumpSHA ::
  "string \<Rightarrow> (string \<times> string) list option \<Rightarrow> (catalog_error, (string \<times> string) list) res" where
  "validateBinaryBumpSHA name shaByArch =
     (case shaByArch of
        None \<Rightarrow> Inl (ErrMissingDigest name [])
      | Some m \<Rightarrow>
          foldr (\<lambda>arch acc. case map_of m arch of
              None \<Rightarrow> Inl (ErrMissingDigest name arch)
            | Some digest \<Rightarrow>
                if \<not> isHex64 digest then Inl (ErrBadDigest name arch)
                else if digest = sha256Unresolved then Inl (ErrUnresolvedDigest name arch)
                else rbind acc (\<lambda>rest. Inr ((arch, digest) # rest))) buildArches (Inr []))"

definition sameBuildArchSHA :: "(string \<times> string) list \<Rightarrow> (string \<times> string) list \<Rightarrow> bool" where
  "sameBuildArchSHA old new \<longleftrightarrow> list_all (\<lambda>a. shaOf old a = shaOf new a) buildArches"

definition parseOr :: "string \<Rightarrow> string \<Rightarrow> scheme \<Rightarrow> (catalog_error, Version) res" where
  "parseOr name s sch =
     (case ParseVersion s sch of None \<Rightarrow> Inl (ErrVersion name) | Some v \<Rightarrow> Inr v)"

text \<open>The first entry of that name is rewritten.\<close>

fun rewriteFirst :: "('a \<Rightarrow> bool) \<Rightarrow> ('a \<Rightarrow> 'a) \<Rightarrow> 'a list \<Rightarrow> 'a list" where
  "rewriteFirst q f [] = []"
| "rewriteFirst q f (x # xs) = (if q x then f x # xs else x # rewriteFirst q f xs)"

definition BumpPackage ::
  "Catalog \<Rightarrow> string \<Rightarrow> string \<Rightarrow> (string \<times> string) list option \<Rightarrow> string
   \<Rightarrow> (catalog_error, Catalog \<times> Diff) res" where
  "BumpPackage c name version shaByArch lane =
     (case Lookup c name of
        None \<Rightarrow> Inl (ErrUnknownPackage name)
      | Some pkg \<Rightarrow>
          if \<not> IsStableChannel version then Inl (ErrUnstable version)
          else if pkKind pkg = KindApt then Inl ErrAptBump
          else
            rbind (parseOr name (pkVersion pkg) (InferScheme (pkKind pkg) (pkVersion pkg))) (\<lambda>oldVersion.
            rbind (parseOr name version (InferScheme (pkKind pkg) version)) (\<lambda>newVersion.
            if vrScheme oldVersion \<noteq> vrScheme newVersion then Inl (ErrSchemeChange name)
            else
              rbind (ReverseClosureErr c name) (\<lambda>affected.
              rbind (if pkKind pkg = KindBinary then validateBinaryBumpSHA name shaByArch else Inr []) (\<lambda>newSHA.
              case Compare newVersion oldVersion of
                None \<Rightarrow> Inl (ErrSchemeChange name) \<comment> \<open>the panic, excluded above\<close>
              | Some cmp \<Rightarrow>
                  if cmp < 0 then Inl (ErrRollback name)
                  else if cmp = 0 then
                    (if pkKind pkg = KindBinary \<and> \<not> sameBuildArchSHA (pkSHA256 pkg) newSHA
                     then Inl ErrNeedsRevision else Inl ErrNoChange)
                  else
                    let next = c\<lparr>ctPkgs := rewriteFirst (\<lambda>p. pkName p = name)
                          (\<lambda>p. let p' = p\<lparr>pkVersion := version\<rparr> in
                               if pkKind pkg = KindBinary then p'\<lparr>pkSHA256 := newSHA\<rparr> else p') (ctPkgs c)\<rparr> in
                    rbind (ValidateCatalog next) (\<lambda>_.
                    Inr (next, emptyDiff\<lparr>dfOperation := ''bump-package'', dfPackageName := name,
                      dfOldVersion := pkVersion pkg, dfNewVersion := version, dfOldSHA256 := pkSHA256 pkg,
                      dfNewSHA256 := newSHA, dfMagnitude := Some (Magnitude oldVersion newVersion),
                      dfLane := lane, dfReverseClosure := affected\<rparr>)))))))"

text \<open>The names that are new to the bundle, each once, in the order given.\<close>

fun addedNames :: "string list \<Rightarrow> string list \<Rightarrow> string list" where
  "addedNames present [] = []"
| "addedNames present (n # ns) =
     (if n \<in> set present then addedNames present ns else n # addedNames (n # present) ns)"

definition BundleAdd :: "Catalog \<Rightarrow> string \<Rightarrow> string list \<Rightarrow> (catalog_error, Catalog \<times> Diff) res" where
  "BundleAdd c bundleName names =
     (case bndIdx c bundleName of
        None \<Rightarrow> Inl (ErrUnknownBundle bundleName)
      | Some _ \<Rightarrow>
          rbind (firstError (\<lambda>n. ensure (Lookup c n \<noteq> None) (ErrUnknownPackage n)) names) (\<lambda>_.
          let added = (case find (\<lambda>b. buName b = bundleName) (ctBundles c) of
                         None \<Rightarrow> [] | Some b \<Rightarrow> addedNames (buPackages b) names) in
          if added = [] then Inl ErrNoChange
          else
            let next = c\<lparr>ctBundles := rewriteFirst (\<lambda>b. buName b = bundleName)
                  (\<lambda>b. b\<lparr>buPackages := buPackages b @ addedNames (buPackages b) names\<rparr>) (ctBundles c)\<rparr> in
            rbind (ValidateCatalog next) (\<lambda>_.
            Inr (next, emptyDiff\<lparr>dfOperation := ''bundle-add'', dfBundleName := bundleName,
                   dfAddedPackages := added\<rparr>))))"

definition BundleRemove :: "Catalog \<Rightarrow> string \<Rightarrow> string list \<Rightarrow> (catalog_error, Catalog \<times> Diff) res" where
  "BundleRemove c bundleName names =
     (case bndIdx c bundleName of
        None \<Rightarrow> Inl (ErrUnknownBundle bundleName)
      | Some _ \<Rightarrow>
          let removed = (case find (\<lambda>b. buName b = bundleName) (ctBundles c) of
                 None \<Rightarrow> [] | Some b \<Rightarrow> addedNames [] (filter (\<lambda>n. n \<in> set names) (buPackages b))) in
          if removed = [] then Inl ErrNoChange
          else
            let next = c\<lparr>ctBundles := rewriteFirst (\<lambda>b. buName b = bundleName)
                  (\<lambda>b. b\<lparr>buPackages := filter (\<lambda>n. n \<notin> set names) (buPackages b)\<rparr>) (ctBundles c)\<rparr> in
            rbind (ValidateCatalog next) (\<lambda>_.
            Inr (next, emptyDiff\<lparr>dfOperation := ''bundle-remove'', dfBundleName := bundleName,
                   dfRemovedPackages := removed\<rparr>)))"

end
