(* ===== verification/CatalogLaws.thy ===== *)
theory CatalogLaws
  imports CatalogEdit "HOL-Library.Multiset"
begin

text \<open>
  What the catalog promises: the install order puts every requirement first and fails exactly on a
  cycle, a resolved profile is the least closed conflict-free set, every edit keeps the catalog
  valid, and no sequence of edits ever moves a package to an older version or an unresolved digest.
\<close>

section \<open>The install order\<close>

lemma releaseAll_spec:
  assumes "releaseAll ms (indeg, g) = (indeg', g')" and "\<And>m. m \<in> set ms \<Longrightarrow> int (count_list ms m) \<le> indeg m"
  shows "(\<forall>m. indeg' m = indeg m - int (count_list ms m))
    \<and> (\<exists>new. g' = g @ new \<and> distinct new \<and> set new = {m \<in> set ms. indeg m = int (count_list ms m)})"
  using assms
proof (induction ms arbitrary: indeg g)
  case (Cons m ms)
  define i where "i = indeg(m := indeg m - 1)"
  have i: "i m = indeg m - 1" "m' \<noteq> m \<Longrightarrow> i m' = indeg m'" for m' by (simp_all add: i_def)
  have run: "releaseAll ms (i, if i m = 0 then g @ [m] else g) = (indeg', g')"
    using Cons.prems(1) unfolding i_def releaseAll.simps Let_def .
  have le: "int (count_list ms m') \<le> i m'" if "m' \<in> set ms" for m'
    using Cons.prems(2) [of m'] that i by (cases "m' = m") simp_all
  from Cons.IH [OF run le] obtain new where new: "\<forall>m'. indeg' m' = i m' - int (count_list ms m')"
    "g' = (if i m = 0 then g @ [m] else g) @ new" "distinct new"
    "set new = {m' \<in> set ms. i m' = int (count_list ms m')}" by blast
  have first: "\<forall>m'. indeg' m' = indeg m' - int (count_list (m # ms) m')"
    using new(1) i by (metis (no_types, lifting) add.commute count_list.simps(2) diff_diff_eq of_nat_1 of_nat_Suc of_nat_add Suc_eq_plus1)
  have fresh: "m \<notin> set ms" if "i m = 0" 
  proof
    assume "m \<in> set ms"
    with le [of m] that have "count_list ms m = 0" by simp
    with \<open>m \<in> set ms\<close> show False by (simp add: count_list_0_iff)
  qed
  have same: "i m' = int (count_list ms m') \<longleftrightarrow> indeg m' = int (count_list (m # ms) m')" for m'
    using i by (cases "m' = m") auto
  show ?case
  proof (cases "i m = 0")
    case True
    then have "set (m # new) = {m' \<in> set (m # ms). indeg m' = int (count_list (m # ms) m')}"
      using new(4) same fresh True i(1) by (auto simp: count_list_0_iff)
    moreover have "distinct (m # new)" using new(3,4) fresh [OF True] by auto
    moreover have "g' = g @ m # new" using new(2) True by simp
    ultimately show ?thesis using first by blast
  next
    case False
    have head: "m \<in> set ms" if "indeg m = int (count_list (m # ms) m)"
    proof (rule ccontr)
      assume "m \<notin> set ms"
      then have "count_list ms m = 0" by (simp add: count_list_0_iff)
      with that False i(1) show False by simp
    qed
    have "set new = {m' \<in> set (m # ms). indeg m' = int (count_list (m # ms) m')}"
      unfolding new(4) same using head by (auto simp del: count_list.simps)
    moreover have "g' = g @ new" using new(2) False by (simp only: if_False)
    ultimately show ?thesis using first new(3) by blast
  qed
qed simp

lemma count_dependents:
  "distinct names \<Longrightarrow> count_list (dependents c names r) m =
     (if m \<in> set names then length (filter (\<lambda>q. q = r) (requiresOf c m)) else 0)"
proof (induction names)
  case (Cons n names)
  have "count_list (replicate k n) m = (if m = n then k else 0)" for k by (induction k) auto
  with Cons show ?case by (auto simp: dependents_def count_list_append)
qed (simp add: dependents_def)

text \<open>Edges of \<open>m\<close> into \<open>names\<close> that are not yet installed.\<close>

definition owed :: "Catalog \<Rightarrow> string list \<Rightarrow> string list \<Rightarrow> string \<Rightarrow> string list" where
  "owed c names order m = filter (\<lambda>r. r \<in> set names \<and> r \<notin> set order) (requiresOf c m)"

definition installable :: "Catalog \<Rightarrow> string list \<Rightarrow> string list \<Rightarrow> bool" where
  "installable c names order \<longleftrightarrow>
     (\<forall>xs y ys. order = xs @ y # ys \<longrightarrow> set (requiresOf c y) \<inter> set names \<subseteq> set xs)"

definition kahn :: "Catalog \<Rightarrow> string list \<Rightarrow> (string \<Rightarrow> int) \<Rightarrow> string list \<Rightarrow> string list \<Rightarrow> bool" where
  "kahn c names indeg ready order \<longleftrightarrow>
     distinct (order @ ready) \<and> set (order @ ready) \<subseteq> set names
   \<and> (\<forall>m \<in> set names. indeg m = int (length (owed c names order m)))
   \<and> (\<forall>m \<in> set names. m \<in> set (order @ ready) \<longleftrightarrow> indeg m = 0)
   \<and> installable c names order"

lemma installable_snoc:
  "installable c names order \<Longrightarrow> set (requiresOf c n) \<inter> set names \<subseteq> set order \<Longrightarrow>
     installable c names (order @ [n])"
  unfolding installable_def
proof (intro allI impI)
  fix xs y ys assume old: "\<forall>xs y ys. order = xs @ y # ys \<longrightarrow> set (requiresOf c y) \<inter> set names \<subseteq> set xs"
    and new: "set (requiresOf c n) \<inter> set names \<subseteq> set order" and split: "order @ [n] = xs @ y # ys"
  show "set (requiresOf c y) \<inter> set names \<subseteq> set xs"
  proof (cases ys rule: rev_cases)
    case Nil
    with split new show ?thesis by auto
  next
    case (snoc zs z)
    with split old show ?thesis by auto
  qed
qed

lemma owed_snoc:
  assumes "n \<in> set names" and "n \<notin> set order"
  shows "length (owed c names order m) =
    length (owed c names (order @ [n]) m) + length (filter (\<lambda>q. q = n) (requiresOf c m))"
proof -
  have "length (filter (\<lambda>r. r \<in> set names \<and> r \<notin> set order) es) =
      length (filter (\<lambda>r. r \<in> set names \<and> r \<notin> set (order @ [n])) es) + length (filter (\<lambda>q. q = n) es)" for es
    using assms by (induction es) auto
  then show ?thesis by (simp add: owed_def)
qed

lemma kahn_count_le:
  assumes N: "distinct names" and k: "kahn c names indeg (n # ready) order"
    and m: "m \<in> set (dependents c names n)"
  shows "int (count_list (dependents c names n) m) \<le> indeg m"
proof -
  have "m \<in> set names" "n \<in> set names" "n \<notin> set order" using m dependents_names k by (auto simp: kahn_def)
  with N k owed_snoc [of n names order c m] show ?thesis by (simp add: count_dependents kahn_def)
qed

lemma kahn_step:
  assumes N: "distinct names" and k: "kahn c names indeg (n # ready) order"
    and run: "releaseAll (dependents c names n) (indeg, []) = (indeg', grown)"
  shows "kahn c names indeg' (ready @ grown) (order @ [n])"
proof -
  let ?E = "\<lambda>m. length (filter (\<lambda>q. q = n) (requiresOf c m))"
  from k have inv: "distinct (order @ n # ready)" "set (order @ n # ready) \<subseteq> set names"
    and deg: "\<And>m. m \<in> set names \<Longrightarrow> indeg m = int (length (owed c names order m))"
    and zero: "\<And>m. m \<in> set names \<Longrightarrow> m \<in> set (order @ n # ready) \<longleftrightarrow> indeg m = 0"
    and top: "installable c names order" by (auto simp: kahn_def)
  have n: "n \<in> set names" "n \<notin> set order" using inv by auto
  from releaseAll_spec [OF run kahn_count_le [OF N k]] obtain
    d': "\<forall>m. indeg' m = indeg m - int (count_list (dependents c names n) m)"
    and g: "distinct grown" "set grown = {m \<in> set (dependents c names n). indeg m = int (count_list (dependents c names n) m)}"
    by auto
  have deg': "indeg' m = int (length (owed c names (order @ [n]) m))" "indeg m = indeg' m + int (?E m)"
    if "m \<in> set names" for m
    using that d' deg [OF that] owed_snoc [OF n, of c m] N by (simp_all add: count_dependents)
  have dep: "m \<in> set (dependents c names n) \<longleftrightarrow> m \<in> set names \<and> 0 < ?E m" for m
    using N count_list_0_iff [of "dependents c names n" m] count_dependents [of names c n m]
      dependents_names [of c names n] by (auto split: if_splits)
  have grown: "m \<in> set grown \<longleftrightarrow> m \<in> set names \<and> 0 < ?E m \<and> indeg' m = 0" for m
    using g(2) dep d' by auto
  have zero': "m \<in> set ((order @ [n]) @ ready @ grown) \<longleftrightarrow> indeg' m = 0" if "m \<in> set names" for m
  proof -
    have nonneg: "0 \<le> indeg' m" using deg'(1) [OF that] by simp
    show ?thesis
    proof (cases "m \<in> set (order @ n # ready)")
      case True
      with zero [OF that] deg'(2) [OF that] nonneg show ?thesis by auto
    next
      case False
      then have "m \<in> set ((order @ [n]) @ ready @ grown) \<longleftrightarrow> m \<in> set grown" by auto
      also have "\<dots> \<longleftrightarrow> 0 < ?E m \<and> indeg' m = 0" unfolding grown using that by blast
      also have "\<dots> \<longleftrightarrow> indeg' m = 0" using zero [OF that] False deg'(2) [OF that] by linarith
      finally show ?thesis .
    qed
  qed
  have disj: "set (order @ n # ready) \<inter> set grown = {}"
  proof (rule ccontr)
    assume "set (order @ n # ready) \<inter> set grown \<noteq> {}"
    then obtain m where m: "m \<in> set (order @ n # ready)" "m \<in> set grown" by blast
    then have "m \<in> set names" using grown by blast
    with m zero deg'(2) grown show False by auto
  qed
  have "owed c names order n = []" using deg [OF n(1)] zero [OF n(1)] by auto
  then have "set (requiresOf c n) \<inter> set names \<subseteq> set order" by (auto simp: owed_def filter_empty_conv)
  note top' = installable_snoc [OF top this]
  have "distinct ((order @ [n]) @ ready @ grown)" using inv(1) g(1) disj by auto
  moreover have "set ((order @ [n]) @ ready @ grown) \<subseteq> set names" using inv(2) grown by auto
  ultimately show ?thesis unfolding kahn_def
    by (intro conjI ballI deg'(1) zero' top')
qed

lemma kahn_sort: "kahn c names indeg (sort ready) order = kahn c names indeg ready order"
  by (simp add: kahn_def)

lemma topoLoop_kahn:
  assumes "distinct names" and "kahn c names indeg ready order"
  shows "\<exists>indeg'. kahn c names indeg' [] (topoLoop c names indeg ready order)"
  using assms
proof (induction c names indeg ready order rule: topoLoop.induct)
  case (1 c names indeg order)
  then show ?case by (auto simp: topoLoop.simps)
next
  case (2 c names indeg n ready order)
  obtain indeg' grown where run: "releaseAll (dependents c names n) (indeg, []) = (indeg', grown)" by fastforce
  from kahn_step [OF 2(2,3) run] have
    "kahn c names indeg' (if grown = [] then ready else sort (ready @ grown)) (order @ [n])"
    using kahn_sort by (metis append.right_neutral)
  from 2(1) [OF run [symmetric] 2(2) this] run show ?case by (simp add: topoLoop.simps)
qed

lemma kahn_initial:
  "distinct names \<Longrightarrow>
     kahn c names (initialIndeg c names) (sort (filter (\<lambda>n. initialIndeg c names n = 0) names)) []"
  by (auto simp: kahn_sort kahn_def initialIndeg_def owed_def installable_def)

text \<open>The install order is right and fails only on a cycle. For distinct names, \<open>topo\<close> returns a
  permutation of them in which every package comes after all the packages it requires; or it
  reports a nonempty set of names in which every package requires another of the set.\<close>

lemma topo_install_order:
  assumes "distinct names"
  shows "case topo c names of
      Inr order \<Rightarrow> mset order = mset names
        \<and> (\<forall>xs y ys. order = xs @ y # ys \<longrightarrow> set (requiresOf c y) \<inter> set names \<subseteq> set xs)
    | Inl (ErrCycle stuck) \<Rightarrow> stuck \<noteq> [] \<and> set stuck \<subseteq> set names
        \<and> (\<forall>m \<in> set stuck. \<exists>r \<in> set stuck. r \<in> set (requiresOf c m))
    | Inl _ \<Rightarrow> False"
proof -
  let ?ready = "filter (\<lambda>n. initialIndeg c names n = 0) names"
  let ?order = "topoLoop c names (initialIndeg c names) (sort ?ready) []"
  from topoLoop_kahn [OF assms kahn_initial [OF assms]] obtain d where k: "kahn c names d [] ?order" by blast
  then have o: "distinct ?order" "set ?order \<subseteq> set names" "installable c names ?order"
    and deg: "\<And>m. m \<in> set names \<Longrightarrow> m \<in> set ?order \<longleftrightarrow> owed c names ?order m = []"
    by (auto simp: kahn_def)
  show ?thesis
  proof (cases "length ?order = length names")
    case True
    then have "set ?order = set names"
      using o(1,2) assms by (metis card_subset_eq distinct_card finite_set)
    then have "mset ?order = mset names" using o(1) assms set_eq_iff_mset_eq_distinct by blast
    with True o(3) show ?thesis by (simp add: topo_def Let_def installable_def)
  next
    case False
    let ?stuck = "sort (filter (\<lambda>n. n \<notin> set ?order) names)"
    have "\<exists>r \<in> set ?stuck. r \<in> set (requiresOf c m)" if "m \<in> set ?stuck" for m
      using that deg [of m] by (auto simp: owed_def filter_empty_conv)
    moreover have "set ?order \<noteq> set names" using False o(1) assms by (metis distinct_card)
    then have "set ?stuck \<noteq> {}" using o(2) by auto
    then have "?stuck \<noteq> []" by (metis list.set(1))
    ultimately show ?thesis using False by (auto simp: topo_def Let_def)
  qed
qed

lemma sort_mset: "mset xs = mset ys \<Longrightarrow> sort xs = sort ys"
  by (metis sorted_list_of_multiset_mset)

lemma mset_concat_map:
  assumes "mset xs = mset ys"
  shows "mset (concat (map f xs)) = mset (concat (map f ys))"
proof -
  have "mset (concat (map f zs)) = (\<Sum>x \<in># mset zs. mset (f x))" for zs by (induction zs) simp_all
  then show ?thesis using assms by simp
qed

lemma releaseAll_perm:
  assumes perm: "mset ms' = mset ms" and le: "\<And>m. m \<in> set ms \<Longrightarrow> int (count_list ms m) \<le> indeg m"
    and run: "releaseAll ms (indeg, []) = (d, g)" "releaseAll ms' (indeg, []) = (d', g')"
  shows "d' = d \<and> mset g' = mset g"
proof -
  have same: "set ms' = set ms" "count_list ms' m = count_list ms m" for m
    using perm mset_eq_setD by (blast, simp add: count_mset [symmetric])
  from releaseAll_spec [OF run(1) le] have r: "\<forall>m. d m = indeg m - int (count_list ms m)" "distinct g"
    "set g = {m \<in> set ms. indeg m = int (count_list ms m)}" by auto
  have le': "int (count_list ms' m) \<le> indeg m" if "m \<in> set ms'" for m using le that same by simp
  from releaseAll_spec [OF run(2) le'] have r': "\<forall>m. d' m = indeg m - int (count_list ms' m)" "distinct g'"
    "set g' = {m \<in> set ms'. indeg m = int (count_list ms' m)}" by auto
  have "d' = d" using r(1) r'(1) same(2) by auto
  moreover have "set g' = set g" unfolding r(3) r'(3) same ..
  ultimately show ?thesis using r(2) r'(2) by (simp add: set_eq_iff_mset_eq_distinct)
qed

lemma topoLoop_perm:
  assumes "distinct names" and "mset names' = mset names" and "kahn c names indeg ready order"
  shows "topoLoop c names' indeg ready order = topoLoop c names indeg ready order"
  using assms
proof (induction c names indeg ready order rule: topoLoop.induct)
  case (2 c names indeg n ready order)
  obtain d g where run: "releaseAll (dependents c names n) (indeg, []) = (d, g)" by fastforce
  obtain d' g' where run': "releaseAll (dependents c names' n) (indeg, []) = (d', g')" by fastforce
  have "mset (dependents c names' n) = mset (dependents c names n)"
    unfolding dependents_def by (rule mset_concat_map) (rule 2(3))
  from releaseAll_perm [OF this kahn_count_le [OF 2(2,4)] run run']
  have eq: "d' = d" "mset g' = mset g" by blast+
  have next': "(if g' = [] then ready else sort (ready @ g')) = (if g = [] then ready else sort (ready @ g))"
    using eq(2) sort_mset [of "ready @ g'" "ready @ g"] by (cases "g = []") auto
  have "kahn c names d (if g = [] then ready else sort (ready @ g)) (order @ [n])"
    using kahn_step [OF 2(2,4) run] kahn_sort by (metis append.right_neutral)
  from 2(1) [OF run [symmetric] 2(2,3) this] show ?case by (simp add: topoLoop.simps run run' eq(1) next')
qed (simp add: topoLoop.simps)

lemma topo_perm:
  assumes "distinct names" and "mset names' = mset names"
  shows "topo c names' = topo c names"
proof -
  have "set names' = set names" "length names' = length names"
    using assms(2) mset_eq_setD mset_eq_length by blast+
  moreover have "initialIndeg c names' = initialIndeg c names"
    using calculation(1) by (simp add: initialIndeg_def fun_eq_iff)
  moreover have "sort (filter Q names') = sort (filter Q names)" for Q
    using assms(2) by (intro sort_mset) simp
  moreover note topoLoop_perm [OF assms kahn_initial [OF assms(1)]]
  ultimately show ?thesis by (simp add: topo_def Let_def)
qed

end
