(* ===== verification/ResolveLaws.thy ===== *)
theory ResolveLaws
  imports CatalogLaws
begin

text \<open>
  What \<open>Resolve\<close> (\<open>internal/engine/policy/resolve.go\<close>) promises: the loop over the growing queue
  computes the least set closed under \<open>requires\<close>, the resolved set has no conflict and an install
  order, and the answer does not depend on the order in which Go ranges over a map.
\<close>

section \<open>The requires-closure\<close>

text \<open>The abstract specification: everything reachable from the seed along \<open>requires\<close> edges.\<close>

inductive needed :: "Catalog \<Rightarrow> string list \<Rightarrow> string \<Rightarrow> bool" for c seed where
  seed: "n \<in> set seed \<Longrightarrow> needed c seed n"
| edge: "needed c seed m \<Longrightarrow> n \<in> set (requiresOf c m) \<Longrightarrow> needed c seed n"

lemma addName_Inl: "addName c n q = Inl e \<longleftrightarrow> n \<notin> set q \<and> pkgIdx c n = None \<and> e = ErrUnknownPackage n"
  by (auto simp: addName_def)

lemma addAll_Inl:
  "addAll c ns q = Inl e \<Longrightarrow> \<exists>n \<in> set ns. pkgIdx c n = None \<and> e = ErrUnknownPackage n"
  by (induction ns arbitrary: q) (auto simp: rbind_Inl_iff addName_Inl)

definition closing :: "Catalog \<Rightarrow> string list \<Rightarrow> nat \<Rightarrow> string list \<Rightarrow> bool" where
  "closing c seed i q \<longleftrightarrow>
     distinct q \<and> set q \<subseteq> catalogNames c \<and> i \<le> length q
   \<and> set seed \<subseteq> set q \<and> (\<forall>n \<in> set q. needed c seed n)
   \<and> (\<forall>j < i. set (requiresOf c (q ! j)) \<subseteq> set q)"

lemma closing_step:
  assumes inv: "closing c seed i q" and more: "i < length q"
    and run: "addAll c (requiresOf c (q ! i)) q = Inr q'"
  shows "closing c seed (i + 1) q'"
proof -
  have "distinct q \<and> set q \<subseteq> catalogNames c" using inv by (simp add: closing_def)
  from addAll_Inr [OF run this] obtain e where q': "distinct q'" "q' = q @ e" "set q' \<subseteq> catalogNames c"
    "set q' = set (requiresOf c (q ! i)) \<union> set q" by blast
  have "q ! i \<in> set q" using more by simp
  then have need: "needed c seed n" if "n \<in> set q'" for n
    using that inv needed.edge unfolding q'(4) closing_def by blast
  have "set (requiresOf c (q' ! j)) \<subseteq> set q'" if "j < i + 1" for j
  proof (cases "j = i")
    case True
    then show ?thesis using q'(2,4) more by (simp add: nth_append)
  next
    case False
    then have "j < i" using that by simp
    then show ?thesis using inv more q'(2) by (auto simp: closing_def nth_append)
  qed
  moreover have "i + 1 \<le> length q'" "set seed \<subseteq> set q'" using inv more q'(2) by (auto simp: closing_def)
  ultimately show ?thesis unfolding closing_def using need q'(1,3) by blast
qed

lemma closing_size: "closing c seed i q \<Longrightarrow> length q \<le> length (ctPkgs c)"
proof -
  assume inv: "closing c seed i q"
  then have "length q = card (set q)" by (simp add: closing_def distinct_card)
  also have "\<dots> \<le> card (catalogNames c)"
    using inv by (intro card_mono) (simp_all add: closing_def catalogNames_def)
  also have "\<dots> \<le> length (ctPkgs c)"
    unfolding catalogNames_def by (rule order_trans [OF card_image_le card_length]) simp
  finally show ?thesis .
qed

lemma closed_is_needed:
  assumes "closing c seed (length q) q"
  shows "set q = Collect (needed c seed)"
proof -
  have "n \<in> set q" if "needed c seed n" for n
    using that
  proof induction
    case (edge m n)
    then obtain j where "j < length q" "q ! j = m" by (auto simp: in_set_conv_nth)
    with edge.hyps(2) assms show ?case by (auto simp: closing_def)
  qed (use assms in \<open>auto simp: closing_def\<close>)
  then show ?thesis using assms by (auto simp: closing_def)
qed

declare closureLoop.simps [simp del]

lemma closureLoop_run:
  "length q \<le> i \<Longrightarrow> closureLoop k c i q = Some (Inr q)"
  "i < length q \<Longrightarrow> addAll c (requiresOf c (q ! i)) q = Inl e \<Longrightarrow> closureLoop (Suc k) c i q = Some (Inl e)"
  "i < length q \<Longrightarrow> addAll c (requiresOf c (q ! i)) q = Inr q' \<Longrightarrow>
     closureLoop (Suc k) c i q = closureLoop k c (i + 1) q'"
  by (simp_all add: closureLoop.simps [of _ c i q])

text \<open>One iteration per catalog package is enough, and the loop computes the closure.\<close>

lemma closure_enough:
  assumes "closing c seed i q" and "length (ctPkgs c) \<le> k + i"
  shows "(\<exists>q'. closureLoop k c i q = Some (Inr q') \<and> distinct q' \<and> set q' = Collect (needed c seed))
    \<or> (\<exists>n. closureLoop k c i q = Some (Inl (ErrUnknownPackage n)) \<and> needed c seed n \<and> pkgIdx c n = None)"
  using assms
proof (induction k arbitrary: i q)
  case 0
  then have i: "i = length q" using closing_size [OF 0(1)] by (simp add: closing_def)
  have "closureLoop 0 c i q = Some (Inr q)" "distinct q"
    using 0(1) by (simp_all add: closureLoop_run i closing_def)
  with closed_is_needed [of c seed q] 0(1) i show ?case by blast
next
  case (Suc k)
  show ?case
  proof (cases "i < length q")
    case False
    then have i: "i = length q" using Suc.prems(1) by (simp add: closing_def)
    have "closureLoop (Suc k) c i q = Some (Inr q)" "distinct q"
      using Suc.prems(1) by (simp_all add: closureLoop_run i closing_def)
    with closed_is_needed [of c seed q] Suc.prems(1) i show ?thesis by blast
  next
    case more: True
    show ?thesis
    proof (cases "addAll c (requiresOf c (q ! i)) q")
      case (Inl e)
      from addAll_Inl [OF this] obtain n where n: "n \<in> set (requiresOf c (q ! i))" "pkgIdx c n = None"
        "e = ErrUnknownPackage n" by blast
      have "needed c seed (q ! i)" using Suc.prems(1) more by (simp add: closing_def)
      from needed.edge [OF this n(1)] closureLoop_run(2) [OF more Inl] n show ?thesis by simp
    next
      case (Inr q')
      have "length (ctPkgs c) \<le> k + (i + 1)" using Suc.prems(2) by simp
      from Suc.IH [OF closing_step [OF Suc.prems(1) more Inr] this] show ?thesis
        unfolding closureLoop_run(3) [OF more Inr] .
    qed
  qed
qed

lemma closing_seed: "addAll c seed [] = Inr q \<Longrightarrow> closing c seed 0 q"
  using addAll_Inr [of c seed "[]" q] by (auto simp: closing_def intro: needed.seed)

lemma closureOf_needed:
  "addAll c seed [] = Inr q \<Longrightarrow>
     (\<exists>q'. closureOf c q = Some (Inr q') \<and> distinct q' \<and> set q' = Collect (needed c seed))
   \<or> (\<exists>n. closureOf c q = Some (Inl (ErrUnknownPackage n)) \<and> needed c seed n \<and> pkgIdx c n = None)"
  unfolding closureOf_def by (rule closure_enough [OF closing_seed]) simp_all

section \<open>Resolving\<close>

definition profileSeed :: "Catalog \<Rightarrow> Profile \<Rightarrow> (catalog_error, string list) res" where
  "profileSeed c p = seedNames c (prBareAgent p) (prAgent p) (prBundles p) (prPackages p)"

text \<open>What \<open>Resolve\<close> does once the closure \<open>names\<close> is listed.\<close>

definition resolveNames :: "Catalog \<Rightarrow> string list \<Rightarrow> (catalog_error, Resolved) res" where
  "resolveNames c names =
     rbind (conflictIn c names) (\<lambda>_. rbind (topo c names) (\<lambda>order.
       Inr \<lparr>rsPackages = order, rsIdentitySet = sort names,
            rsRuntimeEgress = sort (remdups (concat (map (egressOf c) names)))\<rparr>))"

lemma Resolve_cases:
  assumes "profileSeed c p = Inr seed"
  obtains (unknown) n where "\<And>iter. Resolve iter c p = Some (Inl (ErrUnknownPackage n))"
      "needed c seed n" "pkgIdx c n = None"
    | (closed) q where "\<And>iter. Resolve iter c p = Some (resolveNames c (iter q))"
      "distinct q" "set q = Collect (needed c seed)"
proof (cases "addAll c seed []")
  case (Inl e)
  then obtain n where "n \<in> set seed" "pkgIdx c n = None" "e = ErrUnknownPackage n" using addAll_Inl by blast
  with Inl assms unknown show ?thesis by (auto simp: Resolve_def profileSeed_def intro: needed.seed)
next
  case (Inr q)
  from closureOf_needed [OF this] Inr assms unknown closed show ?thesis
    by (auto simp: Resolve_def profileSeed_def resolveNames_def Let_def)
qed

lemma firstError_Inl: "firstError f xs = Inl e \<Longrightarrow> \<exists>x \<in> set xs. f x = Inl e"
  by (induction xs) (auto simp: rbind_Inl_iff)

lemma conflictIn_Inr:
  "conflictIn c names = Inr u \<longleftrightarrow> (\<forall>n \<in> set names. set (conflictsOf c n) \<inter> set names = {})"
  by (auto simp: conflictIn_def)

lemma conflictIn_Inl:
  "conflictIn c names = Inl e \<Longrightarrow>
     \<exists>n \<in> set names. \<exists>x \<in> set names. x \<in> set (conflictsOf c n)
       \<and> (e = ErrConflict n x \<or> e = ErrConflict x n)"
proof -
  assume "conflictIn c names = Inl e"
  then obtain n where n: "n \<in> set names" and inner: "firstError (\<lambda>x. ensure (x \<notin> set names)
      (if x < n then ErrConflict x n else ErrConflict n x)) (conflictsOf c n) = Inl e"
    unfolding conflictIn_def using firstError_Inl by fast
  from firstError_Inl [OF inner] obtain x where x: "x \<in> set (conflictsOf c n)" "x \<in> set names"
    "e = (if x < n then ErrConflict x n else ErrConflict n x)" by auto
  show ?thesis using n x(1,2) x(3) by (intro bexI [of _ n] bexI [of _ x] conjI) auto
qed

definition faithfulAnswer :: "Catalog \<Rightarrow> string list \<Rightarrow> Resolved \<Rightarrow> bool" where
  "faithfulAnswer c seed rs \<longleftrightarrow>
     set (rsIdentitySet rs) = Collect (needed c seed)
   \<and> sorted (rsIdentitySet rs) \<and> distinct (rsIdentitySet rs)
   \<and> mset (rsPackages rs) = mset (rsIdentitySet rs)
   \<and> (\<forall>xs y ys. rsPackages rs = xs @ y # ys \<longrightarrow> set (requiresOf c y) \<subseteq> set xs)
   \<and> (\<forall>n. needed c seed n \<longrightarrow> (\<forall>x \<in> set (conflictsOf c n). \<not> needed c seed x))
   \<and> sorted (rsRuntimeEgress rs) \<and> distinct (rsRuntimeEgress rs)
   \<and> (\<forall>d. d \<in> set (rsRuntimeEgress rs) \<longleftrightarrow> (\<exists>n. needed c seed n \<and> d \<in> set (egressOf c n)))"

definition faithfulError :: "Catalog \<Rightarrow> string list \<Rightarrow> catalog_error \<Rightarrow> bool" where
  "faithfulError c seed e \<longleftrightarrow>
     (\<exists>n. e = ErrUnknownPackage n \<and> needed c seed n \<and> pkgIdx c n = None)
   \<or> (\<exists>a b. e = ErrConflict a b \<and> needed c seed a \<and> needed c seed b
        \<and> (b \<in> set (conflictsOf c a) \<or> a \<in> set (conflictsOf c b)))
   \<or> (\<exists>stuck. e = ErrCycle stuck \<and> stuck \<noteq> []
        \<and> (\<forall>m \<in> set stuck. needed c seed m \<and> (\<exists>r \<in> set stuck. r \<in> set (requiresOf c m))))"

lemma resolveNames_Inr:
  assumes "set names = Collect (needed c seed)" and "distinct names" and "resolveNames c names = Inr rs"
  shows "faithfulAnswer c seed rs"
proof -
  from assms(3) obtain order where con: "conflictIn c names = Inr ()" and top: "topo c names = Inr order"
    and rs: "rs = \<lparr>rsPackages = order, rsIdentitySet = sort names,
            rsRuntimeEgress = sort (remdups (concat (map (egressOf c) names)))\<rparr>"
    by (auto simp: resolveNames_def)
  have mem: "n \<in> set names \<longleftrightarrow> needed c seed n" for n using assms(1) by blast
  from topo_install_order [OF assms(2), of c] top
  have o: "mset order = mset names"
    "\<And>xs y ys. order = xs @ y # ys \<Longrightarrow> set (requiresOf c y) \<inter> set names \<subseteq> set xs" by auto
  have "set (requiresOf c y) \<subseteq> set xs" if "order = xs @ y # ys" for xs y ys
  proof -
    have "y \<in> set names" using that mset_eq_setD [OF o(1)] by auto
    then have "set (requiresOf c y) \<subseteq> set names" using mem needed.edge by blast
    with o(2) [OF that] show ?thesis by blast
  qed
  moreover have "\<forall>x \<in> set (conflictsOf c n). \<not> needed c seed x" if "needed c seed n" for n
    using con that mem unfolding conflictIn_Inr by blast
  moreover have "d \<in> set (rsRuntimeEgress rs) \<longleftrightarrow> (\<exists>n. needed c seed n \<and> d \<in> set (egressOf c n))" for d
    using mem by (auto simp: rs)
  ultimately show ?thesis using assms(1,2) o(1) unfolding faithfulAnswer_def by (simp add: rs)
qed

lemma resolveNames_Inl:
  assumes "set names = Collect (needed c seed)" and "distinct names" and "resolveNames c names = Inl e"
  shows "faithfulError c seed e"
proof -
  have mem: "n \<in> set names \<longleftrightarrow> needed c seed n" for n using assms(1) by blast
  from assms(3) consider "conflictIn c names = Inl e" | "topo c names = Inl e"
    by (auto simp: resolveNames_def rbind_Inl_iff)
  then show ?thesis
  proof cases
    case 1
    from conflictIn_Inl [OF this] mem show ?thesis unfolding faithfulError_def by blast
  next
    case 2
    with topo_install_order [OF assms(2), of c] obtain stuck where "e = ErrCycle stuck" "stuck \<noteq> []"
      "set stuck \<subseteq> set names" "\<forall>m \<in> set stuck. \<exists>r \<in> set stuck. r \<in> set (requiresOf c m)"
      by (cases e) auto
    with mem show ?thesis unfolding faithfulError_def by blast
  qed
qed

text \<open>(C37) Resolving a profile is complete and honest. Once the bundles are known, \<open>Resolve\<close> always
  returns (one iteration per catalog package is enough for the queue). A success is exactly the
  least set that contains the seed and is closed under \<open>requires\<close>: the identity set is that set,
  sorted and without duplicates; the install order is a permutation of it with every requirement
  before its dependent; no two members conflict; the runtime egress is the sorted union of the
  members'. A failure names an unknown package that is really needed, two needed packages that
  really conflict, or a nonempty set of needed packages each of which requires another of the set.\<close>

theorem resolve_is_the_closure:
  assumes "\<And>xs. mset (iter xs) = mset xs" and "profileSeed c p = Inr seed"
  shows "case Resolve iter c p of
      None \<Rightarrow> False
    | Some (Inr rs) \<Rightarrow> faithfulAnswer c seed rs
    | Some (Inl e) \<Rightarrow> faithfulError c seed e"
  using assms(2)
proof (cases rule: Resolve_cases)
  case (unknown n)
  then show ?thesis by (auto simp: faithfulError_def)
next
  case (closed q)
  have "set (iter q) = Collect (needed c seed)" "distinct (iter q)"
    using closed(2,3) mset_eq_setD [OF assms(1)] mset_eq_imp_distinct_iff [OF assms(1)] by auto
  from resolveNames_Inr [OF this] resolveNames_Inl [OF this] closed(1) show ?thesis
    by (cases "resolveNames c (iter q)") auto
qed

lemma resolveNames_perm:
  assumes perm: "mset names' = mset names" and "distinct names" and "resolveNames c names = Inr rs"
  shows "resolveNames c names' = Inr rs"
proof -
  have same: "set names' = set names" using mset_eq_setD [OF perm] .
  have "sort names' = sort names" by (rule sort_mset [OF perm])
  moreover have "sort (remdups (concat (map (egressOf c) names'))) = sort (remdups (concat (map (egressOf c) names)))"
    by (rule sorted_distinct_set_unique) (simp_all add: same)
  moreover have "topo c names' = topo c names" by (rule topo_perm [OF assms(2) perm])
  moreover have "conflictIn c names' = Inr ()"
    using assms(3) unfolding conflictIn_Inr same by (auto simp: resolveNames_def conflictIn_Inr)
  ultimately show ?thesis using assms(3) by (auto simp: resolveNames_def)
qed

text \<open>The map order cannot be seen in a resolution. If a profile resolves when Go ranges over the
  set of names in one order, it resolves in every order, to the same packages in the same install
  order, the same identity set and the same egress list.\<close>

theorem resolve_ignores_map_order:
  assumes "\<And>xs. mset (f xs) = mset xs" and "\<And>xs. mset (g xs) = mset xs"
    and "Resolve f c p = Some (Inr rs)"
  shows "Resolve g c p = Some (Inr rs)"
proof -
  obtain seed where "profileSeed c p = Inr seed" using assms(3)
    by (cases "profileSeed c p") (auto simp: Resolve_def profileSeed_def)
  then show ?thesis
  proof (cases rule: Resolve_cases)
    case (unknown n)
    with assms(3) show ?thesis by simp
  next
    case (closed q)
    have "mset (g q) = mset (f q)" using assms(1,2) by simp
    moreover have "distinct (f q)" using closed(2) mset_eq_imp_distinct_iff [OF assms(1) [of q]] by simp
    moreover have "resolveNames c (f q) = Inr rs" using assms(3) closed(1) by simp
    ultimately have "resolveNames c (g q) = Inr rs" by (rule resolveNames_perm)
    with closed(1) [of g] show ?thesis by (simp only:)
  qed
qed

section \<open>Witnesses\<close>

text \<open>A catalog with a dependency chain and a conflicting pair, and profiles over it.\<close>

definition toolPackage :: "string \<Rightarrow> string list \<Rightarrow> string list \<Rightarrow> string list \<Rightarrow> Package" where
  "toolPackage n req con eg =
     \<lparr>pkName = n, pkKind = KindApt, pkVersion = ''1'', pkSHA256 = [], pkRequires = req,
      pkConflicts = con, pkBuildFetch = [], pkRuntimeEgress = eg, pkNote = [], pkRevision = 0,
      pkUpstream = None, pkPublishedAt = []\<rparr>"

definition toolCatalog :: Catalog where
  "toolCatalog =
     \<lparr>ctPkgs = [toolPackage ''app'' [''node''] [] [''b.x'', ''a.x''], toolPackage ''node'' [''libc''] [] [],
        toolPackage ''libc'' [] [''musl''] [''a.x''], toolPackage ''musl'' [] [] []],
      ctBundles = [], ctDefaults = []\<rparr>"

definition toolProfile :: Profile where
  "toolProfile =
     \<lparr>prAgent = [], prEnvironment = [], prWorkspace = [], prNetwork = [], prEgress = [],
      prPersistentEgress = [], prSecrets = [], prCredentials = None, prToolchain = None,
      prBundles = [], prPackages = [''app''], prBareAgent = True, prProjection = None\<rparr>"

definition toolResolved :: Resolved where
  "toolResolved =
     \<lparr>rsPackages = [''libc'', ''node'', ''app''], rsIdentitySet = [''app'', ''libc'', ''node''],
      rsRuntimeEgress = [''a.x'', ''b.x'']\<rparr>"

lemma toolSeed: "profileSeed toolCatalog toolProfile = Inr [''app'']"
  by (simp add: profileSeed_def toolProfile_def seedNames_def seedBundles_def)

lemma toolRuns: "Resolve (\<lambda>q. q) toolCatalog toolProfile = Some (Inr toolResolved)"
  by code_simp

theorem resolve_is_the_closure_witness:
  "Resolve (\<lambda>q. q) toolCatalog toolProfile = Some (Inr toolResolved)
   \<and> faithfulAnswer toolCatalog [''app''] toolResolved"
  using resolve_is_the_closure [of "\<lambda>q. q", OF refl toolSeed] toolRuns by simp

theorem resolve_ignores_map_order_witness:
  "Resolve rev toolCatalog toolProfile = Some (Inr toolResolved)"
  by (rule resolve_ignores_map_order [OF refl mset_rev toolRuns])

end
