(* ===== verification/EditLaws.thy ===== *)
theory EditLaws
  imports ResolveLaws
begin

text \<open>
  What catalog edits promise (\<open>internal/engine/policy/catalog_edit.go\<close>): every edit leaves a valid
  catalog, and no sequence of edits moves a package to an older version, changes its kind or its
  edges, or replaces a pinned digest by an unresolved one.
\<close>

section \<open>Lookup in a valid catalog\<close>

lemma validPackages_Inr:
  "validPackages c seen ps = Inr u \<Longrightarrow>
     distinct (map pkName ps) \<and> pkName ` set ps \<inter> set seen = {} \<and> (\<forall>p \<in> set ps. validPackage c p = Inr ())"
  by (induction ps arbitrary: seen) (force split: if_splits)+

definition wellNamed :: "Catalog \<Rightarrow> bool" where
  "wellNamed c \<longleftrightarrow> distinct (map pkName (ctPkgs c))"

lemma valid_wellNamed: "ValidateCatalog c = Inr u \<Longrightarrow> wellNamed c"
  using validPackages_Inr by (auto simp: ValidateCatalog_def wellNamed_def)

lemma Lookup_Some: "wellNamed c \<Longrightarrow> Lookup c n = Some p \<longleftrightarrow> p \<in> set (ctPkgs c) \<and> pkName p = n"
proof -
  assume "wellNamed c"
  then have "distinct (map fst (rev (map (\<lambda>p. (pkName p, p)) (ctPkgs c))))"
    by (simp add: wellNamed_def rev_map [symmetric] comp_def)
  from map_of_eq_Some_iff [OF this] show ?thesis unfolding Lookup_def pkgIdx_def by auto
qed

lemma rewriteFirst_map:
  "distinct (map pkName ps) \<Longrightarrow>
     rewriteFirst (\<lambda>p. pkName p = n) f ps = map (\<lambda>p. if pkName p = n then f p else p) ps"
proof (induction ps)
  case (Cons p ps)
  then have "map (\<lambda>p. if pkName p = n then f p else p) ps = ps" if "pkName p = n"
    using that by (intro map_idI) (auto simp: image_iff)
  with Cons show ?case by auto
qed simp

section \<open>What one edit may do to a package\<close>

definition parsedAs :: "Package \<Rightarrow> Version option" where
  "parsedAs p = ParseVersion (pkVersion p) (InferScheme (pkKind p) (pkVersion p))"

definition pinned :: "Package \<Rightarrow> bool" where
  "pinned p \<longleftrightarrow> (\<forall>a \<in> set buildArches. \<exists>d. map_of (pkSHA256 p) a = Some d \<and> isHex64 d \<and> d \<noteq> sha256Unresolved)"

definition newer :: "Package \<Rightarrow> Package \<Rightarrow> bool" where
  "newer p p' \<longleftrightarrow>
     (\<exists>a b x. parsedAs p = Some a \<and> parsedAs p' = Some b \<and> Compare b a = Some x \<and> 0 < x)
   \<and> IsStableChannel (pkVersion p') \<and> pkKind p \<noteq> KindApt \<and> (pkKind p = KindBinary \<longrightarrow> pinned p')"

definition advances :: "Package \<Rightarrow> Package \<Rightarrow> bool" where
  "advances p p' \<longleftrightarrow>
     p' = p \<or> newer p p' \<and> p'\<lparr>pkVersion := pkVersion p, pkSHA256 := pkSHA256 p\<rparr> = p"

lemma newer_trans:
  assumes "newer p q" and "newer q r" and "pkKind q = pkKind p"
  shows "newer p r"
proof -
  from assms(1,2) obtain a b d x y where v: "parsedAs p = Some a" "parsedAs q = Some b" "parsedAs r = Some d"
    "Compare b a = Some x" "0 < x" "Compare d b = Some y" "0 < y" by (auto simp: newer_def)
  let ?s = "vrScheme a"
  have s: "vrScheme b = ?s" "vrScheme d = ?s" "compareOf ?s b a = x" "compareOf ?s d b = y"
    using v by (auto simp: Compare_of split: if_splits)
  have "compareOf ?s a b < 0" "compareOf ?s b d \<le> 0"
    using ofScheme.antisym [of ?s b a] ofScheme.antisym [of ?s d b] s v by simp_all
  then have "compareOf ?s a d < 0" using ofScheme.less_trans [of ?s a b d] by simp
  then have "Compare d a = Some (- compareOf ?s a d)" "0 < - compareOf ?s a d"
    using ofScheme.antisym [of ?s a d] s by (simp_all add: Compare_of)
  with v(1,3) assms show ?thesis unfolding newer_def by auto
qed

lemma advances_trans:
  assumes "advances p q" and "advances q r"
  shows "advances p r"
proof (cases "q = p \<or> r = q")
  case False
  with assms have n: "newer p q" "newer q r"
    and eq: "q\<lparr>pkVersion := pkVersion p, pkSHA256 := pkSHA256 p\<rparr> = p"
      "r\<lparr>pkVersion := pkVersion q, pkSHA256 := pkSHA256 q\<rparr> = q" by (auto simp: advances_def)
  have "pkKind q = pkKind p" using arg_cong [OF eq(1), of pkKind] by simp
  moreover have "r\<lparr>pkVersion := pkVersion p, pkSHA256 := pkSHA256 p\<rparr> = p"
    using eq by (cases p, cases q, cases r) simp
  ultimately show ?thesis using newer_trans [OF n] by (simp add: advances_def)
qed (use assms in auto)

lemma advances_pending: "advances p p' \<Longrightarrow> pendingDigest p' \<Longrightarrow> pendingDigest p"
proof -
  assume a: "advances p p'" and pend: "pendingDigest p'"
  show "pendingDigest p"
  proof (cases "p' = p")
    case False
    with a have "newer p p'" and eq: "p'\<lparr>pkVersion := pkVersion p, pkSHA256 := pkSHA256 p\<rparr> = p"
      by (auto simp: advances_def)
    moreover have "pkKind p' = pkKind p" using arg_cong [OF eq, of pkKind] by simp
    ultimately have "pinned p'" using pend by (auto simp: newer_def pendingDigest_def)
    with pend show ?thesis by (auto simp: pendingDigest_def pinned_def shaOf_def buildArches_def)
  qed (use pend in simp)
qed

definition onward :: "Catalog \<Rightarrow> Catalog \<Rightarrow> bool" where
  "onward c c' \<longleftrightarrow> ValidateCatalog c' = Inr ()
     \<and> (\<forall>n p. Lookup c n = Some p \<longrightarrow> (\<exists>p'. Lookup c' n = Some p' \<and> advances p p'))"

lemma onward_trans: "onward c c' \<Longrightarrow> onward c' c'' \<Longrightarrow> onward c c''"
  unfolding onward_def by (meson advances_trans)

section \<open>The four edits\<close>

inductive edit :: "Catalog \<Rightarrow> Catalog \<Rightarrow> bool" where
  add: "AddPackage c p = Inr (c', d) \<Longrightarrow> edit c c'"
| bump: "BumpPackage c n v sha lane = Inr (c', d) \<Longrightarrow> edit c c'"
| bundle_add: "BundleAdd c b ns = Inr (c', d) \<Longrightarrow> edit c c'"
| bundle_remove: "BundleRemove c b ns = Inr (c', d) \<Longrightarrow> edit c c'"

lemma samePackages_onward:
  "ctPkgs c' = ctPkgs c \<Longrightarrow> ValidateCatalog c' = Inr () \<Longrightarrow> onward c c'"
  by (simp add: onward_def advances_def Lookup_def pkgIdx_def)

lemma AddPackage_onward:
  assumes "AddPackage c p = Inr (c', d)" and "wellNamed c"
  shows "onward c c'"
proof -
  from assms(1) have v: "ValidateCatalog c' = Inr ()" and c': "c' = c\<lparr>ctPkgs := ctPkgs c @ [p]\<rparr>"
    by (auto simp: AddPackage_def Let_def split: if_splits)
  have "Lookup c' n = Some q" if "Lookup c n = Some q" for n q
    using that Lookup_Some [OF assms(2)] Lookup_Some [OF valid_wellNamed [OF v]] by (simp add: c')
  with v show ?thesis by (auto simp: onward_def advances_def)
qed

lemma validateBinaryBumpSHA_pinned:
  "validateBinaryBumpSHA name sha = Inr m \<Longrightarrow> pinned (p\<lparr>pkSHA256 := m\<rparr>)"
  by (auto simp: validateBinaryBumpSHA_def pinned_def buildArches_def split: option.splits if_splits)

text \<open>What a bump that succeeds has checked.\<close>

lemma BumpPackage_Inr:
  assumes "BumpPackage c name version sha lane = Inr (c', d)"
  obtains pkg a b x m where "Lookup c name = Some pkg" "IsStableChannel version" "pkKind pkg \<noteq> KindApt"
    "parsedAs pkg = Some a" "ParseVersion version (InferScheme (pkKind pkg) version) = Some b"
    "Compare b a = Some x" "0 < x" "pkKind pkg = KindBinary \<Longrightarrow> validateBinaryBumpSHA name sha = Inr m"
    "ValidateCatalog c' = Inr ()"
    "c' = c\<lparr>ctPkgs := rewriteFirst (\<lambda>p. pkName p = name) (\<lambda>p. let p' = p\<lparr>pkVersion := version\<rparr> in
        if pkKind pkg = KindBinary then p'\<lparr>pkSHA256 := m\<rparr> else p') (ctPkgs c)\<rparr>"
    "dfOldVersion d = pkVersion pkg \<and> dfNewVersion d = version \<and> dfOldSHA256 d = pkSHA256 pkg
      \<and> dfNewSHA256 d = m \<and> dfMagnitude d = Some (Magnitude a b)"
    "pkKind pkg \<noteq> KindBinary \<Longrightarrow> m = []"
proof -
  have parse: "parseOr nm s sch = Inr v \<longleftrightarrow> ParseVersion s sch = Some v" for nm s sch v
    by (simp add: parseOr_def split: option.split)
  from assms obtain pkg where pkg: "Lookup c name = Some pkg" by (cases "Lookup c name") (simp_all add: BumpPackage_def)
  from assms pkg have guards: "IsStableChannel version" "pkKind pkg \<noteq> KindApt"
    by (auto simp: BumpPackage_def split: if_splits)
  from assms pkg guards obtain a b where v: "parsedAs pkg = Some a"
    "ParseVersion version (InferScheme (pkKind pkg) version) = Some b"
    by (auto simp: BumpPackage_def parse parsedAs_def)
  from assms pkg guards v obtain m where
    m: "(if pkKind pkg = KindBinary then validateBinaryBumpSHA name sha else Inr []) = Inr m"
    by (auto simp: BumpPackage_def parse parsedAs_def parseOr_def simp del: if_split split: if_split_asm)
  from assms pkg guards v m have s: "vrScheme b = vrScheme a"
    by (simp add: BumpPackage_def parsedAs_def parseOr_def split: if_split_asm)
  obtain x where x: "Compare b a = Some x" using s by (simp add: Compare_of)
  have last: "0 < x" "ValidateCatalog c' = Inr ()"
    "c' = c\<lparr>ctPkgs := rewriteFirst (\<lambda>p. pkName p = name) (\<lambda>p. let p' = p\<lparr>pkVersion := version\<rparr> in
        if pkKind pkg = KindBinary then p'\<lparr>pkSHA256 := m\<rparr> else p') (ctPkgs c)\<rparr>"
    "dfOldVersion d = pkVersion pkg \<and> dfNewVersion d = version \<and> dfOldSHA256 d = pkSHA256 pkg
      \<and> dfNewSHA256 d = m \<and> dfMagnitude d = Some (Magnitude a b)"
    using assms pkg guards v m x unfolding BumpPackage_def
    by (auto simp: parsedAs_def parseOr_def Let_def split: if_split_asm)
  have bin: "validateBinaryBumpSHA name sha = Inr m" if "pkKind pkg = KindBinary" using m that by simp
  have other: "m = []" if "pkKind pkg \<noteq> KindBinary" using m that by simp
  from that [OF pkg guards v x last(1) bin last(2,3,4) other] show ?thesis .
qed

lemma rewritten_Lookup:
  assumes w: "wellNamed c" and c': "c' = c\<lparr>ctPkgs := rewriteFirst (\<lambda>p. pkName p = name) f (ctPkgs c)\<rparr>"
    and v: "ValidateCatalog c' = Inr ()" and f: "\<And>p. pkName (f p) = pkName p" and q: "Lookup c n = Some q"
  shows "Lookup c' n = Some (if n = name then f q else q)"
proof -
  have "ctPkgs c' = map (\<lambda>p. if pkName p = name then f p else p) (ctPkgs c)"
    using c' rewriteFirst_map w by (simp add: wellNamed_def)
  then show ?thesis using q Lookup_Some [OF w] Lookup_Some [OF valid_wellNamed [OF v]] f
    by (auto simp: image_iff)
qed

lemma BumpPackage_onward:
  assumes run: "BumpPackage c name version sha lane = Inr (c', d)" and w: "wellNamed c"
  shows "onward c c'"
  using run
proof (cases rule: BumpPackage_Inr)
  case (1 pkg a b x m)
  let ?f = "\<lambda>p. let p' = p\<lparr>pkVersion := version\<rparr> in if pkKind pkg = KindBinary then p'\<lparr>pkSHA256 := m\<rparr> else p'"
  have L: "Lookup c' n = Some (if n = name then ?f q else q)" if "Lookup c n = Some q" for n q
    by (rule rewritten_Lookup [OF w 1(10,9) _ that]) (simp add: Let_def)
  have "newer pkg (?f pkg)"
    using 1 validateBinaryBumpSHA_pinned [of name sha m "pkg\<lparr>pkVersion := version\<rparr>"]
    by (auto simp: newer_def parsedAs_def Let_def)
  then have "advances pkg (?f pkg)" by (simp add: advances_def Let_def)
  with L 1(1,9) show ?thesis by (auto simp: onward_def advances_def)
qed

lemma edit_onward: "edit c c' \<Longrightarrow> wellNamed c \<Longrightarrow> onward c c'"
proof (induction rule: edit.induct)
  case (add c p c' d)
  then show ?case by (rule AddPackage_onward)
next
  case (bump c n v sha lane c' d)
  then show ?case by (rule BumpPackage_onward)
next
  case (bundle_add c b ns c' d)
  then show ?case by (intro samePackages_onward) (auto simp: BundleAdd_def Let_def split: option.splits if_splits)
next
  case (bundle_remove c b ns c' d)
  then show ?case by (intro samePackages_onward) (auto simp: BundleRemove_def Let_def split: option.splits if_splits)
qed


section \<open>Witness\<close>

text \<open>A binary package with no resolved digest, and the catalog after a bump with real ones.\<close>

definition oldTool :: Package where
  "oldTool = (toolPackage ''tool'' [] [] [])\<lparr>pkKind := KindBinary, pkVersion := ''1.9'',
     pkSHA256 := map (\<lambda>a. (a, sha256Unresolved)) buildArches\<rparr>"

definition realDigest :: string where
  "realDigest = replicate 64 CHR ''a''"

definition newTool :: Package where
  "newTool = oldTool\<lparr>pkVersion := ''1.10'', pkSHA256 := map (\<lambda>a. (a, realDigest)) buildArches\<rparr>"

definition oneTool :: "Package \<Rightarrow> Catalog" where
  "oneTool p = \<lparr>ctPkgs = [p], ctBundles = [], ctDefaults = []\<rparr>"

lemma oldTool_valid: "ValidateCatalog (oneTool oldTool) = Inr ()"
  by code_simp

lemma oldTool_bumps:
  "map_sum id fst (BumpPackage (oneTool oldTool) ''tool'' ''1.10''
     (Some (map (\<lambda>a. (a, realDigest)) buildArches)) []) = Inr (oneTool newTool)"
  by code_simp


end
