(* ===== verification/BumpDriver.thy ===== *)
theory BumpDriver
  imports EditLaws Sha256
begin

text \<open>
  The bump driver (\<open>internal/engine/policy/bump.go\<close>, the URL templates of \<open>upstream.go\<close> and the
  plan sheet of \<open>plansheet.go\<close>): it resolves the digests of a new version over the network, applies
  the soak gate, and hands over to \<open>BumpPackage\<close>. The \<open>Fetcher\<close> interface is the parameter \<open>get\<close>;
  \<open>releases\<close> is what \<open>encoding/json\<close> decodes a Go download manifest to, as pairs of a file name and
  a digest per release. Byte strings are strings; a Go map is an association list, newest first.
\<close>

section \<open>Text helpers of the standard library\<close>

text \<open>\<open>strings.ReplaceAll\<close> for a nonempty pattern.\<close>

function replaceAll :: "string \<Rightarrow> string \<Rightarrow> string \<Rightarrow> string" where
  "replaceAll old new [] = []"
| "replaceAll old new (c # s) =
     (if old \<noteq> [] \<and> hasPrefix (c # s) old then new @ replaceAll old new (drop (length old) (c # s))
      else c # replaceAll old new s)"
  by pat_completeness auto
termination by (relation "measure (\<lambda>(_, _, s). length s)") auto

text \<open>\<open>strings.Fields\<close>: the nonempty pieces between runs of white space.\<close>

fun takeField :: "string \<Rightarrow> string \<times> string" where
  "takeField [] = ([], [])"
| "takeField (c # s) =
     (if stripOne spaceRunes (c # s) \<noteq> None then ([], c # s)
      else case takeField s of (w, r) \<Rightarrow> (c # w, r))"

lemma takeField_shorter:
  "takeField s = (w, r) \<Longrightarrow> length r \<le> length s \<and> (s \<noteq> [] \<and> stripOne spaceRunes s = None \<longrightarrow> length r < length s)"
  by (induction s arbitrary: w r) (force split: prod.splits if_splits)+

lemma trimPrefixes_length: "length (trimPrefixes ps s) \<le> length s"
proof (induction ps s rule: trimPrefixes.induct)
  case (1 ps s)
  then show ?case using stripOne_shorter [of ps s]
    by (subst trimPrefixes.simps) (force split: option.splits)
qed

function textFields :: "string \<Rightarrow> string list" where
  "textFields s =
     (let t = trimPrefixes spaceRunes s in
      if t = [] then [] else fst (takeField t) # textFields (snd (takeField t)))"
  by pat_completeness auto
termination
proof (relation "measure length", goal_cases)
  case (2 s t)
  then have "length (snd (takeField t)) < length t"
    using takeField_shorter [of t] trimPrefixes_stuck by (metis prod.collapse)
  also have "\<dots> \<le> length s" using 2 trimPrefixes_length by simp
  finally show ?case by simp
qed simp

declare textFields.simps [simp del]

text \<open>\<open>path.Base\<close>.\<close>

definition pathBase :: "string \<Rightarrow> string" where
  "pathBase p =
     (if p = [] then ''.''
      else let t = rev (dropWhile (\<lambda>c. c = CHR ''/'') (rev p)) in
        if t = [] then ''/''
        else case splitLast CHR ''/'' t of None \<Rightarrow> t | Some (_, base) \<Rightarrow> base)"

definition trimQuotes :: "string \<Rightarrow> string" where
  "trimQuotes s = trimBoth [[CHR 0x22]] s"

text \<open>The lines \<open>bufio.Scanner\<close> delivers: it gives up at a line that does not fit its 64 KiB buffer.\<close>

definition scanLines :: "string \<Rightarrow> string list" where
  "scanLines s = takeWhile (\<lambda>l. length l < 65536) (splitOn (CHR 0x0A) s)"

section \<open>Asset templates\<close>

datatype bump_error =
    EditError catalog_error | ErrNoAsset string string | ErrFetch string
  | ErrManifestMissing string string | ErrManifestDigest string string

definition substituteVersion :: "string \<Rightarrow> string \<Rightarrow> string" where
  "substituteVersion template version = replaceAll ''{version}'' version template"

definition substituteManifestTemplate :: "string \<Rightarrow> string \<Rightarrow> Package \<Rightarrow> string" where
  "substituteManifestTemplate template version pkg =
     replaceAll ''{name}'' (pkName pkg) (substituteVersion template version)"

definition upstreamAssetURLForArch :: "Package \<Rightarrow> string \<Rightarrow> string \<Rightarrow> (bump_error, string) res" where
  "upstreamAssetURLForArch pkg arch target =
     (case pkUpstream pkg of
        None \<Rightarrow> Inl (ErrNoAsset (pkName pkg) arch)
      | Some us \<Rightarrow>
          (case map_of (usAsset us) arch of
             None \<Rightarrow> Inl (ErrNoAsset (pkName pkg) arch)
           | Some template \<Rightarrow>
               if trimSpace template = [] then Inl (ErrNoAsset (pkName pkg) arch)
               else Inr (replaceAll ''{name}'' (pkName pkg) (substituteVersion template target))))"

section \<open>Checksum manifests\<close>

text \<open>\<open>parseGoDownloadManifest\<close> after the JSON decoder, which gives \<open>None\<close> on an error.\<close>

definition parseGoDownloadManifest ::
  "(string \<Rightarrow> (string \<times> string) list list option) \<Rightarrow> string \<Rightarrow> (string \<times> string) list" where
  "parseGoDownloadManifest releases b =
     (case releases b of
        None \<Rightarrow> []
      | Some rs \<Rightarrow> rev (filter (\<lambda>(f, d). f \<noteq> [] \<and> d \<noteq> []) (concat rs)))"

record RustScan =
  rsVersion :: string
  rsPackage :: string
  rsTarget :: string
  rsOut :: "(string \<times> string) list"

definition rustLine :: "string \<Rightarrow> RustScan \<Rightarrow> RustScan" where
  "rustLine raw st =
     (let line = trimSpace raw in
      if hasPrefix line ''version = '' \<and> rsVersion st = [] then
        (case textFields (trimQuotes (trimSpace (drop 10 line))) of
           [] \<Rightarrow> st | f # _ \<Rightarrow> st\<lparr>rsVersion := f\<rparr>)
      else if hasPrefix line ''[pkg.'' \<and> hasSuffix line '']'' then
        (let parts = splitOn CHR ''.'' (butlast (drop 5 line)) in
         st\<lparr>rsPackage := hd parts,
            rsTarget := (if 3 \<le> length parts \<and> parts ! 1 = ''target'' then parts ! 2 else [])\<rparr>)
      else if rsPackage st = [] \<or> rsTarget st = [] \<or> \<not> hasPrefix line ''hash = '' then st
      else
        let hash = trimQuotes (trimSpace (drop 7 line)) in
        if hash = [] then st
        else
          let plain = (rsPackage st @ ''-'' @ rsTarget st @ ''.tar.xz'', hash);
              full = (rsPackage st @ ''-'' @ rsVersion st @ ''-'' @ rsTarget st @ ''.tar.xz'', hash) in
          st\<lparr>rsOut := (if rsVersion st = [] then plain # rsOut st else full # plain # rsOut st)\<rparr>)"

definition parseRustChannelManifest :: "string \<Rightarrow> (string \<times> string) list" where
  "parseRustChannelManifest b =
     rsOut (fold rustLine (splitOn (CHR 0x0A) b)
       \<lparr>rsVersion = [], rsPackage = [], rsTarget = [], rsOut = []\<rparr>)"

definition checksumLine :: "string \<Rightarrow> (string \<times> string) list \<Rightarrow> (string \<times> string) list" where
  "checksumLine raw out =
     (case textFields (trimSpace raw) of
        sha # name # _ \<Rightarrow>
          (let filename = (if hasPrefix (trimSpace name) ''*'' then drop 1 (trimSpace name) else trimSpace name) in
           if trimSpace sha = [] \<or> filename = [] then out else (filename, trimSpace sha) # out)
      | _ \<Rightarrow> out)"

definition parseChecksumManifest ::
  "(string \<Rightarrow> (string \<times> string) list list option) \<Rightarrow> string \<Rightarrow> (string \<times> string) list" where
  "parseChecksumManifest releases b =
     (let jsonManifest = parseGoDownloadManifest releases b in
      if jsonManifest \<noteq> [] then jsonManifest
      else let rustManifest = parseRustChannelManifest b in
        if rustManifest \<noteq> [] then rustManifest
        else fold checksumLine (scanLines b) [])"

section \<open>Resolving digests\<close>

record bumpResolvedDigests =
  rdOrigin :: string
  rdVerificationMethod :: string

definition VerificationSignedManifest :: string where
  "VerificationSignedManifest = ''signed-manifest''"

definition VerificationSelfComputedWeak :: string where
  "VerificationSelfComputedWeak = ''self-computed-WEAK''"

text \<open>A loop over \<open>buildArches\<close> that fills a map and stops at the first error.\<close>

fun perArch :: "(string \<Rightarrow> ('e, 'a) res) \<Rightarrow> string list \<Rightarrow> ('e, (string \<times> 'a) list) res" where
  "perArch f [] = Inr []"
| "perArch f (a # as) = rbind (f a) (\<lambda>x. rbind (perArch f as) (\<lambda>rest. Inr ((a, x) # rest)))"

definition manifestDigest :: "(string \<times> string) list \<Rightarrow> Package \<Rightarrow> string \<Rightarrow> string \<Rightarrow> (bump_error, string) res" where
  "manifestDigest manifest pkg target arch =
     rbind (upstreamAssetURLForArch pkg arch target) (\<lambda>assetURL.
     case map_of manifest (pathBase assetURL) of
       None \<Rightarrow> Inl (ErrManifestMissing (pkName pkg) arch)
     | Some sha \<Rightarrow>
         if \<not> isHex64 sha \<or> sha = sha256Unresolved then Inl (ErrManifestDigest (pkName pkg) arch) else Inr sha)"

definition selfComputedDigest ::
  "(string \<Rightarrow> string option) \<Rightarrow> Package \<Rightarrow> string \<Rightarrow> string \<Rightarrow> (bump_error, string \<times> string) res" where
  "selfComputedDigest get pkg target arch =
     rbind (upstreamAssetURLForArch pkg arch target) (\<lambda>assetURL.
     case get assetURL of
       None \<Rightarrow> Inl (ErrFetch assetURL)
     | Some body \<Rightarrow> Inr (sha256Hex body, arch @ ''='' @ assetURL))"

definition resolveSignedManifestDigests ::
  "(string \<Rightarrow> (string \<times> string) list list option) \<Rightarrow> (string \<Rightarrow> string option) \<Rightarrow> Package \<Rightarrow> Upstream \<Rightarrow> string
   \<Rightarrow> (bump_error, (string \<times> string) list option \<times> bumpResolvedDigests) res" where
  "resolveSignedManifestDigests releases get pkg us target =
     (let manifestURL = substituteManifestTemplate (usManifestURL us) target pkg in
      case get manifestURL of
        None \<Rightarrow> Inl (ErrFetch manifestURL)
      | Some body \<Rightarrow>
          rbind (perArch (manifestDigest (parseChecksumManifest releases body) pkg target) buildArches) (\<lambda>sha.
          Inr (Some sha, \<lparr>rdOrigin = manifestURL, rdVerificationMethod = VerificationSignedManifest\<rparr>)))"

definition resolveSelfComputedDigests ::
  "(string \<Rightarrow> string option) \<Rightarrow> Package \<Rightarrow> string
   \<Rightarrow> (bump_error, (string \<times> string) list option \<times> bumpResolvedDigests) res" where
  "resolveSelfComputedDigests get pkg target =
     rbind (perArch (selfComputedDigest get pkg target) buildArches) (\<lambda>parts.
     Inr (Some (map (\<lambda>(a, d, _). (a, d)) parts),
       \<lparr>rdOrigin = joinWith '', '' (map (\<lambda>(_, _, origin). origin) parts),
        rdVerificationMethod = VerificationSelfComputedWeak\<rparr>))"

definition resolveBumpDigests ::
  "(string \<Rightarrow> (string \<times> string) list list option) \<Rightarrow> (string \<Rightarrow> string option) \<Rightarrow> Package \<Rightarrow> Upstream \<Rightarrow> string
   \<Rightarrow> (bump_error, (string \<times> string) list option \<times> bumpResolvedDigests) res" where
  "resolveBumpDigests releases get pkg us target =
     (if pkKind pkg \<noteq> KindBinary then
        Inr (None, \<lparr>rdOrigin = (if usURL us = [] then substituteVersion (usManifestURL us) target else usURL us),
                    rdVerificationMethod = VerificationSelfComputedWeak\<rparr>)
      else if usManifestURL us \<noteq> [] then resolveSignedManifestDigests releases get pkg us target
      else resolveSelfComputedDigests get pkg target)"

section \<open>The plan sheet and the driver\<close>

record PlanSheet =
  psPackageName :: string
  psOldVersion :: string
  psNewVersion :: string
  psMagnitude :: "magnitude option"
  psSHA256 :: "(string \<times> (string \<times> string)) list"
  psOrigin :: string
  psVerificationMethod :: string
  psChangelogURL :: string
  psCVEID :: string
  psBlastRadius :: "string list"
  psLane :: string
  psSoakRequired :: bool
  psSoakSatisfied :: bool
  psWaivedBy :: string

definition bumpMagnitude :: "Package \<Rightarrow> string \<Rightarrow> (catalog_error, magnitude) res" where
  "bumpMagnitude pkg target =
     rbind (parseOr (pkName pkg) (pkVersion pkg) (InferScheme (pkKind pkg) (pkVersion pkg))) (\<lambda>oldVersion.
     rbind (parseOr (pkName pkg) target (InferScheme (pkKind pkg) target)) (\<lambda>newVersion.
     Inr (Magnitude oldVersion newVersion)))"

definition bumpSoakRequired :: "magnitude \<Rightarrow> bool" where
  "bumpSoakRequired m \<longleftrightarrow> m = MagMajor"

text \<open>The label and the CVE identifier of a lane.\<close>

definition parseBumpLane :: "string \<Rightarrow> string \<times> string" where
  "parseBumpLane lane =
     (let trimmed = trimSpace lane in
      if trimmed = [] \<or> trimmed = ''default'' then (''default'', [])
      else case (case splitAt CHR '':'' trimmed of
                   None \<Rightarrow> (trimmed, []) | Some (l, r) \<Rightarrow> (trimSpace l, trimSpace r)) of
        (label, cve) \<Rightarrow> (if label = [] then ''default'' else label, cve))"

definition changelogURL :: "Upstream option \<Rightarrow> string" where
  "changelogURL upstream = (case upstream of None \<Rightarrow> [] | Some us \<Rightarrow> usURL us)"

definition planSheetFromDiff ::
  "Diff \<Rightarrow> bumpResolvedDigests \<Rightarrow> Upstream option \<Rightarrow> string \<times> string \<Rightarrow> bool \<Rightarrow> bool \<Rightarrow> string \<Rightarrow> PlanSheet" where
  "planSheetFromDiff diff resolved upstream lane soakRequired soakSatisfied waivedBy =
     \<lparr>psPackageName = dfPackageName diff, psOldVersion = dfOldVersion diff, psNewVersion = dfNewVersion diff,
      psMagnitude = dfMagnitude diff,
      psSHA256 = concat (map (\<lambda>a. case map_of (dfNewSHA256 diff) a of
          None \<Rightarrow> [] | Some new \<Rightarrow> [(a, shaOf (dfOldSHA256 diff) a, new)]) buildArches),
      psOrigin = rdOrigin resolved, psVerificationMethod = rdVerificationMethod resolved,
      psChangelogURL = changelogURL upstream, psCVEID = snd lane, psBlastRadius = dfReverseClosure diff,
      psLane = fst lane, psSoakRequired = soakRequired, psSoakSatisfied = soakSatisfied, psWaivedBy = waivedBy\<rparr>"

definition editRes :: "(catalog_error, 'a) res \<Rightarrow> (bump_error, 'a) res" where
  "editRes r = map_sum EditError id r"

definition Bump ::
  "(string \<Rightarrow> (string \<times> string) list list option) \<Rightarrow> (string \<Rightarrow> string option)
   \<Rightarrow> Catalog \<Rightarrow> string \<Rightarrow> string \<Rightarrow> string \<Rightarrow> (bump_error, Catalog \<times> PlanSheet) res" where
  "Bump releases get c name target lane =
     (case Lookup c name of
        None \<Rightarrow> Inl (EditError (ErrUnknownPackage name))
      | Some pkg \<Rightarrow>
          (case pkUpstream pkg of
             None \<Rightarrow> Inl (EditError (ErrNoUpstream name))
           | Some us \<Rightarrow>
               rbind (resolveBumpDigests releases get pkg us target) (\<lambda>(shaByArch, resolved).
               rbind (editRes (bumpMagnitude pkg target)) (\<lambda>magnitude.
               let soakRequired = bumpSoakRequired magnitude;
                   laneInfo = parseBumpLane lane in
               if soakRequired \<and> fst laneInfo \<noteq> ''security'' then Inl (EditError (ErrSoak target))
               else
                 rbind (editRes (BumpPackage c name target shaByArch lane)) (\<lambda>(next, diff).
                 Inr (next, planSheetFromDiff diff resolved (Some us) laneInfo soakRequired True
                        (if soakRequired then ''security'' else [])))))))"

end
