(* ===== verification/BumpLaws.thy ===== *)
theory BumpLaws
  imports BumpDriver
begin

text \<open>
  What a bump promises (\<open>internal/engine/policy/bump.go\<close>): the digests that land in the catalog are
  the ones the manifest stated or the ones computed from the fetched bytes, the plan sheet shows
  exactly what landed, and a major step never lands outside the security lane.
\<close>

lemma perArch_Inr:
  "distinct as \<Longrightarrow> perArch f as = Inr m \<longleftrightarrow> map fst m = as \<and> (\<forall>a \<in> set as. \<exists>x. f a = Inr x \<and> map_of m a = Some x)"
proof (induction as arbitrary: m)
  case (Cons a as)
  show ?case
  proof
    assume "perArch f (a # as) = Inr m"
    then obtain x rest where "f a = Inr x" "perArch f as = Inr rest" "m = (a, x) # rest" by auto
    with Cons show "map fst m = a # as \<and> (\<forall>b \<in> set (a # as). \<exists>x. f b = Inr x \<and> map_of m b = Some x)"
      by (auto simp: fun_upd_def)
  next
    assume r: "map fst m = a # as \<and> (\<forall>b \<in> set (a # as). \<exists>x. f b = Inr x \<and> map_of m b = Some x)"
    then obtain x rest where m: "m = (a, x) # rest" by (cases m) auto
    have "\<exists>y. f b = Inr y \<and> map_of rest b = Some y" if "b \<in> set as" for b
      using r that Cons.prems unfolding m by (metis distinct.simps(2) list.set_intros(2) map_of_Cons_code(2))
    with r m Cons show "perArch f (a # as) = Inr m" by auto
  qed
qed auto

lemma buildArches_distinct: "distinct buildArches"
  by (simp add: buildArches_def)

lemma editRes_Inr [simp]: "editRes r = Inr x \<longleftrightarrow> r = Inr x"
  by (cases r) (simp_all add: editRes_def)

text \<open>What the network said about one digest.\<close>

definition fetchedDigest ::
  "(string \<Rightarrow> (string \<times> string) list list option) \<Rightarrow> (string \<Rightarrow> string option) \<Rightarrow> Package \<Rightarrow> Upstream
   \<Rightarrow> string \<Rightarrow> string \<Rightarrow> string \<Rightarrow> bool" where
  "fetchedDigest releases get pkg us target a d \<longleftrightarrow>
     (\<exists>url. upstreamAssetURLForArch pkg a target = Inr url
      \<and> (if usManifestURL us \<noteq> []
         then \<exists>body. get (substituteManifestTemplate (usManifestURL us) target pkg) = Some body
              \<and> map_of (parseChecksumManifest releases body) (pathBase url) = Some d
         else \<exists>body. get url = Some body \<and> d = sha256Hex body))"

lemma resolveBumpDigests_fetched:
  assumes "resolveBumpDigests releases get pkg us target = Inr (sha, resolved)" and "pkKind pkg = KindBinary"
  shows "\<exists>m. sha = Some m \<and> (\<forall>a \<in> set buildArches. \<forall>d. map_of m a = Some d \<longrightarrow>
      fetchedDigest releases get pkg us target a d)
    \<and> (rdVerificationMethod resolved = VerificationSignedManifest \<longleftrightarrow> usManifestURL us \<noteq> [])"
proof (cases "usManifestURL us = []")
  case False
  with assms obtain body m where
    "get (substituteManifestTemplate (usManifestURL us) target pkg) = Some body" "sha = Some m"
    "perArch (manifestDigest (parseChecksumManifest releases body) pkg target) buildArches = Inr m"
    "rdVerificationMethod resolved = VerificationSignedManifest"
    by (auto simp: resolveBumpDigests_def resolveSignedManifestDigests_def Let_def split: option.splits)
  with False show ?thesis
    by (fastforce simp: perArch_Inr [OF buildArches_distinct] fetchedDigest_def manifestDigest_def
        split: option.splits if_splits)
next
  case True
  with assms obtain parts where sha: "sha = Some (map (\<lambda>(a, d, _). (a, d)) parts)"
    and parts: "perArch (selfComputedDigest get pkg target) buildArches = Inr parts"
    and v: "rdVerificationMethod resolved = VerificationSelfComputedWeak"
    by (auto simp: resolveBumpDigests_def resolveSelfComputedDigests_def)
  have "map_of (map (\<lambda>(a, d, _). (a, d)) ps) a = map_option fst (map_of ps a)" for ps :: "(string \<times> string \<times> string) list" and a
    by (induction ps) auto
  with True sha parts v show ?thesis
    by (fastforce simp: perArch_Inr [OF buildArches_distinct] fetchedDigest_def selfComputedDigest_def
        VerificationSelfComputedWeak_def VerificationSignedManifest_def split: option.splits)
qed

lemma validateBinaryBumpSHA_same:
  "validateBinaryBumpSHA name (Some m) = Inr m' \<Longrightarrow> a \<in> set buildArches \<Longrightarrow> map_of m' a = map_of m a"
  by (auto simp: validateBinaryBumpSHA_def buildArches_def split: option.splits if_splits)

text \<open>What the edit records in its diff.\<close>

lemma BumpPackage_diff:
  assumes "BumpPackage c name version sha lane = Inr (c', d)" and pkg: "Lookup c name = Some pkg" and w: "wellNamed c"
  obtains pkg' a b where "Lookup c' name = Some pkg'" "newer pkg pkg'" "pkVersion pkg' = version"
    "dfOldVersion d = pkVersion pkg" "dfNewVersion d = version" "dfOldSHA256 d = pkSHA256 pkg"
    "parsedAs pkg = Some a" "parsedAs pkg' = Some b" "dfMagnitude d = Some (Magnitude a b)"
    "if pkKind pkg = KindBinary
       then validateBinaryBumpSHA name sha = Inr (pkSHA256 pkg') \<and> dfNewSHA256 d = pkSHA256 pkg'
       else pkSHA256 pkg' = pkSHA256 pkg \<and> dfNewSHA256 d = []"
    "ValidateCatalog c' = Inr ()" "ParseVersion version (InferScheme (pkKind pkg) version) = Some b"
  using assms(1)
proof (cases rule: BumpPackage_Inr)
  case (1 p a b x m)
  let ?f = "\<lambda>q. let p' = q\<lparr>pkVersion := version\<rparr> in if pkKind p = KindBinary then p'\<lparr>pkSHA256 := m\<rparr> else p'"
  have p: "p = pkg" using 1(1) pkg by simp
  have land: "Lookup c' name = Some (?f pkg)"
    using rewritten_Lookup [OF w 1(10,9) _ pkg] by (simp add: Let_def)
  have "newer pkg (?f pkg)" "parsedAs (?f pkg) = Some b"
    using 1 validateBinaryBumpSHA_pinned [of name sha m "pkg\<lparr>pkVersion := version\<rparr>"]
    by (auto simp: newer_def parsedAs_def Let_def p)
  from that [OF land this(1) _ _ _ _ _ this(2)] 1 show ?thesis by (auto simp: p Let_def)
qed

section \<open>The driver\<close>


section \<open>Witness\<close>

text \<open>A major step of an npm package through the security lane.\<close>

definition sourcedTool :: Package where
  "sourcedTool = (toolPackage ''tool'' [] [] [])\<lparr>pkKind := KindNpm, pkVersion := ''1.9'',
     pkUpstream := Some \<lparr>usKind = ''npm-registry'', usURL = ''h/tool'', usAsset = [], usManifestURL = []\<rparr>\<rparr>"

definition sourcedSheet :: PlanSheet where
  "sourcedSheet =
     \<lparr>psPackageName = ''tool'', psOldVersion = ''1.9'', psNewVersion = ''2.0'', psMagnitude = Some MagMajor,
      psSHA256 = [], psOrigin = ''h/tool'', psVerificationMethod = VerificationSelfComputedWeak,
      psChangelogURL = ''h/tool'', psCVEID = ''CVE-1'', psBlastRadius = [],
      psLane = ''security'', psSoakRequired = True, psSoakSatisfied = True, psWaivedBy = ''security''\<rparr>"

lemma sourcedTool_valid: "ValidateCatalog (oneTool sourcedTool) = Inr ()"
  by code_simp

lemma sourcedTool_bumps:
  "map_sum id snd (Bump (\<lambda>_. None) (\<lambda>_. None) (oneTool sourcedTool) ''tool'' ''2.0'' ''security: CVE-1'')
     = Inr sourcedSheet"
  by code_simp


end
