(* ===== verification/EgressDriver.thy ===== *)
theory EgressDriver
  imports LifecycleLaws
begin

text \<open>
  The egress protocol driver of \<open>internal/cli\<close> (\<open>session_protocol.go\<close> and the egress handlers of
  \<open>session.go\<close>): the code that grants, revokes and dismisses destinations of a live session. It
  holds the record lock, drives the protocol adapter, commits records through the transaction and
  orders the commits against the effects on the network boundary. Those effects are the function
  fields of the Go struct \<open>dependencies\<close>; they are the record \<open>egress_deps\<close> of parameters over a
  boundary state of type \<open>'h\<close>. Every effect and every commit leaves the pair of the store and the
  boundary in a log, so a property can speak about every intermediate state.
\<close>

section \<open>Dependencies and the driver state\<close>

datatype drive_error =
    SessionErr session_error
  | ErrEgressAuthorityUncertain
  | ErrEgressGenerationUncertain
  | ErrSessionIsStopped
  | ErrDriveInvalid string
  | ErrEgressEngine string

type_synonym SessionGrant = Destination

record ('h, 'app) egress_deps =
  edNow :: time
  edBegin :: "Session \<Rightarrow> SessionGrant list \<Rightarrow> 'h \<Rightarrow> (drive_error, 'app) res \<times> 'h"
  edInspectApplied :: "'app \<Rightarrow> 'h \<Rightarrow> (drive_error, Generation) res \<times> 'h"
  edApply :: "Session \<Rightarrow> SessionGrant list \<Rightarrow> 'h \<Rightarrow> (drive_error, unit) res \<times> 'h"
  edInspect :: "Session \<Rightarrow> 'h \<Rightarrow> (drive_error, Generation) res \<times> 'h"
  edTeardown :: "Session \<Rightarrow> 'h \<Rightarrow> (drive_error, unit) res \<times> 'h"

text \<open>\<open>dvTx\<close> is the transaction's current session, \<open>tx.Session()\<close>.\<close>

record 'h drive =
  dvWorld :: world
  dvTx :: Session
  dvNet :: 'h
  dvLog :: "(world \<times> 'h) list"

type_synonym ('h, 'a) driven = "'h drive \<Rightarrow> 'a \<times> 'h drive"

definition retD :: "'a \<Rightarrow> ('h, 'a) driven" where
  "retD x st = (x, st)"

definition bindD :: "('h, 'a) driven \<Rightarrow> ('a \<Rightarrow> ('h, 'b) driven) \<Rightarrow> ('h, 'b) driven" where
  "bindD m f st = (case m st of (x, st') \<Rightarrow> f x st')"

definition txSession :: "('h, Session) driven" where
  "txSession st = (dvTx st, st)"

definition logged :: "'h drive \<Rightarrow> 'h drive" where
  "logged st = st\<lparr>dvLog := dvLog st @ [(dvWorld st, dvNet st)]\<rparr>"

definition txCommit :: "Session \<Rightarrow> ('h, (session_error, unit) res) driven" where
  "txCommit candidate st =
     (case Commit (dvTx st) candidate (dvWorld st) of
        (Inl e, w) \<Rightarrow> (Inl e, logged (st\<lparr>dvWorld := w\<rparr>))
      | (Inr s, w) \<Rightarrow> (Inr (), logged (st\<lparr>dvWorld := w, dvTx := s\<rparr>)))"

definition onNet :: "('h \<Rightarrow> 'a \<times> 'h) \<Rightarrow> ('h, 'a) driven" where
  "onNet f st = (case f (dvNet st) of (x, h) \<Rightarrow> (x, logged (st\<lparr>dvNet := h\<rparr>)))"

lemmas drive_defs = retD_def bindD_def txSession_def txCommit_def onNet_def

section \<open>What a record asks the proxy to allow\<close>

fun addViews :: "string list \<Rightarrow> SessionGrant list \<Rightarrow> SessionGrant list \<Rightarrow> SessionGrant list" where
  "addViews seen out [] = out"
| "addViews seen out (d # ds) =
     (let key = egressKey (destHost d) (destPort d) in
      if key \<in> set seen then addViews seen out ds else addViews (key # seen) (out @ [d]) ds)"

definition sessionEgressViews :: "Session \<Rightarrow> SessionGrant list" where
  "sessionEgressViews s =
     addViews [] [] (map ruleDestination (sePersistentEgress s) @ map grantDestination (seEgressGrants s))"

definition sessionGeneration :: "Session \<Rightarrow> (build_error, Generation) res" where
  "sessionGeneration s = rbind (Build (sessionEgressViews s) (seGrantRevision s)) (\<lambda>(g, _). Inr g)"

definition hasEgressUncertaintyFailure :: "Session \<Rightarrow> bool" where
  "hasEgressUncertaintyFailure s \<longleftrightarrow>
     (case seLastFailure s of
        None \<Rightarrow> False
      | Some f \<Rightarrow> flPhase f = ''network'' \<and> flCode f = ''network_authority_uncertain'')"

section \<open>Failing closed\<close>

fun commitAttempts ::
  "nat \<Rightarrow> (session_error, unit) res \<Rightarrow> Session \<Rightarrow> ('h, (session_error, unit) res) driven" where
  "commitAttempts 0 err candidate = retD err"
| "commitAttempts (Suc k) err candidate =
     bindD (txCommit candidate) (\<lambda>r. case r of
       Inr _ \<Rightarrow> retD (Inr ()) | Inl e \<Rightarrow> commitAttempts k (Inl e) candidate)"

definition egressFailureCommitAttempts :: nat where
  "egressFailureCommitAttempts = 2"

definition commitEgressFailureState :: "Session \<Rightarrow> ('h, (session_error, unit) res) driven" where
  "commitEgressFailureState candidate = commitAttempts egressFailureCommitAttempts (Inr ()) candidate"

definition uncertainD :: "('h, (drive_error, unit) res) driven" where
  "uncertainD = retD (Inl ErrEgressAuthorityUncertain)"

definition failClosedEgressWithUpperBound ::
  "('h, 'app) egress_deps \<Rightarrow> Session option \<Rightarrow> Session option \<Rightarrow> ('h, (drive_error, unit) res) driven" where
  "failClosedEgressWithUpperBound d restore upperBound =
     bindD txSession (\<lambda>tx.
     let current = (case upperBound of None \<Rightarrow> tx | Some u \<Rightarrow> u) in
     case BlockedTeardownState (fst (NewProtocolAdapter current)) of
       Inl _ \<Rightarrow> uncertainD
     | Inr (adapter, start) \<Rightarrow>
         (case ReduceProtocol start (plainEvent ProtocolRequestTeardown) of (state, ok) \<Rightarrow>
          if \<not> ok \<or> psEffect state \<noteq> ProtocolTeardownEffect then uncertainD
          else bindD (onNet (edTeardown d current)) (\<lambda>r. case r of
            Inl _ \<Rightarrow>
              (case ReduceProtocol state (outcomeEvent ProtocolTeardownAction ProtocolTeardownUnknown ProtocolNoTruth)
               of (unknown, ok) \<Rightarrow>
                 if \<not> ok then uncertainD
                 else case TeardownUnknownCandidate unknown (edNow d) adapter of
                   Inl _ \<Rightarrow> uncertainD
                 | Inr blocked \<Rightarrow> bindD (commitEgressFailureState blocked) (\<lambda>_. uncertainD))
          | Inr _ \<Rightarrow>
              (case ReduceProtocol state (outcomeEvent ProtocolTeardownAction ProtocolTeardownProven ProtocolNoTruth)
               of (terminal, ok) \<Rightarrow>
                 if \<not> ok then uncertainD
                 else case TeardownProvenCandidate terminal restore (edNow d) adapter of
                   Inl _ \<Rightarrow> uncertainD
                 | Inr stopped \<Rightarrow> bindD (commitEgressFailureState stopped) (\<lambda>_. uncertainD)))))"

definition failClosedEgressWithDeps ::
  "('h, 'app) egress_deps \<Rightarrow> Session option \<Rightarrow> ('h, (drive_error, unit) res) driven" where
  "failClosedEgressWithDeps d restore = failClosedEgressWithUpperBound d restore None"

text \<open>A known-old or unclassified commit: what the \<open>switch\<close> on a commit error distinguishes.\<close>

definition protocolUnknownCommitBlocked :: "ProtocolState \<Rightarrow> protocol_action \<Rightarrow> bool" where
  "protocolUnknownCommitBlocked state action \<longleftrightarrow>
     (case ReduceProtocolUnknownCommit state action of (oldWorld, newWorld, ok) \<Rightarrow>
        ok \<and> oldWorld \<noteq> newWorld
      \<and> psHealth oldWorld = ProtocolUncertain \<and> psMode oldWorld = ProtocolBlocked
      \<and> psHealth newWorld = ProtocolUncertain \<and> psMode newWorld = ProtocolBlocked)"

definition grantEvent :: "protocol_action \<Rightarrow> protocol_grant \<Rightarrow> ProtocolEvent" where
  "grantEvent action grant =
     \<lparr>evAction = action, evOutcome = ProtocolNoOutcome, evGrant = grant, evTruth = ProtocolNoTruth\<rparr>"

definition protocolStateDurableGeneration :: "ProtocolState \<Rightarrow> ProtocolGeneration" where
  "protocolStateDurableGeneration s =
     \<lparr>genAuthority = psDurableAuthority s, genRevision = psDurableRevision s, genValid = True\<rparr>"

definition protocolStatePendingGeneration :: "ProtocolState \<Rightarrow> ProtocolGeneration" where
  "protocolStatePendingGeneration s =
     \<lparr>genAuthority = psPendingAuthority s, genRevision = psPendingRevision s, genValid = True\<rparr>"

definition emptySymbol :: "int \<Rightarrow> ProtocolGeneration" where
  "emptySymbol revision = \<lparr>genAuthority = 0, genRevision = revision, genValid = True\<rparr>"

definition grantSymbol :: "int \<Rightarrow> ProtocolGeneration" where
  "grantSymbol revision = \<lparr>genAuthority = ProtocolGrantA, genRevision = revision, genValid = True\<rparr>"

section \<open>Widening a running session\<close>

text \<open>From the positive inspection on: the final record and the classification of its commit.\<close>

definition widenFinal ::
  "('h, 'app) egress_deps \<Rightarrow> Session \<Rightarrow> ProtocolAdapter \<Rightarrow> ProtocolState \<Rightarrow> ('h, (drive_error, unit) res) driven" where
  "widenFinal d current adapter state =
     bindD txSession (\<lambda>tx.
     case EffectCandidateFrom state tx adapter of
       Inl _ \<Rightarrow> failClosedEgressWithDeps d (Some current)
     | Inr final \<Rightarrow>
         bindD (txCommit final) (\<lambda>r. case r of
           Inr _ \<Rightarrow>
             (case ReduceProtocol state (outcomeEvent ProtocolWidenFinalCommit ProtocolKnownNew ProtocolNoTruth)
              of (done', ok) \<Rightarrow>
                if \<not> ok \<or> psEffect done' \<noteq> ProtocolNoEffect \<or> psResult done' \<noteq> ProtocolSuccess
                then failClosedEgressWithDeps d (Some current)
                else retD (Inr ()))
         | Inl e \<Rightarrow>
             if e = ErrCommitUncertain
             then (if \<not> protocolUnknownCommitBlocked state ProtocolWidenFinalCommit
                   then retD (Inl (ErrDriveInvalid ''session protocol widen final uncertain commit is invalid''))
                   else failClosedEgressWithDeps d (Some current))
             else (case ReduceProtocol state (outcomeEvent ProtocolWidenFinalCommit ProtocolKnownOld ProtocolNoTruth)
                   of (knownOld, reduced) \<Rightarrow>
                     if \<not> reduced \<or> psHealth knownOld \<noteq> ProtocolUncertain \<or> psMode knownOld \<noteq> ProtocolBlocked
                     then retD (Inl (ErrDriveInvalid ''session protocol widen final known-old commit is invalid''))
                     else failClosedEgressWithDeps d (Some current))))"

text \<open>From the durable commit on: apply, inspect, and the final commit.\<close>

definition widenApply ::
  "('h, 'app) egress_deps \<Rightarrow> Session \<Rightarrow> Session \<Rightarrow> ProtocolAdapter \<Rightarrow> ProtocolState
   \<Rightarrow> ('h, (drive_error, unit) res) driven" where
  "widenApply d current nextS adapter state =
     bindD (onNet (edBegin d nextS (sessionEgressViews nextS))) (\<lambda>r. case r of
       Inl _ \<Rightarrow> failClosedEgressWithDeps d (Some current)
     | Inr application \<Rightarrow>
         (case ReduceProtocol state (outcomeEvent ProtocolApplyAction ProtocolSucceeded ProtocolNoTruth)
          of (applied, ok) \<Rightarrow>
            if \<not> ok \<or> psEffect applied \<noteq> ProtocolInspect
            then failClosedEgressWithDeps d (Some current)
            else bindD (onNet (edInspectApplied d application)) (\<lambda>r. case r of
              Inl _ \<Rightarrow> failClosedEgressWithDeps d (Some current)
            | Inr inspected \<Rightarrow>
                if \<not> GenerationEqual (grantSymbol 1) inspected adapter
                then failClosedEgressWithDeps d (Some current)
                else (case ReduceProtocol applied
                             (outcomeEvent ProtocolInspectAction ProtocolMatched ProtocolNoTruth)
                      of (matched, ok) \<Rightarrow>
                        if \<not> ok \<or> psEffect matched \<noteq> ProtocolCommit
                        then failClosedEgressWithDeps d (Some current)
                        else widenFinal d current adapter matched))))"

text \<open>The durable commit of the wider record comes before any effect on the boundary.\<close>

definition widenPending ::
  "('h, 'app) egress_deps \<Rightarrow> Session \<Rightarrow> Session \<Rightarrow> ProtocolAdapter \<Rightarrow> ProtocolState \<Rightarrow> Session
   \<Rightarrow> ('h, (drive_error, unit) res) driven" where
  "widenPending d current nextS adapter state pending =
     bindD (txCommit pending) (\<lambda>r. case r of
       Inr _ \<Rightarrow>
         (case ReduceProtocol state (outcomeEvent ProtocolWidenCommit ProtocolKnownNew ProtocolNoTruth)
          of (committed, ok) \<Rightarrow>
            if \<not> ok \<or> psEffect committed \<noteq> ProtocolApply
            then retD (Inl (ErrDriveInvalid ''session protocol widen durable commit is invalid''))
            else widenApply d current nextS adapter committed)
     | Inl e \<Rightarrow>
         if e = ErrCommitUncertain
         then (if \<not> protocolUnknownCommitBlocked state ProtocolWidenCommit
               then retD (Inl (ErrDriveInvalid ''session protocol widen uncertain commit is invalid''))
               else failClosedEgressWithUpperBound d (Some current) (Some pending))
         else if \<not> snd (ReduceProtocol state
                        (outcomeEvent ProtocolWidenCommit ProtocolKnownOld ProtocolNoTruth))
         then retD (Inl (ErrDriveInvalid ''session protocol widen known-old commit is invalid''))
         else retD (Inl (SessionErr e)))"

definition runRunningSessionWidenProtocol ::
  "('h, 'app) egress_deps \<Rightarrow> Session \<Rightarrow> Session \<Rightarrow> ('h, (drive_error, unit) res) driven" where
  "runRunningSessionWidenProtocol d current nextS =
     (case RebaseGeneration (emptySymbol 0) (fst (NewProtocolAdapter current)) of
        Inl e \<Rightarrow> retD (Inl (SessionErr e))
      | Inr (adapter, base) \<Rightarrow>
     (case BindGeneration (grantSymbol 1) nextS adapter of
        Inl e \<Rightarrow> retD (Inl (SessionErr e))
      | Inr adapter \<Rightarrow>
     (case ReduceProtocol base (grantEvent ProtocolWidenStart ProtocolGrantA) of (state, ok) \<Rightarrow>
        if \<not> ok \<or> psEffect state \<noteq> ProtocolCommit
        then retD (Inl (ErrDriveInvalid ''session protocol widen start is invalid''))
        else case EffectCandidate state adapter of
          Inl e \<Rightarrow> retD (Inl (SessionErr e))
        | Inr candidate \<Rightarrow>
            widenPending d current nextS adapter state
              (candidate\<lparr>seUpdatedAt := seUpdatedAt nextS\<rparr>))))"

section \<open>Recovery\<close>

text \<open>\<open>candidate, err := adapter.CandidateFrom(...); if err != nil || tx.Commit(candidate) != nil\<close>.\<close>

definition commitOrFailClosed ::
  "('h, 'app) egress_deps \<Rightarrow> ProtocolState \<Rightarrow> ProtocolAdapter \<Rightarrow> ('h, (drive_error, unit) res) driven" where
  "commitOrFailClosed d state adapter =
     bindD txSession (\<lambda>tx.
     case CandidateFrom state tx adapter of
       Inl _ \<Rightarrow> failClosedEgressWithDeps d None
     | Inr candidate \<Rightarrow>
         bindD (txCommit candidate) (\<lambda>r. case r of
           Inl _ \<Rightarrow> failClosedEgressWithDeps d None
         | Inr _ \<Rightarrow> retD (Inr ())))"

definition recoverStableEgressGeneration ::
  "('h, 'app) egress_deps \<Rightarrow> ProtocolAdapter \<Rightarrow> Session \<Rightarrow> ('h, (drive_error, unit) res) driven" where
  "recoverStableEgressGeneration d adapter s =
     (case RebaseVerifiedGeneration (emptySymbol 0) adapter of
        Inl _ \<Rightarrow> failClosedEgressWithDeps d None
      | Inr (adapter, verified) \<Rightarrow>
          bindD (onNet (edBegin d s (sessionEgressViews s))) (\<lambda>r. case r of
            Inl _ \<Rightarrow> failClosedEgressWithDeps d None
          | Inr application \<Rightarrow>
              bindD (onNet (edInspectApplied d application)) (\<lambda>r. case r of
                Inl _ \<Rightarrow> failClosedEgressWithDeps d None
              | Inr inspected \<Rightarrow>
                  if \<not> GenerationEqual (emptySymbol 0) inspected adapter
                  then failClosedEgressWithDeps d None
                  else commitOrFailClosed d verified adapter)))"

definition commitRecoveredEgressState ::
  "('h, 'app) egress_deps \<Rightarrow> ProtocolAdapter \<Rightarrow> ProtocolState \<Rightarrow> ('h, (drive_error, unit) res) driven" where
  "commitRecoveredEgressState d adapter recovery =
     (case ReduceProtocol recovery (plainEvent ProtocolRecoverEgress) of (healed, ok) \<Rightarrow>
        if \<not> ok \<or> psEffect healed \<noteq> ProtocolNoEffect then failClosedEgressWithDeps d None
        else commitOrFailClosed d healed adapter)"

definition applyDurableRecoveryGeneration ::
  "('h, 'app) egress_deps \<Rightarrow> ProtocolAdapter \<Rightarrow> ProtocolState \<Rightarrow> ('h, (drive_error, unit) res) driven" where
  "applyDurableRecoveryGeneration d adapter recovery =
     (case GenerationCandidate (protocolStateDurableGeneration recovery) adapter of
        Inl _ \<Rightarrow> failClosedEgressWithDeps d None
      | Inr durable \<Rightarrow>
          bindD (onNet (edApply d durable (sessionEgressViews durable))) (\<lambda>r. case r of
            Inl _ \<Rightarrow> failClosedEgressWithDeps d None
          | Inr _ \<Rightarrow> commitRecoveredEgressState d adapter recovery))"

definition commitRecoveredNarrowCandidate ::
  "('h, 'app) egress_deps \<Rightarrow> ProtocolAdapter \<Rightarrow> ProtocolState \<Rightarrow> ('h, (drive_error, unit) res) driven" where
  "commitRecoveredNarrowCandidate d adapter active =
     (case ReduceProtocol active (outcomeEvent ProtocolApplyAction ProtocolSucceeded ProtocolNoTruth)
      of (applied, ok) \<Rightarrow>
        if \<not> ok then failClosedEgressWithDeps d None
        else (case ReduceProtocol applied (outcomeEvent ProtocolInspectAction ProtocolMatched ProtocolNoTruth)
              of (state, ok) \<Rightarrow>
          if \<not> ok \<or> psEffect state \<noteq> ProtocolCommit then failClosedEgressWithDeps d None
          else bindD txSession (\<lambda>tx.
            case EffectCandidateFrom state tx adapter of
              Inl _ \<Rightarrow> failClosedEgressWithDeps d None
            | Inr candidate \<Rightarrow>
                bindD (txCommit candidate) (\<lambda>r. case r of
                  Inr _ \<Rightarrow>
                    if \<not> snd (ReduceProtocol state
                           (outcomeEvent ProtocolNarrowFinalCommit ProtocolKnownNew ProtocolNoTruth))
                    then failClosedEgressWithDeps d None else retD (Inr ())
                | Inl e \<Rightarrow>
                    if e = ErrCommitUncertain
                    then (if \<not> protocolUnknownCommitBlocked state ProtocolNarrowFinalCommit
                          then retD (Inl (ErrDriveInvalid
                                 ''session protocol recovered narrow uncertain commit is invalid''))
                          else failClosedEgressWithDeps d None)
                    else (if \<not> snd (ReduceProtocol state
                                 (outcomeEvent ProtocolNarrowFinalCommit ProtocolKnownOld ProtocolNoTruth))
                          then retD (Inl (ErrDriveInvalid
                                 ''session protocol recovered narrow known-old commit is invalid''))
                          else failClosedEgressWithDeps d None)))))"

text \<open>The part of recovery for a record without a persisted marker, and the part for one with.\<close>

definition recoverStableRecord ::
  "('h, 'app) egress_deps \<Rightarrow> ProtocolAdapter \<Rightarrow> Session \<Rightarrow> Generation \<Rightarrow> ('h, (drive_error, unit) res) driven" where
  "recoverStableRecord d adapter s durable =
     (if seAppliedEgressRevision s = generationRevision durable \<and> seAppliedEgressHash s = generationHash durable
      then bindD (onNet (edInspect d s)) (\<lambda>r.
        if r = Inr durable then retD (Inr ()) else recoverStableEgressGeneration d adapter s)
      else recoverStableEgressGeneration d adapter s)"

definition recoverMarkedRecord ::
  "('h, 'app) egress_deps \<Rightarrow> ProtocolAdapter \<Rightarrow> Session \<Rightarrow> ('h, (drive_error, unit) res) driven" where
  "recoverMarkedRecord d adapter s =
     (case EgressTransitionStates adapter of
        Inl _ \<Rightarrow> failClosedEgressWithDeps d None
      | Inr (adapter, active, recovery) \<Rightarrow>
          let durableSymbol = protocolStateDurableGeneration active in
          bindD (onNet (edInspect d s)) (\<lambda>r.
          let matches = (\<lambda>symbol. case r of Inl _ \<Rightarrow> False | Inr g \<Rightarrow> GenerationEqual symbol g adapter) in
          case psDirection active of
            ProtocolWidenDirection \<Rightarrow>
              if matches durableSymbol then commitRecoveredEgressState d adapter recovery
              else applyDurableRecoveryGeneration d adapter recovery
          | ProtocolNarrowDirection \<Rightarrow>
              if matches (protocolStatePendingGeneration active)
              then commitRecoveredNarrowCandidate d adapter active
              else if matches durableSymbol then commitRecoveredEgressState d adapter recovery
              else applyDurableRecoveryGeneration d adapter recovery
          | _ \<Rightarrow> failClosedEgressWithDeps d None))"

definition recoverRunningSessionEgressProtocol ::
  "('h, 'app) egress_deps \<Rightarrow> ('h, (drive_error, unit) res) driven" where
  "recoverRunningSessionEgressProtocol d =
     bindD txSession (\<lambda>s.
     if seStatus s \<noteq> StatusRunning then retD (Inr ())
     else if hasEgressUncertaintyFailure s then failClosedEgressWithDeps d None
     else case sessionGeneration s of
       Inl _ \<Rightarrow> failClosedEgressWithDeps d None
     | Inr durable \<Rightarrow>
         let adapter = fst (NewProtocolAdapter s) in
         if seEgressTransition s = None then recoverStableRecord d adapter s durable
         else recoverMarkedRecord d adapter s)"

section \<open>Narrowing a running session\<close>

definition restoreNarrowAfterApplyFailure ::
  "('h, 'app) egress_deps \<Rightarrow> ProtocolAdapter \<Rightarrow> ProtocolState \<Rightarrow> Session \<Rightarrow> drive_error
   \<Rightarrow> ('h, (drive_error, unit) res) driven" where
  "restoreNarrowAfterApplyFailure d adapter baseState current applyErr =
     bindD (onNet (edApply d current (sessionEgressViews current))) (\<lambda>r. case r of
       Inl _ \<Rightarrow> failClosedEgressWithDeps d (Some current)
     | Inr _ \<Rightarrow>
         bindD txSession (\<lambda>tx.
         case CandidateFrom baseState tx adapter of
           Inl _ \<Rightarrow> failClosedEgressWithDeps d (Some current)
         | Inr restored \<Rightarrow>
             bindD (txCommit restored) (\<lambda>r.
             if r = Inl ErrCommitUncertain then failClosedEgressWithDeps d (Some current)
             else retD (Inl applyErr))))"

text \<open>The final commit left the old record: the wider runtime is restored before its marker goes.\<close>

definition restoreNarrowAfterKnownOld ::
  "('h, 'app) egress_deps \<Rightarrow> ProtocolAdapter \<Rightarrow> ProtocolState \<Rightarrow> Session \<Rightarrow> session_error
   \<Rightarrow> ('h, (drive_error, unit) res) driven" where
  "restoreNarrowAfterKnownOld d adapter knownOld current commitErr =
     bindD (onNet (edApply d current (sessionEgressViews current))) (\<lambda>r. case r of
       Inl _ \<Rightarrow> failClosedEgressWithDeps d (Some current)
     | Inr _ \<Rightarrow>
         bindD txSession (\<lambda>tx.
         case CandidateFrom knownOld tx adapter of
           Inl _ \<Rightarrow> failClosedEgressWithDeps d (Some current)
         | Inr restored \<Rightarrow> bindD (txCommit restored) (\<lambda>_. retD (Inl (SessionErr commitErr)))))"

definition narrowFinal ::
  "('h, 'app) egress_deps \<Rightarrow> Session \<Rightarrow> ProtocolAdapter \<Rightarrow> ProtocolState \<Rightarrow> ('h, (drive_error, unit) res) driven" where
  "narrowFinal d current adapter state =
     bindD txSession (\<lambda>tx.
     case EffectCandidateFrom state tx adapter of
       Inl _ \<Rightarrow> failClosedEgressWithDeps d (Some current)
     | Inr final \<Rightarrow>
         bindD (txCommit final) (\<lambda>r. case r of
           Inr _ \<Rightarrow>
             (case ReduceProtocol state (outcomeEvent ProtocolNarrowFinalCommit ProtocolKnownNew ProtocolNoTruth)
              of (done', ok) \<Rightarrow>
                if \<not> ok \<or> psEffect done' \<noteq> ProtocolNoEffect \<or> psResult done' \<noteq> ProtocolSuccess
                then failClosedEgressWithDeps d (Some current)
                else retD (Inr ()))
         | Inl e \<Rightarrow>
             if e = ErrCommitUncertain
             then (if \<not> protocolUnknownCommitBlocked state ProtocolNarrowFinalCommit
                   then retD (Inl (ErrDriveInvalid ''session protocol narrow final uncertain commit is invalid''))
                   else failClosedEgressWithDeps d None)
             else (case ReduceProtocol state (outcomeEvent ProtocolNarrowFinalCommit ProtocolKnownOld ProtocolNoTruth)
                   of (knownOld, reduced) \<Rightarrow>
                     if \<not> reduced \<or> psResult knownOld \<noteq> ProtocolFailure
                     then retD (Inl (ErrDriveInvalid ''session protocol narrow final known-old commit is invalid''))
                     else restoreNarrowAfterKnownOld d adapter knownOld current e)))"

definition narrowApply ::
  "('h, 'app) egress_deps \<Rightarrow> Session \<Rightarrow> Session \<Rightarrow> ProtocolAdapter \<Rightarrow> ProtocolState \<Rightarrow> ProtocolState
   \<Rightarrow> ('h, (drive_error, unit) res) driven" where
  "narrowApply d current nextS adapter baseState state =
     bindD (onNet (edBegin d nextS (sessionEgressViews nextS))) (\<lambda>r. case r of
       Inl e \<Rightarrow> restoreNarrowAfterApplyFailure d adapter baseState current e
     | Inr application \<Rightarrow>
         (case ReduceProtocol state (outcomeEvent ProtocolApplyAction ProtocolSucceeded ProtocolNoTruth)
          of (applied, ok) \<Rightarrow>
            if \<not> ok \<or> psEffect applied \<noteq> ProtocolInspect
            then failClosedEgressWithDeps d (Some current)
            else bindD (onNet (edInspectApplied d application)) (\<lambda>r. case r of
              Inl e \<Rightarrow> restoreNarrowAfterApplyFailure d adapter baseState current e
            | Inr inspected \<Rightarrow>
                if \<not> GenerationEqual (emptySymbol 1) inspected adapter
                then restoreNarrowAfterApplyFailure d adapter baseState current ErrEgressGenerationUncertain
                else (case ReduceProtocol applied
                             (outcomeEvent ProtocolInspectAction ProtocolMatched ProtocolNoTruth)
                      of (matched, ok) \<Rightarrow>
                        if \<not> ok \<or> psEffect matched \<noteq> ProtocolCommit
                        then failClosedEgressWithDeps d (Some current)
                        else narrowFinal d current adapter matched))))"

text \<open>The intent record has the old authority and the marker of the narrower one.\<close>

definition narrowIntent ::
  "('h, 'app) egress_deps \<Rightarrow> Session \<Rightarrow> Session \<Rightarrow> ProtocolAdapter \<Rightarrow> ProtocolState \<Rightarrow> ProtocolState \<Rightarrow> Session
   \<Rightarrow> ('h, (drive_error, unit) res) driven" where
  "narrowIntent d current nextS adapter baseState state intent =
     bindD (txCommit intent) (\<lambda>r. case r of
       Inr _ \<Rightarrow> narrowApply d current nextS adapter baseState state
     | Inl e \<Rightarrow>
         if e = ErrCommitUncertain
         then failClosedEgressWithUpperBound d (Some current) (Some intent)
         else retD (Inl (SessionErr e)))"

definition runRunningSessionNarrowProtocol ::
  "('h, 'app) egress_deps \<Rightarrow> Session \<Rightarrow> Session \<Rightarrow> ('h, (drive_error, unit) res) driven" where
  "runRunningSessionNarrowProtocol d current nextS =
     (case RebaseGeneration (grantSymbol 0) (fst (NewProtocolAdapter current)) of
        Inl e \<Rightarrow> retD (Inl (SessionErr e))
      | Inr (adapter, baseState) \<Rightarrow>
     (case BindGeneration (emptySymbol 1) nextS adapter of
        Inl e \<Rightarrow> retD (Inl (SessionErr e))
      | Inr adapter \<Rightarrow>
     (case ReduceProtocol baseState (grantEvent ProtocolNarrowStart ProtocolGrantA) of (state, ok) \<Rightarrow>
        if \<not> ok \<or> psEffect state \<noteq> ProtocolApply
        then retD (Inl (ErrDriveInvalid ''session protocol narrow start is invalid''))
        else case Candidate state adapter of
          Inl e \<Rightarrow> retD (Inl (SessionErr e))
        | Inr intent \<Rightarrow>
            narrowIntent d current nextS adapter baseState state intent)))"

section \<open>The handlers\<close>

text \<open>
  \<open>store.WithLocked\<close> around a driver body: the result, what the boundary became, and the log.
  An error of the lock or of the read ends the call before the body.
\<close>

record 'h drive_end =
  deWorld :: world
  deNet :: 'h
  deLog :: "(world \<times> 'h) list"

definition lockedBody ::
  "('h, (drive_error, 'a) res) driven \<Rightarrow> 'h \<Rightarrow> Session \<Rightarrow> ((drive_error, 'a) res \<times> 'h drive) io" where
  "lockedBody fn h s w =
     (case fn \<lparr>dvWorld = w, dvTx = s, dvNet = h, dvLog = []\<rparr> of (r, st) \<Rightarrow> (Inr (r, st), dvWorld st))"

definition driveLocked ::
  "string \<Rightarrow> ('h, (drive_error, 'a) res) driven \<Rightarrow> 'h \<Rightarrow> world
   \<Rightarrow> (drive_error, Session \<times> 'a) res \<times> 'h drive_end" where
  "driveLocked i fn h w =
     (case withRecordLock i (bindIO (getUnlocked i) (lockedBody fn h)) w of
        (Inl e, w') \<Rightarrow> (Inl (SessionErr e), \<lparr>deWorld = w', deNet = h, deLog = []\<rparr>)
      | (Inr (r, st), w') \<Rightarrow>
          (rbind r (\<lambda>x. Inr (dvTx st, x)), \<lparr>deWorld = w', deNet = dvNet st, deLog = dvLog st\<rparr>))"

text \<open>The shared opening of the three handlers.\<close>

definition recoverThen ::
  "('h, 'app) egress_deps \<Rightarrow> (Session \<Rightarrow> ('h, (drive_error, 'a) res) driven)
   \<Rightarrow> ('h, (drive_error, 'a) res) driven" where
  "recoverThen d body =
     bindD txSession (\<lambda>s.
     if seStatus s = StatusStopped then retD (Inl ErrSessionIsStopped)
     else bindD (recoverRunningSessionEgressProtocol d) (\<lambda>r. case r of
       Inl e \<Rightarrow> retD (Inl e)
     | Inr _ \<Rightarrow> bindD txSession body))"

definition andReturn :: "('h, (drive_error, unit) res) driven \<Rightarrow> 'a \<Rightarrow> ('h, (drive_error, 'a) res) driven" where
  "andReturn m x = bindD m (\<lambda>r. retD (rbind r (\<lambda>_. Inr x)))"

definition commitD :: "Session \<Rightarrow> ('h, (drive_error, unit) res) driven" where
  "commitD candidate =
     bindD (txCommit candidate) (\<lambda>r. retD (case r of Inl e \<Rightarrow> Inl (SessionErr e) | Inr _ \<Rightarrow> Inr ()))"

definition grantBody ::
  "('h, 'app) egress_deps \<Rightarrow> string \<Rightarrow> int \<Rightarrow> time \<Rightarrow> nat list option \<Rightarrow> Session
   \<Rightarrow> ('h, (drive_error, EgressGrant) res) driven" where
  "grantBody d host port now entropy s =
     (case AppendGrant s host port now entropy of
        Inl e \<Rightarrow> retD (Inl (SessionErr e))
      | Inr (nextS, grant) \<Rightarrow>
          if seGrantRevision nextS = seGrantRevision s then retD (Inr grant)
          else andReturn
            (if seStatus s \<noteq> StatusRunning then commitD nextS
             else runRunningSessionWidenProtocol d s nextS) grant)"

definition grantSessionEgress ::
  "('h, 'app) egress_deps \<Rightarrow> string \<Rightarrow> string \<Rightarrow> int \<Rightarrow> time \<Rightarrow> nat list option \<Rightarrow> 'h \<Rightarrow> world
   \<Rightarrow> (drive_error, Session \<times> EgressGrant) res \<times> 'h drive_end" where
  "grantSessionEgress d i host port now entropy =
     driveLocked i (recoverThen d (grantBody d host port now entropy))"

definition dismissBody ::
  "string \<Rightarrow> int \<Rightarrow> time \<Rightarrow> Session \<Rightarrow> ('h, (drive_error, EgressAcknowledgement) res) driven" where
  "dismissBody host port now s =
     (case DismissEgress s host port now of
        Inl e \<Rightarrow> retD (Inl (SessionErr e))
      | Inr (nextS, acknowledgement) \<Rightarrow> andReturn (commitD nextS) acknowledgement)"

definition dismissSessionEgress ::
  "('h, 'app) egress_deps \<Rightarrow> string \<Rightarrow> string \<Rightarrow> int \<Rightarrow> time \<Rightarrow> 'h \<Rightarrow> world
   \<Rightarrow> (drive_error, Session \<times> EgressAcknowledgement) res \<times> 'h drive_end" where
  "dismissSessionEgress d i host port now = driveLocked i (recoverThen d (dismissBody host port now))"

definition revokeBody ::
  "('h, 'app) egress_deps \<Rightarrow> string \<Rightarrow> time \<Rightarrow> Session \<Rightarrow> ('h, (drive_error, unit) res) driven" where
  "revokeBody d grantID now s =
     (case RevokeGrant s grantID now of
        Inl e \<Rightarrow> retD (Inl (SessionErr e))
      | Inr nextS \<Rightarrow>
          if seStatus s \<noteq> StatusRunning then commitD nextS
          else runRunningSessionNarrowProtocol d s nextS)"

definition revokeSessionEgress ::
  "('h, 'app) egress_deps \<Rightarrow> string \<Rightarrow> string \<Rightarrow> time \<Rightarrow> 'h \<Rightarrow> world
   \<Rightarrow> (drive_error, Session \<times> unit) res \<times> 'h drive_end" where
  "revokeSessionEgress d i grantID now = driveLocked i (recoverThen d (revokeBody d grantID now))"

end
