(* ===== verification/StageFiles.thy ===== *)
theory StageFiles
  imports SessionSockets
begin

text \<open>
  The pure parts of the container boundary: the runtime directory of a session and the ownership
  label it yields (\<open>internal/cli/runtime.go\<close>, \<open>engine/container/reap.go\<close>), the Compose command line and
  scalars (\<open>engine/container/compose.go\<close>), the override file of an egress generation
  (\<open>egress_grant_apply.go\<close>), and what they use of \<open>path/filepath\<close>, \<open>strings\<close>, \<open>unicode\<close>,
  \<open>encoding/json\<close> and \<open>hash/fnv\<close>.
\<close>

section \<open>Standard library\<close>

text \<open>\<open>filepath.Dir\<close>, \<open>Base\<close> and \<open>Abs\<close>; the working directory is a parameter.\<close>

definition dirPath :: "string \<Rightarrow> string" where
  "dirPath p = (case splitLast slash p of None \<Rightarrow> cleanPath [] | Some (a, _) \<Rightarrow> cleanPath (a @ [slash]))"

definition basePath :: "string \<Rightarrow> string" where
  "basePath p =
     (if p = [] then ''.''
      else let q = rev (dropWhile (\<lambda>c. c = slash) (rev p)) in
        if q = [] then [slash]
        else case splitLast slash q of None \<Rightarrow> q | Some (_, b) \<Rightarrow> b)"

definition absPath :: "string option \<Rightarrow> string \<Rightarrow> string option" where
  "absPath cwd p =
     (if hasPrefix p [slash] then Some (cleanPath p)
      else map_option (\<lambda>d. joinPath [d, p]) cwd)"

text \<open>\<open>strings.Fields\<close>. No encoding of a space begins inside another rune, so the bytes are scanned.\<close>

fun takeWord :: "string \<Rightarrow> string \<times> string" where
  "takeWord [] = ([], [])"
| "takeWord (c # s) =
     (if stripOne spaceRunes (c # s) \<noteq> None then ([], c # s)
      else case takeWord s of (w, r) \<Rightarrow> (c # w, r))"

lemma takeWord_append: "takeWord s = (w, r) \<Longrightarrow> s = w @ r"
  by (induction s arbitrary: w r) (auto split: if_splits prod.splits)

function fieldsText :: "string \<Rightarrow> string list" where
  "fieldsText s =
     (case trimPrefixes spaceRunes s of
        [] \<Rightarrow> []
      | c # t \<Rightarrow> (case takeWord t of (w, r) \<Rightarrow> (c # w) # fieldsText r))"
  by pat_completeness auto
termination
proof (relation "measure length")
  have short: "length (trimPrefixes spaceRunes s) \<le> length s" for s
  proof (induction spaceRunes s rule: trimPrefixes.induct)
    case (1 s)
    then show ?case using stripOne_shorter
      by (subst trimPrefixes.simps) (fastforce split: option.split)
  qed
  fix s c t w r assume "trimPrefixes spaceRunes s = c # t" and "(w, r) = takeWord t"
  with short [of s] takeWord_append [of t w r] show "(r, s) \<in> measure length" by simp
qed simp

declare fieldsText.simps [simp del]

text \<open>\<open>strings.Replace(s, old, new, 1)\<close> and \<open>strings.TrimPrefix\<close>.\<close>

fun replaceFirst :: "string \<Rightarrow> string \<Rightarrow> string \<Rightarrow> string" where
  "replaceFirst old new [] = (if old = [] then new else [])"
| "replaceFirst old new (c # s) =
     (if hasPrefix (c # s) old then new @ drop (length old) (c # s) else c # replaceFirst old new s)"

definition trimPrefix :: "string \<Rightarrow> string \<Rightarrow> string" where
  "trimPrefix s p = (if hasPrefix s p then drop (length p) s else s)"

function validUTF8 :: "string \<Rightarrow> bool" where
  "validUTF8 [] = True"
| "validUTF8 (c # s) =
     (case decodeRune c s of (r, w) \<Rightarrow> \<not> (r = 0xFFFD \<and> w = 1) \<and> validUTF8 (drop (w - 1) s))"
  by pat_completeness auto
termination by (relation "measure length") auto

text \<open>The categories Cc, Cf, Zl and Zp of the tables of package \<open>unicode\<close> (Unicode 15).\<close>

definition controlRanges :: "(nat \<times> nat) list" where
  "controlRanges =
    [(0x0, 0x1F), (0x7F, 0x9F), (0xAD, 0xAD), (0x600, 0x605), (0x61C, 0x61C), (0x6DD, 0x6DD),
     (0x70F, 0x70F), (0x890, 0x891), (0x8E2, 0x8E2), (0x180E, 0x180E), (0x200B, 0x200F),
     (0x2028, 0x202E), (0x2060, 0x2064), (0x2066, 0x206F), (0xFEFF, 0xFEFF), (0xFFF9, 0xFFFB),
     (0x110BD, 0x110BD), (0x110CD, 0x110CD), (0x13430, 0x1343F), (0x1BCA0, 0x1BCA3),
     (0x1D173, 0x1D17A), (0xE0001, 0xE0001), (0xE0020, 0xE007F)]"

definition controlRune :: "nat \<Rightarrow> bool" where
  "controlRune r \<longleftrightarrow> list_ex (\<lambda>(a, b). a \<le> r \<and> r \<le> b) controlRanges"

text \<open>\<open>json.Marshal\<close> of a string without control or format characters.\<close>

definition jsonByte :: "char \<Rightarrow> string" where
  "jsonByte c =
     (if c = CHR 0x22 \<or> c = CHR 0x5C then [CHR 0x5C, c]
      else if c = CHR ''<'' then CHR 0x5C # ''u003c''
      else if c = CHR ''>'' then CHR 0x5C # ''u003e''
      else if c = CHR ''&'' then CHR 0x5C # ''u0026''
      else [c])"

definition jsonString :: "string \<Rightarrow> string" where
  "jsonString s = CHR 0x22 # concat (map jsonByte s) @ [CHR 0x22]"

text \<open>\<open>fnv.New32a\<close> and \<open>%08x\<close>.\<close>

definition fnv32a :: "string \<Rightarrow> 32 word" where
  "fnv32a s = foldl (\<lambda>h c. (h XOR word_of_nat (byte c)) * 16777619) 2166136261 s"

definition hex32 :: "32 word \<Rightarrow> string" where
  "hex32 h = hexEncode (bigEndian 4 (unat h))"

section \<open>The stage directory of a session\<close>

definition keyChar :: "char \<Rightarrow> bool" where
  "keyChar c \<longleftrightarrow> isLower c \<or> isUpper c \<or> isDigit c \<or> c = CHR ''_'' \<or> c = CHR ''-''"

definition validInvocationID :: "string \<Rightarrow> bool" where
  "validInvocationID i \<longleftrightarrow> hasPrefix i ''run-'' \<and> length i = 36 \<and> list_all isLowerHex (drop 4 i)"

definition validStageKey :: "string \<Rightarrow> bool" where
  "validStageKey key \<longleftrightarrow>
     validInvocationID key
   \<or> hasPrefix key ''session-sess-'' \<and> drop 13 key \<noteq> [] \<and> list_all keyChar (drop 13 key)"

text \<open>The empty key of a legacy record means the hashed directory.\<close>

definition sessionStageKey :: "Session \<Rightarrow> string option" where
  "sessionStageKey s =
     (if seStageLayout s = StageLayoutLegacy then Some []
      else if seStageLayout s = StageLayoutSessionID
        then (if seRuntimeID s \<noteq> seID s then None else Some (''session-'' @ seRuntimeID s))
      else None)"

definition stageRootPath :: "string option \<Rightarrow> string option" where
  "stageRootPath cache = map_option (\<lambda>c. joinPath [c, ''safeslop'', ''runtime'']) cache"

text \<open>The directory itself; the creation of the staging root is a system call of the callers.\<close>

definition stageDirForRuntime :: "string option \<Rightarrow> string \<Rightarrow> string option" where
  "stageDirForRuntime cache key =
     (if \<not> validStageKey key then None else map_option (\<lambda>base. joinPath [base, key]) (stageRootPath cache))"

definition stageDirFor :: "string option \<Rightarrow> string \<Rightarrow> string \<Rightarrow> string option" where
  "stageDirFor cache nm ws =
     map_option (\<lambda>base. joinPath [base, nm @ ''-'' @ hex32 (fnv32a ws)]) (stageRootPath cache)"

definition sessionStageDir :: "string option \<Rightarrow> Session \<Rightarrow> string option" where
  "sessionStageDir cache s =
     (case sessionStageKey s of
        None \<Rightarrow> None
      | Some key \<Rightarrow>
          if key \<noteq> [] then stageDirForRuntime cache key
          else stageDirFor cache (''session-'' @ seID s) (seWorkspace s))"

definition SessionReapLabel :: "string \<Rightarrow> string" where
  "SessionReapLabel i = trimPrefix i ''session-''"

definition SessionIDFromStageDir :: "string \<Rightarrow> string" where
  "SessionIDFromStageDir stageDir = SessionReapLabel (basePath stageDir)"

definition LegacySessionReapLabel :: "string \<Rightarrow> string \<Rightarrow> string" where
  "LegacySessionReapLabel i ws = i @ ''-'' @ hex32 (fnv32a ws)"

section \<open>Compose\<close>

definition yamlScalar :: "string \<Rightarrow> string option" where
  "yamlScalar value =
     (if \<not> validUTF8 value then None
      else if list_ex controlRune (runes value) then None
      else Some (jsonString (replaceByte CHR ''$'' ''$$'' value)))"

definition projectChar :: "char \<Rightarrow> bool" where
  "projectChar c \<longleftrightarrow> isLower c \<or> isDigit c \<or> c = CHR ''_'' \<or> c = CHR ''-''"

definition validProject :: "string \<Rightarrow> bool" where
  "validProject p \<longleftrightarrow> p \<noteq> [] \<and> (isLower (hd p) \<or> isDigit (hd p)) \<and> list_all projectChar p"

definition composeBase :: "string \<Rightarrow> string \<Rightarrow> string \<Rightarrow> string list" where
  "composeBase project dir file = [''compose'', ''-p'', project, ''--project-directory'', dir, ''-f'', file]"

fun overrideArgs :: "string option \<Rightarrow> string \<Rightarrow> string list \<Rightarrow> string list option" where
  "overrideArgs cwd dir [] = Some []"
| "overrideArgs cwd dir (ov # ovs) =
     (case absPath cwd ov of
        None \<Rightarrow> None
      | Some p \<Rightarrow>
          if dirPath p \<noteq> dir then None
          else map_option (\<lambda>rest. ''-f'' # p # rest) (overrideArgs cwd dir ovs))"

definition composeProjectArgsWithOverrides ::
  "string option \<Rightarrow> string \<Rightarrow> string list \<Rightarrow> string list \<Rightarrow> string list option" where
  "composeProjectArgsWithOverrides cwd composeFile overrides args =
     (case absPath cwd composeFile of
        None \<Rightarrow> None
      | Some file \<Rightarrow>
          let dir = dirPath file; project = basePath dir in
          if \<not> validProject project then None
          else map_option (\<lambda>ovs. composeBase project dir file @ ovs @ args) (overrideArgs cwd dir overrides))"

definition renderEgressOverride :: "string \<Rightarrow> Generation \<Rightarrow> string option" where
  "renderEgressOverride overlayDir g =
     (case yamlScalar overlayDir of
        None \<Rightarrow> None
      | Some source \<Rightarrow>
          (case yamlScalar (generationHash g) of
             None \<Rightarrow> None
           | Some hash \<Rightarrow>
               Some (joinWith [nl]
                 [''services:'',
                  ''  proxy:'',
                  ''    labels:'',
                  ''      safeslop.egress-revision: '' @ jsonString (intText (generationRevision g)),
                  ''      safeslop.egress-hash: '' @ hash,
                  ''    volumes:'',
                  ''      - type: bind'',
                  ''        source: '' @ source,
                  ''        target: /etc/squid/safeslop.d'',
                  ''        read_only: true'',
                  ''        bind:'',
                  ''          create_host_path: false'', []])))"

end
