(* ===== verification/EgressApply.thy ===== *)
theory EgressApply
  imports EgressDriver StageFiles
begin

text \<open>
  The code behind the egress effects of the driver: \<open>engine/container/egress_grant_apply.go\<close>, the
  session reaper of \<open>reap.go\<close>, and the closures of \<open>internal/cli/dependencies.go\<close>. The container
  engine is a program outside the repository, so it is a parameter: a function from the argument
  vector, the files of the host and its own state to an outcome.
\<close>

section \<open>The host as these operations see it\<close>

text \<open>The outcome of one engine command: \<open>Output\<close> reads \<open>eoStdout\<close>, \<open>engineOutput\<close> both streams.\<close>

record engine_output =
  eoOK :: bool
  eoStdout :: string
  eoCombined :: string

type_synonym files = "string \<Rightarrow> string option"

record 'e engine =
  enName :: string
  enCommand :: "string list \<Rightarrow> files \<Rightarrow> 'e \<Rightarrow> engine_output \<times> 'e"

text \<open>\<open>bdCalls\<close> scripts the outcomes of the coming system calls; when it is used up they succeed.\<close>

record 'e boundary =
  bdFiles :: files
  bdCalls :: "bool list"
  bdEngine :: 'e

type_synonym ('e, 'a) eff = "'e boundary \<Rightarrow> (drive_error, 'a) res \<times> 'e boundary"

definition retB :: "'a \<Rightarrow> ('e, 'a) eff" where
  "retB x st = (Inr x, st)"

definition failB :: "drive_error \<Rightarrow> ('e, 'a) eff" where
  "failB e st = (Inl e, st)"

definition bindB :: "('e, 'a) eff \<Rightarrow> ('a \<Rightarrow> ('e, 'b) eff) \<Rightarrow> ('e, 'b) eff" where
  "bindB m f st = (case m st of (Inl e, st') \<Rightarrow> (Inl e, st') | (Inr x, st') \<Rightarrow> f x st')"

definition tryB :: "('e, 'a) eff \<Rightarrow> ('e, (drive_error, 'a) res) eff" where
  "tryB m st = (case m st of (r, st') \<Rightarrow> (Inr r, st'))"

definition liftB :: "drive_error \<Rightarrow> 'a option \<Rightarrow> ('e, 'a) eff" where
  "liftB e x = (case x of None \<Rightarrow> failB e | Some y \<Rightarrow> retB y)"

text \<open>Every error becomes the one the callers classify.\<close>

definition uncertainB :: "('e, 'a) eff \<Rightarrow> ('e, 'a) eff" where
  "uncertainB m = bindB (tryB m) (\<lambda>r. case r of Inl _ \<Rightarrow> failB ErrEgressGenerationUncertain | Inr x \<Rightarrow> retB x)"

definition readB :: "('e boundary \<Rightarrow> 'a) \<Rightarrow> ('e, 'a) eff" where
  "readB f st = (Inr (f st), st)"

definition osB :: "string \<Rightarrow> ('e, unit) eff" where
  "osB what st =
     (case bdCalls st of
        [] \<Rightarrow> (Inr (), st)
      | ok # rest \<Rightarrow> (if ok then Inr () else Inl (ErrEgressEngine what), st\<lparr>bdCalls := rest\<rparr>))"

definition setFile :: "string \<Rightarrow> string \<Rightarrow> ('e, unit) eff" where
  "setFile path body st = (Inr (), st\<lparr>bdFiles := (bdFiles st)(path := Some body)\<rparr>)"

definition dropFiles :: "string \<Rightarrow> ('e, unit) eff" where
  "dropFiles dir st =
     (Inr (), st\<lparr>bdFiles := (\<lambda>p. if p = dir \<or> hasPrefix p (dir @ [slash]) then None else bdFiles st p)\<rparr>)"

definition commandB :: "'e engine \<Rightarrow> string list \<Rightarrow> ('e, engine_output) eff" where
  "commandB eng argv st =
     (case enCommand eng argv (bdFiles st) (bdEngine st) of (r, e) \<Rightarrow> (Inr r, st\<lparr>bdEngine := e\<rparr>))"

definition outputB :: "'e engine \<Rightarrow> string list \<Rightarrow> ('e, string) eff" where
  "outputB eng argv =
     bindB (commandB eng argv) (\<lambda>r. if eoOK r then retB (eoStdout r) else failB (ErrEgressEngine ''command''))"

definition runEngine :: "'e engine \<Rightarrow> string list \<Rightarrow> ('e, unit) eff" where
  "runEngine eng argv = bindB (outputB eng argv) (\<lambda>_. retB ())"

section \<open>Installing a generation\<close>

text \<open>Files are replaced by rename, so a file is the old or the new one. The temporary file has a name
  nothing reads.\<close>

definition replaceSyncedFile :: "string \<Rightarrow> string \<Rightarrow> ('e, unit) eff" where
  "replaceSyncedFile path body =
     bindB (osB ''createtemp'') (\<lambda>_.
     bindB (osB ''chmod'') (\<lambda>_.
     bindB (osB ''copy'') (\<lambda>_.
     bindB (osB ''sync'') (\<lambda>_.
     bindB (osB ''close'') (\<lambda>_.
     bindB (osB ''rename'') (\<lambda>_.
     bindB (setFile path body) (\<lambda>_.
     bindB (osB ''open'') (\<lambda>_. osB ''syncdir''))))))))"

definition oldInclude :: string where
  "oldInclude = ''include /etc/squid/session-grants.conf''"

definition newInclude :: string where
  "newInclude = ''include /etc/squid/safeslop.d/session-grants.conf''"

definition installOverlaySquidInclude :: "string \<Rightarrow> ('e, unit) eff" where
  "installOverlaySquidInclude runtimeDir =
     (let path = joinPath [runtimeDir, ''squid.conf''] in
      bindB (osB ''readfile'') (\<lambda>_.
      bindB (readB (\<lambda>st. bdFiles st path)) (\<lambda>body.
      bindB (liftB (ErrEgressEngine ''readfile'') body) (\<lambda>conf.
      if contains conf newInclude then retB ()
      else if \<not> contains conf oldInclude then failB (ErrEgressEngine ''no reviewed session overlay include'')
      else replaceSyncedFile path (replaceFirst oldInclude newInclude conf)))))"

definition overlayDirOf :: "string \<Rightarrow> string" where
  "overlayDirOf runtimeDir = joinPath [runtimeDir, ''proxy-overlay'']"

definition overlayFile :: "string \<Rightarrow> string" where
  "overlayFile overlayDir = joinPath [overlayDir, ''session-grants.conf'']"

definition overridePathOf :: "string \<Rightarrow> string" where
  "overridePathOf runtimeDir = joinPath [runtimeDir, ''egress.override.yml'']"

definition installEgressGeneration :: "string \<Rightarrow> Generation \<Rightarrow> string \<Rightarrow> ('e, string) eff" where
  "installEgressGeneration runtimeDir generation body =
     (let overlayDir = overlayDirOf runtimeDir in
      bindB (osB ''mkdirall'') (\<lambda>_.
      bindB (osB ''chmod'') (\<lambda>_.
      bindB (replaceSyncedFile (overlayFile overlayDir) body) (\<lambda>_.
      bindB (installOverlaySquidInclude runtimeDir) (\<lambda>_.
      bindB (liftB (ErrEgressEngine ''compose scalar'') (renderEgressOverride overlayDir generation)) (\<lambda>override.
      bindB (replaceSyncedFile (overridePathOf runtimeDir) override) (\<lambda>_.
      retB (overridePathOf runtimeDir))))))))"

definition upVerb :: "string list" where
  "upVerb = [''up'', ''-d'', ''--no-deps'', ''--force-recreate'', ''proxy'']"

definition BuildEgressGeneration ::
  "SessionGrant list \<Rightarrow> int \<Rightarrow> (drive_error, Generation \<times> string) res" where
  "BuildEgressGeneration grants revision =
     (case Build grants revision of Inl _ \<Rightarrow> Inl (ErrEgressEngine ''generation'') | Inr gb \<Rightarrow> Inr gb)"

text \<open>The settings of a process that these operations read: the working directory and how often the
  proxy is polled before the deadline.\<close>

record settings =
  stCwd :: "string option"
  stPolls :: nat

definition composeB :: "settings \<Rightarrow> string \<Rightarrow> string list \<Rightarrow> string list \<Rightarrow> ('e, string list) eff" where
  "composeB c composeFile overrides args =
     liftB (ErrEgressEngine ''compose project'')
       (composeProjectArgsWithOverrides (stCwd c) composeFile overrides args)"

definition replaceEgressGeneration ::
  "settings \<Rightarrow> 'e engine \<Rightarrow> string \<Rightarrow> string \<Rightarrow> SessionGrant list \<Rightarrow> int
   \<Rightarrow> ('e, Generation \<times> string list) eff" where
  "replaceEgressGeneration c eng composeFile runtimeDir grants revision =
     (case BuildEgressGeneration grants revision of
        Inl e \<Rightarrow> failB e
      | Inr (generation, body) \<Rightarrow>
          bindB (installEgressGeneration runtimeDir generation body) (\<lambda>overrideFile.
          bindB (uncertainB (composeB c composeFile [overrideFile] upVerb)) (\<lambda>upArgs.
          bindB (uncertainB (runEngine eng upArgs)) (\<lambda>_.
          retB (generation, [overrideFile])))))"

section \<open>Inspecting the proxy\<close>

definition proxyReadyCommand :: string where
  "proxyReadyCommand = ''squid -k check >/dev/null 2>&1 && exec 3<>/dev/tcp/127.0.0.1/3128''"

definition waitForProxyFiles :: "settings \<Rightarrow> 'e engine \<Rightarrow> string \<Rightarrow> string list \<Rightarrow> ('e, unit) eff" where
  "waitForProxyFiles c eng composeFile overrides =
     bindB (composeB c composeFile overrides [''exec'', ''-T'', ''proxy'', ''bash'', ''-ec'', proxyReadyCommand])
       (runEngine eng)"

definition sameRuntimeObjectID :: "string \<Rightarrow> string \<Rightarrow> bool" where
  "sameRuntimeObjectID a b \<longleftrightarrow> a = b \<or> hasPrefix a b \<or> hasPrefix b a"

definition projectProxies :: "string \<Rightarrow> string list" where
  "projectProxies project =
     [''ps'', ''-q'', ''--filter'', ''label=com.docker.compose.project='' @ project,
      ''--filter'', ''label=com.docker.compose.service=proxy'']"

definition labelFormat :: string where
  "labelFormat = ''{{ index .Config.Labels \"safeslop.egress-revision\" }} ''
     @ ''{{ index .Config.Labels \"safeslop.egress-hash\" }}''"

definition hashVerb :: "string list" where
  "hashVerb = [''exec'', ''-T'', ''proxy'', ''sha256sum'', ''/etc/squid/safeslop.d/session-grants.conf'']"

definition inspectFailed :: "string \<Rightarrow> ('e, 'a) eff" where
  "inspectFailed what = failB (ErrEgressEngine what)"

text \<open>The labels of the one proxy, read and compared with the hash of the file it has mounted.\<close>

definition inspectLabels ::
  "settings \<Rightarrow> 'e engine \<Rightarrow> string \<Rightarrow> string list \<Rightarrow> string \<Rightarrow> ('e, Generation) eff" where
  "inspectLabels c eng composeFile overrides line =
     bindB (outputB eng [''inspect'', ''-f'', labelFormat, line]) (\<lambda>labels.
     case fieldsText labels of
       [revision_text, hash] \<Rightarrow>
         (case parseInt64 revision_text of
            None \<Rightarrow> inspectFailed ''proxy generation labels are invalid''
          | Some revision \<Rightarrow>
              if revision < 0 \<or> length hash \<noteq> 64 then inspectFailed ''proxy generation labels are invalid''
              else
                bindB (composeB c composeFile overrides hashVerb) (\<lambda>hashArgs.
                bindB (outputB eng hashArgs) (\<lambda>out.
                case fieldsText out of
                  [] \<Rightarrow> inspectFailed ''proxy overlay hash does not match its label''
                | h # _ \<Rightarrow>
                    if h \<noteq> hash then inspectFailed ''proxy overlay hash does not match its label''
                    else retB \<lparr>generationRevision = revision, generationHash = hash\<rparr>)))
     | _ \<Rightarrow> inspectFailed ''proxy generation labels are missing'')"

definition inspectProxyGeneration ::
  "settings \<Rightarrow> 'e engine \<Rightarrow> string \<Rightarrow> string list \<Rightarrow> ('e, Generation) eff" where
  "inspectProxyGeneration c eng composeFile overrides =
     bindB (composeB c composeFile overrides [''ps'', ''--status'', ''running'', ''-q'', ''proxy'']) (\<lambda>psArgs.
     bindB (outputB eng psArgs) (\<lambda>ids.
     case fieldsText ids of
       [line] \<Rightarrow>
         bindB (liftB (ErrEgressEngine ''abs'') (absPath (stCwd c) composeFile)) (\<lambda>file.
         let project = basePath (dirPath file) in
         if \<not> validProject project then inspectFailed ''runtime identity is not a valid Compose project name''
         else
           bindB (outputB eng (projectProxies project)) (\<lambda>projectIDs.
           case fieldsText projectIDs of
             [proxy] \<Rightarrow>
               if \<not> sameRuntimeObjectID proxy line then inspectFailed ''proxy instance count is not one''
               else inspectLabels c eng composeFile overrides line
           | _ \<Rightarrow> inspectFailed ''proxy instance count is not one''))
     | _ \<Rightarrow> inspectFailed ''proxy instance count is not one''))"

text \<open>The loop polls until the deadline; the number of polls that fit is a setting, at least one.\<close>

fun waitForProxyGeneration ::
  "nat \<Rightarrow> settings \<Rightarrow> 'e engine \<Rightarrow> string \<Rightarrow> string list \<Rightarrow> Generation \<Rightarrow> ('e, unit) eff" where
  "waitForProxyGeneration 0 c eng composeFile overrides wanted = failB (ErrEgressEngine ''deadline exceeded'')"
| "waitForProxyGeneration (Suc polls) c eng composeFile overrides wanted =
     bindB (tryB (bindB (waitForProxyFiles c eng composeFile overrides) (\<lambda>_.
                  inspectProxyGeneration c eng composeFile overrides))) (\<lambda>r.
     if r = Inr wanted then retB ()
     else waitForProxyGeneration polls c eng composeFile overrides wanted)"

definition InspectEgressGeneration :: "settings \<Rightarrow> 'e engine \<Rightarrow> string \<Rightarrow> ('e, Generation) eff" where
  "InspectEgressGeneration c eng composeFile =
     bindB (uncertainB (waitForProxyFiles c eng composeFile [])) (\<lambda>_.
     uncertainB (inspectProxyGeneration c eng composeFile []))"

section \<open>Ensuring a generation\<close>

record EgressGenerationApplication =
  gaGeneration :: Generation
  gaOverrides :: "string list"
  gaAlreadyAcked :: bool

definition BeginEnsureEgressGeneration ::
  "settings \<Rightarrow> 'e engine \<Rightarrow> string \<Rightarrow> string \<Rightarrow> SessionGrant list \<Rightarrow> int
   \<Rightarrow> ('e, EgressGenerationApplication) eff" where
  "BeginEnsureEgressGeneration c eng composeFile runtimeDir grants revision =
     (case BuildEgressGeneration grants revision of
        Inl e \<Rightarrow> failB e
      | Inr (wanted, _) \<Rightarrow>
          bindB (tryB (InspectEgressGeneration c eng composeFile)) (\<lambda>current.
          if current = Inr wanted
          then retB \<lparr>gaGeneration = wanted, gaOverrides = [], gaAlreadyAcked = True\<rparr>
          else
            bindB (replaceEgressGeneration c eng composeFile runtimeDir grants revision) (\<lambda>(generation, overrides).
            retB \<lparr>gaGeneration = generation, gaOverrides = overrides, gaAlreadyAcked = False\<rparr>)))"

definition InspectEgressGenerationApplication ::
  "settings \<Rightarrow> 'e engine \<Rightarrow> string \<Rightarrow> EgressGenerationApplication \<Rightarrow> ('e, Generation) eff" where
  "InspectEgressGenerationApplication c eng composeFile application =
     (if generationHash (gaGeneration application) = [] then failB ErrEgressGenerationUncertain
      else if gaAlreadyAcked application then retB (gaGeneration application)
      else
        bindB (uncertainB (waitForProxyGeneration (Suc (stPolls c)) c eng composeFile
                 (gaOverrides application) (gaGeneration application))) (\<lambda>_.
        retB (gaGeneration application)))"

definition EnsureEgressGeneration ::
  "settings \<Rightarrow> 'e engine \<Rightarrow> string \<Rightarrow> string \<Rightarrow> SessionGrant list \<Rightarrow> int \<Rightarrow> ('e, Generation) eff" where
  "EnsureEgressGeneration c eng composeFile runtimeDir grants revision =
     bindB (BeginEnsureEgressGeneration c eng composeFile runtimeDir grants revision)
       (InspectEgressGenerationApplication c eng composeFile)"

definition ApplyEgressGeneration ::
  "settings \<Rightarrow> 'e engine \<Rightarrow> string \<Rightarrow> string \<Rightarrow> SessionGrant list \<Rightarrow> int \<Rightarrow> ('e, Generation) eff" where
  "ApplyEgressGeneration c eng composeFile runtimeDir grants revision =
     bindB (replaceEgressGeneration c eng composeFile runtimeDir grants revision) (\<lambda>(generation, overrides).
     bindB (uncertainB (waitForProxyGeneration (Suc (stPolls c)) c eng composeFile overrides generation)) (\<lambda>_.
     retB generation))"

definition ReplaceEgressGeneration ::
  "settings \<Rightarrow> 'e engine \<Rightarrow> string \<Rightarrow> string \<Rightarrow> SessionGrant list \<Rightarrow> int \<Rightarrow> ('e, Generation) eff" where
  "ReplaceEgressGeneration c eng composeFile runtimeDir grants revision =
     bindB (replaceEgressGeneration c eng composeFile runtimeDir grants revision) (\<lambda>(generation, _). retB generation)"

section \<open>Reaping\<close>

text \<open>\<open>bufio.Scanner\<close> gives up on a line of 64 KiB.\<close>

definition scannedLines :: "string \<Rightarrow> string list option" where
  "scannedLines out =
     (let ls = splitOn nl out in
      if list_ex (\<lambda>l. 65536 \<le> length l) ls then None
      else Some (filter (\<lambda>l. l \<noteq> []) (map trimSpace ls)))"

definition engineOutput :: "'e engine \<Rightarrow> string list \<Rightarrow> ('e, string) eff" where
  "engineOutput eng argv =
     bindB (commandB eng argv) (\<lambda>r. if eoOK r then retB (eoCombined r) else failB (ErrEgressEngine ''command''))"

definition engineLines :: "'e engine \<Rightarrow> string list \<Rightarrow> ('e, string list) eff" where
  "engineLines eng argv = bindB (engineOutput eng argv) (\<lambda>out. liftB (ErrEgressEngine ''scan'') (scannedLines out))"

text \<open>Lists objects and removes them. A failed removal counts as done when none is left.\<close>

definition reapObjects :: "'e engine \<Rightarrow> string list \<Rightarrow> string list \<Rightarrow> ('e, unit) eff" where
  "reapObjects eng listing removal =
     bindB (engineLines eng listing) (\<lambda>ids.
     if ids = [] then retB ()
     else bindB (tryB (runEngine eng (removal @ ids))) (\<lambda>r. case r of
       Inr _ \<Rightarrow> retB ()
     | Inl e \<Rightarrow>
         bindB (tryB (engineLines eng listing)) (\<lambda>remaining.
         if remaining = Inr [] then retB () else failB e)))"

definition managedFilter :: "string list" where
  "managedFilter = [''--filter'', ''label=safeslop.managed=true'']"

definition ownedFilter :: "string \<Rightarrow> string \<Rightarrow> string list" where
  "ownedFilter label i = managedFilter @ [''--filter'', ''label='' @ label @ ''='' @ i]"

definition reapFiltered :: "'e engine \<Rightarrow> string list \<Rightarrow> ('e, unit) eff" where
  "reapFiltered eng filters =
     bindB (reapObjects eng ([''ps'', ''-aq''] @ filters) [''rm'', ''-f'']) (\<lambda>_.
     reapObjects eng ([''network'', ''ls'', ''-q''] @ filters) [''network'', ''rm''])"

definition reapByOwnership :: "'e engine \<Rightarrow> string \<Rightarrow> string \<Rightarrow> ('e, unit) eff" where
  "reapByOwnership eng label i =
     (if trimSpace i = [] then retB () else reapFiltered eng (ownedFilter label i))"

definition ReapBySession :: "'e engine \<Rightarrow> string \<Rightarrow> ('e, unit) eff" where
  "ReapBySession eng sessionID = reapByOwnership eng ''safeslop.session'' sessionID"

definition ReapByInvocation :: "'e engine \<Rightarrow> string \<Rightarrow> ('e, unit) eff" where
  "ReapByInvocation eng i =
     (if \<not> validInvocationID i then failB (ErrEgressEngine ''direct invocation identity is invalid'')
      else reapByOwnership eng ''safeslop.invocation'' i)"

definition ReapManaged :: "'e engine \<Rightarrow> ('e, unit) eff" where
  "ReapManaged eng = reapFiltered eng managedFilter"

definition listedRuntimeObject :: "'e engine \<Rightarrow> string \<Rightarrow> string list \<Rightarrow> ('e, bool) eff" where
  "listedRuntimeObject eng i argv =
     bindB (engineLines eng argv) (\<lambda>ids. retB (list_ex (\<lambda>candidate. sameRuntimeObjectID candidate i) ids))"

definition reapIfOrphan ::
  "'e engine \<Rightarrow> (string \<Rightarrow> bool) \<Rightarrow> string list \<Rightarrow> string \<Rightarrow> ('e, string list) eff" where
  "reapIfOrphan eng live seen label =
     (let i = trimSpace label in
      if i = [] \<or> i = ''<no value>'' \<or> \<not> hasPrefix i ''sess-'' \<or> live i \<or> i \<in> set seen then retB seen
      else bindB (ReapBySession eng i) (\<lambda>_. retB (i # seen)))"

fun sweepObjects ::
  "'e engine \<Rightarrow> (string \<Rightarrow> bool) \<Rightarrow> string list \<Rightarrow> string list \<Rightarrow> string list \<Rightarrow> string list
   \<Rightarrow> ('e, string list) eff" where
  "sweepObjects eng live inspectArgs listArgs seen [] = retB seen"
| "sweepObjects eng live inspectArgs listArgs seen (i # ids) =
     bindB (tryB (engineOutput eng (inspectArgs @ [i]))) (\<lambda>r. case r of
       Inl e \<Rightarrow>
         bindB (tryB (listedRuntimeObject eng i listArgs)) (\<lambda>present.
         if present = Inr False then sweepObjects eng live inspectArgs listArgs seen ids else failB e)
     | Inr label \<Rightarrow>
         bindB (reapIfOrphan eng live seen label) (\<lambda>seen'.
         sweepObjects eng live inspectArgs listArgs seen' ids))"

definition SweepManagedOrphans :: "'e engine \<Rightarrow> (string \<Rightarrow> bool) \<Rightarrow> ('e, unit) eff" where
  "SweepManagedOrphans eng live =
     (let containers = [''ps'', ''-aq''] @ managedFilter;
          networks = [''network'', ''ls'', ''-q''] @ managedFilter in
      bindB (engineLines eng containers) (\<lambda>ids.
      bindB (sweepObjects eng live
        [''inspect'', ''-f'', ''{{ index .Config.Labels \"safeslop.session\" }}''] containers [] ids) (\<lambda>seen.
      bindB (engineLines eng networks) (\<lambda>nets.
      bindB (sweepObjects eng live
        [''network'', ''inspect'', ''-f'', ''{{ index .Labels \"safeslop.session\" }}''] networks seen nets) (\<lambda>_.
      retB ())))))"

section \<open>The closures of the command line\<close>

record 'e egress_env =
  evNow :: time
  evSettings :: settings
  evBackend :: "string \<Rightarrow> 'e engine option"
  evCache :: "string option"
  evPid :: int
  evAlive :: "Session \<Rightarrow> bool"
  evSockets :: socket_env

definition stageDirB :: "'e egress_env \<Rightarrow> Session \<Rightarrow> ('e, string) eff" where
  "stageDirB env s =
     (case sessionStageDir (evCache env) s of
        None \<Rightarrow> failB (ErrEgressEngine ''stage directory'')
      | Some dir \<Rightarrow> bindB (osB ''mkdirall'') (\<lambda>_. retB dir))"

definition engineForSession :: "'e egress_env \<Rightarrow> Session \<Rightarrow> 'e engine option" where
  "engineForSession env s =
     (if seEnvironment s \<noteq> ''container'' \<or> seBackend s = [] then None
      else case evBackend env (seBackend s) of
        None \<Rightarrow> None
      | Some eng \<Rightarrow> if enName eng \<noteq> seBackend s then None else Some eng)"

definition sessionEngine :: "'e egress_env \<Rightarrow> Session \<Rightarrow> ('e, 'e engine) eff" where
  "sessionEngine env s = liftB (ErrEgressEngine ''session backend is unavailable'') (engineForSession env s)"

definition composeFileOf :: "string \<Rightarrow> string" where
  "composeFileOf stageDir = joinPath [stageDir, ''compose.yml'']"

text \<open>The stage directory and the engine, then the operation.\<close>

definition onSession ::
  "'e egress_env \<Rightarrow> Session \<Rightarrow> ('e engine \<Rightarrow> string \<Rightarrow> ('e, 'a) eff) \<Rightarrow> ('e, 'a) eff" where
  "onSession env s f =
     bindB (stageDirB env s) (\<lambda>dir. bindB (sessionEngine env s) (\<lambda>eng. f eng dir))"

definition effectInspect :: "('e, Generation) eff option \<Rightarrow> ('e, Generation) eff" where
  "effectInspect effect = (case effect of None \<Rightarrow> failB ErrEgressGenerationUncertain | Some inspect \<Rightarrow> inspect)"

definition beginEgressOverlayApply ::
  "'e egress_env \<Rightarrow> Session \<Rightarrow> SessionGrant list \<Rightarrow> ('e, ('e, Generation) eff option) eff" where
  "beginEgressOverlayApply env s desired =
     onSession env s (\<lambda>eng dir.
       bindB (BeginEnsureEgressGeneration (evSettings env) eng (composeFileOf dir) dir desired (seGrantRevision s))
         (\<lambda>application. retB (Some
            (InspectEgressGenerationApplication (evSettings env) eng (composeFileOf dir) application))))"

definition applyEgressOverlay ::
  "'e egress_env \<Rightarrow> Session \<Rightarrow> SessionGrant list \<Rightarrow> ('e, unit) eff" where
  "applyEgressOverlay env s desired =
     onSession env s (\<lambda>eng dir.
       bindB (EnsureEgressGeneration (evSettings env) eng (composeFileOf dir) dir desired (seGrantRevision s))
         (\<lambda>_. retB ()))"

definition replaceEgressOverlay ::
  "'e egress_env \<Rightarrow> Session \<Rightarrow> SessionGrant list \<Rightarrow> ('e, unit) eff" where
  "replaceEgressOverlay env s desired =
     onSession env s (\<lambda>eng dir.
       bindB (ReplaceEgressGeneration (evSettings env) eng (composeFileOf dir) dir desired (seGrantRevision s))
         (\<lambda>_. retB ()))"

definition inspectEgress :: "'e egress_env \<Rightarrow> Session \<Rightarrow> ('e, Generation) eff" where
  "inspectEgress env s =
     onSession env s (\<lambda>eng dir. InspectEgressGeneration (evSettings env) eng (composeFileOf dir))"

definition sessionReapBoundary :: "'e egress_env \<Rightarrow> Session \<Rightarrow> ('e, unit) eff" where
  "sessionReapBoundary env s =
     (if seEnvironment s \<noteq> ''container'' then retB ()
      else onSession env s (\<lambda>eng dir. ReapBySession eng (SessionIDFromStageDir dir)))"

definition wipeStageDir :: "'e egress_env \<Rightarrow> Session \<Rightarrow> ('e, unit) eff" where
  "wipeStageDir env s =
     bindB (stageDirB env s) (\<lambda>dir. bindB (osB ''removeall'') (\<lambda>_. dropFiles dir))"

text \<open>A group that is gone (\<open>ESRCH\<close>) and a socket that does not exist count as success of the call.\<close>

definition killProcess :: "int \<Rightarrow> ('e, unit) eff" where
  "killProcess target = (if target = 0 then retB () else osB ''kill'')"

fun removeSockets :: "string list \<Rightarrow> ('e, (drive_error, unit) res list) eff" where
  "removeSockets [] = retB []"
| "removeSockets (path # paths) =
     bindB (tryB (osB ''remove'')) (\<lambda>r. bindB (removeSockets paths) (\<lambda>rs. retB (r # rs)))"

fun firstFailure :: "(drive_error, unit) res list \<Rightarrow> ('e, unit) eff" where
  "firstFailure [] = retB ()"
| "firstFailure (Inl e # rs) = failB e"
| "firstFailure (Inr _ # rs) = firstFailure rs"

definition defaultEgressTeardown :: "'e egress_env \<Rightarrow> Session \<Rightarrow> ('e, unit) eff" where
  "defaultEgressTeardown env s =
     bindB (tryB (if sePID s \<noteq> 0 \<and> sePID s \<noteq> evPid env \<and> evAlive env s
                  then killProcess (if seDetached s then - sePID s else sePID s) else retB ())) (\<lambda>killed.
     bindB (tryB (sessionReapBoundary env s)) (\<lambda>reaped.
     bindB (tryB (wipeStageDir env s)) (\<lambda>wiped.
     bindB (removeSockets (SocketPaths (evSockets env) (seID s))) (\<lambda>sockets.
     firstFailure (killed # reaped # wiped # sockets)))))"

definition containerDeps ::
  "'e egress_env \<Rightarrow> ('e boundary, ('e, Generation) eff option) egress_deps" where
  "containerDeps env =
     \<lparr>edNow = evNow env,
      edBegin = beginEgressOverlayApply env,
      edInspectApplied = effectInspect,
      edApply = applyEgressOverlay env,
      edInspect = inspectEgress env,
      edTeardown = defaultEgressTeardown env\<rparr>"

end
