(* ===== verification/StageFileLaws.thy ===== *)
theory StageFileLaws
  imports StageFiles
begin

text \<open>
  Facts about the files and command lines of the container boundary: joined paths are clean and
  differ when their last names differ, the Compose command line has the shape the engine is told
  about, and the two labels of a proxy are read back from the text the engine prints.
\<close>

section \<open>Clean paths\<close>

definition plainAcc :: "string list \<Rightarrow> bool" where
  "plainAcc acc \<longleftrightarrow> list_all plainName acc"

lemma cleanStep_plain: "plainAcc acc \<Longrightarrow> slash \<notin> set c \<Longrightarrow> plainAcc (cleanStep True acc c)"
  by (auto simp: plainAcc_def plainName_def cleanStep_def split: list.split)

lemma foldl_cleanStep_plain:
  "plainAcc acc \<Longrightarrow> \<forall>c \<in> set cs. slash \<notin> set c \<Longrightarrow> plainAcc (foldl (cleanStep True) acc cs)"
  by (induction cs arbitrary: acc) (simp_all add: cleanStep_plain)

lemma foldl_cleanStep_id: "plainAcc (rev cs @ acc) \<Longrightarrow> foldl (cleanStep True) acc cs = rev cs @ acc"
proof (induction cs arbitrary: acc)
  case (Cons c cs)
  then have "cleanStep True acc c = c # acc" by (simp add: plainAcc_def plainName_def cleanStep_def)
  then show ?case using Cons by simp
qed simp

lemma splitOn_plain: "slash \<notin> set n \<Longrightarrow> splitOn slash n = [n]"
  by (induction n) auto

lemma splitOn_join: "xs \<noteq> [] \<Longrightarrow> \<forall>x \<in> set xs. slash \<notin> set x \<Longrightarrow> splitOn slash (joinWith [slash] xs) = xs"
proof (induction xs)
  case (Cons x xs)
  show ?case
  proof (cases "xs = []")
    case False
    have "splitOn slash (x @ slash # t) = x # splitOn slash t" if "slash \<notin> set x" for t
      using that by (induction x) auto
    then show ?thesis using Cons False by (simp add: joinWith_Cons)
  qed (use Cons.prems splitOn_plain in simp)
qed simp

lemma cleanPath_render:
  assumes "plainAcc acc"
  shows "cleanPath (renderPath True acc) = renderPath True acc"
proof -
  have free: "\<forall>x \<in> set (rev acc). slash \<notin> set x" using assms by (simp add: plainAcc_def list_all_iff plainName_def)
  have "foldl (cleanStep True) [] (splitOn slash (joinWith [slash] (rev acc))) = acc"
  proof (cases "acc = []")
    case False
    then show ?thesis using splitOn_join [OF _ free] foldl_cleanStep_id [of "rev acc" "[]"] assms by simp
  qed (simp add: cleanStep_def)
  then show ?thesis by (simp add: cleanPath_def renderPath_def Let_def cleanStep_def)
qed

text \<open>A plain name joined to an absolute directory.\<close>

lemma joined_path:
  assumes "hasPrefix dir [slash]" and "plainName n"
  obtains acc where "joinPath [dir, n] = renderPath True (n # acc)" "plainAcc (n # acc)"
proof -
  from assms(1) have d: "dir \<noteq> []" "hd dir = slash" by (cases dir; simp add: hasPrefix_def)+
  from joinPath_plain [OF assms(2) d(1)] obtain acc where
    a: "joinPath [dir, n] = renderPath (hd dir = slash) (n # acc)" "acc = foldl (cleanStep (hd dir = slash)) [] (splitOn slash dir)"
    by blast
  have "plainAcc acc" using a(2) d(2) splitOn_sep_free [of _ slash dir] foldl_cleanStep_plain [of "[]"]
    by (simp add: plainAcc_def)
  with assms(2) a(1) d(2) show thesis by (intro that [of acc]) (simp_all add: plainAcc_def)
qed

lemma renderPath_last: "\<exists>x. renderPath True (n # acc) = x @ slash # n"
proof -
  have "\<exists>x. slash # joinWith [slash] (xs @ [n]) = x @ slash # n" for xs
  proof (induction xs)
    case (Cons y ys)
    then obtain x where "slash # joinWith [slash] (ys @ [n]) = x @ slash # n" by blast
    then have "slash # joinWith [slash] ((y # ys) @ [n]) = (slash # y @ x) @ slash # n" by (simp add: joinWith_Cons)
    then show ?case by blast
  qed (intro exI [of _ "[]"], simp)
  from this [of "rev acc"] show ?thesis by (simp add: renderPath_def Let_def)
qed

lemma joined_abs:
  assumes "hasPrefix dir [slash]" and "plainName n"
  shows "absPath cwd (joinPath [dir, n]) = Some (joinPath [dir, n])" and "hasPrefix (joinPath [dir, n]) [slash]"
proof -
  from joined_path [OF assms] obtain acc where
    a: "joinPath [dir, n] = renderPath True (n # acc)" "plainAcc (n # acc)" by blast
  then show p: "hasPrefix (joinPath [dir, n]) [slash]" by (simp add: renderPath_def Let_def hasPrefix_def)
  show "absPath cwd (joinPath [dir, n]) = Some (joinPath [dir, n])"
    using p a cleanPath_render by (simp add: absPath_def)
qed

lemma joined_differ:
  assumes "hasPrefix dir [slash]" and "hasPrefix dir' [slash]" and "plainName n" and "plainName m" and "n \<noteq> m"
  shows "joinPath [dir, n] \<noteq> joinPath [dir', m]"
proof -
  obtain acc where a: "joinPath [dir, n] = renderPath True (n # acc)" using joined_path [OF assms(1,3)] by blast
  obtain acc' where b: "joinPath [dir', m] = renderPath True (m # acc')" using joined_path [OF assms(2,4)] by blast
  obtain x y where xy: "renderPath True (n # acc) = x @ slash # n" "renderPath True (m # acc') = y @ slash # m"
    using renderPath_last [of n acc] renderPath_last [of m acc'] by blast
  have "slash \<notin> set n" "slash \<notin> set m" using assms(3,4) by (simp_all add: plainName_def)
  then have "rev n @ slash # rev x \<noteq> rev m @ slash # rev y" using assms(5) append_sep_inject [of slash "rev n" "rev m"] by simp
  then have "x @ slash # n \<noteq> y @ slash # m" by (metis append.assoc append_Cons append_Nil rev.simps(2) rev_append)
  then show ?thesis using a b xy by simp
qed

section \<open>The Compose command line\<close>

definition fileFlags :: "string list \<Rightarrow> string list" where
  "fileFlags ovs = concat (map (\<lambda>p. [''-f'', p]) ovs)"

lemma overrideArgs_flags: "overrideArgs cwd dir ovs = Some fs \<Longrightarrow> \<exists>ps. fs = fileFlags ps \<and> map (absPath cwd) ovs = map Some ps"
proof (induction ovs arbitrary: fs)
  case Nil
  then show ?case by (simp add: fileFlags_def)
next
  case (Cons ov ovs)
  then obtain p rest where p: "absPath cwd ov = Some p" "overrideArgs cwd dir ovs = Some rest" "fs = ''-f'' # p # rest"
    by (auto split: option.splits if_splits)
  with Cons.IH obtain ps where "rest = fileFlags ps" "map (absPath cwd) ovs = map Some ps" by blast
  with p show ?case by (intro exI [of _ "p # ps"]) (simp add: fileFlags_def)
qed

definition projectOf :: "string option \<Rightarrow> string \<Rightarrow> string" where
  "projectOf cwd composeFile =
     (case absPath cwd composeFile of None \<Rightarrow> [] | Some cf \<Rightarrow> basePath (dirPath cf))"

lemma composeArgs_shape:
  assumes "composeProjectArgsWithOverrides cwd composeFile ovs args = Some argv"
  obtains d f ps where "argv = composeBase (projectOf cwd composeFile) d f @ fileFlags ps @ args"
    "map (absPath cwd) ovs = map Some ps"
proof -
  from assms obtain cf fs where f: "absPath cwd composeFile = Some cf"
    "overrideArgs cwd (dirPath cf) ovs = Some fs"
    "argv = composeBase (basePath (dirPath cf)) (dirPath cf) cf @ fs @ args"
    by (auto simp: composeProjectArgsWithOverrides_def Let_def split: option.splits if_splits)
  from overrideArgs_flags [OF f(2)] obtain ps where "fs = fileFlags ps" "map (absPath cwd) ovs = map Some ps" by blast
  with f show thesis by (intro that [of "dirPath cf" cf ps]) (simp_all add: projectOf_def)
qed

section \<open>Reading labels\<close>

definition inkByte :: "char \<Rightarrow> bool" where
  "inkByte c \<longleftrightarrow> 0x20 < byte c \<and> byte c < 0x7F"

lemma spaceRunes_heads: "list_all (\<lambda>p. p \<noteq> [] \<and> \<not> inkByte (hd p)) spaceRunes"
  by code_simp

lemma stripOne_ink: "inkByte c \<Longrightarrow> stripOne spaceRunes (c # s) = None"
proof -
  assume c: "inkByte c"
  have "\<not> hasPrefix (c # s) p" if "p \<noteq> []" "\<not> inkByte (hd p)" for p
    using that c by (cases p) (auto simp: hasPrefix_def)
  then show ?thesis using spaceRunes_heads unfolding stripOne_None list_all_iff by blast
qed

lemma stripOne_blank:
  "stripOne spaceRunes (CHR 0x20 # s) = Some s" "stripOne spaceRunes (nl # s) = Some s"
  by (simp_all add: spaceRunes_def hasPrefix_def nl_def)

lemma takeWord_ink: "list_all inkByte w \<Longrightarrow> takeWord (w @ CHR 0x20 # s) = (w, CHR 0x20 # s) \<and> takeWord (w @ nl # s) = (w, nl # s)"
  by (induction w) (simp_all add: stripOne_ink stripOne_blank)

lemma fieldsText_word:
  assumes "w \<noteq> []" and "list_all inkByte w" and "b = CHR 0x20 \<or> b = nl"
  shows "fieldsText (w @ b # s) = w # fieldsText (b # s)"
proof -
  obtain c t where w: "w = c # t" using assms(1) by (cases w) auto
  then have "trimPrefixes spaceRunes (w @ b # s) = c # t @ b # s"
    using assms(2) by (simp add: trimPrefixes_id stripOne_ink)
  then show ?thesis using w takeWord_ink [of t s] assms(2,3) by (subst fieldsText.simps) auto
qed

lemma fieldsText_blank: "b = CHR 0x20 \<or> b = nl \<Longrightarrow> fieldsText (b # s) = fieldsText s"
  by (subst (1 2) fieldsText.simps, subst trimPrefixes.simps) (auto simp: stripOne_blank)

lemma fieldsText_Nil: "fieldsText [] = []"
  by (subst fieldsText.simps) (simp add: trimPrefixes_id stripOne_None spaceRunes_def hasPrefix_def)

lemma fieldsText_line: "w \<noteq> [] \<Longrightarrow> list_all inkByte w \<Longrightarrow> fieldsText (w @ [nl]) = [w]"
  using fieldsText_word [of w nl "[]"] fieldsText_blank fieldsText_Nil by simp

lemma fieldsText_two:
  assumes "u \<noteq> []" "list_all inkByte u" "v \<noteq> []" "list_all inkByte v"
  shows "fieldsText (u @ '' '' @ v @ [nl]) = [u, v]"
  using fieldsText_word [OF assms(1,2), of "CHR 0x20" "v @ [nl]"] fieldsText_line [OF assms(3,4)] fieldsText_blank by simp

lemma label_words:
  "0 \<le> n \<Longrightarrow> intText n \<noteq> [] \<and> list_all inkByte (intText n)"
  "sha256Hex body \<noteq> [] \<and> list_all inkByte (sha256Hex body) \<and> length (sha256Hex body) = 64"
proof -
  show "intText n \<noteq> [] \<and> list_all inkByte (intText n)" if "0 \<le> n"
    using that natText_digits [of "nat n"] by (auto simp: intText_def list_all_iff inkByte_def isDigit_def byte_def)
  have "length (sha256Hex body) = 64" "list_all isLowerHex (sha256Hex body)" using sha256Hex_shape by auto
  then show "sha256Hex body \<noteq> [] \<and> list_all inkByte (sha256Hex body) \<and> length (sha256Hex body) = 64"
    by (auto simp: list_all_iff inkByte_def isLowerHex_def isDigit_def byte_def)
qed

end
