(* ===== verification/DriverCandidates.thy ===== *)
theory DriverCandidates
  imports EgressDriver
begin

text \<open>
  The records the egress driver proposes: which grant rows, applied generation and marker each
  candidate of a widening, a narrowing, a recovery and a fail-closed teardown carries.
\<close>

section \<open>The home of a session\<close>

text \<open>What the runtime of a session is found by: its backend, and the fields of the stage directory.
  The driver never changes it.\<close>

type_synonym session_home = "string \<times> string \<times> string \<times> string \<times> string \<times> int"

definition homeOf :: "Session \<Rightarrow> session_home" where
  "homeOf s = (seBackend s, seEnvironment s, seID s, seWorkspace s, seRuntimeID s, seStageLayout s)"

definition isHome :: "session_home \<Rightarrow> session_home \<Rightarrow> bool" where
  "isHome home x \<longleftrightarrow> x = home \<and> fst home \<noteq> ''system''"

definition homed :: "session_home \<Rightarrow> Session \<Rightarrow> bool" where
  [simp]: "homed home s \<longleftrightarrow> isHome home (homeOf s)"

lemma homed_backend: "homed home s \<Longrightarrow> seBackend s \<noteq> ''system''"
  by (auto simp: isHome_def homeOf_def)

lemma homedI: "homeOf s = home \<Longrightarrow> seBackend s \<noteq> ''system'' \<Longrightarrow> homed home s"
  by (auto simp: isHome_def homeOf_def)

lemma homeOf_updates [simp]:
  "homeOf (bumped s) = homeOf s" "homeOf (s\<lparr>seUpdatedAt := t\<rparr>) = homeOf s"
  "homeOf (s\<lparr>seRecordRevision := r\<rparr>) = homeOf s"
  by (simp_all add: homeOf_def bumped_def)

section \<open>Projected records\<close>

lemma outOfModel_same:
  assumes "outOfModel c = outOfModel s"
  shows "seID c = seID s" "seBackend c = seBackend s" "sePersistentEgress c = sePersistentEgress s"
    "seLastFailure c = seLastFailure s" "seRecordRevision c = seRecordRevision s" "homeOf c = homeOf s"
  using assms [THEN arg_cong, of homeOf] assms [THEN arg_cong, of seID] assms [THEN arg_cong, of seBackend]
    assms [THEN arg_cong, of sePersistentEgress] assms [THEN arg_cong, of seLastFailure]
    assms [THEN arg_cong, of seRecordRevision]
  by (simp_all add: outOfModel_def homeOf_def)

lemma durableGeneration_normal [simp]: "durableGeneration (NormalizeProtocolState s) = durableGeneration s"
  by (simp add: durableGeneration_def)

lemma pendingGeneration_normal [simp]: "pendingGeneration (NormalizeProtocolState s) = pendingGeneration s"
  by (simp add: pendingGeneration_def)

lemma state_symbols [simp]:
  "protocolStateDurableGeneration s = durableGeneration s" "protocolStatePendingGeneration s = pendingGeneration s"
  by (simp_all add: protocolStateDurableGeneration_def protocolStatePendingGeneration_def durableGeneration_def
      pendingGeneration_def protocolGeneration_def)

lemma symbols:
  "emptySymbol n = protocolGeneration 0 n" "grantSymbol n = protocolGeneration ProtocolGrantA n"
  by (simp_all add: emptySymbol_def grantSymbol_def protocolGeneration_def)

definition carries :: "Session \<Rightarrow> protocolConcreteGeneration \<Rightarrow> bool" where
  "carries c b \<longleftrightarrow> seEgressGrants c = cgGrants b \<and> seGrantRevision c = cgGrantRevision b"

lemma projectCandidate_carries:
  assumes "projectCandidate st keep a = Inr c" and "\<not> keep \<or> NormalizeProtocolState st \<noteq> paBaseline a"
  shows "outOfModel c = outOfModel (paOriginal a) \<and> validEgressRuntimeState c"
    and "\<exists>b. map_of (paGenerations a) (durableGeneration st) = Some b \<and> carries c b"
proof -
  from projectCandidate_shape [OF assms(1)] assms(2) obtain c0 b rt where
    p: "projectOwner a (NormalizeProtocolState st) = Inr c0"
      "map_of (paGenerations a) (durableGeneration st) = Some b"
      "c = SetEgressRuntimeState (c0\<lparr>seEgressGrants := cgGrants b, seGrantRevision := cgGrantRevision b\<rparr>) rt"
      "validEgressRuntimeState c" by blast
  from projectOwner_frame [OF p(1)] p(3,4)
  show "outOfModel c = outOfModel (paOriginal a) \<and> validEgressRuntimeState c" by simp
  show "\<exists>b. map_of (paGenerations a) (durableGeneration st) = Some b \<and> carries c b"
    using p(2,3) by (simp add: carries_def SetEgressRuntimeState_def)
qed

lemma withRecordFrame_Inr:
  "withRecordFrame frame a = Inr a' \<Longrightarrow>
     a' = a\<lparr>paOriginal := frame\<rparr> \<and> seStatus frame = seStatus (paOriginal a) \<and> validEgressRuntimeState frame"
  by (auto simp: withRecordFrame_def Let_def split: if_splits)

lemma CandidateFrom_carries:
  assumes "CandidateFrom st frame a = Inr c"
  shows "outOfModel c = outOfModel frame \<and> validEgressRuntimeState c"
    and "\<exists>b. map_of (paGenerations a) (durableGeneration st) = Some b \<and> carries c b"
proof -
  from assms obtain a' where a: "withRecordFrame frame a = Inr a'" "projectCandidate st False a' = Inr c"
    by (auto simp: CandidateFrom_def rbind_Inr_iff)
  with projectCandidate_carries [OF a(2)] withRecordFrame_Inr [OF a(1)]
  show "outOfModel c = outOfModel frame \<and> validEgressRuntimeState c"
    "\<exists>b. map_of (paGenerations a) (durableGeneration st) = Some b \<and> carries c b" by simp_all
qed

text \<open>A commit boundary whose target has another durable symbol than the baseline.\<close>

lemma EffectCandidate_carries:
  assumes "EffectCandidate st a = Inr c" and "effectTarget (NormalizeProtocolState st) = Some u"
    and "NormalizeProtocolState u \<noteq> paBaseline a"
  shows "outOfModel c = outOfModel (paOriginal a) \<and> validEgressRuntimeState c"
    and "\<exists>b. map_of (paGenerations a) (durableGeneration u) = Some b \<and> carries c b"
  using assms(1,2) projectCandidate_carries [of u True a c] assms(3)
  by (auto simp: EffectCandidate_def Candidate_def Let_def split: if_splits)

lemma EffectCandidateFrom_carries:
  assumes "EffectCandidateFrom st frame a = Inr c" and "effectTarget (NormalizeProtocolState st) = Some u"
    and "NormalizeProtocolState u \<noteq> paBaseline a"
  shows "outOfModel c = outOfModel frame \<and> validEgressRuntimeState c"
    and "\<exists>b. map_of (paGenerations a) (durableGeneration u) = Some b \<and> carries c b"
proof -
  from assms(1) obtain a' where a: "withRecordFrame frame a = Inr a'" "EffectCandidate st a' = Inr c"
    by (auto simp: EffectCandidateFrom_def rbind_Inr_iff)
  note w = withRecordFrame_Inr [OF a(1)]
  from w assms(3) have b: "NormalizeProtocolState u \<noteq> paBaseline a'" by simp
  from EffectCandidate_carries [OF a(2) assms(2) b] w
  show "outOfModel c = outOfModel frame \<and> validEgressRuntimeState c"
    "\<exists>b. map_of (paGenerations a) (durableGeneration u) = Some b \<and> carries c b" by simp_all
qed

section \<open>Steps of the reducer\<close>

lemma ReduceProtocol_True:
  assumes "ReduceProtocol s e = (t, True)"
  obtains u where "reduceAction (evAction e) (normalizeProtocolBounds zeroBounds) (NormalizeProtocolState s) e = Some u"
    and "t = NormalizeProtocolState u"
  using ReduceProtocolWithin_TrueD [of zeroBounds s e t] assms by (auto simp: ReduceProtocol_def)

text \<open>What each step of the driver does to the fields a projection reads.\<close>

definition symbolsAre :: "ProtocolGeneration \<Rightarrow> ProtocolGeneration \<Rightarrow> ProtocolState \<Rightarrow> bool" where
  "symbolsAre dur pend s \<longleftrightarrow> durableGeneration s = dur \<and> pendingGeneration s = pend"

lemma widenStart_fields:
  assumes "ReduceProtocol s (grantEvent ProtocolWidenStart g) = (t, True)"
  shows "durableGeneration t = durableGeneration s
    \<and> pendingGeneration t = protocolGeneration (psDurableAuthority s OR g) (psDurableRevision s + 1)
    \<and> psOperation t = ProtocolWiden \<and> psDirection t = ProtocolWidenDirection \<and> psStatus t = psStatus s"
proof -
  from assms obtain u where "reduceWidenStart (normalizeProtocolBounds zeroBounds) (NormalizeProtocolState s)
      (grantEvent ProtocolWidenStart g) = Some u" "t = NormalizeProtocolState u"
    by (rule ReduceProtocol_True) (simp add: grantEvent_def)
  then show ?thesis
    by (auto simp: reduceWidenStart_iff grantEvent_def durableGeneration_def pendingGeneration_def normalizeDirection_def)
qed

lemma narrowStart_fields:
  assumes "ReduceProtocol s (grantEvent ProtocolNarrowStart g) = (t, True)"
  shows "durableGeneration t = durableGeneration s
    \<and> pendingGeneration t = protocolGeneration (psDurableAuthority s AND NOT g) (psDurableRevision s + 1)
    \<and> psOperation t = ProtocolNarrow \<and> psDirection t = ProtocolNarrowDirection \<and> psStatus t = psStatus s"
proof -
  from assms obtain u where "reduceNarrowStart (normalizeProtocolBounds zeroBounds) (NormalizeProtocolState s)
      (grantEvent ProtocolNarrowStart g) = Some u" "t = NormalizeProtocolState u"
    by (rule ReduceProtocol_True) (simp add: grantEvent_def)
  then show ?thesis
    by (auto simp: reduceNarrowStart_iff grantEvent_def durableGeneration_def pendingGeneration_def normalizeDirection_def)
qed

lemma sameStep_fields:
  assumes "ReduceProtocol s (outcomeEvent action out ProtocolNoTruth) = (t, True)"
    and "action = ProtocolApplyAction \<or> action = ProtocolInspectAction"
  shows "durableGeneration t = durableGeneration s \<and> pendingGeneration t = pendingGeneration s
    \<and> psOperation t = psOperation s \<and> psDirection t = normalizeDirection (psDirection s) \<and> psStatus t = psStatus s"
    and "action = ProtocolInspectAction \<Longrightarrow> psInspectedGeneration t = pendingGeneration s"
proof -
  from assms(1) obtain u where "reduceAction action (normalizeProtocolBounds zeroBounds) (NormalizeProtocolState s)
      (outcomeEvent action out ProtocolNoTruth) = Some u" "t = NormalizeProtocolState u"
    by (rule ReduceProtocol_True) (simp add: outcomeEvent_def)
  then show "durableGeneration t = durableGeneration s \<and> pendingGeneration t = pendingGeneration s
    \<and> psOperation t = psOperation s \<and> psDirection t = normalizeDirection (psDirection s) \<and> psStatus t = psStatus s"
    "action = ProtocolInspectAction \<Longrightarrow> psInspectedGeneration t = pendingGeneration s"
    using assms(2)
    by (auto simp: reduceApply_iff reduceInspect_iff outcomeEvent_def durableGeneration_def pendingGeneration_def
        normalizeDirection_def normalizeGeneration_def protocolGeneration_def)
qed

lemma widenCommit_fields:
  assumes "ReduceProtocol s (outcomeEvent ProtocolWidenCommit ProtocolKnownNew ProtocolNoTruth) = (t, True)"
  shows "durableGeneration t = pendingGeneration s \<and> pendingGeneration t = pendingGeneration s
    \<and> psOperation t = ProtocolWiden \<and> psDirection t = ProtocolWidenDirection \<and> psStatus t = psStatus s"
proof -
  from assms obtain u where "reduceWidenCommit (NormalizeProtocolState s)
      (outcomeEvent ProtocolWidenCommit ProtocolKnownNew ProtocolNoTruth) = Some u" "t = NormalizeProtocolState u"
    by (rule ReduceProtocol_True) (simp add: outcomeEvent_def)
  then show ?thesis
    by (auto simp: reduceWidenCommit_def outcomeEvent_def durableGeneration_def pendingGeneration_def installPending_def
        normalizeDirection_def split: if_splits)
qed

lemma recoverEgress_fields:
  assumes "ReduceProtocol s (plainEvent ProtocolRecoverEgress) = (t, True)"
  shows "durableGeneration t = durableGeneration s"
proof -
  from assms obtain u where "reduceRecoverEgress (NormalizeProtocolState s) (plainEvent ProtocolRecoverEgress) = Some u"
    "t = NormalizeProtocolState u"
    by (rule ReduceProtocol_True) (simp add: plainEvent_def)
  then show ?thesis
    by (auto simp: reduceRecoverEgress_def durableGeneration_def resetProtocol_def healProtocol_def Let_def split: if_splits)
qed

lemma narrowKnownOld_fields:
  assumes "ReduceProtocol s (outcomeEvent ProtocolNarrowFinalCommit ProtocolKnownOld ProtocolNoTruth) = (t, True)"
  shows "durableGeneration t = durableGeneration s"
proof -
  from assms obtain u where "reduceNarrowFinalCommit (NormalizeProtocolState s)
      (outcomeEvent ProtocolNarrowFinalCommit ProtocolKnownOld ProtocolNoTruth) = Some u" "t = NormalizeProtocolState u"
    by (rule ReduceProtocol_True) (simp add: outcomeEvent_def)
  then show ?thesis
    by (auto simp: reduceNarrowFinalCommit_def outcomeEvent_def durableGeneration_def resetProtocol_def split: if_splits)
qed

section \<open>Adapters of a widening and a narrowing\<close>

lemma mapConcreteTransition_original:
  assumes "mapConcreteTransition s t a st = (a', st')"
  shows "paOriginal a' = paOriginal a"
proof -
  have pair: "bindPair x c y d b = (b', ok) \<Longrightarrow> paOriginal b' = paOriginal b" for x c y d b b' ok
    by (auto simp: bindPair_def dest!: bindGeneration_original split: sum.splits)
  show ?thesis using assms
    by (auto simp: mapConcreteTransition_def Let_def dest!: pair
        split: if_splits transition_direction.splits prod.splits)
qed

lemma NewProtocolAdapter_original [simp]: "paOriginal (fst (NewProtocolAdapter s)) = s"
proof -
  obtain a st where new: "NewProtocolAdapter s = (a, st)" by fastforce
  obtain a1 b1 where 1: "adapterBase s = (a1, b1)" by fastforce
  obtain a2 b2 where 2: "adapterStatus s a1 b1 = (a2, b2)" by fastforce
  obtain a3 b3 where 3: "adapterTransition s a2 (adapterHealth s b2) = (a3, b3)" by fastforce
  have "paOriginal a1 = s"
    using 1 by (auto simp: adapterBase_def emptyAdapter_def dest: bindGeneration_original split: sum.splits)
  then have "paOriginal a2 = s" using adapterStatus_frame [OF 2] by simp
  then have "paOriginal a3 = s"
    using 3 by (auto simp: adapterTransition_def dest: mapConcreteTransition_original split: option.splits if_splits)
  then show ?thesis using new 1 2 3 by (auto simp: NewProtocolAdapter_def Let_def)
qed

lemma rebase_facts:
  assumes "RebaseGeneration symbol a0 = Inr (a, base)" and "paOriginal a0 = s" and "bindableSymbol symbol"
  shows "validEgressRuntimeState s" "seStatus s = StatusRunning" "seEgressTransition s = None"
    "paOriginal a = s" "paBaseline a = base" "durableGeneration base = symbol" "psOperation base = ProtocolIdle"
    "\<exists>g. canonicalEgressGeneration s (seEgressGrants s) (seGrantRevision s) = Some g
       \<and> paGenerations a = [(symbol, concreteBinding s g True)]"
proof -
  let ?f = "(frameOwner a0)\<lparr>paGenerations := []\<rparr>"
  from assms(1,2) obtain b where b: "bindGeneration symbol s True ?f = Inr b"
    "a = b\<lparr>paBaseline := base\<rparr>" "validEgressRuntimeState s" "seStatus s = StatusRunning" "seEgressTransition s = None"
    "base = NormalizeProtocolState (rebasedState s symbol (NormalizeProtocolState (paBaseline a0)))"
    by (auto simp: RebaseGeneration_def Let_def rbind_Inr_iff split: if_splits)
  from b(1) obtain g where g: "canonicalEgressGeneration s (seEgressGrants s) (seGrantRevision s) = Some g"
    "b = ?f\<lparr>paGenerations := [(symbol, concreteBinding s g True)]\<rparr>"
    unfolding bindGeneration_Inr_iff by auto
  have v: "genValid symbol" using assms(3) by (simp add: bindableSymbol_def)
  show "validEgressRuntimeState s" "seStatus s = StatusRunning" "seEgressTransition s = None"
    "paBaseline a = base" by (simp_all add: b)
  show "paOriginal a = s" using b(2) g(2) assms(2) by simp
  show "durableGeneration base = symbol" "psOperation base = ProtocolIdle"
    using v by (simp_all add: b(6) rebasedState_def ownedIdle_def durableGeneration_def protocolGeneration_def)
  show "\<exists>g. canonicalEgressGeneration s (seEgressGrants s) (seGrantRevision s) = Some g
       \<and> paGenerations a = [(symbol, concreteBinding s g True)]" using g b(2) by auto
qed

lemma rebaseVerified_facts:
  assumes "RebaseVerifiedGeneration symbol a0 = Inr (a, base)" and "paOriginal a0 = s" and "bindableSymbol symbol"
  shows "paOriginal a = s" "durableGeneration base = symbol"
    "\<exists>g. canonicalEgressGeneration s (seEgressGrants s) (seGrantRevision s) = Some g
       \<and> paGenerations a = [(symbol, concreteBinding s g False)]"
proof -
  from assms(1) obtain b st c where r: "RebaseGeneration symbol a0 = Inr (b, st)"
    "bindGeneration symbol (paOriginal b) False (b\<lparr>paGenerations := []\<rparr>) = Inr c"
    "base = NormalizeProtocolState st" "a = c\<lparr>paBaseline := base\<rparr>"
    by (auto simp: RebaseVerifiedGeneration_def Let_def rbind_Inr_iff)
  note f = rebase_facts [OF r(1) assms(2,3)]
  from r(2) f(4) show "paOriginal a = s"
    "\<exists>g. canonicalEgressGeneration s (seEgressGrants s) (seGrantRevision s) = Some g
       \<and> paGenerations a = [(symbol, concreteBinding s g False)]"
    unfolding bindGeneration_Inr_iff r(4) by auto
  show "durableGeneration base = symbol" using f(6) r(3) by simp
qed

lemma bind_facts:
  assumes "BindGeneration symbol c a = Inr a'" and "paGenerations a = [(other, b)]" and "other \<noteq> symbol"
  shows "paOriginal a' = paOriginal a" "paBaseline a' = paBaseline a"
    "sePersistentEgress c = sePersistentEgress (paOriginal a)"
    "\<exists>g. canonicalEgressGeneration c (seEgressGrants c) (seGrantRevision c) = Some g
       \<and> paGenerations a' = [(other, b), (symbol, concreteBinding c g False)]"
  using assms unfolding BindGeneration_def bindGeneration_Inr_iff by auto

section \<open>Commit boundaries\<close>

lemma pendingIsDurable_iff: "protocolPendingIsDurable s \<longleftrightarrow> durableGeneration s = pendingGeneration s"
  by (auto simp: protocolPendingIsDurable_def durableGeneration_def pendingGeneration_def protocolGeneration_def)

lemma effectTarget_durable:
  assumes "effectTarget s = Some u" and "psOperation s = ProtocolWiden \<or> psOperation s = ProtocolNarrow"
  shows "durableGeneration u = pendingGeneration s"
proof -
  have keep: "durableGeneration (resetProtocol t r) = durableGeneration t"
    "durableGeneration (healProtocol t) = durableGeneration t" for t r
    by (simp_all add: resetProtocol_def healProtocol_def durableGeneration_def)
  have upd: "durableGeneration (s\<lparr>psRecordedGeneration := g\<rparr>) = durableGeneration s" for g
    by (simp add: durableGeneration_def)
  show ?thesis using assms
    by (auto simp: effectTarget_def keep upd pendingIsDurable_iff split: if_splits)
      (simp_all add: durableGeneration_def pendingGeneration_def)
qed

lemma effectTarget_final:
  assumes "effectTarget s = Some u"
    and "psOperation s = ProtocolWiden \<and> protocolPendingIsDurable s \<or> psOperation s = ProtocolNarrow"
  shows "\<exists>v. u = resetProtocol (healProtocol v) ProtocolSuccess
    \<and> psRecordedGeneration v = pendingGeneration s \<and> psStatus v = ProtocolRunning"
  using assms(2)
proof
  assume "psOperation s = ProtocolWiden \<and> protocolPendingIsDurable s"
  with assms(1) show ?thesis by (simp add: effectTarget_def split: if_splits) (rule exI, rule conjI, erule sym, simp)
next
  assume "psOperation s = ProtocolNarrow"
  with assms(1) show ?thesis by (simp add: effectTarget_def split: if_splits) (rule exI, rule conjI, erule sym, simp)
qed

lemma boundary_candidate:
  assumes "EffectCandidateFrom st frame a = Inr c"
    and "psOperation st = ProtocolWiden \<or> psOperation st = ProtocolNarrow"
    and "pendingGeneration st = new" and "durableGeneration (paBaseline a) \<noteq> new"
    and "map_of (paGenerations a) new = Some b"
  shows "outOfModel c = outOfModel frame \<and> validEgressRuntimeState c \<and> carries c b"
proof -
  from assms(1) obtain u where u: "effectTarget (NormalizeProtocolState st) = Some u"
    by (auto simp: EffectCandidateFrom_def rbind_Inr_iff EffectCandidate_def Let_def split: if_splits option.splits)
  have d: "durableGeneration u = new" using effectTarget_durable [OF u] assms(2,3) by simp
  then have "NormalizeProtocolState u \<noteq> paBaseline a" using assms(4) by (metis durableGeneration_normal)
  from EffectCandidateFrom_carries [OF assms(1) u this] d assms(5) show ?thesis by auto
qed

lemma boundary_candidate_here:
  assumes "EffectCandidate st a = Inr c"
    and "psOperation st = ProtocolWiden \<or> psOperation st = ProtocolNarrow"
    and "pendingGeneration st = new" and "durableGeneration (paBaseline a) \<noteq> new"
    and "map_of (paGenerations a) new = Some b"
  shows "outOfModel c = outOfModel (paOriginal a) \<and> validEgressRuntimeState c \<and> carries c b"
proof -
  from assms(1) obtain u where u: "effectTarget (NormalizeProtocolState st) = Some u"
    by (auto simp: EffectCandidate_def Let_def split: if_splits option.splits)
  have d: "durableGeneration u = new" using effectTarget_durable [OF u] assms(2,3) by simp
  then have "NormalizeProtocolState u \<noteq> paBaseline a" using assms(4) by (metis durableGeneration_normal)
  from EffectCandidate_carries [OF assms(1) u this] d assms(5) show ?thesis by auto
qed

text \<open>After the matched inspection the candidate records the new generation and no marker.\<close>

definition settledOn :: "Session \<Rightarrow> protocolConcreteGeneration \<Rightarrow> bool" where
  "settledOn c b \<longleftrightarrow> carries c b \<and> seAppliedEgressRevision c = cgAppliedRevision b
     \<and> seAppliedEgressHash c = cgAppliedHash b \<and> seEgressTransition c = None \<and> seStatus c = StatusRunning"

lemma final_candidate:
  assumes "EffectCandidateFrom st frame a = Inr c"
    and "psOperation st = ProtocolWiden \<and> durableGeneration st = pendingGeneration st \<or> psOperation st = ProtocolNarrow"
    and "pendingGeneration st = new" and "durableGeneration (paBaseline a) \<noteq> new" and "genValid new"
    and "map_of (paGenerations a) new = Some b"
  shows "settledOn c b"
proof -
  from assms(1) obtain a' u where u: "effectTarget (NormalizeProtocolState st) = Some u" "Candidate u a' = Inr c"
    "a' = a\<lparr>paOriginal := frame\<rparr>"
    using withRecordFrame_Inr
    by (fastforce simp: EffectCandidateFrom_def rbind_Inr_iff EffectCandidate_def Let_def split: if_splits option.splits)
  have d: "durableGeneration u = new" using effectTarget_durable [OF u(1)] assms(2,3) by auto
  then have ne: "NormalizeProtocolState u \<noteq> paBaseline a'"
    using assms(4) u(3) durableGeneration_normal [of u] by fastforce
  have p: "psOperation (NormalizeProtocolState st) = ProtocolWiden \<and> protocolPendingIsDurable (NormalizeProtocolState st)
      \<or> psOperation (NormalizeProtocolState st) = ProtocolNarrow"
    using assms(2) unfolding pendingIsDurable_iff by simp
  from effectTarget_final [OF u(1) p] obtain v where
    v: "u = resetProtocol (healProtocol v) ProtocolSuccess" "psRecordedGeneration v = new" "psStatus v = ProtocolRunning"
    using assms(3) by auto
  have n: "psRecordedGeneration (NormalizeProtocolState u) = new" "psDirection u = ProtocolNoDirection"
    "psStatus u = ProtocolRunning"
    using v(2,3) assms(5) by (simp_all add: v(1) resetProtocol_def healProtocol_def normalizeGeneration_def normalizeDirection_def)
  from u(2) have proj: "projectCandidate u True a' = Inr c" by (simp add: Candidate_def)
  from projectCandidate_shape [OF proj] ne obtain c0 b' rt where
    q: "projectOwner a' (NormalizeProtocolState u) = Inr c0"
    "map_of (paGenerations a') (durableGeneration u) = Some b'"
    "projectRuntime a' (NormalizeProtocolState u) = Inr rt"
    "c = SetEgressRuntimeState (c0\<lparr>seEgressGrants := cgGrants b', seGrantRevision := cgGrantRevision b'\<rparr>) rt"
    by blast
  have b: "b' = b" using q(2) d assms(6) u(3) by simp
  have "rt = \<lparr>ersAppliedRevision = cgAppliedRevision b, ersAppliedHash = cgAppliedHash b, ersTransition = None\<rparr>"
    using q(3) n assms(5,6) u(3) by (auto simp: projectRuntime_def normalizeDirection_def)
  moreover have "seStatus c0 = StatusRunning" using projectOwner_frame [OF q(1)] n(3) by simp
  ultimately show ?thesis unfolding q(4) b
    by (simp add: settledOn_def carries_def SetEgressRuntimeState_def)
qed

section \<open>Recovery\<close>

lemma projectCandidate_unmarked:
  assumes "projectCandidate st False a = Inr c" and "psDirection (NormalizeProtocolState st) = ProtocolNoDirection"
  shows "seEgressTransition c = None"
proof -
  from projectCandidate_shape [OF assms(1)] obtain c0 and b :: protocolConcreteGeneration and rt where
    p: "projectRuntime a (NormalizeProtocolState st) = Inr rt"
      "c = SetEgressRuntimeState (c0\<lparr>seEgressGrants := cgGrants b, seGrantRevision := cgGrantRevision b\<rparr>) rt"
    by (metis (no_types, lifting))
  from p(1) assms(2) have "ersTransition rt = None"
    by (auto simp: projectRuntime_def rbind_Inr_iff split: if_splits)
  then show ?thesis by (simp add: p(2) SetEgressRuntimeState_def)
qed

lemma CandidateFrom_unmarked:
  assumes "CandidateFrom st frame a = Inr c" and "psDirection (NormalizeProtocolState st) = ProtocolNoDirection"
  shows "seEgressTransition c = None"
  using assms projectCandidate_unmarked [OF _ assms(2)] by (auto simp: CandidateFrom_def rbind_Inr_iff)

lemma recoverEgress_direction:
  assumes "ReduceProtocol s (plainEvent ProtocolRecoverEgress) = (t, True)"
  shows "psDirection (NormalizeProtocolState t) = ProtocolNoDirection"
proof -
  from assms obtain u where "reduceRecoverEgress (NormalizeProtocolState s) (plainEvent ProtocolRecoverEgress) = Some u"
    "t = NormalizeProtocolState u"
    by (rule ReduceProtocol_True) (simp add: plainEvent_def)
  then show ?thesis
    by (auto simp: reduceRecoverEgress_def resetProtocol_def Let_def normalizeDirection_def split: if_splits)
qed

lemma rebaseVerified_direction:
  assumes "RebaseVerifiedGeneration symbol a0 = Inr (a, base)"
  shows "psDirection (NormalizeProtocolState base) = ProtocolNoDirection"
proof -
  from assms obtain b st where r: "RebaseGeneration symbol a0 = Inr (b, st)" "base = NormalizeProtocolState st"
    by (auto simp: RebaseVerifiedGeneration_def Let_def rbind_Inr_iff)
  from r(1) have "psDirection st = ProtocolNoDirection"
    by (auto simp: RebaseGeneration_def Let_def rbind_Inr_iff rebasedState_def normalizeDirection_def split: if_splits)
  then show ?thesis by (simp add: r(2) normalizeDirection_def)
qed

text \<open>A candidate of a running state is running.\<close>

lemma CandidateFrom_running:
  assumes "CandidateFrom st frame a = Inr c" and "psStatus st = ProtocolRunning"
  shows "seStatus c = StatusRunning"
proof -
  from assms(1) obtain a' where "projectCandidate st False a' = Inr c"
    by (auto simp: CandidateFrom_def rbind_Inr_iff)
  from projectCandidate_shape [OF this] obtain c0 and b :: protocolConcreteGeneration and rt where
    "projectOwner a' (NormalizeProtocolState st) = Inr c0"
    "c = SetEgressRuntimeState (c0\<lparr>seEgressGrants := cgGrants b, seGrantRevision := cgGrantRevision b\<rparr>) rt"
    by (metis (no_types, lifting))
  then show ?thesis using projectOwner_frame assms(2) by (auto simp: SetEgressRuntimeState_def)
qed

lemma recoverEgress_status:
  assumes "ReduceProtocol s (plainEvent ProtocolRecoverEgress) = (t, True)"
  shows "psStatus t = psStatus s"
proof -
  from assms obtain u where "reduceRecoverEgress (NormalizeProtocolState s) (plainEvent ProtocolRecoverEgress) = Some u"
    "t = NormalizeProtocolState u"
    by (rule ReduceProtocol_True) (simp add: plainEvent_def)
  then show ?thesis
    by (auto simp: reduceRecoverEgress_def resetProtocol_def healProtocol_def Let_def split: if_splits)
qed

lemma rebaseVerified_status:
  assumes "RebaseVerifiedGeneration symbol a0 = Inr (a, base)"
  shows "psStatus base = ProtocolRunning"
proof -
  from assms obtain b st where r: "RebaseGeneration symbol a0 = Inr (b, st)" "base = NormalizeProtocolState st"
    by (auto simp: RebaseVerifiedGeneration_def Let_def rbind_Inr_iff)
  from r(1) have "psStatus st = ProtocolRunning"
    by (auto simp: RebaseGeneration_def Let_def rbind_Inr_iff rebasedState_def ownedIdle_def split: if_splits)
  then show ?thesis by (simp add: r(2))
qed

text \<open>For a narrowing marker the rebuilt operation has a new symbol the baseline does not have.\<close>

lemma mapConcrete_narrow:
  assumes "mapConcreteTransition s t a st = (a', st')" and "tnDirection t = EgressDirectionNarrow"
  shows "psDurableRevision st' = 0 \<and> psPendingRevision st' = 1 \<and> psDirection st' = ProtocolNarrowDirection
    \<or> st' = markProtocolStale st \<or> st' = markProtocolCorrupt st"
  using assms
  by (auto simp: mapConcreteTransition_def Let_def frameTransition_def protocolGeneration_def
      split: if_splits prod.splits)

lemma narrow_baseline:
  assumes "seEgressTransition s = Some t" and "tnDirection t = EgressDirectionNarrow"
  shows "psDurableRevision (snd (NewProtocolAdapter s)) = 0"
proof -
  obtain a1 b1 where 1: "adapterBase s = (a1, b1)" by fastforce
  obtain a2 b2 where 2: "adapterStatus s a1 b1 = (a2, b2)" by fastforce
  obtain a3 b3 where 3: "adapterTransition s a2 (adapterHealth s b2) = (a3, b3)" by fastforce
  have "psDurableRevision initialProtocolState = 0" by code_simp
  then have "psDurableRevision b1 = 0"
    using 1 by (auto simp: adapterBase_def corruptBase_def split: sum.splits)
  then have "psDurableRevision b2 = 0"
    using 2 by (auto simp: adapterStatus_def corruptBase_def markProtocolStale_def Let_def
        split: session_status.splits sum.splits)
  then have h: "psDurableRevision (adapterHealth s b2) = 0"
    by (simp add: adapterHealth_def markProtocolStale_def markProtocolCorrupt_def Let_def)
  have "psDurableRevision b3 = 0"
  proof (cases "psStatus (adapterHealth s b2) = ProtocolRunning \<and> psMode (adapterHealth s b2) = ProtocolNormal")
    case True
    then have "mapConcreteTransition s t a2 (adapterHealth s b2) = (a3, b3)"
      using 3 assms(1) by (simp add: adapterTransition_def)
    from mapConcrete_narrow [OF this assms(2)] h show ?thesis
      by (auto simp: markProtocolStale_def markProtocolCorrupt_def)
  next
    case False
    then show ?thesis using 3 assms(1) h by (auto simp: adapterTransition_def)
  qed
  then show ?thesis
    by (simp add: NewProtocolAdapter_def 1 2 3 Let_def adapterMarker_def)
qed

lemma narrow_pending:
  assumes "EgressTransitionStates a0 = Inr (a, active, recovery)" and "paOriginal a0 = s"
    and "seEgressTransition s = Some t" and "tnDirection t = EgressDirectionNarrow"
  shows "psPendingRevision active = 1"
proof -
  obtain b st where m: "mapConcreteTransition s t a0 ((NormalizeProtocolState (paBaseline a0))
      \<lparr>psHealth := ProtocolHealthy, psMode := ProtocolNormal, psOperation := ProtocolIdle,
       psEffect := ProtocolNoEffect, psResult := ProtocolSuccess\<rparr>) = (b, st)" by fastforce
  have ok: "psHealth st \<noteq> ProtocolStale \<and> psHealth st \<noteq> ProtocolCorrupt \<and> psPendingRevision active = psPendingRevision st"
    using assms(1-3) m
    by (auto simp: EgressTransitionStates_def Let_def rbind_Inr_iff split: if_splits)
  from mapConcrete_narrow [OF m assms(4)] ok show ?thesis
    by (auto simp: markProtocolStale_def markProtocolCorrupt_def)
qed

text \<open>What the driver learns from a persisted marker.\<close>

lemma marked_states:
  assumes v: "validEgressRuntimeState s" and run: "seStatus s = StatusRunning" and t: "seEgressTransition s = Some t"
    and u: "\<not> networkUncertain s"
    and ets: "EgressTransitionStates (fst (NewProtocolAdapter s)) = Inr (a, active, recovery)"
  shows "\<exists>b. map_of (paGenerations a) (durableGeneration active) = Some b \<and> carries s b
         \<and> canonicalEgressGeneration s (seEgressGrants s) (seGrantRevision s) = Some (cgGeneration b)"
    and "durableGeneration recovery = durableGeneration active"
    and "paOriginal a = s" "psStatus recovery = ProtocolRunning"
    and "psDirection active = ProtocolWidenDirection \<or>
         psDirection active = ProtocolNarrowDirection \<and> psOperation active = ProtocolNarrow
         \<and> durableGeneration (paBaseline a) \<noteq> pendingGeneration active
         \<and> (\<exists>p. map_of (paGenerations a) (pendingGeneration active) = Some p \<and> tnCandidateGrants t = cgGrants p
              \<and> canonicalEgressGeneration s (cgGrants p) (cgGrantRevision p) = Some (cgGeneration p))"
proof -
  obtain a0 st0 where new: "NewProtocolAdapter s = (a0, st0)" by fastforce
  from EgressTransitionStates_valid [OF v run t u new] ets new have
    f: "freshFrame s st0 a" "framesRecord a active" "psStatus active = ProtocolRunning"
      "psDirection active = ProtocolWidenDirection \<or>
       psDirection active = ProtocolNarrowDirection \<and> psOperation active = ProtocolNarrow"
      "recovery = active\<lparr>psHealth := ProtocolUncertain, psMode := ProtocolBlocked,
         psOperation := ProtocolRecover, psEffect := ProtocolInspect, psResult := ProtocolFailure\<rparr>"
    by (auto)
  show o: "paOriginal a = s" using f(1) by (simp add: freshFrame_def)
  show "durableGeneration recovery = durableGeneration active" by (simp add: f(5) durableGeneration_def)
  show "psStatus recovery = ProtocolRunning" using f(3) by (simp add: f(5))
  have "genInv a"
    using NewProtocolAdapter_genInv [of s] keepsGen_EgressTransitionStates [OF ets] by (simp add: keepsGen_def)
  then have canon: "canonicalEgressGeneration s (cgGrants b) (cgGrantRevision b) = Some (cgGeneration b)"
    if "map_of (paGenerations a) x = Some b" for x b
    using map_of_SomeD [OF that] o by (auto simp: genInv_def)
  from f(2) o obtain b where b: "map_of (paGenerations a) (durableGeneration active) = Some b" "carries s b"
    by (auto simp: framesRecord_def carries_def)
  with canon [OF b(1)] show "\<exists>b. map_of (paGenerations a) (durableGeneration active) = Some b \<and> carries s b
         \<and> canonicalEgressGeneration s (seEgressGrants s) (seGrantRevision s) = Some (cgGeneration b)"
    by (auto simp: carries_def)
  show "psDirection active = ProtocolWidenDirection \<or>
         psDirection active = ProtocolNarrowDirection \<and> psOperation active = ProtocolNarrow
         \<and> durableGeneration (paBaseline a) \<noteq> pendingGeneration active
         \<and> (\<exists>p. map_of (paGenerations a) (pendingGeneration active) = Some p \<and> tnCandidateGrants t = cgGrants p
              \<and> canonicalEgressGeneration s (cgGrants p) (cgGrantRevision p) = Some (cgGeneration p))"
    using f(4)
  proof
    assume n: "psDirection active = ProtocolNarrowDirection \<and> psOperation active = ProtocolNarrow"
    with f(2) o t obtain p where p: "map_of (paGenerations a) (pendingGeneration active) = Some p"
      "t = transitionOf ProtocolNarrowDirection p" by (auto simp: framesRecord_def)
    have d: "tnDirection t = EgressDirectionNarrow" by (simp add: p(2) transitionOf_def)
    have "paBaseline a = st0" using f(1) by (simp add: freshFrame_def)
    with narrow_baseline [OF t d] new narrow_pending [OF ets NewProtocolAdapter_original t d]
    have "durableGeneration (paBaseline a) \<noteq> pendingGeneration active"
      by (simp add: durableGeneration_def pendingGeneration_def protocolGeneration_def)
    with n p canon [OF p(1)] show ?thesis by (auto simp: transitionOf_def)
  qed simp
qed

end
