(* ===== verification/EgressDriverLaws.thy ===== *)
theory EgressDriverLaws
  imports DriverCandidates
begin

text \<open>
  What the egress driver guarantees. The network boundary is an interface, the locale
  \<open>egress_boundary\<close>: an apply may leave the old or the new authority, a positive inspection names
  what is served, and a teardown that reports success leaves nothing. Under these laws alone, and
  whatever system calls fail, the boundary never serves a destination that the session record does
  not hold.
\<close>

section \<open>Authority of a record\<close>

definition authorityOf :: "Session \<Rightarrow> Destination set" where
  "authorityOf s = set (map ruleDestination (sePersistentEgress s) @ map grantDestination (seEgressGrants s))"

lemma authorityOf_cong:
  "sePersistentEgress s = sePersistentEgress t \<Longrightarrow> seEgressGrants s = seEgressGrants t \<Longrightarrow> authorityOf s = authorityOf t"
  by (simp add: authorityOf_def)

lemma authorityOf_updates [simp]:
  "authorityOf (bumped s) = authorityOf s" "authorityOf (s\<lparr>seUpdatedAt := t\<rparr>) = authorityOf s"
  by (simp_all add: authorityOf_def bumped_def)

lemma addViews_subset: "set (addViews seen out ds) \<subseteq> set out \<union> set ds"
  by (induction seen out ds rule: addViews.induct) (auto simp: Let_def)

lemma views_within: "set (sessionEgressViews s) \<subseteq> authorityOf s"
  using addViews_subset [of "[]" "[]"] unfolding sessionEgressViews_def authorityOf_def by fastforce

text \<open>On exact destinations the key of the code identifies the pair, so the views are the canonical
  destinations of the record's generation.\<close>

lemma egressKey_exact:
  assumes "exactDestination d" and "exactDestination e"
  shows "egressKey (destHost d) (destPort d) = egressKey (destHost e) (destPort e) \<longleftrightarrow> d = e"
proof
  assume k: "egressKey (destHost d) (destPort d) = egressKey (destHost e) (destPort e)"
  have "CHR '':'' \<notin> set (destHost d)" "CHR '':'' \<notin> set (destHost e)"
    using assms ValidateExactEgress_no_colon by (auto simp: exactDestination_def)
  from egressKey_inject [OF this k] show "d = e" by (cases d, cases e) simp
qed simp

lemma addViews_canonical:
  assumes "list_all exactDestination (out @ ds)" and "seen = rev (map (\<lambda>d. egressKey (destHost d) (destPort d)) out)"
  shows "addViews seen out ds = addDestinations out ds"
  using assms
proof (induction ds arbitrary: seen out)
  case (Cons d ds)
  have "egressKey (destHost d) (destPort d) \<in> set seen \<longleftrightarrow> d \<in> set out"
    using Cons.prems egressKey_exact by (force simp: list_all_iff)
  then show ?case using Cons.IH [of out seen] Cons.IH [of "out @ [d]"] Cons.prems by (auto simp: Let_def)
qed simp

lemma canonical_views:
  assumes "canonicalEgressGeneration s (seEgressGrants s) (seGrantRevision s) = Some g"
  shows "\<exists>body. Build (sessionEgressViews s) (seGrantRevision s) = Inr (g, body)"
    and "set (sessionEgressViews s) = authorityOf s"
proof -
  let ?ds = "map ruleDestination (sePersistentEgress s) @ map grantDestination (seEgressGrants s)"
  obtain body where b: "Build (addDestinations [] ?ds) (seGrantRevision s) = Inr (g, body)"
    using assms by (auto simp: canonicalEgressGeneration_def split: sum.splits prod.splits)
  have e: "set (addDestinations [] ?ds) = set ?ds" using addDestinations_props [of "[]" ?ds] by simp
  have "list_all exactDestination ?ds" using b unfolding Build_Inr_iff list_all_iff e by blast
  then have v: "sessionEgressViews s = addDestinations [] ?ds"
    unfolding sessionEgressViews_def by (intro addViews_canonical) simp_all
  show "\<exists>body. Build (sessionEgressViews s) (seGrantRevision s) = Inr (g, body)" using b v by auto
  show "set (sessionEgressViews s) = authorityOf s" unfolding v e authorityOf_def ..
qed

lemma sessionGeneration_canonical:
  "canonicalEgressGeneration s (seEgressGrants s) (seGrantRevision s) = Some g \<Longrightarrow> sessionGeneration s = Inr g"
  using canonical_views(1) by (fastforce simp: sessionGeneration_def)

section \<open>What a commit leaves in the store\<close>

text \<open>The records a reader may find: the visible one and, with \<open>dur\<close>, the one a crash would leave.\<close>

definition held :: "bool \<Rightarrow> string \<Rightarrow> world \<Rightarrow> Session set" where
  "held dur i w = {s. storedSession i w s \<or> dur \<and> storedSession i (w\<lparr>wDir := wDurable w\<rparr>) s}"

lemma held_frame: "diskFrame w w' \<Longrightarrow> held dur i w' = held dur i w"
  by (simp add: held_def diskFrame_def storedSession_def lookupNode_def)

lemma writeLocked_held:
  assumes "writeLocked c False w = (r, w')" and "seBackend c \<noteq> ''system''"
  shows "r = Inr (bumped c) \<and> held dur (seID c) w' = {bumped c}
    \<or> r = Inl ErrCommitUncertain \<and> held dur (seID c) w' \<subseteq> insert (bumped c) (held dur (seID c) w)
    \<or> (\<exists>e. r = Inl e \<and> e \<noteq> ErrCommitUncertain \<and> held dur (seID c) w' = held dur (seID c) w)"
proof (cases "storedOver c w w'")
  case False
  with writeLocked_run [OF assms(1)] show ?thesis using held_frame by blast
next
  case True
  let ?n = "recordName (seID c)"
  have v: "validateRecord c = Inr ()" and i: "seID c \<noteq> []"
    using True by (auto simp: storedOver_def validateRecord_Inr)
  from storedOver_reads_back [OF True assms(2)] obtain bs where
    bs: "lookupNode ?n w' = Some (RecordFile bs True)" "decodeRecord (seID c) bs = Inr (bumped c)" by blast
  then have vis: "storedSession (seID c) w' s \<longleftrightarrow> s = bumped c" for s
    using i by (auto simp: storedSession_def)
  from assms(1) v obtain bs' q where a: "encodeRecord (bumped c) = Inr bs'"
    "writeRecordAtomic ?n bs' False w = (q, w')" "r = rbind q (\<lambda>_. Inr (bumped c))"
    using True by (auto simp: writeLocked_def bindIO_run bumped_def [symmetric] liftIO_def retIO_def storedOver_def)
  have same: "RecordFile bs' True = RecordFile bs True" if "lookupNode ?n w' = Some (RecordFile bs' True)"
    using that bs(1) by simp
  from writeRecordAtomic_run [OF a(2)] show ?thesis
  proof (elim disjE conjE)
    assume s: "q = Inr ()" "installedOver ?n bs' w w'" "map_of (wDurable w') ?n = Some (RecordFile bs' True)"
    then have "bs' = bs" using same by (simp add: installedOver_def)
    then have "storedSession (seID c) (w'\<lparr>wDir := wDurable w'\<rparr>) s \<longleftrightarrow> s = bumped c" for s
      using s(3) bs(2) i by (auto simp: storedSession_def lookupNode_def)
    then show ?thesis using s(1) a(3) vis by (auto simp: held_def)
  next
    assume s: "q = Inl ErrCommitUncertain" "wDurable w' = wDurable w"
    then have "storedSession (seID c) (w'\<lparr>wDir := wDurable w'\<rparr>) s = storedSession (seID c) (w\<lparr>wDir := wDurable w\<rparr>) s" for s
      by (simp add: storedSession_def lookupNode_def)
    then show ?thesis using s(1) a(3) vis by (auto simp: held_def)
  next
    assume "diskFrame w w'" and "q = Inl ErrOS"
    with a(3) held_frame show ?thesis by fastforce
  qed simp
qed

lemma Commit_held:
  assumes "Commit s c w = (r, w')" and "seBackend c \<noteq> ''system''"
  shows "r = Inr (bumped c) \<and> seID c = seID s \<and> held dur (seID s) w' = {bumped c}
    \<or> r = Inl ErrCommitUncertain \<and> held dur (seID s) w' \<subseteq> insert (bumped c) (held dur (seID s) w)
    \<or> (\<exists>e. r = Inl e \<and> e \<noteq> ErrCommitUncertain \<and> held dur (seID s) w' = held dur (seID s) w)"
proof (cases "seID c \<noteq> seID s \<or> seRecordRevision c \<noteq> seRecordRevision s")
  case True
  with assms show ?thesis by (auto simp: Commit_def failIO_def)
next
  case False
  then have i: "seID c = seID s" by simp
  from assms(1) False have "writeLocked c False w = (r, w')" by (simp add: Commit_def)
  from writeLocked_held [OF this assms(2), of dur] show ?thesis unfolding i by blast
qed

section \<open>Reasoning about driver computations\<close>

definition runs :: "('h drive \<Rightarrow> bool) \<Rightarrow> ('h, 'a) driven \<Rightarrow> ('a \<Rightarrow> 'h drive \<Rightarrow> bool) \<Rightarrow> bool" where
  "runs P m Q \<longleftrightarrow> (\<forall>st r st'. P st \<longrightarrow> m st = (r, st') \<longrightarrow> Q r st')"

lemma runsD: "runs P m Q \<Longrightarrow> P st \<Longrightarrow> m st = (r, st') \<Longrightarrow> Q r st'"
  by (simp add: runs_def)

lemma runs_bind:
  assumes "runs P m R" and "\<And>x. runs (R x) (f x) Q"
  shows "runs P (bindD m f) Q"
  unfolding runs_def
proof (intro allI impI)
  fix st r st' assume "P st" and run: "bindD m f st = (r, st')"
  obtain x s1 where m: "m st = (x, s1)" by fastforce
  from runsD [OF assms(1) \<open>P st\<close> m] have "R x s1" .
  moreover have "f x s1 = (r, st')" using run m by (simp add: bindD_def)
  ultimately show "Q r st'" by (rule runsD [OF assms(2)])
qed

lemma runs_ret: "(\<And>st. P st \<Longrightarrow> Q x st) \<Longrightarrow> runs P (retD x) Q"
  by (simp add: runs_def retD_def)

lemma runs_weaken: "runs P m Q \<Longrightarrow> (\<And>st. P' st \<Longrightarrow> P st) \<Longrightarrow> (\<And>r st. Q r st \<Longrightarrow> Q' r st) \<Longrightarrow> runs P' m Q'"
  unfolding runs_def by blast

lemma runs_if: "(b \<Longrightarrow> runs P m Q) \<Longrightarrow> (\<not> b \<Longrightarrow> runs P n Q) \<Longrightarrow> runs P (if b then m else n) Q"
  by simp

lemma runs_sum:
  "(\<And>e. x = Inl e \<Longrightarrow> runs P (f e) Q) \<Longrightarrow> (\<And>y. x = Inr y \<Longrightarrow> runs P (g y) Q)
   \<Longrightarrow> runs P (case x of Inl e \<Rightarrow> f e | Inr y \<Rightarrow> g y) Q"
  by (cases x) simp_all

lemma runs_pair: "(\<And>a b. x = (a, b) \<Longrightarrow> runs P (f a b) Q) \<Longrightarrow> runs P (case x of (a, b) \<Rightarrow> f a b) Q"
  by (cases x) simp

lemma runs_fact: "(C \<Longrightarrow> runs P m Q) \<Longrightarrow> (\<And>st. P st \<Longrightarrow> C) \<Longrightarrow> runs P m Q"
  by (auto simp: runs_def)

text \<open>
  The invariant. \<open>A\<close> bounds what the boundary may serve, \<open>B\<close> what every record that may be found
  grants at least, \<open>T\<close> is the transaction's session; the log has only safe states.
\<close>

definition safeAt :: "('h \<Rightarrow> Destination set) \<Rightarrow> bool \<Rightarrow> string \<Rightarrow> world \<times> 'h \<Rightarrow> bool" where
  "safeAt serves dur i wh \<longleftrightarrow> (\<forall>s \<in> held dur i (fst wh). serves (snd wh) \<subseteq> authorityOf s)"

definition safeEnd :: "('h \<Rightarrow> Destination set) \<Rightarrow> ('h \<Rightarrow> bool) \<Rightarrow> bool \<Rightarrow> string \<Rightarrow> 'h drive \<Rightarrow> bool" where
  "safeEnd serves okH dur i st \<longleftrightarrow>
     okH (dvNet st) \<and> safeAt serves dur i (dvWorld st, dvNet st) \<and> list_all (safeAt serves dur i) (dvLog st)"

definition egressInv ::
  "('h \<Rightarrow> Destination set) \<Rightarrow> ('h \<Rightarrow> bool) \<Rightarrow> session_home \<Rightarrow> bool \<Rightarrow> Destination set \<Rightarrow> Destination set \<Rightarrow> Session
   \<Rightarrow> 'h drive \<Rightarrow> bool" where
  "egressInv serves okH home dur A B T st \<longleftrightarrow>
     okH (dvNet st) \<and> serves (dvNet st) \<subseteq> A \<and> A \<subseteq> B \<and> B \<subseteq> authorityOf T
   \<and> (\<forall>s \<in> held dur (seID T) (dvWorld st). B \<subseteq> authorityOf s)
   \<and> dvTx st = T \<and> homed home T \<and> list_all (safeAt serves dur (seID T)) (dvLog st)"

lemma egressInv_safe: "egressInv serves okH home dur A B T st \<Longrightarrow> safeEnd serves okH dur (seID T) st"
  by (fastforce simp: egressInv_def safeEnd_def safeAt_def)

lemma egressInv_weaken:
  "egressInv serves okH home dur A B T st \<Longrightarrow> A \<subseteq> A' \<Longrightarrow> A' \<subseteq> B' \<Longrightarrow> B' \<subseteq> B \<Longrightarrow> egressInv serves okH home dur A' B' T st"
  by (fastforce simp: egressInv_def)

lemma runs_withTx:
  assumes "runs (\<lambda>st. egressInv serves okH home dur A B T st \<and> W st) (f T) Q"
  shows "runs (\<lambda>st. egressInv serves okH home dur A B T st \<and> W st) (bindD txSession f) Q"
  using assms by (simp add: runs_def bindD_def txSession_def egressInv_def)

text \<open>The visible record is the transaction's session.\<close>

definition kept :: "bool \<Rightarrow> Session \<Rightarrow> world \<Rightarrow> bool" where
  "kept dur T w \<longleftrightarrow> (\<not> dur \<longrightarrow> held dur (seID T) w = {T})"

lemma runs_commit:
  assumes "A \<subseteq> authorityOf c" and "homed home c"
  shows "runs (\<lambda>st. egressInv serves okH home dur A B T st \<and> N (dvNet st)) (txCommit c)
    (\<lambda>r st. case r of
       Inr _ \<Rightarrow> seID c = seID T \<and> egressInv serves okH home dur A (authorityOf c) (bumped c) st
                  \<and> kept dur (bumped c) (dvWorld st) \<and> N (dvNet st)
     | Inl e \<Rightarrow> egressInv serves okH home dur A (if e = ErrCommitUncertain then A else B) T st)"
  unfolding runs_def
proof (intro allI impI, elim conjE)
  fix st r st' assume p: "egressInv serves okH home dur A B T st" "N (dvNet st)" and run: "txCommit c st = (r, st')"
  then have t: "dvTx st = T" by (simp add: egressInv_def)
  obtain q w where c: "Commit T c (dvWorld st) = (q, w)" by fastforce
  from Commit_held [OF c homed_backend [OF assms(2)], of dur] consider
      (new) "q = Inr (bumped c)" "seID c = seID T" "held dur (seID T) w = {bumped c}"
    | (unknown) "q = Inl ErrCommitUncertain" "held dur (seID T) w \<subseteq> insert (bumped c) (held dur (seID T) (dvWorld st))"
    | (old) e where "q = Inl e" "e \<noteq> ErrCommitUncertain" "held dur (seID T) w = held dur (seID T) (dvWorld st)"
    by blast
  then show "case r of
       Inr _ \<Rightarrow> seID c = seID T \<and> egressInv serves okH home dur A (authorityOf c) (bumped c) st'
                  \<and> kept dur (bumped c) (dvWorld st') \<and> N (dvNet st')
     | Inl e \<Rightarrow> egressInv serves okH home dur A (if e = ErrCommitUncertain then A else B) T st'"
  proof cases
    case new
    then have "r = Inr ()" "st' = logged (st\<lparr>dvWorld := w, dvTx := bumped c\<rparr>)"
      using run t c by (simp_all add: txCommit_def)
    then show ?thesis using new p assms by (auto simp: egressInv_def logged_def safeAt_def kept_def)
  next
    case unknown
    then have "r = Inl ErrCommitUncertain" "st' = logged (st\<lparr>dvWorld := w\<rparr>)"
      using run t c by (simp_all add: txCommit_def)
    then show ?thesis using unknown p assms by (fastforce simp: egressInv_def logged_def safeAt_def)
  next
    case old
    then have "r = Inl e" "st' = logged (st\<lparr>dvWorld := w\<rparr>)"
      using run t c by (simp_all add: txCommit_def)
    then show ?thesis using old p assms by (fastforce simp: egressInv_def logged_def safeAt_def)
  qed
qed

lemma runs_commitThen:
  assumes "A \<subseteq> authorityOf c" and "homed home c"
    and "seID c = seID T \<Longrightarrow> runs (\<lambda>st. egressInv serves okH home dur A (authorityOf c) (bumped c) st
           \<and> kept dur (bumped c) (dvWorld st) \<and> N (dvNet st)) (f (Inr ())) Q"
    and "\<And>e. runs (\<lambda>st. egressInv serves okH home dur A (if e = ErrCommitUncertain then A else B) T st \<and> True) (f (Inl e)) Q"
  shows "runs (\<lambda>st. egressInv serves okH home dur A B T st \<and> N (dvNet st)) (bindD (txCommit c) f) Q"
proof (rule runs_bind [OF runs_commit [OF assms(1,2)]])
  fix r :: "(session_error, unit) res"
  show "runs (\<lambda>st. case r of
       Inr _ \<Rightarrow> seID c = seID T \<and> egressInv serves okH home dur A (authorityOf c) (bumped c) st
                  \<and> kept dur (bumped c) (dvWorld st) \<and> N (dvNet st)
     | Inl e \<Rightarrow> egressInv serves okH home dur A (if e = ErrCommitUncertain then A else B) T st) (f r) Q"
  proof (cases r)
    case (Inl e)
    then show ?thesis using assms(4) by simp
  next
    case (Inr u)
    then show ?thesis using assms(3) unfolding runs_def by auto
  qed
qed

text \<open>An effect on the boundary, by what it does to the boundary state alone.\<close>

lemma runs_net:
  assumes "\<And>h r h'. okH h \<Longrightarrow> serves h \<subseteq> A \<Longrightarrow> C h \<Longrightarrow> f h = (r, h') \<Longrightarrow> okH h' \<and> serves h' \<subseteq> A' r \<and> C' r h'"
    and "\<And>r. A' r \<subseteq> B"
  shows "runs (\<lambda>st. egressInv serves okH home dur A B T st \<and> W (dvWorld st) \<and> C (dvNet st)) (onNet f)
    (\<lambda>r st. egressInv serves okH home dur (A' r) B T st \<and> W (dvWorld st) \<and> C' r (dvNet st))"
  unfolding runs_def
proof (intro allI impI, elim conjE)
  fix st r st' assume p: "egressInv serves okH home dur A B T st" "C (dvNet st)" "W (dvWorld st)"
    and run: "onNet f st = (r, st')"
  obtain q h where f: "f (dvNet st) = (q, h)" by fastforce
  with run have st: "r = q" "st' = logged (st\<lparr>dvNet := h\<rparr>)" by (simp_all add: onNet_def)
  from p f assms(1) [of "dvNet st" q h] have "okH h \<and> serves h \<subseteq> A' q \<and> C' q h" by (simp add: egressInv_def)
  with p(1,3) assms(2) [of q]
  show "egressInv serves okH home dur (A' r) B T st' \<and> W (dvWorld st') \<and> C' r (dvNet st')"
    unfolding st by (fastforce simp: egressInv_def logged_def safeAt_def)
qed

section \<open>The interface of the network boundary\<close>

locale egress_boundary =
  fixes D :: "('h, 'app) egress_deps"
    and serves :: "'h \<Rightarrow> Destination set"
    and okH :: "'h \<Rightarrow> bool"
    and K :: "SessionGrant list set"
    and home :: session_home
  assumes begin_law: "homed home s \<Longrightarrow> okH h \<Longrightarrow> V \<in> K \<Longrightarrow> edBegin D s V h = (r, h1) \<Longrightarrow>
      okH h1 \<and> serves h1 \<subseteq> serves h \<union> set V"
    and applied_law: "homed home s \<Longrightarrow> okH h \<Longrightarrow> V \<in> K \<Longrightarrow> edBegin D s V h = (Inr a, h1) \<Longrightarrow> edInspectApplied D a h1 = (q, h2) \<Longrightarrow>
      okH h2 \<and> serves h2 \<subseteq> serves h1
      \<and> (\<forall>g W n b. q = Inr g \<and> W \<in> K \<and> Build W n = Inr (g, b) \<longrightarrow> serves h2 = set W)"
    and inspect_law: "homed home s \<Longrightarrow> okH h \<Longrightarrow> edInspect D s h = (q, h1) \<Longrightarrow>
      okH h1 \<and> serves h1 \<subseteq> serves h
      \<and> (\<forall>g W n b. q = Inr g \<and> W \<in> K \<and> Build W n = Inr (g, b) \<longrightarrow> serves h1 = set W)"
    and apply_law: "homed home s \<Longrightarrow> okH h \<Longrightarrow> V \<in> K \<Longrightarrow> edApply D s V h = (r', h1) \<Longrightarrow>
      okH h1 \<and> serves h1 \<subseteq> serves h \<union> set V \<and> (r' = Inr () \<longrightarrow> serves h1 = set V)"
    and teardown_law: "homed home s \<Longrightarrow> okH h \<Longrightarrow> edTeardown D s h = (r', h1) \<Longrightarrow>
      okH h1 \<and> serves h1 \<subseteq> serves h \<and> (r' = Inr () \<longrightarrow> serves h1 = {})"
begin

lemma runs_begin:
  assumes s: "homed home s" and "V \<in> K" and "set V \<subseteq> B" and "A \<subseteq> B"
  shows "runs (\<lambda>st. egressInv serves okH home dur A B T st \<and> W (dvWorld st)) (onNet (edBegin D s V))
    (\<lambda>r st. egressInv serves okH home dur (A \<union> set V) B T st \<and> W (dvWorld st)
       \<and> (\<forall>a. r = Inr a \<longrightarrow> (\<exists>h. okH h \<and> edBegin D s V h = (Inr a, dvNet st))))"
proof -
  have "runs (\<lambda>st. egressInv serves okH home dur A B T st \<and> W (dvWorld st) \<and> True) (onNet (edBegin D s V))
    (\<lambda>r st. egressInv serves okH home dur (A \<union> set V) B T st \<and> W (dvWorld st)
       \<and> (\<forall>a. r = Inr a \<longrightarrow> (\<exists>h. okH h \<and> edBegin D s V h = (Inr a, dvNet st))))"
    by (rule runs_net [of okH serves A "\<lambda>_. True" _ "\<lambda>_. A \<union> set V"
        "\<lambda>r h1. \<forall>a. r = Inr a \<longrightarrow> (\<exists>h. okH h \<and> edBegin D s V h = (Inr a, h1))"])
      (use begin_law [OF s _ assms(2)] assms(3,4) in \<open>blast+\<close>)
  then show ?thesis by simp
qed

lemma runs_applied:
  assumes s: "homed home s" and "V \<in> K" and "A \<subseteq> B"
  shows "runs (\<lambda>st. egressInv serves okH home dur A B T st \<and> W (dvWorld st)
      \<and> (\<exists>h. okH h \<and> edBegin D s V h = (Inr a, dvNet st)))
    (onNet (edInspectApplied D a))
    (\<lambda>q st. egressInv serves okH home dur A B T st \<and> W (dvWorld st)
       \<and> (\<forall>g U n b. q = Inr g \<and> U \<in> K \<and> Build U n = Inr (g, b) \<longrightarrow> serves (dvNet st) = set U))"
  by (rule runs_net [of okH serves A "\<lambda>h1. \<exists>h. okH h \<and> edBegin D s V h = (Inr a, h1)" _ "\<lambda>_. A"
        "\<lambda>q h2. \<forall>g U n b. q = Inr g \<and> U \<in> K \<and> Build U n = Inr (g, b) \<longrightarrow> serves h2 = set U"])
    (use applied_law [OF s _ assms(2)] assms(3) in \<open>blast+\<close>)

lemma runs_inspect:
  assumes s: "homed home s" and "A \<subseteq> B"
  shows "runs (\<lambda>st. egressInv serves okH home dur A B T st \<and> W (dvWorld st)) (onNet (edInspect D s))
    (\<lambda>q st. egressInv serves okH home dur A B T st \<and> W (dvWorld st)
       \<and> (\<forall>g U n b. q = Inr g \<and> U \<in> K \<and> Build U n = Inr (g, b) \<longrightarrow> serves (dvNet st) = set U))"
proof -
  have "runs (\<lambda>st. egressInv serves okH home dur A B T st \<and> W (dvWorld st) \<and> True) (onNet (edInspect D s))
    (\<lambda>q st. egressInv serves okH home dur A B T st \<and> W (dvWorld st)
       \<and> (\<forall>g U n b. q = Inr g \<and> U \<in> K \<and> Build U n = Inr (g, b) \<longrightarrow> serves (dvNet st) = set U))"
    by (rule runs_net [of okH serves A "\<lambda>_. True" _ "\<lambda>_. A"
        "\<lambda>q h2. \<forall>g U n b. q = Inr g \<and> U \<in> K \<and> Build U n = Inr (g, b) \<longrightarrow> serves h2 = set U"])
      (use inspect_law [OF s] assms in \<open>blast+\<close>)
  then show ?thesis by simp
qed

lemma runs_apply:
  assumes s: "homed home s" and "V \<in> K" and "set V \<subseteq> B" and "A \<subseteq> B"
  shows "runs (\<lambda>st. egressInv serves okH home dur A B T st \<and> W (dvWorld st)) (onNet (edApply D s V))
    (\<lambda>r st. egressInv serves okH home dur (A \<union> set V) B T st \<and> W (dvWorld st)
      \<and> (r = Inr () \<longrightarrow> serves (dvNet st) = set V))"
proof -
  have "runs (\<lambda>st. egressInv serves okH home dur A B T st \<and> W (dvWorld st) \<and> True) (onNet (edApply D s V))
    (\<lambda>r st. egressInv serves okH home dur (A \<union> set V) B T st \<and> W (dvWorld st)
      \<and> (r = Inr () \<longrightarrow> serves (dvNet st) = set V))"
    by (rule runs_net [of okH serves A "\<lambda>_. True" _ "\<lambda>r. A \<union> set V" "\<lambda>r h. r = Inr () \<longrightarrow> serves h = set V"])
      (use apply_law [OF s _ assms(2)] assms(3,4) in \<open>blast+\<close>)
  then show ?thesis by simp
qed

lemma runs_teardown:
  assumes s: "homed home s" and "A \<subseteq> B"
  shows "runs (egressInv serves okH home dur A B T) (onNet (edTeardown D s))
    (\<lambda>r st. egressInv serves okH home dur (if r = Inr () then {} else A) B T st)"
proof -
  have "runs (\<lambda>st. egressInv serves okH home dur A B T st \<and> True \<and> True) (onNet (edTeardown D s))
    (\<lambda>r st. egressInv serves okH home dur (if r = Inr () then {} else A) B T st \<and> True \<and> True)"
    by (rule runs_net [of okH serves A "\<lambda>_. True" _ "\<lambda>r. if r = Inr () then {} else A" "\<lambda>_ _. True"],
        use teardown_law [OF s] in \<open>simp, blast\<close>) (use assms in simp)
  then show ?thesis by simp
qed

text \<open>The same rules for an effect and what follows it.\<close>

definition namedBy :: "Generation \<Rightarrow> 'h \<Rightarrow> bool" where
  "namedBy g h \<longleftrightarrow> (\<forall>U n b. U \<in> K \<and> Build U n = Inr (g, b) \<longrightarrow> serves h = set U)"

lemma runs_beginThen:
  assumes s: "homed home s" and "V \<in> K" and "set V \<subseteq> B" and "A \<subseteq> B"
    and "\<And>e. runs (\<lambda>st. egressInv serves okH home dur (A \<union> set V) B T st \<and> W (dvWorld st)) (f (Inl e)) Q"
    and "\<And>a. runs (\<lambda>st. egressInv serves okH home dur (A \<union> set V) B T st \<and> W (dvWorld st)
          \<and> (\<exists>h. okH h \<and> edBegin D s V h = (Inr a, dvNet st))) (f (Inr a)) Q"
  shows "runs (\<lambda>st. egressInv serves okH home dur A B T st \<and> W (dvWorld st)) (bindD (onNet (edBegin D s V)) f) Q"
proof (rule runs_bind [OF runs_begin [OF assms(1-4)]])
  fix r
  show "runs (\<lambda>st. egressInv serves okH home dur (A \<union> set V) B T st \<and> W (dvWorld st)
       \<and> (\<forall>a. r = Inr a \<longrightarrow> (\<exists>h. okH h \<and> edBegin D s V h = (Inr a, dvNet st)))) (f r) Q"
    using assms(5,6) by (cases r) simp_all
qed

lemma runs_appliedThen:
  assumes s: "homed home s" and "V \<in> K" and "A \<subseteq> B"
    and "\<And>e. runs (\<lambda>st. egressInv serves okH home dur A B T st \<and> W (dvWorld st)) (f (Inl e)) Q"
    and "\<And>g. runs (\<lambda>st. egressInv serves okH home dur A B T st \<and> W (dvWorld st) \<and> namedBy g (dvNet st)) (f (Inr g)) Q"
  shows "runs (\<lambda>st. egressInv serves okH home dur A B T st \<and> W (dvWorld st)
      \<and> (\<exists>h. okH h \<and> edBegin D s V h = (Inr a, dvNet st))) (bindD (onNet (edInspectApplied D a)) f) Q"
proof (rule runs_bind [OF runs_applied [OF assms(1-3)]])
  fix q
  show "runs (\<lambda>st. egressInv serves okH home dur A B T st \<and> W (dvWorld st)
      \<and> (\<forall>g U n b. q = Inr g \<and> U \<in> K \<and> Build U n = Inr (g, b) \<longrightarrow> serves (dvNet st) = set U)) (f q) Q"
    using assms(4,5) by (cases q) (simp_all add: namedBy_def)
qed

lemma runs_inspectThen:
  assumes s: "homed home s" and "A \<subseteq> B"
    and "\<And>e. runs (\<lambda>st. egressInv serves okH home dur A B T st \<and> W (dvWorld st)) (f (Inl e)) Q"
    and "\<And>g. runs (\<lambda>st. egressInv serves okH home dur A B T st \<and> W (dvWorld st) \<and> namedBy g (dvNet st)) (f (Inr g)) Q"
  shows "runs (\<lambda>st. egressInv serves okH home dur A B T st \<and> W (dvWorld st)) (bindD (onNet (edInspect D s)) f) Q"
proof (rule runs_bind [OF runs_inspect [OF assms(1,2)]])
  fix q
  show "runs (\<lambda>st. egressInv serves okH home dur A B T st \<and> W (dvWorld st)
      \<and> (\<forall>g U n b. q = Inr g \<and> U \<in> K \<and> Build U n = Inr (g, b) \<longrightarrow> serves (dvNet st) = set U)) (f q) Q"
    using assms(3,4) by (cases q) (simp_all add: namedBy_def)
qed

lemma runs_applyThen:
  assumes s: "homed home s" and "V \<in> K" and "set V \<subseteq> B" and "A \<subseteq> B"
    and "\<And>e. runs (\<lambda>st. egressInv serves okH home dur (A \<union> set V) B T st \<and> W (dvWorld st)) (f (Inl e)) Q"
    and "runs (\<lambda>st. egressInv serves okH home dur (A \<union> set V) B T st \<and> W (dvWorld st)
          \<and> serves (dvNet st) = set V) (f (Inr ())) Q"
  shows "runs (\<lambda>st. egressInv serves okH home dur A B T st \<and> W (dvWorld st)) (bindD (onNet (edApply D s V)) f) Q"
proof (rule runs_bind [OF runs_apply [OF assms(1-4)]])
  fix r :: "(drive_error, unit) res"
  show "runs (\<lambda>st. egressInv serves okH home dur (A \<union> set V) B T st \<and> W (dvWorld st)
       \<and> (r = Inr () \<longrightarrow> serves (dvNet st) = set V)) (f r) Q"
    using assms(5,6) by (cases r) simp_all
qed

text \<open>A positive inspection lowers the bound to what was inspected.\<close>

lemma egressInv_serves:
  "egressInv serves okH home dur A B T st \<Longrightarrow> serves (dvNet st) = U \<Longrightarrow> U \<subseteq> B \<Longrightarrow> egressInv serves okH home dur U B T st"
  by (simp add: egressInv_def)

end

end
