(* ===== verification/EgressSafety.thy ===== *)
theory EgressSafety
  imports EgressDriverLaws
begin

text \<open>
  The driver never lets the boundary serve more than the record. Each part of the driver is shown to
  keep the invariant of \<open>EgressDriverLaws\<close> from a state the part before it leaves; the handlers
  compose them.
\<close>

section \<open>Failing closed\<close>

lemma recoverTransition_original: "recoverTransition c a st = Inr (a', st') \<Longrightarrow> paOriginal a' = paOriginal a"
  by (auto simp: recoverTransition_def dest: mapConcreteTransition_original split: option.splits if_splits prod.splits)

lemma OwnerActionState_original: "OwnerActionState a = Inr (a', st) \<Longrightarrow> paOriginal a' = paOriginal a"
  by (auto simp: OwnerActionState_def Let_def rbind_Inr_iff dest!: recoverTransition_original bindConcreteOwner_frame
      split: if_splits)

lemma BlockedTeardownState_original:
  assumes "BlockedTeardownState a = Inr (a', st)"
  shows "paOriginal a' = paOriginal a"
proof -
  from assms obtain b s1 c where
    "(if seStatus (paOriginal a) = StatusCreated then rbind (ClaimState a) (\<lambda>state. Inr (a, state))
      else if sePID (paOriginal a) > 0 then OwnerActionState a
      else Inr (a, NormalizeProtocolState (paBaseline a))) = Inr (b, s1)"
    "recoverTransition (psDirection s1 = ProtocolNoDirection) b s1 = Inr (a', c)"
    unfolding BlockedTeardownState_def Let_def by (auto simp: rbind_Inr_iff split: if_splits)
  then show ?thesis
    by (auto simp: rbind_Inr_iff dest!: recoverTransition_original OwnerActionState_original split: if_splits)
qed

lemma teardown_candidates:
  "TeardownUnknownCandidate st now a = Inr c \<Longrightarrow>
     authorityOf c = authorityOf (paOriginal a) \<and> homeOf c = homeOf (paOriginal a)"
  "TeardownProvenCandidate st restore now a = Inr c \<Longrightarrow> homeOf c = homeOf (paOriginal a)"
proof -
  show "authorityOf c = authorityOf (paOriginal a) \<and> homeOf c = homeOf (paOriginal a)"
    if run: "TeardownUnknownCandidate st now a = Inr c"
  proof -
    from run have "c = setProtocolNetworkUncertainty (paOriginal a) now"
      by (simp add: TeardownUnknownCandidate_def Let_def split: if_splits)
    then show ?thesis by (simp add: setProtocolNetworkUncertainty_def SetFailure_def authorityOf_def homeOf_def)
  qed
  have t: "homeOf d = homeOf (paOriginal a)" if run: "TerminalCandidate st a = Inr d" for d
  proof -
    have "\<exists>st'. projectCandidate st' False a = Inr d"
      using run unfolding TerminalCandidate_def Let_def by (metis sum.distinct(1))
    then obtain st' where "projectCandidate st' False a = Inr d" ..
    from projectCandidate_carries(1) [OF this] show ?thesis using outOfModel_same(6) by blast
  qed
  show "homeOf c = homeOf (paOriginal a)" if run: "TeardownProvenCandidate st restore now a = Inr c"
  proof -
    from run obtain d where d: "(case restore of Some authority \<Rightarrow> TerminalCandidateWithAuthority st authority a
        | None \<Rightarrow> TerminalCandidate st a) = Inr d" "homeOf c = homeOf d"
      by (auto simp: TeardownProvenCandidate_def rbind_Inr_iff setProtocolNetworkUncertainty_def SetFailure_def homeOf_def)
    show ?thesis
    proof (cases restore)
      case None
      with d t show ?thesis by simp
    next
      case (Some authority)
      with d(1) obtain e where "TerminalCandidate st a = Inr e" "homeOf d = homeOf e"
        by (auto simp: TerminalCandidateWithAuthority_def rbind_Inr_iff Let_def homeOf_def split: if_splits)
      with d(2) t show ?thesis by simp
    qed
  qed
qed

lemma runs_commitAttempts:
  assumes "A \<subseteq> authorityOf c" and "homed home c"
  shows "runs (egressInv serves okH home dur A B T) (commitAttempts k e c) (\<lambda>r. safeEnd serves okH dur (seID T))"
proof (induction k arbitrary: e B)
  case 0
  show ?case by (auto intro!: runs_ret egressInv_safe)
next
  case (Suc k)
  have "runs (\<lambda>st. egressInv serves okH home dur A B T st \<and> True) (commitAttempts (Suc k) e c)
      (\<lambda>r. safeEnd serves okH dur (seID T))"
    unfolding commitAttempts.simps
  proof (rule runs_commitThen [OF assms, where N = "\<lambda>_. True"])
    assume i: "seID c = seID T"
    show "runs (\<lambda>st. egressInv serves okH home dur A (authorityOf c) (bumped c) st
         \<and> kept dur (bumped c) (dvWorld st) \<and> True)
       (case Inr () of Inl e \<Rightarrow> commitAttempts k (Inl e) c | Inr _ \<Rightarrow> retD (Inr ()))
       (\<lambda>r. safeEnd serves okH dur (seID T))"
      using egressInv_safe i by (fastforce intro: runs_ret)
  qed (simp add: Suc.IH)
  then show ?case by simp
qed

section \<open>How a driver run ends\<close>

text \<open>A session that is not running has no boundary.\<close>

definition liveAuthority :: "Session \<Rightarrow> Destination set" where
  "liveAuthority s = (if seStatus s = StatusRunning then authorityOf s else {})"

lemma liveAuthority_facts [simp]:
  "liveAuthority s \<subseteq> authorityOf s" "liveAuthority (bumped s) = liveAuthority s"
  by (simp_all add: liveAuthority_def)

definition finished ::
  "('h \<Rightarrow> Destination set) \<Rightarrow> ('h \<Rightarrow> bool) \<Rightarrow> session_home \<Rightarrow> bool \<Rightarrow> string \<Rightarrow> (Session \<Rightarrow> bool) \<Rightarrow> 'h drive \<Rightarrow> bool" where
  "finished serves okH home dur i Q st \<longleftrightarrow>
     (\<exists>T. seID T = i \<and> Q T \<and> egressInv serves okH home dur (liveAuthority T) (authorityOf T) T st
        \<and> kept dur T (dvWorld st)
        \<and> (seStatus T = StatusRunning \<longrightarrow> seEgressTransition T = None \<and> serves (dvNet st) = authorityOf T))"

definition drivePost ::
  "('h \<Rightarrow> Destination set) \<Rightarrow> ('h \<Rightarrow> bool) \<Rightarrow> session_home \<Rightarrow> bool \<Rightarrow> string \<Rightarrow> (Session \<Rightarrow> bool)
   \<Rightarrow> (drive_error, 'a) res \<Rightarrow> 'h drive \<Rightarrow> bool" where
  "drivePost serves okH home dur i Q r st \<longleftrightarrow>
     (case r of Inl _ \<Rightarrow> safeEnd serves okH dur i st | Inr _ \<Rightarrow> finished serves okH home dur i Q st)"

lemma post_error:
  "seID T = i \<Longrightarrow>
     runs (\<lambda>st. egressInv serves okH home dur A B T st \<and> W st) (retD (Inl e)) (drivePost serves okH home dur i Q)"
  by (rule runs_ret) (auto simp: drivePost_def dest: egressInv_safe)

text \<open>The two generations an adapter binds for one change of a running session.\<close>

definition pairs ::
  "ProtocolAdapter \<Rightarrow> Session \<Rightarrow> ProtocolGeneration \<Rightarrow> ProtocolGeneration \<Rightarrow> Session \<Rightarrow> bool" where
  "pairs a s old new n \<longleftrightarrow>
     paOriginal a = s \<and> durableGeneration (paBaseline a) = old \<and> old \<noteq> new \<and> genValid new
   \<and> (\<exists>b. map_of (paGenerations a) old = Some b \<and> carries s b)
   \<and> (\<exists>g. map_of (paGenerations a) new = Some (concreteBinding n g False)
        \<and> canonicalEgressGeneration n (seEgressGrants n) (seGrantRevision n) = Some g)
   \<and> sePersistentEgress n = sePersistentEgress s"

definition wentTo :: "Session \<Rightarrow> Session \<Rightarrow> bool" where
  "wentTo n t \<longleftrightarrow> seEgressGrants t = seEgressGrants n \<and> sePersistentEgress t = sePersistentEgress n
     \<and> seGrantRevision t = seGrantRevision n \<and> seAppliedEgressRevision t = seGrantRevision n
     \<and> seStatus t = StatusRunning"

lemma final_of_pair:
  assumes "pairs a s old new n" and "EffectCandidateFrom st T a = Inr c"
    and "psOperation st = ProtocolWiden \<and> durableGeneration st = pendingGeneration st \<or> psOperation st = ProtocolNarrow"
    and "pendingGeneration st = new" and "sePersistentEgress T = sePersistentEgress s"
  shows "wentTo n c" "authorityOf c = authorityOf n" "homeOf c = homeOf T" "seID c = seID T"
    "seEgressTransition c = None"
proof -
  from assms(1) obtain g where g: "map_of (paGenerations a) new = Some (concreteBinding n g False)"
    "canonicalEgressGeneration n (seEgressGrants n) (seGrantRevision n) = Some g"
    "durableGeneration (paBaseline a) \<noteq> new" "genValid new" "sePersistentEgress n = sePersistentEgress s"
    by (auto simp: pairs_def)
  have op: "psOperation st = ProtocolWiden \<or> psOperation st = ProtocolNarrow" using assms(3) by blast
  note c = boundary_candidate [OF assms(2) op assms(4) g(3,1)]
  note f = final_candidate [OF assms(2,3,4) g(3,4,1)]
  have "generationRevision g = seGrantRevision n" using g(2) by (auto simp: canonical_Some_iff)
  then have r: "seAppliedEgressRevision c = seGrantRevision n" using f by (simp add: settledOn_def concreteBinding_def)
  have o: "homeOf c = homeOf T" "seID c = seID T" "sePersistentEgress c = sePersistentEgress T"
    using c outOfModel_same by blast+
  show "wentTo n c" "seEgressTransition c = None"
    using f r o(3) assms(5) g(5) by (simp_all add: settledOn_def carries_def wentTo_def)
  then show "authorityOf c = authorityOf n" by (simp add: wentTo_def authorityOf_def)
  show "homeOf c = homeOf T" "seID c = seID T" by (fact o)+
qed

lemma rebase_pairs:
  assumes "RebaseGeneration old (fst (NewProtocolAdapter s)) = Inr (a, base)" and "BindGeneration new n a = Inr a'"
    and "bindableSymbol old" and "bindableSymbol new" and "old \<noteq> new"
  shows "pairs a' s old new n" "durableGeneration base = old" "paBaseline a' = base" "psOperation base = ProtocolIdle"
proof -
  note r = rebase_facts [OF assms(1) NewProtocolAdapter_original assms(3)]
  from r(8) obtain g where g: "paGenerations a = [(old, concreteBinding s g True)]" by blast
  note b = bind_facts [OF assms(2) g assms(5)]
  show "durableGeneration base = old" "psOperation base = ProtocolIdle" "paBaseline a' = base"
    using r b(2) by simp_all
  show "pairs a' s old new n"
    using r b assms(4,5) by (auto simp: pairs_def carries_def bindableSymbol_def)
qed

lemma seUpdatedAt_carried:
  "wentTo n (t\<lparr>seUpdatedAt := u\<rparr>) = wentTo n t" "carries (t\<lparr>seUpdatedAt := u\<rparr>) b = carries t b"
  by (simp_all add: wentTo_def carries_def)

lemma views_cong:
  "sePersistentEgress s = sePersistentEgress t \<Longrightarrow> seEgressGrants s = seEgressGrants t
   \<Longrightarrow> sessionEgressViews s = sessionEgressViews t"
  by (simp add: sessionEgressViews_def)

lemma views_updates [simp]:
  "sessionEgressViews (bumped s) = sessionEgressViews s" "sessionEgressViews (s\<lparr>seUpdatedAt := u\<rparr>) = sessionEgressViews s"
  by (simp_all add: sessionEgressViews_def bumped_def)

text \<open>The lists of destinations a record may ask the proxy for: its own and that of its marker.\<close>

definition inPlay :: "SessionGrant list set \<Rightarrow> Session \<Rightarrow> bool" where
  "inPlay K s \<longleftrightarrow> sessionEgressViews s \<in> K
     \<and> (\<forall>t. seEgressTransition s = Some t \<longrightarrow> sessionEgressViews (s\<lparr>seEgressGrants := tnCandidateGrants t\<rparr>) \<in> K)"

context egress_boundary
begin

lemma inspected_canonical:
  assumes "canonicalEgressGeneration c (seEgressGrants c) (seGrantRevision c) = Some g"
    and "sessionEgressViews c \<in> K" and "namedBy g h"
  shows "serves h = authorityOf c"
  using canonical_views [OF assms(1)] assms(2,3) by (auto simp: namedBy_def)

lemma inspected_pair:
  assumes "pairs a s old new n" and "GenerationEqual new g a" and "sessionEgressViews n \<in> K" and "namedBy g h"
  shows "serves h = authorityOf n"
proof -
  from assms(1,2) have c: "canonicalEgressGeneration n (seEgressGrants n) (seGrantRevision n) = Some g"
    by (auto simp: pairs_def GenerationEqual_def normalizeGeneration_def)
  then show ?thesis using assms(3,4) by (rule inspected_canonical)
qed

text \<open>Failing closed is safe from any state whose bound the upper bound covers.\<close>

lemma runs_failClosed:
  assumes "A \<subseteq> authorityOf (case upper of None \<Rightarrow> T | Some u \<Rightarrow> u)" and "A \<subseteq> B"
    and "homed home (case upper of None \<Rightarrow> T | Some u \<Rightarrow> u)"
  shows "runs (egressInv serves okH home dur A B T) (failClosedEgressWithUpperBound D restore upper)
    (\<lambda>r st. r = Inl ErrEgressAuthorityUncertain \<and> safeEnd serves okH dur (seID T) st)"
proof -
  let ?cur = "case upper of None \<Rightarrow> T | Some u \<Rightarrow> u"
  let ?Q = "\<lambda>r st. r = Inl ErrEgressAuthorityUncertain \<and> safeEnd serves okH dur (seID T) st"
  have unc: "runs P uncertainD ?Q" if "\<And>st. P st \<Longrightarrow> safeEnd serves okH dur (seID T) st" for P
    unfolding uncertainD_def by (rule runs_ret) (simp add: that)
  have commit: "runs (egressInv serves okH home dur A' B T) (bindD (commitEgressFailureState c) (\<lambda>_. uncertainD)) ?Q"
    if "A' \<subseteq> authorityOf c" "homed home c" for A' c
    unfolding commitEgressFailureState_def by (rule runs_bind [OF runs_commitAttempts [OF that]]) (rule unc)
  show ?thesis unfolding failClosedEgressWithUpperBound_def Let_def
  proof (rule runs_withTx [where W = "\<lambda>_. True", simplified])
    show "runs (egressInv serves okH home dur A B T)
      (case BlockedTeardownState (fst (NewProtocolAdapter ?cur)) of Inl _ \<Rightarrow> uncertainD
       | Inr (adapter, start) \<Rightarrow>
         (case ReduceProtocol start (plainEvent ProtocolRequestTeardown) of (state, ok) \<Rightarrow>
          if \<not> ok \<or> psEffect state \<noteq> ProtocolTeardownEffect then uncertainD
          else bindD (onNet (edTeardown D ?cur)) (\<lambda>r. case r of
            Inl _ \<Rightarrow>
              (case ReduceProtocol state (outcomeEvent ProtocolTeardownAction ProtocolTeardownUnknown ProtocolNoTruth)
               of (unknown, ok) \<Rightarrow>
                 if \<not> ok then uncertainD
                 else case TeardownUnknownCandidate unknown (edNow D) adapter of
                   Inl _ \<Rightarrow> uncertainD
                 | Inr blocked \<Rightarrow> bindD (commitEgressFailureState blocked) (\<lambda>_. uncertainD))
          | Inr _ \<Rightarrow>
              (case ReduceProtocol state (outcomeEvent ProtocolTeardownAction ProtocolTeardownProven ProtocolNoTruth)
               of (terminal, ok) \<Rightarrow>
                 if \<not> ok then uncertainD
                 else case TeardownProvenCandidate terminal restore (edNow D) adapter of
                   Inl _ \<Rightarrow> uncertainD
                 | Inr stopped \<Rightarrow> bindD (commitEgressFailureState stopped) (\<lambda>_. uncertainD))))) ?Q"
    proof (cases "BlockedTeardownState (fst (NewProtocolAdapter ?cur))")
      case (Inl e)
      then show ?thesis by (simp add: unc egressInv_safe)
    next
      case (Inr p)
      obtain a start where p: "p = (a, start)" by fastforce
      have o: "paOriginal a = ?cur" using BlockedTeardownState_original [OF Inr [unfolded p]] by simp
      obtain state ok where red: "ReduceProtocol start (plainEvent ProtocolRequestTeardown) = (state, ok)" by fastforce
      have unknown: "runs (egressInv serves okH home dur A B T)
          (case TeardownUnknownCandidate u (edNow D) a of Inl _ \<Rightarrow> uncertainD
           | Inr blocked \<Rightarrow> bindD (commitEgressFailureState blocked) (\<lambda>_. uncertainD)) ?Q" for u
        using teardown_candidates(1) [of u "edNow D" a] assms o
        by (auto intro!: commit unc egressInv_safe split: sum.split)
      have proven: "runs (egressInv serves okH home dur {} B T)
          (case TeardownProvenCandidate t restore (edNow D) a of Inl _ \<Rightarrow> uncertainD
           | Inr stopped \<Rightarrow> bindD (commitEgressFailureState stopped) (\<lambda>_. uncertainD)) ?Q" for t
        using teardown_candidates(2) [of t restore "edNow D" a] assms o
        by (auto intro!: commit unc egressInv_safe split: sum.split)
      show ?thesis unfolding Inr p red sum.case prod.case
        using unknown proven
        by (intro runs_if unc runs_bind [OF runs_teardown [OF assms(3,2)]])
          (auto simp: split_beta unit_eq intro!: runs_if unc egressInv_safe split: sum.split)
    qed
  qed
qed

lemma failClosed_post:
  assumes i: "seID T = i"
  shows "runs (\<lambda>st. egressInv serves okH home dur A B T st \<and> W st) (failClosedEgressWithDeps D restore)
    (drivePost serves okH home dur i Q)"
  unfolding i [symmetric]
proof (rule runs_fact)
  show "egressInv serves okH home dur A B T st \<and> W st \<Longrightarrow> homed home T \<and> A \<subseteq> B \<and> B \<subseteq> authorityOf T" for st
    by (simp add: egressInv_def)
  assume t: "homed home T \<and> A \<subseteq> B \<and> B \<subseteq> authorityOf T"
  then have "A \<subseteq> authorityOf (case None of None \<Rightarrow> T | Some u \<Rightarrow> u)" by auto
  from runs_failClosed [OF this, of B dur restore] t
  have "runs (egressInv serves okH home dur A B T) (failClosedEgressWithUpperBound D restore None)
    (\<lambda>r st. r = Inl ErrEgressAuthorityUncertain \<and> safeEnd serves okH dur (seID T) st)" by simp
  then show "runs (\<lambda>st. egressInv serves okH home dur A B T st \<and> W st) (failClosedEgressWithDeps D restore)
    (drivePost serves okH home dur (seID T) Q)"
    unfolding failClosedEgressWithDeps_def by (rule runs_weaken) (auto simp: drivePost_def)
qed

lemma upperBound_post:
  assumes "A \<subseteq> authorityOf u" and "homed home u" and i: "seID T = i"
  shows "runs (\<lambda>st. egressInv serves okH home dur A B T st \<and> W st) (failClosedEgressWithUpperBound D restore (Some u))
    (drivePost serves okH home dur i Q)"
  unfolding i [symmetric]
proof (rule runs_fact)
  show "egressInv serves okH home dur A B T st \<and> W st \<Longrightarrow> A \<subseteq> B" for st by (simp add: egressInv_def)
  assume "A \<subseteq> B"
  from runs_failClosed [OF _ this, where upper = "Some u" and dur = dur and restore = restore] assms(1,2)
  have "runs (egressInv serves okH home dur A B T) (failClosedEgressWithUpperBound D restore (Some u))
    (\<lambda>r st. r = Inl ErrEgressAuthorityUncertain \<and> safeEnd serves okH dur (seID T) st)" by simp
  then show "runs (\<lambda>st. egressInv serves okH home dur A B T st \<and> W st) (failClosedEgressWithUpperBound D restore (Some u))
    (drivePost serves okH home dur (seID T) Q)"
    by (rule runs_weaken) (auto simp: drivePost_def)
qed

lemmas stops = post_error post_error [where W = "\<lambda>_. True", simplified]
  failClosed_post failClosed_post [where W = "\<lambda>_. True", simplified]

section \<open>Widening\<close>

lemma post_done:
  assumes "Q c" and "seStatus c = StatusRunning \<longrightarrow> seEgressTransition c = None \<and> authorityOf c = U" and "A \<subseteq> liveAuthority c"
    and "\<And>t. Q (bumped t) = Q t" and "seID c = i"
  shows "runs (\<lambda>st. egressInv serves okH home dur A (authorityOf c) (bumped c) st \<and> kept dur (bumped c) (dvWorld st)
      \<and> serves (dvNet st) = U) (retD (Inr x)) (drivePost serves okH home dur i Q)"
proof (rule runs_ret, elim conjE)
  fix st assume inv: "egressInv serves okH home dur A (authorityOf c) (bumped c) st"
    and k: "kept dur (bumped c) (dvWorld st)" and u: "serves (dvNet st) = U"
  have "egressInv serves okH home dur (liveAuthority c) (authorityOf c) (bumped c) st"
    by (rule egressInv_weaken [OF inv assms(3)]) simp_all
  moreover have "seEgressTransition (bumped c) = seEgressTransition c" by (simp add: bumped_def)
  ultimately have "finished serves okH home dur i Q st"
    using k u assms unfolding finished_def by (intro exI [of _ "bumped c"]) simp
  then show "drivePost serves okH home dur i Q (Inr x) st" by (simp add: drivePost_def)
qed

lemma widenFinal_post:
  assumes p: "pairs a s old new n" and st: "psOperation st = ProtocolWiden" "pendingGeneration st = new"
      "durableGeneration st = new" and T: "sePersistentEgress T = sePersistentEgress s"
    and A: "A \<subseteq> authorityOf n" and nosys: "homed home T"
  shows "runs (\<lambda>d. egressInv serves okH home dur A B T d \<and> serves (dvNet d) = authorityOf n)
    (widenFinal D s a st) (drivePost serves okH home dur (seID T) (wentTo n))"
  unfolding widenFinal_def
proof (intro runs_withTx runs_sum runs_commitThen [where N = "\<lambda>h. serves h = authorityOf n"] failClosed_post)
  fix c assume c: "EffectCandidateFrom st T a = Inr c"
  have op: "psOperation st = ProtocolWiden \<and> durableGeneration st = pendingGeneration st \<or> psOperation st = ProtocolNarrow"
    using st by simp
  note f = final_of_pair [OF p c op st(2) T]
  show "A \<subseteq> authorityOf c" "homed home c" using f A nosys by simp_all
  have w: "wentTo n (bumped t) = wentTo n t" for t by (simp add: wentTo_def bumped_def)
  have st: "seStatus c = StatusRunning" using f(1) by (simp add: wentTo_def)
  have "runs (\<lambda>d. egressInv serves okH home dur A (authorityOf c) (bumped c) d \<and> kept dur (bumped c) (dvWorld d)
      \<and> serves (dvNet d) = authorityOf n) (retD (Inr ())) (drivePost serves okH home dur (seID T) (wentTo n))"
    using f A st by (intro post_done) (simp_all add: w liveAuthority_def)
  then show "runs (\<lambda>d. egressInv serves okH home dur A (authorityOf c) (bumped c) d \<and> kept dur (bumped c) (dvWorld d)
      \<and> serves (dvNet d) = authorityOf n)
    (case ReduceProtocol st (outcomeEvent ProtocolWidenFinalCommit ProtocolKnownNew ProtocolNoTruth) of
       (done', ok) \<Rightarrow> if \<not> ok \<or> psEffect done' \<noteq> ProtocolNoEffect \<or> psResult done' \<noteq> ProtocolSuccess
         then failClosedEgressWithDeps D (Some s) else retD (Inr ()))
    (drivePost serves okH home dur (seID T) (wentTo n))" if "seID c = seID T"
    using that by (intro runs_pair runs_if failClosed_post) simp_all
qed (auto intro!: runs_pair stops)

lemma widenApply_post:
  assumes p: "pairs a s old (grantSymbol 1) n" and st: "psOperation st = ProtocolWiden" "pendingGeneration st = grantSymbol 1"
      "durableGeneration st = grantSymbol 1" and T: "sePersistentEgress T = sePersistentEgress s"
    and A: "A \<subseteq> authorityOf n" "authorityOf n \<subseteq> B" and nosys: "homed home T"
    and K: "homed home n" "sessionEgressViews n \<in> K"
  shows "runs (\<lambda>d. egressInv serves okH home dur A B T d \<and> W (dvWorld d))
    (widenApply D s n a st) (drivePost serves okH home dur (seID T) (wentTo n))"
proof -
  let ?V = "sessionEgressViews n" let ?Q = "drivePost serves okH home dur (seID T) (wentTo n)"
  have sub: "set ?V \<subseteq> B" "A \<subseteq> B" "A \<union> set ?V \<subseteq> authorityOf n" "A \<union> set ?V \<subseteq> B"
    using views_within [of n] A by auto
  have tail: "runs (\<lambda>d. egressInv serves okH home dur (A \<union> set ?V) B T d \<and> W (dvWorld d) \<and> namedBy g (dvNet d))
      (widenFinal D s a m) ?Q"
    if red: "ReduceProtocol st (outcomeEvent ProtocolApplyAction ProtocolSucceeded ProtocolNoTruth) = (x, True)"
      "ReduceProtocol x (outcomeEvent ProtocolInspectAction ProtocolMatched ProtocolNoTruth) = (m, True)"
      and eq: "GenerationEqual (grantSymbol 1) g a" for g x m
  proof -
    note f = sameStep_fields(1) [OF red(1)] sameStep_fields(1) [OF red(2)]
    have "runs (\<lambda>d. egressInv serves okH home dur (A \<union> set ?V) B T d \<and> serves (dvNet d) = authorityOf n)
      (widenFinal D s a m) ?Q"
      using f st by (intro widenFinal_post [OF p] T nosys sub) simp_all
    then show ?thesis by (rule runs_weaken) (use inspected_pair [OF p eq K(2)] in auto)
  qed
  show ?thesis unfolding widenApply_def
    by (intro runs_beginThen [OF K sub(1,2)] runs_appliedThen [OF K sub(4)])
      (auto intro!: runs_pair runs_appliedThen [OF K sub(4)] stops elim!: tail)
qed

lemma widenPending_post:
  assumes p: "pairs a s (emptySymbol 0) (grantSymbol 1) n" and c: "EffectCandidate st a = Inr c"
    and st: "psOperation st = ProtocolWiden" "pendingGeneration st = grantSymbol 1"
    and A: "A \<subseteq> authorityOf n" and nosys: "homed home s" and K: "homed home n" "sessionEgressViews n \<in> K"
  shows "runs (\<lambda>d. egressInv serves okH home dur A B s d \<and> W d)
    (widenPending D s n a st (c\<lparr>seUpdatedAt := u\<rparr>)) (drivePost serves okH home dur (seID s) (wentTo n))"
proof -
  let ?p = "c\<lparr>seUpdatedAt := u\<rparr>" let ?Q = "drivePost serves okH home dur (seID s) (wentTo n)"
  from p obtain g where g: "map_of (paGenerations a) (grantSymbol 1) = Some (concreteBinding n g False)"
    "durableGeneration (paBaseline a) \<noteq> grantSymbol 1" "paOriginal a = s" "sePersistentEgress n = sePersistentEgress s"
    by (auto simp: pairs_def)
  from boundary_candidate_here [OF c _ st(2) g(2,1)] st(1) g(3)
  have o: "outOfModel c = outOfModel s" "carries c (concreteBinding n g False)" by auto
  note q = outOfModel_same [OF o(1)]
  have auth: "authorityOf ?p = authorityOf n" using o(2) q(3) g(4) by (simp add: carries_def authorityOf_def)
  have applied: "runs (\<lambda>d. egressInv serves okH home dur A (authorityOf n) (bumped ?p) d
         \<and> kept dur (bumped ?p) (dvWorld d)) (widenApply D s n a m) ?Q"
    if red: "ReduceProtocol st (outcomeEvent ProtocolWidenCommit ProtocolKnownNew ProtocolNoTruth) = (m, True)" for m
  proof -
    have "sePersistentEgress (bumped ?p) = sePersistentEgress s" "seID (bumped ?p) = seID s"
      "homed home (bumped ?p)" using q nosys by (simp_all add: bumped_def)
    with widenApply_post [OF p, of m "bumped ?p" A "authorityOf n" dur "kept dur (bumped ?p)"]
      widenCommit_fields [OF red] st(2) A K auth
    show ?thesis by simp
  qed
  have "runs (\<lambda>d. egressInv serves okH home dur A B s d \<and> True) (widenPending D s n a st ?p) ?Q"
    unfolding widenPending_def using A auth q nosys
    by (intro runs_commitThen [where N = "\<lambda>_. True"])
      (auto intro!: runs_pair stops applied upperBound_post upperBound_post [where W = "\<lambda>_. True", simplified])
  then show ?thesis by (rule runs_weaken) simp_all
qed

lemma widen_post:
  assumes sub: "authorityOf s \<subseteq> authorityOf n" and nosys: "homed home s"
    and K: "homed home n" "sessionEgressViews n \<in> K"
  shows "runs (\<lambda>d. egressInv serves okH home dur A B s d \<and> W d)
    (runRunningSessionWidenProtocol D s n) (drivePost serves okH home dur (seID s) (wentTo n))"
proof (rule runs_fact)
  show "egressInv serves okH home dur A B s d \<and> W d \<Longrightarrow> A \<subseteq> authorityOf n" for d
    using sub by (auto simp: egressInv_def)
  assume A: "A \<subseteq> authorityOf n"
  have ne: "emptySymbol 0 \<noteq> grantSymbol 1" "bindableSymbol (emptySymbol 0)" "bindableSymbol (grantSymbol 1)"
    by (simp_all add: symbols)
  have start: "pendingGeneration st = grantSymbol 1 \<and> psOperation st = ProtocolWiden"
    if "ReduceProtocol base (grantEvent ProtocolWidenStart ProtocolGrantA) = (st, True)"
      "durableGeneration base = emptySymbol 0" for base st
    using widenStart_fields [OF that(1)] that(2)
    by (simp add: symbols durableGeneration_def protocolGeneration_def)
  show "runs (\<lambda>d. egressInv serves okH home dur A B s d \<and> W d) (runRunningSessionWidenProtocol D s n)
    (drivePost serves okH home dur (seID s) (wentTo n))"
    unfolding runRunningSessionWidenProtocol_def
    by (intro runs_sum runs_pair runs_if stops widenPending_post A nosys K refl)
      (auto dest: start rebase_pairs [OF _ _ ne(2,3,1)])
qed

section \<open>Recovery\<close>

text \<open>The boundary serves the record's authority; the record without its marker is committed.\<close>

lemma commitOrFail_post:
  assumes b: "map_of (paGenerations a) (durableGeneration st) = Some b" "carries T b"
    and dir: "psDirection (NormalizeProtocolState st) = ProtocolNoDirection" and run: "psStatus st = ProtocolRunning"
    and K: "sessionEgressViews T \<in> K"
  shows "runs (\<lambda>d. egressInv serves okH home dur A B T d \<and> serves (dvNet d) = authorityOf T)
    (commitOrFailClosed D st a) (drivePost serves okH home dur (seID T) (\<lambda>t. sessionEgressViews t \<in> K))"
proof (rule runs_fact)
  show "egressInv serves okH home dur A B T d \<and> serves (dvNet d) = authorityOf T
    \<Longrightarrow> homed home T \<and> A \<subseteq> authorityOf T" for d by (auto simp: egressInv_def)
  assume t: "homed home T \<and> A \<subseteq> authorityOf T"
  show "runs (\<lambda>d. egressInv serves okH home dur A B T d \<and> serves (dvNet d) = authorityOf T)
    (commitOrFailClosed D st a) (drivePost serves okH home dur (seID T) (\<lambda>t. sessionEgressViews t \<in> K))"
    unfolding commitOrFailClosed_def
  proof (intro runs_withTx runs_sum runs_commitThen [where N = "\<lambda>h. serves h = authorityOf T"] stops refl)
    fix c assume c: "CandidateFrom st T a = Inr c"
    from CandidateFrom_carries [OF c] b have o: "outOfModel c = outOfModel T" "seEgressGrants c = seEgressGrants T"
      by (auto simp: carries_def)
    note q = outOfModel_same [OF o(1)]
    have auth: "authorityOf c = authorityOf T" by (rule authorityOf_cong [OF q(3) o(2)])
    have views: "sessionEgressViews c = sessionEgressViews T" by (rule views_cong [OF q(3) o(2)])
    show "A \<subseteq> authorityOf c" "homed home c" using t q auth by simp_all
    show "runs (\<lambda>d. egressInv serves okH home dur A (authorityOf c) (bumped c) d \<and> kept dur (bumped c) (dvWorld d)
        \<and> serves (dvNet d) = authorityOf T) (retD (Inr ()))
      (drivePost serves okH home dur (seID T) (\<lambda>t. sessionEgressViews t \<in> K))"
      using t q(1) auth views K CandidateFrom_unmarked [OF c dir] CandidateFrom_running [OF c run]
      by (intro post_done) (simp_all add: liveAuthority_def)
  qed (auto intro!: stops)
qed

lemma recoverStable_post:
  assumes K: "sessionEgressViews T \<in> K"
  shows "runs (\<lambda>d. egressInv serves okH home dur A (authorityOf T) T d \<and> W (dvWorld d))
    (recoverStableEgressGeneration D (fst (NewProtocolAdapter T)) T)
    (drivePost serves okH home dur (seID T) (\<lambda>t. sessionEgressViews t \<in> K))"
proof (rule runs_fact)
  let ?Q = "drivePost serves okH home dur (seID T) (\<lambda>t. sessionEgressViews t \<in> K)" and ?V = "sessionEgressViews T"
  show "egressInv serves okH home dur A (authorityOf T) T d \<and> W (dvWorld d) \<Longrightarrow> homed home T \<and> A \<subseteq> authorityOf T" for d
    by (auto simp: egressInv_def)
  assume t: "homed home T \<and> A \<subseteq> authorityOf T"
  note hT = t [THEN conjunct1] and A = t [THEN conjunct2]
  have sub: "set ?V \<subseteq> authorityOf T" "A \<union> set ?V \<subseteq> authorityOf T" using views_within [of T] A by simp_all
  have sym: "bindableSymbol (emptySymbol 0)" by (simp add: symbols)
  have tail: "runs (\<lambda>d. egressInv serves okH home dur (A \<union> set ?V) (authorityOf T) T d \<and> W (dvWorld d) \<and> namedBy g (dvNet d))
      (commitOrFailClosed D base a) ?Q"
    if r: "RebaseVerifiedGeneration (emptySymbol 0) (fst (NewProtocolAdapter T)) = Inr (a, base)"
      and eq: "GenerationEqual (emptySymbol 0) g a" for a base g
  proof -
    note f = rebaseVerified_facts [OF r NewProtocolAdapter_original sym]
    from f(3) obtain g' where g: "canonicalEgressGeneration T (seEgressGrants T) (seGrantRevision T) = Some g'"
      "paGenerations a = [(emptySymbol 0, concreteBinding T g' False)]" by blast
    have "g' = g" using eq g(2) by (simp add: GenerationEqual_def symbols normalizeGeneration_def protocolGeneration_def)
    then have "canonicalEgressGeneration T (seEgressGrants T) (seGrantRevision T) = Some g" using g(1) by simp
    then have "serves h = authorityOf T" if "namedBy g h" for h using inspected_canonical K that by blast
    moreover have "runs (\<lambda>d. egressInv serves okH home dur (A \<union> set ?V) (authorityOf T) T d \<and> serves (dvNet d) = authorityOf T)
      (commitOrFailClosed D base a) ?Q"
      using f(2) g(2) by (intro commitOrFail_post rebaseVerified_direction [OF r] rebaseVerified_status [OF r] K) (auto simp: carries_def)
    ultimately show ?thesis by (elim runs_weaken) auto
  qed
  show "runs (\<lambda>d. egressInv serves okH home dur A (authorityOf T) T d \<and> W (dvWorld d))
    (recoverStableEgressGeneration D (fst (NewProtocolAdapter T)) T) ?Q"
    unfolding recoverStableEgressGeneration_def
    by (intro runs_sum runs_pair runs_if stops refl runs_beginThen [OF hT K sub(1) A])
      (auto intro!: runs_appliedThen [OF hT K sub(2)] stops intro: tail)
qed

lemma recovered_post:
  assumes b: "map_of (paGenerations a) (durableGeneration recovery) = Some b" "carries T b"
    and run: "psStatus recovery = ProtocolRunning" and K: "sessionEgressViews T \<in> K"
  shows "runs (\<lambda>d. egressInv serves okH home dur A B T d \<and> serves (dvNet d) = authorityOf T)
    (commitRecoveredEgressState D a recovery)
    (drivePost serves okH home dur (seID T) (\<lambda>t. sessionEgressViews t \<in> K))"
  unfolding commitRecoveredEgressState_def
  by (intro runs_pair runs_if stops refl commitOrFail_post [OF _ b(2) _ _ K])
    (auto simp: b(1) run dest: recoverEgress_fields recoverEgress_direction recoverEgress_status)

lemma applyDurable_post:
  assumes b: "map_of (paGenerations a) (durableGeneration recovery) = Some b" "carries T b" and o: "paOriginal a = T"
    and run: "psStatus recovery = ProtocolRunning" and K: "sessionEgressViews T \<in> K"
    and canon: "canonicalEgressGeneration T (seEgressGrants T) (seGrantRevision T) = Some g"
  shows "runs (\<lambda>d. egressInv serves okH home dur A (authorityOf T) T d \<and> W (dvWorld d))
    (applyDurableRecoveryGeneration D a recovery)
    (drivePost serves okH home dur (seID T) (\<lambda>t. sessionEgressViews t \<in> K))"
proof (rule runs_fact)
  let ?Q = "drivePost serves okH home dur (seID T) (\<lambda>t. sessionEgressViews t \<in> K)" and ?V = "sessionEgressViews T"
  show "egressInv serves okH home dur A (authorityOf T) T d \<and> W (dvWorld d) \<Longrightarrow> homed home T \<and> A \<subseteq> authorityOf T" for d
    by (auto simp: egressInv_def)
  assume t: "homed home T \<and> A \<subseteq> authorityOf T"
  note hT = t [THEN conjunct1] and A = t [THEN conjunct2]
  have cand: "GenerationCandidate (protocolStateDurableGeneration recovery) a = Inr T"
    using b by (auto simp: GenerationCandidate_def o carries_def normalizeGeneration_def durableGeneration_def
        protocolGeneration_def)
  have all: "set ?V = authorityOf T" by (rule canonical_views(2) [OF canon])
  then have sub: "set ?V \<subseteq> authorityOf T" by simp
  show "runs (\<lambda>d. egressInv serves okH home dur A (authorityOf T) T d \<and> W (dvWorld d))
    (applyDurableRecoveryGeneration D a recovery) ?Q"
    unfolding applyDurableRecoveryGeneration_def cand sum.case
    by (intro runs_applyThen [OF hT K sub A])
      (auto intro!: stops intro: runs_weaken [OF recovered_post [OF b run K]] simp: all)
qed

lemma recoveredNarrow_post:
  assumes op: "psOperation active = ProtocolNarrow" and ne: "durableGeneration (paBaseline a) \<noteq> pendingGeneration active"
    and p: "map_of (paGenerations a) (pendingGeneration active) = Some p"
    and n: "sePersistentEgress n = sePersistentEgress T" "seEgressGrants n = cgGrants p"
    and K: "sessionEgressViews n \<in> K"
  shows "runs (\<lambda>d. egressInv serves okH home dur A B T d \<and> serves (dvNet d) = authorityOf n)
    (commitRecoveredNarrowCandidate D a active)
    (drivePost serves okH home dur (seID T) (\<lambda>t. sessionEgressViews t \<in> K))"
proof -
  let ?Q = "drivePost serves okH home dur (seID T) (\<lambda>t. sessionEgressViews t \<in> K)"
  let ?P = "\<lambda>A d. egressInv serves okH home dur A B T d \<and> serves (dvNet d) = authorityOf n"
  have v: "genValid (pendingGeneration active)" by (simp add: pendingGeneration_def protocolGeneration_def)
  have commit: "runs (?P (authorityOf n))
      (bindD (txCommit c) (\<lambda>r. case r of
          Inr _ \<Rightarrow> if \<not> snd (ReduceProtocol st (outcomeEvent ProtocolNarrowFinalCommit ProtocolKnownNew ProtocolNoTruth))
             then failClosedEgressWithDeps D None else retD (Inr ())
        | Inl e \<Rightarrow> if e = ErrCommitUncertain
             then (if \<not> protocolUnknownCommitBlocked st ProtocolNarrowFinalCommit
                   then retD (Inl (ErrDriveInvalid x)) else failClosedEgressWithDeps D None)
             else (if \<not> snd (ReduceProtocol st (outcomeEvent ProtocolNarrowFinalCommit ProtocolKnownOld ProtocolNoTruth))
                   then retD (Inl (ErrDriveInvalid y)) else failClosedEgressWithDeps D None))) ?Q"
    if c: "EffectCandidateFrom st T a = Inr c" and st: "psOperation st = ProtocolNarrow"
      "pendingGeneration st = pendingGeneration active" and nosys: "homed home T" for c st x y
  proof -
    have o: "outOfModel c = outOfModel T" "carries c p"
      using boundary_candidate [OF c _ st(2) ne p] st(1) by simp_all
    have f: "settledOn c p" using final_candidate [OF c _ st(2) ne v p] st(1) by simp
    note q = outOfModel_same [OF o(1)]
    have auth: "authorityOf c = authorityOf n" and views: "sessionEgressViews c = sessionEgressViews n"
      using o(2) q(3) n by (auto intro!: authorityOf_cong views_cong simp: carries_def)
    have fin: "runs (\<lambda>d. egressInv serves okH home dur (authorityOf n) (authorityOf n) (bumped c) d
        \<and> kept dur (bumped c) (dvWorld d) \<and> serves (dvNet d) = authorityOf n) (retD (Inr ())) ?Q"
      unfolding auth [symmetric] using f auth views K q(1)
      by (intro post_done) (simp_all add: settledOn_def liveAuthority_def)
    show ?thesis
      using auth q nosys by (intro runs_commitThen [where N = "\<lambda>h. serves h = authorityOf n"])
        (auto intro!: runs_if stops fin)
  qed
  have lower: "runs (?P A) m ?Q" if "homed home T \<Longrightarrow> runs (?P (authorityOf n)) m ?Q"
    for m :: "('h, (drive_error, unit) res) driven"
  proof (rule runs_fact)
    assume "homed home T"
    from that [OF this] show "runs (?P A) m ?Q"
      by (rule runs_weaken) (auto simp: egressInv_def)
  qed (simp add: egressInv_def)
  show ?thesis unfolding commitRecoveredNarrowCandidate_def
    by (intro runs_pair runs_if stops refl runs_withTx runs_sum lower commit)
      (use op in \<open>auto dest!: sameStep_fields(1)\<close>)
qed

lemma recoverMarked_post:
  assumes v: "validEgressRuntimeState T" and run: "seStatus T = StatusRunning" and t: "seEgressTransition T = Some t"
    and u: "\<not> networkUncertain T" and K: "inPlay K T"
  shows "runs (\<lambda>d. egressInv serves okH home dur A (authorityOf T) T d \<and> W (dvWorld d))
    (recoverMarkedRecord D (fst (NewProtocolAdapter T)) T)
    (drivePost serves okH home dur (seID T) (\<lambda>t. sessionEgressViews t \<in> K))"
proof (rule runs_fact)
  let ?Q = "drivePost serves okH home dur (seID T) (\<lambda>t. sessionEgressViews t \<in> K)"
  show "egressInv serves okH home dur A (authorityOf T) T d \<and> W (dvWorld d) \<Longrightarrow> homed home T \<and> A \<subseteq> authorityOf T" for d
    by (auto simp: egressInv_def)
  assume h: "homed home T \<and> A \<subseteq> authorityOf T"
  note hT = h [THEN conjunct1] and A = h [THEN conjunct2]
  have KT: "sessionEgressViews T \<in> K" using K by (simp add: inPlay_def)
  show "runs (\<lambda>d. egressInv serves okH home dur A (authorityOf T) T d \<and> W (dvWorld d))
    (recoverMarkedRecord D (fst (NewProtocolAdapter T)) T) ?Q"
    unfolding recoverMarkedRecord_def Let_def
  proof (intro runs_sum runs_pair stops refl)
    fix p a q active recovery
    assume "EgressTransitionStates (fst (NewProtocolAdapter T)) = Inr p" "p = (a, q)" "q = (active, recovery)"
    then have ets: "EgressTransitionStates (fst (NewProtocolAdapter T)) = Inr (a, active, recovery)" by simp
    note m = marked_states [OF v run t u ets]
    from m(1) obtain b where b: "map_of (paGenerations a) (durableGeneration active) = Some b" "carries T b"
      "canonicalEgressGeneration T (seEgressGrants T) (seGrantRevision T) = Some (cgGeneration b)" by blast
    have br: "map_of (paGenerations a) (durableGeneration recovery) = Some b" using b(1) m(2) by simp
    have val: "genValid (durableGeneration active)" "genValid (pendingGeneration active)"
      by (simp_all add: durableGeneration_def pendingGeneration_def protocolGeneration_def)
    have durable: "serves h = authorityOf T" if "GenerationEqual (durableGeneration active) g a" "namedBy g h" for g h
      using that b val inspected_canonical [OF _ KT] by (auto simp: GenerationEqual_def normalizeGeneration_def)
    have heal: "runs (\<lambda>d. egressInv serves okH home dur A (authorityOf T) T d \<and> W (dvWorld d) \<and> namedBy g (dvNet d))
        (commitRecoveredEgressState D a recovery) ?Q"
      if "GenerationEqual (durableGeneration active) g a" for g
      by (rule runs_weaken [OF recovered_post [OF br b(2) m(4) KT]]) (use durable [OF that] in blast, assumption)
    have reapply: "runs (\<lambda>d. egressInv serves okH home dur A (authorityOf T) T d \<and> W (dvWorld d) \<and> X d)
        (applyDurableRecoveryGeneration D a recovery) ?Q" for X
      by (rule runs_weaken [OF applyDurable_post [OF br b(2) m(3,4) KT b(3), of dur A W]]) auto
    have reapply': "runs (\<lambda>d. egressInv serves okH home dur A (authorityOf T) T d \<and> W (dvWorld d))
        (applyDurableRecoveryGeneration D a recovery) ?Q"
      by (rule applyDurable_post [OF br b(2) m(3,4) KT b(3)])
    have narrow: "runs (\<lambda>d. egressInv serves okH home dur A (authorityOf T) T d \<and> W (dvWorld d) \<and> namedBy g (dvNet d))
        (commitRecoveredNarrowCandidate D a active) ?Q"
      if eq: "GenerationEqual (pendingGeneration active) g a" and d: "psDirection active = ProtocolNarrowDirection" for g
    proof -
      from m(5) d obtain p where p: "psOperation active = ProtocolNarrow"
        "durableGeneration (paBaseline a) \<noteq> pendingGeneration active"
        "map_of (paGenerations a) (pendingGeneration active) = Some p" "tnCandidateGrants t = cgGrants p"
        "canonicalEgressGeneration T (cgGrants p) (cgGrantRevision p) = Some (cgGeneration p)" by auto
      let ?n = "T\<lparr>seEgressGrants := cgGrants p, seGrantRevision := cgGrantRevision p\<rparr>"
      have views: "sessionEgressViews ?n \<in> K"
        using K t p(4) views_cong [of ?n "T\<lparr>seEgressGrants := tnCandidateGrants t\<rparr>"] by (simp add: inPlay_def)
      have "g = cgGeneration p" using eq p(3) val(2) by (simp add: GenerationEqual_def normalizeGeneration_def)
      then have "canonicalEgressGeneration ?n (seEgressGrants ?n) (seGrantRevision ?n) = Some g"
        using p(5) canonical_same_session [of ?n T] by simp
      then have "serves h = authorityOf ?n" if "namedBy g h" for h using inspected_canonical views that by blast
      moreover have "runs (\<lambda>d. egressInv serves okH home dur A (authorityOf T) T d \<and> serves (dvNet d) = authorityOf ?n)
        (commitRecoveredNarrowCandidate D a active) ?Q"
        by (rule recoveredNarrow_post [OF p(1-3) _ _ views]) simp_all
      ultimately show ?thesis by (elim runs_weaken) auto
    qed
    show "runs (\<lambda>d. egressInv serves okH home dur A (authorityOf T) T d \<and> W (dvWorld d))
      (bindD (onNet (edInspect D T)) (\<lambda>r. case psDirection active of
         ProtocolWidenDirection \<Rightarrow>
           if case r of Inl _ \<Rightarrow> False | Inr g \<Rightarrow> GenerationEqual (protocolStateDurableGeneration active) g a
           then commitRecoveredEgressState D a recovery else applyDurableRecoveryGeneration D a recovery
       | ProtocolNarrowDirection \<Rightarrow>
           if case r of Inl _ \<Rightarrow> False | Inr g \<Rightarrow> GenerationEqual (protocolStatePendingGeneration active) g a
           then commitRecoveredNarrowCandidate D a active
           else if case r of Inl _ \<Rightarrow> False | Inr g \<Rightarrow> GenerationEqual (protocolStateDurableGeneration active) g a
           then commitRecoveredEgressState D a recovery else applyDurableRecoveryGeneration D a recovery
       | _ \<Rightarrow> failClosedEgressWithDeps D None)) ?Q"
      by (rule runs_inspectThen [OF hT A])
        (auto intro!: stops runs_if heal narrow reapply reapply' split: protocol_direction.split)
  qed
qed

text \<open>A run that ends without a commit of its own.\<close>

lemma post_here:
  assumes "Q T" and "seStatus T = StatusRunning \<longrightarrow> seEgressTransition T = None" and "seID T = i"
  shows "runs (\<lambda>d. egressInv serves okH home dur (liveAuthority T) (authorityOf T) T d \<and> kept dur T (dvWorld d)
      \<and> (seStatus T = StatusRunning \<longrightarrow> serves (dvNet d) = authorityOf T)) (retD (Inr x)) (drivePost serves okH home dur i Q)"
  by (rule runs_ret) (use assms in \<open>auto simp: drivePost_def finished_def\<close>)

lemma recoverStableRecord_post:
  assumes run: "seStatus T = StatusRunning" and none: "seEgressTransition T = None" and K: "sessionEgressViews T \<in> K"
    and canon: "canonicalEgressGeneration T (seEgressGrants T) (seGrantRevision T) = Some g"
  shows "runs (\<lambda>d. egressInv serves okH home dur (liveAuthority T) (authorityOf T) T d \<and> kept dur T (dvWorld d))
    (recoverStableRecord D (fst (NewProtocolAdapter T)) T g)
    (drivePost serves okH home dur (seID T) (\<lambda>t. sessionEgressViews t \<in> K))"
proof (rule runs_fact)
  let ?P = "\<lambda>d. egressInv serves okH home dur (liveAuthority T) (authorityOf T) T d \<and> kept dur T (dvWorld d)"
  show "?P d \<Longrightarrow> homed home T" for d by (simp add: egressInv_def)
  assume hT: "homed home T"
  let ?Q = "drivePost serves okH home dur (seID T) (\<lambda>t. sessionEgressViews t \<in> K)"
  have stable: "runs (\<lambda>d. egressInv serves okH home dur (liveAuthority T) (authorityOf T) T d \<and> kept dur T (dvWorld d))
      (recoverStableEgressGeneration D (fst (NewProtocolAdapter T)) T) ?Q"
    by (rule recoverStable_post [OF K])
  have here: "runs (\<lambda>d. egressInv serves okH home dur (liveAuthority T) (authorityOf T) T d \<and> kept dur T (dvWorld d)
      \<and> namedBy g (dvNet d)) (retD (Inr ())) ?Q"
    by (rule runs_weaken [OF post_here [where T = T and Q = "\<lambda>t. sessionEgressViews t \<in> K"]])
      (use none K inspected_canonical [OF canon K] in auto)
  show "runs ?P (recoverStableRecord D (fst (NewProtocolAdapter T)) T g) ?Q" unfolding recoverStableRecord_def
    by (intro runs_if stable runs_inspectThen [OF hT liveAuthority_facts(1)])
      (auto intro!: runs_if here stable runs_weaken [OF stable])
qed

lemma recover_post:
  assumes v: "validEgressRuntimeState T" and K: "inPlay K T"
  shows "runs (\<lambda>d. egressInv serves okH home dur (liveAuthority T) (authorityOf T) T d \<and> kept dur T (dvWorld d))
    (recoverRunningSessionEgressProtocol D)
    (drivePost serves okH home dur (seID T) (\<lambda>t. sessionEgressViews t \<in> K))"
  unfolding recoverRunningSessionEgressProtocol_def Let_def
proof (intro runs_withTx runs_if runs_sum stops refl)
  have KT: "sessionEgressViews T \<in> K" using K by (simp add: inPlay_def)
  from validRuntime_canonical [OF v] obtain g where
    g: "canonicalEgressGeneration T (seEgressGrants T) (seGrantRevision T) = Some g" by blast
  let ?P = "\<lambda>d. egressInv serves okH home dur (liveAuthority T) (authorityOf T) T d \<and> kept dur T (dvWorld d)"
  let ?Q = "drivePost serves okH home dur (seID T) (\<lambda>t. sessionEgressViews t \<in> K)"
  show "runs ?P (retD (Inr ())) ?Q" if "seStatus T \<noteq> StatusRunning"
    by (rule runs_weaken [OF post_here [where T = T and Q = "\<lambda>t. sessionEgressViews t \<in> K"]]) (use that KT in auto)
  fix durable assume "\<not> seStatus T \<noteq> StatusRunning" and "\<not> hasEgressUncertaintyFailure T"
    and gen: "sessionGeneration T = Inr durable"
  then have run: "seStatus T = StatusRunning" and u: "\<not> networkUncertain T"
    by (simp_all add: hasEgressUncertaintyFailure_def networkUncertain_def)
  have "durable = g" using sessionGeneration_canonical [OF g] gen by simp
  then show "runs ?P (recoverStableRecord D (fst (NewProtocolAdapter T)) T durable) ?Q" if "seEgressTransition T = None"
    using recoverStableRecord_post [OF run that KT g] by simp
  show "runs ?P (recoverMarkedRecord D (fst (NewProtocolAdapter T)) T) ?Q" if "seEgressTransition T \<noteq> None"
    using recoverMarked_post [OF v run _ u K] that by blast
qed

section \<open>Narrowing\<close>

text \<open>Putting the wider authority of the record back.\<close>

lemma restored_authority:
  assumes "pairs a s old new n" and "CandidateFrom st T a = Inr c" and "durableGeneration st = old"
    and "sePersistentEgress T = sePersistentEgress s"
  shows "authorityOf c = authorityOf s" "homeOf c = homeOf T" "seID c = seID T"
proof -
  from CandidateFrom_carries [OF assms(2)] assms(1,3)
  have o: "outOfModel c = outOfModel T" "seEgressGrants c = seEgressGrants s"
    by (auto simp: pairs_def carries_def)
  note q = outOfModel_same [OF o(1)]
  show "authorityOf c = authorityOf s" "homeOf c = homeOf T" "seID c = seID T"
    using q o(2) assms(4) by (simp_all add: authorityOf_def)
qed

lemma restoreNarrow_post:
  assumes p: "pairs a s old new n" and st: "durableGeneration st = old"
    and T: "sePersistentEgress T = sePersistentEgress s" "homed home T" "seID T = i"
    and K: "homed home s" "sessionEgressViews s \<in> K"
  shows "runs (\<lambda>d. egressInv serves okH home dur A (authorityOf s) T d \<and> W (dvWorld d))
    (restoreNarrowAfterApplyFailure D a st s e) (drivePost serves okH home dur i Q)"
    and "runs (\<lambda>d. egressInv serves okH home dur A (authorityOf s) T d \<and> W (dvWorld d))
    (restoreNarrowAfterKnownOld D a st s e') (drivePost serves okH home dur i Q)"
proof -
  let ?V = "sessionEgressViews s" let ?P = "\<lambda>d. egressInv serves okH home dur A (authorityOf s) T d \<and> W (dvWorld d)"
  have A: "A \<subseteq> authorityOf s" if "?P d" for d using that by (simp add: egressInv_def)
  note V = views_within [of s]
  have commit: "runs (\<lambda>d. egressInv serves okH home dur (A \<union> set ?V) (authorityOf s) T d \<and> W (dvWorld d)
      \<and> serves (dvNet d) = set ?V) (bindD (txCommit c) f) (drivePost serves okH home dur i Q)"
    if c: "CandidateFrom st T a = Inr c" and A: "A \<subseteq> authorityOf s"
      and f: "\<And>r B T'. seID T' = i \<Longrightarrow> runs (\<lambda>d. egressInv serves okH home dur (A \<union> set ?V) B T' d) (f r)
         (drivePost serves okH home dur i Q)" for c f
  proof -
    note q = restored_authority [OF p c st T(1)]
    have "runs (\<lambda>d. egressInv serves okH home dur (A \<union> set ?V) (authorityOf s) T d \<and> True) (bindD (txCommit c) f)
      (drivePost serves okH home dur i Q)"
    proof (rule runs_commitThen [where N = "\<lambda>_. True"])
      show "A \<union> set ?V \<subseteq> authorityOf c" "homed home c" using A V q T by simp_all
      show "runs (\<lambda>d. egressInv serves okH home dur (A \<union> set ?V) (authorityOf c) (bumped c) d \<and> kept dur (bumped c) (dvWorld d)
          \<and> True) (f (Inr ())) (drivePost serves okH home dur i Q)"
        by (rule runs_weaken [OF f [where T' = "bumped c" and B = "authorityOf c"]]) (use q T in simp_all)
    qed (simp add: f T(3))
    then show ?thesis by (rule runs_weaken) simp_all
  qed
  show "runs ?P (restoreNarrowAfterApplyFailure D a st s e) (drivePost serves okH home dur i Q)"
  proof (rule runs_fact [OF _ A])
    assume A: "A \<subseteq> authorityOf s"
    show "runs ?P (restoreNarrowAfterApplyFailure D a st s e) (drivePost serves okH home dur i Q)"
      unfolding restoreNarrowAfterApplyFailure_def
      by (rule runs_applyThen [OF K V A])
        (auto intro!: runs_withTx runs_sum stops commit A T(3))
  qed
  show "runs ?P (restoreNarrowAfterKnownOld D a st s e') (drivePost serves okH home dur i Q)"
  proof (rule runs_fact [OF _ A])
    assume A: "A \<subseteq> authorityOf s"
    show "runs ?P (restoreNarrowAfterKnownOld D a st s e') (drivePost serves okH home dur i Q)"
      unfolding restoreNarrowAfterKnownOld_def
      by (rule runs_applyThen [OF K V A])
        (auto intro!: runs_withTx runs_sum stops commit A T(3))
  qed
qed

lemma narrowFinal_post:
  assumes p: "pairs a s old new n" and st: "psOperation st = ProtocolNarrow" "pendingGeneration st = new"
      "durableGeneration st = old" and T: "sePersistentEgress T = sePersistentEgress s" "homed home T"
    and K: "homed home s" "sessionEgressViews s \<in> K"
  shows "runs (\<lambda>d. egressInv serves okH home dur A (authorityOf s) T d \<and> serves (dvNet d) = authorityOf n)
    (narrowFinal D s a st) (drivePost serves okH home dur (seID T) (wentTo n))"
proof -
  let ?Q = "drivePost serves okH home dur (seID T) (wentTo n)"
  let ?P = "\<lambda>d. egressInv serves okH home dur (authorityOf n) (authorityOf s) T d \<and> serves (dvNet d) = authorityOf n"
  have w: "wentTo n (bumped t) = wentTo n t" for t by (simp add: wentTo_def bumped_def)
  have restore: "runs (\<lambda>d. egressInv serves okH home dur (authorityOf n) (authorityOf s) T d)
      (restoreNarrowAfterKnownOld D a k s e) ?Q"
    if "ReduceProtocol st (outcomeEvent ProtocolNarrowFinalCommit ProtocolKnownOld ProtocolNoTruth) = (k, True)" for k e
    using restoreNarrow_post(2) [OF p _ T refl K, of k dur "authorityOf n" "\<lambda>_. True"] narrowKnownOld_fields [OF that] st(3)
    by simp
  have "runs ?P (narrowFinal D s a st) ?Q"
    unfolding narrowFinal_def
  proof (intro runs_withTx runs_sum runs_commitThen [where N = "\<lambda>h. serves h = authorityOf n"] stops refl)
    fix c assume c: "EffectCandidateFrom st T a = Inr c"
    have op: "psOperation st = ProtocolWiden \<and> durableGeneration st = pendingGeneration st \<or> psOperation st = ProtocolNarrow"
      using st by simp
    note f = final_of_pair [OF p c op st(2) T(1)]
    show "authorityOf n \<subseteq> authorityOf c" "homed home c" using f T by simp_all
    have run: "seStatus c = StatusRunning" using f(1) by (simp add: wentTo_def)
    have "runs (\<lambda>d. egressInv serves okH home dur (authorityOf n) (authorityOf c) (bumped c) d
        \<and> kept dur (bumped c) (dvWorld d) \<and> serves (dvNet d) = authorityOf n) (retD (Inr ())) ?Q"
      using f run by (intro post_done) (simp_all add: w liveAuthority_def)
    then show "runs (\<lambda>d. egressInv serves okH home dur (authorityOf n) (authorityOf c) (bumped c) d
        \<and> kept dur (bumped c) (dvWorld d) \<and> serves (dvNet d) = authorityOf n)
      (case ReduceProtocol st (outcomeEvent ProtocolNarrowFinalCommit ProtocolKnownNew ProtocolNoTruth) of
         (done', ok) \<Rightarrow> if \<not> ok \<or> psEffect done' \<noteq> ProtocolNoEffect \<or> psResult done' \<noteq> ProtocolSuccess
           then failClosedEgressWithDeps D (Some s) else retD (Inr ())) ?Q" if "seID c = seID T"
      using that by (intro runs_pair runs_if stops) simp_all
  qed (auto intro!: runs_pair stops restore)
  then show ?thesis by (rule runs_weaken) (auto simp: egressInv_def)
qed

lemma narrowApply_post:
  assumes p: "pairs a s old (emptySymbol 1) n" and st: "psOperation st = ProtocolNarrow"
      "pendingGeneration st = emptySymbol 1" "durableGeneration st = old" and base: "durableGeneration base = old"
    and T: "sePersistentEgress T = sePersistentEgress s" "homed home T"
    and sub: "authorityOf n \<subseteq> authorityOf s"
    and hn: "homed home n" and hs: "homed home s" and K: "sessionEgressViews s \<in> K" "sessionEgressViews n \<in> K"
  shows "runs (\<lambda>d. egressInv serves okH home dur A (authorityOf s) T d \<and> W (dvWorld d))
    (narrowApply D s n a base st) (drivePost serves okH home dur (seID T) (wentTo n))"
proof (rule runs_fact)
  let ?V = "sessionEgressViews n" let ?Q = "drivePost serves okH home dur (seID T) (wentTo n)"
  show "egressInv serves okH home dur A (authorityOf s) T d \<and> W (dvWorld d) \<Longrightarrow> A \<subseteq> authorityOf s" for d
    by (simp add: egressInv_def)
  assume A: "A \<subseteq> authorityOf s"
  have V: "set ?V \<subseteq> authorityOf s" "A \<union> set ?V \<subseteq> authorityOf s" using views_within [of n] sub A by auto
  note restore = restoreNarrow_post(1) [OF p base T refl hs K(1)]
  have restore': "runs (\<lambda>d. egressInv serves okH home dur A' (authorityOf s) T d \<and> W (dvWorld d) \<and> namedBy g (dvNet d))
      (restoreNarrowAfterApplyFailure D a base s e) ?Q" for A' g e
    by (rule runs_weaken [OF restore [where W = W]]) auto
  have tail: "runs (\<lambda>d. egressInv serves okH home dur (A \<union> set ?V) (authorityOf s) T d \<and> W (dvWorld d) \<and> namedBy g (dvNet d))
      (narrowFinal D s a m) ?Q"
    if red: "ReduceProtocol st (outcomeEvent ProtocolApplyAction ProtocolSucceeded ProtocolNoTruth) = (x, True)"
      "ReduceProtocol x (outcomeEvent ProtocolInspectAction ProtocolMatched ProtocolNoTruth) = (m, True)"
      and eq: "GenerationEqual (emptySymbol 1) g a" for g x m
  proof -
    note f = sameStep_fields(1) [OF red(1)] sameStep_fields(1) [OF red(2)]
    have "runs (\<lambda>d. egressInv serves okH home dur (A \<union> set ?V) (authorityOf s) T d \<and> serves (dvNet d) = authorityOf n)
      (narrowFinal D s a m) ?Q"
      using f st by (intro narrowFinal_post [OF p] T hs K) simp_all
    then show ?thesis by (rule runs_weaken) (use inspected_pair [OF p eq K(2)] in auto)
  qed
  show "runs (\<lambda>d. egressInv serves okH home dur A (authorityOf s) T d \<and> W (dvWorld d))
    (narrowApply D s n a base st) ?Q"
    unfolding narrowApply_def
    by (intro runs_beginThen [OF hn K(2) V(1) A])
      (auto intro!: runs_pair runs_appliedThen [OF hn K(2) V(2)] stops restore restore' elim!: tail)
qed

lemma narrow_post:
  assumes sub: "authorityOf n \<subseteq> authorityOf s" and nosys: "homed home s" and hn: "homed home n"
    and K: "sessionEgressViews s \<in> K" "sessionEgressViews n \<in> K"
  shows "runs (\<lambda>d. egressInv serves okH home dur A B s d \<and> W d)
    (runRunningSessionNarrowProtocol D s n) (drivePost serves okH home dur (seID s) (wentTo n))"
proof (rule runs_fact)
  let ?Q = "drivePost serves okH home dur (seID s) (wentTo n)"
  show "egressInv serves okH home dur A B s d \<and> W d \<Longrightarrow> A \<subseteq> authorityOf s" for d by (auto simp: egressInv_def)
  assume A: "A \<subseteq> authorityOf s"
  have ne: "grantSymbol 0 \<noteq> emptySymbol 1" "bindableSymbol (grantSymbol 0)" "bindableSymbol (emptySymbol 1)"
    by (simp_all add: symbols)
  have intent: "runs (\<lambda>d. egressInv serves okH home dur A B s d \<and> W d) (narrowIntent D s n a base st c) ?Q"
    if r: "RebaseGeneration (grantSymbol 0) (fst (NewProtocolAdapter s)) = Inr (b, base)"
      "BindGeneration (emptySymbol 1) n b = Inr a"
      and red: "ReduceProtocol base (grantEvent ProtocolNarrowStart ProtocolGrantA) = (st, True)"
      and c: "Candidate st a = Inr c" for a b base st c
  proof -
    note q = rebase_pairs [OF r ne(2,3,1)]
    note f = narrowStart_fields [OF red]
    have fields: "durableGeneration st = grantSymbol 0" "pendingGeneration st = emptySymbol 1" "psOperation st = ProtocolNarrow"
      using f q(2) by (simp_all add: symbols durableGeneration_def protocolGeneration_def)
    have "NormalizeProtocolState st \<noteq> paBaseline a"
    proof
      assume "NormalizeProtocolState st = paBaseline a"
      then have "psOperation (NormalizeProtocolState st) = ProtocolIdle" using q(3,4) by simp
      with fields(3) show False by simp
    qed
    with projectCandidate_carries [of st True a c] c fields(1) q(1)
    have o: "outOfModel c = outOfModel s" "seEgressGrants c = seEgressGrants s"
      by (auto simp: Candidate_def pairs_def carries_def)
    note m = outOfModel_same [OF o(1)]
    have auth: "authorityOf c = authorityOf s" using m o(2) by (simp add: authorityOf_def)
    have applied: "runs (\<lambda>d. egressInv serves okH home dur A (authorityOf s) (bumped c) d \<and> kept dur (bumped c) (dvWorld d))
      (narrowApply D s n a base st) ?Q"
      using narrowApply_post [OF q(1) fields(3,2,1) q(2) _ _ sub hn nosys K, of "bumped c" dur A "kept dur (bumped c)"] m nosys
      by (simp add: bumped_def)
    have "runs (\<lambda>d. egressInv serves okH home dur A B s d \<and> True) (narrowIntent D s n a base st c) ?Q"
      unfolding narrowIntent_def using A auth m nosys
      by (intro runs_commitThen [where N = "\<lambda>_. True"])
        (auto intro!: stops applied upperBound_post upperBound_post [where W = "\<lambda>_. True", simplified])
    then show ?thesis by (rule runs_weaken) simp_all
  qed
  show "runs (\<lambda>d. egressInv serves okH home dur A B s d \<and> W d) (runRunningSessionNarrowProtocol D s n) ?Q"
    unfolding runRunningSessionNarrowProtocol_def
    by (intro runs_sum runs_pair runs_if stops refl) (auto elim: intent)
qed

end

end
