(* ===== verification/EgressCalls.thy ===== *)
theory EgressCalls
  imports EgressSafety
begin

text \<open>
  The three egress handlers as a whole. The store holds one record of the session; the handler takes
  the lock, reads it, recovers an interrupted change, and makes its own. Two properties: the boundary
  never serves what the record does not grant, at no point of a call, and a call that reports success
  leaves boundary, record and marker in agreement. A third one is the quarantine: a record with the
  uncertainty marker can only be torn down.
\<close>

section \<open>A call\<close>

datatype egress_op =
    GrantOp string int time "nat list option"
  | DismissOp string int time
  | RevokeOp string time

definition egressCall ::
  "('h, 'app) egress_deps \<Rightarrow> egress_op \<Rightarrow> string \<Rightarrow> 'h \<Rightarrow> world
   \<Rightarrow> (drive_error, Session) res \<times> 'h drive_end" where
  "egressCall d op i h w =
     (case op of
        GrantOp host port now entropy \<Rightarrow>
          (case grantSessionEgress d i host port now entropy h w of (r, fin) \<Rightarrow>
             (rbind r (\<lambda>(s, _). Inr s), fin))
      | DismissOp host port now \<Rightarrow>
          (case dismissSessionEgress d i host port now h w of (r, fin) \<Rightarrow> (rbind r (\<lambda>(s, _). Inr s), fin))
      | RevokeOp grantID now \<Rightarrow>
          (case revokeSessionEgress d i grantID now h w of (r, fin) \<Rightarrow> (rbind r (\<lambda>(s, _). Inr s), fin)))"

text \<open>What the operation asks of the record, and the record a call would try to reach.\<close>

definition asked :: "egress_op \<Rightarrow> Session \<Rightarrow> bool" where
  "asked op t \<longleftrightarrow>
     (case op of
        GrantOp host port _ _ \<Rightarrow>
          (\<exists>h p. ValidateExactEgress host port = Inr (h, p) \<and> \<lparr>destHost = h, destPort = p\<rparr> \<in> authorityOf t)
      | DismissOp host port _ \<Rightarrow>
          (\<exists>h p. ValidateExactEgress host port = Inr (h, p)
             \<and> (\<exists>k \<in> set (seEgressAcknowledgements t). eaHost k = h \<and> eaPort k = p))
      | RevokeOp grantID _ \<Rightarrow> grantID \<notin> egID ` set (seEgressGrants t))"

definition nextOf :: "egress_op \<Rightarrow> Session \<Rightarrow> (session_error, Session) res" where
  "nextOf op s =
     (case op of
        GrantOp host port now entropy \<Rightarrow> rbind (AppendGrant s host port now entropy) (\<lambda>(n, _). Inr n)
      | DismissOp host port now \<Rightarrow> rbind (DismissEgress s host port now) (\<lambda>(n, _). Inr n)
      | RevokeOp grantID now \<Rightarrow> RevokeGrant s grantID now)"

text \<open>\<open>K\<close> has every list of destinations the call may ask the proxy for.\<close>

definition callInPlay :: "SessionGrant list set \<Rightarrow> egress_op \<Rightarrow> Session \<Rightarrow> bool" where
  "callInPlay K op s \<longleftrightarrow> inPlay K s
     \<and> (\<forall>t n. sessionEgressViews t \<in> K \<longrightarrow> nextOf op t = Inr n \<longrightarrow> sessionEgressViews n \<in> K)"

section \<open>The bodies\<close>

lemma drivePost_mono:
  "drivePost serves okH home dur i Q r st \<Longrightarrow> (\<And>t. Q t \<Longrightarrow> Q' t) \<Longrightarrow> drivePost serves okH home dur i Q' r st"
  by (auto simp: drivePost_def finished_def split: sum.splits)

lemma runs_andReturn:
  assumes "runs P m (drivePost serves okH home dur i Q)"
  shows "runs P (andReturn m x) (drivePost serves okH home dur i Q)"
  unfolding andReturn_def
  by (rule runs_bind [OF assms], rule runs_ret) (auto simp: drivePost_def split: sum.splits)

text \<open>The state between the recovery and the operation proper.\<close>

definition readyAt ::
  "('h \<Rightarrow> Destination set) \<Rightarrow> ('h \<Rightarrow> bool) \<Rightarrow> session_home \<Rightarrow> bool \<Rightarrow> Session \<Rightarrow> 'h drive \<Rightarrow> bool" where
  "readyAt serves okH home dur T st \<longleftrightarrow>
     egressInv serves okH home dur (liveAuthority T) (authorityOf T) T st \<and> kept dur T (dvWorld st)
   \<and> (seStatus T = StatusRunning \<longrightarrow> serves (dvNet st) = authorityOf T)"

lemma finished_readyAt:
  "finished serves okH home dur i Q st \<longleftrightarrow>
     (\<exists>T. seID T = i \<and> Q T \<and> readyAt serves okH home dur T st \<and> (seStatus T = StatusRunning \<longrightarrow> seEgressTransition T = None))"
  by (auto simp: finished_def readyAt_def)

lemma kept_stored: "kept False T w \<Longrightarrow> storedSession (seID T) w T"
  by (auto simp: kept_def held_def)

lemma commitD_post:
  assumes id: "seID n = seID T" and nosys: "homed home n" and Q: "Q n" "\<And>t. Q (bumped t) = Q t"
    and live: "liveAuthority T \<subseteq> liveAuthority n"
    and run: "seStatus n = StatusRunning \<longrightarrow> seEgressTransition n = None \<and> seStatus T = StatusRunning
       \<and> authorityOf n = authorityOf T"
  shows "runs (readyAt serves okH home dur T) (commitD n) (drivePost serves okH home dur (seID T) Q)"
proof -
  let ?N = "\<lambda>h. seStatus n = StatusRunning \<longrightarrow> serves h = authorityOf n"
  have good: "drivePost serves okH home dur (seID T) Q (Inr ()) st"
    if "egressInv serves okH home dur (liveAuthority T) (authorityOf n) (bumped n) st" "kept dur (bumped n) (dvWorld st)"
      "?N (dvNet st)" for st
  proof -
    have "egressInv serves okH home dur (liveAuthority (bumped n)) (authorityOf (bumped n)) (bumped n) st"
      using egressInv_weaken [OF that(1), of "liveAuthority n" "authorityOf n"] live by simp
    moreover have "seEgressTransition (bumped n) = seEgressTransition n" by (simp add: bumped_def)
    ultimately show ?thesis using that(2,3) id Q run
      unfolding drivePost_def sum.case finished_readyAt readyAt_def by (intro exI [of _ "bumped n"]) simp
  qed
  have "runs (\<lambda>st. egressInv serves okH home dur (liveAuthority T) (authorityOf T) T st \<and> ?N (dvNet st))
    (commitD n) (drivePost serves okH home dur (seID T) Q)"
    unfolding commitD_def
  proof (rule runs_commitThen [where N = ?N])
    show "liveAuthority T \<subseteq> authorityOf n" using live liveAuthority_facts(1) [of n] by (rule subset_trans)
  qed (use nosys good in \<open>auto intro!: runs_ret simp: drivePost_def dest: egressInv_safe\<close>)
  then show ?thesis by (rule runs_weaken) (use run in \<open>auto simp: readyAt_def\<close>)
qed

lemma opBody_facts:
  assumes "nextOf op s = Inr n"
  shows "seID n = seID s" "homeOf n = homeOf s" "seStatus n = seStatus s"
    "seEgressTransition n = seEgressTransition s" "sePersistentEgress n = sePersistentEgress s"
proof -
  have "seID n = seID s \<and> homeOf n = homeOf s \<and> seStatus n = seStatus s
     \<and> seEgressTransition n = seEgressTransition s \<and> sePersistentEgress n = sePersistentEgress s"
  proof (cases op)
    case (GrantOp host port now entropy)
    with assms obtain g where "AppendGrant s host port now entropy = Inr (n, g)" by (auto simp: nextOf_def rbind_Inr_iff)
    then show ?thesis by (rule AppendGrant_cases) (simp_all add: homeOf_def)
  next
    case (DismissOp host port now)
    with assms show ?thesis
      by (auto simp: nextOf_def rbind_Inr_iff DismissEgress_def Let_def homeOf_def split: if_splits)
  next
    case (RevokeOp grantID now)
    with assms have "RevokeGrant s grantID now = Inr n" by (simp add: nextOf_def)
    then show ?thesis by (rule RevokeGrant_Inr) (simp add: homeOf_def)
  qed
  then show "seID n = seID s" "homeOf n = homeOf s" "seStatus n = seStatus s"
    "seEgressTransition n = seEgressTransition s" "sePersistentEgress n = sePersistentEgress s" by simp_all
qed

lemma asked_bumped [simp]: "asked op (bumped t) = asked op t"
  by (cases op) (simp_all add: asked_def bumped_def authorityOf_def)


lemma grant_revision_moves: "wrap_int (r + 1) \<noteq> r"
proof
  let ?x = "r + 2 ^ 63 :: int"
  assume "wrap_int (r + 1) = r"
  then have "(?x + 1) mod 2 ^ 64 = ?x" by (simp add: wrap_int_def algebra_simps)
  then have "2 ^ 64 * ((?x + 1) div 2 ^ 64) = 1" using minus_mod_eq_mult_div [of "?x + 1" "2 ^ 64"] by simp
  from arg_cong [OF this, of even] show False by simp
qed

text \<open>What each operation leaves, by the grants of the record it asked for.\<close>

lemma grant_asked:
  assumes "AppendGrant s host port now entropy = Inr (n, g)" and "seEgressGrants t = seEgressGrants n"
  shows "asked (GrantOp host port now entropy) t"
proof -
  have "ValidateExactEgress host port = Inr (egHost g, egPort g) \<and> g \<in> set (seEgressGrants n)"
    using assms(1) by (rule AppendGrant_cases) simp_all
  then have "ValidateExactEgress host port = Inr (egHost g, egPort g)" "grantDestination g \<in> authorityOf t"
    using assms(2) by (simp_all add: authorityOf_def)
  then show ?thesis by (simp add: asked_def grantDestination_def)
qed

lemma dismiss_asked:
  assumes "DismissEgress s host port now = Inr (n, k)"
  shows "asked (DismissOp host port now) n"
proof -
  have ack: "\<exists>k \<in> set (replaceAck a ks). eaHost k = eaHost a \<and> eaPort k = eaPort a" for a ks
    by (induction a ks rule: replaceAck.induct) auto
  from assms obtain h p where v: "ValidateExactEgress host port = Inr (h, p)"
    "seEgressAcknowledgements n = replaceAck \<lparr>eaHost = h, eaPort = p, eaAcknowledgedAt = now\<rparr> (seEgressAcknowledgements s)"
    by (auto simp: DismissEgress_def ValidateEgressGrant_def Let_def split: if_splits sum.splits)
  then show ?thesis using ack [of "\<lparr>eaHost = h, eaPort = p, eaAcknowledgedAt = now\<rparr>"] by (simp add: asked_def)
qed

lemma revoke_asked:
  assumes "RevokeGrant s grantID now = Inr n" and "distinct (map egID (seEgressGrants s))"
    and "seEgressGrants t = seEgressGrants n"
  shows "asked (RevokeOp grantID now) t"
  using assms(1)
proof (rule RevokeGrant_Inr)
  fix us g vs assume r: "seEgressGrants s = us @ g # vs" "egID g = grantID"
    "n = s\<lparr>seEgressGrants := us @ vs, seGrantRevision := wrap_int (seGrantRevision s + 1), seUpdatedAt := now\<rparr>"
  then have "seEgressGrants t = us @ vs" using assms(3) by simp
  then show ?thesis using assms(2) r(1,2) by (auto simp: asked_def)
qed

lemma stored_distinct: "storedSession i w s \<Longrightarrow> distinct (map egID (seEgressGrants s))"
  using storedSession_valid(2) [of i w s] by (auto simp: validateRecord_Inr validEgressAuthority_iff validGrantList_iff)

context egress_boundary
begin

lemma grantBody_post:
  assumes nosys: "homed home T" and none: "seStatus T = StatusRunning \<longrightarrow> seEgressTransition T = None"
    and K: "\<And>n. nextOf (GrantOp host port now entropy) T = Inr n \<Longrightarrow> sessionEgressViews n \<in> K"
  shows "runs (readyAt serves okH home dur T) (grantBody D host port now entropy T)
    (drivePost serves okH home dur (seID T) (\<lambda>t. \<not> dur \<longrightarrow> asked (GrantOp host port now entropy) t))"
proof -
  let ?op = "GrantOp host port now entropy"
  let ?Q = "\<lambda>t. \<not> dur \<longrightarrow> asked ?op t"
  have err: "runs (readyAt serves okH home dur T) (retD (Inl e)) (drivePost serves okH home dur (seID T) ?Q)" for e
    by (rule runs_ret) (auto simp: drivePost_def readyAt_def dest: egressInv_safe)
  have ok: "runs (readyAt serves okH home dur T)
      (if seGrantRevision n = seGrantRevision T then retD (Inr g)
       else andReturn (if seStatus T \<noteq> StatusRunning then commitD n else runRunningSessionWidenProtocol D T n) g)
      (drivePost serves okH home dur (seID T) ?Q)" if a: "AppendGrant T host port now entropy = Inr (n, g)" for n g
    using a
  proof (rule AppendGrant_cases)
    assume n: "n = T"
    show ?thesis unfolding n
      by (simp, rule runs_ret)
        (use grant_asked [OF a] n none in \<open>auto simp: drivePost_def finished_readyAt\<close>)
  next
    assume n: "n = T\<lparr>seEgressGrants := seEgressGrants T @ [g],
      seGrantRevision := wrap_int (seGrantRevision T + 1), seUpdatedAt := now\<rparr>"
    have f: "seID n = seID T" "homeOf n = homeOf T" "seStatus n = seStatus T" "authorityOf T \<subseteq> authorityOf n"
      "seGrantRevision n \<noteq> seGrantRevision T"
      using n grant_revision_moves by (auto simp: authorityOf_def homeOf_def)
    have asked: "seEgressGrants t = seEgressGrants n \<Longrightarrow> asked ?op t" for t by (rule grant_asked [OF a])
    have "runs (readyAt serves okH home dur T) (commitD n) (drivePost serves okH home dur (seID T) ?Q)" if "seStatus T \<noteq> StatusRunning"
      using commitD_post [where n = n and T = T and Q = ?Q] f nosys asked that by (simp add: liveAuthority_def)
    moreover have "runs (readyAt serves okH home dur T) (runRunningSessionWidenProtocol D T n)
        (drivePost serves okH home dur (seID T) ?Q)" if "seStatus T = StatusRunning"
    proof (rule runs_weaken [OF widen_post [OF f(4) nosys, where W = "\<lambda>_. True"]])
      show "homed home n" using nosys f(2) by simp
      show "sessionEgressViews n \<in> K" using K a by (simp add: nextOf_def)
    qed (auto simp: readyAt_def elim!: drivePost_mono intro!: asked simp: wentTo_def)
    ultimately show ?thesis using f(5) by (auto intro!: runs_andReturn)
  qed
  show ?thesis unfolding grantBody_def by (intro runs_sum runs_pair err) (use ok in simp)
qed

lemma readyAt_error:
  "runs (readyAt serves okH home dur T) (retD (Inl e)) (drivePost serves okH home dur (seID T) Q)"
  by (rule runs_ret) (auto simp: drivePost_def readyAt_def dest: egressInv_safe)

lemma dismissBody_post:
  assumes nosys: "homed home T" and none: "seStatus T = StatusRunning \<longrightarrow> seEgressTransition T = None"
  shows "runs (readyAt serves okH home dur T) (dismissBody host port now T)
    (drivePost serves okH home dur (seID T) (\<lambda>t. \<not> dur \<longrightarrow> asked (DismissOp host port now) t))"
  unfolding dismissBody_def
proof (intro runs_sum runs_pair readyAt_error runs_andReturn)
  fix y n k assume "DismissEgress T host port now = Inr y" and "y = (n, k)"
  then have d: "DismissEgress T host port now = Inr (n, k)" by simp
  then have "nextOf (DismissOp host port now) T = Inr n" by (simp add: nextOf_def)
  note f = opBody_facts [OF this]
  have "seEgressGrants n = seEgressGrants T"
    using d by (auto simp: DismissEgress_def ValidateEgressGrant_def Let_def split: if_splits sum.splits)
  then have "authorityOf n = authorityOf T" using f(5) by (rule authorityOf_cong [rotated])
  then show "runs (readyAt serves okH home dur T) (commitD n)
      (drivePost serves okH home dur (seID T) (\<lambda>t. \<not> dur \<longrightarrow> asked (DismissOp host port now) t))"
    using f nosys none dismiss_asked [OF d] by (intro commitD_post) (auto simp: liveAuthority_def)
qed

lemma revokeBody_post:
  assumes nosys: "homed home T" and none: "seStatus T = StatusRunning \<longrightarrow> seEgressTransition T = None"
    and K: "sessionEgressViews T \<in> K" "\<And>n. nextOf (RevokeOp grantID now) T = Inr n \<Longrightarrow> sessionEgressViews n \<in> K"
  shows "runs (readyAt serves okH home dur T) (revokeBody D grantID now T)
    (drivePost serves okH home dur (seID T) (\<lambda>t. \<not> dur \<longrightarrow> asked (RevokeOp grantID now) t))"
proof (rule runs_fact)
  let ?Q = "\<lambda>t. \<not> dur \<longrightarrow> asked (RevokeOp grantID now) t"
  show "\<not> dur \<longrightarrow> distinct (map egID (seEgressGrants T))" if "readyAt serves okH home dur T d" for d
    using that stored_distinct kept_stored [of T "dvWorld d"] by (cases dur) (auto simp: readyAt_def)
  assume dist: "\<not> dur \<longrightarrow> distinct (map egID (seEgressGrants T))"
  show "runs (readyAt serves okH home dur T) (revokeBody D grantID now T) (drivePost serves okH home dur (seID T) ?Q)"
    unfolding revokeBody_def
  proof (intro runs_sum runs_if readyAt_error)
    fix n assume a: "RevokeGrant T grantID now = Inr n"
    then have nx: "nextOf (RevokeOp grantID now) T = Inr n" by (simp add: nextOf_def)
    note f = opBody_facts [OF nx]
    have asked: "?Q t" if "seEgressGrants t = seEgressGrants n" for t
      using revoke_asked [OF a _ that] dist by blast
    have hn: "homed home n" using nosys f(2) by simp
    from a have sub: "authorityOf n \<subseteq> authorityOf T" by (rule RevokeGrant_Inr) (auto simp: authorityOf_def)
    show "runs (readyAt serves okH home dur T) (commitD n) (drivePost serves okH home dur (seID T) ?Q)" if "seStatus T \<noteq> StatusRunning"
      using f nosys that asked by (intro commitD_post) (auto simp: liveAuthority_def)
    show "runs (readyAt serves okH home dur T) (runRunningSessionNarrowProtocol D T n)
        (drivePost serves okH home dur (seID T) ?Q)"
      by (rule runs_weaken [OF narrow_post [OF sub nosys hn K(1) K(2) [OF nx], where W = "\<lambda>_. True"]])
        (use asked in \<open>auto simp: readyAt_def wentTo_def elim!: drivePost_mono\<close>)
  qed
qed

text \<open>The opening of a handler: a stopped session is refused, a running one is recovered.\<close>

lemma recoverThen_post:
  assumes v: "validEgressRuntimeState s" and K: "inPlay K s"
    and body: "\<And>T. seID T = seID s \<Longrightarrow> sessionEgressViews T \<in> K \<Longrightarrow> homed home T
      \<Longrightarrow> seStatus T = StatusRunning \<longrightarrow> seEgressTransition T = None
      \<Longrightarrow> runs (readyAt serves okH home dur T) (body T) (drivePost serves okH home dur (seID T) Q)"
  shows "runs (\<lambda>d. egressInv serves okH home dur (liveAuthority s) (authorityOf s) s d \<and> kept dur s (dvWorld d))
    (recoverThen D body) (drivePost serves okH home dur (seID s) Q)"
  unfolding recoverThen_def
proof (intro runs_withTx runs_if stops refl runs_bind [OF recover_post [OF v K]] runs_sum)
  fix r :: "(drive_error, unit) res" and e assume "r = Inl e"
  then show "runs (drivePost serves okH home dur (seID s) (\<lambda>t. sessionEgressViews t \<in> K) r) (retD (Inl e))
      (drivePost serves okH home dur (seID s) Q)" by (auto intro!: runs_ret simp: drivePost_def)
next
  fix r :: "(drive_error, unit) res" and y assume "r = Inr y"
  then show "runs (drivePost serves okH home dur (seID s) (\<lambda>t. sessionEgressViews t \<in> K) r) (bindD txSession body)
      (drivePost serves okH home dur (seID s) Q)"
    unfolding runs_def
  proof (intro allI impI)
    fix st r' st' assume p: "drivePost serves okH home dur (seID s) (\<lambda>t. sessionEgressViews t \<in> K) r st"
      and run: "bindD txSession body st = (r', st')"
    from p \<open>r = Inr y\<close> obtain T where T: "seID T = seID s" "sessionEgressViews T \<in> K" "readyAt serves okH home dur T st"
      "seStatus T = StatusRunning \<longrightarrow> seEgressTransition T = None"
      by (auto simp: drivePost_def finished_readyAt)
    then have t: "homed home T" "dvTx st = T" by (auto simp: readyAt_def egressInv_def)
    with run have "body T st = (r', st')" by (simp add: bindD_def txSession_def)
    from runsD [OF body [OF T(1,2) t(1) T(4)] T(3) this]
    show "drivePost serves okH home dur (seID s) Q r' st'" using T(1) by simp
  qed
qed

section \<open>A whole call\<close>

lemma driveLocked_post:
  assumes run: "driveLocked i fn h w = (r, fin)" and st: "storedSession i w s" and hm: "homeOf s = home"
    and h: "okH h" "serves h \<subseteq> liveAuthority s" and low: "\<forall>t \<in> held dur i w. authorityOf s \<subseteq> authorityOf t"
    and body: "runs (\<lambda>d. egressInv serves okH home dur (liveAuthority s) (authorityOf s) s d \<and> kept dur s (dvWorld d))
      fn (drivePost serves okH home dur i Q)"
  shows "list_all (safeAt serves dur i) (deLog fin @ [(deWorld fin, deNet fin)])
    \<and> (\<forall>t x. r = Inr (t, x) \<longrightarrow> seID t = i \<and> Q t \<and> kept dur t (deWorld fin) \<and> serves (deNet fin) \<subseteq> liveAuthority t
        \<and> (seStatus t = StatusRunning \<longrightarrow> seEgressTransition t = None \<and> serves (deNet fin) = authorityOf t))"
proof -
  note s = storedSession_valid [OF st]
  have hs: "homed home s" using hm s(3) by (rule homedI)
  obtain q w' where q: "withRecordLock i (bindIO (getUnlocked i) (lockedBody fn h)) w = (q, w')" by fastforce
  have early: ?thesis if "q = Inl e" "diskFrame w w'" for e
  proof -
    have "held dur i w' = held dur i w" using that(2) by (rule held_frame)
    moreover have "serves h \<subseteq> authorityOf s" using h(2) liveAuthority_facts(1) by (rule subset_trans)
    ultimately have "safeAt serves dur i (w', h)" using low by (auto simp: safeAt_def)
    then show ?thesis using run q that(1) by (auto simp: driveLocked_def)
  qed
  have body': ?thesis if w: "diskFrame w v" "fn \<lparr>dvWorld = v, dvTx = s, dvNet = h, dvLog = []\<rparr> = (r0, d)"
    "q = Inr (r0, d)" "w' = (dvWorld d)\<lparr>wTrace := tr\<rparr>" for v r0 d tr
  proof -
    have frame: "diskFrame (dvWorld d) w'" using w(4) by (simp add: diskFrame_def)
    have hv: "held dur i v = held dur i w" using w(1) by (rule held_frame)
    have vis: "{t. storedSession i v t} = {s}"
      using st storedSession_frame [OF w(1)] storedSession_unique by blast
    have "egressInv serves okH home dur (liveAuthority s) (authorityOf s) s \<lparr>dvWorld = v, dvTx = s, dvNet = h, dvLog = []\<rparr>"
      using h low s(1) hs hv by (simp add: egressInv_def)
    moreover have "kept dur s v" using vis s(1) by (simp add: kept_def held_def)
    ultimately have post: "drivePost serves okH home dur i Q r0 d" using runsD [OF body _ w(2)] by simp
    have fin: "fin = \<lparr>deWorld = w', deNet = dvNet d, deLog = dvLog d\<rparr>" "r = rbind r0 (\<lambda>x. Inr (dvTx d, x))"
      using run q w(3) by (simp_all add: driveLocked_def)
    have safe: "safeEnd serves okH dur i d"
      using post by (cases r0) (auto simp: drivePost_def finished_def dest: egressInv_safe)
    have "list_all (safeAt serves dur i) (deLog fin @ [(deWorld fin, deNet fin)])"
      using safe held_frame [OF frame] by (simp add: fin safeEnd_def safeAt_def)
    moreover have "\<exists>T. seID T = i \<and> Q T \<and> readyAt serves okH home dur T d
        \<and> (seStatus T = StatusRunning \<longrightarrow> seEgressTransition T = None)" if "r0 = Inr x" for x
      using post that by (simp add: drivePost_def finished_readyAt)
    moreover have "kept dur T w' = kept dur T (dvWorld d)" for T using held_frame [OF frame] by (simp add: kept_def)
    ultimately show ?thesis unfolding fin by (cases r0) (auto simp: readyAt_def egressInv_def)
  qed
  from withRecordLock_run [OF q] show ?thesis
  proof (elim disjE exE conjE)
    fix w1 w2 assume w: "i \<noteq> []" "diskFrame w w1" "bindIO (getUnlocked i) (lockedBody fn h) w1 = (q, w2)"
      "w' = w2\<lparr>wTrace := wTrace w2 @ [EvUnlocked i]\<rparr>"
    from w(3) consider e where "getUnlocked i w1 = (Inl e, w2)" "q = Inl e"
      | t v where "getUnlocked i w1 = (Inr t, v)" "lockedBody fn h t v = (q, w2)"
      unfolding bindIO_run by blast
    then show ?thesis
    proof cases
      case 1
      from getUnlocked_run(1) [OF 1(1)] have "diskFrame w1 w2" by simp
      then have "diskFrame w w'" using diskFrame_trans [OF w(2)] w(4) by (simp add: diskFrame_def)
      with 1(2) show ?thesis by (rule early)
    next
      case 2
      note g = getUnlocked_run [OF 2(1)]
      have "storedSession i w1 t" using g(2) w(1) by (simp add: storedSession_def)
      then have "t = s" using st storedSession_frame [OF w(2)] storedSession_unique by blast
      moreover have "diskFrame w v" using g(1) diskFrame_trans [OF w(2)] by blast
      ultimately show ?thesis using 2(2) w(4) body' by (auto simp: lockedBody_def split: prod.splits)
    qed
  qed (erule (1) early)+
qed

lemma egressCall_post:
  assumes run: "egressCall D op i h w = (r, fin)" and st: "storedSession i w s" and hm: "homeOf s = home" and K: "callInPlay K op s"
    and h: "okH h" "serves h \<subseteq> liveAuthority s" and low: "\<forall>t \<in> held dur i w. authorityOf s \<subseteq> authorityOf t"
  shows "list_all (safeAt serves dur i) (deLog fin @ [(deWorld fin, deNet fin)])
    \<and> (\<forall>t. r = Inr t \<longrightarrow> seID t = i \<and> (\<not> dur \<longrightarrow> asked op t) \<and> kept dur t (deWorld fin)
        \<and> serves (deNet fin) \<subseteq> liveAuthority t
        \<and> (seStatus t = StatusRunning \<longrightarrow> seEgressTransition t = None \<and> serves (deNet fin) = authorityOf t))"
proof -
  note s = storedSession_valid [OF st]
  have K': "inPlay K s" "\<And>t n. sessionEgressViews t \<in> K \<Longrightarrow> nextOf op t = Inr n \<Longrightarrow> sessionEgressViews n \<in> K"
    using K by (auto simp: callInPlay_def)
  note locked = driveLocked_post [where Q = "\<lambda>t. \<not> dur \<longrightarrow> asked op t", OF _ st hm h low]
  let ?P = "\<lambda>d. egressInv serves okH home dur (liveAuthority s) (authorityOf s) s d \<and> kept dur s (dvWorld d)"
  have front: "runs ?P (recoverThen D body) (drivePost serves okH home dur i Q)"
    if "\<And>T. sessionEgressViews T \<in> K \<Longrightarrow> homed home T
      \<Longrightarrow> seStatus T = StatusRunning \<longrightarrow> seEgressTransition T = None
      \<Longrightarrow> runs (readyAt serves okH home dur T) (body T) (drivePost serves okH home dur (seID T) Q)"
    for Q and body :: "Session \<Rightarrow> ('h, (drive_error, 'x) res) driven"
    unfolding s(1) [symmetric] by (rule recoverThen_post [OF s(4) K'(1)]) (rule that)
  show ?thesis
  proof (cases op)
    case (GrantOp host port now entropy)
    obtain q where q: "grantSessionEgress D i host port now entropy h w = (q, fin)" "r = rbind q (\<lambda>(s, _). Inr s)"
      using run GrantOp by (auto simp: egressCall_def split: prod.splits)
    from q(1) have "list_all (safeAt serves dur i) (deLog fin @ [(deWorld fin, deNet fin)])
      \<and> (\<forall>t x. q = Inr (t, x) \<longrightarrow> seID t = i \<and> (\<not> dur \<longrightarrow> asked op t) \<and> kept dur t (deWorld fin)
          \<and> serves (deNet fin) \<subseteq> liveAuthority t
          \<and> (seStatus t = StatusRunning \<longrightarrow> seEgressTransition t = None \<and> serves (deNet fin) = authorityOf t))"
      unfolding grantSessionEgress_def by (rule locked) (rule front, use grantBody_post K'(2) GrantOp in simp)
    then show ?thesis using q(2) by (cases q) auto
  next
    case (DismissOp host port now)
    obtain q where q: "dismissSessionEgress D i host port now h w = (q, fin)" "r = rbind q (\<lambda>(s, _). Inr s)"
      using run DismissOp by (auto simp: egressCall_def split: prod.splits)
    from q(1) have "list_all (safeAt serves dur i) (deLog fin @ [(deWorld fin, deNet fin)])
      \<and> (\<forall>t x. q = Inr (t, x) \<longrightarrow> seID t = i \<and> (\<not> dur \<longrightarrow> asked op t) \<and> kept dur t (deWorld fin)
          \<and> serves (deNet fin) \<subseteq> liveAuthority t
          \<and> (seStatus t = StatusRunning \<longrightarrow> seEgressTransition t = None \<and> serves (deNet fin) = authorityOf t))"
      unfolding dismissSessionEgress_def by (rule locked) (rule front, use dismissBody_post K'(2) DismissOp in simp)
    then show ?thesis using q(2) by (cases q) auto
  next
    case (RevokeOp grantID now)
    obtain q where q: "revokeSessionEgress D i grantID now h w = (q, fin)" "r = rbind q (\<lambda>(s, _). Inr s)"
      using run RevokeOp by (auto simp: egressCall_def split: prod.splits)
    from q(1) have "list_all (safeAt serves dur i) (deLog fin @ [(deWorld fin, deNet fin)])
      \<and> (\<forall>t x. q = Inr (t, x) \<longrightarrow> seID t = i \<and> (\<not> dur \<longrightarrow> asked op t) \<and> kept dur t (deWorld fin)
          \<and> serves (deNet fin) \<subseteq> liveAuthority t
          \<and> (seStatus t = StatusRunning \<longrightarrow> seEgressTransition t = None \<and> serves (deNet fin) = authorityOf t))"
      unfolding revokeSessionEgress_def by (rule locked) (rule front, use revokeBody_post K'(2) RevokeOp in simp)
    then show ?thesis using q(2) by (cases q) auto
  qed
qed

end

end
