(* ===== verification/EgressBoundary.thy ===== *)
theory EgressBoundary
  imports EgressApply StageFileLaws EgressCalls
begin

text \<open>
  The container code provides the interface the driver needs. What is assumed of the container engine
  is the locale \<open>docker_host\<close>: which proxies a project runs, and what each command may change. From it
  follow the laws of \<open>egress_boundary\<close> for the closures of \<open>dependencies.go\<close>, so every result of the
  driver holds for the composed program.
\<close>

section \<open>What a proxy serves\<close>

text \<open>A running proxy: its short identifier, its two labels, and the overlay text it read at its start.\<close>

record proxy =
  pxID :: string
  pxRevision :: string
  pxHash :: string
  pxLoaded :: string

text \<open>The destinations an overlay text allows: those it was rendered from.\<close>

definition overlayAllows :: "string \<Rightarrow> Destination set" where
  "overlayAllows body = {d. \<exists>V n g. Build V n = Inr (g, body) \<and> d \<in> set V}"

lemma built_bytes: "Build V n = Inr (g, body) \<Longrightarrow> Build W m = Inr (h, body) \<Longrightarrow> V = W \<and> n = m"
proof -
  assume b: "Build V n = Inr (g, body)" "Build W m = Inr (h, body)"
  then have e: "list_all exactDestination V" "list_all exactDestination W" "generationBody V n = generationBody W m"
    by (auto simp: Build_Inr_iff)
  from e(3) have "intText n @ nl # Render V = intText m @ nl # Render W" by (simp add: generationBody_def)
  then have "n = m" "Render V = Render W" using append_sep_inject [OF nl_free nl_free] by simp_all
  then show "V = W \<and> n = m" using Render_inject [OF e(1,2)] by simp
qed

lemma overlay_built: "Build V n = Inr (g, body) \<Longrightarrow> overlayAllows body = set V"
  unfolding overlayAllows_def using built_bytes by blast

section \<open>The engine\<close>

text \<open>Commands that only look, or only take away.\<close>

definition quietCommand :: "string \<Rightarrow> string list \<Rightarrow> bool" where
  "quietCommand project argv \<longleftrightarrow>
     (\<exists>verb rest. argv = verb # rest \<and> verb \<in> {''ps'', ''inspect'', ''rm'', ''network''})
   \<or> (\<exists>d f ps verb rest. argv = composeBase project d f @ fileFlags ps @ verb # rest \<and> verb \<in> {''exec'', ''ps''})"

definition created :: "files \<Rightarrow> string \<Rightarrow> Generation \<Rightarrow> proxy \<Rightarrow> bool" where
  "created fs overlayDir g p \<longleftrightarrow>
     pxRevision p = intText (generationRevision g) \<and> pxHash p = generationHash g
   \<and> fs (overlayFile overlayDir) = Some (pxLoaded p)"

text \<open>
  The contract. Labels are fixed when a container is created, and Squid reads its files when it
  starts (the Compose file has no restart policy, so a proxy starts once). \<open>up --force-recreate\<close>
  leaves at most old proxies when it fails, and only new ones when it succeeds. \<open>ps -q\<close> lists the
  running proxies; \<open>inspect\<close> prints the labels; \<open>exec\<close> succeeds only in a running container;
  \<open>ps -aq\<close> lists at least the running ones; \<open>rm -f\<close> removes what it is given. \<open>K\<close> has the lists of
  destinations in play, on which the hash has no collision.
\<close>

locale docker_host =
  fixes env :: "'e egress_env"
    and eng :: "'e engine"
    and proxies :: "'e \<Rightarrow> proxy list"
    and K :: "SessionGrant list set"
    and home :: session_home
    and stage :: string
  assumes backend: "evBackend env (fst home) = Some eng" "enName eng = fst home" "fst home \<noteq> []"
    and environment: "fst (snd home) = ''container''"
    and stage_dir: "homeOf s = home \<Longrightarrow> sessionStageDir (evCache env) s = Some stage"
    and stage_abs: "hasPrefix stage [slash]"
    and stage_label: "trimSpace (SessionIDFromStageDir stage) \<noteq> []"
    and quiet: "quietCommand (projectOf (stCwd (evSettings env)) (composeFileOf stage)) argv
      \<Longrightarrow> enCommand eng argv fs e = (r, e1) \<Longrightarrow> set (proxies e1) \<subseteq> set (proxies e)"
    and up: "enCommand eng (composeBase (projectOf (stCwd (evSettings env)) (composeFileOf stage)) d f
          @ fileFlags [ov] @ upVerb) fs e = (r, e1)
      \<Longrightarrow> V \<in> K \<Longrightarrow> Build V n = Inr (g, body) \<Longrightarrow> renderEgressOverride (overlayDirOf stage) g = Some content
      \<Longrightarrow> fs ov = Some content \<Longrightarrow> p \<in> set (proxies e1)
      \<Longrightarrow> created fs (overlayDirOf stage) g p \<or> \<not> eoOK r \<and> p \<in> set (proxies e)"
    and listed: "enCommand eng (projectProxies (projectOf (stCwd (evSettings env)) (composeFileOf stage))) fs e = (r, e1)
      \<Longrightarrow> eoOK r \<Longrightarrow> fieldsText (eoStdout r) = map pxID (proxies e1)"
    and labels: "enCommand eng [''inspect'', ''-f'', labelFormat, line] fs e = (r, e1) \<Longrightarrow> eoOK r
      \<Longrightarrow> proxies e = [p] \<Longrightarrow> sameRuntimeObjectID (pxID p) line
      \<Longrightarrow> eoStdout r = pxRevision p @ '' '' @ pxHash p @ [nl]"
    and alive: "enCommand eng (composeBase (projectOf (stCwd (evSettings env)) (composeFileOf stage)) d f
          @ fileFlags ps @ hashVerb) fs e = (r, e1)
      \<Longrightarrow> eoOK r \<Longrightarrow> proxies e1 \<noteq> []"
    and owned: "enCommand eng ([''ps'', ''-aq''] @ ownedFilter ''safeslop.session'' (SessionIDFromStageDir stage)) fs e = (r, e1)
      \<Longrightarrow> eoOK r \<Longrightarrow> scannedLines (eoCombined r) = Some ids \<Longrightarrow> pxID ` set (proxies e1) \<subseteq> set ids"
    and removed: "enCommand eng (''rm'' # ''-f'' # ids) fs e = (r, e1)
      \<Longrightarrow> eoOK r \<Longrightarrow> p \<in> set (proxies e1) \<Longrightarrow> pxID p \<notin> set ids"
    and no_collision: "V \<in> K \<Longrightarrow> W \<in> K \<Longrightarrow> 0 \<le> n \<Longrightarrow> n \<le> max_int
      \<Longrightarrow> sha256Hex (generationBody V n) = sha256Hex (generationBody W n) \<Longrightarrow> set V = set W"

text \<open>What the boundary serves, and when its proxies are ones the code created for lists in play.\<close>

definition served :: "('e \<Rightarrow> proxy list) \<Rightarrow> 'e boundary \<Rightarrow> Destination set" where
  "served proxies st = (\<Union>p \<in> set (proxies (bdEngine st)). overlayAllows (pxLoaded p))"

definition ownProxy :: "SessionGrant list set \<Rightarrow> proxy \<Rightarrow> bool" where
  "ownProxy K p \<longleftrightarrow>
     (\<exists>V n g. V \<in> K \<and> Build V n = Inr (g, pxLoaded p) \<and> pxRevision p = intText n \<and> pxHash p = generationHash g)"

definition ownProxies :: "('e \<Rightarrow> proxy list) \<Rightarrow> SessionGrant list set \<Rightarrow> 'e boundary \<Rightarrow> bool" where
  "ownProxies proxies K st \<longleftrightarrow> (\<forall>p \<in> set (proxies (bdEngine st)). ownProxy K p)"

text \<open>Effects that add no proxy.\<close>

definition addsNone :: "('e \<Rightarrow> proxy list) \<Rightarrow> ('e, 'a) eff \<Rightarrow> bool" where
  "addsNone proxies m \<longleftrightarrow>
     (\<forall>st r st'. m st = (r, st') \<longrightarrow> set (proxies (bdEngine st')) \<subseteq> set (proxies (bdEngine st)))"

lemma addsNoneD: "addsNone proxies m \<Longrightarrow> m st = (r, st') \<Longrightarrow> set (proxies (bdEngine st')) \<subseteq> set (proxies (bdEngine st))"
  by (simp add: addsNone_def)

lemma addsNone_simple [intro, simp]:
  "addsNone proxies (retB x)" "addsNone proxies (failB e)" "addsNone proxies (liftB e y)" "addsNone proxies (readB f)"
  "addsNone proxies (osB what)" "addsNone proxies (setFile path body)" "addsNone proxies (dropFiles dir)"
  by (auto simp: addsNone_def retB_def failB_def liftB_def readB_def osB_def setFile_def dropFiles_def
      split: option.splits list.splits)

lemma addsNone_bind [intro]:
  assumes "addsNone proxies m" and "\<And>x. addsNone proxies (f x)"
  shows "addsNone proxies (bindB m f)"
  unfolding addsNone_def
proof (intro allI impI)
  fix st r st' assume run: "bindB m f st = (r, st')"
  show "set (proxies (bdEngine st')) \<subseteq> set (proxies (bdEngine st))"
  proof (cases "m st")
    case (Pair q st1)
    note a = addsNoneD [OF assms(1) this]
    show ?thesis
    proof (cases q)
      case (Inl e)
      with Pair run a show ?thesis by (simp add: bindB_def)
    next
      case (Inr x)
      with Pair run have "f x st1 = (r, st')" by (simp add: bindB_def)
      from addsNoneD [OF assms(2) this] a show ?thesis by (rule subset_trans)
    qed
  qed
qed

lemma addsNone_try [intro]: "addsNone proxies m \<Longrightarrow> addsNone proxies (tryB m)"
  by (auto simp: addsNone_def tryB_def split: prod.splits)

lemma addsNone_uncertain [intro]: "addsNone proxies m \<Longrightarrow> addsNone proxies (uncertainB m)"
  unfolding uncertainB_def by (intro addsNone_bind addsNone_try) (auto split: sum.split)

lemma addsNone_cases [intro]:
  "(b \<Longrightarrow> addsNone proxies m) \<Longrightarrow> (\<not> b \<Longrightarrow> addsNone proxies n) \<Longrightarrow> addsNone proxies (if b then m else n)"
  by simp

lemma bindB_Inr: "bindB m f st = (Inr y, st') \<longleftrightarrow> (\<exists>x st1. m st = (Inr x, st1) \<and> f x st1 = (Inr y, st'))"
  by (auto simp: bindB_def split: prod.splits sum.splits)

lemma effect_results:
  "retB x st = (r, st') \<longleftrightarrow> r = Inr x \<and> st' = st"
  "failB e st = (r, st') \<longleftrightarrow> r = Inl e \<and> st' = st"
  "liftB e y st = (Inr x, st') \<longleftrightarrow> y = Some x \<and> st' = st"
  by (auto simp: retB_def failB_def liftB_def split: option.splits)

lemma uncertainB_Inr: "uncertainB m st = (Inr x, st') \<longleftrightarrow> m st = (Inr x, st')"
  by (auto simp: uncertainB_def bindB_def tryB_def retB_def failB_def split: prod.splits sum.splits)

lemma outputB_Inr:
  "outputB eng argv st = (Inr out, st') \<longleftrightarrow>
     (\<exists>r e. enCommand eng argv (bdFiles st) (bdEngine st) = (r, e) \<and> eoOK r \<and> out = eoStdout r \<and> st' = st\<lparr>bdEngine := e\<rparr>)"
  by (auto simp: outputB_def bindB_Inr commandB_def effect_results split: prod.splits if_splits)

lemma addsNone_output: "addsNone proxies (commandB eng argv) \<Longrightarrow> addsNone proxies (outputB eng argv)"
  unfolding outputB_def by (intro addsNone_bind) auto

lemma addsNone_composed:
  assumes "\<And>argv. composeProjectArgsWithOverrides (stCwd c) cf ovs args = Some argv \<Longrightarrow> addsNone proxies (f argv)"
  shows "addsNone proxies (bindB (composeB c cf ovs args) f)"
proof (cases "composeProjectArgsWithOverrides (stCwd c) cf ovs args")
  case None
  then show ?thesis by (simp add: addsNone_def bindB_def composeB_def liftB_def failB_def)
next
  case (Some argv)
  with assms [OF this] show ?thesis by (simp add: addsNone_def bindB_def composeB_def liftB_def retB_def)
qed

text \<open>The two shapes of output the code accepts.\<close>

lemma one_field:
  "(case xs of [x] \<Rightarrow> f x | _ \<Rightarrow> failB e) st = (Inr y, st') \<longleftrightarrow> (\<exists>x. xs = [x] \<and> f x st = (Inr y, st'))"
  by (auto simp: failB_def split: list.splits)

lemma two_fields:
  "(case xs of [x, z] \<Rightarrow> f x z | _ \<Rightarrow> failB e) st = (Inr y, st') \<longleftrightarrow> (\<exists>x z. xs = [x, z] \<and> f x z st = (Inr y, st'))"
  by (auto simp: failB_def split: list.splits)

lemma guarded:
  "(case o' of None \<Rightarrow> failB e | Some v \<Rightarrow> g v) st = (Inr y, st') \<longleftrightarrow> (\<exists>v. o' = Some v \<and> g v st = (Inr y, st'))"
  "(case xs of [] \<Rightarrow> failB e | a # l \<Rightarrow> h a l) st = (Inr y, st') \<longleftrightarrow> (\<exists>a l. xs = a # l \<and> h a l st = (Inr y, st'))"
  "(if b then failB e else m) st = (Inr y, st') \<longleftrightarrow> \<not> b \<and> m st = (Inr y, st')"
  by (auto simp: failB_def split: option.splits list.splits)

lemma addsNone_fields [intro]:
  "(\<And>x. addsNone proxies (f x)) \<Longrightarrow> addsNone proxies (case xs of [x] \<Rightarrow> f x | _ \<Rightarrow> failB e)"
  "(\<And>x z. addsNone proxies (g x z)) \<Longrightarrow> addsNone proxies (case xs of [x, z] \<Rightarrow> g x z | _ \<Rightarrow> failB e)"
  by (auto split: list.split)

context docker_host
begin

abbreviation cfg :: settings where "cfg \<equiv> evSettings env"
abbreviation cfile :: string where "cfile \<equiv> composeFileOf stage"
abbreviation proj :: string where "proj \<equiv> projectOf (stCwd cfg) cfile"

section \<open>Commands that add no proxy\<close>

lemma addsNone_command: "quietCommand proj argv \<Longrightarrow> addsNone proxies (commandB eng argv)"
  using quiet by (auto simp: addsNone_def commandB_def split: prod.splits)

lemma addsNone_plain:
  assumes "verb \<in> {''ps'', ''inspect'', ''rm'', ''network''}"
  shows "addsNone proxies (outputB eng (verb # rest))" "addsNone proxies (runEngine eng (verb # rest))"
    "addsNone proxies (engineOutput eng (verb # rest))" "addsNone proxies (engineLines eng (verb # rest))"
proof -
  have c: "addsNone proxies (commandB eng (verb # rest))"
    using assms by (intro addsNone_command) (auto simp: quietCommand_def)
  then show out: "addsNone proxies (outputB eng (verb # rest))" by (rule addsNone_output)
  show "addsNone proxies (runEngine eng (verb # rest))" unfolding runEngine_def by (intro addsNone_bind out) simp
  show eo: "addsNone proxies (engineOutput eng (verb # rest))"
    unfolding engineOutput_def by (intro addsNone_bind c) auto
  show "addsNone proxies (engineLines eng (verb # rest))" unfolding engineLines_def by (intro addsNone_bind eo) simp
qed

lemma addsNone_composeVerb:
  assumes "verb \<in> {''exec'', ''ps''}" and "composeProjectArgsWithOverrides (stCwd cfg) cfile ovs (verb # rest) = Some argv"
  shows "addsNone proxies (outputB eng argv)" "addsNone proxies (runEngine eng argv)"
proof -
  from assms(2) obtain d f ps where "argv = composeBase proj d f @ fileFlags ps @ verb # rest"
    by (rule composeArgs_shape)
  then have "quietCommand proj argv" using assms(1) unfolding quietCommand_def by blast
  then show out: "addsNone proxies (outputB eng argv)" by (intro addsNone_output addsNone_command)
  show "addsNone proxies (runEngine eng argv)" unfolding runEngine_def by (intro addsNone_bind out) simp
qed

lemma addsNone_waitFiles: "addsNone proxies (waitForProxyFiles cfg eng cfile ovs)"
  unfolding waitForProxyFiles_def by (intro addsNone_composed addsNone_composeVerb(2)) simp_all

lemma addsNone_inspectLabels: "addsNone proxies (inspectLabels cfg eng cfile ovs line)"
  unfolding inspectLabels_def inspectFailed_def hashVerb_def
  by (intro addsNone_bind addsNone_plain(1) addsNone_fields)
    (auto intro!: addsNone_composed addsNone_bind addsNone_composeVerb(1) [where verb = "''exec''"]
      split: list.split option.split)

lemma addsNone_inspectProxy: "addsNone proxies (inspectProxyGeneration cfg eng cfile ovs)"
  unfolding inspectProxyGeneration_def inspectFailed_def projectProxies_def Let_def
  by (intro addsNone_composed addsNone_bind addsNone_composeVerb(1) [where verb = "''ps''"] addsNone_fields
      addsNone_cases addsNone_plain(1) addsNone_inspectLabels) simp_all

lemma addsNone_wait: "addsNone proxies (waitForProxyGeneration polls cfg eng cfile ovs wanted)"
proof (induction polls)
  case (Suc polls)
  then show ?case unfolding waitForProxyGeneration.simps
    by (intro addsNone_bind addsNone_try addsNone_waitFiles addsNone_inspectProxy) auto
qed simp

lemma addsNone_inspect: "addsNone proxies (InspectEgressGeneration cfg eng cfile)"
  unfolding InspectEgressGeneration_def
  by (intro addsNone_bind addsNone_uncertain addsNone_waitFiles addsNone_inspectProxy)

section \<open>A positive inspection\<close>

text \<open>The one running proxy has the labels that were read.\<close>

lemma inspected_proxy:
  assumes run: "inspectProxyGeneration cfg eng cfile ovs st = (Inr g, st')"
  obtains p hash revision_text where "set (proxies (bdEngine st')) = {p}" "p \<in> set (proxies (bdEngine st))"
    "fieldsText (pxRevision p @ '' '' @ pxHash p @ [nl]) = [revision_text, hash]"
    "parseInt64 revision_text = Some (generationRevision g)" "0 \<le> generationRevision g" "generationHash g = hash"
proof -
  from run obtain psArgs ids st1 line projectIDs st2 pid where a:
    "composeProjectArgsWithOverrides (stCwd cfg) cfile ovs [''ps'', ''--status'', ''running'', ''-q'', ''proxy''] = Some psArgs"
    "outputB eng psArgs st = (Inr ids, st1)"
    "outputB eng (projectProxies proj) st1 = (Inr projectIDs, st2)" "fieldsText projectIDs = [pid]"
    "sameRuntimeObjectID pid line" "inspectLabels cfg eng cfile ovs line st2 = (Inr g, st')"
    unfolding inspectProxyGeneration_def inspectFailed_def Let_def
    by (auto simp: bindB_Inr composeB_def effect_results projectOf_def one_field guarded)
  from a(6) obtain out st3 rt hash rev hashArgs ho st4 where b:
    "outputB eng [''inspect'', ''-f'', labelFormat, line] st2 = (Inr out, st3)" "fieldsText out = [rt, hash]"
    "parseInt64 rt = Some rev" "0 \<le> rev" "g = \<lparr>generationRevision = rev, generationHash = hash\<rparr>"
    "composeProjectArgsWithOverrides (stCwd cfg) cfile ovs hashVerb = Some hashArgs"
    "outputB eng hashArgs st3 = (Inr ho, st')"
    unfolding inspectLabels_def inspectFailed_def
    by (auto simp: bindB_Inr composeB_def effect_results two_fields guarded)
  have sub1: "set (proxies (bdEngine st1)) \<subseteq> set (proxies (bdEngine st))"
    by (rule addsNoneD [OF addsNone_composeVerb(1) [OF _ a(1)] a(2)]) simp
  have sub2: "set (proxies (bdEngine st2)) \<subseteq> set (proxies (bdEngine st1))"
    by (rule addsNoneD [OF addsNone_plain(1) a(3) [unfolded projectProxies_def]]) simp
  have "map pxID (proxies (bdEngine st2)) = [pid]"
    using a(3,4) listed by (auto simp: outputB_Inr)
  then obtain p where p: "proxies (bdEngine st2) = [p]" "pxID p = pid" by auto
  have out: "out = pxRevision p @ '' '' @ pxHash p @ [nl]"
    using b(1) labels p a(5) by (auto simp: outputB_Inr)
  have "set (proxies (bdEngine st3)) \<subseteq> {p}"
    using addsNoneD [OF addsNone_plain(1) b(1)] p(1) by simp
  moreover have "set (proxies (bdEngine st')) \<subseteq> set (proxies (bdEngine st3))"
    by (rule addsNoneD [OF addsNone_composeVerb(1) [OF _ b(6) [unfolded hashVerb_def]] b(7)]) simp
  moreover have "proxies (bdEngine st') \<noteq> []"
  proof -
    from b(6) obtain d f ps where "hashArgs = composeBase proj d f @ fileFlags ps @ hashVerb" by (rule composeArgs_shape)
    with b(7) alive show ?thesis by (auto simp: outputB_Inr)
  qed
  ultimately have "set (proxies (bdEngine st')) = {p}" by (cases "proxies (bdEngine st')") auto
  with sub1 sub2 p(1) out b(2-5) show thesis by (intro that [of p rt hash]) auto
qed

text \<open>So it names what is served.\<close>

lemma inspected_served:
  assumes run: "inspectProxyGeneration cfg eng cfile ovs st = (Inr g, st')" and own: "ownProxies proxies K st"
    and W: "W \<in> K" "Build W n = Inr (g, body)"
  shows "served proxies st' = set W"
proof -
  from inspected_proxy [OF run] obtain p hash rt where p: "set (proxies (bdEngine st')) = {p}" "p \<in> set (proxies (bdEngine st))"
    "fieldsText (pxRevision p @ '' '' @ pxHash p @ [nl]) = [rt, hash]"
    "parseInt64 rt = Some (generationRevision g)" "0 \<le> generationRevision g" "generationHash g = hash" .
  from own p(2) obtain V m h where V: "V \<in> K" "Build V m = Inr (h, pxLoaded p)" "pxRevision p = intText m"
    "pxHash p = generationHash h" by (auto simp: ownProxies_def ownProxy_def)
  from V(2) have b: "0 \<le> m" "pxLoaded p = generationBody V m" "generationHash h = sha256Hex (generationBody V m)"
    by (auto simp: Build_Inr_iff)
  from W(2) have w: "generationHash g = sha256Hex (generationBody W n)" "generationRevision g = n" "0 \<le> n"
    by (auto simp: Build_Inr_iff)
  have two: "fieldsText (pxRevision p @ '' '' @ pxHash p @ [nl]) = [intText m, sha256Hex (generationBody V m)]"
    unfolding V(3,4) b(3) using label_words(1) [OF b(1)] label_words(2) by (intro fieldsText_two) blast+
  then have t: "rt = intText m" "hash = sha256Hex (generationBody V m)" using p(3) by simp_all
  have bound: "v \<le> max_int" if "parseInt64 s = Some v" for s v
    using that by (auto simp: parseInt64_def Let_def split: if_splits option.splits)
  have "n = m"
  proof (cases "m \<le> max_int")
    case True
    then show ?thesis using p(4) t(1) w(2) b(1) parseInt64_intText [of m] by (simp add: min_int_def)
  next
    case False
    have "digitsValue 0 (natText (nat m)) = Some (nat m)" by (rule digitsValue_natText)
    then have "parseInt64 (intText m) = None" using False b(1) natText_digits [of "nat m"]
      by (simp add: parseInt64_def intText_def Let_def)
    then show ?thesis using p(4) t(1) by simp
  qed
  then have "set V = set W"
    using no_collision [OF V(1) W(1) w(3)] bound [OF p(4)] w(1,2) t(2) p(6) by simp
  moreover have "served proxies st' = set V" using p(1) overlay_built [OF V(2)] by (simp add: served_def)
  ultimately show ?thesis by simp
qed

end

section \<open>Effects on files alone\<close>

definition keepsEngine :: "('e, 'a) eff \<Rightarrow> bool" where
  "keepsEngine m \<longleftrightarrow> (\<forall>st r st'. m st = (r, st') \<longrightarrow> bdEngine st' = bdEngine st)"

lemma keepsEngineD: "keepsEngine m \<Longrightarrow> m st = (r, st') \<Longrightarrow> bdEngine st' = bdEngine st"
  by (simp add: keepsEngine_def)

lemma keepsEngine_simple [intro, simp]:
  "keepsEngine (retB x)" "keepsEngine (failB e)" "keepsEngine (liftB e y)" "keepsEngine (readB f)"
  "keepsEngine (osB what)" "keepsEngine (setFile path body)" "keepsEngine (dropFiles dir)"
  by (auto simp: keepsEngine_def retB_def failB_def liftB_def readB_def osB_def setFile_def dropFiles_def
      split: option.splits list.splits)

lemma keepsEngine_bind [intro]:
  "keepsEngine m \<Longrightarrow> (\<And>x. keepsEngine (f x)) \<Longrightarrow> keepsEngine (bindB m f)"
  unfolding keepsEngine_def bindB_def by (fastforce split: prod.splits sum.splits)

lemma keepsEngine_try [intro]: "keepsEngine m \<Longrightarrow> keepsEngine (tryB m)"
  by (auto simp: keepsEngine_def tryB_def split: prod.splits)

lemma keepsEngine_replace: "keepsEngine (replaceSyncedFile path body)"
  unfolding replaceSyncedFile_def by (intro keepsEngine_bind) simp_all

lemma keepsEngine_install: "keepsEngine (installEgressGeneration runtimeDir g body)"
  unfolding installEgressGeneration_def installOverlaySquidInclude_def Let_def
  by (intro keepsEngine_bind keepsEngine_replace) (auto intro!: keepsEngine_replace)

lemma osB_Inr: "osB what st = (Inr x, st') \<Longrightarrow> bdFiles st' = bdFiles st"
  by (auto simp: osB_def split: list.splits if_splits)

lemma replaceSyncedFile_Inr:
  "replaceSyncedFile path body st = (Inr x, st') \<Longrightarrow> bdFiles st' = (bdFiles st)(path := Some body)"
  by (auto simp: replaceSyncedFile_def bindB_Inr setFile_def dest!: osB_Inr)

text \<open>An installation that succeeds leaves the text and the override naming it.\<close>

lemma install_Inr:
  assumes run: "installEgressGeneration dir g body st = (Inr ov, st')" and dir: "hasPrefix dir [slash]"
  shows "ov = overridePathOf dir" and "bdFiles st' (overlayFile (overlayDirOf dir)) = Some body"
    and "\<exists>content. renderEgressOverride (overlayDirOf dir) g = Some content \<and> bdFiles st' ov = Some content"
proof -
  have plain: "plainName ''session-grants.conf''" "plainName ''egress.override.yml''" "plainName ''squid.conf''"
    "plainName ''proxy-overlay''" by (simp_all add: plainName_def slash_def)
  have d: "hasPrefix (overlayDirOf dir) [slash]" using joined_abs(2) [OF dir plain(4)] by (simp add: overlayDirOf_def)
  have differ: "overlayFile (overlayDirOf dir) \<noteq> overridePathOf dir" "overlayFile (overlayDirOf dir) \<noteq> joinPath [dir, ''squid.conf'']"
    unfolding overlayFile_def overridePathOf_def by (rule joined_differ [OF d dir plain(1)], rule plain, simp)+
  from run obtain st0 st1 st2 content where r: "replaceSyncedFile (overlayFile (overlayDirOf dir)) body st0 = (Inr (), st1)"
    "installOverlaySquidInclude dir st1 = (Inr (), st2)" "renderEgressOverride (overlayDirOf dir) g = Some content"
    "replaceSyncedFile (overridePathOf dir) content st2 = (Inr (), st')" "ov = overridePathOf dir"
    by (auto simp: installEgressGeneration_def Let_def bindB_Inr effect_results)
  have a: "bdFiles st1 (overlayFile (overlayDirOf dir)) = Some body"
    "installOverlaySquidInclude dir st1 = (Inr (), st2)" "renderEgressOverride (overlayDirOf dir) g = Some content"
    "bdFiles st' = (bdFiles st2)(overridePathOf dir := Some content)" "ov = overridePathOf dir"
    using r replaceSyncedFile_Inr [OF r(1)] replaceSyncedFile_Inr [OF r(4)] by simp_all
  from a(2) have "bdFiles st2 (overlayFile (overlayDirOf dir)) = bdFiles st1 (overlayFile (overlayDirOf dir))"
    using differ(2) by (auto simp: installOverlaySquidInclude_def Let_def bindB_Inr effect_results readB_def
        dest!: replaceSyncedFile_Inr osB_Inr split: if_splits)
  with a differ(1) show "ov = overridePathOf dir" "bdFiles st' (overlayFile (overlayDirOf dir)) = Some body"
    "\<exists>content. renderEgressOverride (overlayDirOf dir) g = Some content \<and> bdFiles st' ov = Some content" by simp_all
qed

lemma shrinks:
  assumes "set (proxies (bdEngine st')) \<subseteq> set (proxies (bdEngine st))"
  shows "served proxies st' \<subseteq> served proxies st" and "ownProxies proxies K st \<Longrightarrow> ownProxies proxies K st'"
  using assms by (auto simp: served_def ownProxies_def)

context docker_host
begin

section \<open>Replacing the proxy\<close>

lemma replace_law:
  assumes run: "replaceEgressGeneration cfg eng cfile stage V n st = (r, st')" and V: "V \<in> K"
    and own: "ownProxies proxies K st"
  shows "ownProxies proxies K st' \<and> served proxies st' \<subseteq> served proxies st \<union> set V
    \<and> (\<forall>g ovs. r = Inr (g, ovs) \<longrightarrow> (\<exists>body. Build V n = Inr (g, body)) \<and> served proxies st' \<subseteq> set V)"
proof (cases "Build V n")
  case (Inl e)
  then show ?thesis using run own by (auto simp: replaceEgressGeneration_def BuildEgressGeneration_def effect_results)
next
  case (Inr gb)
  obtain g body where b: "Build V n = Inr (g, body)" using Inr by (cases gb) simp
  have same: ?thesis if "bdEngine st' = bdEngine st" "\<forall>x. r \<noteq> Inr x"
    using that own by (auto simp: ownProxies_def served_def)
  obtain q st1 where inst: "installEgressGeneration stage g body st = (q, st1)" by fastforce
  have e1: "bdEngine st1 = bdEngine st" by (rule keepsEngineD [OF keepsEngine_install inst])
  show ?thesis
  proof (cases q)
    case (Inl e)
    then show ?thesis using run inst b e1
      by (intro same) (auto simp: replaceEgressGeneration_def BuildEgressGeneration_def bindB_def)
  next
    case (Inr ov)
    note i = install_Inr [OF inst [unfolded Inr] stage_abs]
    show ?thesis
    proof (cases "composeProjectArgsWithOverrides (stCwd cfg) cfile [ov] upVerb")
      case None
      then show ?thesis using run inst b e1 Inr
        by (intro same) (auto simp: replaceEgressGeneration_def BuildEgressGeneration_def bindB_def uncertainB_def
            composeB_def liftB_def failB_def tryB_def)
    next
      case (Some argv)
      then obtain d f ps where argv: "argv = composeBase proj d f @ fileFlags ps @ upVerb"
        "map (absPath (stCwd cfg)) [ov] = map Some ps" by (rule composeArgs_shape)
      have "plainName ''egress.override.yml''" by (simp add: plainName_def slash_def)
      from joined_abs(1) [OF stage_abs this] have ps: "ps = [ov]" using argv(2) i(1) by (cases ps) (simp_all add: overridePathOf_def)
      obtain o' e where cmd: "enCommand eng argv (bdFiles st1) (bdEngine st1) = (o', e)" by fastforce
      have st': "st' = st1\<lparr>bdEngine := e\<rparr>" "(\<exists>x. r = Inr x) = eoOK o'" "eoOK o' \<Longrightarrow> r = Inr (g, [ov])"
        using run inst b Inr Some cmd
        by (auto simp: replaceEgressGeneration_def BuildEgressGeneration_def bindB_def uncertainB_def runEngine_def
            composeB_def liftB_def failB_def retB_def tryB_def outputB_def commandB_def split: if_splits)
      obtain content where t: "renderEgressOverride (overlayDirOf stage) g = Some content" "bdFiles st1 ov = Some content"
        using i(3) by blast
      have new: "created (bdFiles st1) (overlayDirOf stage) g p \<or> \<not> eoOK o' \<and> p \<in> set (proxies (bdEngine st))"
        if "p \<in> set (proxies e)" for p
        using up [OF cmd [unfolded argv(1) ps] V b t that] e1 by simp
      have made: "pxLoaded p = body \<and> ownProxy K p" if "created (bdFiles st1) (overlayDirOf stage) g p" for p
        using that i(2) b V by (auto simp: created_def ownProxy_def Build_Inr_iff)
      have allow: "overlayAllows (pxLoaded p) = set V" if "created (bdFiles st1) (overlayDirOf stage) g p" for p
        using made [OF that] overlay_built [OF b] by simp
      have "ownProxies proxies K st'" using new made own by (auto simp: st' ownProxies_def)
      moreover have "served proxies st' \<subseteq> served proxies st \<union> set V"
        using new allow by (auto simp: st'(1) served_def)
      moreover have "served proxies st' \<subseteq> set V" if "eoOK o'"
        using new allow that by (auto simp: st'(1) served_def)
      ultimately show ?thesis using st'(2,3) b by blast
    qed
  qed
qed

end

context docker_host
begin

text \<open>The closures find the one engine and the one stage directory.\<close>

lemma onSession_run:
  assumes run: "onSession env s f st = (r, st')" and home: "homed home s"
  obtains (early) e where "r = Inl e" "bdEngine st' = bdEngine st"
    | (ran) st1 where "bdEngine st1 = bdEngine st" "f eng stage st1 = (r, st')"
proof -
  have h: "homeOf s = home" using home by (simp add: isHome_def)
  then have "seBackend s = fst home" "seEnvironment s = fst (snd home)" by (auto simp: homeOf_def)
  then have e: "engineForSession env s = Some eng" using backend environment by (simp add: engineForSession_def)
  obtain q st1 where q: "osB ''mkdirall'' st = (q, st1)" by fastforce
  have same: "bdEngine st1 = bdEngine st" using q by (rule keepsEngineD [rotated]) simp
  show thesis
  proof (cases q)
    case (Inl x)
    with run q same stage_dir [OF h] show thesis
      by (intro early [of x]) (auto simp: onSession_def stageDirB_def bindB_def)
  next
    case (Inr x)
    with run q same stage_dir [OF h] e show thesis
      by (intro that(2) [of st1]) (auto simp: onSession_def stageDirB_def bindB_def sessionEngine_def liftB_def retB_def)
  qed
qed

text \<open>What a generation in hand says of the proxies.\<close>

definition names :: "Generation \<Rightarrow> 'e boundary \<Rightarrow> bool" where
  "names g st \<longleftrightarrow> (\<forall>W n body. W \<in> K \<and> Build W n = Inr (g, body) \<longrightarrow> served proxies st = set W)"

lemma inspect_names:
  assumes "InspectEgressGeneration cfg eng cfile st = (Inr g, st')" and "ownProxies proxies K st"
  shows "names g st'"
proof -
  from assms(1) obtain st1 where a: "waitForProxyFiles cfg eng cfile [] st = (Inr (), st1)"
    "inspectProxyGeneration cfg eng cfile [] st1 = (Inr g, st')"
    by (auto simp: InspectEgressGeneration_def bindB_Inr uncertainB_Inr)
  have "ownProxies proxies K st1" using assms(2) by (rule shrinks(2) [OF addsNoneD [OF addsNone_waitFiles a(1)]])
  then show ?thesis unfolding names_def using inspected_served [OF a(2)] by blast
qed

lemma wait_names:
  assumes "waitForProxyGeneration polls cfg eng cfile ovs g st = (Inr (), st')" and "ownProxies proxies K st"
  shows "names g st'"
  using assms
proof (induction polls arbitrary: st)
  case 0
  then show ?case by (simp add: effect_results)
next
  case (Suc polls)
  let ?probe = "bindB (waitForProxyFiles cfg eng cfile ovs) (\<lambda>_. inspectProxyGeneration cfg eng cfile ovs)"
  have quiet_probe: "addsNone proxies ?probe" by (intro addsNone_bind addsNone_waitFiles addsNone_inspectProxy)
  obtain q st1 where q: "?probe st = (q, st1)" by fastforce
  have own1: "ownProxies proxies K st1" using Suc.prems(2) by (rule shrinks(2) [OF addsNoneD [OF quiet_probe q]])
  show ?case
  proof (cases "q = Inr g")
    case True
    with q obtain st0 where a: "waitForProxyFiles cfg eng cfile ovs st = (Inr (), st0)"
      "inspectProxyGeneration cfg eng cfile ovs st0 = (Inr g, st1)" by (auto simp: bindB_Inr)
    have "ownProxies proxies K st0" using Suc.prems(2) by (rule shrinks(2) [OF addsNoneD [OF addsNone_waitFiles a(1)]])
    moreover have "st' = st1" using Suc.prems(1) q True by (simp add: bindB_def tryB_def retB_def)
    ultimately show ?thesis unfolding names_def using inspected_served [OF a(2)] by blast
  next
    case False
    then have "waitForProxyGeneration polls cfg eng cfile ovs g st1 = (Inr (), st')"
      using Suc.prems(1) q by (simp add: bindB_def tryB_def)
    then show ?thesis using Suc.IH own1 by blast
  qed
qed

section \<open>The five laws\<close>

lemma inspect_boundary:
  assumes home: "homed home s" and own: "ownProxies proxies K st" and run: "inspectEgress env s st = (q, st')"
  shows "ownProxies proxies K st' \<and> served proxies st' \<subseteq> served proxies st \<and> (\<forall>g. q = Inr g \<longrightarrow> names g st')"
  using run [unfolded inspectEgress_def] home
proof (cases rule: onSession_run)
  case (early e)
  then show ?thesis using own by (simp add: ownProxies_def served_def)
next
  case (ran st1)
  have own1: "ownProxies proxies K st1" using own ran(1) by (simp add: ownProxies_def)
  note sub = addsNoneD [OF addsNone_inspect ran(2)]
  show ?thesis using shrinks(1) [OF sub] shrinks(2) [OF sub own1] ran inspect_names own1
    by (auto simp: served_def)
qed

text \<open>The first half of an ensure: what was already there, or a replacement.\<close>

lemma begin_run:
  assumes run: "BeginEnsureEgressGeneration cfg eng cfile stage V n st = (r, st')" and V: "V \<in> K"
    and own: "ownProxies proxies K st"
  shows "ownProxies proxies K st' \<and> served proxies st' \<subseteq> served proxies st \<union> set V
    \<and> (\<forall>a. r = Inr a \<longrightarrow> (\<exists>body. Build V n = Inr (gaGeneration a, body)) \<and> (gaAlreadyAcked a \<longrightarrow> names (gaGeneration a) st'))"
proof (cases "Build V n")
  case (Inl e)
  then show ?thesis using run own by (auto simp: BeginEnsureEgressGeneration_def BuildEgressGeneration_def effect_results)
next
  case (Inr gb)
  obtain g body where b: "Build V n = Inr (g, body)" using Inr by (cases gb) simp
  obtain q st1 where q: "InspectEgressGeneration cfg eng cfile st = (q, st1)" by fastforce
  note sub = addsNoneD [OF addsNone_inspect q]
  have own1: "ownProxies proxies K st1" by (rule shrinks(2) [OF sub own])
  show ?thesis
  proof (cases "q = Inr g")
    case True
    then have "st' = st1" "r = Inr \<lparr>gaGeneration = g, gaOverrides = [], gaAlreadyAcked = True\<rparr>"
      using run q b by (auto simp: BeginEnsureEgressGeneration_def BuildEgressGeneration_def bindB_def tryB_def retB_def)
    then show ?thesis using own1 shrinks(1) [OF sub] b inspect_names [OF q [unfolded True] own] by auto
  next
    case False
    obtain p st2 where p: "replaceEgressGeneration cfg eng cfile stage V n st1 = (p, st2)" by fastforce
    have "st' = st2" "\<forall>a. r = Inr a \<longrightarrow> (\<exists>ovs. p = Inr (gaGeneration a, ovs)) \<and> \<not> gaAlreadyAcked a"
      using run q b p False
      by (auto simp: BeginEnsureEgressGeneration_def BuildEgressGeneration_def bindB_def tryB_def retB_def
          split: sum.splits prod.splits)
    then show ?thesis using replace_law [OF p V own1] shrinks(1) [OF sub] by fastforce
  qed
qed

lemma application_run:
  assumes run: "InspectEgressGenerationApplication cfg eng cfile a st = (q, st')" and own: "ownProxies proxies K st"
    and ack: "gaAlreadyAcked a \<longrightarrow> names (gaGeneration a) st"
  shows "ownProxies proxies K st' \<and> served proxies st' \<subseteq> served proxies st
    \<and> (\<forall>g. q = Inr g \<longrightarrow> g = gaGeneration a \<and> names g st')"
proof (cases "generationHash (gaGeneration a) = [] \<or> gaAlreadyAcked a")
  case True
  then show ?thesis using run own ack
    by (auto simp: InspectEgressGenerationApplication_def effect_results split: if_splits)
next
  case False
  let ?wait = "waitForProxyGeneration (Suc (stPolls cfg)) cfg eng cfile (gaOverrides a) (gaGeneration a)"
  obtain p st1 where p: "?wait st = (p, st1)" by fastforce
  have "st' = st1" "\<forall>g. q = Inr g \<longrightarrow> g = gaGeneration a \<and> p = Inr ()"
    using run False p
    by (auto simp: InspectEgressGenerationApplication_def bindB_def uncertainB_def tryB_def retB_def failB_def
        simp del: waitForProxyGeneration.simps split: sum.splits)
  moreover note sub = addsNoneD [OF addsNone_wait p]
  moreover have "names (gaGeneration a) st1" if "p = Inr ()" using wait_names p own that by blast
  ultimately show ?thesis using shrinks(1) [OF sub] shrinks(2) [OF sub own] by auto
qed

end

context docker_host
begin

lemma begin_boundary:
  assumes home: "homed home s" and own: "ownProxies proxies K st" and V: "V \<in> K"
    and begun: "beginEgressOverlayApply env s V st = (r, st')"
  shows "ownProxies proxies K st' \<and> served proxies st' \<subseteq> served proxies st \<union> set V"
    and "r = Inr m \<Longrightarrow> effectInspect m st' = (q, st2) \<Longrightarrow>
      ownProxies proxies K st2 \<and> served proxies st2 \<subseteq> served proxies st' \<and> (\<forall>g. q = Inr g \<longrightarrow> names g st2)"
proof -
  have both: "(ownProxies proxies K st' \<and> served proxies st' \<subseteq> served proxies st \<union> set V)
    \<and> (r = Inr m \<longrightarrow> effectInspect m st' = (q, st2) \<longrightarrow>
      ownProxies proxies K st2 \<and> served proxies st2 \<subseteq> served proxies st' \<and> (\<forall>g. q = Inr g \<longrightarrow> names g st2))"
    using begun [unfolded beginEgressOverlayApply_def] home
  proof (cases rule: onSession_run)
    case (early e)
    then show ?thesis using own by (auto simp: ownProxies_def served_def)
  next
    case (ran st1)
    have own1: "ownProxies proxies K st1" "served proxies st1 = served proxies st"
      using own ran(1) by (simp_all add: ownProxies_def served_def)
    obtain p st3 where p: "BeginEnsureEgressGeneration cfg eng cfile stage V (seGrantRevision s) st1 = (p, st3)" by fastforce
    note b = begin_run [OF p V own1(1)]
    have st3: "st' = st3" and r: "r = Inr m \<Longrightarrow> \<exists>a. p = Inr a \<and> m = Some (InspectEgressGenerationApplication cfg eng cfile a)"
      using ran(2) p by (auto simp: bindB_def retB_def split: sum.splits)
    have "ownProxies proxies K st2 \<and> served proxies st2 \<subseteq> served proxies st' \<and> (\<forall>g. q = Inr g \<longrightarrow> names g st2)"
      if "r = Inr m" and i: "effectInspect m st' = (q, st2)"
    proof -
      from r [OF that(1)] obtain a where a: "p = Inr a" "m = Some (InspectEgressGenerationApplication cfg eng cfile a)" by blast
      then have "InspectEgressGenerationApplication cfg eng cfile a st3 = (q, st2)" using i st3 by (simp add: effectInspect_def)
      from application_run [OF this] show ?thesis using b a(1) st3 by auto
    qed
    then show ?thesis using b own1(2) st3 by simp
  qed
  then show "ownProxies proxies K st' \<and> served proxies st' \<subseteq> served proxies st \<union> set V"
    and "r = Inr m \<Longrightarrow> effectInspect m st' = (q, st2) \<Longrightarrow>
      ownProxies proxies K st2 \<and> served proxies st2 \<subseteq> served proxies st' \<and> (\<forall>g. q = Inr g \<longrightarrow> names g st2)"
    by blast+
qed

lemma apply_boundary:
  assumes home: "homed home s" and own: "ownProxies proxies K st" and V: "V \<in> K"
    and applied: "applyEgressOverlay env s V st = (r, st')"
  shows "ownProxies proxies K st' \<and> served proxies st' \<subseteq> served proxies st \<union> set V
    \<and> (r = Inr () \<longrightarrow> served proxies st' = set V)"
  using applied [unfolded applyEgressOverlay_def] home
proof (cases rule: onSession_run)
  case (early e)
  then show ?thesis using own by (auto simp: ownProxies_def served_def)
next
  case (ran st1)
  have own1: "ownProxies proxies K st1" "served proxies st1 = served proxies st"
    using own ran(1) by (simp_all add: ownProxies_def served_def)
  obtain p st3 where p: "BeginEnsureEgressGeneration cfg eng cfile stage V (seGrantRevision s) st1 = (p, st3)" by fastforce
  note b = begin_run [OF p V own1(1)]
  show ?thesis
  proof (cases p)
    case (Inl e)
    then show ?thesis using ran(2) p b own1(2) by (auto simp: EnsureEgressGeneration_def bindB_def)
  next
    case (Inr a)
    obtain q st2 where q: "InspectEgressGenerationApplication cfg eng cfile a st3 = (q, st2)" by fastforce
    have "st' = st2" "r = Inr () \<longrightarrow> (\<exists>g. q = Inr g)"
      using ran(2) p q Inr by (auto simp: EnsureEgressGeneration_def bindB_def retB_def split: sum.splits)
    moreover obtain body where body: "Build V (seGrantRevision s) = Inr (gaGeneration a, body)" using b Inr by blast
    moreover have "ownProxies proxies K st2 \<and> served proxies st2 \<subseteq> served proxies st3
        \<and> (\<forall>g. q = Inr g \<longrightarrow> g = gaGeneration a \<and> names g st2)"
      by (rule application_run [OF q]) (use b Inr in auto)
    ultimately show ?thesis using b own1(2) V unfolding names_def by fastforce
  qed
qed

section \<open>Teardown\<close>

abbreviation owner :: string where "owner \<equiv> SessionIDFromStageDir stage"
abbreviation containers :: "string list" where "containers \<equiv> [''ps'', ''-aq''] @ ownedFilter ''safeslop.session'' owner"

lemma engineLines_listed:
  assumes "engineLines eng containers st = (Inr ids, st')"
  shows "pxID ` set (proxies (bdEngine st')) \<subseteq> set ids"
  using assms owned
  by (auto simp: engineLines_def engineOutput_def bindB_Inr commandB_def effect_results split: prod.splits if_splits)

lemma addsNone_reap:
  assumes "v \<in> {''ps'', ''network''}" and "v' \<in> {''rm'', ''network''}"
  shows "addsNone proxies (reapObjects eng (v # listing) (v' # removal))"
proof -
  have l: "addsNone proxies (engineLines eng (v # listing))" using assms(1) by (intro addsNone_plain(4)) auto
  have r: "addsNone proxies (runEngine eng ((v' # removal) @ ids))" for ids
    using assms(2) addsNone_plain(2) [of v' "removal @ ids"] by auto
  show ?thesis unfolding reapObjects_def
    by (intro addsNone_bind addsNone_cases addsNone_try l r)
      (auto intro!: addsNone_bind addsNone_try l addsNone_cases split: sum.split)
qed

text \<open>Containers that were listed and removed, or are listed no more.\<close>

lemma reap_none_left:
  assumes "reapObjects eng containers [''rm'', ''-f''] st = (Inr (), st')"
  shows "proxies (bdEngine st') = []"
proof -
  from assms obtain ids st1 where l: "engineLines eng containers st = (Inr ids, st1)"
    "(if ids = [] then retB () else bindB (tryB (runEngine eng ([''rm'', ''-f''] @ ids))) (\<lambda>r. case r of
       Inr _ \<Rightarrow> retB ()
     | Inl e \<Rightarrow> bindB (tryB (engineLines eng containers)) (\<lambda>remaining.
         if remaining = Inr [] then retB () else failB e))) st1 = (Inr (), st')"
    unfolding reapObjects_def by (auto simp: bindB_Inr)
  note listed1 = engineLines_listed [OF l(1)]
  show ?thesis
  proof (cases "ids = []")
    case True
    with l(2) listed1 show ?thesis by (simp add: effect_results)
  next
    case False
    obtain q st2 where q: "runEngine eng ([''rm'', ''-f''] @ ids) st1 = (q, st2)" by fastforce
    show ?thesis
    proof (cases q)
      case (Inr u)
      have sub: "set (proxies (bdEngine st2)) \<subseteq> set (proxies (bdEngine st1))"
        using addsNoneD [OF addsNone_plain(2) [of "''rm''" "''-f'' # ids"]] q by simp
      have gone: "pxID p \<notin> set ids" if "p \<in> set (proxies (bdEngine st2))" for p
        using q Inr that removed [of ids] by (auto simp: runEngine_def bindB_Inr outputB_Inr effect_results)
      have "p \<notin> set (proxies (bdEngine st2))" for p
        using gone [of p] subsetD [OF sub, of p] subsetD [OF listed1 imageI, of p] by blast
      then have "proxies (bdEngine st2) = []" by (metis list.set_intros(1) neq_Nil_conv)
      moreover have "st' = st2" using l(2) False q Inr by (simp add: bindB_def tryB_def retB_def)
      ultimately show ?thesis by simp
    next
      case (Inl e)
      obtain q3 st3 where q3: "engineLines eng containers st2 = (q3, st3)" by fastforce
      have "q3 = Inr [] \<and> st' = st3"
        using l(2) False q Inl q3 by (simp add: bindB_def tryB_def retB_def failB_def split: if_splits)
      then show ?thesis using engineLines_listed [of st2 "[]" st3] q3 by simp
    qed
  qed
qed

lemma reapBySession_run:
  assumes "ReapBySession eng owner st = (r, st')"
  shows "set (proxies (bdEngine st')) \<subseteq> set (proxies (bdEngine st))" and "r = Inr () \<Longrightarrow> proxies (bdEngine st') = []"
proof -
  let ?c = "reapObjects eng containers [''rm'', ''-f'']"
  let ?n = "reapObjects eng ([''network'', ''ls'', ''-q''] @ ownedFilter ''safeslop.session'' owner) [''network'', ''rm'']"
  have run: "bindB ?c (\<lambda>_. ?n) st = (r, st')"
    using assms stage_label by (simp add: ReapBySession_def reapByOwnership_def reapFiltered_def)
  have c: "addsNone proxies ?c" and n: "addsNone proxies ?n"
    using addsNone_reap [of "''ps''" "''rm''"] addsNone_reap [of "''network''" "''network''"] by simp_all
  show "set (proxies (bdEngine st')) \<subseteq> set (proxies (bdEngine st))"
    by (rule addsNoneD [OF addsNone_bind [OF c n] run])
  assume "r = Inr ()"
  with run obtain st1 where "?c st = (Inr (), st1)" "?n st1 = (r, st')" by (auto simp: bindB_Inr)
  with reap_none_left addsNoneD [OF n] show "proxies (bdEngine st') = []" by fastforce
qed

end

lemma keepsEngine_sockets: "keepsEngine (removeSockets paths)"
  by (induction paths) (auto intro!: keepsEngine_bind keepsEngine_try)

lemma keepsEngine_failure: "keepsEngine (firstFailure rs)"
  by (induction rs rule: firstFailure.induct) simp_all

lemma firstFailure_Inr: "firstFailure rs st = (Inr (), st') \<Longrightarrow> set rs \<subseteq> {Inr ()} \<and> st' = st"
  by (induction rs rule: firstFailure.induct) (auto simp: effect_results)

lemma tryB_run: "tryB m st = (r, st') \<longleftrightarrow> (\<exists>q. r = Inr q \<and> m st = (q, st'))"
  by (auto simp: tryB_def split: prod.splits)

context docker_host
begin

lemma teardown_boundary:
  assumes home: "homed home s" and own: "ownProxies proxies K st" and torn: "defaultEgressTeardown env s st = (r, st')"
  shows "ownProxies proxies K st' \<and> served proxies st' \<subseteq> served proxies st \<and> (r = Inr () \<longrightarrow> served proxies st' = {})"
proof -
  let ?kill = "if sePID s \<noteq> 0 \<and> sePID s \<noteq> evPid env \<and> evAlive env s
    then killProcess (if seDetached s then - sePID s else sePID s) else retB ()"
  have kill: "keepsEngine (tryB ?kill)" by (intro keepsEngine_try) (auto simp: killProcess_def)
  have wipe: "keepsEngine (tryB (wipeStageDir env s))" unfolding wipeStageDir_def stageDirB_def
    by (intro keepsEngine_try keepsEngine_bind) (auto intro!: keepsEngine_bind split: option.split)
  obtain k st1 where k: "tryB ?kill st = (Inr k, st1)" by (auto simp: tryB_run intro: that prod.exhaust)
  obtain p st2 where p: "sessionReapBoundary env s st1 = (p, st2)" by fastforce
  obtain w st3 where w: "tryB (wipeStageDir env s) st2 = (Inr w, st3)" by (auto simp: tryB_run intro: that prod.exhaust)
  obtain sk st4 where sk: "removeSockets (SocketPaths (evSockets env) (seID s)) st3 = (sk, st4)" by fastforce
  have e: "bdEngine st1 = bdEngine st" "bdEngine st3 = bdEngine st2" "bdEngine st4 = bdEngine st3"
    using keepsEngineD [OF kill k] keepsEngineD [OF wipe w] keepsEngineD [OF keepsEngine_sockets sk] by simp_all
  have rest: "bindB (removeSockets (SocketPaths (evSockets env) (seID s))) (\<lambda>sockets. firstFailure (k # p # w # sockets)) st3 = (r, st')"
    using torn k p w by (simp add: defaultEgressTeardown_def bindB_def tryB_def split: prod.splits)
  then have st': "bdEngine st' = bdEngine st4" and ok: "r = Inr () \<Longrightarrow> p = Inr ()"
    using sk keepsEngineD [OF keepsEngine_failure] firstFailure_Inr by (fastforce simp: bindB_def split: sum.splits)+
  have h: "homeOf s = home" using home by (simp add: isHome_def)
  then have "seEnvironment s = ''container''" using environment by (auto simp: homeOf_def)
  then have reap: "onSession env s (\<lambda>eng dir. ReapBySession eng (SessionIDFromStageDir dir)) st1 = (p, st2)"
    using p by (simp add: sessionReapBoundary_def)
  have "set (proxies (bdEngine st2)) \<subseteq> set (proxies (bdEngine st1)) \<and> (p = Inr () \<longrightarrow> proxies (bdEngine st2) = [])"
    using reap home
  proof (cases rule: onSession_run)
    case (early x)
    then show ?thesis by simp
  next
    case (ran v)
    then show ?thesis using reapBySession_run [OF ran(2)] by simp
  qed
  then have "set (proxies (bdEngine st')) \<subseteq> set (proxies (bdEngine st))" "r = Inr () \<longrightarrow> proxies (bdEngine st') = []"
    using e st' ok by simp_all
  then show ?thesis using shrinks [of proxies st' st] own by (auto simp: served_def)
qed

end

section \<open>The code provides the interface\<close>

sublocale docker_host \<subseteq> boundary: egress_boundary "containerDeps env" "served proxies" "ownProxies proxies K" K home
proof
  fix s st r st' V assume a: "homed home s" "ownProxies proxies K st"
  show "ownProxies proxies K st' \<and> served proxies st' \<subseteq> served proxies st \<union> set V"
    if "V \<in> K" "edBegin (containerDeps env) s V st = (r, st')"
    using begin_boundary(1) [OF a that(1)] that(2) by (simp add: containerDeps_def)
next
  fix s st m q st1 st2 V assume a: "homed home s" "ownProxies proxies K st" "V \<in> K"
    "edBegin (containerDeps env) s V st = (Inr m, st1)" "edInspectApplied (containerDeps env) m st1 = (q, st2)"
  then show "ownProxies proxies K st2 \<and> served proxies st2 \<subseteq> served proxies st1
      \<and> (\<forall>g W n b. q = Inr g \<and> W \<in> K \<and> Build W n = Inr (g, b) \<longrightarrow> served proxies st2 = set W)"
    using begin_boundary(2) [OF a(1-3), of "Inr m" st1 m q st2] by (auto simp: containerDeps_def names_def)
next
  fix s st q st1 assume a: "homed home s" "ownProxies proxies K st" "edInspect (containerDeps env) s st = (q, st1)"
  then show "ownProxies proxies K st1 \<and> served proxies st1 \<subseteq> served proxies st
      \<and> (\<forall>g W n b. q = Inr g \<and> W \<in> K \<and> Build W n = Inr (g, b) \<longrightarrow> served proxies st1 = set W)"
    using inspect_boundary [of s st q st1] by (auto simp: containerDeps_def names_def)
next
  fix s st V r st1 assume "homed home s" "ownProxies proxies K st" "V \<in> K" "edApply (containerDeps env) s V st = (r, st1)"
  then show "ownProxies proxies K st1 \<and> served proxies st1 \<subseteq> served proxies st \<union> set V
      \<and> (r = Inr () \<longrightarrow> served proxies st1 = set V)"
    using apply_boundary by (simp add: containerDeps_def)
next
  fix s st r st1 assume "homed home s" "ownProxies proxies K st" "edTeardown (containerDeps env) s st = (r, st1)"
  then show "ownProxies proxies K st1 \<and> served proxies st1 \<subseteq> served proxies st \<and> (r = Inr () \<longrightarrow> served proxies st1 = {})"
    using teardown_boundary by (simp add: containerDeps_def)
qed


context docker_host
begin

lemma provides: "egress_boundary (containerDeps env) (served proxies) (ownProxies proxies K) K home"
  by unfold_locales

end

end
