(* ===== verification/EgressComposed.thy ===== *)
theory EgressComposed
  imports EgressBoundary
begin

text \<open>
  The egress handlers over the container code. A sample host, a small engine that runs at most one
  proxy, shows that the contract of the engine can hold. Then the properties of the composed
  program: what is served never exceeds the record, a call that succeeds leaves record and proxy in
  agreement, and a record with the uncertainty failure can only be torn down.
\<close>

section \<open>A sample host\<close>

definition sampleHomeSession :: Session where
  "sampleHomeSession =
     sampleSession\<lparr>seBackend := ''docker'', seEgressGrants := [sampleGrant], seGrantRevision := 1\<rparr>"

definition sampleViews :: "SessionGrant list" where
  "sampleViews = [\<lparr>destHost = ''pypi.org'', destPort = 443\<rparr>]"

definition sampleHome :: session_home where
  "sampleHome = homeOf sampleHomeSession"

definition sampleStage :: string where
  "sampleStage = ''/cache/safeslop/runtime/session-sess-1''"

text \<open>The engine's state is its one proxy: revision label, hash label, loaded text.\<close>

type_synonym sample_state = "(string \<times> string \<times> string) option"

fun sampleProxies :: "sample_state \<Rightarrow> proxy list" where
  "sampleProxies None = []"
| "sampleProxies (Some (revision, hash, body)) =
     [\<lparr>pxID = ''0123456789ab'', pxRevision = revision, pxHash = hash, pxLoaded = body\<rparr>]"

text \<open>The labels of an override, read between fixed texts.\<close>

definition overrideHead :: string where
  "overrideHead = joinWith [nl]
     [''services:'', ''  proxy:'', ''    labels:'', ''      safeslop.egress-revision: '' @ [CHR 0x22]]"

definition overrideMiddle :: string where
  "overrideMiddle = [CHR 0x22] @ [nl] @ ''      safeslop.egress-hash: '' @ [CHR 0x22]"

definition readOverride :: "string \<Rightarrow> string \<times> string" where
  "readOverride content =
     (let rest = drop (length overrideHead) content;
          rev = takeWhile (\<lambda>c. c \<noteq> CHR 0x22) rest in
      (rev, take 64 (drop (length rev + length overrideMiddle) rest)))"

definition sampleOK :: "string \<Rightarrow> sample_state \<Rightarrow> engine_output \<times> sample_state" where
  "sampleOK out e = (\<lparr>eoOK = True, eoStdout = out, eoCombined = out\<rparr>, e)"

definition sampleFailed :: "sample_state \<Rightarrow> engine_output \<times> sample_state" where
  "sampleFailed e = (\<lparr>eoOK = False, eoStdout = [], eoCombined = []\<rparr>, e)"

definition sampleUp :: "string \<Rightarrow> files \<Rightarrow> engine_output \<times> sample_state" where
  "sampleUp ov fs =
     (case (fs ov, fs (overlayFile (overlayDirOf sampleStage))) of
        (Some content, Some body) \<Rightarrow>
          (case readOverride content of (revision, hash) \<Rightarrow> sampleOK [] (Some (revision, hash, body)))
      | _ \<Rightarrow> sampleFailed None)"

definition sampleExec :: "files \<Rightarrow> sample_state \<Rightarrow> engine_output \<times> sample_state" where
  "sampleExec fs e =
     (case (e, fs (overlayFile (overlayDirOf sampleStage))) of
        (Some _, Some body) \<Rightarrow> sampleOK (sha256Hex body @ [nl]) e
      | _ \<Rightarrow> sampleFailed e)"

definition sampleCompose :: "string list \<Rightarrow> files \<Rightarrow> sample_state \<Rightarrow> engine_output \<times> sample_state" where
  "sampleCompose args fs e =
     (case args of
        flag # ov # verb \<Rightarrow> if flag = ''-f'' \<and> verb = upVerb then sampleUp ov fs else sampleExec fs e
      | _ \<Rightarrow> sampleExec fs e)"

definition sampleIDs :: "sample_state \<Rightarrow> string" where
  "sampleIDs e = (if e = None then [] else ''0123456789ab'' @ [nl])"

definition sampleLabels :: "sample_state \<Rightarrow> engine_output \<times> sample_state" where
  "sampleLabels e =
     (case e of
        None \<Rightarrow> sampleFailed e
      | Some (revision, hash, _) \<Rightarrow> sampleOK (revision @ '' '' @ hash @ [nl]) e)"

definition sampleRun :: "string list \<Rightarrow> files \<Rightarrow> sample_state \<Rightarrow> engine_output \<times> sample_state" where
  "sampleRun argv fs e =
     (case argv of
        [] \<Rightarrow> sampleFailed e
      | verb # rest \<Rightarrow>
          if verb = ''compose'' then sampleCompose (drop 6 rest) fs e
          else if verb = ''ps'' then sampleOK (sampleIDs e) e
          else if verb = ''rm'' then sampleOK [] None
          else if verb = ''inspect'' then sampleLabels e
          else if verb = ''network'' then sampleOK [] e
          else sampleFailed e)"

definition sampleEngine :: "sample_state engine" where
  "sampleEngine = \<lparr>enName = ''docker'', enCommand = sampleRun\<rparr>"

definition sampleEnv :: "sample_state egress_env" where
  "sampleEnv =
     \<lparr>evNow = 9, evSettings = \<lparr>stCwd = None, stPolls = 3\<rparr>,
      evBackend = (\<lambda>n. if n = ''docker'' then Some sampleEngine else None),
      evCache = Some ''/cache'', evPid = 1, evAlive = (\<lambda>_. True),
      evSockets = \<lparr>envDir = ''/state'', envXDG = [], envTemp = ''/tmp'', envUID = 501\<rparr>\<rparr>"

lemma sampleHome_facts:
  "fst sampleHome = ''docker''" "fst (snd sampleHome) = ''container''"
  "homeOf s = sampleHome \<Longrightarrow> sessionStageDir (evCache sampleEnv) s = Some sampleStage"
proof -
  show "fst sampleHome = ''docker''" "fst (snd sampleHome) = ''container''"
    by (simp_all add: sampleHome_def homeOf_def sampleHomeSession_def sampleSession_def zeroSession_def)
  have "sessionStageDir (evCache sampleEnv) sampleHomeSession = Some sampleStage" by code_simp
  moreover have "sessionStageDir c s = sessionStageDir c t" if "homeOf s = homeOf t" for c t
    using that by (simp add: homeOf_def sessionStageDir_def sessionStageKey_def)
  ultimately show "homeOf s = sampleHome \<Longrightarrow> sessionStageDir (evCache sampleEnv) s = Some sampleStage"
    by (simp add: sampleHome_def)
qed

text \<open>What the engine reads is what the code wrote.\<close>

lemma readOverride_rendered:
  assumes "renderEgressOverride dir g = Some content" and "Build V n = Inr (g, body)"
  shows "readOverride content = (intText n, generationHash g)"
proof -
  have g: "generationRevision g = n" "generationHash g = sha256Hex body" "0 \<le> n" using assms(2) by (auto simp: Build_Inr_iff)
  have digits: "list_all isDigit (intText n)" using g(3) natText_digits by (simp add: intText_def)
  have hex: "length (sha256Hex body) = 64" "list_all isLowerHex (sha256Hex body)" using sha256Hex_shape by auto
  have plain: "concat (map jsonByte w) = w" if "list_all isLowerHex w \<or> list_all isDigit w" for w
    using that by (induction w) (auto simp: jsonByte_def char_class_defs byte_def)
  have dollar: "replaceByte CHR ''$'' ''$$'' w = w" if "list_all isLowerHex w" for w
    using that by (induction w) (auto simp: replaceByte_def char_class_defs byte_def)
  obtain source where "yamlScalar dir = Some source" using assms(1) by (auto simp: renderEgressOverride_def split: option.splits)
  moreover obtain h where h: "yamlScalar (generationHash g) = Some h"
    using assms(1) by (auto simp: renderEgressOverride_def split: option.splits)
  moreover have "h = CHR 0x22 # sha256Hex body @ [CHR 0x22]"
    using h g(2) plain [of "sha256Hex body"] dollar [OF hex(2)] hex(2) by (auto simp: yamlScalar_def jsonString_def split: if_splits)
  moreover have "jsonString (intText n) = CHR 0x22 # intText n @ [CHR 0x22]"
    using plain [of "intText n"] digits by (simp add: jsonString_def)
  ultimately obtain rest where c: "content = overrideHead @ intText n @ overrideMiddle @ sha256Hex body @ rest"
    using assms(1) g(1) by (auto simp: renderEgressOverride_def overrideHead_def overrideMiddle_def)
  have free: "\<forall>c \<in> set (intText n). c \<noteq> CHR 0x22" using digits by (auto simp: list_all_iff isDigit_def byte_def)
  have "takeWhile (\<lambda>c. c \<noteq> CHR 0x22) (intText n @ overrideMiddle @ t) = intText n" for t
    using free by (simp add: overrideMiddle_def)
  then show ?thesis using hex(1) g(2) by (simp add: readOverride_def c Let_def)
qed

lemma sampleRun_compose:
  "sampleRun (composeBase project d f @ args) fs e = sampleCompose args fs e"
  by (simp add: sampleRun_def composeBase_def)

lemma sampleExec_state:
  "sampleExec fs e = (r, e1) \<Longrightarrow> e1 = e \<and> (eoOK r \<longrightarrow> e \<noteq> None)"
  by (auto simp: sampleExec_def sampleOK_def sampleFailed_def split: option.splits)

lemma sampleCompose_quiet:
  assumes "sampleCompose (fileFlags ps @ verb # rest) fs e = (r, e1)" and "verb \<in> {''exec'', ''ps''}"
  shows "e1 = e \<and> (eoOK r \<longrightarrow> e \<noteq> None)"
proof -
  have "sampleCompose (fileFlags ps @ verb # rest) fs e = sampleExec fs e"
    using assms(2)
    by (cases ps; cases "tl ps") (auto simp: sampleCompose_def fileFlags_def upVerb_def split: list.split)
  with assms(1) sampleExec_state show ?thesis by simp
qed

lemma sampleProxies_facts:
  "fieldsText (sampleIDs e) = map pxID (sampleProxies e)"
  "scannedLines (sampleIDs e) = Some (map pxID (sampleProxies e))"
  "sampleProxies e \<noteq> [] \<longleftrightarrow> e \<noteq> None"
proof -
  have "trimSpace [] = []" "trimSpace ''0123456789ab'' = ''0123456789ab''"
    "splitOn nl (''0123456789ab'' @ [nl]) = [''0123456789ab'', []]" by code_simp+
  then have "scannedLines [] = Some []" "scannedLines (''0123456789ab'' @ [nl]) = Some [''0123456789ab'']"
    by (simp_all add: scannedLines_def Let_def del: append_Cons append_Nil)
  moreover have "list_all inkByte ''0123456789ab''" by code_simp
  moreover from this have "fieldsText (''0123456789ab'' @ [nl]) = [''0123456789ab'']" by (intro fieldsText_line) simp_all
  ultimately have "fieldsText (sampleIDs e) = map pxID (sampleProxies e)
    \<and> scannedLines (sampleIDs e) = Some (map pxID (sampleProxies e)) \<and> (sampleProxies e \<noteq> [] \<longleftrightarrow> e \<noteq> None)"
    by (cases e rule: sampleProxies.cases) (simp_all add: sampleIDs_def fieldsText_Nil)
  then show "fieldsText (sampleIDs e) = map pxID (sampleProxies e)"
    "scannedLines (sampleIDs e) = Some (map pxID (sampleProxies e))" "sampleProxies e \<noteq> [] \<longleftrightarrow> e \<noteq> None" by simp_all
qed

text \<open>The contract holds of the sample host.\<close>

interpretation sample: docker_host sampleEnv sampleEngine sampleProxies "{sampleViews}" sampleHome sampleStage
proof
  show "evBackend sampleEnv (fst sampleHome) = Some sampleEngine" "enName sampleEngine = fst sampleHome"
    "fst sampleHome \<noteq> []" "fst (snd sampleHome) = ''container''"
    by (simp_all add: sampleHome_facts sampleEnv_def sampleEngine_def)
  show "sessionStageDir (evCache sampleEnv) s = Some sampleStage" if "homeOf s = sampleHome" for s
    using that by (rule sampleHome_facts(3))
  show "hasPrefix sampleStage [slash]" by code_simp
  show "trimSpace (SessionIDFromStageDir sampleStage) \<noteq> []" by code_simp
next
  fix project argv fs e r e1
  assume "quietCommand project argv" and run: "enCommand sampleEngine argv fs e = (r, e1)"
  then consider verb rest where "argv = verb # rest" "verb \<in> {''ps'', ''inspect'', ''rm'', ''network''}"
    | d f ps verb rest where "argv = composeBase project d f @ fileFlags ps @ verb # rest" "verb \<in> {''exec'', ''ps''}"
    unfolding quietCommand_def by blast
  then show "set (sampleProxies e1) \<subseteq> set (sampleProxies e)"
  proof cases
    case 1
    then show ?thesis using run
      by (auto simp: sampleEngine_def sampleRun_def sampleOK_def sampleFailed_def sampleLabels_def split: option.splits)
  next
    case 2
    then show ?thesis using run sampleCompose_quiet by (fastforce simp: sampleEngine_def sampleRun_compose)
  qed
next
  fix project d f ov fs e r e1 V n g body content p
  assume run: "enCommand sampleEngine (composeBase project d f @ fileFlags [ov] @ upVerb) fs e = (r, e1)"
    and b: "Build V n = Inr (g, body)" and o: "renderEgressOverride (overlayDirOf sampleStage) g = Some content" "fs ov = Some content"
    and p: "p \<in> set (sampleProxies e1)"
  from run have up: "sampleUp ov fs = (r, e1)"
    by (simp add: sampleEngine_def sampleRun_compose sampleCompose_def fileFlags_def)
  have "generationRevision g = n" using b by (auto simp: Build_Inr_iff)
  then show "created fs (overlayDirOf sampleStage) g p \<or> \<not> eoOK r \<and> p \<in> set (sampleProxies e)"
    using up p o(2) readOverride_rendered [OF o(1) b]
    by (auto simp: sampleUp_def sampleOK_def sampleFailed_def created_def split: option.splits)
next
  fix project fs e r e1 assume "enCommand sampleEngine (projectProxies project) fs e = (r, e1)"
  then show "fieldsText (eoStdout r) = map pxID (sampleProxies e1)"
    using sampleProxies_facts(1) by (auto simp: sampleEngine_def sampleRun_def projectProxies_def sampleOK_def)
next
  fix line fs e r e1 p assume "enCommand sampleEngine [''inspect'', ''-f'', labelFormat, line] fs e = (r, e1)" "eoOK r"
    "sampleProxies e = [p]"
  then show "eoStdout r = pxRevision p @ '' '' @ pxHash p @ [nl]"
    by (cases e) (auto simp: sampleEngine_def sampleRun_def sampleLabels_def sampleOK_def sampleFailed_def)
next
  fix project d f ps fs e r e1
  assume "enCommand sampleEngine (composeBase project d f @ fileFlags ps @ hashVerb) fs e = (r, e1)" "eoOK r"
  moreover from this(1) have "sampleCompose (fileFlags ps @ ''exec'' # tl hashVerb) fs e = (r, e1)"
    by (simp add: sampleEngine_def sampleRun_compose hashVerb_def)
  ultimately show "sampleProxies e1 \<noteq> []" using sampleCompose_quiet sampleProxies_facts(3) by blast
next
  fix filters fs e r e1 ids assume "enCommand sampleEngine ([''ps'', ''-aq''] @ filters) fs e = (r, e1)"
    "scannedLines (eoCombined r) = Some ids"
  then show "pxID ` set (sampleProxies e1) \<subseteq> set ids"
    using sampleProxies_facts(2) by (auto simp: sampleEngine_def sampleRun_def sampleOK_def)
next
  fix ids fs e r e1 p assume "enCommand sampleEngine (''rm'' # ''-f'' # ids) fs e = (r, e1)" "p \<in> set (sampleProxies e1)"
  then show "pxID p \<notin> set ids" by (auto simp: sampleEngine_def sampleRun_def sampleOK_def)
next
  fix V W assume "V \<in> {sampleViews}" "W \<in> {sampleViews}"
  then show "set V = set W" by simp
qed

section \<open>Quarantine\<close>

text \<open>The boundary states of a run are the first one and the torn down one.\<close>

definition netsIn :: "'h \<Rightarrow> 'h \<Rightarrow> 'h drive \<Rightarrow> bool" where
  "netsIn h g st \<longleftrightarrow> dvNet st \<in> {h, g} \<and> list_all (\<lambda>(_, x). x \<in> {h, g}) (dvLog st)"

lemma runs_nets_commit: "runs (netsIn h g) (txCommit c) (\<lambda>_. netsIn h g)"
  by (auto simp: runs_def txCommit_def netsIn_def logged_def split: prod.splits sum.splits)

lemma runs_nets_attempts: "runs (netsIn h g) (commitAttempts k e c) (\<lambda>_. netsIn h g)"
proof (induction k arbitrary: e)
  case (Suc k)
  then show ?case unfolding commitAttempts.simps
    by (intro runs_bind [OF runs_nets_commit] runs_sum runs_ret)
qed (simp add: runs_ret)

lemma runs_quarantine:
  "runs (\<lambda>st. netsIn h (snd (edTeardown D s h)) st \<and> dvNet st = h \<and> dvTx st = s)
     (failClosedEgressWithDeps D restore)
     (\<lambda>r st. r = Inl ErrEgressAuthorityUncertain \<and> netsIn h (snd (edTeardown D s h)) st)"
proof -
  let ?g = "snd (edTeardown D s h)"
  let ?P = "\<lambda>st. netsIn h ?g st \<and> dvNet st = h \<and> dvTx st = s"
  let ?Q = "\<lambda>(r :: (drive_error, unit) res) st. r = Inl ErrEgressAuthorityUncertain \<and> netsIn h ?g st"
  have unc: "runs P uncertainD ?Q" if "\<And>st. P st \<Longrightarrow> netsIn h ?g st" for P
    unfolding uncertainD_def by (rule runs_ret) (simp add: that)
  have commit: "runs (netsIn h ?g) (bindD (commitEgressFailureState c) (\<lambda>_. uncertainD)) ?Q" for c
    unfolding commitEgressFailureState_def by (intro runs_bind [OF runs_nets_attempts] unc)
  have net: "runs ?P (onNet (edTeardown D s)) (\<lambda>_. netsIn h ?g)"
    by (auto simp: runs_def onNet_def netsIn_def logged_def split: prod.splits)
  have tx: "runs ?P (f s) ?Q \<Longrightarrow> runs ?P (bindD txSession f) ?Q" for f :: "Session \<Rightarrow> ('a, (drive_error, unit) res) driven"
    by (simp add: runs_def bindD_def txSession_def)
  show ?thesis unfolding failClosedEgressWithDeps_def failClosedEgressWithUpperBound_def Let_def option.case
    by (intro tx runs_sum runs_pair runs_if unc runs_bind [OF net]) (auto intro!: runs_sum runs_pair runs_if unc commit)
qed

lemma quarantine_locked:
  assumes run: "driveLocked i (recoverThen D body) h w = (r, fin)" and st: "storedSession i w s"
    and q: "seStatus s = StatusRunning" "hasEgressUncertaintyFailure s"
  shows "(\<exists>e. r = Inl e) \<and> list_all (\<lambda>(_, x). x \<in> {h, snd (edTeardown D s h)}) (deLog fin @ [(deWorld fin, deNet fin)])"
proof -
  let ?g = "snd (edTeardown D s h)"
  have body: "runs (\<lambda>d. netsIn h ?g d \<and> dvNet d = h \<and> dvTx d = s) (recoverThen D body)
      (\<lambda>r d. (\<exists>e. r = Inl e) \<and> netsIn h ?g d)"
    unfolding runs_def
  proof (intro allI impI, elim conjE)
    fix d r d' assume d: "netsIn h ?g d" "dvNet d = h" "dvTx d = s" and run: "recoverThen D body d = (r, d')"
    obtain p d1 where p: "failClosedEgressWithDeps D None d = (p, d1)" by fastforce
    have "p = Inl ErrEgressAuthorityUncertain \<and> netsIn h ?g d1"
      using runsD [OF runs_quarantine _ p] d by blast
    moreover have "r = Inl ErrEgressAuthorityUncertain \<and> d' = d1" if "p = Inl ErrEgressAuthorityUncertain"
      using run p d(3) q that
      by (simp add: recoverThen_def recoverRunningSessionEgressProtocol_def bindD_def txSession_def retD_def Let_def)
    ultimately show "(\<exists>e. r = Inl e) \<and> netsIn h ?g d'" by blast
  qed
  obtain p w' where p: "withRecordLock i (bindIO (getUnlocked i) (lockedBody (recoverThen D body) h)) w = (p, w')" by fastforce
  have early: ?thesis if "p = Inl e" for e using run p that by (auto simp: driveLocked_def)
  from withRecordLock_run [OF p] show ?thesis
  proof (elim disjE exE conjE)
    fix w1 w2 assume w: "i \<noteq> []" "diskFrame w w1" "bindIO (getUnlocked i) (lockedBody (recoverThen D body) h) w1 = (p, w2)"
    from w(3) consider e where "p = Inl e"
      | t v where "getUnlocked i w1 = (Inr t, v)" "lockedBody (recoverThen D body) h t v = (p, w2)"
      unfolding bindIO_run by blast
    then show ?thesis
    proof cases
      case 2
      have "storedSession i w1 t" using getUnlocked_run(2) [OF 2(1)] w(1) by (simp add: storedSession_def)
      then have t: "t = s" using st storedSession_frame [OF w(2)] storedSession_unique by blast
      obtain r0 d where r0: "recoverThen D body \<lparr>dvWorld = v, dvTx = s, dvNet = h, dvLog = []\<rparr> = (r0, d)" by fastforce
      have "(\<exists>e. r0 = Inl e) \<and> netsIn h ?g d" by (rule runsD [OF body _ r0]) (simp add: netsIn_def)
      moreover have "p = Inr (r0, d)" using 2(2) r0 t by (simp add: lockedBody_def)
      ultimately show ?thesis using run p by (auto simp: driveLocked_def netsIn_def)
    qed (rule early)
  qed (erule early)+
qed

section \<open>A session on the sample host\<close>

definition sampleAs :: "session_status \<Rightarrow> Failure option \<Rightarrow> Session" where
  "sampleAs st f = sampleHomeSession\<lparr>seStatus := st, seLastFailure := f\<rparr>"

definition sampleProxied :: "sample_state boundary" where
  "sampleProxied =
     (let body = generationBody sampleViews 1 in
      \<lparr>bdFiles = (\<lambda>_. None), bdCalls = [], bdEngine = Some (intText 1, sha256Hex body, body)\<rparr>)"

lemma sampleAs_fields [simp]:
  "seStatus (sampleAs st f) = st" "seLastFailure (sampleAs st f) = f" "seEgressTransition (sampleAs st f) = None"
  "sePersistentEgress (sampleAs st f) = []" "seEgressGrants (sampleAs st f) = [sampleGrant]"
  "homeOf (sampleAs st f) = sampleHome" "CanGrant (sampleAs st f)" "seID (sampleAs st f) = ''sess-1''"
  "seBackend (sampleAs st f) = ''docker''"
  by (simp_all add: sampleAs_def sampleHomeSession_def sampleHome_def homeOf_def sampleSession_def zeroSession_def CanGrant_def)

lemma sampleAs_views: "sessionEgressViews (sampleAs st f) = sampleViews" "authorityOf (sampleAs st f) = set sampleViews"
  by (simp_all add: sessionEgressViews_def authorityOf_def sampleViews_def sampleGrant_def grantDestination_def)

lemma sampleAs_valid:
  assumes "validStatus st"
  shows "validateRecord (sampleAs st f) = Inr ()"
proof -
  note s = validateRecord_Inr [of sampleSession] sampleSession_valid
  have g: "validGrant sampleGrant" using sampleGrant_exact
    by (simp add: validGrant_def sampleGrant_def exactHostPort_iff validGrantID_def isLowerHex_def isDigit_def byte_def)
  then have "validEgressAuthority (sampleAs st f)"
    by (simp add: validEgressAuthority_iff validGrantList_iff)
       (simp add: sampleAs_def sampleHomeSession_def sampleSession_def zeroSession_def)
  moreover have "canonicalEgressGeneration (sampleAs st f) [sampleGrant] 1 \<noteq> None"
    using sampleGrant_exact by (auto simp: canonical_Some_iff exactHostPort_iff sampleGrant_def)
  then have "validEgressRuntimeState (sampleAs st f)"
    by (auto simp: validEgressRuntimeState_def sampleAs_def sampleHomeSession_def sampleSession_def zeroSession_def
        split: option.splits)
  moreover have "validRuntimeIdentity (sampleAs st f) = validRuntimeIdentity sampleSession"
    by (simp add: validRuntimeIdentity_def sampleAs_def sampleHomeSession_def)
  moreover have "seID (sampleAs st f) = seID sampleSession" by (simp add: sampleAs_def sampleHomeSession_def)
  ultimately show ?thesis using s assms by (simp add: validateRecord_Inr)
qed

lemma sampleAs_stored:
  assumes "validStatus st"
  shows "storedSession ''sess-1'' (worldWith (sampleAs st f)) (sampleAs st f)" "calm (worldWith (sampleAs st f))"
    and "\<forall>t \<in> held dur ''sess-1'' (worldWith (sampleAs st f)). t = sampleAs st f"
proof -
  have "list_all jsonTime (recordTimes (sampleAs st f))"
    by (simp add: recordTimes_def jsonTime_def sampleAs_def sampleHomeSession_def sampleSession_def zeroSession_def sampleGrant_def)
  then obtain bs where "encodeRecord (sampleAs st f) = Inr bs" by (simp add: encodeRecord_def)
  from worldWith_stored [OF sampleAs_valid [OF assms] this]
  show st: "storedSession ''sess-1'' (worldWith (sampleAs st f)) (sampleAs st f)" "calm (worldWith (sampleAs st f))" by simp_all
  have "wDurable (worldWith s) = []" for s by (simp add: worldWith_def emptyWorld_def)
  then have "\<not> storedSession i (worldWith s\<lparr>wDir := wDurable (worldWith s)\<rparr>) t" for i s t
    by (simp add: storedSession_def lookupNode_def)
  with st(1) show "\<forall>t \<in> held dur ''sess-1'' (worldWith (sampleAs st f)). t = sampleAs st f"
    using storedSession_unique by (fastforce simp: held_def)
qed

lemma sampleDismiss_inPlay: "callInPlay {sampleViews} (DismissOp host port now) (sampleAs st f)"
proof -
  have "sessionEgressViews n = sessionEgressViews t" if "nextOf (DismissOp host port now) t = Inr n" for t n
    using that by (auto simp: nextOf_def rbind_Inr_iff DismissEgress_def sessionEgressViews_def Let_def split: if_splits)
  then show ?thesis by (simp add: callInPlay_def inPlay_def sampleAs_views)
qed

lemma sampleProxied_facts:
  "ownProxies sampleProxies {sampleViews} sampleProxied" "served sampleProxies sampleProxied = set sampleViews"
proof -
  have "list_all exactDestination sampleViews"
    using sampleGrant_exact by (simp add: sampleViews_def exactDestination_def)
  then have b: "Build sampleViews 1 = Inr (\<lparr>generationRevision = 1, generationHash = sha256Hex (generationBody sampleViews 1)\<rparr>,
      generationBody sampleViews 1)" by (simp add: Build_Inr_iff)
  then show "ownProxies sampleProxies {sampleViews} sampleProxied"
    by (auto simp: ownProxies_def ownProxy_def sampleProxied_def Let_def)
  have "overlayAllows (generationBody sampleViews 1) = set sampleViews" using b built_bytes [OF b] by (auto simp: overlayAllows_def)
  then show "served sampleProxies sampleProxied = set sampleViews" by (simp add: served_def sampleProxied_def Let_def)
qed

text \<open>In a calm world a body that reaches a result under the lock lets the call reach it.\<close>

definition reaches :: "world \<Rightarrow> 'a io \<Rightarrow> ('a \<Rightarrow> bool) \<Rightarrow> bool" where
  "reaches w m P \<longleftrightarrow> (\<exists>x w'. m w = (Inr x, w') \<and> calm w' \<and> P x)"

lemma reaches_bind:
  assumes "succeeds w m x" and "\<And>w1. calm w1 \<Longrightarrow> diskFrame w w1 \<Longrightarrow> reaches w1 (f x) P"
  shows "reaches w (bindIO m f) P"
  using assms by (auto simp: succeeds_def reaches_def bindIO_def)

lemma driveLocked_reaches:
  assumes w: "calm w" and st: "storedSession i w s"
    and fn: "\<And>w1. calm w1 \<Longrightarrow> diskFrame w w1
      \<Longrightarrow> \<exists>x st. fn \<lparr>dvWorld = w1, dvTx = s, dvNet = h, dvLog = []\<rparr> = (Inr x, st) \<and> calm (dvWorld st) \<and> P (dvTx st)"
  shows "\<exists>t x fin. driveLocked i fn h w = (Inr (t, x), fin) \<and> P t"
proof -
  let ?body = "bindIO (getUnlocked i) (lockedBody fn h)"
  let ?P = "\<lambda>(r, st). (\<exists>x. r = Inr x) \<and> P (dvTx st)"
  have body: "reaches v ?body ?P" if v: "calm v" "diskFrame w v" for v
  proof (rule reaches_bind [OF getUnlocked_succeeds [OF v(1)]])
    show "storedSession i v s" using st storedSession_frame [OF v(2)] by simp
    fix w1 assume c: "calm w1" and "diskFrame v w1"
    with v(2) have "diskFrame w w1" using diskFrame_trans by blast
    from fn [OF c this] show "reaches w1 (lockedBody fn h s) ?P" by (auto simp: reaches_def lockedBody_def)
  qed
  have lock: "reaches v (underLock i ?body) ?P" if v: "calm v" "diskFrame w v" for v
  proof -
    have "diskFrame w (v\<lparr>wTrace := wTrace v @ [EvLocked i]\<rparr>)" using v(2) by (simp add: diskFrame_def)
    from body [OF _ this] v(1) show ?thesis
      by (fastforce simp: reaches_def underLock_def bindIO_def emit_def tryIO_def liftIO_def)
  qed
  have d: "succeeds w ensureDir ()" unfolding ensureDir_def
    using w by (intro succeeds_bind [OF succeeds_osCall]) simp_all
  have "i \<noteq> []" "validID i" using st storedSession_valid(6) [OF st] by (simp_all add: storedSession_def)
  then have "reaches w (withRecordLock i ?body) ?P" unfolding withRecordLock_def
    by (simp) (intro reaches_bind [OF d] reaches_bind [OF succeeds_osCall] lock; assumption?; meson diskFrame_trans)
  then show ?thesis by (auto simp: reaches_def driveLocked_def)
qed

lemma sampleDismiss_succeeds:
  "\<exists>t fin. egressCall D (DismissOp ''pypi.org'' 443 9) ''sess-1'' h (worldWith (sampleAs StatusCreated None)) = (Inr t, fin)"
proof -
  let ?s = "sampleAs StatusCreated None"
  define n where "n = ?s\<lparr>seEgressAcknowledgements := [\<lparr>eaHost = ''pypi.org'', eaPort = 443, eaAcknowledgedAt = 9\<rparr>], seUpdatedAt := 9\<rparr>"
  have v: "validStatus StatusCreated" by (simp add: validStatus_def)
  have "seEgressAcknowledgements ?s = []"
    by (simp add: sampleAs_def sampleHomeSession_def sampleSession_def zeroSession_def)
  then obtain k where d: "DismissEgress ?s ''pypi.org'' 443 9 = Inr (n, k)"
    using sampleGrant_exact by (simp add: DismissEgress_def ValidateEgressGrant_def n_def Let_def)
  have s: "validateRecord ?s = Inr ()" by (rule sampleAs_valid [OF v])
  have "CanGrant n = CanGrant ?s" "validRuntimeIdentity n = validRuntimeIdentity ?s"
    by (simp_all add: n_def CanGrant_def validRuntimeIdentity_def)
  moreover have "validEgressRuntimeState n = validEgressRuntimeState ?s"
    by (rule validEgressRuntimeState_cong) (simp_all add: n_def)
  moreover have "validAck \<lparr>eaHost = ''pypi.org'', eaPort = 443, eaAcknowledgedAt = 9\<rparr>"
    using sampleGrant_exact by (simp add: validAck_def exactHostPort_iff)
  ultimately have t: "validateRecord n = Inr ()"
    using s by (simp add: validateRecord_Inr validEgressAuthority_iff) (simp add: n_def)
  have "list_all jsonTime (recordTimes (bumped n))"
    by (simp add: bumped_def recordTimes_def jsonTime_def n_def sampleAs_def sampleHomeSession_def sampleSession_def zeroSession_def sampleGrant_def)
  then obtain bs where bs: "encodeRecord (bumped n) = Inr bs" by (simp add: encodeRecord_def)
  let ?fn = "recoverThen D (dismissBody ''pypi.org'' 443 9)"
  have "\<exists>t x fin. driveLocked ''sess-1'' ?fn h (worldWith ?s) = (Inr (t, x), fin) \<and> True"
  proof (rule driveLocked_reaches [OF sampleAs_stored(2) [OF v] sampleAs_stored(1) [OF v]])
    fix w1 assume c: "calm w1"
    have "seID n = seID ?s" "seRecordRevision n = seRecordRevision ?s" by (simp_all add: n_def)
    from Commit_final [OF c this t bs] obtain w2 where "Commit ?s n w1 = (Inr (bumped n), w2)" "calm w2" by blast
    then show "\<exists>x st. ?fn \<lparr>dvWorld = w1, dvTx = ?s, dvNet = h, dvLog = []\<rparr> = (Inr x, st) \<and> calm (dvWorld st) \<and> True"
      by (simp add: recoverThen_def recoverRunningSessionEgressProtocol_def dismissBody_def d andReturn_def commitD_def
          drive_defs logged_def)
  qed
  then show ?thesis by (fastforce simp: egressCall_def dismissSessionEgress_def)
qed

section \<open>The properties\<close>

text \<open>(C4) The container code provides the interface of the driver. Under the contract of the engine, the
  closures of \<open>dependencies.go\<close> over \<open>egress_grant_apply.go\<close> and the reaper satisfy the laws of
  \<open>egress_boundary\<close>: an apply leaves the old or the new destinations, a positive inspection names what is
  served, an acknowledged apply serves exactly what was asked, and a teardown that reports success
  leaves no proxy.\<close>

theorem container_code_is_boundary:
  assumes "docker_host env eng proxies K home stage"
  shows "egress_boundary (containerDeps env) (served proxies) (ownProxies proxies K) K home"
  using assms by (rule docker_host.provides)

theorem container_code_is_boundary_witness:
  "egress_boundary (containerDeps sampleEnv) (served sampleProxies) (ownProxies sampleProxies {sampleViews})
     {sampleViews} sampleHome"
  by (rule container_code_is_boundary [OF sample.docker_host_axioms])

text \<open>(C2) What the proxy serves never exceeds the record. A call of any egress handler starts with a
  stored record of the session, proxies of the code's own making that serve at most the record's
  authority, and no record that a crash could leave that grants less. Then after every effect and
  every commit of the call, and at its end, whatever system calls and engine commands fail, every
  destination served is granted by the visible record and by the record that a crash would leave.\<close>

theorem egress_stays_within_record:
  assumes "docker_host env eng proxies K home stage" and "storedSession i w s" and "homeOf s = home"
    and "callInPlay K op s" and "ownProxies proxies K h" and "served proxies h \<subseteq> liveAuthority s"
    and "\<forall>t \<in> held True i w. authorityOf s \<subseteq> authorityOf t"
    and "egressCall (containerDeps env) op i h w = (r, fin)"
  shows "\<forall>(w', h') \<in> set (deLog fin @ [(deWorld fin, deNet fin)]).
           \<forall>t \<in> held True i w'. served proxies h' \<subseteq> authorityOf t"
  using egress_boundary.egressCall_post [OF docker_host.provides [OF assms(1)] assms(8,2-7), THEN conjunct1]
  by (simp add: list_all_iff safeAt_def split_beta)

theorem egress_stays_within_record_witness:
  "case egressCall (containerDeps sampleEnv) (DismissOp ''evil.example'' 443 9) ''sess-1'' sampleProxied
          (worldWith (sampleAs StatusRunning None)) of
     (r, fin) \<Rightarrow> \<forall>(w', h') \<in> set (deLog fin @ [(deWorld fin, deNet fin)]).
       \<forall>t \<in> held True ''sess-1'' w'. served sampleProxies h' \<subseteq> authorityOf t"
proof -
  have v: "validStatus StatusRunning" by (simp add: validStatus_def)
  obtain r fin where "egressCall (containerDeps sampleEnv) (DismissOp ''evil.example'' 443 9) ''sess-1'' sampleProxied
      (worldWith (sampleAs StatusRunning None)) = (r, fin)" by fastforce
  note run = this
  have "\<forall>t \<in> held True ''sess-1'' (worldWith (sampleAs StatusRunning None)). authorityOf (sampleAs StatusRunning None) \<subseteq> authorityOf t"
    using sampleAs_stored(3) [OF v] by fastforce
  from egress_stays_within_record [OF sample.docker_host_axioms sampleAs_stored(1) [OF v] _ sampleDismiss_inPlay
      sampleProxied_facts(1) _ this run]
  show ?thesis by (simp add: sampleProxied_facts(2) sampleAs_views liveAuthority_def run)
qed

text \<open>(C3) A call that reports success did what was asked, and record and proxy agree. The record returned is
  the one stored; it has the destination that was granted, not the grant that was revoked, the
  acknowledgement of what was dismissed; of a running session the marker is gone and the proxies serve
  exactly its authority, of any other they serve nothing.\<close>

theorem egress_success_is_exact:
  assumes "docker_host env eng proxies K home stage" and "storedSession i w s" and "homeOf s = home"
    and "callInPlay K op s" and "ownProxies proxies K h" and "served proxies h \<subseteq> liveAuthority s"
    and "egressCall (containerDeps env) op i h w = (Inr t, fin)"
  shows "storedSession i (deWorld fin) t \<and> asked op t \<and> served proxies (deNet fin) = liveAuthority t
       \<and> (seStatus t = StatusRunning \<longrightarrow> seEgressTransition t = None)"
proof -
  have low: "\<forall>u \<in> held False i w. authorityOf s \<subseteq> authorityOf u"
    using assms(2) storedSession_unique by (fastforce simp: held_def)
  from egress_boundary.egressCall_post [OF docker_host.provides [OF assms(1)] assms(7,2-6) low]
  have t: "seID t = i" "asked op t" "kept False t (deWorld fin)" "served proxies (deNet fin) \<subseteq> liveAuthority t"
    "seStatus t = StatusRunning \<longrightarrow> seEgressTransition t = None \<and> served proxies (deNet fin) = authorityOf t"
    by auto
  moreover have "storedSession i (deWorld fin) t" using kept_stored [OF t(3)] t(1) by simp
  moreover have "served proxies (deNet fin) = liveAuthority t"
    using t(4,5) by (cases "seStatus t = StatusRunning") (auto simp: liveAuthority_def)
  ultimately show ?thesis by blast
qed

theorem egress_success_is_exact_witness:
  "\<exists>t fin. egressCall (containerDeps sampleEnv) (DismissOp ''pypi.org'' 443 9) ''sess-1'' (sampleProxied\<lparr>bdEngine := None\<rparr>)
       (worldWith (sampleAs StatusCreated None)) = (Inr t, fin)
     \<and> storedSession ''sess-1'' (deWorld fin) t \<and> asked (DismissOp ''pypi.org'' 443 9) t"
proof -
  let ?h = "sampleProxied\<lparr>bdEngine := None\<rparr>"
  have v: "validStatus StatusCreated" by (simp add: validStatus_def)
  obtain t fin where run: "egressCall (containerDeps sampleEnv) (DismissOp ''pypi.org'' 443 9) ''sess-1'' ?h
      (worldWith (sampleAs StatusCreated None)) = (Inr t, fin)" using sampleDismiss_succeeds [where D = "containerDeps sampleEnv" and h = ?h] by blast
  have "ownProxies sampleProxies {sampleViews} ?h" "served sampleProxies ?h = {}"
    by (simp_all add: ownProxies_def served_def)
  with egress_success_is_exact [OF sample.docker_host_axioms sampleAs_stored(1) [OF v] _ sampleDismiss_inPlay _ _ run]
  have "storedSession ''sess-1'' (deWorld fin) t \<and> asked (DismissOp ''pypi.org'' 443 9) t" by simp
  with run show ?thesis by blast
qed

text \<open>(C5) A running record with the uncertainty failure is in quarantine. Whatever the engine does, no egress
  handler succeeds on it, and none starts or replaces a proxy: the boundary is left as it was or as
  the teardown leaves it.\<close>

theorem uncertain_record_is_quarantined:
  assumes "storedSession i w s" and "seStatus s = StatusRunning" and "hasEgressUncertaintyFailure s"
    and "egressCall (containerDeps env) op i h w = (r, fin)"
  shows "(\<exists>e. r = Inl e)
       \<and> (\<forall>(w', h') \<in> set (deLog fin @ [(deWorld fin, deNet fin)]). h' \<in> {h, snd (defaultEgressTeardown env s h)})"
proof -
  have torn: "edTeardown (containerDeps env) = defaultEgressTeardown env" by (simp add: containerDeps_def)
  note q = quarantine_locked [OF _ assms(1-3), where D = "containerDeps env", unfolded torn]
  have result: ?thesis if "driveLocked i (recoverThen (containerDeps env) body) h w = (p, fin)" "r = rbind p (\<lambda>(s, _). Inr s)"
    for body :: "Session \<Rightarrow> ('a boundary, (drive_error, 'b) res) driven" and p
    using q [OF that(1)] that(2) by (auto simp: list_all_iff)
  show ?thesis
  proof (cases op)
    case (GrantOp host port now entropy)
    obtain p g where "grantSessionEgress (containerDeps env) i host port now entropy h w = (p, g)" by fastforce
    with assms(4) show ?thesis
      by (intro result) (auto simp: GrantOp egressCall_def grantSessionEgress_def)
  next
    case (DismissOp host port now)
    obtain p g where "dismissSessionEgress (containerDeps env) i host port now h w = (p, g)" by fastforce
    with assms(4) show ?thesis
      by (intro result) (auto simp: DismissOp egressCall_def dismissSessionEgress_def)
  next
    case (RevokeOp grantID now)
    obtain p g where "revokeSessionEgress (containerDeps env) i grantID now h w = (p, g)" by fastforce
    with assms(4) show ?thesis
      by (intro result) (auto simp: RevokeOp egressCall_def revokeSessionEgress_def)
  qed
qed

theorem uncertain_record_is_quarantined_witness:
  "case egressCall (containerDeps sampleEnv) (DismissOp ''evil.example'' 443 9) ''sess-1'' sampleProxied
          (worldWith (sampleAs StatusRunning (Some networkFailure))) of
     (r, fin) \<Rightarrow> \<exists>e. r = Inl e"
proof -
  have v: "validStatus StatusRunning" by (simp add: validStatus_def)
  obtain r fin where run: "egressCall (containerDeps sampleEnv) (DismissOp ''evil.example'' 443 9) ''sess-1'' sampleProxied
      (worldWith (sampleAs StatusRunning (Some networkFailure))) = (r, fin)" by fastforce
  from uncertain_record_is_quarantined [OF sampleAs_stored(1) [OF v] _ _ run]
  have "\<exists>e. r = Inl e" by (simp add: hasEgressUncertaintyFailure_def networkFailure_def)
  with run show ?thesis by simp
qed

end
