(* ===== verification/Lease.thy ===== *)
theory Lease
  imports SessionRecord "HOL-Library.Signed_Division"
begin

text \<open>
  The credential lease of \<open>creds/lease.go\<close>: a loop that renews a staged credential at two thirds of
  its lifetime, retries with a bounded back-off, and ends at the expiry or the horizon. Durations are
  64-bit nanoseconds; times are nanoseconds of the model's clock. The clock, the renewal callback, the
  jitter and the cancellation are the environment of the loop.
\<close>

section \<open>Data\<close>

datatype lease_state = LeaseHealthy | LeaseRenewing | LeaseDegraded | LeaseExpired

definition second :: int where
  "second = 10 ^ 9"

definition leaseMinimumUsableLifetime :: int where
  "leaseMinimumUsableLifetime = 600 * second"

definition leaseInitialRetry :: int where
  "leaseInitialRetry = 5 * second"

definition leaseMaximumRetry :: int where
  "leaseMaximumRetry = 300 * second"

record LeaseSnapshot =
  lsState :: lease_state
  lsReason :: string
  lsCurrentExpiresAt :: time
  lsHorizon :: "time option"
  lsNextRetry :: int
  lsAttempts :: int

text \<open>
  The environment: the time that passes before the \<open>n\<close>-th clock reading and beyond the \<open>n\<close>-th
  timer, the answer of the \<open>n\<close>-th renewal, the \<open>n\<close>-th jitter, and whether the wait for the \<open>n\<close>-th
  timer ends by cancellation.
\<close>

record lease_env =
  leElapsed :: "nat \<Rightarrow> int"
  leLate :: "nat \<Rightarrow> int"
  leRenew :: "nat \<Rightarrow> time option"
  leJitter :: "nat \<Rightarrow> int \<Rightarrow> int"
  leCancelled :: "nat \<Rightarrow> bool"

text \<open>What the loop does to the outside, with the clock and the snapshot at that moment.\<close>

datatype lease_event =
  Armed time int LeaseSnapshot
| Renewing time LeaseSnapshot
| Published LeaseSnapshot

record lease =
  lzSnapshot :: LeaseSnapshot
  lzClock :: time
  lzReads :: nat
  lzLog :: "lease_event list"

section \<open>Durations\<close>

text \<open>\<open>Time.Sub\<close> saturates; the product wraps and the quotient is truncated.\<close>

definition subTime :: "time \<Rightarrow> time \<Rightarrow> int" where
  "subTime a b = max min_int (min max_int (a - b))"

definition twoThirds :: "int \<Rightarrow> int" where
  "twoThirds d = wrap_int (d * 2) sdiv 3"

function retryLoop :: "int \<Rightarrow> int \<Rightarrow> int \<Rightarrow> int" where
  "retryLoop i attempt delay =
     (if i < attempt \<and> delay < leaseMaximumRetry
      then (let delay = wrap_int (delay * 2) in
            if delay > leaseMaximumRetry then leaseMaximumRetry else retryLoop (i + 1) attempt delay)
      else delay)"
  by pat_completeness auto
termination
  by (relation "measure (\<lambda>(i, attempt, _). nat (attempt - i))") auto

definition leaseRetryDelay :: "int \<Rightarrow> int" where
  "leaseRetryDelay attempt = (if attempt \<le> 1 then leaseInitialRetry else retryLoop 1 attempt leaseInitialRetry)"

text \<open>The default jitter with its random number.\<close>

definition defaultLeaseJitter :: "(int \<Rightarrow> int) \<Rightarrow> int \<Rightarrow> int" where
  "defaultLeaseJitter random delay =
     (if delay \<le> 0 then delay else wrap_int (delay + random (delay sdiv 5 + 1)))"

definition boundedLeaseJitter :: "int \<Rightarrow> int \<Rightarrow> int" where
  "boundedLeaseJitter base candidate =
     (if candidate < base then base
      else let maximum = min (wrap_int (base + base sdiv 5)) leaseMaximumRetry in
           if candidate > maximum then maximum else candidate)"

section \<open>The manager\<close>

definition logEvent :: "lease_event \<Rightarrow> lease \<Rightarrow> lease" where
  "logEvent e l = l\<lparr>lzLog := lzLog l @ [e]\<rparr>"

definition notify :: "lease \<Rightarrow> lease" where
  "notify l = logEvent (Published (lzSnapshot l)) l"

definition leaseNow :: "lease_env \<Rightarrow> lease \<Rightarrow> time \<times> lease" where
  "leaseNow env l =
     (let t = lzClock l + leElapsed env (lzReads l) in (t, l\<lparr>lzClock := t, lzReads := Suc (lzReads l)\<rparr>))"

definition deadline :: "LeaseSnapshot \<Rightarrow> time" where
  "deadline s =
     (case lsHorizon s of
        Some h \<Rightarrow> if h < lsCurrentExpiresAt s then h else lsCurrentExpiresAt s
      | None \<Rightarrow> lsCurrentExpiresAt s)"

definition expire :: "string \<Rightarrow> lease \<Rightarrow> lease" where
  "expire reason l =
     notify (l\<lparr>lzSnapshot := (lzSnapshot l)\<lparr>lsState := LeaseExpired, lsReason := reason, lsNextRetry := 0\<rparr>\<rparr>)"

definition expiredAt :: "time \<Rightarrow> lease \<Rightarrow> bool \<times> lease" where
  "expiredAt now l =
     (if (case lsHorizon (lzSnapshot l) of Some h \<Rightarrow> \<not> now < h | None \<Rightarrow> False)
      then (True, expire ''horizon_reached'' l)
      else if \<not> now < lsCurrentExpiresAt (lzSnapshot l) then (True, expire ''token_expired'' l)
      else (False, l))"

definition setRenewing :: "lease \<Rightarrow> lease" where
  "setRenewing l = notify (l\<lparr>lzSnapshot := (lzSnapshot l)\<lparr>lsState := LeaseRenewing, lsReason := []\<rparr>\<rparr>)"

definition setRenewalFailure :: "(int \<Rightarrow> int) \<Rightarrow> lease \<Rightarrow> lease" where
  "setRenewalFailure jitter l =
     (let s = lzSnapshot l; attempts = wrap_int (lsAttempts s + 1); base = leaseRetryDelay attempts in
      notify (l\<lparr>lzSnapshot := s\<lparr>lsState := LeaseDegraded, lsReason := ''renewal_failed'', lsAttempts := attempts,
                                 lsNextRetry := boundedLeaseJitter base (jitter base)\<rparr>\<rparr>))"

definition setRenewalSuccess :: "time \<Rightarrow> lease \<Rightarrow> lease" where
  "setRenewalSuccess expiresAt l =
     notify (l\<lparr>lzSnapshot := (lzSnapshot l)\<lparr>lsState := LeaseHealthy, lsReason := [], lsCurrentExpiresAt := expiresAt,
                                 lsNextRetry := 0, lsAttempts := 0\<rparr>\<rparr>)"

text \<open>\<open>None\<close> is the terminal answer.\<close>

definition nextDelay :: "lease_env \<Rightarrow> lease \<Rightarrow> int option \<times> lease" where
  "nextDelay env l =
     (let s = lzSnapshot l in
      case leaseNow env l of (now, l) \<Rightarrow>
     (case expiredAt now l of (expired, l) \<Rightarrow>
        if expired then (None, l)
        else
          let delay = (if lsState s = LeaseDegraded \<and> lsNextRetry s > 0 then lsNextRetry s
                       else twoThirds (subTime (lsCurrentExpiresAt s) now));
              delay = (if delay < 0 then 0 else delay) in
          (Some (if deadline s \<noteq> 0 \<and> now + delay > deadline s then subTime (deadline s) now else delay), l)))"

text \<open>One turn of the loop; \<open>True\<close> when the loop returns. The counter of timers, renewals and jitters is
  the number of the turn.\<close>

definition leaseRound :: "lease_env \<Rightarrow> nat \<Rightarrow> lease \<Rightarrow> bool \<times> lease" where
  "leaseRound env n l =
     (case nextDelay env l of
        (None, l) \<Rightarrow> (True, l)
      | (Some delay, l) \<Rightarrow>
          let l = logEvent (Armed (lzClock l) delay (lzSnapshot l)) l in
          if leCancelled env n then (True, l)
          else (case leaseNow env (l\<lparr>lzClock := lzClock l + delay + leLate env n\<rparr>) of (now, l) \<Rightarrow>
               (case expiredAt now l of (expired, l) \<Rightarrow>
                  if expired then (True, l)
                  else
                    let l = logEvent (Renewing now (lzSnapshot l)) l; l = setRenewing l in
                    case leRenew env n of
                      None \<Rightarrow> (False, setRenewalFailure (leJitter env n) l)
                    | Some expiresAt \<Rightarrow>
                       (case leaseNow env l of (now, l) \<Rightarrow>
                          (False, if subTime expiresAt now < leaseMinimumUsableLifetime
                                  then setRenewalFailure (leJitter env n) l
                                  else setRenewalSuccess expiresAt l)))))"

text \<open>The loop for at most \<open>k\<close> turns from turn \<open>n\<close> on.\<close>

fun leaseRun :: "nat \<Rightarrow> lease_env \<Rightarrow> nat \<Rightarrow> lease \<Rightarrow> bool \<times> lease" where
  "leaseRun 0 env n l = (False, l)"
| "leaseRun (Suc k) env n l =
     (case leaseRound env n l of
        (True, l) \<Rightarrow> (True, l)
      | (False, l) \<Rightarrow> leaseRun k env (Suc n) l)"

datatype lease_error = ErrLeaseNoExpiry | ErrLeaseNoRenew

definition StartLease :: "time \<Rightarrow> time option \<Rightarrow> bool \<Rightarrow> time \<Rightarrow> (lease_error, lease) res" where
  "StartLease expiresAt horizon hasRenew clock =
     (if expiresAt = 0 then Inl ErrLeaseNoExpiry
      else if \<not> hasRenew then Inl ErrLeaseNoRenew
      else Inr (notify
        \<lparr>lzSnapshot = \<lparr>lsState = LeaseHealthy, lsReason = [], lsCurrentExpiresAt = expiresAt, lsHorizon = horizon,
                       lsNextRetry = 0, lsAttempts = 0\<rparr>,
         lzClock = clock, lzReads = 0, lzLog = []\<rparr>))"

section \<open>The back-off\<close>

lemma duration_values [simp]:
  "leaseInitialRetry = 5 * second" "leaseMaximumRetry = 300 * second" "leaseMinimumUsableLifetime = 600 * second"
  "0 < second" "300 * second \<le> max_int"
  by (simp_all add: leaseInitialRetry_def leaseMaximumRetry_def leaseMinimumUsableLifetime_def second_def max_int_def)

lemma small_duration: "0 \<le> d \<Longrightarrow> d \<le> 600 * second \<Longrightarrow> wrap_int d = d"
  by (rule wrap_int_id) (simp_all add: min_int_def max_int_def second_def)

declare retryLoop.simps [simp del]

lemma retryLoop_closed:
  assumes "delay = 5 * second * 2 ^ k" and "delay \<le> 300 * second" and "i = int k + 1"
  shows "retryLoop i attempt delay = (if attempt \<le> i then delay else min (300 * second) (5 * second * 2 ^ nat (attempt - 1)))"
  using assms
proof (induction i attempt delay arbitrary: k rule: retryLoop.induct)
  case (1 i attempt delay)
  have pos: "0 < delay" using "1.prems"(1) by simp
  have w: "wrap_int (delay * 2) = delay * 2" using "1.prems"(2) pos by (intro small_duration) simp_all
  have next_power: "delay * 2 = 5 * second * 2 ^ Suc k" using "1.prems"(1) by simp
  have grown: "delay \<le> 5 * second * 2 ^ nat (attempt - 1)" if "i < attempt"
  proof -
    have "(2::int) ^ k \<le> 2 ^ nat (attempt - 1)" using that "1.prems"(3) by (intro power_increasing) simp_all
    then show ?thesis using "1.prems"(1) by simp
  qed
  consider "attempt \<le> i" | "i < attempt" "delay = 300 * second" | "i < attempt" "delay < 300 * second" "300 * second < delay * 2"
    | "i < attempt" "delay < 300 * second" "delay * 2 \<le> 300 * second" using "1.prems"(2) by linarith
  then show ?case
  proof cases
    case 1
    then show ?thesis by (simp add: retryLoop.simps [of i])
  next
    case 2
    then show ?thesis using grown by (simp add: retryLoop.simps [of i])
  next
    case 3
    have "Suc k \<le> nat (attempt - 1)" using 3(1) "1.prems"(3) by simp
    then have "(2::int) ^ Suc k \<le> 2 ^ nat (attempt - 1)" by (intro power_increasing) simp_all
    then have "delay * 2 \<le> 5 * second * 2 ^ nat (attempt - 1)" unfolding next_power by simp
    with 3 w show ?thesis by (simp add: retryLoop.simps [of i])
  next
    case 4
    have "retryLoop (i + 1) attempt (delay * 2)
        = (if attempt \<le> i + 1 then delay * 2 else min (300 * second) (5 * second * 2 ^ nat (attempt - 1)))"
      using 4 w "1.prems"(3) by (intro "1.IH" [where k = "Suc k"]) (simp_all add: next_power)
    moreover have "nat (attempt - 1) = Suc k" if "attempt \<le> i + 1" using that 4(1) "1.prems"(3) by simp
    ultimately show ?thesis using 4 w next_power by (simp add: retryLoop.simps [of i] Let_def min_def)
  qed
qed

text \<open>The back-off doubles from five seconds and stays at five minutes.\<close>

theorem retry_delay_doubles:
  "leaseRetryDelay attempt = (if attempt \<le> 1 then 5 * second else min (300 * second) (5 * second * 2 ^ nat (attempt - 1)))"
proof -
  have "retryLoop 1 attempt (5 * second)
      = (if attempt \<le> 1 then 5 * second else min (300 * second) (5 * second * 2 ^ nat (attempt - 1)))"
    by (rule retryLoop_closed [where k = 0]) (simp_all add: less_imp_le)
  then show ?thesis by (simp add: leaseRetryDelay_def)
qed

lemma retry_delay_range: "5 * second \<le> leaseRetryDelay attempt \<and> leaseRetryDelay attempt \<le> 300 * second"
proof -
  have "(1::int) \<le> 2 ^ n" for n :: nat by simp
  then have "second \<le> second * 2 ^ nat (attempt - 1)" by simp
  then show ?thesis
    by (simp add: leaseRetryDelay_def retryLoop_closed [where k = 0] less_imp_le)
qed

lemma boundedLeaseJitter_range:
  assumes "5 * second \<le> base" and "base \<le> 300 * second"
  shows "base \<le> boundedLeaseJitter base c \<and> boundedLeaseJitter base c \<le> 300 * second"
proof -
  have "0 < base" using assms(1) duration_values(4) by linarith
  then have "base sdiv 5 = base div 5" by (simp add: signed_divide_int_def)
  moreover have "wrap_int (base + base div 5) = base + base div 5"
    using assms by (intro small_duration) simp_all
  moreover have "0 \<le> base div 5" using assms(1) less_imp_le [of 0 second] by simp
  ultimately show ?thesis using assms by (auto simp: boundedLeaseJitter_def Let_def)
qed


section \<open>Within the deadline\<close>

definition goodRetry :: "LeaseSnapshot \<Rightarrow> bool" where
  "goodRetry s \<longleftrightarrow> (lsState s = LeaseDegraded \<longrightarrow> 5 * second \<le> lsNextRetry s \<and> lsNextRetry s \<le> 300 * second)"

definition timely :: "lease_event \<Rightarrow> bool" where
  "timely e \<longleftrightarrow>
     (case e of
        Armed t d s \<Rightarrow> t < deadline s \<and> 0 \<le> d \<and> (0 \<le> t \<longrightarrow> t + d \<le> deadline s)
      | Renewing t s \<Rightarrow> t < deadline s
      | Published s \<Rightarrow> goodRetry s)"

definition keepsTime :: "lease \<Rightarrow> bool" where
  "keepsTime l \<longleftrightarrow> goodRetry (lzSnapshot l) \<and> list_all timely (lzLog l)"

lemma keepsTime_notify [simp]: "keepsTime (notify l) = keepsTime l"
  by (auto simp: keepsTime_def notify_def logEvent_def timely_def)

lemma keepsTime_log [simp]: "keepsTime (logEvent e l) \<longleftrightarrow> keepsTime l \<and> timely e"
  by (auto simp: keepsTime_def logEvent_def)

lemma keepsTime_clock [simp]: "keepsTime (l\<lparr>lzClock := c\<rparr>) = keepsTime l" "keepsTime (l\<lparr>lzReads := n\<rparr>) = keepsTime l"
  by (simp_all add: keepsTime_def)

lemma keepsTime_snapshot: "keepsTime (l\<lparr>lzSnapshot := s\<rparr>) \<longleftrightarrow> goodRetry s \<and> list_all timely (lzLog l)"
  by (simp add: keepsTime_def)

lemma leaseNow_facts:
  assumes "leaseNow env l = (t, l')"
  shows "keepsTime l' = keepsTime l" "lzSnapshot l' = lzSnapshot l" "lzLog l' = lzLog l" "lzClock l' = t"
    "t = lzClock l + leElapsed env (lzReads l)"
  using assms by (auto simp: leaseNow_def Let_def keepsTime_def)

lemma expire_keepsTime: "keepsTime l \<Longrightarrow> keepsTime (expire reason l)"
  by (simp add: expire_def keepsTime_snapshot) (simp add: keepsTime_def goodRetry_def)

lemma expiredAt_keepsTime: "expiredAt now l = (b, l') \<Longrightarrow> keepsTime l \<Longrightarrow> keepsTime l'"
  using expire_keepsTime by (auto simp: expiredAt_def split: if_splits)

lemma expiredAt_live: "expiredAt now l = (False, l') \<Longrightarrow> l' = l \<and> now < deadline (lzSnapshot l)"
  by (auto simp: expiredAt_def deadline_def split: if_splits option.splits)

lemma expiredAt_gone:
  "expiredAt now l = (True, l') \<Longrightarrow> lsState (lzSnapshot l') = LeaseExpired \<and> last (lzLog l') = Published (lzSnapshot l')"
  by (auto simp: expiredAt_def expire_def notify_def logEvent_def split: if_splits)

lemma subTime_bounds: "b \<le> a \<Longrightarrow> 0 \<le> subTime a b \<and> subTime a b \<le> a - b"
  by (auto simp: subTime_def max_int_def min_int_def)

text \<open>An armed delay ends no later than the deadline.\<close>

lemma nextDelay_armed:
  assumes "nextDelay env l = (Some d, l')"
  shows "lzSnapshot l' = lzSnapshot l" "lzLog l' = lzLog l" "keepsTime l' = keepsTime l"
    and "lzClock l' = lzClock l + leElapsed env (lzReads l)" "lzClock l' < deadline (lzSnapshot l)" "0 \<le> d"
    and "0 \<le> lzClock l' \<Longrightarrow> lzClock l' + d \<le> deadline (lzSnapshot l)"
proof -
  obtain now l1 where now: "leaseNow env l = (now, l1)" by fastforce
  note n = leaseNow_facts [OF this]
  obtain b l2 where e: "expiredAt now l1 = (b, l2)" by fastforce
  with assms now have b: "\<not> b" and l': "l' = l2" by (auto simp: nextDelay_def Let_def split: if_splits)
  have "l2 = l1 \<and> now < deadline (lzSnapshot l1)" using expiredAt_live e b by simp
  then have l2: "l' = l1" and dl: "now < deadline (lzSnapshot l)" using l' n(2) by simp_all
  show "lzSnapshot l' = lzSnapshot l" "lzLog l' = lzLog l" "keepsTime l' = keepsTime l"
    "lzClock l' = lzClock l + leElapsed env (lzReads l)" "lzClock l' < deadline (lzSnapshot l)"
    using n l2 dl by simp_all
  have "0 \<le> subTime (deadline (lzSnapshot l)) now \<and> subTime (deadline (lzSnapshot l)) now \<le> deadline (lzSnapshot l) - now"
    using dl by (intro subTime_bounds) simp
  then show "0 \<le> d" and "0 \<le> lzClock l' \<Longrightarrow> lzClock l' + d \<le> deadline (lzSnapshot l)"
    using assms now e b n(4) l2 dl by (auto simp: nextDelay_def Let_def split: if_splits)
qed

lemma nextDelay_keepsTime: "nextDelay env l = (r, l') \<Longrightarrow> keepsTime l \<Longrightarrow> keepsTime l'"
  using leaseNow_facts(1) expiredAt_keepsTime
  by (fastforce simp: nextDelay_def Let_def split: prod.splits if_splits)

lemma setRenewing_keepsTime: "keepsTime l \<Longrightarrow> keepsTime (setRenewing l)"
  by (simp add: setRenewing_def keepsTime_snapshot) (simp add: keepsTime_def goodRetry_def)

lemma setRenewalFailure_keepsTime: "keepsTime l \<Longrightarrow> keepsTime (setRenewalFailure j l)"
proof -
  let ?base = "leaseRetryDelay (wrap_int (lsAttempts (lzSnapshot l) + 1))"
  have "5 * second \<le> boundedLeaseJitter ?base (j ?base) \<and> boundedLeaseJitter ?base (j ?base) \<le> 300 * second"
    using retry_delay_range boundedLeaseJitter_range by (meson order_trans)
  moreover assume "keepsTime l"
  ultimately show ?thesis
    by (simp add: setRenewalFailure_def Let_def keepsTime_snapshot) (simp add: keepsTime_def goodRetry_def)
qed

lemma setRenewalSuccess_keepsTime: "keepsTime l \<Longrightarrow> keepsTime (setRenewalSuccess e l)"
  by (simp add: setRenewalSuccess_def keepsTime_snapshot) (simp add: keepsTime_def goodRetry_def)

lemma leaseRound_keepsTime:
  assumes "leaseRound env n l = (b, l')" and "keepsTime l"
  shows "keepsTime l'"
proof (cases "nextDelay env l")
  case (Pair r l1)
  show ?thesis
  proof (cases r)
    case None
    with Pair assms nextDelay_keepsTime show ?thesis by (auto simp: leaseRound_def)
  next
    case (Some d)
    note a = nextDelay_armed [OF Pair [unfolded Some]]
    define l2 where "l2 = logEvent (Armed (lzClock l1) d (lzSnapshot l1)) l1"
    have l2: "keepsTime l2" using a assms(2) by (simp add: l2_def timely_def)
    obtain now l3 where now: "leaseNow env (l2\<lparr>lzClock := lzClock l2 + d + leLate env n\<rparr>) = (now, l3)" by fastforce
    have l3: "keepsTime l3" using leaseNow_facts(1) [OF now] l2 by simp
    obtain x l4 where x: "expiredAt now l3 = (x, l4)" by fastforce
    show ?thesis
    proof (cases "leCancelled env n \<or> x")
      case True
      with assms(1) Pair Some now x l2 expiredAt_keepsTime [OF x l3] show ?thesis
        by (auto simp: leaseRound_def Let_def l2_def [symmetric] split: if_splits)
    next
      case False
      define l5 where "l5 = setRenewing (logEvent (Renewing now (lzSnapshot l4)) l4)"
      have "keepsTime l5" using expiredAt_live [of now l3 l4] x False l3 by (auto simp: l5_def timely_def intro!: setRenewing_keepsTime)
      with False assms(1) Pair Some now x show ?thesis
        by (auto simp: leaseRound_def Let_def l2_def [symmetric] l5_def [symmetric] leaseNow_facts(1)
            intro!: setRenewalFailure_keepsTime setRenewalSuccess_keepsTime split: option.splits prod.splits if_splits)
    qed
  qed
qed

lemma leaseRun_keepsTime: "leaseRun k env n l = (b, l') \<Longrightarrow> keepsTime l \<Longrightarrow> keepsTime l'"
  by (induction k env n l rule: leaseRun.induct) (auto split: prod.splits bool.splits dest: leaseRound_keepsTime)


definition sampleLeaseEnv :: lease_env where
  "sampleLeaseEnv =
     \<lparr>leElapsed = (\<lambda>_. 7), leLate = (\<lambda>_. 3), leRenew = (\<lambda>n. if n = 0 then Some (3000 * second) else None),
      leJitter = (\<lambda>_ d. d + 1), leCancelled = (\<lambda>_. False)\<rparr>"


section \<open>Termination\<close>

definition forward :: "lease_env \<Rightarrow> bool" where
  "forward env \<longleftrightarrow> (\<forall>n. 0 \<le> leElapsed env n \<and> 0 \<le> leLate env n)"

text \<open>The state after a turn: the next timer is some seconds long.\<close>

definition rested :: "lease \<Rightarrow> bool" where
  "rested l \<longleftrightarrow>
     (let s = lzSnapshot l; x = lsCurrentExpiresAt s - lzClock l in
      lsState s = LeaseDegraded \<and> 5 * second \<le> lsNextRetry s
      \<or> lsState s = LeaseHealthy \<and> 600 * second \<le> x \<and> 2 * x \<le> max_int)"

lemma twoThirds_exact: "0 \<le> x \<Longrightarrow> 2 * x \<le> max_int \<Longrightarrow> twoThirds x = 2 * x div 3"
  using wrap_int_id [of "2 * x"] by (cases "x = 0") (simp_all add: twoThirds_def min_int_def signed_divide_int_def mult.commute)

lemma subTime_exact: "0 \<le> a - b \<Longrightarrow> a - b \<le> max_int \<Longrightarrow> subTime a b = a - b"
  by (simp add: subTime_def min_int_def)

lemma second_value: "second = 1000000000" by (simp add: second_def)

lemma nextDelay_waits:
  assumes "nextDelay env l = (Some d, l')" and "forward env" and "rested l"
  shows "lzClock l + 5 * second \<le> lzClock l' + d \<or> deadline (lzSnapshot l) \<le> lzClock l' + d"
proof -
  note a = nextDelay_armed [OF assms(1)]
  let ?s = "lzSnapshot l" and ?now = "lzClock l'"
  have late: "lzClock l \<le> ?now" using a(4) assms(2) by (simp add: forward_def)
  define wait where "wait = (if lsState ?s = LeaseDegraded \<and> 0 < lsNextRetry ?s then lsNextRetry ?s
      else twoThirds (subTime (lsCurrentExpiresAt ?s) ?now))"
  have wait: "lzClock l + 5 * second \<le> ?now + wait"
  proof (cases "lsState ?s = LeaseDegraded")
    case True
    with assms(3) have "5 * second \<le> lsNextRetry ?s" by (simp add: rested_def Let_def)
    moreover from this have "0 < lsNextRetry ?s" using duration_values(4) by linarith
    ultimately show ?thesis using True late by (simp add: wait_def)
  next
    case False
    let ?x = "lsCurrentExpiresAt ?s - ?now"
    have x: "600 * second \<le> lsCurrentExpiresAt ?s - lzClock l" "2 * (lsCurrentExpiresAt ?s - lzClock l) \<le> max_int"
      using assms(3) False by (simp_all add: rested_def Let_def)
    have "0 \<le> ?x" using a(5) by (auto simp: deadline_def split: option.splits if_splits)
    moreover have "2 * ?x \<le> max_int" using x(2) late by simp
    ultimately have "wait = 2 * ?x div 3" using False
      by (simp add: wait_def subTime_exact twoThirds_exact)
    then show ?thesis using x(1) late by (simp add: second_value)
  qed
  obtain now l1 where n: "leaseNow env l = (now, l1)" by fastforce
  obtain b l2 where e: "expiredAt now l1 = (b, l2)" by fastforce
  with assms(1) n have b: "\<not> b" "l' = l2" by (auto simp: nextDelay_def Let_def split: if_splits)
  with expiredAt_live [of now l1 l2] e leaseNow_facts(4) [OF n] have now: "now = ?now" by simp
  from assms(1) n e b now have d: "d = (if deadline ?s \<noteq> 0 \<and> ?now + max 0 wait > deadline ?s then subTime (deadline ?s) ?now
      else max 0 wait)"
    by (auto simp: nextDelay_def Let_def wait_def max_def split: if_splits)
  show ?thesis
  proof (cases "deadline ?s \<noteq> 0 \<and> ?now + max 0 wait > deadline ?s")
    case False
    with d wait show ?thesis by auto
  next
    case True
    then have d': "d = subTime (deadline ?s) ?now" using d by simp
    show ?thesis
    proof (cases "deadline ?s - ?now \<le> max_int")
      case True
      then have "d = deadline ?s - ?now" using d' a(5) by (simp add: subTime_exact)
      then show ?thesis by simp
    next
      case False
      then have "d = max_int" using d' by (simp add: subTime_def min_int_def max_int_def)
      then show ?thesis using late by (simp add: second_value max_int_def)
    qed
  qed
qed

lemma setRenewalFailure_rested: "rested (setRenewalFailure j l)"
proof -
  let ?base = "leaseRetryDelay (wrap_int (lsAttempts (lzSnapshot l) + 1))"
  have "5 * second \<le> boundedLeaseJitter ?base (j ?base)"
    using retry_delay_range boundedLeaseJitter_range by (meson order_trans)
  then show ?thesis by (simp add: rested_def setRenewalFailure_def Let_def notify_def logEvent_def)
qed

lemma lease_frames [simp]:
  "lsHorizon (lzSnapshot (setRenewalFailure j l)) = lsHorizon (lzSnapshot l)"
  "lsHorizon (lzSnapshot (setRenewalSuccess e l)) = lsHorizon (lzSnapshot l)"
  "lsHorizon (lzSnapshot (setRenewing l)) = lsHorizon (lzSnapshot l)"
  "lzSnapshot (logEvent ev l) = lzSnapshot l"
  "lzClock (setRenewalFailure j l) = lzClock l" "lzClock (setRenewalSuccess e l) = lzClock l"
  "lzClock (setRenewing l) = lzClock l" "lzClock (logEvent ev l) = lzClock l" "lzReads (logEvent ev l) = lzReads l"
  by (simp_all add: setRenewalFailure_def setRenewalSuccess_def setRenewing_def notify_def logEvent_def Let_def)

lemma deadline_horizon: "lsHorizon s = Some h \<Longrightarrow> deadline s \<le> h"
  by (auto simp: deadline_def)

text \<open>A turn that goes on has advanced the clock, and has done so by five seconds when the one before
  it went on too.\<close>

lemma leaseRound_progress:
  assumes run: "leaseRound env n l = (False, l')" and fw: "forward env"
    and far: "\<forall>n e. leRenew env n = Some e \<longrightarrow> 2 * (e - lzClock l) \<le> max_int"
  shows "rested l' \<and> lzClock l \<le> lzClock l' \<and> lsHorizon (lzSnapshot l') = lsHorizon (lzSnapshot l)
     \<and> (rested l \<longrightarrow> lzClock l + 5 * second \<le> lzClock l' \<and> lzClock l + 5 * second < deadline (lzSnapshot l))"
proof -
  obtain d l1 where nd: "nextDelay env l = (Some d, l1)" "\<not> leCancelled env n"
    using run by (auto simp: leaseRound_def Let_def split: prod.splits option.splits if_splits)
  note a = nextDelay_armed [OF nd(1)]
  define l2 where "l2 = (logEvent (Armed (lzClock l1) d (lzSnapshot l1)) l1)\<lparr>lzClock := lzClock l1 + d + leLate env n\<rparr>"
  obtain now l3 where now: "leaseNow env l2 = (now, l3)" by fastforce
  note m = leaseNow_facts [OF this]
  obtain b l4 where e: "expiredAt now l3 = (b, l4)" by fastforce
  have b: "\<not> b" using run nd now e by (auto simp: leaseRound_def Let_def l2_def [symmetric] split: if_splits)
  have l2: "lzSnapshot l2 = lzSnapshot l" "lzClock l2 = lzClock l1 + d + leLate env n" using a by (simp_all add: l2_def)
  have l4: "l4 = l3" "now < deadline (lzSnapshot l)" using expiredAt_live [of now l3 l4] e b m(2) l2 by simp_all
  have nw: "lzClock l1 + d \<le> now" using m(5) l2(2) fw by (simp add: forward_def)
  have late: "lzClock l \<le> lzClock l1" using a(4) fw by (simp add: forward_def)
  define l5 where "l5 = setRenewing (logEvent (Renewing now (lzSnapshot l4)) l4)"
  have l5: "lzClock l5 = now" "lsHorizon (lzSnapshot l5) = lsHorizon (lzSnapshot l)"
    using m l2 l4 by (simp_all add: l5_def)
  have stop: "lzClock l + 5 * second \<le> now \<and> lzClock l + 5 * second < deadline (lzSnapshot l)" if "rested l"
    using nextDelay_waits [OF nd(1) fw that] nw l4(2) by auto
  have rest: "(case leRenew env n of None \<Rightarrow> (False, setRenewalFailure (leJitter env n) l5)
      | Some expiresAt \<Rightarrow> (case leaseNow env l5 of (now, l) \<Rightarrow>
          (False, if subTime expiresAt now < leaseMinimumUsableLifetime then setRenewalFailure (leJitter env n) l
                  else setRenewalSuccess expiresAt l))) = (False, l')"
    using run nd now e b unfolding l5_def by (simp add: leaseRound_def Let_def l2_def [symmetric])
  show ?thesis
  proof (cases "leRenew env n")
    case None
    then have "l' = setRenewalFailure (leJitter env n) l5" using rest by simp
    then show ?thesis using l5 nw late a(6) stop setRenewalFailure_rested by (auto simp: add_increasing2)
  next
    case (Some x)
    obtain t l6 where l6: "leaseNow env l5 = (t, l6)" by fastforce
    note q = leaseNow_facts [OF this]
    have t: "now \<le> t" using q(5) l5(1) fw by (simp add: forward_def)
    have l': "l' = (if subTime x t < 600 * second then setRenewalFailure (leJitter env n) l6 else setRenewalSuccess x l6)"
      using rest Some l6 by simp
    have clock: "lzClock l' = t" "lsHorizon (lzSnapshot l') = lsHorizon (lzSnapshot l)"
      using l' q l5 by simp_all
    have "rested (setRenewalSuccess x l6)" if "\<not> subTime x t < 600 * second"
    proof -
      have "600 * second \<le> x - t" using that by (auto simp: subTime_def second_value max_int_def min_int_def)
      moreover have "2 * (x - t) \<le> max_int" using far Some nw late t a(6) by (smt (verit))
      ultimately show ?thesis using q(4)
        by (simp add: rested_def setRenewalSuccess_def notify_def logEvent_def)
    qed
    then have "rested l'" using l' setRenewalFailure_rested by simp
    then show ?thesis using clock nw late a(6) stop t by auto
  qed
qed

lemma leaseRound_ended:
  assumes "leaseRound env n l = (True, l')"
  shows "leCancelled env n \<or> lsState (lzSnapshot l') = LeaseExpired \<and> last (lzLog l') = Published (lzSnapshot l')"
  using assms expiredAt_gone
  by (fastforce simp: leaseRound_def nextDelay_def Let_def split: prod.splits option.splits if_splits)

lemma leaseRun_ends:
  assumes "forward env" and "rested l" and "lsHorizon (lzSnapshot l) = Some h" and "h - lzClock l \<le> 5 * second * int k"
    and "\<forall>n e. leRenew env n = Some e \<longrightarrow> 2 * (e - lzClock l) \<le> max_int"
  shows "\<exists>l'. leaseRun (Suc k) env n l = (True, l')"
  using assms
proof (induction k arbitrary: n l)
  case (0 n l)
  have "\<not> (\<exists>l'. leaseRound env n l = (False, l'))"
  proof
    assume "\<exists>l'. leaseRound env n l = (False, l')"
    then obtain l' where "leaseRound env n l = (False, l')" ..
    from leaseRound_progress [OF this 0(1,5)] 0(2) have "lzClock l + 5 * second < deadline (lzSnapshot l)" by simp
    with deadline_horizon [OF 0(3)] 0(4) duration_values(4) show False by simp
  qed
  then show ?case by (cases "leaseRound env n l") auto
next
  case (Suc k n l)
  show ?case
  proof (cases "leaseRound env n l")
    case (Pair b l')
    show ?thesis
    proof (cases b)
      case False
      then have "leaseRound env n l = (False, l')" using Pair by simp
      note p = leaseRound_progress [OF this Suc.prems(1,5)]
      have "\<exists>l''. leaseRun (Suc k) env (Suc n) l' = (True, l'')"
      proof (rule Suc.IH)
        show "h - lzClock l' \<le> 5 * second * int k" using p Suc.prems(2,4) by (simp add: algebra_simps)
        show "\<forall>n e. leRenew env n = Some e \<longrightarrow> 2 * (e - lzClock l') \<le> max_int" using p Suc.prems(5) by fastforce
      qed (use p Suc.prems in simp_all)
      then show ?thesis using Pair False by simp
    qed (use Pair in simp)
  qed
qed

lemma leaseRun_final:
  "leaseRun k env n l = (True, l') \<Longrightarrow> (\<forall>n. \<not> leCancelled env n)
   \<Longrightarrow> lsState (lzSnapshot l') = LeaseExpired \<and> last (lzLog l') = Published (lzSnapshot l')"
  by (induction k env n l rule: leaseRun.induct) (auto split: prod.splits bool.splits dest: leaseRound_ended)

text \<open>(C26) A lease with a horizon ends. If the clock does not run backwards and no renewal answers with an
  expiry so far away that its distance from the start overflows when doubled (some 146 years), then the loop returns
  after at most one turn per five seconds up to the horizon and three more. It leaves the expired state, published,
  unless it was cancelled.\<close>

theorem lease_with_horizon_ends:
  assumes "StartLease expiresAt (Some h) hasRenew clock = Inr l" and "forward env"
    and "\<forall>n e. leRenew env n = Some e \<longrightarrow> 2 * (e - clock) \<le> max_int"
  shows "\<exists>l'. leaseRun (nat ((h - clock) div (5 * second)) + 3) env 0 l = (True, l')
     \<and> ((\<forall>n. \<not> leCancelled env n) \<longrightarrow>
          lsState (lzSnapshot l') = LeaseExpired \<and> last (lzLog l') = Published (lzSnapshot l'))"
proof -
  let ?k = "nat ((h - clock) div (5 * second)) + 1"
  have l: "lzClock l = clock" "lsHorizon (lzSnapshot l) = Some h"
    using assms(1) by (auto simp: StartLease_def notify_def logEvent_def split: if_splits)
  have "\<exists>l'. leaseRun (Suc (Suc ?k)) env 0 l = (True, l')"
  proof (cases "leaseRound env 0 l")
    case (Pair b l1)
    show ?thesis
    proof (cases b)
      case False
      have far: "\<forall>n e. leRenew env n = Some e \<longrightarrow> 2 * (e - lzClock l) \<le> max_int" using assms(3) l by simp
      have "leaseRound env 0 l = (False, l1)" using Pair False by simp
      note p = leaseRound_progress [OF this assms(2) far]
      have "h - clock < 5 * second * ((h - clock) div (5 * second)) + 5 * second"
        by (simp add: second_value)
      also have "\<dots> \<le> 5 * second * int ?k" using duration_values(4) by (simp add: algebra_simps)
      finally have "h - lzClock l1 \<le> 5 * second * int ?k" using p l by simp
      moreover have "\<forall>n e. leRenew env n = Some e \<longrightarrow> 2 * (e - lzClock l1) \<le> max_int" using p far by fastforce
      ultimately have "\<exists>l'. leaseRun (Suc ?k) env (Suc 0) l1 = (True, l')"
        using p l by (intro leaseRun_ends [OF assms(2)]) simp_all
      then show ?thesis using Pair False by simp
    qed (use Pair in simp)
  qed
  then obtain l' where run: "leaseRun (Suc (Suc ?k)) env 0 l = (True, l')" ..
  have turns: "nat ((h - clock) div (5 * second)) + 3 = Suc (Suc ?k)" by simp
  show ?thesis unfolding turns using run leaseRun_final [OF run] by blast
qed

theorem lease_with_horizon_ends_witness:
  "\<exists>l l'. StartLease (900 * second) (Some (2000 * second)) True second = Inr l
     \<and> leaseRun 402 sampleLeaseEnv 0 l = (True, l') \<and> lsState (lzSnapshot l') = LeaseExpired"
proof -
  obtain l where l: "StartLease (900 * second) (Some (2000 * second)) True second = Inr l"
    by (simp add: StartLease_def second_def)
  have "forward sampleLeaseEnv" by (simp add: forward_def sampleLeaseEnv_def)
  moreover have "\<forall>n e. leRenew sampleLeaseEnv n = Some e \<longrightarrow> 2 * (e - second) \<le> max_int"
    by (simp add: sampleLeaseEnv_def second_def max_int_def)
  ultimately have "\<exists>l'. leaseRun (nat ((2000 * second - second) div (5 * second)) + 3) sampleLeaseEnv 0 l = (True, l')
     \<and> ((\<forall>n. \<not> leCancelled sampleLeaseEnv n) \<longrightarrow>
          lsState (lzSnapshot l') = LeaseExpired \<and> last (lzLog l') = Published (lzSnapshot l'))"
    by (rule lease_with_horizon_ends [OF l])
  moreover have "nat ((2000 * second - second) div (5 * second)) + 3 = 402" by (simp add: second_def)
  moreover have "\<forall>n. \<not> leCancelled sampleLeaseEnv n" by (simp add: sampleLeaseEnv_def)
  ultimately show ?thesis using l by auto
qed

text \<open>An expiry that far away is renewed without any pause.\<close>

theorem far_expiry_renews_at_once:
  assumes "2 ^ 62 \<le> lsCurrentExpiresAt (lzSnapshot l) - (lzClock l + leElapsed env (lzReads l))"
    and "lsState (lzSnapshot l) = LeaseHealthy" and "lsHorizon (lzSnapshot l) = None"
  shows "fst (nextDelay env l) = Some 0"
proof -
  let ?now = "lzClock l + leElapsed env (lzReads l)"
  let ?x = "subTime (lsCurrentExpiresAt (lzSnapshot l)) ?now"
  have x: "2 ^ 62 \<le> ?x" "?x \<le> 2 ^ 63 - 1" using assms(1) by (simp_all add: subTime_def max_int_def min_int_def)
  define y where "y = ?x * 2 + 2 ^ 63 - 2 ^ 64"
  have "(y + 2 ^ 64) mod 2 ^ 64 = y mod 2 ^ 64" by (rule mod_add_self2)
  also have "\<dots> = y" using x by (intro mod_pos_pos_trivial) (simp_all add: y_def)
  finally have "(y + 2 ^ 64) mod 2 ^ 64 = y" .
  moreover have "?x * 2 + 2 ^ 63 = y + 2 ^ 64" by (simp add: y_def)
  ultimately have "wrap_int (?x * 2) = y - 2 ^ 63" unfolding wrap_int_def by (simp only:)
  then have "wrap_int (?x * 2) < 0" using x by (simp add: y_def)
  then have "twoThirds ?x \<le> 0" by (simp add: twoThirds_def signed_divide_int_def)
  moreover have "?now < lsCurrentExpiresAt (lzSnapshot l)" using assms(1) by simp
  ultimately show ?thesis using assms(2,3)
    by (auto simp: nextDelay_def leaseNow_def expiredAt_def deadline_def Let_def)
qed

end
