(* ===== verification/Promotion.thy ===== *)
theory Promotion
  imports SessionRecord
begin

text \<open>
  The decision kernel of \<open>promotion/promotion.go\<close>: a plan to turn an ad-hoc session into a new profile,
  prepared from snapshots of the session and of the policy, and checked again before it is applied.
  The laws say what a prepared plan contains and when its check accepts.
\<close>

section \<open>Data\<close>

text \<open>\<open>ErrGrantAbsent\<close> wraps \<open>ErrInvalidRequest\<close> with the id of the grant.\<close>

datatype promotion_error =
  ErrIneligibleSource | ErrTargetExists | ErrInvalidRequest | ErrGrantAbsent string
| ErrStaleSource | ErrStalePolicy | ErrApplyRunning | ErrInvalidCandidate

definition PlanVersion :: int where "PlanVersion = 1"
definition RendererVersion :: int where "RendererVersion = 1"
definition SchemaVersion :: int where "SchemaVersion = 1"

record PromotionGrant =
  pgID :: string
  pgHost :: string
  pgPort :: int

record SourceSnapshot =
  ssID :: string
  ssAdHoc :: bool
  ssStatus :: session_status
  ssETag :: string
  ssGrantRevision :: int
  ssGrants :: "PromotionGrant list"

record PolicySnapshot =
  pyExists :: bool
  pyHash :: string
  pyProfiles :: "string list"
  pyBuiltins :: "string list"

record PromotionRequest =
  rqTargetName :: string
  rqGrantIDs :: "string list"

record PromotionRule =
  ruHost :: string
  ruPort :: int

record PlanIntent =
  piVersion :: int
  piSource :: SourceSnapshot
  piPolicy :: PolicySnapshot
  piTargetName :: string
  piTargetPolicyPath :: string
  piSelectedGrantIDs :: "string list"
  piRules :: "PromotionRule list"
  piCandidateHash :: string
  piRendererVersion :: int
  piSchemaVersion :: int

datatype promotion_effect = EffectReadSource | EffectReadPolicy | EffectValidate | EffectReplace | EffectReport

datatype promotion_phase =
  PhasePreview | PhasePrepared | PhaseApplying | PhaseApplied | PhaseFailed | PhaseCommitUncertain

datatype commit_outcome = CommitKnownFailed | CommitKnownCommitted | CommitUnknown

record PromotionState =
  pmPhase :: promotion_phase
  pmPlan :: PlanIntent

record PromotionEvent =
  evSource :: SourceSnapshot
  evPolicy :: PolicySnapshot
  evCandidateHash :: string
  evValid :: bool
  evCommit :: commit_outcome

section \<open>Preparing\<close>

definition validPreviewStatus :: "session_status \<Rightarrow> bool" where
  "validPreviewStatus status \<longleftrightarrow> status = StatusCreated \<or> status = StatusRunning \<or> status = StatusStopped"

definition targetFree :: "string \<Rightarrow> PolicySnapshot \<Rightarrow> bool" where
  "targetFree name p \<longleftrightarrow> name \<notin> set (pyProfiles p) \<and> name \<notin> set (pyBuiltins p)"

definition ruleOf :: "PromotionGrant \<Rightarrow> PromotionRule" where
  "ruleOf g = \<lparr>ruHost = pgHost g, ruPort = pgPort g\<rparr>"

definition putGrant :: "(string \<rightharpoonup> PromotionGrant) \<Rightarrow> PromotionGrant \<Rightarrow> (string \<rightharpoonup> PromotionGrant)" where
  "putGrant byID g = byID(pgID g \<mapsto> g)"

text \<open>The loop that fills \<open>byID\<close>.\<close>

fun indexGrants ::
  "PromotionGrant list \<Rightarrow> (string \<rightharpoonup> PromotionGrant) \<Rightarrow> (promotion_error, string \<rightharpoonup> PromotionGrant) res" where
  "indexGrants [] byID = Inr byID"
| "indexGrants (g # gs) byID =
     (if pgID g = [] \<or> pgHost g = [] \<or> pgPort g = 0 then Inl ErrInvalidRequest
      else if byID (pgID g) \<noteq> None then Inl ErrInvalidRequest
      else indexGrants gs (putGrant byID g))"

text \<open>The loop over the selection, with the ids and the destinations seen so far.\<close>

fun selectRules ::
  "(string \<rightharpoonup> PromotionGrant) \<Rightarrow> string list \<Rightarrow> PromotionRule list \<Rightarrow> string list
   \<Rightarrow> (promotion_error, PromotionRule list) res" where
  "selectRules byID selectedIDs rules [] = Inr rules"
| "selectRules byID selectedIDs rules (i # is) =
     (if i \<in> set selectedIDs then Inl ErrInvalidRequest
      else case byID i of
        None \<Rightarrow> Inl (ErrGrantAbsent i)
      | Some g \<Rightarrow>
          if ruleOf g \<in> set rules then Inl ErrInvalidRequest
          else selectRules byID (i # selectedIDs) (rules @ [ruleOf g]) is)"

definition Prepare ::
  "PromotionRequest \<Rightarrow> SourceSnapshot \<Rightarrow> PolicySnapshot \<Rightarrow> string \<Rightarrow> (promotion_error, PlanIntent) res" where
  "Prepare request source policy candidateHash =
     (if \<not> ssAdHoc source then Inl ErrIneligibleSource
      else if ssID source = [] \<or> ssETag source = [] \<or> ssGrantRevision source < 0 \<or> candidateHash = []
              \<or> rqTargetName request = []
      then Inl ErrInvalidRequest
      else if \<not> validPreviewStatus (ssStatus source) \<or> \<not> targetFree (rqTargetName request) policy
      then (if \<not> targetFree (rqTargetName request) policy then Inl ErrTargetExists else Inl ErrInvalidRequest)
      else rbind (indexGrants (ssGrants source) (\<lambda>_. None)) (\<lambda>byID.
           rbind (selectRules byID [] [] (rqGrantIDs request)) (\<lambda>rules.
           Inr \<lparr>piVersion = PlanVersion, piSource = source, piPolicy = policy,
                piTargetName = rqTargetName request, piTargetPolicyPath = [],
                piSelectedGrantIDs = rqGrantIDs request, piRules = rules, piCandidateHash = candidateHash,
                piRendererVersion = RendererVersion, piSchemaVersion = SchemaVersion\<rparr>)))"

section \<open>Checking before the apply\<close>

definition samePromotionEvidence :: "SourceSnapshot \<Rightarrow> SourceSnapshot \<Rightarrow> bool" where
  "samePromotionEvidence want got \<longleftrightarrow>
     ssID want = ssID got \<and> ssAdHoc want = ssAdHoc got \<and> ssETag want = ssETag got
   \<and> ssGrantRevision want = ssGrantRevision got \<and> ssGrants want = ssGrants got"

definition samePolicyEvidence :: "PolicySnapshot \<Rightarrow> PolicySnapshot \<Rightarrow> bool" where
  "samePolicyEvidence want got \<longleftrightarrow> pyExists want = pyExists got \<and> pyHash want = pyHash got"

definition lastByID :: "PromotionGrant list \<Rightarrow> (string \<rightharpoonup> PromotionGrant)" where
  "lastByID gs = foldl putGrant (\<lambda>_. None) gs"

fun matchRules :: "(string \<rightharpoonup> PromotionGrant) \<Rightarrow> string list \<Rightarrow> string list \<Rightarrow> PromotionRule list \<Rightarrow> bool" where
  "matchRules byID seen (i # is) (r # rs) =
     (case byID i of
        None \<Rightarrow> False
      | Some g \<Rightarrow> i \<notin> set seen \<and> r = ruleOf g \<and> matchRules byID (i # seen) is rs)"
| "matchRules byID seen is rs = True"

definition matchesSelectedRules :: "PlanIntent \<Rightarrow> bool" where
  "matchesSelectedRules plan \<longleftrightarrow>
     length (piSelectedGrantIDs plan) = length (piRules plan)
   \<and> matchRules (lastByID (ssGrants (piSource plan))) [] (piSelectedGrantIDs plan) (piRules plan)"

definition CheckApply ::
  "PlanIntent \<Rightarrow> SourceSnapshot \<Rightarrow> PolicySnapshot \<Rightarrow> string \<Rightarrow> bool \<Rightarrow> (promotion_error, promotion_effect) res" where
  "CheckApply plan source policy candidateHash valid =
     (if \<not> valid \<or> candidateHash = [] \<or> candidateHash \<noteq> piCandidateHash plan then Inl ErrInvalidCandidate
      else if piVersion plan \<noteq> PlanVersion \<or> piRendererVersion plan \<noteq> RendererVersion
              \<or> piSchemaVersion plan \<noteq> SchemaVersion \<or> \<not> ssAdHoc (piSource plan)
              \<or> \<not> targetFree (piTargetName plan) policy
      then Inl ErrInvalidRequest
      else if \<not> samePromotionEvidence (piSource plan) source then Inl ErrStaleSource
      else if ssStatus source \<noteq> StatusCreated \<and> ssStatus source \<noteq> StatusStopped then Inl ErrApplyRunning
      else if \<not> samePolicyEvidence (piPolicy plan) policy then Inl ErrStalePolicy
      else if \<not> matchesSelectedRules plan then Inl ErrInvalidRequest
      else Inr EffectReplace)"

text \<open>The reducer.\<close>

definition PromotionStep :: "PromotionState \<Rightarrow> PromotionEvent \<Rightarrow> PromotionState \<times> promotion_effect list" where
  "PromotionStep state event =
     (let goTo = (\<lambda>phase. \<lparr>pmPhase = phase, pmPlan = pmPlan state\<rparr>) in
      case pmPhase state of
        PhasePreview \<Rightarrow> (goTo PhasePrepared, [EffectReadSource, EffectReadPolicy, EffectValidate])
      | PhasePrepared \<Rightarrow>
          (case CheckApply (pmPlan state) (evSource event) (evPolicy event) (evCandidateHash event) (evValid event) of
             Inl _ \<Rightarrow> (goTo PhaseFailed, [EffectReport])
           | Inr _ \<Rightarrow>
               (case evCommit event of
                  CommitKnownCommitted \<Rightarrow> (goTo PhaseApplied, [EffectReplace, EffectReport])
                | CommitUnknown \<Rightarrow> (goTo PhaseCommitUncertain, [EffectReplace, EffectReport])
                | _ \<Rightarrow> (goTo PhaseFailed, [EffectReport])))
      | _ \<Rightarrow> (state, [EffectReport]))"

section \<open>What a prepared plan contains\<close>

lemma putGrant_apply: "putGrant m g i = (if i = pgID g then Some g else m i)"
  by (simp add: putGrant_def)

lemma indexGrants_Inr:
  "indexGrants gs m = Inr byID \<Longrightarrow>
     distinct (map pgID gs) \<and> (\<forall>g \<in> set gs. m (pgID g) = None \<and> pgID g \<noteq> [] \<and> pgHost g \<noteq> [] \<and> pgPort g \<noteq> 0)
     \<and> byID = foldl putGrant m gs"
proof (induction gs m rule: indexGrants.induct)
  case (2 g gs m)
  from "2.prems" have g: "pgID g \<noteq> []" "pgHost g \<noteq> []" "pgPort g \<noteq> 0" "m (pgID g) = None"
    "indexGrants gs (putGrant m g) = Inr byID" by (auto split: if_splits)
  have "distinct (map pgID gs) \<and> (\<forall>x \<in> set gs. putGrant m g (pgID x) = None \<and> pgID x \<noteq> [] \<and> pgHost x \<noteq> [] \<and> pgPort x \<noteq> 0)
     \<and> byID = foldl putGrant (putGrant m g) gs"
    by (rule "2.IH") (use g in simp_all)
  then have "\<forall>x \<in> set gs. putGrant m g (pgID x) = None \<and> pgID x \<noteq> [] \<and> pgHost x \<noteq> [] \<and> pgPort x \<noteq> 0"
    "distinct (map pgID gs)" "byID = foldl putGrant m (g # gs)" by simp_all
  moreover from this(1) have "\<forall>x \<in> set gs. pgID x \<noteq> pgID g \<and> m (pgID x) = None"
    by (auto simp: putGrant_apply split: if_splits)
  ultimately show ?case using g(1-4) by auto
qed simp

lemma foldl_index_dom:
  "foldl putGrant m gs i = Some g \<Longrightarrow> m i = Some g \<or> g \<in> set gs \<and> pgID g = i"
  by (induction gs arbitrary: m) (fastforce simp: putGrant_apply split: if_splits)+

lemma lastByID_mem: "lastByID gs i = Some g \<Longrightarrow> g \<in> set gs \<and> pgID g = i"
  using foldl_index_dom by (fastforce simp: lastByID_def)

lemma selectRules_Inr:
  assumes "selectRules byID seen rs0 is = Inr rs" and "distinct rs0"
  shows "distinct rs \<and> distinct is \<and> set is \<inter> set seen = {}
     \<and> (\<exists>gs. map byID is = map Some gs \<and> rs = rs0 @ map ruleOf gs)"
  using assms
proof (induction byID seen rs0 "is" rule: selectRules.induct)
  case (2 byID seen rs0 i "is")
  from "2.prems"(1) obtain g where g: "i \<notin> set seen" "byID i = Some g" "ruleOf g \<notin> set rs0"
    "selectRules byID (i # seen) (rs0 @ [ruleOf g]) is = Inr rs" by (auto split: if_splits option.splits)
  have ih: "distinct rs \<and> distinct is \<and> set is \<inter> set (i # seen) = {}
     \<and> (\<exists>gs. map byID is = map Some gs \<and> rs = (rs0 @ [ruleOf g]) @ map ruleOf gs)"
    by (rule "2.IH") (use g "2.prems"(2) in simp_all)
  then obtain gs where gs: "map byID is = map Some gs" "rs = rs0 @ map ruleOf (g # gs)" by auto
  have "map byID (i # is) = map Some (g # gs)" using gs g by simp
  moreover have "distinct rs" "distinct (i # is)" "set (i # is) \<inter> set seen = {}" using ih g(1) by auto
  ultimately show ?case using gs(2) by (intro conjI exI [of _ "g # gs"])
qed auto

lemma Prepare_Inr:
  assumes "Prepare request source policy h = Inr plan"
  obtains gs where "piRules plan = map ruleOf gs" "map (lastByID (ssGrants source)) (rqGrantIDs request) = map Some gs"
    and "distinct (piRules plan)" "distinct (rqGrantIDs request)" "distinct (map pgID (ssGrants source))"
    and "plan = \<lparr>piVersion = PlanVersion, piSource = source, piPolicy = policy,
                piTargetName = rqTargetName request, piTargetPolicyPath = [],
                piSelectedGrantIDs = rqGrantIDs request, piRules = piRules plan, piCandidateHash = h,
                piRendererVersion = RendererVersion, piSchemaVersion = SchemaVersion\<rparr>"
    and "ssAdHoc source" "targetFree (rqTargetName request) policy" "h \<noteq> []" "validPreviewStatus (ssStatus source)"
proof -
  obtain byID rules where b: "indexGrants (ssGrants source) (\<lambda>_. None) = Inr byID"
    "selectRules byID [] [] (rqGrantIDs request) = Inr rules"
    and p: "plan = \<lparr>piVersion = PlanVersion, piSource = source, piPolicy = policy,
                piTargetName = rqTargetName request, piTargetPolicyPath = [],
                piSelectedGrantIDs = rqGrantIDs request, piRules = rules, piCandidateHash = h,
                piRendererVersion = RendererVersion, piSchemaVersion = SchemaVersion\<rparr>"
    using assms by (auto simp: Prepare_def split: if_splits)
  have "ssAdHoc source" "targetFree (rqTargetName request) policy" "h \<noteq> []" "validPreviewStatus (ssStatus source)"
    using assms by (auto simp: Prepare_def split: if_splits)
  moreover have "byID = lastByID (ssGrants source)" "distinct (map pgID (ssGrants source))"
    using indexGrants_Inr [OF b(1)] by (simp_all add: lastByID_def)
  moreover obtain gs where "map byID (rqGrantIDs request) = map Some gs" "rules = map ruleOf gs"
    "distinct rules" "distinct (rqGrantIDs request)" using selectRules_Inr [OF b(2)] by auto
  ultimately show thesis using p by (intro that [of gs]) simp_all
qed

lemma matchRules_selected:
  "map byID is = map Some gs \<Longrightarrow> distinct is \<Longrightarrow> set is \<inter> set seen = {} \<Longrightarrow> matchRules byID seen is (map ruleOf gs)"
proof (induction "is" arbitrary: gs seen)
  case (Cons i "is")
  then obtain g gs' where "gs = g # gs'" "byID i = Some g" "map byID is = map Some gs'" by (cases gs) auto
  with Cons show ?case by auto
qed simp

text \<open>A plan grants nothing new. The rules of a prepared plan are the destinations of the selected grants, in
  their order and each once; every one of them is a grant of the session; an empty selection has no
  rules. The target is a new name.\<close>

theorem prepared_rules_are_granted:
  assumes "Prepare request source policy h = Inr plan"
  shows "set (piRules plan) \<subseteq> ruleOf ` set (ssGrants source) \<and> distinct (piRules plan)
     \<and> length (piRules plan) = length (rqGrantIDs request)
     \<and> (\<forall>k < length (rqGrantIDs request).
          \<exists>g \<in> set (ssGrants source). pgID g = rqGrantIDs request ! k \<and> piRules plan ! k = ruleOf g)
     \<and> piTargetName plan \<notin> set (pyProfiles policy) \<and> piTargetName plan \<notin> set (pyBuiltins policy)"
proof -
  obtain gs where gs: "piRules plan = map ruleOf gs" "map (lastByID (ssGrants source)) (rqGrantIDs request) = map Some gs"
    and p: "distinct (piRules plan)" "piTargetName plan = rqTargetName request" "targetFree (rqTargetName request) policy"
    using assms by (rule Prepare_Inr) (metis PlanIntent.select_convs(4))
  have len: "length gs = length (rqGrantIDs request)" using gs(2) map_eq_imp_length_eq by metis
  have nth: "gs ! k \<in> set (ssGrants source) \<and> pgID (gs ! k) = rqGrantIDs request ! k" if "k < length gs" for k
  proof (rule lastByID_mem)
    show "lastByID (ssGrants source) (rqGrantIDs request ! k) = Some (gs ! k)"
      using arg_cong [OF gs(2), of "\<lambda>l. l ! k"] that len by simp
  qed
  then have "set gs \<subseteq> set (ssGrants source)" by (auto simp: set_conv_nth)
  then show ?thesis using gs(1) p nth len by (auto simp: targetFree_def)
qed

text \<open>The check accepts a prepared plan exactly when nothing it rests on has changed: the candidate is valid
  and is the previewed one by its hash, the session is the same in id, tag, revision and grants, and is
  not running, the policy file is the same, and the target is still free. The status may have changed
  between the two.\<close>

theorem check_accepts_unchanged_evidence:
  assumes "Prepare request source policy h = Inr plan"
  shows "CheckApply plan source' policy' h' valid = Inr e \<longleftrightarrow>
     e = EffectReplace \<and> valid \<and> h' = h \<and> source' = source\<lparr>ssStatus := ssStatus source'\<rparr>
   \<and> ssStatus source' \<in> {StatusCreated, StatusStopped}
   \<and> pyExists policy' = pyExists policy \<and> pyHash policy' = pyHash policy
   \<and> rqTargetName request \<notin> set (pyProfiles policy') \<and> rqTargetName request \<notin> set (pyBuiltins policy')"
proof -
  obtain gs where gs: "piRules plan = map ruleOf gs" "map (lastByID (ssGrants source)) (rqGrantIDs request) = map Some gs"
    and d: "distinct (rqGrantIDs request)"
    and p: "plan = \<lparr>piVersion = PlanVersion, piSource = source, piPolicy = policy,
                piTargetName = rqTargetName request, piTargetPolicyPath = [],
                piSelectedGrantIDs = rqGrantIDs request, piRules = piRules plan, piCandidateHash = h,
                piRendererVersion = RendererVersion, piSchemaVersion = SchemaVersion\<rparr>"
    and ok: "ssAdHoc source" "h \<noteq> []"
    using assms by (rule Prepare_Inr) blast
  have fields: "piVersion plan = PlanVersion" "piSource plan = source" "piPolicy plan = policy"
    "piTargetName plan = rqTargetName request" "piSelectedGrantIDs plan = rqGrantIDs request"
    "piCandidateHash plan = h" "piRendererVersion plan = RendererVersion" "piSchemaVersion plan = SchemaVersion"
    by (simp_all add: arg_cong [OF p, of piVersion] arg_cong [OF p, of piSource] arg_cong [OF p, of piPolicy]
        arg_cong [OF p, of piTargetName] arg_cong [OF p, of piSelectedGrantIDs] arg_cong [OF p, of piCandidateHash]
        arg_cong [OF p, of piRendererVersion] arg_cong [OF p, of piSchemaVersion])
  have len: "length gs = length (rqGrantIDs request)" using gs(2) map_eq_imp_length_eq by metis
  have m: "matchesSelectedRules plan"
    using matchRules_selected [OF gs(2) d, of "[]"] gs(1) len by (simp add: matchesSelectedRules_def fields)
  have same: "samePromotionEvidence source source' \<longleftrightarrow> source' = source\<lparr>ssStatus := ssStatus source'\<rparr>"
    by (cases source; cases source') (auto simp: samePromotionEvidence_def)
  show ?thesis
    by (auto simp: CheckApply_def fields m ok same targetFree_def samePolicyEvidence_def)
qed

end
