(* ===== verification/PolicyTransaction.thy ===== *)
theory PolicyTransaction
  imports Sha256
begin

text \<open>
  Replacing a policy file, as \<open>policy/transaction.go\<close> does: under a file lock, against an expected hash or
  only where no file is, through a temporary file that is renamed or linked into place. Any system
  call may fail; the result tells what a failure has left.
\<close>

section \<open>The disk\<close>

text \<open>
  The files by path, the temporary files left in the directory, and the oracle of failures. A write
  that fails leaves \<open>dkTorn\<close> bytes.
\<close>

record disk =
  dkFiles :: "string \<Rightarrow> string option"
  dkTemps :: nat
  dkTick :: nat
  dkFault :: "nat \<Rightarrow> bool"
  dkTorn :: nat

datatype policy_error =
  ErrPolicyStale | ErrPolicyExists | ErrPolicyCommitUncertain | ErrPolicyInvalid | ErrPolicyOS string

type_synonym 'a disk_io = "disk \<Rightarrow> (policy_error, 'a) res \<times> disk"

definition retP :: "'a \<Rightarrow> 'a disk_io" where
  "retP x d = (Inr x, d)"

definition failP :: "policy_error \<Rightarrow> 'a disk_io" where
  "failP e d = (Inl e, d)"

definition bindP :: "'a disk_io \<Rightarrow> ('a \<Rightarrow> 'b disk_io) \<Rightarrow> 'b disk_io" where
  "bindP m f d = (case m d of (Inl e, d) \<Rightarrow> (Inl e, d) | (Inr x, d) \<Rightarrow> f x d)"

definition sysP :: "string \<Rightarrow> unit disk_io" where
  "sysP call d =
     (let d' = d\<lparr>dkTick := Suc (dkTick d)\<rparr> in
      if dkFault d (dkTick d) then (Inl (ErrPolicyOS call), d') else (Inr (), d'))"

text \<open>\<open>return e\<close> for any error of the step.\<close>

definition mapErrP :: "policy_error \<Rightarrow> 'a disk_io \<Rightarrow> 'a disk_io" where
  "mapErrP e m d = (case m d of (Inl _, d) \<Rightarrow> (Inl e, d) | (Inr x, d) \<Rightarrow> (Inr x, d))"

definition putFile :: "string \<Rightarrow> string \<Rightarrow> unit disk_io" where
  "putFile path content d = (Inr (), d\<lparr>dkFiles := (dkFiles d)(path := Some content)\<rparr>)"

definition tempGone :: "unit disk_io" where
  "tempGone d = (Inr (), d\<lparr>dkTemps := dkTemps d - 1\<rparr>)"

text \<open>\<open>os.ReadFile\<close>: \<open>None\<close> is \<open>os.ErrNotExist\<close>.\<close>

definition readFile :: "string \<Rightarrow> string option disk_io" where
  "readFile path = bindP (sysP ''readfile'') (\<lambda>_ d. (Inr (dkFiles d path), d))"

text \<open>\<open>os.WriteFile\<close> truncates the file first.\<close>

definition writeFile :: "string \<Rightarrow> string \<Rightarrow> unit disk_io" where
  "writeFile path content =
     bindP (sysP ''openfile'') (\<lambda>_ d.
       case sysP ''write'' d of
         (Inl e, d) \<Rightarrow> (Inl e, d\<lparr>dkFiles := (dkFiles d)(path := Some (take (dkTorn d) content))\<rparr>)
       | (Inr _, d) \<Rightarrow> putFile path content d)"

section \<open>The transaction\<close>

datatype transaction_outcome = TransactionKnownCommitted | TransactionKnownFailed | TransactionCommitUncertain

record TransactionOptions =
  toExpectedHash :: string
  toCreateOnly :: bool
  toValidate :: "(string \<Rightarrow> bool) option"

definition policyHookSyncDir :: "unit disk_io" where
  "policyHookSyncDir = bindP (sysP ''opendir'') (\<lambda>_. sysP ''syncdir'')"

text \<open>The deferred close and, while the temporary file is there, its removal; their errors are dropped.\<close>

definition dropTemp :: "nat \<Rightarrow> unit disk_io \<Rightarrow> unit disk_io" where
  "dropTemp before m d =
     (case m d of (r, d) \<Rightarrow>
        let d = snd (sysP ''closetemp'' d) in
        (r, if dkTemps d > before then snd (bindP (sysP ''removetemp'') (\<lambda>_. tempGone) d) else d))"

definition publishPolicy :: "string \<Rightarrow> string \<Rightarrow> bool \<Rightarrow> unit disk_io" where
  "publishPolicy path content createOnly =
     (if createOnly then
        bindP (sysP ''link'') (\<lambda>_ d.
          if dkFiles d path \<noteq> None then (Inl (ErrPolicyOS ''link''), d)
          else bindP (putFile path content) (\<lambda>_.
               bindP (mapErrP ErrPolicyCommitUncertain (sysP ''remove'')) (\<lambda>_. tempGone)) d)
      else
        bindP (sysP ''rename'') (\<lambda>_.
        bindP (putFile path content) (\<lambda>_. tempGone)))"

definition writePolicyAtomic :: "string \<Rightarrow> string \<Rightarrow> bool \<Rightarrow> unit disk_io" where
  "writePolicyAtomic path content createOnly =
     bindP (sysP ''createtemp'') (\<lambda>_ d.
       dropTemp (dkTemps d)
         (bindP (sysP ''chmod'') (\<lambda>_.
          bindP (sysP ''copy'') (\<lambda>_.
          bindP (sysP ''sync'') (\<lambda>_.
          bindP (sysP ''close'') (\<lambda>_.
          bindP (publishPolicy path content createOnly) (\<lambda>_.
          mapErrP ErrPolicyCommitUncertain policyHookSyncDir))))))
         (d\<lparr>dkTemps := Suc (dkTemps d)\<rparr>))"

definition replacePolicyUnderLock :: "string \<Rightarrow> string \<Rightarrow> TransactionOptions \<Rightarrow> unit disk_io" where
  "replacePolicyUnderLock path content opts =
     bindP (readFile path) (\<lambda>current.
     if toCreateOnly opts \<and> current \<noteq> None then failP ErrPolicyExists
     else if toExpectedHash opts \<noteq> []
             \<and> (case current of None \<Rightarrow> True | Some b \<Rightarrow> sha256Hex b \<noteq> toExpectedHash opts)
     then failP ErrPolicyStale
     else if (case toValidate opts of None \<Rightarrow> False | Some valid \<Rightarrow> \<not> valid content) then failP ErrPolicyInvalid
     else writePolicyAtomic path content (toCreateOnly opts))"

definition withPolicyLock :: "unit disk_io \<Rightarrow> unit disk_io" where
  "withPolicyLock fn =
     bindP (sysP ''mkdirall'') (\<lambda>_.
     bindP (sysP ''openlock'') (\<lambda>_.
     bindP (sysP ''chmodlock'') (\<lambda>_.
     bindP (sysP ''flock'') (\<lambda>_. fn))))"

definition ReplacePolicyAtomic ::
  "string \<Rightarrow> string \<Rightarrow> TransactionOptions \<Rightarrow> disk \<Rightarrow> (transaction_outcome \<times> (policy_error, unit) res) \<times> disk" where
  "ReplacePolicyAtomic path content opts d =
     (case withPolicyLock (replacePolicyUnderLock path content opts) d of
        (Inl e, d) \<Rightarrow>
          ((if e = ErrPolicyCommitUncertain then TransactionCommitUncertain else TransactionKnownFailed, Inl e), d)
      | (Inr _, d) \<Rightarrow> ((TransactionKnownCommitted, Inr ()), d))"

section \<open>What the outcome tells\<close>

text \<open>The files after a step, by its result.\<close>

definition leavesP :: "'a disk_io \<Rightarrow> ((policy_error, 'a) res \<Rightarrow> (string \<Rightarrow> string option) \<Rightarrow> (string \<Rightarrow> string option) \<Rightarrow> bool) \<Rightarrow> bool" where
  "leavesP m Q \<longleftrightarrow> (\<forall>d r d'. m d = (r, d') \<longrightarrow> Q r (dkFiles d) (dkFiles d'))"

text \<open>A step that only fails with errors of the system, and never touches the files.\<close>

definition plainP :: "'a disk_io \<Rightarrow> bool" where
  "plainP m \<longleftrightarrow> leavesP m (\<lambda>r f f'. f' = f \<and> r \<noteq> Inl ErrPolicyCommitUncertain)"

lemma sysP_cases:
  "sysP c d = (r, d') \<Longrightarrow> (r = Inr () \<and> \<not> dkFault d (dkTick d) \<or> r = Inl (ErrPolicyOS c)) \<and> d' = d\<lparr>dkTick := Suc (dkTick d)\<rparr>"
  by (auto simp: sysP_def Let_def split: if_splits)

lemma plainP_sysP [simp]: "plainP (sysP c)"
  by (auto simp: plainP_def leavesP_def dest: sysP_cases)

lemma bindP_cases:
  assumes "bindP m f d = (r, d')"
  obtains e where "m d = (Inl e, d')" "r = Inl e" | x d1 where "m d = (Inr x, d1)" "f x d1 = (r, d')"
  using assms by (auto simp: bindP_def split: prod.splits sum.splits)

text \<open>The step behind plain ones decides.\<close>

definition commitsP :: "string \<Rightarrow> string \<Rightarrow> ((string \<Rightarrow> string option) \<Rightarrow> bool) \<Rightarrow> unit disk_io \<Rightarrow> bool" where
  "commitsP path content G m \<longleftrightarrow>
     leavesP m (\<lambda>r f f'. if r = Inr () \<or> r = Inl ErrPolicyCommitUncertain then G f \<and> f' = f(path := Some content) else f' = f)"

lemma commitsP_bind:
  assumes "plainP m" and "\<And>x. commitsP path content G (f x)"
  shows "commitsP path content G (bindP m f)"
  unfolding commitsP_def leavesP_def
proof (intro allI impI)
  fix d r d' assume "bindP m f d = (r, d')"
  then show "if r = Inr () \<or> r = Inl ErrPolicyCommitUncertain then G (dkFiles d) \<and> dkFiles d' = (dkFiles d)(path := Some content)
      else dkFiles d' = dkFiles d"
  proof (cases rule: bindP_cases)
    case (1 e)
    with assms(1) show ?thesis unfolding plainP_def leavesP_def by fastforce
  next
    case (2 x d1)
    with assms(1) have "dkFiles d1 = dkFiles d" unfolding plainP_def leavesP_def by blast
    moreover have "if r = Inr () \<or> r = Inl ErrPolicyCommitUncertain then G (dkFiles d1) \<and> dkFiles d' = (dkFiles d1)(path := Some content)
      else dkFiles d' = dkFiles d1" using assms(2) 2(2) unfolding commitsP_def leavesP_def by blast
    ultimately show ?thesis by (auto split: if_splits)
  qed
qed

lemma publish_commits:
  "commitsP path content (\<lambda>f. createOnly \<longrightarrow> f path = None)
     (bindP (publishPolicy path content createOnly) (\<lambda>_. mapErrP ErrPolicyCommitUncertain policyHookSyncDir))"
  by (auto simp: commitsP_def leavesP_def publishPolicy_def bindP_def sysP_def Let_def putFile_def tempGone_def mapErrP_def
      policyHookSyncDir_def split: if_splits)

lemma dropTemp_commits: "commitsP path content G m \<Longrightarrow> commitsP path content G (\<lambda>d. dropTemp (dkTemps d) m (d\<lparr>dkTemps := Suc (dkTemps d)\<rparr>))"
  by (fastforce simp: commitsP_def leavesP_def dropTemp_def bindP_def sysP_def Let_def tempGone_def split: prod.splits sum.splits if_splits)

lemma writePolicyAtomic_commits:
  "commitsP path content (\<lambda>f. createOnly \<longrightarrow> f path = None) (writePolicyAtomic path content createOnly)"
  unfolding writePolicyAtomic_def
  by (rule commitsP_bind [OF plainP_sysP dropTemp_commits]) (intro commitsP_bind plainP_sysP publish_commits)

text \<open>What the transaction promises about the file it replaces.\<close>

definition replaceable :: "string \<Rightarrow> string \<Rightarrow> TransactionOptions \<Rightarrow> (string \<Rightarrow> string option) \<Rightarrow> bool" where
  "replaceable path content opts f \<longleftrightarrow>
     (toCreateOnly opts \<longrightarrow> f path = None)
   \<and> (toExpectedHash opts \<noteq> [] \<longrightarrow> (\<exists>b. f path = Some b \<and> sha256Hex b = toExpectedHash opts))
   \<and> (\<forall>valid. toValidate opts = Some valid \<longrightarrow> valid content)"

lemma replacePolicyUnderLock_commits:
  "commitsP path content (replaceable path content opts) (replacePolicyUnderLock path content opts)"
  unfolding commitsP_def leavesP_def
proof (intro allI impI)
  fix d r d' assume run: "replacePolicyUnderLock path content opts d = (r, d')"
  let ?w = "writePolicyAtomic path content (toCreateOnly opts)"
  have w: "if r = Inr () \<or> r = Inl ErrPolicyCommitUncertain
        then (toCreateOnly opts \<longrightarrow> dkFiles d1 path = None) \<and> dkFiles d' = (dkFiles d1)(path := Some content)
        else dkFiles d' = dkFiles d1" if "?w d1 = (r, d')" for d1
    using writePolicyAtomic_commits [of path content "toCreateOnly opts"] that unfolding commitsP_def leavesP_def by blast
  from run [unfolded replacePolicyUnderLock_def]
  show "if r = Inr () \<or> r = Inl ErrPolicyCommitUncertain
      then replaceable path content opts (dkFiles d) \<and> dkFiles d' = (dkFiles d)(path := Some content) else dkFiles d' = dkFiles d"
  proof (cases rule: bindP_cases)
    case (1 e)
    then show ?thesis by (auto simp: readFile_def bindP_def sysP_def Let_def split: if_splits)
  next
    case (2 current d1)
    then have d1: "dkFiles d1 = dkFiles d" "current = dkFiles d path"
      by (auto simp: readFile_def bindP_def sysP_def Let_def split: if_splits)
    show ?thesis
    proof (cases "toCreateOnly opts \<and> current \<noteq> None
        \<or> toExpectedHash opts \<noteq> [] \<and> (case current of None \<Rightarrow> True | Some b \<Rightarrow> sha256Hex b \<noteq> toExpectedHash opts)
        \<or> (case toValidate opts of None \<Rightarrow> False | Some valid \<Rightarrow> \<not> valid content)")
      case True
      then have "\<exists>e. r = Inl e \<and> e \<noteq> ErrPolicyCommitUncertain \<and> d' = d1" using 2(2) by (auto simp: failP_def split: if_splits)
      with d1 show ?thesis by auto
    next
      case False
      then have "?w d1 = (r, d')" using 2(2) by auto
      moreover have "replaceable path content opts (dkFiles d)" using False d1
        by (auto simp: replaceable_def split: option.splits)
      ultimately show ?thesis using w d1 by (auto split: if_splits)
    qed
  qed
qed

text \<open>(C30) The outcome of a policy transaction is what has happened, whatever system calls fail. Known-committed: the
  file is the new content. Known-failed: no file has changed. Uncertain: the new content is in place but
  perhaps not durable. Content gets into place only over the file that was expected, over no file in
  create-only mode, and only when it is valid; no other file changes.\<close>

theorem transaction_outcome_is_true:
  "case ReplacePolicyAtomic path content opts d of ((outcome, r), d') \<Rightarrow>
     (case outcome of
        TransactionKnownFailed \<Rightarrow> dkFiles d' = dkFiles d \<and> r \<noteq> Inr ()
      | TransactionKnownCommitted \<Rightarrow>
          r = Inr () \<and> replaceable path content opts (dkFiles d) \<and> dkFiles d' = (dkFiles d)(path := Some content)
      | TransactionCommitUncertain \<Rightarrow>
          r = Inl ErrPolicyCommitUncertain
        \<and> replaceable path content opts (dkFiles d) \<and> dkFiles d' = (dkFiles d)(path := Some content))"
proof (cases "withPolicyLock (replacePolicyUnderLock path content opts) d")
  case (Pair r d')
  have "commitsP path content (replaceable path content opts)
      (withPolicyLock (replacePolicyUnderLock path content opts))"
    unfolding withPolicyLock_def by (intro commitsP_bind plainP_sysP replacePolicyUnderLock_commits)
  with Pair have "if r = Inr () \<or> r = Inl ErrPolicyCommitUncertain
      then replaceable path content opts (dkFiles d) \<and> dkFiles d' = (dkFiles d)(path := Some content) else dkFiles d' = dkFiles d"
    unfolding commitsP_def leavesP_def by blast
  with Pair show ?thesis by (cases r) (auto simp: ReplacePolicyAtomic_def split: if_splits)
qed

lemma ReplacePolicyAtomic_Inr:
  assumes "ReplacePolicyAtomic path content opts d = ((outcome, Inr u), d')"
  shows "replaceable path content opts (dkFiles d) \<and> dkFiles d' = (dkFiles d)(path := Some content)"
proof -
  have "commitsP path content (replaceable path content opts)
      (withPolicyLock (replacePolicyUnderLock path content opts))"
    unfolding withPolicyLock_def by (intro commitsP_bind plainP_sysP replacePolicyUnderLock_commits)
  with assms show ?thesis
    unfolding commitsP_def leavesP_def ReplacePolicyAtomic_def by (auto split: prod.splits sum.splits)
qed

text \<open>Without faults a replaceable file is replaced.\<close>

definition calmDisk :: "disk \<Rightarrow> bool" where
  "calmDisk d \<longleftrightarrow> (\<forall>n. \<not> dkFault d n)"

lemma ReplacePolicyAtomic_calm:
  assumes "calmDisk d" and "replaceable path content opts (dkFiles d)"
  shows "\<exists>d'. ReplacePolicyAtomic path content opts d = ((TransactionKnownCommitted, Inr ()), d')"
proof -
  have f: "\<not> dkFault d n" for n using assms(1) by (simp add: calmDisk_def)
  have r: "toCreateOnly opts \<longrightarrow> dkFiles d path = None"
    "toExpectedHash opts \<noteq> [] \<longrightarrow> (\<exists>b. dkFiles d path = Some b \<and> sha256Hex b = toExpectedHash opts)"
    "(case toValidate opts of None \<Rightarrow> False | Some valid \<Rightarrow> \<not> valid content) = False"
    using assms(2) by (auto simp: replaceable_def split: option.splits)
  note run = ReplacePolicyAtomic_def withPolicyLock_def replacePolicyUnderLock_def readFile_def writePolicyAtomic_def
    dropTemp_def publishPolicy_def bindP_def sysP_def Let_def putFile_def tempGone_def mapErrP_def policyHookSyncDir_def
  show ?thesis
  proof (cases "toCreateOnly opts")
    case True
    with r(1,2) have "dkFiles d path = None" "toExpectedHash opts = []" by auto
    with True r(3) show ?thesis by (simp add: run f)
  next
    case False
    then show ?thesis
    proof (cases "toExpectedHash opts = []")
      case True
      with False r(3) show ?thesis by (simp add: run f)
    next
      case hashed: False
      with r(2) obtain b where "dkFiles d path = Some b" "sha256Hex b = toExpectedHash opts" by blast
      with False hashed r(3) show ?thesis by (simp add: run f)
    qed
  qed
qed

end
