(* ===== verification/PromotionFlow.thy ===== *)
theory PromotionFlow
  imports Promotion PolicyTransaction SessionSockets
begin

text \<open>
  The promotion of an ad-hoc session to a profile, as \<open>cli/profile_promote.go\<close> and
  \<open>promotion/plan.go\<close> drive it: preview reads the session and the policy and writes a plan, apply reads the
  plan, checks it against the present session and policy, and replaces the policy file. Other
  processes may change anything between the two and between the check and the file lock. The CUE
  loader, the JSON codecs and the text of \<open>fmt\<close> for compound values are parameters.
\<close>

section \<open>Data\<close>

text \<open>The map of profiles in the order of one iteration.\<close>

record Config =
  cfVersion :: int
  cfProfiles :: "(string \<times> Profile) list"

record PlanFile =
  pfKind :: string
  pfPlan :: PlanIntent

record promote_env =
  pvLoad :: "string \<Rightarrow> Config option"
  pvMarshal :: "Config \<Rightarrow> string option"
  pvBuiltins :: "string list"
  pvShowGrants :: "EgressGrant list \<Rightarrow> string"
  pvShowResolved :: "ResolvedMetadata option \<Rightarrow> string"
  pvEncodePlan :: "PlanFile \<Rightarrow> string option"
  pvDecodePlan :: "string \<Rightarrow> PlanFile option"
  pvFound :: "string option"
  pvCwd :: "string option"

text \<open>The contract errors: a rejection by the kernel, and the fixed messages of the driver.\<close>

datatype promote_error =
  Rejected promotion_error | PromotionFailed | InvalidArgument string | IOFailed string
| SchemaViolation | SessionMissing

datatype promote_fail = Kernel promotion_error | OtherFail

type_synonym 'a promote_io = "disk \<Rightarrow> (promote_error, 'a) res \<times> disk"

definition bindF :: "'a promote_io \<Rightarrow> ('a \<Rightarrow> 'b promote_io) \<Rightarrow> 'b promote_io" where
  "bindF m f d = (case m d of (Inl e, d) \<Rightarrow> (Inl e, d) | (Inr x, d) \<Rightarrow> f x d)"

definition ioF :: "promote_error \<Rightarrow> 'a disk_io \<Rightarrow> 'a promote_io" where
  "ioF e m d = (case m d of (Inl _, d) \<Rightarrow> (Inl e, d) | (Inr x, d) \<Rightarrow> (Inr x, d))"

definition resF :: "('e \<Rightarrow> promote_error) \<Rightarrow> ('e, 'a) res \<Rightarrow> 'a promote_io" where
  "resF f r d = ((case r of Inl e \<Rightarrow> Inl (f e) | Inr x \<Rightarrow> Inr x), d)"

definition promoteSessionError :: "session_error \<Rightarrow> promote_error" where
  "promoteSessionError e = (if e = ErrNotFound then SessionMissing else IOFailed ''load session'')"

definition promoteError :: "promote_fail \<Rightarrow> promote_error" where
  "promoteError e = (case e of Kernel k \<Rightarrow> Rejected k | OtherFail \<Rightarrow> PromotionFailed)"

section \<open>The plan file\<close>

definition MaxPlanBytes :: nat where
  "MaxPlanBytes = 64 * 1024"

definition planKind :: string where
  "planKind = ''safeslop-promotion-plan''"

definition WritePlan :: "promote_env \<Rightarrow> string \<Rightarrow> PlanIntent \<Rightarrow> unit disk_io" where
  "WritePlan env path plan =
     (if path = [] then failP ErrPolicyInvalid
      else case pvEncodePlan env \<lparr>pfKind = planKind, pfPlan = plan\<rparr> of
        None \<Rightarrow> failP (ErrPolicyOS ''marshal'')
      | Some b \<Rightarrow>
          if length b > MaxPlanBytes then failP (ErrPolicyOS ''plan too large'')
          else writeFile path (b @ [nl]))"

text \<open>Every file is a regular one.\<close>

definition ReadPlan :: "promote_env \<Rightarrow> string \<Rightarrow> PlanIntent disk_io" where
  "ReadPlan env path =
     bindP (sysP ''stat'') (\<lambda>_ d.
       case dkFiles d path of
         None \<Rightarrow> (Inl (ErrPolicyOS ''stat''), d)
       | Some body \<Rightarrow>
           if length body > MaxPlanBytes then (Inl (ErrPolicyOS ''plan too large''), d)
           else bindP (readFile path) (\<lambda>b.
             case b of None \<Rightarrow> failP (ErrPolicyOS ''readfile'')
             | Some b \<Rightarrow>
                (case pvDecodePlan env b of
                   None \<Rightarrow> failP (ErrPolicyOS ''unmarshal'')
                 | Some f \<Rightarrow>
                     if pfKind f \<noteq> planKind \<or> piVersion (pfPlan f) \<noteq> PlanVersion
                        \<or> piRendererVersion (pfPlan f) \<noteq> RendererVersion \<or> piSchemaVersion (pfPlan f) \<noteq> SchemaVersion
                     then failP ErrPolicyInvalid
                     else retP (pfPlan f))) d)"

section \<open>Snapshots\<close>

definition grantOf :: "EgressGrant \<Rightarrow> PromotionGrant" where
  "grantOf g = \<lparr>pgID = egID g, pgHost = egHost g, pgPort = egPort g\<rparr>"

definition promotionSessionETag :: "promote_env \<Rightarrow> Session \<Rightarrow> string" where
  "promotionSessionETag env s =
     sha256Hex (joinWith ''|''
       [seID s, seAgent s, seWorkspace s, seEnvironment s, seNetwork s, intText (seGrantRevision s),
        pvShowGrants env (seEgressGrants s), pvShowResolved env (seResolved s)])"

definition promotionSourceSnapshot :: "promote_env \<Rightarrow> Session \<Rightarrow> (promotion_error, SourceSnapshot) res" where
  "promotionSourceSnapshot env s =
     (if seProfile s \<noteq> [] \<or> sePolicyPath s \<noteq> [] then Inl ErrIneligibleSource
      else Inr \<lparr>ssID = seID s, ssAdHoc = True, ssStatus = seStatus s, ssETag = promotionSessionETag env s,
                ssGrantRevision = seGrantRevision s, ssGrants = map grantOf (seEgressGrants s)\<rparr>)"

definition promotionPolicySnapshot :: "promote_env \<Rightarrow> string \<Rightarrow> bool \<Rightarrow> Config \<Rightarrow> PolicySnapshot" where
  "promotionPolicySnapshot env b exists cfg =
     \<lparr>pyExists = exists, pyHash = sha256Hex b, pyProfiles = map fst (cfProfiles cfg), pyBuiltins = pvBuiltins env\<rparr>"

definition newConfig :: Config where
  "newConfig = \<lparr>cfVersion = 1, cfProfiles = []\<rparr>"

definition loadOrNewPromotionPolicy :: "promote_env \<Rightarrow> string \<Rightarrow> (string \<times> Config \<times> string \<times> bool) disk_io" where
  "loadOrNewPromotionPolicy env pathArg =
     (if pathArg \<noteq> [] then
        bindP (readFile pathArg) (\<lambda>b. case b of
          Some b \<Rightarrow>
            (case pvLoad env b of
               None \<Rightarrow> failP ErrPolicyInvalid
             | Some cfg \<Rightarrow> retP (pathArg, cfg, b, True))
        | None \<Rightarrow> retP (pathArg, newConfig, [], False))
      else case pvFound env of
        None \<Rightarrow>
          (case pvCwd env of
             None \<Rightarrow> failP (ErrPolicyOS ''getwd'')
           | Some wd \<Rightarrow> retP (joinPath [wd, ''safeslop.cue''], newConfig, [], False))
      | Some path \<Rightarrow>
          bindP (readFile path) (\<lambda>b. case b of
            None \<Rightarrow> failP (ErrPolicyOS ''readfile'')
          | Some b \<Rightarrow>
              (case pvLoad env b of
                 None \<Rightarrow> failP ErrPolicyInvalid
               | Some cfg \<Rightarrow> retP (path, cfg, b, True))))"

section \<open>The candidate policy\<close>

definition renderConfigCUE :: "promote_env \<Rightarrow> Config \<Rightarrow> string option" where
  "renderConfigCUE env cfg =
     map_option (\<lambda>b. ''package safeslop'' @ [nl, nl] @ ''safeslop: '' @ b @ [nl]) (pvMarshal env cfg)"

definition zeroProfile :: Profile where
  "zeroProfile =
     \<lparr>prAgent = [], prEnvironment = [], prWorkspace = [], prNetwork = [], prEgress = [], prPersistentEgress = [],
      prSecrets = [], prCredentials = None, prToolchain = None, prBundles = [], prPackages = [],
      prBareAgent = False, prProjection = None\<rparr>"

definition promotedRules :: "Session \<Rightarrow> string list \<Rightarrow> PersistentEgressRule list" where
  "promotedRules s grantIDs =
     map (\<lambda>g. \<lparr>perFQDN = egHost g, perPort = egPort g\<rparr>) (filter (\<lambda>g. egID g \<in> set grantIDs) (seEgressGrants s))"

definition promotedProfile :: "Session \<Rightarrow> string list \<Rightarrow> (promotion_error, Profile) res" where
  "promotedProfile s grantIDs =
     (let prof = zeroProfile\<lparr>prAgent := seAgent s, prEnvironment := seEnvironment s, prNetwork := seNetwork s,
                             prWorkspace := seWorkspace s, prPersistentEgress := promotedRules s grantIDs\<rparr> in
      case seResolved s of
        None \<Rightarrow> Inr prof
      | Some r \<Rightarrow>
          if rmIdentitySet r = [] then Inl ErrInvalidRequest
          else Inr (prof\<lparr>prPackages := rmIdentitySet r, prBareAgent := True\<rparr>))"

definition renderPromotionCandidate ::
  "promote_env \<Rightarrow> string \<Rightarrow> Session \<Rightarrow> Config \<Rightarrow> string list \<Rightarrow> (promote_fail, Profile \<times> string) res" where
  "renderPromotionCandidate env name s cfg grantIDs =
     (if name \<in> set (map fst (cfProfiles cfg)) then Inl (Kernel ErrTargetExists)
      else if name \<in> set (pvBuiltins env) then Inl (Kernel ErrTargetExists)
      else case promotedProfile s grantIDs of
        Inl e \<Rightarrow> Inl (Kernel e)
      | Inr prof \<Rightarrow>
          (case renderConfigCUE env (cfg\<lparr>cfProfiles := cfProfiles cfg @ [(name, prof)]\<rparr>) of
             None \<Rightarrow> Inl OtherFail
           | Some rendered \<Rightarrow> Inr (prof, rendered)))"

definition kernelF :: "(promotion_error, 'a) res \<Rightarrow> (promote_fail, 'a) res" where
  "kernelF r = (case r of Inl e \<Rightarrow> Inl (Kernel e) | Inr x \<Rightarrow> Inr x)"

definition buildPromotionPlan ::
  "promote_env \<Rightarrow> string \<Rightarrow> Session \<Rightarrow> Config \<Rightarrow> string \<Rightarrow> string \<Rightarrow> bool \<Rightarrow> string list
   \<Rightarrow> (promote_fail, PlanIntent \<times> Profile \<times> string) res" where
  "buildPromotionPlan env name s cfg path policyBytes exists grantIDs =
     rbind (kernelF (promotionSourceSnapshot env s)) (\<lambda>source.
     rbind (renderPromotionCandidate env name s cfg grantIDs) (\<lambda>(prof, candidate).
     rbind (kernelF (Prepare \<lparr>rqTargetName = name, rqGrantIDs = grantIDs\<rparr> source
              (promotionPolicySnapshot env policyBytes exists cfg) (sha256Hex candidate))) (\<lambda>plan.
     Inr (plan\<lparr>piPolicy := (piPolicy plan)\<lparr>pyHash := sha256Hex policyBytes\<rparr>, piTargetPolicyPath := path\<rparr>,
          prof, candidate))))"

section \<open>The two commands\<close>

definition cmdProfilePromotePreview ::
  "promote_env \<Rightarrow> (string \<Rightarrow> (session_error, Session) res) \<Rightarrow> string \<Rightarrow> string \<Rightarrow> string \<Rightarrow> string list
   \<Rightarrow> string \<Rightarrow> PlanIntent promote_io" where
  "cmdProfilePromotePreview env getSession name pathArg sessionID grantIDs planPath =
     (if sessionID = [] \<or> planPath = [] then resF id (Inl (InvalidArgument ''--session-id and --plan are required''))
      else
        bindF (resF promoteSessionError (getSession sessionID)) (\<lambda>s.
        bindF (ioF (IOFailed ''load safeslop.cue'') (loadOrNewPromotionPolicy env pathArg)) (\<lambda>(path, cfg, bytes, exists).
        bindF (resF promoteError (buildPromotionPlan env name s cfg path bytes exists grantIDs)) (\<lambda>(plan, prof, candidate).
        if pvLoad env candidate = None then resF id (Inl SchemaViolation)
        else
          bindF (ioF (IOFailed ''write promotion plan'') (WritePlan env planPath plan)) (\<lambda>_.
          resF id (Inr plan))))))"

definition expectedPromotionHash :: "PolicySnapshot \<Rightarrow> string" where
  "expectedPromotionHash p = (if pyExists p then pyHash p else [])"

text \<open>\<open>others\<close> is what other processes do before the file lock is taken.\<close>

definition replaceF :: "(disk \<Rightarrow> disk) \<Rightarrow> string \<Rightarrow> string \<Rightarrow> TransactionOptions \<Rightarrow> unit promote_io" where
  "replaceF others path candidate opts d =
     (case ReplacePolicyAtomic path candidate opts (others d) of
        ((outcome, Inl e), d) \<Rightarrow>
          (Inl (if e = ErrPolicyCommitUncertain then IOFailed ''promotion policy commit uncertain''
                else InvalidArgument ''apply promotion policy''), d)
      | ((outcome, Inr _), d) \<Rightarrow> (Inr (), d))"

definition cmdProfilePromoteApply ::
  "promote_env \<Rightarrow> (string \<Rightarrow> (session_error, Session) res) \<Rightarrow> (disk \<Rightarrow> disk) \<Rightarrow> string
   \<Rightarrow> (string \<times> Profile \<times> string) promote_io" where
  "cmdProfilePromoteApply env getSession others planPath =
     (if planPath = [] then resF id (Inl (InvalidArgument ''--plan is required''))
      else
        bindF (ioF (InvalidArgument ''read promotion plan'') (ReadPlan env planPath)) (\<lambda>plan.
        bindF (resF promoteSessionError (getSession (ssID (piSource plan)))) (\<lambda>s.
        bindF (ioF (IOFailed ''load safeslop.cue'') (loadOrNewPromotionPolicy env (piTargetPolicyPath plan)))
          (\<lambda>(path, cfg, bytes, exists).
        let currentPolicy = promotionPolicySnapshot env bytes exists cfg in
        bindF (resF Rejected (promotionSourceSnapshot env s)) (\<lambda>currentSource.
        bindF (resF promoteError (renderPromotionCandidate env (piTargetName plan) s cfg (piSelectedGrantIDs plan)))
          (\<lambda>(prof, candidate).
        if pvLoad env candidate = None then resF id (Inl SchemaViolation)
        else
          bindF (resF Rejected (CheckApply plan currentSource currentPolicy (sha256Hex candidate) True)) (\<lambda>_.
          bindF (replaceF others path candidate
                   \<lparr>toExpectedHash = expectedPromotionHash currentPolicy, toCreateOnly = \<not> exists,
                    toValidate = Some (\<lambda>b. pvLoad env b \<noteq> None)\<rparr>) (\<lambda>_.
          resF id (Inr (path, prof, candidate))))))))))"

end
