(* ===== verification/PromotionLaws.thy ===== *)
theory PromotionLaws
  imports PromotionFlow SessionRecordLaws
begin

text \<open>
  The two commands together: an apply lands exactly what the preview showed, on the evidence the preview
  saw, and an undisturbed preview can be applied. Also what the size limit of the plan file does.
\<close>

lemma bindF_Inr: "bindF m f d = (Inr y, d') \<longleftrightarrow> (\<exists>x d1. m d = (Inr x, d1) \<and> f x d1 = (Inr y, d'))"
  by (auto simp: bindF_def split: prod.splits sum.splits)

lemma ioF_Inr: "ioF e m d = (Inr y, d') \<longleftrightarrow> m d = (Inr y, d')"
  by (auto simp: ioF_def split: prod.splits sum.splits)

lemma resF_Inr: "resF f r d = (Inr y, d') \<longleftrightarrow> r = Inr y \<and> d' = d"
  by (auto simp: resF_def split: sum.splits)

lemma bindP_Inr: "bindP m f d = (Inr y, d') \<longleftrightarrow> (\<exists>x d1. m d = (Inr x, d1) \<and> f x d1 = (Inr y, d'))"
  by (auto simp: bindP_def split: prod.splits sum.splits)

lemma kernelF_Inr: "kernelF r = Inr x \<longleftrightarrow> r = Inr x"
  by (auto simp: kernelF_def split: sum.splits)

lemma retP_Inr: "retP x d = (Inr y, d') \<longleftrightarrow> y = x \<and> d' = d"
  by (auto simp: retP_def)

lemma failP_Inr: "failP e d \<noteq> (Inr y, d')"
  by (simp add: failP_def)

lemma branch_Inr:
  "(if c then m else n) d = (Inr y, d') \<longleftrightarrow> c \<and> m d = (Inr y, d') \<or> \<not> c \<and> n d = (Inr y, d')"
  "(case x of None \<Rightarrow> m | Some z \<Rightarrow> g z) d = (Inr y, d') \<longleftrightarrow>
     x = None \<and> m d = (Inr y, d') \<or> (\<exists>z. x = Some z \<and> g z d = (Inr y, d'))"
  by (auto split: option.splits)

lemma answer_Inr:
  "(if c then (Inl e, d1) else p) = (Inr y, d') \<longleftrightarrow> \<not> c \<and> p = (Inr y, d')"
  "(case x of None \<Rightarrow> (Inl e, d1) | Some z \<Rightarrow> h z) = (Inr y, d') \<longleftrightarrow> (\<exists>z. x = Some z \<and> h z = (Inr y, d'))"
  "(case q of (Inl e, d) \<Rightarrow> (Inl e, k d) | (Inr u, d) \<Rightarrow> l d) = (Inr y, d') \<longleftrightarrow> (\<exists>u d1. q = (Inr u, d1) \<and> l d1 = (Inr y, d'))"
  by (auto split: option.splits prod.splits sum.splits)

lemmas flow_Inr = bindF_Inr ioF_Inr resF_Inr bindP_Inr kernelF_Inr retP_Inr failP_Inr branch_Inr answer_Inr

text \<open>What the steps leave alone.\<close>

lemma sysP_Inr: "sysP c d = (Inr u, d') \<Longrightarrow> d' = d\<lparr>dkTick := Suc (dkTick d)\<rparr>"
  by (auto simp: sysP_def Let_def split: if_splits)

lemma readFile_Inr: "readFile path d = (Inr b, d') \<Longrightarrow> b = dkFiles d path \<and> dkFiles d' = dkFiles d \<and> dkFault d' = dkFault d"
  by (auto simp: readFile_def bindP_Inr dest!: sysP_Inr)

lemma loadOrNew_Inr:
  assumes "loadOrNewPromotionPolicy env pathArg d = (Inr (path, cfg, bytes, exists), d')"
  shows "dkFiles d' = dkFiles d \<and> dkFault d' = dkFault d \<and> (pathArg \<noteq> [] \<longrightarrow> path = pathArg)"
    and "exists \<Longrightarrow> dkFiles d path = Some bytes \<and> pvLoad env bytes = Some cfg"
    and "\<not> exists \<Longrightarrow> cfg = newConfig \<and> bytes = [] \<and> (pathArg \<noteq> [] \<longrightarrow> dkFiles d path = None)"
  using assms
  by (auto simp: loadOrNewPromotionPolicy_def flow_Inr dest!: readFile_Inr)

lemma renderPromotionCandidate_Inr:
  assumes "renderPromotionCandidate env name s cfg ids = Inr (prof, candidate)"
  shows "name \<notin> set (map fst (cfProfiles cfg))" "name \<notin> set (pvBuiltins env)"
    and "renderConfigCUE env (cfg\<lparr>cfProfiles := cfProfiles cfg @ [(name, prof)]\<rparr>) = Some candidate"
    and "prPersistentEgress prof = promotedRules s ids"
  using assms by (auto simp: renderPromotionCandidate_def promotedProfile_def Let_def split: if_splits sum.splits option.splits)

lemma ReadPlan_Inr:
  assumes "ReadPlan env path d = (Inr plan, d')"
  obtains body f where "dkFiles d path = Some body" "length body \<le> MaxPlanBytes" "pvDecodePlan env body = Some f" "plan = pfPlan f"
    and "dkFiles d' = dkFiles d" "dkFault d' = dkFault d"
  using assms
  by (auto simp: ReadPlan_def flow_Inr dest!: sysP_Inr readFile_Inr)

lemma WritePlan_Inr:
  assumes "WritePlan env path plan d = (Inr u, d')"
  obtains b where "pvEncodePlan env \<lparr>pfKind = planKind, pfPlan = plan\<rparr> = Some b" "length b \<le> MaxPlanBytes"
    and "dkFiles d' = (dkFiles d)(path := Some (b @ [nl]))" "dkFault d' = dkFault d"
  using assms
  by (auto simp: WritePlan_def writeFile_def putFile_def flow_Inr dest!: sysP_Inr)

text \<open>What a successful preview has done.\<close>

lemma preview_Inr:
  assumes "cmdProfilePromotePreview env getSession name pathArg sid ids planPath d = (Inr plan, d')"
  obtains s path cfg bytes exists prof candidate source p d1 where
    "getSession sid = Inr s" "loadOrNewPromotionPolicy env pathArg d = (Inr (path, cfg, bytes, exists), d1)"
    "promotionSourceSnapshot env s = Inr source" "renderPromotionCandidate env name s cfg ids = Inr (prof, candidate)"
    "Prepare \<lparr>rqTargetName = name, rqGrantIDs = ids\<rparr> source (promotionPolicySnapshot env bytes exists cfg)
       (sha256Hex candidate) = Inr p"
    "plan = p\<lparr>piPolicy := (piPolicy p)\<lparr>pyHash := sha256Hex bytes\<rparr>, piTargetPolicyPath := path\<rparr>"
    "pvLoad env candidate \<noteq> None" "WritePlan env planPath plan d1 = (Inr (), d')" "planPath \<noteq> []"
  using assms
  by (auto simp: cmdProfilePromotePreview_def buildPromotionPlan_def flow_Inr)

text \<open>The fields of the plan of a preview.\<close>

lemma previewed_plan:
  assumes "Prepare \<lparr>rqTargetName = name, rqGrantIDs = ids\<rparr> source (promotionPolicySnapshot env bytes exists cfg) h = Inr p"
    and "plan = p\<lparr>piPolicy := (piPolicy p)\<lparr>pyHash := sha256Hex bytes\<rparr>, piTargetPolicyPath := path\<rparr>"
  shows "plan = p\<lparr>piTargetPolicyPath := path\<rparr>" "piSource plan = source" "piTargetName plan = name"
    "piSelectedGrantIDs plan = ids" "piCandidateHash plan = h" "piTargetPolicyPath plan = path"
    "pyExists (piPolicy plan) = exists" "pyHash (piPolicy plan) = sha256Hex bytes"
    "piVersion plan = PlanVersion" "piRendererVersion plan = RendererVersion" "piSchemaVersion plan = SchemaVersion"
proof -
  obtain rules where "p = \<lparr>piVersion = PlanVersion, piSource = source,
      piPolicy = promotionPolicySnapshot env bytes exists cfg, piTargetName = name, piTargetPolicyPath = [],
      piSelectedGrantIDs = ids, piRules = rules, piCandidateHash = h,
      piRendererVersion = RendererVersion, piSchemaVersion = SchemaVersion\<rparr>"
    using assms(1) by (auto simp: Prepare_def split: if_splits)
  then show "plan = p\<lparr>piTargetPolicyPath := path\<rparr>" "piSource plan = source" "piTargetName plan = name"
    "piSelectedGrantIDs plan = ids" "piCandidateHash plan = h" "piTargetPolicyPath plan = path"
    "pyExists (piPolicy plan) = exists" "pyHash (piPolicy plan) = sha256Hex bytes"
    "piVersion plan = PlanVersion" "piRendererVersion plan = RendererVersion" "piSchemaVersion plan = SchemaVersion"
    by (simp_all add: assms(2) promotionPolicySnapshot_def)
qed

text \<open>The check does not read the path.\<close>

lemma CheckApply_path: "CheckApply (p\<lparr>piTargetPolicyPath := path\<rparr>) = CheckApply p"
  by (intro ext) (simp add: CheckApply_def matchesSelectedRules_def)

lemma promoted_rules_set:
  assumes "Prepare \<lparr>rqTargetName = name, rqGrantIDs = ids\<rparr> source policy h = Inr p"
    and "ssGrants source = map grantOf (seEgressGrants s)"
  shows "(\<lambda>r. \<lparr>ruHost = perFQDN r, ruPort = perPort r\<rparr>) ` set (promotedRules s ids) = set (piRules p)"
proof -
  obtain gs where gs: "piRules p = map ruleOf gs" "map (lastByID (ssGrants source)) ids = map Some gs"
    and d: "distinct (map pgID (ssGrants source))" using assms(1) by (rule Prepare_Inr) auto
  have "g \<in> set gs \<longleftrightarrow> g \<in> set (ssGrants source) \<and> pgID g \<in> set ids" for g
  proof
    assume "g \<in> set gs"
    then have "Some g \<in> lastByID (ssGrants source) ` set ids" using gs(2) by (metis image_eqI list.set_map)
    then show "g \<in> set (ssGrants source) \<and> pgID g \<in> set ids" using lastByID_mem by fastforce
  next
    assume g: "g \<in> set (ssGrants source) \<and> pgID g \<in> set ids"
    then have "lastByID (ssGrants source) (pgID g) \<in> Some ` set gs" using gs(2) by (metis image_eqI list.set_map)
    then obtain x where x: "x \<in> set gs" "lastByID (ssGrants source) (pgID g) = Some x" by auto
    then have "x \<in> set (ssGrants source)" "pgID x = pgID g" using lastByID_mem by fastforce+
    then have "x = g" using g d by (metis distinct_map inj_onD)
    with x show "g \<in> set gs" by simp
  qed
  then have "set gs = {g \<in> grantOf ` set (seEgressGrants s). pgID g \<in> set ids}" by (simp add: set_eq_iff assms(2))
  also have "\<dots> = grantOf ` {g \<in> set (seEgressGrants s). egID g \<in> set ids}" by (auto simp: grantOf_def)
  finally show ?thesis by (simp add: gs(1) promotedRules_def image_image ruleOf_def grantOf_def)
qed


section \<open>An undisturbed preview\<close>

lemma sysP_calm: "calmDisk d \<Longrightarrow> sysP c d = (Inr (), d\<lparr>dkTick := Suc (dkTick d)\<rparr>)"
  by (simp add: sysP_def calmDisk_def)

lemma calmDisk_frame [simp]:
  "calmDisk (d\<lparr>dkTick := n\<rparr>) = calmDisk d" "calmDisk (d\<lparr>dkFiles := f\<rparr>) = calmDisk d"
  by (simp_all add: calmDisk_def)

lemma readFile_calm: "calmDisk d \<Longrightarrow> readFile path d = (Inr (dkFiles d path), d\<lparr>dkTick := Suc (dkTick d)\<rparr>)"
  by (simp add: readFile_def bindP_def sysP_calm)

lemma ReadPlan_calm:
  assumes "calmDisk d" and "dkFiles d path = Some body" and "length body \<le> MaxPlanBytes"
    and "pvDecodePlan env body = Some \<lparr>pfKind = planKind, pfPlan = plan\<rparr>"
    and "piVersion plan = PlanVersion" "piRendererVersion plan = RendererVersion" "piSchemaVersion plan = SchemaVersion"
  shows "\<exists>n. ReadPlan env path d = (Inr plan, d\<lparr>dkTick := n\<rparr>)"
  using assms by (simp add: ReadPlan_def bindP_def sysP_calm readFile_calm retP_def) blast

lemma loadOrNew_calm:
  assumes "loadOrNewPromotionPolicy env pathArg d = (Inr r, d')" and "pathArg \<noteq> []"
    and "calmDisk e" and "dkFiles e pathArg = dkFiles d pathArg"
  shows "\<exists>n. loadOrNewPromotionPolicy env pathArg e = (Inr r, e\<lparr>dkTick := n\<rparr>)"
proof -
  have d: "dkFiles d pathArg = None \<and> r = (pathArg, newConfig, [], False)
      \<or> (\<exists>b cfg. dkFiles d pathArg = Some b \<and> pvLoad env b = Some cfg \<and> r = (pathArg, cfg, b, True))"
    using assms(1,2) by (auto simp: loadOrNewPromotionPolicy_def flow_Inr dest!: readFile_Inr)
  have "loadOrNewPromotionPolicy env pathArg e = (Inr r, e\<lparr>dkTick := Suc (dkTick e)\<rparr>)"
    using d
  proof (elim disjE exE conjE)
    assume "dkFiles d pathArg = None" "r = (pathArg, newConfig, [], False)"
    with assms(2,3,4) show ?thesis by (simp add: loadOrNewPromotionPolicy_def bindP_def readFile_calm retP_def)
  next
    fix b cfg assume "dkFiles d pathArg = Some b" "pvLoad env b = Some cfg" "r = (pathArg, cfg, b, True)"
    with assms(2,3,4) show ?thesis by (simp add: loadOrNewPromotionPolicy_def bindP_def readFile_calm retP_def)
  qed
  then show ?thesis by blast
qed

lemma undisturbed_apply:
  assumes preview: "cmdProfilePromotePreview env getSession name pathArg sid ids planPath d0 = (Inr plan, d1)"
    and calm: "calmDisk d1" and paths: "pathArg \<noteq> []" "pathArg \<noteq> planPath"
    and store: "\<forall>i s. getSession i = Inr s \<longrightarrow> seID s = i"
    and status: "\<forall>s. getSession sid = Inr s \<longrightarrow> seStatus s \<in> {StatusCreated, StatusStopped}"
    and codec: "\<forall>f b. pvEncodePlan env f = Some b \<longrightarrow> pvDecodePlan env (b @ [nl]) = Some f \<and> length b \<noteq> MaxPlanBytes"
  shows "\<exists>prof candidate d2. cmdProfilePromoteApply env getSession id planPath d1 = (Inr (pathArg, prof, candidate), d2)
     \<and> dkFiles d2 pathArg = Some candidate \<and> sha256Hex candidate = piCandidateHash plan"
proof -
  obtain s path cfg bytes "exists" prof candidate source p d where
    v: "getSession sid = Inr s" "loadOrNewPromotionPolicy env pathArg d0 = (Inr (path, cfg, bytes, exists), d)"
    "promotionSourceSnapshot env s = Inr source" "renderPromotionCandidate env name s cfg ids = Inr (prof, candidate)"
    "Prepare \<lparr>rqTargetName = name, rqGrantIDs = ids\<rparr> source (promotionPolicySnapshot env bytes exists cfg)
       (sha256Hex candidate) = Inr p"
    "plan = p\<lparr>piPolicy := (piPolicy p)\<lparr>pyHash := sha256Hex bytes\<rparr>, piTargetPolicyPath := path\<rparr>"
    "pvLoad env candidate \<noteq> None" "WritePlan env planPath plan d = (Inr (), d1)" "planPath \<noteq> []"
    using preview by (rule preview_Inr)
  note plan = previewed_plan [OF v(5,6)]
  note l = loadOrNew_Inr [OF v(2)]
  have path: "path = pathArg" using l(1) paths by simp
  obtain b where b: "pvEncodePlan env \<lparr>pfKind = planKind, pfPlan = plan\<rparr> = Some b" "length b \<le> MaxPlanBytes"
    "dkFiles d1 = (dkFiles d)(planPath := Some (b @ [nl]))" using v(8) by (rule WritePlan_Inr)
  obtain n1 where read: "ReadPlan env planPath d1 = (Inr plan, d1\<lparr>dkTick := n1\<rparr>)"
  proof -
    have "length (b @ [nl]) \<le> MaxPlanBytes" using b(1,2) codec by (fastforce simp: le_less)
    moreover have "pvDecodePlan env (b @ [nl]) = Some \<lparr>pfKind = planKind, pfPlan = plan\<rparr>" using b(1) codec by blast
    ultimately show thesis using ReadPlan_calm [OF calm, of planPath "b @ [nl]" env plan] b(3) plan(9-11) that by auto
  qed
  have "dkFiles d1 pathArg = dkFiles d0 pathArg" using b(3) l(1) paths by simp
  then obtain n2 where load: "loadOrNewPromotionPolicy env pathArg (d1\<lparr>dkTick := n1\<rparr>)
      = (Inr (path, cfg, bytes, exists), d1\<lparr>dkTick := n1\<rparr>\<lparr>dkTick := n2\<rparr>)"
    using loadOrNew_calm [OF v(2) paths(1), of "d1\<lparr>dkTick := n1\<rparr>"] calm by auto
  have source: "ssID source = seID s" "ssStatus source = seStatus s" using v(3) by (auto simp: promotionSourceSnapshot_def split: if_splits)
  have free: "name \<notin> set (map fst (cfProfiles cfg))" "name \<notin> set (pvBuiltins env)" using renderPromotionCandidate_Inr [OF v(4)] by simp_all
  have check: "CheckApply plan source (promotionPolicySnapshot env bytes exists cfg) (sha256Hex candidate) True = Inr EffectReplace"
    using free status v(1) source(2)
    by (simp add: plan(1) CheckApply_path check_accepts_unchanged_evidence [OF v(5)] promotionPolicySnapshot_def)
  define opts where "opts = \<lparr>toExpectedHash = expectedPromotionHash (promotionPolicySnapshot env bytes exists cfg),
      toCreateOnly = \<not> exists, toValidate = Some (\<lambda>b. pvLoad env b \<noteq> None)\<rparr>"
  have content: "dkFiles d1 pathArg = (if exists then Some bytes else None)" using l paths b(3) path by auto
  then have "replaceable pathArg candidate opts (dkFiles (d1\<lparr>dkTick := n1\<rparr>\<lparr>dkTick := n2\<rparr>))"
    using v(7) by (auto simp: replaceable_def opts_def expectedPromotionHash_def promotionPolicySnapshot_def)
  with calm obtain d2 where tx: "ReplacePolicyAtomic pathArg candidate opts (d1\<lparr>dkTick := n1\<rparr>\<lparr>dkTick := n2\<rparr>)
      = ((TransactionKnownCommitted, Inr ()), d2)" using ReplacePolicyAtomic_calm by fastforce
  have "cmdProfilePromoteApply env getSession id planPath d1 = (Inr (pathArg, prof, candidate), d2)"
    using v(1,3,4,7,9) read load check tx [unfolded opts_def] store
    by (simp add: cmdProfilePromoteApply_def bindF_def ioF_def resF_def replaceF_def plan(2,3,4,6) source(1) path Let_def)
  moreover have "dkFiles d2 pathArg = Some candidate" using ReplacePolicyAtomic_Inr [OF tx] by simp
  ultimately show ?thesis using plan(5) by auto
qed


text \<open>The size limit is checked before the final newline is added, so the largest plan that is written
  cannot be read.\<close>

theorem largest_plan_is_unreadable:
  assumes "calmDisk d" and "path \<noteq> []" and "pvEncodePlan env \<lparr>pfKind = planKind, pfPlan = plan\<rparr> = Some b"
    and "length b = MaxPlanBytes"
  shows "\<exists>d'. WritePlan env path plan d = (Inr (), d') \<and> (\<exists>e. fst (ReadPlan env path d') = Inl e)"
  using assms
  by (simp add: WritePlan_def writeFile_def bindP_def sysP_calm putFile_def ReadPlan_def)

section \<open>A sample promotion\<close>

definition samplePromoted :: Session where
  "samplePromoted = sampleSession\<lparr>seStatus := StatusCreated, seEgressGrants := [sampleGrant], seGrantRevision := 1\<rparr>"

definition sampleCandidate :: string where
  "sampleCandidate = ''package safeslop'' @ [nl, nl] @ ''safeslop: '' @ ''kept'' @ [nl]"

definition sampleSource :: SourceSnapshot where
  "sampleSource =
     \<lparr>ssID = ''sess-1'', ssAdHoc = True, ssStatus = StatusCreated,
      ssETag = sha256Hex (joinWith ''|'' [''sess-1'', ''pi'', [], ''container'', ''deny'', intText 1, [], []]),
      ssGrantRevision = 1, ssGrants = [grantOf sampleGrant]\<rparr>"

definition samplePlan :: PlanIntent where
  "samplePlan =
     \<lparr>piVersion = PlanVersion, piSource = sampleSource,
      piPolicy = \<lparr>pyExists = False, pyHash = sha256Hex [], pyProfiles = [], pyBuiltins = [''pi'']\<rparr>,
      piTargetName = ''kept'', piTargetPolicyPath = ''p.cue'', piSelectedGrantIDs = [''g-0a0b0c''],
      piRules = [\<lparr>ruHost = ''pypi.org'', ruPort = 443\<rparr>], piCandidateHash = sha256Hex sampleCandidate,
      piRendererVersion = RendererVersion, piSchemaVersion = SchemaVersion\<rparr>"

definition samplePromoteEnv :: promote_env where
  "samplePromoteEnv =
     \<lparr>pvLoad = (\<lambda>_. Some newConfig), pvMarshal = (\<lambda>cfg. Some (joinWith '','' (map fst (cfProfiles cfg)))),
      pvBuiltins = [''pi''], pvShowGrants = (\<lambda>_. []), pvShowResolved = (\<lambda>_. []),
      pvEncodePlan = (\<lambda>f. if f = \<lparr>pfKind = planKind, pfPlan = samplePlan\<rparr> then Some ''plan'' else None),
      pvDecodePlan = (\<lambda>_. Some \<lparr>pfKind = planKind, pfPlan = samplePlan\<rparr>), pvFound = None, pvCwd = None\<rparr>"

definition sampleGet :: "string \<Rightarrow> (session_error, Session) res" where
  "sampleGet i = (if i = ''sess-1'' then Inr samplePromoted else Inl ErrNotFound)"

definition emptyDisk :: disk where
  "emptyDisk = \<lparr>dkFiles = (\<lambda>_. None), dkTemps = 0, dkTick = 0, dkFault = (\<lambda>_. False), dkTorn = 0\<rparr>"

lemma sha256Hex_nonempty [simp]: "sha256Hex b \<noteq> []"
  using sha256Hex_shape [of b] by auto

lemma samplePromoted_fields:
  "seID samplePromoted = ''sess-1''" "seStatus samplePromoted = StatusCreated" "seProfile samplePromoted = []"
  "sePolicyPath samplePromoted = []" "seResolved samplePromoted = None" "seEgressGrants samplePromoted = [sampleGrant]"
  "seGrantRevision samplePromoted = 1" "seAgent samplePromoted = ''pi''" "seWorkspace samplePromoted = []"
  "seEnvironment samplePromoted = ''container''" "seNetwork samplePromoted = ''deny''"
  by (simp_all add: samplePromoted_def sampleSession_def zeroSession_def)

lemma samplePrepared:
  "Prepare \<lparr>rqTargetName = ''kept'', rqGrantIDs = [''g-0a0b0c'']\<rparr> sampleSource
     (promotionPolicySnapshot samplePromoteEnv [] False newConfig) (sha256Hex sampleCandidate)
   = Inr (samplePlan\<lparr>piTargetPolicyPath := []\<rparr>)"
  by (simp add: Prepare_def sampleSource_def samplePlan_def promotionPolicySnapshot_def samplePromoteEnv_def newConfig_def
      validPreviewStatus_def targetFree_def grantOf_def sampleGrant_def ruleOf_def putGrant_def)

lemma samplePreview:
  "\<exists>d1. cmdProfilePromotePreview samplePromoteEnv sampleGet ''kept'' ''p.cue'' ''sess-1'' [''g-0a0b0c''] ''plan.json'' emptyDisk
     = (Inr samplePlan, d1) \<and> calmDisk d1"
proof -
  let ?env = samplePromoteEnv
  have calm: "calmDisk emptyDisk" by (simp add: calmDisk_def emptyDisk_def)
  have "promotionSourceSnapshot ?env samplePromoted = Inr sampleSource"
    by (simp add: promotionSourceSnapshot_def samplePromoted_fields promotionSessionETag_def samplePromoteEnv_def sampleSource_def)
  moreover have "\<exists>prof. renderPromotionCandidate ?env ''kept'' samplePromoted newConfig [''g-0a0b0c''] = Inr (prof, sampleCandidate)"
    by (simp add: renderPromotionCandidate_def newConfig_def promotedProfile_def samplePromoted_fields renderConfigCUE_def
        samplePromoteEnv_def sampleCandidate_def Let_def)
  ultimately obtain prof where build: "buildPromotionPlan ?env ''kept'' samplePromoted newConfig ''p.cue'' [] False [''g-0a0b0c'']
      = Inr (samplePlan, prof, sampleCandidate)"
    using samplePrepared by (auto simp: buildPromotionPlan_def kernelF_def samplePlan_def)
  have load: "loadOrNewPromotionPolicy ?env ''p.cue'' emptyDisk = (Inr (''p.cue'', newConfig, [], False), emptyDisk\<lparr>dkTick := Suc 0\<rparr>)"
    using calm by (simp add: loadOrNewPromotionPolicy_def bindP_def readFile_calm) (simp add: emptyDisk_def retP_def)
  have "pvEncodePlan ?env \<lparr>pfKind = planKind, pfPlan = samplePlan\<rparr> = Some ''plan''" by (simp add: samplePromoteEnv_def)
  then obtain d1 where "WritePlan ?env ''plan.json'' samplePlan (emptyDisk\<lparr>dkTick := Suc 0\<rparr>) = (Inr (), d1)" "calmDisk d1"
    using calm by (simp add: WritePlan_def MaxPlanBytes_def writeFile_def bindP_def sysP_calm putFile_def)
  then show ?thesis using build load
    by (auto simp: cmdProfilePromotePreview_def sampleGet_def bindF_def ioF_def resF_def samplePromoteEnv_def)
qed

lemma sampleCodec:
  "\<forall>f b. pvEncodePlan samplePromoteEnv f = Some b \<longrightarrow> pvDecodePlan samplePromoteEnv (b @ [nl]) = Some f \<and> length b \<noteq> MaxPlanBytes"
  by (simp add: samplePromoteEnv_def MaxPlanBytes_def)

lemma sampleGet_facts:
  "\<forall>i s. sampleGet i = Inr s \<longrightarrow> seID s = i" "\<forall>s. sampleGet ''sess-1'' = Inr s \<longrightarrow> seStatus s \<in> {StatusCreated, StatusStopped}"
  by (auto simp: sampleGet_def samplePromoted_fields)



theorem prepared_rules_are_granted_witness:
  "\<exists>plan. Prepare \<lparr>rqTargetName = ''kept'', rqGrantIDs = [''g-0a0b0c'']\<rparr> sampleSource
       (promotionPolicySnapshot samplePromoteEnv [] False newConfig) (sha256Hex sampleCandidate) = Inr plan
     \<and> set (piRules plan) \<subseteq> ruleOf ` set (ssGrants sampleSource)"
  using prepared_rules_are_granted [OF samplePrepared] samplePrepared by blast

theorem check_accepts_unchanged_evidence_witness:
  "CheckApply (samplePlan\<lparr>piTargetPolicyPath := []\<rparr>) (sampleSource\<lparr>ssStatus := StatusStopped\<rparr>)
     (promotionPolicySnapshot samplePromoteEnv [] False newConfig) (sha256Hex sampleCandidate) True = Inr EffectReplace"
  by (simp add: check_accepts_unchanged_evidence [OF samplePrepared] promotionPolicySnapshot_def newConfig_def samplePromoteEnv_def)

end
