(* ===== verification/Evaluation.thy ===== *)
theory Evaluation
  imports EgressPolicy "HOL-Library.List_Lexorder" "HOL-Library.Char_ord"
begin

text \<open>
  The static authority evaluation of \<open>policy/evaluation.go\<close>: the facts a decoded profile states, the
  registry of findings, the credential scopes, and the evaluation built from them. The evaluation is
  pure, it reads the profile and nothing else.

  A closed string enumeration is a datatype with one constructor for every other text. A nil slice and
  an empty one are the same list, so the nil checks of the validators and the custom marshalers have no
  counterpart. A rule always has its consequence builder.
\<close>

section \<open>Enumerations\<close>

datatype finding_axis =
  AxisNetwork | AxisFiles | AxisProjection | AxisSecrets | AxisCredentials | AxisOther string

datatype finding_outcome =
  OutConcern | OutBounded | OutPass | OutFail | OutUnknown | OutNotApplicable | OutOther string

datatype finding_severity = SevCritical | SevHigh | SevMedium | SevInfo | SevOther string

datatype remediation_kind =
  RemPolicyChange | RemOperatorWorkflow | RemInstallHelper | RemRepairHelper | RemReviewAndTrust
| RemRetryCheck | RemOther string

datatype cred_access =
  AccReadOnly | AccReadWrite | AccScopedAPI | AccExternalPolicy | AccProviderDefault | AccUnknown
| AccOther string

datatype cred_lifetime = LifeShortLived | LifePersistent | LifeUnknown | LifeOther string

datatype cred_basis =
  BasisDeclared | BasisResolvedAtLaunch | BasisProviderDefault | BasisHostSnapshot | BasisOther string

fun accessText :: "cred_access \<Rightarrow> string" where
  "accessText AccReadOnly = ''read_only''"
| "accessText AccReadWrite = ''read_write''"
| "accessText AccScopedAPI = ''scoped_api''"
| "accessText AccExternalPolicy = ''external_policy''"
| "accessText AccProviderDefault = ''provider_default''"
| "accessText AccUnknown = ''unknown''"
| "accessText (AccOther t) = t"

fun lifetimeText :: "cred_lifetime \<Rightarrow> string" where
  "lifetimeText LifeShortLived = ''short_lived''"
| "lifetimeText LifePersistent = ''persistent''"
| "lifetimeText LifeUnknown = ''unknown''"
| "lifetimeText (LifeOther t) = t"

fun basisText :: "cred_basis \<Rightarrow> string" where
  "basisText BasisDeclared = ''declared''"
| "basisText BasisResolvedAtLaunch = ''resolved_at_launch''"
| "basisText BasisProviderDefault = ''provider_default''"
| "basisText BasisHostSnapshot = ''host_snapshot''"
| "basisText (BasisOther t) = t"

definition providers :: "string list" where
  "providers = [''pnpm'', ''aws'', ''gcp'', ''kube'', ''github'', ''forgejo'', ''pi-oauth'']"

section \<open>Data\<close>

record Remediation =
  rmKind :: remediation_kind
  rmActionID :: string
  rmSummary :: string
  rmDocsRef :: string

record Finding =
  fiRuleID :: string
  fiAxis :: finding_axis
  fiOutcome :: finding_outcome
  fiSeverity :: finding_severity
  fiTitle :: string
  fiConsequence :: string
  fiScopeIDs :: "string list"
  fiRemediation :: "Remediation option"

record CredScope =
  scScopeID :: string
  scProvider :: string
  scTarget :: string
  scAccess :: cred_access
  scLifetime :: cred_lifetime
  scBasis :: cred_basis

record AuthorityEvaluation =
  aeFindings :: "Finding list"
  aeScopes :: "CredScope list"

record authorityRuleContext =
  cxCount :: nat
  cxDestinations :: "string list"
  cxWrite :: bool
  cxPersistent :: bool
  cxUnknown :: bool

record authorityRule =
  arID :: string
  arAxis :: finding_axis
  arTitle :: string
  arOrdinal :: int
  arAllowed :: "(finding_outcome \<times> finding_severity) list"
  arConsequence :: "authorityRuleContext \<Rightarrow> string"
  arRemediation :: "Remediation option"

record credentialScopeDraft =
  drScope :: CredScope
  drUnknown :: bool
  drWrite :: bool

record credentialProviderAuthority =
  cpProvider :: string
  cpDrafts :: "credentialScopeDraft list"
  cpScopeIDs :: "string list"
  cpWriteScopeIDs :: "string list"
  cpUnknown :: bool
  cpHighAuthority :: bool
  cpPersistent :: bool

datatype network_reach = NetUnknown | NetHostUnrestricted | NetContainerOpen | NetContainerAllowlisted

datatype file_reach = FilesUnknown | FilesHostAccount | FilesWorkspace

datatype projection_reach = ProjUnknown | ProjLiveHostConfig | ProjAbsent | ProjNotApplicable

record authorityFacts =
  afNetwork :: network_reach
  afOpenEgress :: bool
  afFiles :: file_reach
  afProjection :: projection_reach
  afProjectionLabels :: "string list"
  afSecretNames :: "string list"
  afEgressDestinations :: "string list"
  afEgressValid :: bool
  afEgressCount :: nat
  afEgressIgnored :: bool
  afScopes :: "CredScope list"
  afProviders :: "credentialProviderAuthority list"

definition noContext :: authorityRuleContext where
  "noContext = \<lparr>cxCount = 0, cxDestinations = [], cxWrite = False, cxPersistent = False, cxUnknown = False\<rparr>"

section \<open>Sorting\<close>

text \<open>\<open>sort.SliceStable\<close> with a comparison function, as insertion behind equal elements.\<close>

fun insertStable :: "('a \<Rightarrow> 'a \<Rightarrow> bool) \<Rightarrow> 'a \<Rightarrow> 'a list \<Rightarrow> 'a list" where
  "insertStable lt x [] = [x]"
| "insertStable lt x (y # ys) = (if lt y x then y # insertStable lt x ys else x # y # ys)"

definition sortStable :: "('a \<Rightarrow> 'a \<Rightarrow> bool) \<Rightarrow> 'a list \<Rightarrow> 'a list" where
  "sortStable lt xs = foldr (insertStable lt) xs []"

section \<open>Value-free text\<close>

definition forbiddenMarkers :: "string list" where
  "forbiddenMarkers =
   [''op://'', ''env:'', ''~/'', ''$home/'', ''${home}/'', ''../'', ''..'' @ [CHR 0x5C], ''.ssh/'',
    ''secrets.env'', ''private_key'', ''private-key'', ''private key ref'', ''key-ref'', ''token-ref'',
    ''account-link:'', ''/users/'', ''/home/'', ''/private/'', ''/tmp/'',
    ''c:'' @ [CHR 0x5C] @ ''users'' @ [CHR 0x5C]]"

definition containsForbiddenMaterial :: "string \<Rightarrow> bool" where
  "containsForbiddenMaterial v \<longleftrightarrow>
     list_ex (contains (toLower v)) forbiddenMarkers \<or> hasPrefix (trimSpace v) ''/''"

text \<open>\<open>unicode.IsControl\<close> and the runes of \<open>unicode.Bidi_Control\<close>.\<close>

definition controlChar :: "nat \<Rightarrow> bool" where
  "controlChar r \<longleftrightarrow> r < 0x20 \<or> 0x7F \<le> r \<and> r \<le> 0x9F"

definition bidiRune :: "nat \<Rightarrow> bool" where
  "bidiRune r \<longleftrightarrow> r = 0x061C \<or> r = 0x200E \<or> r = 0x200F \<or> 0x202A \<le> r \<and> r \<le> 0x202E
                  \<or> 0x2066 \<le> r \<and> r \<le> 0x2069"

definition safeMetadataBasics :: "string \<Rightarrow> bool" where
  "safeMetadataBasics v \<longleftrightarrow>
     \<not> (v = [] \<or> v \<noteq> trimSpace v \<or> length v > 512 \<or> containsForbiddenMaterial v)
   \<and> list_all (\<lambda>r. \<not> controlChar r \<and> \<not> bidiRune r) (runes v)"

definition dropPrefix :: "string \<Rightarrow> string \<Rightarrow> string" where
  "dropPrefix s p = (if hasPrefix s p then drop (length p) s else s)"

definition safeValueFreeMetadata :: "string \<Rightarrow> bool" where
  "safeValueFreeMetadata v \<longleftrightarrow>
     safeMetadataBasics v
   \<and> (contains v ''/'' \<longrightarrow>
        (let lower = toLower v in
         hasPrefix lower ''https://'' \<and> \<not> contains (dropPrefix lower ''https://'') ''@''
       \<or> hasPrefix v ''arn:'' \<or> hasPrefix v ''role arn:''))"

definition isAlnum :: "char \<Rightarrow> bool" where
  "isAlnum c \<longleftrightarrow> isDigit c \<or> isLower c \<or> isUpper c"

text \<open>\<open>^[A-Za-z0-9](?:[A-Za-z0-9.-]*[A-Za-z0-9])?$\<close>\<close>

definition registryHostPattern :: "string \<Rightarrow> bool" where
  "registryHostPattern s \<longleftrightarrow>
     s \<noteq> [] \<and> isAlnum (hd s) \<and> isAlnum (last s)
   \<and> list_all (\<lambda>c. isAlnum c \<or> c = CHR ''.'' \<or> c = CHR ''-'') s"

text \<open>\<open>^[A-Za-z0-9._-]+/[A-Za-z0-9._-]+$\<close>\<close>

definition repositoryPart :: "string \<Rightarrow> bool" where
  "repositoryPart s \<longleftrightarrow>
     s \<noteq> [] \<and> list_all (\<lambda>c. isAlnum c \<or> c = CHR ''.'' \<or> c = CHR ''_'' \<or> c = CHR ''-'') s"

definition repositoryPattern :: "string \<Rightarrow> bool" where
  "repositoryPattern s \<longleftrightarrow>
     length (splitOn CHR ''/'' s) = 2 \<and> list_all repositoryPart (splitOn CHR ''/'' s)"

text \<open>\<open>^[a-z0-9]+(?:[.-][a-z0-9]+)*$\<close>, and the same without the dot.\<close>

definition lowerWord :: "string \<Rightarrow> bool" where
  "lowerWord s \<longleftrightarrow> s \<noteq> [] \<and> list_all fqdnAlnum s"

definition actionIDPattern :: "string \<Rightarrow> bool" where
  "actionIDPattern s \<longleftrightarrow> list_all lowerWord (splitOn CHR ''-'' s)"

definition stableIDPattern :: "string \<Rightarrow> bool" where
  "stableIDPattern s \<longleftrightarrow> list_all actionIDPattern (splitOn CHR ''.'' s)"

text \<open>\<open>^credential\.(pnpm|aws|gcp|kube|github|forgejo|pi-oauth)\.[0-9]{3}$\<close>\<close>

definition credentialIDPattern :: "string \<Rightarrow> bool" where
  "credentialIDPattern s \<longleftrightarrow>
     list_ex (\<lambda>p. let pre = ''credential.'' @ p @ ''.'' in
        hasPrefix s pre \<and> length s = length pre + 3 \<and> list_all isDigit (drop (length pre) s)) providers"

definition safeRegistryHost :: "string \<Rightarrow> bool" where
  "safeRegistryHost host \<longleftrightarrow>
     host \<noteq> [] \<and> \<not> contains host ''..'' \<and> registryHostPattern host \<and> safeValueFreeMetadata host"

definition safeRepositoryTarget :: "string \<Rightarrow> bool" where
  "safeRepositoryTarget repo \<longleftrightarrow> repositoryPattern repo \<and> safeMetadataBasics repo"

definition safeForgeURL :: "string \<Rightarrow> bool" where
  "safeForgeURL raw \<longleftrightarrow>
     \<not> (raw = [] \<or> \<not> safeValueFreeMetadata raw)
   \<and> hasPrefix raw ''https://'' \<and> \<not> contains (dropPrefix raw ''https://'') ''@''"

definition safeDestination :: "string \<Rightarrow> bool" where
  "safeDestination d \<longleftrightarrow>
     (let candidate = dropPrefix d ''.'' in
      \<not> (candidate = [] \<or> contains candidate ''..'' \<or> \<not> registryHostPattern candidate
         \<or> \<not> safeValueFreeMetadata d))"

definition valueFreeEgressDestinations :: "string list \<Rightarrow> string list \<times> bool" where
  "valueFreeEgressDestinations ds =
     (if ds = [] then ([], True)
      else if list_all safeDestination ds then (sort ds, True) else ([], False))"

section \<open>Credential scopes\<close>

definition scopeOf :: "string \<Rightarrow> cred_access \<Rightarrow> cred_lifetime \<Rightarrow> cred_basis \<Rightarrow> CredScope" where
  "scopeOf target access lifetime basis =
     \<lparr>scScopeID = [], scProvider = [], scTarget = target, scAccess = access, scLifetime = lifetime,
      scBasis = basis\<rparr>"

definition draftOf ::
  "string \<Rightarrow> cred_access \<Rightarrow> cred_lifetime \<Rightarrow> cred_basis \<Rightarrow> bool \<Rightarrow> bool \<Rightarrow> credentialScopeDraft" where
  "draftOf target access lifetime basis unknown write =
     \<lparr>drScope = scopeOf target access lifetime basis, drUnknown = unknown, drWrite = write\<rparr>"

definition providerOf ::
  "string \<Rightarrow> bool \<Rightarrow> bool \<Rightarrow> bool \<Rightarrow> credentialScopeDraft list \<Rightarrow> credentialProviderAuthority" where
  "providerOf name unknown high persistent drafts =
     \<lparr>cpProvider = name, cpDrafts = drafts, cpScopeIDs = [], cpWriteScopeIDs = [],
      cpUnknown = unknown, cpHighAuthority = high, cpPersistent = persistent\<rparr>"

definition credentialWriteAccess :: "bool \<Rightarrow> cred_access" where
  "credentialWriteAccess write = (if write then AccReadWrite else AccReadOnly)"

definition pnpmCredentialAuthority :: "PnpmRegistry list \<Rightarrow> credentialProviderAuthority" where
  "pnpmCredentialAuthority registries =
     providerOf ''pnpm'' False True True
       (map (\<lambda>r. draftOf (if safeRegistryHost (pnpmHost r) then pnpmHost r else ''declared registry'')
                   AccExternalPolicy LifePersistent BasisDeclared
                   (pnpmToken r = [] \<or> \<not> safeRegistryHost (pnpmHost r)) False)
          registries)"

definition awsTarget :: "AwsSso \<Rightarrow> string \<times> bool" where
  "awsTarget aws =
     (if awsRoleArn aws \<noteq> [] \<and> safeValueFreeMetadata (awsRoleArn aws) then (''role '' @ awsRoleArn aws, False)
      else if awsRoleArn aws \<noteq> [] then (''declared AWS identity'', True)
      else if awsProfile aws \<noteq> [] \<and> safeValueFreeMetadata (awsProfile aws)
        then (''profile '' @ awsProfile aws, False)
      else (''declared AWS identity'', True))"

definition awsCredentialAuthority :: "AwsSso \<Rightarrow> credentialProviderAuthority" where
  "awsCredentialAuthority aws =
     providerOf ''aws'' False True False
       [draftOf (fst (awsTarget aws)) AccExternalPolicy LifeShortLived BasisResolvedAtLaunch
          (snd (awsTarget aws) \<or> (awsRoleArn aws = []) \<noteq> (awsSessionPolicy aws = [])) False]"

definition gcpCredentialAuthority :: "GcpAdc \<Rightarrow> credentialProviderAuthority" where
  "gcpCredentialAuthority gcp =
     providerOf ''gcp'' False True False
       (if gcpScopes gcp = []
        then [draftOf ''ADC default scopes'' AccProviderDefault LifeShortLived BasisProviderDefault False False]
        else map (\<lambda>s. let unknown = \<not> safeValueFreeMetadata s in
                    draftOf (if unknown then ''declared GCP API scope'' else s)
                      AccScopedAPI LifeShortLived BasisDeclared unknown False)
               (gcpScopes gcp))"

definition kubeTarget :: "KubeCluster \<Rightarrow> string \<times> bool" where
  "kubeTarget kube =
     (case (kubeEks kube, kubeGke kube) of
        (Some eks, None) \<Rightarrow>
          if safeValueFreeMetadata (eksName eks) then (eksName eks, False) else (''declared cluster'', True)
      | (None, Some gke) \<Rightarrow>
          if safeValueFreeMetadata (gkeName gke) then (gkeName gke, False) else (''declared cluster'', True)
      | _ \<Rightarrow> (''declared cluster'', True))"

definition kubeCredentialAuthority :: "KubeCluster \<Rightarrow> credentialProviderAuthority" where
  "kubeCredentialAuthority kube =
     providerOf ''kube'' False True False
       [draftOf (fst (kubeTarget kube)) AccExternalPolicy LifeShortLived BasisDeclared
          (snd (kubeTarget kube)) False]"

definition repositoryCredentialDrafts ::
  "RepoCred list \<Rightarrow> bool \<Rightarrow> cred_lifetime \<Rightarrow> string \<Rightarrow> bool \<Rightarrow> credentialScopeDraft list" where
  "repositoryCredentialDrafts repos providerWrite lifetime fallback forceUnknown =
     map (\<lambda>repo.
       let effectiveWrite = providerWrite \<or> repoWrite repo; safe = safeRepositoryTarget (repoName repo) in
       draftOf (if safe then repoName repo else fallback)
         (if forceUnknown then AccUnknown else credentialWriteAccess effectiveWrite)
         lifetime BasisDeclared
         (forceUnknown \<or> \<not> safe \<or> lifetime = LifeUnknown) effectiveWrite) repos"

text \<open>The credential mode: its lifetime, and whether the metadata around it is malformed.\<close>

definition githubMode :: "GithubCreds \<Rightarrow> cred_lifetime \<times> bool" where
  "githubMode github =
     (let mode = (if ghMode github = [] then ''app'' else ghMode github) in
      if mode = ''app'' then (LifeShortLived, ghPat github \<noteq> [])
      else if mode = ''pat'' then (LifePersistent, ghPat github = [] \<or> ghRepos github = [])
      else (LifeUnknown, True))"

definition emDash :: string where
  "emDash = [CHR 0xE2, CHR 0x80, CHR 0x94]"

definition githubAPIDrafts :: "GithubApi \<Rightarrow> cred_lifetime \<Rightarrow> credentialScopeDraft list \<times> bool" where
  "githubAPIDrafts api lifetime =
     (if ghApiPermissions api = []
      then ([draftOf ''GitHub API default permissions'' AccProviderDefault lifetime BasisProviderDefault
               False False], False)
      else (map (\<lambda>permission.
              let bad = \<not> safeValueFreeMetadata permission in
              draftOf (if bad then ''declared GitHub API permission''
                       else permission @ '' '' @ emDash @ '' repository and permission downscoped'')
                AccScopedAPI lifetime BasisDeclared bad False) (ghApiPermissions api),
            list_ex (\<lambda>permission. \<not> safeValueFreeMetadata permission) (ghApiPermissions api)))"

definition originDraft :: "bool \<Rightarrow> cred_lifetime \<Rightarrow> bool \<Rightarrow> credentialScopeDraft" where
  "originDraft write lifetime unknown =
     draftOf ''origin'' (credentialWriteAccess write) lifetime BasisResolvedAtLaunch unknown write"

text \<open>The tail both forges share: a draft that writes or is unknown gives the provider high authority.\<close>

definition raiseAuthority :: "credentialProviderAuthority \<Rightarrow> credentialProviderAuthority" where
  "raiseAuthority provider =
     provider\<lparr>cpHighAuthority :=
       cpHighAuthority provider \<or> list_ex (\<lambda>d. drWrite d \<or> drUnknown d) (cpDrafts provider)\<rparr>"

definition githubCredentialAuthority :: "GithubCreds \<Rightarrow> credentialProviderAuthority" where
  "githubCredentialAuthority github =
     (let lifetime = fst (githubMode github); unknownMode = snd (githubMode github);
          drafts = (if ghRepos github = [] then [originDraft (ghWrite github) lifetime unknownMode]
                    else repositoryCredentialDrafts (ghRepos github) (ghWrite github) lifetime
                           ''declared GitHub repository'' unknownMode);
          provider = providerOf ''github'' False False (lifetime = LifePersistent) drafts in
      raiseAuthority
        (case ghApi github of
           None \<Rightarrow> provider
         | Some api \<Rightarrow>
             if ghApiEnabled api
             then let (apiDrafts, unknown) = githubAPIDrafts api lifetime in
                  provider\<lparr>cpDrafts := drafts @ apiDrafts, cpUnknown := unknown, cpHighAuthority := True\<rparr>
             else provider))"

definition forgejoAPIDraft :: "ForgejoApi \<Rightarrow> credentialScopeDraft" where
  "forgejoAPIDraft api =
     draftOf ''operator-provisioned scope unverified; may be account-wide'' AccExternalPolicy
       LifePersistent BasisProviderDefault (\<not> fjAckAccountWide api) False"

definition forgejoCredentialAuthority :: "ForgejoCreds \<Rightarrow> credentialProviderAuthority" where
  "forgejoCredentialAuthority forgejo =
     (let drafts = (if fjRepos forgejo = [] then [originDraft (fjWrite forgejo) LifeShortLived False]
                    else repositoryCredentialDrafts (fjRepos forgejo) (fjWrite forgejo) LifeShortLived
                           ''declared Forgejo repository'' False);
          unknown = (length (fjRepos forgejo) > 1 \<and> \<not> safeForgeURL (fjURL forgejo));
          provider = providerOf ''forgejo'' unknown False False drafts in
      raiseAuthority
        (case fjApi forgejo of
           None \<Rightarrow> provider
         | Some api \<Rightarrow>
             if fjApiEnabled api
             then provider\<lparr>cpDrafts := drafts @ [forgejoAPIDraft api], cpPersistent := True,
                           cpHighAuthority := True\<rparr>
             else provider))"

definition piOAuthCredentialAuthority :: "PiCreds \<Rightarrow> credentialProviderAuthority" where
  "piOAuthCredentialAuthority pi =
     (let known = (piProvider pi = ''openai-codex'' \<and> piModel pi = ''gpt-5.6-luna'') in
      providerOf ''pi-oauth'' False True False
        [draftOf (if known then piProvider pi @ ''/'' @ piModel pi else ''declared Pi OAuth provider/model'')
           AccProviderDefault LifeShortLived BasisHostSnapshot (\<not> known) False])"

definition draftLess :: "credentialScopeDraft \<Rightarrow> credentialScopeDraft \<Rightarrow> bool" where
  "draftLess x y =
     (let a = drScope x; b = drScope y in
      if scTarget a \<noteq> scTarget b then scTarget a < scTarget b
      else if scAccess a \<noteq> scAccess b then accessText (scAccess a) < accessText (scAccess b)
      else if scLifetime a \<noteq> scLifetime b then lifetimeText (scLifetime a) < lifetimeText (scLifetime b)
      else basisText (scBasis a) < basisText (scBasis b))"

text \<open>\<open>fmt.Sprintf("credential.%s.%03d", provider, n)\<close>\<close>

definition scopeID :: "string \<Rightarrow> nat \<Rightarrow> string" where
  "scopeID provider n =
     ''credential.'' @ provider @ ''.'' @ replicate (3 - length (natText n)) CHR ''0'' @ natText n"

fun numberDrafts :: "string \<Rightarrow> nat \<Rightarrow> credentialScopeDraft list \<Rightarrow> credentialScopeDraft list" where
  "numberDrafts provider n [] = []"
| "numberDrafts provider n (d # ds) =
     d\<lparr>drScope := (drScope d)\<lparr>scScopeID := scopeID provider n, scProvider := provider\<rparr>\<rparr>
     # numberDrafts provider (Suc n) ds"

definition finishProvider ::
  "credentialProviderAuthority \<Rightarrow> CredScope list \<times> credentialProviderAuthority" where
  "finishProvider provider =
     (let drafts = sortStable draftLess (cpDrafts provider);
          numbered = numberDrafts (cpProvider provider) 1 drafts in
      (map drScope numbered,
       provider\<lparr>cpDrafts := drafts,
                cpScopeIDs := map (\<lambda>d. scScopeID (drScope d)) numbered,
                cpWriteScopeIDs := map (\<lambda>d. scScopeID (drScope d)) (filter drWrite numbered),
                cpUnknown := cpUnknown provider \<or> list_ex drUnknown numbered\<rparr>))"

definition declaredProviders :: "Credentials \<Rightarrow> credentialProviderAuthority list" where
  "declaredProviders c =
     (if crPnpm c = [] then [] else [pnpmCredentialAuthority (crPnpm c)])
     @ (case crAws c of None \<Rightarrow> [] | Some x \<Rightarrow> [awsCredentialAuthority x])
     @ (case crGcp c of None \<Rightarrow> [] | Some x \<Rightarrow> [gcpCredentialAuthority x])
     @ (case crKube c of None \<Rightarrow> [] | Some x \<Rightarrow> [kubeCredentialAuthority x])
     @ (case crGithub c of None \<Rightarrow> [] | Some x \<Rightarrow> [githubCredentialAuthority x])
     @ (case crForgejo c of None \<Rightarrow> [] | Some x \<Rightarrow> [forgejoCredentialAuthority x])
     @ (case crPi c of None \<Rightarrow> [] | Some x \<Rightarrow> [piOAuthCredentialAuthority x])"

definition normalizeCredentialAuthority ::
  "Credentials option \<Rightarrow> CredScope list \<times> credentialProviderAuthority list" where
  "normalizeCredentialAuthority c =
     (case c of
        None \<Rightarrow> ([], [])
      | Some c \<Rightarrow>
          let finished = map finishProvider (declaredProviders c) in
          (concat (map fst finished), map snd finished))"

section \<open>Facts\<close>

definition networkOf :: "Profile \<Rightarrow> network_reach" where
  "networkOf p =
     (if prEnvironment p = ''host'' then NetHostUnrestricted
      else if prEnvironment p = ''container'' \<and> prNetwork p = ''allow'' then NetContainerOpen
      else if prEnvironment p = ''container'' \<and> prNetwork p = ''deny'' then NetContainerAllowlisted
      else NetUnknown)"

definition filesOf :: "Profile \<Rightarrow> file_reach" where
  "filesOf p =
     (if prEnvironment p = ''host'' then FilesHostAccount
      else if prEnvironment p = ''container'' then FilesWorkspace else FilesUnknown)"

definition projectionLabel :: "ProjectionItem \<Rightarrow> string" where
  "projectionLabel item = (if pjLabel item = [] then pjSource item else pjLabel item)"

definition projectionOf :: "Profile \<Rightarrow> projection_reach \<times> string list" where
  "projectionOf p =
     (if prEnvironment p = ''host'' then (ProjNotApplicable, [])
      else if prEnvironment p \<noteq> ''container'' then (ProjUnknown, [])
      else case prProjection p of
        None \<Rightarrow> (ProjAbsent, [])
      | Some pj \<Rightarrow>
          if \<not> pjEnabled pj \<and> pjItems pj = [] then (ProjAbsent, [])
          else if pjEnabled pj \<and> pjItems pj \<noteq> []
            then (ProjLiveHostConfig, sort (map projectionLabel (pjItems pj)))
          else (ProjUnknown, []))"

definition normalizeAuthorityFacts :: "Profile \<Rightarrow> authorityFacts" where
  "normalizeAuthorityFacts p =
     (let destinations = valueFreeEgressDestinations (prEgress p);
          credentials = normalizeCredentialAuthority (prCredentials p) in
      \<lparr>afNetwork = networkOf p,
       afOpenEgress = (prEnvironment p = ''host'' \<or> prNetwork p = ''allow''),
       afFiles = filesOf p,
       afProjection = fst (projectionOf p),
       afProjectionLabels = snd (projectionOf p),
       afSecretNames = sort (map fst (prSecrets p)),
       afEgressDestinations = fst destinations,
       afEgressValid = snd destinations,
       afEgressCount = length (prEgress p),
       afEgressIgnored = (length (prEgress p) > 0 \<and> networkOf p \<noteq> NetContainerAllowlisted),
       afScopes = fst credentials,
       afProviders = snd credentials\<rparr>)"

text \<open>The first provider of that name decides, as the loop returns there.\<close>

fun providerHasWrite :: "credentialProviderAuthority list \<Rightarrow> string \<Rightarrow> bool" where
  "providerHasWrite [] provider = False"
| "providerHasWrite (p # ps) provider =
     (if cpProvider p = provider then cpWriteScopeIDs p \<noteq> [] else providerHasWrite ps provider)"

definition compatibilityRuleApplies :: "authorityFacts \<Rightarrow> string \<Rightarrow> bool" where
  "compatibilityRuleApplies f ruleID =
     (if ruleID = ''github-write-open-egress''
        then afOpenEgress f \<and> providerHasWrite (afProviders f) ''github''
      else if ruleID = ''forgejo-write-open-egress''
        then afOpenEgress f \<and> providerHasWrite (afProviders f) ''forgejo''
      else if ruleID = ''egress-ignored'' then afEgressIgnored f
      else False)"

section \<open>The registry of findings\<close>

definition countNoun :: "nat \<Rightarrow> string \<Rightarrow> string" where
  "countNoun count noun = (if count = 1 then ''1 '' @ noun else natText count @ '' '' @ noun @ ''s'')"

text \<open>The phrase and its verb, with the blank the callers print between them.\<close>

definition credentialScopePhrase :: "nat \<Rightarrow> string \<Rightarrow> string" where
  "credentialScopePhrase count qualifier =
     (if count = 1 then ''1 '' @ qualifier @ '' credential scope is''
      else natText count @ '' '' @ qualifier @ '' credential scopes are'')"

definition fixedConsequence :: "string \<Rightarrow> authorityRuleContext \<Rightarrow> string" where
  "fixedConsequence t c = t"

definition forgeCredentialConsequence :: "string \<Rightarrow> authorityRuleContext \<Rightarrow> string" where
  "forgeCredentialConsequence label c =
     credentialScopePhrase (cxCount c)
       ((if cxPersistent c then ''persistent'' else ''short-lived'') @ '' '' @ label)
     @ (if cxUnknown c
        then '' present, but malformed or future metadata prevents a complete authority classification.''
        else if cxWrite c then '' available; at least one repository grants effective write access.''
        else '' declared read-only.'')"

definition evaluationDocs :: string where
  "evaluationDocs = ''specs/0101-profile-safety-evaluation.md''"

definition authorityRemediation :: "string \<Rightarrow> string \<Rightarrow> string \<Rightarrow> Remediation option" where
  "authorityRemediation actionID summary anchor =
     Some \<lparr>rmKind = RemPolicyChange, rmActionID = actionID, rmSummary = summary,
           rmDocsRef = evaluationDocs @ anchor\<rparr>"

definition authRule ::
  "string \<Rightarrow> finding_axis \<Rightarrow> int \<Rightarrow> string \<Rightarrow> (finding_outcome \<times> finding_severity) list
   \<Rightarrow> (authorityRuleContext \<Rightarrow> string) \<Rightarrow> Remediation option \<Rightarrow> authorityRule" where
  "authRule i axis ordinal title allowed consequence remediation =
     \<lparr>arID = i, arAxis = axis, arTitle = title, arOrdinal = ordinal, arAllowed = allowed,
      arConsequence = consequence, arRemediation = remediation\<rparr>"

definition credentialRuleID :: "string \<Rightarrow> string" where
  "credentialRuleID provider = ''authority.credentials.'' @ provider"

definition credentialRule ::
  "string \<Rightarrow> int \<Rightarrow> string \<Rightarrow> (authorityRuleContext \<Rightarrow> string) \<Rightarrow> authorityRule" where
  "credentialRule provider ordinal title consequence =
     authRule (credentialRuleID provider) AxisCredentials ordinal title
       [(OutConcern, SevMedium), (OutConcern, SevHigh), (OutUnknown, SevHigh)]
       consequence
       (authorityRemediation (''reduce-'' @ provider @ ''-credential-scope'')
          ''Remove this provider when unnecessary or narrow its declared target and access.''
          ''#authority-credentials'')"

definition authorityRuleRegistry :: "authorityRule list" where
  "authorityRuleRegistry =
   [authRule ''authority.network.host-unrestricted'' AxisNetwork 100 ''Host network is unrestricted''
      [(OutConcern, SevCritical)]
      (fixedConsequence ''A compromised run uses the full host network and can send data to any destination reachable by the account.'')
      (authorityRemediation ''use-container-deny''
      ''Use a container profile with network deny for enforceable egress limits.'' ''#authority-network''),
    authRule ''authority.network.container-open-egress'' AxisNetwork 110 ''Container egress is open''
      [(OutConcern, SevHigh)]
      (fixedConsequence ''The container limits host file reach, but a compromised run can send reachable data to arbitrary internet destinations.'')
      (authorityRemediation ''set-network-deny''
      ''Set network to deny and keep only reviewed allowlist destinations.'' ''#authority-network''),
    authRule ''authority.network.unknown'' AxisNetwork 120 ''Network authority is unknown''
      [(OutUnknown, SevCritical)]
      (fixedConsequence ''The environment or network mode is not recognized; assume a compromised run can reach unrestricted network destinations.'')
      (authorityRemediation ''review-network-policy''
      ''Choose a recognized environment and explicit network mode before launch.'' ''#authority-network''),
    authRule ''egress-ignored'' AxisNetwork 130 ''Configured egress destinations are ignored''
      [(OutConcern, SevMedium)]
      (\<lambda>c. countNoun (cxCount c) ''egress destination'' @ '' configured egress destination does not constrain actual reach because allowlists apply only to container profiles with network deny.'')
      (authorityRemediation ''make-egress-enforceable''
      ''Use a container with network deny, or remove the ineffective egress declaration.'' ''#authority-network''),
    authRule ''authority.network.container-allowlist'' AxisNetwork 140 ''Container egress is allowlisted''
      [(OutBounded, SevInfo)]
      (\<lambda>c. if cxDestinations c = []
        then ''Egress is limited to engine, agent, and resolved-package allowlist destinations; every allowed destination remains a possible exfiltration channel.''
        else ''Egress is allowlisted; declared destinations '' @ joinWith '', '' (cxDestinations c)
             @ '' remain possible exfiltration channels.'')
      None,
    authRule ''authority.files.host-account'' AxisFiles 200 ''Host account files are reachable''
      [(OutConcern, SevCritical)]
      (fixedConsequence ''A compromised run executes as the user and can read or modify the whole account, including any file the account can access.'')
      (authorityRemediation ''use-workspace-boundary''
      ''Use a container profile so writable host reach is limited to the workspace.'' ''#authority-files''),
    authRule ''authority.files.unknown'' AxisFiles 210 ''Host file reach is unknown''
      [(OutUnknown, SevCritical)]
      (fixedConsequence ''The environment is not recognized; conservatively assume the whole host account is readable and writable.'')
      (authorityRemediation ''review-file-boundary''
      ''Choose a recognized environment with an explicit file boundary before launch.'' ''#authority-files''),
    authRule ''authority.files.workspace'' AxisFiles 220 ''Workspace is readable and writable''
      [(OutBounded, SevInfo)]
      (fixedConsequence ''The container can read and modify the mounted workspace; other host config is reachable only when separately reported as a projection.'')
      None,
    authRule ''authority.projection.live-host-config'' AxisProjection 300 ''Live host config is projected''
      [(OutConcern, SevMedium)]
      (\<lambda>c. countNoun (cxCount c) ''projected live host config item'' @ '' is copied read-only into the ephemeral home; its readable instruction or configuration authority is not content-pinned by the policy hash.'')
      (authorityRemediation ''review-builtin-projection''
      ''Review the builtin projection or choose a profile without projected host config.'' ''#authority-projection''),
    authRule ''authority.projection.unknown'' AxisProjection 310 ''Projection authority is unknown''
      [(OutUnknown, SevHigh)]
      (fixedConsequence ''The projection shape is inconsistent with the engine-owned model; assume additional live host configuration may be readable.'')
      (authorityRemediation ''review-projection-policy''
      ''Use a recognized engine-owned projection before launch.'' ''#authority-projection''),
    authRule ''authority.projection.absent'' AxisProjection 320 ''No host config projection''
      [(OutBounded, SevInfo)]
      (fixedConsequence ''No engine-owned host configuration is projected into the container beyond the separately reported workspace mount.'')
      None,
    authRule ''authority.projection.not-applicable'' AxisProjection 330 ''Projection boundary is not applicable''
      [(OutNotApplicable, SevInfo)]
      (fixedConsequence ''A host run already has whole-account file reach, so a separate read-only projection does not bound its authority.'')
      None,
    authRule ''authority.secrets.injected'' AxisSecrets 400 ''Secrets are injected''
      [(OutConcern, SevHigh)]
      (\<lambda>c. countNoun (cxCount c) ''secret'' @ '' injected secret is readable by the run and can be used or exfiltrated within its network authority; names, references, and values are withheld.'')
      (authorityRemediation ''reduce-secret-injection''
      ''Remove secrets the run does not require or use a narrower dedicated credential.'' ''#authority-secrets''),
    authRule ''authority.secrets.absent'' AxisSecrets 410 ''No declared secret injection''
      [(OutBounded, SevInfo)]
      (fixedConsequence ''The profile declares no direct secret injection; credential providers are evaluated separately.'')
      None,
    authRule ''github-write-open-egress'' AxisCredentials 500 ''GitHub write authority has unrestricted egress''
      [(OutConcern, SevCritical)]
      (fixedConsequence ''A compromised run can exfiltrate a write-capable GitHub credential and use it outside the boundary against the linked repository scope.'')
      (authorityRemediation ''bound-github-write-egress''
      ''Use network deny with reviewed forge destinations, or make every GitHub repository scope read-only.'' ''#authority-credentials''),
    authRule ''forgejo-write-open-egress'' AxisCredentials 510 ''Forgejo write authority has unrestricted egress''
      [(OutConcern, SevCritical)]
      (fixedConsequence ''A compromised run can exfiltrate a write-capable Forgejo credential and use it outside the boundary against the linked repository scope.'')
      (authorityRemediation ''bound-forgejo-write-egress''
      ''Use network deny with reviewed forge destinations, or make every Forgejo repository scope read-only.'' ''#authority-credentials''),
    credentialRule ''pnpm'' 520 ''Registry credential authority''
      (\<lambda>c. credentialScopePhrase (cxCount c) ''persistent registry'' @ '' available to the run; registry policy controls whether it can read, publish, or administer packages.''),
    credentialRule ''aws'' 530 ''AWS credential authority''
      (\<lambda>c. credentialScopePhrase (cxCount c) ''short-lived AWS'' @ '' resolved at launch; effective permissions remain controlled by external IAM policy.''),
    credentialRule ''gcp'' 540 ''GCP credential authority''
      (\<lambda>c. credentialScopePhrase (cxCount c) ''short-lived GCP'' @ '' available to the run; declared API scopes or provider defaults bound only part of effective cloud authority.''),
    credentialRule ''kube'' 550 ''Kubernetes credential authority''
      (\<lambda>c. credentialScopePhrase (cxCount c) ''short-lived cluster'' @ '' available to the run; effective actions remain controlled by cluster RBAC.''),
    credentialRule ''github'' 560 ''GitHub credential authority''
      (forgeCredentialConsequence ''GitHub''),
    credentialRule ''forgejo'' 570 ''Forgejo credential authority''
      (forgeCredentialConsequence ''Forgejo''),
    credentialRule ''pi-oauth'' 580 ''Pi OAuth access authority''
      (\<lambda>c. credentialScopePhrase (cxCount c) ''short-lived Pi OAuth'' @ '' available as replayable provider-default bearer authority; model selection and egress do not cryptographically downscope it.''),
    authRule ''authority.credentials.absent'' AxisCredentials 590 ''No credential providers declared''
      [(OutBounded, SevInfo)]
      (fixedConsequence ''The profile declares no staged credential provider; direct secret injection is evaluated separately.'')
      None]"

definition authorityRulesByID :: "string \<Rightarrow> authorityRule option" where
  "authorityRulesByID i = find (\<lambda>r. arID r = i) authorityRuleRegistry"

section \<open>The evaluation\<close>

definition makeAuthorityFinding ::
  "string \<Rightarrow> finding_outcome \<Rightarrow> finding_severity \<Rightarrow> authorityRuleContext \<Rightarrow> string list \<Rightarrow> Finding" where
  "makeAuthorityFinding ruleID outcome severity cx scopeIDs =
     (case authorityRulesByID ruleID of
        None \<Rightarrow>
          \<lparr>fiRuleID = ruleID, fiAxis = AxisCredentials, fiOutcome = OutUnknown, fiSeverity = SevCritical,
           fiTitle = ''Unregistered authority rule'',
           fiConsequence = ''An unregistered engine rule prevented a complete authority classification.'',
           fiScopeIDs = scopeIDs,
           fiRemediation = Some \<lparr>rmKind = RemRetryCheck, rmActionID = ''update-evaluation-engine'',
             rmSummary = ''Update safeslop and retry the evaluation.'', rmDocsRef = evaluationDocs\<rparr>\<rparr>
      | Some rule \<Rightarrow>
          \<lparr>fiRuleID = arID rule, fiAxis = arAxis rule, fiOutcome = outcome, fiSeverity = severity,
           fiTitle = arTitle rule, fiConsequence = arConsequence rule cx, fiScopeIDs = scopeIDs,
           fiRemediation = arRemediation rule\<rparr>)"

definition evaluateNetworkAuthority :: "authorityFacts \<Rightarrow> Finding list" where
  "evaluateNetworkAuthority facts =
     (case afNetwork facts of
        NetHostUnrestricted \<Rightarrow>
          [makeAuthorityFinding ''authority.network.host-unrestricted'' OutConcern SevCritical noContext []]
      | NetContainerOpen \<Rightarrow>
          [makeAuthorityFinding ''authority.network.container-open-egress'' OutConcern SevHigh noContext []]
      | NetContainerAllowlisted \<Rightarrow>
          if \<not> afEgressValid facts
          then [makeAuthorityFinding ''authority.network.unknown'' OutUnknown SevCritical noContext []]
          else [makeAuthorityFinding ''authority.network.container-allowlist'' OutBounded SevInfo
                  (noContext\<lparr>cxDestinations := afEgressDestinations facts\<rparr>) []]
      | NetUnknown \<Rightarrow>
          [makeAuthorityFinding ''authority.network.unknown'' OutUnknown SevCritical noContext []])
     @ (if compatibilityRuleApplies facts ''egress-ignored''
        then [makeAuthorityFinding ''egress-ignored'' OutConcern SevMedium
                (noContext\<lparr>cxCount := afEgressCount facts\<rparr>) []]
        else [])"

definition evaluateFileAuthority :: "authorityFacts \<Rightarrow> Finding list" where
  "evaluateFileAuthority facts =
     (case afFiles facts of
        FilesHostAccount \<Rightarrow>
          [makeAuthorityFinding ''authority.files.host-account'' OutConcern SevCritical noContext []]
      | FilesWorkspace \<Rightarrow>
          [makeAuthorityFinding ''authority.files.workspace'' OutBounded SevInfo noContext []]
      | FilesUnknown \<Rightarrow>
          [makeAuthorityFinding ''authority.files.unknown'' OutUnknown SevCritical noContext []])"

definition evaluateProjectionAuthority :: "authorityFacts \<Rightarrow> Finding list" where
  "evaluateProjectionAuthority facts =
     (case afProjection facts of
        ProjNotApplicable \<Rightarrow>
          [makeAuthorityFinding ''authority.projection.not-applicable'' OutNotApplicable SevInfo noContext []]
      | ProjAbsent \<Rightarrow>
          [makeAuthorityFinding ''authority.projection.absent'' OutBounded SevInfo noContext []]
      | ProjLiveHostConfig \<Rightarrow>
          [makeAuthorityFinding ''authority.projection.live-host-config'' OutConcern SevMedium
             (noContext\<lparr>cxCount := length (afProjectionLabels facts)\<rparr>) []]
      | ProjUnknown \<Rightarrow>
          [makeAuthorityFinding ''authority.projection.unknown'' OutUnknown SevHigh noContext []])"

definition evaluateSecretAuthority :: "authorityFacts \<Rightarrow> Finding list" where
  "evaluateSecretAuthority facts =
     (if afSecretNames facts = []
      then [makeAuthorityFinding ''authority.secrets.absent'' OutBounded SevInfo noContext []]
      else [makeAuthorityFinding ''authority.secrets.injected'' OutConcern SevHigh
              (noContext\<lparr>cxCount := length (afSecretNames facts)\<rparr>) []])"

definition combinationID :: "string \<Rightarrow> string" where
  "combinationID provider =
     (if provider = ''github'' then ''github-write-open-egress''
      else if provider = ''forgejo'' then ''forgejo-write-open-egress'' else [])"

definition providerFindings :: "authorityFacts \<Rightarrow> credentialProviderAuthority \<Rightarrow> Finding list" where
  "providerFindings facts provider =
     (let combination = combinationID (cpProvider provider) in
      (if combination \<noteq> [] \<and> compatibilityRuleApplies facts combination
       then [makeAuthorityFinding combination OutConcern SevCritical noContext (cpWriteScopeIDs provider)]
       else [])
      @ [makeAuthorityFinding (credentialRuleID (cpProvider provider))
           (if cpUnknown provider then OutUnknown else OutConcern)
           (if cpUnknown provider \<or> cpHighAuthority provider then SevHigh else SevMedium)
           \<lparr>cxCount = length (cpScopeIDs provider), cxDestinations = [],
            cxWrite = (cpWriteScopeIDs provider \<noteq> []), cxPersistent = cpPersistent provider,
            cxUnknown = cpUnknown provider\<rparr>
           (cpScopeIDs provider)])"

definition evaluateCredentialAuthority :: "authorityFacts \<Rightarrow> Finding list" where
  "evaluateCredentialAuthority facts =
     (if afProviders facts = []
      then [makeAuthorityFinding ''authority.credentials.absent'' OutBounded SevInfo noContext []]
      else concat (map (providerFindings facts) (afProviders facts)))"

fun axisOrder :: "finding_axis \<Rightarrow> nat" where
  "axisOrder AxisNetwork = 0"
| "axisOrder AxisFiles = 1"
| "axisOrder AxisProjection = 2"
| "axisOrder AxisSecrets = 3"
| "axisOrder AxisCredentials = 4"
| "axisOrder (AxisOther _) = 99"

fun outcomeOrder :: "finding_outcome \<Rightarrow> nat" where
  "outcomeOrder OutConcern = 0"
| "outcomeOrder OutFail = 0"
| "outcomeOrder OutUnknown = 0"
| "outcomeOrder OutBounded = 1"
| "outcomeOrder OutPass = 2"
| "outcomeOrder OutNotApplicable = 3"
| "outcomeOrder (OutOther _) = 99"

fun severityOrder :: "finding_severity \<Rightarrow> nat" where
  "severityOrder SevCritical = 0"
| "severityOrder SevHigh = 1"
| "severityOrder SevMedium = 2"
| "severityOrder SevInfo = 3"
| "severityOrder (SevOther _) = 99"

text \<open>A rule that is not registered has the ordinal of the zero value.\<close>

definition ordinalOf :: "string \<Rightarrow> int" where
  "ordinalOf i = (case authorityRulesByID i of None \<Rightarrow> 0 | Some r \<Rightarrow> arOrdinal r)"

definition authorityFindingLess :: "Finding \<Rightarrow> Finding \<Rightarrow> bool" where
  "authorityFindingLess a b =
     (if axisOrder (fiAxis a) \<noteq> axisOrder (fiAxis b) then axisOrder (fiAxis a) < axisOrder (fiAxis b)
      else if outcomeOrder (fiOutcome a) \<noteq> outcomeOrder (fiOutcome b)
        then outcomeOrder (fiOutcome a) < outcomeOrder (fiOutcome b)
      else if severityOrder (fiSeverity a) \<noteq> severityOrder (fiSeverity b)
        then severityOrder (fiSeverity a) < severityOrder (fiSeverity b)
      else ordinalOf (fiRuleID a) < ordinalOf (fiRuleID b))"

definition EvaluateAuthority :: "Profile \<Rightarrow> AuthorityEvaluation" where
  "EvaluateAuthority p =
     (let facts = normalizeAuthorityFacts p in
      \<lparr>aeFindings = sortStable authorityFindingLess
         (evaluateNetworkAuthority facts @ evaluateFileAuthority facts @ evaluateProjectionAuthority facts
          @ evaluateSecretAuthority facts @ evaluateCredentialAuthority facts),
       aeScopes = afScopes facts\<rparr>)"

end
