(* ===== verification/Risk.thy ===== *)
theory Risk
  imports Evaluation
begin

text \<open>
  The older presentations of the same facts, \<open>policy/risk.go\<close> and \<open>policy/lint.go\<close>, and the
  comprehension gate of a host launch, \<open>policy/consent.go\<close>.
\<close>

section \<open>Risk\<close>

record Risk =
  rkHeadline :: string
  rkLines :: "string list"
  rkLevel :: string

record RiskAxis =
  raName :: string
  raValue :: string
  raRestricted :: bool
  raSeverity :: string

definition ellipsis :: string where
  "ellipsis = [CHR 0xE2, CHR 0x80, CHR 0xA6]"

fun networkReach :: "network_reach \<Rightarrow> string" where
  "networkReach NetHostUnrestricted = ''unrestricted '' @ emDash @ '' uses your full host network''"
| "networkReach NetContainerOpen = ''OPEN egress '' @ emDash @ '' can reach the entire internet''"
| "networkReach NetContainerAllowlisted =
     ''egress-allowlisted '' @ emDash @ '' only approved domains (github, npm, pypi, anthropic, ''
     @ ellipsis @ '')''"
| "networkReach NetUnknown = ''unrestricted '' @ emDash @ '' assume the agent can reach anywhere''"

fun fileReach :: "file_reach \<Rightarrow> bool \<Rightarrow> string" where
  "fileReach FilesHostAccount proj =
     ''your ENTIRE account '' @ emDash @ '' home, ~/.ssh, ~/.aws, every file you can touch''"
| "fileReach FilesWorkspace proj =
     (if proj
      then ''the mounted workspace (read-write) plus a read-only allowlist of host config copied into the ephemeral home ''
           @ emDash @ '' no broad $HOME, no credential dirs''
      else ''only the mounted workspace '' @ emDash @ '' no host files'')"
| "fileReach FilesUnknown proj =
     ''unknown environment '' @ emDash @ '' assume your ENTIRE account is reachable''"

fun headline :: "network_reach \<Rightarrow> string" where
  "headline NetHostUnrestricted = ''Runs as you '' @ emDash @ '' no isolation, full account + network''"
| "headline NetContainerOpen = ''File-isolated, but OPEN egress (can exfil)''"
| "headline NetContainerAllowlisted = ''Workspace-only files, egress limited to the allowlist''"
| "headline NetUnknown = ''Unknown environment '' @ emDash @ '' assume no isolation''"

fun riskLevel :: "network_reach \<Rightarrow> string" where
  "riskLevel NetHostUnrestricted = ''high''"
| "riskLevel NetContainerOpen = ''elevated''"
| "riskLevel NetContainerAllowlisted = ''contained''"
| "riskLevel NetUnknown = ''high''"

definition legacyForgeAccess :: "credentialProviderAuthority \<Rightarrow> string" where
  "legacyForgeAccess provider = (if cpWriteScopeIDs provider \<noteq> [] then ''read-WRITE'' else ''read-only'')"

definition credentialLine :: "credentialProviderAuthority \<Rightarrow> string list" where
  "credentialLine p =
     (if cpProvider p = ''pnpm'' then [''npm/pnpm registry token'']
      else if cpProvider p = ''aws'' then [''AWS (short-lived)'']
      else if cpProvider p = ''gcp'' then [''GCP access token'']
      else if cpProvider p = ''kube'' then [''kubeconfig'']
      else if cpProvider p = ''github'' then [''GitHub token ('' @ legacyForgeAccess p @ '')'']
      else if cpProvider p = ''forgejo'' then [''Forgejo deploy key ('' @ legacyForgeAccess p @ '')'']
      else [])"

definition credentialLines :: "credentialProviderAuthority list \<Rightarrow> string list" where
  "credentialLines ps = concat (map credentialLine ps)"

definition credLines :: "Credentials option \<Rightarrow> string list" where
  "credLines c = credentialLines (snd (normalizeCredentialAuthority c))"

definition projectionLinesFromFacts :: "authorityFacts \<Rightarrow> string list" where
  "projectionLinesFromFacts facts =
     (if afProjection facts \<noteq> ProjLiveHostConfig then []
      else [''Host config projected (read-only, copied into ephemeral home): ''
              @ joinWith '', '' (afProjectionLabels facts),
            ''Projection is live host filesystem state, not pinned by the profile hash; shell/pi-skill config is readable instruction/code authority the agent may execute or use''])"

definition envTierNote :: "string \<Rightarrow> string" where
  "envTierNote env =
     (if env = ''host''
        then ''no isolation boundary '' @ emDash @ '' the agent runs as you, with your full account''
      else if env = ''container''
        then ''container + default-deny per-domain egress allowlist (SNI-trust): stops curl|sh + accidental beaconing, not exfil via an allowed domain; shared-kernel file isolation''
      else ''unrecognized environment '' @ emDash @ '' no isolation boundary'')"

definition RiskSummary :: "Profile \<Rightarrow> Risk" where
  "RiskSummary p =
     (let facts = normalizeAuthorityFacts p; creds = credentialLines (afProviders facts) in
      \<lparr>rkHeadline = headline (afNetwork facts),
       rkLines =
         [''Network: '' @ networkReach (afNetwork facts),
          ''Files: '' @ fileReach (afFiles facts) (afProjection facts = ProjLiveHostConfig)]
         @ projectionLinesFromFacts facts
         @ (if afSecretNames facts \<noteq> []
            then [''Secrets injected: '' @ joinWith '', '' (afSecretNames facts)] else [])
         @ (if creds \<noteq> []
            then [''Credentials: '' @ joinWith '', '' creds @ '' (ephemeral, wiped on exit)''] else [])
         @ [''Tier: '' @ envTierNote (prEnvironment p)],
       rkLevel = riskLevel (afNetwork facts)\<rparr>)"

fun networkAxis :: "network_reach \<Rightarrow> RiskAxis" where
  "networkAxis NetHostUnrestricted =
     \<lparr>raName = ''network'', raValue = ''unrestricted'', raRestricted = False, raSeverity = ''high''\<rparr>"
| "networkAxis NetContainerOpen =
     \<lparr>raName = ''network'', raValue = ''open egress'', raRestricted = False, raSeverity = ''elevated''\<rparr>"
| "networkAxis NetContainerAllowlisted =
     \<lparr>raName = ''network'', raValue = ''egress-allowlisted'', raRestricted = True, raSeverity = ''contained''\<rparr>"
| "networkAxis NetUnknown =
     \<lparr>raName = ''network'', raValue = ''unrestricted'', raRestricted = False, raSeverity = ''high''\<rparr>"

fun filesAxis :: "file_reach \<Rightarrow> bool \<Rightarrow> RiskAxis" where
  "filesAxis FilesHostAccount proj =
     \<lparr>raName = ''files'', raValue = ''whole account'', raRestricted = False, raSeverity = ''high''\<rparr>"
| "filesAxis FilesWorkspace proj =
     \<lparr>raName = ''files'',
      raValue = (if proj then ''workspace + projected host config (read-only)'' else ''workspace-only''),
      raRestricted = True, raSeverity = ''contained''\<rparr>"
| "filesAxis FilesUnknown proj =
     \<lparr>raName = ''files'', raValue = ''whole account'', raRestricted = False, raSeverity = ''high''\<rparr>"

definition RiskAxes :: "Profile \<Rightarrow> RiskAxis list" where
  "RiskAxes p =
     (let facts = normalizeAuthorityFacts p in
      [networkAxis (afNetwork facts), filesAxis (afFiles facts) (afProjection facts = ProjLiveHostConfig)])"

definition ProjectionActive :: "Profile \<Rightarrow> bool" where
  "ProjectionActive p \<longleftrightarrow> afProjection (normalizeAuthorityFacts p) = ProjLiveHostConfig"

section \<open>The stack behind the label\<close>

definition agentLabel :: "string \<Rightarrow> string" where
  "agentLabel a =
     (if a = ''claude'' then ''Claude Code'' else if a = ''codex'' then ''Codex''
      else if a = ''pi'' then ''Pi'' else if a = [] \<or> a = ''shell'' then ''shell'' else a)"

definition isolationTech :: "string \<Rightarrow> string" where
  "isolationTech env =
     (if env = ''host'' then ''none '' @ emDash @ '' runs directly on macOS''
      else if env = ''container'' then ''Docker container + squid egress proxy''
      else ''none '' @ emDash @ '' unknown environment'')"

definition networkTech :: "string \<Rightarrow> string \<Rightarrow> string" where
  "networkTech env network =
     (if env = ''host'' then ''host network (unrestricted)''
      else if env = ''container''
        then if network = ''allow'' then ''open egress (bridge)'' else ''squid egress allowlist''
      else ''unrestricted'')"

definition secretProviders :: "(string \<times> string) list \<Rightarrow> string" where
  "secretProviders secrets =
     (let refs = map snd secrets;
          op = list_ex (\<lambda>r. hasPrefix r ''op://'') refs;
          env = list_ex (\<lambda>r. \<not> hasPrefix r ''op://'' \<and> hasPrefix r ''env:'') refs in
      if op \<and> env then ''1Password + shell env'' else if op then ''1Password (op://)''
      else if env then ''shell env'' else ''configured'')"

definition TechStack :: "Profile \<Rightarrow> string list" where
  "TechStack p =
     (let facts = normalizeAuthorityFacts p; cl = credentialLines (afProviders facts) in
      [''Agent: '' @ agentLabel (prAgent p), ''Isolation: '' @ isolationTech (prEnvironment p),
       ''Network: '' @ networkTech (prEnvironment p) (prNetwork p)]
      @ (case prToolchain p of None \<Rightarrow> []
         | Some t \<Rightarrow> if tcKind t \<noteq> [] then [''Toolchain: '' @ tcKind t] else [])
      @ (if cl \<noteq> [] then [''Credentials: '' @ joinWith '', '' cl] else [])
      @ (if prSecrets p \<noteq> [] then [''Secrets channel: '' @ secretProviders (prSecrets p)] else [])
      @ (if afProjection facts = ProjLiveHostConfig
         then [''Projection: read-only host config copied into ephemeral home''] else []))"

section \<open>Lint\<close>

record Warning =
  waProfile :: string
  waCode :: string
  waMessage :: string

definition forgeMessage :: "string \<Rightarrow> string \<Rightarrow> network_reach \<Rightarrow> string" where
  "forgeMessage forge specs network =
     (if network = NetHostUnrestricted
      then ''a write-capable '' @ forge @ '' credential on the unrestricted host network can be exfiltrated and used off-host ''
           @ emDash @ '' use environment:container with network:deny and a forge-only egress allowlist, or use a read-only credential ('' @ specs @ '')''
      else ''a write-capable '' @ forge @ '' credential with network:allow can be exfiltrated and used off-host ''
           @ emDash @ '' set network:deny with a forge-only egress allowlist, or use a read-only credential ('' @ specs @ '')'')"

definition lintProfile :: "string \<Rightarrow> Profile \<Rightarrow> Warning list" where
  "lintProfile n p =
     (let facts = normalizeAuthorityFacts p in
      (if compatibilityRuleApplies facts ''github-write-open-egress''
       then [\<lparr>waProfile = n, waCode = ''github-write-open-egress'',
              waMessage = forgeMessage ''github'' ''specs/0011, specs/0069'' (afNetwork facts)\<rparr>] else [])
      @ (if compatibilityRuleApplies facts ''forgejo-write-open-egress''
         then [\<lparr>waProfile = n, waCode = ''forgejo-write-open-egress'',
                waMessage = forgeMessage ''forgejo'' ''specs/0047, specs/0069'' (afNetwork facts)\<rparr>] else [])
      @ (if compatibilityRuleApplies facts ''egress-ignored''
         then [\<lparr>waProfile = n, waCode = ''egress-ignored'',
                waMessage = ''sets egress domains but they are ignored '' @ emDash
                  @ '' the egress allowlist is honored only on environment:container with network:deny (network:allow bypasses it; host is unrestricted)''\<rparr>]
         else []))"

text \<open>The map of profiles as the association list of one iteration; the names are sorted first.\<close>

definition Lint :: "(string \<times> Profile) list option \<Rightarrow> Warning list" where
  "Lint cfg =
     (case cfg of
        None \<Rightarrow> []
      | Some profiles \<Rightarrow>
          concat (map (\<lambda>n. case map_of profiles n of None \<Rightarrow> [] | Some p \<Rightarrow> lintProfile n p)
                    (sort (map fst profiles))))"

section \<open>Consent to a host launch\<close>

record ConsentStatement =
  csText :: string
  csExpected :: bool
  csTierOrigin :: string

definition hostTrueStatements :: "ConsentStatement list" where
  "hostTrueStatements =
     map (\<lambda>t. \<lparr>csText = t, csExpected = True, csTierOrigin = ''host''\<rparr>)
       [''This agent can read and write every file your account can.'',
        ''This agent can use your logged-in credentials.'',
        ''This agent can reach any network your Mac can reach.'',
        ''Nothing this agent does is sandboxed or contained.'']"

definition crossTierDecoys :: "ConsentStatement list" where
  "crossTierDecoys =
     map (\<lambda>t. \<lparr>csText = t, csExpected = False, csTierOrigin = ''container''\<rparr>)
       [''This run is confined to the workspace and temp folders.'',
        ''Files outside the project are invisible to this agent.'',
        ''Network access is limited to an approved allow-list.'',
        ''This agent runs in a disposable, throwaway environment.'']"

text \<open>
  The random source is the sequence of its four shuffles, each a function on lists that permutes.
\<close>

record shuffles =
  shTrue :: "ConsentStatement list \<Rightarrow> ConsentStatement list"
  shFalse :: "ConsentStatement list \<Rightarrow> ConsentStatement list"
  shRest :: "ConsentStatement list \<Rightarrow> ConsentStatement list"
  shOut :: "ConsentStatement list \<Rightarrow> ConsentStatement list"

definition HostConsentStatements :: "int \<Rightarrow> shuffles \<Rightarrow> ConsentStatement list" where
  "HostConsentStatements count0 r =
     (let count = (if count0 < 2 then 2 else nat count0);
          trues = shTrue r hostTrueStatements; falses = shFalse r crossTierDecoys;
          rest = shRest r (tl trues @ tl falses) in
      shOut r ([hd trues, hd falses] @ take (count - 2) rest))"

definition HostScopeLine :: "Profile \<Rightarrow> nat \<Rightarrow> string" where
  "HostScopeLine p volumes =
     (let vol = (if volumes = 1 then ''1 other mounted volume''
                 else if volumes > 1 then natText volumes @ '' other mounted volumes''
                 else ''no other mounted volumes'');
          injected = length (prSecrets p) + length (credLines (prCredentials p));
          cred = (if injected = 1 then ''1 safeslop-injected credential''
                  else if injected > 1 then natText injected @ '' safeslop-injected credentials''
                  else ''no safeslop-injected credentials'') in
      ''This run: your home folder + '' @ vol @ '', '' @ cred @ '', full host network.'')"

end
