(* ===== verification/EvaluationLaws.thy ===== *)
theory EvaluationLaws
  imports Risk "HOL-Library.Multiset"
begin

text \<open>
  What an evaluation promises: it reveals no secret, reference or unsafe label of the profile, it calls
  nothing bounded that the profile leaves open, and it agrees with the older warnings and risk rows.
\<close>

section \<open>Sorting\<close>

lemma set_insertStable [simp]: "set (insertStable lt x ys) = insert x (set ys)"
  by (induction ys) auto

lemma mset_insertStable [simp]: "mset (insertStable lt x ys) = add_mset x (mset ys)"
  by (induction ys) auto

lemma sortStable_simps [simp]:
  "sortStable lt [] = []"
  "sortStable lt (x # xs) = insertStable lt x (sortStable lt xs)"
  by (simp_all add: sortStable_def)

lemma set_sortStable [simp]: "set (sortStable lt xs) = set xs"
  by (induction xs) auto

lemma mset_sortStable [simp]: "mset (sortStable lt xs) = mset xs"
  by (induction xs) auto

lemma length_sortStable [simp]: "length (sortStable lt xs) = length xs"
  by (metis mset_sortStable size_mset)

section \<open>Nothing but shapes\<close>

text \<open>
  The redacted profile: every secret name, secret reference, token, policy text, time to live and
  account detail is blank, and a label that is not safe to show is replaced by one fixed unsafe text.
\<close>

definition blank :: "string \<Rightarrow> string" where
  "blank s = (if s = [] then [] else ''*'')"

definition onlySafe :: "string \<Rightarrow> string" where
  "onlySafe s = (if s = [] then [] else if safeValueFreeMetadata s then s else ''/'')"

definition redactPnpm :: "PnpmRegistry \<Rightarrow> PnpmRegistry" where
  "redactPnpm r =
     \<lparr>pnpmHost = (if safeRegistryHost (pnpmHost r) then pnpmHost r else ''/''),
      pnpmToken = blank (pnpmToken r), pnpmScope = []\<rparr>"

definition redactAws :: "AwsSso \<Rightarrow> AwsSso" where
  "redactAws a =
     \<lparr>awsProfile = (if awsRoleArn a = [] then onlySafe (awsProfile a) else []), awsRegion = [],
      awsRoleArn = onlySafe (awsRoleArn a), awsSessionPolicy = blank (awsSessionPolicy a)\<rparr>"

definition redactKube :: "KubeCluster \<Rightarrow> KubeCluster" where
  "redactKube k =
     \<lparr>kubeEks = map_option (\<lambda>e. \<lparr>eksName = onlySafe (eksName e), eksRegion = [], eksProfile = []\<rparr>) (kubeEks k),
      kubeGke = map_option (\<lambda>g. \<lparr>gkeName = onlySafe (gkeName g), gkeLocation = [], gkeProject = []\<rparr>) (kubeGke k)\<rparr>"

definition redactRepo :: "RepoCred \<Rightarrow> RepoCred" where
  "redactRepo r = r\<lparr>repoName := (if safeRepositoryTarget (repoName r) then repoName r else ''/'')\<rparr>"

definition redactGithub :: "GithubCreds \<Rightarrow> GithubCreds" where
  "redactGithub g =
     g\<lparr>ghTtl := [], ghPat := blank (ghPat g), ghRepos := map redactRepo (ghRepos g),
       ghApi := map_option (\<lambda>a. a\<lparr>ghApiPermissions := map onlySafe (ghApiPermissions a)\<rparr>) (ghApi g)\<rparr>"

definition redactForgejo :: "ForgejoCreds \<Rightarrow> ForgejoCreds" where
  "redactForgejo f =
     f\<lparr>fjTtl := [], fjURL := (if safeForgeURL (fjURL f) then fjURL f else []), fjSSHPort := 0,
       fjRepos := map redactRepo (fjRepos f)\<rparr>"

definition redactPi :: "PiCreds \<Rightarrow> PiCreds" where
  "redactPi p =
     (if piProvider p = ''openai-codex'' \<and> piModel p = ''gpt-5.6-luna'' then p
      else \<lparr>piProvider = [], piModel = []\<rparr>)"

definition redactCredentials :: "Credentials \<Rightarrow> Credentials" where
  "redactCredentials c =
     \<lparr>crPnpm = map redactPnpm (crPnpm c), crAws = map_option redactAws (crAws c),
      crGcp = map_option (\<lambda>g. \<lparr>gcpScopes = map onlySafe (gcpScopes g)\<rparr>) (crGcp c),
      crKube = map_option redactKube (crKube c), crGithub = map_option redactGithub (crGithub c),
      crForgejo = map_option redactForgejo (crForgejo c), crPi = map_option redactPi (crPi c)\<rparr>"

definition redactProjection :: "Projection \<Rightarrow> Projection" where
  "redactProjection j =
     j\<lparr>pjItems := map (\<lambda>_. \<lparr>pjSource = [], pjTarget = [], pjKind = [], pjOptional = None, pjLabel = []\<rparr>)
                   (pjItems j)\<rparr>"

definition redacted :: "Profile \<Rightarrow> Profile" where
  "redacted p =
     \<lparr>prAgent = [], prEnvironment = prEnvironment p, prWorkspace = [], prNetwork = prNetwork p,
      prEgress = (if list_all safeDestination (prEgress p) then prEgress p else map (\<lambda>_. ''/'') (prEgress p)),
      prPersistentEgress = [], prSecrets = map (\<lambda>_. ([], [])) (prSecrets p),
      prCredentials = map_option redactCredentials (prCredentials p),
      prToolchain = None, prBundles = [], prPackages = [], prBareAgent = False,
      prProjection = map_option redactProjection (prProjection p)\<rparr>"

lemma unsafe_slash [simp]:
  "\<not> safeValueFreeMetadata ''/''" "\<not> safeRegistryHost ''/''" "\<not> safeRepositoryTarget ''/''"
  "\<not> safeDestination ''/''"
proof -
  have "stripOne spaceRunes ''/'' = None" "stripOne (map rev spaceRunes) ''/'' = None"
    by (simp_all add: stripOne_None spaceRunes_def hasPrefix_def)
  then have "trimSpace ''/'' = ''/''"
    by (simp add: trimSpace_def trimBoth_def trimPrefixes_id)
  then have "containsForbiddenMaterial ''/''"
    by (simp add: containsForbiddenMaterial_def hasPrefix_def)
  then have basics: "\<not> safeMetadataBasics ''/''" by (simp add: safeMetadataBasics_def)
  then show free: "\<not> safeValueFreeMetadata ''/''" by (simp add: safeValueFreeMetadata_def)
  from basics show "\<not> safeRepositoryTarget ''/''" by (simp add: safeRepositoryTarget_def)
  from free show "\<not> safeRegistryHost ''/''" by (simp add: safeRegistryHost_def)
  from free show "\<not> safeDestination ''/''" by (simp add: safeDestination_def)
qed

lemma safe_not_blank [simp]: "\<not> safeValueFreeMetadata []"
  by (simp add: safeValueFreeMetadata_def safeMetadataBasics_def)

lemma onlySafe_facts [simp]:
  "onlySafe s = [] \<longleftrightarrow> s = []"
  "safeValueFreeMetadata (onlySafe s) = safeValueFreeMetadata s"
  "safeValueFreeMetadata s \<Longrightarrow> onlySafe s = s"
  by (auto simp: onlySafe_def)

lemma blank_Nil [simp]: "blank s = [] \<longleftrightarrow> s = []"
  by (simp add: blank_def)

lemma safeForge_Nil [simp]: "\<not> safeForgeURL []"
  by (simp add: safeForgeURL_def)

lemma pnpm_redacted:
  "pnpmCredentialAuthority (map redactPnpm rs) = pnpmCredentialAuthority rs"
  by (auto simp: pnpmCredentialAuthority_def redactPnpm_def providerOf_def)

lemma aws_redacted: "awsCredentialAuthority (redactAws a) = awsCredentialAuthority a"
  by (auto simp: awsCredentialAuthority_def awsTarget_def redactAws_def)

lemma gcp_redacted:
  "gcpCredentialAuthority \<lparr>gcpScopes = map onlySafe (gcpScopes g)\<rparr> = gcpCredentialAuthority g"
  by (auto simp: gcpCredentialAuthority_def providerOf_def Let_def)

lemma kube_redacted: "kubeCredentialAuthority (redactKube k) = kubeCredentialAuthority k"
  by (auto simp: kubeCredentialAuthority_def kubeTarget_def redactKube_def split: option.splits)

lemma repos_redacted:
  "repositoryCredentialDrafts (map redactRepo rs) w l fb u = repositoryCredentialDrafts rs w l fb u"
  by (auto simp: repositoryCredentialDrafts_def redactRepo_def Let_def)

lemma githubAPI_redacted:
  "githubAPIDrafts (a\<lparr>ghApiPermissions := map onlySafe (ghApiPermissions a)\<rparr>) l = githubAPIDrafts a l"
  by (auto simp: githubAPIDrafts_def Let_def list_ex_iff)

lemma github_redacted: "githubCredentialAuthority (redactGithub g) = githubCredentialAuthority g"
  by (cases "ghApi g")
    (simp_all add: githubCredentialAuthority_def githubMode_def redactGithub_def repos_redacted
      githubAPI_redacted originDraft_def Let_def)

lemma forgejo_redacted: "forgejoCredentialAuthority (redactForgejo f) = forgejoCredentialAuthority f"
  by (cases "fjApi f"; cases "safeForgeURL (fjURL f)")
    (simp_all add: forgejoCredentialAuthority_def redactForgejo_def repos_redacted Let_def)

lemma pi_redacted: "piOAuthCredentialAuthority (redactPi p) = piOAuthCredentialAuthority p"
  by (auto simp: piOAuthCredentialAuthority_def redactPi_def)

lemma credentials_redacted:
  "normalizeCredentialAuthority (map_option redactCredentials c) = normalizeCredentialAuthority c"
proof (cases c)
  case (Some x)
  have "declaredProviders (redactCredentials x) = declaredProviders x"
    by (simp add: declaredProviders_def redactCredentials_def pnpm_redacted aws_redacted gcp_redacted
        kube_redacted github_redacted forgejo_redacted pi_redacted split: option.splits)
  with Some show ?thesis by (simp add: normalizeCredentialAuthority_def)
qed (simp add: normalizeCredentialAuthority_def)

lemma destinations_redacted:
  "valueFreeEgressDestinations (prEgress (redacted p)) = valueFreeEgressDestinations (prEgress p)"
  by (cases "prEgress p") (auto simp: redacted_def valueFreeEgressDestinations_def)

text \<open>The findings depend on lists of names through their lengths only.\<close>

lemma findings_by_length:
  assumes "length (afSecretNames f) = length names" "length (afProjectionLabels f) = length labels"
  shows "evaluateNetworkAuthority (f\<lparr>afSecretNames := names, afProjectionLabels := labels\<rparr>)
           = evaluateNetworkAuthority f"
    "evaluateFileAuthority (f\<lparr>afSecretNames := names, afProjectionLabels := labels\<rparr>)
           = evaluateFileAuthority f"
    "evaluateProjectionAuthority (f\<lparr>afSecretNames := names, afProjectionLabels := labels\<rparr>)
           = evaluateProjectionAuthority f"
    "evaluateSecretAuthority (f\<lparr>afSecretNames := names, afProjectionLabels := labels\<rparr>)
           = evaluateSecretAuthority f"
    "evaluateCredentialAuthority (f\<lparr>afSecretNames := names, afProjectionLabels := labels\<rparr>)
           = evaluateCredentialAuthority f"
proof -
  have rule: "compatibilityRuleApplies (f\<lparr>afSecretNames := names, afProjectionLabels := labels\<rparr>)
      = compatibilityRuleApplies f"
    by (rule ext) (simp add: compatibilityRuleApplies_def)
  have named: "names = [] \<longleftrightarrow> afSecretNames f = []"
    using assms(1) by (metis length_0_conv)
  show "evaluateNetworkAuthority (f\<lparr>afSecretNames := names, afProjectionLabels := labels\<rparr>)
           = evaluateNetworkAuthority f"
    by (cases "afNetwork f") (simp_all add: evaluateNetworkAuthority_def rule)
  show "evaluateFileAuthority (f\<lparr>afSecretNames := names, afProjectionLabels := labels\<rparr>)
           = evaluateFileAuthority f"
    by (cases "afFiles f") (simp_all add: evaluateFileAuthority_def)
  show "evaluateProjectionAuthority (f\<lparr>afSecretNames := names, afProjectionLabels := labels\<rparr>)
           = evaluateProjectionAuthority f"
    using assms(2) by (cases "afProjection f") (simp_all add: evaluateProjectionAuthority_def)
  show "evaluateSecretAuthority (f\<lparr>afSecretNames := names, afProjectionLabels := labels\<rparr>)
           = evaluateSecretAuthority f"
    using assms(1) named by (simp add: evaluateSecretAuthority_def)
  show "evaluateCredentialAuthority (f\<lparr>afSecretNames := names, afProjectionLabels := labels\<rparr>)
           = evaluateCredentialAuthority f"
  proof -
    have "providerFindings (f\<lparr>afSecretNames := names, afProjectionLabels := labels\<rparr>) = providerFindings f"
      by (rule ext) (simp add: providerFindings_def rule)
    then show ?thesis by (simp add: evaluateCredentialAuthority_def)
  qed
qed

lemma facts_redacted:
  "\<exists>names labels. normalizeAuthorityFacts (redacted p)
       = (normalizeAuthorityFacts p)\<lparr>afSecretNames := names, afProjectionLabels := labels\<rparr>
     \<and> length (afSecretNames (normalizeAuthorityFacts p)) = length names
     \<and> length (afProjectionLabels (normalizeAuthorityFacts p)) = length labels"
proof -
  let ?q = "redacted p"
  have same: "prEnvironment ?q = prEnvironment p" "prNetwork ?q = prNetwork p"
    "length (prEgress ?q) = length (prEgress p)" "length (prSecrets ?q) = length (prSecrets p)"
    "prCredentials ?q = map_option redactCredentials (prCredentials p)"
    "prProjection ?q = map_option redactProjection (prProjection p)"
    by (simp_all add: redacted_def)
  have reach: "networkOf ?q = networkOf p" "filesOf ?q = filesOf p"
    by (simp_all add: networkOf_def filesOf_def same)
  have proj: "fst (projectionOf ?q) = fst (projectionOf p)"
    "length (snd (projectionOf ?q)) = length (snd (projectionOf p))"
    by (cases "prProjection p"; simp add: projectionOf_def same redactProjection_def)+
  show ?thesis
    by (rule exI [of _ "afSecretNames (normalizeAuthorityFacts ?q)"],
        rule exI [of _ "afProjectionLabels (normalizeAuthorityFacts ?q)"])
      (simp add: normalizeAuthorityFacts_def Let_def reach proj same credentials_redacted
        destinations_redacted)
qed

text \<open>(C31) The evaluation of a profile is that of its redacted copy: no name or reference of a secret, no
  token, no projected path and no label that is not safe to show can be seen in it.
\<close>

theorem evaluation_is_value_free: "EvaluateAuthority (redacted p) = EvaluateAuthority p"
proof -
  obtain names labels where f: "normalizeAuthorityFacts (redacted p)
       = (normalizeAuthorityFacts p)\<lparr>afSecretNames := names, afProjectionLabels := labels\<rparr>"
    and n: "length (afSecretNames (normalizeAuthorityFacts p)) = length names"
      "length (afProjectionLabels (normalizeAuthorityFacts p)) = length labels"
    using facts_redacted by blast
  show ?thesis
    unfolding EvaluateAuthority_def Let_def f findings_by_length [OF n] by simp
qed

end
