(* ===== verification/EvaluationReports.thy ===== *)
theory EvaluationReports
  imports EvaluationLaws
begin

text \<open>
  What an evaluation reports: it calls an axis bounded exactly when the profile bounds it, and it agrees
  with the older warnings, risk rows and consent lines.
\<close>

section \<open>What is reported\<close>

definition ruleAxis :: "string \<Rightarrow> finding_axis option" where
  "ruleAxis i = map_option arAxis (authorityRulesByID i)"

lemma registry_ids: "distinct (map arID authorityRuleRegistry)"
  by (simp add: authorityRuleRegistry_def authRule_def credentialRule_def credentialRuleID_def)

lemma find_own: "distinct (map f rs) \<Longrightarrow> list_all (\<lambda>r. find (\<lambda>q. f q = f r) rs = Some r) rs"
  by (induction rs) (auto simp: list_all_iff)

lemma registered: "list_all (\<lambda>r. authorityRulesByID (arID r) = Some r) authorityRuleRegistry"
  using find_own [OF registry_ids] by (simp add: authorityRulesByID_def)

lemma registered_axes: "list_all (\<lambda>r. ruleAxis (arID r) = Some (arAxis r)) authorityRuleRegistry"
  using registered by (simp add: list_all_iff ruleAxis_def)

text \<open>The row of every rule, one equation each.\<close>

lemmas ruleAxis_facts [simp] =
  registered_axes [unfolded authorityRuleRegistry_def list.pred_inject authRule_def credentialRule_def
    credentialRuleID_def authorityRule.select_convs append.simps]

lemma make_rule [simp]: "fiRuleID (makeAuthorityFinding i out sev cx ids) = i"
  by (auto simp: makeAuthorityFinding_def authorityRulesByID_def find_Some_iff split: option.splits)

lemma make_scopes [simp]: "fiScopeIDs (makeAuthorityFinding i out sev cx ids) = ids"
  by (simp add: makeAuthorityFinding_def split: option.splits)

lemma make_registered:
  "ruleAxis i = Some a \<Longrightarrow> fiAxis (makeAuthorityFinding i out sev cx ids) = a"
  "ruleAxis i = Some a \<Longrightarrow> fiOutcome (makeAuthorityFinding i out sev cx ids) = out"
  "ruleAxis i = Some a \<Longrightarrow> fiSeverity (makeAuthorityFinding i out sev cx ids) = sev"
  by (auto simp: ruleAxis_def makeAuthorityFinding_def)

definition rawFindings :: "Profile \<Rightarrow> Finding list" where
  "rawFindings p =
     (let facts = normalizeAuthorityFacts p in
      evaluateNetworkAuthority facts @ evaluateFileAuthority facts @ evaluateProjectionAuthority facts
      @ evaluateSecretAuthority facts @ evaluateCredentialAuthority facts)"

lemma findings_raw: "aeFindings (EvaluateAuthority p) = sortStable authorityFindingLess (rawFindings p)"
  by (simp add: EvaluateAuthority_def rawFindings_def Let_def)

lemma facts_fields [simp]:
  "afNetwork (normalizeAuthorityFacts p) = networkOf p"
  "afFiles (normalizeAuthorityFacts p) = filesOf p"
  "afProjection (normalizeAuthorityFacts p) = fst (projectionOf p)"
  "afSecretNames (normalizeAuthorityFacts p) = sort (map fst (prSecrets p))"
  "afEgressValid (normalizeAuthorityFacts p) = snd (valueFreeEgressDestinations (prEgress p))"
  "afEgressIgnored (normalizeAuthorityFacts p) = (prEgress p \<noteq> [] \<and> networkOf p \<noteq> NetContainerAllowlisted)"
  "afOpenEgress (normalizeAuthorityFacts p) = (prEnvironment p = ''host'' \<or> prNetwork p = ''allow'')"
  "afProviders (normalizeAuthorityFacts p) = snd (normalizeCredentialAuthority (prCredentials p))"
  "afScopes (normalizeAuthorityFacts p) = fst (normalizeCredentialAuthority (prCredentials p))"
  by (auto simp: normalizeAuthorityFacts_def Let_def)

lemma provider_names [simp]:
  "cpProvider (pnpmCredentialAuthority rs) = ''pnpm''" "cpProvider (awsCredentialAuthority a) = ''aws''"
  "cpProvider (gcpCredentialAuthority g) = ''gcp''" "cpProvider (kubeCredentialAuthority k) = ''kube''"
  "cpProvider (githubCredentialAuthority h) = ''github''"
  "cpProvider (forgejoCredentialAuthority f) = ''forgejo''"
  "cpProvider (piOAuthCredentialAuthority q) = ''pi-oauth''"
  by (simp_all add: pnpmCredentialAuthority_def awsCredentialAuthority_def gcpCredentialAuthority_def
      kubeCredentialAuthority_def githubCredentialAuthority_def forgejoCredentialAuthority_def
      piOAuthCredentialAuthority_def providerOf_def raiseAuthority_def Let_def split: option.splits prod.splits)

lemma map_optional:
  "(\<And>y. g (f y) = c) \<Longrightarrow> map g (case x of None \<Rightarrow> [] | Some y \<Rightarrow> [f y]) = (if x = None then [] else [c])"
  by (cases x) simp_all

lemma declared_names:
  "map cpProvider (declaredProviders c) =
     (if crPnpm c = [] then [] else [''pnpm'']) @ (if crAws c = None then [] else [''aws''])
     @ (if crGcp c = None then [] else [''gcp'']) @ (if crKube c = None then [] else [''kube''])
     @ (if crGithub c = None then [] else [''github'']) @ (if crForgejo c = None then [] else [''forgejo''])
     @ (if crPi c = None then [] else [''pi-oauth''])"
proof -
  have "map cpProvider (if crPnpm c = [] then [] else [pnpmCredentialAuthority (crPnpm c)])
      = (if crPnpm c = [] then [] else [''pnpm''])" by simp
  then show ?thesis
    unfolding declaredProviders_def map_append by (simp only: map_optional provider_names)
qed

lemma finish_fields [simp]:
  "cpProvider (snd (finishProvider x)) = cpProvider x"
  "cpPersistent (snd (finishProvider x)) = cpPersistent x"
  "cpHighAuthority (snd (finishProvider x)) = cpHighAuthority x"
  by (simp_all add: finishProvider_def Let_def)

lemma numbered_writes: "filter drWrite (numberDrafts n i ds) = [] \<longleftrightarrow> list_all (\<lambda>d. \<not> drWrite d) ds"
  by (induction n i ds rule: numberDrafts.induct) auto

lemma finish_writes: "cpWriteScopeIDs (snd (finishProvider x)) = [] \<longleftrightarrow> list_all (\<lambda>d. \<not> drWrite d) (cpDrafts x)"
  by (simp add: finishProvider_def Let_def numbered_writes) (simp add: list_all_iff)

lemma providers_of [simp]:
  "snd (normalizeCredentialAuthority None) = []"
  "snd (normalizeCredentialAuthority (Some c)) = map (\<lambda>x. snd (finishProvider x)) (declaredProviders c)"
  by (simp_all add: normalizeCredentialAuthority_def)

lemma hasWrite_append:
  "providerHasWrite (xs @ ys) n =
     (if n \<in> cpProvider ` set xs then providerHasWrite xs n else providerHasWrite ys n)"
  by (induction xs) auto

lemma hasWrite_optional:
  "(\<And>y. cpProvider (f y) = m) \<Longrightarrow> providerHasWrite (case x of None \<Rightarrow> [] | Some y \<Rightarrow> [f y]) n =
     (case x of None \<Rightarrow> False | Some y \<Rightarrow> n = m \<and> cpWriteScopeIDs (f y) \<noteq> [])"
  by (cases x) auto

definition githubWrites :: "Profile \<Rightarrow> bool" where
  "githubWrites p =
     (case prCredentials p of None \<Rightarrow> False | Some c \<Rightarrow>
        (case crGithub c of None \<Rightarrow> False | Some g \<Rightarrow> ghWrite g \<or> list_ex repoWrite (ghRepos g)))"

definition forgejoWrites :: "Profile \<Rightarrow> bool" where
  "forgejoWrites p =
     (case prCredentials p of None \<Rightarrow> False | Some c \<Rightarrow>
        (case crForgejo c of None \<Rightarrow> False | Some f \<Rightarrow> fjWrite f \<or> list_ex repoWrite (fjRepos f)))"

lemma draft_fields [simp]:
  "drWrite (draftOf t a l b u w) = w" "drUnknown (draftOf t a l b u w) = u"
  "drScope (draftOf t a l b u w) = scopeOf t a l b"
  by (simp_all add: draftOf_def)

lemma repository_writes:
  "list_all (\<lambda>d. \<not> drWrite d) (repositoryCredentialDrafts rs w l fb u) \<longleftrightarrow> rs = [] \<or> \<not> w \<and> \<not> list_ex repoWrite rs"
  by (auto simp: repositoryCredentialDrafts_def Let_def list_all_iff list_ex_iff)

lemma raise_drafts [simp]: "cpDrafts (raiseAuthority x) = cpDrafts x"
  by (simp add: raiseAuthority_def)

lemma github_writes:
  "list_all (\<lambda>d. \<not> drWrite d) (cpDrafts (githubCredentialAuthority g)) \<longleftrightarrow>
     \<not> ghWrite g \<and> \<not> list_ex repoWrite (ghRepos g)"
proof -
  have "githubAPIDrafts a l = (ds, u) \<Longrightarrow> list_all (\<lambda>d. \<not> drWrite d) ds" for a l ds u
    by (auto simp: githubAPIDrafts_def Let_def list_all_iff split: if_splits)
  then show ?thesis
    by (auto simp: githubCredentialAuthority_def Let_def providerOf_def repository_writes originDraft_def
        split: option.splits prod.splits)
qed

lemma forgejo_writes:
  "list_all (\<lambda>d. \<not> drWrite d) (cpDrafts (forgejoCredentialAuthority f)) \<longleftrightarrow>
     \<not> fjWrite f \<and> \<not> list_ex repoWrite (fjRepos f)"
  by (auto simp: forgejoCredentialAuthority_def Let_def providerOf_def repository_writes originDraft_def
      forgejoAPIDraft_def split: option.splits)

lemma map_case: "map F (case x of None \<Rightarrow> [] | Some y \<Rightarrow> [f y]) = (case x of None \<Rightarrow> [] | Some y \<Rightarrow> [F (f y)])"
  by (cases x) simp_all

lemma names_case:
  "(\<And>y. cpProvider (f y) = m) \<Longrightarrow>
     n \<in> cpProvider ` set (case x of None \<Rightarrow> [] | Some y \<Rightarrow> [f y]) \<longleftrightarrow> x \<noteq> None \<and> n = m"
  by (cases x) auto

lemma declared_writes:
  "providerHasWrite (map (\<lambda>x. snd (finishProvider x)) (declaredProviders c)) ''github'' \<longleftrightarrow>
     (case crGithub c of None \<Rightarrow> False | Some g \<Rightarrow> ghWrite g \<or> list_ex repoWrite (ghRepos g))"
  "providerHasWrite (map (\<lambda>x. snd (finishProvider x)) (declaredProviders c)) ''forgejo'' \<longleftrightarrow>
     (case crForgejo c of None \<Rightarrow> False | Some f \<Rightarrow> fjWrite f \<or> list_ex repoWrite (fjRepos f))"
proof -
  let ?F = "\<lambda>x. snd (finishProvider x)"
  have names: "cpProvider (?F (awsCredentialAuthority a)) = ''aws''"
    "cpProvider (?F (gcpCredentialAuthority g)) = ''gcp''" "cpProvider (?F (kubeCredentialAuthority k)) = ''kube''"
    "cpProvider (?F (githubCredentialAuthority h)) = ''github''"
    "cpProvider (?F (forgejoCredentialAuthority f)) = ''forgejo''"
    "cpProvider (?F (piOAuthCredentialAuthority q)) = ''pi-oauth''" for a g k h f q
    by simp_all
  have first: "n \<in> cpProvider ` set (map ?F (if crPnpm c = [] then [] else [pnpmCredentialAuthority (crPnpm c)]))
      \<longleftrightarrow> crPnpm c \<noteq> [] \<and> n = ''pnpm''" for n
    by auto
  note skip = hasWrite_append map_case names_case [OF names(1)] names_case [OF names(2)]
    names_case [OF names(3)] names_case [OF names(4)] names_case [OF names(5)] names_case [OF names(6)]
  note look = hasWrite_optional [OF names(4)] hasWrite_optional [OF names(5)] hasWrite_optional [OF names(6)]
  show "providerHasWrite (map ?F (declaredProviders c)) ''github'' \<longleftrightarrow>
     (case crGithub c of None \<Rightarrow> False | Some g \<Rightarrow> ghWrite g \<or> list_ex repoWrite (ghRepos g))"
    unfolding declaredProviders_def map_append hasWrite_append first
    by (simp add: skip look finish_writes github_writes split: option.split)
  show "providerHasWrite (map ?F (declaredProviders c)) ''forgejo'' \<longleftrightarrow>
     (case crForgejo c of None \<Rightarrow> False | Some f \<Rightarrow> fjWrite f \<or> list_ex repoWrite (fjRepos f))"
    unfolding declaredProviders_def map_append hasWrite_append first
    by (simp add: skip look finish_writes forgejo_writes split: option.split)
qed

lemma facts_write [simp]:
  "providerHasWrite (snd (normalizeCredentialAuthority (prCredentials p))) ''github'' = githubWrites p"
  "providerHasWrite (snd (normalizeCredentialAuthority (prCredentials p))) ''forgejo'' = forgejoWrites p"
  by (cases "prCredentials p"; simp add: githubWrites_def forgejoWrites_def declared_writes)+

definition reports :: "Profile \<Rightarrow> string \<Rightarrow> bool" where
  "reports p i \<longleftrightarrow> i \<in> fiRuleID ` set (aeFindings (EvaluateAuthority p))"

definition callsBounded :: "Profile \<Rightarrow> finding_axis \<Rightarrow> bool" where
  "callsBounded p a \<longleftrightarrow>
     (a, OutBounded) \<in> (\<lambda>f. (fiAxis f, fiOutcome f)) ` set (aeFindings (EvaluateAuthority p))"

definition declaresNoProvider :: "Profile \<Rightarrow> bool" where
  "declaresNoProvider p =
     (case prCredentials p of None \<Rightarrow> True | Some c \<Rightarrow>
        crPnpm c = [] \<and> crAws c = None \<and> crGcp c = None \<and> crKube c = None \<and> crGithub c = None
      \<and> crForgejo c = None \<and> crPi c = None)"

lemma no_provider: "snd (normalizeCredentialAuthority (prCredentials p)) = [] \<longleftrightarrow> declaresNoProvider p"
proof (cases "prCredentials p")
  case (Some c)
  have "declaredProviders c = [] \<longleftrightarrow> map cpProvider (declaredProviders c) = []" by simp
  then show ?thesis by (simp add: declaresNoProvider_def Some declared_names)
qed (simp add: declaresNoProvider_def)

lemma declared_known: "set (map cpProvider (declaredProviders c)) \<subseteq> set providers"
  unfolding declared_names by (simp add: providers_def)

lemma credential_rule: "n \<in> set providers \<Longrightarrow> ruleAxis (credentialRuleID n) = Some AxisCredentials"
proof -
  have "list_all (\<lambda>n. ruleAxis (credentialRuleID n) = Some AxisCredentials) providers"
    by (simp add: providers_def credentialRuleID_def)
  then show "n \<in> set providers \<Longrightarrow> ruleAxis (credentialRuleID n) = Some AxisCredentials"
    by (simp add: list_all_iff)
qed

lemma provider_known:
  "x \<in> set (snd (normalizeCredentialAuthority c)) \<Longrightarrow>
     ruleAxis (credentialRuleID (cpProvider x)) = Some AxisCredentials"
proof (cases c)
  case (Some d)
  assume "x \<in> set (snd (normalizeCredentialAuthority c))"
  with Some have "cpProvider x \<in> set (map cpProvider (declaredProviders d))" by force
  then have "cpProvider x \<in> set providers" using declared_known by blast
  then show ?thesis by (rule credential_rule)
qed simp

lemma off_axis: "S \<subseteq> {b} \<times> UNIV \<Longrightarrow> a \<noteq> b \<Longrightarrow> (a, x) \<notin> S"
  by auto

lemma network_pairs:
  "(\<lambda>f. (fiAxis f, fiOutcome f)) ` set (evaluateNetworkAuthority f) \<subseteq> {AxisNetwork} \<times> UNIV"
  "(AxisNetwork, OutBounded) \<in> (\<lambda>f. (fiAxis f, fiOutcome f)) ` set (evaluateNetworkAuthority f) \<longleftrightarrow>
     afNetwork f = NetContainerAllowlisted \<and> afEgressValid f"
  by (cases "afNetwork f"; auto simp: evaluateNetworkAuthority_def make_registered)+

lemma file_pairs:
  "(\<lambda>f. (fiAxis f, fiOutcome f)) ` set (evaluateFileAuthority f) \<subseteq> {AxisFiles} \<times> UNIV"
  "(AxisFiles, OutBounded) \<in> (\<lambda>f. (fiAxis f, fiOutcome f)) ` set (evaluateFileAuthority f) \<longleftrightarrow>
     afFiles f = FilesWorkspace"
  by (cases "afFiles f"; auto simp: evaluateFileAuthority_def make_registered)+

lemma projection_pairs:
  "(\<lambda>f. (fiAxis f, fiOutcome f)) ` set (evaluateProjectionAuthority f) \<subseteq> {AxisProjection} \<times> UNIV"
  "(AxisProjection, OutBounded) \<in> (\<lambda>f. (fiAxis f, fiOutcome f)) ` set (evaluateProjectionAuthority f) \<longleftrightarrow>
     afProjection f = ProjAbsent"
  by (cases "afProjection f"; auto simp: evaluateProjectionAuthority_def make_registered)+

lemma secret_pairs:
  "(\<lambda>f. (fiAxis f, fiOutcome f)) ` set (evaluateSecretAuthority f) \<subseteq> {AxisSecrets} \<times> UNIV"
  "(AxisSecrets, OutBounded) \<in> (\<lambda>f. (fiAxis f, fiOutcome f)) ` set (evaluateSecretAuthority f) \<longleftrightarrow>
     afSecretNames f = []"
  by (auto simp: evaluateSecretAuthority_def make_registered)

lemma combination_cases:
  "combinationID n = ''github-write-open-egress'' \<and> n = ''github''
   \<or> combinationID n = ''forgejo-write-open-egress'' \<and> n = ''forgejo''
   \<or> combinationID n = [] \<and> n \<noteq> ''github'' \<and> n \<noteq> ''forgejo''"
  by (simp add: combinationID_def)

lemma provider_pairs:
  assumes "ruleAxis (credentialRuleID (cpProvider x)) = Some AxisCredentials"
  shows "(\<lambda>f. (fiAxis f, fiOutcome f)) ` set (providerFindings f x) \<subseteq> {AxisCredentials} \<times> {OutConcern, OutUnknown}"
  using combination_cases [of "cpProvider x"] assms
  by (auto simp: providerFindings_def Let_def make_registered)

lemma credential_pairs:
  assumes "\<And>x. x \<in> set (afProviders f) \<Longrightarrow>
    ruleAxis (credentialRuleID (cpProvider x)) = Some AxisCredentials"
  shows "(\<lambda>f. (fiAxis f, fiOutcome f)) ` set (evaluateCredentialAuthority f) \<subseteq> {AxisCredentials} \<times> UNIV"
    and "(AxisCredentials, OutBounded) \<in> (\<lambda>f. (fiAxis f, fiOutcome f)) ` set (evaluateCredentialAuthority f) \<longleftrightarrow>
     afProviders f = []"
proof -
  have each: "x \<in> set (afProviders f) \<Longrightarrow>
      (\<lambda>f. (fiAxis f, fiOutcome f)) ` set (providerFindings f x) \<subseteq> {AxisCredentials} \<times> {OutConcern, OutUnknown}" for x
    using provider_pairs assms by simp
  have all: "(\<lambda>f. (fiAxis f, fiOutcome f)) ` set (concat (map (providerFindings f) (afProviders f)))
      \<subseteq> {AxisCredentials} \<times> {OutConcern, OutUnknown}"
    unfolding set_concat set_map image_Union image_image using each by blast
  show "(\<lambda>f. (fiAxis f, fiOutcome f)) ` set (evaluateCredentialAuthority f) \<subseteq> {AxisCredentials} \<times> UNIV"
  proof (cases "afProviders f = []")
    case False
    with all show ?thesis by (auto simp: evaluateCredentialAuthority_def)
  qed (simp add: evaluateCredentialAuthority_def make_registered)
  show "(AxisCredentials, OutBounded) \<in> (\<lambda>f. (fiAxis f, fiOutcome f)) ` set (evaluateCredentialAuthority f) \<longleftrightarrow>
     afProviders f = []"
  proof (cases "afProviders f = []")
    case False
    then show ?thesis using all unfolding evaluateCredentialAuthority_def by auto
  qed (simp add: evaluateCredentialAuthority_def make_registered)
qed

lemma known_pairs:
  "(\<lambda>f. (fiAxis f, fiOutcome f)) ` set (evaluateCredentialAuthority (normalizeAuthorityFacts p))
     \<subseteq> {AxisCredentials} \<times> UNIV"
  "(AxisCredentials, OutBounded)
     \<in> (\<lambda>f. (fiAxis f, fiOutcome f)) ` set (evaluateCredentialAuthority (normalizeAuthorityFacts p))
   \<longleftrightarrow> afProviders (normalizeAuthorityFacts p) = []"
  by (rule credential_pairs, simp add: provider_known)+

lemma bounded_parts:
  "callsBounded p AxisNetwork \<longleftrightarrow>
     prEnvironment p = ''container'' \<and> prNetwork p = ''deny'' \<and> list_all safeDestination (prEgress p)"
  "callsBounded p AxisFiles \<longleftrightarrow> prEnvironment p = ''container''"
  "callsBounded p AxisProjection \<longleftrightarrow> prEnvironment p = ''container''
     \<and> (case prProjection p of None \<Rightarrow> True | Some j \<Rightarrow> \<not> pjEnabled j \<and> pjItems j = [])"
  "callsBounded p AxisSecrets \<longleftrightarrow> prSecrets p = []"
  "callsBounded p AxisCredentials \<longleftrightarrow> declaresNoProvider p"
proof -
  let ?f = "normalizeAuthorityFacts p" and ?g = "\<lambda>f. (fiAxis f, fiOutcome f)"
  note pairs = network_pairs [of ?f] file_pairs [of ?f] projection_pairs [of ?f] secret_pairs [of ?f]
    known_pairs [of p]
  have split: "callsBounded p a \<longleftrightarrow>
      (a, OutBounded) \<in> ?g ` set (evaluateNetworkAuthority ?f) \<or> (a, OutBounded) \<in> ?g ` set (evaluateFileAuthority ?f)
    \<or> (a, OutBounded) \<in> ?g ` set (evaluateProjectionAuthority ?f)
    \<or> (a, OutBounded) \<in> ?g ` set (evaluateSecretAuthority ?f)
    \<or> (a, OutBounded) \<in> ?g ` set (evaluateCredentialAuthority ?f)" for a
    unfolding callsBounded_def findings_raw rawFindings_def Let_def set_sortStable set_append image_Un
    by simp
  note off = pairs(1,3,5,7,9) [THEN off_axis]
  have "callsBounded p AxisNetwork \<longleftrightarrow> afNetwork ?f = NetContainerAllowlisted \<and> afEgressValid ?f"
    unfolding split by (simp add: off pairs(2,4,6,8,10))
  then show "callsBounded p AxisNetwork \<longleftrightarrow>
     prEnvironment p = ''container'' \<and> prNetwork p = ''deny'' \<and> list_all safeDestination (prEgress p)"
    by (auto simp: networkOf_def valueFreeEgressDestinations_def)
  have "callsBounded p AxisFiles \<longleftrightarrow> afFiles ?f = FilesWorkspace"
    unfolding split by (simp add: off pairs(2,4,6,8,10))
  then show "callsBounded p AxisFiles \<longleftrightarrow> prEnvironment p = ''container''"
    by (auto simp: filesOf_def)
  have "callsBounded p AxisProjection \<longleftrightarrow> afProjection ?f = ProjAbsent"
    unfolding split by (simp add: off pairs(2,4,6,8,10))
  then show "callsBounded p AxisProjection \<longleftrightarrow> prEnvironment p = ''container''
     \<and> (case prProjection p of None \<Rightarrow> True | Some j \<Rightarrow> \<not> pjEnabled j \<and> pjItems j = [])"
    by (auto simp: projectionOf_def split: option.splits)
  have "callsBounded p AxisSecrets \<longleftrightarrow> afSecretNames ?f = []"
    unfolding split by (simp add: off pairs(2,4,6,8,10))
  then show "callsBounded p AxisSecrets \<longleftrightarrow> prSecrets p = []"
    by (metis facts_fields(4) length_0_conv length_map length_sort)
  have "callsBounded p AxisCredentials \<longleftrightarrow> afProviders ?f = []"
    unfolding split by (simp add: off pairs(2,4,6,8,10))
  then show "callsBounded p AxisCredentials \<longleftrightarrow> declaresNoProvider p"
    by (simp add: no_provider)
qed

text \<open>(C32) The evaluation calls an axis bounded exactly when the profile bounds it: the network for a
  container with network deny and readable destinations, the files for a container, the projection for
  a container that projects nothing, the secrets and the credentials when none is declared.
\<close>

theorem bounded_means_bounded:
  "(callsBounded p AxisNetwork \<longleftrightarrow>
       prEnvironment p = ''container'' \<and> prNetwork p = ''deny'' \<and> list_all safeDestination (prEgress p))
   \<and> (callsBounded p AxisFiles \<longleftrightarrow> prEnvironment p = ''container'')
   \<and> (callsBounded p AxisProjection \<longleftrightarrow> prEnvironment p = ''container''
       \<and> (case prProjection p of None \<Rightarrow> True | Some j \<Rightarrow> \<not> pjEnabled j \<and> pjItems j = []))
   \<and> (callsBounded p AxisSecrets \<longleftrightarrow> prSecrets p = [])
   \<and> (callsBounded p AxisCredentials \<longleftrightarrow> declaresNoProvider p)"
  by (intro conjI) (rule bounded_parts)+

section \<open>The older presentations\<close>

lemma hasWrite_name: "providerHasWrite ps n \<Longrightarrow> n \<in> cpProvider ` set ps"
  by (induction ps) (auto split: if_splits)

lemma raw_rules:
  "fiRuleID ` set (providerFindings f x) =
     insert (credentialRuleID (cpProvider x))
       (if combinationID (cpProvider x) \<noteq> [] \<and> compatibilityRuleApplies f (combinationID (cpProvider x))
        then {combinationID (cpProvider x)} else {})"
  by (auto simp: providerFindings_def Let_def)

text \<open>Each group reports rules of its own axis only.\<close>

lemma group_axes:
  "i \<in> fiRuleID ` set (evaluateNetworkAuthority f) \<Longrightarrow> ruleAxis i = Some AxisNetwork"
  "i \<in> fiRuleID ` set (evaluateFileAuthority f) \<Longrightarrow> ruleAxis i = Some AxisFiles"
  "i \<in> fiRuleID ` set (evaluateProjectionAuthority f) \<Longrightarrow> ruleAxis i = Some AxisProjection"
  "i \<in> fiRuleID ` set (evaluateSecretAuthority f) \<Longrightarrow> ruleAxis i = Some AxisSecrets"
  by (cases "afNetwork f"; cases "afFiles f"; cases "afProjection f";
      force simp: evaluateNetworkAuthority_def evaluateFileAuthority_def evaluateProjectionAuthority_def
        evaluateSecretAuthority_def split: if_splits)+

lemma combination_rule: "ruleAxis (combinationID n) = Some AxisCredentials \<or> combinationID n = []"
  by (simp add: combinationID_def)

lemma provider_axes:
  assumes "x \<in> set (snd (normalizeCredentialAuthority c))" and "i \<in> fiRuleID ` set (providerFindings f x)"
  shows "ruleAxis i = Some AxisCredentials"
  using assms(2) provider_known [OF assms(1)] combination_rule [of "cpProvider x"]
  unfolding raw_rules by (auto split: if_splits)

lemma credential_axes:
  assumes "i \<in> fiRuleID ` set (evaluateCredentialAuthority (normalizeAuthorityFacts p))"
  shows "ruleAxis i = Some AxisCredentials"
proof (cases "afProviders (normalizeAuthorityFacts p) = []")
  case True
  with assms show ?thesis by (simp add: evaluateCredentialAuthority_def)
next
  case False
  with assms obtain x where "x \<in> set (snd (normalizeCredentialAuthority (prCredentials p)))"
    "i \<in> fiRuleID ` set (providerFindings (normalizeAuthorityFacts p) x)"
    by (auto simp: evaluateCredentialAuthority_def)
  then show ?thesis by (rule provider_axes)
qed

lemma reports_split:
  "reports p i \<longleftrightarrow> (let f = normalizeAuthorityFacts p in
     i \<in> fiRuleID ` set (evaluateNetworkAuthority f) \<or> i \<in> fiRuleID ` set (evaluateFileAuthority f)
   \<or> i \<in> fiRuleID ` set (evaluateProjectionAuthority f) \<or> i \<in> fiRuleID ` set (evaluateSecretAuthority f)
   \<or> i \<in> fiRuleID ` set (evaluateCredentialAuthority f))"
  unfolding reports_def findings_raw rawFindings_def Let_def set_sortStable set_append image_Un by simp

lemma writes_named:
  "githubWrites p \<Longrightarrow> ''github'' \<in> cpProvider ` set (snd (normalizeCredentialAuthority (prCredentials p)))"
  "forgejoWrites p \<Longrightarrow> ''forgejo'' \<in> cpProvider ` set (snd (normalizeCredentialAuthority (prCredentials p)))"
  by (rule hasWrite_name; simp)+

lemma combination_reported:
  assumes "m \<in> {''github'', ''forgejo''}"
  shows "combinationID m \<in> fiRuleID ` set (evaluateCredentialAuthority (normalizeAuthorityFacts p)) \<longleftrightarrow>
     compatibilityRuleApplies (normalizeAuthorityFacts p) (combinationID m)"
proof -
  let ?f = "normalizeAuthorityFacts p"
  let ?ps = "snd (normalizeCredentialAuthority (prCredentials p))"
  have fresh: "combinationID m \<noteq> []" "combinationID m \<noteq> ''authority.credentials.absent''"
    "combinationID m \<noteq> credentialRuleID n" for n
    using assms by (auto simp: combinationID_def credentialRuleID_def)
  have own: "combinationID m = combinationID n \<longleftrightarrow> m = n" for n
    using assms by (auto simp: combinationID_def)
  have named: "compatibilityRuleApplies ?f (combinationID m) \<Longrightarrow> m \<in> cpProvider ` set ?ps"
    using assms by (auto simp: compatibilityRuleApplies_def combinationID_def intro: writes_named)
  have row: "combinationID m \<in> fiRuleID ` set (providerFindings ?f x) \<longleftrightarrow>
      cpProvider x = m \<and> compatibilityRuleApplies ?f (combinationID m)" for x
    using fresh own [of "cpProvider x"] by (auto simp: raw_rules)
  show ?thesis
  proof (cases "?ps = []")
    case True
    with named fresh show ?thesis by (auto simp: evaluateCredentialAuthority_def)
  next
    case False
    then have "combinationID m \<in> fiRuleID ` set (evaluateCredentialAuthority ?f) \<longleftrightarrow>
        (\<exists>x \<in> set ?ps. combinationID m \<in> fiRuleID ` set (providerFindings ?f x))"
      by (simp add: evaluateCredentialAuthority_def image_UN)
    with row named show ?thesis by auto
  qed
qed

lemma compatibility_reported:
  assumes "i \<in> {''github-write-open-egress'', ''forgejo-write-open-egress'', ''egress-ignored''}"
  shows "reports p i \<longleftrightarrow> compatibilityRuleApplies (normalizeAuthorityFacts p) i"
proof -
  let ?f = "normalizeAuthorityFacts p"
  have off: "ruleAxis i \<noteq> Some AxisFiles" "ruleAxis i \<noteq> Some AxisProjection" "ruleAxis i \<noteq> Some AxisSecrets"
    using assms by auto
  have combo: "reports p (combinationID m) \<longleftrightarrow> compatibilityRuleApplies ?f (combinationID m)"
    if "m \<in> {''github'', ''forgejo''}" for m
  proof -
    have "ruleAxis (combinationID m) = Some AxisCredentials" using that by (auto simp: combinationID_def)
    then show ?thesis
      using group_axes [of "combinationID m" ?f] combination_reported [OF that]
      by (auto simp: reports_split Let_def)
  qed
  have "reports p ''egress-ignored'' \<longleftrightarrow> ''egress-ignored'' \<in> fiRuleID ` set (evaluateNetworkAuthority ?f)"
    using group_axes [of "''egress-ignored''" ?f] credential_axes [of "''egress-ignored''" p]
    by (auto simp: reports_split Let_def)
  also have "\<dots> \<longleftrightarrow> compatibilityRuleApplies ?f ''egress-ignored''"
    by (cases "afNetwork ?f") (auto simp: evaluateNetworkAuthority_def)
  finally show ?thesis
    using assms combo [of "''github''"] combo [of "''forgejo''"] by (auto simp: combinationID_def)
qed

lemma lint_codes:
  "(n, i) \<in> (\<lambda>w. (waProfile w, waCode w)) ` set (lintProfile m p) \<longleftrightarrow>
     n = m \<and> i \<in> {''github-write-open-egress'', ''forgejo-write-open-egress'', ''egress-ignored''}
   \<and> compatibilityRuleApplies (normalizeAuthorityFacts p) i"
  by (auto simp: lintProfile_def Let_def split: if_splits)

lemma Lint_pairs:
  "(n, i) \<in> (\<lambda>w. (waProfile w, waCode w)) ` set (Lint (Some profiles)) \<longleftrightarrow>
     (\<exists>p. map_of profiles n = Some p \<and> (n, i) \<in> (\<lambda>w. (waProfile w, waCode w)) ` set (lintProfile n p))"
proof -
  have named: "map_of profiles m = Some p \<Longrightarrow> m \<in> fst ` set profiles" for m p
    by (metis domI dom_map_of_conv_image_fst)
  show ?thesis
  proof
    assume "(n, i) \<in> (\<lambda>w. (waProfile w, waCode w)) ` set (Lint (Some profiles))"
    then obtain m where "(n, i) \<in> (\<lambda>w. (waProfile w, waCode w))
        ` set (case map_of profiles m of None \<Rightarrow> [] | Some p \<Rightarrow> lintProfile m p)"
      by (auto simp: Lint_def)
    then obtain p where m: "map_of profiles m = Some p"
      "(n, i) \<in> (\<lambda>w. (waProfile w, waCode w)) ` set (lintProfile m p)"
      by (cases "map_of profiles m") auto
    then have "n = m" unfolding lint_codes by blast
    with m show "\<exists>p. map_of profiles n = Some p
        \<and> (n, i) \<in> (\<lambda>w. (waProfile w, waCode w)) ` set (lintProfile n p)" by blast
  next
    assume "\<exists>p. map_of profiles n = Some p
        \<and> (n, i) \<in> (\<lambda>w. (waProfile w, waCode w)) ` set (lintProfile n p)"
    then obtain p where p: "map_of profiles n = Some p"
      "(n, i) \<in> (\<lambda>w. (waProfile w, waCode w)) ` set (lintProfile n p)" by blast
    from p(1) have "set (lintProfile n p) \<subseteq> set (Lint (Some profiles))"
      using named by (force simp: Lint_def)
    with p(2) show "(n, i) \<in> (\<lambda>w. (waProfile w, waCode w)) ` set (Lint (Some profiles))" by blast
  qed
qed

lemma warning_parts:
  "(n, i) \<in> (\<lambda>w. (waProfile w, waCode w)) ` set (Lint (Some profiles)) \<longleftrightarrow>
     (\<exists>p. map_of profiles n = Some p \<and> reports p i
        \<and> i \<in> {''github-write-open-egress'', ''forgejo-write-open-egress'', ''egress-ignored''})"
  "reports p ''github-write-open-egress'' \<longleftrightarrow>
     (prEnvironment p = ''host'' \<or> prNetwork p = ''allow'') \<and> githubWrites p"
  "reports p ''forgejo-write-open-egress'' \<longleftrightarrow>
     (prEnvironment p = ''host'' \<or> prNetwork p = ''allow'') \<and> forgejoWrites p"
  "reports p ''egress-ignored'' \<longleftrightarrow>
     prEgress p \<noteq> [] \<and> \<not> (prEnvironment p = ''container'' \<and> prNetwork p = ''deny'')"
proof -
  show "(n, i) \<in> (\<lambda>w. (waProfile w, waCode w)) ` set (Lint (Some profiles)) \<longleftrightarrow>
     (\<exists>p. map_of profiles n = Some p \<and> reports p i
        \<and> i \<in> {''github-write-open-egress'', ''forgejo-write-open-egress'', ''egress-ignored''})"
    unfolding Lint_pairs lint_codes using compatibility_reported by blast
  show "reports p ''github-write-open-egress'' \<longleftrightarrow>
     (prEnvironment p = ''host'' \<or> prNetwork p = ''allow'') \<and> githubWrites p"
    by (subst compatibility_reported) (auto simp: compatibilityRuleApplies_def)
  show "reports p ''forgejo-write-open-egress'' \<longleftrightarrow>
     (prEnvironment p = ''host'' \<or> prNetwork p = ''allow'') \<and> forgejoWrites p"
    by (subst compatibility_reported) (auto simp: compatibilityRuleApplies_def)
  show "reports p ''egress-ignored'' \<longleftrightarrow>
     prEgress p \<noteq> [] \<and> \<not> (prEnvironment p = ''container'' \<and> prNetwork p = ''deny'')"
    by (subst compatibility_reported) (auto simp: compatibilityRuleApplies_def networkOf_def)
qed

text \<open>The warnings of \<open>Lint\<close> are the findings of the evaluation with the same code, for every
  profile of the configuration; and a credential that can write to a forge is one exactly when the
  profile opens its egress and declares a write, for the whole provider or for one repository.
\<close>

theorem warnings_are_findings:
  "((n, i) \<in> (\<lambda>w. (waProfile w, waCode w)) ` set (Lint (Some profiles)) \<longleftrightarrow>
       (\<exists>p. map_of profiles n = Some p \<and> reports p i
          \<and> i \<in> {''github-write-open-egress'', ''forgejo-write-open-egress'', ''egress-ignored''}))
   \<and> (reports p ''github-write-open-egress'' \<longleftrightarrow>
       (prEnvironment p = ''host'' \<or> prNetwork p = ''allow'') \<and> githubWrites p)
   \<and> (reports p ''forgejo-write-open-egress'' \<longleftrightarrow>
       (prEnvironment p = ''host'' \<or> prNetwork p = ''allow'') \<and> forgejoWrites p)
   \<and> (reports p ''egress-ignored'' \<longleftrightarrow>
       prEgress p \<noteq> [] \<and> \<not> (prEnvironment p = ''container'' \<and> prNetwork p = ''deny''))"
  by (intro conjI) (rule warning_parts)+

text \<open>
  A destination the evaluation cannot read makes its network unknown and critical, while the risk rows
  and the risk level still call the same profile contained.
\<close>

lemma unreadable_destination_shown_contained:
  assumes "prEnvironment p = ''container''" and "prNetwork p = ''deny''"
    and "\<not> list_all safeDestination (prEgress p)"
  shows "\<not> callsBounded p AxisNetwork" and "reports p ''authority.network.unknown''"
    and "raRestricted (hd (RiskAxes p))" and "rkLevel (RiskSummary p) = ''contained''"
proof -
  have reach: "networkOf p = NetContainerAllowlisted" using assms(1,2) by (simp add: networkOf_def)
  have bad: "\<not> snd (valueFreeEgressDestinations (prEgress p))"
    using assms(3) by (cases "prEgress p") (auto simp: valueFreeEgressDestinations_def)
  have "''authority.network.unknown'' \<in> fiRuleID ` set (evaluateNetworkAuthority (normalizeAuthorityFacts p))"
    using reach bad by (simp add: evaluateNetworkAuthority_def)
  then show "reports p ''authority.network.unknown''" by (simp add: reports_split Let_def)
  show "\<not> callsBounded p AxisNetwork"
    using reach bad
    unfolding callsBounded_def findings_raw rawFindings_def Let_def set_sortStable set_append image_Un
    by (simp add: network_pairs file_pairs(1) [THEN off_axis] projection_pairs(1) [THEN off_axis]
        secret_pairs(1) [THEN off_axis] known_pairs(1) [THEN off_axis])
  show "raRestricted (hd (RiskAxes p))" "rkLevel (RiskSummary p) = ''contained''"
    using reach by (simp_all add: RiskAxes_def RiskSummary_def Let_def)
qed

text \<open>The credential lines of the risk summary leave the Pi OAuth provider out.\<close>

lemma risk_omits_pi_oauth:
  "credLines (Some \<lparr>crPnpm = [], crAws = None, crGcp = None, crKube = None, crGithub = None,
     crForgejo = None, crPi = Some q\<rparr>) = []"
  by (simp add: credLines_def credentialLines_def credentialLine_def declaredProviders_def)

section \<open>Consent\<close>

definition permutes :: "shuffles \<Rightarrow> bool" where
  "permutes r \<longleftrightarrow> (\<forall>xs. mset (shTrue r xs) = mset xs \<and> mset (shFalse r xs) = mset xs
                    \<and> mset (shRest r xs) = mset xs \<and> mset (shOut r xs) = mset xs)"

lemma statements_distinct: "distinct (hostTrueStatements @ crossTierDecoys)"
  by (simp add: hostTrueStatements_def crossTierDecoys_def)

text \<open>
  Whatever the shuffles are, the consent rows of a host launch are distinct statements of the two
  lists, as many as asked for but at least two and at most eight, and at least one is true and at least
  one is false, so that neither answer alone passes.
\<close>

theorem consent_mixes:
  assumes "permutes r"
  shows "length (HostConsentStatements k r) = min 8 (if k < 2 then 2 else nat k)"
    and "distinct (HostConsentStatements k r)"
    and "set (HostConsentStatements k r) \<subseteq> set (hostTrueStatements @ crossTierDecoys)"
    and "True \<in> csExpected ` set (HostConsentStatements k r)"
    and "False \<in> csExpected ` set (HostConsentStatements k r)"
proof -
  define t f where "t = shTrue r hostTrueStatements" and "f = shFalse r crossTierDecoys"
  define rest where "rest = shRest r (tl t @ tl f)"
  define n :: nat where "n = (if k < 2 then 2 else nat k)"
  define out where "out = [hd t, hd f] @ take (n - 2) rest"
  have perm: "mset t = mset hostTrueStatements" "mset f = mset crossTierDecoys" "mset rest = mset (tl t @ tl f)"
    and shown: "mset (HostConsentStatements k r) = mset out"
    using assms by (simp_all add: permutes_def t_def f_def rest_def out_def n_def HostConsentStatements_def Let_def)
  have len: "length t = 4" "length f = 4"
    using perm(1,2) [THEN mset_eq_length] by (simp_all add: hostTrueStatements_def crossTierDecoys_def)
  then have ne: "t \<noteq> []" "f \<noteq> []" by auto
  have "mset ([hd t, hd f] @ rest) = mset (t @ f)"
    using ne by (cases t; cases f) (simp_all add: perm(3))
  then have all: "mset ([hd t, hd f] @ rest) = mset (hostTrueStatements @ crossTierDecoys)"
    using perm(1,2) by simp
  have rest6: "length rest = 6" using len perm(3) [THEN mset_eq_length] by simp
  have n2: "2 \<le> n" using nat_mono [of 2 k] by (simp add: n_def)
  have "length out = min 8 n" using rest6 n2 by (simp add: out_def)
  then show "length (HostConsentStatements k r) = min 8 (if k < 2 then 2 else nat k)"
    using shown [THEN mset_eq_length] by (simp add: n_def)
  have prefix: "out = take n ([hd t, hd f] @ rest)"
    using n2 by (cases n rule: nat.exhaust; cases "n - 1") (auto simp: out_def)
  have "distinct ([hd t, hd f] @ rest)"
    using all statements_distinct mset_eq_imp_distinct_iff by blast
  then have "distinct out" unfolding prefix by (rule distinct_take)
  then show "distinct (HostConsentStatements k r)"
    using shown mset_eq_imp_distinct_iff by blast
  have same: "set (HostConsentStatements k r) = set out" using shown by (rule mset_eq_setD)
  have "set out \<subseteq> set ([hd t, hd f] @ rest)" unfolding prefix by (rule set_take_subset)
  also have "\<dots> = set (hostTrueStatements @ crossTierDecoys)" using all by (rule mset_eq_setD)
  finally show "set (HostConsentStatements k r) \<subseteq> set (hostTrueStatements @ crossTierDecoys)"
    using same by simp
  have "hd t \<in> set hostTrueStatements" "hd f \<in> set crossTierDecoys"
    using ne perm(1,2) [THEN mset_eq_setD] by auto
  then have "csExpected (hd t)" "\<not> csExpected (hd f)"
    by (auto simp: hostTrueStatements_def crossTierDecoys_def)
  moreover have "hd t \<in> set out" "hd f \<in> set out" by (simp_all add: out_def)
  ultimately show "True \<in> csExpected ` set (HostConsentStatements k r)"
    "False \<in> csExpected ` set (HostConsentStatements k r)"
    using same by (metis (full_types) image_eqI)+
qed

text \<open>Shuffles that reverse.\<close>

definition reversing :: shuffles where
  "reversing = \<lparr>shTrue = rev, shFalse = rev, shRest = rev, shOut = rev\<rparr>"

theorem consent_mixes_witness:
  "length (HostConsentStatements 3 reversing) = 3
   \<and> map csExpected (HostConsentStatements 3 reversing) = [False, False, True]"
proof
  have "permutes reversing" by (simp add: permutes_def reversing_def)
  from consent_mixes(1) [OF this, of 3] show "length (HostConsentStatements 3 reversing) = 3" by simp
  show "map csExpected (HostConsentStatements 3 reversing) = [False, False, True]"
    by (simp add: HostConsentStatements_def reversing_def hostTrueStatements_def crossTierDecoys_def)
qed

end
