(* ===== verification/EvaluationCheck.thy ===== *)
theory EvaluationCheck
  imports Evaluation
begin

text \<open>
  The two validators of \<open>policy/evaluation.go\<close>: the one of the registry, which the package runs when it
  is loaded and which stops the program if it fails, and the one of an evaluation.
\<close>

section \<open>Closed enumerations\<close>

fun isFindingOutcome :: "finding_outcome \<Rightarrow> bool" where
  "isFindingOutcome (OutOther _) = False"
| "isFindingOutcome _ = True"

fun isFindingSeverity :: "finding_severity \<Rightarrow> bool" where
  "isFindingSeverity (SevOther _) = False"
| "isFindingSeverity _ = True"

fun isRemediationKind :: "remediation_kind \<Rightarrow> bool" where
  "isRemediationKind (RemOther _) = False"
| "isRemediationKind _ = True"

fun isCredentialAccess :: "cred_access \<Rightarrow> bool" where
  "isCredentialAccess (AccOther _) = False"
| "isCredentialAccess _ = True"

fun isCredentialLifetime :: "cred_lifetime \<Rightarrow> bool" where
  "isCredentialLifetime (LifeOther _) = False"
| "isCredentialLifetime _ = True"

fun isCredentialBasis :: "cred_basis \<Rightarrow> bool" where
  "isCredentialBasis (BasisOther _) = False"
| "isCredentialBasis _ = True"

definition isAuthorityAxis :: "finding_axis \<Rightarrow> bool" where
  "isAuthorityAxis a \<longleftrightarrow> axisOrder a < 99"

fun indexOf :: "string \<Rightarrow> string list \<Rightarrow> nat option" where
  "indexOf x [] = None"
| "indexOf x (y # ys) = (if x = y then Some 0 else map_option Suc (indexOf x ys))"

definition credentialProviderOrder :: "string \<Rightarrow> nat" where
  "credentialProviderOrder provider = (case indexOf provider providers of None \<Rightarrow> 99 | Some i \<Rightarrow> i)"

definition isCredentialProvider :: "string \<Rightarrow> bool" where
  "isCredentialProvider provider \<longleftrightarrow> credentialProviderOrder provider < 99"

fun outcomeRequiresRemediation :: "finding_outcome \<Rightarrow> bool" where
  "outcomeRequiresRemediation OutConcern = True"
| "outcomeRequiresRemediation OutFail = True"
| "outcomeRequiresRemediation OutUnknown = True"
| "outcomeRequiresRemediation _ = False"

section \<open>The registry\<close>

datatype registry_error =
  RuleBadID | RuleDuplicate | RuleBadAxis | RuleBadOrdinal | RuleOrdinalTaken | RuleBadTitle
| RuleBadConsequence | RuleNoDisposition | RuleBadDisposition | RuleDuplicateDisposition
| RuleNeedsRemediation | RuleForbidsRemediation | RuleBadRemediation string

definition validateRemediation :: "Remediation \<Rightarrow> (string, unit) res" where
  "validateRemediation r =
     (if \<not> isRemediationKind (rmKind r) then Inl ''unknown kind''
      else if \<not> actionIDPattern (rmActionID r) then Inl ''invalid action ID''
      else if rmSummary r = [] \<or> containsForbiddenMaterial (rmSummary r) then Inl ''summary''
      else if rmDocsRef r = [] \<or> containsForbiddenMaterial (rmDocsRef r) then Inl ''docs_ref''
      else Inr ())"

fun validateDispositions ::
  "(finding_outcome \<times> finding_severity) list \<Rightarrow> (finding_outcome \<times> finding_severity) list
   \<Rightarrow> (registry_error, bool) res" where
  "validateDispositions seen [] = Inr False"
| "validateDispositions seen ((out, sev) # ds) =
     (if \<not> isFindingOutcome out \<or> \<not> isFindingSeverity sev then Inl RuleBadDisposition
      else if (out, sev) \<in> set seen then Inl RuleDuplicateDisposition
      else rbind (validateDispositions ((out, sev) # seen) ds)
             (\<lambda>needs. Inr (outcomeRequiresRemediation out \<or> needs)))"

definition validateRule :: "authorityRule \<Rightarrow> (registry_error, unit) res" where
  "validateRule rule =
     (if arTitle rule = [] \<or> containsForbiddenMaterial (arTitle rule) then Inl RuleBadTitle
      else let consequence = arConsequence rule noContext in
      if consequence = [] \<or> containsForbiddenMaterial consequence then Inl RuleBadConsequence
      else if arAllowed rule = [] then Inl RuleNoDisposition
      else rbind (validateDispositions [] (arAllowed rule)) (\<lambda>needs.
        case arRemediation rule of
          None \<Rightarrow> if needs then Inl RuleNeedsRemediation else Inr ()
        | Some r \<Rightarrow>
            if \<not> needs then Inl RuleForbidsRemediation
            else (case validateRemediation r of Inl e \<Rightarrow> Inl (RuleBadRemediation e) | Inr u \<Rightarrow> Inr u)))"

text \<open>
  The loop over the rules. The identifiers seen so far and the ordinals taken per axis are lists.
\<close>

fun validateRegistryRules ::
  "string list \<Rightarrow> (finding_axis \<times> int) list \<Rightarrow> authorityRule list \<Rightarrow> (registry_error \<times> string, unit) res" where
  "validateRegistryRules ids ordinals [] = Inr ()"
| "validateRegistryRules ids ordinals (rule # rules) =
     (let i = arID rule in
      if \<not> stableIDPattern i then Inl (RuleBadID, i)
      else if i \<in> set ids then Inl (RuleDuplicate, i)
      else if \<not> isAuthorityAxis (arAxis rule) then Inl (RuleBadAxis, i)
      else if arOrdinal rule \<le> 0 then Inl (RuleBadOrdinal, i)
      else if (arAxis rule, arOrdinal rule) \<in> set ordinals then Inl (RuleOrdinalTaken, i)
      else case validateRule rule of
        Inl e \<Rightarrow> Inl (e, i)
      | Inr _ \<Rightarrow> validateRegistryRules (i # ids) ((arAxis rule, arOrdinal rule) # ordinals) rules)"

definition ValidateFindingRegistry :: "(registry_error \<times> string, unit) res" where
  "ValidateFindingRegistry = validateRegistryRules [] [] authorityRuleRegistry"

section \<open>An evaluation\<close>

datatype scope_error =
  ScopeBadID | ScopeBadProvider | ScopeBadTarget | ScopeBadAccess | ScopeBadLifetime | ScopeBadBasis

datatype evaluation_error =
  EvalScope nat scope_error | EvalScopeDuplicate string | EvalScopeOrder
| EvalUnregistered string | EvalDuplicate string | EvalRegistryMismatch string
| EvalDisposition string | EvalConsequence string | EvalScopesUnsorted string
| EvalDanglingScope string string | EvalNeedsRemediation string | EvalForbidsRemediation string
| EvalRemediationMismatch string | EvalFindingOrder | EvalAxisAbsent finding_axis
| EvalScopeUnreferenced

definition validateCredentialScope :: "CredScope \<Rightarrow> (scope_error, unit) res" where
  "validateCredentialScope scope =
     (let forge = (scProvider scope = ''github'' \<or> scProvider scope = ''forgejo'');
          targetSafe =
            (if scProvider scope = ''pi-oauth'' then scTarget scope = ''openai-codex/gpt-5.6-luna''
             else safeValueFreeMetadata (scTarget scope) \<or> forge \<and> safeRepositoryTarget (scTarget scope)) in
      if \<not> credentialIDPattern (scScopeID scope)
         \<or> \<not> hasPrefix (scScopeID scope) (''credential.'' @ scProvider scope @ ''.'') then Inl ScopeBadID
      else if \<not> isCredentialProvider (scProvider scope) then Inl ScopeBadProvider
      else if \<not> targetSafe then Inl ScopeBadTarget
      else if \<not> isCredentialAccess (scAccess scope) then Inl ScopeBadAccess
      else if \<not> isCredentialLifetime (scLifetime scope) then Inl ScopeBadLifetime
      else if \<not> isCredentialBasis (scBasis scope) then Inl ScopeBadBasis
      else Inr ())"

definition credentialScopeLess :: "CredScope \<Rightarrow> CredScope \<Rightarrow> bool" where
  "credentialScopeLess a b =
     (if credentialProviderOrder (scProvider a) \<noteq> credentialProviderOrder (scProvider b)
        then credentialProviderOrder (scProvider a) < credentialProviderOrder (scProvider b)
      else if scTarget a \<noteq> scTarget b then scTarget a < scTarget b
      else if scAccess a \<noteq> scAccess b then accessText (scAccess a) < accessText (scAccess b)
      else if scLifetime a \<noteq> scLifetime b then lifetimeText (scLifetime a) < lifetimeText (scLifetime b)
      else if scBasis a \<noteq> scBasis b then basisText (scBasis a) < basisText (scBasis b)
      else scScopeID a < scScopeID b)"

fun validateScopes ::
  "nat \<Rightarrow> CredScope option \<Rightarrow> string list \<Rightarrow> CredScope list \<Rightarrow> (evaluation_error, string list) res" where
  "validateScopes i prior seen [] = Inr seen"
| "validateScopes i prior seen (scope # scopes) =
     (case validateCredentialScope scope of
        Inl e \<Rightarrow> Inl (EvalScope i e)
      | Inr _ \<Rightarrow>
          if scScopeID scope \<in> set seen then Inl (EvalScopeDuplicate (scScopeID scope))
          else if (case prior of None \<Rightarrow> False | Some p \<Rightarrow> credentialScopeLess scope p) then Inl EvalScopeOrder
          else validateScopes (Suc i) (Some scope) (scScopeID scope # seen) scopes)"

definition ruleAllows :: "authorityRule \<Rightarrow> finding_outcome \<Rightarrow> finding_severity \<Rightarrow> bool" where
  "ruleAllows rule outcome severity \<longleftrightarrow>
     list_ex (\<lambda>allowed. fst allowed = outcome \<and> snd allowed = severity) (arAllowed rule)"

text \<open>The checks on one finding that look at nothing but its rule and the known scopes.\<close>

definition validateFinding :: "string list \<Rightarrow> authorityRule \<Rightarrow> Finding \<Rightarrow> (evaluation_error, unit) res" where
  "validateFinding known rule f =
     (let i = fiRuleID f in
      if fiAxis f \<noteq> arAxis rule \<or> fiTitle f \<noteq> arTitle rule then Inl (EvalRegistryMismatch i)
      else if \<not> ruleAllows rule (fiOutcome f) (fiSeverity f) then Inl (EvalDisposition i)
      else if fiConsequence f = [] \<or> containsForbiddenMaterial (fiConsequence f)
        then Inl (EvalConsequence i)
      else if \<not> sorted (fiScopeIDs f) then Inl (EvalScopesUnsorted i)
      else case find (\<lambda>s. s \<notin> set known) (fiScopeIDs f) of
        Some s \<Rightarrow> Inl (EvalDanglingScope i s)
      | None \<Rightarrow>
          if outcomeRequiresRemediation (fiOutcome f) \<and> fiRemediation f = None
            then Inl (EvalNeedsRemediation i)
          else if \<not> outcomeRequiresRemediation (fiOutcome f) \<and> fiRemediation f \<noteq> None
            then Inl (EvalForbidsRemediation i)
          else if fiRemediation f \<noteq> arRemediation rule then Inl (EvalRemediationMismatch i)
          else Inr ())"

fun validateFindings ::
  "string list \<Rightarrow> Finding option \<Rightarrow> string list \<Rightarrow> Finding list \<Rightarrow> (evaluation_error, unit) res" where
  "validateFindings known prior seen [] = Inr ()"
| "validateFindings known prior seen (f # fs) =
     (case authorityRulesByID (fiRuleID f) of
        None \<Rightarrow> Inl (EvalUnregistered (fiRuleID f))
      | Some rule \<Rightarrow>
          if fiRuleID f \<in> set seen then Inl (EvalDuplicate (fiRuleID f))
          else case validateFinding known rule f of
            Inl e \<Rightarrow> Inl e
          | Inr _ \<Rightarrow>
              if (case prior of None \<Rightarrow> False | Some p \<Rightarrow> authorityFindingLess f p) then Inl EvalFindingOrder
              else validateFindings known (Some f) (fiRuleID f # seen) fs)"

definition coreAxes :: "finding_axis list" where
  "coreAxes = [AxisNetwork, AxisFiles, AxisProjection, AxisSecrets, AxisCredentials]"

definition ValidateAuthorityEvaluation :: "AuthorityEvaluation \<Rightarrow> (evaluation_error, unit) res" where
  "ValidateAuthorityEvaluation authority =
     rbind (validateScopes 0 None [] (aeScopes authority)) (\<lambda>known.
     rbind (validateFindings known None [] (aeFindings authority)) (\<lambda>_.
       case find (\<lambda>axis. axis \<notin> fiAxis ` set (aeFindings authority)) coreAxes of
         Some axis \<Rightarrow> Inl (EvalAxisAbsent axis)
       | None \<Rightarrow>
           if list_all (\<lambda>s. s \<in> set (concat (map fiScopeIDs (aeFindings authority)))) known
           then Inr () else Inl EvalScopeUnreferenced))"

end
