(* ===== verification/EvaluationText.thy ===== *)
theory EvaluationText
  imports EvaluationReports EvaluationCheck
begin

text \<open>
  When a text holds no forbidden material. The markers of \<open>containsForbiddenMaterial\<close> are looked for in
  the lowered text; a text of plain characters can only hold five of them, and a text joined from clean
  parts at a blank or a comma is clean.
\<close>

section \<open>Substrings\<close>

lemma contains_trans: "contains s (u @ m @ v) \<Longrightarrow> contains s m"
  by (auto simp: contains_iff) (metis append.assoc)

lemma contains_set: "contains s m \<Longrightarrow> set m \<subseteq> set s"
  by (auto simp: contains_iff)

lemma hasPrefix_iff: "hasPrefix s p \<longleftrightarrow> (\<exists>v. s = p @ v)"
  unfolding hasPrefix_def by (metis append_eq_conv_conj append_take_drop_id)

lemma contains_Nil [simp]: "contains s [] \<longleftrightarrow> True"
  by (cases s) (simp_all add: hasPrefix_def)

lemma contains_Cons_other: "m \<noteq> [] \<Longrightarrow> hd m \<noteq> c \<Longrightarrow> contains (c # s) m = contains s m"
  by (cases m) (auto simp: hasPrefix_def)

lemma contains_append_sep:
  assumes "m \<noteq> []" and "sep \<notin> set m"
  shows "contains (a @ sep # b) m \<longleftrightarrow> contains a m \<or> contains b m"
proof
  assume "contains (a @ sep # b) m"
  then obtain u v where uv: "a @ sep # b = u @ m @ v" by (auto simp: contains_iff)
  show "contains a m \<or> contains b m"
  proof (cases "length u + length m \<le> length a")
    case True
    from uv have "take (length (u @ m)) (a @ sep # b) = u @ m" by (metis append.assoc append_eq_conv_conj)
    with True have "take (length (u @ m)) a = u @ m" by simp
    then have "a = u @ m @ drop (length (u @ m)) a" by (metis append.assoc append_take_drop_id)
    then show ?thesis unfolding contains_iff by blast
  next
    case False
    have "length a < length u"
    proof (rule ccontr)
      assume "\<not> length a < length u"
      with False have "(u @ m @ v) ! length a \<in> set m"
        by (auto simp: nth_append)
      with assms(2) uv show False by (metis nth_append_length)
    qed
    then obtain k where k: "length u = Suc (length a) + k" using less_imp_Suc_add by fastforce
    from uv have "drop (Suc (length a)) (a @ sep # b) = drop (Suc (length a)) u @ m @ v"
      using k by simp
    then have "b = drop (Suc (length a)) u @ m @ v" by simp
    then show ?thesis unfolding contains_iff by blast
  qed
next
  assume "contains a m \<or> contains b m"
  then show "contains (a @ sep # b) m"
    unfolding contains_iff by (metis append.assoc append_Cons)
qed

text \<open>A marker with one separator in it can also lie across the join.\<close>

lemma contains_append_cross:
  assumes "contains (a @ sep # b) (x @ sep # y)" and "sep \<notin> set x" "sep \<notin> set y"
  shows "contains a (x @ sep # y) \<or> contains b (x @ sep # y) \<or> (\<exists>u. a = u @ x) \<and> hasPrefix b y"
proof -
  from assms(1) obtain u v where uv: "a @ sep # b = u @ (x @ sep # y) @ v" by (auto simp: contains_iff)
  consider "length (u @ x) < length a" | "length (u @ x) = length a" | "length a < length (u @ x)" by linarith
  then show ?thesis
  proof cases
    case 1
    show ?thesis
    proof (cases "length (u @ x @ sep # y) \<le> length a")
      case True
      from uv have "take (length (u @ x @ sep # y)) (a @ sep # b) = u @ x @ sep # y"
        by (metis append.assoc append_Cons append_eq_conv_conj)
      with True have "take (length (u @ x @ sep # y)) a = u @ x @ sep # y" by simp
      then have "a = u @ (x @ sep # y) @ drop (length (u @ x @ sep # y)) a"
        by (metis append.assoc append_take_drop_id)
      then show ?thesis unfolding contains_iff by blast
    next
      case False
      from uv have w: "a @ sep # b = (u @ x @ [sep]) @ y @ v" by simp
      define i where "i = length a - length (u @ x @ [sep])"
      from 1 False have i: "length a = length (u @ x @ [sep]) + i" "i < length y"
        by (simp_all add: i_def)
      have "(a @ sep # b) ! length a = y ! i" unfolding w using i by (simp add: nth_append)
      then have "sep = y ! i" by simp
      with i(2) assms(3) show ?thesis by (metis nth_mem)
    qed
  next
    case 2
    moreover from uv have "a @ sep # b = (u @ x) @ sep # y @ v" by simp
    ultimately have "a = u @ x" "b = y @ v" by (metis append_eq_append_conv list.inject)+
    then show ?thesis by (auto simp: hasPrefix_iff)
  next
    case 3
    show ?thesis
    proof (cases "length a < length u")
      case True
      then obtain k where k: "length u = Suc (length a) + k" using less_imp_Suc_add by fastforce
      from uv have "drop (Suc (length a)) (a @ sep # b) = drop (Suc (length a)) u @ (x @ sep # y) @ v"
        using k by simp
      then have "b = drop (Suc (length a)) u @ (x @ sep # y) @ v" by simp
      then show ?thesis unfolding contains_iff by blast
    next
      case False
      with 3 have "(u @ (x @ sep # y) @ v) ! length a \<in> set x" by (auto simp: nth_append)
      with uv assms(2) show ?thesis by (metis nth_append_length)
    qed
  qed
qed

section \<open>Plain characters\<close>

definition plainChar :: "char \<Rightarrow> bool" where
  "plainChar c \<longleftrightarrow> byte c < 128 \<and> c \<noteq> CHR ''/'' \<and> c \<noteq> CHR '':'' \<and> c \<noteq> CHR 0x5C \<and> c \<noteq> CHR ''_''"

lemma byte_cases: "c = d \<longleftrightarrow> byte c = byte d"
  by simp

lemma asciiLower_byte: "byte (asciiLower c) = (if 65 \<le> byte c \<and> byte c \<le> 90 then byte c + 32 else byte c)"
  using byte_less [of c] by (simp add: asciiLower_def isUpper_def)

lemma asciiLower_plain: "plainChar (asciiLower c) = plainChar c"
  unfolding plainChar_def byte_cases [of _ "CHR ''/''"] byte_cases [of _ "CHR '':''"]
    byte_cases [of _ "CHR 0x5C"] byte_cases [of _ "CHR ''_''"] asciiLower_byte
  by (auto simp: byte_def)

lemma toLower_ascii: "list_all (\<lambda>c. byte c < 128) s \<Longrightarrow> toLower s = map asciiLower s"
proof (induction s)
  case (Cons c s)
  then have "c \<noteq> CHR 0xE2" "c \<noteq> CHR 0xC4" by (auto simp: byte_def)
  with Cons show ?case by (simp add: hasPrefix_def)
qed simp

lemma set_trimPrefixes: "set (trimPrefixes ps s) \<subseteq> set s"
proof (induction ps s rule: trimPrefixes.induct)
  case (1 ps s)
  have cut: "stripOne qs s = Some t \<Longrightarrow> set t \<subseteq> set s" for qs t
    by (induction qs) (auto dest: in_set_dropD split: if_splits)
  show ?case
  proof (cases "stripOne ps s")
    case None
    then show ?thesis by (simp add: trimPrefixes_id)
  next
    case (Some t)
    with 1 [OF Some] cut show ?thesis by (subst trimPrefixes.simps) auto
  qed
qed

lemma set_trimSpace: "set (trimSpace s) \<subseteq> set s"
  unfolding trimSpace_def trimBoth_def set_rev using set_trimPrefixes by (metis set_rev subset_trans)

text \<open>The markers a plain text can hold, the one with two blanks shortened to its end.\<close>

definition shortMarkers :: "string list" where
  "shortMarkers = [''secrets.env'', ''private-key'', ''key ref'', ''key-ref'', ''token-ref'']"

definition clean :: "string \<Rightarrow> bool" where
  "clean s \<longleftrightarrow> list_all plainChar s \<and> list_all (\<lambda>m. \<not> contains (map asciiLower s) m) shortMarkers"

lemma lower_plain: "list_all plainChar s \<Longrightarrow> list_all plainChar (map asciiLower s)"
  by (simp add: list_all_iff asciiLower_plain)

lemma plain_marker:
  assumes "list_all plainChar s" and "contains s m" shows "list_all plainChar m"
  using assms contains_set by (force simp: list_all_iff)

lemma forbidden_markers_plain:
  "filter (list_all plainChar) forbiddenMarkers
     = [''secrets.env'', ''private-key'', ''private key ref'', ''key-ref'', ''token-ref'']"
  by (simp add: forbiddenMarkers_def plainChar_def byte_def)

lemma clean_allowed:
  assumes "clean s" shows "\<not> containsForbiddenMaterial s"
proof -
  have plain: "list_all plainChar s" using assms by (simp add: clean_def)
  then have lower: "toLower s = map asciiLower s"
    by (intro toLower_ascii) (auto simp: list_all_iff plainChar_def)
  have "\<not> contains (map asciiLower s) ''private key ref''"
    using assms contains_trans [of "map asciiLower s" "''private ''" "''key ref''" "[]"]
    by (auto simp: clean_def shortMarkers_def)
  then have five: "m \<in> set (filter (list_all plainChar) forbiddenMarkers) \<Longrightarrow> \<not> contains (map asciiLower s) m" for m
    unfolding forbidden_markers_plain using assms by (auto simp: clean_def shortMarkers_def)
  have "\<not> contains (map asciiLower s) m" if "m \<in> set forbiddenMarkers" for m
    using five [of m] plain_marker [OF lower_plain [OF plain], of m] that by auto
  moreover have "\<not> hasPrefix (trimSpace s) ''/''"
  proof
    assume "hasPrefix (trimSpace s) ''/''"
    then have "CHR ''/'' \<in> set (trimSpace s)" by (auto simp: hasPrefix_iff)
    then have "CHR ''/'' \<in> set s" using set_trimSpace by blast
    with plain show False by (auto simp: list_all_iff plainChar_def)
  qed
  ultimately show ?thesis by (auto simp: containsForbiddenMaterial_def lower list_ex_iff)
qed

lemma clean_comma:
  assumes "clean a" "clean b" shows "clean (a @ CHR '','' # b)"
proof -
  have "asciiLower CHR '','' = CHR '',''" "plainChar CHR '',''"
    by (simp_all add: asciiLower_def isUpper_def plainChar_def byte_def)
  moreover have "m \<in> set shortMarkers \<Longrightarrow> m \<noteq> [] \<and> CHR '','' \<notin> set m" for m
    by (auto simp: shortMarkers_def)
  ultimately show ?thesis
    using assms by (auto simp: clean_def list_all_iff contains_append_sep)
qed

lemma clean_blank:
  assumes "clean a" "clean b"
    and "\<And>u. map asciiLower a = u @ ''key'' \<Longrightarrow> \<not> hasPrefix (map asciiLower b) ''ref''"
  shows "clean (a @ CHR '' '' # b)"
proof -
  have blank: "asciiLower CHR '' '' = CHR '' ''" "plainChar CHR '' ''"
    by (simp_all add: asciiLower_def isUpper_def plainChar_def byte_def)
  have "\<not> contains (map asciiLower (a @ CHR '' '' # b)) m" if "m \<in> set shortMarkers" for m
  proof (cases "CHR '' '' \<in> set m")
    case True
    with that have m: "m = ''key'' @ CHR '' '' # ''ref''" by (auto simp: shortMarkers_def)
    have "\<not> contains (map asciiLower a) m" "\<not> contains (map asciiLower b) m"
      using assms(1,2) that by (auto simp: clean_def list_all_iff)
    then show ?thesis
      using contains_append_cross [of "map asciiLower a" "CHR '' ''" "map asciiLower b" "''key''" "''ref''"] assms(3)
      unfolding m by (auto simp: blank)
  next
    case False
    moreover have "m \<noteq> []" using that by (auto simp: shortMarkers_def)
    ultimately show ?thesis
      using assms(1,2) that by (auto simp: clean_def list_all_iff blank contains_append_sep)
  qed
  with assms(1,2) blank show ?thesis by (auto simp: clean_def list_all_iff)
qed

section \<open>One pass over a text\<close>

text \<open>
  A text is clean when no place in it starts the tell-tale pair of a marker: a dash before k or r, a full
  stop before e, a y before a blank and \<open>ref\<close>.
\<close>

definition starts :: "char \<Rightarrow> string \<Rightarrow> bool" where
  "starts c s \<longleftrightarrow>
     c = CHR ''-'' \<and> (hasPrefix s ''k'' \<or> hasPrefix s ''r'') \<or> c = CHR ''.'' \<and> hasPrefix s ''e''
   \<or> c = CHR ''y'' \<and> hasPrefix s '' ref''"

fun cleanText :: "string \<Rightarrow> bool" where
  "cleanText [] \<longleftrightarrow> True"
| "cleanText (c # s) \<longleftrightarrow> plainChar c \<and> \<not> starts (asciiLower c) (map asciiLower s) \<and> cleanText s"

lemma cleanText_plain: "cleanText s \<Longrightarrow> list_all plainChar s"
  by (induction s) simp_all

lemma cleanText_pairs:
  "cleanText s \<Longrightarrow> p \<in> {''-k'', ''-r'', ''.e'', ''y ref''} \<Longrightarrow> \<not> contains (map asciiLower s) p"
  by (induction s) (auto simp: starts_def hasPrefix_def)

lemma cleanText_clean:
  assumes "cleanText s" shows "clean s"
proof -
  let ?l = "map asciiLower s"
  note pair = cleanText_pairs [OF assms]
  have "\<not> contains ?l ''secrets.env''" using pair [of "''.e''"] contains_trans [of ?l "''secrets''" "''.e''" "''nv''"] by auto
  moreover have "\<not> contains ?l ''private-key''" using pair [of "''-k''"] contains_trans [of ?l "''private''" "''-k''" "''ey''"] by auto
  moreover have "\<not> contains ?l ''key ref''" using pair [of "''y ref''"] contains_trans [of ?l "''ke''" "''y ref''" "[]"] by auto
  moreover have "\<not> contains ?l ''key-ref''" using pair [of "''-r''"] contains_trans [of ?l "''key''" "''-r''" "''ef''"] by auto
  moreover have "\<not> contains ?l ''token-ref''" using pair [of "''-r''"] contains_trans [of ?l "''token''" "''-r''" "''ef''"] by auto
  ultimately show ?thesis using cleanText_plain [OF assms] by (simp add: clean_def shortMarkers_def)
qed

lemmas cleanText_allowed = cleanText_clean [THEN clean_allowed]

lemma cleanText_digit: "isDigit c \<Longrightarrow> cleanText (c # s) = cleanText s"
  unfolding cleanText.simps starts_def plainChar_def byte_cases [of c] byte_cases [of "asciiLower c"] asciiLower_byte
  by (auto simp: isDigit_def byte_def)

lemma cleanText_digits: "list_all isDigit ds \<Longrightarrow> cleanText (ds @ s) = cleanText s"
  by (induction ds) (simp_all add: cleanText_digit del: cleanText.simps)

lemma cleanText_natText: "cleanText (natText n @ s) = cleanText s"
  using natText_digits by (rule cleanText_digits [OF conjunct1])

text \<open>The pass over a literal, one character at a time.\<close>

definition mild :: "char \<Rightarrow> bool" where
  "mild c \<longleftrightarrow> plainChar c \<and> byte (asciiLower c) \<notin> {45, 46, 121}"

lemma mild_list:
  "list_all mild ''abcdefghijklmnopqrstuvwxzABCDEFGHIJKLMNOPQRSTUVWXZ0123456789 ,;''"
  unfolding mild_def plainChar_def asciiLower_byte by (simp add: byte_def)

lemmas mild_chars = mild_list [unfolded list.pred_inject]

lemma pass_mild: "mild c \<Longrightarrow> cleanText (c # s) = cleanText s"
  by (auto simp: mild_def starts_def byte_def)

lemma ascii_letters:
  "list_all (\<lambda>c. asciiLower c = c) ''abcdefghijklmnopqrstuvwxyz0123456789 ,;.-''"
  by (simp add: asciiLower_def isUpper_def byte_def)

lemmas ascii_chars = ascii_letters [unfolded list.pred_inject]

lemma plain_marks: "plainChar CHR ''-''" "plainChar CHR ''.''" "plainChar CHR ''y''"
  by (simp_all add: plainChar_def byte_def)

lemma asciiLower_blank: "CHR '' '' = asciiLower c \<longleftrightarrow> c = CHR '' ''"
proof -
  have "byte (CHR '' '') = byte (asciiLower c) \<longleftrightarrow> byte c = byte (CHR '' '')"
    unfolding asciiLower_byte by (simp add: byte_def)
  then show ?thesis by simp
qed

lemma pass_dash: "cleanText (CHR ''-'' # c # s) \<longleftrightarrow> asciiLower c \<noteq> CHR ''k'' \<and> asciiLower c \<noteq> CHR ''r'' \<and> cleanText (c # s)"
  by (auto simp: starts_def hasPrefix_def plain_marks ascii_chars)

lemma pass_stop: "cleanText (CHR ''.'' # c # s) \<longleftrightarrow> asciiLower c \<noteq> CHR ''e'' \<and> cleanText (c # s)"
  "cleanText ''.'' \<longleftrightarrow> True"
  by (auto simp: starts_def hasPrefix_def plain_marks ascii_chars)

lemma pass_y: "c \<noteq> CHR '' '' \<Longrightarrow> cleanText (CHR ''y'' # c # s) \<longleftrightarrow> cleanText (c # s)"
  "cleanText (CHR ''y'' # CHR '' '' # d # e # f # s) \<longleftrightarrow>
     map asciiLower [d, e, f] \<noteq> ''ref'' \<and> cleanText (CHR '' '' # d # e # f # s)"
  "cleanText ''y'' \<longleftrightarrow> True"
  using asciiLower_blank [of c]
  by (auto simp: starts_def hasPrefix_def plain_marks ascii_chars)

lemmas clean_pass = pass_mild mild_chars pass_dash pass_stop pass_y ascii_chars cleanText.simps(1)

text \<open>Destinations that are safe to show are clean, alone and listed.\<close>

lemma destination_char: "isAlnum c \<or> c = CHR ''.'' \<or> c = CHR ''-'' \<Longrightarrow> plainChar c \<and> c \<noteq> CHR '' ''"
  unfolding isAlnum_def plainChar_def byte_cases [of c] char_class_defs by (auto simp: byte_def)

lemma safeDestination_clean:
  assumes "safeDestination d" shows "clean d"
proof -
  have pattern: "registryHostPattern (dropPrefix d ''.'')" and free: "safeValueFreeMetadata d"
    using assms by (simp_all add: safeDestination_def Let_def)
  have chars: "list_all (\<lambda>c. isAlnum c \<or> c = CHR ''.'' \<or> c = CHR ''-'') d"
    using pattern by (cases d) (auto simp: registryHostPattern_def dropPrefix_def hasPrefix_def split: if_splits)
  then have plain: "list_all plainChar d" and blank: "CHR '' '' \<notin> set d"
    using destination_char by (force simp: list_all_iff)+
  have lower: "toLower d = map asciiLower d"
    using plain by (intro toLower_ascii) (auto simp: list_all_iff plainChar_def)
  have "CHR '' '' \<notin> set (map asciiLower d)"
    using blank asciiLower_blank by (metis (no_types, lifting) imageE list.set_map)
  then have "\<not> contains (map asciiLower d) ''key ref''" using contains_set by fastforce
  moreover have "\<not> containsForbiddenMaterial d" using free by (simp add: safeValueFreeMetadata_def safeMetadataBasics_def)
  ultimately show ?thesis
    using plain by (simp add: clean_def shortMarkers_def containsForbiddenMaterial_def lower forbiddenMarkers_def)
qed

lemma clean_first_blank: "clean b \<Longrightarrow> clean (CHR '' '' # b)"
  using clean_blank [of "[]" b] by (simp add: clean_def list_all_iff shortMarkers_def)

lemma clean_list:
  "list_all clean ds \<Longrightarrow> clean (joinWith '', '' ds)"
proof (induction ds rule: induct_list012)
  case (3 x y zs)
  then have "clean (CHR '' '' # joinWith '', '' (y # zs))" by (intro clean_first_blank) simp
  with 3 show ?case by (auto intro: clean_comma)
qed (auto simp: clean_def shortMarkers_def)

end
