(* ===== verification/EvaluationValid.thy ===== *)
theory EvaluationValid
  imports EvaluationText
begin

text \<open>
  The two validators accept what the package itself makes: the registry, when it is loaded, and every
  evaluation of a profile whose labels and numbers of scopes fit.
\<close>

section \<open>The registry\<close>

lemma trimSpace_id:
  "stripOne spaceRunes s = None \<Longrightarrow> stripOne (map rev spaceRunes) (rev s) = None \<Longrightarrow> trimSpace s = s"
  by (simp add: trimSpace_def trimBoth_def trimPrefixes_id)

lemma hasPrefix_hd: "hasPrefix s p \<Longrightarrow> p \<noteq> [] \<Longrightarrow> hd s = hd p"
  by (auto simp: hasPrefix_iff)

definition visible :: "char \<Rightarrow> bool" where
  "visible c \<longleftrightarrow> 32 < byte c \<and> byte c < 127"

lemma space_invisible:
  "p \<in> set spaceRunes \<Longrightarrow> p \<noteq> [] \<and> \<not> visible (hd p) \<and> \<not> visible (last p)"
proof -
  have "list_all (\<lambda>p. p \<noteq> [] \<and> \<not> visible (hd p) \<and> \<not> visible (last p)) spaceRunes" by code_simp
  then show "p \<in> set spaceRunes \<Longrightarrow> ?thesis" by (auto simp: list_all_iff)
qed

lemma trimSpace_visible:
  assumes "s \<noteq> []" "visible (hd s)" "visible (last s)" shows "trimSpace s = s"
proof (rule trimSpace_id; unfold stripOne_None; intro ballI)
  fix p assume "p \<in> set spaceRunes"
  with assms show "p = [] \<or> \<not> hasPrefix s p" using space_invisible hasPrefix_hd by metis
next
  fix q assume "q \<in> set (map rev spaceRunes)"
  then obtain p where p: "p \<in> set spaceRunes" "q = rev p" by auto
  with assms show "q = [] \<or> \<not> hasPrefix (rev s) q"
    using space_invisible [OF p(1)] hasPrefix_hd [of "rev s" q] by (auto simp: hd_rev)
qed

lemma toLower_plain: "list_all plainChar s \<Longrightarrow> toLower s = map asciiLower s"
  by (rule toLower_ascii) (simp add: list_all_iff plainChar_def)

text \<open>A text with one slash, between two clean parts that do not look like a path.\<close>

definition slashPairs :: "(string \<times> string) list" where
  "slashPairs = [('':'', []), (''~'', []), (''e'', []), (''}'', []), (''.'', []), (''h'', []),
     ([], ''u''), ([], ''h''), ([], ''p''), ([], ''t'')]"

lemma slash_markers:
  "m \<in> set forbiddenMarkers \<Longrightarrow> CHR ''/'' \<in> set m \<Longrightarrow>
     \<exists>p \<in> set slashPairs. \<exists>u v. m = u @ (fst p @ CHR ''/'' # snd p) @ v"
proof -
  have "list_all (\<lambda>m. CHR ''/'' \<in> set m \<longrightarrow> list_ex (\<lambda>p. contains m (fst p @ CHR ''/'' # snd p)) slashPairs)
      forbiddenMarkers"
    by (simp add: forbiddenMarkers_def slashPairs_def hasPrefix_def)
  then show "m \<in> set forbiddenMarkers \<Longrightarrow> CHR ''/'' \<in> set m \<Longrightarrow> ?thesis"
    by (auto simp: list_all_iff list_ex_iff contains_iff)
qed

lemma slash_allowed:
  assumes "clean A" "clean B" "A \<noteq> []" "B \<noteq> []"
    and "asciiLower (last A) \<notin> {CHR '':'', CHR ''~'', CHR ''e'', CHR ''}'', CHR ''.'', CHR ''h''}"
    and "asciiLower (hd B) \<notin> {CHR ''u'', CHR ''h'', CHR ''p'', CHR ''t''}"
    and "visible (hd A)" "visible (last B)"
  shows "\<not> containsForbiddenMaterial (A @ CHR ''/'' # B)"
proof -
  let ?a = "map asciiLower A" and ?b = "map asciiLower B"
  have plain: "list_all plainChar A" "list_all plainChar B" using assms(1,2) by (simp_all add: clean_def)
  have slash: "asciiLower CHR ''/'' = CHR ''/''" "byte CHR ''/'' < 128"
    by (simp_all add: asciiLower_def isUpper_def byte_def)
  have lower: "toLower (A @ CHR ''/'' # B) = ?a @ CHR ''/'' # ?b"
    using plain slash by (subst toLower_ascii) (auto simp: list_all_iff plainChar_def)
  have free: "CHR ''/'' \<notin> set ?a" "CHR ''/'' \<notin> set ?b"
    using lower_plain [OF plain(1)] lower_plain [OF plain(2)] by (auto simp: list_all_iff plainChar_def)
  have trim: "trimSpace (A @ CHR ''/'' # B) = A @ CHR ''/'' # B"
    using assms(3,4,7,8) by (intro trimSpace_visible) auto
  have "\<not> contains (?a @ CHR ''/'' # ?b) m" if m: "m \<in> set forbiddenMarkers" for m
  proof (cases "CHR ''/'' \<in> set m")
    case True
    from slash_markers [OF m True] obtain p u v
      where p: "p \<in> set slashPairs" "m = u @ (fst p @ CHR ''/'' # snd p) @ v" by blast
    have ends: "(\<exists>w. ?a = w @ fst p) \<Longrightarrow> \<not> hasPrefix ?b (snd p)"
      using p(1) assms(3-6) by (cases A rule: rev_cases; cases B) (auto simp: slashPairs_def hasPrefix_def)
    have "CHR ''/'' \<notin> set (fst p)" "CHR ''/'' \<notin> set (snd p)" using p(1) by (auto simp: slashPairs_def)
    moreover have "\<not> contains ?a (fst p @ CHR ''/'' # snd p)"
      using free(1) contains_set [of ?a "fst p @ CHR ''/'' # snd p"] by auto
    moreover have "\<not> contains ?b (fst p @ CHR ''/'' # snd p)"
      using free(2) contains_set [of ?b "fst p @ CHR ''/'' # snd p"] by auto
    ultimately have "\<not> contains (?a @ CHR ''/'' # ?b) (fst p @ CHR ''/'' # snd p)"
      using contains_append_cross [of ?a "CHR ''/''" ?b "fst p" "snd p"] ends by blast
    then show ?thesis unfolding p(2) using contains_trans by blast
  next
    case False
    moreover have "m \<noteq> []" using m by (auto simp: forbiddenMarkers_def)
    ultimately have split: "contains (?a @ CHR ''/'' # ?b) m \<longleftrightarrow> contains ?a m \<or> contains ?b m"
      by (intro contains_append_sep)
    have low: "toLower A = ?a" "toLower B = ?b"
      using plain by (simp_all add: toLower_plain)
    have "\<not> contains (toLower A) m" "\<not> contains (toLower B) m"
      using clean_allowed [OF assms(1)] clean_allowed [OF assms(2)] m
      unfolding containsForbiddenMaterial_def list_ex_iff by blast+
    then have "\<not> contains ?a m" "\<not> contains ?b m" unfolding low .
    with split show ?thesis by simp
  qed
  then have markers: "\<not> list_ex (contains (toLower (A @ CHR ''/'' # B))) forbiddenMarkers"
    unfolding lower list_ex_iff by blast
  have "hd A \<noteq> CHR ''/''" using plain(1) assms(3) by (cases A) (auto simp: plainChar_def)
  then have "\<not> hasPrefix (A @ CHR ''/'' # B) ''/''"
    using assms(3) hasPrefix_hd [of "A @ CHR ''/'' # B" "''/''"] by auto
  with markers show ?thesis unfolding containsForbiddenMaterial_def trim by blast
qed

lemma docs_allowed:
  "list_all (\<lambda>a. \<not> containsForbiddenMaterial (evaluationDocs @ a))
     [''#authority-network'', ''#authority-files'', ''#authority-projection'', ''#authority-secrets'',
      ''#authority-credentials'']"
proof -
  have parts: "evaluationDocs @ a = ''specs'' @ CHR ''/'' # (''0101-profile-safety-evaluation.md'' @ a)" for a
    by (simp add: evaluationDocs_def)
  have hash: "plainChar CHR ''#''" "mild CHR ''#''" unfolding mild_def plainChar_def asciiLower_byte
    by (simp_all add: byte_def)
  show ?thesis
    unfolding parts list.pred_inject
    by (intro conjI slash_allowed cleanText_clean)
      (simp_all add: clean_pass hash visible_def byte_def
        asciiLower_def isUpper_def del: cleanText.simps(2))
qed

lemma validateRegistryRules_ok:
  "\<lbrakk>list_all (\<lambda>r. stableIDPattern (arID r) \<and> isAuthorityAxis (arAxis r) \<and> 0 < arOrdinal r
       \<and> validateRule r = Inr ()) rs;
    distinct (map arID rs); distinct (map (\<lambda>r. (arAxis r, arOrdinal r)) rs);
    set ids \<inter> arID ` set rs = {}; set ordinals \<inter> (\<lambda>r. (arAxis r, arOrdinal r)) ` set rs = {}\<rbrakk>
   \<Longrightarrow> validateRegistryRules ids ordinals rs = Inr ()"
proof (induction rs arbitrary: ids ordinals)
  case (Cons r rs)
  have "validateRegistryRules (arID r # ids) ((arAxis r, arOrdinal r) # ordinals) rs = Inr ()"
    using Cons.prems by (intro Cons.IH) auto
  moreover have "arID r \<notin> set ids" "(arAxis r, arOrdinal r) \<notin> set ordinals" using Cons.prems by auto
  ultimately show ?case using Cons.prems(1) by simp
qed simp

lemma docs_clean:
  "\<not> containsForbiddenMaterial (evaluationDocs @ ''#authority-network'')"
  "\<not> containsForbiddenMaterial (evaluationDocs @ ''#authority-files'')"
  "\<not> containsForbiddenMaterial (evaluationDocs @ ''#authority-projection'')"
  "\<not> containsForbiddenMaterial (evaluationDocs @ ''#authority-secrets'')"
  "\<not> containsForbiddenMaterial (evaluationDocs @ ''#authority-credentials'')"
  using docs_allowed by simp_all

lemma countNoun_clean:
  "cleanText (countNoun n noun @ rest) \<longleftrightarrow>
     (if n = 1 then cleanText (CHR '' '' # noun @ rest) else cleanText (CHR '' '' # noun @ CHR ''s'' # rest))"
  using cleanText_natText [of n "CHR '' '' # noun @ CHR ''s'' # rest"]
  by (simp add: countNoun_def clean_pass del: cleanText.simps(2))

lemma credentialScopePhrase_clean:
  "cleanText (credentialScopePhrase n q @ rest) \<longleftrightarrow>
     (if n = 1 then cleanText (CHR '' '' # q @ '' credential scope is'' @ rest)
      else cleanText (CHR '' '' # q @ '' credential scopes are'' @ rest))"
  using cleanText_natText [of n "CHR '' '' # q @ '' credential scopes are'' @ rest"]
  by (simp add: credentialScopePhrase_def clean_pass del: cleanText.simps(2))

lemma forge_clean:
  "cleanText (forgeCredentialConsequence ''GitHub'' c)" "cleanText (forgeCredentialConsequence ''Forgejo'' c)"
  unfolding forgeCredentialConsequence_def credentialScopePhrase_clean
  by (simp_all add: clean_pass del: cleanText.simps(2))

lemma phrases_present [simp]:
  "countNoun n noun @ rest \<noteq> []" "credentialScopePhrase n q @ rest \<noteq> []" "forgeCredentialConsequence l c \<noteq> []"
  by (simp_all add: countNoun_def credentialScopePhrase_def forgeCredentialConsequence_def)

lemmas text_passes = cleanText_allowed clean_pass docs_clean countNoun_clean credentialScopePhrase_clean forge_clean

lemma registry_rules_ok:
  "list_all (\<lambda>r. stableIDPattern (arID r) \<and> isAuthorityAxis (arAxis r) \<and> 0 < arOrdinal r \<and> validateRule r = Inr ())
     authorityRuleRegistry"
  unfolding authorityRuleRegistry_def list.pred_inject authRule_def credentialRule_def credentialRuleID_def
  by (intro conjI) (simp_all add: text_passes fixedConsequence_def authorityRemediation_def validateRule_def validateRemediation_def
      stableIDPattern_def actionIDPattern_def lowerWord_def fqdnAlnum_def isLower_def isDigit_def byte_def
      isAuthorityAxis_def noContext_def Let_def del: cleanText.simps(2))

lemma registry_ordinals: "distinct (map (\<lambda>r. (arAxis r, arOrdinal r)) authorityRuleRegistry)"
  by (simp add: authorityRuleRegistry_def authRule_def credentialRule_def)

lemma registry_is_valid: "ValidateFindingRegistry = Inr ()"
  unfolding ValidateFindingRegistry_def
  by (rule validateRegistryRules_ok [OF registry_rules_ok registry_ids registry_ordinals]) simp_all

section \<open>The findings\<close>

lemmas rule_rows =
  registered [unfolded authorityRuleRegistry_def list.pred_inject authRule_def credentialRule_def
    credentialRuleID_def authorityRule.select_convs append.simps]

definition good :: "string list \<Rightarrow> Finding \<Rightarrow> bool" where
  "good known f \<longleftrightarrow>
     (case authorityRulesByID (fiRuleID f) of None \<Rightarrow> False | Some r \<Rightarrow> validateFinding known r f = Inr ())"

lemma good_make:
  assumes "authorityRulesByID i = Some r" and "ruleAllows r out sev"
    and "arConsequence r cx \<noteq> []" and "\<not> containsForbiddenMaterial (arConsequence r cx)"
    and "sorted ids" and "set ids \<subseteq> set known"
    and "outcomeRequiresRemediation out \<longleftrightarrow> arRemediation r \<noteq> None"
  shows "good known (makeAuthorityFinding i out sev cx ids)"
proof -
  have "find (\<lambda>s. s \<notin> set known) ids = None" using assms(6) by (auto simp: find_None_iff)
  moreover have "arID r = i" using assms(1) by (auto simp: authorityRulesByID_def find_Some_iff)
  ultimately show ?thesis
    using assms by (auto simp: good_def makeAuthorityFinding_def validateFinding_def Let_def)
qed

lemma destinations_listed:
  assumes "list_all safeDestination ds"
  shows "clean (''Egress is allowlisted; declared destinations '' @ joinWith '', '' ds @ '' remain possible exfiltration channels.'')"
proof -
  have "clean (joinWith '', '' ds)"
    using assms safeDestination_clean by (intro clean_list) (auto simp: list_all_iff)
  moreover have pieces: "clean ''remain possible exfiltration channels.''" "clean ''Egress is allowlisted; declared destinations''"
    by (rule cleanText_clean, simp add: clean_pass del: cleanText.simps(2))+
  ultimately have tail: "clean (joinWith '', '' ds @ CHR '' '' # ''remain possible exfiltration channels.'')"
    by (intro clean_blank) (simp_all add: hasPrefix_def asciiLower_def isUpper_def byte_def)
  have "clean (''Egress is allowlisted; declared destinations'' @ CHR '' ''
      # (joinWith '', '' ds @ CHR '' '' # ''remain possible exfiltration channels.''))"
  proof (rule clean_blank [OF pieces(2) tail])
    fix u assume "map asciiLower ''Egress is allowlisted; declared destinations'' = u @ ''key''"
    then have "last (map asciiLower ''Egress is allowlisted; declared destinations'') = CHR ''y''" by simp
    then show "\<not> hasPrefix (map asciiLower (joinWith '', '' ds @ CHR '' '' # ''remain possible exfiltration channels.'')) ''ref''"
      by (simp add: asciiLower_def isUpper_def byte_def)
  qed
  then show ?thesis by simp
qed

lemma fixed_good:
  "good known (makeAuthorityFinding ''authority.network.host-unrestricted'' OutConcern SevCritical cx [])"
  "good known (makeAuthorityFinding ''authority.network.container-open-egress'' OutConcern SevHigh cx [])"
  "good known (makeAuthorityFinding ''authority.network.unknown'' OutUnknown SevCritical cx [])"
  "good known (makeAuthorityFinding ''egress-ignored'' OutConcern SevMedium cx [])"
  "good known (makeAuthorityFinding ''authority.files.host-account'' OutConcern SevCritical cx [])"
  "good known (makeAuthorityFinding ''authority.files.workspace'' OutBounded SevInfo cx [])"
  "good known (makeAuthorityFinding ''authority.files.unknown'' OutUnknown SevCritical cx [])"
  "good known (makeAuthorityFinding ''authority.projection.not-applicable'' OutNotApplicable SevInfo cx [])"
  "good known (makeAuthorityFinding ''authority.projection.absent'' OutBounded SevInfo cx [])"
  "good known (makeAuthorityFinding ''authority.projection.live-host-config'' OutConcern SevMedium cx [])"
  "good known (makeAuthorityFinding ''authority.projection.unknown'' OutUnknown SevHigh cx [])"
  "good known (makeAuthorityFinding ''authority.secrets.absent'' OutBounded SevInfo cx [])"
  "good known (makeAuthorityFinding ''authority.secrets.injected'' OutConcern SevHigh cx [])"
  "good known (makeAuthorityFinding ''authority.credentials.absent'' OutBounded SevInfo cx [])"
  by (rule good_make, simp only: rule_rows;
      simp add: ruleAllows_def text_passes fixedConsequence_def authorityRemediation_def del: cleanText.simps(2))+

end
