(* ===== verification/EvaluationScopes.thy ===== *)
theory EvaluationScopes
  imports EvaluationValid
begin

text \<open>
  The order and the identifiers of the credential scopes and findings of an evaluation, as its validator
  wants them.
\<close>

section \<open>Stable sorting is sorting by a key\<close>

lemma insertStable_key:
  "(\<And>y. y \<in> set ys \<Longrightarrow> lt y x \<longleftrightarrow> k y < k x) \<Longrightarrow> insertStable lt x ys = insort_key k x ys"
  by (induction ys) (auto simp: not_le not_less)

lemma sortStable_key:
  fixes k :: "'a \<Rightarrow> 'b::linorder"
  assumes "\<And>x y. x \<in> set xs \<Longrightarrow> y \<in> set xs \<Longrightarrow> lt x y \<longleftrightarrow> k x < k y"
  shows "sortStable lt xs = sort_key k xs"
  using assms
proof (induction xs)
  case (Cons x xs)
  have "insertStable lt x (sort_key k xs) = insort_key k x (sort_key k xs)"
    using Cons.prems by (intro insertStable_key) auto
  then show ?case using Cons by (simp add: sortStable_def)
qed (simp add: sortStable_def)

section \<open>The order of the findings\<close>

definition findingKey :: "Finding \<Rightarrow> int list" where
  "findingKey f = [int (axisOrder (fiAxis f)), int (outcomeOrder (fiOutcome f)),
     int (severityOrder (fiSeverity f)), ordinalOf (fiRuleID f)]"

lemma findingLess_key: "authorityFindingLess a b \<longleftrightarrow> findingKey a < findingKey b"
  by (auto simp: authorityFindingLess_def findingKey_def)

lemma findings_sorted: "sorted (map findingKey (aeFindings (EvaluateAuthority p)))"
  using sortStable_key [of "rawFindings p" authorityFindingLess findingKey] by (simp add: findings_raw findingLess_key)

section \<open>The order of the scopes\<close>

definition closedScope :: "CredScope \<Rightarrow> bool" where
  "closedScope s \<longleftrightarrow> isCredentialAccess (scAccess s) \<and> isCredentialLifetime (scLifetime s) \<and> isCredentialBasis (scBasis s)"

definition scopeTexts :: "CredScope \<Rightarrow> string list" where
  "scopeTexts s = [scTarget s, accessText (scAccess s), lifetimeText (scLifetime s), basisText (scBasis s)]"

lemma text_injects:
  "isCredentialAccess a \<Longrightarrow> isCredentialAccess b \<Longrightarrow> accessText a = accessText b \<longleftrightarrow> a = b"
  "isCredentialLifetime l \<Longrightarrow> isCredentialLifetime m \<Longrightarrow> lifetimeText l = lifetimeText m \<longleftrightarrow> l = m"
  "isCredentialBasis c \<Longrightarrow> isCredentialBasis d \<Longrightarrow> basisText c = basisText d \<longleftrightarrow> c = d"
proof -
  show "isCredentialAccess a \<Longrightarrow> isCredentialAccess b \<Longrightarrow> accessText a = accessText b \<longleftrightarrow> a = b"
    by (cases a; cases b; simp)
  show "isCredentialLifetime l \<Longrightarrow> isCredentialLifetime m \<Longrightarrow> lifetimeText l = lifetimeText m \<longleftrightarrow> l = m"
    by (cases l; cases m; simp)
  show "isCredentialBasis c \<Longrightarrow> isCredentialBasis d \<Longrightarrow> basisText c = basisText d \<longleftrightarrow> c = d"
    by (cases c; cases d; simp)
qed

lemma draftLess_key:
  "closedScope (drScope x) \<Longrightarrow> closedScope (drScope y) \<Longrightarrow>
     draftLess x y \<longleftrightarrow> scopeTexts (drScope x) < scopeTexts (drScope y)"
  by (auto simp: draftLess_def closedScope_def scopeTexts_def Let_def text_injects)

definition scopeKey :: "CredScope \<Rightarrow> string list" where
  "scopeKey s = scopeTexts s @ [scScopeID s]"

lemma scopeLess_key:
  "closedScope x \<Longrightarrow> closedScope y \<Longrightarrow> credentialScopeLess x y \<longleftrightarrow>
     (if credentialProviderOrder (scProvider x) = credentialProviderOrder (scProvider y)
      then scopeKey x < scopeKey y else credentialProviderOrder (scProvider x) < credentialProviderOrder (scProvider y))"
  by (auto simp: credentialScopeLess_def closedScope_def scopeKey_def scopeTexts_def text_injects)

section \<open>Scope identifiers\<close>

lemma natText_cases:
  "n < 10 \<Longrightarrow> natText n = [digitChar n]"
  "10 \<le> n \<Longrightarrow> n < 100 \<Longrightarrow> natText n = [digitChar (n div 10), digitChar (n mod 10)]"
  "100 \<le> n \<Longrightarrow> n < 1000 \<Longrightarrow> natText n = [digitChar (n div 100), digitChar (n div 10 mod 10), digitChar (n mod 10)]"
proof -
  show one: "n < 10 \<Longrightarrow> natText n = [digitChar n]" for n by (subst natText.simps) simp
  show two: "10 \<le> n \<Longrightarrow> n < 100 \<Longrightarrow> natText n = [digitChar (n div 10), digitChar (n mod 10)]" for n
    by (subst natText.simps) (simp add: one)
  show "100 \<le> n \<Longrightarrow> n < 1000 \<Longrightarrow> natText n = [digitChar (n div 100), digitChar (n div 10 mod 10), digitChar (n mod 10)]"
    by (subst natText.simps) (simp add: two div_mult2_eq [symmetric])
qed

definition threeDigits :: "nat \<Rightarrow> string" where
  "threeDigits n = [digitChar (n div 100), digitChar (n div 10 mod 10), digitChar (n mod 10)]"

lemma scopeID_digits:
  assumes "n < 1000" shows "scopeID p n = ''credential.'' @ p @ ''.'' @ threeDigits n"
proof -
  have zero: "digitChar 0 = CHR ''0''" by (simp add: byte_cases byte_digitChar) (simp add: byte_def)
  have "n < 10 \<or> 10 \<le> n \<and> n < 100 \<or> 100 \<le> n" by linarith
  then show ?thesis
  proof (elim disjE conjE)
    assume "n < 10"
    then show ?thesis by (simp add: scopeID_def natText_cases(1) threeDigits_def zero numeral_2_eq_2)
  next
    assume "10 \<le> n" "n < 100"
    then show ?thesis by (simp add: scopeID_def natText_cases(2) threeDigits_def zero)
  next
    assume "100 \<le> n"
    then show ?thesis using assms by (simp add: scopeID_def natText_cases(3) threeDigits_def)
  qed
qed

lemma digitChar_order: "a < 10 \<Longrightarrow> b < 10 \<Longrightarrow> digitChar a < digitChar b \<longleftrightarrow> a < b"
  by (simp add: less_char_def flip: byte_def)

lemma threeDigits_order:
  assumes "m < n" "n < 1000" shows "threeDigits m < threeDigits n"
proof -
  have digits: "m = 100 * (m div 100) + 10 * (m div 10 mod 10) + m mod 10" for m :: nat
  proof -
    have "m div 100 = m div 10 div 10" using div_mult2_eq [of m 10 10] by simp
    then show ?thesis using div_mult_mod_eq [of m 10] div_mult_mod_eq [of "m div 10" 10] by linarith
  qed
  define a b c where "a = m div 100" and "b = m div 10 mod 10" and "c = m mod 10"
  define x y z where "x = n div 100" and "y = n div 10 mod 10" and "z = n mod 10"
  have "b < 10" "c < 10" "y < 10" "z < 10" "x < 10" "a < 10"
    using assms by (simp_all add: a_def b_def c_def x_def y_def z_def)
  moreover have "100 * a + 10 * b + c < 100 * x + 10 * y + z"
    using assms(1) digits [of m] digits [of n] by (simp add: a_def b_def c_def x_def y_def z_def)
  ultimately have "a < x \<or> a = x \<and> (b < y \<or> b = y \<and> c < z)" by linarith
  then show ?thesis
    using \<open>b < 10\<close> \<open>c < 10\<close> \<open>y < 10\<close> \<open>z < 10\<close> \<open>x < 10\<close> \<open>a < 10\<close>
    by (auto simp: threeDigits_def digitChar_order a_def b_def c_def x_def y_def z_def)
qed

lemma prefix_order: "(p @ x < p @ y) \<longleftrightarrow> (x < (y :: string))"
  by (induction p) auto

lemma scopeID_order: "m < n \<Longrightarrow> n < 1000 \<Longrightarrow> scopeID p m < scopeID p n"
  by (simp add: scopeID_digits threeDigits_order prefix_order del: append.simps)

lemma scopeID_prefix: "hasPrefix (scopeID p n) (''credential.'' @ p @ ''.'')"
  by (simp add: scopeID_def hasPrefix_iff)

lemma credentialID_iff:
  "credentialIDPattern s \<longleftrightarrow>
     (\<exists>q ds. q \<in> set providers \<and> s = ''credential.'' @ q @ ''.'' @ ds \<and> length ds = 3 \<and> list_all isDigit ds)"
proof -
  have "hasPrefix s pre \<and> length s = length pre + 3 \<and> list_all isDigit (drop (length pre) s)
      \<longleftrightarrow> (\<exists>ds. s = pre @ ds \<and> length ds = 3 \<and> list_all isDigit ds)" for pre
    unfolding hasPrefix_iff by auto
  from this [of "''credential.'' @ _ @ ''.''"] show ?thesis
    unfolding credentialIDPattern_def list_ex_iff Let_def Bex_def by (simp only: append_assoc ex_simps)
qed

lemma provider_dots: "q \<in> set providers \<Longrightarrow> CHR ''.'' \<notin> set q"
  by (auto simp: providers_def)

lemma provider_split:
  assumes "p \<in> set providers" "q \<in> set providers" and eq: "p @ CHR ''.'' # t = q @ CHR ''.'' # u"
  shows "p = q \<and> t = u"
proof -
  have "takeWhile (\<lambda>c. c \<noteq> CHR ''.'') (q @ CHR ''.'' # r) = q" if "q \<in> set providers" for q r
    using provider_dots [OF that] by (induction q) auto
  then have "p = q" using assms by metis
  with eq show ?thesis by simp
qed

lemma scopeID_inject:
  "p \<in> set providers \<Longrightarrow> q \<in> set providers \<Longrightarrow> scopeID p m = scopeID q n \<Longrightarrow> p = q"
  using provider_split [of p q] by (simp add: scopeID_def)

lemma scopeID_pattern:
  assumes p: "p \<in> set providers"
  shows "credentialIDPattern (scopeID p n) \<longleftrightarrow> n < 1000"
proof
  assume "n < 1000"
  then show "credentialIDPattern (scopeID p n)"
    unfolding credentialID_iff using p by (auto simp: scopeID_digits threeDigits_def)
next
  assume "credentialIDPattern (scopeID p n)"
  then obtain q ds where q: "q \<in> set providers" "length ds = 3"
    and eq: "scopeID p n = ''credential.'' @ q @ ''.'' @ ds"
    unfolding credentialID_iff by blast
  let ?t = "replicate (3 - length (natText n)) CHR ''0'' @ natText n"
  have "p @ CHR ''.'' # ?t = q @ CHR ''.'' # ds"
    using eq by (simp add: scopeID_def)
  then have "?t = ds" using provider_split [OF p q(1)] by blast
  then have "length (natText n) \<le> 3" using q(2) by (metis length_append le_add2)
  moreover have "\<not> n < 1000 \<Longrightarrow> 4 \<le> length (natText n)"
  proof -
    assume n: "\<not> n < 1000"
    have "\<not> n div 10 < 10" "\<not> n div 10 div 10 < 10"
      using n by (simp_all add: not_less less_eq_div_iff_mult_less_eq)
    moreover have "1 \<le> length (natText (n div 10 div 10 div 10))" using natText_digits by (simp add: Suc_le_eq)
    ultimately show ?thesis
      using n natText.simps [of n] natText.simps [of "n div 10"] natText.simps [of "n div 10 div 10"] by simp
  qed
  ultimately show "n < 1000" by linarith
qed

section \<open>Numbering\<close>

lemma numbered_scopes:
  "map drScope (numberDrafts p i ds) =
     map (\<lambda>(d, n). (drScope d)\<lparr>scScopeID := scopeID p n, scProvider := p\<rparr>) (zip ds [i ..< i + length ds])"
  by (induction p i ds rule: numberDrafts.induct) (simp_all add: upt_rec)

end
