(* ===== verification/EvaluationSound.thy ===== *)
theory EvaluationSound
  imports EvaluationScopes
begin

text \<open>
  An evaluation passes the validator of evaluations exactly when every provider has fewer than a thousand
  scopes and prints targets that read as value-free.
\<close>

section \<open>The scopes\<close>

definition scopeOrdered :: "CredScope \<Rightarrow> CredScope \<Rightarrow> bool" where
  "scopeOrdered a b \<longleftrightarrow> \<not> credentialScopeLess b a"

lemma validateScopes_iff:
  "validateScopes i prior seen ss = Inr known \<longleftrightarrow>
     list_all (\<lambda>s. validateCredentialScope s = Inr ()) ss \<and> distinct (map scScopeID ss)
   \<and> set (map scScopeID ss) \<inter> set seen = {}
   \<and> successively scopeOrdered ((case prior of None \<Rightarrow> [] | Some p \<Rightarrow> [p]) @ ss)
   \<and> known = rev (map scScopeID ss) @ seen"
  (is "?l i prior seen ss \<longleftrightarrow> ?r prior seen ss")
proof (induction ss arbitrary: i prior seen)
  case Nil
  then show ?case by (cases prior) auto
next
  case (Cons s ss)
  show ?case
    by (cases "validateCredentialScope s"; cases prior)
      (auto simp: Cons.IH scopeOrdered_def successively_Cons split: list.splits)
qed

lemma successively_of_wrt: "sorted_wrt R xs \<Longrightarrow> successively R xs"
  by (induction xs rule: induct_list012) auto

definition targetSafe :: "string \<Rightarrow> string \<Rightarrow> bool" where
  "targetSafe provider target \<longleftrightarrow>
     (if provider = ''pi-oauth'' then target = ''openai-codex/gpt-5.6-luna''
      else safeValueFreeMetadata target
         \<or> (provider = ''github'' \<or> provider = ''forgejo'') \<and> safeRepositoryTarget target)"

lemma known_provider: "isCredentialProvider p \<longleftrightarrow> p \<in> set providers"
  by (simp add: isCredentialProvider_def credentialProviderOrder_def providers_def)

lemma validate_numbered:
  assumes "p \<in> set providers" "closedScope s"
  shows "validateCredentialScope (s\<lparr>scScopeID := scopeID p n, scProvider := p\<rparr>) = Inr ()
     \<longleftrightarrow> n < 1000 \<and> targetSafe p (scTarget s)"
proof -
  have "''pi-oauth'' \<in> set providers" by (simp add: providers_def)
  with assms show ?thesis
    by (simp add: validateCredentialScope_def Let_def scopeID_pattern scopeID_prefix known_provider targetSafe_def
        closedScope_def del: append.simps)
qed

definition closedProvider :: "credentialProviderAuthority \<Rightarrow> bool" where
  "closedProvider x \<longleftrightarrow> cpProvider x \<in> set providers \<and> list_all (\<lambda>d. closedScope (drScope d)) (cpDrafts x)"

lemma closed_drafts:
  "closedProvider (pnpmCredentialAuthority rs)" "closedProvider (awsCredentialAuthority a)"
  "closedProvider (gcpCredentialAuthority g)" "closedProvider (kubeCredentialAuthority k)"
  "closedProvider (githubCredentialAuthority h)" "closedProvider (forgejoCredentialAuthority f)"
  "closedProvider (piOAuthCredentialAuthority q)"
proof -
  note defs = closedProvider_def closedScope_def providerOf_def scopeOf_def draftOf_def Let_def list_all_iff providers_def
  show "closedProvider (pnpmCredentialAuthority rs)" "closedProvider (awsCredentialAuthority a)"
    "closedProvider (gcpCredentialAuthority g)" "closedProvider (kubeCredentialAuthority k)"
    "closedProvider (piOAuthCredentialAuthority q)"
    by (auto simp: defs pnpmCredentialAuthority_def awsCredentialAuthority_def gcpCredentialAuthority_def
        kubeCredentialAuthority_def piOAuthCredentialAuthority_def)
  have access: "isCredentialAccess (credentialWriteAccess w)" for w by (simp add: credentialWriteAccess_def)
  have repos: "isCredentialLifetime l \<Longrightarrow> list_all (\<lambda>d. closedScope (drScope d)) (repositoryCredentialDrafts rs w l t u)" for rs w l t u
    by (auto simp: repositoryCredentialDrafts_def defs access)
  have origin: "isCredentialLifetime l \<Longrightarrow> closedScope (drScope (originDraft w l u))" for w l u
    by (simp add: originDraft_def defs access)
  have mode: "isCredentialLifetime (fst (githubMode h))" by (simp add: githubMode_def Let_def)
  have api: "githubAPIDrafts b l = (ds, u) \<Longrightarrow> isCredentialLifetime l \<Longrightarrow> list_all (\<lambda>d. closedScope (drScope d)) ds" for b l ds u
    by (auto simp: githubAPIDrafts_def defs split: if_splits)
  have fapi: "closedScope (drScope (forgejoAPIDraft b))" for b by (simp add: forgejoAPIDraft_def defs)
  show "closedProvider (githubCredentialAuthority h)"
    using repos origin mode
    by (auto dest: api simp: closedProvider_def githubCredentialAuthority_def Let_def providerOf_def providers_def raiseAuthority_def
        split: option.splits prod.splits)
  show "closedProvider (forgejoCredentialAuthority f)"
    using repos origin fapi
    by (auto simp: closedProvider_def forgejoCredentialAuthority_def Let_def providerOf_def providers_def raiseAuthority_def
        split: option.splits)
qed

lemma declared_closed: "x \<in> set (declaredProviders c) \<Longrightarrow> closedProvider x"
  by (auto simp: declaredProviders_def closed_drafts split: if_splits option.splits)

text \<open>The numbered scopes of one provider.\<close>

lemma numbered_ids:
  "map scScopeID (fst (finishProvider x)) = map (scopeID (cpProvider x)) [1 ..< Suc (length (cpDrafts x))]"
proof -
  have "map (\<lambda>d. scScopeID (drScope d)) (numberDrafts p i ds) = map (scopeID p) [i ..< i + length ds]" for p i ds
    by (induction p i ds rule: numberDrafts.induct) (simp_all add: upt_rec)
  from this [of "cpProvider x" 1] show ?thesis by (simp add: finishProvider_def Let_def comp_def)
qed

lemma finish_ids: "cpScopeIDs (snd (finishProvider x)) = map scScopeID (fst (finishProvider x))"
  by (simp add: finishProvider_def Let_def)

lemma finish_nth:
  assumes "i < length (cpDrafts x)"
  shows "fst (finishProvider x) ! i =
     (drScope (sortStable draftLess (cpDrafts x) ! i))\<lparr>scScopeID := scopeID (cpProvider x) (Suc i), scProvider := cpProvider x\<rparr>"
  using assms by (simp add: finishProvider_def Let_def numbered_scopes del: upt_Suc)

lemma finish_length [simp]: "length (fst (finishProvider x)) = length (cpDrafts x)"
proof -
  have "length (numberDrafts p i ds) = length ds" for p i ds by (induction p i ds rule: numberDrafts.induct) simp_all
  then show ?thesis by (simp add: finishProvider_def Let_def)
qed

lemma finish_valid:
  assumes "closedProvider x"
  shows "list_all (\<lambda>s. validateCredentialScope s = Inr ()) (fst (finishProvider x)) \<longleftrightarrow>
     length (cpDrafts x) < 1000 \<and> list_all (\<lambda>d. targetSafe (cpProvider x) (scTarget (drScope d))) (cpDrafts x)"
proof -
  let ?ds = "sortStable draftLess (cpDrafts x)"
  have closed: "closedScope (drScope (?ds ! i))" if "i < length (cpDrafts x)" for i
    using assms nth_mem [of i ?ds] that unfolding closedProvider_def list_all_iff by simp
  have "list_all (\<lambda>s. validateCredentialScope s = Inr ()) (fst (finishProvider x))
      \<longleftrightarrow> (\<forall>i < length (cpDrafts x). Suc i < 1000 \<and> targetSafe (cpProvider x) (scTarget (drScope (?ds ! i))))"
    using assms closed validate_numbered by (simp add: list_all_length finish_nth closedProvider_def)
  also have "\<dots> \<longleftrightarrow> (\<forall>i < length (cpDrafts x). Suc i < 1000)
      \<and> list_all (\<lambda>d. targetSafe (cpProvider x) (scTarget (drScope d))) ?ds"
    by (auto simp: list_all_length)
  also have "(\<forall>i < length (cpDrafts x). Suc i < 1000) \<longleftrightarrow> length (cpDrafts x) < 1000"
    by (cases "length (cpDrafts x)") auto
  also have "list_all (\<lambda>d. targetSafe (cpProvider x) (scTarget (drScope d))) ?ds
      \<longleftrightarrow> list_all (\<lambda>d. targetSafe (cpProvider x) (scTarget (drScope d))) (cpDrafts x)"
    by (simp add: list_all_iff)
  finally show ?thesis .
qed

definition scopeBefore :: "CredScope \<Rightarrow> CredScope \<Rightarrow> bool" where
  "scopeBefore a b \<longleftrightarrow> scopeOrdered a b \<and> scScopeID a \<noteq> scScopeID b"

lemma finish_closed:
  assumes "closedProvider x" "s \<in> set (fst (finishProvider x))"
  shows "closedScope s \<and> scProvider s = cpProvider x \<and> (\<exists>n. scScopeID s = scopeID (cpProvider x) n)"
proof -
  from assms(2) obtain i where i: "i < length (cpDrafts x)" "s = fst (finishProvider x) ! i"
    by (auto simp: in_set_conv_nth)
  have "drScope (sortStable draftLess (cpDrafts x) ! i) \<in> drScope ` set (cpDrafts x)"
    using nth_mem [of i "sortStable draftLess (cpDrafts x)"] i(1) by auto
  then show ?thesis
    using assms(1) i by (auto simp: closedProvider_def list_all_iff finish_nth closedScope_def)
qed

lemma finish_sorted:
  assumes "closedProvider x" "length (cpDrafts x) < 1000"
  shows "sorted_wrt scopeBefore (fst (finishProvider x))"
proof -
  let ?ds = "sortStable draftLess (cpDrafts x)" and ?k = "\<lambda>d. scopeTexts (drScope d)"
  have "?ds = sort_key ?k (cpDrafts x)"
    using assms(1) draftLess_key unfolding closedProvider_def list_all_iff by (intro sortStable_key) blast
  then have sorted: "sorted (map ?k ?ds)" by simp
  have "scopeBefore (fst (finishProvider x) ! i) (fst (finishProvider x) ! j)" if ij: "i < j" "j < length (cpDrafts x)" for i j
  proof -
    let ?a = "fst (finishProvider x) ! i" and ?b = "fst (finishProvider x) ! j"
    have closed: "closedScope ?a" "closedScope ?b" "scProvider ?a = scProvider ?b"
      using finish_closed [OF assms(1)] ij by simp_all
    have texts: "scopeTexts ?a = ?k (?ds ! i)" "scopeTexts ?b = ?k (?ds ! j)"
      using ij by (simp_all add: finish_nth scopeTexts_def)
    have "?k (?ds ! i) \<le> ?k (?ds ! j)"
      using sorted_nth_mono [OF sorted, of i j] ij by simp
    then have le: "scopeTexts ?a \<le> scopeTexts ?b" using texts by simp
    have less: "scScopeID ?a < scScopeID ?b"
      using ij assms(2) scopeID_order [of "Suc i" "Suc j"] by (simp add: finish_nth)
    have "scopeKey ?a < scopeKey ?b"
    proof (cases "scopeTexts ?a = scopeTexts ?b")
      case False
      with le show ?thesis unfolding scopeKey_def scopeTexts_def by auto
    qed (use less in \<open>simp add: scopeKey_def scopeTexts_def\<close>)
    then have "\<not> scopeKey ?b < scopeKey ?a" by simp
    with less closed show ?thesis by (simp add: scopeBefore_def scopeOrdered_def scopeLess_key)
  qed
  then show ?thesis by (simp add: sorted_wrt_iff_nth_less)
qed

text \<open>The scopes of all providers.\<close>

lemma sorted_wrt_concat:
  assumes "sorted_wrt Q xs" and "\<And>x. x \<in> set xs \<Longrightarrow> sorted_wrt R (f x)"
    and "\<And>x y a b. x \<in> set xs \<Longrightarrow> y \<in> set xs \<Longrightarrow> Q x y \<Longrightarrow> a \<in> set (f x) \<Longrightarrow> b \<in> set (f y) \<Longrightarrow> R a b"
  shows "sorted_wrt R (concat (map f xs))"
  using assms
proof (induction xs)
  case (Cons x xs)
  have "sorted_wrt R (concat (map f xs))"
  proof (rule Cons.IH)
    show "sorted_wrt Q xs" using Cons.prems(1) by simp
    show "sorted_wrt R (f y)" if "y \<in> set xs" for y using Cons.prems(2) that by simp
    show "R a b" if "y \<in> set xs" "z \<in> set xs" "Q y z" "a \<in> set (f y)" "b \<in> set (f z)" for y z a b
      using Cons.prems(3) [OF _ _ that(3-5)] that(1,2) by simp
  qed
  moreover have "R a b" if "a \<in> set (f x)" "b \<in> set (concat (map f xs))" for a b
  proof -
    from that(2) obtain y where "y \<in> set xs" "b \<in> set (f y)" by auto
    then show ?thesis using Cons.prems(3) [of x y a b] Cons.prems(1) that(1) by simp
  qed
  ultimately show ?case using Cons.prems(2) by (auto simp: sorted_wrt_append)
qed simp

lemma declared_order:
  "sorted_wrt (\<lambda>x y. credentialProviderOrder (cpProvider x) < credentialProviderOrder (cpProvider y)) (declaredProviders c)"
proof -
  have "sorted_wrt (\<lambda>a b. credentialProviderOrder a < credentialProviderOrder b) (map cpProvider (declaredProviders c))"
    unfolding declared_names by (simp add: sorted_wrt_append credentialProviderOrder_def providers_def)
  then show ?thesis by (simp add: sorted_wrt_map)
qed

definition scopesFit :: "Credentials option \<Rightarrow> bool" where
  "scopesFit c =
     (case c of None \<Rightarrow> True
      | Some c \<Rightarrow> list_all (\<lambda>x. length (cpDrafts x) < 1000
          \<and> list_all (\<lambda>d. targetSafe (cpProvider x) (scTarget (drScope d))) (cpDrafts x)) (declaredProviders c))"

lemma sorted_scopes:
  assumes "scopesFit c" shows "sorted_wrt scopeBefore (fst (normalizeCredentialAuthority c))"
proof (cases c)
  case (Some d)
  have fit: "length (cpDrafts x) < 1000" if "x \<in> set (declaredProviders d)" for x
    using assms that by (simp add: scopesFit_def Some list_all_iff)
  have cross: "scopeBefore a b"
    if "x \<in> set (declaredProviders d)" "y \<in> set (declaredProviders d)"
      and less: "credentialProviderOrder (cpProvider x) < credentialProviderOrder (cpProvider y)"
      and "a \<in> set (fst (finishProvider x))" "b \<in> set (fst (finishProvider y))" for x y a b
  proof -
    have closed: "closedProvider x" "closedProvider y" using that declared_closed by blast+
    note a = finish_closed [OF closed(1) that(4)] and b = finish_closed [OF closed(2) that(5)]
    have "scScopeID a \<noteq> scScopeID b"
      using a b less scopeID_inject closed unfolding closedProvider_def by (metis less_irrefl)
    with a b less show ?thesis by (simp add: scopeBefore_def scopeOrdered_def scopeLess_key)
  qed
  show ?thesis
    using sorted_wrt_concat [OF declared_order [of d], of scopeBefore "\<lambda>x. fst (finishProvider x)"]
      finish_sorted declared_closed fit cross
    by (simp add: Some normalizeCredentialAuthority_def comp_def)
qed (simp add: normalizeCredentialAuthority_def)

lemma distinct_before: "sorted_wrt scopeBefore ss \<Longrightarrow> distinct (map scScopeID ss)"
  by (induction ss) (auto simp: scopeBefore_def)

lemma scopes_validate:
  "(\<exists>known. validateScopes 0 None [] (fst (normalizeCredentialAuthority c)) = Inr known) \<longleftrightarrow> scopesFit c"
proof -
  let ?ss = "fst (normalizeCredentialAuthority c)"
  have valid: "list_all (\<lambda>s. validateCredentialScope s = Inr ()) ?ss \<longleftrightarrow> scopesFit c"
  proof (cases c)
    case (Some d)
    have "list_all (\<lambda>s. validateCredentialScope s = Inr ()) ?ss \<longleftrightarrow>
        (\<forall>x \<in> set (declaredProviders d). list_all (\<lambda>s. validateCredentialScope s = Inr ()) (fst (finishProvider x)))"
      by (auto simp: Some normalizeCredentialAuthority_def list_all_iff)
    also have "\<dots> \<longleftrightarrow> scopesFit c"
      using finish_valid declared_closed by (auto simp: Some scopesFit_def list_all_iff)
    finally show ?thesis .
  qed (simp add: normalizeCredentialAuthority_def scopesFit_def)
  have "scopesFit c \<Longrightarrow> distinct (map scScopeID ?ss) \<and> successively scopeOrdered ?ss"
    using sorted_scopes [of c] distinct_before successively_of_wrt
      sorted_wrt_mono_rel [of ?ss scopeBefore scopeOrdered] by (auto simp: scopeBefore_def)
  with valid show ?thesis by (auto simp: validateScopes_iff)
qed

end
