(* ===== verification/EvaluationAccepted.thy ===== *)
theory EvaluationAccepted
  imports EvaluationSound
begin

text \<open>
  The findings of an evaluation pass its validator, whatever the profile is, so that only its scopes
  decide.
\<close>

section \<open>The findings one by one\<close>

definition findingOrdered :: "Finding \<Rightarrow> Finding \<Rightarrow> bool" where
  "findingOrdered a b \<longleftrightarrow> \<not> authorityFindingLess b a"

lemma validateFindings_iff:
  "validateFindings known prior seen fs = Inr () \<longleftrightarrow>
     list_all (good known) fs \<and> distinct (map fiRuleID fs) \<and> set (map fiRuleID fs) \<inter> set seen = {}
   \<and> successively findingOrdered ((case prior of None \<Rightarrow> [] | Some p \<Rightarrow> [p]) @ fs)"
proof (induction fs arbitrary: prior seen)
  case Nil
  then show ?case by (cases prior) auto
next
  case (Cons f fs)
  show ?case
  proof (cases "authorityRulesByID (fiRuleID f)")
    case (Some r)
    then show ?thesis
      by (cases "validateFinding known r f"; cases prior)
        (auto simp: Cons.IH good_def findingOrdered_def successively_Cons split: list.splits)
  qed (simp add: good_def)
qed

lemma provider_good:
  assumes "n \<in> set providers" "sorted ids" "set ids \<subseteq> set known"
  shows "good known (makeAuthorityFinding (credentialRuleID n) (if u then OutUnknown else OutConcern)
     (if u \<or> h then SevHigh else SevMedium) cx ids)"
proof -
  let ?out = "if u then OutUnknown else OutConcern" and ?sev = "if u \<or> h then SevHigh else SevMedium"
  have rows: "good known (makeAuthorityFinding ''authority.credentials.pnpm'' ?out ?sev cx ids)"
    "good known (makeAuthorityFinding ''authority.credentials.aws'' ?out ?sev cx ids)"
    "good known (makeAuthorityFinding ''authority.credentials.gcp'' ?out ?sev cx ids)"
    "good known (makeAuthorityFinding ''authority.credentials.kube'' ?out ?sev cx ids)"
    "good known (makeAuthorityFinding ''authority.credentials.github'' ?out ?sev cx ids)"
    "good known (makeAuthorityFinding ''authority.credentials.forgejo'' ?out ?sev cx ids)"
    "good known (makeAuthorityFinding ''authority.credentials.pi-oauth'' ?out ?sev cx ids)"
    using assms(2,3)
    by - (rule good_make, simp only: rule_rows;
      simp add: ruleAllows_def text_passes fixedConsequence_def authorityRemediation_def del: cleanText.simps(2))+
  have "list_all (\<lambda>n. good known (makeAuthorityFinding (credentialRuleID n) ?out ?sev cx ids)) providers"
    unfolding providers_def list.pred_inject(2) credentialRuleID_def append.simps by (intro conjI rows list.pred_inject(1))
  with assms(1) show ?thesis by (simp add: list_all_iff)
qed

lemma combination_good:
  assumes "sorted ids" "set ids \<subseteq> set known"
  shows "good known (makeAuthorityFinding ''github-write-open-egress'' OutConcern SevCritical cx ids)"
    "good known (makeAuthorityFinding ''forgejo-write-open-egress'' OutConcern SevCritical cx ids)"
  using assms
  by - (rule good_make, simp only: rule_rows;
    simp add: ruleAllows_def text_passes fixedConsequence_def authorityRemediation_def del: cleanText.simps(2))+

lemma list_good:
  "list_all safeDestination (cxDestinations cx) \<Longrightarrow>
     good known (makeAuthorityFinding ''authority.network.container-allowlist'' OutBounded SevInfo cx [])"
  using destinations_listed [THEN clean_allowed]
  by - (rule good_make, simp only: rule_rows;
    simp add: ruleAllows_def text_passes fixedConsequence_def authorityRemediation_def del: cleanText.simps(2))

lemma destinations_safe: "list_all safeDestination (afEgressDestinations (normalizeAuthorityFacts p))"
  by (simp add: normalizeAuthorityFacts_def valueFreeEgressDestinations_def Let_def list_all_iff)

lemma network_good: "list_all (good known) (evaluateNetworkAuthority (normalizeAuthorityFacts p))"
  using destinations_safe [of p]
  by (simp add: evaluateNetworkAuthority_def fixed_good list_good split: network_reach.split)

lemma file_good: "list_all (good known) (evaluateFileAuthority f)"
  by (simp add: evaluateFileAuthority_def fixed_good split: file_reach.split)

lemma projection_good: "list_all (good known) (evaluateProjectionAuthority f)"
  by (simp add: evaluateProjectionAuthority_def fixed_good split: projection_reach.split)

lemma secret_good: "list_all (good known) (evaluateSecretAuthority f)"
  by (simp add: evaluateSecretAuthority_def fixed_good)

lemma providerFindings_good:
  assumes "cpProvider x \<in> set providers" "sorted (cpScopeIDs x)" "set (cpScopeIDs x) \<subseteq> set known"
    and "sorted (cpWriteScopeIDs x)" "set (cpWriteScopeIDs x) \<subseteq> set known"
  shows "list_all (good known) (providerFindings f x)"
  using combination_cases [of "cpProvider x"] provider_good [OF assms(1-3)] combination_good [OF assms(4,5)]
  by (auto simp: providerFindings_def Let_def)

lemma finish_scope_ids:
  assumes "length (cpDrafts x) < 1000"
  shows "sorted (cpScopeIDs (snd (finishProvider x)))" "sorted (cpWriteScopeIDs (snd (finishProvider x)))"
    "set (cpWriteScopeIDs (snd (finishProvider x))) \<subseteq> set (cpScopeIDs (snd (finishProvider x)))"
proof -
  have "sorted (map (scopeID p) [1 ..< Suc n])" if "n < 1000" for p n
    using that by (auto simp: sorted_iff_nth_mono_less nth_append scopeID_order less_imp_le simp del: upt_Suc)
  with assms show sorted: "sorted (cpScopeIDs (snd (finishProvider x)))"
    unfolding finish_ids numbered_ids by blast
  then show "sorted (cpWriteScopeIDs (snd (finishProvider x)))"
    by (simp add: finishProvider_def Let_def sorted_filter)
  show "set (cpWriteScopeIDs (snd (finishProvider x))) \<subseteq> set (cpScopeIDs (snd (finishProvider x)))"
    by (auto simp: finishProvider_def Let_def)
qed

lemma credential_good:
  assumes "scopesFit c" and "set (map scScopeID (fst (normalizeCredentialAuthority c))) \<subseteq> set known"
    and "afProviders f = snd (normalizeCredentialAuthority c)"
  shows "list_all (good known) (evaluateCredentialAuthority f)"
proof (cases c)
  case (Some d)
  have "list_all (good known) (providerFindings f (snd (finishProvider x)))" if x: "x \<in> set (declaredProviders d)" for x
  proof -
    have fit: "length (cpDrafts x) < 1000" using assms(1) x by (simp add: scopesFit_def Some list_all_iff)
    have "set (cpScopeIDs (snd (finishProvider x))) \<subseteq> set known"
      using assms(2) x unfolding finish_ids by (auto simp: Some normalizeCredentialAuthority_def)
    with finish_scope_ids [OF fit] declared_closed [OF x] show ?thesis
      by (intro providerFindings_good) (auto simp: closedProvider_def)
  qed
  then show ?thesis
    by (auto simp: evaluateCredentialAuthority_def assms(3) Some fixed_good list_all_iff)
qed (simp add: evaluateCredentialAuthority_def assms(3) fixed_good)

section \<open>The findings together\<close>

text \<open>No rule is reported twice.\<close>

definition ofAxis :: "finding_axis \<Rightarrow> Finding list \<Rightarrow> bool" where
  "ofAxis a fs \<longleftrightarrow> list_all (\<lambda>f. ruleAxis (fiRuleID f) = Some a) fs \<and> distinct (map fiRuleID fs) \<and> fs \<noteq> []"

lemma axes_once:
  "ofAxis AxisNetwork (evaluateNetworkAuthority f)" "ofAxis AxisFiles (evaluateFileAuthority f)"
  "ofAxis AxisProjection (evaluateProjectionAuthority f)" "ofAxis AxisSecrets (evaluateSecretAuthority f)"
  by (simp_all add: ofAxis_def evaluateNetworkAuthority_def evaluateFileAuthority_def evaluateProjectionAuthority_def
      evaluateSecretAuthority_def split: network_reach.split file_reach.split projection_reach.split)

lemma distinct_concat_map:
  assumes "distinct (map g xs)" and "\<And>x. x \<in> set xs \<Longrightarrow> distinct (f x)"
    and "\<And>x y v. x \<in> set xs \<Longrightarrow> y \<in> set xs \<Longrightarrow> v \<in> set (f x) \<Longrightarrow> v \<in> set (f y) \<Longrightarrow> g x = g y"
  shows "distinct (concat (map f xs))"
  using assms
proof (induction xs)
  case (Cons x xs)
  have "distinct (concat (map f xs))"
  proof (rule Cons.IH)
    show "distinct (map g xs)" using Cons.prems(1) by simp
    show "distinct (f y)" if "y \<in> set xs" for y using Cons.prems(2) that by simp
    show "g y = g z" if "y \<in> set xs" "z \<in> set xs" "v \<in> set (f y)" "v \<in> set (f z)" for y z v
      using Cons.prems(3) [OF _ _ that(3,4)] that(1,2) by simp
  qed
  moreover have "v \<notin> set (f y)" if "v \<in> set (f x)" "y \<in> set xs" for v y
    using Cons.prems(1) Cons.prems(3) [of x y v] that by auto
  ultimately show ?case using Cons.prems(2) by auto
qed simp

lemma provider_rule_ids:
  "v \<in> set (map fiRuleID (providerFindings f x)) \<Longrightarrow>
     v = credentialRuleID (cpProvider x) \<or> combinationID (cpProvider x) \<noteq> [] \<and> v = combinationID (cpProvider x)"
  by (auto simp: providerFindings_def Let_def split: if_splits)

lemma provider_rules_apart:
  assumes "n \<in> set providers" "m \<in> set providers"
    and "v = credentialRuleID n \<or> combinationID n \<noteq> [] \<and> v = combinationID n"
    and "v = credentialRuleID m \<or> combinationID m \<noteq> [] \<and> v = combinationID m"
  shows "n = m"
proof -
  have "combinationID k \<noteq> credentialRuleID j" for k j
    by (simp add: combinationID_def credentialRuleID_def)
  then have "credentialRuleID n = credentialRuleID m \<or> combinationID n \<noteq> [] \<and> combinationID n = combinationID m"
    using assms(3,4) by metis
  then show ?thesis
    using combination_cases [of n] combination_cases [of m] by (auto simp: credentialRuleID_def)
qed

lemma declared_distinct: "distinct (map cpProvider (declaredProviders c))"
proof -
  have "sorted_wrt (<) (map (credentialProviderOrder \<circ> cpProvider) (declaredProviders c))"
    using declared_order [of c] by (simp add: sorted_wrt_map)
  then have "distinct (map (credentialProviderOrder \<circ> cpProvider) (declaredProviders c))"
    by (simp add: strict_sorted_iff)
  then show ?thesis by (simp add: distinct_map) (metis comp_inj_on_iff inj_on_imageI2)
qed

lemma credential_axis: "ofAxis AxisCredentials (evaluateCredentialAuthority (normalizeAuthorityFacts p))"
proof (cases "snd (normalizeCredentialAuthority (prCredentials p)) = []")
  case True
  then show ?thesis by (simp add: ofAxis_def evaluateCredentialAuthority_def)
next
  case False
  let ?f = "normalizeAuthorityFacts p"
  let ?ps = "snd (normalizeCredentialAuthority (prCredentials p))"
  from False obtain c where c: "prCredentials p = Some c" by (cases "prCredentials p") simp_all
  have names: "map cpProvider ?ps = map cpProvider (declaredProviders c)" by (simp add: c comp_def)
  have fs: "evaluateCredentialAuthority ?f = concat (map (providerFindings ?f) ?ps)"
    using False by (simp add: evaluateCredentialAuthority_def)
  have known: "cpProvider x \<in> set providers" if "x \<in> set ?ps" for x
    using declared_known [of c] that names by (metis image_eqI list.set_map subsetD)
  have "distinct (concat (map (\<lambda>x. map fiRuleID (providerFindings ?f x)) ?ps))"
  proof (rule distinct_concat_map [of cpProvider])
    show "distinct (map cpProvider ?ps)" unfolding names by (rule declared_distinct)
    show "distinct (map fiRuleID (providerFindings ?f x))" for x
      using combination_cases [of "cpProvider x"] by (auto simp: providerFindings_def Let_def credentialRuleID_def)
    show "cpProvider x = cpProvider y" if "x \<in> set ?ps" "y \<in> set ?ps"
      "v \<in> set (map fiRuleID (providerFindings ?f x))" "v \<in> set (map fiRuleID (providerFindings ?f y))" for x y v
      by (rule provider_rules_apart [OF known [OF that(1)] known [OF that(2)] provider_rule_ids [OF that(3)]
            provider_rule_ids [OF that(4)]])
  qed
  moreover have "ruleAxis i = Some AxisCredentials"
    if "x \<in> set ?ps" "i \<in> set (map fiRuleID (providerFindings ?f x))" for x i
    using credential_rule [OF known [OF that(1)]] that(2) combination_cases [of "cpProvider x"]
    by (auto simp: providerFindings_def Let_def)
  moreover have "concat (map (providerFindings ?f) ?ps) \<noteq> []"
    using False by (cases ?ps) (auto simp: providerFindings_def Let_def)
  ultimately show ?thesis
    by (auto simp: ofAxis_def fs map_concat comp_def list_all_iff)
qed

lemma once_append:
  assumes "ofAxis a fs" "distinct (map fiRuleID gs)" "\<And>g. g \<in> set gs \<Longrightarrow> ruleAxis (fiRuleID g) \<noteq> Some a"
  shows "distinct (map fiRuleID (fs @ gs))"
  using assms by (auto simp: ofAxis_def list_all_iff)

lemma ofAxis_off: "ofAxis a fs \<Longrightarrow> g \<in> set fs \<Longrightarrow> b \<noteq> a \<Longrightarrow> ruleAxis (fiRuleID g) \<noteq> Some b"
  by (simp add: ofAxis_def list_all_iff)

lemma rules_once: "distinct (map fiRuleID (rawFindings p))"
proof -
  note n = axes_once(1) and f = axes_once(2) and j = axes_once(3) and s = axes_once(4) and c = credential_axis
  have "distinct (map fiRuleID (evaluateCredentialAuthority (normalizeAuthorityFacts p)))"
    using c by (simp add: ofAxis_def)
  then show ?thesis
    unfolding rawFindings_def Let_def
    by (intro once_append [OF n] once_append [OF f] once_append [OF j] once_append [OF s])
      (auto dest: ofAxis_off [OF f] ofAxis_off [OF j] ofAxis_off [OF s] ofAxis_off [OF c])
qed

end
