(* ===== verification/EvaluationExact.thy ===== *)
theory EvaluationExact
  imports EvaluationAccepted
begin

text \<open>
  The validator and the maker of evaluations agree up to the printed labels: which evaluations pass, stated
  of the profile.
\<close>

section \<open>What decides\<close>

lemma axis_present:
  "(\<lambda>f. (fiAxis f, fiOutcome f)) ` set fs \<subseteq> {a} \<times> UNIV \<Longrightarrow> ofAxis a fs \<Longrightarrow> a \<in> fiAxis ` set fs"
  by (cases fs) (auto simp: ofAxis_def)

lemma axes_present: "a \<in> set coreAxes \<Longrightarrow> a \<in> fiAxis ` set (rawFindings p)"
proof -
  let ?f = "normalizeAuthorityFacts p"
  have "AxisNetwork \<in> fiAxis ` set (evaluateNetworkAuthority ?f)"
    "AxisFiles \<in> fiAxis ` set (evaluateFileAuthority ?f)"
    "AxisProjection \<in> fiAxis ` set (evaluateProjectionAuthority ?f)"
    "AxisSecrets \<in> fiAxis ` set (evaluateSecretAuthority ?f)"
    "AxisCredentials \<in> fiAxis ` set (evaluateCredentialAuthority ?f)"
    by (rule axis_present; rule network_pairs file_pairs projection_pairs secret_pairs known_pairs axes_once
        credential_axis)+
  then show "a \<in> set coreAxes \<Longrightarrow> a \<in> fiAxis ` set (rawFindings p)"
    unfolding rawFindings_def Let_def coreAxes_def set_append image_Un by auto
qed

lemma scopes_referenced:
  "set (map scScopeID (fst (normalizeCredentialAuthority (prCredentials p))))
     \<subseteq> set (concat (map fiScopeIDs (rawFindings p)))"
proof (cases "prCredentials p")
  case (Some c)
  let ?f = "normalizeAuthorityFacts p"
  have here: "set (map scScopeID (fst (finishProvider x))) \<subseteq> set (concat (map fiScopeIDs (evaluateCredentialAuthority ?f)))"
    if "x \<in> set (declaredProviders c)" for x
  proof -
    have "set (cpScopeIDs y) \<subseteq> set (concat (map fiScopeIDs (providerFindings ?f y)))" for y
      by (auto simp: providerFindings_def Let_def)
    moreover have "snd (finishProvider x) \<in> set (afProviders ?f)"
      using that by (simp add: Some)
    ultimately show ?thesis
      unfolding finish_ids [symmetric] by (force simp: evaluateCredentialAuthority_def)
  qed
  have "set (map scScopeID (fst (normalizeCredentialAuthority (prCredentials p))))
      = (\<Union>x \<in> set (declaredProviders c). set (map scScopeID (fst (finishProvider x))))"
    by (auto simp: Some normalizeCredentialAuthority_def)
  also have "\<dots> \<subseteq> set (concat (map fiScopeIDs (evaluateCredentialAuthority ?f)))" using here by blast
  also have "\<dots> \<subseteq> set (concat (map fiScopeIDs (rawFindings p)))"
    unfolding rawFindings_def Let_def by auto
  finally show ?thesis .
qed (simp add: normalizeCredentialAuthority_def)

lemma findings_ordered: "successively findingOrdered (aeFindings (EvaluateAuthority p))"
proof -
  have "sorted_wrt (\<lambda>a b. findingKey a \<le> findingKey b) (aeFindings (EvaluateAuthority p))"
    using findings_sorted [of p] by (simp add: sorted_wrt_map)
  then have "sorted_wrt findingOrdered (aeFindings (EvaluateAuthority p))"
    by (rule sorted_wrt_mono_rel [rotated]) (simp add: findingOrdered_def findingLess_key not_less)
  then show ?thesis by (rule successively_of_wrt)
qed

lemma accepted_iff: "ValidateAuthorityEvaluation (EvaluateAuthority p) = Inr () \<longleftrightarrow> scopesFit (prCredentials p)"
proof -
  let ?e = "EvaluateAuthority p" and ?c = "prCredentials p" and ?f = "normalizeAuthorityFacts p"
  have scopes: "aeScopes ?e = fst (normalizeCredentialAuthority ?c)"
    by (simp add: EvaluateAuthority_def Let_def)
  show ?thesis
  proof
    assume "ValidateAuthorityEvaluation ?e = Inr ()"
    then have "\<exists>known. validateScopes 0 None [] (aeScopes ?e) = Inr known"
      unfolding ValidateAuthorityEvaluation_def rbind_Inr_iff by blast
    then show "scopesFit ?c" unfolding scopes scopes_validate .
  next
    assume fit: "scopesFit ?c"
    then obtain known where known: "validateScopes 0 None [] (aeScopes ?e) = Inr known"
      using scopes_validate unfolding scopes by blast
    then have ids: "set known = set (map scScopeID (fst (normalizeCredentialAuthority ?c)))"
      unfolding scopes validateScopes_iff by simp
    have "list_all (good known) (rawFindings p)"
      using network_good file_good projection_good secret_good credential_good [OF fit, of known ?f] ids
      by (simp add: rawFindings_def Let_def)
    then have good: "list_all (good known) (aeFindings ?e)" by (simp add: findings_raw list_all_iff)
    have "mset (map fiRuleID (aeFindings ?e)) = mset (map fiRuleID (rawFindings p))"
      by (simp add: findings_raw)
    then have once: "distinct (map fiRuleID (aeFindings ?e))"
      using rules_once mset_eq_imp_distinct_iff by blast
    have findings: "validateFindings known None [] (aeFindings ?e) = Inr ()"
      unfolding validateFindings_iff using good once findings_ordered by simp
    have "find (\<lambda>axis. axis \<notin> fiAxis ` set (aeFindings ?e)) coreAxes = None"
      using axes_present [of _ p] by (simp add: find_None_iff findings_raw)
    moreover have "list_all (\<lambda>s. s \<in> set (concat (map fiScopeIDs (aeFindings ?e)))) known"
      using scopes_referenced [of p] ids by (auto simp: list_all_iff findings_raw)
    ultimately show "ValidateAuthorityEvaluation ?e = Inr ()"
      using known findings by (simp add: ValidateAuthorityEvaluation_def)
  qed
qed

section \<open>The labels\<close>

lemma runes_ascii: "list_all (\<lambda>c. byte c < 128) s \<Longrightarrow> runes s = map byte s"
  by (induction s) (simp_all add: decodeRune_def)

lemma label_safe:
  assumes "cleanText v" "v \<noteq> []" "length v \<le> 512" "visible (hd v)" "visible (last v)"
    and "list_all (\<lambda>c. visible c \<or> c = CHR '' '') v"
  shows "safeValueFreeMetadata v"
proof -
  have blank: "byte CHR '' '' = 32" by (simp add: byte_def)
  have chars: "32 \<le> byte c \<and> byte c < 127" if "c \<in> set v" for c
  proof -
    have "visible c \<or> c = CHR '' ''" using assms(6) that unfolding list_all_iff by blast
    then show ?thesis unfolding visible_def by (elim disjE) (simp, simp only: blank, simp)
  qed
  have "byte c < 128" if "c \<in> set v" for c using chars [OF that] by simp
  then have "list_all (\<lambda>c. byte c < 128) v" by (simp add: list_all_iff)
  then have "runes v = map byte v" by (rule runes_ascii)
  moreover have "\<not> controlChar r \<and> \<not> bidiRune r" if "32 \<le> r" "r < 127" for r
    using that by (simp add: controlChar_def bidiRune_def)
  ultimately have "list_all (\<lambda>r. \<not> controlChar r \<and> \<not> bidiRune r) (runes v)"
    using chars by (simp add: list_all_iff)
  moreover have "\<not> contains v ''/''"
    using cleanText_plain [OF assms(1)] contains_set [of v "''/''"] by (auto simp: list_all_iff plainChar_def)
  ultimately show ?thesis
    using assms(2,3) trimSpace_visible [OF assms(2,4,5)] cleanText_allowed [OF assms(1)]
    by (simp add: safeValueFreeMetadata_def safeMetadataBasics_def)
qed

lemma labels_safe:
  "list_all safeValueFreeMetadata
     [''declared registry'', ''declared AWS identity'', ''ADC default scopes'', ''declared GCP API scope'',
      ''declared cluster'', ''declared GitHub repository'', ''declared Forgejo repository'',
      ''GitHub API default permissions'', ''declared GitHub API permission'', ''origin'',
      ''operator-provisioned scope unverified; may be account-wide'']"
  unfolding list.pred_inject
  by (intro conjI label_safe) (simp_all add: text_passes visible_def byte_def del: cleanText.simps(2))

lemmas label_facts [simp] = labels_safe [unfolded list.pred_inject]

lemma pnpm_safe [simp]: "safeValueFreeMetadata (if safeRegistryHost h then h else ''declared registry'')"
  by (simp add: safeRegistryHost_def)

text \<open>
  What the labels need: fewer than a thousand scopes of one provider, a launch identity and API permissions
  that are still value-free with their wording around them, and the one Pi provider and model known.
\<close>

definition permissionLabel :: "string \<Rightarrow> string" where
  "permissionLabel permission = permission @ '' '' @ emDash @ '' repository and permission downscoped''"

definition repositoryScopes :: "RepoCred list \<Rightarrow> nat" where
  "repositoryScopes repos = (if repos = [] then 1 else length repos)"

definition githubPrintable :: "GithubCreds \<Rightarrow> bool" where
  "githubPrintable github \<longleftrightarrow>
     (case ghApi github of
        None \<Rightarrow> repositoryScopes (ghRepos github) < 1000
      | Some api \<Rightarrow>
          if \<not> ghApiEnabled api then repositoryScopes (ghRepos github) < 1000
          else if ghApiPermissions api = [] then repositoryScopes (ghRepos github) + 1 < 1000
          else repositoryScopes (ghRepos github) + length (ghApiPermissions api) < 1000
             \<and> list_all (\<lambda>q. \<not> safeValueFreeMetadata q \<or> safeValueFreeMetadata (permissionLabel q)) (ghApiPermissions api))"

definition forgejoPrintable :: "ForgejoCreds \<Rightarrow> bool" where
  "forgejoPrintable forgejo \<longleftrightarrow>
     (case fjApi forgejo of
        None \<Rightarrow> repositoryScopes (fjRepos forgejo) < 1000
      | Some api \<Rightarrow> repositoryScopes (fjRepos forgejo) + (if fjApiEnabled api then 1 else 0) < 1000)"

definition printable :: "Credentials \<Rightarrow> bool" where
  "printable c \<longleftrightarrow>
     length (crPnpm c) < 1000
   \<and> (case crAws c of None \<Rightarrow> True | Some aws \<Rightarrow> safeValueFreeMetadata (fst (awsTarget aws)))
   \<and> (case crGcp c of None \<Rightarrow> True | Some gcp \<Rightarrow> length (gcpScopes gcp) < 1000)
   \<and> (case crGithub c of None \<Rightarrow> True | Some github \<Rightarrow> githubPrintable github)
   \<and> (case crForgejo c of None \<Rightarrow> True | Some forgejo \<Rightarrow> forgejoPrintable forgejo)
   \<and> (case crPi c of None \<Rightarrow> True | Some pi \<Rightarrow> piProvider pi = ''openai-codex'' \<and> piModel pi = ''gpt-5.6-luna'')"

definition fits :: "credentialProviderAuthority \<Rightarrow> bool" where
  "fits x \<longleftrightarrow> length (cpDrafts x) < 1000
     \<and> list_all (\<lambda>d. targetSafe (cpProvider x) (scTarget (drScope d))) (cpDrafts x)"

lemma target_scope [simp]: "scTarget (scopeOf t a l b) = t"
  by (simp add: scopeOf_def)

lemma provider_drafts [simp]: "cpDrafts (providerOf n u h q ds) = ds" "cpProvider (providerOf n u h q ds) = n"
  by (simp_all add: providerOf_def)

lemma raise_provider [simp]: "cpProvider (raiseAuthority x) = cpProvider x"
  by (simp add: raiseAuthority_def)

lemma targetSafe_plain: "provider \<noteq> ''pi-oauth'' \<Longrightarrow> safeValueFreeMetadata t \<Longrightarrow> targetSafe provider t"
  by (simp add: targetSafe_def)

lemma pnpm_fits: "fits (pnpmCredentialAuthority rs) \<longleftrightarrow> length rs < 1000"
  by (simp add: fits_def pnpmCredentialAuthority_def list_all_iff targetSafe_plain)

lemma aws_fits: "fits (awsCredentialAuthority a) \<longleftrightarrow> safeValueFreeMetadata (fst (awsTarget a))"
  by (simp add: fits_def awsCredentialAuthority_def targetSafe_def)

lemma gcp_fits: "fits (gcpCredentialAuthority g) \<longleftrightarrow> length (gcpScopes g) < 1000"
  by (auto simp: fits_def gcpCredentialAuthority_def list_all_iff targetSafe_plain Let_def)

lemma kube_fits: "fits (kubeCredentialAuthority k)"
  by (simp add: fits_def kubeCredentialAuthority_def kubeTarget_def targetSafe_plain split: option.split)

lemma pi_fits:
  "fits (piOAuthCredentialAuthority q) \<longleftrightarrow> piProvider q = ''openai-codex'' \<and> piModel q = ''gpt-5.6-luna''"
  by (auto simp: fits_def piOAuthCredentialAuthority_def targetSafe_def Let_def)

lemma repository_targets:
  assumes "provider = ''github'' \<or> provider = ''forgejo''" "safeValueFreeMetadata fallback"
  shows "list_all (\<lambda>d. targetSafe provider (scTarget (drScope d))) (repositoryCredentialDrafts rs w l fallback u)"
  using assms by (auto simp: repositoryCredentialDrafts_def list_all_iff Let_def targetSafe_def)

lemma repository_length [simp]: "length (repositoryCredentialDrafts rs w l fallback u) = length rs"
  by (simp add: repositoryCredentialDrafts_def)

lemma splitOn_set: "c \<in> set s \<Longrightarrow> c \<noteq> sep \<Longrightarrow> \<exists>q \<in> set (splitOn sep s). c \<in> set q"
  by (induction sep s rule: splitOn.induct) (auto split: list.splits)

lemma repository_blank: "safeRepositoryTarget s \<Longrightarrow> CHR '' '' \<notin> set s"
proof
  assume safe: "safeRepositoryTarget s" and "CHR '' '' \<in> set s"
  then obtain q where q: "q \<in> set (splitOn CHR ''/'' s)" "CHR '' '' \<in> set q"
    using splitOn_set [of "CHR '' ''" s "CHR ''/''"] by auto
  have "\<not> isAlnum CHR '' ''" by (simp add: isAlnum_def isDigit_def isLower_def isUpper_def byte_def)
  with q safe show False
    by (auto simp: safeRepositoryTarget_def repositoryPattern_def repositoryPart_def list_all_iff)
qed

lemma permission_target: "targetSafe ''github'' (permissionLabel q) \<longleftrightarrow> safeValueFreeMetadata (permissionLabel q)"
  using repository_blank [of "permissionLabel q"] by (auto simp: targetSafe_def permissionLabel_def)

lemma api_drafts:
  assumes "githubAPIDrafts api l = (ds, u)"
  shows "length ds = (if ghApiPermissions api = [] then 1 else length (ghApiPermissions api))
    \<and> (list_all (\<lambda>d. targetSafe ''github'' (scTarget (drScope d))) ds \<longleftrightarrow>
         list_all (\<lambda>q. \<not> safeValueFreeMetadata q \<or> safeValueFreeMetadata (permissionLabel q)) (ghApiPermissions api))"
  using assms permission_target [unfolded permissionLabel_def]
  by (auto simp: githubAPIDrafts_def Let_def permissionLabel_def list_all_iff targetSafe_plain split: if_splits)

lemma github_fits: "fits (githubCredentialAuthority h) \<longleftrightarrow> githubPrintable h"
  using repository_targets [of "''github''" "''declared GitHub repository''"]
  by (auto simp: fits_def githubCredentialAuthority_def githubPrintable_def repositoryScopes_def Let_def
      originDraft_def targetSafe_plain dest!: api_drafts split: option.splits prod.splits)

lemma forgejo_fits: "fits (forgejoCredentialAuthority f) \<longleftrightarrow> forgejoPrintable f"
  using repository_targets [of "''forgejo''" "''declared Forgejo repository''"]
  by (auto simp: fits_def forgejoCredentialAuthority_def forgejoPrintable_def repositoryScopes_def Let_def
      originDraft_def forgejoAPIDraft_def targetSafe_plain split: option.splits)

lemma scopesFit_printable:
  "scopesFit c \<longleftrightarrow> (case c of None \<Rightarrow> True | Some c \<Rightarrow> printable c)"
proof (cases c)
  case (Some d)
  have "scopesFit c \<longleftrightarrow> list_all fits (declaredProviders d)"
    by (simp add: scopesFit_def Some fits_def list_all_iff)
  then show ?thesis
    by (auto simp: Some declaredProviders_def printable_def pnpm_fits aws_fits gcp_fits kube_fits github_fits
        forgejo_fits pi_fits split: option.splits)
qed (simp add: scopesFit_def)

text \<open>(C33) The registry of findings passes its own validation, so loading the package never stops the
  program, and an evaluation of a profile passes the validator of evaluations exactly when the profile
  declares no credentials or its labels are printable: its findings never fail.
\<close>

theorem evaluation_validates:
  "ValidateFindingRegistry = Inr ()
   \<and> (ValidateAuthorityEvaluation (EvaluateAuthority p) = Inr ()
      \<longleftrightarrow> (case prCredentials p of None \<Rightarrow> True | Some c \<Rightarrow> printable c))"
  using registry_is_valid accepted_iff scopesFit_printable by simp

text \<open>
  The fallback label of a Pi provider the program does not know is rejected by the validator, so an
  evaluation that reports such a provider never passes it.
\<close>

lemma unknown_pi_is_rejected:
  assumes "prCredentials p = Some c" "crPi c = Some q" "piModel q \<noteq> ''gpt-5.6-luna''"
  shows "ValidateAuthorityEvaluation (EvaluateAuthority p) \<noteq> Inr ()"
  using assms by (simp add: accepted_iff scopesFit_printable printable_def)

end
