(* ===== verification/HostEnv.thy ===== *)
theory HostEnv
  imports StageFiles "HOL-Library.List_Lexorder" "HOL-Library.Char_ord"
begin

unbundle bit_operations_syntax

text \<open>
  The host environment of \<open>engine/hostenv\<close>: the environment of the user's shell, captured once when the
  process was started with a stripped one, and used to find helper binaries on the host. \<open>hostenv.go\<close> is the
  parsing and filtering, \<open>reconstruct.go\<close> the capture, its fallback and its cache.

  What the host answers is a record, the seams of the code: the process environment, the home directory,
  the answer of the directory service, the random bytes of the marker, the output of a shell run and of
  \<open>path_helper\<close>, \<open>stat\<close> and the modification times. A map of variables is a partial function, since no
  result depends on the order of its iteration.
\<close>

section \<open>Files and text\<close>

text \<open>The mode bits of \<open>fs.FileMode\<close>.\<close>

type_synonym file_mode = "32 word"

definition permOf :: "file_mode \<Rightarrow> file_mode" where
  "permOf m = m AND 0x1FF"

definition isRegular :: "file_mode \<Rightarrow> bool" where
  "isRegular m \<longleftrightarrow> m AND 0x8F280000 = 0"

definition isAbsPath :: "string \<Rightarrow> bool" where
  "isAbsPath p \<longleftrightarrow> hasPrefix p ''/''"

definition newline :: char where "newline = CHR 0x0A"

section \<open>Is the environment stripped?\<close>

definition brewBinDirs :: "string list" where
  "brewBinDirs = [''/opt/homebrew/bin'', ''/usr/local/bin'']"

definition pathHasBrew :: "string \<Rightarrow> bool" where
  "pathHasBrew path \<longleftrightarrow> list_ex (\<lambda>dir. dir \<in> set brewBinDirs) (splitOn CHR '':'' path)"

text \<open>The last entry of a name counts; \<open>scanVar\<close> is the loop for one name.\<close>

fun scanVar :: "string \<Rightarrow> string \<Rightarrow> string list \<Rightarrow> string" where
  "scanVar name found [] = found"
| "scanVar name found (kv # kvs) =
     (case splitAt CHR ''='' kv of
        None \<Rightarrow> scanVar name found kvs
      | Some (n, v) \<Rightarrow> scanVar name (if n = name then v else found) kvs)"

definition isGUIMinimal :: "string list \<Rightarrow> bool" where
  "isGUIMinimal environ \<longleftrightarrow>
     scanVar ''SHELL'' [] environ = [] \<or> \<not> pathHasBrew (scanVar ''PATH'' [] environ)"

section \<open>Reading a dump\<close>

text \<open>A byte outside ASCII starts a rune that no name may hold, so the bytes decide.\<close>

definition identRune :: "char \<Rightarrow> bool \<Rightarrow> bool" where
  "identRune r first \<longleftrightarrow>
     (if r = CHR ''_'' \<or> isUpper r \<or> isLower r then True else \<not> first \<and> isDigit r)"

definition isEnvName :: "string \<Rightarrow> bool" where
  "isEnvName s \<longleftrightarrow> s \<noteq> [] \<and> identRune (hd s) True \<and> list_all (\<lambda>r. identRune r False) (tl s)"

text \<open>The lines strictly between the first two marker lines.\<close>

definition markedLines :: "string list \<Rightarrow> string \<Rightarrow> string list option" where
  "markedLines ls marker =
     (case dropWhile (\<lambda>l. l \<noteq> marker) ls of
        [] \<Rightarrow> None
      | _ # rest \<Rightarrow>
          (case dropWhile (\<lambda>l. l \<noteq> marker) rest of
             [] \<Rightarrow> None
           | _ # _ \<Rightarrow> Some (takeWhile (\<lambda>l. l \<noteq> marker) rest)))"

type_synonym env_vars = "string \<rightharpoonup> string"

text \<open>The loop over those lines, with the variables so far and the name of the last one.\<close>

fun foldLines :: "env_vars \<Rightarrow> string \<Rightarrow> string list \<Rightarrow> env_vars" where
  "foldLines out lastName [] = out"
| "foldLines out lastName (ln # lns) =
     (case splitAt CHR ''='' ln of
        Some (name, val) \<Rightarrow>
          if isEnvName name then foldLines (out(name \<mapsto> val)) name lns
          else if lastName \<noteq> []
            then foldLines (out(lastName \<mapsto> the (out lastName) @ newline # ln)) lastName lns
          else foldLines out lastName lns
      | None \<Rightarrow>
          if lastName \<noteq> []
            then foldLines (out(lastName \<mapsto> the (out lastName) @ newline # ln)) lastName lns
          else foldLines out lastName lns)"

definition parseMarkerEnv :: "string \<Rightarrow> string \<Rightarrow> env_vars option" where
  "parseMarkerEnv output marker =
     map_option (foldLines Map.empty []) (markedLines (splitOn newline output) marker)"

section \<open>Filtering\<close>

definition hasDotDot :: "string \<Rightarrow> bool" where
  "hasDotDot p \<longleftrightarrow> list_ex (\<lambda>seg. seg = ''..'') (splitOn slash p)"

text \<open>\<open>stat\<close> is \<open>None\<close> on an error.\<close>

definition worldWritable :: "(string \<Rightarrow> file_mode option) \<Rightarrow> string \<Rightarrow> bool" where
  "worldWritable stat dir \<longleftrightarrow> (case stat dir of None \<Rightarrow> False | Some mode \<Rightarrow> permOf mode AND 2 \<noteq> 0)"

fun keepDirs :: "(string \<Rightarrow> file_mode option) \<Rightarrow> string list \<Rightarrow> string list \<Rightarrow> string list" where
  "keepDirs stat seen [] = []"
| "keepDirs stat seen (dir # dirs) =
     (if dir = [] \<or> \<not> isAbsPath dir \<or> dir \<in> set seen then keepDirs stat seen dirs
      else if hasDotDot dir then keepDirs stat seen dirs
      else if worldWritable stat dir then keepDirs stat seen dirs
      else dir # keepDirs stat (dir # seen) dirs)"

definition filterPATH :: "string \<Rightarrow> (string \<Rightarrow> file_mode option) \<Rightarrow> string" where
  "filterPATH path stat = joinWith '':'' (keepDirs stat [] (splitOn CHR '':'' path))"

definition sanitize :: "env_vars \<Rightarrow> (string \<Rightarrow> file_mode option) \<Rightarrow> env_vars" where
  "sanitize vars stat = (\<lambda>name.
     case vars name of
       None \<Rightarrow> None
     | Some val \<Rightarrow>
         if hasPrefix name ''DYLD_'' \<or> name = ''LD_PRELOAD'' then None
         else if list_ex (\<lambda>c. c = newline \<or> c = CHR 0x00) val then None
         else if name = ''PATH'' then Some (filterPATH val stat)
         else Some val)"

definition hardcodedDirs :: "string \<Rightarrow> string list" where
  "hardcodedDirs home =
     [''/opt/homebrew/bin'', ''/opt/homebrew/sbin'', ''/usr/local/bin'',
      joinPath [home, ''.local'', ''bin''], joinPath [home, ''.cargo'', ''bin''],
      joinPath [home, ''.local'', ''share'', ''mise'', ''shims''], joinPath [home, ''.asdf'', ''shims''],
      ''/usr/bin'', ''/bin'', ''/usr/sbin'', ''/sbin'']"

definition isFishShell :: "string \<Rightarrow> bool" where
  "isFishShell shellPath \<longleftrightarrow> basePath shellPath = ''fish''"

definition shellArgv :: "string \<Rightarrow> string list" where
  "shellArgv inner = [''-l'', ''-i'', ''-c'', inner]"

section \<open>An environment\<close>

record Env =
  evVars :: env_vars
  evSource :: string
  evIsExec :: "string \<Rightarrow> bool"

definition envPATH :: "Env \<Rightarrow> string" where
  "envPATH e = (case evVars e ''PATH'' of None \<Rightarrow> [] | Some p \<Rightarrow> p)"

definition envGet :: "Env \<Rightarrow> string \<Rightarrow> string option" where
  "envGet e name = evVars e name"

fun lookDirs :: "(string \<Rightarrow> bool) \<Rightarrow> string \<Rightarrow> string list \<Rightarrow> string option" where
  "lookDirs isExec name [] = None"
| "lookDirs isExec name (dir # dirs) =
     (if dir = [] then lookDirs isExec name dirs
      else let full = joinPath [dir, name] in
        if isExec full then Some full else lookDirs isExec name dirs)"

definition LookPath :: "Env \<Rightarrow> string \<Rightarrow> string option" where
  "LookPath e name =
     (if contains name ''/'' then (if evIsExec e name then Some name else None)
      else lookDirs (evIsExec e) name (splitOn CHR '':'' (envPATH e)))"

fun lookAllDirs :: "(string \<Rightarrow> bool) \<Rightarrow> string \<Rightarrow> string list \<Rightarrow> string list \<Rightarrow> string list" where
  "lookAllDirs isExec name seen [] = []"
| "lookAllDirs isExec name seen (dir # dirs) =
     (if dir = [] then lookAllDirs isExec name seen dirs
      else let full = joinPath [dir, name] in
        if full \<in> set seen \<or> \<not> isExec full then lookAllDirs isExec name seen dirs
        else full # lookAllDirs isExec name (full # seen) dirs)"

definition LookAll :: "Env \<Rightarrow> string \<Rightarrow> string list" where
  "LookAll e name =
     (if contains name ''/'' then (if evIsExec e name then [name] else [])
      else lookAllDirs (evIsExec e) name [] (splitOn CHR '':'' (envPATH e)))"

section \<open>Reconstruction\<close>

record host_seams =
  hoEnviron :: "string list"
  hoHome :: string
  hoUsername :: string
  hoDirectoryServices :: "string \<Rightarrow> string option"
  hoRandom :: "nat list"
  hoRunShell :: "string \<Rightarrow> string list \<Rightarrow> string"
  hoPathHelper :: "string option"
  hoStat :: "string \<Rightarrow> file_mode option"
  hoMtime :: "string \<Rightarrow> int option"

definition captureScript :: "string \<Rightarrow> string" where
  "captureScript marker =
     ''printf '' @ [CHR 0x27] @ ''%s'' @ [CHR 0x5C] @ ''n'' @ [CHR 0x27] @ '' '' @ marker
     @ ''; /usr/bin/env; printf '' @ [CHR 0x27] @ ''%s'' @ [CHR 0x5C] @ ''n'' @ [CHR 0x27] @ '' '' @ marker"

fun mergeDirs :: "string list \<Rightarrow> string list \<Rightarrow> string list" where
  "mergeDirs seen [] = []"
| "mergeDirs seen (dir # dirs) =
     (if dir = [] \<or> dir \<in> set seen then mergeDirs seen dirs
      else dir # mergeDirs (dir # seen) dirs)"

definition mergePATH :: "string \<Rightarrow> string \<Rightarrow> string" where
  "mergePATH primary fallback =
     joinWith '':'' (mergeDirs [] (splitOn CHR '':'' primary @ splitOn CHR '':'' fallback))"

text \<open>What follows the first occurrence of a text, as \<open>strings.Index\<close> finds it.\<close>

fun afterFirst :: "string \<Rightarrow> string \<Rightarrow> string option" where
  "afterFirst pre [] = (if pre = [] then Some [] else None)"
| "afterFirst pre (c # s) =
     (if hasPrefix (c # s) pre then Some (drop (length pre) (c # s)) else afterFirst pre s)"

definition parsePathHelper :: "string \<Rightarrow> string" where
  "parsePathHelper s =
     (case afterFirst (''PATH='' @ [CHR 0x22]) s of
        None \<Rightarrow> []
      | Some rest \<Rightarrow> (case splitAt CHR 0x22 rest of None \<Rightarrow> [] | Some (p, _) \<Rightarrow> p))"

fun environToMap :: "string list \<Rightarrow> env_vars" where
  "environToMap [] = Map.empty"
| "environToMap (kv # kvs) =
     (case splitAt CHR ''='' kv of
        None \<Rightarrow> environToMap kvs
      | Some (k, v) \<Rightarrow> (\<lambda>n. case environToMap kvs n of Some w \<Rightarrow> Some w | None \<Rightarrow> if n = k then Some v else None))"

definition realResolveShell :: "host_seams \<Rightarrow> string \<Rightarrow> string option" where
  "realResolveShell h username =
     map_option (\<lambda>out. trimSpace (trimPrefix (trimSpace out) ''UserShell:'')) (hoDirectoryServices h username)"

definition realMarker :: "host_seams \<Rightarrow> string" where
  "realMarker h = ''SAFESLOP-HOSTENV-'' @ hexEncode (hoRandom h)"

definition realPathHelper :: "host_seams \<Rightarrow> string" where
  "realPathHelper h = (case hoPathHelper h of None \<Rightarrow> [] | Some out \<Rightarrow> parsePathHelper out)"

definition fallbackPATH :: "host_seams \<Rightarrow> string \<Rightarrow> string" where
  "fallbackPATH h home =
     (let ph = realPathHelper h;
          dirs = (if ph = [] then [] else splitOn CHR '':'' ph) @ hardcodedDirs home in
      filterPATH (joinWith '':'' dirs) (hoStat h))"

definition capture :: "host_seams \<Rightarrow> (env_vars \<times> string) option" where
  "capture h =
     (case realResolveShell h (hoUsername h) of
        None \<Rightarrow> None
      | Some shell \<Rightarrow>
          if shell = [] then None
          else let marker = realMarker h; out = hoRunShell h shell (shellArgv (captureScript marker)) in
            (case parseMarkerEnv out marker of
               None \<Rightarrow> None
             | Some vars0 \<Rightarrow>
                 let vars = sanitize vars0 (hoStat h) in
                 if vars ''PATH'' = None \<or> vars ''PATH'' = Some [] then None
                 else Some (vars, ''shell:'' @ basePath shell)))"

text \<open>\<open>realIsExec\<close> over \<open>stat\<close>.\<close>

definition realIsExec :: "host_seams \<Rightarrow> string \<Rightarrow> bool" where
  "realIsExec h p \<longleftrightarrow>
     (case hoStat h p of None \<Rightarrow> False | Some m \<Rightarrow> isRegular m \<and> permOf m AND 0x49 \<noteq> 0)"

definition newEnv :: "host_seams \<Rightarrow> env_vars \<Rightarrow> string \<Rightarrow> Env" where
  "newEnv h vars source = \<lparr>evVars = vars, evSource = source, evIsExec = realIsExec h\<rparr>"

definition computeEnv :: "host_seams \<Rightarrow> string \<Rightarrow> Env" where
  "computeEnv h home =
     (if \<not> isGUIMinimal (hoEnviron h) then newEnv h (environToMap (hoEnviron h)) ''current''
      else case capture h of
        Some (vars, src) \<Rightarrow>
          newEnv h (vars(''PATH'' \<mapsto>
              mergePATH (case vars ''PATH'' of None \<Rightarrow> [] | Some p \<Rightarrow> p) (fallbackPATH h home))) src
      | None \<Rightarrow> newEnv h [''PATH'' \<mapsto> fallbackPATH h home, ''HOME'' \<mapsto> home] ''fallback'')"

section \<open>The cache\<close>

definition rcFiles :: "string \<Rightarrow> string list" where
  "rcFiles home =
     map (\<lambda>n. joinPath [home, n])
       [''.zshenv'', ''.zprofile'', ''.zshrc'', ''.bash_profile'', ''.bashrc'', ''.profile'',
        ''.config/fish/config.fish'']"

definition realMtimeKey :: "host_seams \<Rightarrow> string \<Rightarrow> string" where
  "realMtimeKey h home =
     concat (map (\<lambda>f. case hoMtime h f of None \<Rightarrow> [] | Some t \<Rightarrow> f @ ''='' @ intText t @ '';'') (rcFiles home))"

record reconstructor =
  rcCached :: "Env option"
  rcKey :: string
  rcPrimed :: bool

definition freshReconstructor :: reconstructor where
  "freshReconstructor = \<lparr>rcCached = None, rcKey = [], rcPrimed = False\<rparr>"

definition Reconstruct :: "host_seams \<Rightarrow> reconstructor \<Rightarrow> Env \<times> reconstructor" where
  "Reconstruct h r =
     (let home = hoHome h; key = realMtimeKey h home in
      case rcCached r of
        Some e \<Rightarrow>
          if rcPrimed r \<and> key = rcKey r then (e, r)
          else let e = computeEnv h home in (e, \<lparr>rcCached = Some e, rcKey = key, rcPrimed = True\<rparr>)
      | None \<Rightarrow> let e = computeEnv h home in (e, \<lparr>rcCached = Some e, rcKey = key, rcPrimed = True\<rparr>))"

end
