(* ===== verification/HostHelper.thy ===== *)
theory HostHelper
  imports HostEnv
begin

text \<open>
  The resolver of host helpers, \<open>engine/hostexec\<close>: it finds the one binary a helper name stands for on the
  sanitized path, refuses a name that could stand for two, and builds the small environment a helper runs
  with. A context is left out, and the command is a record of what \<open>exec.Cmd\<close> is given.
\<close>

section \<open>Specifications\<close>

datatype helper_class = ClassCredential | ClassRuntime | ClassDiagnostic

datatype env_policy =
  EnvCredential | EnvOp | EnvAWS | EnvGCloud | EnvGitSSH | EnvRuntime | EnvDiagnostic | EnvOtherPolicy string

record Spec =
  spName :: string
  spClass :: helper_class
  spEnv :: env_policy
  spPurpose :: string

definition credentialEnvFor :: "string \<Rightarrow> env_policy" where
  "credentialEnvFor name =
     (if name = ''op'' then EnvOp
      else if name = ''aws'' then EnvAWS
      else if name = ''gcloud'' \<or> name = ''gke-gcloud-auth-plugin'' then EnvGCloud
      else if name = ''git'' \<or> name = ''ssh-keygen'' \<or> name = ''ssh-keyscan'' then EnvGitSSH
      else EnvCredential)"

definition CredentialSpec :: "string \<Rightarrow> string \<Rightarrow> Spec" where
  "CredentialSpec name purpose =
     \<lparr>spName = name, spClass = ClassCredential, spEnv = credentialEnvFor name, spPurpose = purpose\<rparr>"

definition OpSpec :: "string \<Rightarrow> Spec" where
  "OpSpec purpose = CredentialSpec ''op'' purpose"

definition RuntimeSpec :: "string \<Rightarrow> string \<Rightarrow> Spec" where
  "RuntimeSpec name purpose =
     \<lparr>spName = name, spClass = ClassRuntime, spEnv = EnvRuntime, spPurpose = purpose\<rparr>"

definition DiagnosticSpec :: "string \<Rightarrow> string \<Rightarrow> Spec" where
  "DiagnosticSpec name purpose =
     \<lparr>spName = name, spClass = ClassDiagnostic, spEnv = EnvDiagnostic, spPurpose = purpose\<rparr>"

section \<open>Resolution\<close>

text \<open>The interface \<open>LookupEnv\<close>; \<open>SameFile\<close> fails when one of the two cannot be read.\<close>

record LookupEnv =
  lePATH :: string
  leGet :: "string \<Rightarrow> string option"
  leLookAll :: "string \<Rightarrow> string list"
  leSameFile :: "string \<Rightarrow> string \<Rightarrow> bool option"

datatype resolve_error =
    NoLookupEnv
  | EmptyName
  | RelativePathRefused Spec
  | HelperNotFound Spec
  | NotAbsolute string string
  | IdentityUnverified Spec
  | HelperShadowed Spec "string list"

record ResolvedHelper =
  reName :: string
  rePath :: string
  reAll :: "string list"
  reExplicit :: bool
  reSpec :: Spec

text \<open>The inner loop: is the path one of the files seen, or did a comparison fail?\<close>

fun aliasOf :: "(string \<Rightarrow> string \<Rightarrow> bool option) \<Rightarrow> string \<Rightarrow> string list \<Rightarrow> bool option" where
  "aliasOf same path [] = Some False"
| "aliasOf same path (r # rs) =
     (case same path r of
        None \<Rightarrow> None
      | Some True \<Rightarrow> Some True
      | Some False \<Rightarrow> aliasOf same path rs)"

fun classifyFrom ::
  "(string \<Rightarrow> string \<Rightarrow> bool option) \<Rightarrow> string list \<Rightarrow> string list \<Rightarrow> string list
   \<Rightarrow> (string list \<times> string list) option" where
  "classifyFrom same reps aliases [] = Some (reps, aliases)"
| "classifyFrom same reps aliases (path # paths) =
     (case aliasOf same path reps of
        None \<Rightarrow> None
      | Some True \<Rightarrow> classifyFrom same reps (aliases @ [path]) paths
      | Some False \<Rightarrow> classifyFrom same (reps @ [path]) aliases paths)"

definition classify :: "LookupEnv \<Rightarrow> string list \<Rightarrow> (string list \<times> string list) option" where
  "classify env paths = classifyFrom (leSameFile env) [] [] paths"

definition ResolveHelper :: "LookupEnv option \<Rightarrow> Spec \<Rightarrow> (resolve_error, ResolvedHelper) res" where
  "ResolveHelper r spec =
     (case r of
        None \<Rightarrow> Inl NoLookupEnv
      | Some env \<Rightarrow>
        let name = spName spec in
        if name = [] then Inl EmptyName
        else if contains name ''/'' \<and> \<not> isAbsPath name then Inl (RelativePathRefused spec)
        else case leLookAll env name of
          [] \<Rightarrow> Inl (HelperNotFound spec)
        | first # others \<Rightarrow>
            if \<not> isAbsPath first then Inl (NotAbsolute name first)
            else (case classify env (first # others) of
                None \<Rightarrow> Inl (IdentityUnverified spec)
              | Some (reps, _) \<Rightarrow>
                  if length reps > 1 then Inl (HelperShadowed spec reps)
                  else Inr \<lparr>reName = name, rePath = first, reAll = first # others,
                            reExplicit = isAbsPath name, reSpec = spec\<rparr>))"

text \<open>\<open>Inspect\<close> reports the same without failing.\<close>

datatype inspect_error = InspectNotFound | InspectRelative | InspectIdentity

record Inspection =
  inName :: string
  inPath :: string
  inAll :: "string list"
  inAliases :: "string list"
  inShadowed :: "string list"
  inPresent :: bool
  inIsShadowed :: bool
  inErr :: "inspect_error option"

definition blankInspection :: "string \<Rightarrow> inspect_error option \<Rightarrow> Inspection" where
  "blankInspection name err =
     \<lparr>inName = name, inPath = [], inAll = [], inAliases = [], inShadowed = [], inPresent = False,
      inIsShadowed = False, inErr = err\<rparr>"

definition Inspect :: "LookupEnv option \<Rightarrow> string \<Rightarrow> Inspection" where
  "Inspect r name =
     (case r of
        None \<Rightarrow> blankInspection name (Some InspectNotFound)
      | Some env \<Rightarrow>
        if contains name ''/'' \<and> \<not> isAbsPath name then blankInspection name (Some InspectRelative)
        else case leLookAll env name of
          [] \<Rightarrow> blankInspection name (Some InspectNotFound)
        | first # others \<Rightarrow>
            let insp = (blankInspection name None)\<lparr>inPath := first, inAll := first # others\<rparr> in
            (case classify env (first # others) of
               None \<Rightarrow> insp\<lparr>inErr := Some InspectIdentity\<rparr>
             | Some (reps, aliases) \<Rightarrow>
                 let shadowed = (if length reps > 1 then tl reps else []) in
                 insp\<lparr>inAliases := aliases, inShadowed := shadowed, inPresent := True,
                      inIsShadowed := shadowed \<noteq> []\<rparr>))"

fun preflightFrom :: "LookupEnv option \<Rightarrow> (helper_class \<times> string) list \<Rightarrow> Spec list \<Rightarrow> resolve_error option" where
  "preflightFrom r seen [] = None"
| "preflightFrom r seen (spec # specs) =
     (if (spClass spec, spName spec) \<in> set seen then preflightFrom r seen specs
      else case ResolveHelper r spec of
        Inl e \<Rightarrow> Some e
      | Inr _ \<Rightarrow> preflightFrom r ((spClass spec, spName spec) # seen) specs)"

definition Preflight :: "LookupEnv option \<Rightarrow> Spec list \<Rightarrow> resolve_error option" where
  "Preflight r specs = preflightFrom r [] specs"

section \<open>The environment of a helper\<close>

definition commonEnvNames :: "string list" where
  "commonEnvNames =
     [''PATH'', ''HOME'', ''USER'', ''LOGNAME'', ''SHELL'', ''TMPDIR'', ''TMP'', ''TEMP'',
      ''LANG'', ''LC_ALL'', ''LC_CTYPE'', ''LC_MESSAGES'',
      ''HTTP_PROXY'', ''HTTPS_PROXY'', ''NO_PROXY'', ''ALL_PROXY'',
      ''http_proxy'', ''https_proxy'', ''no_proxy'', ''all_proxy'',
      ''XDG_CONFIG_HOME'', ''XDG_CACHE_HOME'', ''XDG_DATA_HOME'']"

fun envNames :: "env_policy \<Rightarrow> string list" where
  "envNames EnvOp = commonEnvNames @ [''OP_ACCOUNT'']"
| "envNames EnvAWS = commonEnvNames @ [''AWS_CONFIG_FILE'', ''AWS_SHARED_CREDENTIALS_FILE'',
     ''AWS_DEFAULT_REGION'', ''AWS_REGION'', ''AWS_CA_BUNDLE'']"
| "envNames EnvGCloud = commonEnvNames @ [''CLOUDSDK_CONFIG'']"
| "envNames EnvRuntime = commonEnvNames @ [''DOCKER_HOST'', ''DOCKER_CONTEXT'', ''DOCKER_CONFIG'',
     ''DOCKER_TLS_VERIFY'', ''DOCKER_CERT_PATH'', ''DOCKER_BUILDKIT'', ''COMPOSE_DOCKER_CLI_BUILD'',
     ''CONTAINER_HOST'', ''CONTAINERS_CONF'', ''REGISTRY_AUTH_FILE'', ''XDG_RUNTIME_DIR'', ''LIMA_HOME'']"
| "envNames _ = commonEnvNames"

text \<open>The map the two loops of \<open>AppendEnv\<close> fill, as a list with one entry per name, and its sorted rendering.\<close>

fun putVar :: "string \<Rightarrow> string \<Rightarrow> (string \<times> string) list \<Rightarrow> (string \<times> string) list" where
  "putVar n v [] = [(n, v)]"
| "putVar n v ((m, w) # vs) = (if m = n then (n, v) # vs else (m, w) # putVar n v vs)"

definition putEntry :: "string \<Rightarrow> (string \<times> string) list \<Rightarrow> (string \<times> string) list" where
  "putEntry kv vals =
     (case splitAt CHR ''='' kv of
        None \<Rightarrow> vals
      | Some (name, val) \<Rightarrow> if name = [] then vals else putVar name val vals)"

definition AppendEnv :: "string list \<Rightarrow> string list \<Rightarrow> string list" where
  "AppendEnv base extra =
     (let vals = fold putEntry (base @ extra) [] in
      map (\<lambda>k. k @ ''='' @ the (map_of vals k)) (sort (map fst vals)))"

definition EnvFor :: "LookupEnv option \<Rightarrow> env_policy \<Rightarrow> string list \<Rightarrow> string list" where
  "EnvFor r policy extra =
     (case r of
        None \<Rightarrow> AppendEnv [] extra
      | Some env \<Rightarrow>
          let path = (if lePATH env \<noteq> [] then [''PATH='' @ lePATH env] else []);
              chosen = concat (map (\<lambda>name. if name = ''PATH'' then []
                  else case leGet env name of None \<Rightarrow> [] | Some v \<Rightarrow> [name @ ''='' @ v]) (envNames policy)) in
          AppendEnv (path @ chosen) extra)"

record command =
  cmPath :: string
  cmArgs :: "string list"
  cmEnv :: "string list"

definition CommandResolved :: "LookupEnv option \<Rightarrow> ResolvedHelper \<Rightarrow> env_policy \<Rightarrow> string list \<Rightarrow> command" where
  "CommandResolved r found policy args =
     \<lparr>cmPath = rePath found, cmArgs = rePath found # args, cmEnv = EnvFor r policy []\<rparr>"

definition CommandContext :: "LookupEnv option \<Rightarrow> Spec \<Rightarrow> string list \<Rightarrow> (resolve_error, command) res" where
  "CommandContext r spec args =
     rbind (ResolveHelper r spec) (\<lambda>found. Inr (CommandResolved r found (spEnv spec) args))"

text \<open>The resolver of the running program: its lookups go to the reconstructed environment.\<close>

definition hostLookup :: "Env \<Rightarrow> (string \<Rightarrow> string \<Rightarrow> bool option) \<Rightarrow> LookupEnv" where
  "hostLookup e same =
     \<lparr>lePATH = envPATH e, leGet = envGet e, leLookAll = LookAll e, leSameFile = same\<rparr>"

end
