(* ===== verification/HostLaws.thy ===== *)
theory HostLaws
  imports HostHelper
begin

text \<open>
  What the host side promises: a path reconstructed for a stripped process holds only directories nobody
  else can write to, a helper name resolves to one file or to none, and a helper sees exactly the variables
  of its policy.
\<close>

section \<open>Directories of a path\<close>

lemma splitOn_joinWith:
  "xs \<noteq> [] \<Longrightarrow> \<forall>x \<in> set xs. sep \<notin> set x \<Longrightarrow> splitOn sep (joinWith [sep] xs) = xs"
proof (induction xs)
  case (Cons x xs)
  have one: "sep \<notin> set y \<Longrightarrow> splitOn sep y = [y]" for y by (induction y) auto
  have two: "sep \<notin> set y \<Longrightarrow> splitOn sep (y @ sep # s) = y # splitOn sep s" for y s
    by (induction y) auto
  show ?case
  proof (cases xs)
    case Nil
    then show ?thesis using Cons.prems one by simp
  next
    case (Cons y ys)
    then show ?thesis using Cons.IH Cons.prems two [of x] by simp
  qed
qed simp

definition pathDirs :: "string \<Rightarrow> string list" where
  "pathDirs p = filter (\<lambda>d. d \<noteq> []) (splitOn CHR '':'' p)"

definition safeDir :: "(string \<Rightarrow> file_mode option) \<Rightarrow> string \<Rightarrow> bool" where
  "safeDir stat d \<longleftrightarrow> isAbsPath d \<and> \<not> hasDotDot d \<and> \<not> worldWritable stat d"

lemma set_keepDirs:
  "set (keepDirs stat seen ds) = {d \<in> set ds. d \<noteq> [] \<and> d \<notin> set seen \<and> safeDir stat d}"
  by (induction stat seen ds rule: keepDirs.induct) (auto simp: safeDir_def)

lemma set_mergeDirs: "set (mergeDirs seen ds) = {d \<in> set ds. d \<noteq> [] \<and> d \<notin> set seen}"
  by (induction seen ds rule: mergeDirs.induct) auto

lemma pathDirs_join:
  assumes "\<forall>d \<in> set ds. d \<noteq> [] \<and> CHR '':'' \<notin> set d"
  shows "pathDirs (joinWith '':'' ds) = ds"
proof (cases ds)
  case (Cons d ds')
  then have "splitOn CHR '':'' (joinWith '':'' ds) = ds" using assms by (intro splitOn_joinWith) auto
  with assms show ?thesis by (simp add: pathDirs_def)
qed (simp add: pathDirs_def)

lemma filtered_dirs:
  "set (pathDirs (filterPATH p stat)) = {d \<in> set (pathDirs p). safeDir stat d}"
proof -
  have "\<forall>d \<in> set (keepDirs stat [] (splitOn CHR '':'' p)). d \<noteq> [] \<and> CHR '':'' \<notin> set d"
    by (auto simp: set_keepDirs dest: splitOn_sep_free)
  then show ?thesis
    unfolding filterPATH_def by (subst pathDirs_join) (auto simp: set_keepDirs pathDirs_def)
qed

lemma merged_dirs: "set (pathDirs (mergePATH a b)) = set (pathDirs a) \<union> set (pathDirs b)"
proof -
  have "\<forall>d \<in> set (mergeDirs [] (splitOn CHR '':'' a @ splitOn CHR '':'' b)). d \<noteq> [] \<and> CHR '':'' \<notin> set d"
    by (auto simp: set_mergeDirs dest: splitOn_sep_free)
  then show ?thesis
    unfolding mergePATH_def by (subst pathDirs_join) (auto simp: set_mergeDirs pathDirs_def)
qed

section \<open>The reconstructed environment\<close>

definition cleanVars :: "env_vars \<Rightarrow> bool" where
  "cleanVars vars \<longleftrightarrow>
     (\<forall>n \<in> dom vars. \<not> hasPrefix n ''DYLD_'' \<and> n \<noteq> ''LD_PRELOAD'')"

lemma sanitize_clean: "cleanVars (sanitize vars stat)"
  by (auto simp: cleanVars_def sanitize_def list_ex_iff split: option.splits if_splits)

lemma sanitize_path:
  "sanitize vars stat ''PATH'' = Some p \<Longrightarrow> \<exists>q. p = filterPATH q stat"
  by (auto simp: sanitize_def split: option.splits if_splits)

lemma capture_Some:
  assumes "capture h = Some (vars, src)"
  shows "cleanVars vars \<and> (\<exists>q. vars ''PATH'' = Some (filterPATH q (hoStat h)))"
proof -
  from assms obtain w where vars: "vars = sanitize w (hoStat h)" and path: "vars ''PATH'' \<noteq> None"
    by (auto simp: capture_def Let_def split: option.splits if_splits)
  from path obtain p where p: "vars ''PATH'' = Some p" by blast
  with vars sanitize_path have "\<exists>q. p = filterPATH q (hoStat h)" by blast
  with p vars sanitize_clean show ?thesis by auto
qed

lemma fallback_dirs: "set (pathDirs (fallbackPATH h home)) \<subseteq> {d. safeDir (hoStat h) d}"
  by (auto simp: fallbackPATH_def Let_def filtered_dirs)

lemma stripped_is_sanitized:
  assumes "isGUIMinimal (hoEnviron h)"
  shows "set (pathDirs (envPATH (computeEnv h home))) \<subseteq> {d. safeDir (hoStat h) d}"
    and "cleanVars (evVars (computeEnv h home))"
proof -
  consider (found) vars src where "capture h = Some (vars, src)" | (none) "capture h = None"
    by (cases "capture h") auto
  then have "set (pathDirs (envPATH (computeEnv h home))) \<subseteq> {d. safeDir (hoStat h) d}
      \<and> cleanVars (evVars (computeEnv h home))"
  proof cases
    case found
    from capture_Some [OF found] obtain q where q: "cleanVars vars" "vars ''PATH'' = Some (filterPATH q (hoStat h))"
      by blast
    then have "set (pathDirs (envPATH (computeEnv h home))) \<subseteq> {d. safeDir (hoStat h) d}"
      using assms found fallback_dirs [of h home]
      by (auto simp: computeEnv_def newEnv_def envPATH_def merged_dirs filtered_dirs)
    moreover have "cleanVars (evVars (computeEnv h home))"
      using assms found q by (auto simp: computeEnv_def newEnv_def cleanVars_def hasPrefix_def)
    ultimately show ?thesis by simp
  next
    case none
    with assms fallback_dirs [of h home] show ?thesis
      by (auto simp: computeEnv_def newEnv_def envPATH_def cleanVars_def hasPrefix_def)
  qed
  then show "set (pathDirs (envPATH (computeEnv h home))) \<subseteq> {d. safeDir (hoStat h) d}"
    "cleanVars (evVars (computeEnv h home))" by simp_all
qed

text \<open>
  The cache: an environment handed out was computed for this host or for an earlier one whose shell
  configuration had the same modification times.
\<close>

definition cacheOf :: "host_seams set \<Rightarrow> reconstructor \<Rightarrow> bool" where
  "cacheOf hs r \<longleftrightarrow>
     (case rcCached r of
        None \<Rightarrow> True
      | Some e \<Rightarrow> \<exists>h \<in> hs. e = computeEnv h (hoHome h) \<and> rcKey r = realMtimeKey h (hoHome h))"

lemma cache_fresh: "cacheOf {} freshReconstructor"
  by (simp add: cacheOf_def freshReconstructor_def)

lemma cache_step:
  assumes "cacheOf hs r" "Reconstruct h r = (e, r')"
  shows "cacheOf (insert h hs) r'
    \<and> (\<exists>g \<in> insert h hs. e = computeEnv g (hoHome g) \<and> realMtimeKey g (hoHome g) = realMtimeKey h (hoHome h))"
  using assms by (auto simp: Reconstruct_def cacheOf_def Let_def split: option.splits if_splits)

section \<open>One file for a name\<close>

lemma lookAllDirs_set:
  "set (lookAllDirs isExec name seen ds) =
     {p. \<exists>d \<in> set ds. d \<noteq> [] \<and> p = joinPath [d, name] \<and> isExec p \<and> p \<notin> set seen}"
  by (induction isExec name seen ds rule: lookAllDirs.induct) (auto simp: Let_def)

lemma LookAll_dirs:
  "\<not> contains name ''/'' \<Longrightarrow> set (LookAll e name) =
     {p. \<exists>d \<in> set (pathDirs (envPATH e)). p = joinPath [d, name] \<and> evIsExec e p}"
  by (auto simp: LookAll_def lookAllDirs_set pathDirs_def)

text \<open>\<open>LookPath\<close> answers with the first of the matches \<open>LookAll\<close> lists.\<close>

lemma lookDirs_first:
  "lookDirs isExec name ds = (case lookAllDirs isExec name [] ds of [] \<Rightarrow> None | p # _ \<Rightarrow> Some p)"
  by (induction isExec name ds rule: lookDirs.induct) (auto simp: Let_def)

lemma LookPath_first: "LookPath e name = (case LookAll e name of [] \<Rightarrow> None | p # _ \<Rightarrow> Some p)"
  by (simp add: LookPath_def LookAll_def lookDirs_first)

lemma classify_grows: "classifyFrom same reps al ps = Some (rs, as) \<Longrightarrow> length reps \<le> length rs"
proof (induction ps arbitrary: reps al)
  case (Cons p ps)
  then show ?case by (fastforce split: option.splits bool.splits)
qed simp

lemma classify_one:
  "(\<exists>as. classifyFrom same [first] al ps = Some ([first], as)) \<longleftrightarrow> (\<forall>p \<in> set ps. same p first = Some True)"
proof (induction ps arbitrary: al)
  case (Cons p ps)
  have "classifyFrom same [first, p] al ps \<noteq> Some ([first], as)" for as
    using classify_grows [of same "[first, p]" al ps] by force
  then show ?case using Cons.IH by (auto split: option.splits bool.splits)
qed simp

lemma classify_reps: "classifyFrom same (first # reps) al ps = Some (rs, as) \<Longrightarrow> hd rs = first"
proof (induction ps arbitrary: reps al)
  case (Cons p ps)
  then show ?case by (auto split: option.splits bool.splits)
qed auto

lemma classify_start: "classify env (first # others) = classifyFrom (leSameFile env) [first] [] others"
  by (simp add: classify_def)

lemma classify_single:
  "(\<exists>rs as. classify env (first # others) = Some (rs, as) \<and> \<not> length rs > 1)
   \<longleftrightarrow> (\<forall>p \<in> set others. leSameFile env p first = Some True)"
proof -
  have "rs = [first]" if "classify env (first # others) = Some (rs, as)" "\<not> length rs > 1" for rs as
  proof -
    from that(1) have run: "classifyFrom (leSameFile env) [first] [] others = Some (rs, as)"
      by (simp add: classify_start)
    show ?thesis
      using classify_grows [OF run] classify_reps [OF run] that(2) by (cases rs) auto
  qed
  then have "(\<exists>rs as. classify env (first # others) = Some (rs, as) \<and> \<not> length rs > 1)
      \<longleftrightarrow> (\<exists>as. classify env (first # others) = Some ([first], as))"
    by (metis One_nat_def length_Cons less_irrefl list.size(3))
  then show ?thesis by (simp add: classify_one classify_start)
qed

lemma ResolveHelper_iff:
  "ResolveHelper (Some env) spec = Inr found \<longleftrightarrow>
     spName spec \<noteq> [] \<and> (contains (spName spec) ''/'' \<longrightarrow> isAbsPath (spName spec))
   \<and> (\<exists>first others. leLookAll env (spName spec) = first # others \<and> isAbsPath first
        \<and> (\<forall>p \<in> set others. leSameFile env p first = Some True)
        \<and> found = \<lparr>reName = spName spec, rePath = first, reAll = first # others,
                   reExplicit = isAbsPath (spName spec), reSpec = spec\<rparr>)"
  unfolding classify_single [symmetric]
  by (auto simp: ResolveHelper_def Let_def split: list.splits option.splits)


text \<open>A stripped host without a login shell, where \<open>git\<close> is in \<open>/usr/bin\<close>.\<close>

definition sampleHost :: host_seams where
  "sampleHost =
     \<lparr>hoEnviron = [''HOME=/h''], hoHome = ''/h'', hoUsername = ''u'', hoDirectoryServices = (\<lambda>_. None), hoRandom = [],
      hoRunShell = (\<lambda>_ _. []), hoPathHelper = None,
      hoStat = (\<lambda>p. if p = ''/usr/bin/git'' then Some 0x1ED else None), hoMtime = (\<lambda>_. None)\<rparr>"

lemma sampleHost_resolves:
  "isGUIMinimal (hoEnviron sampleHost)"
  "ResolveHelper (Some (hostLookup (computeEnv sampleHost ''/h'') (\<lambda>a b. Some (a = b)))) (CredentialSpec ''git'' ''clone'') =
     Inr \<lparr>reName = ''git'', rePath = ''/usr/bin/git'', reAll = [''/usr/bin/git''], reExplicit = False,
          reSpec = CredentialSpec ''git'' ''clone''\<rparr>"
  by code_simp+


section \<open>The variables a helper sees\<close>

definition renderVar :: "string \<times> string \<Rightarrow> string" where
  "renderVar nv = fst nv @ ''='' @ snd nv"

lemma splitAt_cut: "c \<notin> set n \<Longrightarrow> splitAt c (n @ c # v) = Some (n, v)"
  by (induction n) auto

lemma putVar_new: "n \<notin> fst ` set vs \<Longrightarrow> putVar n v vs = vs @ [(n, v)]"
  by (induction vs) auto

lemma putEntries:
  "list_all (\<lambda>n. n \<noteq> [] \<and> CHR ''='' \<notin> set n) (map fst nvs) \<Longrightarrow> distinct (map fst (vs @ nvs)) \<Longrightarrow>
     fold putEntry (map renderVar nvs) vs = vs @ nvs"
proof (induction nvs arbitrary: vs)
  case (Cons nv nvs)
  obtain n v where nv: "nv = (n, v)" by (cases nv)
  have "putEntry (renderVar nv) vs = vs @ [nv]"
    using Cons.prems splitAt_cut [of "CHR ''=''" n v] by (auto simp: nv putEntry_def renderVar_def putVar_new)
  then show ?case using Cons.IH [of "vs @ [nv]"] Cons.prems by (simp add: nv)
qed simp

lemma AppendEnv_set:
  assumes "list_all (\<lambda>n. n \<noteq> [] \<and> CHR ''='' \<notin> set n) (map fst nvs)" "distinct (map fst nvs)"
  shows "set (AppendEnv (map renderVar nvs) []) = set (map renderVar nvs)"
proof -
  have "fold putEntry (map renderVar nvs) [] = nvs" using putEntries [of nvs "[]"] assms by simp
  moreover have "the (map_of nvs n) = v" if "(n, v) \<in> set nvs" for n v
    using that assms(2) by simp
  ultimately show ?thesis by (force simp: AppendEnv_def renderVar_def)
qed

definition policyVars :: "LookupEnv \<Rightarrow> env_policy \<Rightarrow> (string \<times> string) list" where
  "policyVars env policy =
     (if lePATH env \<noteq> [] then [(''PATH'', lePATH env)] else [])
     @ concat (map (\<lambda>name. if name = ''PATH'' then []
         else case leGet env name of None \<Rightarrow> [] | Some v \<Rightarrow> [(name, v)]) (envNames policy))"

lemma envNames_plain:
  "list_all (\<lambda>n. n \<noteq> [] \<and> CHR ''='' \<notin> set n) (envNames policy)" "distinct (envNames policy)"
  "''PATH'' \<in> set (envNames policy)"
  by (cases policy; simp add: commonEnvNames_def)+

lemma distinct_optional:
  "distinct ns \<Longrightarrow> distinct (map fst (concat (map (\<lambda>n. if n = p then [] else case g n of None \<Rightarrow> [] | Some v \<Rightarrow> [(n, v)]) ns)))"
  by (induction ns) (auto split: option.splits)

lemma policyVars_plain:
  "list_all (\<lambda>n. n \<noteq> [] \<and> CHR ''='' \<notin> set n) (map fst (policyVars env policy))"
  "distinct (map fst (policyVars env policy))"
proof -
  show "list_all (\<lambda>n. n \<noteq> [] \<and> CHR ''='' \<notin> set n) (map fst (policyVars env policy))"
    using envNames_plain(1) [of policy] by (auto simp: policyVars_def list_all_iff split: option.splits if_splits)
  show "distinct (map fst (policyVars env policy))"
    using distinct_optional [OF envNames_plain(2) [of policy], of "''PATH''" "leGet env"]
    by (auto simp: policyVars_def split: option.splits if_splits)
qed

lemma policyVars_mem:
  "(n, v) \<in> set (policyVars env policy) \<longleftrightarrow>
     n \<in> set (envNames policy) \<and> (if n = ''PATH'' then v = lePATH env \<and> v \<noteq> [] else leGet env n = Some v)"
  using envNames_plain(3) [of policy] by (auto simp: policyVars_def split: option.splits if_splits)

lemma EnvFor_vars: "EnvFor (Some env) policy [] = AppendEnv (map renderVar (policyVars env policy)) []"
proof -
  have each: "map renderVar (if n = ''PATH'' then [] else case leGet env n of None \<Rightarrow> [] | Some v \<Rightarrow> [(n, v)])
      = (if n = ''PATH'' then [] else case leGet env n of None \<Rightarrow> [] | Some v \<Rightarrow> [n @ ''='' @ v])" for n
    by (simp add: renderVar_def split: option.split)
  have path: "map renderVar (if lePATH env \<noteq> [] then [(''PATH'', lePATH env)] else [])
      = (if lePATH env \<noteq> [] then [''PATH='' @ lePATH env] else [])"
    by (simp add: renderVar_def)
  show ?thesis
    unfolding policyVars_def map_append map_concat map_map comp_def each path by (simp add: EnvFor_def Let_def)
qed

definition hostSecrets :: "string list" where
  "hostSecrets =
     [''AWS_ACCESS_KEY_ID'', ''AWS_SECRET_ACCESS_KEY'', ''AWS_SESSION_TOKEN'', ''AWS_PROFILE'', ''ANTHROPIC_API_KEY'',
      ''OPENAI_API_KEY'', ''GITHUB_TOKEN'', ''GH_TOKEN'', ''SSH_AUTH_SOCK'', ''OP_SERVICE_ACCOUNT_TOKEN'',
      ''GOOGLE_APPLICATION_CREDENTIALS'', ''KUBECONFIG'', ''NPM_TOKEN'', ''LD_PRELOAD'', ''DYLD_INSERT_LIBRARIES'']"

text \<open>A helper sees exactly the variables of its policy. The entries it is given are the
  sanitized path and the variables of the policy's list that the host environment has, with their values,
  and no list names a token, a key, an agent socket or a loader variable.\<close>

theorem helper_env_is_exact:
  "set (EnvFor (Some env) policy []) =
     {n @ ''='' @ v | n v. n \<in> set (envNames policy)
        \<and> (if n = ''PATH'' then v = lePATH env \<and> v \<noteq> [] else leGet env n = Some v)}
   \<and> set (envNames policy) \<inter> set hostSecrets = {}"
proof
  show "set (envNames policy) \<inter> set hostSecrets = {}"
    by (cases policy) (simp_all add: commonEnvNames_def hostSecrets_def)
  have "set (EnvFor (Some env) policy []) = renderVar ` set (policyVars env policy)"
    unfolding EnvFor_vars using AppendEnv_set [OF policyVars_plain] by simp
  also have "\<dots> = {n @ ''='' @ v | n v. n \<in> set (envNames policy)
        \<and> (if n = ''PATH'' then v = lePATH env \<and> v \<noteq> [] else leGet env n = Some v)}"
  proof -
    have "renderVar ` S = {n @ ''='' @ v | n v. (n, v) \<in> S}" for S :: "(string \<times> string) set"
      by (rule set_eqI) (simp add: renderVar_def image_iff Bex_def split_paired_Ex, blast)
    then show ?thesis by (simp only: policyVars_mem)
  qed
  finally show "set (EnvFor (Some env) policy []) = {n @ ''='' @ v | n v. n \<in> set (envNames policy)
        \<and> (if n = ''PATH'' then v = lePATH env \<and> v \<noteq> [] else leGet env n = Some v)}" .
qed

section \<open>Reading back a dump\<close>

text \<open>What \<open>env\<close> prints: one entry after the other, a value with line breaks over several lines.\<close>

definition dumpLines :: "(string \<times> string) list \<Rightarrow> string list" where
  "dumpLines vars = concat (map (\<lambda>nv. splitOn newline (renderVar nv)) vars)"

definition assignment :: "string \<Rightarrow> bool" where
  "assignment ln \<longleftrightarrow> (case splitAt CHR ''='' ln of None \<Rightarrow> False | Some (n, _) \<Rightarrow> isEnvName n)"

definition continuation :: "string \<Rightarrow> string list" where
  "continuation v = tl (splitOn newline v)"

lemma envName_chars: "isEnvName n \<Longrightarrow> CHR ''='' \<notin> set n \<and> newline \<notin> set n \<and> n \<noteq> []"
proof -
  have "identRune r f \<Longrightarrow> r \<noteq> CHR ''='' \<and> r \<noteq> newline" for r f
    by (auto simp: identRune_def newline_def isUpper_def isLower_def isDigit_def byte_def split: if_splits)
  then show "isEnvName n \<Longrightarrow> CHR ''='' \<notin> set n \<and> newline \<notin> set n \<and> n \<noteq> []"
    by (cases n) (auto simp: isEnvName_def list_all_iff)
qed

lemma splitOn_prefix: "sep \<notin> set a \<Longrightarrow> splitOn sep (a @ b) = (a @ hd (splitOn sep b)) # tl (splitOn sep b)"
  by (induction a) (auto split: list.splits)

lemma foldLines_continues:
  "list_all (\<lambda>l. \<not> assignment l) ls \<Longrightarrow> nm \<noteq> [] \<Longrightarrow> out nm = Some v \<Longrightarrow>
     foldLines out nm (ls @ rest) = foldLines (out(nm \<mapsto> v @ concat (map ((#) newline) ls))) nm rest"
proof (induction ls arbitrary: out v)
  case Nil
  then have "out(nm \<mapsto> v) = out" by (auto simp: fun_eq_iff)
  then show ?case by simp
next
  case (Cons l ls)
  have "foldLines out nm ((l # ls) @ rest) = foldLines (out(nm \<mapsto> v @ newline # l)) nm (ls @ rest)"
    using Cons.prems by (auto simp: assignment_def split: option.splits)
  also have "\<dots> = foldLines (out(nm \<mapsto> v @ newline # l, nm \<mapsto> (v @ newline # l) @ concat (map ((#) newline) ls))) nm rest"
    using Cons.prems by (intro Cons.IH) simp_all
  finally show ?case by (simp only: fun_upd_upd append_assoc append_Cons list.map concat.simps)
qed

lemma joinWith_concat: "joinWith [sep] (l # ls) = l @ concat (map ((#) sep) ls)"
  by (induction ls arbitrary: l) simp_all

lemma foldLines_entry:
  assumes "isEnvName n" "list_all (\<lambda>l. \<not> assignment l) (continuation v)"
  shows "foldLines out nm (splitOn newline (renderVar (n, v)) @ rest) = foldLines (out(n \<mapsto> v)) n rest"
proof -
  note n = envName_chars [OF assms(1)]
  have "newline \<notin> set (n @ ''='')" using n by (simp add: newline_def)
  then have ls: "splitOn newline (renderVar (n, v)) = (n @ ''='' @ hd (splitOn newline v)) # continuation v"
    using splitOn_prefix [of newline "n @ ''=''" v] by (simp add: renderVar_def continuation_def)
  have "splitAt CHR ''='' (n @ ''='' @ hd (splitOn newline v)) = Some (n, hd (splitOn newline v))"
    using splitAt_cut [of "CHR ''=''" n] n by simp
  then have "foldLines out nm (splitOn newline (renderVar (n, v)) @ rest)
      = foldLines (out(n \<mapsto> hd (splitOn newline v))) n (continuation v @ rest)"
    using assms(1) by (simp add: ls)
  also have "\<dots> = foldLines (out(n \<mapsto> hd (splitOn newline v) @ concat (map ((#) newline) (continuation v)))) n rest"
    using foldLines_continues [OF assms(2), of n "out(n \<mapsto> hd (splitOn newline v))"] n by simp
  also have "hd (splitOn newline v) @ concat (map ((#) newline) (continuation v)) = v"
    using joinWith_concat [of newline "hd (splitOn newline v)" "continuation v"] joinWith_splitOn [of newline v]
    by (simp add: continuation_def)
  finally show ?thesis .
qed

lemma foldLines_dump:
  "list_all (\<lambda>(n, v). isEnvName n \<and> list_all (\<lambda>l. \<not> assignment l) (continuation v)) vars \<Longrightarrow>
     foldLines out nm (dumpLines vars) = out ++ map_of (rev vars)"
proof (induction vars arbitrary: out nm)
  case (Cons nv vars)
  obtain n v where nv: "nv = (n, v)" by (cases nv)
  have "foldLines out nm (dumpLines (nv # vars)) = foldLines (out(n \<mapsto> v)) n (dumpLines vars)"
    using Cons.prems foldLines_entry [of n v out nm "dumpLines vars"] by (simp add: dumpLines_def nv)
  also have "\<dots> = out(n \<mapsto> v) ++ map_of (rev vars)" using Cons by simp
  finally show ?case by (simp add: nv map_add_def fun_eq_iff split: option.split)
qed (simp add: dumpLines_def)

text \<open>
  A dump is read back whole, whatever the shell printed around it, if no line of it is the marker and no
  continuation line of a value looks like an assignment. The second condition is needed.
\<close>

lemma dump_roundtrip:
  assumes "list_all (\<lambda>(n, v). isEnvName n \<and> list_all (\<lambda>l. \<not> assignment l) (continuation v)) vars"
    and "distinct (map fst vars)"
    and "list_all (\<lambda>l. l \<noteq> marker) (before @ dumpLines vars)"
    and "list_all (\<lambda>l. newline \<notin> set l) (marker # before @ after)"
  shows "parseMarkerEnv (joinWith [newline] (before @ marker # dumpLines vars @ marker # after)) marker
     = Some (map_of vars)"
proof -
  let ?ls = "before @ marker # dumpLines vars @ marker # after"
  have "newline \<notin> set l" if "l \<in> set (dumpLines vars)" for l
    using that by (auto simp: dumpLines_def dest: splitOn_sep_free)
  then have lines: "splitOn newline (joinWith [newline] ?ls) = ?ls"
    using assms(4) by (intro splitOn_joinWith) (auto simp: list_all_iff)
  have past: "dropWhile (\<lambda>l. l \<noteq> marker) (xs @ marker # ys) = marker # ys"
    "takeWhile (\<lambda>l. l \<noteq> marker) (xs @ marker # ys) = xs" if "list_all (\<lambda>l. l \<noteq> marker) xs" for xs ys
    using that by (induction xs) auto
  have "markedLines ?ls marker = Some (dumpLines vars)"
    using assms(3) past by (simp add: markedLines_def)
  moreover have "map_of (rev vars) = map_of vars" using assms(2) by (subst map_of_inject_set) (simp_all add: rev_map [symmetric])
  ultimately show ?thesis
    using foldLines_dump [OF assms(1), of Map.empty "[]"] by (simp add: parseMarkerEnv_def lines)
qed

section \<open>Two gaps\<close>

text \<open>
  A variable with a line break in its value defines another variable: the host has one variable \<open>X\<close>, and
  the reader finds \<open>X\<close> and \<open>PATH\<close>, which \<open>sanitize\<close> keeps.
\<close>

lemma multiline_value_smuggles:
  "parseMarkerEnv (joinWith [newline] ([''M''] @ dumpLines [(''X'', ''a'' @ [newline] @ ''PATH=/evil'')] @ [''M''])) ''M''
   = Some [''X'' \<mapsto> ''a'', ''PATH'' \<mapsto> ''/evil'']"
  by (simp add: parseMarkerEnv_def markedLines_def dumpLines_def renderVar_def newline_def isEnvName_def identRune_def
      isUpper_def isLower_def isDigit_def byte_def)

text \<open>
  A process started from a terminal is not sanitized at all: relative and world-writable directories stay on
  the path, and loader variables stay in the environment.
\<close>

lemma terminal_start_is_not_sanitized:
  assumes "\<not> isGUIMinimal (hoEnviron h)"
  shows "evVars (computeEnv h home) = environToMap (hoEnviron h)"
  using assms by (simp add: computeEnv_def newEnv_def)

end
