(* ===== verification/ChildEnv.thy ===== *)
theory ChildEnv
  imports HostLaws
begin

text \<open>
  The environment of an agent that runs on the host, \<open>cli/childenv.go\<close>: an allowlist of names from the
  process environment and the reconstructed one, a fixed terminal, and what was staged for the run.

  Go iterates over a map in any order. The order is a parameter here, a list that enumerates the names.
\<close>

section \<open>The code\<close>

definition carryName :: "string \<Rightarrow> bool" where
  "carryName name \<longleftrightarrow>
     name \<in> set [''PATH'', ''HOME'', ''USER'', ''LOGNAME'', ''SHELL'', ''TERM'', ''TERM_PROGRAM'',
       ''TERM_PROGRAM_VERSION'', ''COLORTERM'', ''TMPDIR'', ''LANG'', ''TZ'']
     \<or> hasPrefix name ''LC_''"

definition Environ :: "string list \<Rightarrow> Env \<Rightarrow> string list" where
  "Environ order e = map (\<lambda>k. k @ ''='' @ the (evVars e k)) order"

definition defaultHostDiscoveryEnv :: "string list \<Rightarrow> Env \<Rightarrow> env_vars" where
  "defaultHostDiscoveryEnv order e = environToMap (Environ order e)"

text \<open>The map \<open>carried\<close> after the two loops and the two assignments.\<close>

definition carriedVars :: "string list \<Rightarrow> env_vars \<Rightarrow> env_vars" where
  "carriedVars environ discovery =
     (((environToMap environ |` {n. carryName n}) ++ (discovery |` {n. carryName n}))
        (''TERM'' \<mapsto> ''xterm-256color'', ''COLORTERM'' \<mapsto> ''truecolor''))"

definition childEnv :: "string list \<Rightarrow> string list \<Rightarrow> env_vars \<Rightarrow> string list \<Rightarrow> string list \<Rightarrow> string list" where
  "childEnv order environ discovery secretEnv pathEnv =
     map (\<lambda>k. k @ ''='' @ the (carriedVars environ discovery k)) order @ secretEnv @ pathEnv"

definition enumerates :: "string list \<Rightarrow> env_vars \<Rightarrow> bool" where
  "enumerates order m \<longleftrightarrow> distinct order \<and> set order = dom m"

section \<open>Reading an environment\<close>

lemma environToMap_append: "environToMap (xs @ ys) = environToMap xs ++ environToMap ys"
  by (induction xs) (auto simp: fun_eq_iff map_add_def split: option.splits prod.splits)

definition plainNames :: "env_vars \<Rightarrow> bool" where
  "plainNames m \<longleftrightarrow> (\<forall>n \<in> dom m. CHR ''='' \<notin> set n)"

lemma splitAt_free: "splitAt c s = Some (a, b) \<Longrightarrow> c \<notin> set a"
  by (induction s arbitrary: a) (auto split: if_splits option.splits prod.splits)

lemma environToMap_plain: "plainNames (environToMap kvs)"
  by (induction kvs) (auto simp: plainNames_def dom_def dest: splitAt_free split: option.splits prod.splits if_splits)

lemma environToMap_render:
  assumes "distinct order" "set order = dom m" "plainNames m"
  shows "environToMap (map (\<lambda>k. k @ ''='' @ the (m k)) order) = m"
proof -
  have free: "CHR ''='' \<notin> set k" if "k \<in> set order" for k using assms(2,3) that by (simp add: plainNames_def)
  have read: "environToMap (map (\<lambda>k. k @ ''='' @ the (m k)) ks) n = (if n \<in> set ks then Some (the (m n)) else None)"
    if "set ks \<subseteq> set order" for ks n
    using that
  proof (induction ks)
    case (Cons k ks)
    then have "splitAt CHR ''='' (k @ ''='' @ the (m k)) = Some (k, the (m k))"
      using splitAt_cut [OF free [of k]] by simp
    with Cons show ?case by (auto split: option.splits)
  qed simp
  show ?thesis
  proof
    fix n show "environToMap (map (\<lambda>k. k @ ''='' @ the (m k)) order) n = m n"
      unfolding read [OF subset_refl] using assms(2) by (cases "m n") auto
  qed
qed

lemma plain_update: "plainNames m \<Longrightarrow> CHR ''='' \<notin> set n \<Longrightarrow> plainNames (m(n \<mapsto> v))"
  by (simp add: plainNames_def)

lemma foldLines_plain: "plainNames out \<Longrightarrow> CHR ''='' \<notin> set nm \<Longrightarrow> plainNames (foldLines out nm lns)"
proof (induction lns arbitrary: out nm)
  case (Cons ln lns)
  have more: "plainNames (foldLines (out(nm \<mapsto> v)) nm lns)" for v
    using Cons plain_update by blast
  show ?case
  proof (cases "splitAt CHR ''='' ln")
    case None
    then show ?thesis using Cons more by simp
  next
    case (Some ab)
    obtain a b where ab: "ab = (a, b)" by (cases ab)
    have "plainNames (foldLines (out(a \<mapsto> b)) a lns)"
      using Cons.IH plain_update [OF Cons.prems(1)] splitAt_free Some ab by blast
    then show ?thesis using Cons more Some ab by simp
  qed
qed simp

lemma sanitize_plain: "plainNames vars \<Longrightarrow> plainNames (sanitize vars stat)"
  by (auto simp: plainNames_def sanitize_def dom_def split: option.splits if_splits)

lemma capture_plain: "capture h = Some (vars, src) \<Longrightarrow> plainNames vars"
proof -
  have parsed: "parseMarkerEnv out m = Some w \<Longrightarrow> plainNames w" for out m w
    using foldLines_plain [of Map.empty "[]"] by (auto simp: parseMarkerEnv_def plainNames_def)
  show "capture h = Some (vars, src) \<Longrightarrow> plainNames vars"
    using parsed sanitize_plain by (auto simp: capture_def Let_def split: option.splits if_splits)
qed

lemma reconstructed_plain: "plainNames (evVars (computeEnv h home))"
proof (cases "isGUIMinimal (hoEnviron h)")
  case True
  then show ?thesis
    using capture_plain [of h] by (auto simp: computeEnv_def newEnv_def plainNames_def split: option.splits)
qed (simp add: computeEnv_def newEnv_def environToMap_plain)

lemma discovery_vars:
  "enumerates order (evVars e) \<Longrightarrow> plainNames (evVars e) \<Longrightarrow> defaultHostDiscoveryEnv order e = evVars e"
  unfolding defaultHostDiscoveryEnv_def Environ_def enumerates_def by (elim conjE) (rule environToMap_render)

text \<open>(C35) The agent on the host inherits an allowlist. Whatever the orders of the maps are, the value the
  agent sees for a name is the last staged one; failing that \<open>TERM\<close> and \<open>COLORTERM\<close> are fixed, an
  allowlisted name has the value of the reconstructed environment or else of the process, and every
  other name is absent, among them every name a credential is exported under.\<close>

theorem agent_env_is_an_allowlist:
  assumes "enumerates hostOrder (evVars (computeEnv h home))"
    and "discovery = defaultHostDiscoveryEnv hostOrder (computeEnv h home)"
    and "enumerates order (carriedVars environ discovery)"
  shows "environToMap (childEnv order environ discovery secretEnv pathEnv) n =
     (case environToMap (secretEnv @ pathEnv) n of
        Some v \<Rightarrow> Some v
      | None \<Rightarrow>
          if n = ''TERM'' then Some ''xterm-256color''
          else if n = ''COLORTERM'' then Some ''truecolor''
          else if carryName n
            then (case evVars (computeEnv h home) n of Some v \<Rightarrow> Some v | None \<Rightarrow> environToMap environ n)
          else None)
   \<and> (\<forall>s \<in> set hostSecrets. \<not> carryName s)"
proof
  have disc: "discovery = evVars (computeEnv h home)"
    using discovery_vars [OF assms(1) reconstructed_plain] assms(2) by simp
  have "plainNames (carriedVars environ discovery)"
    using environToMap_plain [of environ] reconstructed_plain [of h home]
    unfolding disc by (auto simp: plainNames_def carriedVars_def split: if_splits)
  then have "environToMap (map (\<lambda>k. k @ ''='' @ the (carriedVars environ discovery k)) order) = carriedVars environ discovery"
    using assms(3) by (intro environToMap_render) (simp_all add: enumerates_def)
  then show "environToMap (childEnv order environ discovery secretEnv pathEnv) n =
     (case environToMap (secretEnv @ pathEnv) n of
        Some v \<Rightarrow> Some v
      | None \<Rightarrow>
          if n = ''TERM'' then Some ''xterm-256color''
          else if n = ''COLORTERM'' then Some ''truecolor''
          else if carryName n
            then (case evVars (computeEnv h home) n of Some v \<Rightarrow> Some v | None \<Rightarrow> environToMap environ n)
          else None)"
    unfolding childEnv_def environToMap_append [of _ "secretEnv @ pathEnv"] disc
    by (auto simp: map_add_def carriedVars_def restrict_map_def split: option.split)
  show "\<forall>s \<in> set hostSecrets. \<not> carryName s"
    by (simp add: hostSecrets_def carryName_def hasPrefix_def)
qed

text \<open>The witness: the host has \<open>HOME\<close>, a token and a path, and one secret is staged.\<close>

theorem agent_env_is_an_allowlist_witness:
  "environToMap (childEnv [''PATH'', ''HOME'', ''TERM'', ''COLORTERM''] [''GITHUB_TOKEN=t'', ''HOME=/h'']
       (defaultHostDiscoveryEnv [''PATH'', ''HOME''] (computeEnv sampleHost ''/h'')) [''API=s''] []) ''GITHUB_TOKEN'' = None"
proof -
  let ?e = "computeEnv sampleHost ''/h''"
  let ?d = "defaultHostDiscoveryEnv [''PATH'', ''HOME''] ?e"
  have vars: "evVars ?e = [''PATH'' \<mapsto> fallbackPATH sampleHost ''/h'', ''HOME'' \<mapsto> ''/h'']"
    using sampleHost_resolves(1)
    by (simp add: computeEnv_def newEnv_def capture_def realResolveShell_def sampleHost_def)
  have one: "enumerates [''PATH'', ''HOME''] (evVars ?e)" by (auto simp: enumerates_def vars)
  have d: "?d = evVars ?e"
    using discovery_vars [OF one reconstructed_plain] .
  have "environToMap [''GITHUB_TOKEN=t'', ''HOME=/h''] = [''HOME'' \<mapsto> ''/h'', ''GITHUB_TOKEN'' \<mapsto> ''t'']"
    by (auto simp: fun_eq_iff)
  then have "dom (carriedVars [''GITHUB_TOKEN=t'', ''HOME=/h''] ?d) = {''PATH'', ''HOME'', ''TERM'', ''COLORTERM''}"
    by (auto simp: carriedVars_def d vars carryName_def hasPrefix_def restrict_map_def split: if_splits)
  then have two: "enumerates [''PATH'', ''HOME'', ''TERM'', ''COLORTERM''] (carriedVars [''GITHUB_TOKEN=t'', ''HOME=/h''] ?d)"
    by (simp add: enumerates_def)
  have "\<not> carryName ''GITHUB_TOKEN''" by (simp add: carryName_def hasPrefix_def)
  with agent_env_is_an_allowlist [OF one refl two, of "[''API=s'']" "[]" "''GITHUB_TOKEN''"]
  show ?thesis by simp
qed

end
