(* ===== verification/Workspace.thy ===== *)
theory Workspace
  imports StageFiles
begin

text \<open>
  The one writable directory of a launch, \<open>engine/workspace\<close>, and the plan of the bind mounts of the two
  containers, \<open>container/mount_plan.go\<close>. The file system is a parameter: what a path resolves to once
  its symbolic links are followed, whether it is a directory, what kind of file it is itself, and the working
  directory. It does not change while one plan is made.
\<close>

section \<open>Paths\<close>

definition isAbs :: "string \<Rightarrow> bool" where
  "isAbs p \<longleftrightarrow> hasPrefix p [slash]"

text \<open>
  \<open>filepath.Rel\<close>. The loop drops common elements; it ends with what is left of both and with the element of
  the base it stopped in.
\<close>

definition firstElem :: "string \<Rightarrow> string" where
  "firstElem p = takeWhile (\<lambda>c. c \<noteq> slash) p"

definition afterElem :: "string \<Rightarrow> string" where
  "afterElem p = drop 1 (dropWhile (\<lambda>c. c \<noteq> slash) p)"

lemma afterElem_shorter: "p \<noteq> [] \<Longrightarrow> length (afterElem p) < length p"
  using length_dropWhile_le [of "\<lambda>c. c \<noteq> slash" p]
  by (cases p) (auto simp: afterElem_def intro: le_less_trans)

function relLoop :: "string \<Rightarrow> string \<Rightarrow> string \<times> string \<times> string" where
  "relLoop base targ =
     (if base = [] \<or> targ = [] then (base, targ, [])
      else if firstElem targ \<noteq> firstElem base then (base, targ, firstElem base)
      else relLoop (afterElem base) (afterElem targ))"
  by pat_completeness auto
termination by (relation "measure (\<lambda>(b, _). length b)") (auto simp: afterElem_shorter)

declare relLoop.simps [simp del]

definition relPath :: "string \<Rightarrow> string \<Rightarrow> string option" where
  "relPath basepath targpath =
     (let base0 = cleanPath basepath; targ = cleanPath targpath in
      if targ = base0 then Some ''.''
      else let base = (if base0 = ''.'' then [] else base0) in
      if hasPrefix base [slash] \<noteq> hasPrefix targ [slash] then None
      else case relLoop base targ of (b, t, el) \<Rightarrow>
        if el = ''..'' then None
        else if b \<noteq> []
          then Some (''..'' @ concat (replicate (length (filter (\<lambda>c. c = slash) b)) (slash # ''..''))
                     @ (if t \<noteq> [] then slash # t else []))
        else Some t)"

section \<open>Workspace\<close>

datatype file_kind = KindRegular | KindDirectory | KindSymlink | KindOther

record file_system =
  fsEval :: "string \<Rightarrow> string option"
  fsIsDir :: "string \<Rightarrow> bool"
  fsLstat :: "string \<Rightarrow> file_kind option"
  fsCwd :: "string option"

datatype workspace_error = WorkspaceInvalid | WorkspaceUnavailable | WorkspaceOverlap

definition validateText :: "string \<Rightarrow> (workspace_error, unit) res" where
  "validateText path =
     (if \<not> validUTF8 path then Inl WorkspaceInvalid
      else if list_ex controlRune (runes path) then Inl WorkspaceInvalid
      else Inr ())"

definition WorkspaceCandidate :: "string option \<Rightarrow> string \<Rightarrow> string \<Rightarrow> string \<Rightarrow> (workspace_error, string) res" where
  "WorkspaceCandidate cwd raw policyPath invocation0 =
     rbind (validateText raw) (\<lambda>_.
     rbind (if invocation0 = []
            then (case cwd of None \<Rightarrow> Inl WorkspaceUnavailable | Some dir \<Rightarrow> Inr dir)
            else Inr invocation0) (\<lambda>invocation.
     rbind (validateText invocation) (\<lambda>_.
     rbind (if raw = [] then Inr (invocation, invocation)
            else if \<not> isAbs raw \<and> policyPath \<noteq> []
              then rbind (validateText policyPath) (\<lambda>_. Inr (dirPath policyPath, raw))
            else Inr (invocation, raw)) (\<lambda>(base, path).
       case absPath cwd (if isAbs path then path else joinPath [base, path]) of
         None \<Rightarrow> Inl WorkspaceInvalid
       | Some full \<Rightarrow> rbind (validateText full) (\<lambda>_. Inr (cleanPath full))))))"

definition ResolveWorkspace ::
  "file_system \<Rightarrow> string \<Rightarrow> string \<Rightarrow> string \<Rightarrow> (workspace_error, string) res" where
  "ResolveWorkspace fs raw policyPath invocation =
     rbind (WorkspaceCandidate (fsCwd fs) raw policyPath invocation) (\<lambda>candidate.
       if \<not> fsIsDir fs candidate then Inl WorkspaceUnavailable
       else case fsEval fs candidate of
         None \<Rightarrow> Inl WorkspaceUnavailable
       | Some real \<Rightarrow>
           if \<not> isAbs real then Inl WorkspaceInvalid
           else rbind (validateText real) (\<lambda>_.
             if \<not> fsIsDir fs real then Inl WorkspaceUnavailable else Inr (cleanPath real)))"

definition ResolveAbsolute :: "file_system \<Rightarrow> string \<Rightarrow> (workspace_error, string) res" where
  "ResolveAbsolute fs path =
     (if \<not> isAbs path then Inl WorkspaceInvalid else ResolveWorkspace fs path [] [slash])"

text \<open>
  The loop climbs to the first ancestor that exists. The names dropped on the way are kept with the
  topmost first. Every turn but the last shortens the path, so its length is fuel enough.
\<close>

fun canonFrom :: "file_system \<Rightarrow> nat \<Rightarrow> string \<Rightarrow> string \<Rightarrow> string list \<Rightarrow> string option" where
  "canonFrom fs 0 path current suffix = None"
| "canonFrom fs (Suc fuel) path current suffix =
     (case fsEval fs current of
        Some real \<Rightarrow> Some (cleanPath (foldl (\<lambda>r s. joinPath [r, s]) real suffix))
      | None \<Rightarrow>
          let parent = dirPath current in
          if parent = current then Some path
          else canonFrom fs fuel path parent (basePath current # suffix))"

definition canonicalizeExistingPrefix :: "file_system \<Rightarrow> string \<Rightarrow> string option" where
  "canonicalizeExistingPrefix fs path = canonFrom fs (length path + 1) path path []"

definition containsPath :: "string \<Rightarrow> string \<Rightarrow> bool" where
  "containsPath root path \<longleftrightarrow>
     (case relPath root path of
        None \<Rightarrow> False
      | Some rel \<Rightarrow> rel = ''.'' \<or> rel \<noteq> ''..'' \<and> \<not> hasPrefix rel (''..'' @ [slash]))"

text \<open>\<open>None\<close> would be a canonicalization that ran out of fuel; it is shown not to happen.\<close>

definition RequireDisjointPaths :: "file_system \<Rightarrow> string \<Rightarrow> string \<Rightarrow> (workspace_error, unit) res option" where
  "RequireDisjointPaths fs workspacePath stagePath =
     (if \<not> isAbs workspacePath \<or> \<not> isAbs stagePath then Some (Inl WorkspaceInvalid)
      else case validateText workspacePath of
        Inl e \<Rightarrow> Some (Inl e)
      | Inr _ \<Rightarrow>
          (case validateText stagePath of
             Inl e \<Rightarrow> Some (Inl e)
           | Inr _ \<Rightarrow>
               (case (canonicalizeExistingPrefix fs (cleanPath workspacePath),
                      canonicalizeExistingPrefix fs (cleanPath stagePath)) of
                  (Some w, Some s) \<Rightarrow>
                    Some (if containsPath w s \<or> containsPath s w then Inl WorkspaceOverlap else Inr ())
                | _ \<Rightarrow> None)))"

definition RequireDisjoint :: "file_system \<Rightarrow> string \<Rightarrow> string \<Rightarrow> (workspace_error, unit) res option" where
  "RequireDisjoint fs workspacePath stagePath =
     (case ResolveAbsolute fs workspacePath of
        Inl e \<Rightarrow> Some (Inl e)
      | Inr w \<Rightarrow>
          (case ResolveAbsolute fs stagePath of
             Inl e \<Rightarrow> Some (Inl e)
           | Inr s \<Rightarrow> RequireDisjointPaths fs w s))"

section \<open>Mounts\<close>

record composeMount =
  cmSource :: string
  cmTarget :: string
  cmReadOnly :: bool

record composeMountPlan =
  mpProxy :: "composeMount list"
  mpAgent :: "composeMount list"

record ProjectionMount =
  pmHost :: string
  pmContainer :: string
  pmTarget :: string
  pmOptional :: bool
  pmLabel :: string
  pmStatus :: string

text \<open>The four fields of \<open>composeParams\<close> the plan reads.\<close>

record mountParams =
  mqRuntimeDir :: string
  mqWorkspace :: string
  mqStageDir :: string
  mqProjection :: "ProjectionMount list option"

datatype mount_error =
    ProjectionBoundary | WorkspaceBoundary workspace_error | StageBoundary workspace_error
  | BoundaryOverlap workspace_error | RuntimeDiffers
  | MountNotClean string | MountSource string workspace_error | MountTarget string workspace_error
  | MountDuplicate string | MountUnavailable string | MountType string
  | WritableMount | WritableCount | CanonicalizationStuck

definition PresentMounts :: "ProjectionMount list \<Rightarrow> ProjectionMount list" where
  "PresentMounts items = filter (\<lambda>it. pmStatus it = ''present'') items"

definition escapesRoot :: "string \<Rightarrow> bool" where
  "escapesRoot rel \<longleftrightarrow> rel = ''..'' \<or> isAbs rel \<or> hasPrefix rel (''..'' @ [slash])"

definition snapshotAllowed :: "string \<Rightarrow> ProjectionMount \<Rightarrow> bool" where
  "snapshotAllowed root mount \<longleftrightarrow>
     (case relPath root (cleanPath (pmHost mount)) of
        None \<Rightarrow> False
      | Some rel \<Rightarrow> \<not> (escapesRoot rel \<or> dirPath rel \<noteq> ''.'' \<or> rel = ''.''))"

definition validateProjectionSnapshotMounts ::
  "string \<Rightarrow> ProjectionMount list option \<Rightarrow> (mount_error, unit) res" where
  "validateProjectionSnapshotMounts stageDir manifest =
     (case manifest of
        None \<Rightarrow> Inr ()
      | Some items \<Rightarrow>
          if list_all (snapshotAllowed (cleanPath (joinPath [stageDir, ''projection-snapshots'']))) (PresentMounts items)
          then Inr () else Inl ProjectionBoundary)"

fun validateServiceMounts ::
  "file_system \<Rightarrow> string \<Rightarrow> bool \<Rightarrow> string list \<Rightarrow> composeMount list \<Rightarrow> (mount_error, unit) res" where
  "validateServiceMounts fs service requireSources targets [] = Inr ()"
| "validateServiceMounts fs service requireSources targets (m # ms) =
     (if \<not> isAbs (cmSource m) \<or> \<not> isAbs (cmTarget m) \<or> cleanPath (cmTarget m) \<noteq> cmTarget m
        then Inl (MountNotClean service)
      else case WorkspaceCandidate (fsCwd fs) (cmSource m) [] [slash] of
        Inl e \<Rightarrow> Inl (MountSource service e)
      | Inr _ \<Rightarrow>
          (case WorkspaceCandidate (fsCwd fs) (cmTarget m) [] [slash] of
             Inl e \<Rightarrow> Inl (MountTarget service e)
           | Inr _ \<Rightarrow>
               if cmTarget m \<in> set targets then Inl (MountDuplicate service)
               else if \<not> requireSources
                 then validateServiceMounts fs service requireSources (cmTarget m # targets) ms
               else (case fsLstat fs (cmSource m) of
                   None \<Rightarrow> Inl (MountUnavailable service)
                 | Some k \<Rightarrow>
                     if k = KindSymlink \<or> \<not> (k = KindRegular \<or> k = KindDirectory) then Inl (MountType service)
                     else validateServiceMounts fs service requireSources (cmTarget m # targets) ms)))"

text \<open>The three paths of a plan: as given, or resolved and checked against each other.\<close>

definition mountPaths :: "file_system \<Rightarrow> mountParams \<Rightarrow> bool \<Rightarrow> (mount_error, string \<times> string \<times> string) res" where
  "mountPaths fs p requireSources =
     (if \<not> requireSources then Inr (mqWorkspace p, mqStageDir p, mqRuntimeDir p)
      else case ResolveAbsolute fs (mqWorkspace p) of
        Inl e \<Rightarrow> Inl (WorkspaceBoundary e)
      | Inr w \<Rightarrow>
          (case ResolveAbsolute fs (mqStageDir p) of
             Inl e \<Rightarrow> Inl (StageBoundary e)
           | Inr s \<Rightarrow>
               (case RequireDisjoint fs w s of
                  None \<Rightarrow> Inl CanonicalizationStuck
                | Some (Inl e) \<Rightarrow> Inl (BoundaryOverlap e)
                | Some (Inr _) \<Rightarrow>
                    (case ResolveAbsolute fs (mqRuntimeDir p) of
                       Inl _ \<Rightarrow> Inl RuntimeDiffers
                     | Inr r \<Rightarrow> if r \<noteq> s then Inl RuntimeDiffers else Inr (w, s, r)))))"

definition plannedMounts :: "mountParams \<Rightarrow> string \<times> string \<times> string \<Rightarrow> composeMountPlan" where
  "plannedMounts p paths =
     (case paths of (w, s, r) \<Rightarrow>
      \<lparr>mpProxy =
         [\<lparr>cmSource = joinPath [r, ''squid.conf''], cmTarget = ''/etc/squid/squid.conf'', cmReadOnly = True\<rparr>,
          \<lparr>cmSource = joinPath [r, ''allowlist.domains''], cmTarget = ''/etc/squid/allowlist.domains'', cmReadOnly = True\<rparr>,
          \<lparr>cmSource = joinPath [r, ''proxy-overlay''], cmTarget = ''/etc/squid/safeslop.d'', cmReadOnly = True\<rparr>],
       mpAgent =
         [\<lparr>cmSource = w, cmTarget = ''/workspace'', cmReadOnly = False\<rparr>,
          \<lparr>cmSource = s, cmTarget = ''/safeslop/runtime'', cmReadOnly = True\<rparr>]
         @ (case mqProjection p of
              None \<Rightarrow> []
            | Some items \<Rightarrow>
                map (\<lambda>m. \<lparr>cmSource = pmHost m, cmTarget = pmContainer m, cmReadOnly = True\<rparr>)
                  (PresentMounts items))\<rparr>)"

definition checkWritable :: "string \<Rightarrow> composeMount list \<Rightarrow> (mount_error, unit) res" where
  "checkWritable workspacePath mounts =
     (let writable = filter (\<lambda>m. \<not> cmReadOnly m) mounts in
      if list_ex (\<lambda>m. cmSource m \<noteq> workspacePath \<or> cmTarget m \<noteq> ''/workspace'') writable
        then Inl WritableMount
      else if length writable \<noteq> 1 then Inl WritableCount
      else Inr ())"

definition buildComposeMountPlan ::
  "file_system \<Rightarrow> mountParams \<Rightarrow> bool \<Rightarrow> (mount_error, composeMountPlan) res" where
  "buildComposeMountPlan fs p requireSources =
     rbind (validateProjectionSnapshotMounts (mqStageDir p) (mqProjection p)) (\<lambda>_.
     rbind (mountPaths fs p requireSources) (\<lambda>paths.
       let plan = plannedMounts p paths in
       rbind (validateServiceMounts fs ''proxy'' requireSources [] (mpProxy plan)) (\<lambda>_.
       rbind (validateServiceMounts fs ''agent'' requireSources [] (mpAgent plan)) (\<lambda>_.
       rbind (checkWritable (fst paths) (mpAgent plan)) (\<lambda>_. Inr plan)))))"

end
