(* ===== verification/WorkspaceLaws.thy ===== *)
theory WorkspaceLaws
  imports Workspace StageFileLaws "HOL-Library.Sublist"
begin

text \<open>
  What the mount plan promises: the agent can write to its workspace and to nothing else, and no path lies
  both below the workspace and below the stage that holds the policy of its proxy.
\<close>

section \<open>Absolute clean paths\<close>

lemma hasPrefix_split: "hasPrefix s p \<longleftrightarrow> (\<exists>v. s = p @ v)"
  unfolding hasPrefix_def by (metis append_eq_conv_conj append_take_drop_id)

definition plainList :: "string list \<Rightarrow> bool" where
  "plainList xs \<longleftrightarrow> list_all plainName xs"

definition pathOf :: "string list \<Rightarrow> string" where
  "pathOf xs = slash # joinWith [slash] xs"

definition elems :: "string \<Rightarrow> string list" where
  "elems p = filter (\<lambda>e. e \<noteq> []) (splitOn slash p)"

definition below :: "string \<Rightarrow> string \<Rightarrow> bool" where
  "below root p \<longleftrightarrow> prefix (elems root) (elems p)"

lemma plainList_simps [simp]:
  "plainList []" "plainList (x # xs) \<longleftrightarrow> plainName x \<and> plainList xs"
  "plainList (xs @ ys) \<longleftrightarrow> plainList xs \<and> plainList ys" "plainList (rev xs) = plainList xs"
  by (simp_all add: plainList_def)

lemma plainList_free: "plainList xs \<Longrightarrow> \<forall>x \<in> set xs. slash \<notin> set x \<and> x \<noteq> []"
  by (auto simp: plainList_def list_all_iff plainName_def)

lemma pathOf_render: "pathOf xs = renderPath True (rev xs)"
  by (simp add: pathOf_def renderPath_def Let_def)

lemma splitOn_pathOf: "plainList xs \<Longrightarrow> splitOn slash (pathOf xs) = [] # (if xs = [] then [[]] else xs)"
  using splitOn_join [of xs] plainList_free [of xs] by (simp add: pathOf_def)

lemma elems_pathOf [simp]: "plainList xs \<Longrightarrow> elems (pathOf xs) = xs"
  using plainList_free [of xs] by (auto simp: elems_def splitOn_pathOf)

lemma pathOf_inject: "plainList xs \<Longrightarrow> plainList ys \<Longrightarrow> pathOf xs = pathOf ys \<longleftrightarrow> xs = ys"
  by (metis elems_pathOf)

lemma below_pathOf: "plainList xs \<Longrightarrow> plainList ys \<Longrightarrow> below (pathOf xs) (pathOf ys) \<longleftrightarrow> prefix xs ys"
  by (simp add: below_def)

lemma pathOf_abs [simp]: "isAbs (pathOf xs)" "hasPrefix (pathOf xs) [slash]" "pathOf xs \<noteq> []" "hd (pathOf xs) = slash"
  by (simp_all add: isAbs_def pathOf_def hasPrefix_def)

lemma clean_pathOf [simp]: "plainList xs \<Longrightarrow> cleanPath (pathOf xs) = pathOf xs"
  unfolding pathOf_render by (rule cleanPath_render) (simp add: plainAcc_def plainList_def)

lemma clean_abs:
  assumes "isAbs p" obtains xs where "plainList xs" "cleanPath p = pathOf xs"
proof -
  from assms have p: "p \<noteq> []" "hd p = slash" by (cases p; simp add: isAbs_def hasPrefix_def)+
  let ?acc = "foldl (cleanStep True) [] (splitOn slash p)"
  have "plainAcc ?acc" using splitOn_sep_free foldl_cleanStep_plain [of "[]"] by (simp add: plainAcc_def)
  moreover have "cleanPath p = pathOf (rev ?acc)" using p by (simp add: cleanPath_def pathOf_render)
  ultimately show thesis by (intro that [of "rev ?acc"]) (simp_all add: plainAcc_def plainList_def)
qed

lemma fold_pathOf: "plainList xs \<Longrightarrow> foldl (cleanStep True) [] (splitOn slash (pathOf xs)) = rev xs"
  using foldl_cleanStep_id [of xs "[]"]
  by (cases "xs = []") (simp_all add: splitOn_pathOf cleanStep_def plainAcc_def plainList_def)

lemma join_pathOf [simp]:
  assumes "plainList xs" "plainName n" shows "joinPath [pathOf xs, n] = pathOf (xs @ [n])"
proof -
  have "\<exists>acc. joinPath [pathOf xs, n] = renderPath True (n # acc) \<and> acc = foldl (cleanStep True) [] (splitOn slash (pathOf xs))"
    using joinPath_plain [OF assms(2), of "pathOf xs"] by simp
  then show ?thesis using fold_pathOf [OF assms(1)] by (auto simp: pathOf_render)
qed

lemma joinWith_snoc: "joinWith [s] (xs @ [n]) = (if xs = [] then n else joinWith [s] xs @ s # n)"
  by (induction xs) (auto simp: joinWith_Cons)

lemma splitLast_plain: "slash \<notin> set n \<Longrightarrow> splitLast slash (a @ slash # n) = Some (a, n)"
proof -
  assume "slash \<notin> set n"
  moreover have "slash \<notin> set m \<Longrightarrow> splitAt slash (m @ slash # b) = Some (m, b)" for m b
    by (induction m) auto
  ultimately show ?thesis by (simp add: splitLast_def)
qed

lemma pathOf_snoc: "pathOf (xs @ [n]) = (if xs = [] then [] else pathOf xs) @ slash # n"
  by (simp add: pathOf_def joinWith_snoc)

lemma dir_pathOf:
  assumes "plainList xs" "plainName n"
  shows "dirPath (pathOf (xs @ [n])) = pathOf xs" "basePath (pathOf (xs @ [n])) = n"
proof -
  have n: "slash \<notin> set n" "n \<noteq> []" using assms(2) by (simp_all add: plainName_def)
  let ?a = "if xs = [] then [] else pathOf xs"
  have cut: "splitLast slash (pathOf (xs @ [n])) = Some (?a, n)"
    unfolding pathOf_snoc by (rule splitLast_plain [OF n(1)])
  have "cleanPath (?a @ [slash]) = pathOf xs"
  proof (cases "xs = []")
    case False
    have "slash \<notin> set []" by simp
    then have "splitOn slash (pathOf xs @ [slash]) = splitOn slash (pathOf xs) @ [[]]"
      using splitOn_append_plain [of "[]" "pathOf xs"] by simp
    then have "foldl (cleanStep True) [] (splitOn slash (pathOf xs @ [slash])) = rev xs"
      using fold_pathOf [OF assms(1)] by (simp add: cleanStep_def)
    then show ?thesis using False by (simp add: cleanPath_def pathOf_render [symmetric])
  qed (simp add: cleanPath_def cleanStep_def pathOf_def renderPath_def)
  then show "dirPath (pathOf (xs @ [n])) = pathOf xs" by (simp add: dirPath_def cut)
  have "rev (pathOf (xs @ [n])) = rev n @ slash # rev ?a" by (simp add: pathOf_snoc)
  moreover have "dropWhile (\<lambda>c. c = slash) (rev n @ r) = rev n @ r" for r
    using n by (cases n rule: rev_cases) auto
  ultimately have "dropWhile (\<lambda>c. c = slash) (rev (pathOf (xs @ [n]))) = rev (pathOf (xs @ [n]))" by simp
  then show "basePath (pathOf (xs @ [n])) = n"
    by (simp add: basePath_def cut Let_def)
qed

lemma dir_root: "dirPath (pathOf []) = pathOf []"
  by (simp add: dirPath_def pathOf_def splitLast_def cleanPath_def cleanStep_def renderPath_def)

section \<open>Containment\<close>

lemma elem_join:
  assumes "plainList (x # xs)"
  shows "firstElem (joinWith [slash] (x # xs)) = x" "afterElem (joinWith [slash] (x # xs)) = joinWith [slash] xs"
    "joinWith [slash] (x # xs) \<noteq> []"
proof -
  have x: "slash \<notin> set x" "x \<noteq> []" using plainList_free [OF assms] by auto
  have walk: "takeWhile (\<lambda>c. c \<noteq> slash) (x @ r) = x @ takeWhile (\<lambda>c. c \<noteq> slash) r"
    "dropWhile (\<lambda>c. c \<noteq> slash) (x @ r) = dropWhile (\<lambda>c. c \<noteq> slash) r" for r
    using x(1) by (induction x) auto
  have join: "joinWith [slash] (x # xs) = x @ (if xs = [] then [] else slash # joinWith [slash] xs)"
    by (simp add: joinWith_Cons)
  show "firstElem (joinWith [slash] (x # xs)) = x" unfolding join firstElem_def walk by simp
  show "afterElem (joinWith [slash] (x # xs)) = joinWith [slash] xs" unfolding join afterElem_def walk by simp
  show "joinWith [slash] (x # xs) \<noteq> []" unfolding join using x(2) by simp
qed

lemma relLoop_cons:
  assumes "plainList (x # xs)" "plainList (y # ys)"
  shows "relLoop (joinWith [slash] (x # xs)) (joinWith [slash] (y # ys)) =
     (if y \<noteq> x then (joinWith [slash] (x # xs), joinWith [slash] (y # ys), x)
      else relLoop (joinWith [slash] xs) (joinWith [slash] ys))"
  by (subst relLoop.simps) (simp only: elem_join [OF assms(1)] elem_join [OF assms(2)] if_False simp_thms)

lemma relLoop_joins:
  "plainList xs \<Longrightarrow> plainList ys \<Longrightarrow> \<exists>us vs el. prefix us xs \<and> prefix us ys
     \<and> relLoop (joinWith [slash] xs) (joinWith [slash] ys)
        = (joinWith [slash] (drop (length us) xs), joinWith [slash] (drop (length us) ys), el)
     \<and> el \<noteq> ''..'' \<and> vs = us \<and> (drop (length us) xs \<noteq> [] \<longrightarrow> \<not> prefix xs ys)"
proof (induction xs arbitrary: ys)
  case Nil
  then show ?case by (intro exI [of _ "[]"]) (simp add: relLoop.simps)
next
  case (Cons x xs)
  show ?case
  proof (cases ys)
    case Nil
    then show ?thesis by (intro exI [of _ "[]"]) (simp add: relLoop.simps)
  next
    case ys: (Cons y zs)
    show ?thesis
    proof (cases "x = y")
      case True
      have "plainList xs" "plainList zs" using Cons.prems ys by simp_all
      from Cons.IH [OF this] obtain us el where us: "prefix us xs" "prefix us zs"
        "relLoop (joinWith [slash] xs) (joinWith [slash] zs)
          = (joinWith [slash] (drop (length us) xs), joinWith [slash] (drop (length us) zs), el)"
        "el \<noteq> ''..''" "drop (length us) xs \<noteq> [] \<longrightarrow> \<not> prefix xs zs" by blast
      have "relLoop (joinWith [slash] (x # xs)) (joinWith [slash] (y # zs)) = relLoop (joinWith [slash] xs) (joinWith [slash] zs)"
        using relLoop_cons [OF Cons.prems(1) Cons.prems(2) [unfolded ys]] True by argo
      with us True show ?thesis
        by (intro exI [of _ "x # us"] exI [of _ el]) (simp add: ys del: joinWith.simps)
    next
      case False
      have "x \<noteq> ''..''" using Cons.prems(1) by (simp add: plainName_def)
      moreover have "relLoop (joinWith [slash] (x # xs)) (joinWith [slash] (y # zs))
          = (joinWith [slash] (x # xs), joinWith [slash] (y # zs), x)"
        using relLoop_cons [OF Cons.prems(1) Cons.prems(2) [unfolded ys]] False by argo
      ultimately show ?thesis using False
        by (intro exI [of _ "[]"] exI [of _ x]) (simp add: ys del: joinWith.simps)
    qed
  qed
qed

lemma relative_inside:
  assumes "plainList zs" "zs \<noteq> []"
  shows "joinWith [slash] zs \<noteq> ''..''" "\<not> hasPrefix (joinWith [slash] zs) (''..'' @ [slash])"
    "\<not> isAbs (joinWith [slash] zs)" "joinWith [slash] zs \<noteq> ''.''"
proof -
  obtain z ws where z: "zs = z # ws" using assms(2) by (cases zs) auto
  have first: "firstElem (joinWith [slash] zs) = z" using elem_join(1) assms(1) z by blast
  have plain: "z \<noteq> ''..''" "z \<noteq> ''.''" "z \<noteq> []" using assms(1) z by (simp_all add: plainName_def)
  have "firstElem ''..'' = ''..''" "firstElem ''.'' = ''.''" by (simp_all add: firstElem_def slash_def)
  with first plain show "joinWith [slash] zs \<noteq> ''..''" "joinWith [slash] zs \<noteq> ''.''" by auto
  have "firstElem (''..'' @ slash # r) = ''..''" "firstElem (slash # r) = []" for r
    by (simp_all add: firstElem_def slash_def)
  with first plain show "\<not> hasPrefix (joinWith [slash] zs) (''..'' @ [slash])" "\<not> isAbs (joinWith [slash] zs)"
    by (auto simp: hasPrefix_split isAbs_def)
qed

lemma relPath_pathOf:
  assumes "plainList xs" "plainList ys"
  shows "\<exists>rel. relPath (pathOf xs) (pathOf ys) = Some rel
     \<and> (rel = ''.'' \<or> rel \<noteq> ''..'' \<and> \<not> hasPrefix rel (''..'' @ [slash]) \<longleftrightarrow> prefix xs ys)"
proof (cases "xs = ys")
  case True
  then show ?thesis using assms by (simp add: relPath_def hasPrefix_def)
next
  case False
  have other: "pathOf ys \<noteq> pathOf xs" using False assms by (simp add: pathOf_inject)
  have root: "pathOf xs \<noteq> ''.''" by (simp add: pathOf_def slash_def)
  from relLoop_joins [OF assms] obtain us el where us: "prefix us xs" "prefix us ys"
    "relLoop (joinWith [slash] xs) (joinWith [slash] ys)
      = (joinWith [slash] (drop (length us) xs), joinWith [slash] (drop (length us) ys), el)"
    "el \<noteq> ''..''" "drop (length us) xs \<noteq> [] \<longrightarrow> \<not> prefix xs ys" by blast
  have start: "relLoop (pathOf xs) (pathOf ys) = relLoop (joinWith [slash] xs) (joinWith [slash] ys)"
    by (subst relLoop.simps) (simp add: pathOf_def firstElem_def afterElem_def)
  have plain: "plainList (drop (length us) xs)" "plainList (drop (length us) ys)"
    using assms by (simp_all add: plainList_def list_all_iff) (meson in_set_dropD)+
  show ?thesis
  proof (cases "drop (length us) xs = []")
    case True
    then have "us = xs" using us(1) by (auto simp: prefix_def)
    then have inside: "prefix xs ys" using us(2) by simp
    then have "drop (length us) ys \<noteq> []" using False \<open>us = xs\<close> by (auto simp: prefix_def)
    note rel = relative_inside [OF plain(2) this]
    have "relPath (pathOf xs) (pathOf ys) = Some (joinWith [slash] (drop (length us) ys))"
      using other root us(3,4) start assms True by (simp add: relPath_def Let_def)
    with rel inside show ?thesis by simp
  next
    case left: False
    then obtain z zs where "drop (length us) xs = z # zs" by (cases "drop (length us) xs") auto
    then have b: "joinWith [slash] (drop (length us) xs) \<noteq> []" using elem_join(3) plain(1) by metis
    let ?b = "joinWith [slash] (drop (length us) xs)" and ?t = "joinWith [slash] (drop (length us) ys)"
    let ?rel = "''..'' @ concat (replicate (length (filter (\<lambda>c. c = slash) ?b)) (slash # ''..''))
      @ (if ?t \<noteq> [] then slash # ?t else [])"
    have "relPath (pathOf xs) (pathOf ys) = Some ?rel"
      using other root us(3,4) start assms b by (simp add: relPath_def Let_def)
    moreover have "?rel = ''..'' \<or> hasPrefix ?rel (''..'' @ [slash])"
      by (cases "length (filter (\<lambda>c. c = slash) ?b)"; cases "?t = []") (simp_all add: hasPrefix_def)
    moreover have "?rel \<noteq> ''.''" by simp
    ultimately show ?thesis using us(5) left by blast
  qed
qed

lemma contains_pathOf:
  "plainList xs \<Longrightarrow> plainList ys \<Longrightarrow> containsPath (pathOf xs) (pathOf ys) \<longleftrightarrow> prefix xs ys"
  using relPath_pathOf [of xs ys] by (auto simp: containsPath_def)

section \<open>Canonical paths\<close>

text \<open>
  What is used of \<open>filepath.EvalSymlinks\<close>: the answer for an absolute path is absolute and clean, and
  resolving it again changes nothing.
\<close>

definition resolvesLinks :: "file_system \<Rightarrow> bool" where
  "resolvesLinks fs \<longleftrightarrow>
     (\<forall>p r. isAbs p \<and> fsEval fs p = Some r \<longrightarrow> (\<exists>xs. plainList xs \<and> r = pathOf xs) \<and> fsEval fs r = Some r)"

lemma joins_pathOf:
  "plainList xs \<Longrightarrow> plainList ns \<Longrightarrow> foldl (\<lambda>r s. joinPath [r, s]) (pathOf xs) ns = pathOf (xs @ ns)"
proof (induction ns arbitrary: xs)
  case (Cons n ns)
  then show ?case using Cons.IH [of "xs @ [n]"] by simp
qed simp

lemma canonFrom_returns:
  assumes "resolvesLinks fs" "plainList whole"
  shows "plainList xs \<Longrightarrow> plainList ns \<Longrightarrow> length xs < fuel \<Longrightarrow>
     \<exists>zs. plainList zs \<and> canonFrom fs fuel (pathOf whole) (pathOf xs) ns = Some (pathOf zs)"
proof (induction fuel arbitrary: xs ns)
  case (Suc fuel)
  show ?case
  proof (cases "fsEval fs (pathOf xs)")
    case (Some r)
    then obtain rs where "plainList rs" "r = pathOf rs"
      using assms(1) [unfolded resolvesLinks_def] pathOf_abs(1) by blast
    then show ?thesis using Some Suc.prems(2) by (intro exI [of _ "rs @ ns"]) (simp add: joins_pathOf)
  next
    case None
    show ?thesis
    proof (cases xs rule: rev_cases)
      case Nil
      then show ?thesis using None assms(2) by (intro exI [of _ whole]) (simp add: dir_root)
    next
      case (snoc ys n)
      then have plain: "plainList ys" "plainName n" using Suc.prems(1) by simp_all
      have "pathOf ys \<noteq> pathOf (ys @ [n])" using plain by (simp add: pathOf_inject)
      then have "canonFrom fs (Suc fuel) (pathOf whole) (pathOf xs) ns = canonFrom fs fuel (pathOf whole) (pathOf ys) (n # ns)"
        using None by (simp add: snoc dir_pathOf [OF plain] Let_def)
      then show ?thesis using Suc.IH [of ys "n # ns"] plain Suc.prems snoc by simp
    qed
  qed
qed simp

lemma pathOf_length: "plainList xs \<Longrightarrow> length xs < length (pathOf xs) + 1"
proof (induction xs)
  case (Cons x xs)
  then have "1 \<le> length x" by (cases x) (simp_all add: plainName_def)
  with Cons show ?case by (cases "xs = []") (simp_all add: pathOf_def joinWith_Cons)
qed simp

lemma canonicalize_returns:
  assumes "resolvesLinks fs" "plainList xs"
  obtains zs where "plainList zs" "canonicalizeExistingPrefix fs (pathOf xs) = Some (pathOf zs)"
  using canonFrom_returns [OF assms(1,2) assms(2), of "[]" "length (pathOf xs) + 1"] pathOf_length [OF assms(2)]
  by (auto simp: canonicalizeExistingPrefix_def)

lemma canonicalize_fixed:
  "plainList xs \<Longrightarrow> fsEval fs (pathOf xs) = Some (pathOf xs) \<Longrightarrow> canonicalizeExistingPrefix fs (pathOf xs) = Some (pathOf xs)"
  by (simp add: canonicalizeExistingPrefix_def)

text \<open>The check always answers, and a pass means that nothing lies below both canonical paths.\<close>

lemma canonicalize_answers:
  assumes "resolvesLinks fs" "isAbs p"
  obtains zs where "plainList zs" "canonicalizeExistingPrefix fs (cleanPath p) = Some (pathOf zs)"
  using clean_abs [OF assms(2)] canonicalize_returns [OF assms(1)] by metis

lemma disjoint_answers:
  assumes "resolvesLinks fs" shows "RequireDisjointPaths fs w s \<noteq> None"
proof (cases "isAbs w \<and> isAbs s")
  case True
  then obtain x y where "canonicalizeExistingPrefix fs (cleanPath w) = Some x"
    "canonicalizeExistingPrefix fs (cleanPath s) = Some y"
    using canonicalize_answers [OF assms] by metis
  then show ?thesis by (simp add: RequireDisjointPaths_def split: sum.split)
qed (auto simp: RequireDisjointPaths_def)

lemma apart:
  assumes "plainList xs" "plainList ys"
  shows "containsPath (pathOf xs) (pathOf ys) \<or> containsPath (pathOf ys) (pathOf xs)
     \<longleftrightarrow> (\<exists>q. below (pathOf xs) q \<and> below (pathOf ys) q)"
    (is "?C \<longleftrightarrow> ?E")
proof
  assume ?C
  then have "below (pathOf xs) (pathOf ys) \<or> below (pathOf ys) (pathOf xs)"
    by (simp add: contains_pathOf below_pathOf assms)
  moreover have "below (pathOf zs) (pathOf zs)" for zs by (simp add: below_def)
  ultimately show ?E by blast
next
  assume ?E
  then obtain q where "prefix xs (elems q)" "prefix ys (elems q)" using assms by (auto simp: below_def)
  then show ?C using prefix_same_cases by (auto simp: contains_pathOf assms)
qed

lemma below_file:
  "plainList xs \<Longrightarrow> plainName n \<Longrightarrow> below (pathOf xs) (joinPath [pathOf xs, n])"
  by (simp add: below_pathOf)

section \<open>Resolved directories\<close>

lemma candidate_of_absolute:
  assumes "isAbs p" "WorkspaceCandidate cwd p [] [slash] = Inr c"
  shows "c = cleanPath p"
proof -
  obtain xs where "plainList xs" "cleanPath p = pathOf xs" using clean_abs [OF assms(1)] .
  then show ?thesis
    using assms by (auto simp: WorkspaceCandidate_def isAbs_def hasPrefix_def absPath_def rbind_def split: sum.splits if_splits)
qed

lemma resolved_is_canonical:
  assumes "resolvesLinks fs" "ResolveAbsolute fs p = Inr r"
  obtains xs where "plainList xs" "r = pathOf xs" "fsEval fs r = Some r" "fsIsDir fs r"
proof -
  have p: "isAbs p" using assms(2) by (simp add: ResolveAbsolute_def split: if_splits)
  from assms(2) p obtain c real where c: "WorkspaceCandidate (fsCwd fs) p [] [slash] = Inr c"
    "fsEval fs c = Some real" "fsIsDir fs real" "r = cleanPath real"
    by (auto simp: ResolveAbsolute_def ResolveWorkspace_def rbind_def split: sum.splits option.splits if_splits)
  then have "isAbs c" using candidate_of_absolute [OF p c(1)] clean_abs [OF p] pathOf_abs(1) by metis
  then obtain xs where "plainList xs" "real = pathOf xs" "fsEval fs real = Some real"
    using assms(1) c(2) by (auto simp: resolvesLinks_def)
  with c(3,4) show thesis by (intro that) simp_all
qed

lemma resolve_again:
  assumes "resolvesLinks fs" "ResolveAbsolute fs p = Inr r" "ResolveAbsolute fs r = Inr r'"
  shows "r' = r"
proof -
  obtain xs where r: "plainList xs" "r = pathOf xs" "fsEval fs r = Some r"
    using resolved_is_canonical [OF assms(1,2)] by blast
  then have abs: "isAbs r" by simp
  with assms(3) obtain c real where c: "WorkspaceCandidate (fsCwd fs) r [] [slash] = Inr c"
    "fsEval fs c = Some real" "r' = cleanPath real"
    by (auto simp: ResolveAbsolute_def ResolveWorkspace_def rbind_def split: sum.splits option.splits if_splits)
  have "c = r" using candidate_of_absolute [OF abs c(1)] r(1,2) by simp
  with c(2,3) r show ?thesis by simp
qed

lemma resolved_apart:
  assumes links: "resolvesLinks fs" and w: "ResolveAbsolute fs wp = Inr w" and s: "ResolveAbsolute fs sp = Inr s"
    and pass: "RequireDisjoint fs w s = Some (Inr ())"
  shows "\<not> (below w q \<and> below s q)"
proof -
  obtain xs where x: "plainList xs" "w = pathOf xs" "fsEval fs w = Some w"
    using resolved_is_canonical [OF links w] by blast
  obtain ys where y: "plainList ys" "s = pathOf ys" "fsEval fs s = Some s"
    using resolved_is_canonical [OF links s] by blast
  from pass obtain w' s' where "ResolveAbsolute fs w = Inr w'" "ResolveAbsolute fs s = Inr s'"
    and disj: "RequireDisjointPaths fs w' s' = Some (Inr ())"
    by (auto simp: RequireDisjoint_def split: sum.splits)
  then have "RequireDisjointPaths fs w s = Some (Inr ())"
    using resolve_again [OF links w] resolve_again [OF links s] by simp
  then have "\<not> (containsPath w s \<or> containsPath s w)"
    using canonicalize_fixed [OF x(1)] canonicalize_fixed [OF y(1)] x y
    by (auto simp: RequireDisjointPaths_def split: sum.splits if_splits)
  then show ?thesis using apart [OF x(1) y(1)] x(2) y(2) by blast
qed

section \<open>The plan\<close>

lemma service_mounts_checked:
  "validateServiceMounts fs service req targets ms = Inr () \<Longrightarrow>
     distinct (map cmTarget ms) \<and> set (map cmTarget ms) \<inter> set targets = {}
     \<and> (req \<longrightarrow> (\<forall>m \<in> set ms. fsLstat fs (cmSource m) = Some KindRegular \<or> fsLstat fs (cmSource m) = Some KindDirectory))"
  by (induction fs service req targets ms rule: validateServiceMounts.induct)
     (auto split: if_splits sum.splits option.splits)

lemma writable_checked:
  assumes "checkWritable w ms = Inr ()"
  shows "\<exists>m. filter (\<lambda>m. \<not> cmReadOnly m) ms = [m] \<and> cmSource m = w \<and> cmTarget m = ''/workspace''"
proof -
  have "length (filter (\<lambda>m. \<not> cmReadOnly m) ms) = 1" and
    all: "\<forall>m \<in> set (filter (\<lambda>m. \<not> cmReadOnly m) ms). cmSource m = w \<and> cmTarget m = ''/workspace''"
    using assms by (auto simp: checkWritable_def Let_def list_ex_iff split: if_splits)
  then obtain m where "filter (\<lambda>m. \<not> cmReadOnly m) ms = [m]" by (auto simp: length_Suc_conv)
  with all show ?thesis by auto
qed

lemma mount_paths:
  assumes "mountPaths fs p True = Inr (w, s, r)"
  shows "ResolveAbsolute fs (mqWorkspace p) = Inr w" "ResolveAbsolute fs (mqStageDir p) = Inr s"
    "RequireDisjoint fs w s = Some (Inr ())" "r = s"
  using assms by (auto simp: mountPaths_def split: sum.splits option.splits if_splits)

text \<open>The disjointness check always answers, so that branch of the plan is never taken.\<close>

theorem mount_plan_never_stuck:
  assumes "resolvesLinks fs" shows "buildComposeMountPlan fs p req \<noteq> Inl CanonicalizationStuck"
proof -
  have "\<not> RequireDisjoint fs w s = None" for w s
    using disjoint_answers [OF assms] by (simp add: RequireDisjoint_def split: sum.split)
  then have answers_iff: "RequireDisjoint fs w s = None \<longleftrightarrow> False" for w s by blast
  then have "mountPaths fs p req \<noteq> Inl CanonicalizationStuck"
    by (auto simp: mountPaths_def answers_iff split: sum.split option.split simp del: not_None_eq)
  moreover have "validateServiceMounts fs service req ts ms \<noteq> Inl CanonicalizationStuck" for service ts ms
    by (cases req; induction ms arbitrary: ts) (auto split: sum.split option.split)
  moreover have "checkWritable w ms \<noteq> Inl CanonicalizationStuck" for w ms
    by (simp add: checkWritable_def Let_def)
  moreover have "validateProjectionSnapshotMounts d m \<noteq> Inl CanonicalizationStuck" for d m
    by (simp add: validateProjectionSnapshotMounts_def split: option.split)
  ultimately show ?thesis
    by (auto simp: buildComposeMountPlan_def rbind_def Let_def split: sum.splits)
qed

text \<open>(C36) Of everything mounted into the two containers the agent can write to its workspace alone. The
  configuration its proxy reads lies below the resolved stage, and no path lies below both the resolved
  workspace and the resolved stage, wherever their symbolic links lead. No two mounts of the agent
  share a target, and each source is a file or a directory that is there and is not a link.\<close>

theorem agent_cannot_write_its_boundary:
  assumes "resolvesLinks fs" and "buildComposeMountPlan fs p True = Inr plan"
  shows "\<exists>w s. ResolveAbsolute fs (mqWorkspace p) = Inr w \<and> ResolveAbsolute fs (mqStageDir p) = Inr s
     \<and> filter (\<lambda>m. \<not> cmReadOnly m) (mpProxy plan @ mpAgent plan)
         = [\<lparr>cmSource = w, cmTarget = ''/workspace'', cmReadOnly = False\<rparr>]
     \<and> mpProxy plan \<noteq> [] \<and> (\<forall>m \<in> set (mpProxy plan). below s (cmSource m) \<and> \<not> below w (cmSource m))
     \<and> (\<nexists>q. below w q \<and> below s q)
     \<and> distinct (map cmTarget (mpAgent plan))
     \<and> (\<forall>m \<in> set (mpProxy plan @ mpAgent plan).
          fsLstat fs (cmSource m) = Some KindRegular \<or> fsLstat fs (cmSource m) = Some KindDirectory)"
proof -
  from assms(2) obtain w s r where paths: "mountPaths fs p True = Inr (w, s, r)"
    and plan: "plan = plannedMounts p (w, s, r)"
    and proxy: "validateServiceMounts fs ''proxy'' True [] (mpProxy plan) = Inr ()"
    and agent: "validateServiceMounts fs ''agent'' True [] (mpAgent plan) = Inr ()"
    and writable: "checkWritable w (mpAgent plan) = Inr ()"
    by (auto simp: buildComposeMountPlan_def rbind_def Let_def split: sum.splits)
  note found = mount_paths [OF paths]
  obtain xs where s: "plainList xs" "s = pathOf xs"
    using resolved_is_canonical [OF assms(1) found(2)] by blast
  have apart: "\<not> (below w q \<and> below s q)" for q by (rule resolved_apart [OF assms(1) found(1-3)])
  have names: "plainName ''squid.conf''" "plainName ''allowlist.domains''" "plainName ''proxy-overlay''"
    by (simp_all add: plainName_def slash_def)
  have "\<forall>m \<in> set (mpProxy plan). below s (cmSource m)"
    using names by (simp add: plan plannedMounts_def found(4) s below_file below_pathOf)
  moreover have "filter (\<lambda>m. \<not> cmReadOnly m) (mpProxy plan) = []" by (simp add: plan plannedMounts_def)
  moreover obtain m where "filter (\<lambda>m. \<not> cmReadOnly m) (mpAgent plan) = [m]" "cmSource m = w" "cmTarget m = ''/workspace''"
    using writable_checked [OF writable] by blast
  moreover from this have "m = \<lparr>cmSource = w, cmTarget = ''/workspace'', cmReadOnly = False\<rparr>"
    by (cases m) (auto dest: filter_eq_ConsD)
  moreover have "mpProxy plan \<noteq> []" by (simp add: plan plannedMounts_def)
  ultimately show ?thesis
    using found(1,2) apart service_mounts_checked [OF proxy] service_mounts_checked [OF agent] by auto
qed

definition sampleTree :: file_system where
  "sampleTree = \<lparr>fsEval = (\<lambda>p. if p \<in> set [''/'', ''/w'', ''/s''] then Some p else if p = ''/l'' then Some ''/s'' else None),
     fsIsDir = (\<lambda>p. p \<in> set [''/'', ''/w'', ''/s'', ''/l'']),
     fsLstat = (\<lambda>p. if p = ''/l'' then Some KindSymlink else if p = ''/w'' \<or> p = ''/s'' then Some KindDirectory else Some KindRegular),
     fsCwd = None\<rparr>"

definition sampleMounts :: mountParams where
  "sampleMounts = \<lparr>mqRuntimeDir = ''/l'', mqWorkspace = ''/w'', mqStageDir = ''/s'',
     mqProjection = Some [\<lparr>pmHost = ''/s/projection-snapshots/a'', pmContainer = ''/home/a'', pmTarget = ''a'', pmOptional = True, pmLabel = [],
       pmStatus = ''present''\<rparr>]\<rparr>"

lemma sampleTree_links: "resolvesLinks sampleTree"
proof -
  have "plainList [''w'']" "plainList [''s'']" "pathOf [''w''] = ''/w''" "pathOf [''s''] = ''/s''" "pathOf [] = ''/''"
    by (simp_all add: plainName_def slash_def pathOf_def)
  then have "\<exists>xs. plainList xs \<and> p = pathOf xs" if "p \<in> {''/'', ''/w'', ''/s''}" for p
    using that plainList_simps(1) by (metis empty_iff insert_iff)
  then show ?thesis by (auto simp: resolvesLinks_def sampleTree_def split: if_splits)
qed

text \<open>Lower-case paths pass the text check, and an absolute clean one is its own candidate.\<close>

definition pathLetters :: string where
  "pathLetters = ''-./abcdefghijklmnopqrstuvwxyz''"

lemma pathLetters_bytes: "list_all (\<lambda>c. 32 \<le> byte c \<and> byte c < 127) pathLetters"
  by (simp add: pathLetters_def byte_def)

lemma validateText_letters:
  assumes "list_all (\<lambda>c. c \<in> set pathLetters) p" shows "validateText p = Inr ()"
proof -
  have "validUTF8 p \<and> \<not> list_ex controlRune (runes p)" using assms
  proof (induction p)
    case (Cons c p)
    then have "32 \<le> byte c \<and> byte c < 127" using pathLetters_bytes by (auto simp: list_all_iff)
    then have "decodeRune c p = (byte c, 1)" "\<not> controlRune (byte c)"
      by (simp_all add: decodeRune_def Let_def controlRune_def controlRanges_def)
    then show ?case using Cons \<open>32 \<le> byte c \<and> byte c < 127\<close> by auto
  qed simp
  then show ?thesis by (simp add: validateText_def)
qed

lemma candidate_letters:
  assumes "isAbs p \<and> cleanPath p = p \<and> list_all (\<lambda>c. c \<in> set pathLetters) p"
  shows "WorkspaceCandidate cwd p [] [slash] = Inr p" "isAbs p" "cleanPath p = p"
proof -
  have "validateText p = Inr ()" "validateText [slash] = Inr ()" "validateText [] = Inr ()"
    using assms validateText_letters by (simp_all add: pathLetters_def slash_def)
  then show "WorkspaceCandidate cwd p [] [slash] = Inr p" "isAbs p" "cleanPath p = p"
    using assms by (auto simp: WorkspaceCandidate_def absPath_def isAbs_def rbind_def hasPrefix_def)
qed

definition samplePaths :: "string list" where
  "samplePaths =
     [''/w'', ''/s'', ''/l'', ''/workspace'', ''/safeslop/runtime'', ''/home/a'', ''/s/projection-snapshots/a'',
      ''/s/squid.conf'', ''/s/allowlist.domains'', ''/s/proxy-overlay'',
      ''/etc/squid/squid.conf'', ''/etc/squid/allowlist.domains'', ''/etc/squid/safeslop.d'']"

lemma sample_paths:
  "list_all (\<lambda>p. isAbs p \<and> cleanPath p = p \<and> list_all (\<lambda>c. c \<in> set pathLetters) p) samplePaths"
  by code_simp

lemma sample_texts:
  "list_all (\<lambda>p. (\<forall>cwd. WorkspaceCandidate cwd p [] [slash] = Inr p) \<and> isAbs p \<and> cleanPath p = p) samplePaths"
  using sample_paths candidate_letters(1) by (simp add: list_all_iff)

lemmas sample_candidates = sample_texts [unfolded samplePaths_def list.pred_inject simp_thms]

lemma sample_joins:
  "joinPath [''/s'', ''squid.conf''] = ''/s/squid.conf''" "joinPath [''/s'', ''allowlist.domains''] = ''/s/allowlist.domains''"
  "joinPath [''/s'', ''proxy-overlay''] = ''/s/proxy-overlay''"
  "snapshotAllowed (cleanPath (joinPath [''/s'', ''projection-snapshots'']))
     \<lparr>pmHost = ''/s/projection-snapshots/a'', pmContainer = ''/home/a'', pmTarget = ''a'', pmOptional = True, pmLabel = [],
       pmStatus = ''present''\<rparr>"
  "\<not> containsPath ''/w'' ''/s''" "\<not> containsPath ''/s'' ''/w''"
  by code_simp+

lemma sample_resolved:
  "ResolveAbsolute sampleTree ''/w'' = Inr ''/w''" "ResolveAbsolute sampleTree ''/s'' = Inr ''/s''"
  "ResolveAbsolute sampleTree ''/l'' = Inr ''/s''"
  using validateText_letters [of "''/w''"] validateText_letters [of "''/s''"]
  by (simp_all add: ResolveAbsolute_def ResolveWorkspace_def sample_candidates rbind_def)
    (simp_all add: sampleTree_def sample_candidates pathLetters_def)

lemma sample_disjoint: "RequireDisjoint sampleTree ''/w'' ''/s'' = Some (Inr ())"
proof -
  have "canonicalizeExistingPrefix sampleTree ''/w'' = Some ''/w''" "canonicalizeExistingPrefix sampleTree ''/s'' = Some ''/s''"
    by (simp_all add: canonicalizeExistingPrefix_def sampleTree_def sample_candidates)
  moreover have "validateText ''/w'' = Inr ()" "validateText ''/s'' = Inr ()"
    by (simp_all add: validateText_letters pathLetters_def)
  ultimately show ?thesis
    using sample_joins(5,6) by (simp add: RequireDisjoint_def RequireDisjointPaths_def sample_resolved sample_candidates)
qed

lemma sample_kinds:
  "fsLstat sampleTree ''/s/squid.conf'' = Some KindRegular" "fsLstat sampleTree ''/s/allowlist.domains'' = Some KindRegular"
  "fsLstat sampleTree ''/s/proxy-overlay'' = Some KindRegular" "fsLstat sampleTree ''/s/projection-snapshots/a'' = Some KindRegular"
  "fsLstat sampleTree ''/w'' = Some KindDirectory" "fsLstat sampleTree ''/s'' = Some KindDirectory"
  by (simp_all add: sampleTree_def)

lemma sample_planned:
  "buildComposeMountPlan sampleTree sampleMounts True = Inr (plannedMounts sampleMounts (''/w'', ''/s'', ''/s''))"
proof -
  have "validateProjectionSnapshotMounts ''/s'' (mqProjection sampleMounts) = Inr ()"
    using sample_joins(4) by (simp add: validateProjectionSnapshotMounts_def sampleMounts_def PresentMounts_def)
  moreover have "mountPaths sampleTree sampleMounts True = Inr (''/w'', ''/s'', ''/s'')"
    by (simp add: mountPaths_def sampleMounts_def sample_resolved sample_disjoint)
  moreover have "validateServiceMounts sampleTree ''proxy'' True [] (mpProxy (plannedMounts sampleMounts (''/w'', ''/s'', ''/s''))) = Inr ()"
    by (simp add: plannedMounts_def sample_joins sample_candidates sample_kinds)
  moreover have "validateServiceMounts sampleTree ''agent'' True [] (mpAgent (plannedMounts sampleMounts (''/w'', ''/s'', ''/s''))) = Inr ()"
    by (simp add: plannedMounts_def sampleMounts_def PresentMounts_def sample_candidates sample_kinds)
  moreover have "checkWritable ''/w'' (mpAgent (plannedMounts sampleMounts (''/w'', ''/s'', ''/s''))) = Inr ()"
    by (simp add: plannedMounts_def sampleMounts_def PresentMounts_def checkWritable_def)
  moreover have "mqStageDir sampleMounts = ''/s''" by (simp add: sampleMounts_def)
  ultimately show ?thesis by (simp add: buildComposeMountPlan_def rbind_def)
qed

theorem agent_cannot_write_its_boundary_witness:
  "filter (\<lambda>m. \<not> cmReadOnly m) (mpAgent (plannedMounts sampleMounts (''/w'', ''/s'', ''/s'')))
     = [\<lparr>cmSource = ''/w'', cmTarget = ''/workspace'', cmReadOnly = False\<rparr>]
   \<and> (\<nexists>q. below ''/w'' q \<and> below ''/s'' q)"
proof -
  have "ResolveAbsolute sampleTree (mqWorkspace sampleMounts) = Inr ''/w''"
    "ResolveAbsolute sampleTree (mqStageDir sampleMounts) = Inr ''/s''"
    using sample_resolved by (simp_all add: sampleMounts_def)
  moreover have "filter (\<lambda>m. \<not> cmReadOnly m) (mpProxy (plannedMounts sampleMounts (''/w'', ''/s'', ''/s''))) = []"
    by (simp add: plannedMounts_def)
  ultimately show ?thesis
    using agent_cannot_write_its_boundary [OF sampleTree_links sample_planned] by auto
qed

end
