(* ===== verification/Spec2Isabelle.thy ===== *)
theory Spec2Isabelle
  imports ProtocolSpec EgressPolicy EgressGeneration SessionRecordLaws SessionStoreLaws
    AdapterProjection SessionSockets StopLaws ReadableStore Wire BumpLaws EgressComposed Lease PromotionLaws
    EvaluationExact ChildEnv WorkspaceLaws
begin

text \<open>
  \<^bold>\<open>Verification library of safeslop\<close>

  safeslop launches a coding agent inside a boundary, a container whose only way out is a filtering
  proxy, and keeps a durable record of every such session. The operator grants a running session single
  destinations, revokes them, promotes what a session needed to a profile, and stops sessions; several
  processes do this at once, system calls fail, and the machine can stop between any two of them. The
  library models the parts that decide what an agent may reach and what the records say about it, and
  proves that records and reality never part.

  \<^bold>\<open>Shared vocabulary.\<close> \<open>Prelude\<close> has results as sums (\<open>Inl\<close> an error), the wrap-around of the Go type
  \<open>int\<close>, bit sets as words, and the two locales for step relations, \<open>invariant_system\<close> and
  \<open>simulated_system\<close>. \<open>GoText\<close> has Go strings as byte lists with the library functions the code calls.
  \<open>Sha256\<close> is FIPS 180-4.

  \<^bold>\<open>The session state machine\<close> (\<open>engine/session/protocol.go\<close>). \<open>ProtocolRelation\<close> is the reducer, every
  action with its guards, over 64-bit grant sets and any bounds. \<open>ProtocolSafety\<close> finds its invariant,
  \<open>ProtocolLaws\<close> the safety properties and that every reachable state can still be stopped, and
  \<open>ProtocolSpec\<close> proves it equal, as a labelled graph, to the TLA+ model in \<open>formal/session\<close>.

  \<^bold>\<open>Records and their store\<close> (\<open>session.go\<close>, \<open>egress_grant.go\<close>, \<open>store.go\<close>, \<open>atomic.go\<close>).
  \<open>SessionRecord\<close> is the record, the grant operations, the validators and the codec to the field values
  of the JSON file; \<open>SessionRecordLaws\<close> the round trip and what the operations keep. \<open>SessionStore\<close> is the
  store over a directory whose system calls may fail as a script says; \<open>SessionStoreLaws\<close> shows that a
  write tells the truth about the disk and that a save is a compare-and-swap, \<open>ReadableStore\<close> that no
  sequence of operations, faults and crashes leaves a record unreadable.

  \<^bold>\<open>From records to the state machine and back.\<close> \<open>ProtocolAdapter\<close> is the adapter of \<open>protocol.go\<close>;
  \<open>ProtocolAdapterLaws\<close> and \<open>AdapterProjection\<close> show that symbolic and concrete generations correspond
  and that a projected record changes only what the state machine owns.

  \<^bold>\<open>Lifecycle.\<close> \<open>SessionSockets\<close> is the naming and sweeping of control sockets, \<open>SessionLifecycle\<close> the
  handlers (claim, handoff, release, finish, reconcile, stop, remove, prune), \<open>LifecycleLaws\<close> and
  \<open>StopLaws\<close> their promises under any fault. \<open>Wire\<close> is the frame protocol of \<open>session/wire\<close> and the pumps
  of \<open>bridge.go\<close> between agent, supervisor and attached client.

  \<^bold>\<open>Egress.\<close> \<open>EgressPolicy\<close> is the validator every exact destination passes and the profile data of
  \<open>policy.go\<close>; \<open>EgressGeneration\<close> the canonical text of a set of destinations, named by its hash.
  \<open>EgressDriver\<close> is the driver of \<open>cli/session_protocol.go\<close> with the grant, dismiss and revoke handlers
  of \<open>cli/session.go\<close>, over an abstract network. \<open>StageFiles\<close> and \<open>EgressApply\<close> are the container code
  that installs a generation, reads back what a proxy serves, and tears a boundary down
  (\<open>egress_grant_apply.go\<close>, \<open>reap.go\<close>, \<open>compose.go\<close>, \<open>cli/dependencies.go\<close>, \<open>cli/runtime.go\<close>).
  \<open>DriverCandidates\<close>, \<open>EgressDriverLaws\<close>, \<open>EgressSafety\<close> and \<open>EgressCalls\<close> prove the driver against the
  locale \<open>egress_boundary\<close>; \<open>StageFileLaws\<close> and \<open>EgressBoundary\<close> prove that the container code provides
  that locale, given a container engine as the locale \<open>docker_host\<close> states it; \<open>EgressComposed\<close> puts
  the two together: what is served is always granted by the record on disk, at every step and at every
  crash, and a call that reports success leaves both in agreement.

  \<^bold>\<open>Leases\<close> (\<open>creds/lease.go\<close>). \<open>Lease\<close> is the renewal loop of a staged credential with its back-off; it
  ends, renews within its deadline, and retries neither too fast nor too slowly.

  \<^bold>\<open>Promotion\<close> (\<open>promotion/promotion.go\<close>, \<open>promotion/plan.go\<close>, \<open>policy/transaction.go\<close>,
  \<open>cli/profile_promote.go\<close>). \<open>Promotion\<close> is the decision kernel, \<open>PolicyTransaction\<close> the locked and
  atomic replacement of a policy file, \<open>PromotionFlow\<close> the preview and apply commands, \<open>PromotionLaws\<close>
  their composition: an apply lands exactly what the preview showed.

  \<^bold>\<open>What an operator is told\<close> (\<open>policy/evaluation.go\<close>, \<open>risk.go\<close>, \<open>lint.go\<close>, \<open>consent.go\<close>). \<open>Evaluation\<close>
  is the authority evaluation of a profile, \<open>EvaluationCheck\<close> its two validators, \<open>Risk\<close> the older
  presentations and the consent rows. \<open>EvaluationLaws\<close> proves that an evaluation reveals no secret of
  the profile, \<open>EvaluationReports\<close> that it calls bounded only what is, and that the warnings agree with it.
  \<open>EvaluationText\<close> reads the texts of the registry, \<open>EvaluationValid\<close> proves that the registry passes its
  validator, \<open>EvaluationScopes\<close>, \<open>EvaluationSound\<close>, \<open>EvaluationAccepted\<close> and \<open>EvaluationExact\<close> that an
  evaluation passes its own exactly when its labels can be printed.

  \<^bold>\<open>The host side\<close> (\<open>engine/hostenv\<close>, \<open>engine/hostexec\<close>, \<open>cli/childenv.go\<close>). \<open>HostEnv\<close> reconstructs the
  environment of the user's shell, \<open>HostHelper\<close> resolves helper binaries in it and builds the environment
  they run with, \<open>ChildEnv\<close> the one of an agent on the host. \<open>HostLaws\<close> proves that a helper name stands for
  one file in a directory nobody else can write to, that a helper sees exactly its allowlist and that a
  dump is read back, \<open>ChildEnv\<close> that an agent sees an allowlist.

  \<^bold>\<open>Mounts\<close> (\<open>engine/workspace\<close>, \<open>container/mount_plan.go\<close>). \<open>Workspace\<close> resolves the workspace and the
  private stage of a launch and plans the bind mounts of both containers. \<open>WorkspaceLaws\<close> has the algebra of
  clean absolute paths, on which \<open>filepath.Rel\<close> decides containment, and proves that the agent can write to its
  workspace alone and that no path is below both trees. The climb to an existing ancestor has the length of
  the path as fuel, which is enough (\<open>canonFrom_returns\<close>, \<open>mount_plan_never_stuck\<close>).

  \<^bold>\<open>Packages\<close> (\<open>policy/version.go\<close>, \<open>catalog.go\<close>, \<open>resolve.go\<close>, \<open>catalog_edit.go\<close>, \<open>bump.go\<close>).
  \<open>PolicyVersion\<close> compares versions, \<open>Catalog\<close> is the catalog and the resolver, \<open>CatalogEdit\<close> the edits,
  \<open>BumpDriver\<close> the bump; \<open>CatalogLaws\<close>, \<open>ResolveLaws\<close>, \<open>EditLaws\<close> and \<open>BumpLaws\<close> show that a resolution
  is the least closed conflict-free set in install order, that edits never roll a package back, and that
  a bump pins the digests it fetched.

  \<^bold>\<open>How the code is read.\<close>
  \<^item> A fallible function returns a sum, a stateful one takes and returns its state; system calls consult a
    script of faults, so that a theorem quantifies over every pattern of failures. A crash is what the
    disk keeps of a prefix of the calls.
  \<^item> Loops are structural or carry a measure. Fuel appears where the code has a bound of its own: eight
    attempts of \<open>Create\<close> at a fresh identifier, two commit attempts of the driver, one poll more than the
    configured number in \<open>waitForProxyGeneration\<close>, one step per package in the resolver's closure
    (\<open>closure_enough\<close> shows that more fuel changes nothing), and in the lease loop a number of turns that
    \<open>lease_with_horizon_ends\<close> shows to be enough.
  \<^item> Machine integers that can overflow keep their width: grant sets and masks are 64-bit words, revisions
    and durations wrap as the Go type does.
  \<^item> The time of a command is one instant. A directory removal happens as a whole. Temporary files are not
    visible to readers. A signal to a process that is gone and the removal of a missing file count as
    done, as in the code. A failed \<open>os.WriteFile\<close> leaves a prefix. A file lock excludes only those who take it.

  \<^bold>\<open>Parameters.\<close> The CUE loader and printer, the JSON codecs of the plan file and the release manifests, the
  text \<open>fmt\<close> prints for compound values, the answers of the container engine, of the network and of the
  process table, and random choices are arguments of the definitions that use them. What is assumed of them
  is a locale or a named hypothesis, and each is shown to be satisfiable by an instance or a witness.

  \<^bold>\<open>Not modelled.\<close> The command-line front end beyond the handlers above (argument parsing, output, the trust and
  readiness sections of a profile evaluation); launching, that is image builds, the text of the compose file and seeding; the
  opening of projected host files through descriptors (\<open>hostpath\<close>); the credential providers, whose logic is the remote service's; the discovery of upstream
  versions; the catalog's own CUE input and output; goroutines, mutexes and real time.
\<close>

end
